(* ===== verification/Prelude.thy ===== *)
theory Prelude
  imports Main "HOL-Library.Word"
begin

text \<open>
  Shared vocabulary of the development: the machine words of the C sources (LP64 with the
  glibc \<open>uint_fast*_t\<close> widths: \<open>uint_fast8_t\<close> is 8 bits, \<open>uint_fast16_t\<close>, \<open>uint_fast32_t\<close>
  and \<open>uint_fast64_t\<close> are 64 bits), and the collection \<open>word_nat\<close> of rewrite rules that
  read word operations as arithmetic on natural numbers.
\<close>

unbundle bit_operations_syntax

type_synonym u8 = "8 word"
type_synonym u16 = "16 word"
type_synonym u32 = "32 word"
type_synonym u64 = "64 word"

named_theorems word_nat \<open>words as natural numbers\<close>
named_theorems bits_nat \<open>bit operations on natural numbers as arithmetic\<close>

section \<open>Word operations read as natural numbers\<close>

lemma unat_drop [word_nat]: "unat (drop_bit n w) = unat w div 2 ^ n"
  by (metis unat_drop_bit_eq drop_bit_eq_div)

lemma unat_push [word_nat]:
  "unat (push_bit n (w :: 'a::len word)) = unat w * 2 ^ n mod 2 ^ LENGTH('a)"
  by (metis unsigned_push_bit_eq push_bit_eq_mult take_bit_eq_mod)

lemma unat_conj [word_nat]: "unat (a AND b) = unat a AND unat b"
  by (rule unsigned_and_eq)

lemma unat_disj [word_nat]: "unat (a OR b) = unat a OR unat b"
  by (rule unsigned_or_eq)

lemma unat_xor [word_nat]: "unat (a XOR b) = unat a XOR unat b"
  by (rule unsigned_xor_eq)

lemma unat_cast [word_nat]:
  "unat (ucast (w :: 'a::len word) :: 'b::len word) = unat w mod 2 ^ LENGTH('b)"
  by (simp add: unsigned_ucast_eq take_bit_eq_mod)

lemma unat_truth [word_nat]: "unat (of_bool b :: 'a::len word) = of_bool b"
  by (cases b) simp_all

lemma unat_of_int [word_nat]:
  "unat (word_of_int i :: 'a::len word) = nat (i mod 2 ^ LENGTH('a))"
  by (simp add: unat_eq_nat_uint uint_word_of_int)

lemma unat_not [word_nat]:
  "unat (NOT w :: 'a::len word) = 2 ^ LENGTH('a) - 1 - unat w"
proof -
  have "w \<le> - 1" by simp
  then have "unat (- 1 - w) = unat (- 1 :: 'a word) - unat w" by (rule unat_sub)
  moreover have "unat (- 1 :: 'a word) = 2 ^ LENGTH('a) - 1"
    by (simp add: unsigned_minus_1_eq_mask mask_eq_exp_minus_1)
  moreover have "NOT w = - 1 - w" by (simp add: not_eq_complement)
  ultimately show ?thesis by simp
qed

lemma word_eq_nat: "(a = b) = (unat a = unat b)" for a b :: "'a::len word"
  by (simp add: word_unat_eq_iff)

lemmas word_arith_nat = unat_word_ariths word_less_nat_alt word_le_nat_alt word_eq_nat

lemma unat_lt_8: "unat (w :: u8) < 256"
  using unsigned_less [of w, where ?'a = nat] by simp

lemma unat_lt_16: "unat (w :: u16) < 65536"
  using unsigned_less [of w, where ?'a = nat] by simp

lemma unat_lt_32: "unat (w :: u32) < 4294967296"
  using unsigned_less [of w, where ?'a = nat] by simp

lemma unat_lt_64: "unat (w :: u64) < 18446744073709551616"
  using unsigned_less [of w, where ?'a = nat] by simp

lemmas unat_bounds = unat_lt_8 unat_lt_16 unat_lt_32 unat_lt_64

section \<open>Bit operations on natural numbers\<close>

lemma and_mask_mod: "(n :: nat) AND mask k = n mod 2 ^ k"
  by (simp add: take_bit_eq_mask [symmetric] take_bit_eq_mod)

lemma and_mask_num: "k < 64 \<Longrightarrow> m = 2 ^ k - 1 \<Longrightarrow> (n :: nat) AND m = n mod 2 ^ k"
  using and_mask_mod [of n k] by (simp add: mask_eq_exp_minus_1)

lemma and_masks_nat [bits_nat]:
  "(n :: nat) AND 1 = n mod 2"
  "(n :: nat) AND 3 = n mod 4"
  "(n :: nat) AND 7 = n mod 8"
  "(n :: nat) AND 15 = n mod 16"
  "(n :: nat) AND 31 = n mod 32"
  "(n :: nat) AND 63 = n mod 64"
  "(n :: nat) AND 127 = n mod 128"
  "(n :: nat) AND 255 = n mod 256"
  "(n :: nat) AND 511 = n mod 512"
  "(n :: nat) AND 1023 = n mod 1024"
  "(n :: nat) AND 2047 = n mod 2048"
  "(n :: nat) AND 4095 = n mod 4096"
  "(n :: nat) AND 8191 = n mod 8192"
  "(n :: nat) AND 16383 = n mod 16384"
  "(n :: nat) AND 32767 = n mod 32768"
  "(n :: nat) AND 65535 = n mod 65536"
  by (simp_all add: and_mask_num [where k = 1 and m = 1]
    and_mask_num [where k = 2 and m = 3]
    and_mask_num [where k = 3 and m = 7]
    and_mask_num [where k = 4 and m = 15]
    and_mask_num [where k = 5 and m = 31]
    and_mask_num [where k = 6 and m = 63]
    and_mask_num [where k = 7 and m = 127]
    and_mask_num [where k = 8 and m = 255]
    and_mask_num [where k = 9 and m = 511]
    and_mask_num [where k = 10 and m = 1023]
    and_mask_num [where k = 11 and m = 2047]
    and_mask_num [where k = 12 and m = 4095]
    and_mask_num [where k = 13 and m = 8191]
    and_mask_num [where k = 14 and m = 16383]
    and_mask_num [where k = 15 and m = 32767]
    and_mask_num [where k = 16 and m = 65535])

lemma and_wide_masks_nat [bits_nat]:
  "(n :: nat) AND 2097151 = n mod 2097152"
  "(n :: nat) AND 4194303 = n mod 4194304"
  "(n :: nat) AND 8388607 = n mod 8388608"
  "(n :: nat) AND 2147483647 = n mod 2147483648"
  "(n :: nat) AND 4294967295 = n mod 4294967296"
  "(n :: nat) AND 281474976710655 = n mod 281474976710656"
  "(n :: nat) AND 2251799813685247 = n mod 2251799813685248"
  "(n :: nat) AND 4503599627370495 = n mod 4503599627370496"
  "(n :: nat) AND 4611686018427387903 = n mod 4611686018427387904"
  "(n :: nat) AND 9223372036854775807 = n mod 9223372036854775808"
  by (simp_all add: and_mask_num [where k = 21 and m = 2097151]
    and_mask_num [where k = 22 and m = 4194303]
    and_mask_num [where k = 23 and m = 8388607]
    and_mask_num [where k = 31 and m = 2147483647]
    and_mask_num [where k = 32 and m = 4294967295]
    and_mask_num [where k = 48 and m = 281474976710655]
    and_mask_num [where k = 51 and m = 2251799813685247]
    and_mask_num [where k = 52 and m = 4503599627370495]
    and_mask_num [where k = 62 and m = 4611686018427387903]
    and_mask_num [where k = 63 and m = 9223372036854775807])

lemma or_truth_nat [bits_nat]: "(n :: nat) OR of_bool b = n + of_bool (b \<and> even n)"
  by (cases b) (simp_all add: or_one_eq or_Suc_0_eq)

lemma or_disjoint_nat:
  assumes "(b :: nat) < 2 ^ k"
  shows "a * 2 ^ k OR b = a * 2 ^ k + b"
proof -
  have low: "\<not> bit b i" if "k \<le> i" for i
    using that assms by (metis bit_take_bit_iff not_le take_bit_nat_eq_self_iff)
  have high: "bit (a * 2 ^ k) i \<Longrightarrow> k \<le> i" for i
    using bit_push_bit_iff_nat [of k a i] by (simp add: push_bit_eq_mult)
  have "\<not> (bit (a * 2 ^ k) i \<and> bit b i)" for i
    using low high by blast
  then have "a * 2 ^ k AND b = 0"
    by (intro bit_eqI) (simp add: bit_and_iff)
  then show ?thesis
    by (simp add: disjunctive_add_eq_or)
qed

lemma or_high_nat: "b < 2 ^ k \<Longrightarrow> (b :: nat) OR a * 2 ^ k = a * 2 ^ k + b"
  using or_disjoint_nat [of b k a] by (simp add: or.commute)

section \<open>Powers of two\<close>

lemma div_pow2_lt: "(n :: nat) < 2 ^ (k + j) \<Longrightarrow> n div 2 ^ k < 2 ^ j"
  by (simp add: less_mult_imp_div_less power_add mult.commute)

lemma pow2_le_div: "2 ^ (k + j) \<le> (n :: nat) \<Longrightarrow> 2 ^ j \<le> n div 2 ^ k"
  by (simp add: power_add less_eq_div_iff_mult_less_eq mult.commute)

lemma mod_pow2_split:
  "(n :: nat) mod 2 ^ (k + j) = n mod 2 ^ k + 2 ^ k * (n div 2 ^ k mod 2 ^ j)"
  unfolding power_add by (subst mod_mult2_eq) simp

lemma shl_mod_pow2:
  assumes "d \<le> L"
  shows "(n :: nat) * 2 ^ (L - d) mod 2 ^ L = (n mod 2 ^ d) * 2 ^ (L - d)"
proof -
  have "2 ^ L = (2 :: nat) ^ d * 2 ^ (L - d)" using assms by (simp flip: power_add)
  then show ?thesis by (simp add: mult_mod_left)
qed

text \<open>The C idiom \<open>-dist & 31\<close> (or \<open>63\<close>): the complement of a shift distance.\<close>

lemma unat_neg_mask:
  assumes "k \<le> LENGTH('a::len)" "m = 2 ^ k - 1"
  shows "unat ((- (w :: 'a word)) AND word_of_nat m) = (2 ^ k - unat w mod 2 ^ k) mod 2 ^ k"
proof -
  have "unat (word_of_nat m :: 'a word) = mask k"
  proof -
    have "(2 :: nat) ^ k \<le> 2 ^ LENGTH('a)" using assms(1) by (rule power_increasing) simp
    moreover have "(0 :: nat) < 2 ^ k" by simp
    ultimately have "m < 2 ^ LENGTH('a)" using assms(2) by linarith
    then have "unat (word_of_nat m :: 'a word) = m" by (simp only: unat_of_nat mod_less)
    then show ?thesis using assms(2) by (simp only: mask_eq_exp_minus_1)
  qed
  then have "unat ((- w) AND word_of_nat m) = unat (- w) mod 2 ^ k"
    by (simp add: unat_conj and_mask_mod)
  moreover have "int (unat (- w) mod 2 ^ k) = (- int (unat w)) mod 2 ^ k"
  proof -
    have "(2 :: int) ^ k dvd 2 ^ LENGTH('a)" using assms(1) by (rule le_imp_power_dvd)
    then have "(- uint w) mod 2 ^ LENGTH('a) mod 2 ^ k = (- uint w) mod 2 ^ k"
      by (rule mod_mod_cancel)
    then show ?thesis by (simp add: zmod_int uint_word_ariths)
  qed
  moreover have "(- int (unat w)) mod 2 ^ k = int ((2 ^ k - unat w mod 2 ^ k) mod 2 ^ k)"
    by (simp add: zmod_zminus1_eq_if zmod_int of_nat_diff)
  ultimately show ?thesis by (metis of_nat_eq_iff)
qed

lemma unat_neg_31 [word_nat]: "unat ((- (w :: u64)) AND 31) = (32 - unat w mod 32) mod 32"
  using unat_neg_mask [of 5 31, where w = w] by simp

lemma unat_neg_63 [word_nat]: "unat ((- (w :: u64)) AND 63) = (64 - unat w mod 64) mod 64"
  using unat_neg_mask [of 6 63, where w = w] by simp

lemma unat_neg8_63 [word_nat]: "unat ((- (w :: u8)) AND 63) = (64 - unat w mod 64) mod 64"
  using unat_neg_mask [of 6 63, where w = w] by simp

end
