(* ===== verification/Rounding.thy ===== *)
theory Rounding
  imports Prelude
begin

text \<open>
  The abstract specification of floating-point rounding, over natural numbers only and with
  no reference to the code: rounding of a quotient to an integer in each rounding mode, the
  sticky ("jammed") shortening of a number and why it does not disturb rounding, a binary
  interchange format, and the bit pattern and exception flags IEEE 754 prescribes for the
  exact value \<open>n * 2 ^ e\<close>.
\<close>

section \<open>Rounding a quotient\<close>

datatype rmode = RNE | RTZ | RDN | RUP | RMM | ROD

definition round_up :: "rmode \<Rightarrow> bool \<Rightarrow> nat \<Rightarrow> nat \<Rightarrow> nat \<Rightarrow> bool" where
  "round_up m s q r d =
     (case m of
        RNE \<Rightarrow> d < 2 * r \<or> (2 * r = d \<and> odd q)
      | RTZ \<Rightarrow> False
      | RDN \<Rightarrow> s \<and> r \<noteq> 0
      | RUP \<Rightarrow> \<not> s \<and> r \<noteq> 0
      | RMM \<Rightarrow> d \<le> 2 * r
      | ROD \<Rightarrow> r \<noteq> 0 \<and> even q)"

definition rdiv :: "rmode \<Rightarrow> bool \<Rightarrow> nat \<Rightarrow> nat \<Rightarrow> nat" where
  "rdiv m s n d = n div d + of_bool (round_up m s (n div d) (n mod d) d)"

lemma round_up_exact [simp]: "0 < d \<Longrightarrow> \<not> round_up m s q 0 d"
  by (cases m) (simp_all add: round_up_def)

lemma rdiv_1 [simp]: "rdiv m s n (Suc 0) = n"
  by (simp add: rdiv_def)

lemma rdiv_exact: "0 < d \<Longrightarrow> rdiv m s (q * d) d = q"
  by (simp add: rdiv_def)

lemma rdiv_bounds: "n div d \<le> rdiv m s n d" "rdiv m s n d \<le> Suc (n div d)"
  by (simp_all add: rdiv_def)

lemma rdiv_scale:
  assumes "0 < c" "0 < d"
  shows "rdiv m s (c * n) (c * d) = rdiv m s n d"
proof -
  have "round_up m s q (c * r) (c * d) = round_up m s q r d" for q r
  proof -
    have "(c * d < 2 * (c * r)) = (d < 2 * r)" "(c * d \<le> 2 * (c * r)) = (d \<le> 2 * r)"
      "(2 * (c * r) = c * d) = (2 * r = d)"
      using assms(1) by (simp_all add: mult.left_commute [of 2 c])
    then show ?thesis using assms(1) by (simp add: round_up_def split: rmode.split)
  qed
  then show ?thesis
    using assms by (simp add: rdiv_def div_mult_mult1 flip: mult_mod_right)
qed

section \<open>Sticky shortening\<close>

text \<open>
  \<open>jam n d\<close> is the quotient with its lowest bit set when the division is not exact: what the
  \<open>...Jam\<close> primitives of the code compute for \<open>d = 2 ^ k\<close>.
\<close>

definition jam :: "nat \<Rightarrow> nat \<Rightarrow> nat" where
  "jam n d = n div d + of_bool (n mod d \<noteq> 0 \<and> even (n div d))"

lemma jam_1 [simp]: "jam n (Suc 0) = n"
  by (simp add: jam_def)

lemma jam_0 [simp]: "jam 0 d = 0"
  by (simp add: jam_def)

lemma jam_eq_0_iff: "0 < d \<Longrightarrow> jam n d = 0 \<longleftrightarrow> n = 0"
  by (auto simp: jam_def)

lemma jam_small: "n < d \<Longrightarrow> jam n d = of_bool (n \<noteq> 0)"
  by (simp add: jam_def)

lemma jam_scale: "0 < c \<Longrightarrow> jam (c * n) (c * d) = jam n d"
  by (simp add: jam_def div_mult_mult1 flip: mult_mod_right)

lemma jam_exact: "0 < d \<Longrightarrow> jam (q * d) d = q"
  by (simp add: jam_def)

lemma jam_less: "even B \<Longrightarrow> n < d * B \<Longrightarrow> jam n d < B"
proof -
  assume "even B" "n < d * B"
  then have "n div d < B" by (simp add: less_mult_imp_div_less mult.commute)
  moreover from this \<open>even B\<close> have "even (n div d) \<Longrightarrow> Suc (n div d) < B"
    by (metis Suc_lessI even_Suc)
  ultimately show ?thesis by (simp add: jam_def)
qed

lemma jam_ge: "0 < d \<Longrightarrow> d * B \<le> n \<Longrightarrow> B \<le> jam n d"
  by (simp add: jam_def less_eq_div_iff_mult_less_eq mult.commute trans_le_add1)

lemma jam_add: "0 < d \<Longrightarrow> even X \<Longrightarrow> jam (X * d + y) d = X + jam y d"
  by (simp add: jam_def)

lemma jam_le: "0 < d \<Longrightarrow> even X \<Longrightarrow> y \<le> X * d \<Longrightarrow> jam y d \<le> X"
  by (metis jam_exact jam_less mult.commute nat_less_le order.refl)

lemma div_diff_exact:
  assumes "0 < (r :: nat)" "r < d" "q < X"
  shows "(X * d - (q * d + r)) div d = X - q - 1" "(X * d - (q * d + r)) mod d = d - r"
proof -
  obtain z where X: "X = q + 1 + z" using assms(3) less_iff_Suc_add by auto
  then have "X * d - (q * d + r) = (d - r) + z * d"
    using assms(2) by (simp add: algebra_simps)
  moreover have "u < d \<Longrightarrow> (u + z * d) div d = z \<and> (u + z * d) mod d = u" for u
    by simp
  note this [of "d - r"]
  ultimately show "(X * d - (q * d + r)) div d = X - q - 1" "(X * d - (q * d + r)) mod d = d - r"
    using assms X by simp_all
qed

lemma jam_diff:
  assumes "0 < d" "even X" "y \<le> X * d"
  shows "jam (X * d - y) d = X - jam y d"
proof (cases "y mod d = 0")
  case True
  then obtain q where y: "y = q * d" by (metis mod_0_imp_dvd dvd_div_mult_self)
  then have "X * d - y = (X - q) * d" by (simp add: diff_mult_distrib)
  then show ?thesis using assms(1) y by (simp add: jam_exact)
next
  case False
  define q r where "q = y div d" and "r = y mod d"
  have y: "y = q * d + r" by (simp add: q_def r_def)
  have r: "0 < r" "r < d" using False assms(1) by (simp_all add: r_def)
  have q: "q < X"
  proof (rule ccontr)
    assume "\<not> q < X"
    then have "X * d \<le> q * d" by simp
    with assms(3) y r(1) show False by linarith
  qed
  have dv: "(X * d - y) div d = X - q - 1" "(X * d - y) mod d = d - r"
    using div_diff_exact [OF r q] y by simp_all
  show ?thesis
    using q r assms(2) dv by (cases "even q") (auto simp: jam_def simp flip: q_def r_def)
qed

lemma mod_Suc_even: "even d \<Longrightarrow> even q \<Longrightarrow> Suc q mod d = Suc (q mod d)"
  by (metis dvd_mod_iff even_Suc mod_Suc)

lemma div_Suc_even: "even d \<Longrightarrow> even q \<Longrightarrow> Suc q div d = q div d"
  using mod_Suc_even [of d q] by (simp add: div_Suc)

lemma jam_div: "even D \<Longrightarrow> jam n d div D = n div (d * D)"
  by (auto simp: jam_def div_mult2_eq div_Suc_even)

lemma jam_mod:
  "even D \<Longrightarrow> jam n d mod D = n div d mod D + of_bool (n mod d \<noteq> 0 \<and> even (n div d))"
  by (auto simp: jam_def mod_Suc_even)

lemma jam_mod_eq_0: "0 < d \<Longrightarrow> even D \<Longrightarrow> jam n d mod D = 0 \<longleftrightarrow> n mod (d * D) = 0"
  by (auto simp: jam_mod mod_mult2_eq)

lemma jam_jam:
  assumes "0 < d" "even D"
  shows "jam (jam n d) D = jam n (d * D)"
  using assms jam_mod_eq_0 [OF assms, of n] by (simp add: jam_def [of "jam n d"] jam_def [of n "d * D"] jam_div)

text \<open>
  Rounding a shortened number at a position at least two bits above its lowest bit gives
  the same as rounding the exact number: the sticky bit keeps the comparison with one half.
\<close>

lemma jam_half:
  assumes "0 < d" "4 dvd D"
  shows "(D < 2 * (jam n d mod D)) = (d * D < 2 * (n mod (d * D)))"
    and "(2 * (jam n d mod D) = D) = (2 * (n mod (d * D)) = d * D)"
    and "(D \<le> 2 * (jam n d mod D)) = (d * D \<le> 2 * (n mod (d * D)))"
proof -
  obtain h where D: "D = 2 * h" "even h" using assms(2) by (auto elim!: dvdE)
  define q r where "q = n div d mod D" and "r = n mod d"
  have r: "r < d" using assms(1) by (simp add: r_def)
  have n: "n mod (d * D) = d * q + r" by (simp add: mod_mult2_eq q_def r_def)
  have j: "jam n d mod D = q + of_bool (r \<noteq> 0 \<and> even q)"
    using D by (auto simp: jam_mod q_def r_def dvd_mod_iff)
  have dD: "d * D = 2 * (d * h)" by (simp add: D)
  have lt: "d * h \<le> d * q + r \<longleftrightarrow> h \<le> q"
  proof
    show "h \<le> q \<Longrightarrow> d * h \<le> d * q + r" by (simp add: trans_le_add1)
    show "d * h \<le> d * q + r \<Longrightarrow> h \<le> q"
    proof (rule ccontr)
      assume "d * h \<le> d * q + r" "\<not> h \<le> q"
      then have "d * Suc q \<le> d * q + r"
        by (meson mult_le_mono2 not_less_eq_eq order_trans)
      with r show False by simp
    qed
  qed
  have eq: "d * q + r = d * h \<longleftrightarrow> q = h \<and> r = 0"
    using lt r by (metis add_cancel_right_right assms(1) le_add1 le_antisym mult_le_cancel1)
  have jl: "h \<le> q + of_bool (r \<noteq> 0 \<and> even q) \<longleftrightarrow> h \<le> q"
    using D(2) by (cases "h = Suc q") auto
  have je: "q + of_bool (r \<noteq> 0 \<and> even q) = h \<longleftrightarrow> q = h \<and> r = 0"
    using D(2) by auto
  show le: "(D \<le> 2 * (jam n d mod D)) = (d * D \<le> 2 * (n mod (d * D)))"
    unfolding n j unfolding dD unfolding D(1) using lt jl by (simp only: nat_mult_le_cancel_disj)
  show e: "(2 * (jam n d mod D) = D) = (2 * (n mod (d * D)) = d * D)"
    unfolding n j unfolding dD unfolding D(1) using eq je by (simp only: nat_mult_eq_cancel_disj)
  show "(D < 2 * (jam n d mod D)) = (d * D < 2 * (n mod (d * D)))"
    using le e by auto
qed

lemma rdiv_jam:
  assumes "0 < d" "4 dvd D"
  shows "rdiv m s (jam n d) D = rdiv m s n (d * D)"
proof -
  have ev: "even D" using assms(2) dvd_trans by fastforce
  have "round_up m s q (jam n d mod D) D = round_up m s q (n mod (d * D)) (d * D)" for q
    using jam_half [OF assms] jam_mod_eq_0 [OF assms(1) ev, of n]
    by (simp add: round_up_def split: rmode.split)
  then show ?thesis by (simp add: rdiv_def jam_div [OF ev])
qed

section \<open>Bit length\<close>

fun bitlen :: "nat \<Rightarrow> nat" where
  "bitlen n = (if n = 0 then 0 else Suc (bitlen (n div 2)))"

declare bitlen.simps [simp del]

lemma bitlen_0 [simp]: "bitlen 0 = 0"
  by (simp add: bitlen.simps)

lemma bitlen_eq_0_iff [simp]: "bitlen n = 0 \<longleftrightarrow> n = 0"
  by (subst bitlen.simps) simp

lemma bitlen_le_iff: "bitlen n \<le> k \<longleftrightarrow> n < 2 ^ k"
proof (induction n arbitrary: k rule: bitlen.induct)
  case (1 n)
  show ?case
  proof (cases "n = 0 \<or> k = 0")
    case True
    then show ?thesis by auto
  next
    case False
    then obtain j where k: "k = Suc j" by (cases k) auto
    have "bitlen n \<le> k \<longleftrightarrow> bitlen (n div 2) \<le> j"
      using False k by (subst bitlen.simps) simp
    also have "\<dots> \<longleftrightarrow> n div 2 < 2 ^ j" using 1 False by blast
    also have "\<dots> \<longleftrightarrow> n < 2 ^ k" using k by auto
    finally show ?thesis .
  qed
qed

lemma bitlen_ge_iff: "0 < k \<Longrightarrow> k \<le> bitlen n \<longleftrightarrow> 2 ^ (k - 1) \<le> n"
  using bitlen_le_iff [of n "k - 1"] by auto

lemma bitlen_unique: "2 ^ k \<le> n \<Longrightarrow> n < 2 ^ Suc k \<Longrightarrow> bitlen n = Suc k"
  using bitlen_le_iff [of n "Suc k"] bitlen_ge_iff [of "Suc k" n] by simp

lemma bitlen_bounds: "0 < n \<Longrightarrow> 2 ^ (bitlen n - 1) \<le> n" "n < 2 ^ bitlen n"
  using bitlen_ge_iff [of "bitlen n" n] bitlen_le_iff [of n "bitlen n"] by (simp_all, metis bitlen_eq_0_iff neq0_conv)

lemma bitlen_twice: "0 < n \<Longrightarrow> bitlen (2 * n) = Suc (bitlen n)"
  by (simp add: bitlen.simps [of "2 * n"])

lemma bitlen_double: "0 < n \<Longrightarrow> bitlen (n * 2 ^ k) = bitlen n + k"
  by (induction k) (simp_all add: mult.left_commute [of n 2] bitlen_twice)

lemma bitlen_div: "bitlen (n div 2 ^ k) = bitlen n - k"
proof (induction k arbitrary: n)
  case (Suc k)
  have "bitlen (n div 2 ^ Suc k) = bitlen (n div 2 ^ k div 2)"
    by (simp only: power_Suc2 div_mult2_eq)
  also have "\<dots> = bitlen (n div 2 ^ k) - 1"
    by (simp add: bitlen.simps [of "n div 2 ^ k"])
  finally show ?case by (simp add: Suc)
qed simp

lemma bitlen_Suc_even: "even n \<Longrightarrow> 0 < n \<Longrightarrow> bitlen (Suc n) = bitlen n"
  by (simp add: bitlen.simps [of n] bitlen.simps [of "Suc n"])

lemma bitlen_jam: "2 ^ k \<le> n \<Longrightarrow> bitlen (jam n (2 ^ k)) = bitlen n - k"
  by (auto simp: jam_def bitlen_Suc_even bitlen_div div_greater_zero_iff)

section \<open>Formats and the rounded result\<close>

text \<open>
  A format has \<open>frac_bits\<close> stored fraction bits; the lowest bit of a subnormal weighs
  \<open>2 ^ lsb_exp\<close>; the exponent field \<open>exp_max\<close> (all ones) marks infinities and NaNs.
  The magnitude bits of a finite value are monotone in the value, so rounding can be stated on them.
\<close>

record fmt =
  frac_bits :: nat
  lsb_exp :: int
  exp_max :: nat

definition f16_fmt :: fmt where
  "f16_fmt = \<lparr>frac_bits = 10, lsb_exp = - 24, exp_max = 31\<rparr>"

definition f32_fmt :: fmt where
  "f32_fmt = \<lparr>frac_bits = 23, lsb_exp = - 149, exp_max = 255\<rparr>"

definition f64_fmt :: fmt where
  "f64_fmt = \<lparr>frac_bits = 52, lsb_exp = - 1074, exp_max = 2047\<rparr>"

lemma fmt_simps [simp]:
  "frac_bits f16_fmt = 10" "lsb_exp f16_fmt = - 24" "exp_max f16_fmt = 31"
  "frac_bits f32_fmt = 23" "lsb_exp f32_fmt = - 149" "exp_max f32_fmt = 255"
  "frac_bits f64_fmt = 52" "lsb_exp f64_fmt = - 1074" "exp_max f64_fmt = 2047"
  by (simp_all add: f16_fmt_def f32_fmt_def f64_fmt_def)

definition inf_mag :: "fmt \<Rightarrow> nat" where
  "inf_mag F = exp_max F * 2 ^ frac_bits F"

definition sign_weight :: "fmt \<Rightarrow> nat" where
  "sign_weight F = Suc (exp_max F) * 2 ^ frac_bits F"

text \<open>\<open>rscale m s n j\<close> is \<open>n / 2 ^ j\<close> rounded to an integer (exact when \<open>j \<le> 0\<close>).\<close>

definition rscale :: "rmode \<Rightarrow> bool \<Rightarrow> nat \<Rightarrow> int \<Rightarrow> nat" where
  "rscale m s n j = (if j \<le> 0 then n * 2 ^ nat (- j) else rdiv m s n (2 ^ nat j))"

definition rexact :: "nat \<Rightarrow> int \<Rightarrow> bool" where
  "rexact n j = (j \<le> 0 \<or> n mod 2 ^ nat j = 0)"

text \<open>The weight of the last kept bit of \<open>n * 2 ^ e\<close>: without and with the exponent floor.\<close>

definition top_exp :: "fmt \<Rightarrow> nat \<Rightarrow> int \<Rightarrow> int" where
  "top_exp F n e = e + int (bitlen n) - 1 - int (frac_bits F)"

definition ulp_exp :: "fmt \<Rightarrow> nat \<Rightarrow> int \<Rightarrow> int" where
  "ulp_exp F n e = max (top_exp F n e) (lsb_exp F)"

definition ieee_mag :: "fmt \<Rightarrow> rmode \<Rightarrow> bool \<Rightarrow> nat \<Rightarrow> int \<Rightarrow> nat" where
  "ieee_mag F m s n e =
     (if n = 0 then 0
      else let k = ulp_exp F n e
           in nat (k - lsb_exp F) * 2 ^ frac_bits F + rscale m s n (k - e))"

definition ieee_inexact :: "fmt \<Rightarrow> nat \<Rightarrow> int \<Rightarrow> bool" where
  "ieee_inexact F n e = (n \<noteq> 0 \<and> \<not> rexact n (ulp_exp F n e - e))"

text \<open>
  Tininess: below the smallest normal number, either before rounding or after rounding
  as if the exponent range were unbounded.
\<close>

definition ieee_tiny :: "fmt \<Rightarrow> bool \<Rightarrow> rmode \<Rightarrow> bool \<Rightarrow> nat \<Rightarrow> int \<Rightarrow> bool" where
  "ieee_tiny F before m s n e =
     (let t = top_exp F n e
      in if before then t < lsb_exp F
         else t + of_bool (2 ^ Suc (frac_bits F) \<le> rscale m s n (t - e)) < lsb_exp F)"

definition overflow_to_inf :: "rmode \<Rightarrow> bool \<Rightarrow> bool" where
  "overflow_to_inf m s =
     (case m of RNE \<Rightarrow> True | RMM \<Rightarrow> True | RTZ \<Rightarrow> False | ROD \<Rightarrow> False | RDN \<Rightarrow> s | RUP \<Rightarrow> \<not> s)"

text \<open>Magnitude bits and the flag bits (1 inexact, 2 underflow, 4 overflow) of the result.\<close>

definition ieee_round :: "fmt \<Rightarrow> bool \<Rightarrow> rmode \<Rightarrow> bool \<Rightarrow> nat \<Rightarrow> int \<Rightarrow> nat \<times> u8" where
  "ieee_round F before m s n e =
     (if inf_mag F \<le> ieee_mag F m s n e
      then (if overflow_to_inf m s then inf_mag F else inf_mag F - 1, 5)
      else (ieee_mag F m s n e,
            if ieee_inexact F n e
            then (if ieee_tiny F before m s n e then 3 else 1) else 0))"

section \<open>The result depends only on the value, and only on its shortened form\<close>

lemma rscale_double: "rscale m s (n * 2 ^ k) (j + int k) = rscale m s n j"
proof (cases "j \<le> 0")
  case True
  show ?thesis
  proof (cases "j + int k \<le> 0")
    case inner: True
    then have "nat (- j) = k + nat (- (j + int k))" by simp
    with True inner show ?thesis by (simp add: rscale_def power_add mult.assoc)
  next
    case False
    with True have k: "k = nat (- j) + nat (j + int k)" by simp
    have "n * 2 ^ k = n * 2 ^ nat (- j) * 2 ^ nat (j + int k)"
      by (subst k) (simp add: power_add mult.assoc)
    then have "rdiv m s (n * 2 ^ k) (2 ^ nat (j + int k)) = n * 2 ^ nat (- j)"
      by (simp only: rdiv_exact [OF zero_less_power [OF zero_less_numeral]])
    with True False show ?thesis by (simp add: rscale_def)
  qed
next
  case False
  then have "nat (j + int k) = k + nat j" by simp
  with False show ?thesis
    using rdiv_scale [of "2 ^ k" "2 ^ nat j" m s n]
    by (simp add: rscale_def power_add mult.commute)
qed

lemma rexact_double: "rexact (n * 2 ^ k) (j + int k) = rexact n j"
proof (cases "0 < j")
  case True
  then have "nat (j + int k) = nat j + k" by simp
  with True show ?thesis
    by (simp add: rexact_def power_add mult_mod_left [symmetric] flip: mod_mult_mult2)
next
  case False
  show ?thesis
  proof (cases "j + int k \<le> 0")
    case inner: False
    then have "nat (j + int k) \<le> k" using False by simp
    then have "2 ^ nat (j + int k) dvd n * (2 ^ k :: nat)"
      by (simp add: le_imp_power_dvd)
    then show ?thesis using False inner by (simp add: rexact_def mod_eq_0_iff_dvd)
  qed (use False in \<open>simp add: rexact_def\<close>)
qed

lemma top_exp_double: "0 < n \<Longrightarrow> top_exp F (n * 2 ^ k) (e - int k) = top_exp F n e"
  by (simp add: top_exp_def bitlen_double)

lemma ieee_round_double:
  "ieee_round F t m s (n * 2 ^ k) (e - int k) = ieee_round F t m s n e"
proof (cases "n = 0")
  case False
  then have te: "top_exp F (n * 2 ^ k) (e - int k) = top_exp F n e"
    by (simp add: top_exp_double)
  then have ue: "ulp_exp F (n * 2 ^ k) (e - int k) = ulp_exp F n e"
    by (simp add: ulp_exp_def)
  have sh: "x - (e - int k) = (x - e) + int k" for x by simp
  show ?thesis
    unfolding ieee_round_def ieee_mag_def ieee_inexact_def ieee_tiny_def te ue sh
      rscale_double rexact_double Let_def by simp
qed (simp add: ieee_round_def ieee_mag_def ieee_inexact_def)

lemma rscale_jam:
  assumes "int k + 2 \<le> j"
  shows "rscale m s (jam n (2 ^ k)) (j - int k) = rscale m s n j"
proof -
  define i where "i = nat (j - int k - 2)"
  have j: "j = int (k + (i + 2))" using assms by (simp add: i_def)
  have nj: "nat j = k + (i + 2)" "nat (j - int k) = i + 2" "0 < j" "0 < j - int k"
    by (simp_all add: j)
  have "(4 :: nat) dvd 2 ^ (i + 2)" by (simp add: power_add)
  then show ?thesis
    using rdiv_jam [of "2 ^ k" "2 ^ (i + 2)" m s n]
    using nj by (simp add: rscale_def j power_add algebra_simps)
qed

lemma rexact_jam:
  assumes "int k + 1 \<le> j"
  shows "rexact (jam n (2 ^ k)) (j - int k) = rexact n j"
proof -
  define i where "i = nat (j - int k - 1)"
  have j: "j = int (k + (i + 1))" using assms by (simp add: i_def)
  have nj: "nat j = k + (i + 1)" "nat (j - int k) = i + 1" "0 < j" "0 < j - int k"
    by (simp_all add: j)
  show ?thesis
    using jam_mod_eq_0 [of "2 ^ k" "2 ^ (i + 1)" n]
    using nj by (simp add: rexact_def j power_add algebra_simps)
qed

lemma ieee_round_jam:
  assumes "k + frac_bits F + 3 \<le> bitlen n"
  shows "ieee_round F t m s (jam n (2 ^ k)) (e + int k) = ieee_round F t m s n e"
proof -
  have n: "2 ^ k \<le> n" "0 < n"
    using assms bitlen_le_iff [of n k] by (auto intro: Suc_leI gr0I)
  have te: "top_exp F (jam n (2 ^ k)) (e + int k) = top_exp F n e"
    using assms n by (simp add: top_exp_def bitlen_jam)
  then have ue: "ulp_exp F (jam n (2 ^ k)) (e + int k) = ulp_exp F n e"
    by (simp add: ulp_exp_def)
  have pos: "int k + 2 \<le> top_exp F n e - e" "int k + 2 \<le> ulp_exp F n e - e"
    using assms by (simp_all add: top_exp_def ulp_exp_def)
  have sh: "x - (e + int k) = (x - e) - int k" for x by simp
  have nz: "jam n (2 ^ k) \<noteq> 0" using n by (simp add: jam_eq_0_iff)
  have "rexact (jam n (2 ^ k)) (ulp_exp F n e - e - int k) = rexact n (ulp_exp F n e - e)"
    using pos(2) by (intro rexact_jam) simp
  then show ?thesis
    unfolding ieee_round_def ieee_mag_def ieee_inexact_def ieee_tiny_def te ue sh Let_def
      rscale_jam [OF pos(1)] rscale_jam [OF pos(2)]
    using nz n(2) by simp
qed

section \<open>Rounding by adding an increment\<close>

text \<open>
  The code rounds by adding an increment that depends on the mode, dropping the low bits, and
  then repairing the lowest kept bit: cleared on a tie to even, set when rounding to odd.
\<close>

definition round_inc :: "rmode \<Rightarrow> bool \<Rightarrow> nat \<Rightarrow> nat" where
  "round_inc m s D =
     (case m of RNE \<Rightarrow> D div 2 | RMM \<Rightarrow> D div 2 | RTZ \<Rightarrow> 0 | ROD \<Rightarrow> 0
      | RDN \<Rightarrow> if s then D - 1 else 0 | RUP \<Rightarrow> if s then 0 else D - 1)"

lemma round_inc_less: "0 < D \<Longrightarrow> round_inc m s D < D"
  by (simp add: round_inc_def split: rmode.split)

lemma div_add_small:
  fixes n D i :: nat
  assumes "0 < D" "i < D"
  shows "(n + i) div D = n div D + of_bool (D \<le> n mod D + i)"
proof -
  have "(n + i) div D = n div D + (n mod D + i) div D"
  proof -
    have "n + i = (n mod D + i) + n div D * D"
      using div_mult_mod_eq [of n D] by linarith
    then show ?thesis using assms(1) by (metis add.commute div_mult_self3 gr_implies_not0)
  qed
  moreover have "(n mod D + i) div D = of_bool (D \<le> n mod D + i)"
  proof (cases "D \<le> n mod D + i")
    case True
    have "n mod D < D" using assms(1) by simp
    then have "n mod D + i - D < D" using assms(2) by linarith
    then have "(n mod D + i - D) div D = 0" by simp
    with True show ?thesis using assms(1) by (simp add: le_div_geq)
  qed (simp add: not_le)
  ultimately show ?thesis by simp
qed

lemma rdiv_by_add:
  fixes n D :: nat and m :: rmode and s :: bool
  assumes "0 < D" "even D"
  defines "q \<equiv> (n + round_inc m s D) div D" and "r \<equiv> n mod D"
  shows "rdiv m s n D =
    (if m = ROD \<and> r \<noteq> 0 then q + of_bool (even q)
     else if m = RNE \<and> 2 * r = D then q - of_bool (odd q) else q)"
proof -
  obtain h where D: "D = 2 * h" using assms(2) by (auto elim!: evenE)
  have r: "r < D" using assms(1) by (simp add: r_def)
  have q: "q = n div D + of_bool (D \<le> r + round_inc m s D)"
    using div_add_small [OF assms(1) round_inc_less [OF assms(1)]] by (simp add: q_def r_def)
  have "rdiv m s n D = n div D + of_bool (round_up m s (n div D) r D)"
    by (simp add: rdiv_def r_def)
  then show ?thesis
    using r assms(1) q D
    by (cases m) (auto simp: round_up_def round_inc_def)
qed

lemma rdiv_reaches:
  assumes "0 < D" "even D" "even T" "n < T * D"
  shows "T \<le> rdiv m s n D \<longleftrightarrow> T * D \<le> n + round_inc m s D"
proof -
  define q where "q = (n + round_inc m s D) div D"
  have q1: "q = n div D + of_bool (D \<le> n mod D + round_inc m s D)"
    unfolding q_def by (intro div_add_small round_inc_less assms)
  have "n div D < T" using assms(4) by (simp add: less_mult_imp_div_less)
  then have qT: "q \<le> T" using q1 by simp
  have "T * D \<le> n + round_inc m s D \<longleftrightarrow> T \<le> q"
    using assms(1) by (simp add: q_def less_eq_div_iff_mult_less_eq)
  moreover have rd: "rdiv m s n D =
    (if m = ROD \<and> n mod D \<noteq> 0 then q + of_bool (even q)
     else if m = RNE \<and> 2 * (n mod D) = D then q - of_bool (odd q) else q)"
    unfolding q_def by (rule rdiv_by_add [OF assms(1,2)])
  have "T \<le> rdiv m s n D \<longleftrightarrow> T \<le> q"
  proof (cases "m = ROD")
    case True
    then have "q < T" using q1 \<open>n div D < T\<close> mod_less_divisor [OF assms(1), of n] by (simp add: round_inc_def)
    then have "even q \<Longrightarrow> Suc q < T" using assms(3) by (metis Suc_lessI even_Suc)
    then show ?thesis
      unfolding rd using \<open>q < T\<close> True by auto
  next
    case False
    have "T \<le> q - Suc 0 \<longleftrightarrow> T \<le> q" if "odd q"
      using that qT assms(3) by (metis diff_le_self le_antisym le_trans)
    then show ?thesis
      unfolding rd using False by auto
  qed
  ultimately show ?thesis by simp
qed

text \<open>
  A normalised significand \<open>n\<close> with \<open>w\<close> extra bits, at exponent \<open>x\<close>: the computation the
  packing routines perform gives the specified rounding.
\<close>

definition pack_exp :: "fmt \<Rightarrow> nat \<Rightarrow> int \<Rightarrow> int" where
  "pack_exp F w x = x + lsb_exp F - int w"

lemma pack_top_exp:
  assumes "2 ^ (frac_bits F + w) \<le> n" "n < 2 ^ (frac_bits F + w + 1)"
  shows "top_exp F n (pack_exp F w x) = x + lsb_exp F"
proof -
  have "bitlen n = Suc (frac_bits F + w)"
    using assms by (intro bitlen_unique) simp_all
  then show ?thesis by (simp add: top_exp_def pack_exp_def)
qed

lemma pack_mag:
  assumes n: "2 ^ (frac_bits F + w) \<le> n" "n < 2 ^ (frac_bits F + w + 1)" and w: "2 \<le> w"
  shows "ieee_mag F m s n (pack_exp F w x) =
      (if x < 0 then rdiv m s (jam n (2 ^ nat (- x))) (2 ^ w)
       else nat x * 2 ^ frac_bits F + rdiv m s n (2 ^ w))"
    and "ieee_inexact F n (pack_exp F w x) =
      ((if x < 0 then jam n (2 ^ nat (- x)) else n) mod 2 ^ w \<noteq> 0)"
proof -
  have pos: "n \<noteq> 0" using n(1) by (cases "n = 0") simp_all
  have u: "ulp_exp F n (pack_exp F w x) = max x 0 + lsb_exp F"
    using pack_top_exp [OF n] by (simp add: ulp_exp_def)
  have j: "max x 0 + lsb_exp F - pack_exp F w x = (if x < 0 then int w - x else int w)"
    by (simp add: pack_exp_def)
  have a: "rscale m s n (int w - x) = rdiv m s (jam n (2 ^ nat (- x))) (2 ^ w)"
    and b: "rexact n (int w - x) = (jam n (2 ^ nat (- x)) mod 2 ^ w = 0)" if "x < 0"
  proof -
    have x: "int (nat (- x)) = - x" using that by simp
    have "rscale m s (jam n (2 ^ nat (- x))) (int w - x - int (nat (- x))) = rscale m s n (int w - x)"
      using w x by (intro rscale_jam) simp
    then show "rscale m s n (int w - x) = rdiv m s (jam n (2 ^ nat (- x))) (2 ^ w)"
      using w that by (simp add: rscale_def)
    have "rexact (jam n (2 ^ nat (- x))) (int w - x - int (nat (- x))) = rexact n (int w - x)"
      using w x by (intro rexact_jam) simp
    then show "rexact n (int w - x) = (jam n (2 ^ nat (- x)) mod 2 ^ w = 0)"
      using w that by (simp add: rexact_def)
  qed
  have c: "rscale m s n (int w) = rdiv m s n (2 ^ w)" "rexact n (int w) = (n mod 2 ^ w = 0)"
    using w by (simp_all add: rscale_def rexact_def)
  show "ieee_mag F m s n (pack_exp F w x) =
      (if x < 0 then rdiv m s (jam n (2 ^ nat (- x))) (2 ^ w)
       else nat x * 2 ^ frac_bits F + rdiv m s n (2 ^ w))"
    unfolding ieee_mag_def u Let_def j using pos a c by simp
  show "ieee_inexact F n (pack_exp F w x) =
      ((if x < 0 then jam n (2 ^ nat (- x)) else n) mod 2 ^ w \<noteq> 0)"
    unfolding ieee_inexact_def u j using pos b c by simp
qed

lemma pack_tiny:
  assumes n: "2 ^ (frac_bits F + w) \<le> n" "n < 2 ^ (frac_bits F + w + 1)" and w: "2 \<le> w"
  shows "ieee_tiny F before m s n (pack_exp F w x) =
    (x < 0 \<and> (before \<or> x < - 1 \<or> n + round_inc m s (2 ^ w) < 2 ^ (frac_bits F + w + 1)))"
proof -
  have "rscale m s n (x + lsb_exp F - pack_exp F w x) = rdiv m s n (2 ^ w)"
    using w by (simp add: rscale_def pack_exp_def)
  moreover have "2 ^ Suc (frac_bits F) \<le> rdiv m s n (2 ^ w) \<longleftrightarrow>
      2 ^ (frac_bits F + w + 1) \<le> n + round_inc m s (2 ^ w)"
    using n(2) w rdiv_reaches [of "2 ^ w" "2 ^ Suc (frac_bits F)" n m s]
    by (simp add: power_add mult.assoc)
  ultimately show ?thesis
    unfolding ieee_tiny_def pack_top_exp [OF n] Let_def
    by (auto simp: not_le)
qed

end
