(* ===== verification/SF_State.thy ===== *)
theory SF_State
  imports Rounding
begin

text \<open>
  The thread-local state of the SoftFloat library (\<open>softfloat_state.c\<close>) and the only
  operation that changes it directly (\<open>softfloat_raiseFlags.c\<close>). The modes and flags are the
  enumerators of \<open>softfloat.h\<close>. Every operation of the library takes the state and returns it
  updated beside its result.
\<close>

record sf_state =
  softfloat_roundingMode :: u8
  softfloat_detectTininess :: u8
  softfloat_exceptionFlags :: u8

abbreviation (input) softfloat_tininess_beforeRounding :: u8 where
  "softfloat_tininess_beforeRounding \<equiv> 0"
abbreviation (input) softfloat_tininess_afterRounding :: u8 where
  "softfloat_tininess_afterRounding \<equiv> 1"

abbreviation (input) softfloat_round_near_even :: u8 where "softfloat_round_near_even \<equiv> 0"
abbreviation (input) softfloat_round_minMag :: u8 where "softfloat_round_minMag \<equiv> 1"
abbreviation (input) softfloat_round_min :: u8 where "softfloat_round_min \<equiv> 2"
abbreviation (input) softfloat_round_max :: u8 where "softfloat_round_max \<equiv> 3"
abbreviation (input) softfloat_round_near_maxMag :: u8 where "softfloat_round_near_maxMag \<equiv> 4"
abbreviation (input) softfloat_round_odd :: u8 where "softfloat_round_odd \<equiv> 5"

abbreviation (input) softfloat_flag_inexact :: u8 where "softfloat_flag_inexact \<equiv> 1"
abbreviation (input) softfloat_flag_underflow :: u8 where "softfloat_flag_underflow \<equiv> 2"
abbreviation (input) softfloat_flag_overflow :: u8 where "softfloat_flag_overflow \<equiv> 4"
abbreviation (input) softfloat_flag_infinite :: u8 where "softfloat_flag_infinite \<equiv> 8"
abbreviation (input) softfloat_flag_invalid :: u8 where "softfloat_flag_invalid \<equiv> 16"

text \<open>The initial values of \<open>softfloat_state.c\<close>: round to nearest even, tininess after rounding.\<close>

definition softfloat_init :: sf_state where
  "softfloat_init =
     \<lparr>softfloat_roundingMode = softfloat_round_near_even,
      softfloat_detectTininess = softfloat_tininess_afterRounding,
      softfloat_exceptionFlags = 0\<rparr>"

definition softfloat_raiseFlags :: "u8 \<Rightarrow> sf_state \<Rightarrow> sf_state" where
  "softfloat_raiseFlags flags st =
     st\<lparr>softfloat_exceptionFlags := softfloat_exceptionFlags st OR flags\<rparr>"

lemma raiseFlags_0 [simp]: "softfloat_raiseFlags 0 st = st"
  by (simp add: softfloat_raiseFlags_def)

lemma raiseFlags_raiseFlags [simp]:
  "softfloat_raiseFlags f (softfloat_raiseFlags g st) = softfloat_raiseFlags (g OR f) st"
  by (simp add: softfloat_raiseFlags_def or.assoc)

lemma raiseFlags_keeps [simp]:
  "softfloat_roundingMode (softfloat_raiseFlags f st) = softfloat_roundingMode st"
  "softfloat_detectTininess (softfloat_raiseFlags f st) = softfloat_detectTininess st"
  by (simp_all add: softfloat_raiseFlags_def)

text \<open>
  The mode a mode number stands for. A number outside the enumeration takes no branch of the
  code's mode tests, which leaves the increment 0: it truncates.
\<close>

definition rmode_of :: "u8 \<Rightarrow> rmode" where
  "rmode_of m =
     (if m = softfloat_round_near_even then RNE
      else if m = softfloat_round_min then RDN
      else if m = softfloat_round_max then RUP
      else if m = softfloat_round_near_maxMag then RMM
      else if m = softfloat_round_odd then ROD
      else RTZ)"

abbreviation tiny_before :: "sf_state \<Rightarrow> bool" where
  "tiny_before st \<equiv> softfloat_detectTininess st = softfloat_tininess_beforeRounding"

text \<open>The rounded value of \<open>(-1)^s * n * 2 ^ e\<close> as result bits (a number) and next state.\<close>

definition ieee_result :: "fmt \<Rightarrow> sf_state \<Rightarrow> bool \<Rightarrow> nat \<Rightarrow> int \<Rightarrow> nat \<times> sf_state" where
  "ieee_result F st s n e =
     (let r = ieee_round F (tiny_before st) (rmode_of (softfloat_roundingMode st)) s n e
      in (of_bool s * sign_weight F + fst r, softfloat_raiseFlags (snd r) st))"

lemma ieee_result_double: "ieee_result F st s (n * 2 ^ k) (e - int k) = ieee_result F st s n e"
  by (simp add: ieee_result_def ieee_round_double)

lemma ieee_result_jam:
  "k + frac_bits F + 3 \<le> bitlen n \<Longrightarrow>
     ieee_result F st s (jam n (2 ^ k)) (e + int k) = ieee_result F st s n e"
  by (simp add: ieee_result_def ieee_round_jam)


section \<open>The packing computation in closed form\<close>

lemma round_inc_zero: "1 \<le> w \<Longrightarrow> round_inc m s (2 ^ w) = 0 \<longleftrightarrow> \<not> overflow_to_inf m s"
proof -
  assume "1 \<le> w"
  then have "(2 :: nat) ^ 1 \<le> 2 ^ w" by (rule power_increasing) simp
  then show ?thesis by (auto simp: round_inc_def overflow_to_inf_def split: rmode.split)
qed

lemma pack_rdiv_bounds:
  assumes "2 ^ (p + w) \<le> n" "n < 2 ^ (p + w + 1)"
  shows "2 ^ p \<le> rdiv m s n (2 ^ w)" "rdiv m s n (2 ^ w) \<le> 2 ^ Suc p"
proof -
  have lo: "2 ^ p \<le> n div 2 ^ w" using pow2_le_div [of w p n] assms(1) by (simp add: add.commute)
  have hi: "n div 2 ^ w < 2 ^ Suc p" using div_pow2_lt [of n w "Suc p"] assms(2) by (simp add: add.commute)
  show "2 ^ p \<le> rdiv m s n (2 ^ w)" "rdiv m s n (2 ^ w) \<le> 2 ^ Suc p"
    using lo hi rdiv_bounds [where n = n and d = "2 ^ w" and m = m and s = s] by linarith+
qed

lemma pack_rdiv_small:
  assumes "n < 2 ^ (p + w + 1)" "0 < k" "1 \<le> w"
  shows "rdiv m s (jam n (2 ^ k)) (2 ^ w) \<le> 2 ^ p"
proof -
  have "n < 2 ^ k * 2 ^ (p + w)"
  proof -
    have "(2 :: nat) ^ (p + w + 1) \<le> 2 ^ (k + (p + w))" using assms(2) by (intro power_increasing) simp_all
    with assms(1) have "n < 2 ^ (k + (p + w))" by (rule less_le_trans)
    then show ?thesis by (simp only: power_add mult.assoc)
  qed
  then have "jam n (2 ^ k) < 2 ^ (p + w)"
    using assms(3) by (intro jam_less) simp_all
  then have "jam n (2 ^ k) div 2 ^ w < 2 ^ p"
    by (intro div_pow2_lt) (simp add: add.commute)
  then show ?thesis
    using rdiv_bounds(2) [where n = "jam n (2 ^ k)" and d = "2 ^ w" and m = m and s = s] by linarith
qed

lemma pack_overflows:
  assumes n: "2 ^ (frac_bits F + w) \<le> n" "n < 2 ^ (frac_bits F + w + 1)"
    and w: "2 \<le> w" and e: "2 \<le> exp_max F"
  shows "inf_mag F \<le> ieee_mag F m s n (pack_exp F w x) \<longleftrightarrow>
    int (exp_max F) - 2 \<le> x \<and>
    (int (exp_max F) - 2 < x \<or> 2 ^ (frac_bits F + w + 1) \<le> n + round_inc m s (2 ^ w))"
proof -
  define P r where "P = (2 :: nat) ^ frac_bits F" and "r = rdiv m s n (2 ^ w)"
  have r: "P \<le> r" "r \<le> 2 * P" using pack_rdiv_bounds [OF n] by (simp_all add: P_def r_def)
  have P: "0 < P" by (simp add: P_def)
  have reach: "2 * P \<le> r \<longleftrightarrow> 2 ^ (frac_bits F + w + 1) \<le> n + round_inc m s (2 ^ w)"
    using n(2) w rdiv_reaches [of "2 ^ w" "2 ^ Suc (frac_bits F)" n m s]
    by (simp add: power_add mult.assoc P_def r_def)
  show ?thesis
  proof (cases "x < 0")
    case True
    have le: "rdiv m s (jam n (2 ^ nat (- x))) (2 ^ w) \<le> P"
      unfolding P_def using n(2) w True by (intro pack_rdiv_small) simp_all
    then have "rdiv m s (jam n (2 ^ nat (- x))) (2 ^ w) < inf_mag F"
    proof -
      have "2 * P \<le> exp_max F * P" using e by simp
      then show ?thesis using le P unfolding inf_mag_def P_def [symmetric] by linarith
    qed
    then show ?thesis using True e by (simp add: pack_mag(1) [OF n w])
  next
    case False
    then obtain k where x: "x = int k" using zero_le_imp_eq_int by fastforce
    have iff: "exp_max F * P \<le> k * P + r \<longleftrightarrow> exp_max F \<le> k + 1 \<or> (exp_max F = k + 2 \<and> 2 * P \<le> r)"
    proof -
      consider "exp_max F \<le> k + 1" | "exp_max F = k + 2" | "k + 3 \<le> exp_max F" by linarith
      then show ?thesis
      proof cases
        case 1
        then have "exp_max F * P \<le> (k + 1) * P" by (rule mult_le_mono1)
        then show ?thesis using 1 r by simp
      next
        case 2
        then show ?thesis by (simp add: mult_2 [of P])
      next
        case 3
        then have "(k + 3) * P \<le> exp_max F * P" by (rule mult_le_mono1)
        moreover have "(k + 3) * P = k * P + 3 * P" by (simp add: algebra_simps)
        ultimately have "k * P + r < exp_max F * P" using r P by linarith
        then show ?thesis using 3 by simp
      qed
    qed
    show ?thesis
      using False e iff reach by (auto simp: pack_mag(1) [OF n w] inf_mag_def x simp flip: P_def r_def)
  qed
qed

lemma ieee_result_pack:
  fixes st :: sf_state and s :: bool and n :: nat and x :: int
  assumes n: "2 ^ (frac_bits F + w) \<le> n" "n < 2 ^ (frac_bits F + w + 1)"
    and w: "2 \<le> w" and e: "2 \<le> exp_max F"
  defines "m \<equiv> rmode_of (softfloat_roundingMode st)"
  defines "inc \<equiv> round_inc m s (2 ^ w)"
  defines "n' \<equiv> if x < 0 then jam n (2 ^ nat (- x)) else n"
  shows "ieee_result F st s n (pack_exp F w x) =
    (if int (exp_max F) - 2 \<le> x \<and> (int (exp_max F) - 2 < x \<or> 2 ^ (frac_bits F + w + 1) \<le> n + inc)
     then (of_bool s * sign_weight F + (inf_mag F - of_bool (inc = 0)), softfloat_raiseFlags 5 st)
     else (of_bool s * sign_weight F + (nat x * 2 ^ frac_bits F + rdiv m s n' (2 ^ w)),
           softfloat_raiseFlags
             (if n' mod 2 ^ w \<noteq> 0
              then if x < 0 \<and> (tiny_before st \<or> x < - 1 \<or> n + inc < 2 ^ (frac_bits F + w + 1))
                   then 3 else 1
              else 0) st))"
proof -
  have inc0: "inc = 0 \<longleftrightarrow> \<not> overflow_to_inf m s"
    unfolding inc_def using w by (intro round_inc_zero) simp
  have mag: "ieee_mag F m s n (pack_exp F w x) = nat x * 2 ^ frac_bits F + rdiv m s n' (2 ^ w)"
    using pack_mag(1) [OF n w] by (simp add: n'_def)
  have ov: "inf_mag F \<le> ieee_mag F m s n (pack_exp F w x) \<longleftrightarrow>
    int (exp_max F) - 2 \<le> x \<and> (int (exp_max F) - 2 < x \<or> 2 ^ (frac_bits F + w + 1) \<le> n + inc)"
    unfolding inc_def by (rule pack_overflows [OF n w e])
  have ine: "ieee_inexact F n (pack_exp F w x) = (n' mod 2 ^ w \<noteq> 0)"
    using pack_mag(2) [OF n w] by (simp add: n'_def)
  have ti: "ieee_tiny F b m s n (pack_exp F w x) =
      (x < 0 \<and> (b \<or> x < - 1 \<or> n + inc < 2 ^ (frac_bits F + w + 1)))" for b
    unfolding inc_def by (rule pack_tiny [OF n w])
  let ?c = "int (exp_max F) - 2 \<le> x \<and> (int (exp_max F) - 2 < x \<or> 2 ^ (frac_bits F + w + 1) \<le> n + inc)"
  show ?thesis
  proof (cases ?c)
    case True
    note ge = True [folded ov]
    show ?thesis
      unfolding if_P [OF True] ieee_result_def ieee_round_def m_def [symmetric] if_P [OF ge] Let_def fst_conv snd_conv
      by (simp add: inc0)
  next
    case False
    note less = False [folded ov]
    show ?thesis
      unfolding if_not_P [OF False] ieee_result_def ieee_round_def m_def [symmetric] if_not_P [OF less] Let_def fst_conv snd_conv
        ine ti
      unfolding mag by simp
  qed
qed

lemma pack_below_inf:
  assumes n: "2 ^ (frac_bits F + w) \<le> n" "n < 2 ^ (frac_bits F + w + 1)"
    and w: "2 \<le> w" and e: "2 \<le> exp_max F"
    and no: "\<not> (int (exp_max F) - 2 \<le> x \<and>
      (int (exp_max F) - 2 < x \<or> 2 ^ (frac_bits F + w + 1) \<le> n + round_inc m s (2 ^ w)))"
  shows "nat x * 2 ^ frac_bits F + rdiv m s (if x < 0 then jam n (2 ^ nat (- x)) else n) (2 ^ w) < inf_mag F"
proof -
  have "ieee_mag F m s n (pack_exp F w x) < inf_mag F"
    using no pack_overflows [OF n w e, of m s x] by (simp only: not_le [symmetric]) simp
  then show ?thesis unfolding pack_mag(1) [OF n w] by (auto split: if_splits)
qed

end
