(* ===== verification/SF_Primitives.thy ===== *)
theory SF_Primitives
  imports SF_State
begin

text \<open>
  The integer primitives of SoftFloat (\<open>softfloat/s_*.c\<close>): sticky shifts, 128-bit arithmetic in
  two 64-bit halves, and counting leading zeros, each with the arithmetic fact that makes it
  correct. Shift distances are restricted to what each routine documents.
\<close>

section \<open>Sticky right shifts\<close>

definition softfloat_shiftRightJam32 :: "u32 \<Rightarrow> u64 \<Rightarrow> u32" where
  "softfloat_shiftRightJam32 a dist =
     (if dist < 31
      then drop_bit (unat dist) a OR of_bool (push_bit (unat ((- dist) AND 31)) a \<noteq> 0)
      else of_bool (a \<noteq> 0))"

definition softfloat_shiftRightJam64 :: "u64 \<Rightarrow> u64 \<Rightarrow> u64" where
  "softfloat_shiftRightJam64 a dist =
     (if dist < 63
      then drop_bit (unat dist) a OR of_bool (push_bit (unat ((- dist) AND 63)) a \<noteq> 0)
      else of_bool (a \<noteq> 0))"

definition softfloat_shortShiftRightJam64 :: "u64 \<Rightarrow> u8 \<Rightarrow> u64" where
  "softfloat_shortShiftRightJam64 a dist =
     drop_bit (unat dist) a OR of_bool (a AND (push_bit (unat dist) 1 - 1) \<noteq> 0)"

lemma unat_or_truth: "unat (a OR of_bool b) = unat a + of_bool (b \<and> even (unat a))"
  by (simp add: unat_disj unat_truth or_truth_nat)

lemma jam_large:
  assumes "n < 2 ^ L" "0 < L" "L \<le> Suc d"
  shows "jam n (2 ^ d) = of_bool (n \<noteq> 0)"
proof (cases "L \<le> d")
  case True
  then have "(2 :: nat) ^ L \<le> 2 ^ d" by simp
  with assms(1) have "n < 2 ^ d" by (rule less_le_trans)
  then show ?thesis by (rule jam_small)
next
  case False
  then have L: "L = Suc d" using assms(3) by simp
  then have "n div 2 ^ d < 2" using assms(1) by (simp add: less_mult_imp_div_less)
  then consider "n div 2 ^ d = 0" | "n div 2 ^ d = 1" by linarith
  then show ?thesis by cases (auto simp: jam_def div_eq_0_iff intro!: gr0I)
qed

lemma sticky_shift_nat:
  assumes "0 < d" "d < L"
  shows "((n :: nat) * 2 ^ ((L - d mod L) mod L) mod 2 ^ L \<noteq> 0) = (n mod 2 ^ d \<noteq> 0)"
  using assms shl_mod_pow2 [of d L n] by simp

lemma unat_shiftRightJam32:
  assumes "0 < dist"
  shows "unat (softfloat_shiftRightJam32 a dist) = jam (unat a) (2 ^ unat dist)"
proof (cases "dist < 31")
  case True
  then have d: "0 < unat dist" "unat dist < 32" using assms by (simp_all add: word_less_nat_alt)
  have "(push_bit (unat ((- dist) AND 31)) a \<noteq> 0) = (unat a mod 2 ^ unat dist \<noteq> 0)"
    using sticky_shift_nat [OF d, of "unat a"] by (simp add: word_eq_nat unat_push unat_neg_31)
  with True show ?thesis
    by (simp add: softfloat_shiftRightJam32_def unat_or_truth unat_drop jam_def)
next
  case False
  then have "32 \<le> Suc (unat dist)" by (simp add: word_less_nat_alt)
  then show ?thesis
    using False jam_large [of "unat a" 32 "unat dist"] unat_lt_32 [of a]
    by (simp add: softfloat_shiftRightJam32_def unat_truth word_eq_nat)
qed

lemma unat_shiftRightJam64:
  assumes "0 < dist"
  shows "unat (softfloat_shiftRightJam64 a dist) = jam (unat a) (2 ^ unat dist)"
proof (cases "dist < 63")
  case True
  then have d: "0 < unat dist" "unat dist < 64" using assms by (simp_all add: word_less_nat_alt)
  have "(push_bit (unat ((- dist) AND 63)) a \<noteq> 0) = (unat a mod 2 ^ unat dist \<noteq> 0)"
    using sticky_shift_nat [OF d, of "unat a"] by (simp add: word_eq_nat unat_push unat_neg_63)
  with True show ?thesis
    by (simp add: softfloat_shiftRightJam64_def unat_or_truth unat_drop jam_def)
next
  case False
  then have "64 \<le> Suc (unat dist)" by (simp add: word_less_nat_alt)
  then show ?thesis
    using False jam_large [of "unat a" 64 "unat dist"] unat_lt_64 [of a]
    by (simp add: softfloat_shiftRightJam64_def unat_truth word_eq_nat)
qed

lemma unat_pow2_pred:
  assumes "d < LENGTH('a::len)"
  shows "unat (push_bit d 1 - 1 :: 'a word) = mask d"
proof -
  have p: "unat (push_bit d 1 :: 'a word) = 2 ^ d"
    using unat_push [of d "1 :: 'a word"] assms by simp
  then have "(push_bit d 1 :: 'a word) \<noteq> 0" by (auto simp: word_eq_nat)
  then have "unat (push_bit d 1 - 1 :: 'a word) = unat (push_bit d 1 :: 'a word) - 1"
    by (rule unat_minus_one)
  then show ?thesis by (simp only: p mask_eq_exp_minus_1)
qed

lemma unat_shortShiftRightJam64:
  assumes "dist < 64"
  shows "unat (softfloat_shortShiftRightJam64 a dist) = jam (unat a) (2 ^ unat dist)"
proof -
  have "unat dist < LENGTH(64)" using assms by (simp add: word_less_nat_alt)
  then have "unat (a AND (push_bit (unat dist) 1 - 1)) = unat a mod 2 ^ unat dist"
    by (simp only: unat_conj unat_pow2_pred and_mask_mod)
  then show ?thesis
    by (simp only: softfloat_shortShiftRightJam64_def unat_or_truth unat_drop jam_def word_eq_nat) simp
qed

record uint64_extra =
  x64_v :: u64
  x64_extra :: u64

definition softfloat_shiftRightJam64Extra :: "u64 \<Rightarrow> u64 \<Rightarrow> u64 \<Rightarrow> uint64_extra" where
  "softfloat_shiftRightJam64Extra a extra dist =
     (let z = (if dist < 64
               then \<lparr>x64_v = drop_bit (unat dist) a,
                     x64_extra = push_bit (unat ((- dist) AND 63)) a\<rparr>
               else \<lparr>x64_v = 0, x64_extra = (if dist = 64 then a else of_bool (a \<noteq> 0))\<rparr>)
      in z\<lparr>x64_extra := x64_extra z OR of_bool (extra \<noteq> 0)\<rparr>)"

definition softfloat_shortShiftRightJam64Extra :: "u64 \<Rightarrow> u64 \<Rightarrow> u8 \<Rightarrow> uint64_extra" where
  "softfloat_shortShiftRightJam64Extra a extra dist =
     \<lparr>x64_v = drop_bit (unat dist) a,
      x64_extra = push_bit (unat ((- dist) AND 63)) a OR of_bool (extra \<noteq> 0)\<rparr>"

text \<open>
  What the extra word says of a remainder \<open>r\<close> modulo \<open>d\<close>: enough to round to an integer, although
  for distances above 64 it no longer holds the fraction itself.
\<close>

definition extra_tells :: "u64 \<Rightarrow> nat \<Rightarrow> nat \<Rightarrow> bool" where
  "extra_tells x r d \<longleftrightarrow>
     (x = 0 \<longleftrightarrow> r = 0) \<and> (2 ^ 63 \<le> unat x \<longleftrightarrow> d \<le> 2 * r) \<and> (unat x = 2 ^ 63 \<longleftrightarrow> 2 * r = d)"

lemma extra_tells_scaled:
  assumes "0 < d" "d \<le> 64" "unat x = r * 2 ^ (64 - d)"
  shows "extra_tells x r (2 ^ d)"
proof -
  define c h where "c = (2 :: nat) ^ (64 - d)" and "h = (2 :: nat) ^ (d - 1)"
  have c: "0 < c" by (simp add: c_def)
  have pw: "(2 :: nat) ^ d = 2 * h" using assms(1) by (simp add: h_def flip: power_Suc)
  have half: "(2 :: nat) ^ 63 = h * c"
    using assms(1,2) by (simp add: c_def h_def flip: power_add)
  have x: "unat x = r * c" using assms(3) by (simp add: c_def)
  have "x = 0 \<longleftrightarrow> r = 0" using x c by (auto simp: word_eq_nat)
  then show ?thesis
    unfolding extra_tells_def half x pw using c by auto
qed

lemma extra_tells_tiny:
  assumes "2 * r < d" "r \<noteq> 0"
  shows "extra_tells 1 r d"
  using assms by (simp add: extra_tells_def)

lemma shiftRightJam64Extra_spec:
  fixes a dist :: u64
  assumes "0 < dist"
  defines "z \<equiv> softfloat_shiftRightJam64Extra a 0 dist"
  shows "unat (x64_v z) = unat a div 2 ^ unat dist"
    and "extra_tells (x64_extra z) (unat a mod 2 ^ unat dist) (2 ^ unat dist)"
proof -
  have "unat (x64_v z) = unat a div 2 ^ unat dist \<and>
    extra_tells (x64_extra z) (unat a mod 2 ^ unat dist) (2 ^ unat dist)"
  proof (cases "dist < 64")
    case True
    then have d: "0 < unat dist" "unat dist < 64" using assms(1) by (simp_all add: word_less_nat_alt)
    have "unat (x64_extra z) = (unat a mod 2 ^ unat dist) * 2 ^ (64 - unat dist)"
      using True d shl_mod_pow2 [of "unat dist" 64 "unat a"]
      by (simp add: z_def softfloat_shiftRightJam64Extra_def unat_push unat_neg_63)
    moreover have "unat (x64_v z) = unat a div 2 ^ unat dist"
      using True by (simp add: z_def softfloat_shiftRightJam64Extra_def unat_drop)
    ultimately show ?thesis
      using d extra_tells_scaled [of "unat dist" "x64_extra z"] by simp
  next
    case False
    then have d: "64 \<le> unat dist" by (simp add: word_less_nat_alt)
    have big: "unat a < 2 ^ unat dist"
      using unat_lt_64 [of a] d power_increasing [of 64 "unat dist" "2 :: nat"] by simp
    show ?thesis
    proof (cases "dist = 64")
      case True
      then show ?thesis
        using extra_tells_scaled [of 64 a "unat a"] unat_lt_64 [of a]
        by (simp add: z_def softfloat_shiftRightJam64Extra_def)
    next
      case neq: False
      then have "65 \<le> unat dist" using d by (simp add: word_eq_nat)
      then have "(2 :: nat) ^ 65 \<le> 2 ^ unat dist" by (rule power_increasing) simp
      then have "2 * unat a < 2 ^ unat dist" using unat_lt_64 [of a] by simp
      then show ?thesis
        using False neq big extra_tells_tiny [of "unat a" "2 ^ unat dist"]
        by (auto simp: z_def softfloat_shiftRightJam64Extra_def extra_tells_def word_eq_nat)
    qed
  qed
  then show "unat (x64_v z) = unat a div 2 ^ unat dist"
    "extra_tells (x64_extra z) (unat a mod 2 ^ unat dist) (2 ^ unat dist)" by simp_all
qed

section \<open>Counting leading zeros\<close>

definition softfloat_countLeadingZeros8 :: "u8 list" where
  "softfloat_countLeadingZeros8 =
    [8, 7, 6, 6, 5, 5, 5, 5, 4, 4, 4, 4, 4, 4, 4, 4,
     3, 3, 3, 3, 3, 3, 3, 3, 3, 3, 3, 3, 3, 3, 3, 3,
     2, 2, 2, 2, 2, 2, 2, 2, 2, 2, 2, 2, 2, 2, 2, 2,
     2, 2, 2, 2, 2, 2, 2, 2, 2, 2, 2, 2, 2, 2, 2, 2,
     1, 1, 1, 1, 1, 1, 1, 1, 1, 1, 1, 1, 1, 1, 1, 1,
     1, 1, 1, 1, 1, 1, 1, 1, 1, 1, 1, 1, 1, 1, 1, 1,
     1, 1, 1, 1, 1, 1, 1, 1, 1, 1, 1, 1, 1, 1, 1, 1,
     1, 1, 1, 1, 1, 1, 1, 1, 1, 1, 1, 1, 1, 1, 1, 1,
     0, 0, 0, 0, 0, 0, 0, 0, 0, 0, 0, 0, 0, 0, 0, 0,
     0, 0, 0, 0, 0, 0, 0, 0, 0, 0, 0, 0, 0, 0, 0, 0,
     0, 0, 0, 0, 0, 0, 0, 0, 0, 0, 0, 0, 0, 0, 0, 0,
     0, 0, 0, 0, 0, 0, 0, 0, 0, 0, 0, 0, 0, 0, 0, 0,
     0, 0, 0, 0, 0, 0, 0, 0, 0, 0, 0, 0, 0, 0, 0, 0,
     0, 0, 0, 0, 0, 0, 0, 0, 0, 0, 0, 0, 0, 0, 0, 0,
     0, 0, 0, 0, 0, 0, 0, 0, 0, 0, 0, 0, 0, 0, 0, 0,
     0, 0, 0, 0, 0, 0, 0, 0, 0, 0, 0, 0, 0, 0, 0, 0]"

definition softfloat_countLeadingZeros16 :: "u16 \<Rightarrow> u8" where
  "softfloat_countLeadingZeros16 a =
     (let (count, a) = (if 0x100 \<le> a then (0, drop_bit 8 a) else (8, a))
      in count + softfloat_countLeadingZeros8 ! unat a)"

definition softfloat_countLeadingZeros32 :: "u32 \<Rightarrow> u8" where
  "softfloat_countLeadingZeros32 a =
     (let (count, a) = (if a < 0x10000 then (16, push_bit 16 a) else (0, a));
          (count, a) = (if a < 0x1000000 then (count + 8, push_bit 8 a) else (count, a))
      in count + softfloat_countLeadingZeros8 ! unat (drop_bit 24 a))"

definition softfloat_countLeadingZeros64 :: "u64 \<Rightarrow> u8" where
  "softfloat_countLeadingZeros64 a =
     (let a32 = ucast (drop_bit 32 a) :: u32;
          (count, a32) = (if a32 = 0 then (32, ucast a) else (0, a32));
          (count, a32) = (if a32 < 0x10000 then (count + 16, push_bit 16 a32) else (count, a32));
          (count, a32) = (if a32 < 0x1000000 then (count + 8, push_bit 8 a32) else (count, a32))
      in count + softfloat_countLeadingZeros8 ! unat (drop_bit 24 a32))"

lemma clz8_table:
  "map unat softfloat_countLeadingZeros8 = map (\<lambda>i. 8 - bitlen i) [0..<256]"
  unfolding softfloat_countLeadingZeros8_def by code_simp

lemma clz8_nat: "i < 256 \<Longrightarrow> unat (softfloat_countLeadingZeros8 ! i) = 8 - bitlen i"
  using arg_cong [OF clz8_table, of "\<lambda>xs. xs ! i"] arg_cong [OF clz8_table, of length] by simp

lemma unat_count:
  assumes "unat (c :: u8) + (8 - bitlen i) < 256" "i < 256"
  shows "unat (c + softfloat_countLeadingZeros8 ! i) = unat c + (8 - bitlen i)"
  using assms clz8_nat [of i] by (simp add: unat_word_ariths)

lemma unat_countLeadingZeros16:
  "unat (softfloat_countLeadingZeros16 a) = 16 - bitlen (unat a)"
proof (cases "0x100 \<le> a")
  case True
  then have "2 ^ 8 \<le> unat a" by (simp add: word_le_nat_alt)
  then have "9 \<le> bitlen (unat a)" by (subst bitlen_ge_iff) simp_all
  moreover have "unat a div 256 < 256" using unat_lt_16 [of a] by (simp add: less_mult_imp_div_less)
  ultimately show ?thesis
    using True unat_count [of 0 "unat a div 256"] bitlen_div [of "unat a" 8]
    by (simp add: softfloat_countLeadingZeros16_def unat_drop)
next
  case False
  then have "unat a < 2 ^ 8" by (simp add: word_le_nat_alt)
  then have "bitlen (unat a) \<le> 8" by (simp only: bitlen_le_iff)
  with False \<open>unat a < 2 ^ 8\<close> show ?thesis
    using unat_count [of 8 "unat a"] by (simp add: softfloat_countLeadingZeros16_def)
qed

text \<open>The two tests of the 32-bit routine bring the leading byte to the top.\<close>

lemma clz32_tail:
  fixes a :: u32 and c :: u8
  assumes "unat c \<le> 32"
  shows "unat (let (count, a) = (if a < 0x10000 then (c + 16, push_bit 16 a) else (c, a));
                   (count, a) = (if a < 0x1000000 then (count + 8, push_bit 8 a) else (count, a))
               in count + softfloat_countLeadingZeros8 ! unat (drop_bit 24 a))
    = unat c + 32 - bitlen (unat a)"
proof -
  define n where "n = unat a"
  have n32: "n < 2 ^ 32" using unat_lt_32 [of a] by (simp add: n_def)
  have div: "bitlen (n * 2 ^ k div 2 ^ 24) = bitlen n - (24 - k)" if "k \<le> 24" for k
  proof -
    have "n * 2 ^ k div 2 ^ 24 = n div 2 ^ (24 - k)"
    proof -
      have e: "(2 :: nat) ^ 24 = 2 ^ k * 2 ^ (24 - k)" using that by (simp flip: power_add)
      show ?thesis unfolding e by simp
    qed
    then show ?thesis by (simp add: bitlen_div)
  qed
  have small: "unat (c + 16) = unat c + 16" "unat (c + 8) = unat c + 8" "unat (c + 24) = unat c + 24"
    using assms by (simp_all add: unat_word_ariths)
  consider "n < 2 ^ 8" | "2 ^ 8 \<le> n" "n < 2 ^ 16" | "2 ^ 16 \<le> n" "n < 2 ^ 24" | "2 ^ 24 \<le> n"
    by linarith
  then show ?thesis
  proof cases
    case 1
    then have "bitlen n \<le> 8" by (simp only: bitlen_le_iff)
    with 1 show ?thesis
      using unat_count [of "c + 24" n] small assms
      by (simp add: word_less_nat_alt unat_push unat_drop add.assoc flip: n_def)
  next
    case 2
    then have "bitlen n \<le> 16" "9 \<le> bitlen n"
      by (simp only: bitlen_le_iff) (subst bitlen_ge_iff; use 2 in simp)
    with 2 show ?thesis
      using unat_count [of "c + 16" "n * 2 ^ 16 div 2 ^ 24"] div [of 16] small assms
      by (simp add: word_less_nat_alt unat_push unat_drop less_mult_imp_div_less flip: n_def)
  next
    case 3
    then have "bitlen n \<le> 24" "17 \<le> bitlen n"
      by (simp only: bitlen_le_iff) (subst bitlen_ge_iff; use 3 in simp)
    with 3 show ?thesis
      using unat_count [of "c + 8" "n * 2 ^ 8 div 2 ^ 24"] div [of 8] small assms
      by (simp add: word_less_nat_alt unat_push unat_drop less_mult_imp_div_less flip: n_def)
  next
    case 4
    then have "bitlen n \<le> 32" "25 \<le> bitlen n"
      using n32 by (simp only: bitlen_le_iff) (subst bitlen_ge_iff; use 4 in simp)
    with 4 n32 show ?thesis
      using unat_count [of c "n div 2 ^ 24"] div [of 0] small assms
      by (simp add: word_less_nat_alt unat_push unat_drop less_mult_imp_div_less flip: n_def)
  qed
qed

lemma unat_countLeadingZeros32:
  "unat (softfloat_countLeadingZeros32 a) = 32 - bitlen (unat a)"
  using clz32_tail [of 0 a] by (simp only: softfloat_countLeadingZeros32_def add_0 unat_0)

lemma unat_countLeadingZeros64:
  "unat (softfloat_countLeadingZeros64 a) = 64 - bitlen (unat a)"
proof (cases "unat a < 2 ^ 32")
  case True
  then have "ucast (drop_bit 32 a) = (0 :: u32)" "unat (ucast a :: u32) = unat a"
    by (simp_all add: word_eq_nat unat_cast unat_drop)
  moreover have "bitlen (unat a) \<le> 32" using True by (simp only: bitlen_le_iff)
  ultimately show ?thesis
    using clz32_tail [of 32 "ucast a"] by (simp add: softfloat_countLeadingZeros64_def)
next
  case False
  have hi: "unat (ucast (drop_bit 32 a) :: u32) = unat a div 2 ^ 32"
    using unat_lt_64 [of a] by (simp add: unat_cast unat_drop less_mult_imp_div_less)
  then have "ucast (drop_bit 32 a) \<noteq> (0 :: u32)"
    using False by (simp add: word_eq_nat div_eq_0_iff)
  moreover have "32 \<le> bitlen (unat a)" using False bitlen_le_iff [of "unat a" 32] by linarith
  ultimately show ?thesis
    using clz32_tail [of 0 "ucast (drop_bit 32 a)"] hi bitlen_div [of "unat a" 32]
    by (simp only: softfloat_countLeadingZeros64_def Let_def if_False case_prod_conv add_0 unat_0)
qed

section \<open>128-bit numbers in two halves\<close>

record uint128 =
  v64 :: u64
  v0 :: u64

definition nat128 :: "uint128 \<Rightarrow> nat" where
  "nat128 z = unat (v64 z) * 2 ^ 64 + unat (v0 z)"

abbreviation pair128 :: "u64 \<Rightarrow> u64 \<Rightarrow> nat" where
  "pair128 a64 a0 \<equiv> unat a64 * 2 ^ 64 + unat a0"

definition softfloat_add128 :: "u64 \<Rightarrow> u64 \<Rightarrow> u64 \<Rightarrow> u64 \<Rightarrow> uint128" where
  "softfloat_add128 a64 a0 b64 b0 =
     (let z0 = a0 + b0 in \<lparr>v64 = a64 + b64 + of_bool (z0 < a0), v0 = z0\<rparr>)"

definition softfloat_sub128 :: "u64 \<Rightarrow> u64 \<Rightarrow> u64 \<Rightarrow> u64 \<Rightarrow> uint128" where
  "softfloat_sub128 a64 a0 b64 b0 =
     \<lparr>v64 = a64 - b64 - of_bool (a0 < b0), v0 = a0 - b0\<rparr>"

definition softfloat_eq128 :: "u64 \<Rightarrow> u64 \<Rightarrow> u64 \<Rightarrow> u64 \<Rightarrow> bool" where
  "softfloat_eq128 a64 a0 b64 b0 = (a64 = b64 \<and> a0 = b0)"

definition softfloat_le128 :: "u64 \<Rightarrow> u64 \<Rightarrow> u64 \<Rightarrow> u64 \<Rightarrow> bool" where
  "softfloat_le128 a64 a0 b64 b0 = (a64 < b64 \<or> (a64 = b64 \<and> a0 \<le> b0))"

definition softfloat_lt128 :: "u64 \<Rightarrow> u64 \<Rightarrow> u64 \<Rightarrow> u64 \<Rightarrow> bool" where
  "softfloat_lt128 a64 a0 b64 b0 = (a64 < b64 \<or> (a64 = b64 \<and> a0 < b0))"

lemma pair128_less: "pair128 a64 a0 < 2 ^ 128"
  using unat_lt_64 [of a64] unat_lt_64 [of a0] by simp

lemma nat128_less: "nat128 z < 2 ^ 128"
  unfolding nat128_def by (rule pair128_less)

text \<open>Addition and subtraction of the halves modulo \<open>B = 2 ^ 64\<close>, with the carry.\<close>

lemma halves_mod:
  fixes h l :: nat
  assumes "l < B"
  shows "(h * B + l) mod (B * B) = (h mod B) * B + l"
  using assms by (simp add: mod_mult2_eq mult.commute add.commute)

lemma add_carry:
  fixes a b :: nat
  assumes "a < B" "b < B"
  shows "a + b = of_bool ((a + b) mod B < a) * B + (a + b) mod B"
  using assms by (auto simp: mod_if)

lemma nat128_add128: "nat128 (softfloat_add128 a64 a0 b64 b0) = (pair128 a64 a0 + pair128 b64 b0) mod 2 ^ 128"
proof -
  define B where "B = (2 :: nat) ^ 64"
  have lt: "unat x < B" for x :: u64 using unat_lt_64 [of x] by (simp add: B_def)
  define l where "l = (unat a0 + unat b0) mod B"
  define c where "c = (of_bool (l < unat a0) :: nat)"
  have l: "unat a0 + unat b0 = c * B + l" "l < B"
    using add_carry [OF lt lt, of a0 b0] lt [of a0] by (simp_all add: l_def c_def)
  have "nat128 (softfloat_add128 a64 a0 b64 b0) = ((unat a64 + unat b64 + c) mod B) * B + l"
    by (simp add: nat128_def softfloat_add128_def Let_def unat_word_ariths word_less_nat_alt
        unat_truth mod_simps B_def l_def c_def)
  also have "\<dots> = ((unat a64 + unat b64 + c) * B + l) mod (B * B)"
    using l(2) by (rule halves_mod [symmetric])
  also have "(unat a64 + unat b64 + c) * B + l = (unat a64 * B + unat a0) + (unat b64 * B + unat b0)"
    using l(1) by (simp add: distrib_right)
  finally show ?thesis by (simp add: B_def)
qed

lemma borrow_64: "a < a - b \<longleftrightarrow> a < b" for a b :: u64
proof (cases "b \<le> a")
  case True
  then show ?thesis by (simp add: word_less_nat_alt word_le_nat_alt unat_sub)
next
  case False
  then show ?thesis
    using unat_lt_64 [of b] by (simp add: word_less_nat_alt word_le_nat_alt unat_sub_if')
qed

lemma sub_from_add:
  fixes A N P M :: nat
  assumes "A = (N + P) mod M" "N < M"
  shows "int N = (int A - int P) mod int M"
proof -
  have "(int A - int P) mod int M = ((int N + int P) mod int M - int P) mod int M"
    using assms(1) by (simp add: zmod_int)
  also have "\<dots> = int N mod int M" by (simp add: mod_diff_left_eq)
  also have "\<dots> = int N" using assms(2) by simp
  finally show ?thesis by simp
qed

lemma nat128_sub128:
  "int (nat128 (softfloat_sub128 a64 a0 b64 b0)) = (int (pair128 a64 a0) - int (pair128 b64 b0)) mod int (2 ^ 128)"
proof (rule sub_from_add)
  define d where "d = softfloat_sub128 a64 a0 b64 b0"
  have "softfloat_add128 (v64 d) (v0 d) b64 b0 = \<lparr>v64 = a64, v0 = a0\<rparr>"
    by (simp add: softfloat_add128_def d_def softfloat_sub128_def borrow_64)
  then show "pair128 a64 a0 = (nat128 (softfloat_sub128 a64 a0 b64 b0) + pair128 b64 b0) mod 2 ^ 128"
    using nat128_add128 [of "v64 d" "v0 d" b64 b0] by (simp add: nat128_def d_def)
qed (rule nat128_less)

lemma halves_eq:
  fixes h h' l l' :: nat
  assumes "l < B" "l' < B"
  shows "h * B + l = h' * B + l' \<longleftrightarrow> h = h' \<and> l = l'"
proof
  assume eq: "h * B + l = h' * B + l'"
  have "(h * B + l) div B = h" "(h' * B + l') div B = h'"
    "(h * B + l) mod B = l" "(h' * B + l') mod B = l'" using assms by simp_all
  then show "h = h' \<and> l = l'" using eq by metis
qed simp

lemma halves_less:
  fixes h h' l l' :: nat
  assumes "l < B" "l' < B"
  shows "h * B + l < h' * B + l' \<longleftrightarrow> h < h' \<or> h = h' \<and> l < l'"
proof (cases h h' rule: linorder_cases)
  case less
  then have "Suc h * B \<le> h' * B" by (intro mult_le_mono1) simp
  then show ?thesis using less assms by simp
next
  case greater
  then have "Suc h' * B \<le> h * B" by (intro mult_le_mono1) simp
  then show ?thesis using greater assms by simp
qed simp

lemma compare128:
  "softfloat_eq128 a64 a0 b64 b0 \<longleftrightarrow> pair128 a64 a0 = pair128 b64 b0"
  "softfloat_le128 a64 a0 b64 b0 \<longleftrightarrow> pair128 a64 a0 \<le> pair128 b64 b0"
  "softfloat_lt128 a64 a0 b64 b0 \<longleftrightarrow> pair128 a64 a0 < pair128 b64 b0"
proof -
  have lt: "unat x < 2 ^ 64" for x :: u64 using unat_lt_64 [of x] by simp
  show "softfloat_eq128 a64 a0 b64 b0 \<longleftrightarrow> pair128 a64 a0 = pair128 b64 b0"
    unfolding softfloat_eq128_def halves_eq [OF lt lt] by (simp add: word_eq_nat)
  show "softfloat_lt128 a64 a0 b64 b0 \<longleftrightarrow> pair128 a64 a0 < pair128 b64 b0"
    unfolding softfloat_lt128_def halves_less [OF lt lt] by (simp add: word_eq_nat word_less_nat_alt)
  show "softfloat_le128 a64 a0 b64 b0 \<longleftrightarrow> pair128 a64 a0 \<le> pair128 b64 b0"
    unfolding softfloat_le128_def le_less halves_eq [OF lt lt] halves_less [OF lt lt]
    by (auto simp: word_eq_nat word_less_nat_alt)
qed

section \<open>Products\<close>

definition softfloat_mul64To128 :: "u64 \<Rightarrow> u64 \<Rightarrow> uint128" where
  "softfloat_mul64To128 a b =
     (let a32 = ucast (drop_bit 32 a) :: u32; a0 = ucast a :: u32;
          b32 = ucast (drop_bit 32 b) :: u32; b0 = ucast b :: u32;
          z0 = ucast a0 * ucast b0 :: u64;
          mid1 = ucast a32 * ucast b0 :: u64;
          mid = mid1 + ucast a0 * ucast b32;
          z64 = ucast a32 * ucast b32 :: u64;
          z64 = z64 + (push_bit 32 (of_bool (mid < mid1)) OR drop_bit 32 mid);
          mid = push_bit 32 mid;
          z0 = z0 + mid;
          z64 = z64 + of_bool (z0 < mid)
      in \<lparr>v64 = z64, v0 = z0\<rparr>)"

definition softfloat_mul64ByShifted32To128 :: "u64 \<Rightarrow> u32 \<Rightarrow> uint128" where
  "softfloat_mul64ByShifted32To128 a b =
     (let mid = ucast (ucast a :: u32) * ucast b :: u64
      in \<lparr>v64 = ucast (ucast (drop_bit 32 a) :: u32) * ucast b + drop_bit 32 mid,
          v0 = push_bit 32 mid\<rparr>)"

definition softfloat_mul128By32 :: "u64 \<Rightarrow> u64 \<Rightarrow> u32 \<Rightarrow> uint128" where
  "softfloat_mul128By32 a64 a0 b =
     (let z0 = a0 * ucast b;
          mid = ucast (ucast (drop_bit 32 a0) :: u32) * ucast b :: u64;
          carry = ucast (ucast (drop_bit 32 z0 - mid) :: u32) :: u64
      in \<lparr>v64 = a64 * ucast b + drop_bit 32 (mid + carry), v0 = z0\<rparr>)"

lemma mul_halves_bound:
  fixes x y :: nat
  assumes "x < B" "y < B"
  shows "x * y + 2 * B \<le> B * B + 1"
proof -
  have "x \<le> B - 1" "y \<le> B - 1" using assms by simp_all
  then have "x * y \<le> (B - 1) * (B - 1)" by (rule mult_le_mono)
  moreover have "(B - 1) * (B - 1) + 2 * B = B * B + 1"
    using assms by (cases B) (simp_all add: algebra_simps)
  ultimately show ?thesis by linarith
qed

text \<open>The schoolbook product of two-digit numbers in base \<open>B\<close>, with the code's carries.\<close>

lemma schoolbook:
  fixes a1 a0 b1 b0 B :: nat
  assumes lt: "a1 < B" "a0 < B" "b1 < B" "b0 < B"
  defines "S \<equiv> B * B"
  defines "m1 \<equiv> a1 * b0"
  defines "m \<equiv> (m1 + a0 * b1) mod S"
  defines "sh \<equiv> m * B mod S"
  defines "l \<equiv> (a0 * b0 + sh) mod S"
  defines "h \<equiv> a1 * b1 + (of_bool (m < m1) * B + m div B) + of_bool (l < sh)"
  shows "(a1 * B + a0) * (b1 * B + b0) = h * S + l"
proof -
  have pos: "0 < B" using lt by simp
  have bd: "x < B \<Longrightarrow> y < B \<Longrightarrow> x * y < S" for x y
    using mul_halves_bound [of x B y] pos by (simp add: S_def)
  have mid: "m1 + a0 * b1 = of_bool (m < m1) * S + m"
    unfolding m_def using bd lt by (intro add_carry) (simp_all add: m1_def)
  have shm: "m * B = (m div B) * S + sh"
  proof -
    have "m * B = (m div B * B + m mod B) * B" by (simp only: div_mult_mod_eq)
    also have "\<dots> = (m div B) * S + m mod B * B" by (simp only: S_def distrib_right mult.assoc)
    also have "m mod B * B = sh"
      unfolding sh_def S_def by (simp add: mult_mod_left)
    finally show ?thesis .
  qed
  have "sh < S" unfolding sh_def S_def using pos by simp
  then have low: "sh + a0 * b0 = of_bool (l < sh) * S + l"
    unfolding l_def add.commute [of "a0 * b0"] using bd lt by (intro add_carry) simp_all
  have "(a1 * B + a0) * (b1 * B + b0) = a1 * b1 * S + (m1 + a0 * b1) * B + a0 * b0"
    by (simp add: S_def m1_def algebra_simps)
  also have "\<dots> = a1 * b1 * S + of_bool (m < m1) * S * B + m * B + a0 * b0"
    by (simp add: mid algebra_simps)
  also have "\<dots> = a1 * b1 * S + of_bool (m < m1) * S * B + (m div B) * S + (sh + a0 * b0)"
    by (simp add: shm)
  also have "\<dots> = h * S + l"
    unfolding low h_def by (simp add: algebra_simps)
  finally show ?thesis .
qed

lemma unat_halves_32:
  "unat (ucast (ucast a :: u32) :: u64) = unat a mod 2 ^ 32"
  "unat (ucast (ucast (drop_bit 32 a) :: u32) :: u64) = unat a div 2 ^ 32" for a :: u64
  using unat_lt_64 [of a] by (simp_all add: unat_cast unat_drop less_mult_imp_div_less)

lemma unat_times_small:
  "unat x * unat y < 2 ^ 64 \<Longrightarrow> unat (x * y) = unat x * unat y" for x y :: u64
  by (simp add: unat_word_ariths)

lemma nat128_mul64To128: "nat128 (softfloat_mul64To128 a b) = unat a * unat b"
proof -
  define B where "B = (2 :: nat) ^ 32"
  have S: "(2 :: nat) ^ 64 = B * B" by (simp add: B_def)
  define a1 a0 b1 b0 where "a1 = unat a div B" and "a0 = unat a mod B"
    and "b1 = unat b div B" and "b0 = unat b mod B"
  have lt: "a1 < B" "a0 < B" "b1 < B" "b0 < B"
    using unat_lt_64 [of a] unat_lt_64 [of b]
    by (simp_all add: a1_def a0_def b1_def b0_def B_def less_mult_imp_div_less)
  define m1 m sh l where "m1 = a1 * b0" and "m = (m1 + a0 * b1) mod (B * B)"
    and "sh = m * B mod (B * B)" and "l = (a0 * b0 + sh) mod (B * B)"
  define h where "h = a1 * b1 + (of_bool (m < m1) * B + m div B) + of_bool (l < sh)"
  have prod: "unat a * unat b = h * (B * B) + l"
    using schoolbook [OF lt] by (simp add: h_def l_def sh_def m_def m1_def a1_def a0_def b1_def b0_def)
  have bd: "x < B \<Longrightarrow> y < B \<Longrightarrow> x * y < B * B" for x y
    using mul_halves_bound [of x B y] by (simp add: B_def)
  have h: "h < B * B"
  proof -
    have "unat a * unat b < (B * B) * (B * B)"
      using unat_lt_64 [of a] unat_lt_64 [of b] by (intro mult_strict_mono) (simp_all add: B_def)
    then have "h * (B * B) < (B * B) * (B * B)" using prod by linarith
    then show ?thesis by simp
  qed
  define wa1 wa0 wb1 wb0 where "wa1 = (ucast (ucast (drop_bit 32 a) :: u32) :: u64)"
    and "wa0 = (ucast (ucast a :: u32) :: u64)" and "wb1 = (ucast (ucast (drop_bit 32 b) :: u32) :: u64)"
    and "wb0 = (ucast (ucast b :: u32) :: u64)"
  have hi: "unat wa1 = a1" "unat wb1 = b1"
    by (simp_all only: wa1_def wb1_def unat_halves_32(2) a1_def b1_def B_def)
  have lo: "unat wa0 = a0" "unat wb0 = b0"
    by (simp_all only: wa0_def wb0_def unat_halves_32(1) a0_def b0_def B_def)
  note w = hi lo
  define wm1 wm wsh wl where "wm1 = wa1 * wb0" and "wm = wm1 + wa0 * wb1"
    and "wsh = push_bit 32 wm" and "wl = wa0 * wb0 + wsh"
  have ar: "unat (x * y) = unat x * unat y mod (B * B)" "unat (x + y) = (unat x + unat y) mod (B * B)"
    "unat (push_bit 32 x) = unat x * B mod (B * B)" for x y :: u64
    by (simp_all add: unat_word_ariths unat_push B_def)
  have small: "unat (wa1 * wb0) = a1 * b0" "unat (wa0 * wb1) = a0 * b1" "unat (wa0 * wb0) = a0 * b0"
    "unat (wa1 * wb1) = a1 * b1"
    unfolding ar w using bd lt by simp_all
  have um1: "unat wm1 = m1" by (simp only: wm1_def m1_def small)
  have um: "unat wm = m" by (simp only: wm_def m_def ar(2) um1 small)
  have ush: "unat wsh = sh" by (simp only: wsh_def sh_def ar(3) um)
  have ul: "unat wl = l" by (simp only: wl_def l_def ar(2) ush small)
  define wc where "wc = (push_bit 32 (of_bool (wm < wm1)) OR drop_bit 32 wm)"
  have carry: "unat wc = of_bool (m < m1) * B + m div B"
  proof -
    have "m div 2 ^ 32 < 2 ^ 32"
      using unat_lt_64 [of wm] by (simp add: um less_mult_imp_div_less)
    then show ?thesis
      using or_disjoint_nat [of "m div 2 ^ 32" 32 "of_bool (m < m1)"]
      by (simp add: wc_def unat_disj unat_push unat_drop unat_truth word_less_nat_alt um um1 B_def)
  qed
  have "unat (wa1 * wb1 + wc + of_bool (wl < wsh))
      = h mod (B * B)"
    by (simp only: ar(2) carry small h_def unat_truth word_less_nat_alt ul ush mod_simps)
  then have "unat (wa1 * wb1 + wc + of_bool (wl < wsh)) = h"
    using h by simp
  moreover have "softfloat_mul64To128 a b =
      \<lparr>v64 = wa1 * wb1 + wc + of_bool (wl < wsh), v0 = wl\<rparr>"
    unfolding softfloat_mul64To128_def Let_def wc_def wl_def wsh_def wm_def wm1_def wa1_def wa0_def wb1_def wb0_def
    by simp
  ultimately show ?thesis by (simp add: nat128_def ul prod B_def)
qed

end
