(* ===== verification/SF_Pack.thy ===== *)
theory SF_Pack
  imports SF_Primitives
begin

text \<open>
  Packing and unpacking of the three interchange formats (the macros of \<open>internals.h\<close> and
  \<open>specialize.h\<close>), normalisation of subnormals, NaN propagation, and the routines that round a
  significand and pack it, \<open>softfloat_roundPackToF16/F32/F64\<close> and \<open>softfloat_normRoundPackToF*\<close>.
  A \<open>float16_t\<close>, \<open>float32_t\<close>, \<open>float64_t\<close> is its bit pattern, as the unions of the code have it.
  Exponents (\<open>int_fast16_t\<close>, \<open>int_fast8_t\<close>) are integers; their conversions to unsigned types are
  written out.
\<close>

type_synonym float16_t = u16
type_synonym float32_t = u32
type_synonym float64_t = u64

text \<open>The conversion \<open>(unsigned int) exp\<close>.\<close>

definition uint32_of :: "int \<Rightarrow> nat" where
  "uint32_of i = nat (i mod 2 ^ 32)"

definition uint16_of :: "int \<Rightarrow> nat" where
  "uint16_of i = nat (i mod 2 ^ 16)"

section \<open>Fields\<close>

definition signF16UI :: "u64 \<Rightarrow> bool" where
  "signF16UI a = (drop_bit 15 (ucast a :: u16) \<noteq> 0)"

definition expF16UI :: "u64 \<Rightarrow> int" where
  "expF16UI a = uint (drop_bit 10 a AND 0x1F)"

definition fracF16UI :: "u64 \<Rightarrow> u64" where
  "fracF16UI a = a AND 0x03FF"

definition packToF16UI :: "bool \<Rightarrow> int \<Rightarrow> u64 \<Rightarrow> u64" where
  "packToF16UI sign exp sig =
     ucast (push_bit 15 (of_bool sign) + push_bit 10 (ucast (word_of_int exp :: u16)) :: u32) + sig"

definition isNaNF16UI :: "u64 \<Rightarrow> bool" where
  "isNaNF16UI a = (NOT a AND 0x7C00 = 0 \<and> a AND 0x03FF \<noteq> 0)"

definition signF32UI :: "u64 \<Rightarrow> bool" where
  "signF32UI a = (drop_bit 31 (ucast a :: u32) \<noteq> 0)"

definition expF32UI :: "u64 \<Rightarrow> int" where
  "expF32UI a = uint (drop_bit 23 a AND 0xFF)"

definition fracF32UI :: "u64 \<Rightarrow> u64" where
  "fracF32UI a = a AND 0x007FFFFF"

definition packToF32UI :: "bool \<Rightarrow> int \<Rightarrow> u64 \<Rightarrow> u64" where
  "packToF32UI sign exp sig =
     ucast (push_bit 31 (of_bool sign) + push_bit 23 (word_of_int exp) :: u32) + sig"

definition isNaNF32UI :: "u64 \<Rightarrow> bool" where
  "isNaNF32UI a = (NOT a AND 0x7F800000 = 0 \<and> a AND 0x007FFFFF \<noteq> 0)"

definition signF64UI :: "u64 \<Rightarrow> bool" where
  "signF64UI a = (drop_bit 63 a \<noteq> 0)"

definition expF64UI :: "u64 \<Rightarrow> int" where
  "expF64UI a = uint (drop_bit 52 a AND 0x7FF)"

definition fracF64UI :: "u64 \<Rightarrow> u64" where
  "fracF64UI a = a AND 0x000FFFFFFFFFFFFF"

definition packToF64UI :: "bool \<Rightarrow> int \<Rightarrow> u64 \<Rightarrow> u64" where
  "packToF64UI sign exp sig = push_bit 63 (of_bool sign) + push_bit 52 (word_of_int exp) + sig"

definition isNaNF64UI :: "u64 \<Rightarrow> bool" where
  "isNaNF64UI a = (NOT a AND 0x7FF0000000000000 = 0 \<and> a AND 0x000FFFFFFFFFFFFF \<noteq> 0)"

section \<open>NaNs\<close>

definition defaultNaNF16UI :: u64 where "defaultNaNF16UI = 0x7E00"
definition defaultNaNF32UI :: u64 where "defaultNaNF32UI = 0x7FC00000"
definition defaultNaNF64UI :: u64 where "defaultNaNF64UI = 0x7FF8000000000000"

definition softfloat_isSigNaNF16UI :: "u64 \<Rightarrow> bool" where
  "softfloat_isSigNaNF16UI uiA = (uiA AND 0x7E00 = 0x7C00 \<and> uiA AND 0x01FF \<noteq> 0)"

definition softfloat_isSigNaNF32UI :: "u64 \<Rightarrow> bool" where
  "softfloat_isSigNaNF32UI uiA = (uiA AND 0x7FC00000 = 0x7F800000 \<and> uiA AND 0x003FFFFF \<noteq> 0)"

definition softfloat_isSigNaNF64UI :: "u64 \<Rightarrow> bool" where
  "softfloat_isSigNaNF64UI uiA =
     (uiA AND 0x7FF8000000000000 = 0x7FF0000000000000 \<and> uiA AND 0x0007FFFFFFFFFFFF \<noteq> 0)"

definition softfloat_propagateNaNF16UI :: "u64 \<Rightarrow> u64 \<Rightarrow> sf_state \<Rightarrow> u64 \<times> sf_state" where
  "softfloat_propagateNaNF16UI uiA uiB st =
     (defaultNaNF16UI,
      if softfloat_isSigNaNF16UI uiA \<or> softfloat_isSigNaNF16UI uiB
      then softfloat_raiseFlags softfloat_flag_invalid st else st)"

definition softfloat_propagateNaNF32UI :: "u64 \<Rightarrow> u64 \<Rightarrow> sf_state \<Rightarrow> u64 \<times> sf_state" where
  "softfloat_propagateNaNF32UI uiA uiB st =
     (defaultNaNF32UI,
      if softfloat_isSigNaNF32UI uiA \<or> softfloat_isSigNaNF32UI uiB
      then softfloat_raiseFlags softfloat_flag_invalid st else st)"

definition softfloat_propagateNaNF64UI :: "u64 \<Rightarrow> u64 \<Rightarrow> sf_state \<Rightarrow> u64 \<times> sf_state" where
  "softfloat_propagateNaNF64UI uiA uiB st =
     (defaultNaNF64UI,
      if softfloat_isSigNaNF64UI uiA \<or> softfloat_isSigNaNF64UI uiB
      then softfloat_raiseFlags softfloat_flag_invalid st else st)"

section \<open>Subnormals\<close>

record exp_sig =
  es_exp :: int
  es_sig :: u64

definition softfloat_normSubnormalF16Sig :: "u64 \<Rightarrow> exp_sig" where
  "softfloat_normSubnormalF16Sig sig =
     (let shiftDist = int (unat (softfloat_countLeadingZeros16 (ucast sig))) - 5
      in \<lparr>es_exp = 1 - shiftDist, es_sig = push_bit (nat shiftDist) sig\<rparr>)"

definition softfloat_normSubnormalF32Sig :: "u64 \<Rightarrow> exp_sig" where
  "softfloat_normSubnormalF32Sig sig =
     (let shiftDist = int (unat (softfloat_countLeadingZeros32 (ucast sig))) - 8
      in \<lparr>es_exp = 1 - shiftDist, es_sig = push_bit (nat shiftDist) sig\<rparr>)"

definition softfloat_normSubnormalF64Sig :: "u64 \<Rightarrow> exp_sig" where
  "softfloat_normSubnormalF64Sig sig =
     (let shiftDist = int (unat (softfloat_countLeadingZeros64 sig)) - 11
      in \<lparr>es_exp = 1 - shiftDist, es_sig = push_bit (nat shiftDist) sig\<rparr>)"


section \<open>Rounding and packing\<close>

text \<open>
  The routines take the sign, an exponent one less than the biased exponent of the result, and a
  significand with its leading bit two places below the top and 4, 7 or 10 bits to round away.
\<close>

definition roundPackToF16_tail :: "bool \<Rightarrow> u8 \<Rightarrow> u8 \<Rightarrow> int \<Rightarrow> u64 \<Rightarrow> u8 \<Rightarrow> sf_state \<Rightarrow> float16_t \<times> sf_state" where
  "roundPackToF16_tail sign roundingMode roundIncrement exp sig roundBits st =
     (let roundNearEven = (roundingMode = softfloat_round_near_even);
          sig = drop_bit 4 (sig + ucast roundIncrement);
          st = (if roundBits \<noteq> 0 then softfloat_raiseFlags softfloat_flag_inexact st else st)
      in if roundBits \<noteq> 0 \<and> roundingMode = softfloat_round_odd
         then (ucast (packToF16UI sign exp (sig OR 1)), st)
         else let sig = sig AND NOT (of_bool (roundBits XOR 0x8 = 0 \<and> roundNearEven));
                  exp = (if sig = 0 then 0 else exp)
              in (ucast (packToF16UI sign exp sig), st))"

definition softfloat_roundPackToF16 :: "bool \<Rightarrow> int \<Rightarrow> u64 \<Rightarrow> sf_state \<Rightarrow> float16_t \<times> sf_state" where
  "softfloat_roundPackToF16 sign exp sig st =
     (let roundingMode = softfloat_roundingMode st;
          roundNearEven = (roundingMode = softfloat_round_near_even);
          roundIncrement = (if \<not> roundNearEven \<and> roundingMode \<noteq> softfloat_round_near_maxMag
            then if roundingMode = (if sign then softfloat_round_min else softfloat_round_max)
                 then 0xF else 0
            else 0x8) :: u8;
          roundBits = ucast (sig AND 0xF)
      in if 0x1D \<le> uint32_of exp \<and> exp < 0
         then let isTiny = (softfloat_detectTininess st = softfloat_tininess_beforeRounding
                    \<or> exp < - 1 \<or> sig + ucast roundIncrement < 0x8000);
                  sig = ucast (softfloat_shiftRightJam32 (ucast sig) (word_of_int (- exp)));
                  roundBits = ucast (sig AND 0xF);
                  st = (if isTiny \<and> roundBits \<noteq> 0
                        then softfloat_raiseFlags softfloat_flag_underflow st else st)
              in roundPackToF16_tail sign roundingMode roundIncrement 0 sig roundBits st
         else if 0x1D \<le> uint32_of exp \<and> (0x1D < exp \<or> 0x8000 \<le> sig + ucast roundIncrement)
         then (ucast (packToF16UI sign 0x1F 0 - of_bool (roundIncrement = 0)),
               softfloat_raiseFlags (softfloat_flag_overflow OR softfloat_flag_inexact) st)
         else roundPackToF16_tail sign roundingMode roundIncrement exp sig roundBits st)"

definition softfloat_normRoundPackToF16 :: "bool \<Rightarrow> int \<Rightarrow> u64 \<Rightarrow> sf_state \<Rightarrow> float16_t \<times> sf_state" where
  "softfloat_normRoundPackToF16 sign exp sig st =
     (let shiftDist = int (unat (softfloat_countLeadingZeros16 (ucast sig))) - 1;
          exp = exp - shiftDist
      in if 4 \<le> shiftDist \<and> uint32_of exp < 0x1D
         then (ucast (packToF16UI sign (if sig \<noteq> 0 then exp else 0) (push_bit (nat (shiftDist - 4)) sig)), st)
         else softfloat_roundPackToF16 sign exp (push_bit (nat shiftDist) sig) st)"

definition roundPackToF32_tail :: "bool \<Rightarrow> u8 \<Rightarrow> u8 \<Rightarrow> int \<Rightarrow> u64 \<Rightarrow> u8 \<Rightarrow> sf_state \<Rightarrow> float32_t \<times> sf_state" where
  "roundPackToF32_tail sign roundingMode roundIncrement exp sig roundBits st =
     (let roundNearEven = (roundingMode = softfloat_round_near_even);
          sig = drop_bit 7 (sig + ucast roundIncrement);
          st = (if roundBits \<noteq> 0 then softfloat_raiseFlags softfloat_flag_inexact st else st)
      in if roundBits \<noteq> 0 \<and> roundingMode = softfloat_round_odd
         then (ucast (packToF32UI sign exp (sig OR 1)), st)
         else let sig = sig AND NOT (of_bool (roundBits XOR 0x40 = 0 \<and> roundNearEven));
                  exp = (if sig = 0 then 0 else exp)
              in (ucast (packToF32UI sign exp sig), st))"

definition softfloat_roundPackToF32 :: "bool \<Rightarrow> int \<Rightarrow> u64 \<Rightarrow> sf_state \<Rightarrow> float32_t \<times> sf_state" where
  "softfloat_roundPackToF32 sign exp sig st =
     (let roundingMode = softfloat_roundingMode st;
          roundNearEven = (roundingMode = softfloat_round_near_even);
          roundIncrement = (if \<not> roundNearEven \<and> roundingMode \<noteq> softfloat_round_near_maxMag
            then if roundingMode = (if sign then softfloat_round_min else softfloat_round_max)
                 then 0x7F else 0
            else 0x40) :: u8;
          roundBits = ucast (sig AND 0x7F)
      in if 0xFD \<le> uint32_of exp \<and> exp < 0
         then let isTiny = (softfloat_detectTininess st = softfloat_tininess_beforeRounding
                    \<or> exp < - 1 \<or> sig + ucast roundIncrement < 0x80000000);
                  sig = ucast (softfloat_shiftRightJam32 (ucast sig) (word_of_int (- exp)));
                  roundBits = ucast (sig AND 0x7F);
                  st = (if isTiny \<and> roundBits \<noteq> 0
                        then softfloat_raiseFlags softfloat_flag_underflow st else st)
              in roundPackToF32_tail sign roundingMode roundIncrement 0 sig roundBits st
         else if 0xFD \<le> uint32_of exp \<and> (0xFD < exp \<or> 0x80000000 \<le> sig + ucast roundIncrement)
         then (ucast (packToF32UI sign 0xFF 0 - of_bool (roundIncrement = 0)),
               softfloat_raiseFlags (softfloat_flag_overflow OR softfloat_flag_inexact) st)
         else roundPackToF32_tail sign roundingMode roundIncrement exp sig roundBits st)"

definition softfloat_normRoundPackToF32 :: "bool \<Rightarrow> int \<Rightarrow> u64 \<Rightarrow> sf_state \<Rightarrow> float32_t \<times> sf_state" where
  "softfloat_normRoundPackToF32 sign exp sig st =
     (let shiftDist = int (unat (softfloat_countLeadingZeros32 (ucast sig))) - 1;
          exp = exp - shiftDist
      in if 7 \<le> shiftDist \<and> uint32_of exp < 0xFD
         then (ucast (packToF32UI sign (if sig \<noteq> 0 then exp else 0) (push_bit (nat (shiftDist - 7)) sig)), st)
         else softfloat_roundPackToF32 sign exp (push_bit (nat shiftDist) sig) st)"

definition roundPackToF64_tail :: "bool \<Rightarrow> u8 \<Rightarrow> u64 \<Rightarrow> int \<Rightarrow> u64 \<Rightarrow> u64 \<Rightarrow> sf_state \<Rightarrow> float64_t \<times> sf_state" where
  "roundPackToF64_tail sign roundingMode roundIncrement exp sig roundBits st =
     (let roundNearEven = (roundingMode = softfloat_round_near_even);
          sig = drop_bit 10 (sig + roundIncrement);
          st = (if roundBits \<noteq> 0 then softfloat_raiseFlags softfloat_flag_inexact st else st)
      in if roundBits \<noteq> 0 \<and> roundingMode = softfloat_round_odd
         then ((packToF64UI sign exp (sig OR 1)), st)
         else let sig = sig AND NOT (of_bool (roundBits XOR 0x200 = 0 \<and> roundNearEven));
                  exp = (if sig = 0 then 0 else exp)
              in ((packToF64UI sign exp sig), st))"

definition softfloat_roundPackToF64 :: "bool \<Rightarrow> int \<Rightarrow> u64 \<Rightarrow> sf_state \<Rightarrow> float64_t \<times> sf_state" where
  "softfloat_roundPackToF64 sign exp sig st =
     (let roundingMode = softfloat_roundingMode st;
          roundNearEven = (roundingMode = softfloat_round_near_even);
          roundIncrement = (if \<not> roundNearEven \<and> roundingMode \<noteq> softfloat_round_near_maxMag
            then if roundingMode = (if sign then softfloat_round_min else softfloat_round_max)
                 then 0x3FF else 0
            else 0x200) :: u64;
          roundBits = (sig AND 0x3FF)
      in if 0x7FD \<le> uint16_of exp \<and> exp < 0
         then let isTiny = (softfloat_detectTininess st = softfloat_tininess_beforeRounding
                    \<or> exp < - 1 \<or> sig + roundIncrement < 0x8000000000000000);
                  sig = softfloat_shiftRightJam64 sig (word_of_int (- exp));
                  roundBits = (sig AND 0x3FF);
                  st = (if isTiny \<and> roundBits \<noteq> 0
                        then softfloat_raiseFlags softfloat_flag_underflow st else st)
              in roundPackToF64_tail sign roundingMode roundIncrement 0 sig roundBits st
         else if 0x7FD \<le> uint16_of exp \<and> (0x7FD < exp \<or> 0x8000000000000000 \<le> sig + roundIncrement)
         then ((packToF64UI sign 0x7FF 0 - of_bool (roundIncrement = 0)),
               softfloat_raiseFlags (softfloat_flag_overflow OR softfloat_flag_inexact) st)
         else roundPackToF64_tail sign roundingMode roundIncrement exp sig roundBits st)"

definition softfloat_normRoundPackToF64 :: "bool \<Rightarrow> int \<Rightarrow> u64 \<Rightarrow> sf_state \<Rightarrow> float64_t \<times> sf_state" where
  "softfloat_normRoundPackToF64 sign exp sig st =
     (let shiftDist = int (unat (softfloat_countLeadingZeros64 sig)) - 1;
          exp = exp - shiftDist
      in if 10 \<le> shiftDist \<and> uint32_of exp < 0x7FD
         then (packToF64UI sign (if sig \<noteq> 0 then exp else 0) (push_bit (nat (shiftDist - 10)) sig), st)
         else softfloat_roundPackToF64 sign exp (push_bit (nat shiftDist) sig) st)"

section \<open>What the field macros compute\<close>

lemma and_not_1: "(a :: u64) AND NOT 1 = push_bit 1 (drop_bit 1 a)"
  by (rule bit_word_eqI, unfold bit_and_iff bit_not_iff bit_push_bit_iff bit_drop_bit_eq bit_1_iff) auto

lemma unat_and_even: "unat ((a :: u64) AND - 2) = unat a - of_bool (odd (unat a))"
proof -
  have "unat a div 2 * 2 mod 18446744073709551616 = unat a div 2 * 2"
    using unat_lt_64 [of a] by (intro mod_less) simp
  then have "unat (push_bit 1 (drop_bit 1 a)) = unat a - of_bool (odd (unat a))"
    by (simp only: unat_push unat_drop) (simp add: minus_mod_eq_div_mult [symmetric] odd_iff_mod_2_eq_one)
  then show ?thesis using and_not_1 [of a] by simp
qed

lemma unat_and_not_truth: "unat (a AND NOT (of_bool b) :: u64) = unat a - of_bool (b \<and> odd (unat a))"
  by (cases b) (simp_all add: unat_and_even)

lemma xor_eq_0: "a XOR b = 0 \<longleftrightarrow> a = b" for a b :: "'a::len word"
  by (metis xor.left_neutral xor.right_neutral xor.assoc xor_self_eq)

lemma round_tail:
  fixes sig inc :: u64
  assumes "unat inc = round_inc (rmode_of mode) s (2 ^ w)" "1 \<le> w" "unat sig + 2 ^ w \<le> 2 ^ 64"
    and rb: "nz \<longleftrightarrow> unat sig mod 2 ^ w \<noteq> 0" "tie \<longleftrightarrow> 2 * (unat sig mod 2 ^ w) = 2 ^ w"
  shows "unat (if nz \<and> mode = softfloat_round_odd then drop_bit w (sig + inc) OR 1
    else drop_bit w (sig + inc) AND NOT (of_bool (tie \<and> mode = softfloat_round_near_even)))
    = rdiv (rmode_of mode) s (unat sig) (2 ^ w)"
proof -
  have D: "0 < (2 :: nat) ^ w" "even ((2 :: nat) ^ w)" using assms(2) by simp_all
  have "unat sig + unat inc < 2 ^ 64"
    using assms(1,3) round_inc_less [OF D(1), of "rmode_of mode" s] by simp
  then have q: "unat (drop_bit w (sig + inc)) = (unat sig + unat inc) div 2 ^ w"
    by (simp add: unat_drop unat_word_ariths)
  have m: "mode = softfloat_round_odd \<longleftrightarrow> rmode_of mode = ROD"
    "mode = softfloat_round_near_even \<longleftrightarrow> rmode_of mode = RNE" by (auto simp: rmode_of_def)
  have or1: "unat (x OR 1) = unat x + of_bool (even (unat x))" for x :: u64
    using unat_or_truth [of x True] by simp
  show ?thesis
    unfolding rdiv_by_add [OF D] assms(1) [symmetric] m rb
    by (simp add: or1 unat_and_even q)
qed

lemma nat_code_increment:
  fixes mode :: u8
  shows "round_inc (rmode_of mode) s (2 ^ w) =
    (if mode \<noteq> softfloat_round_near_even \<and> mode \<noteq> softfloat_round_near_maxMag
     then if mode = (if s then softfloat_round_min else softfloat_round_max) then 2 ^ w - 1 else 0
     else 2 ^ w div 2)"
  by (auto simp: round_inc_def rmode_of_def)

lemma unat_shift_truth: "k < LENGTH('a::len) \<Longrightarrow> unat (push_bit k (of_bool b) :: 'a word) = of_bool b * 2 ^ k"
  by (simp add: unat_push unat_truth)

lemma unat_of_exp:
  "0 \<le> exp \<Longrightarrow> exp < 2 ^ LENGTH('a) \<Longrightarrow> unat (word_of_int exp :: 'a::len word) = nat exp"
  by (simp add: unat_of_int)

lemma unat_packToF16UI:
  assumes "0 \<le> exp" "exp \<le> 0x3F" "nat exp * 2 ^ 10 + unat sig < 2 ^ 63"
  shows "unat (packToF16UI sign exp sig) = of_bool sign * 2 ^ 15 + (nat exp * 2 ^ 10 + unat sig)"
  using assms by (simp add: packToF16UI_def unat_word_ariths unat_cast unat_push unat_of_exp nat_less_iff)

lemma unat_packToF32UI:
  assumes "0 \<le> exp" "exp \<le> 0xFF" "nat exp * 2 ^ 23 + unat sig < 2 ^ 63"
  shows "unat (packToF32UI sign exp sig) = of_bool sign * 2 ^ 31 + (nat exp * 2 ^ 23 + unat sig)"
  using assms by (cases "sign"; simp add: packToF32UI_def unat_word_ariths unat_cast unat_push unat_of_exp)

lemma unat_packToF64UI:
  assumes "0 \<le> exp" "nat exp * 2 ^ 52 + unat sig < 2 ^ 63"
  shows "unat (packToF64UI sign exp sig) = of_bool sign * 2 ^ 63 + (nat exp * 2 ^ 52 + unat sig)"
proof -
  have "nat exp < 2 ^ 11" using assms(2) by simp
  then have e: "unat (word_of_int exp :: u64) = nat exp"
    using assms(1) by (simp add: unat_of_exp nat_less_iff)
  show ?thesis
    using assms by (cases sign) (simp_all add: packToF64UI_def unat_word_ariths unat_push e)
qed

section \<open>The packing routines round correctly\<close>

text \<open>The exponent tests of the code, which compare an unsigned conversion.\<close>

lemma wrap_int:
  fixes i :: int
  assumes "- b \<le> i" "i < b"
  shows "i mod b = (if i < 0 then i + b else i)"
proof (cases "i < 0")
  case True
  have "i mod b = (i + b) mod b" by simp
  also have "\<dots> = i + b" using True assms by (intro mod_pos_pos_trivial) simp_all
  finally show ?thesis using True by simp
qed (use assms in simp)

lemma uint32_of_exp:
  "- (2 ^ 31) \<le> exp \<Longrightarrow> exp < 2 ^ 31 \<Longrightarrow> int (uint32_of exp) = (if exp < 0 then exp + 2 ^ 32 else exp)"
  by (simp add: uint32_of_def wrap_int)

lemma uint16_of_exp:
  "- 60000 \<le> exp \<Longrightarrow> exp \<le> 60000 \<Longrightarrow> int (uint16_of exp) = (if exp < 0 then exp + 2 ^ 16 else exp)"
  by (simp add: uint16_of_def wrap_int)

text \<open>A result word read as a number, beside the state.\<close>

definition bits :: "'a::len word \<times> sf_state \<Rightarrow> nat \<times> sf_state" where
  "bits r = (unat (fst r), snd r)"

lemma bits_inj: "bits r = bits s \<Longrightarrow> r = s"
  by (simp add: bits_def word_eq_nat prod_eq_iff)

text \<open>
  The last steps of each routine: round by the increment, drop the low bits, pack. In all of
  them the significand may carry into the exponent, which is what makes the packed sum monotone.
\<close>

lemma unat_mask_cast_8:
  "unat (ucast (sig AND 0xF :: u64) :: u8) = unat sig mod 2 ^ 4"
  "unat (ucast (sig AND 0x7F :: u64) :: u8) = unat sig mod 2 ^ 7"
  "unat (sig AND 0x3FF :: u64) = unat sig mod 2 ^ 10"
  by (simp_all add: unat_cast unat_conj bits_nat mod_mod_cancel)

lemma rdiv_0 [simp]: "0 < d \<Longrightarrow> rdiv m s 0 d = 0"
  using rdiv_exact [of d m s 0] by simp


lemma roundPackToF16_tail:
  fixes inc rb :: u8 and sig :: u64
  assumes inc: "unat inc = round_inc (rmode_of mode) sign (2 ^ 4)" and sig: "unat sig < 2 ^ 63"
    and rb: "unat rb = unat sig mod 2 ^ 4" and e: "0 \<le> exp" "exp \<le> 0x1F"
    and big: "exp = 0 \<or> 2 ^ 4 \<le> unat sig"
    and fin: "nat exp * 2 ^ 10 + rdiv (rmode_of mode) sign (unat sig) (2 ^ 4) < 2 ^ 15"
  shows "bits (roundPackToF16_tail sign mode inc exp sig rb st) =
    (of_bool sign * 2 ^ 15 + (nat exp * 2 ^ 10 + rdiv (rmode_of mode) sign (unat sig) (2 ^ 4)),
     softfloat_raiseFlags (if unat sig mod 2 ^ 4 \<noteq> 0 then 1 else 0) st)"
proof -
  define r where "r = rdiv (rmode_of mode) sign (unat sig) (2 ^ 4)"
  define q where "q = (if rb \<noteq> 0 \<and> mode = softfloat_round_odd then drop_bit 4 (sig + ucast inc) OR 1
    else drop_bit 4 (sig + ucast inc) AND NOT (of_bool (rb = 0x8 \<and> mode = softfloat_round_near_even)))"
  have q: "unat q = r"
    unfolding q_def r_def
  proof (rule round_tail)
    show "unat (ucast inc :: u64) = round_inc (rmode_of mode) sign (2 ^ 4)"
      using inc unat_lt_8 [of inc] by (simp add: unat_cast)
    show "rb \<noteq> 0 \<longleftrightarrow> unat sig mod 2 ^ 4 \<noteq> 0" using rb by (simp add: word_eq_nat)
    show "rb = 0x8 \<longleftrightarrow> 2 * (unat sig mod 2 ^ 4) = 2 ^ 4"
      unfolding rb [symmetric] word_eq_nat by simp
  qed (use sig in simp_all)
  have nz: "q \<noteq> 0" if "exp \<noteq> 0"
  proof -
    have "1 \<le> unat sig div 2 ^ 4" using big that pow2_le_div [of 4 0 "unat sig"] by simp
    then have "1 \<le> r" using rdiv_bounds(1) [of "unat sig" "2 ^ 4"] order_trans unfolding r_def by blast
    then show ?thesis using q by (auto simp: word_eq_nat)
  qed
  have pk: "unat (packToF16UI sign exp q) = of_bool sign * 2 ^ 15 + (nat exp * 2 ^ 10 + r)"
    using fin [folded r_def] e by (subst unat_packToF16UI) (simp_all add: q)
  have "unat (ucast (packToF16UI sign exp q) :: 16 word) = of_bool sign * 2 ^ 15 + (nat exp * 2 ^ 10 + r)"
    using pk fin [folded r_def] by (cases sign) (simp_all add: unat_cast)
  moreover have "roundPackToF16_tail sign mode inc exp sig rb st =
      (ucast (packToF16UI sign exp q), softfloat_raiseFlags (if rb \<noteq> 0 then 1 else 0) st)"
    unfolding roundPackToF16_tail_def Let_def xor_eq_0
    using nz unfolding q_def by (cases "exp = 0") (auto simp del: not_one_eq)
  moreover have "rb \<noteq> 0 \<longleftrightarrow> unat sig mod 2 ^ 4 \<noteq> 0" using rb by (simp add: word_eq_nat)
  ultimately show ?thesis by (simp add: bits_def r_def)
qed

theorem roundPackToF16_ieee:
  assumes "2 ^ (10 + 4) \<le> unat sig" "unat sig < 2 ^ (10 + 4 + 1)"
    and e: "- (2 ^ 31) \<le> exp" "exp < 2 ^ 31"
  shows "bits (softfloat_roundPackToF16 sign exp sig st) =
    ieee_result f16_fmt st sign (unat sig) (pack_exp f16_fmt 4 exp)"
proof -
  define mode where "mode = softfloat_roundingMode st"
  define inc :: u8 where "inc = (if mode \<noteq> softfloat_round_near_even \<and> mode \<noteq> softfloat_round_near_maxMag
    then if mode = (if sign then softfloat_round_min else softfloat_round_max) then 0xF else 0 else 0x8)"
  have inc: "unat inc = round_inc (rmode_of mode) sign (2 ^ 4)"
    unfolding nat_code_increment inc_def by (simp split: if_split)
  have cinc: "unat (ucast inc :: u64) = unat inc"
    using unat_lt_8 [of inc] by (simp add: unat_cast)
  have n: "2 ^ (frac_bits f16_fmt + 4) \<le> unat sig" "unat sig < 2 ^ (frac_bits f16_fmt + 4 + 1)"
    using assms(1,2) by simp_all
  have lt: "unat inc < 2 ^ 4" unfolding inc by (rule round_inc_less) simp
  have sum: "unat (sig + ucast inc) = unat sig + unat inc"
    using lt assms(2) cinc by (simp add: unat_word_ariths)
  have ue: "0x1D \<le> uint32_of exp \<longleftrightarrow> exp < 0 \<or> 0x1D \<le> exp"
    using uint32_of_exp [OF e] e by (cases "exp < 0"; simp; linarith)
  have code: "softfloat_roundPackToF16 sign exp sig st =
    (if exp < 0
     then let sig' = ucast (softfloat_shiftRightJam32 (ucast sig) (word_of_int (- exp)));
              rb = ucast (sig' AND 0xF)
          in roundPackToF16_tail sign mode inc 0 sig' rb
               (if (tiny_before st \<or> exp < - 1 \<or> unat sig + unat inc < 2 ^ 15) \<and> rb \<noteq> 0
                then softfloat_raiseFlags softfloat_flag_underflow st else st)
     else if 0x1D \<le> exp \<and> (0x1D < exp \<or> 2 ^ 15 \<le> unat sig + unat inc)
     then (ucast (packToF16UI sign 0x1F 0 - of_bool (inc = 0)), softfloat_raiseFlags 5 st)
     else roundPackToF16_tail sign mode inc exp sig (ucast (sig AND 0xF)) st)"
    unfolding softfloat_roundPackToF16_def Let_def ue mode_def [symmetric] inc_def [symmetric]
      word_less_nat_alt word_le_nat_alt sum by simp auto
  have pk: "ieee_result f16_fmt st sign (unat sig) (pack_exp f16_fmt 4 exp) =
    (if 0x1D \<le> exp \<and> (0x1D < exp \<or> 2 ^ 15 \<le> unat sig + unat inc)
     then (of_bool sign * 2 ^ 15 + (0x1F * 2 ^ 10 - of_bool (unat inc = 0)), softfloat_raiseFlags 5 st)
     else (of_bool sign * 2 ^ 15 + (nat exp * 2 ^ 10 + rdiv (rmode_of mode) sign
             (if exp < 0 then jam (unat sig) (2 ^ nat (- exp)) else unat sig) (2 ^ 4)),
           softfloat_raiseFlags
             (if (if exp < 0 then jam (unat sig) (2 ^ nat (- exp)) else unat sig) mod 2 ^ 4 \<noteq> 0
              then if exp < 0 \<and> (tiny_before st \<or> exp < - 1 \<or> unat sig + unat inc < 2 ^ 15)
                   then 3 else 1
              else 0) st))"
  proof -
    have c: "sign_weight f16_fmt = 2 ^ 15" "inf_mag f16_fmt = 0x1F * 2 ^ 10" "int (exp_max f16_fmt) - 2 = 0x1D"
      "(2 :: nat) ^ (10 + 4 + 1) = 2 ^ 15" "frac_bits f16_fmt = 10"
      by (simp_all add: sign_weight_def inf_mag_def)
    have p: "(2 :: nat) \<le> 4" "2 \<le> exp_max f16_fmt" by simp_all
    show ?thesis
      using ieee_result_pack [OF n p, of st sign exp] unfolding mode_def [symmetric] inc [symmetric] c .
  qed
  have below: "nat exp * 2 ^ 10 + rdiv (rmode_of mode) sign
      (if exp < 0 then jam (unat sig) (2 ^ nat (- exp)) else unat sig) (2 ^ 4) < 0x1F * 2 ^ 10"
    if "\<not> (0x1D \<le> exp \<and> (0x1D < exp \<or> 2 ^ 15 \<le> unat sig + unat inc))"
    using pack_below_inf [OF n, of exp "rmode_of mode" sign] that by (simp add: inf_mag_def inc)
  consider "exp < 0" | "0x1D \<le> exp \<and> (0x1D < exp \<or> 2 ^ 15 \<le> unat sig + unat inc)"
    | "0 \<le> exp" "\<not> (0x1D \<le> exp \<and> (0x1D < exp \<or> 2 ^ 15 \<le> unat sig + unat inc))" by linarith
  then show ?thesis
  proof cases
    case 1
    define d where "d = (word_of_int (- exp) :: u64)"
    define sig' :: u64 where "sig' = ucast (softfloat_shiftRightJam32 (ucast sig) (word_of_int (- exp)))"
    have dist: "unat d = nat (- exp)"
      unfolding d_def using 1 e by (intro unat_of_exp) simp_all
    have pos: "0 < d" using 1 dist by (simp add: word_less_nat_alt)
    have s': "unat sig' = jam (unat sig) (2 ^ nat (- exp))"
      unfolding sig'_def d_def [symmetric] using assms(2) unat_lt_32 [of "softfloat_shiftRightJam32 (ucast sig) d"]
      by (simp add: unat_cast unat_shiftRightJam32 [OF pos] dist)
    have "unat sig < 2 ^ nat (- exp) * 2 ^ 15"
    proof -
      have "1 * 2 ^ 15 \<le> 2 ^ nat (- exp) * (2 :: nat) ^ 15" by (intro mult_le_mono1) simp
      moreover have "unat sig < 1 * 2 ^ 15" using assms(2) by simp
      ultimately show ?thesis by linarith
    qed
    then have lt': "unat sig' < 2 ^ 15" unfolding s' by (intro jam_less) simp_all
    define rb :: u8 where "rb = ucast (sig' AND 0xF)"
    have rb: "unat rb = unat sig' mod 2 ^ 4" unfolding rb_def by (rule unat_mask_cast_8)
    have nz: "rb \<noteq> 0 \<longleftrightarrow> unat sig' mod 2 ^ 4 \<noteq> 0" using rb by (simp add: word_eq_nat)
    have "bits (roundPackToF16_tail sign mode inc 0 sig' rb st') =
        (of_bool sign * 2 ^ 15 + (nat 0 * 2 ^ 10 + rdiv (rmode_of mode) sign (unat sig') (2 ^ 4)),
         softfloat_raiseFlags (if unat sig' mod 2 ^ 4 \<noteq> 0 then 1 else 0) st')" for st'
      using below 1 lt' by (intro roundPackToF16_tail inc rb) (simp_all add: s')
    then show ?thesis
      unfolding code pk Let_def sig'_def [symmetric] rb_def [symmetric] nz using 1 by (simp add: s')
  next
    case 2
    have "unat (packToF16UI sign 0x1F 0) = of_bool sign * 2 ^ 15 + 0x1F * 2 ^ 10"
      by (subst unat_packToF16UI) simp_all
    moreover have "unat inc = 0 \<longleftrightarrow> inc = 0" by (simp add: word_eq_nat)
    ultimately have "unat (packToF16UI sign 0x1F 0 - of_bool (inc = 0)) =
        of_bool sign * 2 ^ 15 + (0x1F * 2 ^ 10 - of_bool (unat inc = 0))"
      by (cases "inc = 0") (simp_all add: unat_sub word_le_nat_alt)
    then show ?thesis
      unfolding code pk using 2 by (cases sign) (simp_all add: bits_def unat_cast)
  next
    case 3
    have "bits (roundPackToF16_tail sign mode inc exp sig (ucast (sig AND 0xF)) st) =
        (of_bool sign * 2 ^ 15 + (nat exp * 2 ^ 10 + rdiv (rmode_of mode) sign (unat sig) (2 ^ 4)),
         softfloat_raiseFlags (if unat sig mod 2 ^ 4 \<noteq> 0 then 1 else 0) st)"
      using below [OF 3(2)] 3 assms(1,2) by (intro roundPackToF16_tail inc unat_mask_cast_8) simp_all
    then show ?thesis
      unfolding code pk if_not_P [OF 3(2)] using 3(1) by simp
  qed
qed

lemma roundPackToF32_tail:
  fixes inc rb :: u8 and sig :: u64
  assumes inc: "unat inc = round_inc (rmode_of mode) sign (2 ^ 7)" and sig: "unat sig < 2 ^ 63"
    and rb: "unat rb = unat sig mod 2 ^ 7" and e: "0 \<le> exp" "exp \<le> 0xFF"
    and big: "exp = 0 \<or> 2 ^ 7 \<le> unat sig"
    and fin: "nat exp * 2 ^ 23 + rdiv (rmode_of mode) sign (unat sig) (2 ^ 7) < 2 ^ 31"
  shows "bits (roundPackToF32_tail sign mode inc exp sig rb st) =
    (of_bool sign * 2 ^ 31 + (nat exp * 2 ^ 23 + rdiv (rmode_of mode) sign (unat sig) (2 ^ 7)),
     softfloat_raiseFlags (if unat sig mod 2 ^ 7 \<noteq> 0 then 1 else 0) st)"
proof -
  define r where "r = rdiv (rmode_of mode) sign (unat sig) (2 ^ 7)"
  define q where "q = (if rb \<noteq> 0 \<and> mode = softfloat_round_odd then drop_bit 7 (sig + ucast inc) OR 1
    else drop_bit 7 (sig + ucast inc) AND NOT (of_bool (rb = 0x40 \<and> mode = softfloat_round_near_even)))"
  have q: "unat q = r"
    unfolding q_def r_def
  proof (rule round_tail)
    show "unat (ucast inc :: u64) = round_inc (rmode_of mode) sign (2 ^ 7)"
      using inc unat_lt_8 [of inc] by (simp add: unat_cast)
    show "rb \<noteq> 0 \<longleftrightarrow> unat sig mod 2 ^ 7 \<noteq> 0" using rb by (simp add: word_eq_nat)
    show "rb = 0x40 \<longleftrightarrow> 2 * (unat sig mod 2 ^ 7) = 2 ^ 7"
      unfolding rb [symmetric] word_eq_nat by simp
  qed (use sig in simp_all)
  have nz: "q \<noteq> 0" if "exp \<noteq> 0"
  proof -
    have "1 \<le> unat sig div 2 ^ 7" using big that pow2_le_div [of 7 0 "unat sig"] by simp
    then have "1 \<le> r" using rdiv_bounds(1) [of "unat sig" "2 ^ 7"] order_trans unfolding r_def by blast
    then show ?thesis using q by (auto simp: word_eq_nat)
  qed
  have pk: "unat (packToF32UI sign exp q) = of_bool sign * 2 ^ 31 + (nat exp * 2 ^ 23 + r)"
    using fin [folded r_def] e by (subst unat_packToF32UI) (simp_all add: q)
  have "unat (ucast (packToF32UI sign exp q) :: 32 word) = of_bool sign * 2 ^ 31 + (nat exp * 2 ^ 23 + r)"
    using pk fin [folded r_def] by (cases sign) (simp_all add: unat_cast)
  moreover have "roundPackToF32_tail sign mode inc exp sig rb st =
      (ucast (packToF32UI sign exp q), softfloat_raiseFlags (if rb \<noteq> 0 then 1 else 0) st)"
    unfolding roundPackToF32_tail_def Let_def xor_eq_0
    using nz unfolding q_def by (cases "exp = 0") (auto simp del: not_one_eq)
  moreover have "rb \<noteq> 0 \<longleftrightarrow> unat sig mod 2 ^ 7 \<noteq> 0" using rb by (simp add: word_eq_nat)
  ultimately show ?thesis by (simp add: bits_def r_def)
qed

theorem roundPackToF32_ieee:
  assumes "2 ^ (23 + 7) \<le> unat sig" "unat sig < 2 ^ (23 + 7 + 1)"
    and e: "- (2 ^ 31) \<le> exp" "exp < 2 ^ 31"
  shows "bits (softfloat_roundPackToF32 sign exp sig st) =
    ieee_result f32_fmt st sign (unat sig) (pack_exp f32_fmt 7 exp)"
proof -
  define mode where "mode = softfloat_roundingMode st"
  define inc :: u8 where "inc = (if mode \<noteq> softfloat_round_near_even \<and> mode \<noteq> softfloat_round_near_maxMag
    then if mode = (if sign then softfloat_round_min else softfloat_round_max) then 0x7F else 0 else 0x40)"
  have inc: "unat inc = round_inc (rmode_of mode) sign (2 ^ 7)"
    unfolding nat_code_increment inc_def by (simp split: if_split)
  have cinc: "unat (ucast inc :: u64) = unat inc"
    using unat_lt_8 [of inc] by (simp add: unat_cast)
  have n: "2 ^ (frac_bits f32_fmt + 7) \<le> unat sig" "unat sig < 2 ^ (frac_bits f32_fmt + 7 + 1)"
    using assms(1,2) by simp_all
  have lt: "unat inc < 2 ^ 7" unfolding inc by (rule round_inc_less) simp
  have sum: "unat (sig + ucast inc) = unat sig + unat inc"
    using lt assms(2) cinc by (simp add: unat_word_ariths)
  have ue: "0xFD \<le> uint32_of exp \<longleftrightarrow> exp < 0 \<or> 0xFD \<le> exp"
    using uint32_of_exp [OF e] e by (cases "exp < 0"; simp; linarith)
  have code: "softfloat_roundPackToF32 sign exp sig st =
    (if exp < 0
     then let sig' = ucast (softfloat_shiftRightJam32 (ucast sig) (word_of_int (- exp)));
              rb = ucast (sig' AND 0x7F)
          in roundPackToF32_tail sign mode inc 0 sig' rb
               (if (tiny_before st \<or> exp < - 1 \<or> unat sig + unat inc < 2 ^ 31) \<and> rb \<noteq> 0
                then softfloat_raiseFlags softfloat_flag_underflow st else st)
     else if 0xFD \<le> exp \<and> (0xFD < exp \<or> 2 ^ 31 \<le> unat sig + unat inc)
     then (ucast (packToF32UI sign 0xFF 0 - of_bool (inc = 0)), softfloat_raiseFlags 5 st)
     else roundPackToF32_tail sign mode inc exp sig (ucast (sig AND 0x7F)) st)"
    unfolding softfloat_roundPackToF32_def Let_def ue mode_def [symmetric] inc_def [symmetric]
      word_less_nat_alt word_le_nat_alt sum by simp auto
  have pk: "ieee_result f32_fmt st sign (unat sig) (pack_exp f32_fmt 7 exp) =
    (if 0xFD \<le> exp \<and> (0xFD < exp \<or> 2 ^ 31 \<le> unat sig + unat inc)
     then (of_bool sign * 2 ^ 31 + (0xFF * 2 ^ 23 - of_bool (unat inc = 0)), softfloat_raiseFlags 5 st)
     else (of_bool sign * 2 ^ 31 + (nat exp * 2 ^ 23 + rdiv (rmode_of mode) sign
             (if exp < 0 then jam (unat sig) (2 ^ nat (- exp)) else unat sig) (2 ^ 7)),
           softfloat_raiseFlags
             (if (if exp < 0 then jam (unat sig) (2 ^ nat (- exp)) else unat sig) mod 2 ^ 7 \<noteq> 0
              then if exp < 0 \<and> (tiny_before st \<or> exp < - 1 \<or> unat sig + unat inc < 2 ^ 31)
                   then 3 else 1
              else 0) st))"
  proof -
    have c: "sign_weight f32_fmt = 2 ^ 31" "inf_mag f32_fmt = 0xFF * 2 ^ 23" "int (exp_max f32_fmt) - 2 = 0xFD"
      "(2 :: nat) ^ (23 + 7 + 1) = 2 ^ 31" "frac_bits f32_fmt = 23"
      by (simp_all add: sign_weight_def inf_mag_def)
    have p: "(2 :: nat) \<le> 7" "2 \<le> exp_max f32_fmt" by simp_all
    show ?thesis
      using ieee_result_pack [OF n p, of st sign exp] unfolding mode_def [symmetric] inc [symmetric] c .
  qed
  have below: "nat exp * 2 ^ 23 + rdiv (rmode_of mode) sign
      (if exp < 0 then jam (unat sig) (2 ^ nat (- exp)) else unat sig) (2 ^ 7) < 0xFF * 2 ^ 23"
    if "\<not> (0xFD \<le> exp \<and> (0xFD < exp \<or> 2 ^ 31 \<le> unat sig + unat inc))"
    using pack_below_inf [OF n, of exp "rmode_of mode" sign] that by (simp add: inf_mag_def inc)
  consider "exp < 0" | "0xFD \<le> exp \<and> (0xFD < exp \<or> 2 ^ 31 \<le> unat sig + unat inc)"
    | "0 \<le> exp" "\<not> (0xFD \<le> exp \<and> (0xFD < exp \<or> 2 ^ 31 \<le> unat sig + unat inc))" by linarith
  then show ?thesis
  proof cases
    case 1
    define d where "d = (word_of_int (- exp) :: u64)"
    define sig' :: u64 where "sig' = ucast (softfloat_shiftRightJam32 (ucast sig) (word_of_int (- exp)))"
    have dist: "unat d = nat (- exp)"
      unfolding d_def using 1 e by (intro unat_of_exp) simp_all
    have pos: "0 < d" using 1 dist by (simp add: word_less_nat_alt)
    have s': "unat sig' = jam (unat sig) (2 ^ nat (- exp))"
      unfolding sig'_def d_def [symmetric] using assms(2) unat_lt_32 [of "softfloat_shiftRightJam32 (ucast sig) d"]
      by (simp add: unat_cast unat_shiftRightJam32 [OF pos] dist)
    have "unat sig < 2 ^ nat (- exp) * 2 ^ 31"
    proof -
      have "1 * 2 ^ 31 \<le> 2 ^ nat (- exp) * (2 :: nat) ^ 31" by (intro mult_le_mono1) simp
      moreover have "unat sig < 1 * 2 ^ 31" using assms(2) by simp
      ultimately show ?thesis by linarith
    qed
    then have lt': "unat sig' < 2 ^ 31" unfolding s' by (intro jam_less) simp_all
    define rb :: u8 where "rb = ucast (sig' AND 0x7F)"
    have rb: "unat rb = unat sig' mod 2 ^ 7" unfolding rb_def by (rule unat_mask_cast_8)
    have nz: "rb \<noteq> 0 \<longleftrightarrow> unat sig' mod 2 ^ 7 \<noteq> 0" using rb by (simp add: word_eq_nat)
    have "bits (roundPackToF32_tail sign mode inc 0 sig' rb st') =
        (of_bool sign * 2 ^ 31 + (nat 0 * 2 ^ 23 + rdiv (rmode_of mode) sign (unat sig') (2 ^ 7)),
         softfloat_raiseFlags (if unat sig' mod 2 ^ 7 \<noteq> 0 then 1 else 0) st')" for st'
      using below 1 lt' by (intro roundPackToF32_tail inc rb) (simp_all add: s')
    then show ?thesis
      unfolding code pk Let_def sig'_def [symmetric] rb_def [symmetric] nz using 1 by (simp add: s')
  next
    case 2
    have "unat (packToF32UI sign 0xFF 0) = of_bool sign * 2 ^ 31 + 0xFF * 2 ^ 23"
      by (subst unat_packToF32UI) simp_all
    moreover have "unat inc = 0 \<longleftrightarrow> inc = 0" by (simp add: word_eq_nat)
    ultimately have "unat (packToF32UI sign 0xFF 0 - of_bool (inc = 0)) =
        of_bool sign * 2 ^ 31 + (0xFF * 2 ^ 23 - of_bool (unat inc = 0))"
      by (cases "inc = 0") (simp_all add: unat_sub word_le_nat_alt)
    then show ?thesis
      unfolding code pk using 2 by (cases sign) (simp_all add: bits_def unat_cast)
  next
    case 3
    have "bits (roundPackToF32_tail sign mode inc exp sig (ucast (sig AND 0x7F)) st) =
        (of_bool sign * 2 ^ 31 + (nat exp * 2 ^ 23 + rdiv (rmode_of mode) sign (unat sig) (2 ^ 7)),
         softfloat_raiseFlags (if unat sig mod 2 ^ 7 \<noteq> 0 then 1 else 0) st)"
      using below [OF 3(2)] 3 assms(1,2) by (intro roundPackToF32_tail inc unat_mask_cast_8) simp_all
    then show ?thesis
      unfolding code pk if_not_P [OF 3(2)] using 3(1) by simp
  qed
qed

lemma roundPackToF64_tail:
  fixes inc rb :: u64 and sig :: u64
  assumes inc: "unat inc = round_inc (rmode_of mode) sign (2 ^ 10)" and sig: "unat sig < 2 ^ 63"
    and rb: "unat rb = unat sig mod 2 ^ 10" and e: "0 \<le> exp" "exp \<le> 0x7FF"
    and big: "exp = 0 \<or> 2 ^ 10 \<le> unat sig"
    and fin: "nat exp * 2 ^ 52 + rdiv (rmode_of mode) sign (unat sig) (2 ^ 10) < 2 ^ 63"
  shows "bits (roundPackToF64_tail sign mode inc exp sig rb st) =
    (of_bool sign * 2 ^ 63 + (nat exp * 2 ^ 52 + rdiv (rmode_of mode) sign (unat sig) (2 ^ 10)),
     softfloat_raiseFlags (if unat sig mod 2 ^ 10 \<noteq> 0 then 1 else 0) st)"
proof -
  define r where "r = rdiv (rmode_of mode) sign (unat sig) (2 ^ 10)"
  define q where "q = (if rb \<noteq> 0 \<and> mode = softfloat_round_odd then drop_bit 10 (sig +  inc) OR 1
    else drop_bit 10 (sig +  inc) AND NOT (of_bool (rb = 0x200 \<and> mode = softfloat_round_near_even)))"
  have q: "unat q = r"
    unfolding q_def r_def
  proof (rule round_tail)
    show "unat ( inc :: u64) = round_inc (rmode_of mode) sign (2 ^ 10)"
      using inc unat_lt_64 [of inc] by (simp add: unat_cast)
    show "rb \<noteq> 0 \<longleftrightarrow> unat sig mod 2 ^ 10 \<noteq> 0" using rb by (simp add: word_eq_nat)
    show "rb = 0x200 \<longleftrightarrow> 2 * (unat sig mod 2 ^ 10) = 2 ^ 10"
      unfolding rb [symmetric] word_eq_nat by simp
  qed (use sig in simp_all)
  have nz: "q \<noteq> 0" if "exp \<noteq> 0"
  proof -
    have "1 \<le> unat sig div 2 ^ 10" using big that pow2_le_div [of 10 0 "unat sig"] by simp
    then have "1 \<le> r" using rdiv_bounds(1) [of "unat sig" "2 ^ 10"] order_trans unfolding r_def by blast
    then show ?thesis using q by (auto simp: word_eq_nat)
  qed
  have pk: "unat (packToF64UI sign exp q) = of_bool sign * 2 ^ 63 + (nat exp * 2 ^ 52 + r)"
    using fin [folded r_def] e by (subst unat_packToF64UI) (simp_all add: q)
  have "unat ((packToF64UI sign exp q) :: 64 word) = of_bool sign * 2 ^ 63 + (nat exp * 2 ^ 52 + r)"
    using pk fin [folded r_def] by (cases sign) (simp_all add: unat_cast)
  moreover have "roundPackToF64_tail sign mode inc exp sig rb st =
      ((packToF64UI sign exp q), softfloat_raiseFlags (if rb \<noteq> 0 then 1 else 0) st)"
    unfolding roundPackToF64_tail_def Let_def xor_eq_0
    using nz unfolding q_def by (cases "exp = 0") (auto simp del: not_one_eq)
  moreover have "rb \<noteq> 0 \<longleftrightarrow> unat sig mod 2 ^ 10 \<noteq> 0" using rb by (simp add: word_eq_nat)
  ultimately show ?thesis by (simp add: bits_def r_def)
qed

theorem roundPackToF64_ieee:
  assumes "2 ^ (52 + 10) \<le> unat sig" "unat sig < 2 ^ (52 + 10 + 1)"
    and e: "- 60000 \<le> exp" "exp \<le> 60000"
  shows "bits (softfloat_roundPackToF64 sign exp sig st) =
    ieee_result f64_fmt st sign (unat sig) (pack_exp f64_fmt 10 exp)"
proof -
  define mode where "mode = softfloat_roundingMode st"
  define inc :: u64 where "inc = (if mode \<noteq> softfloat_round_near_even \<and> mode \<noteq> softfloat_round_near_maxMag
    then if mode = (if sign then softfloat_round_min else softfloat_round_max) then 0x3FF else 0 else 0x200)"
  have inc: "unat inc = round_inc (rmode_of mode) sign (2 ^ 10)"
    unfolding nat_code_increment inc_def by (simp split: if_split)
  have cinc: "unat ( inc :: u64) = unat inc"
    using unat_lt_64 [of inc] by (simp add: unat_cast)
  have n: "2 ^ (frac_bits f64_fmt + 10) \<le> unat sig" "unat sig < 2 ^ (frac_bits f64_fmt + 10 + 1)"
    using assms(1,2) by simp_all
  have lt: "unat inc < 2 ^ 10" unfolding inc by (rule round_inc_less) simp
  have sum: "unat (sig +  inc) = unat sig + unat inc"
    using lt assms(2) cinc by (simp add: unat_word_ariths)
  have ue: "0x7FD \<le> uint16_of exp \<longleftrightarrow> exp < 0 \<or> 0x7FD \<le> exp"
    using uint16_of_exp [OF e] e by (cases "exp < 0"; simp; linarith)
  have code: "softfloat_roundPackToF64 sign exp sig st =
    (if exp < 0
     then let sig' = softfloat_shiftRightJam64 sig (word_of_int (- exp));
              rb = (sig' AND 0x3FF)
          in roundPackToF64_tail sign mode inc 0 sig' rb
               (if (tiny_before st \<or> exp < - 1 \<or> unat sig + unat inc < 2 ^ 63) \<and> rb \<noteq> 0
                then softfloat_raiseFlags softfloat_flag_underflow st else st)
     else if 0x7FD \<le> exp \<and> (0x7FD < exp \<or> 2 ^ 63 \<le> unat sig + unat inc)
     then ((packToF64UI sign 0x7FF 0 - of_bool (inc = 0)), softfloat_raiseFlags 5 st)
     else roundPackToF64_tail sign mode inc exp sig ((sig AND 0x3FF)) st)"
    unfolding softfloat_roundPackToF64_def Let_def ue mode_def [symmetric] inc_def [symmetric]
      word_less_nat_alt word_le_nat_alt sum by simp auto
  have pk: "ieee_result f64_fmt st sign (unat sig) (pack_exp f64_fmt 10 exp) =
    (if 0x7FD \<le> exp \<and> (0x7FD < exp \<or> 2 ^ 63 \<le> unat sig + unat inc)
     then (of_bool sign * 2 ^ 63 + (0x7FF * 2 ^ 52 - of_bool (unat inc = 0)), softfloat_raiseFlags 5 st)
     else (of_bool sign * 2 ^ 63 + (nat exp * 2 ^ 52 + rdiv (rmode_of mode) sign
             (if exp < 0 then jam (unat sig) (2 ^ nat (- exp)) else unat sig) (2 ^ 10)),
           softfloat_raiseFlags
             (if (if exp < 0 then jam (unat sig) (2 ^ nat (- exp)) else unat sig) mod 2 ^ 10 \<noteq> 0
              then if exp < 0 \<and> (tiny_before st \<or> exp < - 1 \<or> unat sig + unat inc < 2 ^ 63)
                   then 3 else 1
              else 0) st))"
  proof -
    have c: "sign_weight f64_fmt = 2 ^ 63" "inf_mag f64_fmt = 0x7FF * 2 ^ 52" "int (exp_max f64_fmt) - 2 = 0x7FD"
      "(2 :: nat) ^ (52 + 10 + 1) = 2 ^ 63" "frac_bits f64_fmt = 52"
      by (simp_all add: sign_weight_def inf_mag_def)
    have p: "(2 :: nat) \<le> 10" "2 \<le> exp_max f64_fmt" by simp_all
    show ?thesis
      using ieee_result_pack [OF n p, of st sign exp] unfolding mode_def [symmetric] inc [symmetric] c .
  qed
  have below: "nat exp * 2 ^ 52 + rdiv (rmode_of mode) sign
      (if exp < 0 then jam (unat sig) (2 ^ nat (- exp)) else unat sig) (2 ^ 10) < 0x7FF * 2 ^ 52"
    if "\<not> (0x7FD \<le> exp \<and> (0x7FD < exp \<or> 2 ^ 63 \<le> unat sig + unat inc))"
    using pack_below_inf [OF n, of exp "rmode_of mode" sign] that by (simp add: inf_mag_def inc)
  consider "exp < 0" | "0x7FD \<le> exp \<and> (0x7FD < exp \<or> 2 ^ 63 \<le> unat sig + unat inc)"
    | "0 \<le> exp" "\<not> (0x7FD \<le> exp \<and> (0x7FD < exp \<or> 2 ^ 63 \<le> unat sig + unat inc))" by linarith
  then show ?thesis
  proof cases
    case 1
    define d where "d = (word_of_int (- exp) :: u64)"
    define sig' :: u64 where "sig' = softfloat_shiftRightJam64 sig (word_of_int (- exp))"
    have dist: "unat d = nat (- exp)"
      unfolding d_def using 1 e by (intro unat_of_exp) simp_all
    have pos: "0 < d" using 1 dist by (simp add: word_less_nat_alt)
    have s': "unat sig' = jam (unat sig) (2 ^ nat (- exp))"
      unfolding sig'_def d_def [symmetric] by (simp add: unat_shiftRightJam64 [OF pos] dist)
    have "unat sig < 2 ^ nat (- exp) * 2 ^ 63"
    proof -
      have "1 * 2 ^ 63 \<le> 2 ^ nat (- exp) * (2 :: nat) ^ 63" by (intro mult_le_mono1) simp
      moreover have "unat sig < 1 * 2 ^ 63" using assms(2) by simp
      ultimately show ?thesis by linarith
    qed
    then have lt': "unat sig' < 2 ^ 63" unfolding s' by (intro jam_less) simp_all
    define rb :: u64 where "rb = (sig' AND 0x3FF)"
    have rb: "unat rb = unat sig' mod 2 ^ 10" unfolding rb_def by (rule unat_mask_cast_8)
    have nz: "rb \<noteq> 0 \<longleftrightarrow> unat sig' mod 2 ^ 10 \<noteq> 0" using rb by (simp add: word_eq_nat)
    have "bits (roundPackToF64_tail sign mode inc 0 sig' rb st') =
        (of_bool sign * 2 ^ 63 + (nat 0 * 2 ^ 52 + rdiv (rmode_of mode) sign (unat sig') (2 ^ 10)),
         softfloat_raiseFlags (if unat sig' mod 2 ^ 10 \<noteq> 0 then 1 else 0) st')" for st'
      using below 1 lt' by (intro roundPackToF64_tail inc rb) (simp_all add: s')
    then show ?thesis
      unfolding code pk Let_def sig'_def [symmetric] rb_def [symmetric] nz using 1 by (simp add: s')
  next
    case 2
    have "unat (packToF64UI sign 0x7FF 0) = of_bool sign * 2 ^ 63 + 0x7FF * 2 ^ 52"
      by (subst unat_packToF64UI) simp_all
    moreover have "unat inc = 0 \<longleftrightarrow> inc = 0" by (simp add: word_eq_nat)
    ultimately have "unat (packToF64UI sign 0x7FF 0 - of_bool (inc = 0)) =
        of_bool sign * 2 ^ 63 + (0x7FF * 2 ^ 52 - of_bool (unat inc = 0))"
      by (cases "inc = 0") (simp_all add: unat_sub word_le_nat_alt)
    then show ?thesis
      unfolding code pk using 2 by (cases sign) (simp_all add: bits_def unat_cast)
  next
    case 3
    have "bits (roundPackToF64_tail sign mode inc exp sig ((sig AND 0x3FF)) st) =
        (of_bool sign * 2 ^ 63 + (nat exp * 2 ^ 52 + rdiv (rmode_of mode) sign (unat sig) (2 ^ 10)),
         softfloat_raiseFlags (if unat sig mod 2 ^ 10 \<noteq> 0 then 1 else 0) st)"
      using below [OF 3(2)] 3 assms(1,2) by (intro roundPackToF64_tail inc unat_mask_cast_8) simp_all
    then show ?thesis
      unfolding code pk if_not_P [OF 3(2)] using 3(1) by simp
  qed
qed
section \<open>Normalising before rounding\<close>

lemma normalised_shift:
  assumes "0 < n" "n < 2 ^ k"
  defines "sd \<equiv> k - bitlen n"
  shows "2 ^ (k - 1) \<le> n * 2 ^ sd" "n * 2 ^ sd < 2 ^ k" "bitlen n + sd = k"
proof -
  have b: "bitlen n \<le> k" using assms(2) by (simp add: bitlen_le_iff)
  then show e: "bitlen n + sd = k" by (simp add: sd_def)
  have bl: "bitlen (n * 2 ^ sd) = k" using assms(1) e by (simp add: bitlen_double)
  show "n * 2 ^ sd < 2 ^ k" using bitlen_le_iff [of "n * 2 ^ sd" k] bl by simp
  show "2 ^ (k - 1) \<le> n * 2 ^ sd"
    using bitlen_bounds(1) [of "n * 2 ^ sd"] assms(1) bl by simp
qed

lemma ieee_result_exact:
  assumes n: "2 ^ (frac_bits F + w) \<le> q * 2 ^ w" "q * 2 ^ w < 2 ^ (frac_bits F + w + 1)"
    and w: "2 \<le> w" and e: "2 \<le> exp_max F" and x: "0 \<le> x" "x \<le> int (exp_max F) - 2"
  shows "ieee_result F st s (q * 2 ^ w) (pack_exp F w x) =
    (of_bool s * sign_weight F + (nat x * 2 ^ frac_bits F + q), st)"
proof -
  have lt: "q * 2 ^ w + round_inc m s (2 ^ w) < 2 ^ (frac_bits F + w + 1)" for m
  proof -
    have P: "(2 :: nat) ^ (frac_bits F + w + 1) = 2 ^ Suc (frac_bits F) * 2 ^ w" by (simp add: power_add)
    then have "q < 2 ^ Suc (frac_bits F)" using n(2) by simp
    then have "Suc q * 2 ^ w \<le> 2 ^ Suc (frac_bits F) * 2 ^ w" by (intro mult_le_mono1) simp
    moreover have "round_inc m s (2 ^ w) < 2 ^ w" by (rule round_inc_less) simp
    ultimately show ?thesis unfolding P by simp
  qed
  have "\<not> (int (exp_max F) - 2 \<le> x \<and>
    (int (exp_max F) - 2 < x \<or> 2 ^ (frac_bits F + w + 1) \<le> q * 2 ^ w + round_inc m s (2 ^ w)))" for m
    using x lt [of m] by linarith
  note no = if_not_P [OF this]
  show ?thesis
    unfolding ieee_result_pack [OF n w e] no using x by (simp add: rdiv_exact)
qed

lemma normRoundPackToF16_ieee:
  assumes sig: "0 < unat sig" "unat sig < 2 ^ 15" and e: "- (2 ^ 30) \<le> exp" "exp \<le> 2 ^ 30"
  shows "bits (softfloat_normRoundPackToF16 sign exp sig st) =
    ieee_result f16_fmt st sign (unat sig) (pack_exp f16_fmt 4 exp)"
proof -
  define sd where "sd = 15 - bitlen (unat sig)"
  note ns = normalised_shift [OF sig, folded sd_def]
  have b0: "bitlen (unat sig) \<noteq> 0" using sig(1) by simp
  then have sd: "sd \<le> 15" "int (unat (softfloat_countLeadingZeros16 (ucast sig))) - 1 = int sd"
    using sig(2) ns(3) by (simp_all add: unat_countLeadingZeros16 unat_cast)
  have eq: "ieee_result f16_fmt st sign (unat sig) (pack_exp f16_fmt 4 exp) =
      ieee_result f16_fmt st sign (unat sig * 2 ^ sd) (pack_exp f16_fmt 4 (exp - int sd))"
    using ieee_result_double [of "f16_fmt" st sign "unat sig" sd "pack_exp f16_fmt 4 exp"]
    by (simp add: pack_exp_def algebra_simps)
  show ?thesis
  proof (cases "4 \<le> int sd \<and> uint32_of (exp - int sd) < 0x1D")
    case True
    define q where "q = unat sig * 2 ^ (sd - 4)"
    have "sd - 4 + 4 = sd" using True by simp
    then have sq: "unat sig * 2 ^ sd = q * 2 ^ 4"
      by (metis q_def mult.assoc power_add)
    have q: "q < 2 ^ 11" using ns(2) sq by simp
    have x: "0 \<le> exp - int sd" "exp - int sd < 0x1D"
      using True uint32_of_exp [of "exp - int sd"] sd(1) e by (simp_all split: if_splits)
    have "unat (push_bit (nat (int sd - 4)) sig) = q"
      using q True by (simp add: unat_push q_def nat_diff_distrib)
    moreover have "nat (exp - int sd) * 2 ^ 10 + q < 2 ^ 15"
      using q x by simp
    ultimately have "unat (ucast (packToF16UI sign (exp - int sd) (push_bit (nat (int sd - 4)) sig)) :: 16 word) =
        of_bool sign * 2 ^ 15 + (nat (exp - int sd) * 2 ^ 10 + q)"
      using x by (cases sign) (simp_all add: unat_cast unat_packToF16UI)
    moreover have "ieee_result f16_fmt st sign (q * 2 ^ 4) (pack_exp f16_fmt 4 (exp - int sd)) =
        (of_bool sign * sign_weight f16_fmt + (nat (exp - int sd) * 2 ^ frac_bits f16_fmt + q), st)"
      using ns(1,2) [unfolded sq] x by (intro ieee_result_exact) simp_all
    moreover have "sig \<noteq> 0" using sig(1) by auto
    ultimately show ?thesis
      unfolding softfloat_normRoundPackToF16_def Let_def sd(2) if_P [OF True] eq sq
      by (simp add: bits_def sign_weight_def)
  next
    case False
    have "unat (push_bit (nat (int sd)) sig) = unat sig * 2 ^ sd"
      using ns(2) by (simp add: unat_push)
    moreover have "bits (softfloat_roundPackToF16 sign (exp - int sd) (push_bit (nat (int sd)) sig) st) =
      ieee_result f16_fmt st sign (unat (push_bit (nat (int sd)) sig)) (pack_exp f16_fmt 4 (exp - int sd))"
      using ns(1,2) calculation e sd(1) by (intro roundPackToF16_ieee) simp_all
    ultimately show ?thesis
      unfolding softfloat_normRoundPackToF16_def Let_def sd(2) if_not_P [OF False] eq by simp
  qed
qed

lemma normRoundPackToF32_ieee:
  assumes sig: "0 < unat sig" "unat sig < 2 ^ 31" and e: "- (2 ^ 30) \<le> exp" "exp \<le> 2 ^ 30"
  shows "bits (softfloat_normRoundPackToF32 sign exp sig st) =
    ieee_result f32_fmt st sign (unat sig) (pack_exp f32_fmt 7 exp)"
proof -
  define sd where "sd = 31 - bitlen (unat sig)"
  note ns = normalised_shift [OF sig, folded sd_def]
  have b0: "bitlen (unat sig) \<noteq> 0" using sig(1) by simp
  then have sd: "sd \<le> 31" "int (unat (softfloat_countLeadingZeros32 (ucast sig))) - 1 = int sd"
    using sig(2) ns(3) by (simp_all add: unat_countLeadingZeros32 unat_cast)
  have eq: "ieee_result f32_fmt st sign (unat sig) (pack_exp f32_fmt 7 exp) =
      ieee_result f32_fmt st sign (unat sig * 2 ^ sd) (pack_exp f32_fmt 7 (exp - int sd))"
    using ieee_result_double [of "f32_fmt" st sign "unat sig" sd "pack_exp f32_fmt 7 exp"]
    by (simp add: pack_exp_def algebra_simps)
  show ?thesis
  proof (cases "7 \<le> int sd \<and> uint32_of (exp - int sd) < 0xFD")
    case True
    define q where "q = unat sig * 2 ^ (sd - 7)"
    have "sd - 7 + 7 = sd" using True by simp
    then have sq: "unat sig * 2 ^ sd = q * 2 ^ 7"
      by (metis q_def mult.assoc power_add)
    have q: "q < 2 ^ 24" using ns(2) sq by simp
    have x: "0 \<le> exp - int sd" "exp - int sd < 0xFD"
      using True uint32_of_exp [of "exp - int sd"] sd(1) e by (simp_all split: if_splits)
    have "unat (push_bit (nat (int sd - 7)) sig) = q"
      using q True by (simp add: unat_push q_def nat_diff_distrib)
    moreover have "nat (exp - int sd) * 2 ^ 23 + q < 2 ^ 31"
      using q x by simp
    ultimately have "unat (ucast (packToF32UI sign (exp - int sd) (push_bit (nat (int sd - 7)) sig)) :: 32 word) =
        of_bool sign * 2 ^ 31 + (nat (exp - int sd) * 2 ^ 23 + q)"
      using x by (cases sign) (simp_all add: unat_cast unat_packToF32UI)
    moreover have "ieee_result f32_fmt st sign (q * 2 ^ 7) (pack_exp f32_fmt 7 (exp - int sd)) =
        (of_bool sign * sign_weight f32_fmt + (nat (exp - int sd) * 2 ^ frac_bits f32_fmt + q), st)"
      using ns(1,2) [unfolded sq] x by (intro ieee_result_exact) simp_all
    moreover have "sig \<noteq> 0" using sig(1) by auto
    ultimately show ?thesis
      unfolding softfloat_normRoundPackToF32_def Let_def sd(2) if_P [OF True] eq sq
      by (simp add: bits_def sign_weight_def)
  next
    case False
    have "unat (push_bit (nat (int sd)) sig) = unat sig * 2 ^ sd"
      using ns(2) by (simp add: unat_push)
    moreover have "bits (softfloat_roundPackToF32 sign (exp - int sd) (push_bit (nat (int sd)) sig) st) =
      ieee_result f32_fmt st sign (unat (push_bit (nat (int sd)) sig)) (pack_exp f32_fmt 7 (exp - int sd))"
      using ns(1,2) calculation e sd(1) by (intro roundPackToF32_ieee) simp_all
    ultimately show ?thesis
      unfolding softfloat_normRoundPackToF32_def Let_def sd(2) if_not_P [OF False] eq by simp
  qed
qed

lemma normRoundPackToF64_ieee:
  assumes sig: "0 < unat sig" "unat sig < 2 ^ 63" and e: "- 50000 \<le> exp" "exp \<le> 50000"
  shows "bits (softfloat_normRoundPackToF64 sign exp sig st) =
    ieee_result f64_fmt st sign (unat sig) (pack_exp f64_fmt 10 exp)"
proof -
  define sd where "sd = 63 - bitlen (unat sig)"
  note ns = normalised_shift [OF sig, folded sd_def]
  have b0: "bitlen (unat sig) \<noteq> 0" using sig(1) by simp
  then have sd: "sd \<le> 63" "int (unat (softfloat_countLeadingZeros64 (sig))) - 1 = int sd"
    using sig(2) ns(3) by (simp_all add: unat_countLeadingZeros64 unat_cast)
  have eq: "ieee_result f64_fmt st sign (unat sig) (pack_exp f64_fmt 10 exp) =
      ieee_result f64_fmt st sign (unat sig * 2 ^ sd) (pack_exp f64_fmt 10 (exp - int sd))"
    using ieee_result_double [of "f64_fmt" st sign "unat sig" sd "pack_exp f64_fmt 10 exp"]
    by (simp add: pack_exp_def algebra_simps)
  show ?thesis
  proof (cases "10 \<le> int sd \<and> uint32_of (exp - int sd) < 0x7FD")
    case True
    define q where "q = unat sig * 2 ^ (sd - 10)"
    have "sd - 10 + 10 = sd" using True by simp
    then have sq: "unat sig * 2 ^ sd = q * 2 ^ 10"
      by (metis q_def mult.assoc power_add)
    have q: "q < 2 ^ 53" using ns(2) sq by simp
    have x: "0 \<le> exp - int sd" "exp - int sd < 0x7FD"
      using True uint32_of_exp [of "exp - int sd"] sd(1) e by (simp_all split: if_splits)
    have "unat (push_bit (nat (int sd - 10)) sig) = q"
      using q True by (simp add: unat_push q_def nat_diff_distrib)
    moreover have "nat (exp - int sd) * 2 ^ 52 + q < 2 ^ 63"
      using q x by simp
    ultimately have "unat ((packToF64UI sign (exp - int sd) (push_bit (nat (int sd - 10)) sig)) :: 64 word) =
        of_bool sign * 2 ^ 63 + (nat (exp - int sd) * 2 ^ 52 + q)"
      using x by (cases sign) (simp_all add: unat_cast unat_packToF64UI)
    moreover have "ieee_result f64_fmt st sign (q * 2 ^ 10) (pack_exp f64_fmt 10 (exp - int sd)) =
        (of_bool sign * sign_weight f64_fmt + (nat (exp - int sd) * 2 ^ frac_bits f64_fmt + q), st)"
      using ns(1,2) [unfolded sq] x by (intro ieee_result_exact) simp_all
    moreover have "sig \<noteq> 0" using sig(1) by auto
    ultimately show ?thesis
      unfolding softfloat_normRoundPackToF64_def Let_def sd(2) if_P [OF True] eq sq
      by (simp add: bits_def sign_weight_def)
  next
    case False
    have "unat (push_bit (nat (int sd)) sig) = unat sig * 2 ^ sd"
      using ns(2) by (simp add: unat_push)
    moreover have "bits (softfloat_roundPackToF64 sign (exp - int sd) (push_bit (nat (int sd)) sig) st) =
      ieee_result f64_fmt st sign (unat (push_bit (nat (int sd)) sig)) (pack_exp f64_fmt 10 (exp - int sd))"
      using ns(1,2) calculation e sd(1) by (intro roundPackToF64_ieee) simp_all
    ultimately show ?thesis
      unfolding softfloat_normRoundPackToF64_def Let_def sd(2) if_not_P [OF False] eq by simp
  qed
qed

section \<open>Properties\<close>

text \<open>C18: the packing routines round correctly: a significand with its leading bit in place, at any
  exponent the operations can produce, is packed to the bits IEEE 754 prescribes for its value in the
  current rounding mode, with exactly the inexact, underflow and overflow flags; subnormal results and
  overflow to infinity or to the largest finite number included.\<close>

theorem roundPack_correct:
  assumes "2 ^ 14 \<le> unat p" "unat p < 2 ^ 15" "2 ^ 30 \<le> unat q" "unat q < 2 ^ 31"
    and "2 ^ 62 \<le> unat r" "unat r < 2 ^ 63" and "- 60000 \<le> exp" "exp \<le> 60000"
  shows "bits (softfloat_roundPackToF16 sign exp p st) =
      ieee_result f16_fmt st sign (unat p) (pack_exp f16_fmt 4 exp) \<and>
    bits (softfloat_roundPackToF32 sign exp q st) =
      ieee_result f32_fmt st sign (unat q) (pack_exp f32_fmt 7 exp) \<and>
    bits (softfloat_roundPackToF64 sign exp r st) =
      ieee_result f64_fmt st sign (unat r) (pack_exp f64_fmt 10 exp)"
  using assms roundPackToF16_ieee [of p exp sign st] roundPackToF32_ieee [of q exp sign st]
    roundPackToF64_ieee [of r exp sign st] by simp

theorem roundPack_correct_witness:
  "bits (softfloat_roundPackToF16 True (- 3) 0x5555 softfloat_init) =
      ieee_result f16_fmt softfloat_init True 0x5555 (pack_exp f16_fmt 4 (- 3)) \<and>
    bits (softfloat_roundPackToF32 True (- 3) 0x55555555 softfloat_init) =
      ieee_result f32_fmt softfloat_init True 0x55555555 (pack_exp f32_fmt 7 (- 3)) \<and>
    bits (softfloat_roundPackToF64 True (- 3) 0x5555555555555555 softfloat_init) =
      ieee_result f64_fmt softfloat_init True 0x5555555555555555 (pack_exp f64_fmt 10 (- 3))"
  using roundPack_correct [of "0x5555" "0x55555555" "0x5555555555555555" "- 3" True softfloat_init] by simp

text \<open>C35: the normalising variants round any nonzero significand below the top correctly: the shift
  they choose loses nothing, and their shortcut without rounding is taken only when it is exact.\<close>

theorem normRoundPack_correct:
  assumes "0 < unat p" "unat p < 2 ^ 15" "0 < unat q" "unat q < 2 ^ 31"
    and "0 < unat r" "unat r < 2 ^ 63" and "- 50000 \<le> exp" "exp \<le> 50000"
  shows "bits (softfloat_normRoundPackToF16 sign exp p st) =
      ieee_result f16_fmt st sign (unat p) (pack_exp f16_fmt 4 exp) \<and>
    bits (softfloat_normRoundPackToF32 sign exp q st) =
      ieee_result f32_fmt st sign (unat q) (pack_exp f32_fmt 7 exp) \<and>
    bits (softfloat_normRoundPackToF64 sign exp r st) =
      ieee_result f64_fmt st sign (unat r) (pack_exp f64_fmt 10 exp)"
  using assms normRoundPackToF16_ieee [of p exp sign st] normRoundPackToF32_ieee [of q exp sign st]
    normRoundPackToF64_ieee [of r exp sign st] by simp

theorem normRoundPack_correct_witness:
  "bits (softfloat_normRoundPackToF16 False 5 3 softfloat_init) =
      ieee_result f16_fmt softfloat_init False 3 (pack_exp f16_fmt 4 5) \<and>
    bits (softfloat_normRoundPackToF32 False 5 0x2AAAAAA1 softfloat_init) =
      ieee_result f32_fmt softfloat_init False 0x2AAAAAA1 (pack_exp f32_fmt 7 5) \<and>
    bits (softfloat_normRoundPackToF64 False 5 77 softfloat_init) =
      ieee_result f64_fmt softfloat_init False 77 (pack_exp f64_fmt 10 5)"
  using normRoundPack_correct [of 3 "0x2AAAAAA1" 77 5 False softfloat_init] by simp

end
