(* ===== verification/IEEE_Ops.thy ===== *)
theory IEEE_Ops
  imports SF_State
begin

text \<open>
  The abstract specification of the floating-point operations: what a bit pattern denotes, and
  the IEEE 754 result (bits and flags) of the operations on denoted values. A finite operand is a
  sign, a natural significand and a binary exponent, so sums and products are exact, and one
  rounding \<open>ieee_result\<close> produces the result. Every NaN result is the default NaN, as the RISC-V
  specialisation prescribes.
\<close>

section \<open>Denotation of bit patterns\<close>

datatype fp = NaN bool | Inf bool | Fin bool nat int

text \<open>\<open>NaN True\<close> is a signaling NaN; \<open>Fin s m e\<close> is \<open>(-1)^s * m * 2 ^ e\<close>.\<close>

definition decode :: "fmt \<Rightarrow> nat \<Rightarrow> fp" where
  "decode F n =
     (let s = odd (n div sign_weight F);
          e = n div 2 ^ frac_bits F mod Suc (exp_max F);
          f = n mod 2 ^ frac_bits F
      in if e = exp_max F then if f = 0 then Inf s else NaN (f < 2 ^ (frac_bits F - 1))
         else if e = 0 then Fin s f (lsb_exp F)
         else Fin s (2 ^ frac_bits F + f) (int e - 1 + lsb_exp F))"

fun is_nan :: "fp \<Rightarrow> bool" where
  "is_nan (NaN _) = True" | "is_nan _ = False"

fun is_snan :: "fp \<Rightarrow> bool" where
  "is_snan (NaN s) = s" | "is_snan _ = False"

fun fp_neg :: "fp \<Rightarrow> fp" where
  "fp_neg (NaN s) = NaN s" | "fp_neg (Inf s) = Inf (\<not> s)" | "fp_neg (Fin s m e) = Fin (\<not> s) m e"

lemma is_snan_nan: "is_snan x \<Longrightarrow> is_nan x"
  by (cases x) simp_all

section \<open>Results\<close>

definition quiet_nan :: "fmt \<Rightarrow> nat" where
  "quiet_nan F = inf_mag F + 2 ^ (frac_bits F - 1)"

definition nan_result :: "fmt \<Rightarrow> sf_state \<Rightarrow> bool \<Rightarrow> nat \<times> sf_state" where
  "nan_result F st invalid =
     (quiet_nan F, if invalid then softfloat_raiseFlags softfloat_flag_invalid st else st)"

definition inf_result :: "fmt \<Rightarrow> sf_state \<Rightarrow> bool \<Rightarrow> nat \<times> sf_state" where
  "inf_result F st s = (of_bool s * sign_weight F + inf_mag F, st)"

definition zero_result :: "fmt \<Rightarrow> sf_state \<Rightarrow> bool \<Rightarrow> nat \<times> sf_state" where
  "zero_result F st s = (of_bool s * sign_weight F, st)"

lemma ieee_result_zero: "2 \<le> exp_max F \<Longrightarrow> ieee_result F st s 0 e = zero_result F st s"
  by (simp add: ieee_result_def ieee_round_def ieee_mag_def ieee_inexact_def inf_mag_def zero_result_def)

text \<open>A number of at most \<open>frac_bits + 1\<close> bits at the lowest exponent is its own pattern.\<close>

lemma ieee_result_small:
  assumes "n < 2 ^ Suc (frac_bits F)" "2 \<le> exp_max F"
  shows "ieee_result F st s n (lsb_exp F) = (of_bool s * sign_weight F + n, st)"
proof -
  have "bitlen n \<le> Suc (frac_bits F)" using assms(1) by (simp only: bitlen_le_iff)
  then have u: "ulp_exp F n (lsb_exp F) = lsb_exp F" by (simp add: ulp_exp_def top_exp_def)
  have "2 * 2 ^ frac_bits F \<le> exp_max F * 2 ^ frac_bits F" using assms(2) by simp
  then have "n < inf_mag F" using assms(1) unfolding inf_mag_def power_Suc by linarith
  then show ?thesis
    by (simp add: ieee_result_def ieee_round_def ieee_mag_def ieee_inexact_def u rscale_def rexact_def)
qed

text \<open>The same value with its sign replaced.\<close>

fun fp_sign :: "bool \<Rightarrow> fp \<Rightarrow> fp" where
  "fp_sign s (NaN q) = NaN q" | "fp_sign s (Inf _) = Inf s" | "fp_sign s (Fin _ m e) = Fin s m e"

section \<open>Operations\<close>

fun fin_add :: "fmt \<Rightarrow> sf_state \<Rightarrow> bool \<Rightarrow> nat \<Rightarrow> int \<Rightarrow> bool \<Rightarrow> nat \<Rightarrow> int \<Rightarrow> nat \<times> sf_state" where
  "fin_add F st s m i t n j =
     (let k = min i j; a = m * 2 ^ nat (i - k); b = n * 2 ^ nat (j - k)
      in if s = t then ieee_result F st s (a + b) k
         else if a = b then zero_result F st (rmode_of (softfloat_roundingMode st) = RDN)
         else if b < a then ieee_result F st s (a - b) k
         else ieee_result F st t (b - a) k)"

declare fin_add.simps [simp del]

fun fp_add :: "fmt \<Rightarrow> sf_state \<Rightarrow> fp \<Rightarrow> fp \<Rightarrow> nat \<times> sf_state" where
  "fp_add F st (NaN s) y = nan_result F st (s \<or> is_snan y)"
| "fp_add F st x (NaN t) = nan_result F st t"
| "fp_add F st (Inf s) (Inf t) = (if s = t then inf_result F st s else nan_result F st True)"
| "fp_add F st (Inf s) (Fin t n j) = inf_result F st s"
| "fp_add F st (Fin s m i) (Inf t) = inf_result F st t"
| "fp_add F st (Fin s m i) (Fin t n j) = fin_add F st s m i t n j"

definition fp_sub :: "fmt \<Rightarrow> sf_state \<Rightarrow> fp \<Rightarrow> fp \<Rightarrow> nat \<times> sf_state" where
  "fp_sub F st x y = fp_add F st x (fp_neg y)"

fun fp_mul :: "fmt \<Rightarrow> sf_state \<Rightarrow> fp \<Rightarrow> fp \<Rightarrow> nat \<times> sf_state" where
  "fp_mul F st (NaN s) y = nan_result F st (s \<or> is_snan y)"
| "fp_mul F st x (NaN t) = nan_result F st t"
| "fp_mul F st (Inf s) (Inf t) = inf_result F st (s \<noteq> t)"
| "fp_mul F st (Inf s) (Fin t n j) =
     (if n = 0 then nan_result F st True else inf_result F st (s \<noteq> t))"
| "fp_mul F st (Fin s m i) (Inf t) =
     (if m = 0 then nan_result F st True else inf_result F st (s \<noteq> t))"
| "fp_mul F st (Fin s m i) (Fin t n j) = ieee_result F st (s \<noteq> t) (m * n) (i + j)"

lemma fin_add_commute: "fin_add F st s m i t n j = fin_add F st t n j s m i"
  by (simp add: fin_add.simps Let_def min.commute add.commute)

lemma fp_add_commute: "fp_add F st x y = fp_add F st y x"
  by (cases x; cases y) (auto simp: fin_add_commute disj_commute)

lemma xor_commute: "(s = (\<not> t)) = (t = (\<not> s))"
  by blast

lemma fp_mul_commute: "fp_mul F st x y = fp_mul F st y x"
  by (cases x; cases y) (auto simp: mult.commute add.commute disj_commute xor_commute)

text \<open>A sum of operands already aligned to a common exponent.\<close>

lemma fin_add_aligned:
  assumes "i = k + int c" "j = k + int d"
  shows "fin_add F st s m i t n j =
    (if s = t then ieee_result F st s (m * 2 ^ c + n * 2 ^ d) k
     else if m * 2 ^ c = n * 2 ^ d then zero_result F st (rmode_of (softfloat_roundingMode st) = RDN)
     else if n * 2 ^ d < m * 2 ^ c then ieee_result F st s (m * 2 ^ c - n * 2 ^ d) k
     else ieee_result F st t (n * 2 ^ d - m * 2 ^ c) k)"
proof -
  define z where "z = min c d"
  have z: "min i j = k + int z" "nat (i - (k + int z)) = c - z" "nat (j - (k + int z)) = d - z"
    using assms by (auto simp: z_def)
  have e: "ieee_result F st u x (k + int z) = ieee_result F st u (x * 2 ^ z) k" for u x
    using ieee_result_double [of F st u x z "k + int z"] by simp
  define a b where "a = m * 2 ^ (c - z)" and "b = n * 2 ^ (d - z)"
  have p: "m * 2 ^ c = a * 2 ^ z" "n * 2 ^ d = b * 2 ^ z"
    by (simp_all add: a_def b_def z_def mult.assoc flip: power_add)
  show ?thesis
    unfolding fin_add.simps Let_def z p e a_def [symmetric] b_def [symmetric]
    by (simp add: add_mult_distrib diff_mult_distrib)
qed

end
