(* ===== verification/SF_Fields.thy ===== *)
theory SF_Fields
  imports SF_Pack IEEE_Ops
begin

text \<open>
  What the field macros of \<open>internals.h\<close> and the NaN macros of \<open>specialize.h\<close> say of the denoted
  value, and the contract of the packing routines as the arithmetic operations rely on it: a
  locale with the client lemmas, interpreted for the three formats.
\<close>

section \<open>Masks in the middle of a word\<close>

lemma and_high_mask: "(n :: nat) AND (m * 2 ^ k) = (n div 2 ^ k AND m) * 2 ^ k"
proof -
  have "n AND push_bit k m = push_bit k (drop_bit k n AND m)"
    by (rule bit_eqI) (auto simp: bit_and_iff bit_push_bit_iff_nat bit_drop_bit_eq)
  then show ?thesis by (simp add: push_bit_eq_mult drop_bit_eq_div)
qed

lemma mod_mult_split: "(n :: nat) mod (a * b) = n mod a + a * (n div a mod b)"
  by (simp add: mod_mult2_eq)

lemma pattern_split:
  assumes "(n :: nat) < 2 * (E * 2 ^ f)"
  shows "n = of_bool (odd (n div (E * 2 ^ f))) * (E * 2 ^ f) + (n div 2 ^ f mod E * 2 ^ f + n mod 2 ^ f)"
proof -
  have "n div (E * 2 ^ f) < 2" using assms by (simp add: less_mult_imp_div_less)
  then have "of_bool (odd (n div (E * 2 ^ f))) = n div (E * 2 ^ f)" by (auto simp: less_2_cases_iff)
  moreover have "n mod (2 ^ f * E) = n mod 2 ^ f + 2 ^ f * (n div 2 ^ f mod E)" by (rule mod_mult_split)
  moreover have "n = n div (E * 2 ^ f) * (E * 2 ^ f) + n mod (E * 2 ^ f)" by (simp only: div_mult_mod_eq)
  ultimately show ?thesis by (simp only: mult.commute add.commute)
qed

text \<open>Setting the hidden bit of a significand that already has it changes nothing.\<close>

lemma or_hidden: "2 ^ k \<le> (n :: nat) \<Longrightarrow> n < 2 ^ Suc k \<Longrightarrow> n OR 2 ^ k = n"
proof -
  assume "2 ^ k \<le> n" "n < 2 ^ Suc k"
  then have e: "2 ^ k OR (n - 2 ^ k) = n" using or_disjoint_nat [of "n - 2 ^ k" k 1] by simp
  have "a OR (a OR x) = a OR x" for a x :: nat by (simp flip: or.assoc)
  from this [of "2 ^ k" "n - 2 ^ k"] show ?thesis unfolding e by (simp only: or.commute)
qed

section \<open>Fields of a pattern\<close>

lemma odd_top_bit: "(n :: nat) mod 2 ^ Suc k div 2 ^ k \<noteq> 0 \<longleftrightarrow> odd (n div 2 ^ k)"
proof -
  have "n mod 2 ^ Suc k div 2 ^ k = n div 2 ^ k mod 2"
    by (simp only: power_Suc2 mod_mult_split) simp
  then show ?thesis by (simp add: odd_iff_mod_2_eq_one)
qed

lemma fieldsF16:
  "unat (fracF16UI u) = unat u mod 2 ^ 10"
  "expF16UI u = int (unat u div 2 ^ 10 mod 32)"
  "signF16UI u = odd (unat u div 2 ^ 15)"
proof -
  show "unat (fracF16UI u) = unat u mod 2 ^ 10"
    by (simp add: fracF16UI_def unat_conj bits_nat)
  show "expF16UI u = int (unat u div 2 ^ 10 mod 32)"
    by (simp add: expF16UI_def uint_nat unat_conj unat_drop bits_nat)
  show "signF16UI u = odd (unat u div 2 ^ 15)"
    using odd_top_bit [of "unat u" 15] by (simp add: signF16UI_def word_eq_nat unat_cast unat_drop)
qed

lemma expF16_bounds: "0 \<le> expF16UI u" "expF16UI u \<le> 0x1F"
  by (simp_all add: fieldsF16)

lemma fracF16_bound: "unat (fracF16UI u) < 2 ^ 10"
  by (simp add: fieldsF16)

lemma sigNaNF16: "softfloat_isSigNaNF16UI u \<longleftrightarrow>
    expF16UI u = 0x1F \<and> fracF16UI u \<noteq> 0 \<and> unat (fracF16UI u) < 2 ^ (10 - 1)"
proof -
  define n where "n = unat u"
  define a b c where "a = n mod 2 ^ (10 - 1)" and "b = n div 2 ^ (10 - 1) mod 2" and "c = n div 2 ^ 10 mod 32"
  have b: "b < 2" by (simp add: b_def)
  have f: "n mod 2 ^ 10 = a + 2 ^ (10 - 1) * b"
    using mod_mult_split [of n "2 ^ (10 - 1)" 2] by (simp add: a_def b_def)
  have a: "a < 2 ^ (10 - 1)" by (simp add: a_def)
  have d: "n div 2 ^ (10 - 1) mod 64 = b + 2 * c"
  proof -
    have e: "(n div 2 ^ (10 - 1)) div 2 = n div 2 ^ 10" by (simp add: div_mult2_eq [symmetric])
    show ?thesis using mod_mult_split [of "n div 2 ^ (10 - 1)" 2 32] unfolding e by (simp add: b_def c_def)
  qed
  have m: "unat (u AND 0x7E00) = (b + 2 * c) * 2 ^ (10 - 1)"
    using and_high_mask [of n "64 - 1" "10 - 1"] d by (simp add: unat_conj bits_nat n_def)
  have l: "unat (u AND 0x01FF) = a"
    by (simp add: unat_conj bits_nat a_def n_def)
  have "softfloat_isSigNaNF16UI u \<longleftrightarrow> (b + 2 * c) * 2 ^ (10 - 1) = 0x7C00 \<and> a \<noteq> 0"
    unfolding softfloat_isSigNaNF16UI_def word_eq_nat m l by simp
  also have "(0x7C00 :: nat) = (2 * 0x1F) * 2 ^ (10 - 1)" by simp
  also have "(b + 2 * c) * 2 ^ (10 - 1) = (2 * 0x1F) * 2 ^ (10 - 1) \<and> a \<noteq> 0 \<longleftrightarrow>
      c = 0x1F \<and> b = 0 \<and> a \<noteq> 0"
  proof -
    have "b + 2 * c = 2 * 0x1F \<longleftrightarrow> c = 0x1F \<and> b = 0" using b by presburger
    then show ?thesis unfolding mult_cancel2 by auto
  qed
  also have "\<dots> \<longleftrightarrow> expF16UI u = 0x1F \<and> fracF16UI u \<noteq> 0 \<and> unat (fracF16UI u) < 2 ^ (10 - 1)"
    unfolding word_eq_nat fieldsF16 n_def [symmetric] f unfolding c_def [symmetric] using a b by auto
  finally show ?thesis .
qed

lemma decodeF16: "decode f16_fmt (unat u) =
    (if expF16UI u = 0x1F
     then if fracF16UI u = 0 then Inf (signF16UI u) else NaN (softfloat_isSigNaNF16UI u)
     else if expF16UI u = 0 then Fin (signF16UI u) (unat (fracF16UI u)) (- 24)
     else Fin (signF16UI u) (2 ^ 10 + unat (fracF16UI u)) (expF16UI u - 1 + (- 24)))"
proof -
  define c where "c = unat u div 2 ^ 10 mod 32"
  have sw: "sign_weight f16_fmt = 2 ^ 15" by (simp add: sign_weight_def)
  have ex: "expF16UI u = int c" by (simp only: fieldsF16 c_def)
  have em: "Suc (exp_max f16_fmt) = 32" by simp
  have f: "fracF16UI u = 0 \<longleftrightarrow> unat (fracF16UI u) = 0" by (simp add: word_eq_nat)
  show ?thesis
    unfolding decode_def Let_def sw sigNaNF16 ex em f fieldsF16(1,3)
    by (simp only: fmt_simps c_def [symmetric]) auto
qed

lemma decodeF16_cases:
  obtains (NaN) "expF16UI u = 0x1F" "fracF16UI u \<noteq> 0" "decode f16_fmt (unat u) = NaN (softfloat_isSigNaNF16UI u)"
  | (Inf) "expF16UI u = 0x1F" "fracF16UI u = 0" "decode f16_fmt (unat u) = Inf (signF16UI u)" "\<not> softfloat_isSigNaNF16UI u"
  | (Zero) "expF16UI u = 0" "fracF16UI u = 0" "decode f16_fmt (unat u) = Fin (signF16UI u) 0 (- 24)" "\<not> softfloat_isSigNaNF16UI u"
  | (Fin) m i where "expF16UI u \<noteq> 0x1F" "\<not> (expF16UI u = 0 \<and> fracF16UI u = 0)"
      "decode f16_fmt (unat u) = Fin (signF16UI u) m i" "m \<noteq> 0" "\<not> softfloat_isSigNaNF16UI u" "expF16UI u < 0x1F"
proof (cases "expF16UI u = 0x1F")
  case True
  then show thesis using NaN Inf by (cases "fracF16UI u = 0") (simp_all add: decodeF16 sigNaNF16)
next
  case False
  moreover have "expF16UI u < 0x1F" using False expF16_bounds(2) [of u] by simp
  ultimately show thesis using Zero Fin
    by (cases "expF16UI u = 0"; cases "fracF16UI u = 0") (simp_all add: decodeF16 sigNaNF16 word_eq_nat)
qed

lemma patternF16:
  "unat u < 2 ^ 16 \<Longrightarrow> unat u = of_bool (signF16UI u) * 2 ^ 15 + (nat (expF16UI u) * 2 ^ 10 + unat (fracF16UI u))"
proof -
  assume "unat u < 2 ^ 16"
  then have lt: "unat u < 2 * (32 * 2 ^ 10)" by simp
  have sw: "(2 :: nat) ^ 15 = 32 * 2 ^ 10" by simp
  show ?thesis unfolding fieldsF16 nat_int sw by (rule pattern_split [OF lt])
qed

text \<open>A finite operand scaled by \<open>2 ^ w\<close>, a subnormal doubled, so that both weigh the same exponent.\<close>

lemma scaledF16:
  assumes "expF16UI u \<noteq> 0x1F"
  obtains m c where "decode f16_fmt (unat u) = Fin (signF16UI u) m (expF16UI u - 1 + (- 24) - int w + int c)"
    "(if expF16UI u = 0 then unat (fracF16UI u) * 2 ^ Suc w else (2 ^ 10 + unat (fracF16UI u)) * 2 ^ w) = m * 2 ^ c"
  using assms by (cases "expF16UI u = 0") (auto simp: decodeF16 intro: that [of _ w] that [of _ "Suc w"])

text \<open>The common exit \<open>uiZ:\<close> of the routines, which reads the result word back as a float.\<close>

definition returnF16 :: "u64 \<times> sf_state \<Rightarrow> float16_t \<times> sf_state" where
  "returnF16 r = (ucast (fst r), snd r)"

lemma propagateNaNF16:
  "bits (returnF16 (softfloat_propagateNaNF16UI uiA uiB st)) =
    nan_result f16_fmt st (softfloat_isSigNaNF16UI uiA \<or> softfloat_isSigNaNF16UI uiB)"
  by (simp add: softfloat_propagateNaNF16UI_def bits_def returnF16_def nan_result_def quiet_nan_def inf_mag_def
      defaultNaNF16UI_def unat_cast)

lemma return_defaultNaNF16:
  "bits (returnF16 (defaultNaNF16UI, softfloat_raiseFlags softfloat_flag_invalid st)) = nan_result f16_fmt st True"
  by (simp add: bits_def returnF16_def nan_result_def quiet_nan_def inf_mag_def defaultNaNF16UI_def unat_cast)

lemma return_packF16:
  assumes "0 \<le> exp" "exp \<le> 0x1F" "nat exp * 2 ^ 10 + unat sig < 2 ^ 15"
  shows "bits (returnF16 (packToF16UI sign exp sig, st)) =
    (of_bool sign * sign_weight f16_fmt + (nat exp * 2 ^ 10 + unat sig), st)"
  using assms by (cases sign) (simp_all add: bits_def returnF16_def unat_packToF16UI unat_cast sign_weight_def)

lemma return_infF16: "bits (returnF16 (packToF16UI sign 0x1F 0, st)) = inf_result f16_fmt st sign"
  by (simp add: return_packF16 inf_result_def inf_mag_def)

lemma return_zeroF16: "bits (returnF16 (packToF16UI sign 0 0, st)) = zero_result f16_fmt st sign"
  by (simp add: return_packF16 zero_result_def)

lemma normSubnormalF16:
  assumes "0 < unat sig" "unat sig < 2 ^ 10"
  obtains sd where "es_exp (softfloat_normSubnormalF16Sig sig) = 1 - int sd" "sd \<le> 11"
    "unat (es_sig (softfloat_normSubnormalF16Sig sig)) = unat sig * 2 ^ sd"
    "2 ^ 10 \<le> unat sig * 2 ^ sd" "unat sig * 2 ^ sd < 2 ^ 11"
proof -
  define sd where "sd = 11 - bitlen (unat sig)"
  have "unat sig < 2 ^ 11" using assms(2) by simp
  note ns = normalised_shift [OF assms(1) this, folded sd_def]
  have d: "int (unat (softfloat_countLeadingZeros16 (ucast sig))) - 5 = int sd"
    using ns(3) assms by (simp add: unat_countLeadingZeros16 unat_cast)
  have "unat (push_bit (nat (int sd)) sig) = unat sig * 2 ^ sd"
    using ns(2) by (simp add: unat_push)
  moreover have "es_exp (softfloat_normSubnormalF16Sig sig) = 1 - int sd"
    "es_sig (softfloat_normSubnormalF16Sig sig) = push_bit (nat (int sd)) sig"
    unfolding softfloat_normSubnormalF16Sig_def Let_def d by simp_all
  ultimately show thesis
    using ns by (intro that [of sd]) (simp_all add: sd_def)
qed

text \<open>A finite nonzero operand, with its significand brought up to full length as the code does.\<close>

lemma unpackF16:
  assumes "expF16UI u \<noteq> 0x1F" "\<not> (expF16UI u = 0 \<and> fracF16UI u = 0)"
  defines "n \<equiv> softfloat_normSubnormalF16Sig (fracF16UI u)"
  defines "E \<equiv> if expF16UI u = 0 then es_exp n else expF16UI u"
    and "M \<equiv> (if expF16UI u = 0 then es_sig n else fracF16UI u) OR 0x0400"
  obtains m i k where "decode f16_fmt (unat u) = Fin (signF16UI u) m i" "m \<noteq> 0"
    "unat M = m * 2 ^ k" "E - 1 + (- 24) = i - int k"
    "2 ^ 10 \<le> unat M" "unat M < 2 ^ 11" "- 10 \<le> E" "E < 0x1F"
proof (cases "expF16UI u = 0")
  case True
  then have "0 < unat (fracF16UI u)" using assms(2) by (simp add: word_eq_nat)
  from normSubnormalF16 [OF this fracF16_bound] obtain sd where sd:
    "es_exp n = 1 - int sd" "sd \<le> 11" "unat (es_sig n) = unat (fracF16UI u) * 2 ^ sd"
    "2 ^ 10 \<le> unat (fracF16UI u) * 2 ^ sd" "unat (fracF16UI u) * 2 ^ sd < 2 ^ 11"
    unfolding n_def .
  have "unat M = unat (es_sig n)"
    unfolding M_def using True sd(3-5) or_hidden [of 10 "unat (es_sig n)"] by (simp add: unat_disj)
  then show thesis
    using True assms(1,2) sd
    by (intro that [of "unat (fracF16UI u)" "- 24" sd]) (simp_all add: decodeF16 E_def word_eq_nat)
next
  case False
  have "unat M = 2 ^ 10 + unat (fracF16UI u)"
    unfolding M_def using False fracF16_bound [of u] or_disjoint_nat [of "unat (fracF16UI u)" 10 1]
    by (simp add: unat_disj or.commute)
  then show thesis
    using False assms(1) expF16_bounds [of u] fracF16_bound [of u]
    by (intro that [of "2 ^ 10 + unat (fracF16UI u)" "expF16UI u - 1 + (- 24)" 0])
       (simp_all add: decodeF16 E_def)
qed

lemma fieldsF32:
  "unat (fracF32UI u) = unat u mod 2 ^ 23"
  "expF32UI u = int (unat u div 2 ^ 23 mod 256)"
  "signF32UI u = odd (unat u div 2 ^ 31)"
proof -
  show "unat (fracF32UI u) = unat u mod 2 ^ 23"
    by (simp add: fracF32UI_def unat_conj bits_nat)
  show "expF32UI u = int (unat u div 2 ^ 23 mod 256)"
    by (simp add: expF32UI_def uint_nat unat_conj unat_drop bits_nat)
  show "signF32UI u = odd (unat u div 2 ^ 31)"
    using odd_top_bit [of "unat u" 31] by (simp add: signF32UI_def word_eq_nat unat_cast unat_drop)
qed

lemma expF32_bounds: "0 \<le> expF32UI u" "expF32UI u \<le> 0xFF"
  by (simp_all add: fieldsF32)

lemma fracF32_bound: "unat (fracF32UI u) < 2 ^ 23"
  by (simp add: fieldsF32)

lemma sigNaNF32: "softfloat_isSigNaNF32UI u \<longleftrightarrow>
    expF32UI u = 0xFF \<and> fracF32UI u \<noteq> 0 \<and> unat (fracF32UI u) < 2 ^ (23 - 1)"
proof -
  define n where "n = unat u"
  define a b c where "a = n mod 2 ^ (23 - 1)" and "b = n div 2 ^ (23 - 1) mod 2" and "c = n div 2 ^ 23 mod 256"
  have b: "b < 2" by (simp add: b_def)
  have f: "n mod 2 ^ 23 = a + 2 ^ (23 - 1) * b"
    using mod_mult_split [of n "2 ^ (23 - 1)" 2] by (simp add: a_def b_def)
  have a: "a < 2 ^ (23 - 1)" by (simp add: a_def)
  have d: "n div 2 ^ (23 - 1) mod 512 = b + 2 * c"
  proof -
    have e: "(n div 2 ^ (23 - 1)) div 2 = n div 2 ^ 23" by (simp add: div_mult2_eq [symmetric])
    show ?thesis using mod_mult_split [of "n div 2 ^ (23 - 1)" 2 256] unfolding e by (simp add: b_def c_def)
  qed
  have m: "unat (u AND 0x7FC00000) = (b + 2 * c) * 2 ^ (23 - 1)"
    using and_high_mask [of n "512 - 1" "23 - 1"] d by (simp add: unat_conj bits_nat n_def)
  have l: "unat (u AND 0x003FFFFF) = a"
    by (simp add: unat_conj bits_nat a_def n_def)
  have "softfloat_isSigNaNF32UI u \<longleftrightarrow> (b + 2 * c) * 2 ^ (23 - 1) = 0x7F800000 \<and> a \<noteq> 0"
    unfolding softfloat_isSigNaNF32UI_def word_eq_nat m l by simp
  also have "(0x7F800000 :: nat) = (2 * 0xFF) * 2 ^ (23 - 1)" by simp
  also have "(b + 2 * c) * 2 ^ (23 - 1) = (2 * 0xFF) * 2 ^ (23 - 1) \<and> a \<noteq> 0 \<longleftrightarrow>
      c = 0xFF \<and> b = 0 \<and> a \<noteq> 0"
  proof -
    have "b + 2 * c = 2 * 0xFF \<longleftrightarrow> c = 0xFF \<and> b = 0" using b by presburger
    then show ?thesis unfolding mult_cancel2 by auto
  qed
  also have "\<dots> \<longleftrightarrow> expF32UI u = 0xFF \<and> fracF32UI u \<noteq> 0 \<and> unat (fracF32UI u) < 2 ^ (23 - 1)"
    unfolding word_eq_nat fieldsF32 n_def [symmetric] f unfolding c_def [symmetric] using a b by auto
  finally show ?thesis .
qed

lemma decodeF32: "decode f32_fmt (unat u) =
    (if expF32UI u = 0xFF
     then if fracF32UI u = 0 then Inf (signF32UI u) else NaN (softfloat_isSigNaNF32UI u)
     else if expF32UI u = 0 then Fin (signF32UI u) (unat (fracF32UI u)) (- 149)
     else Fin (signF32UI u) (2 ^ 23 + unat (fracF32UI u)) (expF32UI u - 1 + (- 149)))"
proof -
  define c where "c = unat u div 2 ^ 23 mod 256"
  have sw: "sign_weight f32_fmt = 2 ^ 31" by (simp add: sign_weight_def)
  have ex: "expF32UI u = int c" by (simp only: fieldsF32 c_def)
  have em: "Suc (exp_max f32_fmt) = 256" by simp
  have f: "fracF32UI u = 0 \<longleftrightarrow> unat (fracF32UI u) = 0" by (simp add: word_eq_nat)
  show ?thesis
    unfolding decode_def Let_def sw sigNaNF32 ex em f fieldsF32(1,3)
    by (simp only: fmt_simps c_def [symmetric]) auto
qed

lemma decodeF32_cases:
  obtains (NaN) "expF32UI u = 0xFF" "fracF32UI u \<noteq> 0" "decode f32_fmt (unat u) = NaN (softfloat_isSigNaNF32UI u)"
  | (Inf) "expF32UI u = 0xFF" "fracF32UI u = 0" "decode f32_fmt (unat u) = Inf (signF32UI u)" "\<not> softfloat_isSigNaNF32UI u"
  | (Zero) "expF32UI u = 0" "fracF32UI u = 0" "decode f32_fmt (unat u) = Fin (signF32UI u) 0 (- 149)" "\<not> softfloat_isSigNaNF32UI u"
  | (Fin) m i where "expF32UI u \<noteq> 0xFF" "\<not> (expF32UI u = 0 \<and> fracF32UI u = 0)"
      "decode f32_fmt (unat u) = Fin (signF32UI u) m i" "m \<noteq> 0" "\<not> softfloat_isSigNaNF32UI u" "expF32UI u < 0xFF"
proof (cases "expF32UI u = 0xFF")
  case True
  then show thesis using NaN Inf by (cases "fracF32UI u = 0") (simp_all add: decodeF32 sigNaNF32)
next
  case False
  moreover have "expF32UI u < 0xFF" using False expF32_bounds(2) [of u] by simp
  ultimately show thesis using Zero Fin
    by (cases "expF32UI u = 0"; cases "fracF32UI u = 0") (simp_all add: decodeF32 sigNaNF32 word_eq_nat)
qed

lemma patternF32:
  "unat u < 2 ^ 32 \<Longrightarrow> unat u = of_bool (signF32UI u) * 2 ^ 31 + (nat (expF32UI u) * 2 ^ 23 + unat (fracF32UI u))"
proof -
  assume "unat u < 2 ^ 32"
  then have lt: "unat u < 2 * (256 * 2 ^ 23)" by simp
  have sw: "(2 :: nat) ^ 31 = 256 * 2 ^ 23" by simp
  show ?thesis unfolding fieldsF32 nat_int sw by (rule pattern_split [OF lt])
qed

text \<open>A finite operand scaled by \<open>2 ^ w\<close>, a subnormal doubled, so that both weigh the same exponent.\<close>

lemma scaledF32:
  assumes "expF32UI u \<noteq> 0xFF"
  obtains m c where "decode f32_fmt (unat u) = Fin (signF32UI u) m (expF32UI u - 1 + (- 149) - int w + int c)"
    "(if expF32UI u = 0 then unat (fracF32UI u) * 2 ^ Suc w else (2 ^ 23 + unat (fracF32UI u)) * 2 ^ w) = m * 2 ^ c"
  using assms by (cases "expF32UI u = 0") (auto simp: decodeF32 intro: that [of _ w] that [of _ "Suc w"])

text \<open>The common exit \<open>uiZ:\<close> of the routines, which reads the result word back as a float.\<close>

definition returnF32 :: "u64 \<times> sf_state \<Rightarrow> float32_t \<times> sf_state" where
  "returnF32 r = (ucast (fst r), snd r)"

lemma propagateNaNF32:
  "bits (returnF32 (softfloat_propagateNaNF32UI uiA uiB st)) =
    nan_result f32_fmt st (softfloat_isSigNaNF32UI uiA \<or> softfloat_isSigNaNF32UI uiB)"
  by (simp add: softfloat_propagateNaNF32UI_def bits_def returnF32_def nan_result_def quiet_nan_def inf_mag_def
      defaultNaNF32UI_def unat_cast)

lemma return_defaultNaNF32:
  "bits (returnF32 (defaultNaNF32UI, softfloat_raiseFlags softfloat_flag_invalid st)) = nan_result f32_fmt st True"
  by (simp add: bits_def returnF32_def nan_result_def quiet_nan_def inf_mag_def defaultNaNF32UI_def unat_cast)

lemma return_packF32:
  assumes "0 \<le> exp" "exp \<le> 0xFF" "nat exp * 2 ^ 23 + unat sig < 2 ^ 31"
  shows "bits (returnF32 (packToF32UI sign exp sig, st)) =
    (of_bool sign * sign_weight f32_fmt + (nat exp * 2 ^ 23 + unat sig), st)"
  using assms by (cases sign) (simp_all add: bits_def returnF32_def unat_packToF32UI unat_cast sign_weight_def)

lemma return_infF32: "bits (returnF32 (packToF32UI sign 0xFF 0, st)) = inf_result f32_fmt st sign"
  by (simp add: return_packF32 inf_result_def inf_mag_def)

lemma return_zeroF32: "bits (returnF32 (packToF32UI sign 0 0, st)) = zero_result f32_fmt st sign"
  by (simp add: return_packF32 zero_result_def)

lemma normSubnormalF32:
  assumes "0 < unat sig" "unat sig < 2 ^ 23"
  obtains sd where "es_exp (softfloat_normSubnormalF32Sig sig) = 1 - int sd" "sd \<le> 24"
    "unat (es_sig (softfloat_normSubnormalF32Sig sig)) = unat sig * 2 ^ sd"
    "2 ^ 23 \<le> unat sig * 2 ^ sd" "unat sig * 2 ^ sd < 2 ^ 24"
proof -
  define sd where "sd = 24 - bitlen (unat sig)"
  have "unat sig < 2 ^ 24" using assms(2) by simp
  note ns = normalised_shift [OF assms(1) this, folded sd_def]
  have d: "int (unat (softfloat_countLeadingZeros32 (ucast sig))) - 8 = int sd"
    using ns(3) assms by (simp add: unat_countLeadingZeros32 unat_cast)
  have "unat (push_bit (nat (int sd)) sig) = unat sig * 2 ^ sd"
    using ns(2) by (simp add: unat_push)
  moreover have "es_exp (softfloat_normSubnormalF32Sig sig) = 1 - int sd"
    "es_sig (softfloat_normSubnormalF32Sig sig) = push_bit (nat (int sd)) sig"
    unfolding softfloat_normSubnormalF32Sig_def Let_def d by simp_all
  ultimately show thesis
    using ns by (intro that [of sd]) (simp_all add: sd_def)
qed

text \<open>A finite nonzero operand, with its significand brought up to full length as the code does.\<close>

lemma unpackF32:
  assumes "expF32UI u \<noteq> 0xFF" "\<not> (expF32UI u = 0 \<and> fracF32UI u = 0)"
  defines "n \<equiv> softfloat_normSubnormalF32Sig (fracF32UI u)"
  defines "E \<equiv> if expF32UI u = 0 then es_exp n else expF32UI u"
    and "M \<equiv> (if expF32UI u = 0 then es_sig n else fracF32UI u) OR 0x00800000"
  obtains m i k where "decode f32_fmt (unat u) = Fin (signF32UI u) m i" "m \<noteq> 0"
    "unat M = m * 2 ^ k" "E - 1 + (- 149) = i - int k"
    "2 ^ 23 \<le> unat M" "unat M < 2 ^ 24" "- 23 \<le> E" "E < 0xFF"
proof (cases "expF32UI u = 0")
  case True
  then have "0 < unat (fracF32UI u)" using assms(2) by (simp add: word_eq_nat)
  from normSubnormalF32 [OF this fracF32_bound] obtain sd where sd:
    "es_exp n = 1 - int sd" "sd \<le> 24" "unat (es_sig n) = unat (fracF32UI u) * 2 ^ sd"
    "2 ^ 23 \<le> unat (fracF32UI u) * 2 ^ sd" "unat (fracF32UI u) * 2 ^ sd < 2 ^ 24"
    unfolding n_def .
  have "unat M = unat (es_sig n)"
    unfolding M_def using True sd(3-5) or_hidden [of 23 "unat (es_sig n)"] by (simp add: unat_disj)
  then show thesis
    using True assms(1,2) sd
    by (intro that [of "unat (fracF32UI u)" "- 149" sd]) (simp_all add: decodeF32 E_def word_eq_nat)
next
  case False
  have "unat M = 2 ^ 23 + unat (fracF32UI u)"
    unfolding M_def using False fracF32_bound [of u] or_disjoint_nat [of "unat (fracF32UI u)" 23 1]
    by (simp add: unat_disj or.commute)
  then show thesis
    using False assms(1) expF32_bounds [of u] fracF32_bound [of u]
    by (intro that [of "2 ^ 23 + unat (fracF32UI u)" "expF32UI u - 1 + (- 149)" 0])
       (simp_all add: decodeF32 E_def)
qed

lemma fieldsF64:
  "unat (fracF64UI u) = unat u mod 2 ^ 52"
  "expF64UI u = int (unat u div 2 ^ 52 mod 2048)"
  "signF64UI u = odd (unat u div 2 ^ 63)"
proof -
  show "unat (fracF64UI u) = unat u mod 2 ^ 52"
    by (simp add: fracF64UI_def unat_conj bits_nat)
  show "expF64UI u = int (unat u div 2 ^ 52 mod 2048)"
    by (simp add: expF64UI_def uint_nat unat_conj unat_drop bits_nat)
  show "signF64UI u = odd (unat u div 2 ^ 63)"
    using odd_top_bit [of "unat u" 63] unat_lt_64 [of u] by (simp add: signF64UI_def word_eq_nat unat_cast unat_drop)
qed

lemma expF64_bounds: "0 \<le> expF64UI u" "expF64UI u \<le> 0x7FF"
  by (simp_all add: fieldsF64)

lemma fracF64_bound: "unat (fracF64UI u) < 2 ^ 52"
  by (simp add: fieldsF64)

lemma sigNaNF64: "softfloat_isSigNaNF64UI u \<longleftrightarrow>
    expF64UI u = 0x7FF \<and> fracF64UI u \<noteq> 0 \<and> unat (fracF64UI u) < 2 ^ (52 - 1)"
proof -
  define n where "n = unat u"
  define a b c where "a = n mod 2 ^ (52 - 1)" and "b = n div 2 ^ (52 - 1) mod 2" and "c = n div 2 ^ 52 mod 2048"
  have b: "b < 2" by (simp add: b_def)
  have f: "n mod 2 ^ 52 = a + 2 ^ (52 - 1) * b"
    using mod_mult_split [of n "2 ^ (52 - 1)" 2] by (simp add: a_def b_def)
  have a: "a < 2 ^ (52 - 1)" by (simp add: a_def)
  have d: "n div 2 ^ (52 - 1) mod 4096 = b + 2 * c"
  proof -
    have e: "(n div 2 ^ (52 - 1)) div 2 = n div 2 ^ 52" by (simp add: div_mult2_eq [symmetric])
    show ?thesis using mod_mult_split [of "n div 2 ^ (52 - 1)" 2 2048] unfolding e by (simp add: b_def c_def)
  qed
  have m: "unat (u AND 0x7FF8000000000000) = (b + 2 * c) * 2 ^ (52 - 1)"
    using and_high_mask [of n "4096 - 1" "52 - 1"] d by (simp add: unat_conj bits_nat n_def)
  have l: "unat (u AND 0x0007FFFFFFFFFFFF) = a"
    by (simp add: unat_conj bits_nat a_def n_def)
  have "softfloat_isSigNaNF64UI u \<longleftrightarrow> (b + 2 * c) * 2 ^ (52 - 1) = 0x7FF0000000000000 \<and> a \<noteq> 0"
    unfolding softfloat_isSigNaNF64UI_def word_eq_nat m l by simp
  also have "(0x7FF0000000000000 :: nat) = (2 * 0x7FF) * 2 ^ (52 - 1)" by simp
  also have "(b + 2 * c) * 2 ^ (52 - 1) = (2 * 0x7FF) * 2 ^ (52 - 1) \<and> a \<noteq> 0 \<longleftrightarrow>
      c = 0x7FF \<and> b = 0 \<and> a \<noteq> 0"
  proof -
    have "b + 2 * c = 2 * 0x7FF \<longleftrightarrow> c = 0x7FF \<and> b = 0" using b by presburger
    then show ?thesis unfolding mult_cancel2 by auto
  qed
  also have "\<dots> \<longleftrightarrow> expF64UI u = 0x7FF \<and> fracF64UI u \<noteq> 0 \<and> unat (fracF64UI u) < 2 ^ (52 - 1)"
    unfolding word_eq_nat fieldsF64 n_def [symmetric] f unfolding c_def [symmetric] using a b by auto
  finally show ?thesis .
qed

lemma decodeF64: "decode f64_fmt (unat u) =
    (if expF64UI u = 0x7FF
     then if fracF64UI u = 0 then Inf (signF64UI u) else NaN (softfloat_isSigNaNF64UI u)
     else if expF64UI u = 0 then Fin (signF64UI u) (unat (fracF64UI u)) (- 1074)
     else Fin (signF64UI u) (2 ^ 52 + unat (fracF64UI u)) (expF64UI u - 1 + (- 1074)))"
proof -
  define c where "c = unat u div 2 ^ 52 mod 2048"
  have sw: "sign_weight f64_fmt = 2 ^ 63" by (simp add: sign_weight_def)
  have ex: "expF64UI u = int c" by (simp only: fieldsF64 c_def)
  have em: "Suc (exp_max f64_fmt) = 2048" by simp
  have f: "fracF64UI u = 0 \<longleftrightarrow> unat (fracF64UI u) = 0" by (simp add: word_eq_nat)
  show ?thesis
    unfolding decode_def Let_def sw sigNaNF64 ex em f fieldsF64(1,3)
    by (simp only: fmt_simps c_def [symmetric]) auto
qed

lemma decodeF64_cases:
  obtains (NaN) "expF64UI u = 0x7FF" "fracF64UI u \<noteq> 0" "decode f64_fmt (unat u) = NaN (softfloat_isSigNaNF64UI u)"
  | (Inf) "expF64UI u = 0x7FF" "fracF64UI u = 0" "decode f64_fmt (unat u) = Inf (signF64UI u)" "\<not> softfloat_isSigNaNF64UI u"
  | (Zero) "expF64UI u = 0" "fracF64UI u = 0" "decode f64_fmt (unat u) = Fin (signF64UI u) 0 (- 1074)" "\<not> softfloat_isSigNaNF64UI u"
  | (Fin) m i where "expF64UI u \<noteq> 0x7FF" "\<not> (expF64UI u = 0 \<and> fracF64UI u = 0)"
      "decode f64_fmt (unat u) = Fin (signF64UI u) m i" "m \<noteq> 0" "\<not> softfloat_isSigNaNF64UI u" "expF64UI u < 0x7FF"
proof (cases "expF64UI u = 0x7FF")
  case True
  then show thesis using NaN Inf by (cases "fracF64UI u = 0") (simp_all add: decodeF64 sigNaNF64)
next
  case False
  moreover have "expF64UI u < 0x7FF" using False expF64_bounds(2) [of u] by simp
  ultimately show thesis using Zero Fin
    by (cases "expF64UI u = 0"; cases "fracF64UI u = 0") (simp_all add: decodeF64 sigNaNF64 word_eq_nat)
qed

lemma patternF64:
  "unat u < 2 ^ 64 \<Longrightarrow> unat u = of_bool (signF64UI u) * 2 ^ 63 + (nat (expF64UI u) * 2 ^ 52 + unat (fracF64UI u))"
proof -
  assume "unat u < 2 ^ 64"
  then have lt: "unat u < 2 * (2048 * 2 ^ 52)" by simp
  have sw: "(2 :: nat) ^ 63 = 2048 * 2 ^ 52" by simp
  show ?thesis unfolding fieldsF64 nat_int sw by (rule pattern_split [OF lt])
qed

text \<open>A finite operand scaled by \<open>2 ^ w\<close>, a subnormal doubled, so that both weigh the same exponent.\<close>

lemma scaledF64:
  assumes "expF64UI u \<noteq> 0x7FF"
  obtains m c where "decode f64_fmt (unat u) = Fin (signF64UI u) m (expF64UI u - 1 + (- 1074) - int w + int c)"
    "(if expF64UI u = 0 then unat (fracF64UI u) * 2 ^ Suc w else (2 ^ 52 + unat (fracF64UI u)) * 2 ^ w) = m * 2 ^ c"
  using assms by (cases "expF64UI u = 0") (auto simp: decodeF64 intro: that [of _ w] that [of _ "Suc w"])

text \<open>The common exit \<open>uiZ:\<close> of the routines, which reads the result word back as a float.\<close>

definition returnF64 :: "u64 \<times> sf_state \<Rightarrow> float64_t \<times> sf_state" where
  "returnF64 r = ((fst r), snd r)"

lemma propagateNaNF64:
  "bits (returnF64 (softfloat_propagateNaNF64UI uiA uiB st)) =
    nan_result f64_fmt st (softfloat_isSigNaNF64UI uiA \<or> softfloat_isSigNaNF64UI uiB)"
  by (simp add: softfloat_propagateNaNF64UI_def bits_def returnF64_def nan_result_def quiet_nan_def inf_mag_def
      defaultNaNF64UI_def unat_cast)

lemma return_defaultNaNF64:
  "bits (returnF64 (defaultNaNF64UI, softfloat_raiseFlags softfloat_flag_invalid st)) = nan_result f64_fmt st True"
  by (simp add: bits_def returnF64_def nan_result_def quiet_nan_def inf_mag_def defaultNaNF64UI_def unat_cast)

lemma return_packF64:
  assumes "0 \<le> exp" "exp \<le> 0x7FF" "nat exp * 2 ^ 52 + unat sig < 2 ^ 63"
  shows "bits (returnF64 (packToF64UI sign exp sig, st)) =
    (of_bool sign * sign_weight f64_fmt + (nat exp * 2 ^ 52 + unat sig), st)"
  using assms by (cases sign) (simp_all add: bits_def returnF64_def unat_packToF64UI unat_cast sign_weight_def)

lemma return_infF64: "bits (returnF64 (packToF64UI sign 0x7FF 0, st)) = inf_result f64_fmt st sign"
  by (simp add: return_packF64 inf_result_def inf_mag_def)

lemma return_zeroF64: "bits (returnF64 (packToF64UI sign 0 0, st)) = zero_result f64_fmt st sign"
  by (simp add: return_packF64 zero_result_def)

lemma normSubnormalF64:
  assumes "0 < unat sig" "unat sig < 2 ^ 52"
  obtains sd where "es_exp (softfloat_normSubnormalF64Sig sig) = 1 - int sd" "sd \<le> 53"
    "unat (es_sig (softfloat_normSubnormalF64Sig sig)) = unat sig * 2 ^ sd"
    "2 ^ 52 \<le> unat sig * 2 ^ sd" "unat sig * 2 ^ sd < 2 ^ 53"
proof -
  define sd where "sd = 53 - bitlen (unat sig)"
  have "unat sig < 2 ^ 53" using assms(2) by simp
  note ns = normalised_shift [OF assms(1) this, folded sd_def]
  have d: "int (unat (softfloat_countLeadingZeros64 sig)) - 11 = int sd"
    using ns(3) assms by (simp add: unat_countLeadingZeros64 unat_cast)
  have "unat (push_bit (nat (int sd)) sig) = unat sig * 2 ^ sd"
    using ns(2) by (simp add: unat_push)
  moreover have "es_exp (softfloat_normSubnormalF64Sig sig) = 1 - int sd"
    "es_sig (softfloat_normSubnormalF64Sig sig) = push_bit (nat (int sd)) sig"
    unfolding softfloat_normSubnormalF64Sig_def Let_def d by simp_all
  ultimately show thesis
    using ns by (intro that [of sd]) (simp_all add: sd_def)
qed

text \<open>A finite nonzero operand, with its significand brought up to full length as the code does.\<close>

lemma unpackF64:
  assumes "expF64UI u \<noteq> 0x7FF" "\<not> (expF64UI u = 0 \<and> fracF64UI u = 0)"
  defines "n \<equiv> softfloat_normSubnormalF64Sig (fracF64UI u)"
  defines "E \<equiv> if expF64UI u = 0 then es_exp n else expF64UI u"
    and "M \<equiv> (if expF64UI u = 0 then es_sig n else fracF64UI u) OR 0x0010000000000000"
  obtains m i k where "decode f64_fmt (unat u) = Fin (signF64UI u) m i" "m \<noteq> 0"
    "unat M = m * 2 ^ k" "E - 1 + (- 1074) = i - int k"
    "2 ^ 52 \<le> unat M" "unat M < 2 ^ 53" "- 52 \<le> E" "E < 0x7FF"
proof (cases "expF64UI u = 0")
  case True
  then have "0 < unat (fracF64UI u)" using assms(2) by (simp add: word_eq_nat)
  from normSubnormalF64 [OF this fracF64_bound] obtain sd where sd:
    "es_exp n = 1 - int sd" "sd \<le> 53" "unat (es_sig n) = unat (fracF64UI u) * 2 ^ sd"
    "2 ^ 52 \<le> unat (fracF64UI u) * 2 ^ sd" "unat (fracF64UI u) * 2 ^ sd < 2 ^ 53"
    unfolding n_def .
  have "unat M = unat (es_sig n)"
    unfolding M_def using True sd(3-5) or_hidden [of 52 "unat (es_sig n)"] by (simp add: unat_disj)
  then show thesis
    using True assms(1,2) sd
    by (intro that [of "unat (fracF64UI u)" "- 1074" sd]) (simp_all add: decodeF64 E_def word_eq_nat)
next
  case False
  have "unat M = 2 ^ 52 + unat (fracF64UI u)"
    unfolding M_def using False fracF64_bound [of u] or_disjoint_nat [of "unat (fracF64UI u)" 52 1]
    by (simp add: unat_disj or.commute)
  then show thesis
    using False assms(1) expF64_bounds [of u] fracF64_bound [of u]
    by (intro that [of "2 ^ 52 + unat (fracF64UI u)" "expF64UI u - 1 + (- 1074)" 0])
       (simp_all add: decodeF64 E_def)
qed

section \<open>Integers that fit\<close>

lemma ieee_result_integer:
  assumes n: "0 < n" "bitlen n \<le> frac_bits F + 1" and F: "2 \<le> exp_max F" and w: "2 \<le> (w :: nat)"
  defines "sd \<equiv> frac_bits F + 1 - bitlen n"
  assumes x: "0 \<le> - lsb_exp F - int sd" "- lsb_exp F - int sd \<le> int (exp_max F) - 2"
  shows "ieee_result F st s n 0 =
    (of_bool s * sign_weight F + (nat (- lsb_exp F - int sd) * 2 ^ frac_bits F + n * 2 ^ sd), st)"
    "2 ^ frac_bits F \<le> n * 2 ^ sd" "n * 2 ^ sd < 2 ^ (frac_bits F + 1)"
proof -
  have "n < 2 ^ (frac_bits F + 1)" using n(2) by (simp only: bitlen_le_iff)
  note ns = normalised_shift [OF n(1) this, folded sd_def]
  show b: "2 ^ frac_bits F \<le> n * 2 ^ sd" "n * 2 ^ sd < 2 ^ (frac_bits F + 1)" using ns by simp_all
  have "ieee_result F st s (n * 2 ^ sd * 2 ^ w) (pack_exp F w (- lsb_exp F - int sd)) =
      (of_bool s * sign_weight F + (nat (- lsb_exp F - int sd) * 2 ^ frac_bits F + n * 2 ^ sd), st)"
    using b w F x by (intro ieee_result_exact) (simp_all add: power_add)
  moreover have "ieee_result F st s (n * 2 ^ sd * 2 ^ w) (pack_exp F w (- lsb_exp F - int sd)) = ieee_result F st s n 0"
    using ieee_result_double [of F st s n "sd + w" 0] by (simp add: pack_exp_def power_add mult.assoc algebra_simps)
  ultimately show "ieee_result F st s n 0 =
    (of_bool s * sign_weight F + (nat (- lsb_exp F - int sd) * 2 ^ frac_bits F + n * 2 ^ sd), st)" by simp
qed

section \<open>The contract of the packing routines\<close>

locale round_pack =
  fixes F :: fmt and w :: nat and lo hi :: int
    and rp :: "bool \<Rightarrow> int \<Rightarrow> u64 \<Rightarrow> sf_state \<Rightarrow> 'a::len word \<times> sf_state"
  assumes rp_ieee: "2 ^ (frac_bits F + w) \<le> unat sig \<Longrightarrow> unat sig < 2 ^ (frac_bits F + w + 1) \<Longrightarrow>
      lo \<le> exp \<Longrightarrow> exp \<le> hi \<Longrightarrow>
      bits (rp s exp sig st) = ieee_result F st s (unat sig) (pack_exp F w exp)"
    and room: "frac_bits F + w + 1 < 64" "3 \<le> w"
begin

text \<open>A sticky significand stands for the exact one.\<close>

lemma rp_jam:
  assumes sig: "unat sig = jam n (2 ^ k)" "2 ^ (frac_bits F + w) \<le> unat sig" "unat sig < 2 ^ (frac_bits F + w + 1)"
    and e: "lo \<le> exp" "exp \<le> hi" and n: "k + frac_bits F + 3 \<le> bitlen n"
    and i: "i + int k = pack_exp F w exp"
  shows "bits (rp s exp sig st) = ieee_result F st s n i"
  using rp_ieee [OF sig(2,3) e, of s st] ieee_result_jam [OF n, of st s i] sig(1) i by simp

text \<open>A significand with its leading bit one place too low is shifted up first.\<close>

lemma rp_half:
  assumes "2 ^ (frac_bits F + w - 1) \<le> unat sig" "unat sig < 2 ^ (frac_bits F + w + 1)" "lo < exp" "exp \<le> hi"
  shows "bits (if unat sig < 2 ^ (frac_bits F + w) then rp s (exp - 1) (push_bit 1 sig) st else rp s exp sig st)
    = ieee_result F st s (unat sig) (pack_exp F w exp)"
proof (cases "unat sig < 2 ^ (frac_bits F + w)")
  case True
  have le: "(2 :: nat) ^ (frac_bits F + w) \<le> 2 ^ 63" using room(1) by (intro power_increasing) simp_all
  have u: "unat (push_bit 1 sig) = unat sig * 2"
    unfolding unat_push using True le by simp
  have "2 ^ (frac_bits F + w) = 2 * (2 :: nat) ^ (frac_bits F + w - 1)"
    using room(2) by (simp flip: power_Suc)
  then have "bits (rp s (exp - 1) (push_bit 1 sig) st) =
      ieee_result F st s (unat sig * 2) (pack_exp F w (exp - 1))"
    using assms True rp_ieee [of "push_bit 1 sig" "exp - 1" s st] unfolding u by simp
  also have "\<dots> = ieee_result F st s (unat sig) (pack_exp F w exp)"
  proof -
    have "pack_exp F w (exp - 1) = pack_exp F w exp - int 1" by (simp add: pack_exp_def)
    then show ?thesis
      using ieee_result_double [of F st s "unat sig" 1 "pack_exp F w exp"] by (simp only: power_one_right)
  qed
  finally show ?thesis using True by simp
next
  case False
  then show ?thesis using assms rp_ieee [of sig exp s st] by simp
qed

text \<open>A sum whose smaller operand was aligned with a sticky shift.\<close>

lemma rp_sum:
  assumes sig: "unat sig = X + jam Y (2 ^ d)" and X: "even X" "2 ^ (frac_bits F + w - 1) \<le> X" "X < 2 ^ (frac_bits F + w)"
    and Y: "Y < 2 ^ (frac_bits F + w)" and e: "lo < exp" "exp \<le> hi" and i: "i + int d = pack_exp F w exp"
  shows "bits (if unat sig < 2 ^ (frac_bits F + w) then rp s (exp - 1) (push_bit 1 sig) st else rp s exp sig st)
    = ieee_result F st s (X * 2 ^ d + Y) i"
proof -
  define h where "h = (2 :: nat) ^ (frac_bits F + w - 1)"
  have hw: "2 ^ (frac_bits F + w) = 2 * h" using room(2) by (simp add: h_def flip: power_Suc)
  have "2 * h * 1 \<le> 2 * h * 2 ^ d" by (intro mult_le_mono2) simp
  then have "Y < 2 * h * 2 ^ d" using Y unfolding hw by linarith
  then have "Y < 2 ^ d * (2 * h)" by (simp only: mult.commute)
  then have "jam Y (2 ^ d) < 2 * h" by (intro jam_less) simp_all
  then have "unat sig < 2 ^ (frac_bits F + w + 1)" using sig X(3) hw by simp
  moreover have "2 ^ (frac_bits F + w - 1) \<le> unat sig" using sig X(2) by simp
  moreover have "h * 2 ^ d \<le> X * 2 ^ d" using X(2) by (simp add: h_def)
  then have "2 ^ (frac_bits F + w - 1 + d) \<le> X * 2 ^ d + Y"
    unfolding power_add h_def [symmetric] by (rule trans_le_add1)
  then have "Suc (frac_bits F + w - 1 + d) \<le> bitlen (X * 2 ^ d + Y)" by (subst bitlen_ge_iff) simp_all
  then have bl: "d + frac_bits F + 3 \<le> bitlen (X * 2 ^ d + Y)" using room(2) by simp
  moreover have "unat sig = jam (X * 2 ^ d + Y) (2 ^ d)" using sig X(1) by (simp add: jam_add)
  ultimately show ?thesis
    using rp_half [of sig exp s st] ieee_result_jam [OF bl, of st s i] e i by simp
qed

lemma rp_half_jam:
  assumes sig: "unat sig = jam n (2 ^ k)" "2 ^ (frac_bits F + w - 1) \<le> unat sig" "unat sig < 2 ^ (frac_bits F + w + 1)"
    and e: "lo < exp" "exp \<le> hi" and n: "k + frac_bits F + 3 \<le> bitlen n"
    and i: "i + int k = pack_exp F w exp"
  shows "bits (if unat sig < 2 ^ (frac_bits F + w) then rp s (exp - 1) (push_bit 1 sig) st else rp s exp sig st)
    = ieee_result F st s n i"
  using rp_half [OF sig(2,3) e, of s st] ieee_result_jam [OF n, of st s i] sig(1) i by simp

text \<open>An integer brought to full length, upwards exactly or downwards with a sticky bit.\<close>

lemma rp_integer:
  assumes n: "0 < n" and sh: "sh = int (frac_bits F + w + 1) - int (bitlen n)"
    and sig: "unat sig = (if 0 \<le> sh then n * 2 ^ nat sh else jam n (2 ^ nat (- sh)))"
    and e: "exp = int w - lsb_exp F - sh" "lo \<le> exp" "exp \<le> hi"
  shows "bits (rp s exp sig st) = ieee_result F st s n 0"
proof (cases "0 \<le> sh")
  case True
  define c where "c = nat sh"
  have c: "bitlen n + c = frac_bits F + w + 1" "sh = int c" using True sh by (simp_all add: c_def)
  have "n < 2 ^ bitlen n" by (rule bitlen_bounds)
  also have "\<dots> \<le> 2 ^ (frac_bits F + w + 1)" using c(1) by (intro power_increasing) simp_all
  finally have ns: "n < 2 ^ (frac_bits F + w + 1)" .
  have "frac_bits F + w + 1 - bitlen n = c" using c(1) by simp
  with normalised_shift [OF n ns] have "2 ^ (frac_bits F + w) \<le> unat sig" "unat sig < 2 ^ (frac_bits F + w + 1)"
    using sig c by simp_all
  then have "bits (rp s exp sig st) = ieee_result F st s (unat sig) (pack_exp F w exp)"
    using e(2,3) by (rule rp_ieee)
  also have "pack_exp F w exp = 0 - int c" by (simp add: pack_exp_def e(1) c(2))
  also have "unat sig = n * 2 ^ c" using sig c by simp
  finally show ?thesis by (simp only: ieee_result_double)
next
  case False
  define k where "k = nat (- sh)"
  have k: "bitlen n = frac_bits F + w + 1 + k" "sh = - int k" using False sh by (simp_all add: k_def)
  have j: "unat sig = jam n (2 ^ k)" using sig False by (simp add: k_def)
  have "n < 2 ^ k * 2 ^ (frac_bits F + w + 1)"
    using bitlen_bounds(2) [of n] k(1) by (simp only: power_add mult.commute)
  then have lt: "unat sig < 2 ^ (frac_bits F + w + 1)" unfolding j by (rule jam_less [rotated]) simp
  have "2 ^ k * 2 ^ (frac_bits F + w) \<le> n"
    using bitlen_bounds(1) [OF n] k(1) by (simp add: add.commute flip: power_add)
  then have ge: "2 ^ (frac_bits F + w) \<le> unat sig" unfolding j by (intro jam_ge) simp_all
  show ?thesis
    using k room by (intro rp_jam [OF j ge lt e(2,3)]) (simp_all add: pack_exp_def e(1))
qed

end

text \<open>
  The normalising variant takes any nonzero significand below the top. Its contract gives the
  other one, and exact cancellation after a sticky alignment.
\<close>

locale norm_round_pack =
  fixes F :: fmt and w :: nat and lo hi :: int
    and nrp :: "bool \<Rightarrow> int \<Rightarrow> u64 \<Rightarrow> sf_state \<Rightarrow> 'a::len word \<times> sf_state"
  assumes nrp_ieee: "0 < unat sig \<Longrightarrow> unat sig < 2 ^ (frac_bits F + w + 1) \<Longrightarrow> lo \<le> exp \<Longrightarrow> exp \<le> hi \<Longrightarrow>
      bits (nrp s exp sig st) = ieee_result F st s (unat sig) (pack_exp F w exp)"
    and nroom: "frac_bits F + w + 1 < 64" "3 \<le> w"

sublocale norm_round_pack \<subseteq> plain: round_pack F w lo hi nrp
proof
  fix sig :: u64 and exp s st
  assume "2 ^ (frac_bits F + w) \<le> unat sig"
  then have "0 < unat sig" by (metis gr0I le_zero_eq power_not_zero zero_neq_numeral)
  moreover assume "unat sig < 2 ^ (frac_bits F + w + 1)" "lo \<le> exp" "exp \<le> hi"
  ultimately show "bits (nrp s exp sig st) = ieee_result F st s (unat sig) (pack_exp F w exp)"
    by (rule nrp_ieee)
qed (use nroom in simp_all)

context norm_round_pack
begin

lemma nrp_cancel:
  assumes sig: "unat sig = X - jam Y (2 ^ d)" and X: "even X" "2 ^ (frac_bits F + w) \<le> X" "X < 2 ^ (frac_bits F + w + 1)"
    and Y: "even Y" "Y < 2 ^ (frac_bits F + w + 1)" and d: "0 < d" and lt: "Y < X * 2 ^ d" "jam Y (2 ^ d) < X"
    and e: "lo \<le> exp" "exp \<le> hi" and i: "i + int d = pack_exp F w exp"
  shows "bits (nrp s exp sig st) = ieee_result F st s (X * 2 ^ d - Y) i"
proof -
  have j: "jam (X * 2 ^ d - Y) (2 ^ d) = X - jam Y (2 ^ d)"
    using X(1) lt(1) by (intro jam_diff) simp_all
  have "ieee_result F st s (X * 2 ^ d - Y) i = ieee_result F st s (X - jam Y (2 ^ d)) (i + int d)"
  proof (cases "d = 1")
    case True
    obtain y where y: "Y = y * 2" using Y(1) by (auto elim!: evenE)
    have "jam Y (2 ^ d) = y" using jam_exact [of 2 y] True y by simp
    moreover have "X * 2 ^ d - Y = (X - y) * 2 ^ 1" using True y by (simp add: diff_mult_distrib)
    ultimately show ?thesis
      using True ieee_result_double [of F st s "X - y" 1 "i + 1"] by simp
  next
    case False
    define h where "h = (2 :: nat) ^ (frac_bits F + w)"
    have "(2 :: nat) ^ 2 \<le> 2 ^ d" using d False by (intro power_increasing) simp_all
    then have "4 * h \<le> h * 2 ^ d" by simp
    moreover have "h * 2 ^ d \<le> X * 2 ^ d" using X(2) by (simp add: h_def)
    moreover have "Y < 2 * h" using Y(2) by (simp add: h_def)
    ultimately have "h * 2 ^ d \<le> 2 * (X * 2 ^ d - Y)" by linarith
    moreover have "h = 2 * 2 ^ (frac_bits F + w - 1)" using nroom(2) by (simp add: h_def flip: power_Suc)
    ultimately have "2 ^ (frac_bits F + w - 1) * 2 ^ d \<le> X * 2 ^ d - Y" by simp
    then have "2 ^ (frac_bits F + w - 1 + d) \<le> X * 2 ^ d - Y" by (simp only: power_add)
    then have "Suc (frac_bits F + w - 1 + d) \<le> bitlen (X * 2 ^ d - Y)" by (subst bitlen_ge_iff) simp_all
    then have "d + frac_bits F + 3 \<le> bitlen (X * 2 ^ d - Y)" using nroom(2) by simp
    from ieee_result_jam [OF this, of st s i] show ?thesis by (simp add: j)
  qed
  moreover have "jam Y (2 ^ d) \<le> X" using lt(2) by simp
  ultimately show ?thesis
    using nrp_ieee [of sig exp s st] X lt(2) e sig i by simp
qed

end

interpretation rp16: round_pack f16_fmt 4 "- (2 ^ 31)" "2 ^ 31 - 1" softfloat_roundPackToF16
  by unfold_locales (simp_all add: roundPackToF16_ieee)

interpretation rp32: round_pack f32_fmt 7 "- (2 ^ 31)" "2 ^ 31 - 1" softfloat_roundPackToF32
  by unfold_locales (simp_all add: roundPackToF32_ieee)

interpretation rp64: round_pack f64_fmt 10 "- 60000" "60000" softfloat_roundPackToF64
  by unfold_locales (simp_all add: roundPackToF64_ieee)

interpretation nrp16: norm_round_pack f16_fmt 4 "- (2 ^ 30)" "2 ^ 30" softfloat_normRoundPackToF16
  by unfold_locales (simp_all add: normRoundPackToF16_ieee)

interpretation nrp32: norm_round_pack f32_fmt 7 "- (2 ^ 30)" "2 ^ 30" softfloat_normRoundPackToF32
  by unfold_locales (simp_all add: normRoundPackToF32_ieee)

interpretation nrp64: norm_round_pack f64_fmt 10 "- 50000" "50000" softfloat_normRoundPackToF64
  by unfold_locales (simp_all add: normRoundPackToF64_ieee)

end
