(* ===== verification/SF_Mul.thy ===== *)
theory SF_Mul
  imports SF_Fields
begin

text \<open>
  Multiplication (\<open>f16_mul.c\<close>, \<open>f32_mul.c\<close>, \<open>f64_mul.c\<close>): the operations and the proof that
  each returns the correctly rounded product with the right flags for all operands.
\<close>

section \<open>The operations\<close>

definition f16_mul :: "float16_t \<Rightarrow> float16_t \<Rightarrow> sf_state \<Rightarrow> float16_t \<times> sf_state" where
  "f16_mul a b st =
     (let uiA = ucast a; signA = signF16UI uiA; expA = expF16UI uiA; sigA = fracF16UI uiA;
          uiB = ucast b; signB = signF16UI uiB; expB = expF16UI uiB; sigB = fracF16UI uiB;
          signZ = (signA \<noteq> signB);
          propagateNaN = returnF16 (softfloat_propagateNaNF16UI uiA uiB st);
          infArg = (\<lambda>magBits :: u64. if magBits = 0
            then returnF16 (defaultNaNF16UI, softfloat_raiseFlags softfloat_flag_invalid st)
            else returnF16 (packToF16UI signZ 0x1F 0, st));
          zero = returnF16 (packToF16UI signZ 0 0, st)
      in if expA = 0x1F
         then if sigA \<noteq> 0 \<or> (expB = 0x1F \<and> sigB \<noteq> 0) then propagateNaN
              else infArg (word_of_int expB OR sigB)
         else if expB = 0x1F
         then if sigB \<noteq> 0 then propagateNaN else infArg (word_of_int expA OR sigA)
         else if expA = 0 \<and> sigA = 0 then zero
         else let normExpSig = softfloat_normSubnormalF16Sig sigA;
                  (expA, sigA) = (if expA = 0 then (es_exp normExpSig, es_sig normExpSig) else (expA, sigA))
         in if expB = 0 \<and> sigB = 0 then zero
         else let normExpSig = softfloat_normSubnormalF16Sig sigB;
                  (expB, sigB) = (if expB = 0 then (es_exp normExpSig, es_sig normExpSig) else (expB, sigB));
                  expZ = expA + expB - 0xF;
                  sigA = push_bit 4 (sigA OR 0x0400);
                  sigB = push_bit 5 (sigB OR 0x0400);
                  sig32Z = sigA * sigB;
                  sigZ = drop_bit 16 sig32Z;
                  sigZ = (if sig32Z AND 0xFFFF \<noteq> 0 then sigZ OR 1 else sigZ);
                  (expZ, sigZ) = (if sigZ < 0x4000 then (expZ - 1, push_bit 1 sigZ) else (expZ, sigZ))
         in softfloat_roundPackToF16 signZ expZ sigZ st)"

definition f32_mul :: "float32_t \<Rightarrow> float32_t \<Rightarrow> sf_state \<Rightarrow> float32_t \<times> sf_state" where
  "f32_mul a b st =
     (let uiA = ucast a; signA = signF32UI uiA; expA = expF32UI uiA; sigA = fracF32UI uiA;
          uiB = ucast b; signB = signF32UI uiB; expB = expF32UI uiB; sigB = fracF32UI uiB;
          signZ = (signA \<noteq> signB);
          propagateNaN = returnF32 (softfloat_propagateNaNF32UI uiA uiB st);
          infArg = (\<lambda>magBits :: u64. if magBits = 0
            then returnF32 (defaultNaNF32UI, softfloat_raiseFlags softfloat_flag_invalid st)
            else returnF32 (packToF32UI signZ 0xFF 0, st));
          zero = returnF32 (packToF32UI signZ 0 0, st)
      in if expA = 0xFF
         then if sigA \<noteq> 0 \<or> (expB = 0xFF \<and> sigB \<noteq> 0) then propagateNaN
              else infArg (word_of_int expB OR sigB)
         else if expB = 0xFF
         then if sigB \<noteq> 0 then propagateNaN else infArg (word_of_int expA OR sigA)
         else if expA = 0 \<and> sigA = 0 then zero
         else let normExpSig = softfloat_normSubnormalF32Sig sigA;
                  (expA, sigA) = (if expA = 0 then (es_exp normExpSig, es_sig normExpSig) else (expA, sigA))
         in if expB = 0 \<and> sigB = 0 then zero
         else let normExpSig = softfloat_normSubnormalF32Sig sigB;
                  (expB, sigB) = (if expB = 0 then (es_exp normExpSig, es_sig normExpSig) else (expB, sigB));
                  expZ = expA + expB - 0x7F;
                  sigA = push_bit 7 (sigA OR 0x00800000);
                  sigB = push_bit 8 (sigB OR 0x00800000);
                  sigZ = softfloat_shortShiftRightJam64 (sigA * sigB) 32;
                  (expZ, sigZ) = (if sigZ < 0x40000000 then (expZ - 1, push_bit 1 sigZ) else (expZ, sigZ))
         in softfloat_roundPackToF32 signZ expZ sigZ st)"

definition f64_mul :: "float64_t \<Rightarrow> float64_t \<Rightarrow> sf_state \<Rightarrow> float64_t \<times> sf_state" where
  "f64_mul a b st =
     (let uiA = a; signA = signF64UI uiA; expA = expF64UI uiA; sigA = fracF64UI uiA;
          uiB = b; signB = signF64UI uiB; expB = expF64UI uiB; sigB = fracF64UI uiB;
          signZ = (signA \<noteq> signB);
          propagateNaN = returnF64 (softfloat_propagateNaNF64UI uiA uiB st);
          infArg = (\<lambda>magBits :: u64. if magBits = 0
            then returnF64 (defaultNaNF64UI, softfloat_raiseFlags softfloat_flag_invalid st)
            else returnF64 (packToF64UI signZ 0x7FF 0, st));
          zero = returnF64 (packToF64UI signZ 0 0, st)
      in if expA = 0x7FF
         then if sigA \<noteq> 0 \<or> (expB = 0x7FF \<and> sigB \<noteq> 0) then propagateNaN
              else infArg (word_of_int expB OR sigB)
         else if expB = 0x7FF
         then if sigB \<noteq> 0 then propagateNaN else infArg (word_of_int expA OR sigA)
         else if expA = 0 \<and> sigA = 0 then zero
         else let normExpSig = softfloat_normSubnormalF64Sig sigA;
                  (expA, sigA) = (if expA = 0 then (es_exp normExpSig, es_sig normExpSig) else (expA, sigA))
         in if expB = 0 \<and> sigB = 0 then zero
         else let normExpSig = softfloat_normSubnormalF64Sig sigB;
                  (expB, sigB) = (if expB = 0 then (es_exp normExpSig, es_sig normExpSig) else (expB, sigB));
                  expZ = expA + expB - 0x3FF;
                  sigA = push_bit 10 (sigA OR 0x0010000000000000);
                  sigB = push_bit 11 (sigB OR 0x0010000000000000);
                  sig128Z = softfloat_mul64To128 sigA sigB;
                  sigZ = v64 sig128Z OR of_bool (v0 sig128Z \<noteq> 0);
                  (expZ, sigZ) = (if sigZ < 0x4000000000000000 then (expZ - 1, push_bit 1 sigZ) else (expZ, sigZ))
         in softfloat_roundPackToF64 signZ expZ sigZ st)"

section \<open>Correct rounding\<close>

lemma ieee_result_product:
  assumes "M = m * 2 ^ k" "N = n * 2 ^ l" "e = i + j - int (k + l + c)"
  shows "ieee_result F st s (M * N * 2 ^ c) e = ieee_result F st s (m * n) (i + j)"
proof -
  have "M * N * 2 ^ c = m * n * 2 ^ (k + l + c)"
    by (simp add: assms(1,2) power_add algebra_simps)
  then show ?thesis using ieee_result_double [of F st s "m * n" "k + l + c" "i + j"] assms(3) by simp
qed

lemma product_range:
  fixes M N :: nat
  assumes "2 ^ f \<le> M" "M < 2 ^ Suc f" "2 ^ f \<le> N" "N < 2 ^ Suc f"
  shows "2 ^ (f + f) \<le> M * N" "M * N < 2 ^ (Suc f + Suc f)"
proof -
  show "2 ^ (f + f) \<le> M * N" unfolding power_add using assms by (intro mult_le_mono)
  show "M * N < 2 ^ (Suc f + Suc f)" unfolding power_add using assms by (intro mult_strict_mono) simp_all
qed

lemma f16_mul_core:
  assumes ranges: "2 ^ 10 \<le> unat MA" "unat MA < 2 ^ 11" "2 ^ 10 \<le> unat MB" "unat MB < 2 ^ 11"
    and a: "unat MA = m * 2 ^ k" "EA - 1 + (- 24) = i - int k"
    and b: "unat MB = n * 2 ^ l" "EB - 1 + (- 24) = j - int l"
    and e: "- 10 \<le> EA" "EA < 0x1F" "- 10 \<le> EB" "EB < 0x1F"
  defines "expZ \<equiv> EA + EB - 0xF"
  shows "bits (let sig32Z = push_bit 4 MA * push_bit 5 MB;
        sigZ = drop_bit 16 sig32Z;
        sigZ = (if sig32Z AND 0xFFFF \<noteq> 0 then sigZ OR 1 else sigZ)
      in case (if sigZ < 0x4000 then (expZ - 1, push_bit 1 sigZ) else (expZ, sigZ)) of
        (expZ, sigZ) \<Rightarrow> softfloat_roundPackToF16 s expZ sigZ st) =
    ieee_result f16_fmt st s (m * n) (i + j)"
proof -
  define N where "N = unat MA * unat MB * 2 ^ 9"
  have pr: "2 ^ (10 + 10) \<le> unat MA * unat MB" "unat MA * unat MB < 2 ^ (Suc 10 + Suc 10)"
    using product_range [of 10 "unat MA" "unat MB"] ranges by simp_all
  have Nr: "2 ^ 29 \<le> N" "N < 2 ^ 31" using pr by (simp_all add: N_def)
  have P: "unat (push_bit 4 MA * push_bit 5 MB) = N"
    using Nr(2) ranges by (simp add: N_def unat_word_ariths unat_push)
  define P where "P = push_bit 4 MA * push_bit 5 MB"
  define sigZ where "sigZ = (if P AND 0xFFFF \<noteq> 0 then drop_bit 16 P OR 1 else drop_bit 16 P)"
  have "sigZ = drop_bit 16 P OR of_bool (P AND 0xFFFF \<noteq> 0)" by (simp add: sigZ_def)
  then have jam: "unat sigZ = jam N (2 ^ 16)"
    using P by (simp add: unat_or_truth jam_def unat_drop word_eq_nat unat_conj bits_nat P_def)
  have "jam N (2 ^ 16) < 2 ^ 15" using Nr(2) by (intro jam_less) simp_all
  moreover have "2 ^ (15 - 2) \<le> jam N (2 ^ 16)" using Nr(1) by (intro jam_ge) simp_all
  moreover have "16 + 10 + 3 \<le> bitlen N" using Nr(1) by (subst bitlen_ge_iff) simp_all
  ultimately have "bits (if unat sigZ < 2 ^ (10 + 4) then softfloat_roundPackToF16 s (expZ - 1) (push_bit 1 sigZ) st
        else softfloat_roundPackToF16 s expZ sigZ st)
      = ieee_result f16_fmt st s N (pack_exp f16_fmt 4 expZ - int 16)"
    using e jam rp16.rp_half_jam [of sigZ N 16 expZ "pack_exp f16_fmt 4 expZ - int 16" s st]
    by (simp add: expZ_def)
  also have "\<dots> = ieee_result f16_fmt st s (m * n) (i + j)"
    unfolding N_def using a b by (intro ieee_result_product) (auto simp: expZ_def pack_exp_def)
  finally show ?thesis
    unfolding Let_def P_def [symmetric] sigZ_def [symmetric] by (simp add: word_less_nat_alt split: if_splits)
qed

lemma f16_mul_ieee:
  "bits (f16_mul a b st) = fp_mul f16_fmt st (decode f16_fmt (unat a)) (decode f16_fmt (unat b))"
proof -
  define uA uB where "uA = (ucast a :: u64)" and "uB = (ucast b :: u64)"
  have ab: "unat a = unat uA" "unat b = unat uB" using unat_lt_16 [of a] unat_lt_16 [of b] by (simp_all add: uA_def uB_def unat_cast)
  note defs = f16_mul_def Let_def uA_def [symmetric] uB_def [symmetric]
  have mag0: "word_of_int (expF16UI u) OR fracF16UI u = 0 \<longleftrightarrow> expF16UI u = 0 \<and> fracF16UI u = 0" for u :: u64
    using unat_of_exp [of "expF16UI u", where 'a = 64] expF16_bounds [of u]
    by (auto simp: word_eq_nat unat_disj or_eq_0_iff)
  define MA where "MA = (\<lambda>u. (if expF16UI u = 0 then es_sig (softfloat_normSubnormalF16Sig (fracF16UI u)) else fracF16UI u) OR 0x0400)"
  define EA where "EA = (\<lambda>u. if expF16UI u = 0 then es_exp (softfloat_normSubnormalF16Sig (fracF16UI u)) else expF16UI u)"
  note results = propagateNaNF16 return_infF16 return_defaultNaNF16 return_zeroF16 ieee_result_zero
  show ?thesis
  proof (cases rule: decodeF16_cases [of uA])
    case NaN
    then show ?thesis unfolding ab defs by (cases rule: decodeF16_cases [of uB]) (simp_all add: results)
  next
    case Inf
    note A = this
    show ?thesis unfolding ab defs
      by (cases rule: decodeF16_cases [of uB]) (simp_all add: A mag0 results, auto simp: A mag0 results)
  next
    case Zero
    then show ?thesis unfolding ab defs
      by (cases rule: decodeF16_cases [of uB]) (simp_all add: mag0 [of uA, simplified] results)
  next
    case (Fin m i)
    note A = this
    show ?thesis
    proof (cases rule: decodeF16_cases [of uB])
      case NaN
      with A show ?thesis unfolding ab defs by (simp add: results)
    next
      case Inf
      with A show ?thesis unfolding ab defs by (auto simp: results mag0)
    next
      case Zero
      with A show ?thesis unfolding ab defs by (simp add: results)
    next
      case B: (Fin n j)
      obtain m' i' k where UA: "decode f16_fmt (unat uA) = Fin (signF16UI uA) m' i'"
        "unat (MA uA) = m' * 2 ^ k" "EA uA - 1 + (- 24) = i' - int k" "2 ^ 10 \<le> unat (MA uA)"
        "unat (MA uA) < 2 ^ 11" "- 10 \<le> EA uA" "EA uA < 0x1F"
        unfolding MA_def EA_def by (rule unpackF16 [OF A(1,2)])
      obtain n' j' l where UB: "decode f16_fmt (unat uB) = Fin (signF16UI uB) n' j'"
        "unat (MA uB) = n' * 2 ^ l" "EA uB - 1 + (- 24) = j' - int l" "2 ^ 10 \<le> unat (MA uB)"
        "unat (MA uB) < 2 ^ 11" "- 10 \<le> EA uB" "EA uB < 0x1F"
        unfolding MA_def EA_def by (rule unpackF16 [OF B(1,2)])
      have code: "f16_mul a b st = (let expZ = EA uA + EA uB - 0xF; sig32Z = push_bit 4 (MA uA) * push_bit 5 (MA uB);
        sigZ = drop_bit 16 sig32Z;
        sigZ = (if sig32Z AND 0xFFFF \<noteq> 0 then sigZ OR 1 else sigZ)
          in case (if sigZ < 0x4000 then (expZ - 1, push_bit 1 sigZ) else (expZ, sigZ)) of
            (expZ, sigZ) \<Rightarrow> softfloat_roundPackToF16 (signF16UI uA \<noteq> signF16UI uB) expZ sigZ st)"
        unfolding defs MA_def EA_def using A(1,2) B(1,2)
        by (cases "expF16UI uA = 0"; cases "expF16UI uB = 0")
          (simp_all only: if_True if_False prod.case simp_thms zero_neq_numeral)
      show ?thesis
        unfolding ab code UA(1) UB(1) using f16_mul_core [OF UA(4,5) UB(4,5) UA(2,3) UB(2,3) UA(6,7) UB(6,7)]
        by (simp add: Let_def)
    qed
  qed
qed

lemma f32_mul_core:
  assumes ranges: "2 ^ 23 \<le> unat MA" "unat MA < 2 ^ 24" "2 ^ 23 \<le> unat MB" "unat MB < 2 ^ 24"
    and a: "unat MA = m * 2 ^ k" "EA - 1 + (- 149) = i - int k"
    and b: "unat MB = n * 2 ^ l" "EB - 1 + (- 149) = j - int l"
    and e: "- 23 \<le> EA" "EA < 0xFF" "- 23 \<le> EB" "EB < 0xFF"
  defines "expZ \<equiv> EA + EB - 0x7F"
  shows "bits (let sigZ = softfloat_shortShiftRightJam64 (push_bit 7 MA * push_bit 8 MB) 32
      in case (if sigZ < 0x40000000 then (expZ - 1, push_bit 1 sigZ) else (expZ, sigZ)) of
        (expZ, sigZ) \<Rightarrow> softfloat_roundPackToF32 s expZ sigZ st) =
    ieee_result f32_fmt st s (m * n) (i + j)"
proof -
  define N where "N = unat MA * unat MB * 2 ^ 15"
  have pr: "2 ^ (23 + 23) \<le> unat MA * unat MB" "unat MA * unat MB < 2 ^ (Suc 23 + Suc 23)"
    using product_range [of 23 "unat MA" "unat MB"] ranges by simp_all
  have Nr: "2 ^ 61 \<le> N" "N < 2 ^ 63" using pr by (simp_all add: N_def)
  have P: "unat (push_bit 7 MA * push_bit 8 MB) = N"
    using Nr(2) ranges by (simp add: N_def unat_word_ariths unat_push)
  define sigZ where "sigZ = softfloat_shortShiftRightJam64 (push_bit 7 MA * push_bit 8 MB) 32"
  have jam: "unat sigZ = jam N (2 ^ 32)"
    unfolding sigZ_def by (subst unat_shortShiftRightJam64) (simp_all add: P)
  have "jam N (2 ^ 32) < 2 ^ 31" using Nr(2) by (intro jam_less) simp_all
  moreover have "2 ^ (31 - 2) \<le> jam N (2 ^ 32)" using Nr(1) by (intro jam_ge) simp_all
  moreover have "32 + 23 + 3 \<le> bitlen N" using Nr(1) by (subst bitlen_ge_iff) simp_all
  ultimately have "bits (if unat sigZ < 2 ^ (23 + 7) then softfloat_roundPackToF32 s (expZ - 1) (push_bit 1 sigZ) st
        else softfloat_roundPackToF32 s expZ sigZ st)
      = ieee_result f32_fmt st s N (pack_exp f32_fmt 7 expZ - int 32)"
    using e jam rp32.rp_half_jam [of sigZ N 32 expZ "pack_exp f32_fmt 7 expZ - int 32" s st]
    by (simp add: expZ_def)
  also have "\<dots> = ieee_result f32_fmt st s (m * n) (i + j)"
    unfolding N_def using a b by (intro ieee_result_product) (auto simp: expZ_def pack_exp_def)
  finally show ?thesis
    unfolding Let_def sigZ_def [symmetric] by (simp add: word_less_nat_alt split: if_splits)
qed

lemma f32_mul_ieee:
  "bits (f32_mul a b st) = fp_mul f32_fmt st (decode f32_fmt (unat a)) (decode f32_fmt (unat b))"
proof -
  define uA uB where "uA = (ucast a :: u64)" and "uB = (ucast b :: u64)"
  have ab: "unat a = unat uA" "unat b = unat uB" using unat_lt_32 [of a] unat_lt_32 [of b] by (simp_all add: uA_def uB_def unat_cast)
  note defs = f32_mul_def Let_def uA_def [symmetric] uB_def [symmetric]
  have mag0: "word_of_int (expF32UI u) OR fracF32UI u = 0 \<longleftrightarrow> expF32UI u = 0 \<and> fracF32UI u = 0" for u :: u64
    using unat_of_exp [of "expF32UI u", where 'a = 64] expF32_bounds [of u]
    by (auto simp: word_eq_nat unat_disj or_eq_0_iff)
  define MA where "MA = (\<lambda>u. (if expF32UI u = 0 then es_sig (softfloat_normSubnormalF32Sig (fracF32UI u)) else fracF32UI u) OR 0x00800000)"
  define EA where "EA = (\<lambda>u. if expF32UI u = 0 then es_exp (softfloat_normSubnormalF32Sig (fracF32UI u)) else expF32UI u)"
  note results = propagateNaNF32 return_infF32 return_defaultNaNF32 return_zeroF32 ieee_result_zero
  show ?thesis
  proof (cases rule: decodeF32_cases [of uA])
    case NaN
    then show ?thesis unfolding ab defs by (cases rule: decodeF32_cases [of uB]) (simp_all add: results)
  next
    case Inf
    note A = this
    show ?thesis unfolding ab defs
      by (cases rule: decodeF32_cases [of uB]) (simp_all add: A mag0 results, auto simp: A mag0 results)
  next
    case Zero
    then show ?thesis unfolding ab defs
      by (cases rule: decodeF32_cases [of uB]) (simp_all add: mag0 [of uA, simplified] results)
  next
    case (Fin m i)
    note A = this
    show ?thesis
    proof (cases rule: decodeF32_cases [of uB])
      case NaN
      with A show ?thesis unfolding ab defs by (simp add: results)
    next
      case Inf
      with A show ?thesis unfolding ab defs by (auto simp: results mag0)
    next
      case Zero
      with A show ?thesis unfolding ab defs by (simp add: results)
    next
      case B: (Fin n j)
      obtain m' i' k where UA: "decode f32_fmt (unat uA) = Fin (signF32UI uA) m' i'"
        "unat (MA uA) = m' * 2 ^ k" "EA uA - 1 + (- 149) = i' - int k" "2 ^ 23 \<le> unat (MA uA)"
        "unat (MA uA) < 2 ^ 24" "- 23 \<le> EA uA" "EA uA < 0xFF"
        unfolding MA_def EA_def by (rule unpackF32 [OF A(1,2)])
      obtain n' j' l where UB: "decode f32_fmt (unat uB) = Fin (signF32UI uB) n' j'"
        "unat (MA uB) = n' * 2 ^ l" "EA uB - 1 + (- 149) = j' - int l" "2 ^ 23 \<le> unat (MA uB)"
        "unat (MA uB) < 2 ^ 24" "- 23 \<le> EA uB" "EA uB < 0xFF"
        unfolding MA_def EA_def by (rule unpackF32 [OF B(1,2)])
      have code: "f32_mul a b st = (let expZ = EA uA + EA uB - 0x7F; sigZ = softfloat_shortShiftRightJam64 (push_bit 7 (MA uA) * push_bit 8 (MA uB)) 32
          in case (if sigZ < 0x40000000 then (expZ - 1, push_bit 1 sigZ) else (expZ, sigZ)) of
            (expZ, sigZ) \<Rightarrow> softfloat_roundPackToF32 (signF32UI uA \<noteq> signF32UI uB) expZ sigZ st)"
        unfolding defs MA_def EA_def using A(1,2) B(1,2)
        by (cases "expF32UI uA = 0"; cases "expF32UI uB = 0")
          (simp_all only: if_True if_False prod.case simp_thms zero_neq_numeral)
      show ?thesis
        unfolding ab code UA(1) UB(1) using f32_mul_core [OF UA(4,5) UB(4,5) UA(2,3) UB(2,3) UA(6,7) UB(6,7)]
        by (simp add: Let_def)
    qed
  qed
qed

lemma f64_mul_core:
  assumes ranges: "2 ^ 52 \<le> unat MA" "unat MA < 2 ^ 53" "2 ^ 52 \<le> unat MB" "unat MB < 2 ^ 53"
    and a: "unat MA = m * 2 ^ k" "EA - 1 + (- 1074) = i - int k"
    and b: "unat MB = n * 2 ^ l" "EB - 1 + (- 1074) = j - int l"
    and e: "- 52 \<le> EA" "EA < 0x7FF" "- 52 \<le> EB" "EB < 0x7FF"
  defines "expZ \<equiv> EA + EB - 0x3FF"
  shows "bits (let sig128Z = softfloat_mul64To128 (push_bit 10 MA) (push_bit 11 MB);
        sigZ = v64 sig128Z OR of_bool (v0 sig128Z \<noteq> 0)
      in case (if sigZ < 0x4000000000000000 then (expZ - 1, push_bit 1 sigZ) else (expZ, sigZ)) of
        (expZ, sigZ) \<Rightarrow> softfloat_roundPackToF64 s expZ sigZ st) =
    ieee_result f64_fmt st s (m * n) (i + j)"
proof -
  define N where "N = unat MA * unat MB * 2 ^ 21"
  have pr: "2 ^ (52 + 52) \<le> unat MA * unat MB" "unat MA * unat MB < 2 ^ (Suc 52 + Suc 52)"
    using product_range [of 52 "unat MA" "unat MB"] ranges by simp_all
  have Nr: "2 ^ 125 \<le> N" "N < 2 ^ 127" using pr by (simp_all add: N_def)
  define z where "z = softfloat_mul64To128 (push_bit 10 MA) (push_bit 11 MB)"
  have z: "unat (v64 z) * 2 ^ 64 + unat (v0 z) = N"
    using nat128_mul64To128 [of "push_bit 10 MA" "push_bit 11 MB"] ranges
    by (simp add: N_def unat_push nat128_def z_def)
  define sigZ where "sigZ = v64 z OR of_bool (v0 z \<noteq> 0)"
  have zz: "N div 2 ^ 64 = unat (v64 z)" "N mod 2 ^ 64 = unat (v0 z)"
    using unat_lt_64 [of "v0 z"] by (simp_all flip: z)
  have jam: "unat sigZ = jam N (2 ^ 64)"
    unfolding sigZ_def unat_or_truth jam_def zz word_eq_nat by simp
  have "jam N (2 ^ 64) < 2 ^ 63" using Nr(2) by (intro jam_less) simp_all
  moreover have "2 ^ (63 - 2) \<le> jam N (2 ^ 64)" using Nr(1) by (intro jam_ge) simp_all
  moreover have "64 + 52 + 3 \<le> bitlen N" using Nr(1) by (subst bitlen_ge_iff) simp_all
  ultimately have "bits (if unat sigZ < 2 ^ (52 + 10) then softfloat_roundPackToF64 s (expZ - 1) (push_bit 1 sigZ) st
        else softfloat_roundPackToF64 s expZ sigZ st)
      = ieee_result f64_fmt st s N (pack_exp f64_fmt 10 expZ - int 64)"
    using e jam rp64.rp_half_jam [of sigZ N 64 expZ "pack_exp f64_fmt 10 expZ - int 64" s st]
    by (simp add: expZ_def)
  also have "\<dots> = ieee_result f64_fmt st s (m * n) (i + j)"
    unfolding N_def using a b by (intro ieee_result_product) (auto simp: expZ_def pack_exp_def)
  finally show ?thesis
    unfolding Let_def z_def [symmetric] sigZ_def [symmetric] by (simp add: word_less_nat_alt split: if_splits)
qed

lemma f64_mul_ieee:
  "bits (f64_mul a b st) = fp_mul f64_fmt st (decode f64_fmt (unat a)) (decode f64_fmt (unat b))"
proof -
  define uA uB where "uA = (a :: u64)" and "uB = (b :: u64)"
  have ab: "unat a = unat uA" "unat b = unat uB" by (simp_all add: uA_def uB_def)
  note defs = f64_mul_def Let_def uA_def [symmetric] uB_def [symmetric]
  have mag0: "word_of_int (expF64UI u) OR fracF64UI u = 0 \<longleftrightarrow> expF64UI u = 0 \<and> fracF64UI u = 0" for u :: u64
    using unat_of_exp [of "expF64UI u", where 'a = 64] expF64_bounds [of u]
    by (auto simp: word_eq_nat unat_disj or_eq_0_iff)
  define MA where "MA = (\<lambda>u. (if expF64UI u = 0 then es_sig (softfloat_normSubnormalF64Sig (fracF64UI u)) else fracF64UI u) OR 0x0010000000000000)"
  define EA where "EA = (\<lambda>u. if expF64UI u = 0 then es_exp (softfloat_normSubnormalF64Sig (fracF64UI u)) else expF64UI u)"
  note results = propagateNaNF64 return_infF64 return_defaultNaNF64 return_zeroF64 ieee_result_zero
  show ?thesis
  proof (cases rule: decodeF64_cases [of uA])
    case NaN
    then show ?thesis unfolding ab defs by (cases rule: decodeF64_cases [of uB]) (simp_all add: results)
  next
    case Inf
    note A = this
    show ?thesis unfolding ab defs
      by (cases rule: decodeF64_cases [of uB]) (simp_all add: A mag0 results, auto simp: A mag0 results)
  next
    case Zero
    then show ?thesis unfolding ab defs
      by (cases rule: decodeF64_cases [of uB]) (simp_all add: mag0 [of uA, simplified] results)
  next
    case (Fin m i)
    note A = this
    show ?thesis
    proof (cases rule: decodeF64_cases [of uB])
      case NaN
      with A show ?thesis unfolding ab defs by (simp add: results)
    next
      case Inf
      with A show ?thesis unfolding ab defs by (auto simp: results mag0)
    next
      case Zero
      with A show ?thesis unfolding ab defs by (simp add: results)
    next
      case B: (Fin n j)
      obtain m' i' k where UA: "decode f64_fmt (unat uA) = Fin (signF64UI uA) m' i'"
        "unat (MA uA) = m' * 2 ^ k" "EA uA - 1 + (- 1074) = i' - int k" "2 ^ 52 \<le> unat (MA uA)"
        "unat (MA uA) < 2 ^ 53" "- 52 \<le> EA uA" "EA uA < 0x7FF"
        unfolding MA_def EA_def by (rule unpackF64 [OF A(1,2)])
      obtain n' j' l where UB: "decode f64_fmt (unat uB) = Fin (signF64UI uB) n' j'"
        "unat (MA uB) = n' * 2 ^ l" "EA uB - 1 + (- 1074) = j' - int l" "2 ^ 52 \<le> unat (MA uB)"
        "unat (MA uB) < 2 ^ 53" "- 52 \<le> EA uB" "EA uB < 0x7FF"
        unfolding MA_def EA_def by (rule unpackF64 [OF B(1,2)])
      have code: "f64_mul a b st = (let expZ = EA uA + EA uB - 0x3FF; sig128Z = softfloat_mul64To128 (push_bit 10 (MA uA)) (push_bit 11 (MA uB));
        sigZ = v64 sig128Z OR of_bool (v0 sig128Z \<noteq> 0)
          in case (if sigZ < 0x4000000000000000 then (expZ - 1, push_bit 1 sigZ) else (expZ, sigZ)) of
            (expZ, sigZ) \<Rightarrow> softfloat_roundPackToF64 (signF64UI uA \<noteq> signF64UI uB) expZ sigZ st)"
        unfolding defs MA_def EA_def using A(1,2) B(1,2)
        by (cases "expF64UI uA = 0"; cases "expF64UI uB = 0")
          (simp_all only: if_True if_False prod.case simp_thms zero_neq_numeral)
      show ?thesis
        unfolding ab code UA(1) UB(1) using f64_mul_core [OF UA(4,5) UB(4,5) UA(2,3) UB(2,3) UA(6,7) UB(6,7)]
        by (simp add: Let_def)
    qed
  qed
qed

section \<open>Properties\<close>

text \<open>C8: multiplication is correctly rounded in all three formats: for all operand patterns, every
  rounding mode and either detection of tininess, the result bits and the accumulated flags are those
  of the exact product rounded once, with the default NaN and the invalid flag for the
  undefined products.\<close>

theorem mul_correctly_rounded:
  "bits (f16_mul a b st) = fp_mul f16_fmt st (decode f16_fmt (unat a)) (decode f16_fmt (unat b)) \<and>
   bits (f32_mul c d st) = fp_mul f32_fmt st (decode f32_fmt (unat c)) (decode f32_fmt (unat d)) \<and>
   bits (f64_mul e f st) = fp_mul f64_fmt st (decode f64_fmt (unat e)) (decode f64_fmt (unat f))"
  by (simp add: f16_mul_ieee f32_mul_ieee f64_mul_ieee)

text \<open>Multiplication is commutative to the last bit, flags included, NaN operands too.\<close>

theorem mul_commutes:
  "f16_mul a b st = f16_mul b a st \<and> f32_mul c d st = f32_mul d c st \<and> f64_mul e f st = f64_mul f e st"
  by (intro conjI bits_inj)
    (simp_all only: f16_mul_ieee f32_mul_ieee f64_mul_ieee fp_mul_commute)

end
