(* ===== verification/SF_AddSub.thy ===== *)
theory SF_AddSub
  imports SF_Fields
begin

text \<open>
  Addition and subtraction (\<open>f16_add.c\<close>, \<open>f32_add.c\<close>, \<open>f64_add.c\<close>, \<open>f*_sub.c\<close>,
  \<open>s_addMagsF*.c\<close>, \<open>s_subMagsF*.c\<close>) and the proof that the 32-bit and 64-bit operations return the
  correctly rounded sum and difference, with the right flags, for all operands.
\<close>

section \<open>The 32-bit operations\<close>

definition softfloat_addMagsF32 :: "u64 \<Rightarrow> u64 \<Rightarrow> sf_state \<Rightarrow> float32_t \<times> sf_state" where
  "softfloat_addMagsF32 uiA uiB st =
     (let expA = expF32UI uiA; sigA = fracF32UI uiA;
          expB = expF32UI uiB; sigB = fracF32UI uiB;
          expDiff = expA - expB;
          propagateNaN = returnF32 (softfloat_propagateNaNF32UI uiA uiB st);
          signZ = signF32UI uiA;
          sum = (\<lambda>expZ sigA sigB.
            let sigZ = 0x20000000 + sigA + sigB;
                (expZ, sigZ) = (if sigZ < 0x40000000 then (expZ - 1, push_bit 1 sigZ) else (expZ, sigZ))
            in softfloat_roundPackToF32 signZ expZ sigZ st)
      in if expDiff = 0
         then if expA = 0 then returnF32 (uiA + sigB, st)
              else if expA = 0xFF
              then if sigA OR sigB \<noteq> 0 then propagateNaN else returnF32 (uiA, st)
              else let expZ = expA; sigZ = 0x01000000 + sigA + sigB
                   in if sigZ AND 1 = 0 \<and> expZ < 0xFE
                      then returnF32 (packToF32UI signZ expZ (drop_bit 1 sigZ), st)
                      else softfloat_roundPackToF32 signZ expZ (push_bit 6 sigZ) st
         else let sigA = push_bit 6 sigA; sigB = push_bit 6 sigB
              in if expDiff < 0
                 then if expB = 0xFF
                      then if sigB \<noteq> 0 then propagateNaN else returnF32 (packToF32UI signZ 0xFF 0, st)
                      else let sigA = sigA + (if expA \<noteq> 0 then 0x20000000 else sigA);
                               sigA = ucast (softfloat_shiftRightJam32 (ucast sigA) (word_of_int (- expDiff)))
                           in sum expB sigA sigB
                 else if expA = 0xFF
                      then if sigA \<noteq> 0 then propagateNaN else returnF32 (uiA, st)
                      else let sigB = sigB + (if expB \<noteq> 0 then 0x20000000 else sigB);
                               sigB = ucast (softfloat_shiftRightJam32 (ucast sigB) (word_of_int expDiff))
                           in sum expA sigA sigB)"

definition softfloat_subMagsF32 :: "u64 \<Rightarrow> u64 \<Rightarrow> sf_state \<Rightarrow> float32_t \<times> sf_state" where
  "softfloat_subMagsF32 uiA uiB st =
     (let expA = expF32UI uiA; sigA = fracF32UI uiA;
          expB = expF32UI uiB; sigB = fracF32UI uiB;
          expDiff = expA - expB;
          propagateNaN = returnF32 (softfloat_propagateNaNF32UI uiA uiB st);
          signZ = signF32UI uiA
      in if expDiff = 0
         then if expA = 0xFF
              then if sigA OR sigB \<noteq> 0 then propagateNaN
                   else returnF32 (defaultNaNF32UI, softfloat_raiseFlags softfloat_flag_invalid st)
              else let sigDiff = sint (sigA - sigB)
                   in if sigDiff = 0
                      then returnF32 (packToF32UI (softfloat_roundingMode st = softfloat_round_min) 0 0, st)
                      else let expA = (if expA \<noteq> 0 then expA - 1 else expA);
                               (signZ, sigDiff) = (if sigDiff < 0 then (\<not> signZ, - sigDiff) else (signZ, sigDiff));
                               shiftDist = int (unat (softfloat_countLeadingZeros32 (word_of_int sigDiff))) - 8;
                               expZ = expA - shiftDist;
                               (expZ, shiftDist) = (if expZ < 0 then (0, expA) else (expZ, shiftDist))
                           in returnF32 (packToF32UI signZ expZ (push_bit (nat shiftDist) (word_of_int sigDiff)), st)
         else let sigA = push_bit 7 sigA; sigB = push_bit 7 sigB
              in if expDiff < 0
                 then let signZ = (\<not> signZ)
                      in if expB = 0xFF
                         then if sigB \<noteq> 0 then propagateNaN else returnF32 (packToF32UI signZ 0xFF 0, st)
                         else let expZ = expB - 1;
                                  sigX = sigB OR 0x40000000;
                                  sigY = sigA + (if expA \<noteq> 0 then 0x40000000 else sigA);
                                  expDiff = - expDiff
                              in softfloat_normRoundPackToF32 signZ expZ
                                   (sigX - ucast (softfloat_shiftRightJam32 (ucast sigY) (word_of_int expDiff))) st
                 else if expA = 0xFF
                      then if sigA \<noteq> 0 then propagateNaN else returnF32 (uiA, st)
                      else let expZ = expA - 1;
                               sigX = sigA OR 0x40000000;
                               sigY = sigB + (if expB \<noteq> 0 then 0x40000000 else sigB)
                           in softfloat_normRoundPackToF32 signZ expZ
                                (sigX - ucast (softfloat_shiftRightJam32 (ucast sigY) (word_of_int expDiff))) st)"

definition f32_add :: "float32_t \<Rightarrow> float32_t \<Rightarrow> sf_state \<Rightarrow> float32_t \<times> sf_state" where
  "f32_add a b st =
     (let uiA = ucast a :: u64; uiB = ucast b :: u64
      in if signF32UI (uiA XOR uiB) then softfloat_subMagsF32 uiA uiB st
         else softfloat_addMagsF32 uiA uiB st)"

definition f32_sub :: "float32_t \<Rightarrow> float32_t \<Rightarrow> sf_state \<Rightarrow> float32_t \<times> sf_state" where
  "f32_sub a b st =
     (let uiA = ucast a :: u64; uiB = ucast b :: u64
      in if signF32UI (uiA XOR uiB) then softfloat_addMagsF32 uiA uiB st
         else softfloat_subMagsF32 uiA uiB st)"

section \<open>The 64-bit operations\<close>

definition softfloat_addMagsF64 :: "u64 \<Rightarrow> u64 \<Rightarrow> bool \<Rightarrow> sf_state \<Rightarrow> float64_t \<times> sf_state" where
  "softfloat_addMagsF64 uiA uiB signZ st =
     (let expA = expF64UI uiA; sigA = fracF64UI uiA;
          expB = expF64UI uiB; sigB = fracF64UI uiB;
          expDiff = expA - expB;
          propagateNaN = returnF64 (softfloat_propagateNaNF64UI uiA uiB st);
          sum = (\<lambda>expZ sigA sigB.
            let sigZ = 0x2000000000000000 + sigA + sigB;
                (expZ, sigZ) = (if sigZ < 0x4000000000000000 then (expZ - 1, push_bit 1 sigZ) else (expZ, sigZ))
            in softfloat_roundPackToF64 signZ expZ sigZ st)
      in if expDiff = 0
         then if expA = 0 then returnF64 (uiA + sigB, st)
              else if expA = 0x7FF
              then if sigA OR sigB \<noteq> 0 then propagateNaN else returnF64 (uiA, st)
              else let expZ = expA; sigZ = 0x0020000000000000 + sigA + sigB
                   in softfloat_roundPackToF64 signZ expZ (push_bit 9 sigZ) st
         else let sigA = push_bit 9 sigA; sigB = push_bit 9 sigB
              in if expDiff < 0
                 then if expB = 0x7FF
                      then if sigB \<noteq> 0 then propagateNaN else returnF64 (packToF64UI signZ 0x7FF 0, st)
                      else let sigA = (if expA \<noteq> 0 then sigA + 0x2000000000000000 else push_bit 1 sigA);
                               sigA = softfloat_shiftRightJam64 sigA (word_of_int (- expDiff))
                           in sum expB sigA sigB
                 else if expA = 0x7FF
                      then if sigA \<noteq> 0 then propagateNaN else returnF64 (uiA, st)
                      else let sigB = (if expB \<noteq> 0 then sigB + 0x2000000000000000 else push_bit 1 sigB);
                               sigB = softfloat_shiftRightJam64 sigB (word_of_int expDiff)
                           in sum expA sigA sigB)"

definition softfloat_subMagsF64 :: "u64 \<Rightarrow> u64 \<Rightarrow> bool \<Rightarrow> sf_state \<Rightarrow> float64_t \<times> sf_state" where
  "softfloat_subMagsF64 uiA uiB signZ st =
     (let expA = expF64UI uiA; sigA = fracF64UI uiA;
          expB = expF64UI uiB; sigB = fracF64UI uiB;
          expDiff = expA - expB;
          propagateNaN = returnF64 (softfloat_propagateNaNF64UI uiA uiB st)
      in if expDiff = 0
         then if expA = 0x7FF
              then if sigA OR sigB \<noteq> 0 then propagateNaN
                   else returnF64 (defaultNaNF64UI, softfloat_raiseFlags softfloat_flag_invalid st)
              else let sigDiff = sint (sigA - sigB)
                   in if sigDiff = 0
                      then returnF64 (packToF64UI (softfloat_roundingMode st = softfloat_round_min) 0 0, st)
                      else let expA = (if expA \<noteq> 0 then expA - 1 else expA);
                               (signZ, sigDiff) = (if sigDiff < 0 then (\<not> signZ, - sigDiff) else (signZ, sigDiff));
                               shiftDist = int (unat (softfloat_countLeadingZeros64 (word_of_int sigDiff))) - 11;
                               expZ = expA - shiftDist;
                               (expZ, shiftDist) = (if expZ < 0 then (0, expA) else (expZ, shiftDist))
                           in returnF64 (packToF64UI signZ expZ (push_bit (nat shiftDist) (word_of_int sigDiff)), st)
         else let sigA = push_bit 10 sigA; sigB = push_bit 10 sigB
              in if expDiff < 0
                 then let signZ = (\<not> signZ)
                      in if expB = 0x7FF
                         then if sigB \<noteq> 0 then propagateNaN else returnF64 (packToF64UI signZ 0x7FF 0, st)
                         else let sigA = sigA + (if expA \<noteq> 0 then 0x4000000000000000 else sigA);
                                  sigA = softfloat_shiftRightJam64 sigA (word_of_int (- expDiff));
                                  sigB = sigB OR 0x4000000000000000;
                                  expZ = expB;
                                  sigZ = sigB - sigA
                              in softfloat_normRoundPackToF64 signZ (expZ - 1) sigZ st
                 else if expA = 0x7FF
                      then if sigA \<noteq> 0 then propagateNaN else returnF64 (uiA, st)
                      else let sigB = sigB + (if expB \<noteq> 0 then 0x4000000000000000 else sigB);
                               sigB = softfloat_shiftRightJam64 sigB (word_of_int expDiff);
                               sigA = sigA OR 0x4000000000000000;
                               expZ = expA;
                               sigZ = sigA - sigB
                           in softfloat_normRoundPackToF64 signZ (expZ - 1) sigZ st)"

definition f64_add :: "float64_t \<Rightarrow> float64_t \<Rightarrow> sf_state \<Rightarrow> float64_t \<times> sf_state" where
  "f64_add a b st =
     (let uiA = a; signA = signF64UI uiA; uiB = b; signB = signF64UI uiB
      in if signA = signB then softfloat_addMagsF64 uiA uiB signA st
         else softfloat_subMagsF64 uiA uiB signA st)"

definition f64_sub :: "float64_t \<Rightarrow> float64_t \<Rightarrow> sf_state \<Rightarrow> float64_t \<times> sf_state" where
  "f64_sub a b st =
     (let uiA = a; signA = signF64UI uiA; uiB = b; signB = signF64UI uiB
      in if signA = signB then softfloat_subMagsF64 uiA uiB signA st
         else softfloat_addMagsF64 uiA uiB signA st)"

section \<open>Sums\<close>

lemma sint_diff_small:
  fixes a b :: u64
  assumes "unat a < 2 ^ 62" "unat b < 2 ^ 62"
  shows "sint (a - b) = int (unat a) - int (unat b)"
proof -
  have i: "int x < 4611686018427387904" if "x < 2 ^ 62" for x :: nat using that by simp
  have "sint (a - b) = sint (word_of_int (int (unat a) - int (unat b)) :: u64)"
    by (simp only: word_sub_wi uint_nat)
  also have "\<dots> = signed_take_bit 63 (int (unat a) - int (unat b))"
    using sint_sbintrunc' [of "int (unat a) - int (unat b)", where 'a = 64] by simp
  also have "\<dots> = int (unat a) - int (unat b)"
  proof (rule signed_take_bit_int_eq_self)
    have p: "(2 :: int) ^ 63 = 9223372036854775808" by simp
    show "- (2 ^ 63) \<le> int (unat a) - int (unat b)" "int (unat a) - int (unat b) < 2 ^ 63"
      unfolding p using i [OF assms(1)] i [OF assms(2)] by linarith+
  qed
  finally show ?thesis .
qed

lemma or_eq_0_word: "a OR b = 0 \<longleftrightarrow> a = 0 \<and> b = 0" for a b :: "'a::len word"
  by (metis or.left_neutral or.right_neutral or_eq_0_iff)

lemma add_coreF32:
  assumes lt: "expF32UI u < expF32UI v" "expF32UI v \<noteq> 0xFF"
    and sig: "unat sigZ = (2 ^ 23 + unat (fracF32UI v)) * 2 ^ 6 +
      jam (if expF32UI u = 0 then unat (fracF32UI u) * 2 ^ Suc 6 else (2 ^ 23 + unat (fracF32UI u)) * 2 ^ 6)
        (2 ^ nat (expF32UI v - expF32UI u))"
  shows "bits (if unat sigZ < 2 ^ (23 + 7)
      then softfloat_roundPackToF32 s (expF32UI v - 1) (push_bit 1 sigZ) st
      else softfloat_roundPackToF32 s (expF32UI v) sigZ st) =
    fp_add f32_fmt st (fp_sign s (decode f32_fmt (unat u))) (fp_sign s (decode f32_fmt (unat v)))"
proof -
  have u: "expF32UI u \<noteq> 0xFF" using lt expF32_bounds [of v] by simp
  have v: "expF32UI v \<noteq> 0" using lt expF32_bounds [of u] by simp
  define d where "d = nat (expF32UI v - expF32UI u)"
  have d: "expF32UI v = expF32UI u + int d" using lt by (simp add: d_def)
  obtain m c where U: "decode f32_fmt (unat u) = Fin (signF32UI u) m (expF32UI u - 1 + (- 149) - int 6 + int c)"
    "(if expF32UI u = 0 then unat (fracF32UI u) * 2 ^ Suc 6 else (2 ^ 23 + unat (fracF32UI u)) * 2 ^ 6) = m * 2 ^ c"
    using scaledF32 [OF u, of 6] .
  have V: "decode f32_fmt (unat v) = Fin (signF32UI v) (2 ^ 23 + unat (fracF32UI v)) (expF32UI v - 1 + (- 149))"
    using lt(2) v by (simp add: decodeF32)
  have Y: "m * 2 ^ c < 2 ^ (23 + 7)" using fracF32_bound [of u] by (simp flip: U(2))
  have k: "expF32UI v - 1 + (- 149) = (expF32UI u - 1 + (- 149) - int 6) + int (6 + d)"
    using d by simp
  have "fp_add f32_fmt st (fp_sign s (decode f32_fmt (unat u))) (fp_sign s (decode f32_fmt (unat v))) =
      ieee_result f32_fmt st s (m * 2 ^ c + (2 ^ 23 + unat (fracF32UI v)) * 2 ^ (6 + d))
        (expF32UI u - 1 + (- 149) - int 6)"
    unfolding U V fp_sign.simps fp_add.simps fin_add_aligned [OF refl k] by simp
  also have "m * 2 ^ c + (2 ^ 23 + unat (fracF32UI v)) * 2 ^ (6 + d) =
      (2 ^ 23 + unat (fracF32UI v)) * 2 ^ 6 * 2 ^ d + m * 2 ^ c"
    by (simp add: power_add mult.assoc)
  finally have spec: "fp_add f32_fmt st (fp_sign s (decode f32_fmt (unat u))) (fp_sign s (decode f32_fmt (unat v))) =
      ieee_result f32_fmt st s ((2 ^ 23 + unat (fracF32UI v)) * 2 ^ 6 * 2 ^ d + m * 2 ^ c)
        (expF32UI u - 1 + (- 149) - int 6)" .
  have "bits (if unat sigZ < 2 ^ (frac_bits f32_fmt + 7)
      then softfloat_roundPackToF32 s (expF32UI v - 1) (push_bit 1 sigZ) st
      else softfloat_roundPackToF32 s (expF32UI v) sigZ st) =
    ieee_result f32_fmt st s ((2 ^ 23 + unat (fracF32UI v)) * 2 ^ 6 * 2 ^ d + m * 2 ^ c)
        (expF32UI u - 1 + (- 149) - int 6)"
    using sig fracF32_bound [of v] expF32_bounds [of v] Y d
    unfolding U(2) d_def [symmetric]
    by (intro rp32.rp_sum) (simp_all add: pack_exp_def)
  then show ?thesis unfolding spec by simp
qed

lemma add_coreF64:
  assumes lt: "expF64UI u < expF64UI v" "expF64UI v \<noteq> 0x7FF"
    and sig: "unat sigZ = (2 ^ 52 + unat (fracF64UI v)) * 2 ^ 9 +
      jam (if expF64UI u = 0 then unat (fracF64UI u) * 2 ^ Suc 9 else (2 ^ 52 + unat (fracF64UI u)) * 2 ^ 9)
        (2 ^ nat (expF64UI v - expF64UI u))"
  shows "bits (if unat sigZ < 2 ^ (52 + 10)
      then softfloat_roundPackToF64 s (expF64UI v - 1) (push_bit 1 sigZ) st
      else softfloat_roundPackToF64 s (expF64UI v) sigZ st) =
    fp_add f64_fmt st (fp_sign s (decode f64_fmt (unat u))) (fp_sign s (decode f64_fmt (unat v)))"
proof -
  have u: "expF64UI u \<noteq> 0x7FF" using lt expF64_bounds [of v] by simp
  have v: "expF64UI v \<noteq> 0" using lt expF64_bounds [of u] by simp
  define d where "d = nat (expF64UI v - expF64UI u)"
  have d: "expF64UI v = expF64UI u + int d" using lt by (simp add: d_def)
  obtain m c where U: "decode f64_fmt (unat u) = Fin (signF64UI u) m (expF64UI u - 1 + (- 1074) - int 9 + int c)"
    "(if expF64UI u = 0 then unat (fracF64UI u) * 2 ^ Suc 9 else (2 ^ 52 + unat (fracF64UI u)) * 2 ^ 9) = m * 2 ^ c"
    using scaledF64 [OF u, of 9] .
  have V: "decode f64_fmt (unat v) = Fin (signF64UI v) (2 ^ 52 + unat (fracF64UI v)) (expF64UI v - 1 + (- 1074))"
    using lt(2) v by (simp add: decodeF64)
  have Y: "m * 2 ^ c < 2 ^ (52 + 10)" using fracF64_bound [of u] by (simp flip: U(2))
  have k: "expF64UI v - 1 + (- 1074) = (expF64UI u - 1 + (- 1074) - int 9) + int (9 + d)"
    using d by simp
  have "fp_add f64_fmt st (fp_sign s (decode f64_fmt (unat u))) (fp_sign s (decode f64_fmt (unat v))) =
      ieee_result f64_fmt st s (m * 2 ^ c + (2 ^ 52 + unat (fracF64UI v)) * 2 ^ (9 + d))
        (expF64UI u - 1 + (- 1074) - int 9)"
    unfolding U V fp_sign.simps fp_add.simps fin_add_aligned [OF refl k] by simp
  also have "m * 2 ^ c + (2 ^ 52 + unat (fracF64UI v)) * 2 ^ (9 + d) =
      (2 ^ 52 + unat (fracF64UI v)) * 2 ^ 9 * 2 ^ d + m * 2 ^ c"
    by (simp add: power_add mult.assoc)
  finally have spec: "fp_add f64_fmt st (fp_sign s (decode f64_fmt (unat u))) (fp_sign s (decode f64_fmt (unat v))) =
      ieee_result f64_fmt st s ((2 ^ 52 + unat (fracF64UI v)) * 2 ^ 9 * 2 ^ d + m * 2 ^ c)
        (expF64UI u - 1 + (- 1074) - int 9)" .
  have "bits (if unat sigZ < 2 ^ (frac_bits f64_fmt + 10)
      then softfloat_roundPackToF64 s (expF64UI v - 1) (push_bit 1 sigZ) st
      else softfloat_roundPackToF64 s (expF64UI v) sigZ st) =
    ieee_result f64_fmt st s ((2 ^ 52 + unat (fracF64UI v)) * 2 ^ 9 * 2 ^ d + m * 2 ^ c)
        (expF64UI u - 1 + (- 1074) - int 9)"
    using sig fracF64_bound [of v] expF64_bounds [of v] Y d
    unfolding U(2) d_def [symmetric]
    by (intro rp64.rp_sum) (simp_all add: pack_exp_def)
  then show ?thesis unfolding spec by simp
qed

lemma returnsF32:
  "bits (returnF32 (softfloat_propagateNaNF32UI uiA uiB st)) =
    nan_result f32_fmt st (softfloat_isSigNaNF32UI uiA \<or> softfloat_isSigNaNF32UI uiB)"
  "bits (returnF32 (packToF32UI sign 0xFF 0, st)) = inf_result f32_fmt st sign"
  "bits (returnF32 (packToF32UI sign 0 0, st)) = zero_result f32_fmt st sign"
  "bits (returnF32 (defaultNaNF32UI, softfloat_raiseFlags softfloat_flag_invalid st)) = nan_result f32_fmt st True"
  by (rule propagateNaNF32 return_infF32 return_zeroF32 return_defaultNaNF32)+

lemma return_infiniteF32:
  assumes "unat u < 2 ^ 32" "expF32UI u = 0xFF" "fracF32UI u = 0"
  shows "bits (returnF32 (u, st)) = inf_result f32_fmt st (signF32UI u)"
  using patternF32 [OF assms(1)] assms
  by (cases "signF32UI u") (simp_all add: bits_def returnF32_def inf_result_def inf_mag_def sign_weight_def unat_cast)

lemma shifted_fracF32: "push_bit 6 (fracF32UI u) = 0 \<longleftrightarrow> fracF32UI u = 0"
  using fracF32_bound [of u] by (simp add: word_eq_nat unat_push)

lemma aligned_boundF32:
  "0 < d \<Longrightarrow> jam (if expF32UI u = 0 then unat (fracF32UI u) * 2 ^ Suc 6 else (2 ^ 23 + unat (fracF32UI u)) * 2 ^ 6) (2 ^ d)
    < 2 ^ (23 + 7)"
proof -
  assume "0 < d"
  then have "(2 :: nat) ^ 1 \<le> 2 ^ d" by (intro power_increasing) simp_all
  then have "2 * 2 ^ (23 + 7) \<le> 2 ^ d * (2 :: nat) ^ (23 + 7)" by simp
  then show ?thesis using fracF32_bound [of u] by (intro jam_less) (simp_all split: if_splits)
qed

lemma alignedF32:
  assumes "0 < D" "D < 10000"
  shows "unat (ucast (softfloat_shiftRightJam32 (ucast (push_bit 6 (fracF32UI u) + (if expF32UI u \<noteq> 0 then 0x20000000 else push_bit 6 (fracF32UI u)))) (word_of_int D)) :: u64) =
    jam (if expF32UI u = 0 then unat (fracF32UI u) * 2 ^ Suc 6 else (2 ^ 23 + unat (fracF32UI u)) * 2 ^ 6)
      (2 ^ nat D)"
proof -
  define y :: u64 where "y = (push_bit 6 (fracF32UI u) + (if expF32UI u \<noteq> 0 then 0x20000000 else push_bit 6 (fracF32UI u)))"
  define d :: u64 where "d = word_of_int D"
  have y: "unat y = (if expF32UI u = 0 then unat (fracF32UI u) * 2 ^ Suc 6 else (2 ^ 23 + unat (fracF32UI u)) * 2 ^ 6)"
    using fracF32_bound [of u] by (simp add: y_def unat_word_ariths unat_push)
  have d: "unat d = nat D" "0 < d" using assms by (simp_all add: d_def unat_of_exp word_less_nat_alt)
  have "unat y < 2 ^ (23 + 7)" using fracF32_bound [of u] by (simp add: y)
  then show ?thesis
    unfolding y_def [symmetric] d_def [symmetric] y [symmetric]
    using unat_shiftRightJam32 [OF d(2)] d(1) unat_lt_32 [of "softfloat_shiftRightJam32 (ucast y) d"] by (simp add: unat_cast)
qed

lemma fp_sign_selfF32: "fp_sign (signF32UI u) (decode f32_fmt (unat u)) = decode f32_fmt (unat u)"
  by (simp add: decodeF32)

lemma addMagsF32_equal:
  assumes e: "expF32UI uiA = expF32UI uiB" "expF32UI uiA \<noteq> 0xFF" and lt: "unat uiA < 2 ^ 32" 
  shows "bits (softfloat_addMagsF32 uiA uiB st) =
    fp_add f32_fmt st (fp_sign (signF32UI uiA) (decode f32_fmt (unat uiA))) (fp_sign (signF32UI uiA) (decode f32_fmt (unat uiB)))"
proof (cases "expF32UI uiA = 0")
  case True
  define fA fB where "fA = unat (fracF32UI uiA)" and "fB = unat (fracF32UI uiB)"
  have f: "fA < 2 ^ 23" "fB < 2 ^ 23" using fracF32_bound by (simp_all add: fA_def fB_def)
  have "unat (uiA + fracF32UI uiB) = of_bool (signF32UI uiA) * 2 ^ 31 + (fA + fB)"
    using patternF32 [OF lt] True f 
    by (cases "signF32UI uiA") (simp_all add: unat_word_ariths fA_def fB_def)
  then have "bits (returnF32 (uiA + fracF32UI uiB, st)) = (of_bool (signF32UI uiA) * 2 ^ 31 + (fA + fB), st)"
    using f by (cases "signF32UI uiA") (simp_all add: bits_def returnF32_def unat_cast)
  moreover have "bits (softfloat_addMagsF32 uiA uiB st) = bits (returnF32 (uiA + fracF32UI uiB, st))"
    using True e by (simp add: softfloat_addMagsF32_def Let_def)
  moreover have "fp_add f32_fmt st (fp_sign (signF32UI uiA) (decode f32_fmt (unat uiA))) (fp_sign (signF32UI uiA) (decode f32_fmt (unat uiB))) =
      ieee_result f32_fmt st (signF32UI uiA) (fA + fB) (lsb_exp f32_fmt)"
    using True e by (simp add: decodeF32 fin_add.simps fA_def fB_def)
  ultimately show ?thesis
    using f ieee_result_small [of "fA + fB" f32_fmt st "signF32UI uiA"] by (simp add: sign_weight_def)
next
  case False
  define fA fB where "fA = unat (fracF32UI uiA)" and "fB = unat (fracF32UI uiB)"
  define S where "S = 0x01000000 + fracF32UI uiA + fracF32UI uiB"
  have f: "fA < 2 ^ 23" "fB < 2 ^ 23" using fracF32_bound by (simp_all add: fA_def fB_def)
  have S: "unat S = 2 ^ Suc 23 + fA + fB" using f by (simp add: S_def unat_word_ariths fA_def fB_def)
  have S6: "unat (push_bit 6 S) = unat S * 2 ^ 6" using S f by (simp add: unat_push)
  have spec: "fp_add f32_fmt st (fp_sign (signF32UI uiA) (decode f32_fmt (unat uiA))) (fp_sign (signF32UI uiA) (decode f32_fmt (unat uiB))) =
      ieee_result f32_fmt st (signF32UI uiA) (unat S) (expF32UI uiA - 1 + (- 149))"
    using False e by (simp add: decodeF32 fin_add.simps S fA_def fB_def add.assoc)
  also have "\<dots> = ieee_result f32_fmt st (signF32UI uiA) (unat S * 2 ^ 6) (pack_exp f32_fmt 7 (expF32UI uiA))"
    using ieee_result_double [of f32_fmt st "signF32UI uiA" "unat S" 6 "expF32UI uiA - 1 + (- 149)"] by (simp add: pack_exp_def algebra_simps)
  finally have spec: "fp_add f32_fmt st (fp_sign (signF32UI uiA) (decode f32_fmt (unat uiA))) (fp_sign (signF32UI uiA) (decode f32_fmt (unat uiB))) =
      ieee_result f32_fmt st (signF32UI uiA) (unat S * 2 ^ 6) (pack_exp f32_fmt 7 (expF32UI uiA))" .
  have slow: "bits (softfloat_roundPackToF32 (signF32UI uiA) (expF32UI uiA) (push_bit 6 S) st) =
      ieee_result f32_fmt st (signF32UI uiA) (unat S * 2 ^ 6) (pack_exp f32_fmt 7 (expF32UI uiA))"
    using rp32.rp_ieee [of "push_bit 6 S" "expF32UI uiA" "signF32UI uiA" st] expF32_bounds [of uiA] S f
    by (simp add: S6)
  show ?thesis
  proof (cases "S AND 1 = 0 \<and> expF32UI uiA < 0xFE")
    case True
    define q where "q = unat S div 2"
    have "even (unat S)" using True by (simp add: word_eq_nat unat_conj bits_nat even_iff_mod_2_eq_zero)
    then have q: "unat S = q * 2" by (auto simp: q_def elim!: evenE)
    have h: "unat (drop_bit 1 S) = q" by (simp add: unat_drop q_def)
    have qb: "2 ^ 23 \<le> q" "q < 2 ^ 24" using S f by (simp_all add: q_def)
    have "bits (returnF32 (packToF32UI (signF32UI uiA) (expF32UI uiA) (drop_bit 1 S), st)) =
        ieee_result f32_fmt st (signF32UI uiA) (q * 2 ^ 7) (pack_exp f32_fmt 7 (expF32UI uiA))"
    proof -
      have e2: "0 \<le> expF32UI uiA" "expF32UI uiA < 254" using True expF32_bounds [of uiA] by simp_all
      then have "nat (expF32UI uiA) \<le> 253" by simp
      then have "bits (returnF32 (packToF32UI (signF32UI uiA) (expF32UI uiA) (drop_bit 1 S), st)) =
          (of_bool (signF32UI uiA) * sign_weight f32_fmt + (nat (expF32UI uiA) * 2 ^ 23 + q), st)"
        using e2 qb by (subst return_packF32) (simp_all add: h [unfolded One_nat_def])
      moreover have "ieee_result f32_fmt st (signF32UI uiA) (q * 2 ^ 7) (pack_exp f32_fmt 7 (expF32UI uiA)) =
          (of_bool (signF32UI uiA) * sign_weight f32_fmt + (nat (expF32UI uiA) * 2 ^ frac_bits f32_fmt + q), st)"
        using e2 qb by (intro ieee_result_exact) simp_all
      ultimately show ?thesis by simp
    qed
    moreover have "softfloat_addMagsF32 uiA uiB st =
        returnF32 (packToF32UI (signF32UI uiA) (expF32UI uiA) (drop_bit 1 S), st)"
      using False e True by (simp add: softfloat_addMagsF32_def Let_def S_def)
    ultimately show ?thesis unfolding spec by (simp add: q mult.commute)
  next
    case no: False
    have "softfloat_addMagsF32 uiA uiB st =
        softfloat_roundPackToF32 (signF32UI uiA) (expF32UI uiA) (push_bit 6 S) st"
      using False e no by (simp only: softfloat_addMagsF32_def Let_def S_def) auto
    then show ?thesis unfolding spec slow [symmetric] by simp
  qed
qed

lemma addMagsF32_ieee:
  assumes lt: "unat uiA < 2 ^ 32" 
  shows "bits (softfloat_addMagsF32 uiA uiB st) =
    fp_add f32_fmt st (fp_sign (signF32UI uiA) (decode f32_fmt (unat uiA))) (fp_sign (signF32UI uiA) (decode f32_fmt (unat uiB)))"
proof -
  note code = softfloat_addMagsF32_def Let_def
  consider "expF32UI uiA = 0xFF \<or> expF32UI uiB = 0xFF"
    | "expF32UI uiA = expF32UI uiB" "expF32UI uiA \<noteq> 0xFF"
    | "expF32UI uiA < expF32UI uiB" "expF32UI uiB \<noteq> 0xFF" | "expF32UI uiB < expF32UI uiA" "expF32UI uiA \<noteq> 0xFF"
    by linarith
  then show ?thesis
  proof cases
    case 1
    then show ?thesis
      using expF32_bounds(2) [of uiA] expF32_bounds(2) [of uiB]
      by (cases rule: decodeF32_cases [of uiA]; cases rule: decodeF32_cases [of uiB])
        (simp_all add: code returnsF32 shifted_fracF32 or_eq_0_word return_infiniteF32 [OF lt] )
  next
    case 2
    then show ?thesis using lt  by (intro addMagsF32_equal)
  next
    case 3
    define D where "D = expF32UI uiB - expF32UI uiA"
    have D: "0 < D" "D < 10000" using 3 expF32_bounds [of uiA] expF32_bounds [of uiB] by (simp_all add: D_def)
    define sigY where "sigY = (ucast (softfloat_shiftRightJam32 (ucast (push_bit 6 (fracF32UI uiA) + (if expF32UI uiA \<noteq> 0 then 0x20000000 else push_bit 6 (fracF32UI uiA)))) (word_of_int D)) :: u64)"
    define sigZ where "sigZ = 0x20000000 + sigY + push_bit 6 (fracF32UI uiB)"
    have Y: "unat sigY < 2 ^ (23 + 7)" unfolding sigY_def alignedF32 [OF D] using D by (intro aligned_boundF32) simp
    have Z: "unat sigZ = (2 ^ 23 + unat (fracF32UI uiB)) * 2 ^ 6 + unat sigY"
      using Y fracF32_bound [of uiB] by (simp add: sigZ_def unat_word_ariths unat_push)
    have "softfloat_addMagsF32 uiA uiB st = (if unat sigZ < 2 ^ (23 + 7)
      then softfloat_roundPackToF32 (signF32UI uiA) (expF32UI uiB - 1) (push_bit 1 sigZ) st
      else softfloat_roundPackToF32 (signF32UI uiA) (expF32UI uiB) sigZ st)"
      using 3 by (simp add: code D_def [symmetric] word_less_nat_alt sigZ_def sigY_def)
    then show ?thesis
      using add_coreF32 [OF 3, of sigZ "signF32UI uiA" st] Z by (simp add: sigY_def alignedF32 [OF D] flip: D_def)
  next
    case 4
    define D where "D = expF32UI uiA - expF32UI uiB"
    have D: "0 < D" "D < 10000" using 4 expF32_bounds [of uiA] expF32_bounds [of uiB] by (simp_all add: D_def)
    define sigY where "sigY = (ucast (softfloat_shiftRightJam32 (ucast (push_bit 6 (fracF32UI uiB) + (if expF32UI uiB \<noteq> 0 then 0x20000000 else push_bit 6 (fracF32UI uiB)))) (word_of_int D)) :: u64)"
    define sigZ where "sigZ = 0x20000000 + push_bit 6 (fracF32UI uiA) + sigY"
    have Y: "unat sigY < 2 ^ (23 + 7)" unfolding sigY_def alignedF32 [OF D] using D by (intro aligned_boundF32) simp
    have Z: "unat sigZ = (2 ^ 23 + unat (fracF32UI uiA)) * 2 ^ 6 + unat sigY"
      using Y fracF32_bound [of uiA] by (simp add: sigZ_def unat_word_ariths unat_push)
    have "softfloat_addMagsF32 uiA uiB st = (if unat sigZ < 2 ^ (23 + 7)
      then softfloat_roundPackToF32 (signF32UI uiA) (expF32UI uiA - 1) (push_bit 1 sigZ) st
      else softfloat_roundPackToF32 (signF32UI uiA) (expF32UI uiA) sigZ st)"
      using 4 D by (simp add: code D_def [symmetric] word_less_nat_alt sigZ_def sigY_def)
    then show ?thesis
      using add_coreF32 [OF 4, of sigZ "signF32UI uiA" st] Z
      by (simp add: sigY_def alignedF32 [OF D] fp_add_commute [of _ _ "fp_sign (signF32UI uiA) (decode f32_fmt (unat uiA))"] flip: D_def)
  qed
qed

lemma returnsF64:
  "bits (returnF64 (softfloat_propagateNaNF64UI uiA uiB st)) =
    nan_result f64_fmt st (softfloat_isSigNaNF64UI uiA \<or> softfloat_isSigNaNF64UI uiB)"
  "bits (returnF64 (packToF64UI sign 0x7FF 0, st)) = inf_result f64_fmt st sign"
  "bits (returnF64 (packToF64UI sign 0 0, st)) = zero_result f64_fmt st sign"
  "bits (returnF64 (defaultNaNF64UI, softfloat_raiseFlags softfloat_flag_invalid st)) = nan_result f64_fmt st True"
  by (rule propagateNaNF64 return_infF64 return_zeroF64 return_defaultNaNF64)+

lemma return_infiniteF64:
  assumes "unat u < 2 ^ 64" "expF64UI u = 0x7FF" "fracF64UI u = 0"
  shows "bits (returnF64 (u, st)) = inf_result f64_fmt st (signF64UI u)"
  using patternF64 [OF assms(1)] assms
  by (cases "signF64UI u") (simp_all add: bits_def returnF64_def inf_result_def inf_mag_def sign_weight_def unat_cast)

lemma shifted_fracF64: "push_bit 9 (fracF64UI u) = 0 \<longleftrightarrow> fracF64UI u = 0"
  using fracF64_bound [of u] by (simp add: word_eq_nat unat_push)

lemma aligned_boundF64:
  "0 < d \<Longrightarrow> jam (if expF64UI u = 0 then unat (fracF64UI u) * 2 ^ Suc 9 else (2 ^ 52 + unat (fracF64UI u)) * 2 ^ 9) (2 ^ d)
    < 2 ^ (52 + 10)"
proof -
  assume "0 < d"
  then have "(2 :: nat) ^ 1 \<le> 2 ^ d" by (intro power_increasing) simp_all
  then have "2 * 2 ^ (52 + 10) \<le> 2 ^ d * (2 :: nat) ^ (52 + 10)" by simp
  then show ?thesis using fracF64_bound [of u] by (intro jam_less) (simp_all split: if_splits)
qed

lemma alignedF64:
  assumes "0 < D" "D < 10000"
  shows "unat (softfloat_shiftRightJam64 (if expF64UI u \<noteq> 0 then push_bit 9 (fracF64UI u) + 0x2000000000000000 else push_bit 1 (push_bit 9 (fracF64UI u))) (word_of_int D)) =
    jam (if expF64UI u = 0 then unat (fracF64UI u) * 2 ^ Suc 9 else (2 ^ 52 + unat (fracF64UI u)) * 2 ^ 9)
      (2 ^ nat D)"
proof -
  define y :: u64 where "y = (if expF64UI u \<noteq> 0 then push_bit 9 (fracF64UI u) + 0x2000000000000000 else push_bit 1 (push_bit 9 (fracF64UI u)))"
  define d :: u64 where "d = word_of_int D"
  have y: "unat y = (if expF64UI u = 0 then unat (fracF64UI u) * 2 ^ Suc 9 else (2 ^ 52 + unat (fracF64UI u)) * 2 ^ 9)"
    using fracF64_bound [of u] by (simp add: y_def unat_word_ariths unat_push)
  have d: "unat d = nat D" "0 < d" using assms by (simp_all add: d_def unat_of_exp word_less_nat_alt)
  have "unat y < 2 ^ (52 + 10)" using fracF64_bound [of u] by (simp add: y)
  then show ?thesis
    unfolding y_def [symmetric] d_def [symmetric] y [symmetric]
    using unat_shiftRightJam64 [OF d(2)] d(1)  by (simp add: unat_cast)
qed

lemma fp_sign_selfF64: "fp_sign (signF64UI u) (decode f64_fmt (unat u)) = decode f64_fmt (unat u)"
  by (simp add: decodeF64)

lemma addMagsF64_equal:
  assumes e: "expF64UI uiA = expF64UI uiB" "expF64UI uiA \<noteq> 0x7FF" and lt: "unat uiA < 2 ^ 64" and sg: "signZ = signF64UI uiA"
  shows "bits (softfloat_addMagsF64 uiA uiB signZ st) =
    fp_add f64_fmt st (fp_sign (signZ) (decode f64_fmt (unat uiA))) (fp_sign (signZ) (decode f64_fmt (unat uiB)))"
proof (cases "expF64UI uiA = 0")
  case True
  define fA fB where "fA = unat (fracF64UI uiA)" and "fB = unat (fracF64UI uiB)"
  have f: "fA < 2 ^ 52" "fB < 2 ^ 52" using fracF64_bound by (simp_all add: fA_def fB_def)
  have "unat (uiA + fracF64UI uiB) = of_bool (signZ) * 2 ^ 63 + (fA + fB)"
    using patternF64 [OF lt] True f sg
    by (cases "signF64UI uiA") (simp_all add: unat_word_ariths fA_def fB_def)
  then have "bits (returnF64 (uiA + fracF64UI uiB, st)) = (of_bool (signZ) * 2 ^ 63 + (fA + fB), st)"
    using f by (cases "signZ") (simp_all add: bits_def returnF64_def unat_cast)
  moreover have "bits (softfloat_addMagsF64 uiA uiB signZ st) = bits (returnF64 (uiA + fracF64UI uiB, st))"
    using True e by (simp add: softfloat_addMagsF64_def Let_def)
  moreover have "fp_add f64_fmt st (fp_sign (signZ) (decode f64_fmt (unat uiA))) (fp_sign (signZ) (decode f64_fmt (unat uiB))) =
      ieee_result f64_fmt st (signZ) (fA + fB) (lsb_exp f64_fmt)"
    using True e by (simp add: decodeF64 fin_add.simps fA_def fB_def)
  ultimately show ?thesis
    using f ieee_result_small [of "fA + fB" f64_fmt st "signZ"] by (simp add: sign_weight_def)
next
  case False
  define fA fB where "fA = unat (fracF64UI uiA)" and "fB = unat (fracF64UI uiB)"
  define S where "S = 0x0020000000000000 + fracF64UI uiA + fracF64UI uiB"
  have f: "fA < 2 ^ 52" "fB < 2 ^ 52" using fracF64_bound by (simp_all add: fA_def fB_def)
  have S: "unat S = 2 ^ Suc 52 + fA + fB" using f by (simp add: S_def unat_word_ariths fA_def fB_def)
  have S6: "unat (push_bit 9 S) = unat S * 2 ^ 9" using S f by (simp add: unat_push)
  have spec: "fp_add f64_fmt st (fp_sign (signZ) (decode f64_fmt (unat uiA))) (fp_sign (signZ) (decode f64_fmt (unat uiB))) =
      ieee_result f64_fmt st (signZ) (unat S) (expF64UI uiA - 1 + (- 1074))"
    using False e by (simp add: decodeF64 fin_add.simps S fA_def fB_def add.assoc)
  also have "\<dots> = ieee_result f64_fmt st (signZ) (unat S * 2 ^ 9) (pack_exp f64_fmt 10 (expF64UI uiA))"
    using ieee_result_double [of f64_fmt st "signZ" "unat S" 9 "expF64UI uiA - 1 + (- 1074)"] by (simp add: pack_exp_def algebra_simps)
  finally have spec: "fp_add f64_fmt st (fp_sign (signZ) (decode f64_fmt (unat uiA))) (fp_sign (signZ) (decode f64_fmt (unat uiB))) =
      ieee_result f64_fmt st (signZ) (unat S * 2 ^ 9) (pack_exp f64_fmt 10 (expF64UI uiA))" .
  have slow: "bits (softfloat_roundPackToF64 (signZ) (expF64UI uiA) (push_bit 9 S) st) =
      ieee_result f64_fmt st (signZ) (unat S * 2 ^ 9) (pack_exp f64_fmt 10 (expF64UI uiA))"
    using rp64.rp_ieee [of "push_bit 9 S" "expF64UI uiA" "signZ" st] expF64_bounds [of uiA] S f
    by (simp add: S6)
  have "softfloat_addMagsF64 uiA uiB signZ st =
        softfloat_roundPackToF64 signZ (expF64UI uiA) (push_bit 9 S) st"
      using False e by (simp only: softfloat_addMagsF64_def Let_def S_def) auto
  then show ?thesis unfolding spec slow [symmetric] by simp
qed

lemma addMagsF64_ieee:
  assumes lt: "unat uiA < 2 ^ 64" and sg: "signZ = signF64UI uiA"
  shows "bits (softfloat_addMagsF64 uiA uiB signZ st) =
    fp_add f64_fmt st (fp_sign (signZ) (decode f64_fmt (unat uiA))) (fp_sign (signZ) (decode f64_fmt (unat uiB)))"
proof -
  note code = softfloat_addMagsF64_def Let_def
  consider "expF64UI uiA = 0x7FF \<or> expF64UI uiB = 0x7FF"
    | "expF64UI uiA = expF64UI uiB" "expF64UI uiA \<noteq> 0x7FF"
    | "expF64UI uiA < expF64UI uiB" "expF64UI uiB \<noteq> 0x7FF" | "expF64UI uiB < expF64UI uiA" "expF64UI uiA \<noteq> 0x7FF"
    by linarith
  then show ?thesis
  proof cases
    case 1
    then show ?thesis
      using expF64_bounds(2) [of uiA] expF64_bounds(2) [of uiB]
      by (cases rule: decodeF64_cases [of uiA]; cases rule: decodeF64_cases [of uiB])
        (simp_all add: code returnsF64 shifted_fracF64 or_eq_0_word return_infiniteF64 [OF lt] sg)
  next
    case 2
    then show ?thesis using lt sg by (intro addMagsF64_equal)
  next
    case 3
    define D where "D = expF64UI uiB - expF64UI uiA"
    have D: "0 < D" "D < 10000" using 3 expF64_bounds [of uiA] expF64_bounds [of uiB] by (simp_all add: D_def)
    define sigY where "sigY = (softfloat_shiftRightJam64 (if expF64UI uiA \<noteq> 0 then push_bit 9 (fracF64UI uiA) + 0x2000000000000000 else push_bit 1 (push_bit 9 (fracF64UI uiA))) (word_of_int D))"
    define sigZ where "sigZ = 0x2000000000000000 + sigY + push_bit 9 (fracF64UI uiB)"
    have Y: "unat sigY < 2 ^ (52 + 10)" unfolding sigY_def alignedF64 [OF D] using D by (intro aligned_boundF64) simp
    have Z: "unat sigZ = (2 ^ 52 + unat (fracF64UI uiB)) * 2 ^ 9 + unat sigY"
      using Y fracF64_bound [of uiB] by (simp add: sigZ_def unat_word_ariths unat_push)
    have "softfloat_addMagsF64 uiA uiB signZ st = (if unat sigZ < 2 ^ (52 + 10)
      then softfloat_roundPackToF64 (signZ) (expF64UI uiB - 1) (push_bit 1 sigZ) st
      else softfloat_roundPackToF64 (signZ) (expF64UI uiB) sigZ st)"
      using 3 by (simp add: code D_def [symmetric] word_less_nat_alt sigZ_def sigY_def)
    then show ?thesis
      using add_coreF64 [OF 3, of sigZ "signZ" st] Z by (simp add: sigY_def alignedF64 [OF D] flip: D_def)
  next
    case 4
    define D where "D = expF64UI uiA - expF64UI uiB"
    have D: "0 < D" "D < 10000" using 4 expF64_bounds [of uiA] expF64_bounds [of uiB] by (simp_all add: D_def)
    define sigY where "sigY = (softfloat_shiftRightJam64 (if expF64UI uiB \<noteq> 0 then push_bit 9 (fracF64UI uiB) + 0x2000000000000000 else push_bit 1 (push_bit 9 (fracF64UI uiB))) (word_of_int D))"
    define sigZ where "sigZ = 0x2000000000000000 + push_bit 9 (fracF64UI uiA) + sigY"
    have Y: "unat sigY < 2 ^ (52 + 10)" unfolding sigY_def alignedF64 [OF D] using D by (intro aligned_boundF64) simp
    have Z: "unat sigZ = (2 ^ 52 + unat (fracF64UI uiA)) * 2 ^ 9 + unat sigY"
      using Y fracF64_bound [of uiA] by (simp add: sigZ_def unat_word_ariths unat_push)
    have "softfloat_addMagsF64 uiA uiB signZ st = (if unat sigZ < 2 ^ (52 + 10)
      then softfloat_roundPackToF64 (signZ) (expF64UI uiA - 1) (push_bit 1 sigZ) st
      else softfloat_roundPackToF64 (signZ) (expF64UI uiA) sigZ st)"
      using 4 D by (simp add: code D_def [symmetric] word_less_nat_alt sigZ_def sigY_def)
    then show ?thesis
      using add_coreF64 [OF 4, of sigZ "signZ" st] Z
      by (simp add: sigY_def alignedF64 [OF D] fp_add_commute [of _ _ "fp_sign (signZ) (decode f64_fmt (unat uiA))"] flip: D_def)
  qed
qed

lemma sub_coreF32:
  assumes lt: "expF32UI u < expF32UI v" "expF32UI v \<noteq> 0xFF"
    and sig: "unat sigZ = (2 ^ 23 + unat (fracF32UI v)) * 2 ^ 7 -
      jam (if expF32UI u = 0 then unat (fracF32UI u) * 2 ^ Suc 7 else (2 ^ 23 + unat (fracF32UI u)) * 2 ^ 7)
        (2 ^ nat (expF32UI v - expF32UI u))"
  shows "bits (softfloat_normRoundPackToF32 s (expF32UI v - 1) sigZ st) =
    fp_add f32_fmt st (fp_sign (\<not> s) (decode f32_fmt (unat u))) (fp_sign s (decode f32_fmt (unat v)))"
proof -
  have u: "expF32UI u \<noteq> 0xFF" using lt expF32_bounds [of v] by simp
  have v: "expF32UI v \<noteq> 0" using lt expF32_bounds [of u] by simp
  define d where "d = nat (expF32UI v - expF32UI u)"
  have d: "expF32UI v = expF32UI u + int d" "0 < d" using lt by (simp_all add: d_def)
  obtain m c where U: "decode f32_fmt (unat u) = Fin (signF32UI u) m (expF32UI u - 1 + (- 149) - int 7 + int c)"
    "(if expF32UI u = 0 then unat (fracF32UI u) * 2 ^ Suc 7 else (2 ^ 23 + unat (fracF32UI u)) * 2 ^ 7) = m * 2 ^ c"
    using scaledF32 [OF u, of 7] .
  have V: "decode f32_fmt (unat v) = Fin (signF32UI v) (2 ^ 23 + unat (fracF32UI v)) (expF32UI v - 1 + (- 149))"
    using lt(2) v by (simp add: decodeF32)
  define X where "X = (2 ^ 23 + unat (fracF32UI v)) * 2 ^ 7"
  have X: "even X" "2 ^ (23 + 7) \<le> X" "X < 2 ^ (23 + 7 + 1)" using fracF32_bound [of v] by (simp_all add: X_def)
  have Yb: "m * 2 ^ c + 2 ^ 7 \<le> 2 ^ (23 + 7 + 1)" "even (m * 2 ^ c)"
    using fracF32_bound [of u] by (simp_all flip: U(2))
  have two: "(2 :: nat) ^ 1 \<le> 2 ^ d" using d(2) by (intro power_increasing) simp_all
  have "2 ^ (23 + 7) * 2 \<le> X * 2 ^ d" using X(2) two by (intro mult_le_mono) simp_all
  then have less: "m * 2 ^ c < X * 2 ^ d" using Yb(1) by simp
  have "m * 2 ^ c \<le> (2 ^ (23 + 7) - 2 ^ (7 - 1)) * 2" using Yb(1) by simp
  also have "\<dots> \<le> (2 ^ (23 + 7) - 2 ^ (7 - 1)) * 2 ^ d" using two by (intro mult_le_mono2) simp
  finally have "jam (m * 2 ^ c) (2 ^ d) \<le> 2 ^ (23 + 7) - 2 ^ (7 - 1)" by (intro jam_le) simp_all
  then have jl: "jam (m * 2 ^ c) (2 ^ d) < X" using X(2) by simp
  have k: "expF32UI v - 1 + (- 149) = (expF32UI u - 1 + (- 149) - int 7) + int (7 + d)"
    using d by simp
  have Xd: "(2 ^ 23 + unat (fracF32UI v)) * 2 ^ (7 + d) = X * 2 ^ d"
    by (simp add: X_def power_add mult.assoc)
  have spec: "fp_add f32_fmt st (fp_sign (\<not> s) (decode f32_fmt (unat u))) (fp_sign s (decode f32_fmt (unat v))) =
      ieee_result f32_fmt st s (X * 2 ^ d - m * 2 ^ c) (expF32UI u - 1 + (- 149) - int 7)"
    unfolding U V fp_sign.simps fp_add.simps fin_add_aligned [OF refl k] Xd using less by simp
  have "bits (softfloat_normRoundPackToF32 s (expF32UI v - 1) sigZ st) =
      ieee_result f32_fmt st s (X * 2 ^ d - m * 2 ^ c) (expF32UI u - 1 + (- 149) - int 7)"
    using sig X Yb d expF32_bounds [of v] less jl
    unfolding U(2) X_def [symmetric] d_def [symmetric]
    by (intro nrp32.nrp_cancel) (simp_all add: pack_exp_def)
  then show ?thesis unfolding spec .
qed

lemma sint_diff_fracF32:
  "sint (fracF32UI u - fracF32UI v) = int (unat (fracF32UI u)) - int (unat (fracF32UI v))"
  using fracF32_bound [of u] fracF32_bound [of v] by (intro sint_diff_small) simp_all

text \<open>Equal exponents: the difference is exact and needs no rounding.\<close>

lemma exact_differenceF32:
  fixes D :: nat and e :: int
  assumes D: "0 < D" "D < 2 ^ 23" and e: "0 \<le> e" "e < 0xFF"
  defines "E \<equiv> if e \<noteq> 0 then e - 1 else e"
  defines "sd \<equiv> int (unat (softfloat_countLeadingZeros32 (word_of_int (int D)))) - 8"
  shows "bits (case if E - sd < 0 then (0, E) else (E - sd, sd) of
      (expZ, shiftDist) \<Rightarrow> returnF32 (packToF32UI s expZ (push_bit (nat shiftDist) (word_of_int (int D))), st)) =
    ieee_result f32_fmt st s D (E + (- 149))"
proof -
  define k where "k = 24 - bitlen D"
  have "D < 2 ^ 24" using D(2) by simp
  note ns = normalised_shift [OF D(1) this, folded k_def]
  have u: "unat (word_of_nat D :: 'b::len word) = D" if "23 \<le> LENGTH('b)"
  proof -
    have "(2 :: nat) ^ 23 \<le> 2 ^ LENGTH('b)" using that by (intro power_increasing) simp_all
    then have "D < 2 ^ LENGTH('b)" using D(2) by linarith
    then show ?thesis by (simp add: unat_of_nat)
  qed
  have sd: "sd = int k" unfolding sd_def using ns(3) D by (simp add: unat_countLeadingZeros32 u)
  have Eb: "0 \<le> E" "E \<le> 0xFF - 2" using e by (simp_all add: E_def)
  show ?thesis
  proof (cases "E < int k")
    case True
    define x where "x = nat E"
    have x: "E = int x" "x < k" using Eb True by (simp_all add: x_def)
    have "2 * (D * 2 ^ x) = D * 2 ^ Suc x" by simp
    also have "\<dots> \<le> D * 2 ^ k" using x(2) by (intro mult_le_mono2 power_increasing) simp_all
    also have "\<dots> < 2 * 2 ^ 23" using ns(2) by simp
    finally have sm: "D * 2 ^ x < 2 ^ 23" by simp
    then have "unat (push_bit x (word_of_int (int D)) :: u64) = D * 2 ^ x"
      by (simp add: unat_push u)
    then have "bits (returnF32 (packToF32UI s 0 (push_bit x (word_of_int (int D))), st)) =
        (of_bool s * sign_weight f32_fmt + (nat 0 * 2 ^ 23 + D * 2 ^ x), st)"
      using sm by (subst return_packF32) simp_all
    also have "\<dots> = ieee_result f32_fmt st s (D * 2 ^ x) (lsb_exp f32_fmt)"
      using sm by (subst ieee_result_small) simp_all
    also have "\<dots> = ieee_result f32_fmt st s D (E + (- 149))"
      using ieee_result_double [of f32_fmt st s D x "E + (- 149)"] by (simp add: x)
    finally show ?thesis using True by (simp add: sd x)
  next
    case False
    have "unat (push_bit k (word_of_int (int D)) :: u64) = D * 2 ^ k"
      using ns(2) by (simp add: unat_push u)
    moreover have "nat (E - int k) \<le> 0xFF - 2" using Eb by simp
    ultimately have "bits (returnF32 (packToF32UI s (E - int k) (push_bit k (word_of_int (int D))), st)) =
        (of_bool s * sign_weight f32_fmt + (nat (E - int k) * 2 ^ frac_bits f32_fmt + D * 2 ^ k), st)"
      using False Eb ns(2) by (subst return_packF32) simp_all
    also have "\<dots> = ieee_result f32_fmt st s (D * 2 ^ k * 2 ^ 7) (pack_exp f32_fmt 7 (E - int k))"
      using ns(1,2) False Eb by (intro ieee_result_exact [symmetric]) simp_all
    also have "\<dots> = ieee_result f32_fmt st s D (E + (- 149))"
      using ieee_result_double [of f32_fmt st s D "k + 7" "E + (- 149)"]
      by (simp add: pack_exp_def power_add mult.assoc diff_diff_eq)
    finally show ?thesis using False by (simp add: sd)
  qed
qed

lemma shifted_frac_subF32: "push_bit 7 (fracF32UI u) = 0 \<longleftrightarrow> fracF32UI u = 0"
  using fracF32_bound [of u] by (simp add: word_eq_nat unat_push)

lemma aligned_subF32:
  assumes "0 < D" "D < 10000"
  shows "unat (ucast (softfloat_shiftRightJam32 (ucast (push_bit 7 (fracF32UI u) + (if expF32UI u \<noteq> 0 then 0x40000000 else push_bit 7 (fracF32UI u)))) (word_of_int D)) :: u64) =
    jam (if expF32UI u = 0 then unat (fracF32UI u) * 2 ^ Suc 7 else (2 ^ 23 + unat (fracF32UI u)) * 2 ^ 7)
      (2 ^ nat D)"
proof -
  define y :: u64 where "y = (push_bit 7 (fracF32UI u) + (if expF32UI u \<noteq> 0 then 0x40000000 else push_bit 7 (fracF32UI u)))"
  define d :: u64 where "d = word_of_int D"
  have y: "unat y = (if expF32UI u = 0 then unat (fracF32UI u) * 2 ^ Suc 7 else (2 ^ 23 + unat (fracF32UI u)) * 2 ^ 7)"
    using fracF32_bound [of u] by (simp add: y_def unat_word_ariths unat_push)
  have d: "unat d = nat D" "0 < d" using assms by (simp_all add: d_def unat_of_exp word_less_nat_alt)
  have "unat y < 2 ^ (23 + 7 + 1)" using fracF32_bound [of u] by (simp add: y)
  then show ?thesis
    unfolding y_def [symmetric] d_def [symmetric] y [symmetric]
    using unat_shiftRightJam32 [OF d(2)] d(1) unat_lt_32 [of "softfloat_shiftRightJam32 (ucast y) d"] by (simp add: unat_cast)
qed

lemma aligned_sub_boundF32:
  "0 < d \<Longrightarrow> jam (if expF32UI u = 0 then unat (fracF32UI u) * 2 ^ Suc 7 else (2 ^ 23 + unat (fracF32UI u)) * 2 ^ 7) (2 ^ d)
    < 2 ^ (23 + 7)"
proof -
  assume "0 < d"
  then have "(2 :: nat) ^ 1 \<le> 2 ^ d" by (intro power_increasing) simp_all
  then have "2 * 2 ^ (23 + 7) \<le> 2 ^ d * (2 :: nat) ^ (23 + 7)" by simp
  then show ?thesis using fracF32_bound [of u] by (intro jam_less) (simp_all split: if_splits)
qed

lemma hidden_subF32: "unat (push_bit 7 (fracF32UI u) OR 0x40000000) = (2 ^ 23 + unat (fracF32UI u)) * 2 ^ 7"
proof -
  have f: "unat (fracF32UI u) * 2 ^ 7 < 2 ^ (23 + 7)" using fracF32_bound [of u] by simp
  then show ?thesis
    using or_disjoint_nat [of "unat (fracF32UI u) * 2 ^ 7" "23 + 7" 1]
    by (simp add: unat_disj unat_push or.commute)
qed

lemma subMagsF32_equal:
  assumes e: "expF32UI uiA = expF32UI uiB" "expF32UI uiA \<noteq> 0xFF"
  shows "bits (softfloat_subMagsF32 uiA uiB st) =
    fp_add f32_fmt st (fp_sign (signF32UI uiA) (decode f32_fmt (unat uiA))) (fp_sign (\<not> signF32UI uiA) (decode f32_fmt (unat uiB)))"
proof -
  define fA fB where "fA = unat (fracF32UI uiA)" and "fB = unat (fracF32UI uiB)"
  have f: "fA < 2 ^ 23" "fB < 2 ^ 23" using fracF32_bound by (simp_all add: fA_def fB_def)
  have e0: "0 \<le> expF32UI uiA" "expF32UI uiA < 0xFF" using expF32_bounds [of uiA] e(2) by simp_all
  define E where "E = (if expF32UI uiA \<noteq> 0 then expF32UI uiA - 1 else expF32UI uiA)"
  have m: "(softfloat_roundingMode st = softfloat_round_min) = (rmode_of (softfloat_roundingMode st) = RDN)"
    by (simp add: rmode_of_def)
  define h where "h = (if expF32UI uiA = 0 then 0 else (2 :: nat) ^ 23)"
  have dec: "decode f32_fmt (unat uiA) = Fin (signF32UI uiA) (h + fA) (E + (- 149))"
    "decode f32_fmt (unat uiB) = Fin (signF32UI uiB) (h + fB) (E + (- 149))"
    using e by (simp_all add: decodeF32 E_def fA_def fB_def h_def)
  have e1: "expF32UI uiA - expF32UI uiB = 0" using e(1) by simp
  note code = softfloat_subMagsF32_def Let_def sint_diff_fracF32 fA_def [symmetric] fB_def [symmetric]
    e1 if_P [OF refl] if_not_P [OF e(2)]
  have pos: "(if int D < 0 then a else b) = b" "(if int D = 0 then c else d) = d"
    and neg: "(if - int D < 0 then a else b) = a" "(if - int D = 0 then c else d) = d"
    if "0 < D" for a b :: "bool \<times> int" and c d :: "float32_t \<times> sf_state" and D :: nat
    using that by simp_all
  consider "fA = fB" | "fB < fA" | "fA < fB" by linarith
  then show ?thesis
  proof cases
    case 1
    then show ?thesis unfolding dec code using e by (simp add: fin_add.simps return_zeroF32 m)
  next
    case 2
    define D where "D = fA - fB"
    have D: "int fA - int fB = int D" "0 < D" "D < 2 ^ 23" using 2 f by (simp_all add: D_def)
    have "fp_add f32_fmt st (fp_sign (signF32UI uiA) (decode f32_fmt (unat uiA))) (fp_sign (\<not> signF32UI uiA) (decode f32_fmt (unat uiB))) =
        ieee_result f32_fmt st (signF32UI uiA) D (E + (- 149))"
      unfolding dec using 2 by (simp add: fin_add.simps D_def)
    then show ?thesis
      unfolding code D(1) pos [OF D(2)] prod.case by (simp only: exact_differenceF32 [OF D(2,3) e0] E_def)
  next
    case 3
    define D where "D = fB - fA"
    have D: "int fA - int fB = - int D" "0 < D" "D < 2 ^ 23" using 3 f by (simp_all add: D_def)
    have "fp_add f32_fmt st (fp_sign (signF32UI uiA) (decode f32_fmt (unat uiA))) (fp_sign (\<not> signF32UI uiA) (decode f32_fmt (unat uiB))) =
        ieee_result f32_fmt st (\<not> signF32UI uiA) D (E + (- 149))"
      unfolding dec using 3 by (simp add: fin_add.simps D_def)
    then show ?thesis
      unfolding code D(1) neg [OF D(2)] prod.case minus_minus by (simp only: exact_differenceF32 [OF D(2,3) e0] E_def)
  qed
qed

lemma subMagsF32_ieee:
  assumes lt: "unat uiA < 2 ^ 32" 
  shows "bits (softfloat_subMagsF32 uiA uiB st) =
    fp_add f32_fmt st (fp_sign (signF32UI uiA) (decode f32_fmt (unat uiA))) (fp_sign (\<not> signF32UI uiA) (decode f32_fmt (unat uiB)))"
proof -
  note code = softfloat_subMagsF32_def Let_def
  consider "expF32UI uiA = 0xFF \<or> expF32UI uiB = 0xFF"
    | "expF32UI uiA = expF32UI uiB" "expF32UI uiA \<noteq> 0xFF"
    | "expF32UI uiA < expF32UI uiB" "expF32UI uiB \<noteq> 0xFF" | "expF32UI uiB < expF32UI uiA" "expF32UI uiA \<noteq> 0xFF"
    by linarith
  then show ?thesis
  proof cases
    case 1
    then show ?thesis
      using expF32_bounds(2) [of uiA] expF32_bounds(2) [of uiB]
      by (cases rule: decodeF32_cases [of uiA]; cases rule: decodeF32_cases [of uiB])
        (simp_all add: code returnsF32 shifted_frac_subF32 or_eq_0_word return_infiniteF32 [OF lt] )
  next
    case 2
    then show ?thesis by (rule subMagsF32_equal)
  next
    case 3
    define D where "D = expF32UI uiB - expF32UI uiA"
    have D: "0 < D" "D < 10000" using 3 expF32_bounds [of uiA] expF32_bounds [of uiB] by (simp_all add: D_def)
    define sigY where "sigY = (ucast (softfloat_shiftRightJam32 (ucast (push_bit 7 (fracF32UI uiA) + (if expF32UI uiA \<noteq> 0 then 0x40000000 else push_bit 7 (fracF32UI uiA)))) (word_of_int D)) :: u64)"
    define sigZ where "sigZ = (push_bit 7 (fracF32UI uiB) OR 0x40000000) - sigY"
    have Y: "unat sigY < 2 ^ (23 + 7)" unfolding sigY_def aligned_subF32 [OF D] using D by (intro aligned_sub_boundF32) simp
    have Z: "unat sigZ = (2 ^ 23 + unat (fracF32UI uiB)) * 2 ^ 7 - unat sigY"
      using Y unfolding sigZ_def by (subst unat_sub) (simp_all add: hidden_subF32 word_le_nat_alt)
    have "softfloat_subMagsF32 uiA uiB st = softfloat_normRoundPackToF32 (\<not> signF32UI uiA) (expF32UI uiB - 1) sigZ st"
      using 3 by (simp add: code D_def [symmetric] sigZ_def sigY_def)
    then show ?thesis
      using sub_coreF32 [OF 3, of sigZ "\<not> signF32UI uiA" st] Z by (simp add: sigY_def aligned_subF32 [OF D] flip: D_def)
  next
    case 4
    define D where "D = expF32UI uiA - expF32UI uiB"
    have D: "0 < D" "D < 10000" using 4 expF32_bounds [of uiA] expF32_bounds [of uiB] by (simp_all add: D_def)
    define sigY where "sigY = (ucast (softfloat_shiftRightJam32 (ucast (push_bit 7 (fracF32UI uiB) + (if expF32UI uiB \<noteq> 0 then 0x40000000 else push_bit 7 (fracF32UI uiB)))) (word_of_int D)) :: u64)"
    define sigZ where "sigZ = (push_bit 7 (fracF32UI uiA) OR 0x40000000) - sigY"
    have Y: "unat sigY < 2 ^ (23 + 7)" unfolding sigY_def aligned_subF32 [OF D] using D by (intro aligned_sub_boundF32) simp
    have Z: "unat sigZ = (2 ^ 23 + unat (fracF32UI uiA)) * 2 ^ 7 - unat sigY"
      using Y unfolding sigZ_def by (subst unat_sub) (simp_all add: hidden_subF32 word_le_nat_alt)
    have "softfloat_subMagsF32 uiA uiB st = softfloat_normRoundPackToF32 (signF32UI uiA) (expF32UI uiA - 1) sigZ st"
      using 4 D by (simp add: code D_def [symmetric] sigZ_def sigY_def)
    then show ?thesis
      using sub_coreF32 [OF 4, of sigZ "signF32UI uiA" st] Z
      by (simp add: sigY_def aligned_subF32 [OF D] fp_add_commute [of _ _ "fp_sign (signF32UI uiA) (decode f32_fmt (unat uiA))"] flip: D_def)
  qed
qed

lemma sub_coreF64:
  assumes lt: "expF64UI u < expF64UI v" "expF64UI v \<noteq> 0x7FF"
    and sig: "unat sigZ = (2 ^ 52 + unat (fracF64UI v)) * 2 ^ 10 -
      jam (if expF64UI u = 0 then unat (fracF64UI u) * 2 ^ Suc 10 else (2 ^ 52 + unat (fracF64UI u)) * 2 ^ 10)
        (2 ^ nat (expF64UI v - expF64UI u))"
  shows "bits (softfloat_normRoundPackToF64 s (expF64UI v - 1) sigZ st) =
    fp_add f64_fmt st (fp_sign (\<not> s) (decode f64_fmt (unat u))) (fp_sign s (decode f64_fmt (unat v)))"
proof -
  have u: "expF64UI u \<noteq> 0x7FF" using lt expF64_bounds [of v] by simp
  have v: "expF64UI v \<noteq> 0" using lt expF64_bounds [of u] by simp
  define d where "d = nat (expF64UI v - expF64UI u)"
  have d: "expF64UI v = expF64UI u + int d" "0 < d" using lt by (simp_all add: d_def)
  obtain m c where U: "decode f64_fmt (unat u) = Fin (signF64UI u) m (expF64UI u - 1 + (- 1074) - int 10 + int c)"
    "(if expF64UI u = 0 then unat (fracF64UI u) * 2 ^ Suc 10 else (2 ^ 52 + unat (fracF64UI u)) * 2 ^ 10) = m * 2 ^ c"
    using scaledF64 [OF u, of 10] .
  have V: "decode f64_fmt (unat v) = Fin (signF64UI v) (2 ^ 52 + unat (fracF64UI v)) (expF64UI v - 1 + (- 1074))"
    using lt(2) v by (simp add: decodeF64)
  define X where "X = (2 ^ 52 + unat (fracF64UI v)) * 2 ^ 10"
  have X: "even X" "2 ^ (52 + 10) \<le> X" "X < 2 ^ (52 + 10 + 1)" using fracF64_bound [of v] by (simp_all add: X_def)
  have Yb: "m * 2 ^ c + 2 ^ 10 \<le> 2 ^ (52 + 10 + 1)" "even (m * 2 ^ c)"
    using fracF64_bound [of u] by (simp_all flip: U(2))
  have two: "(2 :: nat) ^ 1 \<le> 2 ^ d" using d(2) by (intro power_increasing) simp_all
  have "2 ^ (52 + 10) * 2 \<le> X * 2 ^ d" using X(2) two by (intro mult_le_mono) simp_all
  then have less: "m * 2 ^ c < X * 2 ^ d" using Yb(1) by simp
  have "m * 2 ^ c \<le> (2 ^ (52 + 10) - 2 ^ (10 - 1)) * 2" using Yb(1) by simp
  also have "\<dots> \<le> (2 ^ (52 + 10) - 2 ^ (10 - 1)) * 2 ^ d" using two by (intro mult_le_mono2) simp
  finally have "jam (m * 2 ^ c) (2 ^ d) \<le> 2 ^ (52 + 10) - 2 ^ (10 - 1)" by (intro jam_le) simp_all
  then have jl: "jam (m * 2 ^ c) (2 ^ d) < X" using X(2) by simp
  have k: "expF64UI v - 1 + (- 1074) = (expF64UI u - 1 + (- 1074) - int 10) + int (10 + d)"
    using d by simp
  have Xd: "(2 ^ 52 + unat (fracF64UI v)) * 2 ^ (10 + d) = X * 2 ^ d"
    by (simp add: X_def power_add mult.assoc)
  have spec: "fp_add f64_fmt st (fp_sign (\<not> s) (decode f64_fmt (unat u))) (fp_sign s (decode f64_fmt (unat v))) =
      ieee_result f64_fmt st s (X * 2 ^ d - m * 2 ^ c) (expF64UI u - 1 + (- 1074) - int 10)"
    unfolding U V fp_sign.simps fp_add.simps fin_add_aligned [OF refl k] Xd using less by simp
  have "bits (softfloat_normRoundPackToF64 s (expF64UI v - 1) sigZ st) =
      ieee_result f64_fmt st s (X * 2 ^ d - m * 2 ^ c) (expF64UI u - 1 + (- 1074) - int 10)"
    using sig X Yb d expF64_bounds [of v] less jl
    unfolding U(2) X_def [symmetric] d_def [symmetric]
    by (intro nrp64.nrp_cancel) (simp_all add: pack_exp_def)
  then show ?thesis unfolding spec .
qed

lemma sint_diff_fracF64:
  "sint (fracF64UI u - fracF64UI v) = int (unat (fracF64UI u)) - int (unat (fracF64UI v))"
  using fracF64_bound [of u] fracF64_bound [of v] by (intro sint_diff_small) simp_all

text \<open>Equal exponents: the difference is exact and needs no rounding.\<close>

lemma exact_differenceF64:
  fixes D :: nat and e :: int
  assumes D: "0 < D" "D < 2 ^ 52" and e: "0 \<le> e" "e < 0x7FF"
  defines "E \<equiv> if e \<noteq> 0 then e - 1 else e"
  defines "sd \<equiv> int (unat (softfloat_countLeadingZeros64 (word_of_int (int D)))) - 11"
  shows "bits (case if E - sd < 0 then (0, E) else (E - sd, sd) of
      (expZ, shiftDist) \<Rightarrow> returnF64 (packToF64UI s expZ (push_bit (nat shiftDist) (word_of_int (int D))), st)) =
    ieee_result f64_fmt st s D (E + (- 1074))"
proof -
  define k where "k = 53 - bitlen D"
  have "D < 2 ^ 53" using D(2) by simp
  note ns = normalised_shift [OF D(1) this, folded k_def]
  have u: "unat (word_of_nat D :: 'b::len word) = D" if "52 \<le> LENGTH('b)"
  proof -
    have "(2 :: nat) ^ 52 \<le> 2 ^ LENGTH('b)" using that by (intro power_increasing) simp_all
    then have "D < 2 ^ LENGTH('b)" using D(2) by linarith
    then show ?thesis by (simp add: unat_of_nat)
  qed
  have sd: "sd = int k" unfolding sd_def using ns(3) D by (simp add: unat_countLeadingZeros64 u)
  have Eb: "0 \<le> E" "E \<le> 0x7FF - 2" using e by (simp_all add: E_def)
  show ?thesis
  proof (cases "E < int k")
    case True
    define x where "x = nat E"
    have x: "E = int x" "x < k" using Eb True by (simp_all add: x_def)
    have "2 * (D * 2 ^ x) = D * 2 ^ Suc x" by simp
    also have "\<dots> \<le> D * 2 ^ k" using x(2) by (intro mult_le_mono2 power_increasing) simp_all
    also have "\<dots> < 2 * 2 ^ 52" using ns(2) by simp
    finally have sm: "D * 2 ^ x < 2 ^ 52" by simp
    then have "unat (push_bit x (word_of_int (int D)) :: u64) = D * 2 ^ x"
      by (simp add: unat_push u)
    then have "bits (returnF64 (packToF64UI s 0 (push_bit x (word_of_int (int D))), st)) =
        (of_bool s * sign_weight f64_fmt + (nat 0 * 2 ^ 52 + D * 2 ^ x), st)"
      using sm by (subst return_packF64) simp_all
    also have "\<dots> = ieee_result f64_fmt st s (D * 2 ^ x) (lsb_exp f64_fmt)"
      using sm by (subst ieee_result_small) simp_all
    also have "\<dots> = ieee_result f64_fmt st s D (E + (- 1074))"
      using ieee_result_double [of f64_fmt st s D x "E + (- 1074)"] by (simp add: x)
    finally show ?thesis using True by (simp add: sd x)
  next
    case False
    have "unat (push_bit k (word_of_int (int D)) :: u64) = D * 2 ^ k"
      using ns(2) by (simp add: unat_push u)
    moreover have "nat (E - int k) \<le> 0x7FF - 2" using Eb by simp
    ultimately have "bits (returnF64 (packToF64UI s (E - int k) (push_bit k (word_of_int (int D))), st)) =
        (of_bool s * sign_weight f64_fmt + (nat (E - int k) * 2 ^ frac_bits f64_fmt + D * 2 ^ k), st)"
      using False Eb ns(2) by (subst return_packF64) simp_all
    also have "\<dots> = ieee_result f64_fmt st s (D * 2 ^ k * 2 ^ 10) (pack_exp f64_fmt 10 (E - int k))"
      using ns(1,2) False Eb by (intro ieee_result_exact [symmetric]) simp_all
    also have "\<dots> = ieee_result f64_fmt st s D (E + (- 1074))"
      using ieee_result_double [of f64_fmt st s D "k + 10" "E + (- 1074)"]
      by (simp add: pack_exp_def power_add mult.assoc diff_diff_eq)
    finally show ?thesis using False by (simp add: sd)
  qed
qed

lemma shifted_frac_subF64: "push_bit 10 (fracF64UI u) = 0 \<longleftrightarrow> fracF64UI u = 0"
  using fracF64_bound [of u] by (simp add: word_eq_nat unat_push)

lemma aligned_subF64:
  assumes "0 < D" "D < 10000"
  shows "unat (softfloat_shiftRightJam64 (push_bit 10 (fracF64UI u) + (if expF64UI u \<noteq> 0 then 0x4000000000000000 else push_bit 10 (fracF64UI u))) (word_of_int D)) =
    jam (if expF64UI u = 0 then unat (fracF64UI u) * 2 ^ Suc 10 else (2 ^ 52 + unat (fracF64UI u)) * 2 ^ 10)
      (2 ^ nat D)"
proof -
  define y :: u64 where "y = (push_bit 10 (fracF64UI u) + (if expF64UI u \<noteq> 0 then 0x4000000000000000 else push_bit 10 (fracF64UI u)))"
  define d :: u64 where "d = word_of_int D"
  have y: "unat y = (if expF64UI u = 0 then unat (fracF64UI u) * 2 ^ Suc 10 else (2 ^ 52 + unat (fracF64UI u)) * 2 ^ 10)"
    using fracF64_bound [of u] by (simp add: y_def unat_word_ariths unat_push)
  have d: "unat d = nat D" "0 < d" using assms by (simp_all add: d_def unat_of_exp word_less_nat_alt)
  have "unat y < 2 ^ (52 + 10 + 1)" using fracF64_bound [of u] by (simp add: y)
  then show ?thesis
    unfolding y_def [symmetric] d_def [symmetric] y [symmetric]
    using unat_shiftRightJam64 [OF d(2)] d(1)  by (simp add: unat_cast)
qed

lemma aligned_sub_boundF64:
  "0 < d \<Longrightarrow> jam (if expF64UI u = 0 then unat (fracF64UI u) * 2 ^ Suc 10 else (2 ^ 52 + unat (fracF64UI u)) * 2 ^ 10) (2 ^ d)
    < 2 ^ (52 + 10)"
proof -
  assume "0 < d"
  then have "(2 :: nat) ^ 1 \<le> 2 ^ d" by (intro power_increasing) simp_all
  then have "2 * 2 ^ (52 + 10) \<le> 2 ^ d * (2 :: nat) ^ (52 + 10)" by simp
  then show ?thesis using fracF64_bound [of u] by (intro jam_less) (simp_all split: if_splits)
qed

lemma hidden_subF64: "unat (push_bit 10 (fracF64UI u) OR 0x4000000000000000) = (2 ^ 52 + unat (fracF64UI u)) * 2 ^ 10"
proof -
  have f: "unat (fracF64UI u) * 2 ^ 10 < 2 ^ (52 + 10)" using fracF64_bound [of u] by simp
  then show ?thesis
    using or_disjoint_nat [of "unat (fracF64UI u) * 2 ^ 10" "52 + 10" 1]
    by (simp add: unat_disj unat_push or.commute)
qed

lemma subMagsF64_equal:
  assumes e: "expF64UI uiA = expF64UI uiB" "expF64UI uiA \<noteq> 0x7FF"
  shows "bits (softfloat_subMagsF64 uiA uiB signZ st) =
    fp_add f64_fmt st (fp_sign (signZ) (decode f64_fmt (unat uiA))) (fp_sign (\<not> signZ) (decode f64_fmt (unat uiB)))"
proof -
  define fA fB where "fA = unat (fracF64UI uiA)" and "fB = unat (fracF64UI uiB)"
  have f: "fA < 2 ^ 52" "fB < 2 ^ 52" using fracF64_bound by (simp_all add: fA_def fB_def)
  have e0: "0 \<le> expF64UI uiA" "expF64UI uiA < 0x7FF" using expF64_bounds [of uiA] e(2) by simp_all
  define E where "E = (if expF64UI uiA \<noteq> 0 then expF64UI uiA - 1 else expF64UI uiA)"
  have m: "(softfloat_roundingMode st = softfloat_round_min) = (rmode_of (softfloat_roundingMode st) = RDN)"
    by (simp add: rmode_of_def)
  define h where "h = (if expF64UI uiA = 0 then 0 else (2 :: nat) ^ 52)"
  have dec: "decode f64_fmt (unat uiA) = Fin (signF64UI uiA) (h + fA) (E + (- 1074))"
    "decode f64_fmt (unat uiB) = Fin (signF64UI uiB) (h + fB) (E + (- 1074))"
    using e by (simp_all add: decodeF64 E_def fA_def fB_def h_def)
  have e1: "expF64UI uiA - expF64UI uiB = 0" using e(1) by simp
  note code = softfloat_subMagsF64_def Let_def sint_diff_fracF64 fA_def [symmetric] fB_def [symmetric]
    e1 if_P [OF refl] if_not_P [OF e(2)]
  have pos: "(if int D < 0 then a else b) = b" "(if int D = 0 then c else d) = d"
    and neg: "(if - int D < 0 then a else b) = a" "(if - int D = 0 then c else d) = d"
    if "0 < D" for a b :: "bool \<times> int" and c d :: "float64_t \<times> sf_state" and D :: nat
    using that by simp_all
  consider "fA = fB" | "fB < fA" | "fA < fB" by linarith
  then show ?thesis
  proof cases
    case 1
    then show ?thesis unfolding dec code using e by (simp add: fin_add.simps return_zeroF64 m)
  next
    case 2
    define D where "D = fA - fB"
    have D: "int fA - int fB = int D" "0 < D" "D < 2 ^ 52" using 2 f by (simp_all add: D_def)
    have "fp_add f64_fmt st (fp_sign (signZ) (decode f64_fmt (unat uiA))) (fp_sign (\<not> signZ) (decode f64_fmt (unat uiB))) =
        ieee_result f64_fmt st (signZ) D (E + (- 1074))"
      unfolding dec using 2 by (simp add: fin_add.simps D_def)
    then show ?thesis
      unfolding code D(1) pos [OF D(2)] prod.case by (simp only: exact_differenceF64 [OF D(2,3) e0] E_def)
  next
    case 3
    define D where "D = fB - fA"
    have D: "int fA - int fB = - int D" "0 < D" "D < 2 ^ 52" using 3 f by (simp_all add: D_def)
    have "fp_add f64_fmt st (fp_sign (signZ) (decode f64_fmt (unat uiA))) (fp_sign (\<not> signZ) (decode f64_fmt (unat uiB))) =
        ieee_result f64_fmt st (\<not> signZ) D (E + (- 1074))"
      unfolding dec using 3 by (simp add: fin_add.simps D_def)
    then show ?thesis
      unfolding code D(1) neg [OF D(2)] prod.case minus_minus by (simp only: exact_differenceF64 [OF D(2,3) e0] E_def)
  qed
qed

lemma subMagsF64_ieee:
  assumes lt: "unat uiA < 2 ^ 64" and sg: "signZ = signF64UI uiA"
  shows "bits (softfloat_subMagsF64 uiA uiB signZ st) =
    fp_add f64_fmt st (fp_sign (signZ) (decode f64_fmt (unat uiA))) (fp_sign (\<not> signZ) (decode f64_fmt (unat uiB)))"
proof -
  note code = softfloat_subMagsF64_def Let_def
  consider "expF64UI uiA = 0x7FF \<or> expF64UI uiB = 0x7FF"
    | "expF64UI uiA = expF64UI uiB" "expF64UI uiA \<noteq> 0x7FF"
    | "expF64UI uiA < expF64UI uiB" "expF64UI uiB \<noteq> 0x7FF" | "expF64UI uiB < expF64UI uiA" "expF64UI uiA \<noteq> 0x7FF"
    by linarith
  then show ?thesis
  proof cases
    case 1
    then show ?thesis
      using expF64_bounds(2) [of uiA] expF64_bounds(2) [of uiB]
      by (cases rule: decodeF64_cases [of uiA]; cases rule: decodeF64_cases [of uiB])
        (simp_all add: code returnsF64 shifted_frac_subF64 or_eq_0_word return_infiniteF64 [OF lt] sg)
  next
    case 2
    then show ?thesis by (rule subMagsF64_equal)
  next
    case 3
    define D where "D = expF64UI uiB - expF64UI uiA"
    have D: "0 < D" "D < 10000" using 3 expF64_bounds [of uiA] expF64_bounds [of uiB] by (simp_all add: D_def)
    define sigY where "sigY = (softfloat_shiftRightJam64 (push_bit 10 (fracF64UI uiA) + (if expF64UI uiA \<noteq> 0 then 0x4000000000000000 else push_bit 10 (fracF64UI uiA))) (word_of_int D))"
    define sigZ where "sigZ = (push_bit 10 (fracF64UI uiB) OR 0x4000000000000000) - sigY"
    have Y: "unat sigY < 2 ^ (52 + 10)" unfolding sigY_def aligned_subF64 [OF D] using D by (intro aligned_sub_boundF64) simp
    have Z: "unat sigZ = (2 ^ 52 + unat (fracF64UI uiB)) * 2 ^ 10 - unat sigY"
      using Y unfolding sigZ_def by (subst unat_sub) (simp_all add: hidden_subF64 word_le_nat_alt)
    have "softfloat_subMagsF64 uiA uiB signZ st = softfloat_normRoundPackToF64 (\<not> signZ) (expF64UI uiB - 1) sigZ st"
      using 3 by (simp add: code D_def [symmetric] sigZ_def sigY_def)
    then show ?thesis
      using sub_coreF64 [OF 3, of sigZ "\<not> signZ" st] Z by (simp add: sigY_def aligned_subF64 [OF D] flip: D_def)
  next
    case 4
    define D where "D = expF64UI uiA - expF64UI uiB"
    have D: "0 < D" "D < 10000" using 4 expF64_bounds [of uiA] expF64_bounds [of uiB] by (simp_all add: D_def)
    define sigY where "sigY = (softfloat_shiftRightJam64 (push_bit 10 (fracF64UI uiB) + (if expF64UI uiB \<noteq> 0 then 0x4000000000000000 else push_bit 10 (fracF64UI uiB))) (word_of_int D))"
    define sigZ where "sigZ = (push_bit 10 (fracF64UI uiA) OR 0x4000000000000000) - sigY"
    have Y: "unat sigY < 2 ^ (52 + 10)" unfolding sigY_def aligned_subF64 [OF D] using D by (intro aligned_sub_boundF64) simp
    have Z: "unat sigZ = (2 ^ 52 + unat (fracF64UI uiA)) * 2 ^ 10 - unat sigY"
      using Y unfolding sigZ_def by (subst unat_sub) (simp_all add: hidden_subF64 word_le_nat_alt)
    have "softfloat_subMagsF64 uiA uiB signZ st = softfloat_normRoundPackToF64 (signZ) (expF64UI uiA - 1) sigZ st"
      using 4 D by (simp add: code D_def [symmetric] sigZ_def sigY_def)
    then show ?thesis
      using sub_coreF64 [OF 4, of sigZ "signZ" st] Z
      by (simp add: sigY_def aligned_subF64 [OF D] fp_add_commute [of _ _ "fp_sign (signZ) (decode f64_fmt (unat uiA))"] flip: D_def)
  qed
qed

lemma sign_bitF32: "signF32UI u = bit u 31"
proof -
  have "bit (unat u) 31 = bit u 31" by (simp add: bit_unsigned_iff)
  then show ?thesis by (simp add: fieldsF32 bit_iff_odd)
qed

lemma signs_differF32: "signF32UI (u XOR v) = (signF32UI u \<noteq> signF32UI v)"
  by (simp add: sign_bitF32 bit_xor_iff)

lemma fp_neg_signF32: "fp_neg (decode f32_fmt (unat u)) = fp_sign (\<not> signF32UI u) (decode f32_fmt (unat u))"
  by (simp add: decodeF32)

lemma f32_add_ieee:
  "bits (f32_add a b st) = fp_add f32_fmt st (decode f32_fmt (unat a)) (decode f32_fmt (unat b))"
proof -
  define uA uB where "uA = (ucast a :: u64)" and "uB = (ucast b :: u64)"
  have ab: "unat a = unat uA" "unat b = unat uB" "unat uA < 2 ^ 32"
    using unat_lt_32 [of a] unat_lt_32 [of b] by (simp_all add: uA_def uB_def unat_cast)
  show ?thesis
  proof (cases "signF32UI uA = signF32UI uB")
    case True
    then show ?thesis
      unfolding ab using addMagsF32_ieee [OF ab(3), of uB st] fp_sign_selfF32 [of uA] fp_sign_selfF32 [of uB]
      by (simp add: f32_add_def Let_def signs_differF32 flip: uA_def uB_def)
  next
    case False
    then have s: "(\<not> signF32UI uA) = signF32UI uB" by blast
    show ?thesis
      unfolding ab using False subMagsF32_ieee [OF ab(3), of uB st] fp_sign_selfF32 [of uA] fp_sign_selfF32 [of uB]
      unfolding s by (simp add: f32_add_def Let_def signs_differF32 s flip: uA_def uB_def)
  qed
qed

lemma f32_sub_ieee:
  "bits (f32_sub a b st) = fp_sub f32_fmt st (decode f32_fmt (unat a)) (decode f32_fmt (unat b))"
proof -
  define uA uB where "uA = (ucast a :: u64)" and "uB = (ucast b :: u64)"
  have ab: "unat a = unat uA" "unat b = unat uB" "unat uA < 2 ^ 32"
    using unat_lt_32 [of a] unat_lt_32 [of b] by (simp_all add: uA_def uB_def unat_cast)
  show ?thesis
  proof (cases "signF32UI uA = signF32UI uB")
    case True
    then show ?thesis
      unfolding ab fp_sub_def fp_neg_signF32
      using subMagsF32_ieee [OF ab(3), of uB st] fp_sign_selfF32 [of uA]
      by (simp add: f32_sub_def Let_def signs_differF32 flip: uA_def uB_def)
  next
    case False
    then have s: "(\<not> signF32UI uB) = signF32UI uA" by blast
    show ?thesis
      unfolding ab fp_sub_def fp_neg_signF32 s
      using False addMagsF32_ieee [OF ab(3), of uB st] fp_sign_selfF32 [of uA]
      by (simp add: f32_sub_def Let_def signs_differF32 flip: uA_def uB_def)
  qed
qed

lemma sign_bitF64: "signF64UI u = bit u 63"
proof -
  have "bit (unat u) 63 = bit u 63" by (simp add: bit_unsigned_iff)
  then show ?thesis by (simp add: fieldsF64 bit_iff_odd)
qed

lemma signs_differF64: "signF64UI (u XOR v) = (signF64UI u \<noteq> signF64UI v)"
  by (simp add: sign_bitF64 bit_xor_iff)

lemma fp_neg_signF64: "fp_neg (decode f64_fmt (unat u)) = fp_sign (\<not> signF64UI u) (decode f64_fmt (unat u))"
  by (simp add: decodeF64)

lemma f64_add_ieee:
  "bits (f64_add a b st) = fp_add f64_fmt st (decode f64_fmt (unat a)) (decode f64_fmt (unat b))"
proof -
  define uA uB where "uA = (a :: u64)" and "uB = (b :: u64)"
  have ab: "unat a = unat uA" "unat b = unat uB" "unat uA < 2 ^ 64"
    using unat_lt_64 [of a] by (simp_all add: uA_def uB_def)
  show ?thesis
  proof (cases "signF64UI uA = signF64UI uB")
    case True
    then show ?thesis
      unfolding ab using addMagsF64_ieee [OF ab(3) refl, of uB st] fp_sign_selfF64 [of uA] fp_sign_selfF64 [of uB]
      by (simp add: f64_add_def Let_def signs_differF64 flip: uA_def uB_def)
  next
    case False
    then have s: "(\<not> signF64UI uA) = signF64UI uB" by blast
    show ?thesis
      unfolding ab using False subMagsF64_ieee [OF ab(3) refl, of uB st] fp_sign_selfF64 [of uA] fp_sign_selfF64 [of uB]
      unfolding s by (simp add: f64_add_def Let_def signs_differF64 s flip: uA_def uB_def)
  qed
qed

lemma f64_sub_ieee:
  "bits (f64_sub a b st) = fp_sub f64_fmt st (decode f64_fmt (unat a)) (decode f64_fmt (unat b))"
proof -
  define uA uB where "uA = (a :: u64)" and "uB = (b :: u64)"
  have ab: "unat a = unat uA" "unat b = unat uB" "unat uA < 2 ^ 64"
    using unat_lt_64 [of a] by (simp_all add: uA_def uB_def)
  show ?thesis
  proof (cases "signF64UI uA = signF64UI uB")
    case True
    then show ?thesis
      unfolding ab fp_sub_def fp_neg_signF64
      using subMagsF64_ieee [OF ab(3) refl, of uB st] fp_sign_selfF64 [of uA]
      by (simp add: f64_sub_def Let_def signs_differF64 flip: uA_def uB_def)
  next
    case False
    then have s: "(\<not> signF64UI uB) = signF64UI uA" by blast
    show ?thesis
      unfolding ab fp_sub_def fp_neg_signF64 s
      using False addMagsF64_ieee [OF ab(3) refl, of uB st] fp_sign_selfF64 [of uA]
      by (simp add: f64_sub_def Let_def signs_differF64 flip: uA_def uB_def)
  qed
qed

section \<open>Properties\<close>

text \<open>C3: addition is correctly rounded: for all operand patterns, every rounding mode and either
  detection of tininess, the result bits and flags are those of the exact sum rounded once, with the
  IEEE sign of an exact zero sum and the treatment of infinities and NaNs.\<close>

theorem add_correctly_rounded:
  "bits (f32_add a b st) = fp_add f32_fmt st (decode f32_fmt (unat a)) (decode f32_fmt (unat b)) \<and>
   bits (f64_add c d st) = fp_add f64_fmt st (decode f64_fmt (unat c)) (decode f64_fmt (unat d))"
  by (simp add: f32_add_ieee f64_add_ieee)

text \<open>C29: subtraction is correctly rounded, in the same sense, for the exact difference.\<close>

theorem sub_correctly_rounded:
  "bits (f32_sub a b st) = fp_sub f32_fmt st (decode f32_fmt (unat a)) (decode f32_fmt (unat b)) \<and>
   bits (f64_sub c d st) = fp_sub f64_fmt st (decode f64_fmt (unat c)) (decode f64_fmt (unat d))"
  by (simp add: f32_sub_ieee f64_sub_ieee)

text \<open>Addition is commutative to the last bit, flags included, although the code treats its
  operands differently in every branch.\<close>

theorem add_commutes: "f32_add a b st = f32_add b a st \<and> f64_add c d st = f64_add d c st"
  by (intro conjI bits_inj) (simp_all only: f32_add_ieee f64_add_ieee fp_add_commute)

end
