(* ===== verification/SF_IntToFloat.thy ===== *)
theory SF_IntToFloat
  imports SF_Fields
begin

text \<open>
  Conversions from integers (\<open>i32_to_f16.c\<close> ... \<open>ui64_to_f64.c\<close>). A signed argument is its
  two's complement word. Every conversion returns the correctly rounded value of the integer.
\<close>

section \<open>The operations\<close>

definition i32_to_f16 :: "u32 \<Rightarrow> sf_state \<Rightarrow> float16_t \<times> sf_state" where
  "i32_to_f16 a st =
     (let sign = (sint a < 0);
          absA = (if sign then - word_of_int (sint a) else word_of_int (sint a)) :: u64;
          shiftDist = int (unat (softfloat_countLeadingZeros32 (ucast absA))) - 21
      in if 0 \<le> shiftDist
         then returnF16 (if a \<noteq> 0
           then packToF16UI sign (0x18 - shiftDist) (push_bit (nat shiftDist) absA) else 0, st)
         else let shiftDist = shiftDist + 4;
                  sig = (if shiftDist < 0
                    then drop_bit (nat (- shiftDist)) absA OR of_bool ((ucast (push_bit (nat (shiftDist mod 32)) absA) :: u32) \<noteq> 0)
                    else push_bit (nat shiftDist) absA)
              in softfloat_roundPackToF16 sign (0x1C - shiftDist) sig st)"

definition ui32_to_f16 :: "u32 \<Rightarrow> sf_state \<Rightarrow> float16_t \<times> sf_state" where
  "ui32_to_f16 a st =
     (let shiftDist = int (unat (softfloat_countLeadingZeros32 a)) - 21
      in if 0 \<le> shiftDist
         then returnF16 (if a \<noteq> 0
           then packToF16UI False (0x18 - shiftDist) (push_bit (nat shiftDist) (ucast a)) else 0, st)
         else let shiftDist = shiftDist + 4;
                  sig = (if shiftDist < 0
                    then ucast (drop_bit (nat (- shiftDist)) a OR of_bool (push_bit (nat (shiftDist mod 32)) a \<noteq> 0))
                    else push_bit (nat shiftDist) (ucast a))
              in softfloat_roundPackToF16 False (0x1C - shiftDist) sig st)"

definition i64_to_f16 :: "u64 \<Rightarrow> sf_state \<Rightarrow> float16_t \<times> sf_state" where
  "i64_to_f16 a st =
     (let sign = (sint a < 0);
          absA = (if sign then - word_of_int (sint a) else word_of_int (sint a)) :: u64;
          shiftDist = int (unat (softfloat_countLeadingZeros64 absA)) - 53
      in if 0 \<le> shiftDist
         then returnF16 (if a \<noteq> 0
           then packToF16UI sign (0x18 - shiftDist) (push_bit (nat shiftDist) absA) else 0, st)
         else let shiftDist = shiftDist + 4;
                  sig = (if shiftDist < 0
                    then softfloat_shortShiftRightJam64 absA (word_of_int (- shiftDist))
                    else push_bit (nat shiftDist) absA)
              in softfloat_roundPackToF16 sign (0x1C - shiftDist) sig st)"

definition ui64_to_f16 :: "u64 \<Rightarrow> sf_state \<Rightarrow> float16_t \<times> sf_state" where
  "ui64_to_f16 a st =
     (let shiftDist = int (unat (softfloat_countLeadingZeros64 a)) - 53
      in if 0 \<le> shiftDist
         then returnF16 (if a \<noteq> 0
           then packToF16UI False (0x18 - shiftDist) (push_bit (nat shiftDist) a) else 0, st)
         else let shiftDist = shiftDist + 4;
                  sig = (if shiftDist < 0
                    then softfloat_shortShiftRightJam64 a (word_of_int (- shiftDist))
                    else push_bit (nat shiftDist) a)
              in softfloat_roundPackToF16 False (0x1C - shiftDist) sig st)"

definition i64_to_f32 :: "u64 \<Rightarrow> sf_state \<Rightarrow> float32_t \<times> sf_state" where
  "i64_to_f32 a st =
     (let sign = (sint a < 0);
          absA = (if sign then - word_of_int (sint a) else word_of_int (sint a)) :: u64;
          shiftDist = int (unat (softfloat_countLeadingZeros64 absA)) - 40
      in if 0 \<le> shiftDist
         then returnF32 (if a \<noteq> 0
           then packToF32UI sign (0x95 - shiftDist) (push_bit (nat shiftDist) absA) else 0, st)
         else let shiftDist = shiftDist + 7;
                  sig = (if shiftDist < 0
                    then softfloat_shortShiftRightJam64 absA (word_of_int (- shiftDist))
                    else push_bit (nat shiftDist) absA)
              in softfloat_roundPackToF32 sign (0x9C - shiftDist) sig st)"

definition ui64_to_f32 :: "u64 \<Rightarrow> sf_state \<Rightarrow> float32_t \<times> sf_state" where
  "ui64_to_f32 a st =
     (let shiftDist = int (unat (softfloat_countLeadingZeros64 a)) - 40
      in if 0 \<le> shiftDist
         then returnF32 (if a \<noteq> 0
           then packToF32UI False (0x95 - shiftDist) (push_bit (nat shiftDist) a) else 0, st)
         else let shiftDist = shiftDist + 7;
                  sig = (if shiftDist < 0
                    then softfloat_shortShiftRightJam64 a (word_of_int (- shiftDist))
                    else push_bit (nat shiftDist) a)
              in softfloat_roundPackToF32 False (0x9C - shiftDist) sig st)"

definition i32_to_f32 :: "u32 \<Rightarrow> sf_state \<Rightarrow> float32_t \<times> sf_state" where
  "i32_to_f32 a st =
     (let sign = (sint a < 0)
      in if a AND 0x7FFFFFFF = 0 then returnF32 (if sign then packToF32UI True 0x9E 0 else 0, st)
         else let absA = (if sign then - word_of_int (sint a) else word_of_int (sint a))
              in softfloat_normRoundPackToF32 sign 0x9C absA st)"

definition ui32_to_f32 :: "u32 \<Rightarrow> sf_state \<Rightarrow> float32_t \<times> sf_state" where
  "ui32_to_f32 a st =
     (if a = 0 then returnF32 (0, st)
      else if a AND 0x80000000 \<noteq> 0
      then softfloat_roundPackToF32 False 0x9D (ucast (drop_bit 1 a OR (a AND 1))) st
      else softfloat_normRoundPackToF32 False 0x9C (ucast a) st)"

definition i32_to_f64 :: "u32 \<Rightarrow> sf_state \<Rightarrow> float64_t \<times> sf_state" where
  "i32_to_f64 a st =
     (let uiZ = (if a = 0 then 0
            else let sign = (sint a < 0);
                     absA = (if sign then - word_of_int (sint a) else word_of_int (sint a)) :: u64;
                     shiftDist = int (unat (softfloat_countLeadingZeros32 (ucast absA))) + 21
                 in packToF64UI sign (0x432 - shiftDist) (push_bit (nat shiftDist) absA))
      in returnF64 (uiZ, st))"

definition ui32_to_f64 :: "u32 \<Rightarrow> sf_state \<Rightarrow> float64_t \<times> sf_state" where
  "ui32_to_f64 a st =
     (let uiZ = (if a = 0 then 0
            else let shiftDist = int (unat (softfloat_countLeadingZeros32 a)) + 21
                 in packToF64UI False (0x432 - shiftDist) (push_bit (nat shiftDist) (ucast a)))
      in returnF64 (uiZ, st))"

definition i64_to_f64 :: "u64 \<Rightarrow> sf_state \<Rightarrow> float64_t \<times> sf_state" where
  "i64_to_f64 a st =
     (let sign = (sint a < 0)
      in if a AND 0x7FFFFFFFFFFFFFFF = 0 then returnF64 (if sign then packToF64UI True 0x43E 0 else 0, st)
         else let absA = (if sign then - word_of_int (sint a) else word_of_int (sint a))
              in softfloat_normRoundPackToF64 sign 0x43C absA st)"

definition ui64_to_f64 :: "u64 \<Rightarrow> sf_state \<Rightarrow> float64_t \<times> sf_state" where
  "ui64_to_f64 a st =
     (if a = 0 then returnF64 (0, st)
      else if a AND 0x8000000000000000 \<noteq> 0
      then softfloat_roundPackToF64 False 0x43D (softfloat_shortShiftRightJam64 a 1) st
      else softfloat_normRoundPackToF64 False 0x43C a st)"

section \<open>Correct rounding\<close>

text \<open>The correctly rounded value of an integer.\<close>

definition int_result :: "fmt \<Rightarrow> sf_state \<Rightarrow> int \<Rightarrow> nat \<times> sf_state" where
  "int_result F st i = ieee_result F st (i < 0) (nat \<bar>i\<bar>) 0"

lemma unat_abs32:
  fixes a :: u32
  shows "unat (if sint a < 0 then - word_of_int (sint a) else word_of_int (sint a) :: u64) = nat \<bar>sint a\<bar>"
    "nat \<bar>sint a\<bar> \<le> 2 ^ 31"
proof -
  have b: "- (2 ^ 31) \<le> sint a" "sint a < 2 ^ 31"
    using sint_range_size [of a] by (simp_all add: word_size)
  then show "nat \<bar>sint a\<bar> \<le> 2 ^ 31" by simp
  show "unat (if sint a < 0 then - word_of_int (sint a) else word_of_int (sint a) :: u64) = nat \<bar>sint a\<bar>"
  proof -
    have "(if sint a < 0 then - word_of_int (sint a) else word_of_int (sint a) :: u64) = word_of_int \<bar>sint a\<bar>"
      by (simp only: abs_if wi_hom_neg split: if_split) blast
    moreover have "unat (word_of_int \<bar>sint a\<bar> :: u64) = nat \<bar>sint a\<bar>"
      using b by (intro unat_of_exp) simp_all
    ultimately show ?thesis by (simp only:)
  qed
qed

lemma unat_abs64:
  fixes a :: u64
  shows "unat (if sint a < 0 then - word_of_int (sint a) else word_of_int (sint a) :: u64) = nat \<bar>sint a\<bar>"
    "nat \<bar>sint a\<bar> \<le> 2 ^ 63"
proof -
  have b: "- (2 ^ 63) \<le> sint a" "sint a < 2 ^ 63"
    using sint_range_size [of a] by (simp_all add: word_size)
  then show "nat \<bar>sint a\<bar> \<le> 2 ^ 63" by simp
  show "unat (if sint a < 0 then - word_of_int (sint a) else word_of_int (sint a) :: u64) = nat \<bar>sint a\<bar>"
  proof -
    have "(if sint a < 0 then - word_of_int (sint a) else word_of_int (sint a) :: u64) = word_of_int \<bar>sint a\<bar>"
      by (simp only: abs_if wi_hom_neg split: if_split) blast
    moreover have "unat (word_of_int \<bar>sint a\<bar> :: u64) = nat \<bar>sint a\<bar>"
      using b by (intro unat_of_exp) simp_all
    ultimately show ?thesis by (simp only:)
  qed
qed

lemma neg_mod_32: "0 < k \<Longrightarrow> k < 32 \<Longrightarrow> nat (- int k mod 32) = (32 - k mod 32) mod 32"
  by (simp add: zmod_zminus1_eq_if)

lemma i32_to_f16_ieee: "bits (i32_to_f16 a st) = int_result f16_fmt st (sint a)"
proof (cases "a = 0")
  case True
  then show ?thesis
    by (simp add: i32_to_f16_def Let_def int_result_def ieee_result_zero zero_result_def returnF16_def bits_def
        unat_countLeadingZeros32)
next
  case False
  define absA :: u64 where "absA = (if sint a < 0 then - word_of_int (sint a) else word_of_int (sint a))"
  have u: "unat absA = nat \<bar>sint a\<bar>" "nat \<bar>sint a\<bar> \<le> 2 ^ 31"
    unfolding absA_def by (rule unat_abs32)+
  define n where "n = nat \<bar>sint a\<bar>"
  have n: "0 < n" using False word_eq_iff_signed [of a 0] by (simp add: n_def)
  then have b0: "0 < bitlen n" by (metis bitlen_eq_0_iff gr0I less_irrefl)
  have u2: "bitlen n \<le> 32" unfolding bitlen_le_iff using u(2) by (simp add: n_def)
  have clz: "int (unat (softfloat_countLeadingZeros32 (ucast absA))) - 21 = 11 - int (bitlen n)"
    using u2 unfolding n_def using u(2) by (simp add: unat_countLeadingZeros32 unat_cast u(1))
  have spec: "int_result f16_fmt st (sint a) = ieee_result f16_fmt st (sint a < 0) n 0"
    by (simp add: int_result_def n_def)
  note code = i32_to_f16_def Let_def absA_def [symmetric] clz
  show ?thesis
  proof (cases "bitlen n \<le> 11")
    case True
    define sd where "sd = 11 - bitlen n"
    have sd: "11 - int (bitlen n) = int sd" "sd < 11" using True b0 by (simp_all add: sd_def)
    have "bitlen n \<le> frac_bits f16_fmt + 1" using True by simp
    moreover have "frac_bits f16_fmt + 1 - bitlen n = sd" by (simp add: sd_def)
    ultimately have r: "ieee_result f16_fmt st (sint a < 0) n 0 =
        (of_bool (sint a < 0) * sign_weight f16_fmt + (nat (24 - int sd) * 2 ^ 10 + n * 2 ^ sd), st)"
      "n * 2 ^ sd < 2 ^ 11"
      using n sd(2) ieee_result_integer(1) [where n = n and F = f16_fmt and w = 4 and st = st and s = "(sint a < 0)"]
        ieee_result_integer(3) [where n = n and F = f16_fmt and w = 4] by simp_all
    have "unat (push_bit sd absA) = n * 2 ^ sd"
      using r(2) by (simp add: unat_push u(1) n_def)
    moreover have "nat (24 - int sd) \<le> 24" by simp
    ultimately have "bits (returnF16 (packToF16UI (sint a < 0) (24 - int sd) (push_bit sd absA), st)) = ieee_result f16_fmt st (sint a < 0) n 0"
      unfolding r(1) using r(2) sd(2) by (subst return_packF16) simp_all
    then show ?thesis unfolding spec code sd(1) using False by simp
  next
    case big: False
    have rp: "bits (softfloat_roundPackToF16 (sint a < 0) (24 - (11 - int (bitlen n))) sig st) = ieee_result f16_fmt st (sint a < 0) n 0"
      if "unat sig = (if 0 \<le> 15 - int (bitlen n) then n * 2 ^ nat (15 - int (bitlen n)) else jam n (2 ^ nat (int (bitlen n) - 15)))" for sig
      using n u2 that by (intro rp16.rp_integer [where sh = "15 - int (bitlen n)"]) simp_all
    show ?thesis
    proof (cases "bitlen n \<le> 15")
      case True
      define c where "c = 15 - bitlen n"
      have c: "15 - int (bitlen n) = int c" using True by (simp add: c_def)
      have "n < 2 ^ bitlen n" by (rule bitlen_bounds)
      then have "n * 2 ^ c < 2 ^ bitlen n * 2 ^ c" by simp
      also have "\<dots> = 2 ^ 15" using True by (simp add: c_def flip: power_add)
      finally have "unat (push_bit c absA) = n * 2 ^ c"
        by (simp add: unat_push u(1) n_def)
      then have "bits (softfloat_roundPackToF16 (sint a < 0) (24 - (11 - int (bitlen n))) (push_bit c absA) st) =
          ieee_result f16_fmt st (sint a < 0) n 0"
        by (intro rp) (simp add: c)
      moreover have "i32_to_f16 a st =
          softfloat_roundPackToF16 (sint a < 0) (24 - (11 - int (bitlen n))) (push_bit c absA) st"
      proof -
        have e: "11 - int (bitlen n) + 4 = int c" "\<not> 0 \<le> 11 - int (bitlen n)"
          "28 - int c = 24 - (11 - int (bitlen n))" using c big by simp_all
        show ?thesis unfolding code e(1) if_not_P [OF e(2)] by (simp add: e(3))
      qed
      ultimately show ?thesis unfolding spec by simp
    next
      case False
      define k where "k = bitlen n - 15"
      have k: "int (bitlen n) - 15 = int k" "0 < k" "15 - int (bitlen n) = - int k" "k \<le> 17"
        using False u2 by (simp_all add: k_def)
      have nk: "nat (int (bitlen n) - 15) = k" using k(1) by simp
      have s: "(ucast (push_bit (nat (- int k mod 32)) absA) :: u32) \<noteq> 0 \<longleftrightarrow> n mod 2 ^ k \<noteq> 0"
        using k u2 sticky_shift_nat [of k 32 n] by (simp add: word_eq_nat unat_cast unat_push u(1) n_def neg_mod_32 mod_mod_cancel)
      have dn: "unat (drop_bit k absA OR of_bool ((ucast (push_bit (nat (- int k mod 32)) absA) :: u32) \<noteq> 0)) = jam n (2 ^ k)"
        unfolding s unat_or_truth unat_drop u(1) n_def [symmetric] by (simp add: jam_def)
      have "bits (softfloat_roundPackToF16 (sint a < 0) (24 - (11 - int (bitlen n))) (drop_bit k absA OR of_bool ((ucast (push_bit (nat (- int k mod 32)) absA) :: u32) \<noteq> 0)) st) =
          ieee_result f16_fmt st (sint a < 0) n 0"
        using k dn by (intro rp) (simp add: nk)
      moreover have "i32_to_f16 a st =
          softfloat_roundPackToF16 (sint a < 0) (24 - (11 - int (bitlen n))) (drop_bit k absA OR of_bool ((ucast (push_bit (nat (- int k mod 32)) absA) :: u32) \<noteq> 0)) st"
      proof -
        have e: "11 - int (bitlen n) + 4 = - int k" "\<not> 0 \<le> 11 - int (bitlen n)" "- int k < 0"
          "28 + int k = 24 - (11 - int (bitlen n))" using k big by simp_all
        show ?thesis unfolding code e(1) if_not_P [OF e(2)] if_P [OF e(3)] by (simp add: e(4))
      qed
      ultimately show ?thesis unfolding spec by simp
    qed
  qed
qed

lemma ui32_to_f16_ieee: "bits (ui32_to_f16 a st) = int_result f16_fmt st (int (unat a))"
proof (cases "a = 0")
  case True
  then show ?thesis
    by (simp add: ui32_to_f16_def Let_def int_result_def ieee_result_zero zero_result_def returnF16_def bits_def
        unat_countLeadingZeros32)
next
  case False
  have u: "unat (ucast a :: u64) = unat a" "unat a < 2 ^ 32" using unat_lt_32 [of a] by (simp_all add: unat_cast)
  define n where "n = unat a"
  have n: "0 < n" using False by (simp add: n_def word_eq_nat)
  then have b0: "0 < bitlen n" by (metis bitlen_eq_0_iff gr0I less_irrefl)
  have u2: "bitlen n \<le> 32" unfolding bitlen_le_iff using u(2) by (simp add: n_def)
  have clz: "int (unat (softfloat_countLeadingZeros32 a)) - 21 = 11 - int (bitlen n)"
    using u2 unfolding n_def by (simp add: unat_countLeadingZeros32)
  have spec: "int_result f16_fmt st (int (unat a)) = ieee_result f16_fmt st False n 0"
    by (simp add: int_result_def n_def)
  note code = ui32_to_f16_def Let_def  clz
  show ?thesis
  proof (cases "bitlen n \<le> 11")
    case True
    define sd where "sd = 11 - bitlen n"
    have sd: "11 - int (bitlen n) = int sd" "sd < 11" using True b0 by (simp_all add: sd_def)
    have "bitlen n \<le> frac_bits f16_fmt + 1" using True by simp
    moreover have "frac_bits f16_fmt + 1 - bitlen n = sd" by (simp add: sd_def)
    ultimately have r: "ieee_result f16_fmt st False n 0 =
        (of_bool False * sign_weight f16_fmt + (nat (24 - int sd) * 2 ^ 10 + n * 2 ^ sd), st)"
      "n * 2 ^ sd < 2 ^ 11"
      using n sd(2) ieee_result_integer(1) [where n = n and F = f16_fmt and w = 4 and st = st and s = "False"]
        ieee_result_integer(3) [where n = n and F = f16_fmt and w = 4] by simp_all
    have "unat (push_bit sd (ucast a :: u64)) = n * 2 ^ sd"
      using r(2) by (simp add: unat_push u(1) n_def)
    moreover have "nat (24 - int sd) \<le> 24" by simp
    ultimately have "bits (returnF16 (packToF16UI False (24 - int sd) (push_bit sd (ucast a :: u64)), st)) = ieee_result f16_fmt st False n 0"
      unfolding r(1) using r(2) sd(2) by (subst return_packF16) simp_all
    then show ?thesis unfolding spec code sd(1) using False by simp
  next
    case big: False
    have rp: "bits (softfloat_roundPackToF16 False (24 - (11 - int (bitlen n))) sig st) = ieee_result f16_fmt st False n 0"
      if "unat sig = (if 0 \<le> 15 - int (bitlen n) then n * 2 ^ nat (15 - int (bitlen n)) else jam n (2 ^ nat (int (bitlen n) - 15)))" for sig
      using n u2 that by (intro rp16.rp_integer [where sh = "15 - int (bitlen n)"]) simp_all
    show ?thesis
    proof (cases "bitlen n \<le> 15")
      case True
      define c where "c = 15 - bitlen n"
      have c: "15 - int (bitlen n) = int c" using True by (simp add: c_def)
      have "n < 2 ^ bitlen n" by (rule bitlen_bounds)
      then have "n * 2 ^ c < 2 ^ bitlen n * 2 ^ c" by simp
      also have "\<dots> = 2 ^ 15" using True by (simp add: c_def flip: power_add)
      finally have "unat (push_bit c (ucast a :: u64)) = n * 2 ^ c"
        by (simp add: unat_push u(1) n_def)
      then have "bits (softfloat_roundPackToF16 False (24 - (11 - int (bitlen n))) (push_bit c (ucast a :: u64)) st) =
          ieee_result f16_fmt st False n 0"
        by (intro rp) (simp add: c)
      moreover have "ui32_to_f16 a st =
          softfloat_roundPackToF16 False (24 - (11 - int (bitlen n))) (push_bit c (ucast a :: u64)) st"
      proof -
        have e: "11 - int (bitlen n) + 4 = int c" "\<not> 0 \<le> 11 - int (bitlen n)"
          "28 - int c = 24 - (11 - int (bitlen n))" using c big by simp_all
        show ?thesis unfolding code e(1) if_not_P [OF e(2)] by (simp add: e(3))
      qed
      ultimately show ?thesis unfolding spec by simp
    next
      case False
      define k where "k = bitlen n - 15"
      have k: "int (bitlen n) - 15 = int k" "0 < k" "15 - int (bitlen n) = - int k" "k \<le> 17"
        using False u2 by (simp_all add: k_def)
      have nk: "nat (int (bitlen n) - 15) = k" using k(1) by simp
      have s: "push_bit (nat (- int k mod 32)) a \<noteq> 0 \<longleftrightarrow> n mod 2 ^ k \<noteq> 0"
        using k u2 sticky_shift_nat [of k 32 n] by (simp add: word_eq_nat unat_push n_def neg_mod_32)
      have "unat (drop_bit k a OR of_bool (push_bit (nat (- int k mod 32)) a \<noteq> 0)) = jam n (2 ^ k)"
        unfolding s unat_or_truth unat_drop n_def [symmetric] by (simp add: jam_def)
      then have dn: "unat (ucast (drop_bit k a OR of_bool (push_bit (nat (- int k mod 32)) a \<noteq> 0)) :: u64) = jam n (2 ^ k)"
        using unat_lt_32 [of "drop_bit k a OR of_bool (push_bit (nat (- int k mod 32)) a \<noteq> 0)"] by (simp add: unat_cast)
      have "bits (softfloat_roundPackToF16 False (24 - (11 - int (bitlen n))) (ucast (drop_bit k a OR of_bool (push_bit (nat (- int k mod 32)) a \<noteq> 0)) :: u64) st) =
          ieee_result f16_fmt st False n 0"
        using k dn by (intro rp) (simp add: nk)
      moreover have "ui32_to_f16 a st =
          softfloat_roundPackToF16 False (24 - (11 - int (bitlen n))) (ucast (drop_bit k a OR of_bool (push_bit (nat (- int k mod 32)) a \<noteq> 0)) :: u64) st"
      proof -
        have e: "11 - int (bitlen n) + 4 = - int k" "\<not> 0 \<le> 11 - int (bitlen n)" "- int k < 0"
          "28 + int k = 24 - (11 - int (bitlen n))" using k big by simp_all
        show ?thesis unfolding code e(1) if_not_P [OF e(2)] if_P [OF e(3)] by (simp add: e(4))
      qed
      ultimately show ?thesis unfolding spec by simp
    qed
  qed
qed

lemma i64_to_f16_ieee: "bits (i64_to_f16 a st) = int_result f16_fmt st (sint a)"
proof (cases "a = 0")
  case True
  then show ?thesis
    by (simp add: i64_to_f16_def Let_def int_result_def ieee_result_zero zero_result_def returnF16_def bits_def
        unat_countLeadingZeros64)
next
  case False
  define absA :: u64 where "absA = (if sint a < 0 then - word_of_int (sint a) else word_of_int (sint a))"
  have u: "unat absA = nat \<bar>sint a\<bar>" "nat \<bar>sint a\<bar> \<le> 2 ^ 63"
    unfolding absA_def by (rule unat_abs64)+
  define n where "n = nat \<bar>sint a\<bar>"
  have n: "0 < n" using False word_eq_iff_signed [of a 0] by (simp add: n_def)
  then have b0: "0 < bitlen n" by (metis bitlen_eq_0_iff gr0I less_irrefl)
  have u2: "bitlen n \<le> 64" unfolding bitlen_le_iff using u(2) by (simp add: n_def)
  have clz: "int (unat (softfloat_countLeadingZeros64 absA)) - 53 = 11 - int (bitlen n)"
    using u2 unfolding n_def by (simp add: unat_countLeadingZeros64 u(1))
  have spec: "int_result f16_fmt st (sint a) = ieee_result f16_fmt st (sint a < 0) n 0"
    by (simp add: int_result_def n_def)
  note code = i64_to_f16_def Let_def absA_def [symmetric] clz
  show ?thesis
  proof (cases "bitlen n \<le> 11")
    case True
    define sd where "sd = 11 - bitlen n"
    have sd: "11 - int (bitlen n) = int sd" "sd < 11" using True b0 by (simp_all add: sd_def)
    have "bitlen n \<le> frac_bits f16_fmt + 1" using True by simp
    moreover have "frac_bits f16_fmt + 1 - bitlen n = sd" by (simp add: sd_def)
    ultimately have r: "ieee_result f16_fmt st (sint a < 0) n 0 =
        (of_bool (sint a < 0) * sign_weight f16_fmt + (nat (24 - int sd) * 2 ^ 10 + n * 2 ^ sd), st)"
      "n * 2 ^ sd < 2 ^ 11"
      using n sd(2) ieee_result_integer(1) [where n = n and F = f16_fmt and w = 4 and st = st and s = "(sint a < 0)"]
        ieee_result_integer(3) [where n = n and F = f16_fmt and w = 4] by simp_all
    have "unat (push_bit sd absA) = n * 2 ^ sd"
      using r(2) by (simp add: unat_push u(1) n_def)
    moreover have "nat (24 - int sd) \<le> 24" by simp
    ultimately have "bits (returnF16 (packToF16UI (sint a < 0) (24 - int sd) (push_bit sd absA), st)) = ieee_result f16_fmt st (sint a < 0) n 0"
      unfolding r(1) using r(2) sd(2) by (subst return_packF16) simp_all
    then show ?thesis unfolding spec code sd(1) using False by simp
  next
    case big: False
    have rp: "bits (softfloat_roundPackToF16 (sint a < 0) (24 - (11 - int (bitlen n))) sig st) = ieee_result f16_fmt st (sint a < 0) n 0"
      if "unat sig = (if 0 \<le> 15 - int (bitlen n) then n * 2 ^ nat (15 - int (bitlen n)) else jam n (2 ^ nat (int (bitlen n) - 15)))" for sig
      using n u2 that by (intro rp16.rp_integer [where sh = "15 - int (bitlen n)"]) simp_all
    show ?thesis
    proof (cases "bitlen n \<le> 15")
      case True
      define c where "c = 15 - bitlen n"
      have c: "15 - int (bitlen n) = int c" using True by (simp add: c_def)
      have "n < 2 ^ bitlen n" by (rule bitlen_bounds)
      then have "n * 2 ^ c < 2 ^ bitlen n * 2 ^ c" by simp
      also have "\<dots> = 2 ^ 15" using True by (simp add: c_def flip: power_add)
      finally have "unat (push_bit c absA) = n * 2 ^ c"
        by (simp add: unat_push u(1) n_def)
      then have "bits (softfloat_roundPackToF16 (sint a < 0) (24 - (11 - int (bitlen n))) (push_bit c absA) st) =
          ieee_result f16_fmt st (sint a < 0) n 0"
        by (intro rp) (simp add: c)
      moreover have "i64_to_f16 a st =
          softfloat_roundPackToF16 (sint a < 0) (24 - (11 - int (bitlen n))) (push_bit c absA) st"
      proof -
        have e: "11 - int (bitlen n) + 4 = int c" "\<not> 0 \<le> 11 - int (bitlen n)"
          "28 - int c = 24 - (11 - int (bitlen n))" using c big by simp_all
        show ?thesis unfolding code e(1) if_not_P [OF e(2)] by (simp add: e(3))
      qed
      ultimately show ?thesis unfolding spec by simp
    next
      case False
      define k where "k = bitlen n - 15"
      have k: "int (bitlen n) - 15 = int k" "0 < k" "15 - int (bitlen n) = - int k" "k \<le> 49"
        using False u2 by (simp_all add: k_def)
      have nk: "nat (int (bitlen n) - 15) = k" using k(1) by simp
      have "unat (word_of_int (int k) :: u8) = k" using k u2 unat_of_exp [of "int k", where 'a = 8] by simp
      then have dn: "unat (softfloat_shortShiftRightJam64 absA (word_of_int (int k))) = jam n (2 ^ k)"
        using k u2 by (subst unat_shortShiftRightJam64) (simp_all add: word_less_nat_alt u(1) n_def)
      have "bits (softfloat_roundPackToF16 (sint a < 0) (24 - (11 - int (bitlen n))) (softfloat_shortShiftRightJam64 absA (word_of_int (int k))) st) =
          ieee_result f16_fmt st (sint a < 0) n 0"
        using k dn by (intro rp) (simp add: nk)
      moreover have "i64_to_f16 a st =
          softfloat_roundPackToF16 (sint a < 0) (24 - (11 - int (bitlen n))) (softfloat_shortShiftRightJam64 absA (word_of_int (int k))) st"
      proof -
        have e: "11 - int (bitlen n) + 4 = - int k" "\<not> 0 \<le> 11 - int (bitlen n)" "- int k < 0"
          "28 + int k = 24 - (11 - int (bitlen n))" using k big by simp_all
        show ?thesis unfolding code e(1) if_not_P [OF e(2)] if_P [OF e(3)] by (simp add: e(4))
      qed
      ultimately show ?thesis unfolding spec by simp
    qed
  qed
qed

lemma ui64_to_f16_ieee: "bits (ui64_to_f16 a st) = int_result f16_fmt st (int (unat a))"
proof (cases "a = 0")
  case True
  then show ?thesis
    by (simp add: ui64_to_f16_def Let_def int_result_def ieee_result_zero zero_result_def returnF16_def bits_def
        unat_countLeadingZeros64)
next
  case False
  have u: "unat a < 2 ^ 64" using unat_lt_64 [of a] by simp_all
  define n where "n = unat a"
  have n: "0 < n" using False by (simp add: n_def word_eq_nat)
  then have b0: "0 < bitlen n" by (metis bitlen_eq_0_iff gr0I less_irrefl)
  have u2: "bitlen n \<le> 64" unfolding bitlen_le_iff using u by (simp add: n_def)
  have clz: "int (unat (softfloat_countLeadingZeros64 a)) - 53 = 11 - int (bitlen n)"
    using u2 unfolding n_def by (simp add: unat_countLeadingZeros64)
  have spec: "int_result f16_fmt st (int (unat a)) = ieee_result f16_fmt st False n 0"
    by (simp add: int_result_def n_def)
  note code = ui64_to_f16_def Let_def  clz
  show ?thesis
  proof (cases "bitlen n \<le> 11")
    case True
    define sd where "sd = 11 - bitlen n"
    have sd: "11 - int (bitlen n) = int sd" "sd < 11" using True b0 by (simp_all add: sd_def)
    have "bitlen n \<le> frac_bits f16_fmt + 1" using True by simp
    moreover have "frac_bits f16_fmt + 1 - bitlen n = sd" by (simp add: sd_def)
    ultimately have r: "ieee_result f16_fmt st False n 0 =
        (of_bool False * sign_weight f16_fmt + (nat (24 - int sd) * 2 ^ 10 + n * 2 ^ sd), st)"
      "n * 2 ^ sd < 2 ^ 11"
      using n sd(2) ieee_result_integer(1) [where n = n and F = f16_fmt and w = 4 and st = st and s = "False"]
        ieee_result_integer(3) [where n = n and F = f16_fmt and w = 4] by simp_all
    have "unat (push_bit sd a) = n * 2 ^ sd"
      using r(2) by (simp add: unat_push n_def)
    moreover have "nat (24 - int sd) \<le> 24" by simp
    ultimately have "bits (returnF16 (packToF16UI False (24 - int sd) (push_bit sd a), st)) = ieee_result f16_fmt st False n 0"
      unfolding r(1) using r(2) sd(2) by (subst return_packF16) simp_all
    then show ?thesis unfolding spec code sd(1) using False by simp
  next
    case big: False
    have rp: "bits (softfloat_roundPackToF16 False (24 - (11 - int (bitlen n))) sig st) = ieee_result f16_fmt st False n 0"
      if "unat sig = (if 0 \<le> 15 - int (bitlen n) then n * 2 ^ nat (15 - int (bitlen n)) else jam n (2 ^ nat (int (bitlen n) - 15)))" for sig
      using n u2 that by (intro rp16.rp_integer [where sh = "15 - int (bitlen n)"]) simp_all
    show ?thesis
    proof (cases "bitlen n \<le> 15")
      case True
      define c where "c = 15 - bitlen n"
      have c: "15 - int (bitlen n) = int c" using True by (simp add: c_def)
      have "n < 2 ^ bitlen n" by (rule bitlen_bounds)
      then have "n * 2 ^ c < 2 ^ bitlen n * 2 ^ c" by simp
      also have "\<dots> = 2 ^ 15" using True by (simp add: c_def flip: power_add)
      finally have "unat (push_bit c a) = n * 2 ^ c"
        by (simp add: unat_push n_def)
      then have "bits (softfloat_roundPackToF16 False (24 - (11 - int (bitlen n))) (push_bit c a) st) =
          ieee_result f16_fmt st False n 0"
        by (intro rp) (simp add: c)
      moreover have "ui64_to_f16 a st =
          softfloat_roundPackToF16 False (24 - (11 - int (bitlen n))) (push_bit c a) st"
      proof -
        have e: "11 - int (bitlen n) + 4 = int c" "\<not> 0 \<le> 11 - int (bitlen n)"
          "28 - int c = 24 - (11 - int (bitlen n))" using c big by simp_all
        show ?thesis unfolding code e(1) if_not_P [OF e(2)] by (simp add: e(3))
      qed
      ultimately show ?thesis unfolding spec by simp
    next
      case False
      define k where "k = bitlen n - 15"
      have k: "int (bitlen n) - 15 = int k" "0 < k" "15 - int (bitlen n) = - int k" "k \<le> 49"
        using False u2 by (simp_all add: k_def)
      have nk: "nat (int (bitlen n) - 15) = k" using k(1) by simp
      have "unat (word_of_int (int k) :: u8) = k" using k u2 unat_of_exp [of "int k", where 'a = 8] by simp
      then have dn: "unat (softfloat_shortShiftRightJam64 a (word_of_int (int k))) = jam n (2 ^ k)"
        using k u2 by (subst unat_shortShiftRightJam64) (simp_all add: word_less_nat_alt n_def)
      have "bits (softfloat_roundPackToF16 False (24 - (11 - int (bitlen n))) (softfloat_shortShiftRightJam64 a (word_of_int (int k))) st) =
          ieee_result f16_fmt st False n 0"
        using k dn by (intro rp) (simp add: nk)
      moreover have "ui64_to_f16 a st =
          softfloat_roundPackToF16 False (24 - (11 - int (bitlen n))) (softfloat_shortShiftRightJam64 a (word_of_int (int k))) st"
      proof -
        have e: "11 - int (bitlen n) + 4 = - int k" "\<not> 0 \<le> 11 - int (bitlen n)" "- int k < 0"
          "28 + int k = 24 - (11 - int (bitlen n))" using k big by simp_all
        show ?thesis unfolding code e(1) if_not_P [OF e(2)] if_P [OF e(3)] by (simp add: e(4))
      qed
      ultimately show ?thesis unfolding spec by simp
    qed
  qed
qed

lemma i64_to_f32_ieee: "bits (i64_to_f32 a st) = int_result f32_fmt st (sint a)"
proof (cases "a = 0")
  case True
  then show ?thesis
    by (simp add: i64_to_f32_def Let_def int_result_def ieee_result_zero zero_result_def returnF32_def bits_def
        unat_countLeadingZeros64)
next
  case False
  define absA :: u64 where "absA = (if sint a < 0 then - word_of_int (sint a) else word_of_int (sint a))"
  have u: "unat absA = nat \<bar>sint a\<bar>" "nat \<bar>sint a\<bar> \<le> 2 ^ 63"
    unfolding absA_def by (rule unat_abs64)+
  define n where "n = nat \<bar>sint a\<bar>"
  have n: "0 < n" using False word_eq_iff_signed [of a 0] by (simp add: n_def)
  then have b0: "0 < bitlen n" by (metis bitlen_eq_0_iff gr0I less_irrefl)
  have u2: "bitlen n \<le> 64" unfolding bitlen_le_iff using u(2) by (simp add: n_def)
  have clz: "int (unat (softfloat_countLeadingZeros64 absA)) - 40 = 24 - int (bitlen n)"
    using u2 unfolding n_def by (simp add: unat_countLeadingZeros64 u(1))
  have spec: "int_result f32_fmt st (sint a) = ieee_result f32_fmt st (sint a < 0) n 0"
    by (simp add: int_result_def n_def)
  note code = i64_to_f32_def Let_def absA_def [symmetric] clz
  show ?thesis
  proof (cases "bitlen n \<le> 24")
    case True
    define sd where "sd = 24 - bitlen n"
    have sd: "24 - int (bitlen n) = int sd" "sd < 24" using True b0 by (simp_all add: sd_def)
    have "bitlen n \<le> frac_bits f32_fmt + 1" using True by simp
    moreover have "frac_bits f32_fmt + 1 - bitlen n = sd" by (simp add: sd_def)
    ultimately have r: "ieee_result f32_fmt st (sint a < 0) n 0 =
        (of_bool (sint a < 0) * sign_weight f32_fmt + (nat (149 - int sd) * 2 ^ 23 + n * 2 ^ sd), st)"
      "n * 2 ^ sd < 2 ^ 24"
      using n sd(2) ieee_result_integer(1) [where n = n and F = f32_fmt and w = 7 and st = st and s = "(sint a < 0)"]
        ieee_result_integer(3) [where n = n and F = f32_fmt and w = 7] by simp_all
    have "unat (push_bit sd absA) = n * 2 ^ sd"
      using r(2) by (simp add: unat_push u(1) n_def)
    moreover have "nat (149 - int sd) \<le> 149" by simp
    ultimately have "bits (returnF32 (packToF32UI (sint a < 0) (149 - int sd) (push_bit sd absA), st)) = ieee_result f32_fmt st (sint a < 0) n 0"
      unfolding r(1) using r(2) sd(2) by (subst return_packF32) simp_all
    then show ?thesis unfolding spec code sd(1) using False by simp
  next
    case big: False
    have rp: "bits (softfloat_roundPackToF32 (sint a < 0) (149 - (24 - int (bitlen n))) sig st) = ieee_result f32_fmt st (sint a < 0) n 0"
      if "unat sig = (if 0 \<le> 31 - int (bitlen n) then n * 2 ^ nat (31 - int (bitlen n)) else jam n (2 ^ nat (int (bitlen n) - 31)))" for sig
      using n u2 that by (intro rp32.rp_integer [where sh = "31 - int (bitlen n)"]) simp_all
    show ?thesis
    proof (cases "bitlen n \<le> 31")
      case True
      define c where "c = 31 - bitlen n"
      have c: "31 - int (bitlen n) = int c" using True by (simp add: c_def)
      have "n < 2 ^ bitlen n" by (rule bitlen_bounds)
      then have "n * 2 ^ c < 2 ^ bitlen n * 2 ^ c" by simp
      also have "\<dots> = 2 ^ 31" using True by (simp add: c_def flip: power_add)
      finally have "unat (push_bit c absA) = n * 2 ^ c"
        by (simp add: unat_push u(1) n_def)
      then have "bits (softfloat_roundPackToF32 (sint a < 0) (149 - (24 - int (bitlen n))) (push_bit c absA) st) =
          ieee_result f32_fmt st (sint a < 0) n 0"
        by (intro rp) (simp add: c)
      moreover have "i64_to_f32 a st =
          softfloat_roundPackToF32 (sint a < 0) (149 - (24 - int (bitlen n))) (push_bit c absA) st"
      proof -
        have e: "24 - int (bitlen n) + 7 = int c" "\<not> 0 \<le> 24 - int (bitlen n)"
          "156 - int c = 149 - (24 - int (bitlen n))" using c big by simp_all
        show ?thesis unfolding code e(1) if_not_P [OF e(2)] by (simp add: e(3))
      qed
      ultimately show ?thesis unfolding spec by simp
    next
      case False
      define k where "k = bitlen n - 31"
      have k: "int (bitlen n) - 31 = int k" "0 < k" "31 - int (bitlen n) = - int k" "k \<le> 33"
        using False u2 by (simp_all add: k_def)
      have nk: "nat (int (bitlen n) - 31) = k" using k(1) by simp
      have "unat (word_of_int (int k) :: u8) = k" using k u2 unat_of_exp [of "int k", where 'a = 8] by simp
      then have dn: "unat (softfloat_shortShiftRightJam64 absA (word_of_int (int k))) = jam n (2 ^ k)"
        using k u2 by (subst unat_shortShiftRightJam64) (simp_all add: word_less_nat_alt u(1) n_def)
      have "bits (softfloat_roundPackToF32 (sint a < 0) (149 - (24 - int (bitlen n))) (softfloat_shortShiftRightJam64 absA (word_of_int (int k))) st) =
          ieee_result f32_fmt st (sint a < 0) n 0"
        using k dn by (intro rp) (simp add: nk)
      moreover have "i64_to_f32 a st =
          softfloat_roundPackToF32 (sint a < 0) (149 - (24 - int (bitlen n))) (softfloat_shortShiftRightJam64 absA (word_of_int (int k))) st"
      proof -
        have e: "24 - int (bitlen n) + 7 = - int k" "\<not> 0 \<le> 24 - int (bitlen n)" "- int k < 0"
          "156 + int k = 149 - (24 - int (bitlen n))" using k big by simp_all
        show ?thesis unfolding code e(1) if_not_P [OF e(2)] if_P [OF e(3)] by (simp add: e(4))
      qed
      ultimately show ?thesis unfolding spec by simp
    qed
  qed
qed

lemma ui64_to_f32_ieee: "bits (ui64_to_f32 a st) = int_result f32_fmt st (int (unat a))"
proof (cases "a = 0")
  case True
  then show ?thesis
    by (simp add: ui64_to_f32_def Let_def int_result_def ieee_result_zero zero_result_def returnF32_def bits_def
        unat_countLeadingZeros64)
next
  case False
  have u: "unat a < 2 ^ 64" using unat_lt_64 [of a] by simp_all
  define n where "n = unat a"
  have n: "0 < n" using False by (simp add: n_def word_eq_nat)
  then have b0: "0 < bitlen n" by (metis bitlen_eq_0_iff gr0I less_irrefl)
  have u2: "bitlen n \<le> 64" unfolding bitlen_le_iff using u by (simp add: n_def)
  have clz: "int (unat (softfloat_countLeadingZeros64 a)) - 40 = 24 - int (bitlen n)"
    using u2 unfolding n_def by (simp add: unat_countLeadingZeros64)
  have spec: "int_result f32_fmt st (int (unat a)) = ieee_result f32_fmt st False n 0"
    by (simp add: int_result_def n_def)
  note code = ui64_to_f32_def Let_def  clz
  show ?thesis
  proof (cases "bitlen n \<le> 24")
    case True
    define sd where "sd = 24 - bitlen n"
    have sd: "24 - int (bitlen n) = int sd" "sd < 24" using True b0 by (simp_all add: sd_def)
    have "bitlen n \<le> frac_bits f32_fmt + 1" using True by simp
    moreover have "frac_bits f32_fmt + 1 - bitlen n = sd" by (simp add: sd_def)
    ultimately have r: "ieee_result f32_fmt st False n 0 =
        (of_bool False * sign_weight f32_fmt + (nat (149 - int sd) * 2 ^ 23 + n * 2 ^ sd), st)"
      "n * 2 ^ sd < 2 ^ 24"
      using n sd(2) ieee_result_integer(1) [where n = n and F = f32_fmt and w = 7 and st = st and s = "False"]
        ieee_result_integer(3) [where n = n and F = f32_fmt and w = 7] by simp_all
    have "unat (push_bit sd a) = n * 2 ^ sd"
      using r(2) by (simp add: unat_push n_def)
    moreover have "nat (149 - int sd) \<le> 149" by simp
    ultimately have "bits (returnF32 (packToF32UI False (149 - int sd) (push_bit sd a), st)) = ieee_result f32_fmt st False n 0"
      unfolding r(1) using r(2) sd(2) by (subst return_packF32) simp_all
    then show ?thesis unfolding spec code sd(1) using False by simp
  next
    case big: False
    have rp: "bits (softfloat_roundPackToF32 False (149 - (24 - int (bitlen n))) sig st) = ieee_result f32_fmt st False n 0"
      if "unat sig = (if 0 \<le> 31 - int (bitlen n) then n * 2 ^ nat (31 - int (bitlen n)) else jam n (2 ^ nat (int (bitlen n) - 31)))" for sig
      using n u2 that by (intro rp32.rp_integer [where sh = "31 - int (bitlen n)"]) simp_all
    show ?thesis
    proof (cases "bitlen n \<le> 31")
      case True
      define c where "c = 31 - bitlen n"
      have c: "31 - int (bitlen n) = int c" using True by (simp add: c_def)
      have "n < 2 ^ bitlen n" by (rule bitlen_bounds)
      then have "n * 2 ^ c < 2 ^ bitlen n * 2 ^ c" by simp
      also have "\<dots> = 2 ^ 31" using True by (simp add: c_def flip: power_add)
      finally have "unat (push_bit c a) = n * 2 ^ c"
        by (simp add: unat_push n_def)
      then have "bits (softfloat_roundPackToF32 False (149 - (24 - int (bitlen n))) (push_bit c a) st) =
          ieee_result f32_fmt st False n 0"
        by (intro rp) (simp add: c)
      moreover have "ui64_to_f32 a st =
          softfloat_roundPackToF32 False (149 - (24 - int (bitlen n))) (push_bit c a) st"
      proof -
        have e: "24 - int (bitlen n) + 7 = int c" "\<not> 0 \<le> 24 - int (bitlen n)"
          "156 - int c = 149 - (24 - int (bitlen n))" using c big by simp_all
        show ?thesis unfolding code e(1) if_not_P [OF e(2)] by (simp add: e(3))
      qed
      ultimately show ?thesis unfolding spec by simp
    next
      case False
      define k where "k = bitlen n - 31"
      have k: "int (bitlen n) - 31 = int k" "0 < k" "31 - int (bitlen n) = - int k" "k \<le> 33"
        using False u2 by (simp_all add: k_def)
      have nk: "nat (int (bitlen n) - 31) = k" using k(1) by simp
      have "unat (word_of_int (int k) :: u8) = k" using k u2 unat_of_exp [of "int k", where 'a = 8] by simp
      then have dn: "unat (softfloat_shortShiftRightJam64 a (word_of_int (int k))) = jam n (2 ^ k)"
        using k u2 by (subst unat_shortShiftRightJam64) (simp_all add: word_less_nat_alt n_def)
      have "bits (softfloat_roundPackToF32 False (149 - (24 - int (bitlen n))) (softfloat_shortShiftRightJam64 a (word_of_int (int k))) st) =
          ieee_result f32_fmt st False n 0"
        using k dn by (intro rp) (simp add: nk)
      moreover have "ui64_to_f32 a st =
          softfloat_roundPackToF32 False (149 - (24 - int (bitlen n))) (softfloat_shortShiftRightJam64 a (word_of_int (int k))) st"
      proof -
        have e: "24 - int (bitlen n) + 7 = - int k" "\<not> 0 \<le> 24 - int (bitlen n)" "- int k < 0"
          "156 + int k = 149 - (24 - int (bitlen n))" using k big by simp_all
        show ?thesis unfolding code e(1) if_not_P [OF e(2)] if_P [OF e(3)] by (simp add: e(4))
      qed
      ultimately show ?thesis unfolding spec by simp
    qed
  qed
qed

lemma sint_small_32: "- (2 ^ 31) \<le> i \<Longrightarrow> i < 2 ^ 31 \<Longrightarrow> sint (word_of_int i :: u32) = i"
  using sint_sbintrunc' [of i, where 'a = 32] signed_take_bit_int_eq_self [of 31 i] by simp

lemma sint_unat_32: "sint (a :: u32) = int (unat a) - (if 2 ^ 31 \<le> unat a then 2 ^ 32 else 0)"
proof (cases "2 ^ 31 \<le> unat a")
  case True
  have "(word_of_int (int (unat a) - 2 ^ 32) :: u32) = word_of_int (int (unat a)) - word_of_int (2 ^ 32)"
    by (rule of_int_diff)
  also have "(word_of_int (2 ^ 32) :: u32) = 0" by simp
  also have "word_of_int (int (unat a)) - 0 = a" by simp
  finally have e: "(word_of_int (int (unat a) - 2 ^ 32) :: u32) = a" .
  define n where "n = unat a"
  have "2 ^ 31 \<le> n" "n < 4294967296" using True unat_lt_32 [of a] by (simp_all add: n_def)
  then have b: "- (2 ^ 31) \<le> int n - 2 ^ 32" "int n - 2 ^ 32 < 2 ^ 31" by simp_all
  show ?thesis using sint_small_32 [OF b] True unfolding n_def e by simp
next
  case False
  define n where "n = unat a"
  have "n < 2 ^ 31" using False by (simp add: n_def)
  then have b: "- (2 ^ 31) \<le> int n" "int n < 2 ^ 31" by simp_all
  show ?thesis using sint_small_32 [OF b] False unfolding n_def by simp
qed

lemma low_bits_32: "(a :: u32) AND 0x7FFFFFFF = 0 \<longleftrightarrow> a = 0 \<or> sint a = - (2 ^ 31)"
proof -
  define n where "n = unat a"
  have n: "n < 4294967296" using unat_lt_32 [of a] by (simp add: n_def)
  have "a AND 0x7FFFFFFF = 0 \<longleftrightarrow> n mod 2 ^ 31 = 0" unfolding word_eq_nat unat_conj n_def by (simp add: bits_nat)
  also have "\<dots> \<longleftrightarrow> n = 0 \<or> n = 2 ^ 31" using n by (auto elim!: dvdE)
  also have "n = 2 ^ 31 \<longleftrightarrow> sint a = - (2 ^ 31)"
    unfolding sint_unat_32 n_def [symmetric] by auto
  finally show ?thesis by (simp add: word_eq_nat n_def)
qed

lemma sint_small_64: "- (2 ^ 63) \<le> i \<Longrightarrow> i < 2 ^ 63 \<Longrightarrow> sint (word_of_int i :: u64) = i"
  using sint_sbintrunc' [of i, where 'a = 64] signed_take_bit_int_eq_self [of 63 i] by simp

lemma sint_unat_64: "sint (a :: u64) = int (unat a) - (if 2 ^ 63 \<le> unat a then 2 ^ 64 else 0)"
proof (cases "2 ^ 63 \<le> unat a")
  case True
  have "(word_of_int (int (unat a) - 2 ^ 64) :: u64) = word_of_int (int (unat a)) - word_of_int (2 ^ 64)"
    by (rule of_int_diff)
  also have "(word_of_int (2 ^ 64) :: u64) = 0" by simp
  also have "word_of_int (int (unat a)) - 0 = a" by simp
  finally have e: "(word_of_int (int (unat a) - 2 ^ 64) :: u64) = a" .
  define n where "n = unat a"
  have "2 ^ 63 \<le> n" "n < 18446744073709551616" using True unat_lt_64 [of a] by (simp_all add: n_def)
  then have b: "- (2 ^ 63) \<le> int n - 2 ^ 64" "int n - 2 ^ 64 < 2 ^ 63" by simp_all
  show ?thesis using sint_small_64 [OF b] True unfolding n_def e by simp
next
  case False
  define n where "n = unat a"
  have "n < 2 ^ 63" using False by (simp add: n_def)
  then have b: "- (2 ^ 63) \<le> int n" "int n < 2 ^ 63" by simp_all
  show ?thesis using sint_small_64 [OF b] False unfolding n_def by simp
qed

lemma low_bits_64: "(a :: u64) AND 0x7FFFFFFFFFFFFFFF = 0 \<longleftrightarrow> a = 0 \<or> sint a = - (2 ^ 63)"
proof -
  define n where "n = unat a"
  have n: "n < 18446744073709551616" using unat_lt_64 [of a] by (simp add: n_def)
  have "a AND 0x7FFFFFFFFFFFFFFF = 0 \<longleftrightarrow> n mod 2 ^ 63 = 0" unfolding word_eq_nat unat_conj n_def by (simp add: bits_nat)
  also have "\<dots> \<longleftrightarrow> n = 0 \<or> n = 2 ^ 63" using n by (auto elim!: dvdE)
  also have "n = 2 ^ 63 \<longleftrightarrow> sint a = - (2 ^ 63)"
    unfolding sint_unat_64 n_def [symmetric] by auto
  finally show ?thesis by (simp add: word_eq_nat n_def)
qed

lemma i32_to_f32_ieee: "bits (i32_to_f32 a st) = int_result f32_fmt st (sint a)"
proof -
  define absA :: u64 where "absA = (if sint a < 0 then - word_of_int (sint a) else word_of_int (sint a))"
  have u: "unat absA = nat \<bar>sint a\<bar>" "nat \<bar>sint a\<bar> \<le> 2 ^ 31"
    unfolding absA_def by (rule unat_abs32)+
  note low = low_bits_32 [of a]
  show ?thesis
  proof (cases "a AND 0x7FFFFFFF = 0")
    case True
    then consider "a = 0" | "sint a = - (2 ^ 31)" using low by blast
    then show ?thesis
    proof cases
      case 1
      then show ?thesis
        by (simp add: i32_to_f32_def int_result_def ieee_result_zero zero_result_def returnF32_def bits_def)
    next
      case 2
      have "ieee_result f32_fmt st True (2 ^ 31) 0 = (sign_weight f32_fmt + (0x9E * 2 ^ 23), st)"
        using ieee_result_exact [where F = f32_fmt and w = 7 and q = "2 ^ 23" and x = "0x9E - 1" and st = st and s = True] ieee_result_double [of f32_fmt st True 1 31 31]
          ieee_result_double [of f32_fmt st True 1 "23 + 7" 31] by (simp add: pack_exp_def)
      then show ?thesis
        using 2 True return_packF32 [where exp = "0x9E" and sig = 0 and sign = True and st = st] by (simp add: i32_to_f32_def int_result_def)
    qed
  next
    case False
    have b: "- (2 ^ 31) \<le> sint a" "sint a < 2 ^ 31"
      using sint_range_size [of a] by (simp_all add: word_size)
    have "sint a \<noteq> 0" using False low word_eq_iff_signed [of a 0] by auto
    moreover have "sint a \<noteq> - (2 ^ 31)" using False low by blast
    then have "\<bar>sint a\<bar> < 2 ^ 31" using b by linarith
    then have "nat \<bar>sint a\<bar> < 2 ^ 31" by (simp add: nat_less_iff)
    note facts = calculation this
    then have "bits (softfloat_normRoundPackToF32 (sint a < 0) 0x9C absA st) =
        ieee_result f32_fmt st (sint a < 0) (nat \<bar>sint a\<bar>) (pack_exp f32_fmt 7 0x9C)"
      using nrp32.nrp_ieee [where sig = absA and exp = "0x9C" and s = "sint a < 0" and st = st] facts by (simp add: u(1))
    then show ?thesis
      using False by (simp add: i32_to_f32_def Let_def int_result_def pack_exp_def flip: absA_def)
  qed
qed

lemma i64_to_f64_ieee: "bits (i64_to_f64 a st) = int_result f64_fmt st (sint a)"
proof -
  define absA :: u64 where "absA = (if sint a < 0 then - word_of_int (sint a) else word_of_int (sint a))"
  have u: "unat absA = nat \<bar>sint a\<bar>" "nat \<bar>sint a\<bar> \<le> 2 ^ 63"
    unfolding absA_def by (rule unat_abs64)+
  note low = low_bits_64 [of a]
  show ?thesis
  proof (cases "a AND 0x7FFFFFFFFFFFFFFF = 0")
    case True
    then consider "a = 0" | "sint a = - (2 ^ 63)" using low by blast
    then show ?thesis
    proof cases
      case 1
      then show ?thesis
        by (simp add: i64_to_f64_def int_result_def ieee_result_zero zero_result_def returnF64_def bits_def)
    next
      case 2
      have "ieee_result f64_fmt st True (2 ^ 63) 0 = (sign_weight f64_fmt + (0x43E * 2 ^ 52), st)"
        using ieee_result_exact [where F = f64_fmt and w = 10 and q = "2 ^ 52" and x = "0x43E - 1" and st = st and s = True] ieee_result_double [of f64_fmt st True 1 63 63]
          ieee_result_double [of f64_fmt st True 1 "52 + 10" 63] by (simp add: pack_exp_def)
      then show ?thesis
        using 2 True return_packF64 [where exp = "0x43E" and sig = 0 and sign = True and st = st] by (simp add: i64_to_f64_def int_result_def)
    qed
  next
    case False
    have b: "- (2 ^ 63) \<le> sint a" "sint a < 2 ^ 63"
      using sint_range_size [of a] by (simp_all add: word_size)
    have "sint a \<noteq> 0" using False low word_eq_iff_signed [of a 0] by auto
    moreover have "sint a \<noteq> - (2 ^ 63)" using False low by blast
    then have "\<bar>sint a\<bar> < 2 ^ 63" using b by linarith
    then have "nat \<bar>sint a\<bar> < 2 ^ 63" by (simp add: nat_less_iff)
    note facts = calculation this
    then have "bits (softfloat_normRoundPackToF64 (sint a < 0) 0x43C absA st) =
        ieee_result f64_fmt st (sint a < 0) (nat \<bar>sint a\<bar>) (pack_exp f64_fmt 10 0x43C)"
      using nrp64.nrp_ieee [where sig = absA and exp = "0x43C" and s = "sint a < 0" and st = st] facts by (simp add: u(1))
    then show ?thesis
      using False by (simp add: i64_to_f64_def Let_def int_result_def pack_exp_def flip: absA_def)
  qed
qed

lemma top_bit_32: "(a :: u32) AND 0x80000000 \<noteq> 0 \<longleftrightarrow> 2 ^ 31 \<le> unat a"
proof -
  have "unat (a AND 0x80000000) = (unat a div 2 ^ 31 AND 1) * 2 ^ 31"
    using and_high_mask [of "unat a" 1 31] by (simp add: unat_conj)
  moreover have "unat a div 2 ^ 31 < 2" using unat_lt_32 [of a] by (simp add: less_mult_imp_div_less)
  ultimately show ?thesis unfolding word_eq_nat by (cases "2 ^ 31 \<le> unat a") (auto simp: less_2_cases_iff div_eq_0_iff bits_nat)
qed

lemma top_bit_64: "(a :: u64) AND 0x8000000000000000 \<noteq> 0 \<longleftrightarrow> 2 ^ 63 \<le> unat a"
proof -
  have "unat (a AND 0x8000000000000000) = (unat a div 2 ^ 63 AND 1) * 2 ^ 63"
    using and_high_mask [of "unat a" 1 63] by (simp add: unat_conj)
  moreover have "unat a div 2 ^ 63 < 2" using unat_lt_64 [of a] by (simp add: less_mult_imp_div_less)
  ultimately show ?thesis unfolding word_eq_nat by (cases "2 ^ 63 \<le> unat a") (auto simp: less_2_cases_iff div_eq_0_iff bits_nat)
qed

lemma ui32_to_f32_ieee: "bits (ui32_to_f32 a st) = int_result f32_fmt st (int (unat a))"
proof -
  define n where "n = unat a"
  have spec: "int_result f32_fmt st (int (unat a)) = ieee_result f32_fmt st False n 0" by (simp add: int_result_def n_def)
  have topbit: "a AND 0x80000000 \<noteq> 0 \<longleftrightarrow> 2 ^ 31 \<le> n"
    using top_bit_32 [of a] by (simp add: n_def)
  consider "a = 0" | "a \<noteq> 0" "2 ^ 31 \<le> n" | "a \<noteq> 0" "n < 2 ^ 31" by linarith
  then show ?thesis
  proof cases
    case 1
    then show ?thesis
      by (simp add: ui32_to_f32_def int_result_def ieee_result_zero zero_result_def returnF32_def bits_def)
  next
    case 2
    have bl: "bitlen n = 32" using 2 unat_lt_32 [of a] bitlen_unique [of 31 n] by (simp add: n_def)
    have "unat (ucast (drop_bit 1 a OR (a AND 1)) :: u64) = jam (unat a) (2 ^ 1)"
    proof -
      have "unat (a AND 1) = of_bool (odd (unat a))" by (simp add: unat_conj bits_nat mod_2_eq_odd del: and_one_eq)
      then have "a AND 1 = of_bool (odd (unat a))" by (simp only: word_eq_nat unat_truth)
      then have "unat (drop_bit 1 a OR (a AND 1)) = jam (unat a) (2 ^ 1)"
        unfolding jam_def by (simp only: unat_or_truth unat_drop) (auto simp: odd_iff_mod_2_eq_one)
      then show ?thesis using unat_lt_32 [of "drop_bit 1 a OR (a AND 1)"] by (simp add: unat_cast)
    qed
    then have "bits (softfloat_roundPackToF32 False 0x9D (ucast (drop_bit 1 a OR (a AND 1))) st) = ieee_result f32_fmt st False n 0"
      using 2 bl by (intro rp32.rp_integer [where sh = "- 1"]) (simp_all add: n_def)
    then show ?thesis unfolding spec using 2 topbit by (simp add: ui32_to_f32_def)
  next
    case 3
    have "0 < n" using 3 by (simp add: n_def word_eq_nat)
    then have "bits (softfloat_normRoundPackToF32 False 0x9C (ucast a) st) = ieee_result f32_fmt st False n (pack_exp f32_fmt 7 0x9C)"
      using 3 nrp32.nrp_ieee [where sig = "(ucast a)" and exp = "0x9C" and s = False and st = st] unat_lt_32 [of a]
      by (simp add: n_def unat_cast)
    then show ?thesis unfolding spec using 3 topbit by (simp add: ui32_to_f32_def pack_exp_def)
  qed
qed

lemma ui64_to_f64_ieee: "bits (ui64_to_f64 a st) = int_result f64_fmt st (int (unat a))"
proof -
  define n where "n = unat a"
  have spec: "int_result f64_fmt st (int (unat a)) = ieee_result f64_fmt st False n 0" by (simp add: int_result_def n_def)
  have topbit: "a AND 0x8000000000000000 \<noteq> 0 \<longleftrightarrow> 2 ^ 63 \<le> n"
    using top_bit_64 [of a] by (simp add: n_def)
  consider "a = 0" | "a \<noteq> 0" "2 ^ 63 \<le> n" | "a \<noteq> 0" "n < 2 ^ 63" by linarith
  then show ?thesis
  proof cases
    case 1
    then show ?thesis
      by (simp add: ui64_to_f64_def int_result_def ieee_result_zero zero_result_def returnF64_def bits_def)
  next
    case 2
    have bl: "bitlen n = 64" using 2 unat_lt_64 [of a] bitlen_unique [of 63 n] by (simp add: n_def)
    have "unat (softfloat_shortShiftRightJam64 a 1) = jam (unat a) (2 ^ 1)"
      by (subst unat_shortShiftRightJam64) simp_all
    then have "bits (softfloat_roundPackToF64 False 0x43D (softfloat_shortShiftRightJam64 a 1) st) = ieee_result f64_fmt st False n 0"
      using 2 bl by (intro rp64.rp_integer [where sh = "- 1"]) (simp_all add: n_def)
    then show ?thesis unfolding spec using 2 topbit by (simp add: ui64_to_f64_def)
  next
    case 3
    have "0 < n" using 3 by (simp add: n_def word_eq_nat)
    then have "bits (softfloat_normRoundPackToF64 False 0x43C a st) = ieee_result f64_fmt st False n (pack_exp f64_fmt 10 0x43C)"
      using 3 nrp64.nrp_ieee [where sig = "a" and exp = "0x43C" and s = False and st = st] unat_lt_64 [of a]
      by (simp add: n_def unat_cast)
    then show ?thesis unfolding spec using 3 topbit by (simp add: ui64_to_f64_def pack_exp_def)
  qed
qed

lemma i32_to_f64_ieee: "bits (i32_to_f64 a st) = int_result f64_fmt st (sint a)"
proof (cases "a = 0")
  case True
  then show ?thesis
    by (simp add: i32_to_f64_def Let_def int_result_def ieee_result_zero zero_result_def returnF64_def bits_def)
next
  case False
  define absA :: u64 where "absA = (if sint a < 0 then - word_of_int (sint a) else word_of_int (sint a))"
  have u: "unat absA = nat \<bar>sint a\<bar>" "nat \<bar>sint a\<bar> \<le> 2 ^ 31"
    unfolding absA_def by (rule unat_abs32)+
  define n where "n = nat \<bar>sint a\<bar>"
  have n: "0 < n" using False word_eq_iff_signed [of a 0] by (simp add: n_def)
  then have b0: "0 < bitlen n" by (metis bitlen_eq_0_iff gr0I less_irrefl)
  have u2: "bitlen n \<le> 32" unfolding bitlen_le_iff using u(2) by (simp add: n_def)
  define sd where "sd = 53 - bitlen n"
  have sd: "int (unat (softfloat_countLeadingZeros32 (ucast absA))) + 21 = int sd" "sd < 53"
    using u2 b0 u(2) unfolding n_def by (simp_all add: unat_countLeadingZeros32 unat_cast u(1) sd_def n_def)
  have r: "ieee_result f64_fmt st (sint a < 0) n 0 =
        (of_bool (sint a < 0) * sign_weight f64_fmt + (nat (1074 - int sd) * 2 ^ 52 + n * 2 ^ sd), st)"
      "n * 2 ^ sd < 2 ^ 53"
      using n sd(2) u2 ieee_result_integer(1) [where n = n and F = f64_fmt and w = 10 and st = st and s = "(sint a < 0)"]
        ieee_result_integer(3) [where n = n and F = f64_fmt and w = 10] by (simp_all add: sd_def)
  have "unat (push_bit sd absA) = n * 2 ^ sd"
    using r(2) by (simp add: unat_push u(1) n_def)
  moreover have "nat (1074 - int sd) \<le> 1074" by simp
  ultimately have "bits (returnF64 (packToF64UI (sint a < 0) (1074 - int sd) (push_bit sd absA), st)) = ieee_result f64_fmt st (sint a < 0) n 0"
    unfolding r(1) using r(2) sd(2) by (subst return_packF64) simp_all
  then have "bits (returnF64 (packToF64UI (sint a < 0) (0x432 - int sd) (push_bit (nat (int sd)) absA), st)) = int_result f64_fmt st (sint a)"
    by (simp add: int_result_def n_def)
  then show ?thesis unfolding i32_to_f64_def Let_def absA_def [symmetric] sd(1) if_not_P [OF False] .
qed

lemma ui32_to_f64_ieee: "bits (ui32_to_f64 a st) = int_result f64_fmt st (int (unat a))"
proof (cases "a = 0")
  case True
  then show ?thesis
    by (simp add: ui32_to_f64_def Let_def int_result_def ieee_result_zero zero_result_def returnF64_def bits_def)
next
  case False
  have u: "unat (ucast a :: u64) = unat a" "unat a < 2 ^ 32" using unat_lt_32 [of a] by (simp_all add: unat_cast)
  define n where "n = unat a"
  have n: "0 < n" using False by (simp add: n_def word_eq_nat)
  then have b0: "0 < bitlen n" by (metis bitlen_eq_0_iff gr0I less_irrefl)
  have u2: "bitlen n \<le> 32" unfolding bitlen_le_iff using u(2) by (simp add: n_def)
  define sd where "sd = 53 - bitlen n"
  have sd: "int (unat (softfloat_countLeadingZeros32 a)) + 21 = int sd" "sd < 53"
    using u2 b0 u(2) unfolding n_def by (simp_all add: unat_countLeadingZeros32 u(1) sd_def n_def)
  have r: "ieee_result f64_fmt st False n 0 =
        (of_bool False * sign_weight f64_fmt + (nat (1074 - int sd) * 2 ^ 52 + n * 2 ^ sd), st)"
      "n * 2 ^ sd < 2 ^ 53"
      using n sd(2) u2 ieee_result_integer(1) [where n = n and F = f64_fmt and w = 10 and st = st and s = "False"]
        ieee_result_integer(3) [where n = n and F = f64_fmt and w = 10] by (simp_all add: sd_def)
  have "unat (push_bit sd (ucast a :: u64)) = n * 2 ^ sd"
    using r(2) by (simp add: unat_push u(1) n_def)
  moreover have "nat (1074 - int sd) \<le> 1074" by simp
  ultimately have "bits (returnF64 (packToF64UI False (1074 - int sd) (push_bit sd (ucast a :: u64)), st)) = ieee_result f64_fmt st False n 0"
    unfolding r(1) using r(2) sd(2) by (subst return_packF64) simp_all
  then have "bits (returnF64 (packToF64UI False (0x432 - int sd) (push_bit (nat (int sd)) (ucast a :: u64)), st)) = int_result f64_fmt st (int (unat a))"
    by (simp add: int_result_def n_def)
  then show ?thesis unfolding ui32_to_f64_def Let_def  sd(1) if_not_P [OF False] .
qed

section \<open>Properties\<close>

text \<open>C37: every conversion from a 32-bit or 64-bit integer, signed or unsigned, to any of the three
  formats returns the correctly rounded value of the integer and raises exactly the flags of that
  rounding.\<close>

theorem from_integer_correctly_rounded:
  "bits (i32_to_f16 a st) = int_result f16_fmt st (sint a) \<and>
   bits (i32_to_f32 a st) = int_result f32_fmt st (sint a) \<and>
   bits (i32_to_f64 a st) = int_result f64_fmt st (sint a) \<and>
   bits (ui32_to_f16 a st) = int_result f16_fmt st (int (unat a)) \<and>
   bits (ui32_to_f32 a st) = int_result f32_fmt st (int (unat a)) \<and>
   bits (ui32_to_f64 a st) = int_result f64_fmt st (int (unat a)) \<and>
   bits (i64_to_f16 b st) = int_result f16_fmt st (sint b) \<and>
   bits (i64_to_f32 b st) = int_result f32_fmt st (sint b) \<and>
   bits (i64_to_f64 b st) = int_result f64_fmt st (sint b) \<and>
   bits (ui64_to_f16 b st) = int_result f16_fmt st (int (unat b)) \<and>
   bits (ui64_to_f32 b st) = int_result f32_fmt st (int (unat b)) \<and>
   bits (ui64_to_f64 b st) = int_result f64_fmt st (int (unat b))"
  by (intro conjI i32_to_f16_ieee i32_to_f32_ieee i32_to_f64_ieee ui32_to_f16_ieee ui32_to_f32_ieee ui32_to_f64_ieee
      i64_to_f16_ieee i64_to_f32_ieee i64_to_f64_ieee ui64_to_f16_ieee ui64_to_f32_ieee ui64_to_f64_ieee)

end
