(* ===== verification/IEEE_Order.thy ===== *)
theory IEEE_Order
  imports Complex_Main IEEE_Ops
begin

text \<open>
  The abstract specification of comparison: the rational number a finite operand denotes, the
  order of the denoted values with the infinities at its ends (unordered with NaN), and the
  theorem that within a format this order is the order of the sign-magnitude bit patterns, which
  is what the comparison routines compute.
\<close>

section \<open>Values and their order\<close>

definition fin_value :: "bool \<Rightarrow> nat \<Rightarrow> int \<Rightarrow> rat" where
  "fin_value s m e = (if s then - 1 else 1) * (of_nat m * 2 powi e)"

fun fp_le :: "fp \<Rightarrow> fp \<Rightarrow> bool" where
  "fp_le (NaN _) y = False"
| "fp_le x (NaN _) = False"
| "fp_le (Inf s) (Inf t) = (s \<or> \<not> t)"
| "fp_le (Inf s) (Fin t n j) = s"
| "fp_le (Fin s m i) (Inf t) = (\<not> t)"
| "fp_le (Fin s m i) (Fin t n j) = (fin_value s m i \<le> fin_value t n j)"

definition fp_lt :: "fp \<Rightarrow> fp \<Rightarrow> bool" where
  "fp_lt x y = (fp_le x y \<and> \<not> fp_le y x)"

definition fp_eq :: "fp \<Rightarrow> fp \<Rightarrow> bool" where
  "fp_eq x y = (fp_le x y \<and> fp_le y x)"

lemma fp_le_trans: "fp_le x y \<Longrightarrow> fp_le y z \<Longrightarrow> fp_le x z"
  by (cases x; cases y; cases z) auto

lemma fp_le_total: "\<not> is_nan x \<Longrightarrow> \<not> is_nan y \<Longrightarrow> fp_le x y \<or> fp_le y x"
  by (cases x; cases y) auto

lemma fp_le_nan: "is_nan x \<or> is_nan y \<Longrightarrow> \<not> fp_le x y"
  by (cases x; cases y) auto

section \<open>Magnitudes\<close>

text \<open>The significand of the magnitude pattern \<open>k\<close>, in units of the lowest exponent.\<close>

definition mag_units :: "fmt \<Rightarrow> nat \<Rightarrow> nat" where
  "mag_units F k =
     (if k div 2 ^ frac_bits F = 0 then k mod 2 ^ frac_bits F
      else (2 ^ frac_bits F + k mod 2 ^ frac_bits F) * 2 ^ (k div 2 ^ frac_bits F - 1))"

lemma mag_units_0 [simp]: "mag_units F 0 = 0"
  by (simp add: mag_units_def)

lemma mag_units_Suc: "mag_units F k < mag_units F (Suc k)"
proof -
  define P q r where "P = (2 :: nat) ^ frac_bits F" and "q = k div P" and "r = k mod P"
  have P: "0 < P" by (simp add: P_def)
  have r: "r < P" using P by (simp add: r_def)
  have k: "k = q * P + r" unfolding q_def r_def by (simp only: div_mult_mod_eq)
  show ?thesis
  proof (cases "Suc r < P")
    case True
    have "Suc k div P = q" "Suc k mod P = Suc r"
      using True k P by (simp_all add: div_nat_eqI mod_nat_eqI algebra_simps)
    then show ?thesis using True by (simp add: mag_units_def P_def [symmetric] q_def [symmetric] r_def [symmetric])
  next
    case False
    then have "Suc r = P" using r by simp
    then have "Suc k = Suc q * P" using k by simp
    then have s: "Suc k div P = Suc q" "Suc k mod P = 0" using P by simp_all
    show ?thesis
    proof (cases q)
      case 0
      then show ?thesis using s r by (simp add: mag_units_def P_def [symmetric] q_def [symmetric] r_def [symmetric])
    next
      case (Suc p)
      have "(P + r) * 2 ^ p < (P + P) * 2 ^ p" using r by simp
      then show ?thesis
        using s Suc by (simp add: mag_units_def P_def [symmetric] q_def [symmetric] r_def [symmetric] algebra_simps)
    qed
  qed
qed

lemma mag_units_mono: "strict_mono (mag_units F)"
  by (simp add: strict_mono_Suc_iff mag_units_Suc)

lemma mag_units_less [simp]: "mag_units F a < mag_units F b \<longleftrightarrow> a < b"
  by (rule strict_mono_less [OF mag_units_mono])

lemma mag_units_le [simp]: "mag_units F a \<le> mag_units F b \<longleftrightarrow> a \<le> b"
  by (rule strict_mono_less_eq [OF mag_units_mono])

lemma mag_units_eq_0 [simp]: "mag_units F a = 0 \<longleftrightarrow> a = 0"
  using strict_mono_eq [OF mag_units_mono, of F a 0] by simp

section \<open>Sign-magnitude patterns\<close>

definition mag_of :: "fmt \<Rightarrow> nat \<Rightarrow> nat" where
  "mag_of F n = n mod sign_weight F"

definition neg_of :: "fmt \<Rightarrow> nat \<Rightarrow> bool" where
  "neg_of F n = odd (n div sign_weight F)"

definition pattern_order :: "fmt \<Rightarrow> nat \<Rightarrow> int" where
  "pattern_order F n = (if neg_of F n then - int (mag_of F n) else int (mag_of F n))"

lemma pattern_bounds:
  assumes "n < 2 * sign_weight F"
  shows "n = of_bool (neg_of F n) * sign_weight F + mag_of F n" "mag_of F n < sign_weight F"
proof -
  have pos: "0 < sign_weight F" by (simp add: sign_weight_def)
  have "n div sign_weight F < 2" using assms by (simp add: less_mult_imp_div_less)
  then have "of_bool (neg_of F n) = n div sign_weight F" by (auto simp: neg_of_def less_2_cases_iff)
  then show "n = of_bool (neg_of F n) * sign_weight F + mag_of F n" by (simp add: mag_of_def)
  show "mag_of F n < sign_weight F" using pos by (simp add: mag_of_def)
qed

lemma mag_fields:
  "n div 2 ^ frac_bits F mod Suc (exp_max F) = mag_of F n div 2 ^ frac_bits F"
  "n mod 2 ^ frac_bits F = mag_of F n mod 2 ^ frac_bits F"
proof -
  have sw: "sign_weight F = 2 ^ frac_bits F * Suc (exp_max F)" by (simp only: sign_weight_def mult.commute)
  define P E where "P = (2 :: nat) ^ frac_bits F" and "E = Suc (exp_max F)"
  have P: "0 < P" by (simp add: P_def)
  have m: "mag_of F n = P * (n div P mod E) + n mod P"
    unfolding mag_of_def sw P_def [symmetric] E_def [symmetric] by (rule mod_mult2_eq)
  show "n div 2 ^ frac_bits F mod Suc (exp_max F) = mag_of F n div 2 ^ frac_bits F"
    "n mod 2 ^ frac_bits F = mag_of F n mod 2 ^ frac_bits F"
    unfolding m P_def [symmetric] E_def [symmetric] using P by simp_all
qed

lemma mag_top: "mag_of F n div 2 ^ frac_bits F \<le> exp_max F"
  unfolding mag_fields(1) [symmetric] using mod_less_divisor [of "Suc (exp_max F)" "n div 2 ^ frac_bits F"]
  by (simp only: less_Suc_eq_le zero_less_Suc simp_thms)

text \<open>What a pattern denotes, by the magnitude.\<close>

lemma decode_nan: "is_nan (decode F n) \<longleftrightarrow> inf_mag F < mag_of F n"
proof -
  define P where "P = (2 :: nat) ^ frac_bits F"
  have e: "mag_of F n = mag_of F n div P * P + mag_of F n mod P" by (simp only: div_mult_mod_eq)
  have "is_nan (if c then if r = 0 then Inf u else NaN v else if d then Fin u x y else Fin u x' y') = (c \<and> r \<noteq> 0)"
    for c d u v x x' y y' and r :: nat by simp
  then have "is_nan (decode F n) \<longleftrightarrow> mag_of F n div P = exp_max F \<and> mag_of F n mod P \<noteq> 0"
    unfolding decode_def mag_fields [of n F] Let_def P_def .
  also have "\<dots> \<longleftrightarrow> exp_max F * P < mag_of F n"
  proof
    assume "mag_of F n div P = exp_max F \<and> mag_of F n mod P \<noteq> 0"
    then show "exp_max F * P < mag_of F n" using e by (metis less_add_same_cancel1 neq0_conv)
  next
    assume lt: "exp_max F * P < mag_of F n"
    then have "exp_max F * P div P \<le> mag_of F n div P" by (intro div_le_mono) simp
    then have "exp_max F \<le> mag_of F n div P" by (simp add: P_def)
    then have "mag_of F n div P = exp_max F" using mag_top [of F n] unfolding P_def by simp
    then show "mag_of F n div P = exp_max F \<and> mag_of F n mod P \<noteq> 0" using lt e by (metis add.right_neutral less_irrefl)
  qed
  finally show ?thesis by (simp add: inf_mag_def P_def)
qed

lemma decode_inf: "mag_of F n = inf_mag F \<Longrightarrow> decode F n = Inf (neg_of F n)"
  unfolding decode_def mag_fields [of n F] Let_def by (simp add: inf_mag_def neg_of_def)

lemma decode_finite:
  assumes "mag_of F n < inf_mag F"
  obtains m e where "decode F n = Fin (neg_of F n) m e" "lsb_exp F \<le> e"
    "of_nat m * 2 powi e = (of_nat (mag_units F (mag_of F n)) * 2 powi lsb_exp F :: rat)"
proof -
  define q r where "q = mag_of F n div 2 ^ frac_bits F" and "r = mag_of F n mod 2 ^ frac_bits F"
  have q: "q < exp_max F" using assms unfolding q_def inf_mag_def by (simp add: less_mult_imp_div_less)
  note d = decode_def [of F n, unfolded mag_fields [of n F] Let_def, folded q_def r_def neg_of_def]
  show thesis
  proof (cases q)
    case 0
    then have "r = mag_units F (mag_of F n)" by (simp add: mag_units_def flip: q_def r_def)
    then show thesis using q 0 d by (intro that [of r "lsb_exp F"]) simp_all
  next
    case (Suc p)
    have "mag_units F (mag_of F n) = (2 ^ frac_bits F + r) * 2 ^ p"
      using Suc by (simp add: mag_units_def flip: q_def r_def)
    then show thesis
      using q Suc d by (intro that [of "2 ^ frac_bits F + r" "int p + lsb_exp F"]) (simp_all add: power_int_add)
  qed
qed

section \<open>The order of values is the order of patterns\<close>

lemma fin_value_le:
  assumes "of_nat m * 2 powi i = (of_nat a * 2 powi k :: rat)" "of_nat n * 2 powi j = (of_nat b * 2 powi k :: rat)"
  shows "fin_value s m i \<le> fin_value t n j \<longleftrightarrow>
    (if s then - int a else int a) \<le> (if t then - int b else int b)"
proof -
  have v: "fin_value s m i = of_int (if s then - int a else int a) * 2 powi k"
    "fin_value t n j = of_int (if t then - int b else int b) * 2 powi k"
    using assms by (simp_all add: fin_value_def)
  have "0 < (2 :: rat) powi k" by simp
  then show ?thesis unfolding v mult_le_cancel_right_pos [OF \<open>0 < 2 powi k\<close>] of_int_le_iff by simp
qed

lemma signed_mono:
  assumes "\<And>a b. f a \<le> f b \<longleftrightarrow> a \<le> (b :: nat)" "f 0 = (0 :: nat)"
  shows "(if s then - int (f a) else int (f a)) \<le> (if t then - int (f b) else int (f b)) \<longleftrightarrow>
    (if s then - int a else int a) \<le> (if t then - int b else int b)"
proof -
  have z: "f a = 0 \<longleftrightarrow> a = 0" "f b = 0 \<longleftrightarrow> b = 0" using assms(1) [of _ 0] assms(2) by simp_all
  have p: "int x \<le> - int y \<longleftrightarrow> x = 0 \<and> y = 0" for x y by linarith
  show ?thesis by (cases s; cases t) (auto simp: assms(1) p z)
qed

theorem decode_le:
  assumes "\<not> is_nan (decode F a)" "\<not> is_nan (decode F b)" "0 < exp_max F"
  shows "fp_le (decode F a) (decode F b) \<longleftrightarrow> pattern_order F a \<le> pattern_order F b"
proof -
  have a: "mag_of F a \<le> inf_mag F" and b: "mag_of F b \<le> inf_mag F"
    using assms by (simp_all add: decode_nan)
  have pos: "0 < inf_mag F" using assms(3) by (simp add: inf_mag_def)
  consider "mag_of F a = inf_mag F" "mag_of F b = inf_mag F" | "mag_of F a = inf_mag F" "mag_of F b < inf_mag F"
    | "mag_of F a < inf_mag F" "mag_of F b = inf_mag F" | "mag_of F a < inf_mag F" "mag_of F b < inf_mag F"
    using a b by linarith
  then show ?thesis
  proof cases
    case 1
    then show ?thesis using pos by (auto simp: decode_inf pattern_order_def)
  next
    case 2
    from decode_finite [OF 2(2)] obtain m e where "decode F b = Fin (neg_of F b) m e" by metis
    then show ?thesis using 2 by (auto simp: decode_inf pattern_order_def)
  next
    case 3
    from decode_finite [OF 3(1)] obtain m e where "decode F a = Fin (neg_of F a) m e" by metis
    then show ?thesis using 3 by (auto simp: decode_inf pattern_order_def)
  next
    case 4
    from decode_finite [OF 4(1)] obtain m i where m: "decode F a = Fin (neg_of F a) m i"
      "of_nat m * 2 powi i = (of_nat (mag_units F (mag_of F a)) * 2 powi lsb_exp F :: rat)" by metis
    from decode_finite [OF 4(2)] obtain n j where n: "decode F b = Fin (neg_of F b) n j"
      "of_nat n * 2 powi j = (of_nat (mag_units F (mag_of F b)) * 2 powi lsb_exp F :: rat)" by metis
    show ?thesis
      unfolding m(1) n(1) fp_le.simps fin_value_le [OF m(2) n(2)] pattern_order_def
      by (rule signed_mono) simp_all
  qed
qed

end
