(* ===== verification/SF_Values.thy ===== *)
theory SF_Values
  imports SF_Fields IEEE_Order
begin

text \<open>
  The tests of the code on a pattern (\<open>isNaNF*UI\<close>, \<open>softfloat_isSigNaNF*UI\<close>, \<open>signF*UI\<close>) as
  statements on the value it denotes, for the three formats.
\<close>

lemma not_mask_iff: "(NOT u AND m = 0) = (u AND m = m)" for u m :: u64
  by (auto simp: bit_eq_iff bit_simps)

lemma sign_weightF16: "sign_weight f16_fmt = 2 ^ 15"
  by (simp add: sign_weight_def)

lemma neg_ofF16: "signF16UI (ucast a) = neg_of f16_fmt (unat a)" for a :: float16_t
  using unat_lt_16 [of a] by (simp add: fieldsF16 neg_of_def sign_weightF16 unat_cast)

lemma isNaNF16: "isNaNF16UI u \<longleftrightarrow> expF16UI u = 0x1F \<and> fracF16UI u \<noteq> 0"
proof -
  have "unat (u AND 0x7C00) = (unat u div 2 ^ 10 mod 32) * 2 ^ 10"
    using and_high_mask [of "unat u" 31 10] by (simp add: unat_conj bits_nat)
  then have "u AND 0x7C00 = 0x7C00 \<longleftrightarrow> unat u div 2 ^ 10 mod 32 * 2 ^ 10 = 31 * 2 ^ 10"
    unfolding word_eq_nat by simp
  then show ?thesis unfolding isNaNF16UI_def not_mask_iff fracF16UI_def by (simp add: fieldsF16)
qed

lemma is_nanF16: "isNaNF16UI (ucast a) = is_nan (decode f16_fmt (unat a))" for a :: float16_t
proof -
  have "unat (ucast a :: u64) = unat a" using unat_lt_16 [of a] by (simp add: unat_cast)
  then show ?thesis using decodeF16 [of "ucast a"] by (simp add: isNaNF16)
qed

lemma is_snanF16: "softfloat_isSigNaNF16UI (ucast a) = is_snan (decode f16_fmt (unat a))" for a :: float16_t
proof -
  have "unat (ucast a :: u64) = unat a" using unat_lt_16 [of a] by (simp add: unat_cast)
  then show ?thesis using decodeF16 [of "ucast a"] by (simp add: sigNaNF16)
qed

lemma pattern_ltF16: "unat a < 2 * sign_weight f16_fmt" for a :: float16_t
  using unat_lt_16 [of a] by (simp add: sign_weightF16)

lemma sign_weightF32: "sign_weight f32_fmt = 2 ^ 31"
  by (simp add: sign_weight_def)

lemma neg_ofF32: "signF32UI (ucast a) = neg_of f32_fmt (unat a)" for a :: float32_t
  using unat_lt_32 [of a] by (simp add: fieldsF32 neg_of_def sign_weightF32 unat_cast)

lemma isNaNF32: "isNaNF32UI u \<longleftrightarrow> expF32UI u = 0xFF \<and> fracF32UI u \<noteq> 0"
proof -
  have "unat (u AND 0x7F800000) = (unat u div 2 ^ 23 mod 256) * 2 ^ 23"
    using and_high_mask [of "unat u" 255 23] by (simp add: unat_conj bits_nat)
  then have "u AND 0x7F800000 = 0x7F800000 \<longleftrightarrow> unat u div 2 ^ 23 mod 256 * 2 ^ 23 = 255 * 2 ^ 23"
    unfolding word_eq_nat by simp
  then show ?thesis unfolding isNaNF32UI_def not_mask_iff fracF32UI_def by (simp add: fieldsF32)
qed

lemma is_nanF32: "isNaNF32UI (ucast a) = is_nan (decode f32_fmt (unat a))" for a :: float32_t
proof -
  have "unat (ucast a :: u64) = unat a" using unat_lt_32 [of a] by (simp add: unat_cast)
  then show ?thesis using decodeF32 [of "ucast a"] by (simp add: isNaNF32)
qed

lemma is_snanF32: "softfloat_isSigNaNF32UI (ucast a) = is_snan (decode f32_fmt (unat a))" for a :: float32_t
proof -
  have "unat (ucast a :: u64) = unat a" using unat_lt_32 [of a] by (simp add: unat_cast)
  then show ?thesis using decodeF32 [of "ucast a"] by (simp add: sigNaNF32)
qed

lemma pattern_ltF32: "unat a < 2 * sign_weight f32_fmt" for a :: float32_t
  using unat_lt_32 [of a] by (simp add: sign_weightF32)

lemma sign_weightF64: "sign_weight f64_fmt = 2 ^ 63"
  by (simp add: sign_weight_def)

lemma neg_ofF64: "signF64UI (ucast a) = neg_of f64_fmt (unat a)" for a :: float64_t
  using unat_lt_64 [of a] by (simp add: fieldsF64 neg_of_def sign_weightF64 unat_cast)

lemma isNaNF64: "isNaNF64UI u \<longleftrightarrow> expF64UI u = 0x7FF \<and> fracF64UI u \<noteq> 0"
proof -
  have "unat (u AND 0x7FF0000000000000) = (unat u div 2 ^ 52 mod 2048) * 2 ^ 52"
    using and_high_mask [of "unat u" 2047 52] by (simp add: unat_conj bits_nat)
  then have "u AND 0x7FF0000000000000 = 0x7FF0000000000000 \<longleftrightarrow> unat u div 2 ^ 52 mod 2048 * 2 ^ 52 = 2047 * 2 ^ 52"
    unfolding word_eq_nat by simp
  then show ?thesis unfolding isNaNF64UI_def not_mask_iff fracF64UI_def by (simp add: fieldsF64)
qed

lemma is_nanF64: "isNaNF64UI (ucast a) = is_nan (decode f64_fmt (unat a))" for a :: float64_t
proof -
  have "unat (ucast a :: u64) = unat a" using unat_lt_64 [of a] by (simp add: unat_cast)
  then show ?thesis using decodeF64 [of "ucast a"] by (simp add: isNaNF64)
qed

lemma is_snanF64: "softfloat_isSigNaNF64UI (ucast a) = is_snan (decode f64_fmt (unat a))" for a :: float64_t
proof -
  have "unat (ucast a :: u64) = unat a" using unat_lt_64 [of a] by (simp add: unat_cast)
  then show ?thesis using decodeF64 [of "ucast a"] by (simp add: sigNaNF64)
qed

lemma pattern_ltF64: "unat a < 2 * sign_weight f64_fmt" for a :: float64_t
  using unat_lt_64 [of a] by (simp add: sign_weightF64)

end
