(* ===== verification/SF_Compare.thy ===== *)
theory SF_Compare
  imports SF_Values
begin

text \<open>
  The comparisons \<open>f*_eq\<close>, \<open>f*_le\<close>, \<open>f*_lt\<close> with their quiet and signaling variants, the
  classification \<open>f*_classify\<close>, \<open>f*_isSignalingNaN\<close>, and \<open>f*_max\<close>, \<open>f*_min\<close>
  (\<open>fall_maxmin.c\<close>). The code compares bit patterns as unsigned integers; the lemmas show that it
  decides the order of the denoted values. The maximum and minimum rest on the comparisons
  through a locale, interpreted for the three formats.
\<close>

section \<open>The routines\<close>

definition f16_eq :: "float16_t \<Rightarrow> float16_t \<Rightarrow> sf_state \<Rightarrow> bool \<times> sf_state" where
  "f16_eq a b st =
     (let uiA = ucast a :: u64; uiB = ucast b :: u64
      in if isNaNF16UI uiA \<or> isNaNF16UI uiB
         then (False, if softfloat_isSigNaNF16UI uiA \<or> softfloat_isSigNaNF16UI uiB
              then softfloat_raiseFlags softfloat_flag_invalid st else st)
         else (uiA = uiB \<or> (ucast (push_bit 1 (uiA OR uiB)) :: u16) = 0, st))"

definition f16_eq_signaling :: "float16_t \<Rightarrow> float16_t \<Rightarrow> sf_state \<Rightarrow> bool \<times> sf_state" where
  "f16_eq_signaling a b st =
     (let uiA = ucast a :: u64; uiB = ucast b :: u64
      in if isNaNF16UI uiA \<or> isNaNF16UI uiB
         then (False, softfloat_raiseFlags softfloat_flag_invalid st)
         else (uiA = uiB \<or> (ucast (push_bit 1 (uiA OR uiB)) :: u16) = 0, st))"

definition f16_le_quiet :: "float16_t \<Rightarrow> float16_t \<Rightarrow> sf_state \<Rightarrow> bool \<times> sf_state" where
  "f16_le_quiet a b st =
     (let uiA = ucast a :: u64; uiB = ucast b :: u64
      in if isNaNF16UI uiA \<or> isNaNF16UI uiB
         then (False, if softfloat_isSigNaNF16UI uiA \<or> softfloat_isSigNaNF16UI uiB
              then softfloat_raiseFlags softfloat_flag_invalid st else st)
         else let signA = signF16UI uiA; signB = signF16UI uiB
          in (if signA \<noteq> signB then signA \<or> (ucast (push_bit 1 (uiA OR uiB)) :: u16) = 0
              else uiA = uiB \<or> (signA \<noteq> (uiA < uiB)), st))"

definition f16_le :: "float16_t \<Rightarrow> float16_t \<Rightarrow> sf_state \<Rightarrow> bool \<times> sf_state" where
  "f16_le a b st =
     (let uiA = ucast a :: u64; uiB = ucast b :: u64
      in if isNaNF16UI uiA \<or> isNaNF16UI uiB
         then (False, softfloat_raiseFlags softfloat_flag_invalid st)
         else let signA = signF16UI uiA; signB = signF16UI uiB
          in (if signA \<noteq> signB then signA \<or> (ucast (push_bit 1 (uiA OR uiB)) :: u16) = 0
              else uiA = uiB \<or> (signA \<noteq> (uiA < uiB)), st))"

definition f16_lt_quiet :: "float16_t \<Rightarrow> float16_t \<Rightarrow> sf_state \<Rightarrow> bool \<times> sf_state" where
  "f16_lt_quiet a b st =
     (let uiA = ucast a :: u64; uiB = ucast b :: u64
      in if isNaNF16UI uiA \<or> isNaNF16UI uiB
         then (False, if softfloat_isSigNaNF16UI uiA \<or> softfloat_isSigNaNF16UI uiB
              then softfloat_raiseFlags softfloat_flag_invalid st else st)
         else let signA = signF16UI uiA; signB = signF16UI uiB
          in (if signA \<noteq> signB then signA \<and> (ucast (push_bit 1 (uiA OR uiB)) :: u16) \<noteq> 0
              else uiA \<noteq> uiB \<and> (signA \<noteq> (uiA < uiB)), st))"

definition f16_lt :: "float16_t \<Rightarrow> float16_t \<Rightarrow> sf_state \<Rightarrow> bool \<times> sf_state" where
  "f16_lt a b st =
     (let uiA = ucast a :: u64; uiB = ucast b :: u64
      in if isNaNF16UI uiA \<or> isNaNF16UI uiB
         then (False, softfloat_raiseFlags softfloat_flag_invalid st)
         else let signA = signF16UI uiA; signB = signF16UI uiB
          in (if signA \<noteq> signB then signA \<and> (ucast (push_bit 1 (uiA OR uiB)) :: u16) \<noteq> 0
              else uiA \<noteq> uiB \<and> (signA \<noteq> (uiA < uiB)), st))"

definition f16_isSignalingNaN :: "float16_t \<Rightarrow> bool" where
  "f16_isSignalingNaN a = softfloat_isSigNaNF16UI (ucast a)"

definition f16_classify :: "float16_t \<Rightarrow> u64" where
  "f16_classify a =
     (let uiA = ucast a :: u64;
          infOrNaN = expF16UI uiA = 0x1F;
          subnormalOrZero = expF16UI uiA = 0;
          sign = signF16UI uiA;
          fracZero = fracF16UI uiA = 0;
          isNaN = isNaNF16UI uiA;
          isSNaN = softfloat_isSigNaNF16UI uiA
      in push_bit 0 (of_bool (sign \<and> infOrNaN \<and> fracZero)) OR
         push_bit 1 (of_bool (sign \<and> \<not> infOrNaN \<and> \<not> subnormalOrZero)) OR
         push_bit 2 (of_bool (sign \<and> subnormalOrZero \<and> \<not> fracZero)) OR
         push_bit 3 (of_bool (sign \<and> subnormalOrZero \<and> fracZero)) OR
         push_bit 7 (of_bool (\<not> sign \<and> infOrNaN \<and> fracZero)) OR
         push_bit 6 (of_bool (\<not> sign \<and> \<not> infOrNaN \<and> \<not> subnormalOrZero)) OR
         push_bit 5 (of_bool (\<not> sign \<and> subnormalOrZero \<and> \<not> fracZero)) OR
         push_bit 4 (of_bool (\<not> sign \<and> subnormalOrZero \<and> fracZero)) OR
         push_bit 8 (of_bool (isNaN \<and> isSNaN)) OR
         push_bit 9 (of_bool (isNaN \<and> \<not> isSNaN)))"

definition f32_eq :: "float32_t \<Rightarrow> float32_t \<Rightarrow> sf_state \<Rightarrow> bool \<times> sf_state" where
  "f32_eq a b st =
     (let uiA = ucast a :: u64; uiB = ucast b :: u64
      in if isNaNF32UI uiA \<or> isNaNF32UI uiB
         then (False, if softfloat_isSigNaNF32UI uiA \<or> softfloat_isSigNaNF32UI uiB
              then softfloat_raiseFlags softfloat_flag_invalid st else st)
         else (uiA = uiB \<or> (ucast (push_bit 1 (uiA OR uiB)) :: u32) = 0, st))"

definition f32_eq_signaling :: "float32_t \<Rightarrow> float32_t \<Rightarrow> sf_state \<Rightarrow> bool \<times> sf_state" where
  "f32_eq_signaling a b st =
     (let uiA = ucast a :: u64; uiB = ucast b :: u64
      in if isNaNF32UI uiA \<or> isNaNF32UI uiB
         then (False, softfloat_raiseFlags softfloat_flag_invalid st)
         else (uiA = uiB \<or> (ucast (push_bit 1 (uiA OR uiB)) :: u32) = 0, st))"

definition f32_le_quiet :: "float32_t \<Rightarrow> float32_t \<Rightarrow> sf_state \<Rightarrow> bool \<times> sf_state" where
  "f32_le_quiet a b st =
     (let uiA = ucast a :: u64; uiB = ucast b :: u64
      in if isNaNF32UI uiA \<or> isNaNF32UI uiB
         then (False, if softfloat_isSigNaNF32UI uiA \<or> softfloat_isSigNaNF32UI uiB
              then softfloat_raiseFlags softfloat_flag_invalid st else st)
         else let signA = signF32UI uiA; signB = signF32UI uiB
          in (if signA \<noteq> signB then signA \<or> (ucast (push_bit 1 (uiA OR uiB)) :: u32) = 0
              else uiA = uiB \<or> (signA \<noteq> (uiA < uiB)), st))"

definition f32_le :: "float32_t \<Rightarrow> float32_t \<Rightarrow> sf_state \<Rightarrow> bool \<times> sf_state" where
  "f32_le a b st =
     (let uiA = ucast a :: u64; uiB = ucast b :: u64
      in if isNaNF32UI uiA \<or> isNaNF32UI uiB
         then (False, softfloat_raiseFlags softfloat_flag_invalid st)
         else let signA = signF32UI uiA; signB = signF32UI uiB
          in (if signA \<noteq> signB then signA \<or> (ucast (push_bit 1 (uiA OR uiB)) :: u32) = 0
              else uiA = uiB \<or> (signA \<noteq> (uiA < uiB)), st))"

definition f32_lt_quiet :: "float32_t \<Rightarrow> float32_t \<Rightarrow> sf_state \<Rightarrow> bool \<times> sf_state" where
  "f32_lt_quiet a b st =
     (let uiA = ucast a :: u64; uiB = ucast b :: u64
      in if isNaNF32UI uiA \<or> isNaNF32UI uiB
         then (False, if softfloat_isSigNaNF32UI uiA \<or> softfloat_isSigNaNF32UI uiB
              then softfloat_raiseFlags softfloat_flag_invalid st else st)
         else let signA = signF32UI uiA; signB = signF32UI uiB
          in (if signA \<noteq> signB then signA \<and> (ucast (push_bit 1 (uiA OR uiB)) :: u32) \<noteq> 0
              else uiA \<noteq> uiB \<and> (signA \<noteq> (uiA < uiB)), st))"

definition f32_lt :: "float32_t \<Rightarrow> float32_t \<Rightarrow> sf_state \<Rightarrow> bool \<times> sf_state" where
  "f32_lt a b st =
     (let uiA = ucast a :: u64; uiB = ucast b :: u64
      in if isNaNF32UI uiA \<or> isNaNF32UI uiB
         then (False, softfloat_raiseFlags softfloat_flag_invalid st)
         else let signA = signF32UI uiA; signB = signF32UI uiB
          in (if signA \<noteq> signB then signA \<and> (ucast (push_bit 1 (uiA OR uiB)) :: u32) \<noteq> 0
              else uiA \<noteq> uiB \<and> (signA \<noteq> (uiA < uiB)), st))"

definition f32_isSignalingNaN :: "float32_t \<Rightarrow> bool" where
  "f32_isSignalingNaN a = softfloat_isSigNaNF32UI (ucast a)"

definition f32_classify :: "float32_t \<Rightarrow> u64" where
  "f32_classify a =
     (let uiA = ucast a :: u64;
          infOrNaN = expF32UI uiA = 0xFF;
          subnormalOrZero = expF32UI uiA = 0;
          sign = signF32UI uiA;
          fracZero = fracF32UI uiA = 0;
          isNaN = isNaNF32UI uiA;
          isSNaN = softfloat_isSigNaNF32UI uiA
      in push_bit 0 (of_bool (sign \<and> infOrNaN \<and> fracZero)) OR
         push_bit 1 (of_bool (sign \<and> \<not> infOrNaN \<and> \<not> subnormalOrZero)) OR
         push_bit 2 (of_bool (sign \<and> subnormalOrZero \<and> \<not> fracZero)) OR
         push_bit 3 (of_bool (sign \<and> subnormalOrZero \<and> fracZero)) OR
         push_bit 7 (of_bool (\<not> sign \<and> infOrNaN \<and> fracZero)) OR
         push_bit 6 (of_bool (\<not> sign \<and> \<not> infOrNaN \<and> \<not> subnormalOrZero)) OR
         push_bit 5 (of_bool (\<not> sign \<and> subnormalOrZero \<and> \<not> fracZero)) OR
         push_bit 4 (of_bool (\<not> sign \<and> subnormalOrZero \<and> fracZero)) OR
         push_bit 8 (of_bool (isNaN \<and> isSNaN)) OR
         push_bit 9 (of_bool (isNaN \<and> \<not> isSNaN)))"

definition f64_eq :: "float64_t \<Rightarrow> float64_t \<Rightarrow> sf_state \<Rightarrow> bool \<times> sf_state" where
  "f64_eq a b st =
     (let uiA = ucast a :: u64; uiB = ucast b :: u64
      in if isNaNF64UI uiA \<or> isNaNF64UI uiB
         then (False, if softfloat_isSigNaNF64UI uiA \<or> softfloat_isSigNaNF64UI uiB
              then softfloat_raiseFlags softfloat_flag_invalid st else st)
         else (uiA = uiB \<or> (uiA OR uiB) AND 0x7FFFFFFFFFFFFFFF = 0, st))"

definition f64_eq_signaling :: "float64_t \<Rightarrow> float64_t \<Rightarrow> sf_state \<Rightarrow> bool \<times> sf_state" where
  "f64_eq_signaling a b st =
     (let uiA = ucast a :: u64; uiB = ucast b :: u64
      in if isNaNF64UI uiA \<or> isNaNF64UI uiB
         then (False, softfloat_raiseFlags softfloat_flag_invalid st)
         else (uiA = uiB \<or> (uiA OR uiB) AND 0x7FFFFFFFFFFFFFFF = 0, st))"

definition f64_le_quiet :: "float64_t \<Rightarrow> float64_t \<Rightarrow> sf_state \<Rightarrow> bool \<times> sf_state" where
  "f64_le_quiet a b st =
     (let uiA = ucast a :: u64; uiB = ucast b :: u64
      in if isNaNF64UI uiA \<or> isNaNF64UI uiB
         then (False, if softfloat_isSigNaNF64UI uiA \<or> softfloat_isSigNaNF64UI uiB
              then softfloat_raiseFlags softfloat_flag_invalid st else st)
         else let signA = signF64UI uiA; signB = signF64UI uiB
          in (if signA \<noteq> signB then signA \<or> (uiA OR uiB) AND 0x7FFFFFFFFFFFFFFF = 0
              else uiA = uiB \<or> (signA \<noteq> (uiA < uiB)), st))"

definition f64_le :: "float64_t \<Rightarrow> float64_t \<Rightarrow> sf_state \<Rightarrow> bool \<times> sf_state" where
  "f64_le a b st =
     (let uiA = ucast a :: u64; uiB = ucast b :: u64
      in if isNaNF64UI uiA \<or> isNaNF64UI uiB
         then (False, softfloat_raiseFlags softfloat_flag_invalid st)
         else let signA = signF64UI uiA; signB = signF64UI uiB
          in (if signA \<noteq> signB then signA \<or> (uiA OR uiB) AND 0x7FFFFFFFFFFFFFFF = 0
              else uiA = uiB \<or> (signA \<noteq> (uiA < uiB)), st))"

definition f64_lt_quiet :: "float64_t \<Rightarrow> float64_t \<Rightarrow> sf_state \<Rightarrow> bool \<times> sf_state" where
  "f64_lt_quiet a b st =
     (let uiA = ucast a :: u64; uiB = ucast b :: u64
      in if isNaNF64UI uiA \<or> isNaNF64UI uiB
         then (False, if softfloat_isSigNaNF64UI uiA \<or> softfloat_isSigNaNF64UI uiB
              then softfloat_raiseFlags softfloat_flag_invalid st else st)
         else let signA = signF64UI uiA; signB = signF64UI uiB
          in (if signA \<noteq> signB then signA \<and> (uiA OR uiB) AND 0x7FFFFFFFFFFFFFFF \<noteq> 0
              else uiA \<noteq> uiB \<and> (signA \<noteq> (uiA < uiB)), st))"

definition f64_lt :: "float64_t \<Rightarrow> float64_t \<Rightarrow> sf_state \<Rightarrow> bool \<times> sf_state" where
  "f64_lt a b st =
     (let uiA = ucast a :: u64; uiB = ucast b :: u64
      in if isNaNF64UI uiA \<or> isNaNF64UI uiB
         then (False, softfloat_raiseFlags softfloat_flag_invalid st)
         else let signA = signF64UI uiA; signB = signF64UI uiB
          in (if signA \<noteq> signB then signA \<and> (uiA OR uiB) AND 0x7FFFFFFFFFFFFFFF \<noteq> 0
              else uiA \<noteq> uiB \<and> (signA \<noteq> (uiA < uiB)), st))"

definition f64_isSignalingNaN :: "float64_t \<Rightarrow> bool" where
  "f64_isSignalingNaN a = softfloat_isSigNaNF64UI (ucast a)"

definition f64_classify :: "float64_t \<Rightarrow> u64" where
  "f64_classify a =
     (let uiA = ucast a :: u64;
          infOrNaN = expF64UI uiA = 0x7FF;
          subnormalOrZero = expF64UI uiA = 0;
          sign = signF64UI uiA;
          fracZero = fracF64UI uiA = 0;
          isNaN = isNaNF64UI uiA;
          isSNaN = softfloat_isSigNaNF64UI uiA
      in push_bit 0 (of_bool (sign \<and> infOrNaN \<and> fracZero)) OR
         push_bit 1 (of_bool (sign \<and> \<not> infOrNaN \<and> \<not> subnormalOrZero)) OR
         push_bit 2 (of_bool (sign \<and> subnormalOrZero \<and> \<not> fracZero)) OR
         push_bit 3 (of_bool (sign \<and> subnormalOrZero \<and> fracZero)) OR
         push_bit 7 (of_bool (\<not> sign \<and> infOrNaN \<and> fracZero)) OR
         push_bit 6 (of_bool (\<not> sign \<and> \<not> infOrNaN \<and> \<not> subnormalOrZero)) OR
         push_bit 5 (of_bool (\<not> sign \<and> subnormalOrZero \<and> \<not> fracZero)) OR
         push_bit 4 (of_bool (\<not> sign \<and> subnormalOrZero \<and> fracZero)) OR
         push_bit 8 (of_bool (isNaN \<and> isSNaN)) OR
         push_bit 9 (of_bool (isNaN \<and> \<not> isSNaN)))"

text \<open>The macros \<open>COMPARE_MAX\<close> and \<open>COMPARE_MIN\<close>, over the routines their \<open>bits\<close> argument selects.\<close>

definition compare_max ::
  "('a word \<Rightarrow> 'a word \<Rightarrow> sf_state \<Rightarrow> bool \<times> sf_state) \<Rightarrow> ('a word \<Rightarrow> 'a word \<Rightarrow> sf_state \<Rightarrow> bool \<times> sf_state) \<Rightarrow>
   (u64 \<Rightarrow> bool) \<Rightarrow> (u64 \<Rightarrow> bool) \<Rightarrow> u64 \<Rightarrow> 'a::len word \<Rightarrow> 'a word \<Rightarrow> sf_state \<Rightarrow> 'a word \<times> sf_state" where
  "compare_max lt_quiet eq signUI isNaNUI defaultNaNUI a b st =
     (let (l, st) = lt_quiet b a st;
          (greater, st) = (if l then (True, st) else let (e, st) = eq b a st in (e \<and> signUI (ucast b), st))
      in if isNaNUI (ucast a) \<and> isNaNUI (ucast b) then (ucast defaultNaNUI, st)
         else (if greater \<or> isNaNUI (ucast b) then a else b, st))"

definition compare_min ::
  "('a word \<Rightarrow> 'a word \<Rightarrow> sf_state \<Rightarrow> bool \<times> sf_state) \<Rightarrow> ('a word \<Rightarrow> 'a word \<Rightarrow> sf_state \<Rightarrow> bool \<times> sf_state) \<Rightarrow>
   (u64 \<Rightarrow> bool) \<Rightarrow> (u64 \<Rightarrow> bool) \<Rightarrow> u64 \<Rightarrow> 'a::len word \<Rightarrow> 'a word \<Rightarrow> sf_state \<Rightarrow> 'a word \<times> sf_state" where
  "compare_min lt_quiet eq signUI isNaNUI defaultNaNUI a b st =
     (let (l, st) = lt_quiet a b st;
          (less, st) = (if l then (True, st) else let (e, st) = eq a b st in (e \<and> signUI (ucast a), st))
      in if isNaNUI (ucast a) \<and> isNaNUI (ucast b) then (ucast defaultNaNUI, st)
         else (if less \<or> isNaNUI (ucast b) then a else b, st))"

definition f16_max :: "float16_t \<Rightarrow> float16_t \<Rightarrow> sf_state \<Rightarrow> float16_t \<times> sf_state" where
  "f16_max = compare_max f16_lt_quiet f16_eq signF16UI isNaNF16UI defaultNaNF16UI"

definition f16_min :: "float16_t \<Rightarrow> float16_t \<Rightarrow> sf_state \<Rightarrow> float16_t \<times> sf_state" where
  "f16_min = compare_min f16_lt_quiet f16_eq signF16UI isNaNF16UI defaultNaNF16UI"

definition f32_max :: "float32_t \<Rightarrow> float32_t \<Rightarrow> sf_state \<Rightarrow> float32_t \<times> sf_state" where
  "f32_max = compare_max f32_lt_quiet f32_eq signF32UI isNaNF32UI defaultNaNF32UI"

definition f32_min :: "float32_t \<Rightarrow> float32_t \<Rightarrow> sf_state \<Rightarrow> float32_t \<times> sf_state" where
  "f32_min = compare_min f32_lt_quiet f32_eq signF32UI isNaNF32UI defaultNaNF32UI"

definition f64_max :: "float64_t \<Rightarrow> float64_t \<Rightarrow> sf_state \<Rightarrow> float64_t \<times> sf_state" where
  "f64_max = compare_max f64_lt_quiet f64_eq signF64UI isNaNF64UI defaultNaNF64UI"

definition f64_min :: "float64_t \<Rightarrow> float64_t \<Rightarrow> sf_state \<Rightarrow> float64_t \<times> sf_state" where
  "f64_min = compare_min f64_lt_quiet f64_eq signF64UI isNaNF64UI defaultNaNF64UI"

section \<open>Tests on patterns\<close>

text \<open>The unsigned comparison of two patterns, corrected by the signs, is the order of the patterns.\<close>

lemma pattern_tests:
  assumes "m < 2 * sign_weight F" "n < 2 * sign_weight F"
  defines "z \<equiv> mag_of F m = 0 \<and> mag_of F n = 0"
  shows "(m = n \<or> z) = (pattern_order F m = pattern_order F n)"
    "(if neg_of F m \<noteq> neg_of F n then neg_of F m \<or> z else m = n \<or> (neg_of F m \<noteq> (m < n)))
      = (pattern_order F m \<le> pattern_order F n)"
    "(if neg_of F m \<noteq> neg_of F n then neg_of F m \<and> \<not> z else m \<noteq> n \<and> (neg_of F m \<noteq> (m < n)))
      = (pattern_order F m < pattern_order F n)"
proof -
  define a b s t S where "a = mag_of F m" and "b = mag_of F n" and "s = neg_of F m" and "t = neg_of F n"
    and "S = sign_weight F"
  note d = a_def [symmetric] b_def [symmetric] s_def [symmetric] t_def [symmetric] S_def [symmetric]
  have m: "m = of_bool s * S + a" "a < S" and n: "n = of_bool t * S + b" "b < S"
    using pattern_bounds [OF assms(1)] pattern_bounds [OF assms(2)] unfolding d by simp_all
  have "(m = n \<or> a = 0 \<and> b = 0) = ((if s then - int a else int a) = (if t then - int b else int b))"
    using m(2) n(2) by (cases s; cases t) (auto simp: m(1) n(1))
  then show "(m = n \<or> z) = (pattern_order F m = pattern_order F n)"
    unfolding z_def pattern_order_def d .
  have "(if s \<noteq> t then s \<or> a = 0 \<and> b = 0 else m = n \<or> (s \<noteq> (m < n)))
      = ((if s then - int a else int a) \<le> (if t then - int b else int b))"
    using m(2) n(2) by (cases s; cases t) (auto simp: m(1) n(1))
  then show "(if neg_of F m \<noteq> neg_of F n then neg_of F m \<or> z else m = n \<or> (neg_of F m \<noteq> (m < n)))
      = (pattern_order F m \<le> pattern_order F n)"
    unfolding z_def pattern_order_def d .
  have "(if s \<noteq> t then s \<and> \<not> (a = 0 \<and> b = 0) else m \<noteq> n \<and> (s \<noteq> (m < n)))
      = ((if s then - int a else int a) < (if t then - int b else int b))"
    using m(2) n(2) by (cases s; cases t) (auto simp: m(1) n(1))
  then show "(if neg_of F m \<noteq> neg_of F n then neg_of F m \<and> \<not> z else m \<noteq> n \<and> (neg_of F m \<noteq> (m < n)))
      = (pattern_order F m < pattern_order F n)"
    unfolding z_def pattern_order_def d .
qed

lemma fp_order_patterns:
  assumes "\<not> is_nan (decode F a)" "\<not> is_nan (decode F b)" "0 < exp_max F"
  shows "fp_le (decode F a) (decode F b) = (pattern_order F a \<le> pattern_order F b)"
    "fp_lt (decode F a) (decode F b) = (pattern_order F a < pattern_order F b)"
    "fp_eq (decode F a) (decode F b) = (pattern_order F a = pattern_order F b)"
  using decode_le [OF assms] decode_le [OF assms(2) assms(1) assms(3)]
  by (auto simp: fp_lt_def fp_eq_def)

lemma fp_order_nan:
  assumes "is_nan x \<or> is_nan y"
  shows "\<not> fp_le x y" "\<not> fp_lt x y" "\<not> fp_eq x y"
  using fp_le_nan [OF assms] by (simp_all add: fp_lt_def fp_eq_def)

lemma double_mod: "k < 64 \<Longrightarrow> x * 2 mod 2 ^ 64 mod 2 ^ Suc k = x mod 2 ^ k * 2" for x :: nat
proof -
  assume "k < 64"
  then have "(2 :: nat) ^ Suc k dvd 2 ^ 64" by (intro le_imp_power_dvd) simp
  then have "x * 2 mod 2 ^ 64 mod 2 ^ Suc k = x * 2 mod 2 ^ Suc k" by (rule mod_mod_cancel)
  also have "\<dots> = x mod 2 ^ k * 2" by (simp only: power_Suc mult.commute [of _ 2] mult_mod_right)
  finally show ?thesis .
qed

lemma or_zero_nat: "(a :: nat) OR b = 0 \<longleftrightarrow> a = 0 \<and> b = 0"
  by (metis or_eq_0_iff)

lemma or_mod_pow2: "((a :: nat) OR b) mod 2 ^ k = a mod 2 ^ k OR b mod 2 ^ k"
  by (simp flip: take_bit_eq_mod)

lemma both_zeroF16: "(ucast (push_bit 1 (ucast a OR ucast b :: u64)) :: u16) = 0 \<longleftrightarrow>
    mag_of f16_fmt (unat a) = 0 \<and> mag_of f16_fmt (unat b) = 0" for a b :: float16_t
proof -
  have o: "unat (ucast a OR ucast b :: u64) = unat a OR unat b"
    using unat_lt_16 [of a] unat_lt_16 [of b] by (simp add: unat_disj unat_cast)
  have "unat (ucast (push_bit 1 (ucast a OR ucast b :: u64)) :: u16) = (unat a OR unat b) mod 2 ^ 15 * 2"
    using double_mod [of 15 "unat a OR unat b"] unfolding unat_cast unat_push o by simp
  then show ?thesis
    unfolding word_eq_nat mag_of_def sign_weightF16 or_mod_pow2 by (simp add: or_zero_nat)
qed

lemma both_zeroF32: "(ucast (push_bit 1 (ucast a OR ucast b :: u64)) :: u32) = 0 \<longleftrightarrow>
    mag_of f32_fmt (unat a) = 0 \<and> mag_of f32_fmt (unat b) = 0" for a b :: float32_t
proof -
  have o: "unat (ucast a OR ucast b :: u64) = unat a OR unat b"
    using unat_lt_32 [of a] unat_lt_32 [of b] by (simp add: unat_disj unat_cast)
  have "unat (ucast (push_bit 1 (ucast a OR ucast b :: u64)) :: u32) = (unat a OR unat b) mod 2 ^ 31 * 2"
    using double_mod [of 31 "unat a OR unat b"] unfolding unat_cast unat_push o by simp
  then show ?thesis
    unfolding word_eq_nat mag_of_def sign_weightF32 or_mod_pow2 by (simp add: or_zero_nat)
qed

lemma both_zeroF64: "(ucast a OR ucast b :: u64) AND 0x7FFFFFFFFFFFFFFF = 0 \<longleftrightarrow>
    mag_of f64_fmt (unat a) = 0 \<and> mag_of f64_fmt (unat b) = 0" for a b :: float64_t
proof -
  have o: "unat (ucast a OR ucast b :: u64) = unat a OR unat b"
    using unat_lt_64 [of a] unat_lt_64 [of b] by (simp add: unat_disj unat_cast)
  show ?thesis
    unfolding word_eq_nat unat_conj o mag_of_def sign_weightF64 using or_mod_pow2 [of "unat a" "unat b" 63]
    by (simp add: bits_nat or_zero_nat)
qed

section \<open>The comparisons decide the order of the values\<close>

text \<open>
  A comparison of a quiet kind raises the invalid flag for a signaling NaN only, the others for
  every NaN. The results are false on NaNs because NaNs are unordered.
\<close>

definition quiet_result :: "sf_state \<Rightarrow> fp \<Rightarrow> fp \<Rightarrow> bool \<Rightarrow> bool \<times> sf_state" where
  "quiet_result st x y r =
     (r, if is_snan x \<or> is_snan y then softfloat_raiseFlags softfloat_flag_invalid st else st)"

definition signaling_result :: "sf_state \<Rightarrow> fp \<Rightarrow> fp \<Rightarrow> bool \<Rightarrow> bool \<times> sf_state" where
  "signaling_result st x y r =
     (r, if is_nan x \<or> is_nan y then softfloat_raiseFlags softfloat_flag_invalid st else st)"

lemmas compare_results = quiet_result_def signaling_result_def

lemma pattern_compareF16:
  "(ucast a :: u64) = ucast b \<longleftrightarrow> unat a = unat b" "(ucast a :: u64) < ucast b \<longleftrightarrow> unat a < unat b"
  for a b :: float16_t
  using unat_lt_16 [of a] unat_lt_16 [of b] by (simp_all add: word_eq_nat word_less_nat_alt unat_cast)

lemmas testsF16 = both_zeroF16 neg_ofF16 pattern_compareF16
lemmas ordersF16 = pattern_tests [OF pattern_ltF16 pattern_ltF16]

lemma f16_eq_order: "f16_eq a b st =
    quiet_result st (decode f16_fmt (unat a)) (decode f16_fmt (unat b)) (fp_eq (decode f16_fmt (unat a)) (decode f16_fmt (unat b)))"
proof (cases "is_nan (decode f16_fmt (unat a)) \<or> is_nan (decode f16_fmt (unat b))")
  case True
  then show ?thesis
    unfolding f16_eq_def Let_def is_nanF16 is_snanF16 if_P [OF True] by (simp add: fp_order_nan compare_results)
next
  case False
  then have o: "\<not> is_nan (decode f16_fmt (unat a))" "\<not> is_nan (decode f16_fmt (unat b))" by simp_all
  then have s: "\<not> is_snan (decode f16_fmt (unat a))" "\<not> is_snan (decode f16_fmt (unat b))" using is_snan_nan by blast+
  have p: "0 < exp_max f16_fmt" by simp
  show ?thesis
    unfolding f16_eq_def Let_def is_nanF16 if_not_P [OF False] testsF16 ordersF16 fp_order_patterns [OF o p]
    by (simp add: o s compare_results)
qed

lemma f16_eq_signaling_order: "f16_eq_signaling a b st =
    signaling_result st (decode f16_fmt (unat a)) (decode f16_fmt (unat b)) (fp_eq (decode f16_fmt (unat a)) (decode f16_fmt (unat b)))"
proof (cases "is_nan (decode f16_fmt (unat a)) \<or> is_nan (decode f16_fmt (unat b))")
  case True
  then show ?thesis
    unfolding f16_eq_signaling_def Let_def is_nanF16 is_snanF16 if_P [OF True] by (simp add: fp_order_nan compare_results)
next
  case False
  then have o: "\<not> is_nan (decode f16_fmt (unat a))" "\<not> is_nan (decode f16_fmt (unat b))" by simp_all
  then have s: "\<not> is_snan (decode f16_fmt (unat a))" "\<not> is_snan (decode f16_fmt (unat b))" using is_snan_nan by blast+
  have p: "0 < exp_max f16_fmt" by simp
  show ?thesis
    unfolding f16_eq_signaling_def Let_def is_nanF16 if_not_P [OF False] testsF16 ordersF16 fp_order_patterns [OF o p]
    by (simp add: o s compare_results)
qed

lemma f16_le_order: "f16_le a b st =
    signaling_result st (decode f16_fmt (unat a)) (decode f16_fmt (unat b)) (fp_le (decode f16_fmt (unat a)) (decode f16_fmt (unat b)))"
proof (cases "is_nan (decode f16_fmt (unat a)) \<or> is_nan (decode f16_fmt (unat b))")
  case True
  then show ?thesis
    unfolding f16_le_def Let_def is_nanF16 is_snanF16 if_P [OF True] by (simp add: fp_order_nan compare_results)
next
  case False
  then have o: "\<not> is_nan (decode f16_fmt (unat a))" "\<not> is_nan (decode f16_fmt (unat b))" by simp_all
  then have s: "\<not> is_snan (decode f16_fmt (unat a))" "\<not> is_snan (decode f16_fmt (unat b))" using is_snan_nan by blast+
  have p: "0 < exp_max f16_fmt" by simp
  show ?thesis
    unfolding f16_le_def Let_def is_nanF16 if_not_P [OF False] testsF16 ordersF16 fp_order_patterns [OF o p]
    by (simp add: o s compare_results)
qed

lemma f16_le_quiet_order: "f16_le_quiet a b st =
    quiet_result st (decode f16_fmt (unat a)) (decode f16_fmt (unat b)) (fp_le (decode f16_fmt (unat a)) (decode f16_fmt (unat b)))"
proof (cases "is_nan (decode f16_fmt (unat a)) \<or> is_nan (decode f16_fmt (unat b))")
  case True
  then show ?thesis
    unfolding f16_le_quiet_def Let_def is_nanF16 is_snanF16 if_P [OF True] by (simp add: fp_order_nan compare_results)
next
  case False
  then have o: "\<not> is_nan (decode f16_fmt (unat a))" "\<not> is_nan (decode f16_fmt (unat b))" by simp_all
  then have s: "\<not> is_snan (decode f16_fmt (unat a))" "\<not> is_snan (decode f16_fmt (unat b))" using is_snan_nan by blast+
  have p: "0 < exp_max f16_fmt" by simp
  show ?thesis
    unfolding f16_le_quiet_def Let_def is_nanF16 if_not_P [OF False] testsF16 ordersF16 fp_order_patterns [OF o p]
    by (simp add: o s compare_results)
qed

lemma f16_lt_order: "f16_lt a b st =
    signaling_result st (decode f16_fmt (unat a)) (decode f16_fmt (unat b)) (fp_lt (decode f16_fmt (unat a)) (decode f16_fmt (unat b)))"
proof (cases "is_nan (decode f16_fmt (unat a)) \<or> is_nan (decode f16_fmt (unat b))")
  case True
  then show ?thesis
    unfolding f16_lt_def Let_def is_nanF16 is_snanF16 if_P [OF True] by (simp add: fp_order_nan compare_results)
next
  case False
  then have o: "\<not> is_nan (decode f16_fmt (unat a))" "\<not> is_nan (decode f16_fmt (unat b))" by simp_all
  then have s: "\<not> is_snan (decode f16_fmt (unat a))" "\<not> is_snan (decode f16_fmt (unat b))" using is_snan_nan by blast+
  have p: "0 < exp_max f16_fmt" by simp
  show ?thesis
    unfolding f16_lt_def Let_def is_nanF16 if_not_P [OF False] testsF16 ordersF16 fp_order_patterns [OF o p]
    by (simp add: o s compare_results)
qed

lemma f16_lt_quiet_order: "f16_lt_quiet a b st =
    quiet_result st (decode f16_fmt (unat a)) (decode f16_fmt (unat b)) (fp_lt (decode f16_fmt (unat a)) (decode f16_fmt (unat b)))"
proof (cases "is_nan (decode f16_fmt (unat a)) \<or> is_nan (decode f16_fmt (unat b))")
  case True
  then show ?thesis
    unfolding f16_lt_quiet_def Let_def is_nanF16 is_snanF16 if_P [OF True] by (simp add: fp_order_nan compare_results)
next
  case False
  then have o: "\<not> is_nan (decode f16_fmt (unat a))" "\<not> is_nan (decode f16_fmt (unat b))" by simp_all
  then have s: "\<not> is_snan (decode f16_fmt (unat a))" "\<not> is_snan (decode f16_fmt (unat b))" using is_snan_nan by blast+
  have p: "0 < exp_max f16_fmt" by simp
  show ?thesis
    unfolding f16_lt_quiet_def Let_def is_nanF16 if_not_P [OF False] testsF16 ordersF16 fp_order_patterns [OF o p]
    by (simp add: o s compare_results)
qed

lemma pattern_compareF32:
  "(ucast a :: u64) = ucast b \<longleftrightarrow> unat a = unat b" "(ucast a :: u64) < ucast b \<longleftrightarrow> unat a < unat b"
  for a b :: float32_t
  using unat_lt_32 [of a] unat_lt_32 [of b] by (simp_all add: word_eq_nat word_less_nat_alt unat_cast)

lemmas testsF32 = both_zeroF32 neg_ofF32 pattern_compareF32
lemmas ordersF32 = pattern_tests [OF pattern_ltF32 pattern_ltF32]

lemma f32_eq_order: "f32_eq a b st =
    quiet_result st (decode f32_fmt (unat a)) (decode f32_fmt (unat b)) (fp_eq (decode f32_fmt (unat a)) (decode f32_fmt (unat b)))"
proof (cases "is_nan (decode f32_fmt (unat a)) \<or> is_nan (decode f32_fmt (unat b))")
  case True
  then show ?thesis
    unfolding f32_eq_def Let_def is_nanF32 is_snanF32 if_P [OF True] by (simp add: fp_order_nan compare_results)
next
  case False
  then have o: "\<not> is_nan (decode f32_fmt (unat a))" "\<not> is_nan (decode f32_fmt (unat b))" by simp_all
  then have s: "\<not> is_snan (decode f32_fmt (unat a))" "\<not> is_snan (decode f32_fmt (unat b))" using is_snan_nan by blast+
  have p: "0 < exp_max f32_fmt" by simp
  show ?thesis
    unfolding f32_eq_def Let_def is_nanF32 if_not_P [OF False] testsF32 ordersF32 fp_order_patterns [OF o p]
    by (simp add: o s compare_results)
qed

lemma f32_eq_signaling_order: "f32_eq_signaling a b st =
    signaling_result st (decode f32_fmt (unat a)) (decode f32_fmt (unat b)) (fp_eq (decode f32_fmt (unat a)) (decode f32_fmt (unat b)))"
proof (cases "is_nan (decode f32_fmt (unat a)) \<or> is_nan (decode f32_fmt (unat b))")
  case True
  then show ?thesis
    unfolding f32_eq_signaling_def Let_def is_nanF32 is_snanF32 if_P [OF True] by (simp add: fp_order_nan compare_results)
next
  case False
  then have o: "\<not> is_nan (decode f32_fmt (unat a))" "\<not> is_nan (decode f32_fmt (unat b))" by simp_all
  then have s: "\<not> is_snan (decode f32_fmt (unat a))" "\<not> is_snan (decode f32_fmt (unat b))" using is_snan_nan by blast+
  have p: "0 < exp_max f32_fmt" by simp
  show ?thesis
    unfolding f32_eq_signaling_def Let_def is_nanF32 if_not_P [OF False] testsF32 ordersF32 fp_order_patterns [OF o p]
    by (simp add: o s compare_results)
qed

lemma f32_le_order: "f32_le a b st =
    signaling_result st (decode f32_fmt (unat a)) (decode f32_fmt (unat b)) (fp_le (decode f32_fmt (unat a)) (decode f32_fmt (unat b)))"
proof (cases "is_nan (decode f32_fmt (unat a)) \<or> is_nan (decode f32_fmt (unat b))")
  case True
  then show ?thesis
    unfolding f32_le_def Let_def is_nanF32 is_snanF32 if_P [OF True] by (simp add: fp_order_nan compare_results)
next
  case False
  then have o: "\<not> is_nan (decode f32_fmt (unat a))" "\<not> is_nan (decode f32_fmt (unat b))" by simp_all
  then have s: "\<not> is_snan (decode f32_fmt (unat a))" "\<not> is_snan (decode f32_fmt (unat b))" using is_snan_nan by blast+
  have p: "0 < exp_max f32_fmt" by simp
  show ?thesis
    unfolding f32_le_def Let_def is_nanF32 if_not_P [OF False] testsF32 ordersF32 fp_order_patterns [OF o p]
    by (simp add: o s compare_results)
qed

lemma f32_le_quiet_order: "f32_le_quiet a b st =
    quiet_result st (decode f32_fmt (unat a)) (decode f32_fmt (unat b)) (fp_le (decode f32_fmt (unat a)) (decode f32_fmt (unat b)))"
proof (cases "is_nan (decode f32_fmt (unat a)) \<or> is_nan (decode f32_fmt (unat b))")
  case True
  then show ?thesis
    unfolding f32_le_quiet_def Let_def is_nanF32 is_snanF32 if_P [OF True] by (simp add: fp_order_nan compare_results)
next
  case False
  then have o: "\<not> is_nan (decode f32_fmt (unat a))" "\<not> is_nan (decode f32_fmt (unat b))" by simp_all
  then have s: "\<not> is_snan (decode f32_fmt (unat a))" "\<not> is_snan (decode f32_fmt (unat b))" using is_snan_nan by blast+
  have p: "0 < exp_max f32_fmt" by simp
  show ?thesis
    unfolding f32_le_quiet_def Let_def is_nanF32 if_not_P [OF False] testsF32 ordersF32 fp_order_patterns [OF o p]
    by (simp add: o s compare_results)
qed

lemma f32_lt_order: "f32_lt a b st =
    signaling_result st (decode f32_fmt (unat a)) (decode f32_fmt (unat b)) (fp_lt (decode f32_fmt (unat a)) (decode f32_fmt (unat b)))"
proof (cases "is_nan (decode f32_fmt (unat a)) \<or> is_nan (decode f32_fmt (unat b))")
  case True
  then show ?thesis
    unfolding f32_lt_def Let_def is_nanF32 is_snanF32 if_P [OF True] by (simp add: fp_order_nan compare_results)
next
  case False
  then have o: "\<not> is_nan (decode f32_fmt (unat a))" "\<not> is_nan (decode f32_fmt (unat b))" by simp_all
  then have s: "\<not> is_snan (decode f32_fmt (unat a))" "\<not> is_snan (decode f32_fmt (unat b))" using is_snan_nan by blast+
  have p: "0 < exp_max f32_fmt" by simp
  show ?thesis
    unfolding f32_lt_def Let_def is_nanF32 if_not_P [OF False] testsF32 ordersF32 fp_order_patterns [OF o p]
    by (simp add: o s compare_results)
qed

lemma f32_lt_quiet_order: "f32_lt_quiet a b st =
    quiet_result st (decode f32_fmt (unat a)) (decode f32_fmt (unat b)) (fp_lt (decode f32_fmt (unat a)) (decode f32_fmt (unat b)))"
proof (cases "is_nan (decode f32_fmt (unat a)) \<or> is_nan (decode f32_fmt (unat b))")
  case True
  then show ?thesis
    unfolding f32_lt_quiet_def Let_def is_nanF32 is_snanF32 if_P [OF True] by (simp add: fp_order_nan compare_results)
next
  case False
  then have o: "\<not> is_nan (decode f32_fmt (unat a))" "\<not> is_nan (decode f32_fmt (unat b))" by simp_all
  then have s: "\<not> is_snan (decode f32_fmt (unat a))" "\<not> is_snan (decode f32_fmt (unat b))" using is_snan_nan by blast+
  have p: "0 < exp_max f32_fmt" by simp
  show ?thesis
    unfolding f32_lt_quiet_def Let_def is_nanF32 if_not_P [OF False] testsF32 ordersF32 fp_order_patterns [OF o p]
    by (simp add: o s compare_results)
qed

lemma pattern_compareF64:
  "(ucast a :: u64) = ucast b \<longleftrightarrow> unat a = unat b" "(ucast a :: u64) < ucast b \<longleftrightarrow> unat a < unat b"
  for a b :: float64_t
  using unat_lt_64 [of a] unat_lt_64 [of b] by (simp_all add: word_eq_nat word_less_nat_alt unat_cast)

lemmas testsF64 = both_zeroF64 neg_ofF64 pattern_compareF64
lemmas ordersF64 = pattern_tests [OF pattern_ltF64 pattern_ltF64]

lemma f64_eq_order: "f64_eq a b st =
    quiet_result st (decode f64_fmt (unat a)) (decode f64_fmt (unat b)) (fp_eq (decode f64_fmt (unat a)) (decode f64_fmt (unat b)))"
proof (cases "is_nan (decode f64_fmt (unat a)) \<or> is_nan (decode f64_fmt (unat b))")
  case True
  then show ?thesis
    unfolding f64_eq_def Let_def is_nanF64 is_snanF64 if_P [OF True] by (simp add: fp_order_nan compare_results)
next
  case False
  then have o: "\<not> is_nan (decode f64_fmt (unat a))" "\<not> is_nan (decode f64_fmt (unat b))" by simp_all
  then have s: "\<not> is_snan (decode f64_fmt (unat a))" "\<not> is_snan (decode f64_fmt (unat b))" using is_snan_nan by blast+
  have p: "0 < exp_max f64_fmt" by simp
  show ?thesis
    unfolding f64_eq_def Let_def is_nanF64 if_not_P [OF False] testsF64 ordersF64 fp_order_patterns [OF o p]
    by (simp add: o s compare_results)
qed

lemma f64_eq_signaling_order: "f64_eq_signaling a b st =
    signaling_result st (decode f64_fmt (unat a)) (decode f64_fmt (unat b)) (fp_eq (decode f64_fmt (unat a)) (decode f64_fmt (unat b)))"
proof (cases "is_nan (decode f64_fmt (unat a)) \<or> is_nan (decode f64_fmt (unat b))")
  case True
  then show ?thesis
    unfolding f64_eq_signaling_def Let_def is_nanF64 is_snanF64 if_P [OF True] by (simp add: fp_order_nan compare_results)
next
  case False
  then have o: "\<not> is_nan (decode f64_fmt (unat a))" "\<not> is_nan (decode f64_fmt (unat b))" by simp_all
  then have s: "\<not> is_snan (decode f64_fmt (unat a))" "\<not> is_snan (decode f64_fmt (unat b))" using is_snan_nan by blast+
  have p: "0 < exp_max f64_fmt" by simp
  show ?thesis
    unfolding f64_eq_signaling_def Let_def is_nanF64 if_not_P [OF False] testsF64 ordersF64 fp_order_patterns [OF o p]
    by (simp add: o s compare_results)
qed

lemma f64_le_order: "f64_le a b st =
    signaling_result st (decode f64_fmt (unat a)) (decode f64_fmt (unat b)) (fp_le (decode f64_fmt (unat a)) (decode f64_fmt (unat b)))"
proof (cases "is_nan (decode f64_fmt (unat a)) \<or> is_nan (decode f64_fmt (unat b))")
  case True
  then show ?thesis
    unfolding f64_le_def Let_def is_nanF64 is_snanF64 if_P [OF True] by (simp add: fp_order_nan compare_results)
next
  case False
  then have o: "\<not> is_nan (decode f64_fmt (unat a))" "\<not> is_nan (decode f64_fmt (unat b))" by simp_all
  then have s: "\<not> is_snan (decode f64_fmt (unat a))" "\<not> is_snan (decode f64_fmt (unat b))" using is_snan_nan by blast+
  have p: "0 < exp_max f64_fmt" by simp
  show ?thesis
    unfolding f64_le_def Let_def is_nanF64 if_not_P [OF False] testsF64 ordersF64 fp_order_patterns [OF o p]
    by (simp add: o s compare_results)
qed

lemma f64_le_quiet_order: "f64_le_quiet a b st =
    quiet_result st (decode f64_fmt (unat a)) (decode f64_fmt (unat b)) (fp_le (decode f64_fmt (unat a)) (decode f64_fmt (unat b)))"
proof (cases "is_nan (decode f64_fmt (unat a)) \<or> is_nan (decode f64_fmt (unat b))")
  case True
  then show ?thesis
    unfolding f64_le_quiet_def Let_def is_nanF64 is_snanF64 if_P [OF True] by (simp add: fp_order_nan compare_results)
next
  case False
  then have o: "\<not> is_nan (decode f64_fmt (unat a))" "\<not> is_nan (decode f64_fmt (unat b))" by simp_all
  then have s: "\<not> is_snan (decode f64_fmt (unat a))" "\<not> is_snan (decode f64_fmt (unat b))" using is_snan_nan by blast+
  have p: "0 < exp_max f64_fmt" by simp
  show ?thesis
    unfolding f64_le_quiet_def Let_def is_nanF64 if_not_P [OF False] testsF64 ordersF64 fp_order_patterns [OF o p]
    by (simp add: o s compare_results)
qed

lemma f64_lt_order: "f64_lt a b st =
    signaling_result st (decode f64_fmt (unat a)) (decode f64_fmt (unat b)) (fp_lt (decode f64_fmt (unat a)) (decode f64_fmt (unat b)))"
proof (cases "is_nan (decode f64_fmt (unat a)) \<or> is_nan (decode f64_fmt (unat b))")
  case True
  then show ?thesis
    unfolding f64_lt_def Let_def is_nanF64 is_snanF64 if_P [OF True] by (simp add: fp_order_nan compare_results)
next
  case False
  then have o: "\<not> is_nan (decode f64_fmt (unat a))" "\<not> is_nan (decode f64_fmt (unat b))" by simp_all
  then have s: "\<not> is_snan (decode f64_fmt (unat a))" "\<not> is_snan (decode f64_fmt (unat b))" using is_snan_nan by blast+
  have p: "0 < exp_max f64_fmt" by simp
  show ?thesis
    unfolding f64_lt_def Let_def is_nanF64 if_not_P [OF False] testsF64 ordersF64 fp_order_patterns [OF o p]
    by (simp add: o s compare_results)
qed

lemma f64_lt_quiet_order: "f64_lt_quiet a b st =
    quiet_result st (decode f64_fmt (unat a)) (decode f64_fmt (unat b)) (fp_lt (decode f64_fmt (unat a)) (decode f64_fmt (unat b)))"
proof (cases "is_nan (decode f64_fmt (unat a)) \<or> is_nan (decode f64_fmt (unat b))")
  case True
  then show ?thesis
    unfolding f64_lt_quiet_def Let_def is_nanF64 is_snanF64 if_P [OF True] by (simp add: fp_order_nan compare_results)
next
  case False
  then have o: "\<not> is_nan (decode f64_fmt (unat a))" "\<not> is_nan (decode f64_fmt (unat b))" by simp_all
  then have s: "\<not> is_snan (decode f64_fmt (unat a))" "\<not> is_snan (decode f64_fmt (unat b))" using is_snan_nan by blast+
  have p: "0 < exp_max f64_fmt" by simp
  show ?thesis
    unfolding f64_lt_quiet_def Let_def is_nanF64 if_not_P [OF False] testsF64 ordersF64 fp_order_patterns [OF o p]
    by (simp add: o s compare_results)
qed

section \<open>Classification\<close>

fun fp_class :: "fmt \<Rightarrow> fp \<Rightarrow> nat" where
  "fp_class F (Inf s) = (if s then 0 else 7)"
| "fp_class F (Fin s m e) =
     (if m = 0 then if s then 3 else 4
      else if m < 2 ^ frac_bits F then if s then 2 else 5
      else if s then 1 else 6)"
| "fp_class F (NaN s) = (if s then 8 else 9)"

lemma f16_classify_class: "f16_classify a = push_bit (fp_class f16_fmt (decode f16_fmt (unat a))) 1"
proof -
  have u: "unat (ucast a :: u64) = unat a" using unat_lt_16 [of a] by (simp add: unat_cast)
  define u where "u = (ucast a :: u64)"
  note d = decodeF16 [of u, unfolded u_def u, folded u_def]
  have z: "fracF16UI u = 0 \<longleftrightarrow> unat (fracF16UI u) = 0" by (simp add: word_eq_nat)
  show ?thesis
    unfolding f16_classify_def Let_def u_def [symmetric] d isNaNF16 z
    using fracF16_bound [of u] sigNaNF16 [of u]
    by (cases "signF16UI u"; cases "expF16UI u = 0x1F"; cases "expF16UI u = 0";
        cases "unat (fracF16UI u) = 0"; cases "softfloat_isSigNaNF16UI u") (simp_all add: push_bit_eq_mult)
qed

lemma f32_classify_class: "f32_classify a = push_bit (fp_class f32_fmt (decode f32_fmt (unat a))) 1"
proof -
  have u: "unat (ucast a :: u64) = unat a" using unat_lt_32 [of a] by (simp add: unat_cast)
  define u where "u = (ucast a :: u64)"
  note d = decodeF32 [of u, unfolded u_def u, folded u_def]
  have z: "fracF32UI u = 0 \<longleftrightarrow> unat (fracF32UI u) = 0" by (simp add: word_eq_nat)
  show ?thesis
    unfolding f32_classify_def Let_def u_def [symmetric] d isNaNF32 z
    using fracF32_bound [of u] sigNaNF32 [of u]
    by (cases "signF32UI u"; cases "expF32UI u = 0xFF"; cases "expF32UI u = 0";
        cases "unat (fracF32UI u) = 0"; cases "softfloat_isSigNaNF32UI u") (simp_all add: push_bit_eq_mult)
qed

lemma f64_classify_class: "f64_classify a = push_bit (fp_class f64_fmt (decode f64_fmt (unat a))) 1"
proof -
  have u: "unat (ucast a :: u64) = unat a" using unat_lt_64 [of a] by (simp add: unat_cast)
  define u where "u = (ucast a :: u64)"
  note d = decodeF64 [of u, unfolded u_def u, folded u_def]
  have z: "fracF64UI u = 0 \<longleftrightarrow> unat (fracF64UI u) = 0" by (simp add: word_eq_nat)
  show ?thesis
    unfolding f64_classify_def Let_def u_def [symmetric] d isNaNF64 z
    using fracF64_bound [of u] sigNaNF64 [of u]
    by (cases "signF64UI u"; cases "expF64UI u = 0x7FF"; cases "expF64UI u = 0";
        cases "unat (fracF64UI u) = 0"; cases "softfloat_isSigNaNF64UI u") (simp_all add: push_bit_eq_mult)
qed

section \<open>Maximum and minimum\<close>

text \<open>
  The order of patterns in which \<open>-0\<close> is below \<open>+0\<close>. The maximum of two numbers is the greater
  in it, a NaN operand gives way to the other operand, and two NaNs give the default NaN.
\<close>

definition total_order :: "fmt \<Rightarrow> nat \<Rightarrow> int" where
  "total_order F n = (if neg_of F n then - int (mag_of F n) - 1 else int (mag_of F n))"

definition choose_result :: "fmt \<Rightarrow> sf_state \<Rightarrow> nat \<Rightarrow> nat \<Rightarrow> nat \<Rightarrow> nat \<times> sf_state" where
  "choose_result F st a b best =
     (let x = decode F a; y = decode F b
      in (if is_nan x \<and> is_nan y then quiet_nan F else if is_nan y then a else if is_nan x then b else best,
          if is_snan x \<or> is_snan y then softfloat_raiseFlags softfloat_flag_invalid st else st))"

definition max_result :: "fmt \<Rightarrow> sf_state \<Rightarrow> nat \<Rightarrow> nat \<Rightarrow> nat \<times> sf_state" where
  "max_result F st a b = choose_result F st a b (if total_order F b \<le> total_order F a then a else b)"

definition min_result :: "fmt \<Rightarrow> sf_state \<Rightarrow> nat \<Rightarrow> nat \<Rightarrow> nat \<times> sf_state" where
  "min_result F st a b = choose_result F st a b (if total_order F a \<le> total_order F b then a else b)"

lemma total_order_inj:
  assumes "m < 2 * sign_weight F" "n < 2 * sign_weight F" "total_order F m = total_order F n"
  shows "m = n"
  using assms(3) pattern_bounds [OF assms(1)] pattern_bounds [OF assms(2)]
  by (auto simp: total_order_def split: if_splits)

lemma total_order_le:
  assumes "m < 2 * sign_weight F" "n < 2 * sign_weight F"
  shows "total_order F m \<le> total_order F n \<longleftrightarrow>
    pattern_order F m < pattern_order F n \<or> pattern_order F m = pattern_order F n \<and> (neg_of F m \<or> m = n)"
  using pattern_bounds [OF assms(1)] pattern_bounds [OF assms(2)]
  by (auto simp: total_order_def pattern_order_def split: if_splits)

text \<open>What the macros rely on, and what they give for any routines that keep it.\<close>

locale float_compare =
  fixes F :: fmt
    and lt_quiet eq :: "'a::len word \<Rightarrow> 'a word \<Rightarrow> sf_state \<Rightarrow> bool \<times> sf_state"
    and signUI isNaNUI :: "u64 \<Rightarrow> bool" and defaultNaNUI :: u64
  assumes lt: "lt_quiet a b st = quiet_result st (decode F (unat a)) (decode F (unat b))
        (fp_lt (decode F (unat a)) (decode F (unat b)))"
    and eq: "eq a b st = quiet_result st (decode F (unat a)) (decode F (unat b))
        (fp_eq (decode F (unat a)) (decode F (unat b)))"
    and sign: "signUI (ucast (a :: 'a word)) = neg_of F (unat a)"
    and nan: "isNaNUI (ucast (a :: 'a word)) = is_nan (decode F (unat a))"
    and default: "unat (ucast defaultNaNUI :: 'a word) = quiet_nan F"
    and width: "unat (a :: 'a word) < 2 * sign_weight F" "0 < exp_max F"
begin

lemma macro_result:
  fixes a b c :: "'a word"
  assumes best: "\<not> is_nan (decode F (unat a)) \<Longrightarrow> \<not> is_nan (decode F (unat b)) \<Longrightarrow>
      (if fp_lt x y \<or> fp_eq x y \<and> neg_of F (unat c) then unat a else unat b) = best"
    and xy: "{x, y} = {decode F (unat a), decode F (unat b)}"
    and e: "c = a \<or> c = b"
  shows "bits (let (l, st) = quiet_result st x y (fp_lt x y);
          (g, st) = (if l then (True, st) else let (e, st) = quiet_result st x y (fp_eq x y) in (e \<and> signUI (ucast c), st))
      in if isNaNUI (ucast a) \<and> isNaNUI (ucast b) then (ucast defaultNaNUI, st)
         else (if g \<or> isNaNUI (ucast b) then a else b, st)) = choose_result F st (unat a) (unat b) best"
proof -
  have sn: "(is_snan x \<or> is_snan y) = (is_snan (decode F (unat a)) \<or> is_snan (decode F (unat b)))"
    and nn: "(is_nan x \<or> is_nan y) = (is_nan (decode F (unat a)) \<or> is_nan (decode F (unat b)))"
    using xy by (auto simp: doubleton_eq_iff)
  define q where "q = (is_snan (decode F (unat a)) \<or> is_snan (decode F (unat b)))"
  note s = sn [folded q_def]
  show ?thesis
  proof (cases "is_nan (decode F (unat a)) \<or> is_nan (decode F (unat b))")
    case True
    then have "\<not> fp_lt x y" "\<not> fp_eq x y" using fp_order_nan [of x y] nn by simp_all
    then show ?thesis using True
      by (auto simp: quiet_result_def choose_result_def nan default bits_def Let_def s q_def)
  next
    case False
    then show ?thesis using best
      by (auto simp: quiet_result_def choose_result_def nan sign bits_def Let_def s q_def [symmetric])
  qed
qed

theorem max_correct: "bits (compare_max lt_quiet eq signUI isNaNUI defaultNaNUI a b st) = max_result F st (unat a) (unat b)"
  unfolding compare_max_def max_result_def lt eq
  by (rule macro_result) (auto simp: fp_order_patterns width total_order_le)

theorem min_correct: "bits (compare_min lt_quiet eq signUI isNaNUI defaultNaNUI a b st) = min_result F st (unat a) (unat b)"
  unfolding compare_min_def min_result_def lt eq
  by (rule macro_result) (auto simp: fp_order_patterns width total_order_le)

end

interpretation cmp16: float_compare f16_fmt f16_lt_quiet f16_eq signF16UI isNaNF16UI defaultNaNF16UI
  by unfold_locales
     (simp_all only: f16_lt_quiet_order f16_eq_order neg_ofF16 is_nanF16 pattern_ltF16,
      simp_all add: quiet_nan_def inf_mag_def defaultNaNF16UI_def unat_cast)

interpretation cmp32: float_compare f32_fmt f32_lt_quiet f32_eq signF32UI isNaNF32UI defaultNaNF32UI
  by unfold_locales
     (simp_all only: f32_lt_quiet_order f32_eq_order neg_ofF32 is_nanF32 pattern_ltF32,
      simp_all add: quiet_nan_def inf_mag_def defaultNaNF32UI_def unat_cast)

interpretation cmp64: float_compare f64_fmt f64_lt_quiet f64_eq signF64UI isNaNF64UI defaultNaNF64UI
  by unfold_locales
     (simp_all only: f64_lt_quiet_order f64_eq_order neg_ofF64 is_nanF64 pattern_ltF64,
      simp_all add: quiet_nan_def inf_mag_def defaultNaNF64UI_def unat_cast)

lemma max_result_commute:
  "m < 2 * sign_weight F \<Longrightarrow> n < 2 * sign_weight F \<Longrightarrow> max_result F st m n = max_result F st n m"
  "m < 2 * sign_weight F \<Longrightarrow> n < 2 * sign_weight F \<Longrightarrow> min_result F st m n = min_result F st n m"
  using total_order_inj [of m F n]
  by (auto simp: max_result_def min_result_def choose_result_def Let_def)

lemma trichotomy:
  "of_bool (fp_lt x y) + of_bool (fp_eq x y) + of_bool (fp_lt y x) + of_bool (is_nan x \<or> is_nan y) = (1 :: nat)"
  using fp_order_nan [of x y] fp_order_nan [of y x] fp_le_total [of x y]
  by (cases "is_nan x \<or> is_nan y") (auto simp: fp_lt_def fp_eq_def)

section \<open>Properties\<close>

text \<open>C30: every comparison routine decides the order of the denoted values (false when an operand is
  NaN); the quiet routines and the plain equality raise invalid exactly for a signaling NaN, the
  signaling ones for every NaN, and no other flag changes.\<close>

theorem comparisons_decide_order:
  "f16_eq a b st = quiet_result st (decode f16_fmt (unat a)) (decode f16_fmt (unat b)) (fp_eq (decode f16_fmt (unat a)) (decode f16_fmt (unat b))) \<and>
   f16_eq_signaling a b st = signaling_result st (decode f16_fmt (unat a)) (decode f16_fmt (unat b)) (fp_eq (decode f16_fmt (unat a)) (decode f16_fmt (unat b))) \<and>
   f16_le a b st = signaling_result st (decode f16_fmt (unat a)) (decode f16_fmt (unat b)) (fp_le (decode f16_fmt (unat a)) (decode f16_fmt (unat b))) \<and>
   f16_le_quiet a b st = quiet_result st (decode f16_fmt (unat a)) (decode f16_fmt (unat b)) (fp_le (decode f16_fmt (unat a)) (decode f16_fmt (unat b))) \<and>
   f16_lt a b st = signaling_result st (decode f16_fmt (unat a)) (decode f16_fmt (unat b)) (fp_lt (decode f16_fmt (unat a)) (decode f16_fmt (unat b))) \<and>
   f16_lt_quiet a b st = quiet_result st (decode f16_fmt (unat a)) (decode f16_fmt (unat b)) (fp_lt (decode f16_fmt (unat a)) (decode f16_fmt (unat b))) \<and>
   f32_eq c d st = quiet_result st (decode f32_fmt (unat c)) (decode f32_fmt (unat d)) (fp_eq (decode f32_fmt (unat c)) (decode f32_fmt (unat d))) \<and>
   f32_eq_signaling c d st = signaling_result st (decode f32_fmt (unat c)) (decode f32_fmt (unat d)) (fp_eq (decode f32_fmt (unat c)) (decode f32_fmt (unat d))) \<and>
   f32_le c d st = signaling_result st (decode f32_fmt (unat c)) (decode f32_fmt (unat d)) (fp_le (decode f32_fmt (unat c)) (decode f32_fmt (unat d))) \<and>
   f32_le_quiet c d st = quiet_result st (decode f32_fmt (unat c)) (decode f32_fmt (unat d)) (fp_le (decode f32_fmt (unat c)) (decode f32_fmt (unat d))) \<and>
   f32_lt c d st = signaling_result st (decode f32_fmt (unat c)) (decode f32_fmt (unat d)) (fp_lt (decode f32_fmt (unat c)) (decode f32_fmt (unat d))) \<and>
   f32_lt_quiet c d st = quiet_result st (decode f32_fmt (unat c)) (decode f32_fmt (unat d)) (fp_lt (decode f32_fmt (unat c)) (decode f32_fmt (unat d))) \<and>
   f64_eq e f st = quiet_result st (decode f64_fmt (unat e)) (decode f64_fmt (unat f)) (fp_eq (decode f64_fmt (unat e)) (decode f64_fmt (unat f))) \<and>
   f64_eq_signaling e f st = signaling_result st (decode f64_fmt (unat e)) (decode f64_fmt (unat f)) (fp_eq (decode f64_fmt (unat e)) (decode f64_fmt (unat f))) \<and>
   f64_le e f st = signaling_result st (decode f64_fmt (unat e)) (decode f64_fmt (unat f)) (fp_le (decode f64_fmt (unat e)) (decode f64_fmt (unat f))) \<and>
   f64_le_quiet e f st = quiet_result st (decode f64_fmt (unat e)) (decode f64_fmt (unat f)) (fp_le (decode f64_fmt (unat e)) (decode f64_fmt (unat f))) \<and>
   f64_lt e f st = signaling_result st (decode f64_fmt (unat e)) (decode f64_fmt (unat f)) (fp_lt (decode f64_fmt (unat e)) (decode f64_fmt (unat f))) \<and>
   f64_lt_quiet e f st = quiet_result st (decode f64_fmt (unat e)) (decode f64_fmt (unat f)) (fp_lt (decode f64_fmt (unat e)) (decode f64_fmt (unat f)))"
  by (intro conjI f16_eq_order f16_eq_signaling_order f16_le_order f16_le_quiet_order f16_lt_order f16_lt_quiet_order f32_eq_order f32_eq_signaling_order f32_le_order f32_le_quiet_order f32_lt_order f32_lt_quiet_order f64_eq_order f64_eq_signaling_order f64_le_order f64_le_quiet_order f64_lt_order f64_lt_quiet_order)

text \<open>Of less, equal, greater and unordered exactly one holds of any two operands.\<close>

theorem comparison_trichotomy:
  "of_bool (fst (f16_lt_quiet a b st)) + of_bool (fst (f16_eq a b st)) + of_bool (fst (f16_lt_quiet b a st)) +
     of_bool (isNaNF16UI (ucast a) \<or> isNaNF16UI (ucast b)) = (1 :: nat) \<and>
   of_bool (fst (f32_lt_quiet c d st)) + of_bool (fst (f32_eq c d st)) + of_bool (fst (f32_lt_quiet d c st)) +
     of_bool (isNaNF32UI (ucast c) \<or> isNaNF32UI (ucast d)) = (1 :: nat) \<and>
   of_bool (fst (f64_lt_quiet e f st)) + of_bool (fst (f64_eq e f st)) + of_bool (fst (f64_lt_quiet f e st)) +
     of_bool (isNaNF64UI (ucast e) \<or> isNaNF64UI (ucast f)) = (1 :: nat)"
  unfolding cmp16.lt cmp16.eq cmp32.lt cmp32.eq cmp64.lt cmp64.eq is_nanF16 is_nanF32 is_nanF64 quiet_result_def fst_conv
  by (intro conjI trichotomy)

text \<open>The classification has exactly one bit set, at the position of the operand's class.\<close>

theorem classify_one_hot:
  "f16_classify a = push_bit (fp_class f16_fmt (decode f16_fmt (unat a))) 1 \<and>
   f32_classify c = push_bit (fp_class f32_fmt (decode f32_fmt (unat c))) 1 \<and>
   f64_classify e = push_bit (fp_class f64_fmt (decode f64_fmt (unat e))) 1"
  by (intro conjI f16_classify_class f32_classify_class f64_classify_class)

text \<open>The maximum and minimum return the greater, or lesser, operand with \<open>-0\<close> below \<open>+0\<close>, the
  other operand when one is NaN and the default NaN when both are, raising invalid exactly for a
  signaling NaN.\<close>

theorem max_min_correct:
  "bits (f16_max a b st) = max_result f16_fmt st (unat a) (unat b) \<and>
   bits (f16_min a b st) = min_result f16_fmt st (unat a) (unat b) \<and>
   bits (f32_max c d st) = max_result f32_fmt st (unat c) (unat d) \<and>
   bits (f32_min c d st) = min_result f32_fmt st (unat c) (unat d) \<and>
   bits (f64_max e f st) = max_result f64_fmt st (unat e) (unat f) \<and>
   bits (f64_min e f st) = min_result f64_fmt st (unat e) (unat f)"
  unfolding f16_max_def f16_min_def f32_max_def f32_min_def f64_max_def f64_min_def
  by (intro conjI cmp16.max_correct cmp16.min_correct cmp32.max_correct cmp32.min_correct
      cmp64.max_correct cmp64.min_correct)

text \<open>The maximum and minimum do not depend on the order of the operands, NaNs and zeros included.\<close>

theorem max_min_commute:
  "f16_max a b st = f16_max b a st \<and> f16_min a b st = f16_min b a st \<and>
   f32_max c d st = f32_max d c st \<and> f32_min c d st = f32_min d c st \<and>
   f64_max e f st = f64_max f e st \<and> f64_min e f st = f64_min f e st"
  unfolding f16_max_def f16_min_def f32_max_def f32_min_def f64_max_def f64_min_def
  by (intro conjI; rule bits_inj)
     (simp_all only: cmp16.max_correct cmp16.min_correct cmp32.max_correct cmp32.min_correct cmp64.max_correct
       cmp64.min_correct max_result_commute pattern_ltF16 pattern_ltF32 pattern_ltF64)

end
