(* ===== verification/SF_Convert.thy ===== *)
theory SF_Convert
  imports SF_Values
begin

text \<open>
  Conversions between the floating-point formats. The widening ones (\<open>f16_to_f32\<close>, \<open>f16_to_f64\<close>,
  \<open>f32_to_f64\<close>) repack the fields and are exact; the narrowing ones (\<open>f32_to_f16\<close>, \<open>f64_to_f16\<close>,
  \<open>f64_to_f32\<close>) shorten the significand with a sticky bit and round. Both are shown to return the
  value of the operand rounded to the target format; widening and narrowing back is the identity.
\<close>

section \<open>The routines\<close>

text \<open>
  The macros \<open>softfloat_f*UIToCommonNaN\<close> of \<open>specialize.h\<close> only raise invalid (the intermediate
  \<open>commonNaN\<close> carries nothing), and the macros \<open>softfloat_commonNaNToF*UI\<close> are the default NaN.
\<close>

definition softfloat_f16UIToCommonNaN :: "u64 \<Rightarrow> sf_state \<Rightarrow> sf_state" where
  "softfloat_f16UIToCommonNaN uiA st =
     (if \<not> (uiA AND 0x0200 \<noteq> 0) then softfloat_raiseFlags softfloat_flag_invalid st else st)"

definition softfloat_commonNaNToF16UI :: u64 where
  "softfloat_commonNaNToF16UI = defaultNaNF16UI"

definition softfloat_f32UIToCommonNaN :: "u64 \<Rightarrow> sf_state \<Rightarrow> sf_state" where
  "softfloat_f32UIToCommonNaN uiA st =
     (if \<not> (uiA AND 0x00400000 \<noteq> 0) then softfloat_raiseFlags softfloat_flag_invalid st else st)"

definition softfloat_commonNaNToF32UI :: u64 where
  "softfloat_commonNaNToF32UI = defaultNaNF32UI"

definition softfloat_f64UIToCommonNaN :: "u64 \<Rightarrow> sf_state \<Rightarrow> sf_state" where
  "softfloat_f64UIToCommonNaN uiA st =
     (if \<not> (uiA AND 0x0008000000000000 \<noteq> 0) then softfloat_raiseFlags softfloat_flag_invalid st else st)"

definition softfloat_commonNaNToF64UI :: u64 where
  "softfloat_commonNaNToF64UI = defaultNaNF64UI"

definition f16_to_f32 :: "float16_t \<Rightarrow> sf_state \<Rightarrow> float32_t \<times> sf_state" where
  "f16_to_f32 a st =
     (let uiA = ucast a :: u64;
          sign = signF16UI uiA; exp = expF16UI uiA; frac = fracF16UI uiA
      in if exp = 0x1F then
           if frac \<noteq> 0 then returnF32 (softfloat_commonNaNToF32UI, softfloat_f16UIToCommonNaN uiA st)
           else returnF32 (packToF32UI sign 0xFF 0, st)
         else if exp = 0 then
           if frac = 0 then returnF32 (packToF32UI sign 0 0, st)
           else let normExpSig = softfloat_normSubnormalF16Sig frac;
                    exp = es_exp normExpSig - 1; frac = es_sig normExpSig
                in returnF32 (packToF32UI sign (exp + 0x70) (push_bit 13 frac), st)
         else returnF32 (packToF32UI sign (exp + 0x70) (push_bit 13 frac), st))"

definition f16_to_f64 :: "float16_t \<Rightarrow> sf_state \<Rightarrow> float64_t \<times> sf_state" where
  "f16_to_f64 a st =
     (let uiA = ucast a :: u64;
          sign = signF16UI uiA; exp = expF16UI uiA; frac = fracF16UI uiA
      in if exp = 0x1F then
           if frac \<noteq> 0 then returnF64 (softfloat_commonNaNToF64UI, softfloat_f16UIToCommonNaN uiA st)
           else returnF64 (packToF64UI sign 0x7FF 0, st)
         else if exp = 0 then
           if frac = 0 then returnF64 (packToF64UI sign 0 0, st)
           else let normExpSig = softfloat_normSubnormalF16Sig frac;
                    exp = es_exp normExpSig - 1; frac = es_sig normExpSig
                in returnF64 (packToF64UI sign (exp + 0x3F0) (push_bit 42 frac), st)
         else returnF64 (packToF64UI sign (exp + 0x3F0) (push_bit 42 frac), st))"

definition f32_to_f64 :: "float32_t \<Rightarrow> sf_state \<Rightarrow> float64_t \<times> sf_state" where
  "f32_to_f64 a st =
     (let uiA = ucast a :: u64;
          sign = signF32UI uiA; exp = expF32UI uiA; frac = fracF32UI uiA
      in if exp = 0xFF then
           if frac \<noteq> 0 then returnF64 (softfloat_commonNaNToF64UI, softfloat_f32UIToCommonNaN uiA st)
           else returnF64 (packToF64UI sign 0x7FF 0, st)
         else if exp = 0 then
           if frac = 0 then returnF64 (packToF64UI sign 0 0, st)
           else let normExpSig = softfloat_normSubnormalF32Sig frac;
                    exp = es_exp normExpSig - 1; frac = es_sig normExpSig
                in returnF64 (packToF64UI sign (exp + 0x380) (push_bit 29 frac), st)
         else returnF64 (packToF64UI sign (exp + 0x380) (push_bit 29 frac), st))"

definition f32_to_f16 :: "float32_t \<Rightarrow> sf_state \<Rightarrow> float16_t \<times> sf_state" where
  "f32_to_f16 a st =
     (let uiA = ucast a :: u64;
          sign = signF32UI uiA; exp = expF32UI uiA; frac = fracF32UI uiA
      in if exp = 0xFF then
           if frac \<noteq> 0 then returnF16 (softfloat_commonNaNToF16UI, softfloat_f32UIToCommonNaN uiA st)
           else returnF16 (packToF16UI sign 0x1F 0, st)
         else let frac16 = drop_bit 9 frac OR of_bool (frac AND 0x1FF \<noteq> 0)
           in if exp = 0 \<and> frac16 = 0 then returnF16 (packToF16UI sign 0 0, st)
              else softfloat_roundPackToF16 sign (exp - 0x71) (frac16 OR 0x4000) st)"

definition f64_to_f16 :: "float64_t \<Rightarrow> sf_state \<Rightarrow> float16_t \<times> sf_state" where
  "f64_to_f16 a st =
     (let uiA = ucast a :: u64;
          sign = signF64UI uiA; exp = expF64UI uiA; frac = fracF64UI uiA
      in if exp = 0x7FF then
           if frac \<noteq> 0 then returnF16 (softfloat_commonNaNToF16UI, softfloat_f64UIToCommonNaN uiA st)
           else returnF16 (packToF16UI sign 0x1F 0, st)
         else let frac16 = softfloat_shortShiftRightJam64 frac 38
           in if exp = 0 \<and> frac16 = 0 then returnF16 (packToF16UI sign 0 0, st)
              else softfloat_roundPackToF16 sign (exp - 0x3F1) (frac16 OR 0x4000) st)"

definition f64_to_f32 :: "float64_t \<Rightarrow> sf_state \<Rightarrow> float32_t \<times> sf_state" where
  "f64_to_f32 a st =
     (let uiA = ucast a :: u64;
          sign = signF64UI uiA; exp = expF64UI uiA; frac = fracF64UI uiA
      in if exp = 0x7FF then
           if frac \<noteq> 0 then returnF32 (softfloat_commonNaNToF32UI, softfloat_f64UIToCommonNaN uiA st)
           else returnF32 (packToF32UI sign 0xFF 0, st)
         else let frac32 = softfloat_shortShiftRightJam64 frac 22
           in if exp = 0 \<and> frac32 = 0 then returnF32 (packToF32UI sign 0 0, st)
              else softfloat_roundPackToF32 sign (exp - 0x381) (frac32 OR 0x40000000) st)"

section \<open>The specification\<close>

fun fp_convert :: "fmt \<Rightarrow> sf_state \<Rightarrow> fp \<Rightarrow> nat \<times> sf_state" where
  "fp_convert F st (NaN s) = nan_result F st s"
| "fp_convert F st (Inf s) = inf_result F st s"
| "fp_convert F st (Fin s m e) = ieee_result F st s m e"

text \<open>A value with at most \<open>frac_bits + 1\<close> significant bits in range is represented exactly.\<close>

lemma ieee_result_normal:
  assumes q: "2 ^ frac_bits F \<le> q" "q < 2 ^ (frac_bits F + 1)" "2 \<le> exp_max F"
    and x: "0 \<le> x" "x \<le> int (exp_max F) - 2" and m: "m * 2 ^ c = q" "i - int c = x + lsb_exp F"
  shows "ieee_result F st s m i = (of_bool s * sign_weight F + (nat x * 2 ^ frac_bits F + q), st)"
proof -
  have "ieee_result F st s m i = ieee_result F st s (q * 2 ^ 2) (x + lsb_exp F - int 2)"
    unfolding ieee_result_double m(1) [symmetric] m(2) [symmetric] ..
  also have "\<dots> = ieee_result F st s (q * 2 ^ 2) (pack_exp F 2 x)" by (simp add: pack_exp_def)
  also have "\<dots> = (of_bool s * sign_weight F + (nat x * 2 ^ frac_bits F + q), st)"
    using q x by (intro ieee_result_exact) (simp_all add: power_add)
  finally show ?thesis .
qed

text \<open>Every nonzero value far enough below the smallest subnormal rounds alike.\<close>

lemma ieee_result_tiny:
  assumes n: "0 < n" and e: "e + int (bitlen n) + 2 \<le> lsb_exp F"
  shows "ieee_result F st s n e = ieee_result F st s 1 (lsb_exp F - 3)"
proof -
  have mag: "ieee_mag F m s n e = rdiv m s 1 4 \<and> ieee_inexact F n e \<and> ieee_tiny F t m s n e"
    if "0 < n" "e + int (bitlen n) + 2 \<le> lsb_exp F" for m n e t
  proof -
    define k where "k = nat (lsb_exp F - e - 2)"
    have k: "lsb_exp F - e = int k + 2" "bitlen n \<le> k" using that by (simp_all add: k_def)
    have "n < 2 ^ k" using k(2) by (simp only: bitlen_le_iff)
    then have j: "jam n (2 ^ k) = 1" using that(1) by (simp add: jam_small)
    have t: "top_exp F n e < lsb_exp F - 1" using that(2) by (simp add: top_exp_def)
    then have u: "ulp_exp F n e = lsb_exp F" by (simp add: ulp_exp_def)
    have "rscale m s n (lsb_exp F - e) = rscale m s 1 2"
      using rscale_jam [of k "lsb_exp F - e" m s n] by (simp add: k(1) j)
    moreover have "rexact n (lsb_exp F - e) = rexact 1 2"
      using rexact_jam [of k "lsb_exp F - e" n] by (simp add: k(1) j)
    moreover have "rscale m s 1 2 = rdiv m s 1 4" "\<not> rexact 1 2" by (simp_all add: rscale_def rexact_def)
    ultimately show ?thesis
      using that(1) t by (auto simp: ieee_mag_def ieee_inexact_def ieee_tiny_def u)
  qed
  have "bitlen 1 = 1" using bitlen_unique [of 0 1] by simp
  then have b: "lsb_exp F - 3 + int (bitlen 1) + 2 \<le> lsb_exp F" by simp
  show ?thesis
    unfolding ieee_result_def ieee_round_def using mag [OF n e] mag [OF _ b] by simp
qed

section \<open>The routines round the value of the operand\<close>

lemma commonNaNF16:
  assumes "expF16UI u = 0x1F" "fracF16UI u \<noteq> 0"
  shows "softfloat_f16UIToCommonNaN u st =
    (if softfloat_isSigNaNF16UI u then softfloat_raiseFlags softfloat_flag_invalid st else st)"
proof -
  define k where "k = unat u"
  have "unat (u AND 0x0200) = (k div 2 ^ 9 mod 2) * 2 ^ 9"
    using and_high_mask [of k 1 9] by (simp add: unat_conj bits_nat k_def)
  then have z: "u AND 0x0200 = 0 \<longleftrightarrow> k div 2 ^ 9 mod 2 = 0" by (simp add: word_eq_nat)
  have "unat (fracF16UI u) = k mod 2 ^ 9 + 2 ^ 9 * (k div 2 ^ 9 mod 2)"
    using mod_mult_split [of k "2 ^ 9" 2] by (simp add: fieldsF16 k_def)
  moreover have "k mod 2 ^ 9 < 2 ^ 9" by simp
  ultimately have "unat (fracF16UI u) < 2 ^ 9 \<longleftrightarrow> k div 2 ^ 9 mod 2 = 0"
    by (cases "k div 2 ^ 9 mod 2 = 0") auto
  then show ?thesis
    using assms z sigNaNF16 [of u] by (simp add: softfloat_f16UIToCommonNaN_def)
qed

lemma return_commonNaNF16:
  "bits (returnF16 (softfloat_commonNaNToF16UI, if b then softfloat_raiseFlags softfloat_flag_invalid st else st)) =
    nan_result f16_fmt st b"
  by (simp add: softfloat_commonNaNToF16UI_def bits_def returnF16_def nan_result_def quiet_nan_def inf_mag_def
      defaultNaNF16UI_def unat_cast)

lemma commonNaNF32:
  assumes "expF32UI u = 0xFF" "fracF32UI u \<noteq> 0"
  shows "softfloat_f32UIToCommonNaN u st =
    (if softfloat_isSigNaNF32UI u then softfloat_raiseFlags softfloat_flag_invalid st else st)"
proof -
  define k where "k = unat u"
  have "unat (u AND 0x00400000) = (k div 2 ^ 22 mod 2) * 2 ^ 22"
    using and_high_mask [of k 1 22] by (simp add: unat_conj bits_nat k_def)
  then have z: "u AND 0x00400000 = 0 \<longleftrightarrow> k div 2 ^ 22 mod 2 = 0" by (simp add: word_eq_nat)
  have "unat (fracF32UI u) = k mod 2 ^ 22 + 2 ^ 22 * (k div 2 ^ 22 mod 2)"
    using mod_mult_split [of k "2 ^ 22" 2] by (simp add: fieldsF32 k_def)
  moreover have "k mod 2 ^ 22 < 2 ^ 22" by simp
  ultimately have "unat (fracF32UI u) < 2 ^ 22 \<longleftrightarrow> k div 2 ^ 22 mod 2 = 0"
    by (cases "k div 2 ^ 22 mod 2 = 0") auto
  then show ?thesis
    using assms z sigNaNF32 [of u] by (simp add: softfloat_f32UIToCommonNaN_def)
qed

lemma return_commonNaNF32:
  "bits (returnF32 (softfloat_commonNaNToF32UI, if b then softfloat_raiseFlags softfloat_flag_invalid st else st)) =
    nan_result f32_fmt st b"
  by (simp add: softfloat_commonNaNToF32UI_def bits_def returnF32_def nan_result_def quiet_nan_def inf_mag_def
      defaultNaNF32UI_def unat_cast)

lemma commonNaNF64:
  assumes "expF64UI u = 0x7FF" "fracF64UI u \<noteq> 0"
  shows "softfloat_f64UIToCommonNaN u st =
    (if softfloat_isSigNaNF64UI u then softfloat_raiseFlags softfloat_flag_invalid st else st)"
proof -
  define k where "k = unat u"
  have "unat (u AND 0x0008000000000000) = (k div 2 ^ 51 mod 2) * 2 ^ 51"
    using and_high_mask [of k 1 51] by (simp add: unat_conj bits_nat k_def)
  then have z: "u AND 0x0008000000000000 = 0 \<longleftrightarrow> k div 2 ^ 51 mod 2 = 0" by (simp add: word_eq_nat)
  have "unat (fracF64UI u) = k mod 2 ^ 51 + 2 ^ 51 * (k div 2 ^ 51 mod 2)"
    using mod_mult_split [of k "2 ^ 51" 2] by (simp add: fieldsF64 k_def)
  moreover have "k mod 2 ^ 51 < 2 ^ 51" by simp
  ultimately have "unat (fracF64UI u) < 2 ^ 51 \<longleftrightarrow> k div 2 ^ 51 mod 2 = 0"
    by (cases "k div 2 ^ 51 mod 2 = 0") auto
  then show ?thesis
    using assms z sigNaNF64 [of u] by (simp add: softfloat_f64UIToCommonNaN_def)
qed

lemma return_commonNaNF64:
  "bits (returnF64 (softfloat_commonNaNToF64UI, if b then softfloat_raiseFlags softfloat_flag_invalid st else st)) =
    nan_result f64_fmt st b"
  by (simp add: softfloat_commonNaNToF64UI_def bits_def returnF64_def nan_result_def quiet_nan_def inf_mag_def
      defaultNaNF64UI_def unat_cast)

lemma f16_to_f32_ieee: "bits (f16_to_f32 a st) = fp_convert f32_fmt st (decode f16_fmt (unat a))"
proof -
  have "unat (ucast a :: u64) = unat a" using unat_lt_16 [of a] by (simp add: unat_cast)
  define u where "u = (ucast a :: u64)"
  have ua: "unat a = unat u" using \<open>unat (ucast a :: u64) = unat a\<close> by (simp add: u_def)
  note defs = f16_to_f32_def Let_def u_def [symmetric]
  show ?thesis
  proof (cases rule: decodeF16_cases [of u])
    case NaN
    then show ?thesis unfolding defs ua by (simp add: commonNaNF16 return_commonNaNF32)
  next
    case Inf
    then show ?thesis unfolding defs ua by (simp add: return_infF32)
  next
    case Zero
    then show ?thesis unfolding defs ua by (simp add: return_zeroF32 ieee_result_zero)
  next
    case (Fin m i)
    show ?thesis
    proof (cases "expF16UI u = 0")
      case True
      then have "0 < unat (fracF16UI u)" using Fin(2) by (simp add: word_eq_nat)
      from normSubnormalF16 [OF this fracF16_bound] obtain sd where sd:
        "es_exp (softfloat_normSubnormalF16Sig (fracF16UI u)) = 1 - int sd" "sd \<le> 11"
        "unat (es_sig (softfloat_normSubnormalF16Sig (fracF16UI u))) = unat (fracF16UI u) * 2 ^ sd"
        "2 ^ 10 \<le> unat (fracF16UI u) * 2 ^ sd" "unat (fracF16UI u) * 2 ^ sd < 2 ^ 11" .
      have s: "unat (push_bit 13 (es_sig (softfloat_normSubnormalF16Sig (fracF16UI u)))) = unat (fracF16UI u) * 2 ^ sd * 2 ^ 13"
        using sd(5) by (simp add: unat_push sd(3))
      have "ieee_result f32_fmt st (signF16UI u) (unat (fracF16UI u)) (- 24) =
        (of_bool (signF16UI u) * sign_weight f32_fmt +
          (nat (112 - int sd) * 2 ^ 23 + unat (fracF16UI u) * 2 ^ sd * 2 ^ 13), st)"
        using sd(2,4,5)
          ieee_result_normal [of f32_fmt "unat (fracF16UI u) * 2 ^ sd * 2 ^ 13" "112 - int sd" "unat (fracF16UI u)" "sd + 13" "- 24"]
        by (simp add: power_add mult.assoc)
      moreover have "nat (112 - int sd) \<le> 112" by simp
      then have "bits (returnF32 (packToF32UI (signF16UI u) (112 - int sd)
          (push_bit 13 (es_sig (softfloat_normSubnormalF16Sig (fracF16UI u)))), st)) =
        (of_bool (signF16UI u) * sign_weight f32_fmt +
          (nat (112 - int sd) * 2 ^ 23 + unat (fracF16UI u) * 2 ^ sd * 2 ^ 13), st)"
        using sd(2,4,5) by (subst return_packF32) (simp_all add: s)
      ultimately show ?thesis
        unfolding defs ua using True Fin(2)
        by (simp only: decodeF16 sd(1) fp_convert.simps if_True if_False) (simp add: sd(1))
    next
      case False
      have s: "unat (push_bit 13 (fracF16UI u)) = unat (fracF16UI u) * 2 ^ 13"
        using fracF16_bound [of u] by (simp add: unat_push)
      have e: "0 < expF16UI u" "expF16UI u < 0x1F" using False Fin(6) expF16_bounds [of u] by simp_all
      have "ieee_result f32_fmt st (signF16UI u) (2 ^ 10 + unat (fracF16UI u)) (expF16UI u - 1 + - 24) =
        (of_bool (signF16UI u) * sign_weight f32_fmt +
          (nat (expF16UI u + 111) * 2 ^ 23 + (2 ^ 10 + unat (fracF16UI u)) * 2 ^ 13), st)"
        using e fracF16_bound [of u]
          ieee_result_normal [of f32_fmt "(2 ^ 10 + unat (fracF16UI u)) * 2 ^ 13" "expF16UI u + 111"
            "2 ^ 10 + unat (fracF16UI u)" 13 "expF16UI u - 1 + - 24"] by simp
      moreover have "nat (expF16UI u + 112) = Suc (nat (expF16UI u + 111))" using e by simp
      moreover have "nat (expF16UI u + 111) \<le> 142" using e by simp
      ultimately have "bits (returnF32 (packToF32UI (signF16UI u) (expF16UI u + 0x70) (push_bit 13 (fracF16UI u)), st)) =
          ieee_result f32_fmt st (signF16UI u) (2 ^ 10 + unat (fracF16UI u)) (expF16UI u - 1 + - 24)"
        using e fracF16_bound [of u] by (subst return_packF32) (simp_all add: s)
      then show ?thesis
        unfolding defs ua using False Fin(1) by (simp add: decodeF16)
    qed
  qed
qed

lemma f16_to_f64_ieee: "bits (f16_to_f64 a st) = fp_convert f64_fmt st (decode f16_fmt (unat a))"
proof -
  have "unat (ucast a :: u64) = unat a" using unat_lt_16 [of a] by (simp add: unat_cast)
  define u where "u = (ucast a :: u64)"
  have ua: "unat a = unat u" using \<open>unat (ucast a :: u64) = unat a\<close> by (simp add: u_def)
  note defs = f16_to_f64_def Let_def u_def [symmetric]
  show ?thesis
  proof (cases rule: decodeF16_cases [of u])
    case NaN
    then show ?thesis unfolding defs ua by (simp add: commonNaNF16 return_commonNaNF64)
  next
    case Inf
    then show ?thesis unfolding defs ua by (simp add: return_infF64)
  next
    case Zero
    then show ?thesis unfolding defs ua by (simp add: return_zeroF64 ieee_result_zero)
  next
    case (Fin m i)
    show ?thesis
    proof (cases "expF16UI u = 0")
      case True
      then have "0 < unat (fracF16UI u)" using Fin(2) by (simp add: word_eq_nat)
      from normSubnormalF16 [OF this fracF16_bound] obtain sd where sd:
        "es_exp (softfloat_normSubnormalF16Sig (fracF16UI u)) = 1 - int sd" "sd \<le> 11"
        "unat (es_sig (softfloat_normSubnormalF16Sig (fracF16UI u))) = unat (fracF16UI u) * 2 ^ sd"
        "2 ^ 10 \<le> unat (fracF16UI u) * 2 ^ sd" "unat (fracF16UI u) * 2 ^ sd < 2 ^ 11" .
      have s: "unat (push_bit 42 (es_sig (softfloat_normSubnormalF16Sig (fracF16UI u)))) = unat (fracF16UI u) * 2 ^ sd * 2 ^ 42"
        using sd(5) by (simp add: unat_push sd(3))
      have "ieee_result f64_fmt st (signF16UI u) (unat (fracF16UI u)) (- 24) =
        (of_bool (signF16UI u) * sign_weight f64_fmt +
          (nat (1008 - int sd) * 2 ^ 52 + unat (fracF16UI u) * 2 ^ sd * 2 ^ 42), st)"
        using sd(2,4,5)
          ieee_result_normal [of f64_fmt "unat (fracF16UI u) * 2 ^ sd * 2 ^ 42" "1008 - int sd" "unat (fracF16UI u)" "sd + 42" "- 24"]
        by (simp add: power_add mult.assoc)
      moreover have "nat (1008 - int sd) \<le> 1008" by simp
      then have "bits (returnF64 (packToF64UI (signF16UI u) (1008 - int sd)
          (push_bit 42 (es_sig (softfloat_normSubnormalF16Sig (fracF16UI u)))), st)) =
        (of_bool (signF16UI u) * sign_weight f64_fmt +
          (nat (1008 - int sd) * 2 ^ 52 + unat (fracF16UI u) * 2 ^ sd * 2 ^ 42), st)"
        using sd(2,4,5) by (subst return_packF64) (simp_all add: s)
      ultimately show ?thesis
        unfolding defs ua using True Fin(2)
        by (simp only: decodeF16 sd(1) fp_convert.simps if_True if_False) (simp add: sd(1))
    next
      case False
      have s: "unat (push_bit 42 (fracF16UI u)) = unat (fracF16UI u) * 2 ^ 42"
        using fracF16_bound [of u] by (simp add: unat_push)
      have e: "0 < expF16UI u" "expF16UI u < 0x1F" using False Fin(6) expF16_bounds [of u] by simp_all
      have "ieee_result f64_fmt st (signF16UI u) (2 ^ 10 + unat (fracF16UI u)) (expF16UI u - 1 + - 24) =
        (of_bool (signF16UI u) * sign_weight f64_fmt +
          (nat (expF16UI u + 1007) * 2 ^ 52 + (2 ^ 10 + unat (fracF16UI u)) * 2 ^ 42), st)"
        using e fracF16_bound [of u]
          ieee_result_normal [of f64_fmt "(2 ^ 10 + unat (fracF16UI u)) * 2 ^ 42" "expF16UI u + 1007"
            "2 ^ 10 + unat (fracF16UI u)" 42 "expF16UI u - 1 + - 24"] by simp
      moreover have "nat (expF16UI u + 1008) = Suc (nat (expF16UI u + 1007))" using e by simp
      moreover have "nat (expF16UI u + 1007) \<le> 1038" using e by simp
      ultimately have "bits (returnF64 (packToF64UI (signF16UI u) (expF16UI u + 0x3F0) (push_bit 42 (fracF16UI u)), st)) =
          ieee_result f64_fmt st (signF16UI u) (2 ^ 10 + unat (fracF16UI u)) (expF16UI u - 1 + - 24)"
        using e fracF16_bound [of u] by (subst return_packF64) (simp_all add: s)
      then show ?thesis
        unfolding defs ua using False Fin(1) by (simp add: decodeF16)
    qed
  qed
qed

lemma f32_to_f64_ieee: "bits (f32_to_f64 a st) = fp_convert f64_fmt st (decode f32_fmt (unat a))"
proof -
  have "unat (ucast a :: u64) = unat a" using unat_lt_32 [of a] by (simp add: unat_cast)
  define u where "u = (ucast a :: u64)"
  have ua: "unat a = unat u" using \<open>unat (ucast a :: u64) = unat a\<close> by (simp add: u_def)
  note defs = f32_to_f64_def Let_def u_def [symmetric]
  show ?thesis
  proof (cases rule: decodeF32_cases [of u])
    case NaN
    then show ?thesis unfolding defs ua by (simp add: commonNaNF32 return_commonNaNF64)
  next
    case Inf
    then show ?thesis unfolding defs ua by (simp add: return_infF64)
  next
    case Zero
    then show ?thesis unfolding defs ua by (simp add: return_zeroF64 ieee_result_zero)
  next
    case (Fin m i)
    show ?thesis
    proof (cases "expF32UI u = 0")
      case True
      then have "0 < unat (fracF32UI u)" using Fin(2) by (simp add: word_eq_nat)
      from normSubnormalF32 [OF this fracF32_bound] obtain sd where sd:
        "es_exp (softfloat_normSubnormalF32Sig (fracF32UI u)) = 1 - int sd" "sd \<le> 24"
        "unat (es_sig (softfloat_normSubnormalF32Sig (fracF32UI u))) = unat (fracF32UI u) * 2 ^ sd"
        "2 ^ 23 \<le> unat (fracF32UI u) * 2 ^ sd" "unat (fracF32UI u) * 2 ^ sd < 2 ^ 24" .
      have s: "unat (push_bit 29 (es_sig (softfloat_normSubnormalF32Sig (fracF32UI u)))) = unat (fracF32UI u) * 2 ^ sd * 2 ^ 29"
        using sd(5) by (simp add: unat_push sd(3))
      have "ieee_result f64_fmt st (signF32UI u) (unat (fracF32UI u)) (- 149) =
        (of_bool (signF32UI u) * sign_weight f64_fmt +
          (nat (896 - int sd) * 2 ^ 52 + unat (fracF32UI u) * 2 ^ sd * 2 ^ 29), st)"
        using sd(2,4,5)
          ieee_result_normal [of f64_fmt "unat (fracF32UI u) * 2 ^ sd * 2 ^ 29" "896 - int sd" "unat (fracF32UI u)" "sd + 29" "- 149"]
        by (simp add: power_add mult.assoc)
      moreover have "nat (896 - int sd) \<le> 896" by simp
      then have "bits (returnF64 (packToF64UI (signF32UI u) (896 - int sd)
          (push_bit 29 (es_sig (softfloat_normSubnormalF32Sig (fracF32UI u)))), st)) =
        (of_bool (signF32UI u) * sign_weight f64_fmt +
          (nat (896 - int sd) * 2 ^ 52 + unat (fracF32UI u) * 2 ^ sd * 2 ^ 29), st)"
        using sd(2,4,5) by (subst return_packF64) (simp_all add: s)
      ultimately show ?thesis
        unfolding defs ua using True Fin(2)
        by (simp only: decodeF32 sd(1) fp_convert.simps if_True if_False) (simp add: sd(1))
    next
      case False
      have s: "unat (push_bit 29 (fracF32UI u)) = unat (fracF32UI u) * 2 ^ 29"
        using fracF32_bound [of u] by (simp add: unat_push)
      have e: "0 < expF32UI u" "expF32UI u < 0xFF" using False Fin(6) expF32_bounds [of u] by simp_all
      have "ieee_result f64_fmt st (signF32UI u) (2 ^ 23 + unat (fracF32UI u)) (expF32UI u - 1 + - 149) =
        (of_bool (signF32UI u) * sign_weight f64_fmt +
          (nat (expF32UI u + 895) * 2 ^ 52 + (2 ^ 23 + unat (fracF32UI u)) * 2 ^ 29), st)"
        using e fracF32_bound [of u]
          ieee_result_normal [of f64_fmt "(2 ^ 23 + unat (fracF32UI u)) * 2 ^ 29" "expF32UI u + 895"
            "2 ^ 23 + unat (fracF32UI u)" 29 "expF32UI u - 1 + - 149"] by simp
      moreover have "nat (expF32UI u + 896) = Suc (nat (expF32UI u + 895))" using e by simp
      moreover have "nat (expF32UI u + 895) \<le> 1150" using e by simp
      ultimately have "bits (returnF64 (packToF64UI (signF32UI u) (expF32UI u + 0x380) (push_bit 29 (fracF32UI u)), st)) =
          ieee_result f64_fmt st (signF32UI u) (2 ^ 23 + unat (fracF32UI u)) (expF32UI u - 1 + - 149)"
        using e fracF32_bound [of u] by (subst return_packF64) (simp_all add: s)
      then show ?thesis
        unfolding defs ua using False Fin(1) by (simp add: decodeF32)
    qed
  qed
qed

lemma f32_to_f16_ieee: "bits (f32_to_f16 a st) = fp_convert f16_fmt st (decode f32_fmt (unat a))"
proof -
  have "unat (ucast a :: u64) = unat a" using unat_lt_32 [of a] by (simp add: unat_cast)
  define u where "u = (ucast a :: u64)"
  have ua: "unat a = unat u" using \<open>unat (ucast a :: u64) = unat a\<close> by (simp add: u_def)
  define sig where "sig = drop_bit 9 (fracF32UI u) OR of_bool ((fracF32UI u) AND 0x1FF \<noteq> 0)"
  have j: "unat (drop_bit 9 (fracF32UI u) OR of_bool ((fracF32UI u) AND 0x1FF \<noteq> 0)) = jam (unat (fracF32UI u)) (2 ^ 9)"
    by (simp add: jam_def unat_disj unat_drop unat_conj word_eq_nat bits_nat or_Suc_0_eq)
  define J where "J = jam (unat (fracF32UI u)) (2 ^ 9)"
  have uJ: "unat sig = J" using j by (simp add: sig_def J_def)
  have J0: "J = 0 \<longleftrightarrow> fracF32UI u = 0" by (simp add: J_def jam_eq_0_iff word_eq_nat)
  have "J \<le> 2 ^ 14"
    unfolding J_def using fracF32_bound [of u] by (intro jam_le) (simp_all flip: power_add)
  moreover have J_lt: "J < 2 ^ 14"
    unfolding J_def using fracF32_bound [of u] by (intro jam_less) simp_all
  ultimately have or: "unat (sig OR 0x4000) = 2 ^ 14 + J"
    using or_disjoint_nat [of J 14 1] by (simp add: unat_disj uJ or.commute)
  note defs = f32_to_f16_def Let_def u_def [symmetric] sig_def [symmetric]
  have s0: "sig = 0 \<longleftrightarrow> fracF32UI u = 0" using uJ J0 by (simp add: word_eq_nat)
  show ?thesis
  proof (cases rule: decodeF32_cases [of u])
    case NaN
    then show ?thesis unfolding defs ua by (simp add: commonNaNF32 return_commonNaNF16)
  next
    case Inf
    then show ?thesis unfolding defs ua by (simp add: return_infF16)
  next
    case Zero
    then show ?thesis unfolding defs ua by (simp add: return_zeroF16 ieee_result_zero s0)
  next
    case (Fin m i)
    have "bits (f32_to_f16 a st) =
        bits (softfloat_roundPackToF16 (signF32UI u) (expF32UI u - 0x71) (sig OR 0x4000) st)"
      unfolding defs s0 using Fin(1,2) by (simp only: if_False)
    moreover have "bits (softfloat_roundPackToF16 (signF32UI u) (expF32UI u - 0x71) (sig OR 0x4000) st) =
        ieee_result f16_fmt st (signF32UI u) m i"
    proof (cases "expF32UI u = 0")
      case True
      have m: "m = unat (fracF32UI u)" "i = - 149" using Fin(3) True by (simp_all add: decodeF32)
      then have "m < 2 ^ 23" using fracF32_bound by simp
      then have bm: "bitlen m \<le> 23" by (simp only: bitlen_le_iff)
      have "2 ^ 14 + J < 2 ^ 15" using J_lt by simp
      then have bj: "bitlen (2 ^ 14 + J) \<le> 15" by (simp only: bitlen_le_iff)
      have "bits (softfloat_roundPackToF16 (signF32UI u) (0 - 0x71) (sig OR 0x4000) st) =
          ieee_result f16_fmt st (signF32UI u) (2 ^ 14 + J) (pack_exp f16_fmt 4 (0 - 0x71))"
        using rp16.rp_ieee [of "sig OR 0x4000" "0 - 0x71"] J_lt or by simp
      also have "\<dots> = ieee_result f16_fmt st (signF32UI u) m i"
        using ieee_result_tiny [of "2 ^ 14 + J" "pack_exp f16_fmt 4 (0 - 0x71)" f16_fmt]
          ieee_result_tiny [of m i f16_fmt] Fin(4) bm bj m(2)
        by (simp add: pack_exp_def)
      finally show ?thesis by (simp add: True)
    next
      case False
      have m: "m = 2 ^ 23 + unat (fracF32UI u)" "i = expF32UI u - 1 + (- 149)"
        using Fin(1,3) False by (simp_all add: decodeF32)
      have "jam m (2 ^ 9) = 2 ^ 14 + J"
        using jam_add [of "2 ^ 9" "2 ^ 14" "unat (fracF32UI u)"] by (simp add: m J_def)
      then have "unat (sig OR 0x4000) = jam m (2 ^ 9)" using or by simp
      moreover have "bitlen m = 24"
        using bitlen_unique [of 23 m] fracF32_bound [of u] m by simp
      ultimately show ?thesis
        using J_lt or expF32_bounds [of u] m(2)
        by (intro rp16.rp_jam [where k = 9]) (simp_all add: pack_exp_def)
    qed
    ultimately show ?thesis unfolding ua Fin(3) by simp
  qed
qed

lemma f64_to_f16_ieee: "bits (f64_to_f16 a st) = fp_convert f16_fmt st (decode f64_fmt (unat a))"
proof -
  have "unat (ucast a :: u64) = unat a" using unat_lt_64 [of a] by (simp add: unat_cast)
  define u where "u = (ucast a :: u64)"
  have ua: "unat a = unat u" using \<open>unat (ucast a :: u64) = unat a\<close> by (simp add: u_def)
  define sig where "sig = softfloat_shortShiftRightJam64 (fracF64UI u) 38"
  have j: "unat (softfloat_shortShiftRightJam64 (fracF64UI u) 38) = jam (unat (fracF64UI u)) (2 ^ 38)"
    using unat_shortShiftRightJam64 [of 38 "fracF64UI u"] by simp
  define J where "J = jam (unat (fracF64UI u)) (2 ^ 38)"
  have uJ: "unat sig = J" using j by (simp add: sig_def J_def)
  have J0: "J = 0 \<longleftrightarrow> fracF64UI u = 0" by (simp add: J_def jam_eq_0_iff word_eq_nat)
  have "J \<le> 2 ^ 14"
    unfolding J_def using fracF64_bound [of u] by (intro jam_le) (simp_all flip: power_add)
  moreover have J_lt: "J < 2 ^ 14"
    unfolding J_def using fracF64_bound [of u] by (intro jam_less) simp_all
  ultimately have or: "unat (sig OR 0x4000) = 2 ^ 14 + J"
    using or_disjoint_nat [of J 14 1] by (simp add: unat_disj uJ or.commute)
  note defs = f64_to_f16_def Let_def u_def [symmetric] sig_def [symmetric]
  have s0: "sig = 0 \<longleftrightarrow> fracF64UI u = 0" using uJ J0 by (simp add: word_eq_nat)
  show ?thesis
  proof (cases rule: decodeF64_cases [of u])
    case NaN
    then show ?thesis unfolding defs ua by (simp add: commonNaNF64 return_commonNaNF16)
  next
    case Inf
    then show ?thesis unfolding defs ua by (simp add: return_infF16)
  next
    case Zero
    then show ?thesis unfolding defs ua by (simp add: return_zeroF16 ieee_result_zero s0)
  next
    case (Fin m i)
    have "bits (f64_to_f16 a st) =
        bits (softfloat_roundPackToF16 (signF64UI u) (expF64UI u - 0x3F1) (sig OR 0x4000) st)"
      unfolding defs s0 using Fin(1,2) by (simp only: if_False)
    moreover have "bits (softfloat_roundPackToF16 (signF64UI u) (expF64UI u - 0x3F1) (sig OR 0x4000) st) =
        ieee_result f16_fmt st (signF64UI u) m i"
    proof (cases "expF64UI u = 0")
      case True
      have m: "m = unat (fracF64UI u)" "i = - 1074" using Fin(3) True by (simp_all add: decodeF64)
      then have "m < 2 ^ 52" using fracF64_bound by simp
      then have bm: "bitlen m \<le> 52" by (simp only: bitlen_le_iff)
      have "2 ^ 14 + J < 2 ^ 15" using J_lt by simp
      then have bj: "bitlen (2 ^ 14 + J) \<le> 15" by (simp only: bitlen_le_iff)
      have "bits (softfloat_roundPackToF16 (signF64UI u) (0 - 0x3F1) (sig OR 0x4000) st) =
          ieee_result f16_fmt st (signF64UI u) (2 ^ 14 + J) (pack_exp f16_fmt 4 (0 - 0x3F1))"
        using rp16.rp_ieee [of "sig OR 0x4000" "0 - 0x3F1"] J_lt or by simp
      also have "\<dots> = ieee_result f16_fmt st (signF64UI u) m i"
        using ieee_result_tiny [of "2 ^ 14 + J" "pack_exp f16_fmt 4 (0 - 0x3F1)" f16_fmt]
          ieee_result_tiny [of m i f16_fmt] Fin(4) bm bj m(2)
        by (simp add: pack_exp_def)
      finally show ?thesis by (simp add: True)
    next
      case False
      have m: "m = 2 ^ 52 + unat (fracF64UI u)" "i = expF64UI u - 1 + (- 1074)"
        using Fin(1,3) False by (simp_all add: decodeF64)
      have "jam m (2 ^ 38) = 2 ^ 14 + J"
        using jam_add [of "2 ^ 38" "2 ^ 14" "unat (fracF64UI u)"] by (simp add: m J_def)
      then have "unat (sig OR 0x4000) = jam m (2 ^ 38)" using or by simp
      moreover have "bitlen m = 53"
        using bitlen_unique [of 52 m] fracF64_bound [of u] m by simp
      ultimately show ?thesis
        using J_lt or expF64_bounds [of u] m(2)
        by (intro rp16.rp_jam [where k = 38]) (simp_all add: pack_exp_def)
    qed
    ultimately show ?thesis unfolding ua Fin(3) by simp
  qed
qed

lemma f64_to_f32_ieee: "bits (f64_to_f32 a st) = fp_convert f32_fmt st (decode f64_fmt (unat a))"
proof -
  have "unat (ucast a :: u64) = unat a" using unat_lt_64 [of a] by (simp add: unat_cast)
  define u where "u = (ucast a :: u64)"
  have ua: "unat a = unat u" using \<open>unat (ucast a :: u64) = unat a\<close> by (simp add: u_def)
  define sig where "sig = softfloat_shortShiftRightJam64 (fracF64UI u) 22"
  have j: "unat (softfloat_shortShiftRightJam64 (fracF64UI u) 22) = jam (unat (fracF64UI u)) (2 ^ 22)"
    using unat_shortShiftRightJam64 [of 22 "fracF64UI u"] by simp
  define J where "J = jam (unat (fracF64UI u)) (2 ^ 22)"
  have uJ: "unat sig = J" using j by (simp add: sig_def J_def)
  have J0: "J = 0 \<longleftrightarrow> fracF64UI u = 0" by (simp add: J_def jam_eq_0_iff word_eq_nat)
  have "J \<le> 2 ^ 30"
    unfolding J_def using fracF64_bound [of u] by (intro jam_le) (simp_all flip: power_add)
  moreover have J_lt: "J < 2 ^ 30"
    unfolding J_def using fracF64_bound [of u] by (intro jam_less) simp_all
  ultimately have or: "unat (sig OR 0x40000000) = 2 ^ 30 + J"
    using or_disjoint_nat [of J 30 1] by (simp add: unat_disj uJ or.commute)
  note defs = f64_to_f32_def Let_def u_def [symmetric] sig_def [symmetric]
  have s0: "sig = 0 \<longleftrightarrow> fracF64UI u = 0" using uJ J0 by (simp add: word_eq_nat)
  show ?thesis
  proof (cases rule: decodeF64_cases [of u])
    case NaN
    then show ?thesis unfolding defs ua by (simp add: commonNaNF64 return_commonNaNF32)
  next
    case Inf
    then show ?thesis unfolding defs ua by (simp add: return_infF32)
  next
    case Zero
    then show ?thesis unfolding defs ua by (simp add: return_zeroF32 ieee_result_zero s0)
  next
    case (Fin m i)
    have "bits (f64_to_f32 a st) =
        bits (softfloat_roundPackToF32 (signF64UI u) (expF64UI u - 0x381) (sig OR 0x40000000) st)"
      unfolding defs s0 using Fin(1,2) by (simp only: if_False)
    moreover have "bits (softfloat_roundPackToF32 (signF64UI u) (expF64UI u - 0x381) (sig OR 0x40000000) st) =
        ieee_result f32_fmt st (signF64UI u) m i"
    proof (cases "expF64UI u = 0")
      case True
      have m: "m = unat (fracF64UI u)" "i = - 1074" using Fin(3) True by (simp_all add: decodeF64)
      then have "m < 2 ^ 52" using fracF64_bound by simp
      then have bm: "bitlen m \<le> 52" by (simp only: bitlen_le_iff)
      have "2 ^ 30 + J < 2 ^ 31" using J_lt by simp
      then have bj: "bitlen (2 ^ 30 + J) \<le> 31" by (simp only: bitlen_le_iff)
      have "bits (softfloat_roundPackToF32 (signF64UI u) (0 - 0x381) (sig OR 0x40000000) st) =
          ieee_result f32_fmt st (signF64UI u) (2 ^ 30 + J) (pack_exp f32_fmt 7 (0 - 0x381))"
        using rp32.rp_ieee [of "sig OR 0x40000000" "0 - 0x381"] J_lt or by simp
      also have "\<dots> = ieee_result f32_fmt st (signF64UI u) m i"
        using ieee_result_tiny [of "2 ^ 30 + J" "pack_exp f32_fmt 7 (0 - 0x381)" f32_fmt]
          ieee_result_tiny [of m i f32_fmt] Fin(4) bm bj m(2)
        by (simp add: pack_exp_def)
      finally show ?thesis by (simp add: True)
    next
      case False
      have m: "m = 2 ^ 52 + unat (fracF64UI u)" "i = expF64UI u - 1 + (- 1074)"
        using Fin(1,3) False by (simp_all add: decodeF64)
      have "jam m (2 ^ 22) = 2 ^ 30 + J"
        using jam_add [of "2 ^ 22" "2 ^ 30" "unat (fracF64UI u)"] by (simp add: m J_def)
      then have "unat (sig OR 0x40000000) = jam m (2 ^ 22)" using or by simp
      moreover have "bitlen m = 53"
        using bitlen_unique [of 52 m] fracF64_bound [of u] m by simp
      ultimately show ?thesis
        using J_lt or expF64_bounds [of u] m(2)
        by (intro rp32.rp_jam [where k = 22]) (simp_all add: pack_exp_def)
    qed
    ultimately show ?thesis unfolding ua Fin(3) by simp
  qed
qed

section \<open>Widening loses nothing\<close>

text \<open>The same datum in possibly different formats: same sign, and same class and value.\<close>

fun fp_same :: "fp \<Rightarrow> fp \<Rightarrow> bool" where
  "fp_same (NaN s) (NaN t) = True"
| "fp_same (Inf s) (Inf t) = (s = t)"
| "fp_same (Fin s m i) (Fin t n j) = (s = t \<and> of_nat m * 2 powi i = (of_nat n * 2 powi j :: rat))"
| "fp_same x y = False"

lemma same_value_cases:
  assumes "of_nat m * 2 powi i = (of_nat n * 2 powi j :: rat)" "i \<le> j"
  shows "m = n * 2 ^ nat (j - i)"
proof -
  have "(2 :: rat) powi j = 2 powi (i + int (nat (j - i)))" using assms(2) by simp
  also have "\<dots> = 2 powi i * 2 ^ nat (j - i)" by (simp add: power_int_add flip: power_int_of_nat)
  finally have "(of_nat m :: rat) = of_nat (n * 2 ^ nat (j - i))" using assms(1) by simp
  then show ?thesis by (simp only: of_nat_eq_iff)
qed

lemma ieee_result_same:
  assumes "of_nat m * 2 powi i = (of_nat n * 2 powi j :: rat)"
  shows "ieee_result F st s m i = ieee_result F st s n j"
proof (cases "i \<le> j")
  case True
  then show ?thesis
    using same_value_cases [OF assms True] ieee_result_double [of F st s n "nat (j - i)" j] by simp
next
  case False
  then have "j \<le> i" by simp
  then show ?thesis
    using same_value_cases [OF assms [symmetric] \<open>j \<le> i\<close>] ieee_result_double [of F st s m "nat (i - j)" i] by simp
qed

lemma fp_convert_same: "fp_same x y \<Longrightarrow> \<not> is_nan x \<Longrightarrow> fp_convert F st x = fp_convert F st y"
  by (cases x; cases y) (auto intro: ieee_result_same)

lemma decode_normal:
  assumes "2 ^ frac_bits F \<le> q" "q < 2 ^ (frac_bits F + 1)" "0 \<le> x" "x \<le> int (exp_max F) - 2"
  shows "decode F (of_bool s * sign_weight F + (nat x * 2 ^ frac_bits F + q)) = Fin s q (x + lsb_exp F)"
proof -
  define P where "P = (2 :: nat) ^ frac_bits F"
  define k f where "k = Suc (nat x)" and "f = q - P"
  have P: "0 < P" by (simp add: P_def)
  have q: "q = P + f" "f < P" using assms(1,2) by (simp_all add: P_def f_def)
  have k: "k < exp_max F" "0 < k" using assms(3,4) by (simp_all add: k_def)
  have n: "nat x * P + q = k * P + f" by (simp add: k_def q)
  have "k * P + f < Suc k * P" using q(2) by simp
  also have "\<dots> \<le> exp_max F * P" using k(1) by (intro mult_le_mono1) simp
  finally have lt: "k * P + f < Suc (exp_max F) * P" by simp
  have sw: "sign_weight F = P * Suc (exp_max F)" by (simp add: sign_weight_def P_def)
  have d: "(of_bool s * (P * Suc (exp_max F)) + (k * P + f)) div (P * Suc (exp_max F)) = of_bool s"
  proof -
    define S y where "S = P * Suc (exp_max F)" and "y = k * P + f"
    have "y < S" using lt by (simp add: S_def y_def mult.commute)
    then have "(of_bool s * S + y) div S = of_bool s" by (cases s) (simp_all add: div_add_self1)
    then show ?thesis by (simp only: S_def y_def)
  qed
  have e: "(of_bool s * (P * Suc (exp_max F)) + (k * P + f)) div P = of_bool s * Suc (exp_max F) + k"
  proof -
    define N where "N = of_bool s * Suc (exp_max F) + k"
    have "of_bool s * (P * Suc (exp_max F)) + (k * P + f) = N * P + f" by (simp add: algebra_simps N_def)
    moreover have "(N * P + f) div P = N" using q(2) by (simp add: div_mult_self3)
    ultimately show ?thesis by (simp only: N_def)
  qed
  have r: "(of_bool s * (P * Suc (exp_max F)) + (k * P + f)) mod P = f"
  proof -
    define N where "N = of_bool s * Suc (exp_max F) + k"
    have "of_bool s * (P * Suc (exp_max F)) + (k * P + f) = N * P + f" by (simp add: algebra_simps N_def)
    moreover have "(N * P + f) mod P = f" using q(2) by simp
    ultimately show ?thesis by (simp only:)
  qed
  have m: "(of_bool s * Suc (exp_max F) + k) mod Suc (exp_max F) = k"
  proof -
    define E where "E = Suc (exp_max F)"
    have "k < E" using k(1) by (simp add: E_def)
    then show ?thesis unfolding E_def [symmetric] by (cases s) simp_all
  qed
  have "k \<noteq> exp_max F" "k \<noteq> 0" "int k - 1 = x" using k assms(3) by (simp_all add: k_def)
  then show ?thesis
    unfolding decode_def Let_def P_def [symmetric] n sw d e r m by (simp add: q(1))
qed

lemma decode_magnitude:
  assumes "n < sign_weight F"
  shows "neg_of F (of_bool s * sign_weight F + n) = s" "mag_of F (of_bool s * sign_weight F + n) = n"
  using assms by (cases s; simp add: neg_of_def mag_of_def div_add_self1)+

lemma decode_inf_result: "0 < exp_max F \<Longrightarrow> decode F (fst (inf_result F st s)) = Inf s"
  using decode_magnitude [of "inf_mag F" F s] decode_inf [of F "of_bool s * sign_weight F + inf_mag F"]
  by (simp add: inf_result_def inf_mag_def sign_weight_def)

lemma decode_zero_result:
  assumes "0 < exp_max F"
  shows "decode F (fst (zero_result F st s)) = Fin s 0 (lsb_exp F)"
proof -
  have "odd (of_bool s * sign_weight F div sign_weight F) = s" by (cases s) (simp_all add: sign_weight_def)
  moreover have "of_bool s * sign_weight F div 2 ^ frac_bits F mod Suc (exp_max F) = 0"
    "of_bool s * sign_weight F mod 2 ^ frac_bits F = 0"
    by (cases s; simp add: sign_weight_def)+
  ultimately show ?thesis using assms by (simp add: decode_def zero_result_def)
qed

text \<open>What rounding to a format does to a value of that format: nothing.\<close>

lemma fp_convert_self:
  assumes "n < 2 * sign_weight F" "\<not> is_nan (decode F n)" "2 \<le> exp_max F"
  shows "fp_convert F st (decode F n) = (n, st)"
proof -
  note b = pattern_bounds [OF assms(1)]
  have "mag_of F n \<le> inf_mag F" using assms(2) by (simp add: decode_nan)
  then consider "mag_of F n = inf_mag F" | "mag_of F n < inf_mag F" by linarith
  then show ?thesis
  proof cases
    case 1
    then show ?thesis using b(1) by (simp add: decode_inf inf_result_def)
  next
    case 2
    define q r where "q = mag_of F n div 2 ^ frac_bits F" and "r = mag_of F n mod 2 ^ frac_bits F"
    have r: "r < 2 ^ frac_bits F" by (simp add: r_def)
    have q: "q < exp_max F" using 2 unfolding q_def inf_mag_def by (simp add: less_mult_imp_div_less)
    have m: "mag_of F n = q * 2 ^ frac_bits F + r" unfolding q_def r_def by (simp only: div_mult_mod_eq)
    note d = decode_def [of F n, unfolded mag_fields [of n F] Let_def, folded q_def r_def neg_of_def]
    have nn: "n = of_bool (neg_of F n) * sign_weight F + (q * 2 ^ frac_bits F + r)" using b(1) m by simp
    show ?thesis
    proof (cases q)
      case 0
      then have "fp_convert F st (decode F n) = ieee_result F st (neg_of F n) r (lsb_exp F)" using d q by simp
      then show ?thesis using ieee_result_small [of r F] r assms(3) nn 0 by simp
    next
      case (Suc p)
      then have "fp_convert F st (decode F n) = ieee_result F st (neg_of F n) (2 ^ frac_bits F + r) (int p + lsb_exp F)"
        using d q by simp
      also have "\<dots> = (of_bool (neg_of F n) * sign_weight F + (nat (int p) * 2 ^ frac_bits F + (2 ^ frac_bits F + r)), st)"
        using r q Suc assms(3) by (intro ieee_result_normal [where c = 0]) simp_all
      finally show ?thesis using nn Suc by (simp add: add.assoc)
    qed
  qed
qed

lemma fp_convert_widen:
  assumes n: "\<not> is_nan (decode F n)" and F: "2 \<le> exp_max F" "2 \<le> exp_max G"
    and w: "frac_bits F \<le> frac_bits G" "lsb_exp G + int (frac_bits G) \<le> lsb_exp F"
    and t: "int (exp_max F) + lsb_exp F + int (frac_bits F) \<le> int (exp_max G) + lsb_exp G + int (frac_bits G)"
  shows "fp_same (decode G (fst (fp_convert G st (decode F n)))) (decode F n) \<and> snd (fp_convert G st (decode F n)) = st"
proof -
  have "mag_of F n \<le> inf_mag F" using n by (simp add: decode_nan)
  then consider "mag_of F n = inf_mag F" | "mag_of F n < inf_mag F" by linarith
  then show ?thesis
  proof cases
    case 1
    then show ?thesis using F(2) decode_inf_result [of G st] by (simp add: decode_inf) (simp add: inf_result_def)
  next
    case 2
    define q r where "q = mag_of F n div 2 ^ frac_bits F" and "r = mag_of F n mod 2 ^ frac_bits F"
    have r: "r < 2 ^ frac_bits F" by (simp add: r_def)
    have q: "q < exp_max F" using 2 unfolding q_def inf_mag_def by (simp add: less_mult_imp_div_less)
    note d = decode_def [of F n, unfolded mag_fields [of n F] Let_def, folded q_def r_def neg_of_def]
    obtain m i where mi: "decode F n = Fin (neg_of F n) m i" "m < 2 ^ (frac_bits F + 1)"
      "lsb_exp F \<le> i" "i \<le> int (exp_max F) - 2 + lsb_exp F" "i = lsb_exp F \<or> 2 ^ frac_bits F \<le> m"
      using d q r F(1) by (cases q) auto
    show ?thesis
    proof (cases "m = 0")
      case True
      then show ?thesis
        using mi(1) F(2) decode_zero_result [of G st] by (simp add: ieee_result_zero) (simp add: zero_result_def)
    next
      case False
      define c where "c = frac_bits G + 1 - bitlen m"
      have bm: "bitlen m \<le> frac_bits F + 1" using mi(2) by (simp only: bitlen_le_iff)
      have b0: "0 < bitlen m" using False by (metis bitlen_eq_0_iff gr0I)
      have "2 ^ (frac_bits F + 1) \<le> (2 :: nat) ^ (frac_bits G + 1)" using w(1) by (intro power_increasing) simp_all
      with mi(2) have lt: "m < 2 ^ (frac_bits G + 1)" by (rule less_le_trans)
      have m0: "0 < m" using False by simp
      note ns = normalised_shift [OF m0 lt, folded c_def]
      define x where "x = i - int c - lsb_exp G"
      have ic: "int c = int (frac_bits G) + 1 - int (bitlen m)" using bm w(1) by (simp add: c_def)
      have x0: "0 \<le> x" using mi(3) w(2) b0 ic by (simp add: x_def)
      have x1: "x \<le> int (exp_max G) - 2"
        using mi(4) bm ic t by (simp add: x_def)
      have nrm: "2 ^ frac_bits G \<le> m * 2 ^ c" "m * 2 ^ c < 2 ^ (frac_bits G + 1)" using ns by simp_all
      have "ieee_result G st (neg_of F n) m i =
          (of_bool (neg_of F n) * sign_weight G + (nat x * 2 ^ frac_bits G + m * 2 ^ c), st)"
        using nrm F(2) x0 x1 by (intro ieee_result_normal [where c = c]) (simp_all add: x_def)
      moreover have "of_nat (m * 2 ^ c) * 2 powi (x + lsb_exp G) = (of_nat m * 2 powi i :: rat)"
      proof -
        have "i = x + lsb_exp G + int c" by (simp add: x_def)
        then have "(2 :: rat) powi i = 2 powi (x + lsb_exp G) * 2 ^ c"
          by (simp add: power_int_add)
        then show ?thesis by simp
      qed
      ultimately show ?thesis
        using decode_normal [OF nrm x0 x1] mi(1) by simp
    qed
  qed
qed

lemma widen_parts:
  "unat (fst (f16_to_f32 a st)) = fst (fp_convert f32_fmt st (decode f16_fmt (unat a)))"
  "unat (fst (f16_to_f64 a st)) = fst (fp_convert f64_fmt st (decode f16_fmt (unat a)))"
  "unat (fst (f32_to_f64 b st)) = fst (fp_convert f64_fmt st (decode f32_fmt (unat b)))"
  "snd (f16_to_f32 a st) = snd (fp_convert f32_fmt st (decode f16_fmt (unat a)))"
  "snd (f16_to_f64 a st) = snd (fp_convert f64_fmt st (decode f16_fmt (unat a)))"
  "snd (f32_to_f64 b st) = snd (fp_convert f64_fmt st (decode f32_fmt (unat b)))"
  unfolding f16_to_f32_ieee [symmetric] f16_to_f64_ieee [symmetric] f32_to_f64_ieee [symmetric]
  by (simp_all add: bits_def)

lemma fp_convert_narrow:
  assumes "fp_same x (decode F n)" "n < 2 * sign_weight F" "\<not> is_nan (decode F n)" "2 \<le> exp_max F"
  shows "fp_convert F st x = (n, st)"
proof -
  have "\<not> is_nan x" using assms(1,3) by (cases x; cases "decode F n") simp_all
  then show ?thesis using fp_convert_same [OF assms(1)] fp_convert_self [OF assms(2-4)] by simp
qed

section \<open>Properties\<close>

text \<open>C23: every conversion between the formats returns the value of the operand correctly rounded to
  the target format with exactly the flags of that rounding, infinities and zeros with their signs,
  and for a NaN the default NaN with invalid raised exactly when it is signaling.\<close>

theorem conversions_correctly_rounded:
  "bits (f16_to_f32 a st) = fp_convert f32_fmt st (decode f16_fmt (unat a)) \<and>
   bits (f16_to_f64 a st) = fp_convert f64_fmt st (decode f16_fmt (unat a)) \<and>
   bits (f32_to_f64 b st) = fp_convert f64_fmt st (decode f32_fmt (unat b)) \<and>
   bits (f32_to_f16 b st) = fp_convert f16_fmt st (decode f32_fmt (unat b)) \<and>
   bits (f64_to_f16 c st) = fp_convert f16_fmt st (decode f64_fmt (unat c)) \<and>
   bits (f64_to_f32 c st) = fp_convert f32_fmt st (decode f64_fmt (unat c))"
  by (intro conjI f16_to_f32_ieee f16_to_f64_ieee f32_to_f64_ieee f32_to_f16_ieee f64_to_f16_ieee f64_to_f32_ieee)

text \<open>Widening is exact and raises nothing: for an operand that is not NaN the result is the same
  datum in the wider format and the state is unchanged.\<close>

theorem widening_exact:
  assumes "\<not> isNaNF16UI (ucast a)" "\<not> isNaNF32UI (ucast b)"
  shows "fp_same (decode f32_fmt (unat (fst (f16_to_f32 a st)))) (decode f16_fmt (unat a)) \<and> snd (f16_to_f32 a st) = st \<and>
    fp_same (decode f64_fmt (unat (fst (f16_to_f64 a st)))) (decode f16_fmt (unat a)) \<and> snd (f16_to_f64 a st) = st \<and>
    fp_same (decode f64_fmt (unat (fst (f32_to_f64 b st)))) (decode f32_fmt (unat b)) \<and> snd (f32_to_f64 b st) = st"
  unfolding widen_parts using assms by (simp add: is_nanF16 is_nanF32 fp_convert_widen)

theorem widening_exact_witness:
  "fp_same (decode f32_fmt (unat (fst (f16_to_f32 0x3C01 softfloat_init)))) (decode f16_fmt (unat (0x3C01 :: float16_t)))"
  using widening_exact [where a = "0x3C01" and b = "0x3F800000" and st = softfloat_init] by (simp add: isNaNF16UI_def isNaNF32UI_def)

text \<open>Widening an operand that is not NaN and narrowing the result gives back the operand, bit for
  bit and without a flag, in every rounding mode.\<close>

theorem widen_narrow_roundtrip:
  assumes "\<not> isNaNF16UI (ucast a)" "\<not> isNaNF32UI (ucast b)"
  shows "f32_to_f16 (fst (f16_to_f32 a st)) st' = (a, st') \<and>
    f64_to_f16 (fst (f16_to_f64 a st)) st' = (a, st') \<and>
    f64_to_f32 (fst (f32_to_f64 b st)) st' = (b, st')"
proof -
  have n: "\<not> is_nan (decode f16_fmt (unat a))" "\<not> is_nan (decode f32_fmt (unat b))"
    using assms by (simp_all add: is_nanF16 is_nanF32)
  have r: "bits r = (unat c, st') \<longleftrightarrow> r = (c, st')" for r and c :: "'a::len word"
    using bits_inj [of r "(c, st')"] by (auto simp: bits_def)
  show ?thesis
    unfolding r [symmetric] f32_to_f16_ieee f64_to_f16_ieee f64_to_f32_ieee widen_parts
    using n fp_convert_widen [of f16_fmt "unat a" f32_fmt] fp_convert_widen [of f16_fmt "unat a" f64_fmt]
      fp_convert_widen [of f32_fmt "unat b" f64_fmt]
    by (simp add: fp_convert_narrow pattern_ltF16 pattern_ltF32)
qed

theorem widen_narrow_roundtrip_witness:
  "f64_to_f32 (fst (f32_to_f64 0x3F9D7342 softfloat_init)) softfloat_init = (0x3F9D7342, softfloat_init)"
  using widen_narrow_roundtrip [where a = "0x3C00" and b = "0x3F9D7342" and st = softfloat_init and st' = softfloat_init]
  by (simp add: isNaNF16UI_def isNaNF32UI_def)

end
