(* ===== verification/SF_FloatToInt.thy ===== *)
theory SF_FloatToInt
  imports SF_Convert SF_IntToFloat
begin

text \<open>
  Conversions to integers: the rounding routines \<open>softfloat_roundToI32/UI32/I64/UI64\<close>, the twelve
  conversions with a rounding mode argument, and the narrow ones (\<open>f16_to_i8\<close>, ...,
  \<open>f32_to_ui16\<close>), which convert to 32 bits and clamp. A signed
  result is an integer, an unsigned one a 64-bit word (\<open>uint_fast32_t\<close>, \<open>uint_fast64_t\<close>). All of
  them are shown to return the value rounded to an integer, or the limit the RISC-V
  specialisation prescribes with invalid raised when that is out of range.
\<close>

section \<open>Rounding routines\<close>

text \<open>The values \<open>specialize.h\<close> prescribes for invalid conversions.\<close>

definition i8_fromPosOverflow :: int where "i8_fromPosOverflow = 0x7F"
definition i8_fromNegOverflow :: int where "i8_fromNegOverflow = - 0x7F - 1"
definition ui8_fromPosOverflow :: u64 where "ui8_fromPosOverflow = 0xFF"
definition i16_fromPosOverflow :: int where "i16_fromPosOverflow = 0x7FFF"
definition i16_fromNegOverflow :: int where "i16_fromNegOverflow = - 0x7FFF - 1"
definition ui16_fromPosOverflow :: u64 where "ui16_fromPosOverflow = 0xFFFF"
definition ui32_fromPosOverflow :: u64 where "ui32_fromPosOverflow = 0xFFFFFFFF"
definition ui32_fromNegOverflow :: u64 where "ui32_fromNegOverflow = 0"
definition ui32_fromNaN :: u64 where "ui32_fromNaN = 0xFFFFFFFF"
definition i32_fromPosOverflow :: int where "i32_fromPosOverflow = 0x7FFFFFFF"
definition i32_fromNegOverflow :: int where "i32_fromNegOverflow = - 0x7FFFFFFF - 1"
definition i32_fromNaN :: int where "i32_fromNaN = 0x7FFFFFFF"
definition ui64_fromPosOverflow :: u64 where "ui64_fromPosOverflow = 0xFFFFFFFFFFFFFFFF"
definition ui64_fromNegOverflow :: u64 where "ui64_fromNegOverflow = 0"
definition ui64_fromNaN :: u64 where "ui64_fromNaN = 0xFFFFFFFFFFFFFFFF"
definition i64_fromPosOverflow :: int where "i64_fromPosOverflow = 0x7FFFFFFFFFFFFFFF"
definition i64_fromNegOverflow :: int where "i64_fromNegOverflow = - 0x7FFFFFFFFFFFFFFF - 1"
definition i64_fromNaN :: int where "i64_fromNaN = 0x7FFFFFFFFFFFFFFF"

definition softfloat_roundToI32 :: "bool \<Rightarrow> u64 \<Rightarrow> u8 \<Rightarrow> bool \<Rightarrow> sf_state \<Rightarrow> int \<times> sf_state" where
  "softfloat_roundToI32 sign sig roundingMode exact st =
     (let roundNearEven = (roundingMode = softfloat_round_near_even);
          roundIncrement = (if \<not> roundNearEven \<and> roundingMode \<noteq> softfloat_round_near_maxMag
            then if roundingMode = (if sign then softfloat_round_min else softfloat_round_max) then 0xFFF else 0
            else 0x800);
          roundBits = sig AND 0xFFF;
          sig = sig + roundIncrement;
          invalid = (if sign then i32_fromNegOverflow else i32_fromPosOverflow,
                     softfloat_raiseFlags softfloat_flag_invalid st)
      in if sig AND 0xFFFFF00000000000 \<noteq> 0 then invalid
         else let sig32 = drop_bit 12 sig AND NOT (of_bool (\<not> (roundBits XOR 0x800 \<noteq> 0) \<and> roundNearEven));
                  z = sint (ucast (if sign then - sig32 else sig32) :: u32)
           in if z \<noteq> 0 \<and> ((z < 0) \<noteq> sign) then invalid
              else (z, if exact \<and> roundBits \<noteq> 0 then softfloat_raiseFlags softfloat_flag_inexact st else st))"

definition softfloat_roundToUI32 :: "bool \<Rightarrow> u64 \<Rightarrow> u8 \<Rightarrow> bool \<Rightarrow> sf_state \<Rightarrow> u64 \<times> sf_state" where
  "softfloat_roundToUI32 sign sig roundingMode exact st =
     (let roundNearEven = (roundingMode = softfloat_round_near_even);
          roundIncrement = (if \<not> roundNearEven \<and> roundingMode \<noteq> softfloat_round_near_maxMag
            then if roundingMode = (if sign then softfloat_round_min else softfloat_round_max) then 0xFFF else 0
            else 0x800);
          roundBits = sig AND 0xFFF;
          sig = sig + roundIncrement;
          invalid = (if sign then ui32_fromNegOverflow else ui32_fromPosOverflow,
                     softfloat_raiseFlags softfloat_flag_invalid st)
      in if sig AND 0xFFFFF00000000000 \<noteq> 0 then invalid
         else let z = drop_bit 12 sig AND NOT (of_bool (\<not> (roundBits XOR 0x800 \<noteq> 0) \<and> roundNearEven))
           in if sign \<and> z \<noteq> 0 then invalid
              else (z, if exact \<and> roundBits \<noteq> 0 then softfloat_raiseFlags softfloat_flag_inexact st else st))"

definition softfloat_roundToI64 :: "bool \<Rightarrow> u64 \<Rightarrow> u64 \<Rightarrow> u8 \<Rightarrow> bool \<Rightarrow> sf_state \<Rightarrow> int \<times> sf_state" where
  "softfloat_roundToI64 sign sig sigExtra roundingMode exact st =
     (let roundNearEven = (roundingMode = softfloat_round_near_even);
          doIncrement = (if \<not> roundNearEven \<and> roundingMode \<noteq> softfloat_round_near_maxMag
            then roundingMode = (if sign then softfloat_round_min else softfloat_round_max) \<and> sigExtra \<noteq> 0
            else 0x8000000000000000 \<le> sigExtra);
          invalid = (if sign then i64_fromNegOverflow else i64_fromPosOverflow,
                     softfloat_raiseFlags softfloat_flag_invalid st)
      in if doIncrement \<and> sig + 1 = 0 then invalid
         else let sig = (if doIncrement
                  then (sig + 1) AND NOT (of_bool (\<not> (sigExtra AND 0x7FFFFFFFFFFFFFFF \<noteq> 0) \<and> roundNearEven))
                  else sig);
                  z = sint (if sign then - sig else sig)
           in if z \<noteq> 0 \<and> ((z < 0) \<noteq> sign) then invalid
              else (z, if exact \<and> sigExtra \<noteq> 0 then softfloat_raiseFlags softfloat_flag_inexact st else st))"

definition softfloat_roundToUI64 :: "bool \<Rightarrow> u64 \<Rightarrow> u64 \<Rightarrow> u8 \<Rightarrow> bool \<Rightarrow> sf_state \<Rightarrow> u64 \<times> sf_state" where
  "softfloat_roundToUI64 sign sig sigExtra roundingMode exact st =
     (let roundNearEven = (roundingMode = softfloat_round_near_even);
          doIncrement = (if \<not> roundNearEven \<and> roundingMode \<noteq> softfloat_round_near_maxMag
            then roundingMode = (if sign then softfloat_round_min else softfloat_round_max) \<and> sigExtra \<noteq> 0
            else 0x8000000000000000 \<le> sigExtra);
          invalid = (if sign then ui64_fromNegOverflow else ui64_fromPosOverflow,
                     softfloat_raiseFlags softfloat_flag_invalid st)
      in if doIncrement \<and> sig + 1 = 0 then invalid
         else let sig = (if doIncrement
                  then (sig + 1) AND NOT (of_bool (\<not> (sigExtra AND 0x7FFFFFFFFFFFFFFF \<noteq> 0) \<and> roundNearEven))
                  else sig)
           in if sign \<and> sig \<noteq> 0 then invalid
              else (sig, if exact \<and> sigExtra \<noteq> 0 then softfloat_raiseFlags softfloat_flag_inexact st else st))"

section \<open>Conversions with a rounding mode\<close>

definition f16_to_i32 :: "float16_t \<Rightarrow> u8 \<Rightarrow> bool \<Rightarrow> sf_state \<Rightarrow> int \<times> sf_state" where
  "f16_to_i32 a roundingMode exact st =
     (let uiA = ucast a :: u64;
          sign = signF16UI uiA; exp = expF16UI uiA; frac = fracF16UI uiA
      in if exp = 0x1F then
              (if frac \<noteq> 0 then i32_fromNaN else if sign then i32_fromNegOverflow else i32_fromPosOverflow,
               softfloat_raiseFlags softfloat_flag_invalid st)
         else let sig32 = frac
           in if exp \<noteq> 0 then
                let sig32 = sig32 OR 0x0400
                in if 0 \<le> exp - 0x19 then
                  (if sign then - uint (push_bit (nat (exp - 0x19)) sig32) else uint (push_bit (nat (exp - 0x19)) sig32), st)
                   else let shiftDist = exp - 0x0D;
                            sig32 = (if 0 < shiftDist then push_bit (nat shiftDist) sig32 else sig32)
                        in softfloat_roundToI32 sign sig32 roundingMode exact st
              else softfloat_roundToI32 sign sig32 roundingMode exact st)"

definition f16_to_ui32 :: "float16_t \<Rightarrow> u8 \<Rightarrow> bool \<Rightarrow> sf_state \<Rightarrow> u64 \<times> sf_state" where
  "f16_to_ui32 a roundingMode exact st =
     (let uiA = ucast a :: u64;
          sign = signF16UI uiA; exp = expF16UI uiA; frac = fracF16UI uiA
      in if exp = 0x1F then
              (if frac \<noteq> 0 then ui32_fromNaN else if sign then ui32_fromNegOverflow else ui32_fromPosOverflow,
               softfloat_raiseFlags softfloat_flag_invalid st)
         else let sig32 = frac
           in if exp \<noteq> 0 then
                let sig32 = sig32 OR 0x0400
                in if 0 \<le> exp - 0x19 \<and> \<not> sign then (push_bit (nat (exp - 0x19)) sig32, st)
                   else let shiftDist = exp - 0x0D;
                            sig32 = (if 0 < shiftDist then push_bit (nat shiftDist) sig32 else sig32)
                        in softfloat_roundToUI32 sign sig32 roundingMode exact st
              else softfloat_roundToUI32 sign sig32 roundingMode exact st)"

definition f16_to_i64 :: "float16_t \<Rightarrow> u8 \<Rightarrow> bool \<Rightarrow> sf_state \<Rightarrow> int \<times> sf_state" where
  "f16_to_i64 a roundingMode exact st =
     (let uiA = ucast a :: u64;
          sign = signF16UI uiA; exp = expF16UI uiA; frac = fracF16UI uiA
      in if exp = 0x1F then
              (if frac \<noteq> 0 then i64_fromNaN else if sign then i64_fromNegOverflow else i64_fromPosOverflow,
               softfloat_raiseFlags softfloat_flag_invalid st)
         else let sig32 = frac
           in if exp \<noteq> 0 then
                let sig32 = sig32 OR 0x0400
                in if 0 \<le> exp - 0x19 then
                  (if sign then - uint (push_bit (nat (exp - 0x19)) sig32) else uint (push_bit (nat (exp - 0x19)) sig32), st)
                   else let shiftDist = exp - 0x0D;
                            sig32 = (if 0 < shiftDist then push_bit (nat shiftDist) sig32 else sig32)
                        in softfloat_roundToI32 sign sig32 roundingMode exact st
              else softfloat_roundToI32 sign sig32 roundingMode exact st)"

definition f16_to_ui64 :: "float16_t \<Rightarrow> u8 \<Rightarrow> bool \<Rightarrow> sf_state \<Rightarrow> u64 \<times> sf_state" where
  "f16_to_ui64 a roundingMode exact st =
     (let uiA = ucast a :: u64;
          sign = signF16UI uiA; exp = expF16UI uiA; frac = fracF16UI uiA
      in if exp = 0x1F then
              (if frac \<noteq> 0 then ui64_fromNaN else if sign then ui64_fromNegOverflow else ui64_fromPosOverflow,
               softfloat_raiseFlags softfloat_flag_invalid st)
         else let sig32 = frac
           in if exp \<noteq> 0 then
                let sig32 = sig32 OR 0x0400
                in if 0 \<le> exp - 0x19 \<and> \<not> sign then (push_bit (nat (exp - 0x19)) sig32, st)
                   else let shiftDist = exp - 0x0D;
                            sig32 = (if 0 < shiftDist then push_bit (nat shiftDist) sig32 else sig32)
                        in softfloat_roundToUI32 sign sig32 roundingMode exact st
              else softfloat_roundToUI32 sign sig32 roundingMode exact st)"

definition f32_to_i32 :: "float32_t \<Rightarrow> u8 \<Rightarrow> bool \<Rightarrow> sf_state \<Rightarrow> int \<times> sf_state" where
  "f32_to_i32 a roundingMode exact st =
     (let uiA = ucast a :: u64;
          sign = signF32UI uiA; exp = expF32UI uiA; sig = fracF32UI uiA;
          sign = (if exp = 0xFF \<and> sig \<noteq> 0 then False else sign);
          sig = (if exp \<noteq> 0 then sig OR 0x00800000 else sig);
          sig64 = push_bit 32 sig;
          shiftDist = 0xAA - exp;
          sig64 = (if 0 < shiftDist then softfloat_shiftRightJam64 sig64 (word_of_int shiftDist) else sig64)
      in softfloat_roundToI32 sign sig64 roundingMode exact st)"

definition f32_to_ui32 :: "float32_t \<Rightarrow> u8 \<Rightarrow> bool \<Rightarrow> sf_state \<Rightarrow> u64 \<times> sf_state" where
  "f32_to_ui32 a roundingMode exact st =
     (let uiA = ucast a :: u64;
          sign = signF32UI uiA; exp = expF32UI uiA; sig = fracF32UI uiA;
          sign = (if exp = 0xFF \<and> sig \<noteq> 0 then False else sign);
          sig = (if exp \<noteq> 0 then sig OR 0x00800000 else sig);
          sig64 = push_bit 32 sig;
          shiftDist = 0xAA - exp;
          sig64 = (if 0 < shiftDist then softfloat_shiftRightJam64 sig64 (word_of_int shiftDist) else sig64)
      in softfloat_roundToUI32 sign sig64 roundingMode exact st)"

definition f64_to_i32 :: "float64_t \<Rightarrow> u8 \<Rightarrow> bool \<Rightarrow> sf_state \<Rightarrow> int \<times> sf_state" where
  "f64_to_i32 a roundingMode exact st =
     (let uiA = ucast a :: u64;
          sign = signF64UI uiA; exp = expF64UI uiA; sig = fracF64UI uiA;
          sign = (if exp = 0x7FF \<and> sig \<noteq> 0 then False else sign);
          sig = (if exp \<noteq> 0 then sig OR 0x0010000000000000 else sig);
          shiftDist = 0x427 - exp;
          sig = (if 0 < shiftDist then softfloat_shiftRightJam64 sig (word_of_int shiftDist) else sig)
      in softfloat_roundToI32 sign sig roundingMode exact st)"

definition f64_to_ui32 :: "float64_t \<Rightarrow> u8 \<Rightarrow> bool \<Rightarrow> sf_state \<Rightarrow> u64 \<times> sf_state" where
  "f64_to_ui32 a roundingMode exact st =
     (let uiA = ucast a :: u64;
          sign = signF64UI uiA; exp = expF64UI uiA; sig = fracF64UI uiA;
          sign = (if exp = 0x7FF \<and> sig \<noteq> 0 then False else sign);
          sig = (if exp \<noteq> 0 then sig OR 0x0010000000000000 else sig);
          shiftDist = 0x427 - exp;
          sig = (if 0 < shiftDist then softfloat_shiftRightJam64 sig (word_of_int shiftDist) else sig)
      in softfloat_roundToUI32 sign sig roundingMode exact st)"

definition f32_to_i64 :: "float32_t \<Rightarrow> u8 \<Rightarrow> bool \<Rightarrow> sf_state \<Rightarrow> int \<times> sf_state" where
  "f32_to_i64 a roundingMode exact st =
     (let uiA = ucast a :: u64;
          sign = signF32UI uiA; exp = expF32UI uiA; sig = fracF32UI uiA;
          shiftDist = 0xBE - exp
      in if shiftDist < 0 then
              (if exp = 0xFF \<and> sig \<noteq> 0 then i64_fromNaN else if sign then i64_fromNegOverflow else i64_fromPosOverflow,
               softfloat_raiseFlags softfloat_flag_invalid st)
         else let sig = (if exp \<noteq> 0 then sig OR 0x00800000 else sig);
                  sig64 = push_bit 40 sig;
                  sig64Extra = (if shiftDist \<noteq> 0 then softfloat_shiftRightJam64Extra sig64 0 (word_of_int shiftDist)
                                else \<lparr>x64_v = sig64, x64_extra = 0\<rparr>)
              in softfloat_roundToI64 sign (x64_v sig64Extra) (x64_extra sig64Extra) roundingMode exact st)"

definition f64_to_i64 :: "float64_t \<Rightarrow> u8 \<Rightarrow> bool \<Rightarrow> sf_state \<Rightarrow> int \<times> sf_state" where
  "f64_to_i64 a roundingMode exact st =
     (let uiA = ucast a :: u64;
          sign = signF64UI uiA; exp = expF64UI uiA; sig = fracF64UI uiA;
          sig = (if exp \<noteq> 0 then sig OR 0x0010000000000000 else sig);
          shiftDist = 0x433 - exp
      in if shiftDist < - 11 then
              (if exp = 0x7FF \<and> fracF64UI uiA \<noteq> 0 then i64_fromNaN else if sign then i64_fromNegOverflow else i64_fromPosOverflow,
               softfloat_raiseFlags softfloat_flag_invalid st)
         else let sigExtra = (if shiftDist \<le> 0 then \<lparr>x64_v = push_bit (nat (- shiftDist)) sig, x64_extra = 0\<rparr>
                              else softfloat_shiftRightJam64Extra sig 0 (word_of_int shiftDist))
              in softfloat_roundToI64 sign (x64_v sigExtra) (x64_extra sigExtra) roundingMode exact st)"

definition f32_to_ui64 :: "float32_t \<Rightarrow> u8 \<Rightarrow> bool \<Rightarrow> sf_state \<Rightarrow> u64 \<times> sf_state" where
  "f32_to_ui64 a roundingMode exact st =
     (let uiA = ucast a :: u64;
          sign = signF32UI uiA; exp = expF32UI uiA; sig = fracF32UI uiA;
          shiftDist = 0xBE - exp
      in if shiftDist < 0 then
              (if exp = 0xFF \<and> sig \<noteq> 0 then ui64_fromNaN else if sign then ui64_fromNegOverflow else ui64_fromPosOverflow,
               softfloat_raiseFlags softfloat_flag_invalid st)
         else let sig = (if exp \<noteq> 0 then sig OR 0x00800000 else sig);
                  sig64 = push_bit 40 sig;
                  sig64Extra = (if shiftDist \<noteq> 0 then softfloat_shiftRightJam64Extra sig64 0 (word_of_int shiftDist)
                                else \<lparr>x64_v = sig64, x64_extra = 0\<rparr>)
              in softfloat_roundToUI64 sign (x64_v sig64Extra) (x64_extra sig64Extra) roundingMode exact st)"

definition f64_to_ui64 :: "float64_t \<Rightarrow> u8 \<Rightarrow> bool \<Rightarrow> sf_state \<Rightarrow> u64 \<times> sf_state" where
  "f64_to_ui64 a roundingMode exact st =
     (let uiA = ucast a :: u64;
          sign = signF64UI uiA; exp = expF64UI uiA; sig = fracF64UI uiA;
          sig = (if exp \<noteq> 0 then sig OR 0x0010000000000000 else sig);
          shiftDist = 0x433 - exp
      in if shiftDist < - 11 then
              (if exp = 0x7FF \<and> fracF64UI uiA \<noteq> 0 then ui64_fromNaN else if sign then ui64_fromNegOverflow else ui64_fromPosOverflow,
               softfloat_raiseFlags softfloat_flag_invalid st)
         else let sigExtra = (if shiftDist \<le> 0 then \<lparr>x64_v = push_bit (nat (- shiftDist)) sig, x64_extra = 0\<rparr>
                              else softfloat_shiftRightJam64Extra sig 0 (word_of_int shiftDist))
              in softfloat_roundToUI64 sign (x64_v sigExtra) (x64_extra sigExtra) roundingMode exact st)"

definition f16_to_i8 :: "float16_t \<Rightarrow> u8 \<Rightarrow> bool \<Rightarrow> sf_state \<Rightarrow> int \<times> sf_state" where
  "f16_to_i8 a roundingMode exact st =
     (let old_flags = softfloat_exceptionFlags st;
          (sig32, st) = f16_to_i32 a roundingMode exact st
      in if 0x7F < sig32
         then (i8_fromPosOverflow, st\<lparr>softfloat_exceptionFlags := old_flags OR softfloat_flag_invalid\<rparr>)
         else if sig32 < - 0x80
         then (i8_fromNegOverflow, st\<lparr>softfloat_exceptionFlags := old_flags OR softfloat_flag_invalid\<rparr>)
         else (sig32, st))"

definition f16_to_i16 :: "float16_t \<Rightarrow> u8 \<Rightarrow> bool \<Rightarrow> sf_state \<Rightarrow> int \<times> sf_state" where
  "f16_to_i16 a roundingMode exact st =
     (let old_flags = softfloat_exceptionFlags st;
          (sig32, st) = f16_to_i32 a roundingMode exact st
      in if 0x7FFF < sig32
         then (i16_fromPosOverflow, st\<lparr>softfloat_exceptionFlags := old_flags OR softfloat_flag_invalid\<rparr>)
         else if sig32 < - 0x8000
         then (i16_fromNegOverflow, st\<lparr>softfloat_exceptionFlags := old_flags OR softfloat_flag_invalid\<rparr>)
         else (sig32, st))"

definition f32_to_i16 :: "float32_t \<Rightarrow> u8 \<Rightarrow> bool \<Rightarrow> sf_state \<Rightarrow> int \<times> sf_state" where
  "f32_to_i16 a roundingMode exact st =
     (let old_flags = softfloat_exceptionFlags st;
          (sig32, st) = f32_to_i32 a roundingMode exact st
      in if 0x7FFF < sig32
         then (i16_fromPosOverflow, st\<lparr>softfloat_exceptionFlags := old_flags OR softfloat_flag_invalid\<rparr>)
         else if sig32 < - 0x8000
         then (i16_fromNegOverflow, st\<lparr>softfloat_exceptionFlags := old_flags OR softfloat_flag_invalid\<rparr>)
         else (sig32, st))"

definition f16_to_ui8 :: "float16_t \<Rightarrow> u8 \<Rightarrow> bool \<Rightarrow> sf_state \<Rightarrow> u64 \<times> sf_state" where
  "f16_to_ui8 a roundingMode exact st =
     (let old_flags = softfloat_exceptionFlags st;
          (sig32, st) = f16_to_ui32 a roundingMode exact st
      in if 0xFF < sig32
         then (ui8_fromPosOverflow, st\<lparr>softfloat_exceptionFlags := old_flags OR softfloat_flag_invalid\<rparr>)
         else (sig32, st))"

definition f16_to_ui16 :: "float16_t \<Rightarrow> u8 \<Rightarrow> bool \<Rightarrow> sf_state \<Rightarrow> u64 \<times> sf_state" where
  "f16_to_ui16 a roundingMode exact st =
     (let old_flags = softfloat_exceptionFlags st;
          (sig32, st) = f16_to_ui32 a roundingMode exact st
      in if 0xFFFF < sig32
         then (ui16_fromPosOverflow, st\<lparr>softfloat_exceptionFlags := old_flags OR softfloat_flag_invalid\<rparr>)
         else (sig32, st))"

definition f32_to_ui16 :: "float32_t \<Rightarrow> u8 \<Rightarrow> bool \<Rightarrow> sf_state \<Rightarrow> u64 \<times> sf_state" where
  "f32_to_ui16 a roundingMode exact st =
     (let old_flags = softfloat_exceptionFlags st;
          (sig32, st) = f32_to_ui32 a roundingMode exact st
      in if 0xFFFF < sig32
         then (ui16_fromPosOverflow, st\<lparr>softfloat_exceptionFlags := old_flags OR softfloat_flag_invalid\<rparr>)
         else (sig32, st))"

section \<open>The specification\<close>

text \<open>
  The integer conversions do not implement rounding to odd: that mode truncates, as every mode
  outside the enumeration does.
\<close>

definition int_rmode :: "u8 \<Rightarrow> rmode" where
  "int_rmode m = (case rmode_of m of ROD \<Rightarrow> RTZ | r \<Rightarrow> r)"

definition limit_result :: "int \<Rightarrow> int \<Rightarrow> bool \<Rightarrow> sf_state \<Rightarrow> nat \<Rightarrow> bool \<Rightarrow> bool \<Rightarrow> int \<times> sf_state" where
  "limit_result lo hi exact st q inexact s =
     (let z = (if s then - int q else int q)
      in if z < lo then (lo, softfloat_raiseFlags softfloat_flag_invalid st)
         else if hi < z then (hi, softfloat_raiseFlags softfloat_flag_invalid st)
         else (z, if exact \<and> inexact then softfloat_raiseFlags softfloat_flag_inexact st else st))"

definition to_int :: "int \<Rightarrow> int \<Rightarrow> rmode \<Rightarrow> bool \<Rightarrow> sf_state \<Rightarrow> bool \<Rightarrow> nat \<Rightarrow> int \<Rightarrow> int \<times> sf_state" where
  "to_int lo hi m exact st s n e = limit_result lo hi exact st (rscale m s n (- e)) (\<not> rexact n (- e)) s"

fun fp_to_int :: "int \<Rightarrow> int \<Rightarrow> rmode \<Rightarrow> bool \<Rightarrow> sf_state \<Rightarrow> fp \<Rightarrow> int \<times> sf_state" where
  "fp_to_int lo hi m exact st (NaN s) = (hi, softfloat_raiseFlags softfloat_flag_invalid st)"
| "fp_to_int lo hi m exact st (Inf s) = (if s then lo else hi, softfloat_raiseFlags softfloat_flag_invalid st)"
| "fp_to_int lo hi m exact st (Fin s n e) = to_int lo hi m exact st s n e"


section \<open>Facts on the specification\<close>

lemma limit_result_signed:
  "limit_result (- (2 ^ k)) (2 ^ k - 1) exact st q ix s =
    (if (if s then q \<le> 2 ^ k else q < 2 ^ k)
     then (if s then - int q else int q, if exact \<and> ix then softfloat_raiseFlags softfloat_flag_inexact st else st)
     else (if s then - (2 ^ k) else 2 ^ k - 1, softfloat_raiseFlags softfloat_flag_invalid st))"
proof -
  define K where "K = (2 :: int) ^ k"
  have c: "q \<le> 2 ^ k \<longleftrightarrow> int q \<le> K" "q < 2 ^ k \<longleftrightarrow> int q < K"
    unfolding K_def by (simp_all flip: of_nat_le_iff of_nat_less_iff)
  have "0 < K" by (simp add: K_def)
  then show ?thesis unfolding limit_result_def Let_def c K_def [symmetric] by (cases s) auto
qed

lemma limit_result_unsigned:
  "limit_result 0 (2 ^ k - 1) exact st q ix s =
    (if (if s then q = 0 else q < 2 ^ k)
     then (int q, if exact \<and> ix then softfloat_raiseFlags softfloat_flag_inexact st else st)
     else (if s then 0 else 2 ^ k - 1, softfloat_raiseFlags softfloat_flag_invalid st))"
proof -
  define K where "K = (2 :: int) ^ k"
  have c: "q < 2 ^ k \<longleftrightarrow> int q < K"
    unfolding K_def by (simp flip: of_nat_less_iff)
  have "0 < K" by (simp add: K_def)
  then show ?thesis unfolding limit_result_def Let_def c K_def [symmetric] by (cases s) auto
qed

lemma to_int_double: "to_int lo hi m exact st s (n * 2 ^ k) (e - int k) = to_int lo hi m exact st s n e"
proof -
  have "- (e - int k) = - e + int k" by simp
  then show ?thesis by (simp only: to_int_def rscale_double rexact_double)
qed

lemma to_int_jam:
  assumes "int k + e \<le> - 2"
  shows "to_int lo hi m exact st s (jam n (2 ^ k)) (e + int k) = to_int lo hi m exact st s n e"
proof -
  have "rscale m s (jam n (2 ^ k)) (- e - int k) = rscale m s n (- e)"
    "rexact (jam n (2 ^ k)) (- e - int k) = rexact n (- e)"
    using assms by (intro rscale_jam rexact_jam; simp)+
  then show ?thesis by (simp add: to_int_def)
qed

text \<open>Every nonzero value below one half rounds alike.\<close>

lemma to_int_tiny:
  assumes "0 < n" "int (bitlen n) + e \<le> - 1"
  shows "to_int lo hi m exact st s n e = to_int lo hi m exact st s 1 (- 2)"
proof -
  define k where "k = nat (- e - 1)"
  have k: "- e = int (Suc k)" "bitlen n \<le> k" using assms(2) by (simp_all add: k_def)
  have "n < 2 ^ k" using k(2) by (simp only: bitlen_le_iff)
  then have lt: "2 * n < 2 ^ Suc k" by simp
  then have dm: "n div 2 ^ Suc k = 0" "n mod 2 ^ Suc k = n" by (simp_all del: power_Suc)
  have "rscale m s n (- e) = of_bool (round_up m s 0 n (2 ^ Suc k))"
    unfolding k(1) rscale_def rdiv_def nat_int dm by (simp del: power_Suc)
  also have "\<dots> = of_bool (round_up m s 0 1 4)"
    using lt assms(1) by (simp add: round_up_def del: power_Suc split: rmode.split)
  also have "\<dots> = rscale m s 1 2" by (simp add: rscale_def rdiv_def)
  finally have "rscale m s n (- e) = rscale m s 1 2" .
  moreover have "\<not> rexact n (- e)" unfolding k(1) rexact_def nat_int dm using assms(1) by (simp del: power_Suc)
  moreover have "\<not> rexact 1 2" by (simp add: rexact_def)
  ultimately show ?thesis by (simp add: to_int_def)
qed

lemma rscale_upper: "rscale m s n j \<le> n * 2 ^ nat (- j) + 1"
proof (cases "j \<le> 0")
  case False
  have "rdiv m s n (2 ^ nat j) \<le> Suc n"
    using rdiv_bounds(2) [of m s n "2 ^ nat j"] div_le_dividend [of n "2 ^ nat j"] by (rule order.trans [OF _ Suc_leI [OF le_imp_less_Suc]])
  then show ?thesis using False by (simp add: rscale_def)
qed (simp add: rscale_def)

text \<open>The limits do not matter to a value within them.\<close>

lemma to_int_wider:
  assumes "n * 2 ^ nat e + 1 \<le> B"
  shows "int B \<le> hi \<Longrightarrow> int B \<le> hi' \<Longrightarrow> lo \<le> - int B \<Longrightarrow> lo' \<le> - int B \<Longrightarrow>
      to_int lo hi m exact st s n e = to_int lo' hi' m exact st s n e"
    "int B \<le> hi \<Longrightarrow> int B \<le> hi' \<Longrightarrow> to_int 0 hi m exact st s n e = to_int 0 hi' m exact st s n e"
proof -
  have "rscale m s n (- e) \<le> B" using rscale_upper [of m s n "- e"] assms by simp
  then have b: "int (rscale m s n (- e)) \<le> int B" by simp
  show "int B \<le> hi \<Longrightarrow> int B \<le> hi' \<Longrightarrow> lo \<le> - int B \<Longrightarrow> lo' \<le> - int B \<Longrightarrow>
      to_int lo hi m exact st s n e = to_int lo' hi' m exact st s n e"
    "int B \<le> hi \<Longrightarrow> int B \<le> hi' \<Longrightarrow> to_int 0 hi m exact st s n e = to_int 0 hi' m exact st s n e"
    using b unfolding to_int_def limit_result_def Let_def by (cases s; auto)+
qed

lemma rscale_reaches:
  assumes "2 ^ h * 2 ^ nat j \<le> n * 2 ^ nat (- j)"
  shows "2 ^ h \<le> rscale m s n j"
proof (cases "j \<le> 0")
  case True
  then show ?thesis using assms by (simp add: rscale_def)
next
  case False
  then have "2 ^ h * 2 ^ nat j \<le> n" using assms by simp
  then have "2 ^ h \<le> n div 2 ^ nat j" by (simp add: less_eq_div_iff_mult_less_eq)
  also have "\<dots> \<le> rdiv m s n (2 ^ nat j)" by (rule rdiv_bounds)
  finally show ?thesis using False by (simp add: rscale_def)
qed

lemma to_int_overflow:
  assumes "2 ^ h * 2 ^ nat (- e) \<le> n * 2 ^ nat e" "- (2 ^ h) < lo" "hi < 2 ^ h" "lo \<le> hi"
  shows "to_int lo hi m exact st s n e = (if s then lo else hi, softfloat_raiseFlags softfloat_flag_invalid st)"
proof -
  define K r where "K = (2 :: int) ^ h" and "r = rscale m s n (- e)"
  have "2 ^ h \<le> r" unfolding r_def using rscale_reaches [of h "- e" n m s] assms(1) by simp
  then have "K \<le> int r" unfolding K_def by (simp flip: of_nat_le_iff)
  then show ?thesis
    using assms(2-4) unfolding to_int_def limit_result_def Let_def K_def [symmetric] r_def [symmetric]
    by (cases s) auto
qed

lemma to_int_zero: "lo \<le> 0 \<Longrightarrow> 0 \<le> hi \<Longrightarrow> to_int lo hi m exact st s 0 e = (0, st)"
  by (simp add: to_int_def limit_result_def rscale_def rexact_def)

section \<open>The rounding routines\<close>

lemma int_rmode_simps:
  "round_inc (int_rmode mode) s D = round_inc (rmode_of mode) s D" "int_rmode mode \<noteq> ROD"
  "int_rmode mode = RNE \<longleftrightarrow> mode = softfloat_round_near_even"
  by (auto simp: int_rmode_def round_inc_def rmode_of_def)

lemma round12:
  fixes sig :: u64 and mode :: u8 and s :: bool
  assumes "unat sig < 2 ^ 63"
  defines "inc \<equiv> (if \<not> mode = softfloat_round_near_even \<and> mode \<noteq> softfloat_round_near_maxMag
            then if mode = (if s then softfloat_round_min else softfloat_round_max) then 0xFFF else 0
            else 0x800)"
    and "R \<equiv> rdiv (int_rmode mode) s (unat sig) (2 ^ 12)"
  shows "(sig + inc) AND 0xFFFFF00000000000 \<noteq> 0 \<longleftrightarrow> 2 ^ 32 \<le> R"
    "unat (drop_bit 12 (sig + inc) AND
      NOT (of_bool (\<not> ((sig AND 0xFFF) XOR 0x800 \<noteq> 0) \<and> mode = softfloat_round_near_even))) = R"
    "sig AND 0xFFF \<noteq> 0 \<longleftrightarrow> \<not> rexact (unat sig) 12"
proof -
  define q where "q = (unat sig + unat inc) div 2 ^ 12"
  have i: "unat inc = round_inc (int_rmode mode) s (2 ^ 12)"
    unfolding inc_def int_rmode_simps nat_code_increment by simp
  have "unat inc < 2 ^ 12" unfolding i by (rule round_inc_less) simp
  then have sum: "unat (sig + inc) = unat sig + unat inc" using assms(1) by (simp add: unat_word_ariths)
  have lo: "unat (sig AND 0xFFF) = unat sig mod 2 ^ 12" by (simp add: unat_conj bits_nat)
  have tie: "\<not> ((sig AND 0xFFF) XOR 0x800 \<noteq> 0) \<longleftrightarrow> 2 * (unat sig mod 2 ^ 12) = 2 ^ 12"
    unfolding xor_eq_0 not_not by (unfold word_eq_nat lo) auto
  have R: "R = (if mode = softfloat_round_near_even \<and> 2 * (unat sig mod 2 ^ 12) = 2 ^ 12 then q - of_bool (odd q) else q)"
    unfolding R_def q_def i by (subst rdiv_by_add) (simp_all add: int_rmode_simps)
  show "unat (drop_bit 12 (sig + inc) AND
      NOT (of_bool (\<not> ((sig AND 0xFFF) XOR 0x800 \<noteq> 0) \<and> mode = softfloat_round_near_even))) = R"
    unfolding unat_and_not_truth unat_drop sum tie q_def [symmetric] R by auto
  have "unat ((sig + inc) AND 0xFFFFF00000000000) = (unat (sig + inc) div 2 ^ 44 AND (2 ^ 20 - 1)) * 2 ^ 44"
    using and_high_mask [of "unat (sig + inc)" "2 ^ 20 - 1" 44] by (simp add: unat_conj)
  also have "unat (sig + inc) div 2 ^ 44 AND (2 ^ 20 - 1) = unat (sig + inc) div 2 ^ 44"
  proof -
    have "unat (sig + inc) div 2 ^ 44 < 2 ^ 20" using unat_lt_64 [of "sig + inc"] by (simp add: less_mult_imp_div_less)
    then show ?thesis using and_mask_num [of 20 "2 ^ 20 - 1" "unat (sig + inc) div 2 ^ 44"] by simp
  qed
  also have "unat (sig + inc) div 2 ^ 44 = q div 2 ^ 32" by (simp add: q_def sum div_mult2_eq [symmetric])
  finally have "(sig + inc) AND 0xFFFFF00000000000 \<noteq> 0 \<longleftrightarrow> q div 2 ^ 32 \<noteq> 0" by (simp add: word_eq_nat)
  also have "\<dots> \<longleftrightarrow> 2 ^ 32 \<le> q" by (auto simp: div_eq_0_iff)
  also have "\<dots> \<longleftrightarrow> 2 ^ 32 \<le> R"
  proof -
    have "odd q \<Longrightarrow> 2 ^ 32 \<le> q \<Longrightarrow> 2 ^ 32 \<le> q - 1"
      by (metis Suc_leI Suc_pred' dvd_power even_Suc le_neq_implies_less not_less_eq_eq odd_pos order.strict_trans2 zero_less_numeral)
    then show ?thesis unfolding R by auto
  qed
  finally show "(sig + inc) AND 0xFFFFF00000000000 \<noteq> 0 \<longleftrightarrow> 2 ^ 32 \<le> R" .
  show "sig AND 0xFFF \<noteq> 0 \<longleftrightarrow> \<not> rexact (unat sig) 12" by (simp add: word_eq_nat lo rexact_def)
qed

lemma cast_of_int: "(ucast (word_of_int i :: u64) :: u32) = word_of_int i"
proof -
  have "(2 :: int) ^ 32 dvd 2 ^ 64" by (intro le_imp_power_dvd) simp
  then have "i mod 2 ^ 64 mod 2 ^ 32 = i mod 2 ^ 32" by (rule mod_mod_cancel)
  moreover have "nat (i mod 2 ^ 64) mod 2 ^ 32 = nat (i mod 2 ^ 64 mod 2 ^ 32)" by (simp add: nat_mod_distrib)
  ultimately show ?thesis unfolding word_eq_nat unat_cast unat_of_int by simp
qed

text \<open>A magnitude below \<open>2 ^ (k + 1)\<close>, negated or not, read as a two's complement number of \<open>k + 1\<close> bits.\<close>

lemma signed_read:
  fixes r :: "int \<Rightarrow> int" and s :: bool and q k :: nat
  assumes small: "\<And>i. - (2 ^ k) \<le> i \<Longrightarrow> i < 2 ^ k \<Longrightarrow> r i = i" and wrap: "\<And>i. r (i + 2 * 2 ^ k) = r i"
    and q: "int q < 2 * 2 ^ k"
  defines "z \<equiv> r (if s then - int q else int q)"
  shows "z \<noteq> 0 \<and> ((z < 0) \<noteq> s) \<longleftrightarrow> \<not> (if s then q \<le> 2 ^ k else q < 2 ^ k)"
    "(if s then q \<le> 2 ^ k else q < 2 ^ k) \<Longrightarrow> z = (if s then - int q else int q)"
proof -
  define K where "K = (2 :: int) ^ k"
  have c: "q \<le> 2 ^ k \<longleftrightarrow> int q \<le> K" "q < 2 ^ k \<longleftrightarrow> int q < K"
    unfolding K_def by (simp_all flip: of_nat_le_iff of_nat_less_iff)
  note sm = small [folded K_def] and wr = wrap [folded K_def]
  have K: "0 < K" "int q < 2 * K" using q by (simp_all add: K_def)
  consider (neg) "s" "int q \<le> K" | (neg') "s" "K < int q" | (pos) "\<not> s" "int q < K" | (pos') "\<not> s" "K \<le> int q"
    by linarith
  then show "z \<noteq> 0 \<and> ((z < 0) \<noteq> s) \<longleftrightarrow> \<not> (if s then q \<le> 2 ^ k else q < 2 ^ k)"
    unfolding c
  proof cases
    case neg
    then have "z = - int q" using K by (simp add: z_def sm)
    then show "(z \<noteq> 0 \<and> ((z < 0) \<noteq> s)) = (\<not> (if s then int q \<le> K else int q < K))" using neg by auto
  next
    case neg'
    then have "z = 2 * K - int q" using K sm [of "2 * K - int q"] wr [of "- int q"] by (simp add: z_def)
    then show "(z \<noteq> 0 \<and> ((z < 0) \<noteq> s)) = (\<not> (if s then int q \<le> K else int q < K))" using neg' K by auto
  next
    case pos
    then have "z = int q" using K by (simp add: z_def sm)
    then show "(z \<noteq> 0 \<and> ((z < 0) \<noteq> s)) = (\<not> (if s then int q \<le> K else int q < K))" using pos by auto
  next
    case pos'
    then have "z = int q - 2 * K" using K sm [of "int q - 2 * K"] wr [of "int q - 2 * K"] by (simp add: z_def)
    then show "(z \<noteq> 0 \<and> ((z < 0) \<noteq> s)) = (\<not> (if s then int q \<le> K else int q < K))" using pos' K by auto
  qed
  assume "if s then q \<le> 2 ^ k else q < 2 ^ k"
  then have "- K \<le> (if s then - int q else int q)" "(if s then - int q else int q) < K"
    unfolding c using K by (auto split: if_splits)
  then show "z = (if s then - int q else int q)" unfolding z_def by (rule sm)
qed

lemma signed_word_32:
  fixes w :: u64 and s :: bool and q :: nat
  assumes "unat w = q" "q < 2 ^ 32"
  defines "z \<equiv> sint (ucast (if s then - w else w) :: u32)"
  shows "z \<noteq> 0 \<and> ((z < 0) \<noteq> s) \<longleftrightarrow> \<not> (if s then q \<le> 2 ^ 31 else q < 2 ^ 31)"
    "(if s then q \<le> 2 ^ 31 else q < 2 ^ 31) \<Longrightarrow> z = (if s then - int q else int q)"
proof -
  have w: "w = word_of_int (int q)" by (simp flip: assms(1))
  have "(if s then - w else w) = word_of_int (if s then - int q else int q)" by (simp add: w)
  then have z: "z = sint (word_of_int (if s then - int q else int q) :: u32)" by (simp only: z_def cast_of_int)
  have "int q < 2 * 2 ^ 31" using assms(2) by simp
  have wrap: "sint (word_of_int (i + 2 * 2 ^ 31) :: u32) = sint (word_of_int i :: u32)" for i
  proof -
    have "(word_of_int (i + 2 * 2 ^ 31) :: u32) = word_of_int i + word_of_int (2 * 2 ^ 31)" by (rule of_int_add)
    moreover have "(word_of_int (2 * 2 ^ 31) :: u32) = 0" by simp
    ultimately show ?thesis by (simp only: add_0_right)
  qed
  note sr = signed_read [of 31 "\<lambda>i. sint (word_of_int i :: u32)", OF sint_small_32 wrap \<open>int q < 2 * 2 ^ 31\<close>, of s]
  show "z \<noteq> 0 \<and> ((z < 0) \<noteq> s) \<longleftrightarrow> \<not> (if s then q \<le> 2 ^ 31 else q < 2 ^ 31)"
    unfolding z by (rule sr(1))
  show "(if s then q \<le> 2 ^ 31 else q < 2 ^ 31) \<Longrightarrow> z = (if s then - int q else int q)"
    unfolding z by (rule sr(2))
qed

lemma signed_word_64:
  fixes w :: u64 and s :: bool and q :: nat
  assumes "unat w = q"
  defines "z \<equiv> sint (if s then - w else w)"
  shows "z \<noteq> 0 \<and> ((z < 0) \<noteq> s) \<longleftrightarrow> \<not> (if s then q \<le> 2 ^ 63 else q < 2 ^ 63)"
    "(if s then q \<le> 2 ^ 63 else q < 2 ^ 63) \<Longrightarrow> z = (if s then - int q else int q)"
proof -
  have w: "w = word_of_int (int q)" by (simp flip: assms(1))
  have "(if s then - w else w) = word_of_int (if s then - int q else int q)" by (simp add: w)
  then have z: "z = sint (word_of_int (if s then - int q else int q) :: u64)" by (simp only: z_def)
  have "int q < 2 * 2 ^ 63" using assms(1) unat_lt_64 [of w] by simp
  have wrap: "sint (word_of_int (i + 2 * 2 ^ 63) :: u64) = sint (word_of_int i :: u64)" for i
  proof -
    have "(word_of_int (i + 2 * 2 ^ 63) :: u64) = word_of_int i + word_of_int (2 * 2 ^ 63)" by (rule of_int_add)
    moreover have "(word_of_int (2 * 2 ^ 63) :: u64) = 0" by simp
    ultimately show ?thesis by (simp only: add_0_right)
  qed
  note sr = signed_read [of 63 "\<lambda>i. sint (word_of_int i :: u64)", OF sint_small_64 wrap \<open>int q < 2 * 2 ^ 63\<close>, of s]
  show "z \<noteq> 0 \<and> ((z < 0) \<noteq> s) \<longleftrightarrow> \<not> (if s then q \<le> 2 ^ 63 else q < 2 ^ 63)"
    unfolding z by (rule sr(1))
  show "(if s then q \<le> 2 ^ 63 else q < 2 ^ 63) \<Longrightarrow> z = (if s then - int q else int q)"
    unfolding z by (rule sr(2))
qed

lemma roundToI32_int:
  assumes "unat sig < 2 ^ 63"
  shows "softfloat_roundToI32 sign sig mode exact st =
    to_int (- (2 ^ 31)) (2 ^ 31 - 1) (int_rmode mode) exact st sign (unat sig) (- 12)"
proof -
  define R where "R = rdiv (int_rmode mode) sign (unat sig) (2 ^ 12)"
  note r = round12(1,2) [OF assms, where mode = mode and s = sign, folded R_def] round12(3) [OF assms]
  have j: "rscale (int_rmode mode) sign (unat sig) (- (- 12)) = R" by (simp add: rscale_def R_def)
  show ?thesis
  proof (cases "2 ^ 32 \<le> R")
    case True
    then have "\<not> (if sign then R \<le> 2 ^ 31 else R < 2 ^ 31)" by simp
    then show ?thesis
      using r(1) True unfolding softfloat_roundToI32_def Let_def to_int_def limit_result_signed j
      by (simp add: i32_fromNegOverflow_def i32_fromPosOverflow_def)
  next
    case False
    then have "R < 2 ^ 32" by simp
    define w where "w = drop_bit 12 (sig + (if \<not> mode = softfloat_round_near_even \<and> mode \<noteq> softfloat_round_near_maxMag
            then if mode = (if sign then softfloat_round_min else softfloat_round_max) then 0xFFF else 0
            else 0x800)) AND
      NOT (of_bool (\<not> ((sig AND 0xFFF) XOR 0x800 \<noteq> 0) \<and> mode = softfloat_round_near_even))"
    define z where "z = sint (ucast (if sign then - w else w) :: u32)"
    note z = signed_word_32 [OF r(2) \<open>R < 2 ^ 32\<close>, of sign, folded w_def, folded z_def]
    show ?thesis
      using r(1) False
      unfolding softfloat_roundToI32_def Let_def to_int_def limit_result_signed j w_def [symmetric] z_def [symmetric] z(1)
      by (cases "if sign then R \<le> 2 ^ 31 else R < 2 ^ 31")
         (simp_all only: z(2) r(3) i32_fromNegOverflow_def i32_fromPosOverflow_def if_True if_False not_not simp_thms, simp_all)
  qed
qed

text \<open>Unsigned results are compared as integers.\<close>

definition uints :: "u64 \<times> sf_state \<Rightarrow> int \<times> sf_state" where
  "uints r = (uint (fst r), snd r)"

lemma roundToUI32_int:
  assumes "unat sig < 2 ^ 63"
  shows "uints (softfloat_roundToUI32 sign sig mode exact st) =
    to_int 0 (2 ^ 32 - 1) (int_rmode mode) exact st sign (unat sig) (- 12)"
proof -
  define R where "R = rdiv (int_rmode mode) sign (unat sig) (2 ^ 12)"
  note r = round12(1,2) [OF assms, where mode = mode and s = sign, folded R_def] round12(3) [OF assms]
  have j: "rscale (int_rmode mode) sign (unat sig) (- (- 12)) = R" by (simp add: rscale_def R_def)
  show ?thesis
  proof (cases "2 ^ 32 \<le> R")
    case True
    then show ?thesis
      using r(1) unfolding softfloat_roundToUI32_def Let_def to_int_def limit_result_unsigned j uints_def
      by (simp add: ui32_fromNegOverflow_def ui32_fromPosOverflow_def)
  next
    case False
    define z where "z = drop_bit 12 (sig + (if \<not> mode = softfloat_round_near_even \<and> mode \<noteq> softfloat_round_near_maxMag
            then if mode = (if sign then softfloat_round_min else softfloat_round_max) then 0xFFF else 0
            else 0x800)) AND
      NOT (of_bool (\<not> ((sig AND 0xFFF) XOR 0x800 \<noteq> 0) \<and> mode = softfloat_round_near_even))"
    have "unat z = R" using r(2) unfolding z_def .
    then have z: "uint z = int R" "z = 0 \<longleftrightarrow> R = 0" by (simp_all add: uint_nat word_eq_nat)
    show ?thesis
      using r(1) False unfolding softfloat_roundToUI32_def Let_def to_int_def limit_result_unsigned j uints_def z_def [symmetric]
      by (cases sign; cases "R = 0") (simp_all add: z r(3) ui32_fromNegOverflow_def)
  qed
qed

lemma round_extra:
  fixes sig x :: u64 and mode :: u8 and s :: bool
  assumes x: "extra_tells x r d"
  defines "inc \<equiv> (if \<not> mode = softfloat_round_near_even \<and> mode \<noteq> softfloat_round_near_maxMag
            then mode = (if s then softfloat_round_min else softfloat_round_max) \<and> x \<noteq> 0
            else 0x8000000000000000 \<le> x)"
    and "R \<equiv> unat sig + of_bool (round_up (int_rmode mode) s (unat sig) r d)"
  shows "inc \<and> sig + 1 = 0 \<longleftrightarrow> R = 2 ^ 64"
    "R \<noteq> 2 ^ 64 \<Longrightarrow> unat (if inc
        then (sig + 1) AND NOT (of_bool (\<not> (x AND 0x7FFFFFFFFFFFFFFF \<noteq> 0) \<and> mode = softfloat_round_near_even))
        else sig) = R"
proof -
  have x0: "x = 0 \<longleftrightarrow> r = 0" and xh: "0x8000000000000000 \<le> x \<longleftrightarrow> d \<le> 2 * r" and xt: "unat x = 2 ^ 63 \<longleftrightarrow> 2 * r = d"
    using x by (simp_all add: extra_tells_def word_le_nat_alt)
  have tie: "\<not> (x AND 0x7FFFFFFFFFFFFFFF \<noteq> 0) \<longleftrightarrow> x = 0 \<or> unat x = 2 ^ 63"
  proof -
    have "unat (x AND 0x7FFFFFFFFFFFFFFF) = unat x mod 2 ^ 63" by (simp add: unat_conj bits_nat)
    moreover have "unat x mod 2 ^ 63 = 0 \<longleftrightarrow> unat x = 0 \<or> unat x = 2 ^ 63"
      using unat_lt_64 [of x] by (auto elim!: dvdE)
    ultimately show ?thesis by (simp only: word_eq_nat unat_0 not_not)
  qed
  have up: "round_up (int_rmode mode) s (unat sig) r d \<longleftrightarrow>
      inc \<and> \<not> (mode = softfloat_round_near_even \<and> 2 * r = d \<and> even (unat sig))"
    unfolding inc_def x0 xh by (auto simp: int_rmode_def rmode_of_def round_up_def)
  have top: "sig + 1 = 0 \<longleftrightarrow> unat sig = 2 ^ 64 - 1"
  proof -
    have "sig + 1 = 0 \<longleftrightarrow> sig = - 1" by (simp only: eq_neg_iff_add_eq_0)
    also have "\<dots> \<longleftrightarrow> unat sig = unat (- 1 :: u64)" by (rule word_eq_nat)
    also have "unat (- 1 :: u64) = 2 ^ 64 - 1" by (simp add: unsigned_minus_1_eq_mask mask_eq_exp_minus_1)
    finally show ?thesis .
  qed
  show ov: "inc \<and> sig + 1 = 0 \<longleftrightarrow> R = 2 ^ 64"
    unfolding R_def top up using unat_lt_64 [of sig] by auto
  assume "R \<noteq> 2 ^ 64"
  then have n: "inc \<Longrightarrow> sig + 1 \<noteq> 0" using ov by blast
  show "unat (if inc
        then (sig + 1) AND NOT (of_bool (\<not> (x AND 0x7FFFFFFFFFFFFFFF \<noteq> 0) \<and> mode = softfloat_round_near_even))
        else sig) = R"
  proof (cases inc)
    case True
    then have s: "unat (sig + 1) = unat sig + 1"
      using n unat_lt_64 [of sig] top by (simp add: unat_word_ariths)
    have "mode = softfloat_round_near_even \<Longrightarrow> d \<le> 2 * r" using True by (simp add: inc_def xh)
    then have e: "(\<not> (x AND 0x7FFFFFFFFFFFFFFF \<noteq> 0) \<and> mode = softfloat_round_near_even) =
        (2 * r = d \<and> mode = softfloat_round_near_even)"
      unfolding tie x0 xt using x0 xh by auto
    show ?thesis
      unfolding if_P [OF True] e unat_and_not_truth s R_def up using True by auto
  next
    case False
    then show ?thesis unfolding R_def up by simp
  qed
qed

text \<open>The significand \<open>a\<close> with \<open>k\<close> fraction bits, split at the binary point.\<close>

lemma to_int_split:
  assumes "unat sig = a div 2 ^ k" "extra_tells x (a mod 2 ^ k) (2 ^ k)"
  shows "rscale m s a (- (- int k)) = unat sig + of_bool (round_up m s (unat sig) (a mod 2 ^ k) (2 ^ k))"
    "x \<noteq> 0 \<longleftrightarrow> \<not> rexact a (- (- int k))"
  using assms by (cases "k = 0"; simp add: rscale_def rdiv_def rexact_def extra_tells_def)+

lemma roundToI64_int:
  assumes a: "unat sig = a div 2 ^ k" "extra_tells x (a mod 2 ^ k) (2 ^ k)"
  shows "softfloat_roundToI64 sign sig x mode exact st =
    to_int (- (2 ^ 63)) (2 ^ 63 - 1) (int_rmode mode) exact st sign a (- int k)"
proof -
  define R where "R = unat sig + of_bool (round_up (int_rmode mode) sign (unat sig) (a mod 2 ^ k) (2 ^ k))"
  note r = round_extra [OF a(2), where mode = mode and s = sign and sig = sig, folded R_def]
  note j = to_int_split(1) [OF a, where m = "int_rmode mode" and s = sign, folded R_def]
  define inc where "inc = (if \<not> mode = softfloat_round_near_even \<and> mode \<noteq> softfloat_round_near_maxMag
            then mode = (if sign then softfloat_round_min else softfloat_round_max) \<and> x \<noteq> 0
            else 0x8000000000000000 \<le> x)"
  note defs = softfloat_roundToI64_def Let_def to_int_def limit_result_signed j to_int_split(2) [OF a, symmetric]
    inc_def [symmetric]
  show ?thesis
  proof (cases "R = 2 ^ 64")
    case True
    then have "inc \<and> sig + 1 = 0" using r(1) by (simp only: inc_def)
    note over = if_P [OF this]
    have "\<not> (if sign then R \<le> 2 ^ 63 else R < 2 ^ 63)" using True by simp
    then show ?thesis
      unfolding defs over by (simp only: if_False) (simp add: i64_fromNegOverflow_def i64_fromPosOverflow_def)
  next
    case False
    define w where "w = (if inc
        then (sig + 1) AND NOT (of_bool (\<not> (x AND 0x7FFFFFFFFFFFFFFF \<noteq> 0) \<and> mode = softfloat_round_near_even))
        else sig)"
    define z where "z = sint (if sign then - w else w)"
    note z = signed_word_64 [OF r(2) [OF False], of sign, folded inc_def, folded w_def, folded z_def]
    have "\<not> (inc \<and> sig + 1 = 0)" using r(1) False by (simp only: inc_def simp_thms)
    note fits = if_not_P [OF this]
    show ?thesis
      unfolding defs fits w_def [symmetric] z_def [symmetric] z(1)
    proof (cases "if sign then R \<le> 2 ^ 63 else R < 2 ^ 63")
      case True
      note T = if_P [OF True] and not_T = if_not_P [of "\<not> (if sign then R \<le> 2 ^ 63 else R < 2 ^ 63)"]
      show "(if \<not> (if sign then R \<le> 2 ^ 63 else R < 2 ^ 63)
          then (if sign then i64_fromNegOverflow else i64_fromPosOverflow, softfloat_raiseFlags 16 st)
          else (z, if exact \<and> x \<noteq> 0 then softfloat_raiseFlags 1 st else st)) =
        (if if sign then R \<le> 2 ^ 63 else R < 2 ^ 63
          then (if sign then - int R else int R, if exact \<and> x \<noteq> 0 then softfloat_raiseFlags 1 st else st)
          else (if sign then - (2 ^ 63) else 2 ^ 63 - 1, softfloat_raiseFlags 16 st))"
        using True z(2) by presburger
    next
      case False
      then show "(if \<not> (if sign then R \<le> 2 ^ 63 else R < 2 ^ 63)
          then (if sign then i64_fromNegOverflow else i64_fromPosOverflow, softfloat_raiseFlags 16 st)
          else (z, if exact \<and> x \<noteq> 0 then softfloat_raiseFlags 1 st else st)) =
        (if if sign then R \<le> 2 ^ 63 else R < 2 ^ 63
          then (if sign then - int R else int R, if exact \<and> x \<noteq> 0 then softfloat_raiseFlags 1 st else st)
          else (if sign then - (2 ^ 63) else 2 ^ 63 - 1, softfloat_raiseFlags 16 st))"
        by (simp only: if_False if_True not_False_eq_True i64_fromNegOverflow_def i64_fromPosOverflow_def) simp
    qed
  qed
qed

lemma roundToUI64_int:
  assumes a: "unat sig = a div 2 ^ k" "extra_tells x (a mod 2 ^ k) (2 ^ k)"
  shows "uints (softfloat_roundToUI64 sign sig x mode exact st) =
    to_int 0 (2 ^ 64 - 1) (int_rmode mode) exact st sign a (- int k)"
proof -
  define R where "R = unat sig + of_bool (round_up (int_rmode mode) sign (unat sig) (a mod 2 ^ k) (2 ^ k))"
  note r = round_extra [OF a(2), where mode = mode and s = sign and sig = sig, folded R_def]
  note j = to_int_split(1) [OF a, where m = "int_rmode mode" and s = sign, folded R_def]
  define inc where "inc = (if \<not> mode = softfloat_round_near_even \<and> mode \<noteq> softfloat_round_near_maxMag
            then mode = (if sign then softfloat_round_min else softfloat_round_max) \<and> x \<noteq> 0
            else 0x8000000000000000 \<le> x)"
  note defs = softfloat_roundToUI64_def Let_def to_int_def limit_result_unsigned j to_int_split(2) [OF a, symmetric]
    inc_def [symmetric]
  show ?thesis
  proof (cases "R = 2 ^ 64")
    case True
    then have "inc \<and> sig + 1 = 0" using r(1) by (simp only: inc_def)
    note over = if_P [OF this]
    have "\<not> (if sign then R = 0 else R < 2 ^ 64)" using True by simp
    then show ?thesis
      unfolding defs over uints_def by (simp only: if_False) (simp add: ui64_fromNegOverflow_def ui64_fromPosOverflow_def)
  next
    case False
    define w where "w = (if inc
        then (sig + 1) AND NOT (of_bool (\<not> (x AND 0x7FFFFFFFFFFFFFFF \<noteq> 0) \<and> mode = softfloat_round_near_even))
        else sig)"
    have w: "unat w = R" using r(2) [OF False] unfolding w_def inc_def .
    have lt: "R < 2 ^ 64" using unat_lt_64 [of w] by (simp add: w)
    have w0: "w \<noteq> 0 \<longleftrightarrow> R \<noteq> 0" by (simp add: word_eq_nat w)
    have "\<not> (inc \<and> sig + 1 = 0)" using r(1) False by (simp only: inc_def simp_thms)
    note fits = if_not_P [OF this]
    have uw: "uint w = int R" by (simp add: uint_nat w)
    show ?thesis
      using lt unfolding defs fits uints_def w_def [symmetric] w0
      by (cases sign; cases "R = 0") (simp_all add: uw ui64_fromNegOverflow_def)
  qed
qed

section \<open>The conversions round the value of the operand\<close>

text \<open>
  The common course of the conversions of 32-bit and 64-bit operands to 32-bit integers: the
  significand with \<open>c\<close> bits appended, shifted to 12 fraction bits unless that overflows anyway.
\<close>

lemma to_int_course:
  fixes sig :: u64 and f fb c :: nat and exp K EM :: int
  defines "M \<equiv> if exp \<noteq> 0 then 2 ^ fb + f else f"
    and "S \<equiv> if 0 < K - exp then softfloat_shiftRightJam64 sig (word_of_int (K - exp)) else sig"
  assumes dec: "x = (if exp = EM then if f = 0 then Inf s else NaN q
      else if exp = 0 then Fin s f lsb else Fin s (2 ^ fb + f) (exp - 1 + lsb))"
    and f: "f < 2 ^ fb" and sig: "unat sig = M * 2 ^ c" "52 \<le> fb + c" "fb + c < 62"
    and K: "K = int c - 11 - lsb" "0 < K" "K < EM" "EM < 2 ^ 16" and e: "0 \<le> exp" "exp \<le> EM" and lsb: "lsb + int fb \<le> - 11"
    and lim: "- (2 ^ 40) < lo" "lo \<le> 0" "0 \<le> hi" "hi < 2 ^ 40"
  shows "unat S < 2 ^ 63"
    "to_int lo hi m exact st (if exp = EM \<and> f \<noteq> 0 then False else s) (unat S) (- 12) = fp_to_int lo hi m exact st x"
proof -
  have M: "M < 2 ^ Suc fb" using f by (simp add: M_def)
  have "M * 2 ^ c < 2 ^ Suc fb * 2 ^ c" using M by simp
  also have "\<dots> \<le> 2 ^ 62" unfolding power_add [symmetric] using sig(3) by (intro power_increasing) simp_all
  finally have lt: "M * 2 ^ c < 2 ^ 62" .
  have jm: "unat S = jam (M * 2 ^ c) (2 ^ nat (K - exp))" if "0 < K - exp"
  proof -
    have "unat (word_of_int (K - exp) :: u64) = nat (K - exp)" using that K e by (intro unat_of_exp) simp_all
    moreover from this have "0 < (word_of_int (K - exp) :: u64)" using that by (simp add: word_less_nat_alt)
    ultimately show ?thesis using that sig(1) unat_shiftRightJam64 by (simp add: S_def)
  qed
  show "unat S < 2 ^ 63"
  proof (cases "0 < K - exp")
    case True
    have "M * 2 ^ c < 2 ^ nat (K - exp) * 2 ^ 63"
    proof -
      have "(2 :: nat) ^ 62 \<le> 2 ^ nat (K - exp) * 2 ^ 63" unfolding power_add [symmetric] by (intro power_increasing) simp_all
      with lt show ?thesis by (rule less_le_trans)
    qed
    then have "jam (M * 2 ^ c) (2 ^ nat (K - exp)) < 2 ^ 63" by (intro jam_less) simp_all
    then show ?thesis using jm [OF True] by simp
  next
    case False
    then show ?thesis using lt sig(1) by (simp add: S_def)
  qed
  have big: "(if t then lo else hi, softfloat_raiseFlags softfloat_flag_invalid st) =
      to_int lo hi m exact st t (unat S) (- 12)" if "K \<le> exp" for t
  proof -
    have "2 ^ 40 * 2 ^ 12 \<le> (2 :: nat) ^ (fb + c)" unfolding power_add [symmetric] using sig(2) by (intro power_increasing) simp_all
    also have "\<dots> \<le> M * 2 ^ c" using that K(2) by (simp add: M_def power_add)
    finally have "2 ^ 40 * 2 ^ nat (- (- 12)) \<le> unat S * 2 ^ nat (- 12)" using that sig(1) by (simp add: S_def)
    then show ?thesis using lim by (intro to_int_overflow [symmetric, where h = 40]) simp_all
  qed
  consider (top) "exp = EM" | (over) "exp < EM" "K \<le> exp" | (main) "0 < exp" "exp < K" | (sub) "exp = 0"
    using e by linarith
  then show "to_int lo hi m exact st (if exp = EM \<and> f \<noteq> 0 then False else s) (unat S) (- 12) = fp_to_int lo hi m exact st x"
  proof cases
    case top
    then show ?thesis using dec K(3) big by (simp flip: big)
  next
    case over
    define d where "d = exp - 1 + lsb"
    have d: "int c - 12 \<le> d" using over(2) K(1) by (simp add: d_def)
    have "2 ^ 40 * 2 ^ nat (- d) \<le> (2 ^ fb + f) * 2 ^ nat d"
    proof -
      have "40 + nat (- d) \<le> fb + nat d" 
      proof (cases "0 \<le> d")
        case True
        then obtain n where "d = int n" using zero_le_imp_eq_int by blast
        then show ?thesis using d sig(2) by simp
      next
        case False
        then obtain n where "- d = int n" using zero_le_imp_eq_int [of "- d"] by auto
        then show ?thesis using d sig(2) by simp
      qed
      then have "2 ^ 40 * (2 :: nat) ^ nat (- d) \<le> 2 ^ fb * 2 ^ nat d"
        unfolding power_add [symmetric] by (intro power_increasing) simp_all
      also have "\<dots> \<le> (2 ^ fb + f) * 2 ^ nat d" by (intro mult_le_mono1) simp
      finally show ?thesis .
    qed
    then have "to_int lo hi m exact st s (2 ^ fb + f) d = (if s then lo else hi, softfloat_raiseFlags softfloat_flag_invalid st)"
      using lim by (intro to_int_overflow [where h = 40]) simp_all
    then show ?thesis using over dec K(2) by (simp add: d_def flip: big)
  next
    case main
    define k where "k = nat (K - exp)"
    have k: "int k = K - exp" using main by (simp add: k_def)
    have "to_int lo hi m exact st s (unat S) (- 12) = to_int lo hi m exact st s (M * 2 ^ c) (- 12 - int k)"
      using jm main to_int_jam [of k "- 12 - int k" lo hi m exact st s "M * 2 ^ c"] by (simp add: k_def)
    also have "- 12 - int k = exp - 1 + lsb - int c" using k K(1) by simp
    finally show ?thesis using main dec K(3) by (simp add: to_int_double M_def)
  next
    case sub
    then have M0: "M = f" by (simp add: M_def)
    have x: "fp_to_int lo hi m exact st x = to_int lo hi m exact st s f lsb" using dec sub K by simp
    have s: "unat S = jam (f * 2 ^ c) (2 ^ nat K)" using jm sub K(2) M0 by simp
    show ?thesis
    proof (cases "f = 0")
      case True
      then show ?thesis using x s sub K lim by (simp add: to_int_zero)
    next
      case False
      have "bitlen f \<le> fb" using f by (simp only: bitlen_le_iff)
      have fc: "f * 2 ^ c < 2 ^ nat K"
      proof -
        have "f * 2 ^ c < 2 ^ fb * 2 ^ c" using f by simp
        also have "\<dots> \<le> 2 ^ nat K"
        proof -
          have "int (fb + c) \<le> K" using K(1) lsb by simp
          then have "fb + c \<le> nat K" by (simp only: zle_int [symmetric] le_nat_iff K(2) nat_0_le less_imp_le)
          then show ?thesis unfolding power_add [symmetric] by (intro power_increasing) simp_all
        qed
        finally show ?thesis .
      qed
      then have "unat S = 1" using s False by (simp add: jam_small)
      moreover have "bitlen 1 = 1" using bitlen_unique [of 0 1] by simp
      ultimately have "to_int lo hi m exact st s (unat S) (- 12) = to_int lo hi m exact st s 1 (- 2)"
        by (simp only: to_int_tiny [of 1 "- 12"])
      also have "\<dots> = to_int lo hi m exact st s f lsb"
        using False \<open>bitlen f \<le> fb\<close> lsb by (intro to_int_tiny [symmetric]) simp_all
      finally show ?thesis using x sub K by simp
    qed
  qed
qed

lemma f32_to_i32_int: "f32_to_i32 a mode exact st =
    fp_to_int (- (2 ^ 31)) (2 ^ 31 - 1) (int_rmode mode) exact st (decode f32_fmt (unat a))"
proof -
  have "unat (ucast a :: u64) = unat a" using unat_lt_32 [of a] by (simp add: unat_cast)
  define u where "u = (ucast a :: u64)"
  have ua: "unat a = unat u" using \<open>unat (ucast a :: u64) = unat a\<close> by (simp add: u_def)
  define f exp s where "f = unat (fracF32UI u)" and "exp = expF32UI u" and "s = signF32UI u"
  have z: "fracF32UI u = 0 \<longleftrightarrow> f = 0" by (simp add: f_def word_eq_nat)
  have f: "f < 2 ^ 23" unfolding f_def by (rule fracF32_bound)
  have e: "0 \<le> exp" "exp \<le> 0xFF" unfolding exp_def by (rule expF32_bounds)+
  have dec: "decode f32_fmt (unat a) = (if exp = 0xFF then if f = 0 then Inf s else NaN (softfloat_isSigNaNF32UI u)
      else if exp = 0 then Fin s f (- 149) else Fin s (2 ^ 23 + f) (exp - 1 + - 149))"
    unfolding ua decodeF32 z f_def exp_def s_def ..
  have hid: "unat (fracF32UI u OR 0x00800000) = 2 ^ 23 + f"
    using f or_disjoint_nat [of f 23 1] by (simp add: f_def unat_disj or.commute)
  define sig where "sig = (push_bit 32 (if exp \<noteq> 0 then fracF32UI u OR 0x00800000 else fracF32UI u))"
  have "2 ^ 23 + f < 2 ^ 24" using f by simp
  then have sig: "unat sig = (if exp \<noteq> 0 then 2 ^ 23 + f else f) * 2 ^ 32"
    unfolding sig_def using f hid by (simp add: unat_push f_def)
  define S where "S = (if 0 < 0xAA - exp then softfloat_shiftRightJam64 sig (word_of_int (0xAA - exp)) else sig)"
  have K: "(0xAA :: int) = int 32 - 11 - (- 149)" by simp
  have "unat S < 2 ^ 63 \<and>
      to_int (- (2 ^ 31)) (2 ^ 31 - 1) (int_rmode mode) exact st (if exp = 0xFF \<and> f \<noteq> 0 then False else s) (unat S) (- 12) =
      fp_to_int (- (2 ^ 31)) (2 ^ 31 - 1) (int_rmode mode) exact st (decode f32_fmt (unat a))"
    unfolding S_def by (intro conjI to_int_course(1) [OF dec f sig _ _ K _ _ _ e, where lo = "(- (2 ^ 31))" and hi = "(2 ^ 31 - 1)"] to_int_course(2) [OF dec f sig _ _ K _ _ _ e]) simp_all
  then show ?thesis
    using roundToI32_int [of S]
    by (simp only: f32_to_i32_def Let_def u_def [symmetric] exp_def [symmetric] s_def [symmetric] z sig_def [symmetric]
        S_def [symmetric] simp_thms)
qed

lemma f32_to_ui32_int: "uints (f32_to_ui32 a mode exact st) =
    fp_to_int 0 (2 ^ 32 - 1) (int_rmode mode) exact st (decode f32_fmt (unat a))"
proof -
  have "unat (ucast a :: u64) = unat a" using unat_lt_32 [of a] by (simp add: unat_cast)
  define u where "u = (ucast a :: u64)"
  have ua: "unat a = unat u" using \<open>unat (ucast a :: u64) = unat a\<close> by (simp add: u_def)
  define f exp s where "f = unat (fracF32UI u)" and "exp = expF32UI u" and "s = signF32UI u"
  have z: "fracF32UI u = 0 \<longleftrightarrow> f = 0" by (simp add: f_def word_eq_nat)
  have f: "f < 2 ^ 23" unfolding f_def by (rule fracF32_bound)
  have e: "0 \<le> exp" "exp \<le> 0xFF" unfolding exp_def by (rule expF32_bounds)+
  have dec: "decode f32_fmt (unat a) = (if exp = 0xFF then if f = 0 then Inf s else NaN (softfloat_isSigNaNF32UI u)
      else if exp = 0 then Fin s f (- 149) else Fin s (2 ^ 23 + f) (exp - 1 + - 149))"
    unfolding ua decodeF32 z f_def exp_def s_def ..
  have hid: "unat (fracF32UI u OR 0x00800000) = 2 ^ 23 + f"
    using f or_disjoint_nat [of f 23 1] by (simp add: f_def unat_disj or.commute)
  define sig where "sig = (push_bit 32 (if exp \<noteq> 0 then fracF32UI u OR 0x00800000 else fracF32UI u))"
  have "2 ^ 23 + f < 2 ^ 24" using f by simp
  then have sig: "unat sig = (if exp \<noteq> 0 then 2 ^ 23 + f else f) * 2 ^ 32"
    unfolding sig_def using f hid by (simp add: unat_push f_def)
  define S where "S = (if 0 < 0xAA - exp then softfloat_shiftRightJam64 sig (word_of_int (0xAA - exp)) else sig)"
  have K: "(0xAA :: int) = int 32 - 11 - (- 149)" by simp
  have "unat S < 2 ^ 63 \<and>
      to_int 0 (2 ^ 32 - 1) (int_rmode mode) exact st (if exp = 0xFF \<and> f \<noteq> 0 then False else s) (unat S) (- 12) =
      fp_to_int 0 (2 ^ 32 - 1) (int_rmode mode) exact st (decode f32_fmt (unat a))"
    unfolding S_def by (intro conjI to_int_course(1) [OF dec f sig _ _ K _ _ _ e, where lo = "0" and hi = "(2 ^ 32 - 1)"] to_int_course(2) [OF dec f sig _ _ K _ _ _ e]) simp_all
  then show ?thesis
    using roundToUI32_int [of S]
    by (simp only: f32_to_ui32_def Let_def u_def [symmetric] exp_def [symmetric] s_def [symmetric] z sig_def [symmetric]
        S_def [symmetric] simp_thms)
qed

lemma f64_to_i32_int: "f64_to_i32 a mode exact st =
    fp_to_int (- (2 ^ 31)) (2 ^ 31 - 1) (int_rmode mode) exact st (decode f64_fmt (unat a))"
proof -
  have "unat (ucast a :: u64) = unat a" using unat_lt_64 [of a] by (simp add: unat_cast)
  define u where "u = (ucast a :: u64)"
  have ua: "unat a = unat u" using \<open>unat (ucast a :: u64) = unat a\<close> by (simp add: u_def)
  define f exp s where "f = unat (fracF64UI u)" and "exp = expF64UI u" and "s = signF64UI u"
  have z: "fracF64UI u = 0 \<longleftrightarrow> f = 0" by (simp add: f_def word_eq_nat)
  have f: "f < 2 ^ 52" unfolding f_def by (rule fracF64_bound)
  have e: "0 \<le> exp" "exp \<le> 0x7FF" unfolding exp_def by (rule expF64_bounds)+
  have dec: "decode f64_fmt (unat a) = (if exp = 0x7FF then if f = 0 then Inf s else NaN (softfloat_isSigNaNF64UI u)
      else if exp = 0 then Fin s f (- 1074) else Fin s (2 ^ 52 + f) (exp - 1 + - 1074))"
    unfolding ua decodeF64 z f_def exp_def s_def ..
  have hid: "unat (fracF64UI u OR 0x0010000000000000) = 2 ^ 52 + f"
    using f or_disjoint_nat [of f 52 1] by (simp add: f_def unat_disj or.commute)
  define sig where "sig = (if exp \<noteq> 0 then fracF64UI u OR 0x0010000000000000 else fracF64UI u)"
  have "2 ^ 52 + f < 2 ^ 53" using f by simp
  then have sig: "unat sig = (if exp \<noteq> 0 then 2 ^ 52 + f else f) * 2 ^ 0"
    unfolding sig_def using f hid by (simp add: unat_push f_def)
  define S where "S = (if 0 < 0x427 - exp then softfloat_shiftRightJam64 sig (word_of_int (0x427 - exp)) else sig)"
  have K: "(0x427 :: int) = int 0 - 11 - (- 1074)" by simp
  have "unat S < 2 ^ 63 \<and>
      to_int (- (2 ^ 31)) (2 ^ 31 - 1) (int_rmode mode) exact st (if exp = 0x7FF \<and> f \<noteq> 0 then False else s) (unat S) (- 12) =
      fp_to_int (- (2 ^ 31)) (2 ^ 31 - 1) (int_rmode mode) exact st (decode f64_fmt (unat a))"
    unfolding S_def by (intro conjI to_int_course(1) [OF dec f sig _ _ K _ _ _ e, where lo = "(- (2 ^ 31))" and hi = "(2 ^ 31 - 1)"] to_int_course(2) [OF dec f sig _ _ K _ _ _ e]) simp_all
  then show ?thesis
    using roundToI32_int [of S]
    by (simp only: f64_to_i32_def Let_def u_def [symmetric] exp_def [symmetric] s_def [symmetric] z sig_def [symmetric]
        S_def [symmetric] simp_thms)
qed

lemma f64_to_ui32_int: "uints (f64_to_ui32 a mode exact st) =
    fp_to_int 0 (2 ^ 32 - 1) (int_rmode mode) exact st (decode f64_fmt (unat a))"
proof -
  have "unat (ucast a :: u64) = unat a" using unat_lt_64 [of a] by (simp add: unat_cast)
  define u where "u = (ucast a :: u64)"
  have ua: "unat a = unat u" using \<open>unat (ucast a :: u64) = unat a\<close> by (simp add: u_def)
  define f exp s where "f = unat (fracF64UI u)" and "exp = expF64UI u" and "s = signF64UI u"
  have z: "fracF64UI u = 0 \<longleftrightarrow> f = 0" by (simp add: f_def word_eq_nat)
  have f: "f < 2 ^ 52" unfolding f_def by (rule fracF64_bound)
  have e: "0 \<le> exp" "exp \<le> 0x7FF" unfolding exp_def by (rule expF64_bounds)+
  have dec: "decode f64_fmt (unat a) = (if exp = 0x7FF then if f = 0 then Inf s else NaN (softfloat_isSigNaNF64UI u)
      else if exp = 0 then Fin s f (- 1074) else Fin s (2 ^ 52 + f) (exp - 1 + - 1074))"
    unfolding ua decodeF64 z f_def exp_def s_def ..
  have hid: "unat (fracF64UI u OR 0x0010000000000000) = 2 ^ 52 + f"
    using f or_disjoint_nat [of f 52 1] by (simp add: f_def unat_disj or.commute)
  define sig where "sig = (if exp \<noteq> 0 then fracF64UI u OR 0x0010000000000000 else fracF64UI u)"
  have "2 ^ 52 + f < 2 ^ 53" using f by simp
  then have sig: "unat sig = (if exp \<noteq> 0 then 2 ^ 52 + f else f) * 2 ^ 0"
    unfolding sig_def using f hid by (simp add: unat_push f_def)
  define S where "S = (if 0 < 0x427 - exp then softfloat_shiftRightJam64 sig (word_of_int (0x427 - exp)) else sig)"
  have K: "(0x427 :: int) = int 0 - 11 - (- 1074)" by simp
  have "unat S < 2 ^ 63 \<and>
      to_int 0 (2 ^ 32 - 1) (int_rmode mode) exact st (if exp = 0x7FF \<and> f \<noteq> 0 then False else s) (unat S) (- 12) =
      fp_to_int 0 (2 ^ 32 - 1) (int_rmode mode) exact st (decode f64_fmt (unat a))"
    unfolding S_def by (intro conjI to_int_course(1) [OF dec f sig _ _ K _ _ _ e, where lo = "0" and hi = "(2 ^ 32 - 1)"] to_int_course(2) [OF dec f sig _ _ K _ _ _ e]) simp_all
  then show ?thesis
    using roundToUI32_int [of S]
    by (simp only: f64_to_ui32_def Let_def u_def [symmetric] exp_def [symmetric] s_def [symmetric] z sig_def [symmetric]
        S_def [symmetric] simp_thms)
qed

lemma f32_to_i64_int: "f32_to_i64 a mode exact st =
    fp_to_int (- (2 ^ 63)) (2 ^ 63 - 1) (int_rmode mode) exact st (decode f32_fmt (unat a))"
proof -
  have "unat (ucast a :: u64) = unat a" using unat_lt_32 [of a] by (simp add: unat_cast)
  define u where "u = (ucast a :: u64)"
  have ua: "unat a = unat u" using \<open>unat (ucast a :: u64) = unat a\<close> by (simp add: u_def)
  define f exp s where "f = unat (fracF32UI u)" and "exp = expF32UI u" and "s = signF32UI u"
  have z: "fracF32UI u = 0 \<longleftrightarrow> f = 0" by (simp add: f_def word_eq_nat)
  have f: "f < 2 ^ 23" unfolding f_def by (rule fracF32_bound)
  have e: "0 \<le> exp" "exp \<le> 0xFF" unfolding exp_def by (rule expF32_bounds)+
  have dec: "decode f32_fmt (unat a) = (if exp = 0xFF then if f = 0 then Inf s else NaN (softfloat_isSigNaNF32UI u)
      else if exp = 0 then Fin s f (- 149) else Fin s (2 ^ 23 + f) (exp - 1 + - 149))"
    unfolding ua decodeF32 z f_def exp_def s_def ..
  have hid: "unat (fracF32UI u OR 0x00800000) = 2 ^ 23 + f"
    using f or_disjoint_nat [of f 23 1] by (simp add: f_def unat_disj or.commute)
  define sig where "sig = (push_bit 40 (if exp \<noteq> 0 then fracF32UI u OR 0x00800000 else fracF32UI u))"
  have "2 ^ 23 + f < 2 ^ 24" using f by simp
  then have sig: "unat sig = (if exp \<noteq> 0 then 2 ^ 23 + f else f) * 2 ^ 40"
    unfolding sig_def using f hid by (simp add: unat_push f_def)
  define S where "S = (if 0xBE - exp \<noteq> 0 then softfloat_shiftRightJam64Extra sig 0 (word_of_int (0xBE - exp)) else \<lparr>x64_v = sig, x64_extra = 0\<rparr>)"
  note defs = f32_to_i64_def Let_def u_def [symmetric] exp_def [symmetric] s_def [symmetric] z sig_def [symmetric] S_def [symmetric]
  consider (top) "exp = 0xFF" | (over) "0xBE < exp" "exp < 0xFF" | (main) "0 < exp" "\<not> 0xBE < exp" | (sub) "exp = 0"
    using e by linarith
  then show ?thesis
  proof cases
    case top
    then show ?thesis unfolding defs dec by (simp add: i64_fromNaN_def i64_fromNegOverflow_def i64_fromPosOverflow_def)
  next
    case over
    define d where "d = exp - 1 + - 149"
    have d: "41 \<le> d" using over(1) by (simp add: d_def)
    then have "(2 :: nat) ^ 41 \<le> 2 ^ nat d" by (intro power_increasing) simp_all
    then have "2 ^ 23 * (2 :: nat) ^ 41 \<le> (2 ^ 23 + f) * 2 ^ nat d" by (intro mult_le_mono) simp_all
    then have "to_int (- (2 ^ 63)) (2 ^ 63 - 1) (int_rmode mode) exact st s (2 ^ 23 + f) d =
        (if s then (- (2 ^ 63)) else (2 ^ 63 - 1), softfloat_raiseFlags softfloat_flag_invalid st)"
      using d by (intro to_int_overflow [where h = 64]) simp_all
    then show ?thesis
      using over unfolding defs dec by (simp add: d_def i64_fromNegOverflow_def i64_fromPosOverflow_def)
  next
    case main
    have M: "unat sig = (2 ^ 23 + f) * 2 ^ 40" using main(1) sig by simp
    have guard: "\<not> 0xBE - exp < 0" using main(2) by simp
    have k: "unat (word_of_int (0xBE - exp) :: u64) = nat (0xBE - exp)"
      using main by (intro unat_of_exp) simp_all
    have "unat (x64_v S) = unat sig div 2 ^ nat (0xBE - exp)"
      "extra_tells (x64_extra S) (unat sig mod 2 ^ nat (0xBE - exp)) (2 ^ nat (0xBE - exp))"
    proof -
      have "unat (x64_v S) = unat sig div 2 ^ nat (0xBE - exp) \<and>
        extra_tells (x64_extra S) (unat sig mod 2 ^ nat (0xBE - exp)) (2 ^ nat (0xBE - exp))"
      proof (cases "0xBE - exp = 0")
        case True
        then show ?thesis by (simp add: S_def extra_tells_def)
      next
        case False
        then have "0 < (word_of_int (0xBE - exp) :: u64)" using k main by (simp add: word_less_nat_alt)
        then show ?thesis using False k shiftRightJam64Extra_spec [of "word_of_int (0xBE - exp)" sig] by (simp add: S_def)
      qed
      then show "unat (x64_v S) = unat sig div 2 ^ nat (0xBE - exp)"
        "extra_tells (x64_extra S) (unat sig mod 2 ^ nat (0xBE - exp)) (2 ^ nat (0xBE - exp))" by simp_all
    qed
    note r = roundToI64_int [OF this, of s mode exact st]
    have "- int (nat (0xBE - exp)) = exp - 1 + - 149 - int 40" using main by simp
    then have "to_int (- (2 ^ 63)) (2 ^ 63 - 1) (int_rmode mode) exact st s (unat sig) (- int (nat (0xBE - exp))) =
        to_int (- (2 ^ 63)) (2 ^ 63 - 1) (int_rmode mode) exact st s (2 ^ 23 + f) (exp - 1 + - 149)"
      unfolding M by (simp only: to_int_double)
    then show ?thesis unfolding defs if_not_P [OF guard] r dec using main by simp
  next
    case sub
    then have M: "unat sig = f * 2 ^ 40" and guard: "\<not> 0xBE - exp < 0" using sig by simp_all
    have k: "unat (word_of_int (190 - exp) :: u64) = 190" using sub by (simp add: unat_of_int)
    have "0 < (word_of_int (190 - exp) :: u64)" using k by (simp add: word_less_nat_alt)
    then have "unat (x64_v S) = unat sig div 2 ^ 190" "extra_tells (x64_extra S) (unat sig mod 2 ^ 190) (2 ^ 190)"
      using sub shiftRightJam64Extra_spec [of "word_of_int (190 - exp)" sig, unfolded k] by (simp_all add: S_def)
    note r = roundToI64_int [OF this, of s mode exact st]
    have "to_int (- (2 ^ 63)) (2 ^ 63 - 1) (int_rmode mode) exact st s (f * 2 ^ 40) (- int 190) =
        to_int (- (2 ^ 63)) (2 ^ 63 - 1) (int_rmode mode) exact st s f (- 149)"
    proof (cases "f = 0")
      case True
      then show ?thesis by (simp add: to_int_zero)
    next
      case False
      have "bitlen f \<le> 23" using f by (simp only: bitlen_le_iff)
      moreover from this have "bitlen (f * 2 ^ 40) \<le> 63" using False bitlen_double [of f 40] by simp
      ultimately show ?thesis
        using False to_int_tiny [of "f * 2 ^ 40" "- int 190"] to_int_tiny [of f "- 149"] by simp
    qed
    then show ?thesis unfolding defs if_not_P [OF guard] r dec M using sub by simp
  qed
qed

lemma f32_to_ui64_int: "uints (f32_to_ui64 a mode exact st) =
    fp_to_int 0 (2 ^ 64 - 1) (int_rmode mode) exact st (decode f32_fmt (unat a))"
proof -
  have "unat (ucast a :: u64) = unat a" using unat_lt_32 [of a] by (simp add: unat_cast)
  define u where "u = (ucast a :: u64)"
  have ua: "unat a = unat u" using \<open>unat (ucast a :: u64) = unat a\<close> by (simp add: u_def)
  define f exp s where "f = unat (fracF32UI u)" and "exp = expF32UI u" and "s = signF32UI u"
  have z: "fracF32UI u = 0 \<longleftrightarrow> f = 0" by (simp add: f_def word_eq_nat)
  have f: "f < 2 ^ 23" unfolding f_def by (rule fracF32_bound)
  have e: "0 \<le> exp" "exp \<le> 0xFF" unfolding exp_def by (rule expF32_bounds)+
  have dec: "decode f32_fmt (unat a) = (if exp = 0xFF then if f = 0 then Inf s else NaN (softfloat_isSigNaNF32UI u)
      else if exp = 0 then Fin s f (- 149) else Fin s (2 ^ 23 + f) (exp - 1 + - 149))"
    unfolding ua decodeF32 z f_def exp_def s_def ..
  have hid: "unat (fracF32UI u OR 0x00800000) = 2 ^ 23 + f"
    using f or_disjoint_nat [of f 23 1] by (simp add: f_def unat_disj or.commute)
  define sig where "sig = (push_bit 40 (if exp \<noteq> 0 then fracF32UI u OR 0x00800000 else fracF32UI u))"
  have "2 ^ 23 + f < 2 ^ 24" using f by simp
  then have sig: "unat sig = (if exp \<noteq> 0 then 2 ^ 23 + f else f) * 2 ^ 40"
    unfolding sig_def using f hid by (simp add: unat_push f_def)
  define S where "S = (if 0xBE - exp \<noteq> 0 then softfloat_shiftRightJam64Extra sig 0 (word_of_int (0xBE - exp)) else \<lparr>x64_v = sig, x64_extra = 0\<rparr>)"
  note defs = f32_to_ui64_def Let_def u_def [symmetric] exp_def [symmetric] s_def [symmetric] z sig_def [symmetric] S_def [symmetric]
  consider (top) "exp = 0xFF" | (over) "0xBE < exp" "exp < 0xFF" | (main) "0 < exp" "\<not> 0xBE < exp" | (sub) "exp = 0"
    using e by linarith
  then show ?thesis
  proof cases
    case top
    then show ?thesis unfolding defs dec by (simp add: uints_def ui64_fromNaN_def ui64_fromNegOverflow_def ui64_fromPosOverflow_def)
  next
    case over
    define d where "d = exp - 1 + - 149"
    have d: "41 \<le> d" using over(1) by (simp add: d_def)
    then have "(2 :: nat) ^ 41 \<le> 2 ^ nat d" by (intro power_increasing) simp_all
    then have "2 ^ 23 * (2 :: nat) ^ 41 \<le> (2 ^ 23 + f) * 2 ^ nat d" by (intro mult_le_mono) simp_all
    then have "to_int 0 (2 ^ 64 - 1) (int_rmode mode) exact st s (2 ^ 23 + f) d =
        (if s then 0 else (2 ^ 64 - 1), softfloat_raiseFlags softfloat_flag_invalid st)"
      using d by (intro to_int_overflow [where h = 64]) simp_all
    then show ?thesis
      using over unfolding defs dec by (simp add: uints_def d_def ui64_fromNegOverflow_def ui64_fromPosOverflow_def)
  next
    case main
    have M: "unat sig = (2 ^ 23 + f) * 2 ^ 40" using main(1) sig by simp
    have guard: "\<not> 0xBE - exp < 0" using main(2) by simp
    have k: "unat (word_of_int (0xBE - exp) :: u64) = nat (0xBE - exp)"
      using main by (intro unat_of_exp) simp_all
    have "unat (x64_v S) = unat sig div 2 ^ nat (0xBE - exp)"
      "extra_tells (x64_extra S) (unat sig mod 2 ^ nat (0xBE - exp)) (2 ^ nat (0xBE - exp))"
    proof -
      have "unat (x64_v S) = unat sig div 2 ^ nat (0xBE - exp) \<and>
        extra_tells (x64_extra S) (unat sig mod 2 ^ nat (0xBE - exp)) (2 ^ nat (0xBE - exp))"
      proof (cases "0xBE - exp = 0")
        case True
        then show ?thesis by (simp add: S_def extra_tells_def)
      next
        case False
        then have "0 < (word_of_int (0xBE - exp) :: u64)" using k main by (simp add: word_less_nat_alt)
        then show ?thesis using False k shiftRightJam64Extra_spec [of "word_of_int (0xBE - exp)" sig] by (simp add: S_def)
      qed
      then show "unat (x64_v S) = unat sig div 2 ^ nat (0xBE - exp)"
        "extra_tells (x64_extra S) (unat sig mod 2 ^ nat (0xBE - exp)) (2 ^ nat (0xBE - exp))" by simp_all
    qed
    note r = roundToUI64_int [OF this, of s mode exact st]
    have "- int (nat (0xBE - exp)) = exp - 1 + - 149 - int 40" using main by simp
    then have "to_int 0 (2 ^ 64 - 1) (int_rmode mode) exact st s (unat sig) (- int (nat (0xBE - exp))) =
        to_int 0 (2 ^ 64 - 1) (int_rmode mode) exact st s (2 ^ 23 + f) (exp - 1 + - 149)"
      unfolding M by (simp only: to_int_double)
    then show ?thesis unfolding defs if_not_P [OF guard] r dec using main by simp
  next
    case sub
    then have M: "unat sig = f * 2 ^ 40" and guard: "\<not> 0xBE - exp < 0" using sig by simp_all
    have k: "unat (word_of_int (190 - exp) :: u64) = 190" using sub by (simp add: unat_of_int)
    have "0 < (word_of_int (190 - exp) :: u64)" using k by (simp add: word_less_nat_alt)
    then have "unat (x64_v S) = unat sig div 2 ^ 190" "extra_tells (x64_extra S) (unat sig mod 2 ^ 190) (2 ^ 190)"
      using sub shiftRightJam64Extra_spec [of "word_of_int (190 - exp)" sig, unfolded k] by (simp_all add: S_def)
    note r = roundToUI64_int [OF this, of s mode exact st]
    have "to_int 0 (2 ^ 64 - 1) (int_rmode mode) exact st s (f * 2 ^ 40) (- int 190) =
        to_int 0 (2 ^ 64 - 1) (int_rmode mode) exact st s f (- 149)"
    proof (cases "f = 0")
      case True
      then show ?thesis by (simp add: to_int_zero)
    next
      case False
      have "bitlen f \<le> 23" using f by (simp only: bitlen_le_iff)
      moreover from this have "bitlen (f * 2 ^ 40) \<le> 63" using False bitlen_double [of f 40] by simp
      ultimately show ?thesis
        using False to_int_tiny [of "f * 2 ^ 40" "- int 190"] to_int_tiny [of f "- 149"] by simp
    qed
    then show ?thesis unfolding defs if_not_P [OF guard] r dec M using sub by simp
  qed
qed

lemma f64_to_i64_int: "f64_to_i64 a mode exact st =
    fp_to_int (- (2 ^ 63)) (2 ^ 63 - 1) (int_rmode mode) exact st (decode f64_fmt (unat a))"
proof -
  have "unat (ucast a :: u64) = unat a" using unat_lt_64 [of a] by (simp add: unat_cast)
  define u where "u = (ucast a :: u64)"
  have ua: "unat a = unat u" using \<open>unat (ucast a :: u64) = unat a\<close> by (simp add: u_def)
  define f exp s where "f = unat (fracF64UI u)" and "exp = expF64UI u" and "s = signF64UI u"
  have z: "fracF64UI u = 0 \<longleftrightarrow> f = 0" by (simp add: f_def word_eq_nat)
  have f: "f < 2 ^ 52" unfolding f_def by (rule fracF64_bound)
  have e: "0 \<le> exp" "exp \<le> 0x7FF" unfolding exp_def by (rule expF64_bounds)+
  have dec: "decode f64_fmt (unat a) = (if exp = 0x7FF then if f = 0 then Inf s else NaN (softfloat_isSigNaNF64UI u)
      else if exp = 0 then Fin s f (- 1074) else Fin s (2 ^ 52 + f) (exp - 1 + - 1074))"
    unfolding ua decodeF64 z f_def exp_def s_def ..
  have hid: "unat (fracF64UI u OR 0x0010000000000000) = 2 ^ 52 + f"
    using f or_disjoint_nat [of f 52 1] by (simp add: f_def unat_disj or.commute)
  define sig where "sig = (if exp \<noteq> 0 then fracF64UI u OR 0x0010000000000000 else fracF64UI u)"
  have "2 ^ 52 + f < 2 ^ 53" using f by simp
  then have sig: "unat sig = (if exp \<noteq> 0 then 2 ^ 52 + f else f) * 2 ^ 0"
    unfolding sig_def using f hid by (simp add: unat_push f_def)
  define S where "S = (if 0x433 - exp \<le> 0 then \<lparr>x64_v = push_bit (nat (- (0x433 - exp))) sig, x64_extra = 0\<rparr> else softfloat_shiftRightJam64Extra sig 0 (word_of_int (0x433 - exp)))"
  note defs = f64_to_i64_def Let_def u_def [symmetric] exp_def [symmetric] s_def [symmetric] z sig_def [symmetric] S_def [symmetric]
  consider (top) "exp = 0x7FF" | (over) "0x433 + 11 < exp" "exp < 0x7FF" | (main) "0 < exp" "\<not> 0x433 + 11 < exp" | (sub) "exp = 0"
    using e by linarith
  then show ?thesis
  proof cases
    case top
    then show ?thesis unfolding defs dec by (simp add: i64_fromNaN_def i64_fromNegOverflow_def i64_fromPosOverflow_def)
  next
    case over
    define d where "d = exp - 1 + - 1074"
    have d: "12 \<le> d" using over(1) by (simp add: d_def)
    then have "(2 :: nat) ^ 12 \<le> 2 ^ nat d" by (intro power_increasing) simp_all
    then have "2 ^ 52 * (2 :: nat) ^ 12 \<le> (2 ^ 52 + f) * 2 ^ nat d" by (intro mult_le_mono) simp_all
    then have "to_int (- (2 ^ 63)) (2 ^ 63 - 1) (int_rmode mode) exact st s (2 ^ 52 + f) d =
        (if s then (- (2 ^ 63)) else (2 ^ 63 - 1), softfloat_raiseFlags softfloat_flag_invalid st)"
      using d by (intro to_int_overflow [where h = 64]) simp_all
    then show ?thesis
      using over unfolding defs dec by (simp add: d_def i64_fromNegOverflow_def i64_fromPosOverflow_def)
  next
    case main
    have M: "unat sig = (2 ^ 52 + f) * 2 ^ 0" using main(1) sig by simp
    have guard: "\<not> 0x433 - exp < - 11" using main(2) by simp
    show ?thesis
    proof (cases "0x433 \<le> exp")
      case True
      define j where "j = nat (exp - 0x433)"
      have j: "j \<le> 11" "nat (- (0x433 - exp)) = j" "nat (exp - 0x433) = j" "int j = exp - 0x433" using True main(2) by (simp_all add: j_def)
      have "(2 ^ 52 + f) * 2 ^ j < 2 ^ 53 * 2 ^ 11"
      proof -
        have "(2 :: nat) ^ j \<le> 2 ^ 11" using j(1) by (intro power_increasing) simp_all
        then have "(2 ^ 52 + f) * 2 ^ j \<le> (2 ^ 52 + f) * 2 ^ 11" by (rule mult_le_mono2)
        also have "\<dots> < 2 ^ 53 * 2 ^ 11" using f by (intro mult_strict_right_mono) simp_all
        finally show ?thesis .
      qed
      then have v: "unat (x64_v S) = (2 ^ 52 + f) * 2 ^ j" "x64_extra S = 0"
        using True M by (simp_all add: S_def j unat_push)
      then have "unat (x64_v S) = ((2 ^ 52 + f) * 2 ^ j) div 2 ^ 0"
        "extra_tells (x64_extra S) (((2 ^ 52 + f) * 2 ^ j) mod 2 ^ 0) (2 ^ 0)" by (simp_all add: extra_tells_def)
      note r = roundToI64_int [OF this, of s mode exact st]
      have "- int 0 = exp - 1 + - 1074 - int j" using j by simp
      then have "to_int (- (2 ^ 63)) (2 ^ 63 - 1) (int_rmode mode) exact st s ((2 ^ 52 + f) * 2 ^ j) (- int 0) =
          to_int (- (2 ^ 63)) (2 ^ 63 - 1) (int_rmode mode) exact st s (2 ^ 52 + f) (exp - 1 + - 1074)"
        by (simp only: to_int_double)
      moreover have "exp \<noteq> 0" "exp \<noteq> 0x7FF" using True j by simp_all
      ultimately show ?thesis unfolding defs if_not_P [OF guard] r dec by simp
    next
      case False
      have k: "unat (word_of_int (0x433 - exp) :: u64) = nat (0x433 - exp)"
        using main False by (intro unat_of_exp) simp_all
      then have "0 < (word_of_int (0x433 - exp) :: u64)" using False by (simp add: word_less_nat_alt)
      then have "unat (x64_v S) = unat sig div 2 ^ nat (0x433 - exp)"
        "extra_tells (x64_extra S) (unat sig mod 2 ^ nat (0x433 - exp)) (2 ^ nat (0x433 - exp))"
        using False k shiftRightJam64Extra_spec [of "word_of_int (0x433 - exp)" sig] by (simp_all add: S_def)
      note r = roundToI64_int [OF this, of s mode exact st]
      have "- int (nat (0x433 - exp)) = exp - 1 + - 1074" using False by simp
      then show ?thesis unfolding defs if_not_P [OF guard] r dec M using main False by simp
    qed
  next
    case sub
    then have M: "unat sig = f * 2 ^ 0" and guard: "\<not> 0x433 - exp < - 11" using sig by simp_all
    have k: "unat (word_of_int (1075 - exp) :: u64) = 1075" using sub by (simp add: unat_of_int)
    have "0 < (word_of_int (1075 - exp) :: u64)" using k by (simp add: word_less_nat_alt)
    then have "unat (x64_v S) = unat sig div 2 ^ 1075" "extra_tells (x64_extra S) (unat sig mod 2 ^ 1075) (2 ^ 1075)"
      using sub shiftRightJam64Extra_spec [of "word_of_int (1075 - exp)" sig, unfolded k] by (simp_all add: S_def)
    note r = roundToI64_int [OF this, of s mode exact st]
    have "to_int (- (2 ^ 63)) (2 ^ 63 - 1) (int_rmode mode) exact st s (f * 2 ^ 0) (- int 1075) =
        to_int (- (2 ^ 63)) (2 ^ 63 - 1) (int_rmode mode) exact st s f (- 1074)"
    proof (cases "f = 0")
      case True
      then show ?thesis by (simp add: to_int_zero)
    next
      case False
      have "bitlen f \<le> 52" using f by (simp only: bitlen_le_iff)
      moreover from this have "bitlen (f * 2 ^ 0) \<le> 52" using False bitlen_double [of f 0] by simp
      ultimately show ?thesis
        using False to_int_tiny [of "f * 2 ^ 0" "- int 1075"] to_int_tiny [of f "- 1074"] by simp
    qed
    then show ?thesis unfolding defs if_not_P [OF guard] r dec M using sub by simp
  qed
qed

lemma f64_to_ui64_int: "uints (f64_to_ui64 a mode exact st) =
    fp_to_int 0 (2 ^ 64 - 1) (int_rmode mode) exact st (decode f64_fmt (unat a))"
proof -
  have "unat (ucast a :: u64) = unat a" using unat_lt_64 [of a] by (simp add: unat_cast)
  define u where "u = (ucast a :: u64)"
  have ua: "unat a = unat u" using \<open>unat (ucast a :: u64) = unat a\<close> by (simp add: u_def)
  define f exp s where "f = unat (fracF64UI u)" and "exp = expF64UI u" and "s = signF64UI u"
  have z: "fracF64UI u = 0 \<longleftrightarrow> f = 0" by (simp add: f_def word_eq_nat)
  have f: "f < 2 ^ 52" unfolding f_def by (rule fracF64_bound)
  have e: "0 \<le> exp" "exp \<le> 0x7FF" unfolding exp_def by (rule expF64_bounds)+
  have dec: "decode f64_fmt (unat a) = (if exp = 0x7FF then if f = 0 then Inf s else NaN (softfloat_isSigNaNF64UI u)
      else if exp = 0 then Fin s f (- 1074) else Fin s (2 ^ 52 + f) (exp - 1 + - 1074))"
    unfolding ua decodeF64 z f_def exp_def s_def ..
  have hid: "unat (fracF64UI u OR 0x0010000000000000) = 2 ^ 52 + f"
    using f or_disjoint_nat [of f 52 1] by (simp add: f_def unat_disj or.commute)
  define sig where "sig = (if exp \<noteq> 0 then fracF64UI u OR 0x0010000000000000 else fracF64UI u)"
  have "2 ^ 52 + f < 2 ^ 53" using f by simp
  then have sig: "unat sig = (if exp \<noteq> 0 then 2 ^ 52 + f else f) * 2 ^ 0"
    unfolding sig_def using f hid by (simp add: unat_push f_def)
  define S where "S = (if 0x433 - exp \<le> 0 then \<lparr>x64_v = push_bit (nat (- (0x433 - exp))) sig, x64_extra = 0\<rparr> else softfloat_shiftRightJam64Extra sig 0 (word_of_int (0x433 - exp)))"
  note defs = f64_to_ui64_def Let_def u_def [symmetric] exp_def [symmetric] s_def [symmetric] z sig_def [symmetric] S_def [symmetric]
  consider (top) "exp = 0x7FF" | (over) "0x433 + 11 < exp" "exp < 0x7FF" | (main) "0 < exp" "\<not> 0x433 + 11 < exp" | (sub) "exp = 0"
    using e by linarith
  then show ?thesis
  proof cases
    case top
    then show ?thesis unfolding defs dec by (simp add: uints_def ui64_fromNaN_def ui64_fromNegOverflow_def ui64_fromPosOverflow_def)
  next
    case over
    define d where "d = exp - 1 + - 1074"
    have d: "12 \<le> d" using over(1) by (simp add: d_def)
    then have "(2 :: nat) ^ 12 \<le> 2 ^ nat d" by (intro power_increasing) simp_all
    then have "2 ^ 52 * (2 :: nat) ^ 12 \<le> (2 ^ 52 + f) * 2 ^ nat d" by (intro mult_le_mono) simp_all
    then have "to_int 0 (2 ^ 64 - 1) (int_rmode mode) exact st s (2 ^ 52 + f) d =
        (if s then 0 else (2 ^ 64 - 1), softfloat_raiseFlags softfloat_flag_invalid st)"
      using d by (intro to_int_overflow [where h = 64]) simp_all
    then show ?thesis
      using over unfolding defs dec by (simp add: uints_def d_def ui64_fromNegOverflow_def ui64_fromPosOverflow_def)
  next
    case main
    have M: "unat sig = (2 ^ 52 + f) * 2 ^ 0" using main(1) sig by simp
    have guard: "\<not> 0x433 - exp < - 11" using main(2) by simp
    show ?thesis
    proof (cases "0x433 \<le> exp")
      case True
      define j where "j = nat (exp - 0x433)"
      have j: "j \<le> 11" "nat (- (0x433 - exp)) = j" "nat (exp - 0x433) = j" "int j = exp - 0x433" using True main(2) by (simp_all add: j_def)
      have "(2 ^ 52 + f) * 2 ^ j < 2 ^ 53 * 2 ^ 11"
      proof -
        have "(2 :: nat) ^ j \<le> 2 ^ 11" using j(1) by (intro power_increasing) simp_all
        then have "(2 ^ 52 + f) * 2 ^ j \<le> (2 ^ 52 + f) * 2 ^ 11" by (rule mult_le_mono2)
        also have "\<dots> < 2 ^ 53 * 2 ^ 11" using f by (intro mult_strict_right_mono) simp_all
        finally show ?thesis .
      qed
      then have v: "unat (x64_v S) = (2 ^ 52 + f) * 2 ^ j" "x64_extra S = 0"
        using True M by (simp_all add: S_def j unat_push)
      then have "unat (x64_v S) = ((2 ^ 52 + f) * 2 ^ j) div 2 ^ 0"
        "extra_tells (x64_extra S) (((2 ^ 52 + f) * 2 ^ j) mod 2 ^ 0) (2 ^ 0)" by (simp_all add: extra_tells_def)
      note r = roundToUI64_int [OF this, of s mode exact st]
      have "- int 0 = exp - 1 + - 1074 - int j" using j by simp
      then have "to_int 0 (2 ^ 64 - 1) (int_rmode mode) exact st s ((2 ^ 52 + f) * 2 ^ j) (- int 0) =
          to_int 0 (2 ^ 64 - 1) (int_rmode mode) exact st s (2 ^ 52 + f) (exp - 1 + - 1074)"
        by (simp only: to_int_double)
      moreover have "exp \<noteq> 0" "exp \<noteq> 0x7FF" using True j by simp_all
      ultimately show ?thesis unfolding defs if_not_P [OF guard] r dec by simp
    next
      case False
      have k: "unat (word_of_int (0x433 - exp) :: u64) = nat (0x433 - exp)"
        using main False by (intro unat_of_exp) simp_all
      then have "0 < (word_of_int (0x433 - exp) :: u64)" using False by (simp add: word_less_nat_alt)
      then have "unat (x64_v S) = unat sig div 2 ^ nat (0x433 - exp)"
        "extra_tells (x64_extra S) (unat sig mod 2 ^ nat (0x433 - exp)) (2 ^ nat (0x433 - exp))"
        using False k shiftRightJam64Extra_spec [of "word_of_int (0x433 - exp)" sig] by (simp_all add: S_def)
      note r = roundToUI64_int [OF this, of s mode exact st]
      have "- int (nat (0x433 - exp)) = exp - 1 + - 1074" using False by simp
      then show ?thesis unfolding defs if_not_P [OF guard] r dec M using main False by simp
    qed
  next
    case sub
    then have M: "unat sig = f * 2 ^ 0" and guard: "\<not> 0x433 - exp < - 11" using sig by simp_all
    have k: "unat (word_of_int (1075 - exp) :: u64) = 1075" using sub by (simp add: unat_of_int)
    have "0 < (word_of_int (1075 - exp) :: u64)" using k by (simp add: word_less_nat_alt)
    then have "unat (x64_v S) = unat sig div 2 ^ 1075" "extra_tells (x64_extra S) (unat sig mod 2 ^ 1075) (2 ^ 1075)"
      using sub shiftRightJam64Extra_spec [of "word_of_int (1075 - exp)" sig, unfolded k] by (simp_all add: S_def)
    note r = roundToUI64_int [OF this, of s mode exact st]
    have "to_int 0 (2 ^ 64 - 1) (int_rmode mode) exact st s (f * 2 ^ 0) (- int 1075) =
        to_int 0 (2 ^ 64 - 1) (int_rmode mode) exact st s f (- 1074)"
    proof (cases "f = 0")
      case True
      then show ?thesis by (simp add: to_int_zero)
    next
      case False
      have "bitlen f \<le> 52" using f by (simp only: bitlen_le_iff)
      moreover from this have "bitlen (f * 2 ^ 0) \<le> 52" using False bitlen_double [of f 0] by simp
      ultimately show ?thesis
        using False to_int_tiny [of "f * 2 ^ 0" "- int 1075"] to_int_tiny [of f "- 1074"] by simp
    qed
    then show ?thesis unfolding defs if_not_P [OF guard] r dec M using sub by simp
  qed
qed

text \<open>
  The conversions of 16-bit operands share one course: a significand shifted left to 12 fraction
  bits, or left alone when it is below one half anyway.
\<close>

lemma to_int_course16:
  fixes f :: nat and exp :: int
  assumes f: "f < 2 ^ 10" and exp: "0 \<le> exp"
  defines "M \<equiv> if exp \<noteq> 0 then 2 ^ 10 + f else f"
  assumes lim: "lo \<le> 0" "0 \<le> hi"
  shows "to_int lo hi m exact st s (if 0 < exp - 0x0D then M * 2 ^ nat (exp - 0x0D) else M) (- 12) =
    (if exp = 0 then to_int lo hi m exact st s f (- 24) else to_int lo hi m exact st s (2 ^ 10 + f) (exp - 1 + - 24))"
proof -
  have bf: "bitlen f \<le> 10" using f by (simp only: bitlen_le_iff)
  have bM: "bitlen (2 ^ 10 + f) \<le> 11" using f by (simp only: bitlen_le_iff) simp
  consider "exp = 0" "f = 0" | "exp = 0" "f \<noteq> 0" | "0 < exp" "exp < 0x0D" | "0x0D \<le> exp" using exp by linarith
  then show ?thesis
  proof cases
    case 1
    then show ?thesis using lim by (simp add: M_def to_int_zero)
  next
    case 2
    then show ?thesis using bf to_int_tiny [of f "- 12"] to_int_tiny [of f "- 24"] by (simp add: M_def)
  next
    case 3
    then show ?thesis
      using bM to_int_tiny [of "2 ^ 10 + f" "- 12"] to_int_tiny [of "2 ^ 10 + f" "exp - 1 + - 24"] by (simp add: M_def)
  next
    case 4
    define k where "k = nat (exp - 0x0D)"
    have k: "int k = exp - 0x0D" using 4 by (simp add: k_def)
    then have e: "exp - 1 + - 24 - int k = - 12" by simp
    have "to_int lo hi m exact st s ((2 ^ 10 + f) * 2 ^ k) (- 12) = to_int lo hi m exact st s (2 ^ 10 + f) (exp - 1 + - 24)"
      unfolding e [symmetric] by (rule to_int_double)
    moreover have "(if 0 < exp - 0x0D then M * 2 ^ nat (exp - 0x0D) else M) = (2 ^ 10 + f) * 2 ^ k"
      using 4 by (simp add: M_def k_def)
    ultimately show ?thesis using 4 by simp
  qed
qed

text \<open>The early exit: an operand that is an integer.\<close>

lemma to_int_integer:
  assumes "0 \<le> e" "hi = 2 ^ k - 1" "n * 2 ^ nat e < 2 ^ k" "lo \<le> - (2 ^ k) \<or> \<not> s" "lo \<le> 0"
  shows "to_int lo hi m exact st s n e = (if s then - int (n * 2 ^ nat e) else int (n * 2 ^ nat e), st)"
proof -
  define N K where "N = n * 2 ^ nat e" and "K = (2 :: int) ^ k"
  have "int N < K" unfolding K_def using assms(3) by (simp flip: N_def of_nat_less_iff)
  moreover have "rscale m s n (- e) = N" "rexact n (- e)" using assms(1) by (simp_all add: rscale_def rexact_def N_def)
  ultimately show ?thesis
    using assms unfolding to_int_def limit_result_def Let_def N_def [symmetric] K_def [symmetric] by (cases s) auto
qed

lemma f16_to_i32_int: "f16_to_i32 a mode exact st =
    fp_to_int (- (2 ^ 31)) (2 ^ 31 - 1) (int_rmode mode) exact st (decode f16_fmt (unat a))"
proof -
  have "unat (ucast a :: u64) = unat a" using unat_lt_16 [of a] by (simp add: unat_cast)
  define u where "u = (ucast a :: u64)"
  have ua: "unat a = unat u" using \<open>unat (ucast a :: u64) = unat a\<close> by (simp add: u_def)
  define f exp s where "f = unat (fracF16UI u)" and "exp = expF16UI u" and "s = signF16UI u"
  have z: "fracF16UI u = 0 \<longleftrightarrow> f = 0" by (simp add: f_def word_eq_nat)
  have f: "f < 2 ^ 10" unfolding f_def by (rule fracF16_bound)
  have e: "0 \<le> exp" "exp \<le> 0x1F" unfolding exp_def by (rule expF16_bounds)+
  have dec: "decode f16_fmt (unat a) = (if exp = 0x1F then if f = 0 then Inf s else NaN (softfloat_isSigNaNF16UI u)
      else if exp = 0 then Fin s f (- 24) else Fin s (2 ^ 10 + f) (exp - 1 + - 24))"
    unfolding ua decodeF16 z f_def exp_def s_def ..
  have hid: "unat (fracF16UI u OR 0x0400) = 2 ^ 10 + f"
    using f or_disjoint_nat [of f 10 1] by (simp add: f_def unat_disj or.commute)
  define sig where "sig = (if exp \<noteq> 0 then fracF16UI u OR 0x0400 else fracF16UI u)"
  define M where "M = (if exp \<noteq> 0 then 2 ^ 10 + f else f)"
  have sig: "unat sig = M" using hid by (simp add: sig_def M_def f_def)
  have M: "M < 2 ^ 11" using f by (simp add: M_def)
  define S where "S = (if 0 < exp - 0x0D then push_bit (nat (exp - 0x0D)) sig else sig)"
  have pw: "(2 :: nat) ^ nat (exp - 0x0D) \<le> 2 ^ 18" using e by (intro power_increasing) simp_all
  have "M * 2 ^ nat (exp - 0x0D) \<le> M * 2 ^ 18" using pw by (rule mult_le_mono2)
  also have "\<dots> < 2 ^ 29" using M by simp
  finally have lt: "M * 2 ^ nat (exp - 0x0D) < 2 ^ 29" .
  then have S: "unat S = (if 0 < exp - 0x0D then M * 2 ^ nat (exp - 0x0D) else M)"
    by (simp add: S_def unat_push sig)
  have S63: "unat S < 2 ^ 63" using S lt M by simp
  note defs = f16_to_i32_def Let_def u_def [symmetric] exp_def [symmetric] s_def [symmetric] z
  show ?thesis
  proof (cases "exp = 0x1F")
    case True
    then show ?thesis unfolding defs dec by (simp add: i32_fromNaN_def i32_fromNegOverflow_def i32_fromPosOverflow_def)
  next
    case False
    have x: "fp_to_int (- (2 ^ 31)) (2 ^ 31 - 1) (int_rmode mode) exact st (decode f16_fmt (unat a)) =
        (if exp = 0 then to_int (- (2 ^ 31)) (2 ^ 31 - 1) (int_rmode mode) exact st s f (- 24)
         else to_int (- (2 ^ 31)) (2 ^ 31 - 1) (int_rmode mode) exact st s (2 ^ 10 + f) (exp - 1 + - 24))"
      unfolding dec using False by simp

    have wide: "to_int (- (2 ^ 31)) (2 ^ 31 - 1) (int_rmode mode) exact st s (unat S) (- 12) =
        to_int (- (2 ^ 31)) (2 ^ 31 - 1) (int_rmode mode) exact st s (if 0 < exp - 0x0D then M * 2 ^ nat (exp - 0x0D) else M) (- 12)"
      using S by simp
    have late: "to_int (- (2 ^ 31)) (2 ^ 31 - 1) (int_rmode mode) exact st s (unat S) (- 12) =
        fp_to_int (- (2 ^ 31)) (2 ^ 31 - 1) (int_rmode mode) exact st (decode f16_fmt (unat a))"
      unfolding x wide M_def by (rule to_int_course16 [OF f e(1)]) simp_all
    show ?thesis
    proof (cases "exp \<noteq> 0 \<and> 0 \<le> exp - 0x19")
      case True
      define j where "j = nat (exp - 0x19)"
      have j: "j \<le> 5" "exp - 1 + - 24 = int j" "exp - 0x19 = int j" using True False e by (simp_all add: j_def)
      have "(2 :: nat) ^ j \<le> 2 ^ 5" using j(1) by (intro power_increasing) simp_all
      then have "(2 ^ 10 + f) * 2 ^ j \<le> (2 ^ 10 + f) * 2 ^ 5" by (rule mult_le_mono2)
      then have small: "(2 ^ 10 + f) * 2 ^ j < 2 ^ 16" using f by simp
      have "to_int (- (2 ^ 31)) (2 ^ 31 - 1) (int_rmode mode) exact st s (2 ^ 10 + f) (int j) =
          (if s then - int ((2 ^ 10 + f) * 2 ^ j) else int ((2 ^ 10 + f) * 2 ^ j), st)"
        using small to_int_integer [of "int j" "(2 ^ 31 - 1)" 31 "2 ^ 10 + f" "(- (2 ^ 31))" s] by simp
      moreover have "uint (push_bit j (fracF16UI u OR 0x0400)) = int ((2 ^ 10 + f) * 2 ^ j)"
        using small by (simp only: uint_nat unat_push hid) simp
      ultimately show ?thesis
        using True False unfolding x defs j(2) by (simp add: j(3))
    next
      case early: False
      have "f16_to_i32 a mode exact st = softfloat_roundToI32 s S mode exact st"
        using early False unfolding defs S_def sig_def by auto
      then show ?thesis using roundToI32_int [OF S63] late by simp
    qed
  qed
qed

lemma f16_to_ui32_int: "uints (f16_to_ui32 a mode exact st) =
    fp_to_int 0 (2 ^ 32 - 1) (int_rmode mode) exact st (decode f16_fmt (unat a))"
proof -
  have "unat (ucast a :: u64) = unat a" using unat_lt_16 [of a] by (simp add: unat_cast)
  define u where "u = (ucast a :: u64)"
  have ua: "unat a = unat u" using \<open>unat (ucast a :: u64) = unat a\<close> by (simp add: u_def)
  define f exp s where "f = unat (fracF16UI u)" and "exp = expF16UI u" and "s = signF16UI u"
  have z: "fracF16UI u = 0 \<longleftrightarrow> f = 0" by (simp add: f_def word_eq_nat)
  have f: "f < 2 ^ 10" unfolding f_def by (rule fracF16_bound)
  have e: "0 \<le> exp" "exp \<le> 0x1F" unfolding exp_def by (rule expF16_bounds)+
  have dec: "decode f16_fmt (unat a) = (if exp = 0x1F then if f = 0 then Inf s else NaN (softfloat_isSigNaNF16UI u)
      else if exp = 0 then Fin s f (- 24) else Fin s (2 ^ 10 + f) (exp - 1 + - 24))"
    unfolding ua decodeF16 z f_def exp_def s_def ..
  have hid: "unat (fracF16UI u OR 0x0400) = 2 ^ 10 + f"
    using f or_disjoint_nat [of f 10 1] by (simp add: f_def unat_disj or.commute)
  define sig where "sig = (if exp \<noteq> 0 then fracF16UI u OR 0x0400 else fracF16UI u)"
  define M where "M = (if exp \<noteq> 0 then 2 ^ 10 + f else f)"
  have sig: "unat sig = M" using hid by (simp add: sig_def M_def f_def)
  have M: "M < 2 ^ 11" using f by (simp add: M_def)
  define S where "S = (if 0 < exp - 0x0D then push_bit (nat (exp - 0x0D)) sig else sig)"
  have pw: "(2 :: nat) ^ nat (exp - 0x0D) \<le> 2 ^ 18" using e by (intro power_increasing) simp_all
  have "M * 2 ^ nat (exp - 0x0D) \<le> M * 2 ^ 18" using pw by (rule mult_le_mono2)
  also have "\<dots> < 2 ^ 29" using M by simp
  finally have lt: "M * 2 ^ nat (exp - 0x0D) < 2 ^ 29" .
  then have S: "unat S = (if 0 < exp - 0x0D then M * 2 ^ nat (exp - 0x0D) else M)"
    by (simp add: S_def unat_push sig)
  have S63: "unat S < 2 ^ 63" using S lt M by simp
  note defs = f16_to_ui32_def Let_def u_def [symmetric] exp_def [symmetric] s_def [symmetric] z
  show ?thesis
  proof (cases "exp = 0x1F")
    case True
    then show ?thesis unfolding defs dec by (simp add: uints_def ui32_fromNaN_def ui32_fromNegOverflow_def ui32_fromPosOverflow_def)
  next
    case False
    have x: "fp_to_int 0 (2 ^ 32 - 1) (int_rmode mode) exact st (decode f16_fmt (unat a)) =
        (if exp = 0 then to_int 0 (2 ^ 32 - 1) (int_rmode mode) exact st s f (- 24)
         else to_int 0 (2 ^ 32 - 1) (int_rmode mode) exact st s (2 ^ 10 + f) (exp - 1 + - 24))"
      unfolding dec using False by simp

    have wide: "to_int 0 (2 ^ 32 - 1) (int_rmode mode) exact st s (unat S) (- 12) =
        to_int 0 (2 ^ 32 - 1) (int_rmode mode) exact st s (if 0 < exp - 0x0D then M * 2 ^ nat (exp - 0x0D) else M) (- 12)"
      using S by simp
    have late: "to_int 0 (2 ^ 32 - 1) (int_rmode mode) exact st s (unat S) (- 12) =
        fp_to_int 0 (2 ^ 32 - 1) (int_rmode mode) exact st (decode f16_fmt (unat a))"
      unfolding x wide M_def by (rule to_int_course16 [OF f e(1)]) simp_all
    show ?thesis
    proof (cases "exp \<noteq> 0 \<and> 0 \<le> exp - 0x19 \<and> \<not> s")
      case True
      define j where "j = nat (exp - 0x19)"
      have j: "j \<le> 5" "exp - 1 + - 24 = int j" "exp - 0x19 = int j" using True False e by (simp_all add: j_def)
      have "(2 :: nat) ^ j \<le> 2 ^ 5" using j(1) by (intro power_increasing) simp_all
      then have "(2 ^ 10 + f) * 2 ^ j \<le> (2 ^ 10 + f) * 2 ^ 5" by (rule mult_le_mono2)
      then have small: "(2 ^ 10 + f) * 2 ^ j < 2 ^ 16" using f by simp
      have "to_int 0 (2 ^ 32 - 1) (int_rmode mode) exact st s (2 ^ 10 + f) (int j) =
          (if s then - int ((2 ^ 10 + f) * 2 ^ j) else int ((2 ^ 10 + f) * 2 ^ j), st)"
        using small True to_int_integer [of "int j" "(2 ^ 32 - 1)" 32 "2 ^ 10 + f" "0" s] by simp
      moreover have "uint (push_bit j (fracF16UI u OR 0x0400)) = int ((2 ^ 10 + f) * 2 ^ j)"
        using small by (simp only: uint_nat unat_push hid) simp
      ultimately show ?thesis
        using True False unfolding x defs j(2) by (simp add: uints_def j(3))
    next
      case early: False
      have "uints (f16_to_ui32 a mode exact st) = uints (softfloat_roundToUI32 s S mode exact st)"
        using early False unfolding defs S_def sig_def by auto
      then show ?thesis using roundToUI32_int [OF S63] late by simp
    qed
  qed
qed

lemma f16_to_i64_int: "f16_to_i64 a mode exact st =
    fp_to_int (- (2 ^ 63)) (2 ^ 63 - 1) (int_rmode mode) exact st (decode f16_fmt (unat a))"
proof -
  have "unat (ucast a :: u64) = unat a" using unat_lt_16 [of a] by (simp add: unat_cast)
  define u where "u = (ucast a :: u64)"
  have ua: "unat a = unat u" using \<open>unat (ucast a :: u64) = unat a\<close> by (simp add: u_def)
  define f exp s where "f = unat (fracF16UI u)" and "exp = expF16UI u" and "s = signF16UI u"
  have z: "fracF16UI u = 0 \<longleftrightarrow> f = 0" by (simp add: f_def word_eq_nat)
  have f: "f < 2 ^ 10" unfolding f_def by (rule fracF16_bound)
  have e: "0 \<le> exp" "exp \<le> 0x1F" unfolding exp_def by (rule expF16_bounds)+
  have dec: "decode f16_fmt (unat a) = (if exp = 0x1F then if f = 0 then Inf s else NaN (softfloat_isSigNaNF16UI u)
      else if exp = 0 then Fin s f (- 24) else Fin s (2 ^ 10 + f) (exp - 1 + - 24))"
    unfolding ua decodeF16 z f_def exp_def s_def ..
  have hid: "unat (fracF16UI u OR 0x0400) = 2 ^ 10 + f"
    using f or_disjoint_nat [of f 10 1] by (simp add: f_def unat_disj or.commute)
  define sig where "sig = (if exp \<noteq> 0 then fracF16UI u OR 0x0400 else fracF16UI u)"
  define M where "M = (if exp \<noteq> 0 then 2 ^ 10 + f else f)"
  have sig: "unat sig = M" using hid by (simp add: sig_def M_def f_def)
  have M: "M < 2 ^ 11" using f by (simp add: M_def)
  define S where "S = (if 0 < exp - 0x0D then push_bit (nat (exp - 0x0D)) sig else sig)"
  have pw: "(2 :: nat) ^ nat (exp - 0x0D) \<le> 2 ^ 18" using e by (intro power_increasing) simp_all
  have "M * 2 ^ nat (exp - 0x0D) \<le> M * 2 ^ 18" using pw by (rule mult_le_mono2)
  also have "\<dots> < 2 ^ 29" using M by simp
  finally have lt: "M * 2 ^ nat (exp - 0x0D) < 2 ^ 29" .
  then have S: "unat S = (if 0 < exp - 0x0D then M * 2 ^ nat (exp - 0x0D) else M)"
    by (simp add: S_def unat_push sig)
  have S63: "unat S < 2 ^ 63" using S lt M by simp
  note defs = f16_to_i64_def Let_def u_def [symmetric] exp_def [symmetric] s_def [symmetric] z
  show ?thesis
  proof (cases "exp = 0x1F")
    case True
    then show ?thesis unfolding defs dec by (simp add: i64_fromNaN_def i64_fromNegOverflow_def i64_fromPosOverflow_def)
  next
    case False
    have x: "fp_to_int (- (2 ^ 63)) (2 ^ 63 - 1) (int_rmode mode) exact st (decode f16_fmt (unat a)) =
        (if exp = 0 then to_int (- (2 ^ 63)) (2 ^ 63 - 1) (int_rmode mode) exact st s f (- 24)
         else to_int (- (2 ^ 63)) (2 ^ 63 - 1) (int_rmode mode) exact st s (2 ^ 10 + f) (exp - 1 + - 24))"
      unfolding dec using False by simp

    have "to_int (- (2 ^ 31)) (2 ^ 31 - 1) (int_rmode mode) exact st s (if 0 < exp - 0x0D then M * 2 ^ nat (exp - 0x0D) else M) (- 12) =
        to_int (- (2 ^ 63)) (2 ^ 63 - 1) (int_rmode mode) exact st s (if 0 < exp - 0x0D then M * 2 ^ nat (exp - 0x0D) else M) (- 12)"
      using lt M by (intro to_int_wider(1) [where B = "2 ^ 30"]) simp_all
    then have wide: "to_int (- (2 ^ 31)) (2 ^ 31 - 1) (int_rmode mode) exact st s (unat S) (- 12) =
        to_int (- (2 ^ 63)) (2 ^ 63 - 1) (int_rmode mode) exact st s (if 0 < exp - 0x0D then M * 2 ^ nat (exp - 0x0D) else M) (- 12)"
      using S by simp
    have late: "to_int (- (2 ^ 31)) (2 ^ 31 - 1) (int_rmode mode) exact st s (unat S) (- 12) =
        fp_to_int (- (2 ^ 63)) (2 ^ 63 - 1) (int_rmode mode) exact st (decode f16_fmt (unat a))"
      unfolding x wide M_def by (rule to_int_course16 [OF f e(1)]) simp_all
    show ?thesis
    proof (cases "exp \<noteq> 0 \<and> 0 \<le> exp - 0x19")
      case True
      define j where "j = nat (exp - 0x19)"
      have j: "j \<le> 5" "exp - 1 + - 24 = int j" "exp - 0x19 = int j" using True False e by (simp_all add: j_def)
      have "(2 :: nat) ^ j \<le> 2 ^ 5" using j(1) by (intro power_increasing) simp_all
      then have "(2 ^ 10 + f) * 2 ^ j \<le> (2 ^ 10 + f) * 2 ^ 5" by (rule mult_le_mono2)
      then have small: "(2 ^ 10 + f) * 2 ^ j < 2 ^ 16" using f by simp
      have "to_int (- (2 ^ 63)) (2 ^ 63 - 1) (int_rmode mode) exact st s (2 ^ 10 + f) (int j) =
          (if s then - int ((2 ^ 10 + f) * 2 ^ j) else int ((2 ^ 10 + f) * 2 ^ j), st)"
        using small to_int_integer [of "int j" "(2 ^ 63 - 1)" 63 "2 ^ 10 + f" "(- (2 ^ 63))" s] by simp
      moreover have "uint (push_bit j (fracF16UI u OR 0x0400)) = int ((2 ^ 10 + f) * 2 ^ j)"
        using small by (simp only: uint_nat unat_push hid) simp
      ultimately show ?thesis
        using True False unfolding x defs j(2) by (simp add: j(3))
    next
      case early: False
      have "f16_to_i64 a mode exact st = softfloat_roundToI32 s S mode exact st"
        using early False unfolding defs S_def sig_def by auto
      then show ?thesis using roundToI32_int [OF S63] late by simp
    qed
  qed
qed

lemma f16_to_ui64_int: "uints (f16_to_ui64 a mode exact st) =
    fp_to_int 0 (2 ^ 64 - 1) (int_rmode mode) exact st (decode f16_fmt (unat a))"
proof -
  have "unat (ucast a :: u64) = unat a" using unat_lt_16 [of a] by (simp add: unat_cast)
  define u where "u = (ucast a :: u64)"
  have ua: "unat a = unat u" using \<open>unat (ucast a :: u64) = unat a\<close> by (simp add: u_def)
  define f exp s where "f = unat (fracF16UI u)" and "exp = expF16UI u" and "s = signF16UI u"
  have z: "fracF16UI u = 0 \<longleftrightarrow> f = 0" by (simp add: f_def word_eq_nat)
  have f: "f < 2 ^ 10" unfolding f_def by (rule fracF16_bound)
  have e: "0 \<le> exp" "exp \<le> 0x1F" unfolding exp_def by (rule expF16_bounds)+
  have dec: "decode f16_fmt (unat a) = (if exp = 0x1F then if f = 0 then Inf s else NaN (softfloat_isSigNaNF16UI u)
      else if exp = 0 then Fin s f (- 24) else Fin s (2 ^ 10 + f) (exp - 1 + - 24))"
    unfolding ua decodeF16 z f_def exp_def s_def ..
  have hid: "unat (fracF16UI u OR 0x0400) = 2 ^ 10 + f"
    using f or_disjoint_nat [of f 10 1] by (simp add: f_def unat_disj or.commute)
  define sig where "sig = (if exp \<noteq> 0 then fracF16UI u OR 0x0400 else fracF16UI u)"
  define M where "M = (if exp \<noteq> 0 then 2 ^ 10 + f else f)"
  have sig: "unat sig = M" using hid by (simp add: sig_def M_def f_def)
  have M: "M < 2 ^ 11" using f by (simp add: M_def)
  define S where "S = (if 0 < exp - 0x0D then push_bit (nat (exp - 0x0D)) sig else sig)"
  have pw: "(2 :: nat) ^ nat (exp - 0x0D) \<le> 2 ^ 18" using e by (intro power_increasing) simp_all
  have "M * 2 ^ nat (exp - 0x0D) \<le> M * 2 ^ 18" using pw by (rule mult_le_mono2)
  also have "\<dots> < 2 ^ 29" using M by simp
  finally have lt: "M * 2 ^ nat (exp - 0x0D) < 2 ^ 29" .
  then have S: "unat S = (if 0 < exp - 0x0D then M * 2 ^ nat (exp - 0x0D) else M)"
    by (simp add: S_def unat_push sig)
  have S63: "unat S < 2 ^ 63" using S lt M by simp
  note defs = f16_to_ui64_def Let_def u_def [symmetric] exp_def [symmetric] s_def [symmetric] z
  show ?thesis
  proof (cases "exp = 0x1F")
    case True
    then show ?thesis unfolding defs dec by (simp add: uints_def ui64_fromNaN_def ui64_fromNegOverflow_def ui64_fromPosOverflow_def)
  next
    case False
    have x: "fp_to_int 0 (2 ^ 64 - 1) (int_rmode mode) exact st (decode f16_fmt (unat a)) =
        (if exp = 0 then to_int 0 (2 ^ 64 - 1) (int_rmode mode) exact st s f (- 24)
         else to_int 0 (2 ^ 64 - 1) (int_rmode mode) exact st s (2 ^ 10 + f) (exp - 1 + - 24))"
      unfolding dec using False by simp

    have "to_int 0 (2 ^ 32 - 1) (int_rmode mode) exact st s (if 0 < exp - 0x0D then M * 2 ^ nat (exp - 0x0D) else M) (- 12) =
        to_int 0 (2 ^ 64 - 1) (int_rmode mode) exact st s (if 0 < exp - 0x0D then M * 2 ^ nat (exp - 0x0D) else M) (- 12)"
      using lt M by (intro to_int_wider(2) [where B = "2 ^ 30"]) simp_all
    then have wide: "to_int 0 (2 ^ 32 - 1) (int_rmode mode) exact st s (unat S) (- 12) =
        to_int 0 (2 ^ 64 - 1) (int_rmode mode) exact st s (if 0 < exp - 0x0D then M * 2 ^ nat (exp - 0x0D) else M) (- 12)"
      using S by simp
    have late: "to_int 0 (2 ^ 32 - 1) (int_rmode mode) exact st s (unat S) (- 12) =
        fp_to_int 0 (2 ^ 64 - 1) (int_rmode mode) exact st (decode f16_fmt (unat a))"
      unfolding x wide M_def by (rule to_int_course16 [OF f e(1)]) simp_all
    show ?thesis
    proof (cases "exp \<noteq> 0 \<and> 0 \<le> exp - 0x19 \<and> \<not> s")
      case True
      define j where "j = nat (exp - 0x19)"
      have j: "j \<le> 5" "exp - 1 + - 24 = int j" "exp - 0x19 = int j" using True False e by (simp_all add: j_def)
      have "(2 :: nat) ^ j \<le> 2 ^ 5" using j(1) by (intro power_increasing) simp_all
      then have "(2 ^ 10 + f) * 2 ^ j \<le> (2 ^ 10 + f) * 2 ^ 5" by (rule mult_le_mono2)
      then have small: "(2 ^ 10 + f) * 2 ^ j < 2 ^ 16" using f by simp
      have "to_int 0 (2 ^ 64 - 1) (int_rmode mode) exact st s (2 ^ 10 + f) (int j) =
          (if s then - int ((2 ^ 10 + f) * 2 ^ j) else int ((2 ^ 10 + f) * 2 ^ j), st)"
        using small True to_int_integer [of "int j" "(2 ^ 64 - 1)" 64 "2 ^ 10 + f" "0" s] by simp
      moreover have "uint (push_bit j (fracF16UI u OR 0x0400)) = int ((2 ^ 10 + f) * 2 ^ j)"
        using small by (simp only: uint_nat unat_push hid) simp
      ultimately show ?thesis
        using True False unfolding x defs j(2) by (simp add: uints_def j(3))
    next
      case early: False
      have "uints (f16_to_ui64 a mode exact st) = uints (softfloat_roundToUI32 s S mode exact st)"
        using early False unfolding defs S_def sig_def by auto
      then show ?thesis using roundToUI32_int [OF S63] late by simp
    qed
  qed
qed

section \<open>The narrow conversions\<close>

text \<open>Clamping a 32-bit result, with the flags of the wider conversion put back, is a narrow conversion.\<close>

lemma raise_invalid_fields:
  "(softfloat_raiseFlags f st)\<lparr>softfloat_exceptionFlags := softfloat_exceptionFlags st OR softfloat_flag_invalid\<rparr> =
    softfloat_raiseFlags softfloat_flag_invalid st"
  "st\<lparr>softfloat_exceptionFlags := softfloat_exceptionFlags st OR softfloat_flag_invalid\<rparr> =
    softfloat_raiseFlags softfloat_flag_invalid st"
  by (simp_all add: softfloat_raiseFlags_def)

lemma fromNegOverflow_min:
  "i8_fromNegOverflow = - 0x80" "i16_fromNegOverflow = - 0x8000"
  by (simp_all add: i8_fromNegOverflow_def i16_fromNegOverflow_def)

lemma clamp_fp_to_int:
  assumes "lo < lo'" "lo' \<le> 0" "0 \<le> hi'" "hi' < hi"
  shows "fp_to_int lo' hi' m exact st x =
    (let (z, st') = fp_to_int lo hi m exact st x
     in if hi' < z then (hi', st'\<lparr>softfloat_exceptionFlags := softfloat_exceptionFlags st OR softfloat_flag_invalid\<rparr>)
        else if z < lo' then (lo', st'\<lparr>softfloat_exceptionFlags := softfloat_exceptionFlags st OR softfloat_flag_invalid\<rparr>)
        else (z, st'))"
  using assms by (cases x) (auto simp: to_int_def limit_result_def Let_def raise_invalid_fields)

lemma clamp_fp_to_uint:
  assumes "0 \<le> hi'" "hi' < hi"
  shows "fp_to_int 0 hi' m exact st x =
    (let (z, st') = fp_to_int 0 hi m exact st x
     in if hi' < z then (hi', st'\<lparr>softfloat_exceptionFlags := softfloat_exceptionFlags st OR softfloat_flag_invalid\<rparr>)
        else (z, st'))"
  using assms by (cases x) (auto simp: to_int_def limit_result_def Let_def raise_invalid_fields)

lemma f16_to_i8_int: "f16_to_i8 a mode exact st =
    fp_to_int (- 0x80) 0x7F (int_rmode mode) exact st (decode f16_fmt (unat a))"
  unfolding f16_to_i8_def f16_to_i32_int Let_def i8_fromPosOverflow_def fromNegOverflow_min
  by (subst clamp_fp_to_int [of "- (2 ^ 31)" "(- 0x80)" "0x7F" "2 ^ 31 - 1"]) simp_all

lemma f16_to_i16_int: "f16_to_i16 a mode exact st =
    fp_to_int (- 0x8000) 0x7FFF (int_rmode mode) exact st (decode f16_fmt (unat a))"
  unfolding f16_to_i16_def f16_to_i32_int Let_def i16_fromPosOverflow_def fromNegOverflow_min
  by (subst clamp_fp_to_int [of "- (2 ^ 31)" "(- 0x8000)" "0x7FFF" "2 ^ 31 - 1"]) simp_all

lemma f32_to_i16_int: "f32_to_i16 a mode exact st =
    fp_to_int (- 0x8000) 0x7FFF (int_rmode mode) exact st (decode f32_fmt (unat a))"
  unfolding f32_to_i16_def f32_to_i32_int Let_def i16_fromPosOverflow_def fromNegOverflow_min
  by (subst clamp_fp_to_int [of "- (2 ^ 31)" "(- 0x8000)" "0x7FFF" "2 ^ 31 - 1"]) simp_all

lemma f16_to_ui8_int: "uints (f16_to_ui8 a mode exact st) =
    fp_to_int 0 0xFF (int_rmode mode) exact st (decode f16_fmt (unat a))"
proof -
  obtain z st' where z: "f16_to_ui32 a mode exact st = (z, st')" by (cases "f16_to_ui32 a mode exact st")
  have "(0xFF < z) = (0xFF < uint z)" by (simp add: word_less_def)
  then show ?thesis
    using f16_to_ui32_int [of a mode exact st, symmetric] clamp_fp_to_uint [of "0xFF" "2 ^ 32 - 1"]
    by (simp add: f16_to_ui8_def z uints_def ui8_fromPosOverflow_def ui16_fromPosOverflow_def)
qed

lemma f16_to_ui16_int: "uints (f16_to_ui16 a mode exact st) =
    fp_to_int 0 0xFFFF (int_rmode mode) exact st (decode f16_fmt (unat a))"
proof -
  obtain z st' where z: "f16_to_ui32 a mode exact st = (z, st')" by (cases "f16_to_ui32 a mode exact st")
  have "(0xFFFF < z) = (0xFFFF < uint z)" by (simp add: word_less_def)
  then show ?thesis
    using f16_to_ui32_int [of a mode exact st, symmetric] clamp_fp_to_uint [of "0xFFFF" "2 ^ 32 - 1"]
    by (simp add: f16_to_ui16_def z uints_def ui8_fromPosOverflow_def ui16_fromPosOverflow_def)
qed

lemma f32_to_ui16_int: "uints (f32_to_ui16 a mode exact st) =
    fp_to_int 0 0xFFFF (int_rmode mode) exact st (decode f32_fmt (unat a))"
proof -
  obtain z st' where z: "f32_to_ui32 a mode exact st = (z, st')" by (cases "f32_to_ui32 a mode exact st")
  have "(0xFFFF < z) = (0xFFFF < uint z)" by (simp add: word_less_def)
  then show ?thesis
    using f32_to_ui32_int [of a mode exact st, symmetric] clamp_fp_to_uint [of "0xFFFF" "2 ^ 32 - 1"]
    by (simp add: f32_to_ui16_def z uints_def ui8_fromPosOverflow_def ui16_fromPosOverflow_def)
qed

section \<open>Integers converted and back\<close>

lemma to_int_same:
  assumes "of_nat m * 2 powi i = (of_nat n * 2 powi j :: rat)"
  shows "to_int lo hi r exact st s m i = to_int lo hi r exact st s n j"
proof (cases "i \<le> j")
  case True
  then show ?thesis
    using same_value_cases [OF assms True] to_int_double [of lo hi r exact st s n "nat (j - i)" j] by simp
next
  case False
  then have "j \<le> i" by simp
  then show ?thesis
    using same_value_cases [OF assms [symmetric] \<open>j \<le> i\<close>] to_int_double [of lo hi r exact st s m "nat (i - j)" i] by simp
qed

lemma fp_to_int_same: "fp_same x y \<Longrightarrow> fp_to_int lo hi m exact st x = fp_to_int lo hi m exact st y"
  by (cases x; cases y) (auto intro: to_int_same)

lemma fp_to_int_integer:
  assumes "lo \<le> i" "i \<le> hi"
  shows "fp_to_int lo hi m exact st (Fin (i < 0) (nat \<bar>i\<bar>) 0) = (i, st)"
proof -
  have "rscale m s n (- 0) = n" "rexact n (- 0)" for s n by (simp_all add: rscale_def rexact_def)
  then show ?thesis using assms by (auto simp: to_int_def limit_result_def)
qed

text \<open>An integer with no more bits than the significand has is representable.\<close>

lemma int_result_exact:
  assumes F: "2 \<le> exp_max F" "lsb_exp F + int (frac_bits F) \<le> 0" "2 \<le> int (exp_max F) + lsb_exp F"
    and i: "\<bar>i\<bar> < 2 ^ (frac_bits F + 1)"
  shows "fp_same (decode F (fst (int_result F st i))) (Fin (i < 0) (nat \<bar>i\<bar>) 0)" "snd (int_result F st i) = st"
proof -
  define n where "n = nat \<bar>i\<bar>"
  have "fp_same (decode F (fst (int_result F st i))) (Fin (i < 0) n 0) \<and> snd (int_result F st i) = st"
  proof (cases "n = 0")
    case True
    then have "i = 0" by (simp add: n_def)
    then show ?thesis using True F(1) decode_zero_result [of F st False] by (simp add: int_result_def ieee_result_zero) (simp add: zero_result_def)
  next
    case False
    define c where "c = frac_bits F + 1 - bitlen n"
    have lt: "n < 2 ^ (frac_bits F + 1)" using i unfolding n_def by (simp add: nat_less_iff)
    have b: "bitlen n \<le> frac_bits F + 1" using lt by (simp only: bitlen_le_iff)
    have b0: "0 < bitlen n" using False by (metis bitlen_eq_0_iff gr0I)
    have m0: "0 < n" using False by simp
    note nrm = normalised_shift [OF m0 lt, folded c_def]
    define x where "x = - int c - lsb_exp F"
    have c: "int c = int (frac_bits F) + 1 - int (bitlen n)" using b by (simp add: c_def)
    have x: "0 \<le> x" "x \<le> int (exp_max F) - 2" using F(2,3) b0 c by (simp_all add: x_def)
    have q: "2 ^ frac_bits F \<le> n * 2 ^ c" "n * 2 ^ c < 2 ^ (frac_bits F + 1)" using nrm by simp_all
    have "ieee_result F st (i < 0) n 0 = (of_bool (i < 0) * sign_weight F + (nat x * 2 ^ frac_bits F + n * 2 ^ c), st)"
      using q F(1) x by (intro ieee_result_normal [where c = c]) (simp_all add: x_def)
    moreover have "of_nat (n * 2 ^ c) * 2 powi (x + lsb_exp F) = (of_nat n * 2 powi 0 :: rat)"
      by (simp add: x_def power_int_minus field_simps)
    ultimately show ?thesis using decode_normal [OF q x] by (simp add: int_result_def n_def)
  qed
  then show "fp_same (decode F (fst (int_result F st i))) (Fin (i < 0) (nat \<bar>i\<bar>) 0)" "snd (int_result F st i) = st"
    by (simp_all add: n_def)
qed

lemma int_result_back:
  assumes "2 \<le> exp_max F" "lsb_exp F + int (frac_bits F) \<le> 0" "2 \<le> int (exp_max F) + lsb_exp F"
    and "\<bar>i\<bar> < 2 ^ (frac_bits F + 1)" "lo \<le> i" "i \<le> hi" "bits r = int_result F st i"
  shows "fp_to_int lo hi m exact st' (decode F (unat (fst r))) = (i, st')"
  using assms(7) int_result_exact [OF assms(1-4), of st] fp_to_int_same fp_to_int_integer [OF assms(5,6)]
  by (metis bits_def fst_conv)

lemma int_result_quiet:
  assumes "2 \<le> exp_max F" "lsb_exp F + int (frac_bits F) \<le> 0" "2 \<le> int (exp_max F) + lsb_exp F"
    and "\<bar>i\<bar> < 2 ^ (frac_bits F + 1)" "bits r = int_result F st i"
  shows "snd r = st"
  using assms(5) int_result_exact(2) [OF assms(1-4), of st] by (metis bits_def snd_conv)

lemma sint_32_bounds: "- (2 ^ 31) \<le> sint a" "sint a \<le> 2 ^ 31 - 1" for a :: u32
  using sint_range_size [of a] by (simp_all add: word_size)

lemma sint_64_bounds: "- (2 ^ 63) \<le> sint a" "sint a \<le> 2 ^ 63 - 1" for a :: u64
  using sint_range_size [of a] by (simp_all add: word_size)

section \<open>Properties\<close>

text \<open>C13: every conversion from a float to a 32-bit or 64-bit integer, signed or unsigned, rounds the value
  to an integer in the requested mode (rounding to odd truncates) and raises inexact exactly when asked
  to and something was lost; a value out of range, an infinity or a NaN returns the limit the
  specialisation prescribes and raises invalid alone.\<close>

theorem to_integer_correctly_rounded:
  "f16_to_i32 a mode exact st = fp_to_int (- (2 ^ 31)) (2 ^ 31 - 1) (int_rmode mode) exact st (decode f16_fmt (unat a)) \<and>
   uints (f16_to_ui32 a mode exact st) = fp_to_int 0 (2 ^ 32 - 1) (int_rmode mode) exact st (decode f16_fmt (unat a)) \<and>
   f16_to_i64 a mode exact st = fp_to_int (- (2 ^ 63)) (2 ^ 63 - 1) (int_rmode mode) exact st (decode f16_fmt (unat a)) \<and>
   uints (f16_to_ui64 a mode exact st) = fp_to_int 0 (2 ^ 64 - 1) (int_rmode mode) exact st (decode f16_fmt (unat a)) \<and>
   f32_to_i32 b mode exact st = fp_to_int (- (2 ^ 31)) (2 ^ 31 - 1) (int_rmode mode) exact st (decode f32_fmt (unat b)) \<and>
   uints (f32_to_ui32 b mode exact st) = fp_to_int 0 (2 ^ 32 - 1) (int_rmode mode) exact st (decode f32_fmt (unat b)) \<and>
   f32_to_i64 b mode exact st = fp_to_int (- (2 ^ 63)) (2 ^ 63 - 1) (int_rmode mode) exact st (decode f32_fmt (unat b)) \<and>
   uints (f32_to_ui64 b mode exact st) = fp_to_int 0 (2 ^ 64 - 1) (int_rmode mode) exact st (decode f32_fmt (unat b)) \<and>
   f64_to_i32 c mode exact st = fp_to_int (- (2 ^ 31)) (2 ^ 31 - 1) (int_rmode mode) exact st (decode f64_fmt (unat c)) \<and>
   uints (f64_to_ui32 c mode exact st) = fp_to_int 0 (2 ^ 32 - 1) (int_rmode mode) exact st (decode f64_fmt (unat c)) \<and>
   f64_to_i64 c mode exact st = fp_to_int (- (2 ^ 63)) (2 ^ 63 - 1) (int_rmode mode) exact st (decode f64_fmt (unat c)) \<and>
   uints (f64_to_ui64 c mode exact st) = fp_to_int 0 (2 ^ 64 - 1) (int_rmode mode) exact st (decode f64_fmt (unat c))"
  by (intro conjI f16_to_i32_int f16_to_ui32_int f16_to_i64_int f16_to_ui64_int f32_to_i32_int f32_to_ui32_int
      f32_to_i64_int f32_to_ui64_int f64_to_i32_int f64_to_ui32_int f64_to_i64_int f64_to_ui64_int)

text \<open>The conversions to 8-bit and 16-bit integers, which clamp a 32-bit conversion and restore the flags
  it raised, behave as a direct conversion to the narrow range.\<close>

theorem to_narrow_integer_correctly_rounded:
  "f16_to_i8 a mode exact st = fp_to_int (- 0x80) 0x7F (int_rmode mode) exact st (decode f16_fmt (unat a)) \<and>
   uints (f16_to_ui8 a mode exact st) = fp_to_int 0 0xFF (int_rmode mode) exact st (decode f16_fmt (unat a)) \<and>
   f16_to_i16 a mode exact st = fp_to_int (- 0x8000) 0x7FFF (int_rmode mode) exact st (decode f16_fmt (unat a)) \<and>
   uints (f16_to_ui16 a mode exact st) = fp_to_int 0 0xFFFF (int_rmode mode) exact st (decode f16_fmt (unat a)) \<and>
   f32_to_i16 b mode exact st = fp_to_int (- 0x8000) 0x7FFF (int_rmode mode) exact st (decode f32_fmt (unat b)) \<and>
   uints (f32_to_ui16 b mode exact st) = fp_to_int 0 0xFFFF (int_rmode mode) exact st (decode f32_fmt (unat b))"
  by (intro conjI f16_to_i8_int f16_to_ui8_int f16_to_i16_int f16_to_ui16_int f32_to_i16_int f32_to_ui16_int)

text \<open>An integer converted to a float and back is unchanged and raises nothing, in every rounding mode:
  all 32-bit integers through binary64, 64-bit ones of at most 53 bits, and 32-bit ones of at most 24
  bits through binary32.\<close>

theorem integer_float_roundtrip:
  assumes "\<bar>sint b\<bar> < 2 ^ 53" "\<bar>sint c\<bar> < 2 ^ 24"
  shows "f64_to_i32 (fst (i32_to_f64 a st)) mode exact st' = (sint a, st') \<and> snd (i32_to_f64 a st) = st \<and>
    f64_to_ui32 (fst (ui32_to_f64 a st)) mode exact st' = (ucast a, st') \<and> snd (ui32_to_f64 a st) = st \<and>
    f64_to_i64 (fst (i64_to_f64 b st)) mode exact st' = (sint b, st') \<and> snd (i64_to_f64 b st) = st \<and>
    f32_to_i32 (fst (i32_to_f32 c st)) mode exact st' = (sint c, st') \<and> snd (i32_to_f32 c st) = st"
proof -
  have u: "f64_to_ui32 x mode exact st' = (ucast a, st') \<longleftrightarrow> uints (f64_to_ui32 x mode exact st') = (int (unat a), st')" for x
    by (auto simp: uints_def prod_eq_iff word_uint_eq_iff uint_up_ucast is_up)
  note b = sint_32_bounds [of a] sint_64_bounds [of b] sint_32_bounds [of c] assms
  define n where "n = unat a"
  have n: "n < 2 ^ 32" using unat_lt_32 [of a] by (simp add: n_def)
  have conv: "bits (ui32_to_f64 a st) = int_result f64_fmt st (int n)" unfolding n_def by (rule ui32_to_f64_ieee)
  note r = int_result_back [OF _ _ _ _ _ _ i32_to_f64_ieee [of a st]] int_result_back [OF _ _ _ _ _ _ conv]
    int_result_back [OF _ _ _ _ _ _ i64_to_f64_ieee [of b st]] int_result_back [OF _ _ _ _ _ _ i32_to_f32_ieee [of c st]]
    int_result_quiet [OF _ _ _ _ i32_to_f64_ieee [of a st]] int_result_quiet [OF _ _ _ _ conv]
    int_result_quiet [OF _ _ _ _ i64_to_f64_ieee [of b st]] int_result_quiet [OF _ _ _ _ i32_to_f32_ieee [of c st]]
  show ?thesis
    unfolding u f64_to_i32_int f64_to_ui32_int f64_to_i64_int f32_to_i32_int n_def [symmetric] using b n by (simp add: r)
qed

theorem integer_float_roundtrip_witness:
  "f64_to_i64 (fst (i64_to_f64 0x1FFFFFFFFFFFFF softfloat_init)) softfloat_round_max True softfloat_init = (0x1FFFFFFFFFFFFF, softfloat_init)"
proof -
  have "sint (0x1FFFFFFFFFFFFF :: u64) = 0x1FFFFFFFFFFFFF" "sint (0x1234 :: u32) = 0x1234"
    by (simp_all add: sint_uint signed_take_bit_eq_if_positive)
  then show ?thesis
    using integer_float_roundtrip [where a = "0" and b = "0x1FFFFFFFFFFFFF" and c = "0x1234" and st = softfloat_init
        and mode = softfloat_round_max and exact = True and st' = softfloat_init] by simp
qed

end
