(* ===== verification/SF_Truncate.thy ===== *)
theory SF_Truncate
  imports SF_FloatToInt
begin

text \<open>
  The round-to-zero conversions \<open>f*_to_*_r_minMag\<close>, which bypass the rounding routines: they cut
  the significand at the binary point with shifts and masks. All twelve are shown to return the
  truncated value, so each agrees with the general conversion in the mode minMag.
\<close>

section \<open>Conversions that truncate: the routines\<close>

definition f16_to_i32_r_minMag :: "float16_t \<Rightarrow> bool \<Rightarrow> sf_state \<Rightarrow> int \<times> sf_state" where
  "f16_to_i32_r_minMag a exact st =
     (let uiA = ucast a :: u64;
          exp = expF16UI uiA; frac = fracF16UI uiA; sign = signF16UI uiA;
          shiftDist = exp - 0x0F
      in if shiftDist < 0 then (0, if exact \<and> (exp \<noteq> 0 \<or> frac \<noteq> 0) then softfloat_raiseFlags softfloat_flag_inexact st else st)
         else if exp = 0x1F then
          (if exp = 0x1F \<and> frac \<noteq> 0 then i32_fromNaN else if sign then i32_fromNegOverflow else i32_fromPosOverflow,
           softfloat_raiseFlags softfloat_flag_invalid st)
         else let alignedSig = push_bit (nat shiftDist) (frac OR 0x0400)
              in (if sign then - uint (drop_bit 10 alignedSig) else uint (drop_bit 10 alignedSig),
                  if exact \<and> alignedSig AND 0x3FF \<noteq> 0 then softfloat_raiseFlags softfloat_flag_inexact st else st))"

definition f16_to_ui32_r_minMag :: "float16_t \<Rightarrow> bool \<Rightarrow> sf_state \<Rightarrow> u64 \<times> sf_state" where
  "f16_to_ui32_r_minMag a exact st =
     (let uiA = ucast a :: u64;
          exp = expF16UI uiA; frac = fracF16UI uiA; sign = signF16UI uiA;
          shiftDist = exp - 0x0F
      in if shiftDist < 0 then (0, if exact \<and> (exp \<noteq> 0 \<or> frac \<noteq> 0) then softfloat_raiseFlags softfloat_flag_inexact st else st)
         else if sign \<or> exp = 0x1F then
          (if exp = 0x1F \<and> frac \<noteq> 0 then ui32_fromNaN else if sign then ui32_fromNegOverflow else ui32_fromPosOverflow,
           softfloat_raiseFlags softfloat_flag_invalid st)
         else let alignedSig = push_bit (nat shiftDist) (frac OR 0x0400)
              in (drop_bit 10 alignedSig,
                  if exact \<and> alignedSig AND 0x3FF \<noteq> 0 then softfloat_raiseFlags softfloat_flag_inexact st else st))"

definition f16_to_i64_r_minMag :: "float16_t \<Rightarrow> bool \<Rightarrow> sf_state \<Rightarrow> int \<times> sf_state" where
  "f16_to_i64_r_minMag a exact st =
     (let uiA = ucast a :: u64;
          exp = expF16UI uiA; frac = fracF16UI uiA; sign = signF16UI uiA;
          shiftDist = exp - 0x0F
      in if shiftDist < 0 then (0, if exact \<and> (exp \<noteq> 0 \<or> frac \<noteq> 0) then softfloat_raiseFlags softfloat_flag_inexact st else st)
         else if exp = 0x1F then
          (if exp = 0x1F \<and> frac \<noteq> 0 then i64_fromNaN else if sign then i64_fromNegOverflow else i64_fromPosOverflow,
           softfloat_raiseFlags softfloat_flag_invalid st)
         else let alignedSig = push_bit (nat shiftDist) (frac OR 0x0400)
              in (if sign then - uint (drop_bit 10 alignedSig) else uint (drop_bit 10 alignedSig),
                  if exact \<and> alignedSig AND 0x3FF \<noteq> 0 then softfloat_raiseFlags softfloat_flag_inexact st else st))"

definition f16_to_ui64_r_minMag :: "float16_t \<Rightarrow> bool \<Rightarrow> sf_state \<Rightarrow> u64 \<times> sf_state" where
  "f16_to_ui64_r_minMag a exact st =
     (let uiA = ucast a :: u64;
          exp = expF16UI uiA; frac = fracF16UI uiA; sign = signF16UI uiA;
          shiftDist = exp - 0x0F
      in if shiftDist < 0 then (0, if exact \<and> (exp \<noteq> 0 \<or> frac \<noteq> 0) then softfloat_raiseFlags softfloat_flag_inexact st else st)
         else if sign \<or> exp = 0x1F then
          (if exp = 0x1F \<and> frac \<noteq> 0 then ui64_fromNaN else if sign then ui64_fromNegOverflow else ui64_fromPosOverflow,
           softfloat_raiseFlags softfloat_flag_invalid st)
         else let alignedSig = push_bit (nat shiftDist) (frac OR 0x0400)
              in (drop_bit 10 alignedSig,
                  if exact \<and> alignedSig AND 0x3FF \<noteq> 0 then softfloat_raiseFlags softfloat_flag_inexact st else st))"

definition f32_to_i32_r_minMag :: "float32_t \<Rightarrow> bool \<Rightarrow> sf_state \<Rightarrow> int \<times> sf_state" where
  "f32_to_i32_r_minMag a exact st =
     (let uiA = ucast a :: u64;
          exp = expF32UI uiA; sig = fracF32UI uiA; sign = signF32UI uiA;
          shiftDist = 0x9E - exp
      in if 32 \<le> shiftDist then (0, if exact \<and> (exp \<noteq> 0 \<or> sig \<noteq> 0) then softfloat_raiseFlags softfloat_flag_inexact st else st)
         else if shiftDist \<le> 0 then
           if uiA = packToF32UI True 0x9E 0 then (- 0x7FFFFFFF - 1, st)
           else (if exp = 0xFF \<and> sig \<noteq> 0 then i32_fromNaN else if sign then i32_fromNegOverflow else i32_fromPosOverflow,
           softfloat_raiseFlags softfloat_flag_invalid st)
         else let sig = push_bit 8 (sig OR 0x00800000); absZ = drop_bit (nat shiftDist) sig
              in (if sign then - uint absZ else uint absZ,
                  if exact \<and> push_bit (nat shiftDist) absZ \<noteq> sig then softfloat_raiseFlags softfloat_flag_inexact st else st))"

definition f32_to_ui32_r_minMag :: "float32_t \<Rightarrow> bool \<Rightarrow> sf_state \<Rightarrow> u64 \<times> sf_state" where
  "f32_to_ui32_r_minMag a exact st =
     (let uiA = ucast a :: u64;
          exp = expF32UI uiA; sig = fracF32UI uiA; sign = signF32UI uiA;
          shiftDist = 0x9E - exp
      in if 32 \<le> shiftDist then (0, if exact \<and> (exp \<noteq> 0 \<or> sig \<noteq> 0) then softfloat_raiseFlags softfloat_flag_inexact st else st)
         else if sign \<or> shiftDist < 0 then
           (if exp = 0xFF \<and> sig \<noteq> 0 then ui32_fromNaN else if sign then ui32_fromNegOverflow else ui32_fromPosOverflow,
           softfloat_raiseFlags softfloat_flag_invalid st)
         else let sig = push_bit 8 (sig OR 0x00800000); z = drop_bit (nat shiftDist) sig
              in (z, if exact \<and> push_bit (nat shiftDist) z \<noteq> sig then softfloat_raiseFlags softfloat_flag_inexact st else st))"

definition f32_to_i64_r_minMag :: "float32_t \<Rightarrow> bool \<Rightarrow> sf_state \<Rightarrow> int \<times> sf_state" where
  "f32_to_i64_r_minMag a exact st =
     (let uiA = ucast a :: u64;
          exp = expF32UI uiA; sig = fracF32UI uiA; sign = signF32UI uiA;
          shiftDist = 0xBE - exp
      in if 64 \<le> shiftDist then (0, if exact \<and> (exp \<noteq> 0 \<or> sig \<noteq> 0) then softfloat_raiseFlags softfloat_flag_inexact st else st)
         else if shiftDist \<le> 0 then
           if uiA = packToF32UI True 0xBE 0 then (- 0x7FFFFFFFFFFFFFFF - 1, st)
           else (if exp = 0xFF \<and> sig \<noteq> 0 then i64_fromNaN else if sign then i64_fromNegOverflow else i64_fromPosOverflow,
           softfloat_raiseFlags softfloat_flag_invalid st)
         else let sig = sig OR 0x00800000; sig64 = push_bit 40 sig;
                  absZ = drop_bit (nat shiftDist) sig64; shiftDist = 40 - shiftDist
              in (if sign then - uint absZ else uint absZ,
                  if exact \<and> shiftDist < 0 \<and> (ucast (push_bit (nat (shiftDist mod 32)) sig) :: u32) \<noteq> 0
                  then softfloat_raiseFlags softfloat_flag_inexact st else st))"

definition f32_to_ui64_r_minMag :: "float32_t \<Rightarrow> bool \<Rightarrow> sf_state \<Rightarrow> u64 \<times> sf_state" where
  "f32_to_ui64_r_minMag a exact st =
     (let uiA = ucast a :: u64;
          exp = expF32UI uiA; sig = fracF32UI uiA; sign = signF32UI uiA;
          shiftDist = 0xBE - exp
      in if 64 \<le> shiftDist then (0, if exact \<and> (exp \<noteq> 0 \<or> sig \<noteq> 0) then softfloat_raiseFlags softfloat_flag_inexact st else st)
         else if sign \<or> shiftDist < 0 then
           (if exp = 0xFF \<and> sig \<noteq> 0 then ui64_fromNaN else if sign then ui64_fromNegOverflow else ui64_fromPosOverflow,
           softfloat_raiseFlags softfloat_flag_invalid st)
         else let sig = sig OR 0x00800000; sig64 = push_bit 40 sig;
                  z = drop_bit (nat shiftDist) sig64; shiftDist = 40 - shiftDist
              in (z, if exact \<and> shiftDist < 0 \<and> (ucast (push_bit (nat (shiftDist mod 32)) sig) :: u32) \<noteq> 0
                  then softfloat_raiseFlags softfloat_flag_inexact st else st))"

definition f64_to_i32_r_minMag :: "float64_t \<Rightarrow> bool \<Rightarrow> sf_state \<Rightarrow> int \<times> sf_state" where
  "f64_to_i32_r_minMag a exact st =
     (let uiA = ucast a :: u64;
          exp = expF64UI uiA; sig = fracF64UI uiA; sign = signF64UI uiA;
          shiftDist = 0x433 - exp
      in if 53 \<le> shiftDist then (0, if exact \<and> (exp \<noteq> 0 \<or> sig \<noteq> 0) then softfloat_raiseFlags softfloat_flag_inexact st else st)
         else if shiftDist < 22 then
           if sign \<and> exp = 0x41E \<and> sig < 0x0000000000200000
           then (- 0x7FFFFFFF - 1, if exact \<and> sig \<noteq> 0 then softfloat_raiseFlags softfloat_flag_inexact st else st)
           else (if exp = 0x7FF \<and> sig \<noteq> 0 then i32_fromNaN else if sign then i32_fromNegOverflow else i32_fromPosOverflow,
           softfloat_raiseFlags softfloat_flag_invalid st)
         else let sig = sig OR 0x0010000000000000; absZ = drop_bit (nat shiftDist) sig
              in (if sign then - uint absZ else uint absZ,
                  if exact \<and> push_bit (nat shiftDist) (absZ) \<noteq> sig then softfloat_raiseFlags softfloat_flag_inexact st else st))"

definition f64_to_ui32_r_minMag :: "float64_t \<Rightarrow> bool \<Rightarrow> sf_state \<Rightarrow> u64 \<times> sf_state" where
  "f64_to_ui32_r_minMag a exact st =
     (let uiA = ucast a :: u64;
          exp = expF64UI uiA; sig = fracF64UI uiA; sign = signF64UI uiA;
          shiftDist = 0x433 - exp
      in if 53 \<le> shiftDist then (0, if exact \<and> (exp \<noteq> 0 \<or> sig \<noteq> 0) then softfloat_raiseFlags softfloat_flag_inexact st else st)
         else if sign \<or> shiftDist < 21 then
           (if exp = 0x7FF \<and> sig \<noteq> 0 then ui32_fromNaN else if sign then ui32_fromNegOverflow else ui32_fromPosOverflow,
           softfloat_raiseFlags softfloat_flag_invalid st)
         else let sig = sig OR 0x0010000000000000; z = drop_bit (nat shiftDist) sig
              in (z, if exact \<and> push_bit (nat shiftDist) z \<noteq> sig then softfloat_raiseFlags softfloat_flag_inexact st else st))"

definition f64_to_i64_r_minMag :: "float64_t \<Rightarrow> bool \<Rightarrow> sf_state \<Rightarrow> int \<times> sf_state" where
  "f64_to_i64_r_minMag a exact st =
     (let uiA = ucast a :: u64;
          exp = expF64UI uiA; sig = fracF64UI uiA; sign = signF64UI uiA;
          shiftDist = 0x433 - exp
      in if shiftDist \<le> 0 then
           if shiftDist < - 10 then
             if uiA = packToF64UI True 0x43E 0 then (- 0x7FFFFFFFFFFFFFFF - 1, st)
             else (if exp = 0x7FF \<and> sig \<noteq> 0 then i64_fromNaN else if sign then i64_fromNegOverflow else i64_fromPosOverflow,
           softfloat_raiseFlags softfloat_flag_invalid st)
           else let sig = sig OR 0x0010000000000000; absZ = push_bit (nat (- shiftDist)) sig
                in (if sign then - uint absZ else uint absZ, st)
         else if 53 \<le> shiftDist then (0, if exact \<and> (exp \<noteq> 0 \<or> sig \<noteq> 0) then softfloat_raiseFlags softfloat_flag_inexact st else st)
         else let sig = sig OR 0x0010000000000000; absZ = drop_bit (nat shiftDist) sig
              in (if sign then - uint absZ else uint absZ,
                  if exact \<and> push_bit (nat shiftDist) absZ \<noteq> sig then softfloat_raiseFlags softfloat_flag_inexact st else st))"

definition f64_to_ui64_r_minMag :: "float64_t \<Rightarrow> bool \<Rightarrow> sf_state \<Rightarrow> u64 \<times> sf_state" where
  "f64_to_ui64_r_minMag a exact st =
     (let uiA = ucast a :: u64;
          exp = expF64UI uiA; sig = fracF64UI uiA; sign = signF64UI uiA;
          shiftDist = 0x433 - exp
      in if 53 \<le> shiftDist then (0, if exact \<and> (exp \<noteq> 0 \<or> sig \<noteq> 0) then softfloat_raiseFlags softfloat_flag_inexact st else st)
         else if sign \<or> shiftDist < - 11 then
           (if exp = 0x7FF \<and> sig \<noteq> 0 then ui64_fromNaN else if sign then ui64_fromNegOverflow else ui64_fromPosOverflow,
           softfloat_raiseFlags softfloat_flag_invalid st)
         else if shiftDist \<le> 0 then (push_bit (nat (- shiftDist)) (sig OR 0x0010000000000000), st)
         else let sig = sig OR 0x0010000000000000; z = drop_bit (nat shiftDist) sig
              in (z, if exact \<and> push_bit (nat ((- shiftDist) mod 64)) sig \<noteq> 0 then softfloat_raiseFlags softfloat_flag_inexact st else st))"

section \<open>Conversions that truncate\<close>

lemma to_int_trunc:
  "to_int lo hi RTZ exact st s n (- int k) = limit_result lo hi exact st (n div 2 ^ k) (n mod 2 ^ k \<noteq> 0) s"
  by (cases "k = 0") (simp_all add: to_int_def rscale_def rdiv_def round_up_def rexact_def)

lemma to_int_below_one:
  assumes "int (bitlen n) + e \<le> 0" "lo \<le> 0" "0 \<le> hi"
  shows "to_int lo hi RTZ exact st s n e = (0, if exact \<and> n \<noteq> 0 then softfloat_raiseFlags softfloat_flag_inexact st else st)"
proof -
  define k where "k = nat (- e)"
  have k: "e = - int k" "bitlen n \<le> k" using assms(1) by (simp_all add: k_def)
  have "n < 2 ^ k" using k(2) by (simp only: bitlen_le_iff)
  then show ?thesis unfolding k(1) to_int_trunc using assms(2,3) by (simp add: limit_result_def)
qed

text \<open>The course all of them share: nothing below one is kept, and above that the value is \<open>n / 2 ^ k\<close>.\<close>

lemma trunc_zero:
  fixes f fb :: nat and exp lsb :: int
  assumes f: "f < 2 ^ fb" and e: "0 \<le> exp" "exp + lsb + int fb \<le> 0" and lsb: "lsb + int fb \<le> 0" and lim: "lo \<le> 0" "0 \<le> hi"
  shows "(if exp = 0 then to_int lo hi RTZ exact st s f lsb else to_int lo hi RTZ exact st s (2 ^ fb + f) (exp - 1 + lsb)) =
    (0, if exact \<and> (exp \<noteq> 0 \<or> f \<noteq> 0) then softfloat_raiseFlags softfloat_flag_inexact st else st)"
proof -
  have "bitlen f \<le> fb" using f by (simp only: bitlen_le_iff)
  moreover have "2 ^ fb + f < 2 ^ Suc fb" using f by simp
  then have "bitlen (2 ^ fb + f) \<le> Suc fb" by (simp only: bitlen_le_iff)
  ultimately show ?thesis using e lsb lim by (auto simp: to_int_below_one)
qed

lemma trunc_main:
  fixes exp lsb :: int
  assumes "int k = int c - (exp - 1 + lsb)"
  shows "to_int lo hi RTZ exact st s n (exp - 1 + lsb) =
    limit_result lo hi exact st (n * 2 ^ c div 2 ^ k) (n * 2 ^ c mod 2 ^ k \<noteq> 0) s"
proof -
  have "to_int lo hi RTZ exact st s n (exp - 1 + lsb) = to_int lo hi RTZ exact st s (n * 2 ^ c) (exp - 1 + lsb - int c)"
    by (rule to_int_double [symmetric])
  also have "exp - 1 + lsb - int c = - int k" using assms by simp
  finally show ?thesis by (simp only: to_int_trunc)
qed

text \<open>The two tests of the code for dropped bits.\<close>

lemma shift_back:
  fixes w :: u64
  assumes "unat w = n"
  shows "push_bit k (drop_bit k w) \<noteq> w \<longleftrightarrow> n mod 2 ^ k \<noteq> 0"
proof -
  have "n div 2 ^ k * 2 ^ k \<le> n" by simp
  then have "n div 2 ^ k * 2 ^ k < 18446744073709551616" using unat_lt_64 [of w] assms by linarith
  then have "unat (push_bit k (drop_bit k w)) = n div 2 ^ k * 2 ^ k"
    by (simp add: unat_push unat_drop assms)
  moreover have "n div 2 ^ k * 2 ^ k + n mod 2 ^ k = n" by (rule div_mult_mod_eq)
  ultimately show ?thesis unfolding word_eq_nat assms by linarith
qed

lemma unsigned_of_unat: "unat w = n \<Longrightarrow> uint w = int n" for w :: u64
  by (simp add: uint_nat)

lemma mod_if_neg: "0 < d \<Longrightarrow> d < m \<Longrightarrow> (- d) mod m = m - d" for d m :: int
  by (simp add: zmod_zminus1_eq_if)

lemma f16_to_i32_r_minMag_int: "f16_to_i32_r_minMag a exact st =
    fp_to_int (- (2 ^ 31)) (2 ^ 31 - 1) RTZ exact st (decode f16_fmt (unat a))"
proof -
  have "unat (ucast a :: u64) = unat a" using unat_lt_16 [of a] by (simp add: unat_cast)
  define u where "u = (ucast a :: u64)"
  have ua: "unat a = unat u" using \<open>unat (ucast a :: u64) = unat a\<close> by (simp add: u_def)
  define f exp s where "f = unat (fracF16UI u)" and "exp = expF16UI u" and "s = signF16UI u"
  have z: "fracF16UI u = 0 \<longleftrightarrow> f = 0" by (simp add: f_def word_eq_nat)
  have f: "f < 2 ^ 10" unfolding f_def by (rule fracF16_bound)
  have e: "0 \<le> exp" "exp \<le> 0x1F" unfolding exp_def by (rule expF16_bounds)+
  have dec: "decode f16_fmt (unat a) = (if exp = 0x1F then if f = 0 then Inf s else NaN (softfloat_isSigNaNF16UI u)
      else if exp = 0 then Fin s f (- 24) else Fin s (2 ^ 10 + f) (exp - 1 + - 24))"
    unfolding ua decodeF16 z f_def exp_def s_def ..
  have hid: "unat (fracF16UI u OR 0x0400) = 2 ^ 10 + f"
    using f or_disjoint_nat [of f 10 1] by (simp add: f_def unat_disj or.commute)
  note defs = f16_to_i32_r_minMag_def Let_def u_def [symmetric] exp_def [symmetric] s_def [symmetric] z
  have hid': "unat (fracF16UI u OR 0x0400) = 2 ^ 10 + f" by (rule hid)
  define M where "M = 2 ^ 10 + f"
  have M: "2 ^ 10 \<le> M" "M < 2 ^ 11" using f by (simp_all add: M_def)
  have x: "fp_to_int (- (2 ^ 31)) (2 ^ 31 - 1) RTZ exact st (decode f16_fmt (unat a)) =
      (if exp = 0 then to_int (- (2 ^ 31)) (2 ^ 31 - 1) RTZ exact st s f (- 24)
       else to_int (- (2 ^ 31)) (2 ^ 31 - 1) RTZ exact st s M (exp - 1 + - 24))" if "exp \<noteq> 0x1F"
    unfolding dec M_def using that by simp
  consider (nan) "exp = 0x1F" | (zero) "exp \<le> 0x0E" | (main) "0x0F \<le> exp" "exp \<le> 0x1E" using e by linarith
  then show ?thesis
  proof cases
    case nan
    then show ?thesis unfolding defs dec by (simp add: i32_fromNaN_def i32_fromNegOverflow_def i32_fromPosOverflow_def)
  next
    case zero
    then have "fp_to_int (- (2 ^ 31)) (2 ^ 31 - 1) RTZ exact st (decode f16_fmt (unat a)) =
        (0, if exact \<and> (exp \<noteq> 0 \<or> f \<noteq> 0) then softfloat_raiseFlags softfloat_flag_inexact st else st)"
      using trunc_zero [OF f e(1), of "- 24" "(- (2 ^ 31))" "(2 ^ 31 - 1)" exact st s] unfolding M_def [symmetric] by (subst x) simp_all
    then show ?thesis unfolding defs using zero by simp
  next
    case main
    have ne: "exp \<noteq> 0x1F" "exp \<noteq> 0" using main by simp_all
    define j where "j = nat (exp - 0x0F)"
    have j: "int j = exp - 0x0F" "j \<le> 15" using main by (simp_all add: j_def)
    have "int 10 = int j - (exp - 1 + - 24)" using j by simp
    note t = trunc_main [OF this, of "(- (2 ^ 31))" "(2 ^ 31 - 1)" exact st s M]
    have "(2 :: nat) ^ j \<le> 2 ^ 15" using j(2) by (intro power_increasing) simp_all
    then have "M * 2 ^ j \<le> M * 2 ^ 15" by (rule mult_le_mono2)
    also have "\<dots> < 2 ^ 26" using M(2) by simp
    finally have lt: "M * 2 ^ j < 2 ^ 26" .
    define w where "w = push_bit j (fracF16UI u OR 0x0400)"
    have w: "unat w = M * 2 ^ j" using lt unfolding w_def unat_push hid M_def [symmetric] by simp
    have low: "w AND 0x3FF \<noteq> 0 \<longleftrightarrow> M * 2 ^ j mod 2 ^ 10 \<noteq> 0" by (simp add: word_eq_nat unat_conj bits_nat w)
    have q: "uint (drop_bit 10 w) = int (M * 2 ^ j div 2 ^ 10)" by (simp only: uint_nat unat_drop w)
    have b: "M * 2 ^ j div 2 ^ 10 < 2 ^ 16" using lt by simp
    have r: "fp_to_int (- (2 ^ 31)) (2 ^ 31 - 1) RTZ exact st (decode f16_fmt (unat a)) =
        (if s then - int (M * 2 ^ j div 2 ^ 10) else int (M * 2 ^ j div 2 ^ 10),
         if exact \<and> M * 2 ^ j mod 2 ^ 10 \<noteq> 0 then softfloat_raiseFlags softfloat_flag_inexact st else st)"
      unfolding x [OF ne(1)] if_not_P [OF ne(2)] t limit_result_signed using b by auto
    show ?thesis
      unfolding r defs j_def [symmetric] w_def [symmetric] low q using main by auto
  qed
qed

lemma f16_to_ui32_r_minMag_int: "uints (f16_to_ui32_r_minMag a exact st) =
    fp_to_int 0 (2 ^ 32 - 1) RTZ exact st (decode f16_fmt (unat a))"
proof -
  have "unat (ucast a :: u64) = unat a" using unat_lt_16 [of a] by (simp add: unat_cast)
  define u where "u = (ucast a :: u64)"
  have ua: "unat a = unat u" using \<open>unat (ucast a :: u64) = unat a\<close> by (simp add: u_def)
  define f exp s where "f = unat (fracF16UI u)" and "exp = expF16UI u" and "s = signF16UI u"
  have z: "fracF16UI u = 0 \<longleftrightarrow> f = 0" by (simp add: f_def word_eq_nat)
  have f: "f < 2 ^ 10" unfolding f_def by (rule fracF16_bound)
  have e: "0 \<le> exp" "exp \<le> 0x1F" unfolding exp_def by (rule expF16_bounds)+
  have dec: "decode f16_fmt (unat a) = (if exp = 0x1F then if f = 0 then Inf s else NaN (softfloat_isSigNaNF16UI u)
      else if exp = 0 then Fin s f (- 24) else Fin s (2 ^ 10 + f) (exp - 1 + - 24))"
    unfolding ua decodeF16 z f_def exp_def s_def ..
  have hid: "unat (fracF16UI u OR 0x0400) = 2 ^ 10 + f"
    using f or_disjoint_nat [of f 10 1] by (simp add: f_def unat_disj or.commute)
  note defs = f16_to_ui32_r_minMag_def Let_def u_def [symmetric] exp_def [symmetric] s_def [symmetric] z
  have hid': "unat (fracF16UI u OR 0x0400) = 2 ^ 10 + f" by (rule hid)
  define M where "M = 2 ^ 10 + f"
  have M: "2 ^ 10 \<le> M" "M < 2 ^ 11" using f by (simp_all add: M_def)
  have x: "fp_to_int 0 (2 ^ 32 - 1) RTZ exact st (decode f16_fmt (unat a)) =
      (if exp = 0 then to_int 0 (2 ^ 32 - 1) RTZ exact st s f (- 24)
       else to_int 0 (2 ^ 32 - 1) RTZ exact st s M (exp - 1 + - 24))" if "exp \<noteq> 0x1F"
    unfolding dec M_def using that by simp
  consider (nan) "exp = 0x1F" | (zero) "exp \<le> 0x0E" | (main) "0x0F \<le> exp" "exp \<le> 0x1E" using e by linarith
  then show ?thesis
  proof cases
    case nan
    then show ?thesis unfolding defs dec by (simp add: uints_def ui32_fromNaN_def ui32_fromNegOverflow_def ui32_fromPosOverflow_def)
  next
    case zero
    then have "fp_to_int 0 (2 ^ 32 - 1) RTZ exact st (decode f16_fmt (unat a)) =
        (0, if exact \<and> (exp \<noteq> 0 \<or> f \<noteq> 0) then softfloat_raiseFlags softfloat_flag_inexact st else st)"
      using trunc_zero [OF f e(1), of "- 24" "0" "(2 ^ 32 - 1)" exact st s] unfolding M_def [symmetric] by (subst x) simp_all
    then show ?thesis unfolding defs using zero by (simp add: uints_def)
  next
    case main
    have ne: "exp \<noteq> 0x1F" "exp \<noteq> 0" using main by simp_all
    define j where "j = nat (exp - 0x0F)"
    have j: "int j = exp - 0x0F" "j \<le> 15" using main by (simp_all add: j_def)
    have "int 10 = int j - (exp - 1 + - 24)" using j by simp
    note t = trunc_main [OF this, of "0" "(2 ^ 32 - 1)" exact st s M]
    have "(2 :: nat) ^ j \<le> 2 ^ 15" using j(2) by (intro power_increasing) simp_all
    then have "M * 2 ^ j \<le> M * 2 ^ 15" by (rule mult_le_mono2)
    also have "\<dots> < 2 ^ 26" using M(2) by simp
    finally have lt: "M * 2 ^ j < 2 ^ 26" .
    define w where "w = push_bit j (fracF16UI u OR 0x0400)"
    have w: "unat w = M * 2 ^ j" using lt unfolding w_def unat_push hid M_def [symmetric] by simp
    have low: "w AND 0x3FF \<noteq> 0 \<longleftrightarrow> M * 2 ^ j mod 2 ^ 10 \<noteq> 0" by (simp add: word_eq_nat unat_conj bits_nat w)
    have q: "uint (drop_bit 10 w) = int (M * 2 ^ j div 2 ^ 10)" by (simp only: uint_nat unat_drop w)
    have b: "M * 2 ^ j div 2 ^ 10 < 2 ^ 16" using lt by simp
    have pos: "0 < M * 2 ^ j div 2 ^ 10"
    proof -
      have "2 ^ 10 * 1 \<le> M * 2 ^ j" using M(1) by (intro mult_le_mono) simp_all
      then show ?thesis by (simp add: div_greater_zero_iff)
    qed
    have r: "fp_to_int 0 (2 ^ 32 - 1) RTZ exact st (decode f16_fmt (unat a)) =
        (if s then (0, softfloat_raiseFlags softfloat_flag_invalid st)
         else (int (M * 2 ^ j div 2 ^ 10), if exact \<and> M * 2 ^ j mod 2 ^ 10 \<noteq> 0 then softfloat_raiseFlags softfloat_flag_inexact st else st))"
      unfolding x [OF ne(1)] if_not_P [OF ne(2)] t limit_result_unsigned using b pos by auto
    show ?thesis
      unfolding r defs j_def [symmetric] w_def [symmetric] low using main by (auto simp: uints_def q ui32_fromNegOverflow_def ui64_fromNegOverflow_def)
  qed
qed

lemma f16_to_i64_r_minMag_int: "f16_to_i64_r_minMag a exact st =
    fp_to_int (- (2 ^ 63)) (2 ^ 63 - 1) RTZ exact st (decode f16_fmt (unat a))"
proof -
  have "unat (ucast a :: u64) = unat a" using unat_lt_16 [of a] by (simp add: unat_cast)
  define u where "u = (ucast a :: u64)"
  have ua: "unat a = unat u" using \<open>unat (ucast a :: u64) = unat a\<close> by (simp add: u_def)
  define f exp s where "f = unat (fracF16UI u)" and "exp = expF16UI u" and "s = signF16UI u"
  have z: "fracF16UI u = 0 \<longleftrightarrow> f = 0" by (simp add: f_def word_eq_nat)
  have f: "f < 2 ^ 10" unfolding f_def by (rule fracF16_bound)
  have e: "0 \<le> exp" "exp \<le> 0x1F" unfolding exp_def by (rule expF16_bounds)+
  have dec: "decode f16_fmt (unat a) = (if exp = 0x1F then if f = 0 then Inf s else NaN (softfloat_isSigNaNF16UI u)
      else if exp = 0 then Fin s f (- 24) else Fin s (2 ^ 10 + f) (exp - 1 + - 24))"
    unfolding ua decodeF16 z f_def exp_def s_def ..
  have hid: "unat (fracF16UI u OR 0x0400) = 2 ^ 10 + f"
    using f or_disjoint_nat [of f 10 1] by (simp add: f_def unat_disj or.commute)
  note defs = f16_to_i64_r_minMag_def Let_def u_def [symmetric] exp_def [symmetric] s_def [symmetric] z
  have hid': "unat (fracF16UI u OR 0x0400) = 2 ^ 10 + f" by (rule hid)
  define M where "M = 2 ^ 10 + f"
  have M: "2 ^ 10 \<le> M" "M < 2 ^ 11" using f by (simp_all add: M_def)
  have x: "fp_to_int (- (2 ^ 63)) (2 ^ 63 - 1) RTZ exact st (decode f16_fmt (unat a)) =
      (if exp = 0 then to_int (- (2 ^ 63)) (2 ^ 63 - 1) RTZ exact st s f (- 24)
       else to_int (- (2 ^ 63)) (2 ^ 63 - 1) RTZ exact st s M (exp - 1 + - 24))" if "exp \<noteq> 0x1F"
    unfolding dec M_def using that by simp
  consider (nan) "exp = 0x1F" | (zero) "exp \<le> 0x0E" | (main) "0x0F \<le> exp" "exp \<le> 0x1E" using e by linarith
  then show ?thesis
  proof cases
    case nan
    then show ?thesis unfolding defs dec by (simp add: i64_fromNaN_def i64_fromNegOverflow_def i64_fromPosOverflow_def)
  next
    case zero
    then have "fp_to_int (- (2 ^ 63)) (2 ^ 63 - 1) RTZ exact st (decode f16_fmt (unat a)) =
        (0, if exact \<and> (exp \<noteq> 0 \<or> f \<noteq> 0) then softfloat_raiseFlags softfloat_flag_inexact st else st)"
      using trunc_zero [OF f e(1), of "- 24" "(- (2 ^ 63))" "(2 ^ 63 - 1)" exact st s] unfolding M_def [symmetric] by (subst x) simp_all
    then show ?thesis unfolding defs using zero by simp
  next
    case main
    have ne: "exp \<noteq> 0x1F" "exp \<noteq> 0" using main by simp_all
    define j where "j = nat (exp - 0x0F)"
    have j: "int j = exp - 0x0F" "j \<le> 15" using main by (simp_all add: j_def)
    have "int 10 = int j - (exp - 1 + - 24)" using j by simp
    note t = trunc_main [OF this, of "(- (2 ^ 63))" "(2 ^ 63 - 1)" exact st s M]
    have "(2 :: nat) ^ j \<le> 2 ^ 15" using j(2) by (intro power_increasing) simp_all
    then have "M * 2 ^ j \<le> M * 2 ^ 15" by (rule mult_le_mono2)
    also have "\<dots> < 2 ^ 26" using M(2) by simp
    finally have lt: "M * 2 ^ j < 2 ^ 26" .
    define w where "w = push_bit j (fracF16UI u OR 0x0400)"
    have w: "unat w = M * 2 ^ j" using lt unfolding w_def unat_push hid M_def [symmetric] by simp
    have low: "w AND 0x3FF \<noteq> 0 \<longleftrightarrow> M * 2 ^ j mod 2 ^ 10 \<noteq> 0" by (simp add: word_eq_nat unat_conj bits_nat w)
    have q: "uint (drop_bit 10 w) = int (M * 2 ^ j div 2 ^ 10)" by (simp only: uint_nat unat_drop w)
    have b: "M * 2 ^ j div 2 ^ 10 < 2 ^ 16" using lt by simp
    have r: "fp_to_int (- (2 ^ 63)) (2 ^ 63 - 1) RTZ exact st (decode f16_fmt (unat a)) =
        (if s then - int (M * 2 ^ j div 2 ^ 10) else int (M * 2 ^ j div 2 ^ 10),
         if exact \<and> M * 2 ^ j mod 2 ^ 10 \<noteq> 0 then softfloat_raiseFlags softfloat_flag_inexact st else st)"
      unfolding x [OF ne(1)] if_not_P [OF ne(2)] t limit_result_signed using b by auto
    show ?thesis
      unfolding r defs j_def [symmetric] w_def [symmetric] low q using main by auto
  qed
qed

lemma f16_to_ui64_r_minMag_int: "uints (f16_to_ui64_r_minMag a exact st) =
    fp_to_int 0 (2 ^ 64 - 1) RTZ exact st (decode f16_fmt (unat a))"
proof -
  have "unat (ucast a :: u64) = unat a" using unat_lt_16 [of a] by (simp add: unat_cast)
  define u where "u = (ucast a :: u64)"
  have ua: "unat a = unat u" using \<open>unat (ucast a :: u64) = unat a\<close> by (simp add: u_def)
  define f exp s where "f = unat (fracF16UI u)" and "exp = expF16UI u" and "s = signF16UI u"
  have z: "fracF16UI u = 0 \<longleftrightarrow> f = 0" by (simp add: f_def word_eq_nat)
  have f: "f < 2 ^ 10" unfolding f_def by (rule fracF16_bound)
  have e: "0 \<le> exp" "exp \<le> 0x1F" unfolding exp_def by (rule expF16_bounds)+
  have dec: "decode f16_fmt (unat a) = (if exp = 0x1F then if f = 0 then Inf s else NaN (softfloat_isSigNaNF16UI u)
      else if exp = 0 then Fin s f (- 24) else Fin s (2 ^ 10 + f) (exp - 1 + - 24))"
    unfolding ua decodeF16 z f_def exp_def s_def ..
  have hid: "unat (fracF16UI u OR 0x0400) = 2 ^ 10 + f"
    using f or_disjoint_nat [of f 10 1] by (simp add: f_def unat_disj or.commute)
  note defs = f16_to_ui64_r_minMag_def Let_def u_def [symmetric] exp_def [symmetric] s_def [symmetric] z
  have hid': "unat (fracF16UI u OR 0x0400) = 2 ^ 10 + f" by (rule hid)
  define M where "M = 2 ^ 10 + f"
  have M: "2 ^ 10 \<le> M" "M < 2 ^ 11" using f by (simp_all add: M_def)
  have x: "fp_to_int 0 (2 ^ 64 - 1) RTZ exact st (decode f16_fmt (unat a)) =
      (if exp = 0 then to_int 0 (2 ^ 64 - 1) RTZ exact st s f (- 24)
       else to_int 0 (2 ^ 64 - 1) RTZ exact st s M (exp - 1 + - 24))" if "exp \<noteq> 0x1F"
    unfolding dec M_def using that by simp
  consider (nan) "exp = 0x1F" | (zero) "exp \<le> 0x0E" | (main) "0x0F \<le> exp" "exp \<le> 0x1E" using e by linarith
  then show ?thesis
  proof cases
    case nan
    then show ?thesis unfolding defs dec by (simp add: uints_def ui64_fromNaN_def ui64_fromNegOverflow_def ui64_fromPosOverflow_def)
  next
    case zero
    then have "fp_to_int 0 (2 ^ 64 - 1) RTZ exact st (decode f16_fmt (unat a)) =
        (0, if exact \<and> (exp \<noteq> 0 \<or> f \<noteq> 0) then softfloat_raiseFlags softfloat_flag_inexact st else st)"
      using trunc_zero [OF f e(1), of "- 24" "0" "(2 ^ 64 - 1)" exact st s] unfolding M_def [symmetric] by (subst x) simp_all
    then show ?thesis unfolding defs using zero by (simp add: uints_def)
  next
    case main
    have ne: "exp \<noteq> 0x1F" "exp \<noteq> 0" using main by simp_all
    define j where "j = nat (exp - 0x0F)"
    have j: "int j = exp - 0x0F" "j \<le> 15" using main by (simp_all add: j_def)
    have "int 10 = int j - (exp - 1 + - 24)" using j by simp
    note t = trunc_main [OF this, of "0" "(2 ^ 64 - 1)" exact st s M]
    have "(2 :: nat) ^ j \<le> 2 ^ 15" using j(2) by (intro power_increasing) simp_all
    then have "M * 2 ^ j \<le> M * 2 ^ 15" by (rule mult_le_mono2)
    also have "\<dots> < 2 ^ 26" using M(2) by simp
    finally have lt: "M * 2 ^ j < 2 ^ 26" .
    define w where "w = push_bit j (fracF16UI u OR 0x0400)"
    have w: "unat w = M * 2 ^ j" using lt unfolding w_def unat_push hid M_def [symmetric] by simp
    have low: "w AND 0x3FF \<noteq> 0 \<longleftrightarrow> M * 2 ^ j mod 2 ^ 10 \<noteq> 0" by (simp add: word_eq_nat unat_conj bits_nat w)
    have q: "uint (drop_bit 10 w) = int (M * 2 ^ j div 2 ^ 10)" by (simp only: uint_nat unat_drop w)
    have b: "M * 2 ^ j div 2 ^ 10 < 2 ^ 16" using lt by simp
    have pos: "0 < M * 2 ^ j div 2 ^ 10"
    proof -
      have "2 ^ 10 * 1 \<le> M * 2 ^ j" using M(1) by (intro mult_le_mono) simp_all
      then show ?thesis by (simp add: div_greater_zero_iff)
    qed
    have r: "fp_to_int 0 (2 ^ 64 - 1) RTZ exact st (decode f16_fmt (unat a)) =
        (if s then (0, softfloat_raiseFlags softfloat_flag_invalid st)
         else (int (M * 2 ^ j div 2 ^ 10), if exact \<and> M * 2 ^ j mod 2 ^ 10 \<noteq> 0 then softfloat_raiseFlags softfloat_flag_inexact st else st))"
      unfolding x [OF ne(1)] if_not_P [OF ne(2)] t limit_result_unsigned using b pos by auto
    show ?thesis
      unfolding r defs j_def [symmetric] w_def [symmetric] low using main by (auto simp: uints_def q ui32_fromNegOverflow_def ui64_fromNegOverflow_def)
  qed
qed

lemma f32_to_i32_r_minMag_int: "f32_to_i32_r_minMag a exact st =
    fp_to_int (- (2 ^ 31)) (2 ^ 31 - 1) RTZ exact st (decode f32_fmt (unat a))"
proof -
  have "unat (ucast a :: u64) = unat a" using unat_lt_32 [of a] by (simp add: unat_cast)
  define u where "u = (ucast a :: u64)"
  have ua: "unat a = unat u" using \<open>unat (ucast a :: u64) = unat a\<close> by (simp add: u_def)
  define f exp s where "f = unat (fracF32UI u)" and "exp = expF32UI u" and "s = signF32UI u"
  have z: "fracF32UI u = 0 \<longleftrightarrow> f = 0" by (simp add: f_def word_eq_nat)
  have f: "f < 2 ^ 23" unfolding f_def by (rule fracF32_bound)
  have e: "0 \<le> exp" "exp \<le> 0xFF" unfolding exp_def by (rule expF32_bounds)+
  have dec: "decode f32_fmt (unat a) = (if exp = 0xFF then if f = 0 then Inf s else NaN (softfloat_isSigNaNF32UI u)
      else if exp = 0 then Fin s f (- 149) else Fin s (2 ^ 23 + f) (exp - 1 + - 149))"
    unfolding ua decodeF32 z f_def exp_def s_def ..
  have hid: "unat (fracF32UI u OR 0x00800000) = 2 ^ 23 + f"
    using f or_disjoint_nat [of f 23 1] by (simp add: f_def unat_disj or.commute)
  note defs = f32_to_i32_r_minMag_def Let_def u_def [symmetric] exp_def [symmetric] s_def [symmetric] z
  have hid': "unat (fracF32UI u OR 0x00800000) = 2 ^ 23 + f" by (rule hid)
  define M where "M = 2 ^ 23 + f"
  have M: "2 ^ 23 \<le> M" "M < 2 ^ 24" using f by (simp_all add: M_def)
  have x: "fp_to_int (- (2 ^ 31)) (2 ^ 31 - 1) RTZ exact st (decode f32_fmt (unat a)) =
      (if exp = 0 then to_int (- (2 ^ 31)) (2 ^ 31 - 1) RTZ exact st s f (- 149)
       else to_int (- (2 ^ 31)) (2 ^ 31 - 1) RTZ exact st s M (exp - 1 + - 149))" if "exp \<noteq> 0xFF"
    unfolding dec M_def using that by simp
  consider (nan) "exp = 0xFF" | (zero) "exp \<le> 126" | (over) "158 < exp" "exp < 0xFF" | (top) "exp = 158"
    | (main) "126 < exp" "exp < 158"
    using e by linarith
  then show ?thesis
  proof cases
    case nan
    then have "u \<noteq> packToF32UI True 158 0"
      using fieldsF32(2) [of u] by (auto simp: exp_def word_eq_nat unat_packToF32UI)
    with nan show ?thesis unfolding defs dec by (simp add: i32_fromNaN_def i32_fromNegOverflow_def i32_fromPosOverflow_def)
  next
    case zero
    then have "fp_to_int (- (2 ^ 31)) (2 ^ 31 - 1) RTZ exact st (decode f32_fmt (unat a)) =
        (0, if exact \<and> (exp \<noteq> 0 \<or> f \<noteq> 0) then softfloat_raiseFlags softfloat_flag_inexact st else st)"
      using trunc_zero [OF f e(1), of "- 149" "(- (2 ^ 31))" "(2 ^ 31 - 1)" exact st s] unfolding M_def [symmetric] by (subst x) simp_all
    then show ?thesis unfolding defs using zero by simp
  next
    case over
    define d where "d = exp - 1 + - 149"
    have d: "9 \<le> d" using over(1) by (simp add: d_def)
    have "2 ^ 32 * (2 :: nat) ^ nat (- d) \<le> 2 ^ 23 * 2 ^ nat d"
    proof -
      have "32 + nat (- d) \<le> 23 + nat d" using d by simp
      then show ?thesis unfolding power_add [symmetric] by (intro power_increasing) simp_all
    qed
    also have "\<dots> \<le> M * 2 ^ nat d" using M(1) by (rule mult_le_mono1)
    finally have "to_int (- (2 ^ 31)) (2 ^ 31 - 1) RTZ exact st s M d = (if s then (- (2 ^ 31)) else (2 ^ 31 - 1), softfloat_raiseFlags softfloat_flag_invalid st)"
      by (intro to_int_overflow [where h = 32]) simp_all
    then have r: "fp_to_int (- (2 ^ 31)) (2 ^ 31 - 1) RTZ exact st (decode f32_fmt (unat a)) =
        (if s then (- (2 ^ 31)) else (2 ^ 31 - 1), softfloat_raiseFlags softfloat_flag_invalid st)"
      using over by (subst x) (simp_all add: d_def)
    have "u \<noteq> packToF32UI True 158 0"
      using fieldsF32(2) [of u] over by (auto simp: exp_def word_eq_nat unat_packToF32UI)
    then show ?thesis unfolding r defs using over by (simp add: i32_fromNaN_def i32_fromNegOverflow_def i32_fromPosOverflow_def)
  next
    case top
    have ne: "exp \<noteq> 0xFF" "exp \<noteq> 0" using top by simp_all
    have "int 0 = int 8 - (exp - 1 + - 149)" using top by simp
    note t = trunc_main [OF this, of "(- (2 ^ 31))" "(2 ^ 31 - 1)" exact st s M]
    have q: "M * 2 ^ 8 div 2 ^ 0 \<le> 2 ^ 31 \<longleftrightarrow> f = 0" "2 ^ 31 \<le> M * 2 ^ 8 div 2 ^ 0" by (simp_all add: M_def)
    have "u = packToF32UI True 158 0 \<longleftrightarrow> s \<and> f = 0"
    proof -
      have "unat u = of_bool s * 2 ^ 31 + (nat exp * 2 ^ 23 + f)"
        unfolding s_def exp_def f_def by (rule patternF32) (use ua unat_lt_32 [of a] in simp)
      then show ?thesis using top f by (simp add: word_eq_nat unat_packToF32UI)
    qed
    note p = this
    have r: "fp_to_int (- (2 ^ 31)) (2 ^ 31 - 1) RTZ exact st (decode f32_fmt (unat a)) =
        (if s \<and> f = 0 then (- (2 ^ 31), st)
         else (if s then (- (2 ^ 31)) else (2 ^ 31 - 1), softfloat_raiseFlags softfloat_flag_invalid st))"
      unfolding x [OF ne(1)] if_not_P [OF ne(2)] t limit_result_signed using q by (auto simp: M_def)
    show ?thesis unfolding r defs p using top by (simp add: i32_fromNaN_def i32_fromNegOverflow_def i32_fromPosOverflow_def)
  next
    case main
    have ne: "exp \<noteq> 0xFF" "exp \<noteq> 0" using main by simp_all
    define k where "k = nat (158 - exp)"
    have k: "int k = 158 - exp" "1 \<le> k" "k \<le> 31" using main by (simp_all add: k_def)
    have "int k = int 8 - (exp - 1 + - 149)" using k by simp
    note t = trunc_main [OF this, of "(- (2 ^ 31))" "(2 ^ 31 - 1)" exact st s M]
    define w where "w = push_bit 8 (fracF32UI u OR 0x00800000)"
    have w: "unat w = M * 2 ^ 8" using M(2) unfolding w_def unat_push hid M_def [symmetric] by simp
    have q: "uint (drop_bit k w) = int (M * 2 ^ 8 div 2 ^ k)" by (simp only: uint_nat unat_drop w)
    have "M * 2 ^ 8 < 2 ^ 32" using M(2) by simp
    also have "(2 :: nat) ^ 32 \<le> 2 ^ (k + 31)" using k(2) by (intro power_increasing) simp_all
    finally have b: "M * 2 ^ 8 div 2 ^ k < 2 ^ 31" by (rule div_pow2_lt)
    have low: "push_bit k (drop_bit k w) \<noteq> w \<longleftrightarrow> M * 2 ^ 8 mod 2 ^ k \<noteq> 0" by (rule shift_back [OF w])
    have r: "fp_to_int (- (2 ^ 31)) (2 ^ 31 - 1) RTZ exact st (decode f32_fmt (unat a)) =
        (if s then - int (M * 2 ^ 8 div 2 ^ k) else int (M * 2 ^ 8 div 2 ^ k),
         if exact \<and> M * 2 ^ 8 mod 2 ^ k \<noteq> 0 then softfloat_raiseFlags softfloat_flag_inexact st else st)"
      unfolding x [OF ne(1)] if_not_P [OF ne(2)] t limit_result_signed using b by auto
    show ?thesis
      unfolding r defs w_def [symmetric] k_def [symmetric] low using main by (auto simp: q)
  qed
qed

lemma f32_to_ui32_r_minMag_int: "uints (f32_to_ui32_r_minMag a exact st) =
    fp_to_int 0 (2 ^ 32 - 1) RTZ exact st (decode f32_fmt (unat a))"
proof -
  have "unat (ucast a :: u64) = unat a" using unat_lt_32 [of a] by (simp add: unat_cast)
  define u where "u = (ucast a :: u64)"
  have ua: "unat a = unat u" using \<open>unat (ucast a :: u64) = unat a\<close> by (simp add: u_def)
  define f exp s where "f = unat (fracF32UI u)" and "exp = expF32UI u" and "s = signF32UI u"
  have z: "fracF32UI u = 0 \<longleftrightarrow> f = 0" by (simp add: f_def word_eq_nat)
  have f: "f < 2 ^ 23" unfolding f_def by (rule fracF32_bound)
  have e: "0 \<le> exp" "exp \<le> 0xFF" unfolding exp_def by (rule expF32_bounds)+
  have dec: "decode f32_fmt (unat a) = (if exp = 0xFF then if f = 0 then Inf s else NaN (softfloat_isSigNaNF32UI u)
      else if exp = 0 then Fin s f (- 149) else Fin s (2 ^ 23 + f) (exp - 1 + - 149))"
    unfolding ua decodeF32 z f_def exp_def s_def ..
  have hid: "unat (fracF32UI u OR 0x00800000) = 2 ^ 23 + f"
    using f or_disjoint_nat [of f 23 1] by (simp add: f_def unat_disj or.commute)
  note defs = f32_to_ui32_r_minMag_def Let_def u_def [symmetric] exp_def [symmetric] s_def [symmetric] z
  have hid': "unat (fracF32UI u OR 0x00800000) = 2 ^ 23 + f" by (rule hid)
  define M where "M = 2 ^ 23 + f"
  have M: "2 ^ 23 \<le> M" "M < 2 ^ 24" using f by (simp_all add: M_def)
  have x: "fp_to_int 0 (2 ^ 32 - 1) RTZ exact st (decode f32_fmt (unat a)) =
      (if exp = 0 then to_int 0 (2 ^ 32 - 1) RTZ exact st s f (- 149)
       else to_int 0 (2 ^ 32 - 1) RTZ exact st s M (exp - 1 + - 149))" if "exp \<noteq> 0xFF"
    unfolding dec M_def using that by simp
  consider (nan) "exp = 0xFF" | (zero) "exp \<le> 126" | (over) "158 < exp" "exp < 0xFF" | (main) "126 < exp" "exp \<le> 158"
    using e by linarith
  then show ?thesis
  proof cases
    case nan
    then show ?thesis unfolding defs dec by (simp add: uints_def ui32_fromNaN_def ui32_fromNegOverflow_def ui32_fromPosOverflow_def)
  next
    case zero
    then have "fp_to_int 0 (2 ^ 32 - 1) RTZ exact st (decode f32_fmt (unat a)) =
        (0, if exact \<and> (exp \<noteq> 0 \<or> f \<noteq> 0) then softfloat_raiseFlags softfloat_flag_inexact st else st)"
      using trunc_zero [OF f e(1), of "- 149" "0" "(2 ^ 32 - 1)" exact st s] unfolding M_def [symmetric] by (subst x) simp_all
    then show ?thesis unfolding defs using zero by (simp add: uints_def)
  next
    case over
    define d where "d = exp - 1 + - 149"
    have d: "9 \<le> d" using over(1) by (simp add: d_def)
    have "2 ^ 32 * (2 :: nat) ^ nat (- d) \<le> 2 ^ 23 * 2 ^ nat d"
    proof -
      have "32 + nat (- d) \<le> 23 + nat d" using d by simp
      then show ?thesis unfolding power_add [symmetric] by (intro power_increasing) simp_all
    qed
    also have "\<dots> \<le> M * 2 ^ nat d" using M(1) by (rule mult_le_mono1)
    finally have "to_int 0 (2 ^ 32 - 1) RTZ exact st s M d = (if s then 0 else (2 ^ 32 - 1), softfloat_raiseFlags softfloat_flag_invalid st)"
      by (intro to_int_overflow [where h = 32]) simp_all
    then have r: "fp_to_int 0 (2 ^ 32 - 1) RTZ exact st (decode f32_fmt (unat a)) =
        (if s then 0 else (2 ^ 32 - 1), softfloat_raiseFlags softfloat_flag_invalid st)"
      using over by (subst x) (simp_all add: d_def)
    have "True" ..
    then show ?thesis unfolding r defs using over by (simp add: uints_def ui32_fromNaN_def ui32_fromNegOverflow_def ui32_fromPosOverflow_def)
  next
    case main
    have ne: "exp \<noteq> 0xFF" "exp \<noteq> 0" using main by simp_all
    define k where "k = nat (158 - exp)"
    have k: "int k = 158 - exp" "0 \<le> k" "k \<le> 31" using main by (simp_all add: k_def)
    have "int k = int 8 - (exp - 1 + - 149)" using k by simp
    note t = trunc_main [OF this, of "0" "(2 ^ 32 - 1)" exact st s M]
    define w where "w = push_bit 8 (fracF32UI u OR 0x00800000)"
    have w: "unat w = M * 2 ^ 8" using M(2) unfolding w_def unat_push hid M_def [symmetric] by simp
    have q: "uint (drop_bit k w) = int (M * 2 ^ 8 div 2 ^ k)" by (simp only: uint_nat unat_drop w)
    have "M * 2 ^ 8 < 2 ^ 32" using M(2) by simp
    also have "(2 :: nat) ^ 32 \<le> 2 ^ (k + 32)" using k(2) by (intro power_increasing) simp_all
    finally have b: "M * 2 ^ 8 div 2 ^ k < 2 ^ 32" by (rule div_pow2_lt)
    have low: "push_bit k (drop_bit k w) \<noteq> w \<longleftrightarrow> M * 2 ^ 8 mod 2 ^ k \<noteq> 0" by (rule shift_back [OF w])
    have pos: "0 < M * 2 ^ 8 div 2 ^ k"
    proof -
      have "(2 :: nat) ^ k \<le> 2 ^ 31" using k(3) by (intro power_increasing) simp_all
      also have "\<dots> \<le> M * 2 ^ 8" using M(1) by simp
      finally show ?thesis by (simp add: div_greater_zero_iff)
    qed
    have r: "fp_to_int 0 (2 ^ 32 - 1) RTZ exact st (decode f32_fmt (unat a)) =
        (if s then (0, softfloat_raiseFlags softfloat_flag_invalid st)
         else (int (M * 2 ^ 8 div 2 ^ k), if exact \<and> M * 2 ^ 8 mod 2 ^ k \<noteq> 0 then softfloat_raiseFlags softfloat_flag_inexact st else st))"
      unfolding x [OF ne(1)] if_not_P [OF ne(2)] t limit_result_unsigned using b pos by auto
    have st: "\<not> 32 \<le> 158 - exp" "\<not> 158 - exp < 0" using main by simp_all
    show ?thesis
      unfolding r defs w_def [symmetric] k_def [symmetric] low if_not_P [OF st(1)]
      using main st by (auto simp: uints_def q ui32_fromNegOverflow_def low)
  qed
qed

lemma f32_to_i64_r_minMag_int: "f32_to_i64_r_minMag a exact st =
    fp_to_int (- (2 ^ 63)) (2 ^ 63 - 1) RTZ exact st (decode f32_fmt (unat a))"
proof -
  have "unat (ucast a :: u64) = unat a" using unat_lt_32 [of a] by (simp add: unat_cast)
  define u where "u = (ucast a :: u64)"
  have ua: "unat a = unat u" using \<open>unat (ucast a :: u64) = unat a\<close> by (simp add: u_def)
  define f exp s where "f = unat (fracF32UI u)" and "exp = expF32UI u" and "s = signF32UI u"
  have z: "fracF32UI u = 0 \<longleftrightarrow> f = 0" by (simp add: f_def word_eq_nat)
  have f: "f < 2 ^ 23" unfolding f_def by (rule fracF32_bound)
  have e: "0 \<le> exp" "exp \<le> 0xFF" unfolding exp_def by (rule expF32_bounds)+
  have dec: "decode f32_fmt (unat a) = (if exp = 0xFF then if f = 0 then Inf s else NaN (softfloat_isSigNaNF32UI u)
      else if exp = 0 then Fin s f (- 149) else Fin s (2 ^ 23 + f) (exp - 1 + - 149))"
    unfolding ua decodeF32 z f_def exp_def s_def ..
  have hid: "unat (fracF32UI u OR 0x00800000) = 2 ^ 23 + f"
    using f or_disjoint_nat [of f 23 1] by (simp add: f_def unat_disj or.commute)
  note defs = f32_to_i64_r_minMag_def Let_def u_def [symmetric] exp_def [symmetric] s_def [symmetric] z
  have hid': "unat (fracF32UI u OR 0x00800000) = 2 ^ 23 + f" by (rule hid)
  define M where "M = 2 ^ 23 + f"
  have M: "2 ^ 23 \<le> M" "M < 2 ^ 24" using f by (simp_all add: M_def)
  have x: "fp_to_int (- (2 ^ 63)) (2 ^ 63 - 1) RTZ exact st (decode f32_fmt (unat a)) =
      (if exp = 0 then to_int (- (2 ^ 63)) (2 ^ 63 - 1) RTZ exact st s f (- 149)
       else to_int (- (2 ^ 63)) (2 ^ 63 - 1) RTZ exact st s M (exp - 1 + - 149))" if "exp \<noteq> 0xFF"
    unfolding dec M_def using that by simp
  consider (nan) "exp = 0xFF" | (zero) "exp \<le> 126" | (over) "190 < exp" "exp < 0xFF" | (top) "exp = 190"
    | (main) "126 < exp" "exp < 190"
    using e by linarith
  then show ?thesis
  proof cases
    case nan
    then have "u \<noteq> packToF32UI True 190 0"
      using fieldsF32(2) [of u] by (auto simp: exp_def word_eq_nat unat_packToF32UI)
    with nan show ?thesis unfolding defs dec by (simp add: i64_fromNaN_def i64_fromNegOverflow_def i64_fromPosOverflow_def)
  next
    case zero
    then have "fp_to_int (- (2 ^ 63)) (2 ^ 63 - 1) RTZ exact st (decode f32_fmt (unat a)) =
        (0, if exact \<and> (exp \<noteq> 0 \<or> f \<noteq> 0) then softfloat_raiseFlags softfloat_flag_inexact st else st)"
      using trunc_zero [OF f e(1), of "- 149" "(- (2 ^ 63))" "(2 ^ 63 - 1)" exact st s] unfolding M_def [symmetric] by (subst x) simp_all
    then show ?thesis unfolding defs using zero by simp
  next
    case over
    define d where "d = exp - 1 + - 149"
    have d: "41 \<le> d" using over(1) by (simp add: d_def)
    have "2 ^ 64 * (2 :: nat) ^ nat (- d) \<le> 2 ^ 23 * 2 ^ nat d"
    proof -
      have "64 + nat (- d) \<le> 23 + nat d" using d by simp
      then show ?thesis unfolding power_add [symmetric] by (intro power_increasing) simp_all
    qed
    also have "\<dots> \<le> M * 2 ^ nat d" using M(1) by (rule mult_le_mono1)
    finally have "to_int (- (2 ^ 63)) (2 ^ 63 - 1) RTZ exact st s M d = (if s then (- (2 ^ 63)) else (2 ^ 63 - 1), softfloat_raiseFlags softfloat_flag_invalid st)"
      by (intro to_int_overflow [where h = 64]) simp_all
    then have r: "fp_to_int (- (2 ^ 63)) (2 ^ 63 - 1) RTZ exact st (decode f32_fmt (unat a)) =
        (if s then (- (2 ^ 63)) else (2 ^ 63 - 1), softfloat_raiseFlags softfloat_flag_invalid st)"
      using over by (subst x) (simp_all add: d_def)
    have "u \<noteq> packToF32UI True 190 0"
      using fieldsF32(2) [of u] over by (auto simp: exp_def word_eq_nat unat_packToF32UI)
    then show ?thesis unfolding r defs using over by (simp add: i64_fromNaN_def i64_fromNegOverflow_def i64_fromPosOverflow_def)
  next
    case top
    have ne: "exp \<noteq> 0xFF" "exp \<noteq> 0" using top by simp_all
    have "int 0 = int 40 - (exp - 1 + - 149)" using top by simp
    note t = trunc_main [OF this, of "(- (2 ^ 63))" "(2 ^ 63 - 1)" exact st s M]
    have q: "M * 2 ^ 40 div 2 ^ 0 \<le> 2 ^ 63 \<longleftrightarrow> f = 0" "2 ^ 63 \<le> M * 2 ^ 40 div 2 ^ 0" by (simp_all add: M_def)
    have "u = packToF32UI True 190 0 \<longleftrightarrow> s \<and> f = 0"
    proof -
      have "unat u = of_bool s * 2 ^ 31 + (nat exp * 2 ^ 23 + f)"
        unfolding s_def exp_def f_def by (rule patternF32) (use ua unat_lt_32 [of a] in simp)
      then show ?thesis using top f by (simp add: word_eq_nat unat_packToF32UI)
    qed
    note p = this
    have r: "fp_to_int (- (2 ^ 63)) (2 ^ 63 - 1) RTZ exact st (decode f32_fmt (unat a)) =
        (if s \<and> f = 0 then (- (2 ^ 63), st)
         else (if s then (- (2 ^ 63)) else (2 ^ 63 - 1), softfloat_raiseFlags softfloat_flag_invalid st))"
      unfolding x [OF ne(1)] if_not_P [OF ne(2)] t limit_result_signed using q by (auto simp: M_def)
    show ?thesis unfolding r defs p using top by (simp add: i64_fromNaN_def i64_fromNegOverflow_def i64_fromPosOverflow_def)
  next
    case main
    have ne: "exp \<noteq> 0xFF" "exp \<noteq> 0" using main by simp_all
    define k where "k = nat (190 - exp)"
    have k: "int k = 190 - exp" "1 \<le> k" "k \<le> 63" using main by (simp_all add: k_def)
    have "int k = int 40 - (exp - 1 + - 149)" using k by simp
    note t = trunc_main [OF this, of "(- (2 ^ 63))" "(2 ^ 63 - 1)" exact st s M]
    define w where "w = push_bit 40 (fracF32UI u OR 0x00800000)"
    have w: "unat w = M * 2 ^ 40" using M(2) unfolding w_def unat_push hid M_def [symmetric] by simp
    have q: "uint (drop_bit k w) = int (M * 2 ^ 40 div 2 ^ k)" by (simp only: uint_nat unat_drop w)
    have "M * 2 ^ 40 < 2 ^ 64" using M(2) by simp
    also have "(2 :: nat) ^ 64 \<le> 2 ^ (k + 63)" using k(2) by (intro power_increasing) simp_all
    finally have b: "M * 2 ^ 40 div 2 ^ k < 2 ^ 63" by (rule div_pow2_lt)
    have low: "40 - (190 - exp) < 0 \<and> (ucast (push_bit (nat ((40 - (190 - exp)) mod 32)) (fracF32UI u OR 0x00800000)) :: u32) \<noteq> 0 \<longleftrightarrow>
        M * 2 ^ 40 mod 2 ^ k \<noteq> 0"
    proof (cases "k \<le> 40")
      case True
      then have "(2 :: nat) ^ k dvd 2 ^ 40" by (rule le_imp_power_dvd)
      then have "2 ^ k dvd M * 2 ^ 40" by (rule dvd_mult)
      then have "M * 2 ^ 40 mod 2 ^ k = 0" by simp
      then show ?thesis using True k(1) by simp
    next
      case False
      define d where "d = k - 40"
      have d: "k = 40 + d" "1 \<le> d" "d \<le> 23" using False k(3) by (simp_all add: d_def)
      have "40 - (190 - exp) = - int d" using k(1) d by simp
      moreover have "(- int d) mod 32 = 32 - int d" using d by (simp add: mod_if_neg)
      ultimately have s: "40 - (190 - exp) < 0" "nat ((40 - (190 - exp)) mod 32) = 32 - d" using d by simp_all
      have "(2 :: nat) ^ (32 - d) \<le> 2 ^ 31" using d by (intro power_increasing) simp_all
      then have "M * 2 ^ (32 - d) \<le> M * 2 ^ 31" by (rule mult_le_mono2)
      also have "\<dots> < 2 ^ 64" using M(2) by simp
      finally have lt: "M * 2 ^ (32 - d) < 2 ^ 64" .
      have "unat (ucast (push_bit (32 - d) (fracF32UI u OR 0x00800000)) :: u32) = M * 2 ^ (32 - d) mod 2 ^ 32"
        using lt unfolding unat_cast unat_push hid M_def [symmetric] by simp
      also have "\<dots> = M mod 2 ^ d * 2 ^ (32 - d)" using d by (intro shl_mod_pow2) simp
      finally have v: "(ucast (push_bit (32 - d) (fracF32UI u OR 0x00800000)) :: u32) \<noteq> 0 \<longleftrightarrow> M mod 2 ^ d \<noteq> 0"
        by (simp add: word_eq_nat)
      have "M * 2 ^ 40 mod 2 ^ k = M mod 2 ^ d * 2 ^ 40" unfolding d(1) power_add by (simp add: mult.commute)
      then show ?thesis unfolding s(2) v using s(1) by simp
    qed
    have r: "fp_to_int (- (2 ^ 63)) (2 ^ 63 - 1) RTZ exact st (decode f32_fmt (unat a)) =
        (if s then - int (M * 2 ^ 40 div 2 ^ k) else int (M * 2 ^ 40 div 2 ^ k),
         if exact \<and> M * 2 ^ 40 mod 2 ^ k \<noteq> 0 then softfloat_raiseFlags softfloat_flag_inexact st else st)"
      unfolding x [OF ne(1)] if_not_P [OF ne(2)] t limit_result_signed using b by auto
    show ?thesis
      unfolding r defs w_def [symmetric] k_def [symmetric] low using main by (auto simp: q)
  qed
qed

lemma f32_to_ui64_r_minMag_int: "uints (f32_to_ui64_r_minMag a exact st) =
    fp_to_int 0 (2 ^ 64 - 1) RTZ exact st (decode f32_fmt (unat a))"
proof -
  have "unat (ucast a :: u64) = unat a" using unat_lt_32 [of a] by (simp add: unat_cast)
  define u where "u = (ucast a :: u64)"
  have ua: "unat a = unat u" using \<open>unat (ucast a :: u64) = unat a\<close> by (simp add: u_def)
  define f exp s where "f = unat (fracF32UI u)" and "exp = expF32UI u" and "s = signF32UI u"
  have z: "fracF32UI u = 0 \<longleftrightarrow> f = 0" by (simp add: f_def word_eq_nat)
  have f: "f < 2 ^ 23" unfolding f_def by (rule fracF32_bound)
  have e: "0 \<le> exp" "exp \<le> 0xFF" unfolding exp_def by (rule expF32_bounds)+
  have dec: "decode f32_fmt (unat a) = (if exp = 0xFF then if f = 0 then Inf s else NaN (softfloat_isSigNaNF32UI u)
      else if exp = 0 then Fin s f (- 149) else Fin s (2 ^ 23 + f) (exp - 1 + - 149))"
    unfolding ua decodeF32 z f_def exp_def s_def ..
  have hid: "unat (fracF32UI u OR 0x00800000) = 2 ^ 23 + f"
    using f or_disjoint_nat [of f 23 1] by (simp add: f_def unat_disj or.commute)
  note defs = f32_to_ui64_r_minMag_def Let_def u_def [symmetric] exp_def [symmetric] s_def [symmetric] z
  have hid': "unat (fracF32UI u OR 0x00800000) = 2 ^ 23 + f" by (rule hid)
  define M where "M = 2 ^ 23 + f"
  have M: "2 ^ 23 \<le> M" "M < 2 ^ 24" using f by (simp_all add: M_def)
  have x: "fp_to_int 0 (2 ^ 64 - 1) RTZ exact st (decode f32_fmt (unat a)) =
      (if exp = 0 then to_int 0 (2 ^ 64 - 1) RTZ exact st s f (- 149)
       else to_int 0 (2 ^ 64 - 1) RTZ exact st s M (exp - 1 + - 149))" if "exp \<noteq> 0xFF"
    unfolding dec M_def using that by simp
  consider (nan) "exp = 0xFF" | (zero) "exp \<le> 126" | (over) "190 < exp" "exp < 0xFF" | (main) "126 < exp" "exp \<le> 190"
    using e by linarith
  then show ?thesis
  proof cases
    case nan
    then show ?thesis unfolding defs dec by (simp add: uints_def ui64_fromNaN_def ui64_fromNegOverflow_def ui64_fromPosOverflow_def)
  next
    case zero
    then have "fp_to_int 0 (2 ^ 64 - 1) RTZ exact st (decode f32_fmt (unat a)) =
        (0, if exact \<and> (exp \<noteq> 0 \<or> f \<noteq> 0) then softfloat_raiseFlags softfloat_flag_inexact st else st)"
      using trunc_zero [OF f e(1), of "- 149" "0" "(2 ^ 64 - 1)" exact st s] unfolding M_def [symmetric] by (subst x) simp_all
    then show ?thesis unfolding defs using zero by (simp add: uints_def)
  next
    case over
    define d where "d = exp - 1 + - 149"
    have d: "41 \<le> d" using over(1) by (simp add: d_def)
    have "2 ^ 64 * (2 :: nat) ^ nat (- d) \<le> 2 ^ 23 * 2 ^ nat d"
    proof -
      have "64 + nat (- d) \<le> 23 + nat d" using d by simp
      then show ?thesis unfolding power_add [symmetric] by (intro power_increasing) simp_all
    qed
    also have "\<dots> \<le> M * 2 ^ nat d" using M(1) by (rule mult_le_mono1)
    finally have "to_int 0 (2 ^ 64 - 1) RTZ exact st s M d = (if s then 0 else (2 ^ 64 - 1), softfloat_raiseFlags softfloat_flag_invalid st)"
      by (intro to_int_overflow [where h = 64]) simp_all
    then have r: "fp_to_int 0 (2 ^ 64 - 1) RTZ exact st (decode f32_fmt (unat a)) =
        (if s then 0 else (2 ^ 64 - 1), softfloat_raiseFlags softfloat_flag_invalid st)"
      using over by (subst x) (simp_all add: d_def)
    have "True" ..
    then show ?thesis unfolding r defs using over by (simp add: uints_def ui64_fromNaN_def ui64_fromNegOverflow_def ui64_fromPosOverflow_def)
  next
    case main
    have ne: "exp \<noteq> 0xFF" "exp \<noteq> 0" using main by simp_all
    define k where "k = nat (190 - exp)"
    have k: "int k = 190 - exp" "0 \<le> k" "k \<le> 63" using main by (simp_all add: k_def)
    have "int k = int 40 - (exp - 1 + - 149)" using k by simp
    note t = trunc_main [OF this, of "0" "(2 ^ 64 - 1)" exact st s M]
    define w where "w = push_bit 40 (fracF32UI u OR 0x00800000)"
    have w: "unat w = M * 2 ^ 40" using M(2) unfolding w_def unat_push hid M_def [symmetric] by simp
    have q: "uint (drop_bit k w) = int (M * 2 ^ 40 div 2 ^ k)" by (simp only: uint_nat unat_drop w)
    have "M * 2 ^ 40 < 2 ^ 64" using M(2) by simp
    also have "(2 :: nat) ^ 64 \<le> 2 ^ (k + 64)" using k(2) by (intro power_increasing) simp_all
    finally have b: "M * 2 ^ 40 div 2 ^ k < 2 ^ 64" by (rule div_pow2_lt)
    have low: "40 - (190 - exp) < 0 \<and> (ucast (push_bit (nat ((40 - (190 - exp)) mod 32)) (fracF32UI u OR 0x00800000)) :: u32) \<noteq> 0 \<longleftrightarrow>
        M * 2 ^ 40 mod 2 ^ k \<noteq> 0"
    proof (cases "k \<le> 40")
      case True
      then have "(2 :: nat) ^ k dvd 2 ^ 40" by (rule le_imp_power_dvd)
      then have "2 ^ k dvd M * 2 ^ 40" by (rule dvd_mult)
      then have "M * 2 ^ 40 mod 2 ^ k = 0" by simp
      then show ?thesis using True k(1) by simp
    next
      case False
      define d where "d = k - 40"
      have d: "k = 40 + d" "1 \<le> d" "d \<le> 23" using False k(3) by (simp_all add: d_def)
      have "40 - (190 - exp) = - int d" using k(1) d by simp
      moreover have "(- int d) mod 32 = 32 - int d" using d by (simp add: mod_if_neg)
      ultimately have s: "40 - (190 - exp) < 0" "nat ((40 - (190 - exp)) mod 32) = 32 - d" using d by simp_all
      have "(2 :: nat) ^ (32 - d) \<le> 2 ^ 31" using d by (intro power_increasing) simp_all
      then have "M * 2 ^ (32 - d) \<le> M * 2 ^ 31" by (rule mult_le_mono2)
      also have "\<dots> < 2 ^ 64" using M(2) by simp
      finally have lt: "M * 2 ^ (32 - d) < 2 ^ 64" .
      have "unat (ucast (push_bit (32 - d) (fracF32UI u OR 0x00800000)) :: u32) = M * 2 ^ (32 - d) mod 2 ^ 32"
        using lt unfolding unat_cast unat_push hid M_def [symmetric] by simp
      also have "\<dots> = M mod 2 ^ d * 2 ^ (32 - d)" using d by (intro shl_mod_pow2) simp
      finally have v: "(ucast (push_bit (32 - d) (fracF32UI u OR 0x00800000)) :: u32) \<noteq> 0 \<longleftrightarrow> M mod 2 ^ d \<noteq> 0"
        by (simp add: word_eq_nat)
      have "M * 2 ^ 40 mod 2 ^ k = M mod 2 ^ d * 2 ^ 40" unfolding d(1) power_add by (simp add: mult.commute)
      then show ?thesis unfolding s(2) v using s(1) by simp
    qed
    have pos: "0 < M * 2 ^ 40 div 2 ^ k"
    proof -
      have "(2 :: nat) ^ k \<le> 2 ^ 63" using k(3) by (intro power_increasing) simp_all
      also have "\<dots> \<le> M * 2 ^ 40" using M(1) by simp
      finally show ?thesis by (simp add: div_greater_zero_iff)
    qed
    have r: "fp_to_int 0 (2 ^ 64 - 1) RTZ exact st (decode f32_fmt (unat a)) =
        (if s then (0, softfloat_raiseFlags softfloat_flag_invalid st)
         else (int (M * 2 ^ 40 div 2 ^ k), if exact \<and> M * 2 ^ 40 mod 2 ^ k \<noteq> 0 then softfloat_raiseFlags softfloat_flag_inexact st else st))"
      unfolding x [OF ne(1)] if_not_P [OF ne(2)] t limit_result_unsigned using b pos by auto
    have st: "\<not> 64 \<le> 190 - exp" "\<not> 190 - exp < 0" using main by simp_all
    show ?thesis
      unfolding r defs w_def [symmetric] k_def [symmetric] low if_not_P [OF st(1)]
      using main st by (auto simp: uints_def q ui64_fromNegOverflow_def low)
  qed
qed

lemma f64_to_i32_r_minMag_int: "f64_to_i32_r_minMag a exact st =
    fp_to_int (- (2 ^ 31)) (2 ^ 31 - 1) RTZ exact st (decode f64_fmt (unat a))"
proof -
  have "unat (ucast a :: u64) = unat a" using unat_lt_64 [of a] by (simp add: unat_cast)
  define u where "u = (ucast a :: u64)"
  have ua: "unat a = unat u" using \<open>unat (ucast a :: u64) = unat a\<close> by (simp add: u_def)
  define f exp s where "f = unat (fracF64UI u)" and "exp = expF64UI u" and "s = signF64UI u"
  have z: "fracF64UI u = 0 \<longleftrightarrow> f = 0" by (simp add: f_def word_eq_nat)
  have f: "f < 2 ^ 52" unfolding f_def by (rule fracF64_bound)
  have e: "0 \<le> exp" "exp \<le> 0x7FF" unfolding exp_def by (rule expF64_bounds)+
  have dec: "decode f64_fmt (unat a) = (if exp = 0x7FF then if f = 0 then Inf s else NaN (softfloat_isSigNaNF64UI u)
      else if exp = 0 then Fin s f (- 1074) else Fin s (2 ^ 52 + f) (exp - 1 + - 1074))"
    unfolding ua decodeF64 z f_def exp_def s_def ..
  have hid: "unat (fracF64UI u OR 0x0010000000000000) = 2 ^ 52 + f"
    using f or_disjoint_nat [of f 52 1] by (simp add: f_def unat_disj or.commute)
  note defs = f64_to_i32_r_minMag_def Let_def u_def [symmetric] exp_def [symmetric] s_def [symmetric] z
  have hid': "unat (fracF64UI u OR 0x0010000000000000) = 2 ^ 52 + f" by (rule hid)
  define M where "M = 2 ^ 52 + f"
  have M: "2 ^ 52 \<le> M" "M < 2 ^ 53" using f by (simp_all add: M_def)
  have x: "fp_to_int (- (2 ^ 31)) (2 ^ 31 - 1) RTZ exact st (decode f64_fmt (unat a)) =
      (if exp = 0 then to_int (- (2 ^ 31)) (2 ^ 31 - 1) RTZ exact st s f (- 1074)
       else to_int (- (2 ^ 31)) (2 ^ 31 - 1) RTZ exact st s M (exp - 1 + - 1074))" if "exp \<noteq> 0x7FF"
    unfolding dec M_def using that by simp
  consider (nan) "exp = 0x7FF" | (zero) "exp \<le> 1022" | (over) "1054 < exp" "exp < 0x7FF" | (top) "exp = 1054"
    | (main) "1022 < exp" "exp < 1054"
    using e by linarith
  then show ?thesis
  proof cases
    case nan
    then show ?thesis unfolding defs dec by (simp add: i32_fromNaN_def i32_fromNegOverflow_def i32_fromPosOverflow_def)
  next
    case zero
    then have "fp_to_int (- (2 ^ 31)) (2 ^ 31 - 1) RTZ exact st (decode f64_fmt (unat a)) =
        (0, if exact \<and> (exp \<noteq> 0 \<or> f \<noteq> 0) then softfloat_raiseFlags softfloat_flag_inexact st else st)"
      using trunc_zero [OF f e(1), of "- 1074" "(- (2 ^ 31))" "(2 ^ 31 - 1)" exact st s] unfolding M_def [symmetric] by (subst x) simp_all
    then show ?thesis unfolding defs using zero by simp
  next
    case over
    define d where "d = exp - 1 + - 1074"
    have d: "-20 \<le> d" using over(1) by (simp add: d_def)
    have "2 ^ 32 * (2 :: nat) ^ nat (- d) \<le> 2 ^ 52 * 2 ^ nat d"
    proof -
      have "32 + nat (- d) \<le> 52 + nat d" using d by simp
      then show ?thesis unfolding power_add [symmetric] by (intro power_increasing) simp_all
    qed
    also have "\<dots> \<le> M * 2 ^ nat d" using M(1) by (rule mult_le_mono1)
    finally have "to_int (- (2 ^ 31)) (2 ^ 31 - 1) RTZ exact st s M d = (if s then (- (2 ^ 31)) else (2 ^ 31 - 1), softfloat_raiseFlags softfloat_flag_invalid st)"
      by (intro to_int_overflow [where h = 32]) simp_all
    then have r: "fp_to_int (- (2 ^ 31)) (2 ^ 31 - 1) RTZ exact st (decode f64_fmt (unat a)) =
        (if s then (- (2 ^ 31)) else (2 ^ 31 - 1), softfloat_raiseFlags softfloat_flag_invalid st)"
      using over by (subst x) (simp_all add: d_def)
    have "True" ..
    then show ?thesis unfolding r defs using over by (simp add: i32_fromNaN_def i32_fromNegOverflow_def i32_fromPosOverflow_def)
  next
    case top
    have ne: "exp \<noteq> 0x7FF" "exp \<noteq> 0" using top by simp_all
    have "int 21 = int 0 - (exp - 1 + - 1074)" using top by simp
    note t = trunc_main [OF this, of "(- (2 ^ 31))" "(2 ^ 31 - 1)" exact st s M]
    have q: "M * 2 ^ 0 div 2 ^ 21 \<le> 2 ^ 31 \<longleftrightarrow> f < 2 ^ 21" "2 ^ 31 \<le> M * 2 ^ 0 div 2 ^ 21"
      using f by (simp_all add: M_def less_Suc_eq_le [symmetric] div_less_iff_less_mult less_eq_div_iff_mult_less_eq del: less_Suc_eq_le)
    have l: "f < 2 ^ 21 \<Longrightarrow> M * 2 ^ 0 mod 2 ^ 21 = f"
      using mod_add_left_eq [of "2 ^ 52" "2 ^ 21" f] by (simp add: M_def)
    have fl: "fracF64UI u < 0x0000000000200000 \<longleftrightarrow> f < 2 ^ 21" by (simp add: word_less_nat_alt f_def)
    have r: "fp_to_int (- (2 ^ 31)) (2 ^ 31 - 1) RTZ exact st (decode f64_fmt (unat a)) =
        (if s \<and> f < 2 ^ 21 then (- (2 ^ 31), if exact \<and> f \<noteq> 0 then softfloat_raiseFlags softfloat_flag_inexact st else st)
         else (if s then (- (2 ^ 31)) else (2 ^ 31 - 1), softfloat_raiseFlags softfloat_flag_invalid st))"
      unfolding x [OF ne(1)] if_not_P [OF ne(2)] t limit_result_signed using q l by (auto simp: M_def)
    show ?thesis unfolding r defs fl using top by (simp add: i32_fromNaN_def i32_fromNegOverflow_def i32_fromPosOverflow_def)
  next
    case main
    have ne: "exp \<noteq> 0x7FF" "exp \<noteq> 0" using main by simp_all
    define k where "k = nat (1075 - exp)"
    have k: "int k = 1075 - exp" "22 \<le> k" "k \<le> 52" using main by (simp_all add: k_def)
    have "int k = int 0 - (exp - 1 + - 1074)" using k by simp
    note t = trunc_main [OF this, of "(- (2 ^ 31))" "(2 ^ 31 - 1)" exact st s M]
    define w where "w = fracF64UI u OR 0x0010000000000000"
    have w: "unat w = M * 2 ^ 0" using M(2) unfolding w_def unat_push hid M_def [symmetric] by simp
    have q: "uint (drop_bit k w) = int (M * 2 ^ 0 div 2 ^ k)" by (simp only: uint_nat unat_drop w)
    have "M * 2 ^ 0 < 2 ^ 53" using M(2) by simp
    also have "(2 :: nat) ^ 53 \<le> 2 ^ (k + 31)" using k(2) by (intro power_increasing) simp_all
    finally have b: "M * 2 ^ 0 div 2 ^ k < 2 ^ 31" by (rule div_pow2_lt)
    have low: "push_bit k (drop_bit k w) \<noteq> w \<longleftrightarrow> M * 2 ^ 0 mod 2 ^ k \<noteq> 0" by (rule shift_back [OF w])
    have r: "fp_to_int (- (2 ^ 31)) (2 ^ 31 - 1) RTZ exact st (decode f64_fmt (unat a)) =
        (if s then - int (M * 2 ^ 0 div 2 ^ k) else int (M * 2 ^ 0 div 2 ^ k),
         if exact \<and> M * 2 ^ 0 mod 2 ^ k \<noteq> 0 then softfloat_raiseFlags softfloat_flag_inexact st else st)"
      unfolding x [OF ne(1)] if_not_P [OF ne(2)] t limit_result_signed using b by auto
    show ?thesis
      unfolding r defs w_def [symmetric] k_def [symmetric] low using main by (auto simp: q)
  qed
qed

lemma f64_to_ui32_r_minMag_int: "uints (f64_to_ui32_r_minMag a exact st) =
    fp_to_int 0 (2 ^ 32 - 1) RTZ exact st (decode f64_fmt (unat a))"
proof -
  have "unat (ucast a :: u64) = unat a" using unat_lt_64 [of a] by (simp add: unat_cast)
  define u where "u = (ucast a :: u64)"
  have ua: "unat a = unat u" using \<open>unat (ucast a :: u64) = unat a\<close> by (simp add: u_def)
  define f exp s where "f = unat (fracF64UI u)" and "exp = expF64UI u" and "s = signF64UI u"
  have z: "fracF64UI u = 0 \<longleftrightarrow> f = 0" by (simp add: f_def word_eq_nat)
  have f: "f < 2 ^ 52" unfolding f_def by (rule fracF64_bound)
  have e: "0 \<le> exp" "exp \<le> 0x7FF" unfolding exp_def by (rule expF64_bounds)+
  have dec: "decode f64_fmt (unat a) = (if exp = 0x7FF then if f = 0 then Inf s else NaN (softfloat_isSigNaNF64UI u)
      else if exp = 0 then Fin s f (- 1074) else Fin s (2 ^ 52 + f) (exp - 1 + - 1074))"
    unfolding ua decodeF64 z f_def exp_def s_def ..
  have hid: "unat (fracF64UI u OR 0x0010000000000000) = 2 ^ 52 + f"
    using f or_disjoint_nat [of f 52 1] by (simp add: f_def unat_disj or.commute)
  note defs = f64_to_ui32_r_minMag_def Let_def u_def [symmetric] exp_def [symmetric] s_def [symmetric] z
  have hid': "unat (fracF64UI u OR 0x0010000000000000) = 2 ^ 52 + f" by (rule hid)
  define M where "M = 2 ^ 52 + f"
  have M: "2 ^ 52 \<le> M" "M < 2 ^ 53" using f by (simp_all add: M_def)
  have x: "fp_to_int 0 (2 ^ 32 - 1) RTZ exact st (decode f64_fmt (unat a)) =
      (if exp = 0 then to_int 0 (2 ^ 32 - 1) RTZ exact st s f (- 1074)
       else to_int 0 (2 ^ 32 - 1) RTZ exact st s M (exp - 1 + - 1074))" if "exp \<noteq> 0x7FF"
    unfolding dec M_def using that by simp
  consider (nan) "exp = 0x7FF" | (zero) "exp \<le> 1022" | (over) "1054 < exp" "exp < 0x7FF" | (main) "1022 < exp" "exp \<le> 1054"
    using e by linarith
  then show ?thesis
  proof cases
    case nan
    then show ?thesis unfolding defs dec by (simp add: uints_def ui32_fromNaN_def ui32_fromNegOverflow_def ui32_fromPosOverflow_def)
  next
    case zero
    then have "fp_to_int 0 (2 ^ 32 - 1) RTZ exact st (decode f64_fmt (unat a)) =
        (0, if exact \<and> (exp \<noteq> 0 \<or> f \<noteq> 0) then softfloat_raiseFlags softfloat_flag_inexact st else st)"
      using trunc_zero [OF f e(1), of "- 1074" "0" "(2 ^ 32 - 1)" exact st s] unfolding M_def [symmetric] by (subst x) simp_all
    then show ?thesis unfolding defs using zero by (simp add: uints_def)
  next
    case over
    define d where "d = exp - 1 + - 1074"
    have d: "-20 \<le> d" using over(1) by (simp add: d_def)
    have "2 ^ 32 * (2 :: nat) ^ nat (- d) \<le> 2 ^ 52 * 2 ^ nat d"
    proof -
      have "32 + nat (- d) \<le> 52 + nat d" using d by simp
      then show ?thesis unfolding power_add [symmetric] by (intro power_increasing) simp_all
    qed
    also have "\<dots> \<le> M * 2 ^ nat d" using M(1) by (rule mult_le_mono1)
    finally have "to_int 0 (2 ^ 32 - 1) RTZ exact st s M d = (if s then 0 else (2 ^ 32 - 1), softfloat_raiseFlags softfloat_flag_invalid st)"
      by (intro to_int_overflow [where h = 32]) simp_all
    then have r: "fp_to_int 0 (2 ^ 32 - 1) RTZ exact st (decode f64_fmt (unat a)) =
        (if s then 0 else (2 ^ 32 - 1), softfloat_raiseFlags softfloat_flag_invalid st)"
      using over by (subst x) (simp_all add: d_def)
    have "True" ..
    then show ?thesis unfolding r defs using over by (simp add: uints_def ui32_fromNaN_def ui32_fromNegOverflow_def ui32_fromPosOverflow_def)
  next
    case main
    have ne: "exp \<noteq> 0x7FF" "exp \<noteq> 0" using main by simp_all
    define k where "k = nat (1075 - exp)"
    have k: "int k = 1075 - exp" "21 \<le> k" "k \<le> 52" using main by (simp_all add: k_def)
    have "int k = int 0 - (exp - 1 + - 1074)" using k by simp
    note t = trunc_main [OF this, of "0" "(2 ^ 32 - 1)" exact st s M]
    define w where "w = fracF64UI u OR 0x0010000000000000"
    have w: "unat w = M * 2 ^ 0" using M(2) unfolding w_def unat_push hid M_def [symmetric] by simp
    have q: "uint (drop_bit k w) = int (M * 2 ^ 0 div 2 ^ k)" by (simp only: uint_nat unat_drop w)
    have "M * 2 ^ 0 < 2 ^ 53" using M(2) by simp
    also have "(2 :: nat) ^ 53 \<le> 2 ^ (k + 32)" using k(2) by (intro power_increasing) simp_all
    finally have b: "M * 2 ^ 0 div 2 ^ k < 2 ^ 32" by (rule div_pow2_lt)
    have low: "push_bit k (drop_bit k w) \<noteq> w \<longleftrightarrow> M * 2 ^ 0 mod 2 ^ k \<noteq> 0" by (rule shift_back [OF w])
    have pos: "0 < M * 2 ^ 0 div 2 ^ k"
    proof -
      have "(2 :: nat) ^ k \<le> 2 ^ 52" using k(3) by (intro power_increasing) simp_all
      also have "\<dots> \<le> M * 2 ^ 0" using M(1) by simp
      finally show ?thesis by (simp add: div_greater_zero_iff)
    qed
    have r: "fp_to_int 0 (2 ^ 32 - 1) RTZ exact st (decode f64_fmt (unat a)) =
        (if s then (0, softfloat_raiseFlags softfloat_flag_invalid st)
         else (int (M * 2 ^ 0 div 2 ^ k), if exact \<and> M * 2 ^ 0 mod 2 ^ k \<noteq> 0 then softfloat_raiseFlags softfloat_flag_inexact st else st))"
      unfolding x [OF ne(1)] if_not_P [OF ne(2)] t limit_result_unsigned using b pos by auto
    have st: "\<not> 53 \<le> 1075 - exp" "\<not> 1075 - exp < 21" using main by simp_all
    show ?thesis
      unfolding r defs w_def [symmetric] k_def [symmetric] low if_not_P [OF st(1)]
      using main st by (auto simp: uints_def q ui32_fromNegOverflow_def low)
  qed
qed

lemma f64_to_i64_r_minMag_int: "f64_to_i64_r_minMag a exact st =
    fp_to_int (- (2 ^ 63)) (2 ^ 63 - 1) RTZ exact st (decode f64_fmt (unat a))"
proof -
  have "unat (ucast a :: u64) = unat a" using unat_lt_64 [of a] by (simp add: unat_cast)
  define u where "u = (ucast a :: u64)"
  have ua: "unat a = unat u" using \<open>unat (ucast a :: u64) = unat a\<close> by (simp add: u_def)
  define f exp s where "f = unat (fracF64UI u)" and "exp = expF64UI u" and "s = signF64UI u"
  have z: "fracF64UI u = 0 \<longleftrightarrow> f = 0" by (simp add: f_def word_eq_nat)
  have f: "f < 2 ^ 52" unfolding f_def by (rule fracF64_bound)
  have e: "0 \<le> exp" "exp \<le> 0x7FF" unfolding exp_def by (rule expF64_bounds)+
  have dec: "decode f64_fmt (unat a) = (if exp = 0x7FF then if f = 0 then Inf s else NaN (softfloat_isSigNaNF64UI u)
      else if exp = 0 then Fin s f (- 1074) else Fin s (2 ^ 52 + f) (exp - 1 + - 1074))"
    unfolding ua decodeF64 z f_def exp_def s_def ..
  have hid: "unat (fracF64UI u OR 0x0010000000000000) = 2 ^ 52 + f"
    using f or_disjoint_nat [of f 52 1] by (simp add: f_def unat_disj or.commute)
  note defs = f64_to_i64_r_minMag_def Let_def u_def [symmetric] exp_def [symmetric] s_def [symmetric] z
  have hid': "unat (fracF64UI u OR 0x0010000000000000) = 2 ^ 52 + f" by (rule hid)
  define M where "M = 2 ^ 52 + f"
  have M: "2 ^ 52 \<le> M" "M < 2 ^ 53" using f by (simp_all add: M_def)
  have x: "fp_to_int (- (2 ^ 63)) (2 ^ 63 - 1) RTZ exact st (decode f64_fmt (unat a)) =
      (if exp = 0 then to_int (- (2 ^ 63)) (2 ^ 63 - 1) RTZ exact st s f (- 1074)
       else to_int (- (2 ^ 63)) (2 ^ 63 - 1) RTZ exact st s M (exp - 1 + - 1074))" if "exp \<noteq> 0x7FF"
    unfolding dec M_def using that by simp
  consider (nan) "exp = 0x7FF" | (zero) "exp \<le> 1022" | (over) "1086 < exp" "exp < 0x7FF" | (top) "exp = 1086"
    | (main) "1022 < exp" "exp < 1086"
    using e by linarith
  then show ?thesis
  proof cases
    case nan
    then have "u \<noteq> packToF64UI True 1086 0"
      using fieldsF64(2) [of u] by (auto simp: exp_def word_eq_nat unat_packToF64UI)
    with nan show ?thesis unfolding defs dec by (simp add: i64_fromNaN_def i64_fromNegOverflow_def i64_fromPosOverflow_def)
  next
    case zero
    then have "fp_to_int (- (2 ^ 63)) (2 ^ 63 - 1) RTZ exact st (decode f64_fmt (unat a)) =
        (0, if exact \<and> (exp \<noteq> 0 \<or> f \<noteq> 0) then softfloat_raiseFlags softfloat_flag_inexact st else st)"
      using trunc_zero [OF f e(1), of "- 1074" "(- (2 ^ 63))" "(2 ^ 63 - 1)" exact st s] unfolding M_def [symmetric] by (subst x) simp_all
    then show ?thesis unfolding defs using zero by simp
  next
    case over
    define d where "d = exp - 1 + - 1074"
    have d: "12 \<le> d" using over(1) by (simp add: d_def)
    have "2 ^ 64 * (2 :: nat) ^ nat (- d) \<le> 2 ^ 52 * 2 ^ nat d"
    proof -
      have "64 + nat (- d) \<le> 52 + nat d" using d by simp
      then show ?thesis unfolding power_add [symmetric] by (intro power_increasing) simp_all
    qed
    also have "\<dots> \<le> M * 2 ^ nat d" using M(1) by (rule mult_le_mono1)
    finally have "to_int (- (2 ^ 63)) (2 ^ 63 - 1) RTZ exact st s M d = (if s then (- (2 ^ 63)) else (2 ^ 63 - 1), softfloat_raiseFlags softfloat_flag_invalid st)"
      by (intro to_int_overflow [where h = 64]) simp_all
    then have r: "fp_to_int (- (2 ^ 63)) (2 ^ 63 - 1) RTZ exact st (decode f64_fmt (unat a)) =
        (if s then (- (2 ^ 63)) else (2 ^ 63 - 1), softfloat_raiseFlags softfloat_flag_invalid st)"
      using over by (subst x) (simp_all add: d_def)
    have "u \<noteq> packToF64UI True 1086 0"
      using fieldsF64(2) [of u] over by (auto simp: exp_def word_eq_nat unat_packToF64UI)
    then show ?thesis unfolding r defs using over by (simp add: i64_fromNaN_def i64_fromNegOverflow_def i64_fromPosOverflow_def)
  next
    case top
    have ne: "exp \<noteq> 0x7FF" "exp \<noteq> 0" using top by simp_all
    have "int 0 = int 11 - (exp - 1 + - 1074)" using top by simp
    note t = trunc_main [OF this, of "(- (2 ^ 63))" "(2 ^ 63 - 1)" exact st s M]
    have q: "M * 2 ^ 11 div 2 ^ 0 \<le> 2 ^ 63 \<longleftrightarrow> f = 0" "2 ^ 63 \<le> M * 2 ^ 11 div 2 ^ 0" by (simp_all add: M_def)
    have "u = packToF64UI True 1086 0 \<longleftrightarrow> s \<and> f = 0"
    proof -
      have "unat u = of_bool s * 2 ^ 63 + (nat exp * 2 ^ 52 + f)"
        unfolding s_def exp_def f_def by (rule patternF64) (use ua unat_lt_64 [of a] in simp)
      then show ?thesis using top f by (simp add: word_eq_nat unat_packToF64UI)
    qed
    note p = this
    have r: "fp_to_int (- (2 ^ 63)) (2 ^ 63 - 1) RTZ exact st (decode f64_fmt (unat a)) =
        (if s \<and> f = 0 then (- (2 ^ 63), st)
         else (if s then (- (2 ^ 63)) else (2 ^ 63 - 1), softfloat_raiseFlags softfloat_flag_invalid st))"
      unfolding x [OF ne(1)] if_not_P [OF ne(2)] t limit_result_signed using q by (auto simp: M_def)
    show ?thesis unfolding r defs p using top by (simp add: i64_fromNaN_def i64_fromNegOverflow_def i64_fromPosOverflow_def)
  next
    case main
    have ne: "exp \<noteq> 0x7FF" "exp \<noteq> 0" using main by simp_all
    show ?thesis
    proof (cases "0x433 \<le> exp")
      case True
      define j where "j = nat (exp - 0x433)"
      have j: "int j = exp - 0x433" "nat (- (0x433 - exp)) = j" "j \<le> 10" using True main by (simp_all add: j_def)
      have "int 0 = int j - (exp - 1 + - 1074)" using j by simp
      note t = trunc_main [OF this, of "(- (2 ^ 63))" "(2 ^ 63 - 1)" exact st s M]
      have "(2 :: nat) ^ j \<le> 2 ^ 10" using j(3) by (intro power_increasing) simp_all
      then have "M * 2 ^ j \<le> M * 2 ^ 10" by (rule mult_le_mono2)
      also have "\<dots> < 2 ^ 63" using M(2) by simp
      finally have lt: "M * 2 ^ j < 2 ^ 63" .
      have w: "uint (push_bit j (fracF64UI u OR 0x0010000000000000)) = int (M * 2 ^ j)"
        using lt by (intro unsigned_of_unat) (simp only: unat_push hid M_def [symmetric], simp)
      have r: "fp_to_int (- (2 ^ 63)) (2 ^ 63 - 1) RTZ exact st (decode f64_fmt (unat a)) =
          (if s then - int (M * 2 ^ j) else int (M * 2 ^ j), st)"
        unfolding x [OF ne(1)] if_not_P [OF ne(2)] t limit_result_signed using lt by auto
      show ?thesis
        unfolding r defs j(2) using main True w by auto
    next
      case False
    define k where "k = nat (1075 - exp)"
    have k: "int k = 1075 - exp" "1 \<le> k" "k \<le> 52" using main False by (simp_all add: k_def)
    have "int k = int 0 - (exp - 1 + - 1074)" using k by simp
    note t = trunc_main [OF this, of "(- (2 ^ 63))" "(2 ^ 63 - 1)" exact st s M]
    define w where "w = fracF64UI u OR 0x0010000000000000"
    have w: "unat w = M * 2 ^ 0" using M(2) unfolding w_def unat_push hid M_def [symmetric] by simp
    have q: "uint (drop_bit k w) = int (M * 2 ^ 0 div 2 ^ k)" by (simp only: uint_nat unat_drop w)
    have "M * 2 ^ 0 < 2 ^ 53" using M(2) by simp
    also have "(2 :: nat) ^ 53 \<le> 2 ^ (k + 63)" using k(2) by (intro power_increasing) simp_all
    finally have b: "M * 2 ^ 0 div 2 ^ k < 2 ^ 63" by (rule div_pow2_lt)
    have low: "push_bit k (drop_bit k w) \<noteq> w \<longleftrightarrow> M * 2 ^ 0 mod 2 ^ k \<noteq> 0" by (rule shift_back [OF w])
    have r: "fp_to_int (- (2 ^ 63)) (2 ^ 63 - 1) RTZ exact st (decode f64_fmt (unat a)) =
        (if s then - int (M * 2 ^ 0 div 2 ^ k) else int (M * 2 ^ 0 div 2 ^ k),
         if exact \<and> M * 2 ^ 0 mod 2 ^ k \<noteq> 0 then softfloat_raiseFlags softfloat_flag_inexact st else st)"
      unfolding x [OF ne(1)] if_not_P [OF ne(2)] t limit_result_signed using b by auto
    show ?thesis
      unfolding r defs w_def [symmetric] k_def [symmetric] low using main False by (auto simp: q)
    qed
  qed
qed

lemma f64_to_ui64_r_minMag_int: "uints (f64_to_ui64_r_minMag a exact st) =
    fp_to_int 0 (2 ^ 64 - 1) RTZ exact st (decode f64_fmt (unat a))"
proof -
  have "unat (ucast a :: u64) = unat a" using unat_lt_64 [of a] by (simp add: unat_cast)
  define u where "u = (ucast a :: u64)"
  have ua: "unat a = unat u" using \<open>unat (ucast a :: u64) = unat a\<close> by (simp add: u_def)
  define f exp s where "f = unat (fracF64UI u)" and "exp = expF64UI u" and "s = signF64UI u"
  have z: "fracF64UI u = 0 \<longleftrightarrow> f = 0" by (simp add: f_def word_eq_nat)
  have f: "f < 2 ^ 52" unfolding f_def by (rule fracF64_bound)
  have e: "0 \<le> exp" "exp \<le> 0x7FF" unfolding exp_def by (rule expF64_bounds)+
  have dec: "decode f64_fmt (unat a) = (if exp = 0x7FF then if f = 0 then Inf s else NaN (softfloat_isSigNaNF64UI u)
      else if exp = 0 then Fin s f (- 1074) else Fin s (2 ^ 52 + f) (exp - 1 + - 1074))"
    unfolding ua decodeF64 z f_def exp_def s_def ..
  have hid: "unat (fracF64UI u OR 0x0010000000000000) = 2 ^ 52 + f"
    using f or_disjoint_nat [of f 52 1] by (simp add: f_def unat_disj or.commute)
  note defs = f64_to_ui64_r_minMag_def Let_def u_def [symmetric] exp_def [symmetric] s_def [symmetric] z
  have hid': "unat (fracF64UI u OR 0x0010000000000000) = 2 ^ 52 + f" by (rule hid)
  define M where "M = 2 ^ 52 + f"
  have M: "2 ^ 52 \<le> M" "M < 2 ^ 53" using f by (simp_all add: M_def)
  have x: "fp_to_int 0 (2 ^ 64 - 1) RTZ exact st (decode f64_fmt (unat a)) =
      (if exp = 0 then to_int 0 (2 ^ 64 - 1) RTZ exact st s f (- 1074)
       else to_int 0 (2 ^ 64 - 1) RTZ exact st s M (exp - 1 + - 1074))" if "exp \<noteq> 0x7FF"
    unfolding dec M_def using that by simp
  consider (nan) "exp = 0x7FF" | (zero) "exp \<le> 1022" | (over) "1086 < exp" "exp < 0x7FF" | (main) "1022 < exp" "exp \<le> 1086"
    using e by linarith
  then show ?thesis
  proof cases
    case nan
    then show ?thesis unfolding defs dec by (simp add: uints_def ui64_fromNaN_def ui64_fromNegOverflow_def ui64_fromPosOverflow_def)
  next
    case zero
    then have "fp_to_int 0 (2 ^ 64 - 1) RTZ exact st (decode f64_fmt (unat a)) =
        (0, if exact \<and> (exp \<noteq> 0 \<or> f \<noteq> 0) then softfloat_raiseFlags softfloat_flag_inexact st else st)"
      using trunc_zero [OF f e(1), of "- 1074" "0" "(2 ^ 64 - 1)" exact st s] unfolding M_def [symmetric] by (subst x) simp_all
    then show ?thesis unfolding defs using zero by (simp add: uints_def)
  next
    case over
    define d where "d = exp - 1 + - 1074"
    have d: "12 \<le> d" using over(1) by (simp add: d_def)
    have "2 ^ 64 * (2 :: nat) ^ nat (- d) \<le> 2 ^ 52 * 2 ^ nat d"
    proof -
      have "64 + nat (- d) \<le> 52 + nat d" using d by simp
      then show ?thesis unfolding power_add [symmetric] by (intro power_increasing) simp_all
    qed
    also have "\<dots> \<le> M * 2 ^ nat d" using M(1) by (rule mult_le_mono1)
    finally have "to_int 0 (2 ^ 64 - 1) RTZ exact st s M d = (if s then 0 else (2 ^ 64 - 1), softfloat_raiseFlags softfloat_flag_invalid st)"
      by (intro to_int_overflow [where h = 64]) simp_all
    then have r: "fp_to_int 0 (2 ^ 64 - 1) RTZ exact st (decode f64_fmt (unat a)) =
        (if s then 0 else (2 ^ 64 - 1), softfloat_raiseFlags softfloat_flag_invalid st)"
      using over by (subst x) (simp_all add: d_def)
    have "True" ..
    then show ?thesis unfolding r defs using over by (simp add: uints_def ui64_fromNaN_def ui64_fromNegOverflow_def ui64_fromPosOverflow_def)
  next
    case main
    have ne: "exp \<noteq> 0x7FF" "exp \<noteq> 0" using main by simp_all
    show ?thesis
    proof (cases "0x433 \<le> exp")
      case True
      define j where "j = nat (exp - 0x433)"
      have j: "int j = exp - 0x433" "nat (- (0x433 - exp)) = j" "j \<le> 11" using True main by (simp_all add: j_def)
      have "int 0 = int j - (exp - 1 + - 1074)" using j by simp
      note t = trunc_main [OF this, of "0" "(2 ^ 64 - 1)" exact st s M]
      have "(2 :: nat) ^ j \<le> 2 ^ 11" using j(3) by (intro power_increasing) simp_all
      then have "M * 2 ^ j \<le> M * 2 ^ 11" by (rule mult_le_mono2)
      also have "\<dots> < 2 ^ 64" using M(2) by simp
      finally have lt: "M * 2 ^ j < 2 ^ 64" .
      have w: "uint (push_bit j (fracF64UI u OR 0x0010000000000000)) = int (M * 2 ^ j)"
        using lt by (intro unsigned_of_unat) (simp only: unat_push hid M_def [symmetric], simp)
      have pos: "0 < M * 2 ^ j" using M(1) by simp
      have r: "fp_to_int 0 (2 ^ 64 - 1) RTZ exact st (decode f64_fmt (unat a)) =
          (if s then (0, softfloat_raiseFlags softfloat_flag_invalid st) else (int (M * 2 ^ j), st))"
        unfolding x [OF ne(1)] if_not_P [OF ne(2)] t limit_result_unsigned using lt pos by auto
      show ?thesis
        unfolding r defs j(2) using main True w by (auto simp: uints_def ui64_fromNegOverflow_def)
    next
      case False
    define k where "k = nat (1075 - exp)"
    have k: "int k = 1075 - exp" "1 \<le> k" "k \<le> 52" using main False by (simp_all add: k_def)
    have "int k = int 0 - (exp - 1 + - 1074)" using k by simp
    note t = trunc_main [OF this, of "0" "(2 ^ 64 - 1)" exact st s M]
    define w where "w = fracF64UI u OR 0x0010000000000000"
    have w: "unat w = M * 2 ^ 0" using M(2) unfolding w_def unat_push hid M_def [symmetric] by simp
    have q: "uint (drop_bit k w) = int (M * 2 ^ 0 div 2 ^ k)" by (simp only: uint_nat unat_drop w)
    have "M * 2 ^ 0 < 2 ^ 53" using M(2) by simp
    also have "(2 :: nat) ^ 53 \<le> 2 ^ (k + 64)" using k(2) by (intro power_increasing) simp_all
    finally have b: "M * 2 ^ 0 div 2 ^ k < 2 ^ 64" by (rule div_pow2_lt)
    have low: "push_bit (nat ((- (1075 - exp)) mod 64)) w \<noteq> 0 \<longleftrightarrow> M * 2 ^ 0 mod 2 ^ k \<noteq> 0"
    proof -
      have m: "- (1075 - exp) = - int k" using k(1) by simp
      have "(- int k) mod 64 = 64 - int k" using k(2,3) by (simp add: zmod_zminus1_eq_if)
      then have s: "nat ((- (1075 - exp)) mod 64) = 64 - k" unfolding m using k(3) by linarith
      have "unat (push_bit (64 - k) w) = M * 2 ^ (64 - k) mod 2 ^ 64" by (simp add: unat_push w)
      also have "\<dots> = M mod 2 ^ k * 2 ^ (64 - k)" using k by (intro shl_mod_pow2) simp
      finally show ?thesis unfolding s by (simp add: word_eq_nat)
    qed
    have pos: "0 < M * 2 ^ 0 div 2 ^ k"
    proof -
      have "(2 :: nat) ^ k \<le> 2 ^ 52" using k(3) by (intro power_increasing) simp_all
      also have "\<dots> \<le> M * 2 ^ 0" using M(1) by simp
      finally show ?thesis by (simp add: div_greater_zero_iff)
    qed
    have r: "fp_to_int 0 (2 ^ 64 - 1) RTZ exact st (decode f64_fmt (unat a)) =
        (if s then (0, softfloat_raiseFlags softfloat_flag_invalid st)
         else (int (M * 2 ^ 0 div 2 ^ k), if exact \<and> M * 2 ^ 0 mod 2 ^ k \<noteq> 0 then softfloat_raiseFlags softfloat_flag_inexact st else st))"
      unfolding x [OF ne(1)] if_not_P [OF ne(2)] t limit_result_unsigned using b pos by auto
    have st: "\<not> 53 \<le> 1075 - exp" "\<not> 1075 - exp < -11" using main False by simp_all
    show ?thesis
      unfolding r defs w_def [symmetric] k_def [symmetric] low if_not_P [OF st(1)]
      using main False st by (auto simp: uints_def q ui64_fromNegOverflow_def low)
    qed
  qed
qed

section \<open>Properties\<close>

lemma int_rmode_minMag: "int_rmode softfloat_round_minMag = RTZ"
  by (simp add: int_rmode_def rmode_of_def)

lemma uints_inj: "uints r = uints q \<longleftrightarrow> r = q"
  by (auto simp: uints_def prod_eq_iff word_uint_eq_iff)

text \<open>C36: each specialised truncating conversion returns the same result and the same flags as the general
  conversion asked to round to zero, on every operand.\<close>

theorem truncation_is_rounding_to_zero:
  "f16_to_i32_r_minMag a exact st = f16_to_i32 a softfloat_round_minMag exact st \<and>
   f16_to_ui32_r_minMag a exact st = f16_to_ui32 a softfloat_round_minMag exact st \<and>
   f16_to_i64_r_minMag a exact st = f16_to_i64 a softfloat_round_minMag exact st \<and>
   f16_to_ui64_r_minMag a exact st = f16_to_ui64 a softfloat_round_minMag exact st \<and>
   f32_to_i32_r_minMag b exact st = f32_to_i32 b softfloat_round_minMag exact st \<and>
   f32_to_ui32_r_minMag b exact st = f32_to_ui32 b softfloat_round_minMag exact st \<and>
   f32_to_i64_r_minMag b exact st = f32_to_i64 b softfloat_round_minMag exact st \<and>
   f32_to_ui64_r_minMag b exact st = f32_to_ui64 b softfloat_round_minMag exact st \<and>
   f64_to_i32_r_minMag c exact st = f64_to_i32 c softfloat_round_minMag exact st \<and>
   f64_to_ui32_r_minMag c exact st = f64_to_ui32 c softfloat_round_minMag exact st \<and>
   f64_to_i64_r_minMag c exact st = f64_to_i64 c softfloat_round_minMag exact st \<and>
   f64_to_ui64_r_minMag c exact st = f64_to_ui64 c softfloat_round_minMag exact st"
proof -
  note general = f16_to_i32_int f16_to_ui32_int f16_to_i64_int f16_to_ui64_int f32_to_i32_int f32_to_ui32_int
    f32_to_i64_int f32_to_ui64_int f64_to_i32_int f64_to_ui32_int f64_to_i64_int f64_to_ui64_int
  note special = f16_to_i32_r_minMag_int f16_to_ui32_r_minMag_int f16_to_i64_r_minMag_int f16_to_ui64_r_minMag_int
    f32_to_i32_r_minMag_int f32_to_ui32_r_minMag_int f32_to_i64_r_minMag_int f32_to_ui64_r_minMag_int
    f64_to_i32_r_minMag_int f64_to_ui32_r_minMag_int f64_to_i64_r_minMag_int f64_to_ui64_r_minMag_int
  note unsigned = uints_inj [of "f16_to_ui32_r_minMag a exact st" "f16_to_ui32 a softfloat_round_minMag exact st", symmetric] uints_inj [of "f16_to_ui64_r_minMag a exact st" "f16_to_ui64 a softfloat_round_minMag exact st", symmetric] uints_inj [of "f32_to_ui32_r_minMag b exact st" "f32_to_ui32 b softfloat_round_minMag exact st", symmetric] uints_inj [of "f32_to_ui64_r_minMag b exact st" "f32_to_ui64 b softfloat_round_minMag exact st", symmetric] uints_inj [of "f64_to_ui32_r_minMag c exact st" "f64_to_ui32 c softfloat_round_minMag exact st", symmetric] uints_inj [of "f64_to_ui64_r_minMag c exact st" "f64_to_ui64 c softfloat_round_minMag exact st", symmetric]
  show ?thesis unfolding unsigned general special int_rmode_minMag by simp
qed

end
