(* ===== verification/RV_Arith.thy ===== *)
theory RV_Arith
  imports Prelude
begin

text \<open>
  The arithmetic helpers of \<open>riscv/arith.h\<close>: the high halves of 64-bit products, saturating
  sums and differences (templates, so generic in the word length), and bit field extraction.
  Signed operands are words read with \<open>sint\<close>; the C++ expressions that overflow a signed type
  (\<open>-a\<close>, \<open>a * b\<close>) wrap.
\<close>

section \<open>The routines\<close>

definition mulhu :: "u64 \<Rightarrow> u64 \<Rightarrow> u64" where
  "mulhu a b =
     (let a0 = a AND 0xFFFFFFFF; a1 = drop_bit 32 a;
          b0 = b AND 0xFFFFFFFF; b1 = drop_bit 32 b;
          t = a1 * b0 + drop_bit 32 (a0 * b0);
          y1 = ucast t :: u32; y2 = ucast (drop_bit 32 t) :: u32;
          t = a0 * b1 + ucast y1;
          t = a1 * b1 + ucast y2 + drop_bit 32 t;
          y2 = ucast t :: u32; y3 = ucast (drop_bit 32 t) :: u32
      in push_bit 32 (ucast y3) OR ucast y2)"

definition mulh :: "u64 \<Rightarrow> u64 \<Rightarrow> u64" where
  "mulh a b =
     (let negate = ((sint a < 0) \<noteq> (sint b < 0));
          res = mulhu (if sint a < 0 then - a else a) (if sint b < 0 then - b else b)
      in if negate then NOT res + of_bool (a * b = 0) else res)"

definition mulhsu :: "u64 \<Rightarrow> u64 \<Rightarrow> u64" where
  "mulhsu a b =
     (let negate = (sint a < 0);
          res = mulhu (if sint a < 0 then - a else a) b
      in if negate then NOT res + of_bool (a * b = 0) else res)"

definition sat_add :: "'a::len word \<Rightarrow> 'a word \<Rightarrow> 'a word \<times> bool" where
  "sat_add x y =
     (let res = x + y; sh = LENGTH('a) - 1;
          ux = drop_bit sh x + (push_bit sh 1 - 1)
      in if 0 \<le> sint ((ux XOR y) OR NOT (y XOR res)) then (ux, True) else (res, False))"

definition sat_sub :: "'a::len word \<Rightarrow> 'a word \<Rightarrow> 'a word \<times> bool" where
  "sat_sub x y =
     (let res = x - y; sh = LENGTH('a) - 1;
          ux = drop_bit sh x + (push_bit sh 1 - 1)
      in if sint ((ux XOR y) AND (ux XOR res)) < 0 then (ux, True) else (res, False))"

definition sat_addu :: "'a::len word \<Rightarrow> 'a word \<Rightarrow> 'a word \<times> bool" where
  "sat_addu x y = (let res = x + y; sat = (res < x) in (res OR - of_bool sat, sat))"

definition sat_subu :: "'a::len word \<Rightarrow> 'a word \<Rightarrow> 'a word \<times> bool" where
  "sat_subu x y = (let res = x - y in (res AND - of_bool (res \<le> x), \<not> res \<le> x))"

definition extract64 :: "u64 \<Rightarrow> nat \<Rightarrow> nat \<Rightarrow> u64" where
  "extract64 val pos len = drop_bit pos val AND drop_bit (64 - len) (NOT 0)"

definition make_mask64 :: "nat \<Rightarrow> nat \<Rightarrow> u64" where
  "make_mask64 pos len = push_bit pos (drop_bit (64 - len) (- 1))"

section \<open>Correctness\<close>

lemma div_of_split: "r < d \<Longrightarrow> (q * d + r) div d = q" for q d r :: nat
  by simp

lemma product_halves:
  fixes a b :: nat
  assumes "a < 2 ^ 64" "b < 2 ^ 64"
  defines "M \<equiv> 2 ^ 32"
  defines "t \<equiv> a div M * (b mod M) + a mod M * (b mod M) div M"
  defines "u \<equiv> a mod M * (b div M) + t mod M"
  shows "a div M * (b div M) + t div M + u div M = a * b div 2 ^ 64"
    "t < 2 ^ 64" "u < 2 ^ 64" "a div M * (b div M) + t div M + u div M < 2 ^ 64"
proof -
  have M: "M * M = 2 ^ 64" by (simp add: M_def)
  define a1 a0 b1 b0 where "a1 = a div M" and "a0 = a mod M" and "b1 = b div M" and "b0 = b mod M"
  have M0: "0 < M" by (simp add: M_def)
  have ab: "a = a1 * M + a0" "b = b1 * M + b0" by (simp_all add: a1_def a0_def b1_def b0_def)
  have lt: "a1 < M" "a0 < M" "b1 < M" "b0 < M"
    using assms(1,2) M0 unfolding a1_def a0_def b1_def b0_def by (simp_all add: M_def)
  define N P where "N = M - 1" and "P = N * N"
  have prod: "x * y \<le> P" if "x < M" "y < M" for x y
    using that unfolding P_def N_def by (intro mult_le_mono) simp_all
  have sq: "P + 2 * N < 2 ^ 64" by (simp add: P_def N_def M_def)
  have q: "a0 * b0 div M \<le> N"
  proof -
    have "a0 * b0 < M * M" using lt by (intro mult_strict_mono) simp_all
    then have "a0 * b0 div M < M" by (simp add: less_mult_imp_div_less)
    then show ?thesis by (simp add: N_def)
  qed
  have t: "t = a1 * b0 + a0 * b0 div M" and u: "u = a0 * b1 + t mod M"
    by (simp_all add: t_def u_def a1_def a0_def b1_def b0_def)
  show "t < 2 ^ 64" using prod [OF lt(1,4)] q sq unfolding t by linarith
  have "t mod M \<le> N" using mod_less_divisor [OF M0, of t] unfolding N_def by linarith
  then show "u < 2 ^ 64" using prod [OF lt(2,3)] sq unfolding u by linarith
  have eq: "a * b div 2 ^ 64 = a1 * b1 + t div M + u div M"
  proof -
    define q r s where "q = a0 * b0 div M" and "r = a0 * b0 mod M" and "s = u mod M"
    have e1: "a0 * b0 = q * M + r" unfolding q_def r_def by (rule div_mult_mod_eq [symmetric])
    have e2: "a1 * b0 + q = t div M * M + t mod M" unfolding div_mult_mod_eq by (simp add: t q_def)
    have e3: "a0 * b1 + t mod M = u div M * M + s" unfolding s_def div_mult_mod_eq by (simp add: u)
    have A: "a1 * b0 * M + q * M = t div M * (M * M) + t mod M * M"
      using arg_cong [OF e2, of "\<lambda>x. x * M"] by (simp only: add_mult_distrib mult.assoc)
    have B: "a0 * b1 * M + t mod M * M = u div M * (M * M) + s * M"
      using arg_cong [OF e3, of "\<lambda>x. x * M"] by (simp only: add_mult_distrib mult.assoc)
    have "a * b = a1 * b1 * (M * M) + a1 * b0 * M + a0 * b1 * M + a0 * b0" by (simp add: ab algebra_simps)
    then have "a * b = a1 * b1 * (M * M) + t div M * (M * M) + u div M * (M * M) + (s * M + r)"
      using A B e1 by linarith
    then have ab: "a * b = (a1 * b1 + t div M + u div M) * (M * M) + (s * M + r)"
      by (simp only: add_mult_distrib add.assoc)
    have "s * M + r < M * M"
    proof -
      have "s < M" "r < M" using M0 by (simp_all add: s_def r_def)
      then have "s * M + r < Suc s * M" by simp
      also have "\<dots> \<le> M * M" using \<open>s < M\<close> by (intro mult_le_mono1) simp
      finally show ?thesis .
    qed
    then have "((a1 * b1 + t div M + u div M) * (M * M) + (s * M + r)) div (M * M) = a1 * b1 + t div M + u div M"
      by (rule div_of_split)
    then show ?thesis unfolding ab M [symmetric] .
  qed
  then show "a div M * (b div M) + t div M + u div M = a * b div 2 ^ 64" by (simp add: a1_def b1_def)
  have "a * b < 2 ^ 64 * 2 ^ 64" using assms(1,2) by (intro mult_strict_mono) simp_all
  then have "a * b div 2 ^ 64 < 2 ^ 64" by (rule less_mult_imp_div_less)
  then show "a div M * (b div M) + t div M + u div M < 2 ^ 64" unfolding eq by (simp add: a1_def b1_def)
qed

lemma unat_plus_small: "unat a + unat b < 2 ^ 64 \<Longrightarrow> unat (a + b) = unat a + unat b" for a b :: u64
  by (simp add: unat_word_ariths)

lemma unat_mulhu: "unat (mulhu a b) = unat a * unat b div 2 ^ 64"
proof -
  define M where "M = (2 :: nat) ^ 32"
  define x y where "x = unat a" and "y = unat b"
  define t u where "t = x div M * (y mod M) + x mod M * (y mod M) div M" and "u = x mod M * (y div M) + t mod M"
  have xy: "x < 2 ^ 64" "y < 2 ^ 64" using unat_lt_64 by (simp_all add: x_def y_def)
  note p = product_halves [OF xy, folded M_def, folded t_def, folded u_def]
  have M2: "M * M = 2 ^ 64" "0 < M" by (simp_all add: M_def)
  have h: "unat (w AND 0xFFFFFFFF) = unat w mod M" "unat (drop_bit 32 w) = unat w div M"
    "unat (ucast (ucast w :: u32) :: u64) = unat w mod M" for w :: u64
    by (simp_all add: word_nat bits_nat M_def)
  have mul: "unat (v * w) = unat v * unat w" if "unat v < M" "unat w < M" for v w :: u64
  proof -
    have "unat v * unat w < M * M" using that by (intro mult_strict_mono) simp_all
    then show ?thesis by (simp add: unat_word_ariths M2)
  qed
  have lt: "x div M < M" "y div M < M" "x mod M < M" "y mod M < M"
    using xy by (simp_all add: M_def)
  define T where "T = drop_bit 32 a * (b AND 0xFFFFFFFF) + drop_bit 32 ((a AND 0xFFFFFFFF) * (b AND 0xFFFFFFFF))"
  have T: "unat T = t"
    unfolding T_def using lt p(2)
    by (subst unat_plus_small) (simp_all add: mul h t_def flip: x_def y_def)
  define U where "U = (a AND 0xFFFFFFFF) * drop_bit 32 b + ucast (ucast T :: u32)"
  have U: "unat U = u"
    unfolding U_def using lt p(3)
    by (subst unat_plus_small) (simp_all add: mul h T u_def flip: x_def y_def)
  define V where "V = drop_bit 32 a * drop_bit 32 b + ucast (ucast (drop_bit 32 T) :: u32) + drop_bit 32 U"
  have tM: "t div M mod M = t div M" using p(2) unfolding M2(1) [symmetric] by (simp add: less_mult_imp_div_less)
  have V: "unat V = x * y div 2 ^ 64"
  proof -
    have 1: "unat (drop_bit 32 a * drop_bit 32 b + ucast (ucast (drop_bit 32 T) :: u32)) = x div M * (y div M) + t div M"
      using lt p(4) by (subst unat_plus_small) (simp_all add: mul h T tM flip: x_def y_def)
    then show ?thesis
      unfolding V_def using p(1,4) by (subst unat_plus_small) (simp_all add: h U)
  qed
  have "unat (push_bit 32 (ucast (ucast (drop_bit 32 V) :: u32)) OR ucast (ucast V :: u32) :: u64) = unat V"
  proof -
    have v: "unat V div M < M" using unat_lt_64 [of V] by (simp add: M_def)
    have "unat V div M * M < 2 ^ 64"
      by (rule le_less_trans [OF div_times_less_eq_dividend]) (use unat_lt_64 [of V] in simp)
    then have s: "unat (push_bit 32 (ucast (ucast (drop_bit 32 V) :: u32)) :: u64) = unat V div M * M"
      using v by (simp add: unat_push h) (simp add: M_def)
    show ?thesis
      unfolding unat_disj s h(3) unfolding M_def by (subst or_disjoint_nat) simp_all
  qed
  then show ?thesis
    unfolding mulhu_def Let_def T_def [symmetric] U_def [symmetric] V_def [symmetric] by (simp add: V x_def y_def)
qed

lemma high_product_neg:
  fixes P :: nat
  assumes "P div 2 ^ 64 < 2 ^ 64"
  shows "NOT (word_of_nat (P div 2 ^ 64) :: u64) + of_bool ((word_of_int (- int P) :: u64) = 0) = word_of_int (- int P div 2 ^ 64)"
proof -
  define q where "q = P div 2 ^ 64"
  have m: "int P mod 2 ^ 64 = 0 \<longleftrightarrow> P mod 2 ^ 64 = 0"
  proof -
    have "int P mod 2 ^ 64 = int (P mod 2 ^ 64)" by (simp add: zmod_int)
    then show ?thesis by (simp only: of_nat_eq_0_iff)
  qed
  have z: "(word_of_int (- int P) :: u64) = 0 \<longleftrightarrow> P mod 2 ^ 64 = 0"
  proof -
    have "(word_of_int (- int P) :: u64) = 0 \<longleftrightarrow> (word_of_int (int P) :: u64) = 0" by simp
    also have "\<dots> \<longleftrightarrow> uint (word_of_int (int P) :: u64) = 0" by (rule uint_0_iff [symmetric])
    also have "\<dots> \<longleftrightarrow> int P mod 2 ^ 64 = 0" by (simp only: uint_word_of_int) simp
    also have "\<dots> \<longleftrightarrow> P mod 2 ^ 64 = 0" by (rule m)
    finally show ?thesis .
  qed
  have d: "int P div 2 ^ 64 = int q" unfolding q_def by (simp add: zdiv_int)
  have "- int P div 2 ^ 64 = (if int P mod 2 ^ 64 = 0 then - (int P div 2 ^ 64) else - (int P div 2 ^ 64) - 1)"
    by (rule zdiv_zminus1_eq_if) simp
  then have "- int P div 2 ^ 64 = (if P mod 2 ^ 64 = 0 then - int q else - int q - 1)" unfolding d m .
  then show ?thesis unfolding z q_def [symmetric] by (simp add: not_eq_complement)
qed

lemma mulhu_product: "mulhu a b = word_of_nat (unat a * unat b div 2 ^ 64)"
  unfolding unat_mulhu [symmetric] by simp

lemma mulhu_integer: "mulhu a b = word_of_int (uint a * uint b div 2 ^ 64)"
proof -
  have "uint a * uint b div 2 ^ 64 = int (unat a * unat b div 2 ^ 64)"
    unfolding uint_nat by (simp only: zdiv_int of_nat_mult of_nat_power of_nat_numeral)
  then show ?thesis unfolding mulhu_product by (simp only: of_int_of_nat_eq)
qed

lemma abs_word: "unat (if sint a < 0 then - a else a) = nat \<bar>sint a\<bar>" for a :: u64
proof -
  have "(if sint a < 0 then - a else a) = word_of_int \<bar>sint a\<bar>" by simp
  moreover have "\<bar>sint a\<bar> < 2 ^ 64" using sint_ge [of a] sint_lt [of a] unfolding abs_less_iff by simp
  ultimately show ?thesis by (simp add: unat_of_int)
qed

lemma abs_product_bound:
  fixes m n :: nat
  assumes "m \<le> 2 ^ 64" "n < 2 ^ 64"
  shows "m * n div 2 ^ 64 < 2 ^ 64"
proof -
  have "m * n \<le> 2 ^ 64 * n" using assms(1) by (rule mult_le_mono1)
  also have "\<dots> < 2 ^ 64 * 2 ^ 64" using assms(2) by simp
  finally show ?thesis by (rule less_mult_imp_div_less)
qed

text \<open>The shape both signed products share: the magnitudes multiplied, the high half negated.\<close>

lemma signed_high:
  fixes x y :: int and a b :: u64
  assumes "unat a = nat \<bar>x\<bar>" "unat b = nat \<bar>y\<bar>" "n \<longleftrightarrow> x * y < 0 \<or> n \<and> x * y = 0" "c = word_of_int (x * y)"
  shows "(if n then NOT (mulhu a b) + of_bool (c = (0 :: u64)) else mulhu a b) = word_of_int (x * y div 2 ^ 64)"
proof -
  define P where "P = unat a * unat b"
  have P: "int P = \<bar>x * y\<bar>" by (simp add: P_def assms(1,2) abs_mult)
  have b: "P div 2 ^ 64 < 2 ^ 64"
    unfolding P_def using unat_lt_64 [of a] unat_lt_64 [of b] by (intro abs_product_bound) simp_all
  show ?thesis
  proof (cases n)
    case True
    then have "x * y = - int P" using P assms(3) by linarith
    then show ?thesis using high_product_neg [OF b] True assms(4) by (simp add: mulhu_product P_def)
  next
    case False
    then have "x * y = int P" using P assms(3) by linarith
    moreover have "int P div 2 ^ 64 = int (P div 2 ^ 64)" by (simp add: zdiv_int)
    ultimately show ?thesis using False by (simp only: mulhu_product P_def [symmetric] if_False of_int_of_nat_eq)
  qed
qed

lemma mulh_product: "mulh a b = word_of_int (sint a * sint b div 2 ^ 64)"
  unfolding mulh_def Let_def
proof (rule signed_high [OF abs_word abs_word])
  show "a * b = word_of_int (sint a * sint b)" by simp
qed (auto simp: mult_less_0_iff)

lemma sign_of_product: "0 \<le> y \<Longrightarrow> x < 0 \<longleftrightarrow> x * y < 0 \<or> x < 0 \<and> x * y = 0" for x y :: int
  by (cases "y = 0") (auto simp: mult_less_0_iff)

lemma mulhsu_product: "mulhsu a b = word_of_int (sint a * uint b div 2 ^ 64)"
proof -
  have b: "unat b = nat \<bar>uint b\<bar>" by simp
  have s: "sint a < 0 \<longleftrightarrow> sint a * uint b < 0 \<or> sint a < 0 \<and> sint a * uint b = 0" by (rule sign_of_product) simp
  have c: "a * b = word_of_int (sint a * uint b)" by simp
  show ?thesis unfolding mulhsu_def Let_def by (rule signed_high [OF abs_word b s c])
qed

definition clamp :: "int \<Rightarrow> int \<Rightarrow> int \<Rightarrow> int" where
  "clamp lo hi i = max lo (min hi i)"

lemma sign_bit: "sint w < 0 \<longleftrightarrow> bit w (LENGTH('a) - 1)" for w :: "'a::len word"
  by (simp add: bit_last_iff)

lemma saturated_bound:
  fixes x :: "'a::len word"
  defines "n \<equiv> LENGTH('a) - 1"
  shows "drop_bit n x + (push_bit n 1 - 1) = (if sint x < 0 then push_bit n 1 else push_bit n 1 - 1)"
proof -
  have "drop_bit n x = of_bool (bit x n)"
  proof (rule bit_word_eqI)
    fix i assume "i < LENGTH('a)"
    show "bit (drop_bit n x) i = bit (of_bool (bit x n) :: 'a word) i"
    proof (cases "i = 0")
      case False
      then have "\<not> bit x (n + i)" by (intro impossible_bit) (simp add: n_def)
      then show ?thesis using False by (simp add: bit_simps)
    qed (simp add: bit_simps)
  qed
  then show ?thesis using sign_bit [of x] by (auto simp: n_def)
qed

lemma half_length: "(2 :: int) ^ LENGTH('a::len) = 2 * 2 ^ (LENGTH('a) - 1)"
  by (simp flip: power_Suc)

lemma sint_shift:
  fixes i :: int
  defines "h \<equiv> (2 :: int) ^ (LENGTH('a::len) - 1)"
  assumes "- h \<le> i + k * (2 * h)" "i + k * (2 * h) < h"
  shows "sint (word_of_int i :: 'a word) = i + k * (2 * h)"
proof -
  have "(i + h) mod (2 * h) = (i + h + k * (2 * h)) mod (2 * h)" by simp
  also have "\<dots> = i + h + k * (2 * h)" using assms(2,3) by (intro mod_pos_pos_trivial) simp_all
  finally show ?thesis by (simp add: int_word_sint half_length h_def)
qed

lemma sint_bounds_half: "- (2 ^ (LENGTH('a) - 1)) \<le> sint x" "sint x < 2 ^ (LENGTH('a) - 1)" for x :: "'a::len word"
  by (rule sint_ge sint_lt)+

lemma sint_extremes:
  "sint (push_bit (LENGTH('a) - 1) 1 :: 'a::len word) = - (2 ^ (LENGTH('a) - 1))"
  "sint (push_bit (LENGTH('a) - 1) 1 - 1 :: 'a::len word) = 2 ^ (LENGTH('a) - 1) - 1"
proof -
  define h where "h = (2 :: int) ^ (LENGTH('a) - 1)"
  have h: "0 < h" by (simp add: h_def)
  have w: "(push_bit (LENGTH('a) - 1) 1 :: 'a word) = word_of_int h" by (simp add: h_def push_bit_eq_mult)
  show "sint (push_bit (LENGTH('a) - 1) 1 :: 'a word) = - (2 ^ (LENGTH('a) - 1))"
    unfolding w h_def [symmetric]
    using sint_shift [where 'a = 'a and i = h and k = "- 1", folded h_def] h by simp
  show "sint (push_bit (LENGTH('a) - 1) 1 - 1 :: 'a word) = 2 ^ (LENGTH('a) - 1) - 1"
    unfolding w h_def [symmetric]
    using sint_shift [where 'a = 'a and i = "h - 1" and k = 0, folded h_def] h by simp
qed

lemma sint_sum:
  fixes x y :: "'a::len word"
  defines "h \<equiv> (2 :: int) ^ (LENGTH('a) - 1)"
  shows "sint (x + y) = (if sint x + sint y < - h then sint x + sint y + 2 * h
    else if h \<le> sint x + sint y then sint x + sint y - 2 * h else sint x + sint y)"
proof -
  have w: "x + y = word_of_int (sint x + sint y)" by simp
  note b = sint_bounds_half [of x, folded h_def] sint_bounds_half [of y, folded h_def]
  show ?thesis
    unfolding w using b sint_shift [where 'a = 'a and i = "sint x + sint y" and k = 1, folded h_def]
      sint_shift [where 'a = 'a and i = "sint x + sint y" and k = "- 1", folded h_def]
      sint_shift [where 'a = 'a and i = "sint x + sint y" and k = "0", folded h_def] by simp
qed

lemma sint_difference:
  fixes x y :: "'a::len word"
  defines "h \<equiv> (2 :: int) ^ (LENGTH('a) - 1)"
  shows "sint (x - y) = (if sint x - sint y < - h then sint x - sint y + 2 * h
    else if h \<le> sint x - sint y then sint x - sint y - 2 * h else sint x - sint y)"
proof -
  have w: "x - y = word_of_int (sint x - sint y)" by simp
  note b = sint_bounds_half [of x, folded h_def] sint_bounds_half [of y, folded h_def]
  show ?thesis
    unfolding w using b sint_shift [where 'a = 'a and i = "sint x - sint y" and k = 1, folded h_def]
      sint_shift [where 'a = 'a and i = "sint x - sint y" and k = "- 1", folded h_def]
      sint_shift [where 'a = 'a and i = "sint x - sint y" and k = "0", folded h_def] by simp
qed

lemma sign_of_ops:
  "sint (v XOR w) < 0 \<longleftrightarrow> (sint v < 0) \<noteq> (sint w < 0)" "sint (NOT v) < 0 \<longleftrightarrow> \<not> sint v < 0"
  "sint (v OR w) < 0 \<longleftrightarrow> sint v < 0 \<or> sint w < 0" "sint (v AND w) < 0 \<longleftrightarrow> sint v < 0 \<and> sint w < 0"
  for v w :: "'a::len word"
  by (simp_all only: sign_bit bit_simps) simp_all

lemma sat_add_clamps:
  fixes x y :: "'a::len word"
  defines "h \<equiv> (2 :: int) ^ (LENGTH('a) - 1)"
  shows "sint (fst (sat_add x y)) = clamp (- h) (h - 1) (sint x + sint y)"
    "snd (sat_add x y) \<longleftrightarrow> clamp (- h) (h - 1) (sint x + sint y) \<noteq> sint x + sint y"
proof -
  define u where "u = drop_bit (LENGTH('a) - 1) x + (push_bit (LENGTH('a) - 1) 1 - 1)"
  have u: "sint u = (if sint x < 0 then - h else h - 1)"
    unfolding u_def saturated_bound h_def by (cases "sint x < 0") (simp_all only: if_True if_False sint_extremes)
  have h: "0 < h" by (simp add: h_def)
  have s: "sat_add x y = (if 0 \<le> sint ((u XOR y) OR NOT (y XOR (x + y))) then (u, True) else (x + y, False))"
    by (simp add: sat_add_def Let_def u_def)
  have c: "0 \<le> sint ((u XOR y) OR NOT (y XOR (x + y))) \<longleftrightarrow> (sint u < 0) = (sint y < 0) \<and> (sint y < 0) \<noteq> (sint (x + y) < 0)"
    unfolding not_less [symmetric] sign_of_ops by blast
  note b = sint_bounds_half [of x, folded h_def] sint_bounds_half [of y, folded h_def]
  show "sint (fst (sat_add x y)) = clamp (- h) (h - 1) (sint x + sint y)"
    "snd (sat_add x y) \<longleftrightarrow> clamp (- h) (h - 1) (sint x + sint y) \<noteq> sint x + sint y"
    unfolding s c using b h u sint_sum [of x y, folded h_def] by (auto simp: clamp_def split: if_splits)
qed

lemma sat_sub_clamps:
  fixes x y :: "'a::len word"
  defines "h \<equiv> (2 :: int) ^ (LENGTH('a) - 1)"
  shows "sint (fst (sat_sub x y)) = clamp (- h) (h - 1) (sint x - sint y)"
    "snd (sat_sub x y) \<longleftrightarrow> clamp (- h) (h - 1) (sint x - sint y) \<noteq> sint x - sint y"
proof -
  define u where "u = drop_bit (LENGTH('a) - 1) x + (push_bit (LENGTH('a) - 1) 1 - 1)"
  have u: "sint u = (if sint x < 0 then - h else h - 1)"
    unfolding u_def saturated_bound h_def by (cases "sint x < 0") (simp_all only: if_True if_False sint_extremes)
  have h: "0 < h" by (simp add: h_def)
  have s: "sat_sub x y = (if sint ((u XOR y) AND (u XOR (x - y))) < 0 then (u, True) else (x - y, False))"
    by (simp add: sat_sub_def Let_def u_def)
  have c: "sint ((u XOR y) AND (u XOR (x - y))) < 0 \<longleftrightarrow> (sint u < 0) \<noteq> (sint y < 0) \<and> (sint u < 0) \<noteq> (sint (x - y) < 0)"
    unfolding sign_of_ops by blast
  note b = sint_bounds_half [of x, folded h_def] sint_bounds_half [of y, folded h_def]
  show "sint (fst (sat_sub x y)) = clamp (- h) (h - 1) (sint x - sint y)"
    "snd (sat_sub x y) \<longleftrightarrow> clamp (- h) (h - 1) (sint x - sint y) \<noteq> sint x - sint y"
    unfolding s c using b h u sint_difference [of x y, folded h_def] by (auto simp: clamp_def split: if_splits)
qed

lemma sat_addu_clamps:
  fixes x y :: "'a::len word"
  shows "uint (fst (sat_addu x y)) = min (2 ^ LENGTH('a) - 1) (uint x + uint y)"
    "snd (sat_addu x y) \<longleftrightarrow> 2 ^ LENGTH('a) \<le> uint x + uint y"
proof -
  have b: "uint x < 2 ^ LENGTH('a)" "uint y < 2 ^ LENGTH('a)" "0 \<le> uint x" "0 \<le> uint y" by simp_all
  have m: "uint (- 1 :: 'a word) = 2 ^ LENGTH('a) - 1"
    by (simp add: unsigned_minus_1_eq_mask mask_eq_exp_minus_1)
  show "uint (fst (sat_addu x y)) = min (2 ^ LENGTH('a) - 1) (uint x + uint y)"
    "snd (sat_addu x y) \<longleftrightarrow> 2 ^ LENGTH('a) \<le> uint x + uint y"
    using b by (auto simp: sat_addu_def Let_def word_less_def uint_plus_if' m)
qed

lemma sat_subu_clamps:
  fixes x y :: "'a::len word"
  shows "uint (fst (sat_subu x y)) = max 0 (uint x - uint y)"
    "snd (sat_subu x y) \<longleftrightarrow> uint x < uint y"
proof -
  define K X Y where "K = (2 :: int) ^ LENGTH('a)" and "X = uint x" and "Y = uint y"
  have b: "X < K" "Y < K" "0 \<le> X" "0 \<le> Y" by (simp_all add: K_def X_def Y_def)
  have r: "uint (x - y) = (if Y \<le> X then X - Y else X - Y + K)" by (simp add: uint_sub_if' K_def X_def Y_def)
  have "x - y \<le> x \<longleftrightarrow> Y \<le> X" unfolding word_le_def r X_def [symmetric] using b by auto
  then show "uint (fst (sat_subu x y)) = max 0 (uint x - uint y)" "snd (sat_subu x y) \<longleftrightarrow> uint x < uint y"
    using r by (auto simp: sat_subu_def Let_def simp flip: X_def Y_def)
qed

lemma low_ones: "len \<le> 64 \<Longrightarrow> drop_bit (64 - len) (- 1 :: u64) = mask len"
  by (rule bit_word_eqI) (auto simp: bit_simps)

lemma extract64_value: "0 < len \<Longrightarrow> len \<le> 64 - pos \<Longrightarrow> unat (extract64 val pos len) = unat val div 2 ^ pos mod 2 ^ len"
  unfolding extract64_def
  by (simp add: low_ones unsigned_take_bit_eq unat_drop_bit_eq flip: take_bit_eq_mask)
    (simp add: take_bit_eq_mod drop_bit_eq_div)

lemma make_mask64_bits: "len \<le> 64 \<Longrightarrow> bit (make_mask64 pos len) i \<longleftrightarrow> pos \<le> i \<and> i < pos + len \<and> i < 64"
  by (auto simp: make_mask64_def low_ones bit_simps)

section \<open>Properties\<close>

text \<open>The three high products are the upper 64 bits of the exact 128-bit product of the operands read
  as the instruction reads them: unsigned, signed, and signed by unsigned, the most negative operand
  included.\<close>

theorem high_products:
  "mulhu a b = word_of_int (uint a * uint b div 2 ^ 64) \<and>
   mulh a b = word_of_int (sint a * sint b div 2 ^ 64) \<and>
   mulhsu a b = word_of_int (sint a * uint b div 2 ^ 64)"
  using unat_mulhu [of a b] mulh_product mulhsu_product by (simp add: mulhu_integer)

text \<open>Saturating sums and differences return the exact result clamped to the range of the type, and
  report saturation exactly when clamping changed it, at every word length, signed and unsigned.\<close>

theorem saturating_arithmetic:
  fixes x y :: "'a::len word"
  shows "sint (fst (sat_add x y)) = clamp (- (2 ^ (LENGTH('a) - 1))) (2 ^ (LENGTH('a) - 1) - 1) (sint x + sint y) \<and>
    (snd (sat_add x y) \<longleftrightarrow> sint (fst (sat_add x y)) \<noteq> sint x + sint y) \<and>
    sint (fst (sat_sub x y)) = clamp (- (2 ^ (LENGTH('a) - 1))) (2 ^ (LENGTH('a) - 1) - 1) (sint x - sint y) \<and>
    (snd (sat_sub x y) \<longleftrightarrow> sint (fst (sat_sub x y)) \<noteq> sint x - sint y) \<and>
    uint (fst (sat_addu x y)) = clamp 0 (2 ^ LENGTH('a) - 1) (uint x + uint y) \<and>
    (snd (sat_addu x y) \<longleftrightarrow> uint (fst (sat_addu x y)) \<noteq> uint x + uint y) \<and>
    uint (fst (sat_subu x y)) = clamp 0 (2 ^ LENGTH('a) - 1) (uint x - uint y) \<and>
    (snd (sat_subu x y) \<longleftrightarrow> uint (fst (sat_subu x y)) \<noteq> uint x - uint y)"
  unfolding sat_add_clamps sat_sub_clamps sat_addu_clamps sat_subu_clamps
  using sint_bounds_half [of x] by (auto simp: clamp_def not_less)

end
