(* ===== verification/RV_Decode.thy ===== *)
theory RV_Decode
  imports Prelude
begin

text \<open>
  The instruction word class \<open>insn_t\<close> of \<open>riscv/decode.h\<close>: its length, its register and
  immediate fields (32-bit and compressed formats), and the word \<open>refill_icache\<close> of
  \<open>riscv/mmu.h\<close> assembles from memory. Words are the 64-bit \<open>insn_bits_t\<close>; signed immediates
  are their two's complement patterns. The bit placements of the ISA manual are stated as field
  lists, and extraction is shown to invert placement.
\<close>

section \<open>Instruction words\<close>

definition insn_length :: "u64 \<Rightarrow> nat" where
  "insn_length x =
     (if x AND 0x03 < 0x03 then 2 else if x AND 0x1f < 0x1f then 4 else if x AND 0x3f < 0x3f then 6 else 8)"

definition insn_bits :: "u64 \<Rightarrow> u64" where
  "insn_bits b = b AND NOT (push_bit (insn_length b * 8 mod 64) (- 1))"

definition insn_x :: "nat \<Rightarrow> nat \<Rightarrow> u64 \<Rightarrow> u64" where
  "insn_x lo len b = drop_bit lo b AND (push_bit len 1 - 1)"

definition insn_xs :: "nat \<Rightarrow> nat \<Rightarrow> u64 \<Rightarrow> u64" where
  "insn_xs lo len b = signed_drop_bit (64 - len) (push_bit (64 - lo - len) b)"

definition imm_sign :: "u64 \<Rightarrow> u64" where "imm_sign b = insn_xs 63 1 b"

definition i_imm :: "u64 \<Rightarrow> u64" where "i_imm b = signed_drop_bit 20 b"
definition shamt :: "u64 \<Rightarrow> u64" where "shamt b = insn_x 20 6 b"
definition s_imm :: "u64 \<Rightarrow> u64" where "s_imm b = insn_x 7 5 b + push_bit 5 (insn_xs 25 7 b)"
definition sb_imm :: "u64 \<Rightarrow> u64" where
  "sb_imm b = push_bit 1 (insn_x 8 4 b) + push_bit 5 (insn_x 25 6 b) + push_bit 11 (insn_x 7 1 b) + push_bit 12 (imm_sign b)"
definition u_imm :: "u64 \<Rightarrow> u64" where "u_imm b = push_bit 12 (signed_drop_bit 12 b)"
definition uj_imm :: "u64 \<Rightarrow> u64" where
  "uj_imm b = push_bit 1 (insn_x 21 10 b) + push_bit 11 (insn_x 20 1 b) + push_bit 12 (insn_x 12 8 b) + push_bit 20 (imm_sign b)"
definition insn_rd :: "u64 \<Rightarrow> u64" where "insn_rd b = insn_x 7 5 b"
definition insn_rs1 :: "u64 \<Rightarrow> u64" where "insn_rs1 b = insn_x 15 5 b"
definition insn_rs2 :: "u64 \<Rightarrow> u64" where "insn_rs2 b = insn_x 20 5 b"
definition insn_rs3 :: "u64 \<Rightarrow> u64" where "insn_rs3 b = insn_x 27 5 b"
definition insn_rm :: "u64 \<Rightarrow> u64" where "insn_rm b = insn_x 12 3 b"
definition insn_csr :: "u64 \<Rightarrow> u64" where "insn_csr b = insn_x 20 12 b"

definition rvc_imm :: "u64 \<Rightarrow> u64" where "rvc_imm b = insn_x 2 5 b + push_bit 5 (insn_xs 12 1 b)"
definition rvc_zimm :: "u64 \<Rightarrow> u64" where "rvc_zimm b = insn_x 2 5 b + push_bit 5 (insn_x 12 1 b)"
definition rvc_addi4spn_imm :: "u64 \<Rightarrow> u64" where
  "rvc_addi4spn_imm b = push_bit 2 (insn_x 6 1 b) + push_bit 3 (insn_x 5 1 b) + push_bit 4 (insn_x 11 2 b) + push_bit 6 (insn_x 7 4 b)"
definition rvc_addi16sp_imm :: "u64 \<Rightarrow> u64" where
  "rvc_addi16sp_imm b = push_bit 4 (insn_x 6 1 b) + push_bit 5 (insn_x 2 1 b) + push_bit 6 (insn_x 5 1 b) +
     push_bit 7 (insn_x 3 2 b) + push_bit 9 (insn_xs 12 1 b)"
definition rvc_lwsp_imm :: "u64 \<Rightarrow> u64" where
  "rvc_lwsp_imm b = push_bit 2 (insn_x 4 3 b) + push_bit 5 (insn_x 12 1 b) + push_bit 6 (insn_x 2 2 b)"
definition rvc_ldsp_imm :: "u64 \<Rightarrow> u64" where
  "rvc_ldsp_imm b = push_bit 3 (insn_x 5 2 b) + push_bit 5 (insn_x 12 1 b) + push_bit 6 (insn_x 2 3 b)"
definition rvc_swsp_imm :: "u64 \<Rightarrow> u64" where
  "rvc_swsp_imm b = push_bit 2 (insn_x 9 4 b) + push_bit 6 (insn_x 7 2 b)"
definition rvc_sdsp_imm :: "u64 \<Rightarrow> u64" where
  "rvc_sdsp_imm b = push_bit 3 (insn_x 10 3 b) + push_bit 6 (insn_x 7 3 b)"
definition rvc_lw_imm :: "u64 \<Rightarrow> u64" where
  "rvc_lw_imm b = push_bit 2 (insn_x 6 1 b) + push_bit 3 (insn_x 10 3 b) + push_bit 6 (insn_x 5 1 b)"
definition rvc_ld_imm :: "u64 \<Rightarrow> u64" where
  "rvc_ld_imm b = push_bit 3 (insn_x 10 3 b) + push_bit 6 (insn_x 5 2 b)"
definition rvc_j_imm :: "u64 \<Rightarrow> u64" where
  "rvc_j_imm b = push_bit 1 (insn_x 3 3 b) + push_bit 4 (insn_x 11 1 b) + push_bit 5 (insn_x 2 1 b) + push_bit 6 (insn_x 7 1 b) +
     push_bit 7 (insn_x 6 1 b) + push_bit 8 (insn_x 9 2 b) + push_bit 10 (insn_x 8 1 b) + push_bit 11 (insn_xs 12 1 b)"
definition rvc_b_imm :: "u64 \<Rightarrow> u64" where
  "rvc_b_imm b = push_bit 1 (insn_x 3 2 b) + push_bit 3 (insn_x 10 2 b) + push_bit 5 (insn_x 2 1 b) + push_bit 6 (insn_x 5 2 b) +
     push_bit 8 (insn_xs 12 1 b)"
definition rvc_simm3 :: "u64 \<Rightarrow> u64" where "rvc_simm3 b = insn_x 10 3 b"
definition rvc_rd :: "u64 \<Rightarrow> u64" where "rvc_rd b = insn_rd b"
definition rvc_rs1 :: "u64 \<Rightarrow> u64" where "rvc_rs1 b = insn_rd b"
definition rvc_rs2 :: "u64 \<Rightarrow> u64" where "rvc_rs2 b = insn_x 2 5 b"
definition rvc_rs1s :: "u64 \<Rightarrow> u64" where "rvc_rs1s b = 8 + insn_x 7 3 b"
definition rvc_rs2s :: "u64 \<Rightarrow> u64" where "rvc_rs2s b = 8 + insn_x 2 3 b"

text \<open>The instruction word assembled from the halfwords in memory by \<open>refill_icache\<close>.\<close>

definition fetched_bits :: "u16 \<Rightarrow> u16 \<Rightarrow> u16 \<Rightarrow> u16 \<Rightarrow> u64" where
  "fetched_bits h0 h1 h2 h3 =
     (let insn = ucast h0 :: u64; length = insn_length insn
      in if length = 4 then insn OR push_bit 16 (scast h1)
         else if length = 2 then scast h0
         else if length = 6 then insn OR push_bit 32 (scast h2) OR push_bit 16 (ucast h1)
         else insn OR push_bit 48 (scast h3) OR push_bit 32 (ucast h2) OR push_bit 16 (ucast h1))"

section \<open>Fields as bits\<close>

lemma bit_insn_x: "bit (insn_x lo len b) i \<longleftrightarrow> i < len \<and> bit b (lo + i)"
  by (auto simp: insn_x_def bit_simps simp flip: mask_eq_exp_minus_1 dest: bit_imp_le_length)

lemma bit_insn_xs:
  assumes "0 < len" "lo + len \<le> 64"
  shows "bit (insn_xs lo len b) i \<longleftrightarrow> i < 64 \<and> bit b (if i < len then lo + i else lo + len - 1)"
  using assms unfolding insn_xs_def bit_signed_drop_bit_iff
  by (auto simp: bit_simps not_less add.commute)

lemma bit_imm_sign: "bit (imm_sign b) i \<longleftrightarrow> i < 64 \<and> bit b 63"
  by (simp add: imm_sign_def bit_insn_xs)

lemma bit_sign_fields:
  "bit (insn_xs 25 7 b) i \<longleftrightarrow> i < 64 \<and> bit b (if i < 7 then 25 + i else 31)"
  "bit (insn_xs 12 1 b) i \<longleftrightarrow> i < 64 \<and> bit b 12"
  by (auto simp: bit_insn_xs)

lemma plus_or: "a = c \<Longrightarrow> (\<And>i. i < 64 \<Longrightarrow> bit c i \<Longrightarrow> \<not> bit b i) \<Longrightarrow> a + b = c OR b" for a b :: u64
  by (simp, intro disjunctive_add_eq_or bit_word_eqI) (auto simp: bit_simps)

lemma bit_shl: "bit (push_bit n w) i \<longleftrightarrow> n \<le> i \<and> i < 64 \<and> bit w (i - n)" for w :: u64
  by (auto simp: bit_simps)

lemmas field_bits = bit_insn_x bit_imm_sign bit_sign_fields bit_shl bit_or_iff

lemma s_imm_or: "s_imm b = insn_x 7 5 b OR push_bit 5 (insn_xs 25 7 b)"
  unfolding s_imm_def by (intro plus_or refl) (unfold field_bits, auto)

lemma sb_imm_or: "sb_imm b = ((push_bit 1 (insn_x 8 4 b) OR push_bit 5 (insn_x 25 6 b)) OR push_bit 11 (insn_x 7 1 b)) OR push_bit 12 (imm_sign b)"
  unfolding sb_imm_def by (intro plus_or refl) (unfold field_bits, auto)

lemma uj_imm_or: "uj_imm b = ((push_bit 1 (insn_x 21 10 b) OR push_bit 11 (insn_x 20 1 b)) OR push_bit 12 (insn_x 12 8 b)) OR push_bit 20 (imm_sign b)"
  unfolding uj_imm_def by (intro plus_or refl) (unfold field_bits, auto)

lemma rvc_imm_or: "rvc_imm b = insn_x 2 5 b OR push_bit 5 (insn_xs 12 1 b)"
  unfolding rvc_imm_def by (intro plus_or refl) (unfold field_bits, auto)

lemma rvc_zimm_or: "rvc_zimm b = insn_x 2 5 b OR push_bit 5 (insn_x 12 1 b)"
  unfolding rvc_zimm_def by (intro plus_or refl) (unfold field_bits, auto)

lemma rvc_addi4spn_imm_or: "rvc_addi4spn_imm b = ((push_bit 2 (insn_x 6 1 b) OR push_bit 3 (insn_x 5 1 b)) OR push_bit 4 (insn_x 11 2 b)) OR push_bit 6 (insn_x 7 4 b)"
  unfolding rvc_addi4spn_imm_def by (intro plus_or refl) (unfold field_bits, auto)

lemma rvc_addi16sp_imm_or: "rvc_addi16sp_imm b = (((push_bit 4 (insn_x 6 1 b) OR push_bit 5 (insn_x 2 1 b)) OR push_bit 6 (insn_x 5 1 b)) OR push_bit 7 (insn_x 3 2 b)) OR push_bit 9 (insn_xs 12 1 b)"
  unfolding rvc_addi16sp_imm_def by (intro plus_or refl) (unfold field_bits, auto)

lemma rvc_lwsp_imm_or: "rvc_lwsp_imm b = (push_bit 2 (insn_x 4 3 b) OR push_bit 5 (insn_x 12 1 b)) OR push_bit 6 (insn_x 2 2 b)"
  unfolding rvc_lwsp_imm_def by (intro plus_or refl) (unfold field_bits, auto)

lemma rvc_ldsp_imm_or: "rvc_ldsp_imm b = (push_bit 3 (insn_x 5 2 b) OR push_bit 5 (insn_x 12 1 b)) OR push_bit 6 (insn_x 2 3 b)"
  unfolding rvc_ldsp_imm_def by (intro plus_or refl) (unfold field_bits, auto)

lemma rvc_swsp_imm_or: "rvc_swsp_imm b = push_bit 2 (insn_x 9 4 b) OR push_bit 6 (insn_x 7 2 b)"
  unfolding rvc_swsp_imm_def by (intro plus_or refl) (unfold field_bits, auto)

lemma rvc_sdsp_imm_or: "rvc_sdsp_imm b = push_bit 3 (insn_x 10 3 b) OR push_bit 6 (insn_x 7 3 b)"
  unfolding rvc_sdsp_imm_def by (intro plus_or refl) (unfold field_bits, auto)

lemma rvc_lw_imm_or: "rvc_lw_imm b = (push_bit 2 (insn_x 6 1 b) OR push_bit 3 (insn_x 10 3 b)) OR push_bit 6 (insn_x 5 1 b)"
  unfolding rvc_lw_imm_def by (intro plus_or refl) (unfold field_bits, auto)

lemma rvc_ld_imm_or: "rvc_ld_imm b = push_bit 3 (insn_x 10 3 b) OR push_bit 6 (insn_x 5 2 b)"
  unfolding rvc_ld_imm_def by (intro plus_or refl) (unfold field_bits, auto)

lemma rvc_j_imm_or: "rvc_j_imm b = ((((((push_bit 1 (insn_x 3 3 b) OR push_bit 4 (insn_x 11 1 b)) OR push_bit 5 (insn_x 2 1 b)) OR push_bit 6 (insn_x 7 1 b)) OR push_bit 7 (insn_x 6 1 b)) OR push_bit 8 (insn_x 9 2 b)) OR push_bit 10 (insn_x 8 1 b)) OR push_bit 11 (insn_xs 12 1 b)"
  unfolding rvc_j_imm_def by (intro plus_or refl) (unfold field_bits, auto)

lemma rvc_b_imm_or: "rvc_b_imm b = (((push_bit 1 (insn_x 3 2 b) OR push_bit 3 (insn_x 10 2 b)) OR push_bit 5 (insn_x 2 1 b)) OR push_bit 6 (insn_x 5 2 b)) OR push_bit 8 (insn_xs 12 1 b)"
  unfolding rvc_b_imm_def by (intro plus_or refl) (unfold field_bits, auto)


section \<open>Encoding\<close>

definition put_field :: "nat \<Rightarrow> nat \<Rightarrow> nat \<Rightarrow> u64 \<Rightarrow> u64 \<Rightarrow> u64" where
  "put_field low len pos imm w = (w AND NOT (push_bit pos (mask len))) OR push_bit pos (take_bit len (drop_bit low imm))"

primrec place :: "(nat \<times> nat \<times> nat) list \<Rightarrow> u64 \<Rightarrow> u64 \<Rightarrow> u64" where
  "place [] imm w = w"
| "place (f # fs) imm w =
     (case f of (low, len, pos) \<Rightarrow> place fs imm (put_field low len pos imm w))"

lemma bit_field:
  "bit (put_field low len pos imm w) i \<longleftrightarrow>
    (if pos \<le> i \<and> i < pos + len then i < 64 \<and> bit imm (low + (i - pos)) else bit w i)"
  by (auto simp: put_field_def bit_simps dest: bit_imp_le_length)

definition encode32 :: "(nat \<times> nat \<times> nat) list \<Rightarrow> u64 \<Rightarrow> u64 \<Rightarrow> u64" where
  "encode32 fields imm w = signed_take_bit 31 (place fields imm w)"

definition encode16 :: "(nat \<times> nat \<times> nat) list \<Rightarrow> u64 \<Rightarrow> u64 \<Rightarrow> u64" where
  "encode16 fields imm w = signed_take_bit 15 (place fields imm w)"

lemma upt_64: "[0..<64] = [0, 1, 2, 3, 4, 5, 6, 7, 8, 9, 10, 11, 12, 13, 14, 15, 16, 17, 18, 19, 20, 21, 22, 23, 24, 25,
    26, 27, 28, 29, 30, 31, 32, 33, 34, 35, 36, 37, 38, 39, 40, 41, 42, 43, 44, 45, 46, 47, 48, 49, 50, 51, 52, 53, 54, 55,
    56, 57, 58, 59, 60, 61, 62, 63]"
  by code_simp

lemma small_numerals: "2 = Suc 1" "3 = Suc 2" "4 = Suc 3" "5 = Suc 4" "6 = Suc 5" "7 = Suc 6" "8 = Suc 7" "9 = Suc 8" "10 = Suc 9" "11 = Suc 10" "12 = Suc 11"
  by simp_all

lemma word64_eqI: "list_all (\<lambda>i. bit a i = bit b i) [0..<64] \<Longrightarrow> a = b" for a b :: u64
  by (rule bit_word_eqI) (simp add: list_all_iff)

lemma bit_sext: "bit (signed_take_bit n w) i \<longleftrightarrow> i < 64 \<and> bit w (min i n)" for w :: u64
  by (auto simp: bit_simps min.commute)

lemma bit_low_clear: "bit (w AND NOT (mask n)) i \<longleftrightarrow> n \<le> i \<and> bit w i" for w :: u64
  by (auto simp: bit_simps dest: bit_imp_le_length)

lemma bit_low: "bit (take_bit n w) i \<longleftrightarrow> i < n \<and> bit w i" for w :: u64
  by (auto simp: bit_simps)

lemma bit_u_imm: "bit (u_imm b) i \<longleftrightarrow> 12 \<le> i \<and> i < 64 \<and> bit b i"
  by (auto simp: u_imm_def bit_shl bit_signed_drop_bit_iff)

lemma bit_i_imm: "bit (i_imm b) i \<longleftrightarrow> i < 64 \<and> bit b (if i < 44 then 20 + i else 63)"
  by (auto simp: i_imm_def bit_signed_drop_bit_iff dest: bit_imp_le_length)

lemma i_imm_encode: "i_imm (encode32 [(0, 12, 20)] imm w) = signed_take_bit 11 imm"
  unfolding encode32_def place.simps prod.case
  by (rule word64_eqI) (simp only: upt_64 field_bits bit_u_imm bit_i_imm bit_sext bit_low_clear bit_low bit_field list.pred_inject, simp del: One_nat_def, (simp add: small_numerals)?)

lemma s_imm_encode: "s_imm (encode32 [(0, 5, 7), (5, 7, 25)] imm w) = signed_take_bit 11 imm"
  unfolding s_imm_or encode32_def place.simps prod.case
  by (rule word64_eqI) (simp only: upt_64 field_bits bit_u_imm bit_i_imm bit_sext bit_low_clear bit_low bit_field list.pred_inject, simp del: One_nat_def, (simp add: small_numerals)?)

lemma sb_imm_encode: "sb_imm (encode32 [(1, 4, 8), (5, 6, 25), (11, 1, 7), (12, 1, 31)] imm w) = signed_take_bit 12 imm AND NOT (mask 1)"
  unfolding sb_imm_or encode32_def place.simps prod.case
  by (rule word64_eqI) (simp only: upt_64 field_bits bit_u_imm bit_i_imm bit_sext bit_low_clear bit_low bit_field list.pred_inject, simp del: One_nat_def, (simp add: small_numerals)?)

lemma u_imm_encode: "u_imm (encode32 [(12, 20, 12)] imm w) = signed_take_bit 31 imm AND NOT (mask 12)"
  unfolding encode32_def place.simps prod.case
  by (rule word64_eqI) (simp only: upt_64 field_bits bit_u_imm bit_i_imm bit_sext bit_low_clear bit_low bit_field list.pred_inject, simp)

lemma uj_imm_encode: "uj_imm (encode32 [(1, 10, 21), (11, 1, 20), (12, 8, 12), (20, 1, 31)] imm w) = signed_take_bit 20 imm AND NOT (mask 1)"
  unfolding uj_imm_or encode32_def place.simps prod.case
  by (rule word64_eqI) (simp only: upt_64 field_bits bit_u_imm bit_i_imm bit_sext bit_low_clear bit_low bit_field list.pred_inject, simp del: One_nat_def, (simp add: small_numerals)?)

lemma rvc_imm_encode: "rvc_imm (encode16 [(0, 5, 2), (5, 1, 12)] imm w) = signed_take_bit 5 imm"
  unfolding rvc_imm_or encode16_def place.simps prod.case
  by (rule word64_eqI) (simp only: upt_64 field_bits bit_u_imm bit_i_imm bit_sext bit_low_clear bit_low bit_field list.pred_inject, simp del: One_nat_def, (simp add: small_numerals)?)

lemma rvc_zimm_encode: "rvc_zimm (encode16 [(0, 5, 2), (5, 1, 12)] imm w) = take_bit 6 imm"
  unfolding rvc_zimm_or encode16_def place.simps prod.case
  by (rule word64_eqI) (simp only: upt_64 field_bits bit_u_imm bit_i_imm bit_sext bit_low_clear bit_low bit_field list.pred_inject, simp del: One_nat_def, (simp add: small_numerals)?)

lemma rvc_addi4spn_imm_encode: "rvc_addi4spn_imm (encode16 [(2, 1, 6), (3, 1, 5), (4, 2, 11), (6, 4, 7)] imm w) = take_bit 10 imm AND NOT (mask 2)"
  unfolding rvc_addi4spn_imm_or encode16_def place.simps prod.case
  by (rule word64_eqI) (simp only: upt_64 field_bits bit_u_imm bit_i_imm bit_sext bit_low_clear bit_low bit_field list.pred_inject, simp del: One_nat_def, (simp add: small_numerals)?)

lemma rvc_addi16sp_imm_encode: "rvc_addi16sp_imm (encode16 [(4, 1, 6), (5, 1, 2), (6, 1, 5), (7, 2, 3), (9, 1, 12)] imm w) = signed_take_bit 9 imm AND NOT (mask 4)"
  unfolding rvc_addi16sp_imm_or encode16_def place.simps prod.case
  by (rule word64_eqI) (simp only: upt_64 field_bits bit_u_imm bit_i_imm bit_sext bit_low_clear bit_low bit_field list.pred_inject, simp del: One_nat_def, (simp add: small_numerals)?)

lemma rvc_lwsp_imm_encode: "rvc_lwsp_imm (encode16 [(2, 3, 4), (5, 1, 12), (6, 2, 2)] imm w) = take_bit 8 imm AND NOT (mask 2)"
  unfolding rvc_lwsp_imm_or encode16_def place.simps prod.case
  by (rule word64_eqI) (simp only: upt_64 field_bits bit_u_imm bit_i_imm bit_sext bit_low_clear bit_low bit_field list.pred_inject, simp del: One_nat_def, (simp add: small_numerals)?)

lemma rvc_ldsp_imm_encode: "rvc_ldsp_imm (encode16 [(3, 2, 5), (5, 1, 12), (6, 3, 2)] imm w) = take_bit 9 imm AND NOT (mask 3)"
  unfolding rvc_ldsp_imm_or encode16_def place.simps prod.case
  by (rule word64_eqI) (simp only: upt_64 field_bits bit_u_imm bit_i_imm bit_sext bit_low_clear bit_low bit_field list.pred_inject, simp del: One_nat_def, (simp add: small_numerals)?)

lemma rvc_swsp_imm_encode: "rvc_swsp_imm (encode16 [(2, 4, 9), (6, 2, 7)] imm w) = take_bit 8 imm AND NOT (mask 2)"
  unfolding rvc_swsp_imm_or encode16_def place.simps prod.case
  by (rule word64_eqI) (simp only: upt_64 field_bits bit_u_imm bit_i_imm bit_sext bit_low_clear bit_low bit_field list.pred_inject, simp del: One_nat_def, (simp add: small_numerals)?)

lemma rvc_sdsp_imm_encode: "rvc_sdsp_imm (encode16 [(3, 3, 10), (6, 3, 7)] imm w) = take_bit 9 imm AND NOT (mask 3)"
  unfolding rvc_sdsp_imm_or encode16_def place.simps prod.case
  by (rule word64_eqI) (simp only: upt_64 field_bits bit_u_imm bit_i_imm bit_sext bit_low_clear bit_low bit_field list.pred_inject, simp del: One_nat_def, (simp add: small_numerals)?)

lemma rvc_lw_imm_encode: "rvc_lw_imm (encode16 [(2, 1, 6), (3, 3, 10), (6, 1, 5)] imm w) = take_bit 7 imm AND NOT (mask 2)"
  unfolding rvc_lw_imm_or encode16_def place.simps prod.case
  by (rule word64_eqI) (simp only: upt_64 field_bits bit_u_imm bit_i_imm bit_sext bit_low_clear bit_low bit_field list.pred_inject, simp del: One_nat_def, (simp add: small_numerals)?)

lemma rvc_ld_imm_encode: "rvc_ld_imm (encode16 [(3, 3, 10), (6, 2, 5)] imm w) = take_bit 8 imm AND NOT (mask 3)"
  unfolding rvc_ld_imm_or encode16_def place.simps prod.case
  by (rule word64_eqI) (simp only: upt_64 field_bits bit_u_imm bit_i_imm bit_sext bit_low_clear bit_low bit_field list.pred_inject, simp del: One_nat_def, (simp add: small_numerals)?)

lemma rvc_j_imm_encode: "rvc_j_imm (encode16 [(1, 3, 3), (4, 1, 11), (5, 1, 2), (6, 1, 7), (7, 1, 6), (8, 2, 9), (10, 1, 8), (11, 1, 12)] imm w) = signed_take_bit 11 imm AND NOT (mask 1)"
  unfolding rvc_j_imm_or encode16_def place.simps prod.case
  by (rule word64_eqI) (simp only: upt_64 field_bits bit_u_imm bit_i_imm bit_sext bit_low_clear bit_low bit_field list.pred_inject, simp del: One_nat_def, (simp add: small_numerals)?)

lemma rvc_b_imm_encode: "rvc_b_imm (encode16 [(1, 2, 3), (3, 2, 10), (5, 1, 2), (6, 2, 5), (8, 1, 12)] imm w) = signed_take_bit 8 imm AND NOT (mask 1)"
  unfolding rvc_b_imm_or encode16_def place.simps prod.case
  by (rule word64_eqI) (simp only: upt_64 field_bits bit_u_imm bit_i_imm bit_sext bit_low_clear bit_low bit_field list.pred_inject, simp del: One_nat_def, (simp add: small_numerals)?)


section \<open>Fetched instruction words\<close>

text \<open>The length is decided by the low bits, which every assembled word keeps.\<close>

lemma insn_length_low:
  assumes "take_bit 6 v = take_bit 6 w"
  shows "insn_length v = insn_length w"
proof -
  have "v AND m = w AND m" if "m = mask k" "k \<le> 6" for m k
  proof -
    have "take_bit k v = take_bit k w" using arg_cong [OF assms, of "take_bit k"] that(2) by (simp add: min_def split: if_splits)
    then show ?thesis unfolding that(1) by (simp add: take_bit_eq_mask)
  qed
  from this [of 3 2] this [of 31 5] this [of 63 6] show ?thesis
    unfolding insn_length_def by (simp add: mask_eq_exp_minus_1)
qed

lemma fetched_length: "insn_length (fetched_bits h0 h1 h2 h3) = insn_length (ucast h0)"
proof -
  have "take_bit 6 (fetched_bits h0 h1 h2 h3) = take_bit 6 (ucast h0)"
    by (rule bit_word_eqI) (auto simp: fetched_bits_def Let_def bit_simps)
  then show ?thesis by (rule insn_length_low)
qed

lemma fetched_sign:
  "insn_length (ucast h0) = 4 \<Longrightarrow> signed_take_bit 31 (fetched_bits h0 h1 h2 h3) = fetched_bits h0 h1 h2 h3"
  "insn_length (ucast h0) = 2 \<Longrightarrow> signed_take_bit 15 (fetched_bits h0 h1 h2 h3) = fetched_bits h0 h1 h2 h3"
  "insn_length (ucast h0) = 4 \<Longrightarrow> take_bit 32 (fetched_bits h0 h1 h2 h3) = ucast h0 OR push_bit 16 (ucast h1)"
  "insn_length (ucast h0) = 2 \<Longrightarrow> take_bit 16 (fetched_bits h0 h1 h2 h3) = ucast h0"
proof -
  assume l: "insn_length (ucast h0) = 4"
  have high: "\<not> bit h n" if "16 \<le> n" for h :: u16 and n using that by (auto dest: bit_imp_le_length)
  show "signed_take_bit 31 (fetched_bits h0 h1 h2 h3) = fetched_bits h0 h1 h2 h3"
    using l by (intro word64_eqI) (simp add: fetched_bits_def upt_64 bit_simps high)
  show "take_bit 32 (fetched_bits h0 h1 h2 h3) = ucast h0 OR push_bit 16 (ucast h1)"
    using l by (intro word64_eqI) (simp add: fetched_bits_def upt_64 bit_simps high)
next
  assume l: "insn_length (ucast h0) = 2"
  have high: "\<not> bit h n" if "16 \<le> n" for h :: u16 and n using that by (auto dest: bit_imp_le_length)
  show "signed_take_bit 15 (fetched_bits h0 h1 h2 h3) = fetched_bits h0 h1 h2 h3"
    using l by (intro word64_eqI) (simp add: fetched_bits_def upt_64 bit_simps)
  show "take_bit 16 (fetched_bits h0 h1 h2 h3) = ucast h0"
    using l by (intro word64_eqI) (simp add: fetched_bits_def upt_64 bit_simps high)
qed

section \<open>Properties\<close>

text \<open>The immediate placed in an instruction word in any of the five 32-bit layouts of the ISA is the one
  the decoder extracts, reduced to the width and alignment of the layout and sign-extended, whatever
  the other bits of the word are.\<close>

theorem immediates_roundtrip:
  "i_imm (encode32 [(0, 12, 20)] imm w) = signed_take_bit 11 imm \<and>
   s_imm (encode32 [(0, 5, 7), (5, 7, 25)] imm w) = signed_take_bit 11 imm \<and>
   sb_imm (encode32 [(1, 4, 8), (5, 6, 25), (11, 1, 7), (12, 1, 31)] imm w) = signed_take_bit 12 imm AND NOT (mask 1) \<and>
   u_imm (encode32 [(12, 20, 12)] imm w) = signed_take_bit 31 imm AND NOT (mask 12) \<and>
   uj_imm (encode32 [(1, 10, 21), (11, 1, 20), (12, 8, 12), (20, 1, 31)] imm w) = signed_take_bit 20 imm AND NOT (mask 1)"
  by (intro conjI i_imm_encode s_imm_encode sb_imm_encode u_imm_encode uj_imm_encode)

text \<open>The same for the twelve immediate layouts of the compressed instructions, signed and unsigned.\<close>

theorem compressed_immediates_roundtrip:
  "rvc_imm (encode16 [(0, 5, 2), (5, 1, 12)] imm w) = signed_take_bit 5 imm \<and>
   rvc_zimm (encode16 [(0, 5, 2), (5, 1, 12)] imm w) = take_bit 6 imm \<and>
   rvc_addi4spn_imm (encode16 [(2, 1, 6), (3, 1, 5), (4, 2, 11), (6, 4, 7)] imm w) = take_bit 10 imm AND NOT (mask 2) \<and>
   rvc_addi16sp_imm (encode16 [(4, 1, 6), (5, 1, 2), (6, 1, 5), (7, 2, 3), (9, 1, 12)] imm w) = signed_take_bit 9 imm AND NOT (mask 4) \<and>
   rvc_lwsp_imm (encode16 [(2, 3, 4), (5, 1, 12), (6, 2, 2)] imm w) = take_bit 8 imm AND NOT (mask 2) \<and>
   rvc_ldsp_imm (encode16 [(3, 2, 5), (5, 1, 12), (6, 3, 2)] imm w) = take_bit 9 imm AND NOT (mask 3) \<and>
   rvc_swsp_imm (encode16 [(2, 4, 9), (6, 2, 7)] imm w) = take_bit 8 imm AND NOT (mask 2) \<and>
   rvc_sdsp_imm (encode16 [(3, 3, 10), (6, 3, 7)] imm w) = take_bit 9 imm AND NOT (mask 3) \<and>
   rvc_lw_imm (encode16 [(2, 1, 6), (3, 3, 10), (6, 1, 5)] imm w) = take_bit 7 imm AND NOT (mask 2) \<and>
   rvc_ld_imm (encode16 [(3, 3, 10), (6, 2, 5)] imm w) = take_bit 8 imm AND NOT (mask 3) \<and>
   rvc_j_imm (encode16 [(1, 3, 3), (4, 1, 11), (5, 1, 2), (6, 1, 7), (7, 1, 6), (8, 2, 9), (10, 1, 8), (11, 1, 12)] imm w) = signed_take_bit 11 imm AND NOT (mask 1) \<and>
   rvc_b_imm (encode16 [(1, 2, 3), (3, 2, 10), (5, 1, 2), (6, 2, 5), (8, 1, 12)] imm w) = signed_take_bit 8 imm AND NOT (mask 1)"
  by (intro conjI rvc_imm_encode rvc_zimm_encode rvc_addi4spn_imm_encode rvc_addi16sp_imm_encode rvc_lwsp_imm_encode rvc_ldsp_imm_encode
      rvc_swsp_imm_encode rvc_sdsp_imm_encode rvc_lw_imm_encode rvc_ld_imm_encode rvc_j_imm_encode rvc_b_imm_encode)

text \<open>An instruction fetched from memory keeps the length its first halfword announces, consists of
  exactly that many bits of memory in little-endian order, and is sign-extended above them, which
  the decoding of signed immediates relies on.\<close>

theorem fetched_instruction:
  "insn_length (fetched_bits h0 h1 h2 h3) = insn_length (ucast h0) \<and>
   (insn_length (ucast h0) = 4 \<longrightarrow>
      take_bit 32 (fetched_bits h0 h1 h2 h3) = ucast h0 OR push_bit 16 (ucast h1) \<and>
      signed_take_bit 31 (fetched_bits h0 h1 h2 h3) = fetched_bits h0 h1 h2 h3) \<and>
   (insn_length (ucast h0) = 2 \<longrightarrow>
      take_bit 16 (fetched_bits h0 h1 h2 h3) = ucast h0 \<and>
      signed_take_bit 15 (fetched_bits h0 h1 h2 h3) = fetched_bits h0 h1 h2 h3)"
  using fetched_length fetched_sign by blast

theorem fetched_instruction_witness:
  "take_bit 32 (fetched_bits 0x0513 0x02A0 0 0) = 0x02A00513 \<and> take_bit 16 (fetched_bits 0x4501 0 0 0) = 0x4501"
  using fetched_instruction [of "0x0513" "0x02A0" 0 0] fetched_instruction [of "0x4501" 0 0 0]
  by (simp add: insn_length_def)

end
