(* ===== verification/RV_Decoder.thy ===== *)
theory RV_Decoder
  imports RV_Decode
begin

text \<open>
  The instruction decoder of \<open>riscv/processor.cc\<close>: the vector of instruction descriptors sorted by
  \<open>build_opcode_map\<close>, the direct-mapped opcode cache, and \<open>decode_insn\<close>, which on a cache miss
  searches the vector linearly and may move what it found to the front. Function pointers are
  values of an arbitrary type. Reads past the end of the vector are \<open>None\<close>.

  The locale \<open>opcode_table\<close> states what the decoder needs of a table (all descriptors that match a
  word share one match value, and none has an empty mask); under it every decoder state reachable
  from start-up decodes like the freshly sorted table, whatever was decoded before.
\<close>

section \<open>State and operations\<close>

record 'f insn_desc =
  id_match :: u64
  id_mask :: u64
  id_rv32 :: 'f
  id_rv64 :: 'f

record 'f decoder =
  dc_instructions :: "'f insn_desc list"
  dc_cache :: "nat \<Rightarrow> 'f insn_desc"

abbreviation opcode_cache_size :: nat where "opcode_cache_size \<equiv> 8191"

definition register_insn :: "'f insn_desc \<Rightarrow> 'f decoder \<Rightarrow> 'f decoder" where
  "register_insn desc d = d\<lparr>dc_instructions := dc_instructions d @ [desc]\<rparr>"

definition insn_before :: "'f insn_desc \<Rightarrow> 'f insn_desc \<Rightarrow> bool" where
  "insn_before lhs rhs =
     (if id_match lhs = id_match rhs then id_mask rhs < id_mask lhs else id_match rhs < id_match lhs)"

definition illegal_desc :: "'f \<Rightarrow> 'f insn_desc" where
  "illegal_desc illegal = \<lparr>id_match = 0, id_mask = 0, id_rv32 = illegal, id_rv64 = illegal\<rparr>"

definition sort_insns :: "'f insn_desc list \<Rightarrow> 'f insn_desc list" where
  "sort_insns = sort_key (\<lambda>d. - (uint (id_match d) * 2 ^ 64 + uint (id_mask d)))"

definition build_opcode_map :: "'f \<Rightarrow> 'f decoder \<Rightarrow> 'f decoder" where
  "build_opcode_map illegal d =
     d\<lparr>dc_instructions := sort_insns (dc_instructions d), dc_cache := \<lambda>i. illegal_desc illegal\<rparr>"

definition register_base_instructions :: "'f \<Rightarrow> 'f insn_desc list \<Rightarrow> 'f decoder \<Rightarrow> 'f decoder" where
  "register_base_instructions illegal table d =
     build_opcode_map illegal (register_insn (illegal_desc illegal) (fold register_insn table d))"

text \<open>The linear search; \<open>None\<close> if it ran past the end.\<close>

fun insn_search :: "u64 \<Rightarrow> 'f insn_desc list \<Rightarrow> nat option" where
  "insn_search bits [] = None"
| "insn_search bits (d # ds) =
     (if bits AND id_mask d \<noteq> id_match d then map_option Suc (insn_search bits ds) else Some 0)"

text \<open>The reordering after a search; \<open>None\<close> if it read past the end.\<close>

definition move_to_front :: "nat \<Rightarrow> 'f insn_desc list \<Rightarrow> 'f insn_desc list option" where
  "move_to_front p is =
     (let desc = is ! p
      in if id_mask desc \<noteq> 0 \<and> 0 < p then
           if id_match desc \<noteq> id_match (is ! (p - 1)) then
             if length is \<le> p + 1 then None
             else if id_match desc \<noteq> id_match (is ! (p + 1)) then Some (desc # take p is @ drop (p + 1) is)
             else Some is
           else Some is
         else Some is)"

definition decode_insn :: "nat \<Rightarrow> u64 \<Rightarrow> 'f decoder \<Rightarrow> ('f \<times> 'f decoder) option" where
  "decode_insn xlen b d =
     (let bits = insn_bits b; idx = unat bits mod opcode_cache_size; desc = dc_cache d idx;
          function = (\<lambda>e. if xlen = 64 then id_rv64 e else id_rv32 e)
      in if bits \<noteq> id_match desc then
           (case insn_search bits (dc_instructions d) of
              None \<Rightarrow> None
            | Some p \<Rightarrow>
                (case move_to_front p (dc_instructions d) of
                   None \<Rightarrow> None
                 | Some is \<Rightarrow>
                     let desc = dc_instructions d ! p
                     in Some (function desc, d\<lparr>dc_instructions := is, dc_cache := (dc_cache d)(idx := desc\<lparr>id_match := bits\<rparr>)\<rparr>)))
         else Some (function desc, d))"

fun decode_run :: "nat \<Rightarrow> u64 list \<Rightarrow> 'f decoder \<Rightarrow> ('f list \<times> 'f decoder) option" where
  "decode_run xlen [] d = Some ([], d)"
| "decode_run xlen (b # bs) d =
     (case decode_insn xlen b d of
        None \<Rightarrow> None
      | Some (f, d) \<Rightarrow> (case decode_run xlen bs d of None \<Rightarrow> None | Some (fs, d) \<Rightarrow> Some (f # fs, d)))"

section \<open>Lists\<close>

definition insn_matches :: "u64 \<Rightarrow> 'f insn_desc \<Rightarrow> bool" where
  "insn_matches bits d = (bits AND id_mask d = id_match d)"

lemma insn_search_find:
  "insn_search bits is = Some p \<Longrightarrow> p < length is \<and> find (insn_matches bits) is = Some (is ! p) \<and> insn_matches bits (is ! p)"
  "insn_search bits is = None \<longleftrightarrow> \<not> (\<exists>d \<in> set is. insn_matches bits d)"
  by (induction "is" arbitrary: p) (auto simp: insn_matches_def split: if_splits)

lemma find_filter: "(\<And>x. P x \<Longrightarrow> Q x) \<Longrightarrow> find P xs = find P (filter Q xs)"
  by (induction xs) auto

lemma remdups_adj_split:
  assumes "distinct (remdups_adj xs)" "xs = as @ c # bs" "as = [] \<or> last as \<noteq> c"
  shows "c \<notin> set as"
proof (cases "as = []")
  case False
  then have "remdups_adj xs = remdups_adj as @ remdups_adj (c # bs)"
    using assms(2,3) by (simp add: remdups_adj_append')
  then have "set (remdups_adj as) \<inter> set (remdups_adj (c # bs)) = {}" using assms(1) by (metis distinct_append)
  then show ?thesis by auto
qed simp

lemma remdups_adj_without:
  assumes "distinct (remdups_adj (as @ c # bs))" "c \<notin> set as" "c \<notin> set bs"
  shows "distinct (remdups_adj (c # as @ bs))"
proof -
  have a: "remdups_adj (as @ c # bs) = remdups_adj as @ c # remdups_adj bs"
  proof -
    have "as = [] \<or> last as \<noteq> c" using assms(2) by (metis last_in_set)
    moreover have "bs = [] \<or> hd bs \<noteq> c" using assms(3) by (metis hd_in_set)
    ultimately show ?thesis
      using remdups_adj_append' [of as "c # bs"] remdups_adj_append' [of "[c]" bs] by (cases "as = []"; cases "bs = []") auto
  qed
  have d: "distinct (remdups_adj (as @ bs))"
  proof (cases "as = [] \<or> bs = [] \<or> last as \<noteq> hd bs")
    case True
    then have "remdups_adj (as @ bs) = remdups_adj as @ remdups_adj bs"
      using remdups_adj_append' [of as bs] by (cases "as = []"; cases "bs = []") auto
    then show ?thesis using assms(1) unfolding a by auto
  next
    case False
    then have "last as \<in> set as" "last as \<in> set bs" using last_in_set [of as] hd_in_set [of bs] by simp_all
    then have "\<not> distinct (remdups_adj as @ c # remdups_adj bs)" by auto
    then show ?thesis using assms(1) unfolding a by simp
  qed
  have "as @ bs = [] \<or> hd (as @ bs) \<noteq> c" using assms(2,3) by (metis Un_iff hd_in_set set_append)
  then have "remdups_adj (c # as @ bs) = c # remdups_adj (as @ bs)"
    using remdups_adj_append' [of "[c]" "as @ bs"] by (cases "as @ bs = []") auto
  then show ?thesis using d assms(2,3) by auto
qed

section \<open>The sorted table\<close>

definition dispatch :: "'f \<Rightarrow> 'f insn_desc list \<Rightarrow> u64 \<Rightarrow> 'f insn_desc option" where
  "dispatch illegal table w = find (insn_matches w) (sort_insns (table @ [illegal_desc illegal]))"

definition ends_illegal :: "'f \<Rightarrow> 'f insn_desc list \<Rightarrow> bool" where
  "ends_illegal illegal is = (is \<noteq> [] \<and> last is = illegal_desc illegal \<and> list_all (\<lambda>d. id_mask d \<noteq> 0) (butlast is))"

definition cached_ok :: "'f \<Rightarrow> 'f insn_desc list \<Rightarrow> 'f insn_desc \<Rightarrow> bool" where
  "cached_ok illegal table c =
     (c = illegal_desc illegal \<or> (\<exists>w d. dispatch illegal table w = Some d \<and> c = d\<lparr>id_match := w\<rparr>))"

definition decoder_ok :: "'f \<Rightarrow> 'f insn_desc list \<Rightarrow> 'f decoder \<Rightarrow> bool" where
  "decoder_ok illegal table d =
     ((\<forall>v. filter (\<lambda>e. id_match e = v) (dc_instructions d) =
            filter (\<lambda>e. id_match e = v) (sort_insns (table @ [illegal_desc illegal]))) \<and>
      distinct (remdups_adj (map id_match (dc_instructions d))) \<and>
      ends_illegal illegal (dc_instructions d) \<and>
      (\<forall>i. cached_ok illegal table (dc_cache d i)))"

lemma insort_key_last: "f a < f x \<Longrightarrow> insort_key f a (ys @ [x]) = insort_key f a ys @ [x]"
  by (induction ys) auto

lemma sort_key_last: "(\<And>y. y \<in> set ys \<Longrightarrow> f y < f x) \<Longrightarrow> sort_key f (ys @ [x]) = sort_key f ys @ [x]"
  unfolding sort_key_def by (induction ys) (simp_all add: insort_key_last)

lemma sorted_runs: "sorted xs \<Longrightarrow> distinct (remdups_adj xs)"
  by (induction xs rule: remdups_adj.induct) (auto simp: antisym)

lemma insn_key_match:
  fixes m n k l :: u64
  assumes "uint m * 2 ^ 64 + uint k \<le> uint n * 2 ^ 64 + uint l"
  shows "uint m \<le> uint n"
proof (rule ccontr)
  assume "\<not> uint m \<le> uint n"
  then have "uint n * 2 ^ 64 + 2 ^ 64 \<le> uint m * 2 ^ 64" by simp
  moreover have "uint l < 2 ^ 64" "0 \<le> uint k" using uint_bounded [of l] by simp_all
  ultimately show False using assms by linarith
qed

lemma sort_insns_runs: "distinct (remdups_adj (map id_match (sort_insns is)))"
proof -
  let ?L = "sort_insns is"
  have "sorted (map (\<lambda>d. - uint (id_match d)) ?L)"
  proof (rule sorted_wrt_mono_rel [of _ "\<lambda>d e. - (uint (id_match d) * 2 ^ 64 + uint (id_mask d)) \<le> - (uint (id_match e) * 2 ^ 64 + uint (id_mask e))", THEN sorted_wrt_map [THEN iffD2]])
    show "sorted_wrt (\<lambda>d e. - (uint (id_match d) * 2 ^ 64 + uint (id_mask d)) \<le> - (uint (id_match e) * 2 ^ 64 + uint (id_mask e))) ?L"
      using sorted_sort_key [of "\<lambda>d. - (uint (id_match d) * 2 ^ 64 + uint (id_mask d))" "is"]
      by (simp add: sort_insns_def sorted_wrt_map)
  next
    fix d e :: "'a insn_desc"
    assume "- (uint (id_match d) * 2 ^ 64 + uint (id_mask d)) \<le> - (uint (id_match e) * 2 ^ 64 + uint (id_mask e))"
    then have "uint (id_match e) * 2 ^ 64 + uint (id_mask e) \<le> uint (id_match d) * 2 ^ 64 + uint (id_mask d)" by linarith
    then have "uint (id_match e) \<le> uint (id_match d)" by (rule insn_key_match)
    then show "- uint (id_match d) \<le> - uint (id_match e)" by linarith
  qed
  then have "distinct (remdups_adj (map (\<lambda>w. - uint w) (map id_match ?L)))" by (simp add: sorted_runs o_def)
  then have "distinct (map (\<lambda>w. - uint w) (remdups_adj (map id_match ?L)))"
    by (subst remdups_adj_map_injective [symmetric]) (auto simp: inj_on_def word_uint_eq_iff)
  then show ?thesis by (simp add: distinct_map)
qed

text \<open>The result of the sort is ordered by the comparison the code passes to \<open>std::sort\<close>.\<close>

lemma insn_before_key:
  "insn_before d e \<longleftrightarrow> uint (id_match e) * 2 ^ 64 + uint (id_mask e) < uint (id_match d) * 2 ^ 64 + uint (id_mask d)"
proof (cases "id_match d = id_match e")
  case True
  then show ?thesis by (simp add: insn_before_def word_less_def)
next
  case False
  then have "uint (id_match d) \<noteq> uint (id_match e)" by (simp only: word_uint_eq_iff not_False_eq_True)
  then have "uint (id_match e) * 2 ^ 64 + uint (id_mask e) < uint (id_match d) * 2 ^ 64 + uint (id_mask d) \<longleftrightarrow>
      uint (id_match e) < uint (id_match d)"
    using insn_key_match [of "id_match d" "id_mask d" "id_match e" "id_mask e"]
      insn_key_match [of "id_match e" "id_mask e" "id_match d" "id_mask d"] by (meson less_le_not_le linorder_le_cases not_le order_antisym)
  then show ?thesis using False by (simp only: insn_before_def word_less_def if_False)
qed

lemma sort_insns_sorted: "sorted_wrt (\<lambda>d e. \<not> insn_before e d) (sort_insns is)"
proof -
  have "sorted (map (\<lambda>d. - (uint (id_match d) * 2 ^ 64 + uint (id_mask d))) (sort_insns is))"
    unfolding sort_insns_def by (rule sorted_sort_key)
  then show ?thesis unfolding sorted_wrt_map
    by (rule sorted_wrt_mono_rel [rotated]) (unfold insn_before_key, linarith)
qed

lemma sort_insns_illegal:
  assumes "\<And>d. d \<in> set table \<Longrightarrow> id_mask d \<noteq> 0"
  shows "sort_insns (table @ [illegal_desc illegal]) = sort_insns table @ [illegal_desc illegal]"
  unfolding sort_insns_def
proof (rule sort_key_last)
  fix d assume "d \<in> set table"
  then have "id_mask d \<noteq> 0" by (rule assms)
  then have "uint (id_mask d) \<noteq> 0" by (simp only: uint_0_iff not_False_eq_True)
  then have "0 < uint (id_mask d)" using uint_ge_0 [of "id_mask d"] by linarith
  moreover have "0 \<le> uint (id_match d) * 2 ^ 64" by simp
  ultimately show "- (uint (id_match d) * 2 ^ 64 + uint (id_mask d)) <
      - (uint (id_match (illegal_desc illegal)) * 2 ^ 64 + uint (id_mask (illegal_desc illegal)))"
    unfolding illegal_desc_def insn_desc.select_convs unsigned_0 mult_zero_left by linarith
qed

section \<open>The search is independent of the order\<close>

locale opcode_table =
  fixes table :: "'f insn_desc list" and illegal :: 'f and key :: "u64 \<Rightarrow> u64"
  assumes key: "d \<in> set table \<Longrightarrow> insn_matches w d \<Longrightarrow> id_match d = key w"
    and masked: "d \<in> set table \<Longrightarrow> id_mask d \<noteq> 0"
begin

lemma ok_table:
  assumes "decoder_ok illegal table d" "e \<in> set (butlast (dc_instructions d))"
  shows "e \<in> set table"
proof -
  have m: "id_mask e \<noteq> 0" using assms by (auto simp: decoder_ok_def ends_illegal_def list_all_iff)
  have "e \<in> set (filter (\<lambda>x. id_match x = id_match e) (dc_instructions d))" using assms(2) by (simp add: in_set_butlastD)
  moreover have "filter (\<lambda>x. id_match x = id_match e) (dc_instructions d) =
      filter (\<lambda>x. id_match x = id_match e) (sort_insns (table @ [illegal_desc illegal]))"
    using assms(1) by (simp only: decoder_ok_def)
  ultimately have "e \<in> set (sort_insns (table @ [illegal_desc illegal]))" by simp
  then show ?thesis using m by (auto simp: sort_insns_def illegal_desc_def)
qed

lemma find_by_key:
  assumes "set xs \<subseteq> set table"
  shows "find (insn_matches w) xs = find (insn_matches w) (filter (\<lambda>e. id_match e = key w) xs)"
  using assms key by (induction xs) auto

lemma find_last: "find P (xs @ [x]) = (case find P xs of None \<Rightarrow> if P x then Some x else None | Some y \<Rightarrow> Some y)"
  by (induction xs) auto

lemma find_dispatch:
  assumes "decoder_ok illegal table d"
  shows "find (insn_matches w) (dc_instructions d) = dispatch illegal table w"
proof -
  let ?s = "illegal_desc illegal"
  obtain xs where xs: "dc_instructions d = xs @ [?s]"
    using assms by (metis append_butlast_last_id decoder_ok_def ends_illegal_def)
  have L: "sort_insns (table @ [?s]) = sort_insns table @ [?s]" by (rule sort_insns_illegal) (rule masked)
  have "filter (\<lambda>e. id_match e = key w) xs = filter (\<lambda>e. id_match e = key w) (sort_insns table)"
  proof -
    have "filter (\<lambda>e. id_match e = key w) (xs @ [?s]) = filter (\<lambda>e. id_match e = key w) (sort_insns table @ [?s])"
      using assms unfolding decoder_ok_def xs L by blast
    then show ?thesis by (simp split: if_splits)
  qed
  moreover have "set xs \<subseteq> set table" using ok_table [OF assms] xs by auto
  moreover have "set (sort_insns table) \<subseteq> set table" by (simp add: sort_insns_def)
  ultimately have "find (insn_matches w) xs = find (insn_matches w) (sort_insns table)"
    using find_by_key by metis
  then show ?thesis unfolding dispatch_def xs L find_last by simp
qed

lemma move_ok:
  assumes ok: "decoder_ok illegal table d" and p: "p < length (dc_instructions d)"
  shows "\<exists>is. move_to_front p (dc_instructions d) = Some is \<and> (\<forall>v. filter (\<lambda>e. id_match e = v) is = filter (\<lambda>e. id_match e = v) (dc_instructions d)) \<and>
    distinct (remdups_adj (map id_match is)) \<and> ends_illegal illegal is"
proof -
  let ?is = "dc_instructions d"
  have inv: "distinct (remdups_adj (map id_match ?is))" "ends_illegal illegal ?is" using ok by (simp_all add: decoder_ok_def)
  define e as bs where "e = ?is ! p" and "as = take p ?is" and "bs = drop (Suc p) ?is"
  have split: "?is = as @ e # bs" unfolding e_def as_def bs_def using p by (rule id_take_nth_drop)
  have last: "\<not> p < length ?is - 1 \<Longrightarrow> id_mask e = 0"
  proof -
    assume "\<not> p < length ?is - 1"
    then have "p = length ?is - 1" using p by simp
    moreover have "?is \<noteq> []" using p by auto
    ultimately have "e = last ?is" by (simp add: e_def last_conv_nth)
    then show "id_mask e = 0" using inv(2) by (simp add: ends_illegal_def illegal_desc_def)
  qed
  show ?thesis
  proof (cases "id_mask e \<noteq> 0 \<and> 0 < p \<and> id_match e \<noteq> id_match (?is ! (p - 1)) \<and> id_match e \<noteq> id_match (?is ! (p + 1))")
    case False
    then have "move_to_front p ?is = Some ?is"
      using last by (auto simp: move_to_front_def Let_def e_def [symmetric])
    then show ?thesis using inv by simp
  next
    case True
    then have n: "p + 1 < length ?is" using last by fastforce
    have ne: "as \<noteq> []" "bs \<noteq> []" using True n p by (auto simp: as_def bs_def)
    have l: "last as = ?is ! (p - 1)"
    proof -
      have "last as = as ! (length as - 1)" using ne(1) by (rule last_conv_nth)
      moreover have "length as = p" using p by (simp add: as_def)
      ultimately show ?thesis using True by (simp add: as_def)
    qed
    have h: "hd bs = ?is ! (p + 1)" using n by (simp add: bs_def hd_drop_conv_nth)
    have m: "move_to_front p ?is = Some (e # as @ bs)"
      using True n by (simp add: move_to_front_def Let_def e_def [symmetric] as_def bs_def)
    have a: "id_match e \<notin> set (map id_match as)"
    proof (rule remdups_adj_split [OF inv(1)])
      show "map id_match ?is = map id_match as @ id_match e # map id_match bs" by (subst split) simp
      show "map id_match as = [] \<or> last (map id_match as) \<noteq> id_match e" using True ne l by (auto simp: last_map)
    qed
    have b: "id_match e \<notin> set (map id_match bs)"
    proof -
      have "id_match e \<notin> set (rev (map id_match bs))"
      proof (rule remdups_adj_split)
        show "distinct (remdups_adj (rev (map id_match ?is)))" using inv(1) by simp
        show "rev (map id_match ?is) = rev (map id_match bs) @ id_match e # rev (map id_match as)" by (subst split) simp
        show "rev (map id_match bs) = [] \<or> last (rev (map id_match bs)) \<noteq> id_match e"
          using True ne h by (auto simp: last_rev hd_map)
      qed
      then show ?thesis by simp
    qed
    have f: "filter (\<lambda>x. id_match x = v) (e # as @ bs) = filter (\<lambda>x. id_match x = v) ?is" for v
    proof (cases "id_match e = v")
      case True
      have "\<forall>x \<in> set as. id_match x \<noteq> v" using a True by (metis image_eqI set_map)
      then have "filter (\<lambda>x. id_match x = v) as = []" by (simp add: filter_empty_conv)
      then show ?thesis by (subst split) simp
    next
      case False
      then show ?thesis by (subst split) simp
    qed
    have "distinct (remdups_adj (map id_match as @ id_match e # map id_match bs))" using inv(1) by (subst (asm) split) simp
    then have r: "distinct (remdups_adj (map id_match (e # as @ bs)))" using remdups_adj_without a b by fastforce
    have "butlast ?is = as @ e # butlast bs" "last ?is = last bs" using ne by (simp_all add: split butlast_append)
    then have "ends_illegal illegal (e # as @ bs)"
      using inv(2) ne True by (auto simp: ends_illegal_def butlast_append)
    then show ?thesis using m f r by blast
  qed
qed

lemma dispatch_total: "\<exists>d. dispatch illegal table w = Some d"
proof (cases "dispatch illegal table w")
  case None
  then have "\<not> insn_matches w (illegal_desc illegal)" by (auto simp: dispatch_def find_None_iff sort_insns_def)
  then show ?thesis by (simp add: insn_matches_def illegal_desc_def)
qed simp

lemma decode_step:
  assumes ok: "decoder_ok illegal table d"
  shows "\<exists>e d'. decode_insn xlen b d = Some (if xlen = 64 then id_rv64 e else id_rv32 e, d') \<and> decoder_ok illegal table d' \<and>
    (dispatch illegal table (insn_bits b) = Some e \<or> insn_bits b = 0 \<and> e = illegal_desc illegal)"
proof -
  define w c where "w = insn_bits b" and "c = dc_cache d (unat w mod opcode_cache_size)"
  have c: "cached_ok illegal table c" using ok by (simp add: decoder_ok_def c_def)
  show ?thesis
  proof (cases "w = id_match c")
    case True
    have r: "decode_insn xlen b d = Some (if xlen = 64 then id_rv64 c else id_rv32 c, d)"
      unfolding decode_insn_def Let_def w_def [symmetric] c_def [symmetric] using True by simp
    from c consider "c = illegal_desc illegal" | v e where "dispatch illegal table v = Some e" "c = e\<lparr>id_match := v\<rparr>"
      unfolding cached_ok_def by blast
    then show ?thesis
    proof cases
      case 1
      moreover from 1 True have "insn_bits b = 0" by (simp add: illegal_desc_def w_def)
      ultimately show ?thesis using r ok by blast
    next
      case 2
      then have "dispatch illegal table w = Some e" using True by simp
      then show ?thesis using r ok 2(2) by (auto simp: w_def)
    qed
  next
    case False
    obtain e where e: "dispatch illegal table w = Some e" using dispatch_total by blast
    then have "find (insn_matches w) (dc_instructions d) = Some e" using find_dispatch [OF ok] by simp
    then obtain p where p: "insn_search w (dc_instructions d) = Some p" "p < length (dc_instructions d)" "dc_instructions d ! p = e"
      using insn_search_find [of w "dc_instructions d"]
      by (cases "insn_search w (dc_instructions d)") (auto simp: find_Some_iff)
    obtain "is" where "is": "move_to_front p (dc_instructions d) = Some is"
      "\<And>v. filter (\<lambda>e. id_match e = v) is = filter (\<lambda>e. id_match e = v) (dc_instructions d)"
      "distinct (remdups_adj (map id_match is))" "ends_illegal illegal is"
      using move_ok [OF ok p(2)] by blast
    define d' where "d' = d\<lparr>dc_instructions := is, dc_cache := (dc_cache d)(unat w mod opcode_cache_size := e\<lparr>id_match := w\<rparr>)\<rparr>"
    have "decode_insn xlen b d = Some (if xlen = 64 then id_rv64 e else id_rv32 e, d')"
      using False p "is"(1) by (simp add: decode_insn_def Let_def w_def [symmetric] c_def [symmetric] d'_def)
    moreover have "decoder_ok illegal table d'"
      using ok "is" e by (auto simp: decoder_ok_def d'_def cached_ok_def)
    ultimately show ?thesis using e by (auto simp: w_def)
  qed
qed

lemma start_ok: "decoder_ok illegal table (register_base_instructions illegal table \<lparr>dc_instructions = [], dc_cache = c\<rparr>)"
proof -
  have "fold register_insn ds \<lparr>dc_instructions = xs, dc_cache = c\<rparr> = \<lparr>dc_instructions = xs @ ds, dc_cache = c\<rparr>" for ds xs
    by (induction ds arbitrary: xs) (simp_all add: register_insn_def)
  then have s: "register_base_instructions illegal table \<lparr>dc_instructions = [], dc_cache = c\<rparr> =
      \<lparr>dc_instructions = sort_insns (table @ [illegal_desc illegal]), dc_cache = \<lambda>i. illegal_desc illegal\<rparr>"
    by (simp add: register_base_instructions_def build_opcode_map_def register_insn_def)
  have "sort_insns (table @ [illegal_desc illegal]) = sort_insns table @ [illegal_desc illegal]"
    by (rule sort_insns_illegal) (rule masked)
  then have "ends_illegal illegal (sort_insns (table @ [illegal_desc illegal]))"
    by (simp add: ends_illegal_def list_all_iff masked sort_insns_def)
  then show ?thesis unfolding s by (simp add: decoder_ok_def sort_insns_runs cached_ok_def)
qed

lemma run_ok:
  assumes "decoder_ok illegal table d"
  shows "\<exists>fs d'. decode_run xlen bs d = Some (fs, d') \<and> decoder_ok illegal table d' \<and>
    list_all2 (\<lambda>b f. \<exists>e. f = (if xlen = 64 then id_rv64 e else id_rv32 e) \<and>
      (dispatch illegal table (insn_bits b) = Some e \<or> insn_bits b = 0 \<and> e = illegal_desc illegal)) bs fs"
  using assms
proof (induction bs arbitrary: d)
  case (Cons b bs)
  from decode_step [OF Cons.prems, of xlen b] obtain e d' where s: "decode_insn xlen b d = Some (if xlen = 64 then id_rv64 e else id_rv32 e, d')"
    "decoder_ok illegal table d'" "dispatch illegal table (insn_bits b) = Some e \<or> insn_bits b = 0 \<and> e = illegal_desc illegal" by blast
  from Cons.IH [OF s(2)] obtain fs d'' where "decode_run xlen bs d' = Some (fs, d'')" "decoder_ok illegal table d''"
    "list_all2 (\<lambda>b f. \<exists>e. f = (if xlen = 64 then id_rv64 e else id_rv32 e) \<and>
      (dispatch illegal table (insn_bits b) = Some e \<or> insn_bits b = 0 \<and> e = illegal_desc illegal)) bs fs" by blast
  then show ?case using s(1,3) by (intro exI conjI) (auto simp: split: if_splits)
qed simp

lemma dispatch_specific:
  assumes "dispatch illegal table w = Some e"
  shows "insn_matches w e"
    "e = illegal_desc illegal \<and> (\<forall>d \<in> set table. \<not> insn_matches w d) \<or>
     e \<in> set table \<and> (\<forall>d \<in> set table. insn_matches w d \<longrightarrow> id_mask d \<le> id_mask e)"
proof -
  show m: "insn_matches w e" using assms unfolding dispatch_def find_Some_iff by blast
  have s: "sort_insns (table @ [illegal_desc illegal]) = sort_insns table @ [illegal_desc illegal]"
    by (rule sort_insns_illegal) (rule masked)
  show "e = illegal_desc illegal \<and> (\<forall>d \<in> set table. \<not> insn_matches w d) \<or>
     e \<in> set table \<and> (\<forall>d \<in> set table. insn_matches w d \<longrightarrow> id_mask d \<le> id_mask e)"
  proof (cases "find (insn_matches w) (sort_insns table)")
    case None
    then have "e = illegal_desc illegal" using assms unfolding dispatch_def s find_last by (simp split: if_splits)
    moreover have "\<forall>d \<in> set table. \<not> insn_matches w d" using None by (auto simp: find_None_iff sort_insns_def)
    ultimately show ?thesis by blast
  next
    case (Some f)
    then have f: "f = e" using assms unfolding dispatch_def s find_last by simp
    obtain n where n: "n < length (sort_insns table)" "e = sort_insns table ! n" "\<And>i. i < n \<Longrightarrow> \<not> insn_matches w (sort_insns table ! i)"
      using Some unfolding find_Some_iff f by blast
    have set_table: "set (sort_insns table) = set table" by (simp add: sort_insns_def)
    have "id_mask d \<le> id_mask e" if d: "d \<in> set table" "insn_matches w d" for d
    proof -
      have "e \<in> set table" using n(1,2) nth_mem [of n "sort_insns table"] by (simp add: sort_insns_def)
      then have same: "id_match d = id_match e" using key [OF d] key [OF _ m] by simp
      obtain i where i: "i < length (sort_insns table)" "d = sort_insns table ! i"
        using d(1) by (auto simp: set_table [symmetric] in_set_conv_nth)
      have "n \<le> i" using n(3) [of i] i(2) d(2) by (cases "i < n") simp_all
      have "sorted (map (\<lambda>d. - (uint (id_match d) * 2 ^ 64 + uint (id_mask d))) (sort_insns table))"
        unfolding sort_insns_def by (rule sorted_sort_key)
      from sorted_nth_mono [OF this \<open>n \<le> i\<close>]
      have "- (uint (id_match e) * 2 ^ 64 + uint (id_mask e)) \<le> - (uint (id_match d) * 2 ^ 64 + uint (id_mask d))"
        using i n(1,2) by simp
      then have "uint (id_mask d) \<le> uint (id_mask e)" unfolding same by linarith
      then show ?thesis by (simp only: word_le_def)
    qed
    moreover have "e \<in> set table" using n(1,2) nth_mem [of n "sort_insns table"] by (simp add: sort_insns_def)
    ultimately show ?thesis by blast
  qed
qed

end

end
