(* ===== verification/RV_Opcodes.thy ===== *)
theory RV_Opcodes
  imports RV_Decoder
begin

text \<open>
  The opcode table: the \<open>MATCH_*\<close> and \<open>MASK_*\<close> constants of \<open>riscv/encoding.h\<close> in the order of the
  file, each with its \<open>DECLARE_INSN\<close> name and whether \<open>riscv_insn_list\<close> of \<open>riscv.mk.in\<close> (with
  \<open>HAVE_INT128\<close>) registers it. A decision tree over the low 32 bits, read three times in a row,
  certifies that a word never matches two registered entries of different match values, which
  makes the table an \<open>opcode_table\<close>.
\<close>

section \<open>The table\<close>

definition encoding_1 :: "(bool \<times> string \<times> u64 \<times> u64) list" where
  "encoding_1 = [
    (False, ''slli_rv32'', 0x1013, 0xfe00707f), (False, ''srli_rv32'', 0x5013, 0xfe00707f),
    (False, ''srai_rv32'', 0x40005013, 0xfe00707f), (False, ''frflags'', 0x102073, 0xfffff07f),
    (False, ''fsflags'', 0x101073, 0xfff0707f), (False, ''fsflagsi'', 0x105073, 0xfff0707f),
    (False, ''frrm'', 0x202073, 0xfffff07f), (False, ''fsrm'', 0x201073, 0xfff0707f), (False, ''fsrmi'', 0x205073, 0xfff0707f),
    (False, ''fscsr'', 0x301073, 0xfff0707f), (False, ''frcsr'', 0x302073, 0xfffff07f),
    (False, ''rdcycle'', 0xc0002073, 0xfffff07f), (False, ''rdtime'', 0xc0102073, 0xfffff07f),
    (False, ''rdinstret'', 0xc0202073, 0xfffff07f), (False, ''rdcycleh'', 0xc8002073, 0xfffff07f),
    (False, ''rdtimeh'', 0xc8102073, 0xfffff07f), (False, ''rdinstreth'', 0xc8202073, 0xfffff07f),
    (False, ''scall'', 0x73, 0xffffffff), (False, ''sbreak'', 0x100073, 0xffffffff),
    (False, ''fmv_x_s'', 0xe0000053, 0xfff0707f), (False, ''fmv_s_x'', 0xf0000053, 0xfff0707f),
    (False, ''fence_tso'', 0x8330000f, 0xfff0707f), (False, ''pause'', 0x100000f, 0xffffffff), (True, ''beq'', 0x63, 0x707f),
    (True, ''bne'', 0x1063, 0x707f), (True, ''blt'', 0x4063, 0x707f), (True, ''bge'', 0x5063, 0x707f),
    (True, ''bltu'', 0x6063, 0x707f), (True, ''bgeu'', 0x7063, 0x707f), (True, ''jalr'', 0x67, 0x707f),
    (True, ''jal'', 0x6f, 0x7f), (True, ''lui'', 0x37, 0x7f), (True, ''auipc'', 0x17, 0x7f), (True, ''addi'', 0x13, 0x707f),
    (True, ''slli'', 0x1013, 0xfc00707f), (True, ''slti'', 0x2013, 0x707f), (True, ''sltiu'', 0x3013, 0x707f),
    (True, ''xori'', 0x4013, 0x707f), (True, ''srli'', 0x5013, 0xfc00707f), (True, ''srai'', 0x40005013, 0xfc00707f),
    (True, ''ori'', 0x6013, 0x707f), (True, ''andi'', 0x7013, 0x707f), (True, ''add'', 0x33, 0xfe00707f),
    (True, ''sub'', 0x40000033, 0xfe00707f), (True, ''sll'', 0x1033, 0xfe00707f), (True, ''slt'', 0x2033, 0xfe00707f),
    (True, ''sltu'', 0x3033, 0xfe00707f), (True, ''xor'', 0x4033, 0xfe00707f), (True, ''srl'', 0x5033, 0xfe00707f),
    (True, ''sra'', 0x40005033, 0xfe00707f), (True, ''or'', 0x6033, 0xfe00707f), (True, ''and'', 0x7033, 0xfe00707f),
    (True, ''lb'', 0x3, 0x707f), (True, ''lh'', 0x1003, 0x707f), (True, ''lw'', 0x2003, 0x707f), (True, ''lbu'', 0x4003, 0x707f),
    (True, ''lhu'', 0x5003, 0x707f), (True, ''sb'', 0x23, 0x707f), (True, ''sh'', 0x1023, 0x707f),
    (True, ''sw'', 0x2023, 0x707f), (True, ''fence'', 0xf, 0x707f), (True, ''fence_i'', 0x100f, 0x707f),
    (True, ''addiw'', 0x1b, 0x707f), (True, ''slliw'', 0x101b, 0xfe00707f), (True, ''srliw'', 0x501b, 0xfe00707f),
    (True, ''sraiw'', 0x4000501b, 0xfe00707f), (True, ''addw'', 0x3b, 0xfe00707f), (True, ''subw'', 0x4000003b, 0xfe00707f),
    (True, ''sllw'', 0x103b, 0xfe00707f), (True, ''srlw'', 0x503b, 0xfe00707f), (True, ''sraw'', 0x4000503b, 0xfe00707f),
    (True, ''ld'', 0x3003, 0x707f), (True, ''lwu'', 0x6003, 0x707f), (True, ''sd'', 0x3023, 0x707f),
    (True, ''mul'', 0x2000033, 0xfe00707f)]"

definition encoding_2 :: "(bool \<times> string \<times> u64 \<times> u64) list" where
  "encoding_2 = [
    (True, ''mulh'', 0x2001033, 0xfe00707f), (True, ''mulhsu'', 0x2002033, 0xfe00707f), (True, ''mulhu'', 0x2003033, 0xfe00707f),
    (True, ''div'', 0x2004033, 0xfe00707f), (True, ''divu'', 0x2005033, 0xfe00707f), (True, ''rem'', 0x2006033, 0xfe00707f),
    (True, ''remu'', 0x2007033, 0xfe00707f), (True, ''mulw'', 0x200003b, 0xfe00707f), (True, ''divw'', 0x200403b, 0xfe00707f),
    (True, ''divuw'', 0x200503b, 0xfe00707f), (True, ''remw'', 0x200603b, 0xfe00707f), (True, ''remuw'', 0x200703b, 0xfe00707f),
    (True, ''amoadd_w'', 0x202f, 0xf800707f), (True, ''amoxor_w'', 0x2000202f, 0xf800707f),
    (True, ''amoor_w'', 0x4000202f, 0xf800707f), (True, ''amoand_w'', 0x6000202f, 0xf800707f),
    (True, ''amomin_w'', 0x8000202f, 0xf800707f), (True, ''amomax_w'', 0xa000202f, 0xf800707f),
    (True, ''amominu_w'', 0xc000202f, 0xf800707f), (True, ''amomaxu_w'', 0xe000202f, 0xf800707f),
    (True, ''amoswap_w'', 0x800202f, 0xf800707f), (True, ''lr_w'', 0x1000202f, 0xf9f0707f),
    (True, ''sc_w'', 0x1800202f, 0xf800707f), (True, ''amoadd_d'', 0x302f, 0xf800707f),
    (True, ''amoxor_d'', 0x2000302f, 0xf800707f), (True, ''amoor_d'', 0x4000302f, 0xf800707f),
    (True, ''amoand_d'', 0x6000302f, 0xf800707f), (True, ''amomin_d'', 0x8000302f, 0xf800707f),
    (True, ''amomax_d'', 0xa000302f, 0xf800707f), (True, ''amominu_d'', 0xc000302f, 0xf800707f),
    (True, ''amomaxu_d'', 0xe000302f, 0xf800707f), (True, ''amoswap_d'', 0x800302f, 0xf800707f),
    (True, ''lr_d'', 0x1000302f, 0xf9f0707f), (True, ''sc_d'', 0x1800302f, 0xf800707f),
    (True, ''hfence_vvma'', 0x22000073, 0xfe007fff), (True, ''hfence_gvma'', 0x62000073, 0xfe007fff),
    (True, ''hlv_b'', 0x60004073, 0xfff0707f), (True, ''hlv_bu'', 0x60104073, 0xfff0707f),
    (True, ''hlv_h'', 0x64004073, 0xfff0707f), (True, ''hlv_hu'', 0x64104073, 0xfff0707f),
    (True, ''hlvx_hu'', 0x64304073, 0xfff0707f), (True, ''hlv_w'', 0x68004073, 0xfff0707f),
    (True, ''hlvx_wu'', 0x68304073, 0xfff0707f), (True, ''hsv_b'', 0x62004073, 0xfe007fff),
    (True, ''hsv_h'', 0x66004073, 0xfe007fff), (True, ''hsv_w'', 0x6a004073, 0xfe007fff),
    (True, ''hlv_wu'', 0x68104073, 0xfff0707f), (True, ''hlv_d'', 0x6c004073, 0xfff0707f),
    (True, ''hsv_d'', 0x6e004073, 0xfe007fff), (True, ''fadd_s'', 0x53, 0xfe00007f), (True, ''fsub_s'', 0x8000053, 0xfe00007f),
    (True, ''fmul_s'', 0x10000053, 0xfe00007f), (True, ''fdiv_s'', 0x18000053, 0xfe00007f),
    (True, ''fsgnj_s'', 0x20000053, 0xfe00707f), (True, ''fsgnjn_s'', 0x20001053, 0xfe00707f),
    (True, ''fsgnjx_s'', 0x20002053, 0xfe00707f), (True, ''fmin_s'', 0x28000053, 0xfe00707f),
    (True, ''fmax_s'', 0x28001053, 0xfe00707f), (True, ''fsqrt_s'', 0x58000053, 0xfff0007f),
    (True, ''fle_s'', 0xa0000053, 0xfe00707f), (True, ''flt_s'', 0xa0001053, 0xfe00707f),
    (True, ''feq_s'', 0xa0002053, 0xfe00707f), (True, ''fcvt_w_s'', 0xc0000053, 0xfff0007f),
    (True, ''fcvt_wu_s'', 0xc0100053, 0xfff0007f), (True, ''fmv_x_w'', 0xe0000053, 0xfff0707f),
    (True, ''fclass_s'', 0xe0001053, 0xfff0707f), (True, ''fcvt_s_w'', 0xd0000053, 0xfff0007f),
    (True, ''fcvt_s_wu'', 0xd0100053, 0xfff0007f), (True, ''fmv_w_x'', 0xf0000053, 0xfff0707f), (True, ''flw'', 0x2007, 0x707f),
    (True, ''fsw'', 0x2027, 0x707f), (True, ''fmadd_s'', 0x43, 0x600007f), (True, ''fmsub_s'', 0x47, 0x600007f),
    (True, ''fnmsub_s'', 0x4b, 0x600007f), (True, ''fnmadd_s'', 0x4f, 0x600007f)]"

definition encoding_3 :: "(bool \<times> string \<times> u64 \<times> u64) list" where
  "encoding_3 = [
    (True, ''fcvt_l_s'', 0xc0200053, 0xfff0007f), (True, ''fcvt_lu_s'', 0xc0300053, 0xfff0007f),
    (True, ''fcvt_s_l'', 0xd0200053, 0xfff0007f), (True, ''fcvt_s_lu'', 0xd0300053, 0xfff0007f),
    (True, ''fadd_d'', 0x2000053, 0xfe00007f), (True, ''fsub_d'', 0xa000053, 0xfe00007f),
    (True, ''fmul_d'', 0x12000053, 0xfe00007f), (True, ''fdiv_d'', 0x1a000053, 0xfe00007f),
    (True, ''fsgnj_d'', 0x22000053, 0xfe00707f), (True, ''fsgnjn_d'', 0x22001053, 0xfe00707f),
    (True, ''fsgnjx_d'', 0x22002053, 0xfe00707f), (True, ''fmin_d'', 0x2a000053, 0xfe00707f),
    (True, ''fmax_d'', 0x2a001053, 0xfe00707f), (True, ''fcvt_s_d'', 0x40100053, 0xfff0007f),
    (True, ''fcvt_d_s'', 0x42000053, 0xfff0007f), (True, ''fsqrt_d'', 0x5a000053, 0xfff0007f),
    (True, ''fle_d'', 0xa2000053, 0xfe00707f), (True, ''flt_d'', 0xa2001053, 0xfe00707f),
    (True, ''feq_d'', 0xa2002053, 0xfe00707f), (True, ''fcvt_w_d'', 0xc2000053, 0xfff0007f),
    (True, ''fcvt_wu_d'', 0xc2100053, 0xfff0007f), (True, ''fclass_d'', 0xe2001053, 0xfff0707f),
    (True, ''fcvt_d_w'', 0xd2000053, 0xfff0007f), (True, ''fcvt_d_wu'', 0xd2100053, 0xfff0007f), (True, ''fld'', 0x3007, 0x707f),
    (True, ''fsd'', 0x3027, 0x707f), (True, ''fmadd_d'', 0x2000043, 0x600007f), (True, ''fmsub_d'', 0x2000047, 0x600007f),
    (True, ''fnmsub_d'', 0x200004b, 0x600007f), (True, ''fnmadd_d'', 0x200004f, 0x600007f),
    (True, ''fcvt_l_d'', 0xc2200053, 0xfff0007f), (True, ''fcvt_lu_d'', 0xc2300053, 0xfff0007f),
    (True, ''fmv_x_d'', 0xe2000053, 0xfff0707f), (True, ''fcvt_d_l'', 0xd2200053, 0xfff0007f),
    (True, ''fcvt_d_lu'', 0xd2300053, 0xfff0007f), (True, ''fmv_d_x'', 0xf2000053, 0xfff0707f),
    (True, ''fadd_q'', 0x6000053, 0xfe00007f), (True, ''fsub_q'', 0xe000053, 0xfe00007f),
    (True, ''fmul_q'', 0x16000053, 0xfe00007f), (True, ''fdiv_q'', 0x1e000053, 0xfe00007f),
    (True, ''fsgnj_q'', 0x26000053, 0xfe00707f), (True, ''fsgnjn_q'', 0x26001053, 0xfe00707f),
    (True, ''fsgnjx_q'', 0x26002053, 0xfe00707f), (True, ''fmin_q'', 0x2e000053, 0xfe00707f),
    (True, ''fmax_q'', 0x2e001053, 0xfe00707f), (True, ''fcvt_s_q'', 0x40300053, 0xfff0007f),
    (True, ''fcvt_q_s'', 0x46000053, 0xfff0007f), (True, ''fcvt_d_q'', 0x42300053, 0xfff0007f),
    (True, ''fcvt_q_d'', 0x46100053, 0xfff0007f), (True, ''fsqrt_q'', 0x5e000053, 0xfff0007f),
    (True, ''fle_q'', 0xa6000053, 0xfe00707f), (True, ''flt_q'', 0xa6001053, 0xfe00707f),
    (True, ''feq_q'', 0xa6002053, 0xfe00707f), (True, ''fcvt_w_q'', 0xc6000053, 0xfff0007f),
    (True, ''fcvt_wu_q'', 0xc6100053, 0xfff0007f), (True, ''fclass_q'', 0xe6001053, 0xfff0707f),
    (True, ''fcvt_q_w'', 0xd6000053, 0xfff0007f), (True, ''fcvt_q_wu'', 0xd6100053, 0xfff0007f), (True, ''flq'', 0x4007, 0x707f),
    (True, ''fsq'', 0x4027, 0x707f), (True, ''fmadd_q'', 0x6000043, 0x600007f), (True, ''fmsub_q'', 0x6000047, 0x600007f),
    (True, ''fnmsub_q'', 0x600004b, 0x600007f), (True, ''fnmadd_q'', 0x600004f, 0x600007f),
    (True, ''fcvt_l_q'', 0xc6200053, 0xfff0007f), (True, ''fcvt_lu_q'', 0xc6300053, 0xfff0007f),
    (True, ''fcvt_q_l'', 0xd6200053, 0xfff0007f), (True, ''fcvt_q_lu'', 0xd6300053, 0xfff0007f),
    (False, ''fmv_x_q'', 0xe6000053, 0xfff0707f), (False, ''fmv_q_x'', 0xf6000053, 0xfff0707f),
    (True, ''fadd_h'', 0x4000053, 0xfe00007f), (True, ''fsub_h'', 0xc000053, 0xfe00007f),
    (True, ''fmul_h'', 0x14000053, 0xfe00007f), (True, ''fdiv_h'', 0x1c000053, 0xfe00007f),
    (True, ''fsgnj_h'', 0x24000053, 0xfe00707f)]"

definition encoding_4 :: "(bool \<times> string \<times> u64 \<times> u64) list" where
  "encoding_4 = [
    (True, ''fsgnjn_h'', 0x24001053, 0xfe00707f), (True, ''fsgnjx_h'', 0x24002053, 0xfe00707f),
    (True, ''fmin_h'', 0x2c000053, 0xfe00707f), (True, ''fmax_h'', 0x2c001053, 0xfe00707f),
    (True, ''fcvt_h_s'', 0x44000053, 0xfff0007f), (True, ''fcvt_s_h'', 0x40200053, 0xfff0007f),
    (True, ''fsqrt_h'', 0x5c000053, 0xfff0007f), (True, ''fle_h'', 0xa4000053, 0xfe00707f),
    (True, ''flt_h'', 0xa4001053, 0xfe00707f), (True, ''feq_h'', 0xa4002053, 0xfe00707f),
    (True, ''fcvt_w_h'', 0xc4000053, 0xfff0007f), (True, ''fcvt_wu_h'', 0xc4100053, 0xfff0007f),
    (True, ''fmv_x_h'', 0xe4000053, 0xfff0707f), (True, ''fclass_h'', 0xe4001053, 0xfff0707f),
    (True, ''fcvt_h_w'', 0xd4000053, 0xfff0007f), (True, ''fcvt_h_wu'', 0xd4100053, 0xfff0007f),
    (True, ''fmv_h_x'', 0xf4000053, 0xfff0707f), (True, ''flh'', 0x1007, 0x707f), (True, ''fsh'', 0x1027, 0x707f),
    (True, ''fmadd_h'', 0x4000043, 0x600007f), (True, ''fmsub_h'', 0x4000047, 0x600007f),
    (True, ''fnmsub_h'', 0x400004b, 0x600007f), (True, ''fnmadd_h'', 0x400004f, 0x600007f),
    (True, ''fcvt_h_d'', 0x44100053, 0xfff0007f), (True, ''fcvt_d_h'', 0x42200053, 0xfff0007f),
    (True, ''fcvt_h_q'', 0x44300053, 0xfff0007f), (True, ''fcvt_q_h'', 0x46200053, 0xfff0007f),
    (True, ''fcvt_l_h'', 0xc4200053, 0xfff0007f), (True, ''fcvt_lu_h'', 0xc4300053, 0xfff0007f),
    (True, ''fcvt_h_l'', 0xd4200053, 0xfff0007f), (True, ''fcvt_h_lu'', 0xd4300053, 0xfff0007f),
    (True, ''ecall'', 0x73, 0xffffffff), (True, ''ebreak'', 0x100073, 0xffffffff), (False, ''uret'', 0x200073, 0xffffffff),
    (True, ''sret'', 0x10200073, 0xffffffff), (True, ''mret'', 0x30200073, 0xffffffff), (True, ''dret'', 0x7b200073, 0xffffffff),
    (True, ''sfence_vma'', 0x12000073, 0xfe007fff), (True, ''wfi'', 0x10500073, 0xffffffff), (True, ''csrrw'', 0x1073, 0x707f),
    (True, ''csrrs'', 0x2073, 0x707f), (True, ''csrrc'', 0x3073, 0x707f), (True, ''csrrwi'', 0x5073, 0x707f),
    (True, ''csrrsi'', 0x6073, 0x707f), (True, ''csrrci'', 0x7073, 0x707f), (False, ''c_nop'', 0x1, 0xffff),
    (False, ''c_addi16sp'', 0x6101, 0xef83), (True, ''c_jr'', 0x8002, 0xf07f), (True, ''c_jalr'', 0x9002, 0xf07f),
    (True, ''c_ebreak'', 0x9002, 0xffff), (True, ''c_addi4spn'', 0x0, 0xe003), (True, ''c_fld'', 0x2000, 0xe003),
    (True, ''c_lw'', 0x4000, 0xe003), (True, ''c_flw'', 0x6000, 0xe003), (True, ''c_fsd'', 0xa000, 0xe003),
    (True, ''c_sw'', 0xc000, 0xe003), (True, ''c_fsw'', 0xe000, 0xe003), (True, ''c_addi'', 0x1, 0xe003),
    (True, ''c_jal'', 0x2001, 0xe003), (True, ''c_li'', 0x4001, 0xe003), (True, ''c_lui'', 0x6001, 0xe003),
    (True, ''c_srli'', 0x8001, 0xec03), (True, ''c_srai'', 0x8401, 0xec03), (True, ''c_andi'', 0x8801, 0xec03),
    (True, ''c_sub'', 0x8c01, 0xfc63), (True, ''c_xor'', 0x8c21, 0xfc63), (True, ''c_or'', 0x8c41, 0xfc63),
    (True, ''c_and'', 0x8c61, 0xfc63), (True, ''c_j'', 0xa001, 0xe003), (True, ''c_beqz'', 0xc001, 0xe003),
    (True, ''c_bnez'', 0xe001, 0xe003), (True, ''c_slli'', 0x2, 0xe003), (True, ''c_fldsp'', 0x2002, 0xe003),
    (True, ''c_lwsp'', 0x4002, 0xe003), (True, ''c_flwsp'', 0x6002, 0xe003)]"

definition encoding_5 :: "(bool \<times> string \<times> u64 \<times> u64) list" where
  "encoding_5 = [
    (True, ''c_mv'', 0x8002, 0xf003), (True, ''c_add'', 0x9002, 0xf003), (True, ''c_fsdsp'', 0xa002, 0xe003),
    (True, ''c_swsp'', 0xc002, 0xe003), (True, ''c_fswsp'', 0xe002, 0xe003), (False, ''c_srli_rv32'', 0x8001, 0xfc03),
    (False, ''c_srai_rv32'', 0x8401, 0xfc03), (False, ''c_slli_rv32'', 0x2, 0xf003), (False, ''c_ld'', 0x6000, 0xe003),
    (False, ''c_sd'', 0xe000, 0xe003), (True, ''c_subw'', 0x9c01, 0xfc63), (True, ''c_addw'', 0x9c21, 0xfc63),
    (False, ''c_addiw'', 0x2001, 0xe003), (False, ''c_ldsp'', 0x6002, 0xe003), (False, ''c_sdsp'', 0xe002, 0xe003),
    (False, ''c_lq'', 0x2000, 0xe003), (False, ''c_sq'', 0xa000, 0xe003), (False, ''c_lqsp'', 0x2002, 0xe003),
    (False, ''c_sqsp'', 0xa002, 0xe003), (False, ''custom0'', 0xb, 0x707f), (False, ''custom0_rs1'', 0x200b, 0x707f),
    (False, ''custom0_rs1_rs2'', 0x300b, 0x707f), (False, ''custom0_rd'', 0x400b, 0x707f),
    (False, ''custom0_rd_rs1'', 0x600b, 0x707f), (False, ''custom0_rd_rs1_rs2'', 0x700b, 0x707f),
    (False, ''custom1'', 0x2b, 0x707f), (False, ''custom1_rs1'', 0x202b, 0x707f), (False, ''custom1_rs1_rs2'', 0x302b, 0x707f),
    (False, ''custom1_rd'', 0x402b, 0x707f), (False, ''custom1_rd_rs1'', 0x602b, 0x707f),
    (False, ''custom1_rd_rs1_rs2'', 0x702b, 0x707f), (False, ''custom2'', 0x5b, 0x707f),
    (False, ''custom2_rs1'', 0x205b, 0x707f), (False, ''custom2_rs1_rs2'', 0x305b, 0x707f),
    (False, ''custom2_rd'', 0x405b, 0x707f), (False, ''custom2_rd_rs1'', 0x605b, 0x707f),
    (False, ''custom2_rd_rs1_rs2'', 0x705b, 0x707f), (False, ''custom3'', 0x7b, 0x707f),
    (False, ''custom3_rs1'', 0x207b, 0x707f), (False, ''custom3_rs1_rs2'', 0x307b, 0x707f),
    (False, ''custom3_rd'', 0x407b, 0x707f), (False, ''custom3_rd_rs1'', 0x607b, 0x707f),
    (False, ''custom3_rd_rs1_rs2'', 0x707b, 0x707f), (True, ''vsetvli'', 0x7057, 0x8000707f),
    (True, ''vsetvl'', 0x80007057, 0xfe00707f), (True, ''vle8_v'', 0x7, 0x1df0707f), (True, ''vle16_v'', 0x5007, 0x1df0707f),
    (True, ''vle32_v'', 0x6007, 0x1df0707f), (True, ''vle64_v'', 0x7007, 0x1df0707f),
    (False, ''vle128_v'', 0x10000007, 0x1df0707f), (False, ''vle256_v'', 0x10005007, 0x1df0707f),
    (False, ''vle512_v'', 0x10006007, 0x1df0707f), (False, ''vle1024_v'', 0x10007007, 0x1df0707f),
    (True, ''vse8_v'', 0x27, 0x1df0707f), (True, ''vse16_v'', 0x5027, 0x1df0707f), (True, ''vse32_v'', 0x6027, 0x1df0707f),
    (True, ''vse64_v'', 0x7027, 0x1df0707f), (False, ''vse128_v'', 0x10000027, 0x1df0707f),
    (False, ''vse256_v'', 0x10005027, 0x1df0707f), (False, ''vse512_v'', 0x10006027, 0x1df0707f),
    (False, ''vse1024_v'', 0x10007027, 0x1df0707f), (True, ''vlse8_v'', 0x8000007, 0x1c00707f),
    (True, ''vlse16_v'', 0x8005007, 0x1c00707f), (True, ''vlse32_v'', 0x8006007, 0x1c00707f),
    (True, ''vlse64_v'', 0x8007007, 0x1c00707f), (False, ''vlse128_v'', 0x18000007, 0x1c00707f),
    (False, ''vlse256_v'', 0x18005007, 0x1c00707f), (False, ''vlse512_v'', 0x18006007, 0x1c00707f),
    (False, ''vlse1024_v'', 0x18007007, 0x1c00707f), (True, ''vsse8_v'', 0x8000027, 0x1c00707f),
    (True, ''vsse16_v'', 0x8005027, 0x1c00707f), (True, ''vsse32_v'', 0x8006027, 0x1c00707f),
    (True, ''vsse64_v'', 0x8007027, 0x1c00707f), (False, ''vsse128_v'', 0x18000027, 0x1c00707f),
    (False, ''vsse256_v'', 0x18005027, 0x1c00707f)]"

definition encoding_6 :: "(bool \<times> string \<times> u64 \<times> u64) list" where
  "encoding_6 = [
    (False, ''vsse512_v'', 0x18006027, 0x1c00707f), (False, ''vsse1024_v'', 0x18007027, 0x1c00707f),
    (True, ''vlxei8_v'', 0xc000007, 0x1c00707f), (True, ''vlxei16_v'', 0xc005007, 0x1c00707f),
    (True, ''vlxei32_v'', 0xc006007, 0x1c00707f), (True, ''vlxei64_v'', 0xc007007, 0x1c00707f),
    (False, ''vlxei128_v'', 0x1c000007, 0x1c00707f), (False, ''vlxei256_v'', 0x1c005007, 0x1c00707f),
    (False, ''vlxei512_v'', 0x1c006007, 0x1c00707f), (False, ''vlxei1024_v'', 0x1c007007, 0x1c00707f),
    (True, ''vsxei8_v'', 0xc000027, 0x1c00707f), (True, ''vsxei16_v'', 0xc005027, 0x1c00707f),
    (True, ''vsxei32_v'', 0xc006027, 0x1c00707f), (True, ''vsxei64_v'', 0xc007027, 0x1c00707f),
    (False, ''vsxei128_v'', 0x1c000027, 0x1c00707f), (False, ''vsxei256_v'', 0x1c005027, 0x1c00707f),
    (False, ''vsxei512_v'', 0x1c006027, 0x1c00707f), (False, ''vsxei1024_v'', 0x1c007027, 0x1c00707f),
    (True, ''vsuxei8_v'', 0x4000027, 0x1c00707f), (True, ''vsuxei16_v'', 0x4005027, 0x1c00707f),
    (True, ''vsuxei32_v'', 0x4006027, 0x1c00707f), (True, ''vsuxei64_v'', 0x4007027, 0x1c00707f),
    (False, ''vsuxei128_v'', 0x14000027, 0x1c00707f), (False, ''vsuxei256_v'', 0x14005027, 0x1c00707f),
    (False, ''vsuxei512_v'', 0x14006027, 0x1c00707f), (False, ''vsuxei1024_v'', 0x14007027, 0x1c00707f),
    (True, ''vle8ff_v'', 0x1000007, 0x1df0707f), (True, ''vle16ff_v'', 0x1005007, 0x1df0707f),
    (True, ''vle32ff_v'', 0x1006007, 0x1df0707f), (True, ''vle64ff_v'', 0x1007007, 0x1df0707f),
    (False, ''vle128ff_v'', 0x11000007, 0x1df0707f), (False, ''vle256ff_v'', 0x11005007, 0x1df0707f),
    (False, ''vle512ff_v'', 0x11006007, 0x1df0707f), (False, ''vle1024ff_v'', 0x11007007, 0x1df0707f),
    (True, ''vl1re8_v'', 0x2800007, 0xfff0707f), (True, ''vl1re16_v'', 0x2805007, 0xfff0707f),
    (True, ''vl1re32_v'', 0x2806007, 0xfff0707f), (True, ''vl1re64_v'', 0x2807007, 0xfff0707f),
    (True, ''vl2re8_v'', 0x22800007, 0xfff0707f), (True, ''vl2re16_v'', 0x22805007, 0xfff0707f),
    (True, ''vl2re32_v'', 0x22806007, 0xfff0707f), (True, ''vl2re64_v'', 0x22807007, 0xfff0707f),
    (True, ''vl4re8_v'', 0x62800007, 0xfff0707f), (True, ''vl4re16_v'', 0x62805007, 0xfff0707f),
    (True, ''vl4re32_v'', 0x62806007, 0xfff0707f), (True, ''vl4re64_v'', 0x62807007, 0xfff0707f),
    (True, ''vl8re8_v'', 0xe2800007, 0xfff0707f), (True, ''vl8re16_v'', 0xe2805007, 0xfff0707f),
    (True, ''vl8re32_v'', 0xe2806007, 0xfff0707f), (True, ''vl8re64_v'', 0xe2807007, 0xfff0707f),
    (True, ''vs1r_v'', 0x2800027, 0xfff0707f), (True, ''vs2r_v'', 0x22800027, 0xfff0707f),
    (True, ''vs4r_v'', 0x62800027, 0xfff0707f), (True, ''vs8r_v'', 0xe2800027, 0xfff0707f),
    (True, ''vfadd_vf'', 0x5057, 0xfc00707f), (True, ''vfsub_vf'', 0x8005057, 0xfc00707f),
    (True, ''vfmin_vf'', 0x10005057, 0xfc00707f), (True, ''vfmax_vf'', 0x18005057, 0xfc00707f),
    (True, ''vfsgnj_vf'', 0x20005057, 0xfc00707f), (True, ''vfsgnjn_vf'', 0x24005057, 0xfc00707f),
    (True, ''vfsgnjx_vf'', 0x28005057, 0xfc00707f), (True, ''vfslide1up_vf'', 0x38005057, 0xfc00707f),
    (True, ''vfslide1down_vf'', 0x3c005057, 0xfc00707f), (True, ''vfmv_s_f'', 0x42005057, 0xfff0707f),
    (True, ''vfmerge_vfm'', 0x5c005057, 0xfe00707f), (True, ''vfmv_v_f'', 0x5e005057, 0xfff0707f),
    (True, ''vmfeq_vf'', 0x60005057, 0xfc00707f), (True, ''vmfle_vf'', 0x64005057, 0xfc00707f),
    (True, ''vmflt_vf'', 0x6c005057, 0xfc00707f), (True, ''vmfne_vf'', 0x70005057, 0xfc00707f),
    (True, ''vmfgt_vf'', 0x74005057, 0xfc00707f), (True, ''vmfge_vf'', 0x7c005057, 0xfc00707f),
    (True, ''vfdiv_vf'', 0x80005057, 0xfc00707f), (True, ''vfrdiv_vf'', 0x84005057, 0xfc00707f),
    (True, ''vfmul_vf'', 0x90005057, 0xfc00707f)]"

definition encoding_7 :: "(bool \<times> string \<times> u64 \<times> u64) list" where
  "encoding_7 = [
    (True, ''vfrsub_vf'', 0x9c005057, 0xfc00707f), (True, ''vfmadd_vf'', 0xa0005057, 0xfc00707f),
    (True, ''vfnmadd_vf'', 0xa4005057, 0xfc00707f), (True, ''vfmsub_vf'', 0xa8005057, 0xfc00707f),
    (True, ''vfnmsub_vf'', 0xac005057, 0xfc00707f), (True, ''vfmacc_vf'', 0xb0005057, 0xfc00707f),
    (True, ''vfnmacc_vf'', 0xb4005057, 0xfc00707f), (True, ''vfmsac_vf'', 0xb8005057, 0xfc00707f),
    (True, ''vfnmsac_vf'', 0xbc005057, 0xfc00707f), (True, ''vfwadd_vf'', 0xc0005057, 0xfc00707f),
    (True, ''vfwsub_vf'', 0xc8005057, 0xfc00707f), (True, ''vfwadd_wf'', 0xd0005057, 0xfc00707f),
    (True, ''vfwsub_wf'', 0xd8005057, 0xfc00707f), (True, ''vfwmul_vf'', 0xe0005057, 0xfc00707f),
    (True, ''vfwmacc_vf'', 0xf0005057, 0xfc00707f), (True, ''vfwnmacc_vf'', 0xf4005057, 0xfc00707f),
    (True, ''vfwmsac_vf'', 0xf8005057, 0xfc00707f), (True, ''vfwnmsac_vf'', 0xfc005057, 0xfc00707f),
    (True, ''vfadd_vv'', 0x1057, 0xfc00707f), (True, ''vfredsum_vs'', 0x4001057, 0xfc00707f),
    (True, ''vfsub_vv'', 0x8001057, 0xfc00707f), (True, ''vfredosum_vs'', 0xc001057, 0xfc00707f),
    (True, ''vfmin_vv'', 0x10001057, 0xfc00707f), (True, ''vfredmin_vs'', 0x14001057, 0xfc00707f),
    (True, ''vfmax_vv'', 0x18001057, 0xfc00707f), (True, ''vfredmax_vs'', 0x1c001057, 0xfc00707f),
    (True, ''vfsgnj_vv'', 0x20001057, 0xfc00707f), (True, ''vfsgnjn_vv'', 0x24001057, 0xfc00707f),
    (True, ''vfsgnjx_vv'', 0x28001057, 0xfc00707f), (True, ''vfmv_f_s'', 0x42001057, 0xfe0ff07f),
    (True, ''vmfeq_vv'', 0x60001057, 0xfc00707f), (True, ''vmfle_vv'', 0x64001057, 0xfc00707f),
    (True, ''vmflt_vv'', 0x6c001057, 0xfc00707f), (True, ''vmfne_vv'', 0x70001057, 0xfc00707f),
    (True, ''vfdiv_vv'', 0x80001057, 0xfc00707f), (True, ''vfmul_vv'', 0x90001057, 0xfc00707f),
    (True, ''vfmadd_vv'', 0xa0001057, 0xfc00707f), (True, ''vfnmadd_vv'', 0xa4001057, 0xfc00707f),
    (True, ''vfmsub_vv'', 0xa8001057, 0xfc00707f), (True, ''vfnmsub_vv'', 0xac001057, 0xfc00707f),
    (True, ''vfmacc_vv'', 0xb0001057, 0xfc00707f), (True, ''vfnmacc_vv'', 0xb4001057, 0xfc00707f),
    (True, ''vfmsac_vv'', 0xb8001057, 0xfc00707f), (True, ''vfnmsac_vv'', 0xbc001057, 0xfc00707f),
    (True, ''vfcvt_xu_f_v'', 0x48001057, 0xfc0ff07f), (True, ''vfcvt_x_f_v'', 0x48009057, 0xfc0ff07f),
    (True, ''vfcvt_f_xu_v'', 0x48011057, 0xfc0ff07f), (True, ''vfcvt_f_x_v'', 0x48019057, 0xfc0ff07f),
    (True, ''vfcvt_rtz_xu_f_v'', 0x48031057, 0xfc0ff07f), (True, ''vfcvt_rtz_x_f_v'', 0x48039057, 0xfc0ff07f),
    (True, ''vfwcvt_xu_f_v'', 0x48041057, 0xfc0ff07f), (True, ''vfwcvt_x_f_v'', 0x48049057, 0xfc0ff07f),
    (True, ''vfwcvt_f_xu_v'', 0x48051057, 0xfc0ff07f), (True, ''vfwcvt_f_x_v'', 0x48059057, 0xfc0ff07f),
    (True, ''vfwcvt_f_f_v'', 0x48061057, 0xfc0ff07f), (True, ''vfwcvt_rtz_xu_f_v'', 0x48071057, 0xfc0ff07f),
    (True, ''vfwcvt_rtz_x_f_v'', 0x48079057, 0xfc0ff07f), (True, ''vfncvt_xu_f_w'', 0x48081057, 0xfc0ff07f),
    (True, ''vfncvt_x_f_w'', 0x48089057, 0xfc0ff07f), (True, ''vfncvt_f_xu_w'', 0x48091057, 0xfc0ff07f),
    (True, ''vfncvt_f_x_w'', 0x48099057, 0xfc0ff07f), (True, ''vfncvt_f_f_w'', 0x480a1057, 0xfc0ff07f),
    (True, ''vfncvt_rod_f_f_w'', 0x480a9057, 0xfc0ff07f), (True, ''vfncvt_rtz_xu_f_w'', 0x480b1057, 0xfc0ff07f),
    (True, ''vfncvt_rtz_x_f_w'', 0x480b9057, 0xfc0ff07f), (True, ''vfsqrt_v'', 0x4c001057, 0xfc0ff07f),
    (True, ''vfrsqrte7_v'', 0x4c021057, 0xfc0ff07f), (True, ''vfrece7_v'', 0x4c029057, 0xfc0ff07f),
    (True, ''vfclass_v'', 0x4c081057, 0xfc0ff07f), (True, ''vfwadd_vv'', 0xc0001057, 0xfc00707f),
    (True, ''vfwredsum_vs'', 0xc4001057, 0xfc00707f), (True, ''vfwsub_vv'', 0xc8001057, 0xfc00707f),
    (True, ''vfwredosum_vs'', 0xcc001057, 0xfc00707f), (True, ''vfwadd_wv'', 0xd0001057, 0xfc00707f),
    (True, ''vfwsub_wv'', 0xd8001057, 0xfc00707f)]"

definition encoding_8 :: "(bool \<times> string \<times> u64 \<times> u64) list" where
  "encoding_8 = [
    (True, ''vfwmul_vv'', 0xe0001057, 0xfc00707f), (True, ''vfdot_vv'', 0xe4001057, 0xfc00707f),
    (True, ''vfwmacc_vv'', 0xf0001057, 0xfc00707f), (True, ''vfwnmacc_vv'', 0xf4001057, 0xfc00707f),
    (True, ''vfwmsac_vv'', 0xf8001057, 0xfc00707f), (True, ''vfwnmsac_vv'', 0xfc001057, 0xfc00707f),
    (True, ''vadd_vx'', 0x4057, 0xfc00707f), (True, ''vsub_vx'', 0x8004057, 0xfc00707f),
    (True, ''vrsub_vx'', 0xc004057, 0xfc00707f), (True, ''vminu_vx'', 0x10004057, 0xfc00707f),
    (True, ''vmin_vx'', 0x14004057, 0xfc00707f), (True, ''vmaxu_vx'', 0x18004057, 0xfc00707f),
    (True, ''vmax_vx'', 0x1c004057, 0xfc00707f), (True, ''vand_vx'', 0x24004057, 0xfc00707f),
    (True, ''vor_vx'', 0x28004057, 0xfc00707f), (True, ''vxor_vx'', 0x2c004057, 0xfc00707f),
    (True, ''vrgather_vx'', 0x30004057, 0xfc00707f), (True, ''vslideup_vx'', 0x38004057, 0xfc00707f),
    (True, ''vslidedown_vx'', 0x3c004057, 0xfc00707f), (True, ''vadc_vxm'', 0x40004057, 0xfe00707f),
    (True, ''vmadc_vxm'', 0x44004057, 0xfc00707f), (True, ''vsbc_vxm'', 0x48004057, 0xfe00707f),
    (True, ''vmsbc_vxm'', 0x4c004057, 0xfc00707f), (True, ''vmerge_vxm'', 0x5c004057, 0xfe00707f),
    (True, ''vmv_v_x'', 0x5e004057, 0xfff0707f), (True, ''vmseq_vx'', 0x60004057, 0xfc00707f),
    (True, ''vmsne_vx'', 0x64004057, 0xfc00707f), (True, ''vmsltu_vx'', 0x68004057, 0xfc00707f),
    (True, ''vmslt_vx'', 0x6c004057, 0xfc00707f), (True, ''vmsleu_vx'', 0x70004057, 0xfc00707f),
    (True, ''vmsle_vx'', 0x74004057, 0xfc00707f), (True, ''vmsgtu_vx'', 0x78004057, 0xfc00707f),
    (True, ''vmsgt_vx'', 0x7c004057, 0xfc00707f), (True, ''vsaddu_vx'', 0x80004057, 0xfc00707f),
    (True, ''vsadd_vx'', 0x84004057, 0xfc00707f), (True, ''vssubu_vx'', 0x88004057, 0xfc00707f),
    (True, ''vssub_vx'', 0x8c004057, 0xfc00707f), (True, ''vsll_vx'', 0x94004057, 0xfc00707f),
    (True, ''vsmul_vx'', 0x9c004057, 0xfc00707f), (True, ''vsrl_vx'', 0xa0004057, 0xfc00707f),
    (True, ''vsra_vx'', 0xa4004057, 0xfc00707f), (True, ''vssrl_vx'', 0xa8004057, 0xfc00707f),
    (True, ''vssra_vx'', 0xac004057, 0xfc00707f), (True, ''vnsrl_wx'', 0xb0004057, 0xfc00707f),
    (True, ''vnsra_wx'', 0xb4004057, 0xfc00707f), (True, ''vnclipu_wx'', 0xb8004057, 0xfc00707f),
    (True, ''vnclip_wx'', 0xbc004057, 0xfc00707f), (True, ''vadd_vv'', 0x57, 0xfc00707f),
    (True, ''vsub_vv'', 0x8000057, 0xfc00707f), (True, ''vminu_vv'', 0x10000057, 0xfc00707f),
    (True, ''vmin_vv'', 0x14000057, 0xfc00707f), (True, ''vmaxu_vv'', 0x18000057, 0xfc00707f),
    (True, ''vmax_vv'', 0x1c000057, 0xfc00707f), (True, ''vand_vv'', 0x24000057, 0xfc00707f),
    (True, ''vor_vv'', 0x28000057, 0xfc00707f), (True, ''vxor_vv'', 0x2c000057, 0xfc00707f),
    (True, ''vrgather_vv'', 0x30000057, 0xfc00707f), (True, ''vrgatherei16_vv'', 0x38000057, 0xfc00707f),
    (True, ''vadc_vvm'', 0x40000057, 0xfe00707f), (True, ''vmadc_vvm'', 0x44000057, 0xfc00707f),
    (True, ''vsbc_vvm'', 0x48000057, 0xfe00707f), (True, ''vmsbc_vvm'', 0x4c000057, 0xfc00707f),
    (True, ''vmerge_vvm'', 0x5c000057, 0xfe00707f), (True, ''vmv_v_v'', 0x5e000057, 0xfff0707f),
    (True, ''vmseq_vv'', 0x60000057, 0xfc00707f), (True, ''vmsne_vv'', 0x64000057, 0xfc00707f),
    (True, ''vmsltu_vv'', 0x68000057, 0xfc00707f), (True, ''vmslt_vv'', 0x6c000057, 0xfc00707f),
    (True, ''vmsleu_vv'', 0x70000057, 0xfc00707f), (True, ''vmsle_vv'', 0x74000057, 0xfc00707f),
    (True, ''vsaddu_vv'', 0x80000057, 0xfc00707f), (True, ''vsadd_vv'', 0x84000057, 0xfc00707f),
    (True, ''vssubu_vv'', 0x88000057, 0xfc00707f), (True, ''vssub_vv'', 0x8c000057, 0xfc00707f),
    (True, ''vsll_vv'', 0x94000057, 0xfc00707f)]"

definition encoding_9 :: "(bool \<times> string \<times> u64 \<times> u64) list" where
  "encoding_9 = [
    (True, ''vsmul_vv'', 0x9c000057, 0xfc00707f), (True, ''vsrl_vv'', 0xa0000057, 0xfc00707f),
    (True, ''vsra_vv'', 0xa4000057, 0xfc00707f), (True, ''vssrl_vv'', 0xa8000057, 0xfc00707f),
    (True, ''vssra_vv'', 0xac000057, 0xfc00707f), (True, ''vnsrl_wv'', 0xb0000057, 0xfc00707f),
    (True, ''vnsra_wv'', 0xb4000057, 0xfc00707f), (True, ''vnclipu_wv'', 0xb8000057, 0xfc00707f),
    (True, ''vnclip_wv'', 0xbc000057, 0xfc00707f), (True, ''vwredsumu_vs'', 0xc0000057, 0xfc00707f),
    (True, ''vwredsum_vs'', 0xc4000057, 0xfc00707f), (True, ''vdotu_vv'', 0xe0000057, 0xfc00707f),
    (True, ''vdot_vv'', 0xe4000057, 0xfc00707f), (False, ''vqmaccu_vv'', 0xf0000057, 0xfc00707f),
    (False, ''vqmacc_vv'', 0xf4000057, 0xfc00707f), (False, ''vqmaccsu_vv'', 0xfc000057, 0xfc00707f),
    (True, ''vadd_vi'', 0x3057, 0xfc00707f), (True, ''vrsub_vi'', 0xc003057, 0xfc00707f),
    (True, ''vand_vi'', 0x24003057, 0xfc00707f), (True, ''vor_vi'', 0x28003057, 0xfc00707f),
    (True, ''vxor_vi'', 0x2c003057, 0xfc00707f), (True, ''vrgather_vi'', 0x30003057, 0xfc00707f),
    (True, ''vslideup_vi'', 0x38003057, 0xfc00707f), (True, ''vslidedown_vi'', 0x3c003057, 0xfc00707f),
    (True, ''vadc_vim'', 0x40003057, 0xfe00707f), (True, ''vmadc_vim'', 0x44003057, 0xfc00707f),
    (True, ''vmerge_vim'', 0x5c003057, 0xfe00707f), (True, ''vmv_v_i'', 0x5e003057, 0xfff0707f),
    (True, ''vmseq_vi'', 0x60003057, 0xfc00707f), (True, ''vmsne_vi'', 0x64003057, 0xfc00707f),
    (True, ''vmsleu_vi'', 0x70003057, 0xfc00707f), (True, ''vmsle_vi'', 0x74003057, 0xfc00707f),
    (True, ''vmsgtu_vi'', 0x78003057, 0xfc00707f), (True, ''vmsgt_vi'', 0x7c003057, 0xfc00707f),
    (True, ''vsaddu_vi'', 0x80003057, 0xfc00707f), (True, ''vsadd_vi'', 0x84003057, 0xfc00707f),
    (True, ''vsll_vi'', 0x94003057, 0xfc00707f), (True, ''vmv1r_v'', 0x9e003057, 0xfe0ff07f),
    (True, ''vmv2r_v'', 0x9e00b057, 0xfe0ff07f), (True, ''vmv4r_v'', 0x9e01b057, 0xfe0ff07f),
    (True, ''vmv8r_v'', 0x9e03b057, 0xfe0ff07f), (True, ''vsrl_vi'', 0xa0003057, 0xfc00707f),
    (True, ''vsra_vi'', 0xa4003057, 0xfc00707f), (True, ''vssrl_vi'', 0xa8003057, 0xfc00707f),
    (True, ''vssra_vi'', 0xac003057, 0xfc00707f), (True, ''vnsrl_wi'', 0xb0003057, 0xfc00707f),
    (True, ''vnsra_wi'', 0xb4003057, 0xfc00707f), (True, ''vnclipu_wi'', 0xb8003057, 0xfc00707f),
    (True, ''vnclip_wi'', 0xbc003057, 0xfc00707f), (True, ''vredsum_vs'', 0x2057, 0xfc00707f),
    (True, ''vredand_vs'', 0x4002057, 0xfc00707f), (True, ''vredor_vs'', 0x8002057, 0xfc00707f),
    (True, ''vredxor_vs'', 0xc002057, 0xfc00707f), (True, ''vredminu_vs'', 0x10002057, 0xfc00707f),
    (True, ''vredmin_vs'', 0x14002057, 0xfc00707f), (True, ''vredmaxu_vs'', 0x18002057, 0xfc00707f),
    (True, ''vredmax_vs'', 0x1c002057, 0xfc00707f), (True, ''vaaddu_vv'', 0x20002057, 0xfc00707f),
    (True, ''vaadd_vv'', 0x24002057, 0xfc00707f), (True, ''vasubu_vv'', 0x28002057, 0xfc00707f),
    (True, ''vasub_vv'', 0x2c002057, 0xfc00707f), (True, ''vmv_x_s'', 0x42002057, 0xfe0ff07f),
    (True, ''vzext_vf8'', 0x48012057, 0xfc0ff07f), (True, ''vsext_vf8'', 0x4801a057, 0xfc0ff07f),
    (True, ''vzext_vf4'', 0x48022057, 0xfc0ff07f), (True, ''vsext_vf4'', 0x4802a057, 0xfc0ff07f),
    (True, ''vzext_vf2'', 0x48032057, 0xfc0ff07f), (True, ''vsext_vf2'', 0x4803a057, 0xfc0ff07f),
    (True, ''vcompress_vm'', 0x5e002057, 0xfe00707f), (True, ''vmandnot_mm'', 0x60002057, 0xfc00707f),
    (True, ''vmand_mm'', 0x64002057, 0xfc00707f), (True, ''vmor_mm'', 0x68002057, 0xfc00707f),
    (True, ''vmxor_mm'', 0x6c002057, 0xfc00707f), (True, ''vmornot_mm'', 0x70002057, 0xfc00707f),
    (True, ''vmnand_mm'', 0x74002057, 0xfc00707f)]"

definition encoding_10 :: "(bool \<times> string \<times> u64 \<times> u64) list" where
  "encoding_10 = [
    (True, ''vmnor_mm'', 0x78002057, 0xfc00707f), (True, ''vmxnor_mm'', 0x7c002057, 0xfc00707f),
    (True, ''vmsbf_m'', 0x5000a057, 0xfc0ff07f), (True, ''vmsof_m'', 0x50012057, 0xfc0ff07f),
    (True, ''vmsif_m'', 0x5001a057, 0xfc0ff07f), (True, ''viota_m'', 0x50082057, 0xfc0ff07f),
    (True, ''vid_v'', 0x5008a057, 0xfdfff07f), (True, ''vpopc_m'', 0x40082057, 0xfc0ff07f),
    (True, ''vfirst_m'', 0x4008a057, 0xfc0ff07f), (True, ''vdivu_vv'', 0x80002057, 0xfc00707f),
    (True, ''vdiv_vv'', 0x84002057, 0xfc00707f), (True, ''vremu_vv'', 0x88002057, 0xfc00707f),
    (True, ''vrem_vv'', 0x8c002057, 0xfc00707f), (True, ''vmulhu_vv'', 0x90002057, 0xfc00707f),
    (True, ''vmul_vv'', 0x94002057, 0xfc00707f), (True, ''vmulhsu_vv'', 0x98002057, 0xfc00707f),
    (True, ''vmulh_vv'', 0x9c002057, 0xfc00707f), (True, ''vmadd_vv'', 0xa4002057, 0xfc00707f),
    (True, ''vnmsub_vv'', 0xac002057, 0xfc00707f), (True, ''vmacc_vv'', 0xb4002057, 0xfc00707f),
    (True, ''vnmsac_vv'', 0xbc002057, 0xfc00707f), (True, ''vwaddu_vv'', 0xc0002057, 0xfc00707f),
    (True, ''vwadd_vv'', 0xc4002057, 0xfc00707f), (True, ''vwsubu_vv'', 0xc8002057, 0xfc00707f),
    (True, ''vwsub_vv'', 0xcc002057, 0xfc00707f), (True, ''vwaddu_wv'', 0xd0002057, 0xfc00707f),
    (True, ''vwadd_wv'', 0xd4002057, 0xfc00707f), (True, ''vwsubu_wv'', 0xd8002057, 0xfc00707f),
    (True, ''vwsub_wv'', 0xdc002057, 0xfc00707f), (True, ''vwmulu_vv'', 0xe0002057, 0xfc00707f),
    (True, ''vwmulsu_vv'', 0xe8002057, 0xfc00707f), (True, ''vwmul_vv'', 0xec002057, 0xfc00707f),
    (True, ''vwmaccu_vv'', 0xf0002057, 0xfc00707f), (True, ''vwmacc_vv'', 0xf4002057, 0xfc00707f),
    (True, ''vwmaccsu_vv'', 0xfc002057, 0xfc00707f), (True, ''vaaddu_vx'', 0x20006057, 0xfc00707f),
    (True, ''vaadd_vx'', 0x24006057, 0xfc00707f), (True, ''vasubu_vx'', 0x28006057, 0xfc00707f),
    (True, ''vasub_vx'', 0x2c006057, 0xfc00707f), (True, ''vmv_s_x'', 0x42006057, 0xfff0707f),
    (True, ''vslide1up_vx'', 0x38006057, 0xfc00707f), (True, ''vslide1down_vx'', 0x3c006057, 0xfc00707f),
    (True, ''vdivu_vx'', 0x80006057, 0xfc00707f), (True, ''vdiv_vx'', 0x84006057, 0xfc00707f),
    (True, ''vremu_vx'', 0x88006057, 0xfc00707f), (True, ''vrem_vx'', 0x8c006057, 0xfc00707f),
    (True, ''vmulhu_vx'', 0x90006057, 0xfc00707f), (True, ''vmul_vx'', 0x94006057, 0xfc00707f),
    (True, ''vmulhsu_vx'', 0x98006057, 0xfc00707f), (True, ''vmulh_vx'', 0x9c006057, 0xfc00707f),
    (True, ''vmadd_vx'', 0xa4006057, 0xfc00707f), (True, ''vnmsub_vx'', 0xac006057, 0xfc00707f),
    (True, ''vmacc_vx'', 0xb4006057, 0xfc00707f), (True, ''vnmsac_vx'', 0xbc006057, 0xfc00707f),
    (True, ''vwaddu_vx'', 0xc0006057, 0xfc00707f), (True, ''vwadd_vx'', 0xc4006057, 0xfc00707f),
    (True, ''vwsubu_vx'', 0xc8006057, 0xfc00707f), (True, ''vwsub_vx'', 0xcc006057, 0xfc00707f),
    (True, ''vwaddu_wx'', 0xd0006057, 0xfc00707f), (True, ''vwadd_wx'', 0xd4006057, 0xfc00707f),
    (True, ''vwsubu_wx'', 0xd8006057, 0xfc00707f), (True, ''vwsub_wx'', 0xdc006057, 0xfc00707f),
    (True, ''vwmulu_vx'', 0xe0006057, 0xfc00707f), (True, ''vwmulsu_vx'', 0xe8006057, 0xfc00707f),
    (True, ''vwmul_vx'', 0xec006057, 0xfc00707f), (True, ''vwmaccu_vx'', 0xf0006057, 0xfc00707f),
    (True, ''vwmacc_vx'', 0xf4006057, 0xfc00707f), (True, ''vwmaccus_vx'', 0xf8006057, 0xfc00707f),
    (True, ''vwmaccsu_vx'', 0xfc006057, 0xfc00707f), (True, ''vamoswapei8_v'', 0x800002f, 0xf800707f),
    (True, ''vamoaddei8_v'', 0x2f, 0xf800707f), (True, ''vamoxorei8_v'', 0x2000002f, 0xf800707f),
    (True, ''vamoandei8_v'', 0x6000002f, 0xf800707f), (True, ''vamoorei8_v'', 0x4000002f, 0xf800707f),
    (True, ''vamominei8_v'', 0x8000002f, 0xf800707f)]"

definition encoding_11 :: "(bool \<times> string \<times> u64 \<times> u64) list" where
  "encoding_11 = [
    (True, ''vamomaxei8_v'', 0xa000002f, 0xf800707f), (True, ''vamominuei8_v'', 0xc000002f, 0xf800707f),
    (True, ''vamomaxuei8_v'', 0xe000002f, 0xf800707f), (True, ''vamoswapei16_v'', 0x800502f, 0xf800707f),
    (True, ''vamoaddei16_v'', 0x502f, 0xf800707f), (True, ''vamoxorei16_v'', 0x2000502f, 0xf800707f),
    (True, ''vamoandei16_v'', 0x6000502f, 0xf800707f), (True, ''vamoorei16_v'', 0x4000502f, 0xf800707f),
    (True, ''vamominei16_v'', 0x8000502f, 0xf800707f), (True, ''vamomaxei16_v'', 0xa000502f, 0xf800707f),
    (True, ''vamominuei16_v'', 0xc000502f, 0xf800707f), (True, ''vamomaxuei16_v'', 0xe000502f, 0xf800707f),
    (True, ''vamoswapei32_v'', 0x800602f, 0xf800707f), (True, ''vamoaddei32_v'', 0x602f, 0xf800707f),
    (True, ''vamoxorei32_v'', 0x2000602f, 0xf800707f), (True, ''vamoandei32_v'', 0x6000602f, 0xf800707f),
    (True, ''vamoorei32_v'', 0x4000602f, 0xf800707f), (True, ''vamominei32_v'', 0x8000602f, 0xf800707f),
    (True, ''vamomaxei32_v'', 0xa000602f, 0xf800707f), (True, ''vamominuei32_v'', 0xc000602f, 0xf800707f),
    (True, ''vamomaxuei32_v'', 0xe000602f, 0xf800707f), (True, ''vamoswapei64_v'', 0x800702f, 0xf800707f),
    (True, ''vamoaddei64_v'', 0x702f, 0xf800707f), (True, ''vamoxorei64_v'', 0x2000702f, 0xf800707f),
    (True, ''vamoandei64_v'', 0x6000702f, 0xf800707f), (True, ''vamoorei64_v'', 0x4000702f, 0xf800707f),
    (True, ''vamominei64_v'', 0x8000702f, 0xf800707f), (True, ''vamomaxei64_v'', 0xa000702f, 0xf800707f),
    (True, ''vamominuei64_v'', 0xc000702f, 0xf800707f), (True, ''vamomaxuei64_v'', 0xe000702f, 0xf800707f),
    (False, ''vmvnfr_v'', 0x9e003057, 0xfe00707f), (False, ''vl1r_v'', 0x2800007, 0xfff0707f),
    (False, ''vl2r_v'', 0x6805007, 0xfff0707f), (False, ''vl4r_v'', 0xe806007, 0xfff0707f),
    (False, ''vl8r_v'', 0x1e807007, 0xfff0707f)]"

definition declared_insns :: "(bool \<times> string \<times> u64 \<times> u64) list" where
  "declared_insns = encoding_1 @ encoding_2 @ encoding_3 @ encoding_4 @ encoding_5 @ encoding_6 @
     encoding_7 @ encoding_8 @ encoding_9 @ encoding_10 @ encoding_11"

text \<open>\<open>REGISTER_INSN\<close>: the descriptor of an instruction; a function pointer is the name of the function.\<close>

definition insn_desc_of :: "string \<times> u64 \<times> u64 \<Rightarrow> string insn_desc" where
  "insn_desc_of e =
     (case e of (name, m, k) \<Rightarrow>
        \<lparr>id_match = m, id_mask = k, id_rv32 = ''rv32_'' @ name, id_rv64 = ''rv64_'' @ name\<rparr>)"

definition base_instructions :: "string insn_desc list" where
  "base_instructions = map (insn_desc_of \<circ> snd) (filter fst declared_insns)"

abbreviation illegal_instruction :: string where "illegal_instruction \<equiv> ''illegal_instruction''"

section \<open>One match value per word\<close>

text \<open>A leaf holds the match value and the masks that are registered with it.\<close>

datatype decision = Leaf u64 "u64 list" | Skip decision | Branch decision decision

fun look :: "decision \<Rightarrow> bool list \<Rightarrow> u64 \<times> u64 list" where
  "look (Leaf v cs) ws = (v, cs)"
| "look (Skip t) (w # ws) = look t ws"
| "look (Branch l r) (w # ws) = look (if w then r else l) ws"
| "look _ _ = (0, [])"

text \<open>The way an entry's mask and match bits lead to its leaf: branching only on bits the mask covers.\<close>

fun walks :: "decision \<Rightarrow> bool list \<Rightarrow> bool list \<Rightarrow> u64 \<Rightarrow> u64 \<Rightarrow> bool" where
  "walks (Leaf v cs) ks ms m k = (m = v \<and> list_ex ((=) k) cs)"
| "walks (Skip t) (k # ks) (b # ms) m mk = walks t ks ms m mk"
| "walks (Branch l r) (k # ks) (b # ms) m mk = (if k then walks (if b then r else l) ks ms m mk else False)"
| "walks _ _ _ m mk = False"

lemma walks_look:
  "walks t ks ms m k \<Longrightarrow> ms = map2 (\<and>) ws ks \<Longrightarrow> length ws = length ks \<Longrightarrow> fst (look t ws) = m \<and> k \<in> set (snd (look t ws))"
proof (induction t arbitrary: ks ms ws)
  case (Skip t)
  then show ?case by (cases ks; cases ws; cases ms) auto
next
  case (Branch l r)
  then show ?case by (cases ks; cases ws; cases ms) (auto split: if_splits)
qed (auto simp: list_ex_iff)

text \<open>Of two masks with one match value, one tests all the bits the other tests.\<close>

definition nested :: "u64 list \<Rightarrow> bool" where
  "nested cs = list_all (\<lambda>a. list_all (\<lambda>b. a AND b = a \<or> a AND b = b) cs) cs"

primrec leaves_nested :: "decision \<Rightarrow> bool" where
  "leaves_nested (Leaf v cs) = nested cs"
| "leaves_nested (Skip t) = leaves_nested t"
| "leaves_nested (Branch l r) = (leaves_nested l \<and> leaves_nested r)"

lemma nested_simps: "nested [a]" "nested [0xf07f, 0xf003]" "nested [0xffff, 0xf07f, 0xf003]"
  by (simp_all add: nested_def)

lemma look_nested: "leaves_nested t \<Longrightarrow> nested (snd (look t ws))"
  by (induction t ws rule: look.induct) (auto simp: nested_def split: if_splits)

primrec num_bits :: "num \<Rightarrow> bool list" where
  "num_bits num.One = [True]"
| "num_bits (num.Bit0 n) = False # num_bits n"
| "num_bits (num.Bit1 n) = True # num_bits n"

fun pad :: "nat \<Rightarrow> bool list \<Rightarrow> bool list" where
  "pad 0 bs = []"
| "pad (Suc n) [] = False # pad n []"
| "pad (Suc n) (b # bs) = b # pad n bs"

definition low_bits :: "u64 \<Rightarrow> bool list" where
  "low_bits w = map (bit w) [0..<32]"

lemma pad_nil: "pad n [] = map (\<lambda>i. False) [0..<n]"
  by (induction n) (simp_all add: map_upt_Suc del: upt_Suc)

lemma pad_bits: "pad n (num_bits k) = map (bit (numeral k :: int)) [0..<n]"
proof (induction n arbitrary: k)
  case (Suc n)
  then show ?case by (cases k) (simp_all add: map_upt_Suc pad_nil bit_1_iff del: upt_Suc)
qed simp

lemma suc_32: "32 = Suc (Suc (Suc (Suc (Suc (Suc (Suc (Suc (Suc (Suc (Suc (Suc (Suc (Suc (Suc (Suc
  (Suc (Suc (Suc (Suc (Suc (Suc (Suc (Suc (Suc (Suc (Suc (Suc (Suc (Suc (Suc (Suc 0)))))))))))))))))))))))))))))))"
  by simp

lemma low_bits_numeral: "low_bits (numeral k) = pad 32 (num_bits k)"
  by (simp add: low_bits_def pad_bits)

lemma low_bits_zero: "low_bits 0 = pad 32 []"
  by (simp add: low_bits_def pad_nil)

lemma low_bits_one: "low_bits 1 = pad 32 [True]"
  using low_bits_numeral [of num.One] by simp

lemma length_low_bits [simp]: "length (low_bits w) = 32"
  by (simp add: low_bits_def)

lemma low_bits_and: "low_bits (v AND w) = map2 (\<and>) (low_bits v) (low_bits w)"
  by (simp add: low_bits_def bit_and_iff zip_map_map zip_same_conv_map o_def)

definition thrice :: "'a list \<Rightarrow> 'a list" where
  "thrice xs = xs @ xs @ xs"

definition placed_ok :: "decision \<Rightarrow> bool \<times> string \<times> u64 \<times> u64 \<Rightarrow> bool" where
  "placed_ok t e = (case e of (listed, name, m, k) \<Rightarrow> listed \<longrightarrow> walks t (thrice (low_bits k)) (thrice (low_bits m)) m k)"

lemma placed_ok_listed: "placed_ok t (True, n, m, k) = walks t (thrice (low_bits k)) (thrice (low_bits m)) m k"
  by (simp add: placed_ok_def)

lemma placed_ok_unlisted: "placed_ok t (False, n, m, k) = True"
  by (simp add: placed_ok_def)

lemma all_Cons: "P x \<Longrightarrow> list_all P xs \<Longrightarrow> list_all P (x # xs)"
  by simp

lemma all_Nil: "list_all P []"
  by simp

lemmas low_bits_compute = low_bits_numeral [unfolded suc_32] low_bits_zero [unfolded suc_32]
  low_bits_one [unfolded suc_32] pad.simps num_bits.simps

definition insn_tree :: decision where
  "insn_tree =
    Branch (Branch (Skip (Skip (Skip (Skip (Skip (Skip (Skip (Skip (Skip (Skip (Skip (Branch (Branch (Leaf 0x0 [0xe003])
    (Branch (Leaf 0x4000 [0xe003]) (Leaf 0xc000 [0xe003]))) (Branch (Branch (Leaf 0x2000 [0xe003]) (Leaf 0xa000 [0xe003]))
    (Branch (Leaf 0x6000 [0xe003]) (Leaf 0xe000 [0xe003]))))))))))))))) (Skip (Skip (Skip (Skip (Skip (Skip (Skip (Skip
    (Skip (Skip (Skip (Branch (Branch (Branch (Leaf 0x2 [0xe003]) (Skip (Skip (Skip (Skip (Skip (Skip (Skip (Skip (Skip
    (Skip (Skip (Skip (Skip (Skip (Skip (Skip (Skip (Skip (Skip (Skip (Skip (Skip (Skip (Skip (Skip (Skip (Skip (Skip
    (Branch (Leaf 0x8002 [0xf07f, 0xf003]) (Leaf 0x9002 [0xffff, 0xf07f, 0xf003]))))))))))))))))))))))))))))))) (Branch
    (Leaf 0x4002 [0xe003]) (Leaf 0xc002 [0xe003]))) (Branch (Branch (Leaf 0x2002 [0xe003]) (Leaf 0xa002 [0xe003])) (Branch
    (Leaf 0x6002 [0xe003]) (Leaf 0xe002 [0xe003])))))))))))))))) (Branch (Skip (Skip (Skip (Skip (Skip (Skip (Skip (Skip
    (Skip (Skip (Skip (Branch (Branch (Branch (Leaf 0x1 [0xe003]) (Skip (Skip (Skip (Skip (Skip (Skip (Skip (Skip (Skip
    (Skip (Skip (Skip (Skip (Skip (Skip (Skip (Skip (Skip (Skip (Skip (Skip (Skip (Skip (Skip (Skip (Skip (Branch (Branch
    (Leaf 0x8001 [0xec03]) (Leaf 0x8801 [0xec03])) (Branch (Leaf 0x8401 [0xec03]) (Branch (Skip (Skip (Skip (Skip (Skip
    (Skip (Skip (Skip (Skip (Skip (Skip (Skip (Skip (Skip (Skip (Skip (Skip (Skip (Skip (Skip (Skip (Skip (Skip (Skip
    (Branch (Branch (Leaf 0x8c01 [0xfc63]) (Leaf 0x8c41 [0xfc63])) (Branch (Leaf 0x8c21 [0xfc63]) (Leaf 0x8c61
    [0xfc63]))))))))))))))))))))))))))) (Skip (Skip (Skip (Skip (Skip (Skip (Skip (Skip (Skip (Skip (Skip (Skip (Skip (Skip
    (Skip (Skip (Skip (Skip (Skip (Skip (Skip (Skip (Skip (Skip (Branch (Leaf 0x9c01 [0xfc63]) (Leaf 0x9c21
    [0xfc63])))))))))))))))))))))))))))))))))))))))))))))))))))))))) (Branch (Leaf 0x4001 [0xe003]) (Leaf 0xc001 [0xe003])))
    (Branch (Branch (Leaf 0x2001 [0xe003]) (Leaf 0xa001 [0xe003])) (Branch (Leaf 0x6001 [0xe003]) (Leaf 0xe001
    [0xe003]))))))))))))))) (Branch (Branch (Branch (Branch (Branch (Skip (Skip (Skip (Skip (Skip (Branch (Branch (Branch
    (Leaf 0x3 [0x707f]) (Leaf 0x4003 [0x707f])) (Branch (Leaf 0x2003 [0x707f]) (Leaf 0x6003 [0x707f]))) (Branch (Branch
    (Leaf 0x1003 [0x707f]) (Leaf 0x5003 [0x707f])) (Leaf 0x3003 [0x707f])))))))) (Skip (Skip (Skip (Skip (Skip (Skip (Skip
    (Skip (Skip (Skip (Skip (Skip (Skip (Skip (Skip (Skip (Skip (Skip (Branch (Branch (Leaf 0x43 [0x600007f]) (Leaf
    0x4000043 [0x600007f])) (Branch (Leaf 0x2000043 [0x600007f]) (Leaf 0x6000043 [0x600007f])))))))))))))))))))))) (Branch
    (Skip (Skip (Skip (Skip (Skip (Branch (Branch (Leaf 0x23 [0x707f]) (Leaf 0x2023 [0x707f])) (Branch (Leaf 0x1023
    [0x707f]) (Leaf 0x3023 [0x707f])))))))) (Skip (Skip (Skip (Skip (Skip (Branch (Branch (Branch (Leaf 0x63 [0x707f]) (Leaf
    0x4063 [0x707f])) (Leaf 0x6063 [0x707f])) (Branch (Branch (Leaf 0x1063 [0x707f]) (Leaf 0x5063 [0x707f])) (Leaf 0x7063
    [0x707f])))))))))) (Branch (Branch (Skip (Skip (Skip (Skip (Skip (Branch (Branch (Branch (Leaf 0x13 [0x707f]) (Leaf
    0x4013 [0x707f])) (Branch (Leaf 0x2013 [0x707f]) (Leaf 0x6013 [0x707f]))) (Branch (Branch (Leaf 0x1013 [0xfc00707f])
    (Skip (Skip (Skip (Skip (Skip (Skip (Skip (Skip (Skip (Skip (Skip (Skip (Skip (Skip (Skip (Branch (Leaf 0x5013
    [0xfc00707f]) (Leaf 0x40005013 [0xfc00707f])))))))))))))))))) (Branch (Leaf 0x3013 [0x707f]) (Leaf 0x7013
    [0x707f]))))))))) (Skip (Skip (Skip (Skip (Skip (Skip (Skip (Skip (Skip (Skip (Skip (Skip (Skip (Skip (Skip (Skip (Skip
    (Skip (Branch (Branch (Branch (Branch (Branch (Branch (Leaf 0x53 [0xfe00007f]) (Branch (Skip (Skip (Skip (Skip (Skip
    (Skip (Skip (Skip (Skip (Skip (Skip (Skip (Skip (Skip (Skip (Skip (Skip (Skip (Skip (Skip (Branch (Leaf 0x40200053
    [0xfff0007f]) (Branch (Leaf 0x40100053 [0xfff0007f]) (Leaf 0x40300053 [0xfff0007f]))))))))))))))))))))))) (Skip (Skip
    (Skip (Skip (Skip (Skip (Skip (Skip (Skip (Skip (Skip (Skip (Skip (Skip (Skip (Skip (Skip (Skip (Skip (Skip (Branch
    (Branch (Leaf 0xc0000053 [0xfff0007f]) (Leaf 0xc0200053 [0xfff0007f])) (Branch (Leaf 0xc0100053 [0xfff0007f]) (Leaf
    0xc0300053 [0xfff0007f]))))))))))))))))))))))))) (Branch (Branch (Skip (Skip (Skip (Skip (Skip (Skip (Skip (Skip (Skip
    (Skip (Skip (Skip (Branch (Branch (Leaf 0x20000053 [0xfe00707f]) (Leaf 0x20002053 [0xfe00707f])) (Leaf 0x20001053
    [0xfe00707f])))))))))))))) (Skip (Skip (Skip (Skip (Skip (Skip (Skip (Skip (Skip (Skip (Skip (Skip (Branch (Branch (Leaf
    0xa0000053 [0xfe00707f]) (Leaf 0xa0002053 [0xfe00707f])) (Leaf 0xa0001053 [0xfe00707f]))))))))))))))) (Skip (Skip (Skip
    (Skip (Skip (Skip (Skip (Skip (Skip (Skip (Skip (Skip (Skip (Branch (Leaf 0xe0000053 [0xfff0707f]) (Leaf 0xe0001053
    [0xfff0707f]))))))))))))))))) (Branch (Branch (Leaf 0x10000053 [0xfe00007f]) (Skip (Skip (Skip (Skip (Skip (Skip (Skip
    (Skip (Skip (Skip (Skip (Skip (Skip (Skip (Skip (Skip (Skip (Skip (Skip (Skip (Skip (Branch (Branch (Leaf 0xd0000053
    [0xfff0007f]) (Leaf 0xd0200053 [0xfff0007f])) (Branch (Leaf 0xd0100053 [0xfff0007f]) (Leaf 0xd0300053
    [0xfff0007f]))))))))))))))))))))))))) (Leaf 0xf0000053 [0xfff0707f]))) (Branch (Branch (Leaf 0x8000053 [0xfe00007f])
    (Skip (Skip (Skip (Skip (Skip (Skip (Skip (Skip (Skip (Skip (Skip (Skip (Skip (Skip (Branch (Leaf 0x28000053
    [0xfe00707f]) (Leaf 0x28001053 [0xfe00707f]))))))))))))))))) (Skip (Branch (Leaf 0x18000053 [0xfe00007f]) (Leaf
    0x58000053 [0xfff0007f]))))) (Branch (Branch (Branch (Branch (Leaf 0x4000053 [0xfe00007f]) (Branch (Skip (Skip (Skip
    (Skip (Skip (Skip (Skip (Skip (Skip (Skip (Skip (Skip (Skip (Skip (Skip (Skip (Skip (Skip (Skip (Skip (Branch (Leaf
    0x44000053 [0xfff0007f]) (Branch (Leaf 0x44100053 [0xfff0007f]) (Leaf 0x44300053 [0xfff0007f])))))))))))))))))))))))
    (Skip (Skip (Skip (Skip (Skip (Skip (Skip (Skip (Skip (Skip (Skip (Skip (Skip (Skip (Skip (Skip (Skip (Skip (Skip (Skip
    (Branch (Branch (Leaf 0xc4000053 [0xfff0007f]) (Leaf 0xc4200053 [0xfff0007f])) (Branch (Leaf 0xc4100053 [0xfff0007f])
    (Leaf 0xc4300053 [0xfff0007f]))))))))))))))))))))))))) (Branch (Branch (Skip (Skip (Skip (Skip (Skip (Skip (Skip (Skip
    (Skip (Skip (Skip (Skip (Branch (Branch (Leaf 0x24000053 [0xfe00707f]) (Leaf 0x24002053 [0xfe00707f])) (Leaf 0x24001053
    [0xfe00707f])))))))))))))) (Skip (Skip (Skip (Skip (Skip (Skip (Skip (Skip (Skip (Skip (Skip (Skip (Branch (Branch (Leaf
    0xa4000053 [0xfe00707f]) (Leaf 0xa4002053 [0xfe00707f])) (Leaf 0xa4001053 [0xfe00707f]))))))))))))))) (Skip (Skip (Skip
    (Skip (Skip (Skip (Skip (Skip (Skip (Skip (Skip (Skip (Skip (Branch (Leaf 0xe4000053 [0xfff0707f]) (Leaf 0xe4001053
    [0xfff0707f]))))))))))))))))) (Branch (Branch (Leaf 0x14000053 [0xfe00007f]) (Skip (Skip (Skip (Skip (Skip (Skip (Skip
    (Skip (Skip (Skip (Skip (Skip (Skip (Skip (Skip (Skip (Skip (Skip (Skip (Skip (Skip (Branch (Branch (Leaf 0xd4000053
    [0xfff0007f]) (Leaf 0xd4200053 [0xfff0007f])) (Branch (Leaf 0xd4100053 [0xfff0007f]) (Leaf 0xd4300053
    [0xfff0007f]))))))))))))))))))))))))) (Leaf 0xf4000053 [0xfff0707f]))) (Branch (Branch (Leaf 0xc000053 [0xfe00007f])
    (Skip (Skip (Skip (Skip (Skip (Skip (Skip (Skip (Skip (Skip (Skip (Skip (Skip (Skip (Branch (Leaf 0x2c000053
    [0xfe00707f]) (Leaf 0x2c001053 [0xfe00707f]))))))))))))))))) (Skip (Branch (Leaf 0x1c000053 [0xfe00007f]) (Leaf
    0x5c000053 [0xfff0007f])))))) (Branch (Branch (Branch (Branch (Branch (Leaf 0x2000053 [0xfe00007f]) (Branch (Skip (Skip
    (Skip (Skip (Skip (Skip (Skip (Skip (Skip (Skip (Skip (Skip (Skip (Skip (Skip (Skip (Skip (Skip (Skip (Skip (Branch
    (Branch (Leaf 0x42000053 [0xfff0007f]) (Leaf 0x42200053 [0xfff0007f])) (Leaf 0x42300053
    [0xfff0007f])))))))))))))))))))))) (Skip (Skip (Skip (Skip (Skip (Skip (Skip (Skip (Skip (Skip (Skip (Skip (Skip (Skip
    (Skip (Skip (Skip (Skip (Skip (Skip (Branch (Branch (Leaf 0xc2000053 [0xfff0007f]) (Leaf 0xc2200053 [0xfff0007f]))
    (Branch (Leaf 0xc2100053 [0xfff0007f]) (Leaf 0xc2300053 [0xfff0007f]))))))))))))))))))))))))) (Branch (Branch (Skip
    (Skip (Skip (Skip (Skip (Skip (Skip (Skip (Skip (Skip (Skip (Skip (Branch (Branch (Leaf 0x22000053 [0xfe00707f]) (Leaf
    0x22002053 [0xfe00707f])) (Leaf 0x22001053 [0xfe00707f])))))))))))))) (Skip (Skip (Skip (Skip (Skip (Skip (Skip (Skip
    (Skip (Skip (Skip (Skip (Branch (Branch (Leaf 0xa2000053 [0xfe00707f]) (Leaf 0xa2002053 [0xfe00707f])) (Leaf 0xa2001053
    [0xfe00707f]))))))))))))))) (Skip (Skip (Skip (Skip (Skip (Skip (Skip (Skip (Skip (Skip (Skip (Skip (Skip (Branch (Leaf
    0xe2000053 [0xfff0707f]) (Leaf 0xe2001053 [0xfff0707f]))))))))))))))))) (Branch (Branch (Leaf 0x12000053 [0xfe00007f])
    (Skip (Skip (Skip (Skip (Skip (Skip (Skip (Skip (Skip (Skip (Skip (Skip (Skip (Skip (Skip (Skip (Skip (Skip (Skip (Skip
    (Skip (Branch (Branch (Leaf 0xd2000053 [0xfff0007f]) (Leaf 0xd2200053 [0xfff0007f])) (Branch (Leaf 0xd2100053
    [0xfff0007f]) (Leaf 0xd2300053 [0xfff0007f]))))))))))))))))))))))))) (Leaf 0xf2000053 [0xfff0707f]))) (Branch (Branch
    (Leaf 0xa000053 [0xfe00007f]) (Skip (Skip (Skip (Skip (Skip (Skip (Skip (Skip (Skip (Skip (Skip (Skip (Skip (Skip
    (Branch (Leaf 0x2a000053 [0xfe00707f]) (Leaf 0x2a001053 [0xfe00707f]))))))))))))))))) (Skip (Branch (Leaf 0x1a000053
    [0xfe00007f]) (Leaf 0x5a000053 [0xfff0007f]))))) (Branch (Branch (Branch (Branch (Leaf 0x6000053 [0xfe00007f]) (Branch
    (Skip (Skip (Skip (Skip (Skip (Skip (Skip (Skip (Skip (Skip (Skip (Skip (Skip (Skip (Skip (Skip (Skip (Skip (Skip (Skip
    (Branch (Branch (Leaf 0x46000053 [0xfff0007f]) (Leaf 0x46200053 [0xfff0007f])) (Leaf 0x46100053
    [0xfff0007f])))))))))))))))))))))) (Skip (Skip (Skip (Skip (Skip (Skip (Skip (Skip (Skip (Skip (Skip (Skip (Skip (Skip
    (Skip (Skip (Skip (Skip (Skip (Skip (Branch (Branch (Leaf 0xc6000053 [0xfff0007f]) (Leaf 0xc6200053 [0xfff0007f]))
    (Branch (Leaf 0xc6100053 [0xfff0007f]) (Leaf 0xc6300053 [0xfff0007f]))))))))))))))))))))))))) (Branch (Branch (Skip
    (Skip (Skip (Skip (Skip (Skip (Skip (Skip (Skip (Skip (Skip (Skip (Branch (Branch (Leaf 0x26000053 [0xfe00707f]) (Leaf
    0x26002053 [0xfe00707f])) (Leaf 0x26001053 [0xfe00707f])))))))))))))) (Skip (Skip (Skip (Skip (Skip (Skip (Skip (Skip
    (Skip (Skip (Skip (Skip (Branch (Branch (Leaf 0xa6000053 [0xfe00707f]) (Leaf 0xa6002053 [0xfe00707f])) (Leaf 0xa6001053
    [0xfe00707f]))))))))))))))) (Leaf 0xe6001053 [0xfff0707f]))) (Skip (Branch (Leaf 0x16000053 [0xfe00007f]) (Skip (Skip
    (Skip (Skip (Skip (Skip (Skip (Skip (Skip (Skip (Skip (Skip (Skip (Skip (Skip (Skip (Skip (Skip (Skip (Skip (Skip
    (Branch (Branch (Leaf 0xd6000053 [0xfff0007f]) (Leaf 0xd6200053 [0xfff0007f])) (Branch (Leaf 0xd6100053 [0xfff0007f])
    (Leaf 0xd6300053 [0xfff0007f]))))))))))))))))))))))))))) (Branch (Branch (Leaf 0xe000053 [0xfe00007f]) (Skip (Skip (Skip
    (Skip (Skip (Skip (Skip (Skip (Skip (Skip (Skip (Skip (Skip (Skip (Branch (Leaf 0x2e000053 [0xfe00707f]) (Leaf
    0x2e001053 [0xfe00707f]))))))))))))))))) (Skip (Branch (Leaf 0x1e000053 [0xfe00007f]) (Leaf 0x5e000053
    [0xfff0007f])))))))))))))))))))))))))) (Branch (Skip (Skip (Skip (Skip (Skip (Branch (Branch (Branch (Skip (Skip (Skip
    (Skip (Skip (Skip (Skip (Skip (Skip (Skip (Branch (Skip (Skip (Skip (Skip (Branch (Leaf 0x33 [0xfe00707f]) (Leaf
    0x40000033 [0xfe00707f])))))) (Leaf 0x2000033 [0xfe00707f])))))))))))) (Skip (Skip (Skip (Skip (Skip (Skip (Skip (Skip
    (Skip (Skip (Branch (Leaf 0x4033 [0xfe00707f]) (Leaf 0x2004033 [0xfe00707f]))))))))))))) (Branch (Skip (Skip (Skip (Skip
    (Skip (Skip (Skip (Skip (Skip (Skip (Branch (Leaf 0x2033 [0xfe00707f]) (Leaf 0x2002033 [0xfe00707f])))))))))))) (Skip
    (Skip (Skip (Skip (Skip (Skip (Skip (Skip (Skip (Skip (Branch (Leaf 0x6033 [0xfe00707f]) (Leaf 0x2006033
    [0xfe00707f])))))))))))))) (Branch (Branch (Skip (Skip (Skip (Skip (Skip (Skip (Skip (Skip (Skip (Skip (Branch (Leaf
    0x1033 [0xfe00707f]) (Leaf 0x2001033 [0xfe00707f])))))))))))) (Skip (Skip (Skip (Skip (Skip (Skip (Skip (Skip (Skip
    (Skip (Branch (Skip (Skip (Skip (Skip (Branch (Leaf 0x5033 [0xfe00707f]) (Leaf 0x40005033 [0xfe00707f])))))) (Leaf
    0x2005033 [0xfe00707f]))))))))))))) (Branch (Skip (Skip (Skip (Skip (Skip (Skip (Skip (Skip (Skip (Skip (Branch (Leaf
    0x3033 [0xfe00707f]) (Leaf 0x2003033 [0xfe00707f])))))))))))) (Skip (Skip (Skip (Skip (Skip (Skip (Skip (Skip (Skip
    (Skip (Branch (Leaf 0x7033 [0xfe00707f]) (Leaf 0x2007033 [0xfe00707f])))))))))))))))))))) (Skip (Skip (Skip (Skip (Skip
    (Branch (Branch (Branch (Skip (Skip (Skip (Skip (Skip (Skip (Skip (Skip (Skip (Skip (Branch (Skip (Skip (Branch (Skip
    (Skip (Skip (Skip (Skip (Skip (Skip (Skip (Skip (Skip (Skip (Skip (Skip (Skip (Skip (Skip (Skip (Skip (Skip (Skip (Skip
    (Skip (Skip (Branch (Leaf 0x73 [0xffffffff]) (Leaf 0x100073 [0xffffffff]))))))))))))))))))))))))) (Branch (Skip (Skip
    (Skip (Skip (Skip (Skip (Skip (Skip (Skip (Skip (Skip (Skip (Skip (Skip (Skip (Skip (Skip (Skip (Skip (Skip (Skip (Skip
    (Branch (Leaf 0x10200073 [0xffffffff]) (Leaf 0x10500073 [0xffffffff])))))))))))))))))))))))) (Leaf 0x30200073
    [0xffffffff]))))) (Skip (Branch (Branch (Skip (Branch (Leaf 0x22000073 [0xfe007fff]) (Leaf 0x62000073 [0xfe007fff])))
    (Leaf 0x12000073 [0xfe007fff])) (Leaf 0x7b200073 [0xffffffff])))))))))))))) (Skip (Skip (Skip (Skip (Skip (Skip (Skip
    (Skip (Skip (Skip (Branch (Branch (Branch (Skip (Skip (Skip (Skip (Skip (Skip (Skip (Skip (Skip (Skip (Skip (Skip (Skip
    (Skip (Skip (Skip (Skip (Skip (Skip (Skip (Skip (Skip (Skip (Skip (Branch (Leaf 0x60004073 [0xfff0707f]) (Leaf
    0x60104073 [0xfff0707f])))))))))))))))))))))))))) (Skip (Skip (Skip (Skip (Skip (Skip (Skip (Skip (Skip (Skip (Skip
    (Skip (Skip (Skip (Skip (Skip (Skip (Skip (Skip (Skip (Skip (Skip (Skip (Skip (Branch (Leaf 0x68004073 [0xfff0707f])
    (Branch (Leaf 0x68104073 [0xfff0707f]) (Leaf 0x68304073 [0xfff0707f])))))))))))))))))))))))))))) (Branch (Skip (Skip
    (Skip (Skip (Skip (Skip (Skip (Skip (Skip (Skip (Skip (Skip (Skip (Skip (Skip (Skip (Skip (Skip (Skip (Skip (Skip (Skip
    (Skip (Skip (Branch (Leaf 0x64004073 [0xfff0707f]) (Branch (Leaf 0x64104073 [0xfff0707f]) (Leaf 0x64304073
    [0xfff0707f]))))))))))))))))))))))))))) (Leaf 0x6c004073 [0xfff0707f]))) (Branch (Branch (Leaf 0x62004073 [0xfe007fff])
    (Leaf 0x6a004073 [0xfe007fff])) (Branch (Leaf 0x66004073 [0xfe007fff]) (Leaf 0x6e004073 [0xfe007fff])))))))))))))))
    (Branch (Leaf 0x2073 [0x707f]) (Leaf 0x6073 [0x707f]))) (Branch (Branch (Leaf 0x1073 [0x707f]) (Leaf 0x5073 [0x707f]))
    (Branch (Leaf 0x3073 [0x707f]) (Leaf 0x7073 [0x707f])))))))))))) (Branch (Skip (Skip (Skip (Skip (Skip (Skip (Skip (Skip
    (Skip (Skip (Skip (Skip (Skip (Skip (Skip (Skip (Skip (Skip (Skip (Skip (Branch (Branch (Leaf 0x4b [0x600007f]) (Leaf
    0x400004b [0x600007f])) (Branch (Leaf 0x200004b [0x600007f]) (Leaf 0x600004b [0x600007f]))))))))))))))))))))))) (Branch
    (Skip (Skip (Skip (Skip (Skip (Skip (Branch (Leaf 0x1b [0x707f]) (Skip (Branch (Leaf 0x101b [0xfe00707f]) (Skip (Skip
    (Skip (Skip (Skip (Skip (Skip (Skip (Skip (Skip (Skip (Skip (Skip (Skip (Skip (Branch (Leaf 0x501b [0xfe00707f]) (Leaf
    0x4000501b [0xfe00707f])))))))))))))))))))))))))) (Skip (Skip (Skip (Skip (Skip (Skip (Branch (Branch (Branch (Skip
    (Skip (Skip (Skip (Skip (Skip (Skip (Skip (Skip (Skip (Branch (Skip (Skip (Skip (Skip (Branch (Leaf 0x3b [0xfe00707f])
    (Leaf 0x4000003b [0xfe00707f])))))) (Leaf 0x200003b [0xfe00707f])))))))))))) (Leaf 0x200403b [0xfe00707f])) (Leaf
    0x200603b [0xfe00707f])) (Branch (Branch (Leaf 0x103b [0xfe00707f]) (Skip (Skip (Skip (Skip (Skip (Skip (Skip (Skip
    (Skip (Skip (Branch (Skip (Skip (Skip (Skip (Branch (Leaf 0x503b [0xfe00707f]) (Leaf 0x4000503b [0xfe00707f])))))) (Leaf
    0x200503b [0xfe00707f]))))))))))))) (Leaf 0x200703b [0xfe00707f])))))))))))) (Branch (Branch (Branch (Branch (Skip (Skip
    (Skip (Skip (Skip (Branch (Branch (Branch (Skip (Skip (Skip (Skip (Skip (Skip (Skip (Skip (Skip (Skip (Skip (Branch
    (Branch (Skip (Skip (Skip (Skip (Skip (Skip (Skip (Skip (Skip (Skip (Skip (Skip (Skip (Skip (Skip (Skip (Skip (Skip
    (Skip (Skip (Skip (Skip (Skip (Skip (Skip (Skip (Skip (Branch (Branch (Leaf 0x7 [0x1df0707f]) (Leaf 0x1000007
    [0x1df0707f])) (Skip (Skip (Skip (Skip (Skip (Branch (Leaf 0x2800007 [0xfff0707f]) (Branch (Leaf 0x22800007
    [0xfff0707f]) (Branch (Leaf 0x62800007 [0xfff0707f]) (Leaf 0xe2800007 [0xfff0707f])))))))))))))))))))))))))))))))))))))
    (Leaf 0x8000007 [0x1c00707f])) (Leaf 0xc000007 [0x1c00707f]))))))))))))) (Leaf 0x4007 [0x707f])) (Branch (Leaf 0x2007
    [0x707f]) (Skip (Skip (Skip (Skip (Skip (Skip (Skip (Skip (Skip (Skip (Skip (Branch (Branch (Skip (Skip (Skip (Skip
    (Skip (Skip (Skip (Skip (Skip (Skip (Skip (Skip (Skip (Skip (Skip (Skip (Skip (Skip (Skip (Skip (Skip (Skip (Skip (Skip
    (Skip (Skip (Skip (Branch (Branch (Leaf 0x6007 [0x1df0707f]) (Leaf 0x1006007 [0x1df0707f])) (Skip (Skip (Skip (Skip
    (Skip (Branch (Leaf 0x2806007 [0xfff0707f]) (Branch (Leaf 0x22806007 [0xfff0707f]) (Branch (Leaf 0x62806007
    [0xfff0707f]) (Leaf 0xe2806007 [0xfff0707f]))))))))))))))))))))))))))))))))))))) (Leaf 0x8006007 [0x1c00707f])) (Leaf
    0xc006007 [0x1c00707f]))))))))))))))) (Branch (Branch (Leaf 0x1007 [0x707f]) (Skip (Skip (Skip (Skip (Skip (Skip (Skip
    (Skip (Skip (Skip (Skip (Branch (Branch (Skip (Skip (Skip (Skip (Skip (Skip (Skip (Skip (Skip (Skip (Skip (Skip (Skip
    (Skip (Skip (Skip (Skip (Skip (Skip (Skip (Skip (Skip (Skip (Skip (Skip (Skip (Skip (Branch (Branch (Leaf 0x5007
    [0x1df0707f]) (Leaf 0x1005007 [0x1df0707f])) (Skip (Skip (Skip (Skip (Skip (Branch (Leaf 0x2805007 [0xfff0707f]) (Branch
    (Leaf 0x22805007 [0xfff0707f]) (Branch (Leaf 0x62805007 [0xfff0707f]) (Leaf 0xe2805007
    [0xfff0707f]))))))))))))))))))))))))))))))))))))) (Leaf 0x8005007 [0x1c00707f])) (Leaf 0xc005007
    [0x1c00707f])))))))))))))) (Branch (Leaf 0x3007 [0x707f]) (Skip (Skip (Skip (Skip (Skip (Skip (Skip (Skip (Skip (Skip
    (Skip (Branch (Branch (Skip (Skip (Skip (Skip (Skip (Skip (Skip (Skip (Skip (Skip (Skip (Skip (Skip (Skip (Skip (Skip
    (Skip (Skip (Skip (Skip (Skip (Skip (Skip (Skip (Skip (Skip (Skip (Branch (Branch (Leaf 0x7007 [0x1df0707f]) (Leaf
    0x1007007 [0x1df0707f])) (Skip (Skip (Skip (Skip (Skip (Branch (Leaf 0x2807007 [0xfff0707f]) (Branch (Leaf 0x22807007
    [0xfff0707f]) (Branch (Leaf 0x62807007 [0xfff0707f]) (Leaf 0xe2807007 [0xfff0707f])))))))))))))))))))))))))))))))))))))
    (Leaf 0x8007007 [0x1c00707f])) (Leaf 0xc007007 [0x1c00707f]))))))))))))))))))))) (Skip (Skip (Skip (Skip (Skip (Skip
    (Skip (Skip (Skip (Skip (Skip (Skip (Skip (Skip (Skip (Skip (Skip (Skip (Branch (Branch (Leaf 0x47 [0x600007f]) (Leaf
    0x4000047 [0x600007f])) (Branch (Leaf 0x2000047 [0x600007f]) (Leaf 0x6000047 [0x600007f])))))))))))))))))))))) (Branch
    (Skip (Skip (Skip (Skip (Skip (Branch (Branch (Branch (Skip (Skip (Skip (Skip (Skip (Skip (Skip (Skip (Skip (Skip (Skip
    (Branch (Branch (Skip (Skip (Skip (Skip (Skip (Skip (Skip (Skip (Skip (Skip (Skip (Skip (Skip (Skip (Skip (Skip (Skip
    (Skip (Skip (Skip (Skip (Skip (Skip (Skip (Skip (Skip (Skip (Branch (Leaf 0x27 [0x1df0707f]) (Skip (Skip (Skip (Skip
    (Skip (Branch (Leaf 0x2800027 [0xfff0707f]) (Branch (Leaf 0x22800027 [0xfff0707f]) (Branch (Leaf 0x62800027
    [0xfff0707f]) (Leaf 0xe2800027 [0xfff0707f]))))))))))))))))))))))))))))))))))))) (Leaf 0x8000027 [0x1c00707f])) (Branch
    (Leaf 0x4000027 [0x1c00707f]) (Leaf 0xc000027 [0x1c00707f])))))))))))))) (Leaf 0x4027 [0x707f])) (Branch (Leaf 0x2027
    [0x707f]) (Skip (Skip (Skip (Skip (Skip (Skip (Skip (Skip (Skip (Skip (Skip (Branch (Branch (Leaf 0x6027 [0x1df0707f])
    (Leaf 0x8006027 [0x1c00707f])) (Branch (Leaf 0x4006027 [0x1c00707f]) (Leaf 0xc006027 [0x1c00707f]))))))))))))))))
    (Branch (Branch (Leaf 0x1027 [0x707f]) (Skip (Skip (Skip (Skip (Skip (Skip (Skip (Skip (Skip (Skip (Skip (Branch (Branch
    (Leaf 0x5027 [0x1df0707f]) (Leaf 0x8005027 [0x1c00707f])) (Branch (Leaf 0x4005027 [0x1c00707f]) (Leaf 0xc005027
    [0x1c00707f]))))))))))))))) (Branch (Leaf 0x3027 [0x707f]) (Skip (Skip (Skip (Skip (Skip (Skip (Skip (Skip (Skip (Skip
    (Skip (Branch (Branch (Leaf 0x7027 [0x1df0707f]) (Leaf 0x8007027 [0x1c00707f])) (Branch (Leaf 0x4007027 [0x1c00707f])
    (Leaf 0xc007027 [0x1c00707f])))))))))))))))))))))) (Leaf 0x67 [0x707f]))) (Branch (Branch (Leaf 0x17 [0x7f]) (Skip (Skip
    (Skip (Skip (Skip (Branch (Branch (Branch (Skip (Skip (Skip (Skip (Skip (Skip (Skip (Skip (Skip (Skip (Skip (Branch
    (Branch (Branch (Branch (Branch (Branch (Leaf 0x57 [0xfc00707f]) (Leaf 0x80000057 [0xfc00707f])) (Branch (Leaf
    0x40000057 [0xfe00707f]) (Leaf 0xc0000057 [0xfc00707f]))) (Branch (Leaf 0xa0000057 [0xfc00707f]) (Branch (Leaf
    0x60000057 [0xfc00707f]) (Leaf 0xe0000057 [0xfc00707f])))) (Branch (Leaf 0x10000057 [0xfc00707f]) (Branch (Branch (Leaf
    0x30000057 [0xfc00707f]) (Leaf 0xb0000057 [0xfc00707f])) (Leaf 0x70000057 [0xfc00707f])))) (Branch (Branch (Branch
    (Branch (Leaf 0x8000057 [0xfc00707f]) (Leaf 0x88000057 [0xfc00707f])) (Leaf 0x48000057 [0xfe00707f])) (Branch (Branch
    (Leaf 0x28000057 [0xfc00707f]) (Leaf 0xa8000057 [0xfc00707f])) (Leaf 0x68000057 [0xfc00707f]))) (Branch (Leaf 0x18000057
    [0xfc00707f]) (Skip (Branch (Leaf 0x38000057 [0xfc00707f]) (Leaf 0xb8000057 [0xfc00707f])))))) (Branch (Branch (Branch
    (Branch (Leaf 0x84000057 [0xfc00707f]) (Branch (Leaf 0x44000057 [0xfc00707f]) (Leaf 0xc4000057 [0xfc00707f]))) (Branch
    (Branch (Leaf 0x24000057 [0xfc00707f]) (Leaf 0xa4000057 [0xfc00707f])) (Branch (Leaf 0x64000057 [0xfc00707f]) (Leaf
    0xe4000057 [0xfc00707f])))) (Branch (Skip (Branch (Leaf 0x14000057 [0xfc00707f]) (Leaf 0x94000057 [0xfc00707f])))
    (Branch (Leaf 0xb4000057 [0xfc00707f]) (Leaf 0x74000057 [0xfc00707f])))) (Branch (Branch (Branch (Leaf 0x8c000057
    [0xfc00707f]) (Leaf 0x4c000057 [0xfc00707f])) (Branch (Branch (Leaf 0x2c000057 [0xfc00707f]) (Leaf 0xac000057
    [0xfc00707f])) (Leaf 0x6c000057 [0xfc00707f]))) (Branch (Branch (Branch (Leaf 0x1c000057 [0xfc00707f]) (Leaf 0x9c000057
    [0xfc00707f])) (Skip (Skip (Skip (Skip (Skip (Skip (Skip (Skip (Skip (Skip (Skip (Skip (Skip (Skip (Skip (Skip (Skip
    (Skip (Skip (Skip (Skip (Skip (Skip (Skip (Skip (Skip (Branch (Leaf 0x5c000057 [0xfe00707f]) (Leaf 0x5e000057
    [0xfff0707f]))))))))))))))))))))))))))))) (Leaf 0xbc000057 [0xfc00707f])))))))))))))))) (Skip (Skip (Skip (Skip (Skip
    (Skip (Skip (Skip (Skip (Skip (Skip (Branch (Branch (Branch (Branch (Branch (Branch (Leaf 0x4057 [0xfc00707f]) (Leaf
    0x80004057 [0xfc00707f])) (Leaf 0x40004057 [0xfe00707f])) (Branch (Leaf 0xa0004057 [0xfc00707f]) (Leaf 0x60004057
    [0xfc00707f]))) (Branch (Leaf 0x10004057 [0xfc00707f]) (Branch (Branch (Leaf 0x30004057 [0xfc00707f]) (Leaf 0xb0004057
    [0xfc00707f])) (Leaf 0x70004057 [0xfc00707f])))) (Branch (Branch (Branch (Branch (Leaf 0x8004057 [0xfc00707f]) (Leaf
    0x88004057 [0xfc00707f])) (Leaf 0x48004057 [0xfe00707f])) (Branch (Branch (Leaf 0x28004057 [0xfc00707f]) (Leaf
    0xa8004057 [0xfc00707f])) (Leaf 0x68004057 [0xfc00707f]))) (Branch (Leaf 0x18004057 [0xfc00707f]) (Branch (Branch (Leaf
    0x38004057 [0xfc00707f]) (Leaf 0xb8004057 [0xfc00707f])) (Leaf 0x78004057 [0xfc00707f]))))) (Branch (Branch (Branch
    (Branch (Leaf 0x84004057 [0xfc00707f]) (Leaf 0x44004057 [0xfc00707f])) (Branch (Branch (Leaf 0x24004057 [0xfc00707f])
    (Leaf 0xa4004057 [0xfc00707f])) (Leaf 0x64004057 [0xfc00707f]))) (Branch (Skip (Branch (Leaf 0x14004057 [0xfc00707f])
    (Leaf 0x94004057 [0xfc00707f]))) (Branch (Leaf 0xb4004057 [0xfc00707f]) (Leaf 0x74004057 [0xfc00707f])))) (Branch
    (Branch (Branch (Branch (Leaf 0xc004057 [0xfc00707f]) (Leaf 0x8c004057 [0xfc00707f])) (Leaf 0x4c004057 [0xfc00707f]))
    (Branch (Branch (Leaf 0x2c004057 [0xfc00707f]) (Leaf 0xac004057 [0xfc00707f])) (Leaf 0x6c004057 [0xfc00707f]))) (Branch
    (Branch (Branch (Leaf 0x1c004057 [0xfc00707f]) (Leaf 0x9c004057 [0xfc00707f])) (Skip (Skip (Skip (Skip (Skip (Skip (Skip
    (Skip (Skip (Skip (Skip (Skip (Skip (Skip (Skip (Skip (Skip (Skip (Skip (Skip (Skip (Skip (Skip (Skip (Skip (Skip
    (Branch (Leaf 0x5c004057 [0xfe00707f]) (Leaf 0x5e004057 [0xfff0707f]))))))))))))))))))))))))))))) (Branch (Branch (Leaf
    0x3c004057 [0xfc00707f]) (Leaf 0xbc004057 [0xfc00707f])) (Leaf 0x7c004057 [0xfc00707f])))))))))))))))))) (Branch (Skip
    (Skip (Skip (Skip (Skip (Skip (Skip (Skip (Skip (Skip (Skip (Branch (Branch (Branch (Branch (Branch (Branch (Leaf 0x2057
    [0xfc00707f]) (Leaf 0x80002057 [0xfc00707f])) (Branch (Skip (Skip (Skip (Skip (Skip (Skip (Skip (Skip (Skip (Skip (Skip
    (Skip (Skip (Skip (Skip (Branch (Skip (Skip (Skip (Branch (Leaf 0x42002057 [0xfe0ff07f]) (Leaf 0x40082057
    [0xfc0ff07f]))))) (Leaf 0x4008a057 [0xfc0ff07f]))))))))))))))))) (Leaf 0xc0002057 [0xfc00707f]))) (Branch (Leaf
    0x20002057 [0xfc00707f]) (Branch (Leaf 0x60002057 [0xfc00707f]) (Leaf 0xe0002057 [0xfc00707f])))) (Branch (Branch
    (Branch (Leaf 0x10002057 [0xfc00707f]) (Leaf 0x90002057 [0xfc00707f])) (Branch (Skip (Skip (Skip (Skip (Skip (Skip (Skip
    (Skip (Skip (Skip (Skip (Skip (Skip (Skip (Skip (Branch (Branch (Leaf 0x50082057 [0xfc0ff07f]) (Leaf 0x50012057
    [0xfc0ff07f])) (Branch (Skip (Skip (Branch (Leaf 0x5000a057 [0xfc0ff07f]) (Leaf 0x5008a057 [0xfdfff07f])))) (Leaf
    0x5001a057 [0xfc0ff07f])))))))))))))))))) (Leaf 0xd0002057 [0xfc00707f]))) (Skip (Branch (Leaf 0x70002057 [0xfc00707f])
    (Leaf 0xf0002057 [0xfc00707f]))))) (Branch (Branch (Branch (Branch (Leaf 0x8002057 [0xfc00707f]) (Leaf 0x88002057
    [0xfc00707f])) (Branch (Skip (Skip (Skip (Skip (Skip (Skip (Skip (Skip (Skip (Skip (Skip (Skip (Skip (Skip (Skip (Branch
    (Branch (Leaf 0x48022057 [0xfc0ff07f]) (Branch (Leaf 0x48012057 [0xfc0ff07f]) (Leaf 0x48032057 [0xfc0ff07f]))) (Branch
    (Leaf 0x4802a057 [0xfc0ff07f]) (Branch (Leaf 0x4801a057 [0xfc0ff07f]) (Leaf 0x4803a057 [0xfc0ff07f])))))))))))))))))))
    (Leaf 0xc8002057 [0xfc00707f]))) (Branch (Leaf 0x28002057 [0xfc00707f]) (Branch (Leaf 0x68002057 [0xfc00707f]) (Leaf
    0xe8002057 [0xfc00707f])))) (Branch (Branch (Branch (Leaf 0x18002057 [0xfc00707f]) (Leaf 0x98002057 [0xfc00707f])) (Leaf
    0xd8002057 [0xfc00707f])) (Leaf 0x78002057 [0xfc00707f])))) (Branch (Branch (Branch (Branch (Branch (Leaf 0x4002057
    [0xfc00707f]) (Leaf 0x84002057 [0xfc00707f])) (Leaf 0xc4002057 [0xfc00707f])) (Branch (Branch (Leaf 0x24002057
    [0xfc00707f]) (Leaf 0xa4002057 [0xfc00707f])) (Leaf 0x64002057 [0xfc00707f]))) (Branch (Branch (Branch (Leaf 0x14002057
    [0xfc00707f]) (Leaf 0x94002057 [0xfc00707f])) (Leaf 0xd4002057 [0xfc00707f])) (Branch (Leaf 0xb4002057 [0xfc00707f])
    (Branch (Leaf 0x74002057 [0xfc00707f]) (Leaf 0xf4002057 [0xfc00707f]))))) (Branch (Branch (Branch (Branch (Leaf
    0xc002057 [0xfc00707f]) (Leaf 0x8c002057 [0xfc00707f])) (Leaf 0xcc002057 [0xfc00707f])) (Branch (Branch (Leaf 0x2c002057
    [0xfc00707f]) (Leaf 0xac002057 [0xfc00707f])) (Branch (Leaf 0x6c002057 [0xfc00707f]) (Leaf 0xec002057 [0xfc00707f]))))
    (Branch (Branch (Branch (Leaf 0x1c002057 [0xfc00707f]) (Leaf 0x9c002057 [0xfc00707f])) (Branch (Leaf 0x5e002057
    [0xfe00707f]) (Leaf 0xdc002057 [0xfc00707f]))) (Branch (Leaf 0xbc002057 [0xfc00707f]) (Branch (Leaf 0x7c002057
    [0xfc00707f]) (Leaf 0xfc002057 [0xfc00707f])))))))))))))))))) (Skip (Skip (Skip (Skip (Skip (Skip (Skip (Skip (Skip
    (Skip (Skip (Branch (Branch (Branch (Branch (Branch (Leaf 0x80006057 [0xfc00707f]) (Branch (Leaf 0x42006057
    [0xfff0707f]) (Leaf 0xc0006057 [0xfc00707f]))) (Branch (Leaf 0x20006057 [0xfc00707f]) (Leaf 0xe0006057 [0xfc00707f])))
    (Branch (Branch (Leaf 0x90006057 [0xfc00707f]) (Leaf 0xd0006057 [0xfc00707f])) (Leaf 0xf0006057 [0xfc00707f]))) (Branch
    (Branch (Branch (Leaf 0x88006057 [0xfc00707f]) (Leaf 0xc8006057 [0xfc00707f])) (Branch (Leaf 0x28006057 [0xfc00707f])
    (Leaf 0xe8006057 [0xfc00707f]))) (Branch (Branch (Leaf 0x98006057 [0xfc00707f]) (Leaf 0xd8006057 [0xfc00707f])) (Branch
    (Leaf 0x38006057 [0xfc00707f]) (Leaf 0xf8006057 [0xfc00707f]))))) (Branch (Branch (Branch (Branch (Leaf 0x84006057
    [0xfc00707f]) (Leaf 0xc4006057 [0xfc00707f])) (Skip (Branch (Leaf 0x24006057 [0xfc00707f]) (Leaf 0xa4006057
    [0xfc00707f])))) (Branch (Branch (Leaf 0x94006057 [0xfc00707f]) (Leaf 0xd4006057 [0xfc00707f])) (Branch (Leaf 0xb4006057
    [0xfc00707f]) (Leaf 0xf4006057 [0xfc00707f])))) (Branch (Branch (Branch (Leaf 0x8c006057 [0xfc00707f]) (Leaf 0xcc006057
    [0xfc00707f])) (Branch (Branch (Leaf 0x2c006057 [0xfc00707f]) (Leaf 0xac006057 [0xfc00707f])) (Leaf 0xec006057
    [0xfc00707f]))) (Branch (Branch (Leaf 0x9c006057 [0xfc00707f]) (Leaf 0xdc006057 [0xfc00707f])) (Branch (Branch (Leaf
    0x3c006057 [0xfc00707f]) (Leaf 0xbc006057 [0xfc00707f])) (Leaf 0xfc006057 [0xfc00707f]))))))))))))))))))) (Branch
    (Branch (Skip (Skip (Skip (Skip (Skip (Skip (Skip (Skip (Skip (Skip (Skip (Branch (Branch (Branch (Branch (Branch
    (Branch (Leaf 0x1057 [0xfc00707f]) (Leaf 0x80001057 [0xfc00707f])) (Branch (Leaf 0x42001057 [0xfe0ff07f]) (Leaf
    0xc0001057 [0xfc00707f]))) (Branch (Branch (Leaf 0x20001057 [0xfc00707f]) (Leaf 0xa0001057 [0xfc00707f])) (Branch (Leaf
    0x60001057 [0xfc00707f]) (Leaf 0xe0001057 [0xfc00707f])))) (Branch (Branch (Branch (Leaf 0x10001057 [0xfc00707f]) (Leaf
    0x90001057 [0xfc00707f])) (Leaf 0xd0001057 [0xfc00707f])) (Branch (Leaf 0xb0001057 [0xfc00707f]) (Branch (Leaf
    0x70001057 [0xfc00707f]) (Leaf 0xf0001057 [0xfc00707f]))))) (Branch (Branch (Branch (Leaf 0x8001057 [0xfc00707f])
    (Branch (Skip (Skip (Skip (Skip (Skip (Skip (Skip (Skip (Skip (Skip (Skip (Skip (Skip (Skip (Skip (Branch (Branch
    (Branch (Branch (Branch (Leaf 0x48001057 [0xfc0ff07f]) (Leaf 0x48081057 [0xfc0ff07f])) (Leaf 0x48041057 [0xfc0ff07f]))
    (Branch (Leaf 0x480a1057 [0xfc0ff07f]) (Leaf 0x48061057 [0xfc0ff07f]))) (Branch (Branch (Branch (Leaf 0x48011057
    [0xfc0ff07f]) (Leaf 0x48091057 [0xfc0ff07f])) (Leaf 0x48051057 [0xfc0ff07f])) (Branch (Branch (Leaf 0x48031057
    [0xfc0ff07f]) (Leaf 0x480b1057 [0xfc0ff07f])) (Leaf 0x48071057 [0xfc0ff07f])))) (Branch (Branch (Branch (Branch (Leaf
    0x48009057 [0xfc0ff07f]) (Leaf 0x48089057 [0xfc0ff07f])) (Leaf 0x48049057 [0xfc0ff07f])) (Leaf 0x480a9057 [0xfc0ff07f]))
    (Branch (Branch (Branch (Leaf 0x48019057 [0xfc0ff07f]) (Leaf 0x48099057 [0xfc0ff07f])) (Leaf 0x48059057 [0xfc0ff07f]))
    (Branch (Branch (Leaf 0x48039057 [0xfc0ff07f]) (Leaf 0x480b9057 [0xfc0ff07f])) (Leaf 0x48079057
    [0xfc0ff07f])))))))))))))))))))) (Leaf 0xc8001057 [0xfc00707f]))) (Skip (Branch (Leaf 0x28001057 [0xfc00707f]) (Leaf
    0xa8001057 [0xfc00707f])))) (Branch (Branch (Leaf 0x18001057 [0xfc00707f]) (Leaf 0xd8001057 [0xfc00707f])) (Branch (Leaf
    0xb8001057 [0xfc00707f]) (Leaf 0xf8001057 [0xfc00707f]))))) (Branch (Branch (Branch (Branch (Leaf 0x4001057
    [0xfc00707f]) (Leaf 0xc4001057 [0xfc00707f])) (Branch (Branch (Leaf 0x24001057 [0xfc00707f]) (Leaf 0xa4001057
    [0xfc00707f])) (Branch (Leaf 0x64001057 [0xfc00707f]) (Leaf 0xe4001057 [0xfc00707f])))) (Branch (Leaf 0x14001057
    [0xfc00707f]) (Branch (Leaf 0xb4001057 [0xfc00707f]) (Leaf 0xf4001057 [0xfc00707f])))) (Branch (Branch (Branch (Leaf
    0xc001057 [0xfc00707f]) (Branch (Skip (Skip (Skip (Skip (Skip (Skip (Skip (Skip (Skip (Skip (Skip (Skip (Skip (Skip
    (Skip (Branch (Skip (Branch (Skip (Branch (Leaf 0x4c001057 [0xfc0ff07f]) (Leaf 0x4c081057 [0xfc0ff07f]))) (Leaf
    0x4c021057 [0xfc0ff07f]))) (Leaf 0x4c029057 [0xfc0ff07f]))))))))))))))))) (Leaf 0xcc001057 [0xfc00707f]))) (Branch (Leaf
    0xac001057 [0xfc00707f]) (Leaf 0x6c001057 [0xfc00707f]))) (Branch (Leaf 0x1c001057 [0xfc00707f]) (Branch (Leaf
    0xbc001057 [0xfc00707f]) (Leaf 0xfc001057 [0xfc00707f]))))))))))))))))) (Skip (Skip (Skip (Skip (Skip (Skip (Skip (Skip
    (Skip (Skip (Skip (Branch (Branch (Branch (Branch (Branch (Branch (Leaf 0x5057 [0xfc00707f]) (Leaf 0x80005057
    [0xfc00707f])) (Branch (Leaf 0x42005057 [0xfff0707f]) (Leaf 0xc0005057 [0xfc00707f]))) (Branch (Branch (Leaf 0x20005057
    [0xfc00707f]) (Leaf 0xa0005057 [0xfc00707f])) (Branch (Leaf 0x60005057 [0xfc00707f]) (Leaf 0xe0005057 [0xfc00707f]))))
    (Branch (Branch (Branch (Leaf 0x10005057 [0xfc00707f]) (Leaf 0x90005057 [0xfc00707f])) (Leaf 0xd0005057 [0xfc00707f]))
    (Branch (Leaf 0xb0005057 [0xfc00707f]) (Branch (Leaf 0x70005057 [0xfc00707f]) (Leaf 0xf0005057 [0xfc00707f]))))) (Branch
    (Branch (Branch (Leaf 0x8005057 [0xfc00707f]) (Leaf 0xc8005057 [0xfc00707f])) (Skip (Branch (Leaf 0x28005057
    [0xfc00707f]) (Leaf 0xa8005057 [0xfc00707f])))) (Branch (Branch (Leaf 0x18005057 [0xfc00707f]) (Leaf 0xd8005057
    [0xfc00707f])) (Branch (Branch (Leaf 0x38005057 [0xfc00707f]) (Leaf 0xb8005057 [0xfc00707f])) (Leaf 0xf8005057
    [0xfc00707f]))))) (Branch (Branch (Branch (Leaf 0x84005057 [0xfc00707f]) (Branch (Branch (Leaf 0x24005057 [0xfc00707f])
    (Leaf 0xa4005057 [0xfc00707f])) (Leaf 0x64005057 [0xfc00707f]))) (Skip (Branch (Leaf 0xb4005057 [0xfc00707f]) (Branch
    (Leaf 0x74005057 [0xfc00707f]) (Leaf 0xf4005057 [0xfc00707f]))))) (Branch (Skip (Branch (Leaf 0xac005057 [0xfc00707f])
    (Leaf 0x6c005057 [0xfc00707f]))) (Branch (Branch (Leaf 0x9c005057 [0xfc00707f]) (Skip (Skip (Skip (Skip (Skip (Skip
    (Skip (Skip (Skip (Skip (Skip (Skip (Skip (Skip (Skip (Skip (Skip (Skip (Skip (Skip (Skip (Skip (Skip (Skip (Skip (Skip
    (Branch (Leaf 0x5c005057 [0xfe00707f]) (Leaf 0x5e005057 [0xfff0707f]))))))))))))))))))))))))))))) (Branch (Branch (Leaf
    0x3c005057 [0xfc00707f]) (Leaf 0xbc005057 [0xfc00707f])) (Branch (Leaf 0x7c005057 [0xfc00707f]) (Leaf 0xfc005057
    [0xfc00707f]))))))))))))))))))) (Branch (Skip (Skip (Skip (Skip (Skip (Skip (Skip (Skip (Skip (Skip (Skip (Branch
    (Branch (Branch (Branch (Branch (Branch (Leaf 0x3057 [0xfc00707f]) (Leaf 0x80003057 [0xfc00707f])) (Leaf 0x40003057
    [0xfe00707f])) (Branch (Leaf 0xa0003057 [0xfc00707f]) (Leaf 0x60003057 [0xfc00707f]))) (Skip (Branch (Branch (Leaf
    0x30003057 [0xfc00707f]) (Leaf 0xb0003057 [0xfc00707f])) (Leaf 0x70003057 [0xfc00707f])))) (Branch (Skip (Skip (Branch
    (Leaf 0x28003057 [0xfc00707f]) (Leaf 0xa8003057 [0xfc00707f])))) (Skip (Branch (Branch (Leaf 0x38003057 [0xfc00707f])
    (Leaf 0xb8003057 [0xfc00707f])) (Leaf 0x78003057 [0xfc00707f]))))) (Branch (Branch (Branch (Branch (Leaf 0x84003057
    [0xfc00707f]) (Leaf 0x44003057 [0xfc00707f])) (Branch (Branch (Leaf 0x24003057 [0xfc00707f]) (Leaf 0xa4003057
    [0xfc00707f])) (Leaf 0x64003057 [0xfc00707f]))) (Branch (Leaf 0x94003057 [0xfc00707f]) (Branch (Leaf 0xb4003057
    [0xfc00707f]) (Leaf 0x74003057 [0xfc00707f])))) (Branch (Branch (Leaf 0xc003057 [0xfc00707f]) (Skip (Branch (Leaf
    0x2c003057 [0xfc00707f]) (Leaf 0xac003057 [0xfc00707f])))) (Branch (Branch (Skip (Skip (Skip (Skip (Skip (Skip (Skip
    (Skip (Skip (Skip (Skip (Skip (Skip (Skip (Skip (Skip (Branch (Leaf 0x9e003057 [0xfe0ff07f]) (Branch (Leaf 0x9e00b057
    [0xfe0ff07f]) (Branch (Leaf 0x9e01b057 [0xfe0ff07f]) (Leaf 0x9e03b057 [0xfe0ff07f])))))))))))))))))))) (Skip (Skip (Skip
    (Skip (Skip (Skip (Skip (Skip (Skip (Skip (Skip (Skip (Skip (Skip (Skip (Skip (Skip (Skip (Skip (Skip (Skip (Skip (Skip
    (Skip (Skip (Skip (Branch (Leaf 0x5c003057 [0xfe00707f]) (Leaf 0x5e003057 [0xfff0707f])))))))))))))))))))))))))))))
    (Branch (Branch (Leaf 0x3c003057 [0xfc00707f]) (Leaf 0xbc003057 [0xfc00707f])) (Leaf 0x7c003057
    [0xfc00707f]))))))))))))))))) (Skip (Skip (Skip (Skip (Skip (Skip (Skip (Skip (Skip (Skip (Skip (Skip (Skip (Skip (Skip
    (Skip (Branch (Leaf 0x7057 [0x8000707f]) (Leaf 0x80007057 [0xfe00707f]))))))))))))))))))))))))))) (Leaf 0x37 [0x7f])))
    (Skip (Branch (Branch (Skip (Skip (Skip (Skip (Skip (Branch (Leaf 0xf [0x707f]) (Leaf 0x100f [0x707f]))))))) (Skip (Skip
    (Skip (Skip (Skip (Skip (Skip (Skip (Skip (Skip (Skip (Skip (Skip (Skip (Skip (Skip (Skip (Skip (Branch (Branch (Leaf
    0x4f [0x600007f]) (Leaf 0x400004f [0x600007f])) (Branch (Leaf 0x200004f [0x600007f]) (Leaf 0x600004f
    [0x600007f])))))))))))))))))))))) (Branch (Skip (Skip (Skip (Skip (Skip (Branch (Branch (Skip (Skip (Skip (Skip (Skip
    (Skip (Skip (Skip (Skip (Skip (Skip (Skip (Skip (Branch (Skip (Branch (Branch (Branch (Leaf 0x2f [0xf800707f]) (Leaf
    0x8000002f [0xf800707f])) (Branch (Leaf 0x4000002f [0xf800707f]) (Leaf 0xc000002f [0xf800707f]))) (Branch (Branch (Leaf
    0x2000002f [0xf800707f]) (Leaf 0xa000002f [0xf800707f])) (Branch (Leaf 0x6000002f [0xf800707f]) (Leaf 0xe000002f
    [0xf800707f]))))) (Leaf 0x800002f [0xf800707f]))))))))))))))) (Branch (Skip (Skip (Skip (Skip (Skip (Skip (Skip (Skip
    (Skip (Skip (Skip (Skip (Branch (Branch (Branch (Branch (Branch (Leaf 0x202f [0xf800707f]) (Leaf 0x8000202f
    [0xf800707f])) (Branch (Leaf 0x4000202f [0xf800707f]) (Leaf 0xc000202f [0xf800707f]))) (Branch (Branch (Leaf 0x2000202f
    [0xf800707f]) (Leaf 0xa000202f [0xf800707f])) (Branch (Leaf 0x6000202f [0xf800707f]) (Leaf 0xe000202f [0xf800707f]))))
    (Leaf 0x1000202f [0xf9f0707f])) (Branch (Leaf 0x800202f [0xf800707f]) (Leaf 0x1800202f [0xf800707f]))))))))))))))) (Skip
    (Skip (Skip (Skip (Skip (Skip (Skip (Skip (Skip (Skip (Skip (Skip (Branch (Skip (Branch (Branch (Branch (Leaf 0x602f
    [0xf800707f]) (Leaf 0x8000602f [0xf800707f])) (Branch (Leaf 0x4000602f [0xf800707f]) (Leaf 0xc000602f [0xf800707f])))
    (Branch (Branch (Leaf 0x2000602f [0xf800707f]) (Leaf 0xa000602f [0xf800707f])) (Branch (Leaf 0x6000602f [0xf800707f])
    (Leaf 0xe000602f [0xf800707f]))))) (Leaf 0x800602f [0xf800707f])))))))))))))))) (Branch (Skip (Skip (Skip (Skip (Skip
    (Skip (Skip (Skip (Skip (Skip (Skip (Skip (Skip (Branch (Skip (Branch (Branch (Branch (Leaf 0x502f [0xf800707f]) (Leaf
    0x8000502f [0xf800707f])) (Branch (Leaf 0x4000502f [0xf800707f]) (Leaf 0xc000502f [0xf800707f]))) (Branch (Branch (Leaf
    0x2000502f [0xf800707f]) (Leaf 0xa000502f [0xf800707f])) (Branch (Leaf 0x6000502f [0xf800707f]) (Leaf 0xe000502f
    [0xf800707f]))))) (Leaf 0x800502f [0xf800707f]))))))))))))))) (Branch (Skip (Skip (Skip (Skip (Skip (Skip (Skip (Skip
    (Skip (Skip (Skip (Skip (Branch (Branch (Branch (Branch (Branch (Leaf 0x302f [0xf800707f]) (Leaf 0x8000302f
    [0xf800707f])) (Branch (Leaf 0x4000302f [0xf800707f]) (Leaf 0xc000302f [0xf800707f]))) (Branch (Branch (Leaf 0x2000302f
    [0xf800707f]) (Leaf 0xa000302f [0xf800707f])) (Branch (Leaf 0x6000302f [0xf800707f]) (Leaf 0xe000302f [0xf800707f]))))
    (Leaf 0x1000302f [0xf9f0707f])) (Branch (Leaf 0x800302f [0xf800707f]) (Leaf 0x1800302f [0xf800707f]))))))))))))))) (Skip
    (Skip (Skip (Skip (Skip (Skip (Skip (Skip (Skip (Skip (Skip (Skip (Branch (Skip (Branch (Branch (Branch (Leaf 0x702f
    [0xf800707f]) (Leaf 0x8000702f [0xf800707f])) (Branch (Leaf 0x4000702f [0xf800707f]) (Leaf 0xc000702f [0xf800707f])))
    (Branch (Branch (Leaf 0x2000702f [0xf800707f]) (Leaf 0xa000702f [0xf800707f])) (Branch (Leaf 0x6000702f [0xf800707f])
    (Leaf 0xe000702f [0xf800707f]))))) (Leaf 0x800702f [0xf800707f])))))))))))))))))))))) (Leaf 0x6f [0x7f])))))))"

lemma list_ex_one: "list_ex P [a] = P a"
  by simp

lemma list_ex_more: "list_ex P (a # b # as) = (P a \<or> list_ex P (b # as))"
  by simp

lemmas entry_compute = placed_ok_listed placed_ok_unlisted low_bits_compute thrice_def append.simps insn_tree_def walks.simps
  if_True if_False list_ex_one list_ex_more simp_thms

lemma encoding_1_ok: "list_all (placed_ok insn_tree) encoding_1"
  unfolding encoding_1_def by (intro all_Cons all_Nil; simp only: entry_compute)

lemma encoding_2_ok: "list_all (placed_ok insn_tree) encoding_2"
  unfolding encoding_2_def by (intro all_Cons all_Nil; simp only: entry_compute)

lemma encoding_3_ok: "list_all (placed_ok insn_tree) encoding_3"
  unfolding encoding_3_def by (intro all_Cons all_Nil; simp only: entry_compute)

lemma encoding_4_ok: "list_all (placed_ok insn_tree) encoding_4"
  unfolding encoding_4_def by (intro all_Cons all_Nil; simp only: entry_compute)

lemma encoding_5_ok: "list_all (placed_ok insn_tree) encoding_5"
  unfolding encoding_5_def by (intro all_Cons all_Nil; simp only: entry_compute)

lemma encoding_6_ok: "list_all (placed_ok insn_tree) encoding_6"
  unfolding encoding_6_def by (intro all_Cons all_Nil; simp only: entry_compute)

lemma encoding_7_ok: "list_all (placed_ok insn_tree) encoding_7"
  unfolding encoding_7_def by (intro all_Cons all_Nil; simp only: entry_compute)

lemma encoding_8_ok: "list_all (placed_ok insn_tree) encoding_8"
  unfolding encoding_8_def by (intro all_Cons all_Nil; simp only: entry_compute)

lemma encoding_9_ok: "list_all (placed_ok insn_tree) encoding_9"
  unfolding encoding_9_def by (intro all_Cons all_Nil; simp only: entry_compute)

lemma encoding_10_ok: "list_all (placed_ok insn_tree) encoding_10"
  unfolding encoding_10_def by (intro all_Cons all_Nil; simp only: entry_compute)

lemma encoding_11_ok: "list_all (placed_ok insn_tree) encoding_11"
  unfolding encoding_11_def by (intro all_Cons all_Nil; simp only: entry_compute)

lemma declared_ok: "list_all (placed_ok insn_tree) declared_insns"
  unfolding declared_insns_def list_all_append
  by (intro conjI encoding_1_ok encoding_2_ok encoding_3_ok encoding_4_ok encoding_5_ok encoding_6_ok
    encoding_7_ok encoding_8_ok encoding_9_ok encoding_10_ok encoding_11_ok)

lemma tree_root: "\<exists>l r. insn_tree = Branch l r"
  unfolding insn_tree_def by (intro exI) (rule refl)

lemma base_entry:
  assumes "d \<in> set base_instructions"
  shows "walks insn_tree (thrice (low_bits (id_mask d))) (thrice (low_bits (id_match d))) (id_match d) (id_mask d)"
proof -
  obtain n m k where "(True, n, m, k) \<in> set declared_insns" "d = insn_desc_of (n, m, k)"
    using assms by (auto simp: base_instructions_def)
  then show ?thesis using declared_ok by (auto simp: list_all_iff placed_ok_def insn_desc_of_def)
qed

definition match_key :: "u64 \<Rightarrow> u64" where
  "match_key w = fst (look insn_tree (thrice (low_bits w)))"

lemma matching_leaf:
  assumes "d \<in> set base_instructions" "insn_matches w d"
  shows "fst (look insn_tree (thrice (low_bits w))) = id_match d" "id_mask d \<in> set (snd (look insn_tree (thrice (low_bits w))))"
proof -
  have "low_bits (id_match d) = map2 (\<and>) (low_bits w) (low_bits (id_mask d))"
    using assms(2) low_bits_and by (metis insn_matches_def)
  then have "thrice (low_bits (id_match d)) = map2 (\<and>) (thrice (low_bits w)) (thrice (low_bits (id_mask d)))"
    by (simp add: thrice_def)
  from walks_look [OF base_entry [OF assms(1)] this]
  show "fst (look insn_tree (thrice (low_bits w))) = id_match d" "id_mask d \<in> set (snd (look insn_tree (thrice (low_bits w))))"
    by (simp_all add: thrice_def)
qed

lemma tree_nested: "leaves_nested insn_tree"
  by (simp only: insn_tree_def leaves_nested.simps nested_simps simp_thms)

lemma masks_nested:
  assumes "d \<in> set base_instructions" "insn_matches w d" "e \<in> set base_instructions" "insn_matches w e" "id_mask d \<le> id_mask e"
  shows "id_mask d AND id_mask e = id_mask d"
proof -
  have "nested (snd (look insn_tree (thrice (low_bits w))))" by (rule look_nested [OF tree_nested])
  then have "id_mask d AND id_mask e = id_mask d \<or> id_mask d AND id_mask e = id_mask e"
    using matching_leaf(2) [OF assms(1,2)] matching_leaf(2) [OF assms(3,4)] by (auto simp: nested_def list_all_iff)
  then show ?thesis using assms(5) word_and_le2 [of "id_mask d" "id_mask e"] by auto
qed

interpretation spike: opcode_table base_instructions illegal_instruction match_key
proof
  fix d :: "string insn_desc" and w
  assume d: "d \<in> set base_instructions"
  show "id_match d = match_key w" if "insn_matches w d"
    using matching_leaf(1) [OF d that] by (simp add: match_key_def)
  show "id_mask d \<noteq> 0"
  proof
    assume "id_mask d = 0"
    obtain l r where t: "insn_tree = Branch l r" using tree_root by blast
    have "thrice (low_bits (id_mask d)) = False # tl (thrice (low_bits 0))"
      using \<open>id_mask d = 0\<close> by (simp add: thrice_def low_bits_zero suc_32 del: One_nat_def)
    then show False using base_entry [OF d]
      unfolding t by (cases "thrice (low_bits (id_match d))") simp_all
  qed
qed

section \<open>Properties\<close>

text \<open>C11: decoding does not depend on what was decoded before: from start-up, any sequence of fetched words
  is decoded to the functions that a search of the freshly sorted table of all registered
  instructions gives for each word alone, although the opcode cache fills up and the table is
  reordered on the way, and no access leaves the table. The all-zero word alone may also hit the
  initial cache entry, which is the illegal instruction.\<close>

theorem decoding_is_stateless:
  "\<exists>fs d. decode_run xlen bs (register_base_instructions illegal_instruction base_instructions \<lparr>dc_instructions = [], dc_cache = c\<rparr>) =
      Some (fs, d) \<and>
    list_all2 (\<lambda>b f. \<exists>e. f = (if xlen = 64 then id_rv64 e else id_rv32 e) \<and>
      (dispatch illegal_instruction base_instructions (insn_bits b) = Some e \<or>
       insn_bits b = 0 \<and> e = illegal_desc illegal_instruction)) bs fs"
  using spike.run_ok [OF spike.start_ok] by blast

text \<open>C31: every step of the decoder preserves its invariant, which holds at start-up: the descriptors of each
  match value keep their order and stay together, the illegal instruction that ends every search
  stays last, and each cache entry is what the table gives for its word.\<close>

theorem decoder_invariant:
  "decoder_ok illegal_instruction base_instructions
     (register_base_instructions illegal_instruction base_instructions \<lparr>dc_instructions = [], dc_cache = c\<rparr>) \<and>
   (decoder_ok illegal_instruction base_instructions d \<longrightarrow>
     (\<exists>f d'. decode_insn xlen b d = Some (f, d') \<and> decoder_ok illegal_instruction base_instructions d'))"
  using spike.start_ok spike.decode_step by blast

theorem decoder_invariant_witness:
  "\<forall>c. \<exists>f d'. decode_insn 64 0x13 (register_base_instructions illegal_instruction base_instructions \<lparr>dc_instructions = [], dc_cache = c\<rparr>) = Some (f, d')"
  using decoder_invariant [where xlen = 64 and b = "0x13"] by blast

text \<open>C24: the entry a word is dispatched to matches it and is the most specific one: every registered
  instruction that matches the word tests only bits that the entry tests too, and the illegal
  instruction is chosen only when no registered instruction matches.\<close>

theorem dispatch_most_specific:
  "\<exists>e. dispatch illegal_instruction base_instructions w = Some e \<and> insn_matches w e \<and>
    (e = illegal_desc illegal_instruction \<and> (\<forall>d \<in> set base_instructions. \<not> insn_matches w d) \<or>
     e \<in> set base_instructions \<and> (\<forall>d \<in> set base_instructions. insn_matches w d \<longrightarrow> id_mask d AND id_mask e = id_mask d))"
  using spike.dispatch_total [of w] spike.dispatch_specific [of w] masks_nested by blast

text \<open>The word of \<open>c.ebreak\<close> is one of \<open>c.jalr\<close> and of \<open>c.add\<close> too.\<close>

theorem dispatch_most_specific_witness:
  "\<exists>e. dispatch illegal_instruction base_instructions 0x9002 = Some e \<and> 0xFFFF AND id_mask e = 0xFFFF"
proof -
  let ?d = "insn_desc_of (''c_ebreak'', 0x9002, 0xffff)"
  have "(True, ''c_ebreak'', 0x9002, 0xffff) \<in> set encoding_4"
    unfolding encoding_4_def by (simp only: list.set insert_iff simp_thms)
  then have "(True, ''c_ebreak'', 0x9002, 0xffff) \<in> set (filter fst declared_insns)" by (simp add: declared_insns_def)
  then have d: "?d \<in> set base_instructions" unfolding base_instructions_def by (auto intro!: rev_image_eqI)
  have "insn_matches 0x9002 ?d" "id_mask ?d = 0xffff" by (simp_all add: insn_matches_def insn_desc_of_def)
  with d show ?thesis using dispatch_most_specific [of "0x9002"] by metis
qed

end
