(* ===== verification/RV_State.thy ===== *)
theory RV_State
  imports RV_Decode SF_Fields
begin

text \<open>
  The state of a hart and the macros the instruction bodies of \<open>riscv/insns\<close> are written in
  (\<open>riscv/decode.h\<close>, \<open>riscv/processor.h\<close>, \<open>riscv/trap.h\<close>): register files, the control and status
  registers of \<open>state_t\<close>, extension checks, traps, program counter updates, the sign conventions of
  RV32, and the NaN boxing of floating-point registers. The state is \<open>state_t\<close> with the fields of
  \<open>processor_t\<close> that the code reads, and the thread-local SoftFloat state; the commit log is not
  modelled (\<open>RISCV_ENABLE_COMMITLOG\<close> undefined) and of the vector unit only the registers with a CSR
  address. What the code throws is the \<open>Inl\<close> of a sum, as is \<open>abort()\<close>.
\<close>

section \<open>State\<close>

text \<open>A floating-point register is the \<open>float128_t\<close> it is stored as: \<open>v[0]\<close> low, \<open>v[1]\<close> high.\<close>

record freg_t =
  fv0 :: u64
  fv1 :: u64

datatype trap =
    Trap_illegal_instruction u64
  | Trap_virtual_instruction u64
  | Trap_breakpoint u64
  | Trap_instruction_address_misaligned u64 u64 u64
  | Trap_instruction_access_fault u64 u64 u64
  | Trap_load_address_misaligned u64 u64 u64
  | Trap_store_address_misaligned u64 u64 u64
  | Trap_load_access_fault u64 u64 u64
  | Trap_store_access_fault u64 u64 u64
  | Trap_instruction_page_fault u64 u64 u64
  | Trap_load_page_fault u64 u64 u64
  | Trap_store_page_fault u64 u64 u64
  | Trap_instruction_guest_page_fault u64 u64 u64
  | Trap_load_guest_page_fault u64 u64 u64
  | Trap_store_guest_page_fault u64 u64 u64
  | Trap_user_ecall
  | Trap_supervisor_ecall
  | Trap_virtual_supervisor_ecall
  | Trap_machine_ecall
  | Trap_interrupt u64
  | Wait_for_interrupt
  | Abort

text \<open>The debug and trigger registers, the registers of the vector unit that have addresses, and what
  the command line and the device tree fix.\<close>

record dcsr_t =
  dcsr_prv :: u8
  dcsr_step :: bool
  dcsr_ebreakm :: bool
  dcsr_ebreakh :: bool
  dcsr_ebreaks :: bool
  dcsr_ebreaku :: bool
  dcsr_halt :: bool
  dcsr_cause :: u8

record mcontrol_t =
  mc_type :: u8
  mc_dmode :: bool
  mc_maskmax :: u8
  mc_select :: bool
  mc_timing :: bool
  mc_action :: u64
  mc_chain :: bool
  mc_match :: u64
  mc_m :: bool
  mc_h :: bool
  mc_s :: bool
  mc_u :: bool
  mc_execute :: bool
  mc_store :: bool
  mc_load :: bool

record vector_csrs =
  vstart :: u64
  vxrm :: u64
  vxsat :: u64
  vl :: u64
  vtype :: u64
  vlenb :: u64
  vlen :: u64

record config =
  max_xlen :: nat
  max_isa :: u64
  n_pmp :: nat
  lg_pmp_granularity :: nat
  has_ext :: bool
  hart_id :: u32

datatype single_step = STEP_NONE | STEP_STEPPING | STEP_STEPPED

text \<open>The machine, supervisor, hypervisor and debug registers of \<open>state_t\<close>.\<close>

record csrs =
  pc_reg :: u64
  mepc :: u64
  mtval :: u64
  mscratch :: u64
  mtvec :: u64
  mcause :: u64
  minstret :: u64
  mie :: u64
  mip :: u64
  medeleg :: u64
  mideleg :: u64
  mcounteren :: u32
  scounteren :: u32
  sepc :: u64
  stval :: u64
  sscratch :: u64
  stvec :: u64
  satp :: u64
  scause :: u64
  mtval2 :: u64
  mtinst :: u64
  hstatus :: u64
  hideleg :: u64
  hedeleg :: u64
  hcounteren :: u32
  htval :: u64
  htinst :: u64
  hgatp :: u64
  vsstatus :: u64
  vstvec :: u64
  vsscratch :: u64
  vsepc :: u64
  vscause :: u64
  vstval :: u64
  vsatp :: u64
  dpc :: u64
  dscratch0 :: u64
  dscratch1 :: u64
  dcsr :: dcsr_t
  tselect :: u64
  mcontrol :: "mcontrol_t list"
  tdata2 :: "u64 list"
  debug_mode :: bool
  pmpcfg :: "u8 list"
  pmpaddr :: "u64 list"
  serialized :: bool
  step_state :: single_step
  VU :: vector_csrs

text \<open>What the processor asks of its memory management unit, which is not part of the hart: the calls are
  noted in order and carried out when the instruction ends, before the next access to memory.\<close>

datatype mmu_call = Flush_tlb | Flush_icache | Trigger_updated

record hart =
  XPR :: "u64 list"
  FPR :: "freg_t list"
  prv :: u64
  virt :: bool
  misa :: u64
  mstatus :: u64
  fflags :: u32
  frm :: u32
  extension_table :: "nat \<Rightarrow> bool"
  softfloat :: sf_state
  cur_xlen :: nat
  csr :: csrs
  cfg :: config
  mmu_calls :: "mmu_call list"

definition call_mmu :: "mmu_call \<Rightarrow> hart \<Rightarrow> hart" where
  "call_mmu c p = p\<lparr>mmu_calls := mmu_calls p @ [c]\<rparr>"

lemma call_mmu_simps [simp]:
  "XPR (call_mmu c p) = XPR p" "FPR (call_mmu c p) = FPR p" "prv (call_mmu c p) = prv p" "virt (call_mmu c p) = virt p"
  "misa (call_mmu c p) = misa p" "mstatus (call_mmu c p) = mstatus p" "fflags (call_mmu c p) = fflags p"
  "frm (call_mmu c p) = frm p" "extension_table (call_mmu c p) = extension_table p"
  "softfloat (call_mmu c p) = softfloat p" "cur_xlen (call_mmu c p) = cur_xlen p" "csr (call_mmu c p) = csr p"
  "cfg (call_mmu c p) = cfg p"
  by (simp_all add: call_mmu_def)

text \<open>An instruction body takes \<open>xlen\<close>, the instruction, its address and that of the next one.\<close>

type_synonym insn_body = "nat \<Rightarrow> u64 \<Rightarrow> u64 \<Rightarrow> u64 \<Rightarrow> hart \<Rightarrow> trap + (u64 \<times> hart)"

section \<open>Register files\<close>

definition regfile_write :: "bool \<Rightarrow> u64 \<Rightarrow> 'a \<Rightarrow> 'a list \<Rightarrow> 'a list" where
  "regfile_write zero_reg i v data = (if \<not> zero_reg \<or> i \<noteq> 0 then data[unat i := v] else data)"

definition READ_REG :: "u64 \<Rightarrow> hart \<Rightarrow> u64" where "READ_REG r p = XPR p ! unat r"
definition READ_FREG :: "u64 \<Rightarrow> hart \<Rightarrow> freg_t" where "READ_FREG r p = FPR p ! unat r"
definition WRITE_REG :: "u64 \<Rightarrow> u64 \<Rightarrow> hart \<Rightarrow> hart" where
  "WRITE_REG r v p = p\<lparr>XPR := regfile_write True r v (XPR p)\<rparr>"

definition RS1 :: "u64 \<Rightarrow> hart \<Rightarrow> u64" where "RS1 insn p = READ_REG (insn_rs1 insn) p"
definition RS2 :: "u64 \<Rightarrow> hart \<Rightarrow> u64" where "RS2 insn p = READ_REG (insn_rs2 insn) p"
definition WRITE_RD :: "u64 \<Rightarrow> u64 \<Rightarrow> hart \<Rightarrow> hart" where
  "WRITE_RD insn v = WRITE_REG (insn_rd insn) v"

definition RVC_RS1 :: "u64 \<Rightarrow> hart \<Rightarrow> u64" where "RVC_RS1 insn p = READ_REG (rvc_rs1 insn) p"
definition RVC_RS2 :: "u64 \<Rightarrow> hart \<Rightarrow> u64" where "RVC_RS2 insn p = READ_REG (rvc_rs2 insn) p"
definition RVC_RS1S :: "u64 \<Rightarrow> hart \<Rightarrow> u64" where "RVC_RS1S insn p = READ_REG (rvc_rs1s insn) p"
definition RVC_RS2S :: "u64 \<Rightarrow> hart \<Rightarrow> u64" where "RVC_RS2S insn p = READ_REG (rvc_rs2s insn) p"
definition RVC_SP :: "hart \<Rightarrow> u64" where "RVC_SP p = READ_REG 2 p"
definition WRITE_RVC_RS1S :: "u64 \<Rightarrow> u64 \<Rightarrow> hart \<Rightarrow> hart" where
  "WRITE_RVC_RS1S insn v = WRITE_REG (rvc_rs1s insn) v"
definition WRITE_RVC_RS2S :: "u64 \<Rightarrow> u64 \<Rightarrow> hart \<Rightarrow> hart" where
  "WRITE_RVC_RS2S insn v = WRITE_REG (rvc_rs2s insn) v"

section \<open>Requirements\<close>

text \<open>The letters \<open>'A'\<close> to \<open>'Z'\<close> are bits of \<open>misa\<close>; other extensions have a table.\<close>

abbreviation (input) ext_A :: nat where "ext_A \<equiv> 65"
abbreviation (input) ext_C :: nat where "ext_C \<equiv> 67"
abbreviation (input) ext_D :: nat where "ext_D \<equiv> 68"
abbreviation (input) ext_F :: nat where "ext_F \<equiv> 70"
abbreviation (input) ext_M :: nat where "ext_M \<equiv> 77"
abbreviation (input) EXT_ZFH :: nat where "EXT_ZFH \<equiv> 0"

definition supports_extension :: "nat \<Rightarrow> hart \<Rightarrow> bool" where
  "supports_extension ext p =
     (if 65 \<le> ext \<and> ext \<le> 90 then drop_bit (ext - 65) (misa p) AND 1 \<noteq> 0 else extension_table p ext)"

definition require :: "bool \<Rightarrow> u64 \<Rightarrow> trap + 'a \<Rightarrow> trap + 'a" where
  "require x insn k = (if x then k else Inl (Trap_illegal_instruction (insn_bits insn)))"

lemma supports_extension_call [simp]: "supports_extension ext (call_mmu c p) = supports_extension ext p"
  by (simp add: supports_extension_def)

definition require_extension :: "nat \<Rightarrow> u64 \<Rightarrow> hart \<Rightarrow> trap + 'a \<Rightarrow> trap + 'a" where
  "require_extension s insn p = require (supports_extension s p) insn"

definition require_rv64 :: "nat \<Rightarrow> u64 \<Rightarrow> trap + 'a \<Rightarrow> trap + 'a" where
  "require_rv64 xlen insn = require (xlen = 64) insn"

abbreviation (input) MSTATUS_FS :: u64 where "MSTATUS_FS \<equiv> 0x00006000"
abbreviation (input) MSTATUS32_SD :: u64 where "MSTATUS32_SD \<equiv> 0x80000000"
abbreviation (input) MSTATUS64_SD :: u64 where "MSTATUS64_SD \<equiv> 0x8000000000000000"

definition require_fp :: "u64 \<Rightarrow> hart \<Rightarrow> trap + 'a \<Rightarrow> trap + 'a" where
  "require_fp insn p = require (mstatus p AND MSTATUS_FS \<noteq> 0) insn"

section \<open>Widths\<close>

definition sext32 :: "u64 \<Rightarrow> u64" where "sext32 x = scast (ucast x :: u32)"
definition zext32 :: "u64 \<Rightarrow> u64" where "zext32 x = ucast (ucast x :: u32)"
definition sext_xlen :: "nat \<Rightarrow> u64 \<Rightarrow> u64" where
  "sext_xlen xlen x = signed_drop_bit (64 - xlen) (push_bit (64 - xlen) x)"
definition zext_xlen :: "nat \<Rightarrow> u64 \<Rightarrow> u64" where
  "zext_xlen xlen x = drop_bit (64 - xlen) (push_bit (64 - xlen) x)"

section \<open>Program counter\<close>

definition pc_alignment_mask :: "hart \<Rightarrow> u64" where
  "pc_alignment_mask p = NOT (if supports_extension ext_C p then 0 else 2)"

text \<open>\<open>set_pc\<close>: the alignment check, then the continuation with the new \<open>npc\<close>.\<close>

definition set_pc :: "nat \<Rightarrow> u64 \<Rightarrow> hart \<Rightarrow> (u64 \<Rightarrow> trap + 'a) \<Rightarrow> trap + 'a" where
  "set_pc xlen x p k =
     (if x AND NOT (pc_alignment_mask p) \<noteq> 0 then Inl (Trap_instruction_address_misaligned x 0 0)
      else k (sext_xlen xlen x))"

text \<open>\<open>insn_template.cc\<close>: the function of an instruction is its body with \<open>npc\<close> past the instruction.\<close>

definition rv_insn :: "insn_body \<Rightarrow> u64 \<Rightarrow> nat \<Rightarrow> u64 \<Rightarrow> u64 \<Rightarrow> hart \<Rightarrow> trap + (u64 \<times> hart)" where
  "rv_insn body opcode xlen insn pc p =
     body xlen insn pc (sext_xlen xlen (pc + word_of_nat (insn_length opcode))) p"

section \<open>Floating-point registers\<close>

definition isBoxedF64 :: "freg_t \<Rightarrow> bool" where "isBoxedF64 r = (fv1 r + 1 = 0)"
definition isBoxedF32 :: "freg_t \<Rightarrow> bool" where
  "isBoxedF32 r = (isBoxedF64 r \<and> (ucast (drop_bit 32 (fv0 r) + 1) :: u32) = 0)"
definition isBoxedF16 :: "freg_t \<Rightarrow> bool" where
  "isBoxedF16 r = (isBoxedF32 r \<and> drop_bit 16 (fv0 r) + 1 = push_bit 48 1)"

definition f16 :: "freg_t \<Rightarrow> float16_t" where
  "f16 r = (if isBoxedF16 r then ucast (fv0 r) else ucast defaultNaNF16UI)"
definition f32 :: "freg_t \<Rightarrow> float32_t" where
  "f32 r = (if isBoxedF32 r then ucast (fv0 r) else ucast defaultNaNF32UI)"
definition f64 :: "freg_t \<Rightarrow> float64_t" where
  "f64 r = (if isBoxedF64 r then fv0 r else defaultNaNF64UI)"

definition freg16 :: "float16_t \<Rightarrow> freg_t" where
  "freg16 f = \<lparr>fv0 = push_bit 16 (- 1) OR ucast f, fv1 = - 1\<rparr>"
definition freg32 :: "float32_t \<Rightarrow> freg_t" where
  "freg32 f = \<lparr>fv0 = push_bit 32 (- 1) OR ucast f, fv1 = - 1\<rparr>"
definition freg64 :: "float64_t \<Rightarrow> freg_t" where
  "freg64 f = \<lparr>fv0 = f, fv1 = - 1\<rparr>"

definition dirty_fp_state :: "nat \<Rightarrow> hart \<Rightarrow> hart" where
  "dirty_fp_state xlen p =
     p\<lparr>mstatus := mstatus p OR (MSTATUS_FS OR (if xlen = 64 then MSTATUS64_SD else MSTATUS32_SD))\<rparr>"

definition WRITE_FREG :: "nat \<Rightarrow> u64 \<Rightarrow> freg_t \<Rightarrow> hart \<Rightarrow> hart" where
  "WRITE_FREG xlen r v p = dirty_fp_state xlen (p\<lparr>FPR := regfile_write False r v (FPR p)\<rparr>)"

definition FRS1 :: "u64 \<Rightarrow> hart \<Rightarrow> freg_t" where "FRS1 insn p = READ_FREG (insn_rs1 insn) p"
definition FRS2 :: "u64 \<Rightarrow> hart \<Rightarrow> freg_t" where "FRS2 insn p = READ_FREG (insn_rs2 insn) p"
definition WRITE_FRD :: "nat \<Rightarrow> u64 \<Rightarrow> freg_t \<Rightarrow> hart \<Rightarrow> hart" where
  "WRITE_FRD xlen insn v = WRITE_FREG xlen (insn_rd insn) v"

text \<open>The rounding mode of an instruction, static or dynamic; reserved modes are illegal.\<close>

definition RM :: "u64 \<Rightarrow> hart \<Rightarrow> (int \<Rightarrow> trap + 'a) \<Rightarrow> trap + 'a" where
  "RM insn p k =
     (let rm = uint (insn_rm insn);
          rm = (if rm = 7 then uint (frm p) else rm)
      in if 4 < rm then Inl (Trap_illegal_instruction (insn_bits insn)) else k rm)"

definition set_fp_exceptions :: "nat \<Rightarrow> hart \<Rightarrow> hart" where
  "set_fp_exceptions xlen p =
     (let flags = softfloat_exceptionFlags (softfloat p);
          p = (if flags \<noteq> 0 then (dirty_fp_state xlen p)\<lparr>fflags := fflags p OR ucast flags\<rparr> else p)
      in p\<lparr>softfloat := (softfloat p)\<lparr>softfloat_exceptionFlags := 0\<rparr>\<rparr>)"

section \<open>Widths as sign extensions\<close>

lemma sext_xlen_64 [simp]: "sext_xlen 64 x = x"
  by (simp add: sext_xlen_def)

lemma zext_xlen_64 [simp]: "zext_xlen 64 x = x"
  by (simp add: zext_xlen_def)

lemma sext_xlen_32: "sext_xlen 32 x = signed_take_bit 31 x"
  unfolding sext_xlen_def
proof (rule bit_word_eqI)
  fix i assume "i < LENGTH(64)"
  then show "bit (signed_drop_bit (64 - 32) (push_bit (64 - 32) x)) i = bit (signed_take_bit 31 x) i"
    by (cases "i = 31") (auto simp: bit_signed_drop_bit_iff bit_simps min_def)
qed

lemma zext_xlen_32: "zext_xlen 32 x = take_bit 32 x"
  unfolding zext_xlen_def by (rule bit_word_eqI) (auto simp: bit_simps)

lemma scast_32: "(scast (w :: u32) :: u64) = signed_take_bit 31 (ucast w)"
  by (rule bit_word_eqI) (auto simp: bit_simps min_def)

lemma sext32_take: "sext32 x = signed_take_bit 31 x"
  unfolding sext32_def scast_32 by (rule bit_word_eqI) (auto simp: bit_simps min_def)

lemma zext32_take: "zext32 x = take_bit 32 x"
  unfolding zext32_def by (rule bit_word_eqI) (auto simp: bit_simps)

section \<open>The invariant of a hart\<close>

text \<open>A register value is canonical if it is sign-extended from \<open>xlen\<close> bits.\<close>

definition canonical :: "nat \<Rightarrow> u64 \<Rightarrow> bool" where
  "canonical xlen v = (sext_xlen xlen v = v)"

named_theorems canon \<open>canonical values\<close>

lemma canonical_64 [simp]: "canonical 64 v"
  by (simp add: canonical_def)

lemma canonical_32: "canonical 32 v \<longleftrightarrow> signed_take_bit 31 v = v"
  by (simp add: canonical_def sext_xlen_32)

lemma canonical_32I:
  assumes "\<And>i. 31 \<le> i \<Longrightarrow> i < 64 \<Longrightarrow> bit v i = s"
  shows "canonical 32 v"
  unfolding canonical_32
proof (rule bit_word_eqI)
  fix i assume "i < LENGTH(64)"
  then show "bit (signed_take_bit 31 v) i = bit v i"
    using assms [of i] assms [of 31] by (cases "i < 31") (simp_all add: bit_sext min_def)
qed

lemma canonical_32D: "canonical 32 v \<Longrightarrow> 31 \<le> i \<Longrightarrow> i < 64 \<Longrightarrow> bit v i = bit v 31"
  using bit_sext [of 31 v i] by (simp add: canonical_32 min_def)

lemma signed_take_ops:
  "signed_take_bit 31 (v AND w) = signed_take_bit 31 v AND signed_take_bit 31 w"
  "signed_take_bit 31 (v OR w) = signed_take_bit 31 v OR signed_take_bit 31 w"
  "signed_take_bit 31 (v XOR w) = signed_take_bit 31 v XOR signed_take_bit 31 w" for v w :: u64
  by (rule bit_word_eqI; simp add: bit_simps)+

lemma signed_take_twice: "signed_take_bit 31 (signed_take_bit 31 v) = signed_take_bit 31 v" for v :: u64
  by (rule bit_word_eqI) (auto simp: bit_simps min_def)

lemma canonical_sext_xlen [canon]: "xlen \<in> {32, 64} \<Longrightarrow> canonical xlen (sext_xlen xlen v)"
  by (auto simp: canonical_32 sext_xlen_32 signed_take_twice)

lemma canonical_sext32 [canon]: "xlen \<in> {32, 64} \<Longrightarrow> canonical xlen (sext32 v)"
  by (auto simp: canonical_32 sext32_take signed_take_twice)

lemma canonical_scast [canon]: "xlen \<in> {32, 64} \<Longrightarrow> canonical xlen (scast (w :: u32))"
  by (auto simp: canonical_32 scast_32 signed_take_twice)

lemma canonical_ops [canon]:
  assumes "xlen \<in> {32, 64}" "canonical xlen v" "canonical xlen w"
  shows "canonical xlen (v AND w)" "canonical xlen (v OR w)" "canonical xlen (v XOR w)"
  using assms by (auto simp: canonical_32 signed_take_ops)

lemma canonical_consts [canon]:
  "xlen \<in> {32, 64} \<Longrightarrow> canonical xlen 0" "xlen \<in> {32, 64} \<Longrightarrow> canonical xlen (- 1)"
  "xlen \<in> {32, 64} \<Longrightarrow> canonical xlen (of_bool b)"
  by (auto simp: canonical_32)

lemma canonical_small: "xlen \<in> {32, 64} \<Longrightarrow> take_bit 31 v = v \<Longrightarrow> canonical xlen v"
proof -
  assume x: "xlen \<in> {32, 64}" and v: "take_bit 31 v = v"
  have "\<not> bit v i" if "31 \<le> i" for i using that by (subst v [symmetric]) (simp add: bit_take_bit_iff)
  then have "signed_take_bit 31 v = v" by (intro bit_word_eqI) (auto simp: bit_simps min_def)
  then show "canonical xlen v" using x by (auto simp: canonical_32)
qed

definition hart_regs :: "nat \<Rightarrow> hart \<Rightarrow> bool" where
  "hart_regs xlen p =
     (length (XPR p) = 32 \<and> XPR p ! 0 = 0 \<and> list_all (canonical xlen) (XPR p) \<and> length (FPR p) = 32)"

definition hart_ok :: "nat \<Rightarrow> hart \<Rightarrow> bool" where
  "hart_ok xlen p = (hart_regs xlen p \<and> softfloat_exceptionFlags (softfloat p) = 0)"

lemma canonical_READ_REG: "hart_ok xlen p \<Longrightarrow> unat r < 32 \<Longrightarrow> canonical xlen (READ_REG r p)"
  by (auto simp: hart_ok_def hart_regs_def READ_REG_def list_all_length)

lemma insn_x_bound: "unat (insn_x lo len b) < 2 ^ len"
proof (cases "len < 64")
  case True
  have "insn_x lo len b = take_bit len (drop_bit lo b)"
    by (simp add: insn_x_def take_bit_eq_mask mask_eq_exp_minus_1)
  then show ?thesis by (simp add: unsigned_take_bit_eq)
next
  case False
  then have "(2 :: nat) ^ 64 \<le> 2 ^ len" by (intro power_increasing) simp_all
  then show ?thesis using unat_lt_64 [of "insn_x lo len b"] by simp
qed

lemma field_bound:
  "unat (insn_rd b) < 32" "unat (insn_rs1 b) < 32" "unat (insn_rs2 b) < 32" "unat (insn_rs3 b) < 32"
  "unat (rvc_rd b) < 32" "unat (rvc_rs1 b) < 32" "unat (rvc_rs2 b) < 32" "unat (rvc_rs1s b) < 32" "unat (rvc_rs2s b) < 32"
  using insn_x_bound [of 7 5 b] insn_x_bound [of 15 5 b] insn_x_bound [of 20 5 b] insn_x_bound [of 27 5 b]
    insn_x_bound [of 2 5 b] insn_x_bound [of 7 3 b] insn_x_bound [of 2 3 b]
  by (simp_all add: insn_rd_def insn_rs1_def insn_rs2_def insn_rs3_def rvc_rd_def rvc_rs1_def rvc_rs2_def
      rvc_rs1s_def rvc_rs2s_def unat_word_ariths)

lemma canonical_operands [canon]:
  assumes "hart_ok xlen p"
  shows "canonical xlen (RS1 insn p)" "canonical xlen (RS2 insn p)" "canonical xlen (RVC_RS1 insn p)"
    "canonical xlen (RVC_RS2 insn p)" "canonical xlen (RVC_RS1S insn p)" "canonical xlen (RVC_RS2S insn p)" "canonical xlen (RVC_SP p)"
  using assms
  by (simp_all add: RS1_def RS2_def RVC_RS1_def RVC_RS2_def RVC_RS1S_def RVC_RS2S_def RVC_SP_def canonical_READ_REG field_bound)

lemma hart_regs_WRITE_REG:
  assumes "hart_regs xlen p" "canonical xlen v"
  shows "hart_regs xlen (WRITE_REG r v p)"
proof (cases "r = 0")
  case False
  then have "unat r \<noteq> 0" by (simp add: unat_eq_0)
  moreover have "list_all (canonical xlen) ((XPR p)[unat r := v])"
    using assms set_update_subset_insert [of "XPR p" "unat r" v] unfolding hart_regs_def list_all_iff by blast
  ultimately show ?thesis using assms(1) False by (simp add: hart_regs_def WRITE_REG_def regfile_write_def)
qed (use assms in \<open>simp add: hart_regs_def WRITE_REG_def regfile_write_def\<close>)

lemma softfloat_WRITE_REG [simp]: "softfloat (WRITE_REG r v p) = softfloat p"
  by (simp add: WRITE_REG_def)

lemma hart_ok_WRITE_REG: "hart_ok xlen p \<Longrightarrow> canonical xlen v \<Longrightarrow> hart_ok xlen (WRITE_REG r v p)"
  by (simp add: hart_ok_def hart_regs_WRITE_REG)

lemma hart_ok_writes:
  assumes "hart_ok xlen p" "canonical xlen v"
  shows "hart_ok xlen (WRITE_RD insn v p)" "hart_ok xlen (WRITE_RVC_RS1S insn v p)" "hart_ok xlen (WRITE_RVC_RS2S insn v p)"
  using assms by (simp_all add: WRITE_RD_def WRITE_RVC_RS1S_def WRITE_RVC_RS2S_def hart_ok_WRITE_REG)

lemma canonical_immediates [canon]:
  assumes "xlen \<in> {32, 64}" "signed_take_bit 31 insn = insn"
  shows "canonical xlen (i_imm insn)" "canonical xlen (u_imm insn)"
proof -
  have c: "canonical 32 insn" using assms(2) by (simp only: canonical_32)
  have i: "bit (i_imm insn) i = bit insn 31" if "31 \<le> i" "i < 64" for i
  proof -
    have "bit insn (if i < 44 then 20 + i else 63) = bit insn 31" by (rule canonical_32D [OF c]) (use that in auto)
    then show ?thesis using that by (simp only: bit_i_imm simp_thms)
  qed
  have u: "bit (u_imm insn) i = bit insn 31" if "31 \<le> i" "i < 64" for i
    using that canonical_32D [OF c that] by (simp only: bit_u_imm) auto
  show "canonical xlen (i_imm insn)" "canonical xlen (u_imm insn)"
    using assms(1) canonical_32I [OF i] canonical_32I [OF u] by auto
qed

text \<open>A program counter is canonical, even, and a multiple of four without the C extension.\<close>

definition pc_ok :: "nat \<Rightarrow> hart \<Rightarrow> u64 \<Rightarrow> bool" where
  "pc_ok xlen p x = (canonical xlen x \<and> even x \<and> (supports_extension ext_C p \<or> x AND 2 = 0))"

lemma low_bits_sext_xlen [simp]:
  "xlen = 32 \<or> xlen = 64 \<Longrightarrow> even (sext_xlen xlen x) = even x"
  "xlen = 32 \<or> xlen = 64 \<Longrightarrow> sext_xlen xlen x AND 2 = x AND 2"
proof -
  assume "xlen = 32 \<or> xlen = 64"
  then have b: "bit (sext_xlen xlen x) i = bit x i" if "i < 32" for i
    using that by (auto simp: sext_xlen_32 bit_sext min_def)
  show "even (sext_xlen xlen x) = even x" using b [of 0] by (simp add: bit_0)
  show "sext_xlen xlen x AND 2 = x AND 2"
  proof (rule bit_word_eqI)
    fix i
    have "bit (2 :: u64) i \<Longrightarrow> i < 32" by (cases i) (auto simp: bit_double_iff [of 1, simplified] bit_1_iff)
    then show "bit (sext_xlen xlen x AND 2) i = bit (x AND 2) i" using b [of i] by (auto simp: bit_and_iff)
  qed
qed

lemma even_push_bit: "0 < n \<Longrightarrow> even (push_bit n w)" for w :: u64
  by (metis bit_0 bit_shl not_le)

lemma even_targets [simp]: "even (sb_imm b)" "even (uj_imm b)" "even (rvc_b_imm b)" "even (rvc_j_imm b)"
  unfolding sb_imm_def uj_imm_def rvc_b_imm_def rvc_j_imm_def by (intro dvd_add even_push_bit; simp)+

lemma even_cleared [simp]: "even (v AND - 2)" for v :: u64
  using bit_and_iff [of v "- 2" 0] by (simp add: bit_0)

text \<open>The part of the hart that the instructions leave to traps and CSR writes: everything but the
  register files, the floating-point flags and the dirty state in \<open>mstatus\<close>.\<close>

definition sys_state :: "hart \<Rightarrow> u64 \<times> (nat \<Rightarrow> bool) \<times> u64 \<times> bool \<times> nat \<times> csrs \<times> config \<times> u64" where
  "sys_state p = (misa p, extension_table p, prv p, virt p, cur_xlen p, csr p, cfg p,
     mstatus p AND NOT (MSTATUS_FS OR MSTATUS32_SD OR MSTATUS64_SD))"

text \<open>What every instruction body keeps: the invariant, a correct program counter, and the system state. That
  the next address is even, which tells it from the signals to the loop, and that the system state stays,
  holds on any hart.\<close>

definition preserves :: "insn_body \<Rightarrow> bool" where
  "preserves f =
     (\<forall>xlen insn pc npc p. xlen \<in> {32, 64} \<longrightarrow>
        (even pc \<longrightarrow> even npc \<longrightarrow>
          (case f xlen insn pc npc p of Inl _ \<Rightarrow> True | Inr (npc', p') \<Rightarrow> even npc' \<and> sys_state p' = sys_state p)) \<and>
        (signed_take_bit 31 insn = insn \<longrightarrow> hart_ok xlen p \<longrightarrow> pc_ok xlen p pc \<longrightarrow> pc_ok xlen p npc \<longrightarrow>
          (case f xlen insn pc npc p of Inl _ \<Rightarrow> True | Inr (npc', p') \<Rightarrow> hart_ok xlen p' \<and> pc_ok xlen p npc')))"

lemma preservesI:
  assumes "\<And>xlen insn pc npc p. xlen \<in> {32, 64} \<Longrightarrow> signed_take_bit 31 insn = insn \<Longrightarrow> hart_ok xlen p \<Longrightarrow> pc_ok xlen p pc \<Longrightarrow> pc_ok xlen p npc \<Longrightarrow>
    (case f xlen insn pc npc p of Inl _ \<Rightarrow> True | Inr (npc', p') \<Rightarrow> hart_ok xlen p' \<and> pc_ok xlen p npc')"
    and "\<And>xlen insn pc npc p. xlen \<in> {32, 64} \<Longrightarrow> even pc \<Longrightarrow> even npc \<Longrightarrow>
    (case f xlen insn pc npc p of Inl _ \<Rightarrow> True | Inr (npc', p') \<Rightarrow> even npc' \<and> sys_state p' = sys_state p)"
  shows "preserves f"
  using assms unfolding preserves_def by blast

lemma case_require [simp]:
  "(case require c insn k of Inl t \<Rightarrow> True | Inr x \<Rightarrow> P x) \<longleftrightarrow> (c \<longrightarrow> (case k of Inl t \<Rightarrow> True | Inr x \<Rightarrow> P x))"
  by (simp add: require_def)

lemma case_set_pc [simp]:
  "(case set_pc xlen x p k of Inl t \<Rightarrow> True | Inr y \<Rightarrow> P y) \<longleftrightarrow>
    (supports_extension ext_C p \<or> x AND 2 = 0 \<longrightarrow> (case k (sext_xlen xlen x) of Inl t \<Rightarrow> True | Inr y \<Rightarrow> P y))"
  by (auto simp: set_pc_def pc_alignment_mask_def)

lemma sys_state_writes [simp]:
  "sys_state (WRITE_REG r v p) = sys_state p" "sys_state (WRITE_RD insn v p) = sys_state p"
  "sys_state (WRITE_RVC_RS1S insn v p) = sys_state p" "sys_state (WRITE_RVC_RS2S insn v p) = sys_state p"
  by (simp_all add: sys_state_def WRITE_REG_def WRITE_RD_def WRITE_RVC_RS1S_def WRITE_RVC_RS2S_def)

lemmas require_defs = require_extension_def require_rv64_def require_fp_def

end
