(* ===== verification/RV_Int.thy ===== *)
theory RV_Int
  imports RV_State RV_Arith "HOL-Library.Signed_Division"
begin

text \<open>
  The integer instructions of \<open>riscv/insns\<close>: RV32I and RV64I without memory, control and status
  accesses, and the M extension. Each body is the file of its name; \<open>sreg_t\<close> values are words read
  with \<open>sint\<close>, a right shift of one is \<open>signed_drop_bit\<close>, and division truncates.
\<close>

section \<open>Register and immediate instructions\<close>

definition SHAMT :: "u64 \<Rightarrow> u64" where "SHAMT insn = i_imm insn AND 0x3F"
definition BRANCH_TARGET :: "u64 \<Rightarrow> u64 \<Rightarrow> u64" where "BRANCH_TARGET insn pc = pc + sb_imm insn"
definition JUMP_TARGET :: "u64 \<Rightarrow> u64 \<Rightarrow> u64" where "JUMP_TARGET insn pc = pc + uj_imm insn"

definition rv_add :: insn_body where
  "rv_add xlen insn pc npc p =
     Inr (npc, WRITE_RD insn (sext_xlen xlen (RS1 insn p + RS2 insn p)) p)"

definition rv_addi :: insn_body where
  "rv_addi xlen insn pc npc p =
     Inr (npc, WRITE_RD insn (sext_xlen xlen (RS1 insn p + i_imm insn)) p)"

definition rv_addiw :: insn_body where
  "rv_addiw xlen insn pc npc p =
     require_rv64 xlen insn
     (Inr (npc, WRITE_RD insn (sext32 (i_imm insn + RS1 insn p)) p))"

definition rv_addw :: insn_body where
  "rv_addw xlen insn pc npc p =
     require_rv64 xlen insn
     (Inr (npc, WRITE_RD insn (sext32 (RS1 insn p + RS2 insn p)) p))"

definition rv_and :: insn_body where
  "rv_and xlen insn pc npc p =
     Inr (npc, WRITE_RD insn (RS1 insn p AND RS2 insn p) p)"

definition rv_andi :: insn_body where
  "rv_andi xlen insn pc npc p =
     Inr (npc, WRITE_RD insn (i_imm insn AND RS1 insn p) p)"

definition rv_auipc :: insn_body where
  "rv_auipc xlen insn pc npc p =
     Inr (npc, WRITE_RD insn (sext_xlen xlen (u_imm insn + pc)) p)"

definition rv_lui :: insn_body where
  "rv_lui xlen insn pc npc p =
     Inr (npc, WRITE_RD insn (u_imm insn) p)"

definition rv_or :: insn_body where
  "rv_or xlen insn pc npc p =
     Inr (npc, WRITE_RD insn (RS1 insn p OR RS2 insn p) p)"

definition rv_ori :: insn_body where
  "rv_ori xlen insn pc npc p =
     Inr (npc, WRITE_RD insn (i_imm insn OR RS1 insn p) p)"

definition rv_sll :: insn_body where
  "rv_sll xlen insn pc npc p =
     Inr (npc, WRITE_RD insn (sext_xlen xlen (push_bit (unat (RS2 insn p AND word_of_nat (xlen - 1))) (RS1 insn p))) p)"

definition rv_slli :: insn_body where
  "rv_slli xlen insn pc npc p =
     require (SHAMT insn < word_of_nat xlen) insn
     (Inr (npc, WRITE_RD insn (sext_xlen xlen (push_bit (unat (SHAMT insn)) (RS1 insn p))) p))"

definition rv_slliw :: insn_body where
  "rv_slliw xlen insn pc npc p =
     require_rv64 xlen insn
     (Inr (npc, WRITE_RD insn (sext32 (push_bit (unat (SHAMT insn)) (RS1 insn p))) p))"

definition rv_sllw :: insn_body where
  "rv_sllw xlen insn pc npc p =
     require_rv64 xlen insn
     (Inr (npc, WRITE_RD insn (sext32 (push_bit (unat (RS2 insn p AND 0x1F)) (RS1 insn p))) p))"

definition rv_slt :: insn_body where
  "rv_slt xlen insn pc npc p =
     Inr (npc, WRITE_RD insn (of_bool (sint (RS1 insn p) < sint (RS2 insn p))) p)"

definition rv_slti :: insn_body where
  "rv_slti xlen insn pc npc p =
     Inr (npc, WRITE_RD insn (of_bool (sint (RS1 insn p) < sint (i_imm insn))) p)"

definition rv_sltiu :: insn_body where
  "rv_sltiu xlen insn pc npc p =
     Inr (npc, WRITE_RD insn (of_bool (RS1 insn p < i_imm insn)) p)"

definition rv_sltu :: insn_body where
  "rv_sltu xlen insn pc npc p =
     Inr (npc, WRITE_RD insn (of_bool (RS1 insn p < RS2 insn p)) p)"

definition rv_sra :: insn_body where
  "rv_sra xlen insn pc npc p =
     Inr (npc, WRITE_RD insn (sext_xlen xlen (signed_drop_bit (unat (RS2 insn p AND word_of_nat (xlen - 1))) (sext_xlen xlen (RS1 insn p)))) p)"

definition rv_srai :: insn_body where
  "rv_srai xlen insn pc npc p =
     require (SHAMT insn < word_of_nat xlen) insn
     (Inr (npc, WRITE_RD insn (sext_xlen xlen (signed_drop_bit (unat (SHAMT insn)) (sext_xlen xlen (RS1 insn p)))) p))"

definition rv_sraiw :: insn_body where
  "rv_sraiw xlen insn pc npc p =
     require_rv64 xlen insn
     (Inr (npc, WRITE_RD insn (scast (signed_drop_bit (unat (SHAMT insn)) (ucast (RS1 insn p) :: u32))) p))"

definition rv_sraw :: insn_body where
  "rv_sraw xlen insn pc npc p =
     require_rv64 xlen insn
     (Inr (npc, WRITE_RD insn (scast (signed_drop_bit (unat (RS2 insn p AND 0x1F)) (ucast (RS1 insn p) :: u32))) p))"

definition rv_srl :: insn_body where
  "rv_srl xlen insn pc npc p =
     Inr (npc, WRITE_RD insn (sext_xlen xlen (drop_bit (unat (RS2 insn p AND word_of_nat (xlen - 1))) (zext_xlen xlen (RS1 insn p)))) p)"

definition rv_srli :: insn_body where
  "rv_srli xlen insn pc npc p =
     require (SHAMT insn < word_of_nat xlen) insn
     (Inr (npc, WRITE_RD insn (sext_xlen xlen (drop_bit (unat (SHAMT insn)) (zext_xlen xlen (RS1 insn p)))) p))"

definition rv_srliw :: insn_body where
  "rv_srliw xlen insn pc npc p =
     require_rv64 xlen insn
     (Inr (npc, WRITE_RD insn (scast (drop_bit (unat (SHAMT insn)) (ucast (RS1 insn p) :: u32))) p))"

definition rv_srlw :: insn_body where
  "rv_srlw xlen insn pc npc p =
     require_rv64 xlen insn
     (Inr (npc, WRITE_RD insn (scast (drop_bit (unat (RS2 insn p AND 0x1F)) (ucast (RS1 insn p) :: u32))) p))"

definition rv_sub :: insn_body where
  "rv_sub xlen insn pc npc p =
     Inr (npc, WRITE_RD insn (sext_xlen xlen (RS1 insn p - RS2 insn p)) p)"

definition rv_subw :: insn_body where
  "rv_subw xlen insn pc npc p =
     require_rv64 xlen insn
     (Inr (npc, WRITE_RD insn (sext32 (RS1 insn p - RS2 insn p)) p))"

definition rv_xor :: insn_body where
  "rv_xor xlen insn pc npc p =
     Inr (npc, WRITE_RD insn (RS1 insn p XOR RS2 insn p) p)"

definition rv_xori :: insn_body where
  "rv_xori xlen insn pc npc p =
     Inr (npc, WRITE_RD insn (i_imm insn XOR RS1 insn p) p)"

section \<open>Branches and jumps\<close>

definition rv_beq :: insn_body where
  "rv_beq xlen insn pc npc p =
     (if RS1 insn p = RS2 insn p then set_pc xlen (BRANCH_TARGET insn pc) p (\<lambda>npc. Inr (npc, p)) else Inr (npc, p))"

definition rv_bne :: insn_body where
  "rv_bne xlen insn pc npc p =
     (if RS1 insn p \<noteq> RS2 insn p then set_pc xlen (BRANCH_TARGET insn pc) p (\<lambda>npc. Inr (npc, p)) else Inr (npc, p))"

definition rv_bge :: insn_body where
  "rv_bge xlen insn pc npc p =
     (if sint (RS2 insn p) \<le> sint (RS1 insn p) then set_pc xlen (BRANCH_TARGET insn pc) p (\<lambda>npc. Inr (npc, p)) else Inr (npc, p))"

definition rv_bgeu :: insn_body where
  "rv_bgeu xlen insn pc npc p =
     (if RS2 insn p \<le> RS1 insn p then set_pc xlen (BRANCH_TARGET insn pc) p (\<lambda>npc. Inr (npc, p)) else Inr (npc, p))"

definition rv_blt :: insn_body where
  "rv_blt xlen insn pc npc p =
     (if sint (RS1 insn p) < sint (RS2 insn p) then set_pc xlen (BRANCH_TARGET insn pc) p (\<lambda>npc. Inr (npc, p)) else Inr (npc, p))"

definition rv_bltu :: insn_body where
  "rv_bltu xlen insn pc npc p =
     (if RS1 insn p < RS2 insn p then set_pc xlen (BRANCH_TARGET insn pc) p (\<lambda>npc. Inr (npc, p)) else Inr (npc, p))"

definition rv_jal :: insn_body where
  "rv_jal xlen insn pc npc p =
     (let tmp = npc in set_pc xlen (JUMP_TARGET insn pc) p (\<lambda>npc. Inr (npc, WRITE_RD insn tmp p)))"

definition rv_jalr :: insn_body where
  "rv_jalr xlen insn pc npc p =
     (let tmp = npc in set_pc xlen ((RS1 insn p + i_imm insn) AND NOT 1) p (\<lambda>npc. Inr (npc, WRITE_RD insn tmp p)))"

section \<open>Environment calls\<close>

definition rv_ebreak :: insn_body where
  "rv_ebreak xlen insn pc npc p =
     Inl (Trap_breakpoint 0)"

definition rv_ecall :: insn_body where
  "rv_ecall xlen insn pc npc p =
     (if prv p = 0 then Inl Trap_user_ecall
      else if prv p = 1 then (if virt p then Inl Trap_virtual_supervisor_ecall else Inl Trap_supervisor_ecall)
      else if prv p = 3 then Inl Trap_machine_ecall else Inl Abort)"

definition rv_fence :: insn_body where
  "rv_fence xlen insn pc npc p =
     Inr (npc, p)"

section \<open>Multiplication and division\<close>

definition rv_mul :: insn_body where
  "rv_mul xlen insn pc npc p =
     require_extension ext_M insn p
     (Inr (npc, WRITE_RD insn (sext_xlen xlen (RS1 insn p * RS2 insn p)) p))"

definition rv_mulh :: insn_body where
  "rv_mulh xlen insn pc npc p =
     require_extension ext_M insn p
     (if xlen = 64 then Inr (npc, WRITE_RD insn (mulh (RS1 insn p) (RS2 insn p)) p)
      else Inr (npc, WRITE_RD insn (sext32 (signed_drop_bit 32 (sext32 (RS1 insn p) * sext32 (RS2 insn p)))) p))"

definition rv_mulhsu :: insn_body where
  "rv_mulhsu xlen insn pc npc p =
     require_extension ext_M insn p
     (if xlen = 64 then Inr (npc, WRITE_RD insn (mulhsu (RS1 insn p) (RS2 insn p)) p)
      else Inr (npc, WRITE_RD insn (sext32 (drop_bit 32 (sext32 (RS1 insn p) * zext32 (RS2 insn p)))) p))"

definition rv_mulhu :: insn_body where
  "rv_mulhu xlen insn pc npc p =
     require_extension ext_M insn p
     (if xlen = 64 then Inr (npc, WRITE_RD insn (mulhu (RS1 insn p) (RS2 insn p)) p)
      else Inr (npc, WRITE_RD insn (sext32 (drop_bit 32 (zext32 (RS1 insn p) * zext32 (RS2 insn p)))) p))"

definition rv_mulw :: insn_body where
  "rv_mulw xlen insn pc npc p =
     require_extension ext_M insn p
     (require_rv64 xlen insn
     (Inr (npc, WRITE_RD insn (sext32 (RS1 insn p * RS2 insn p)) p)))"

definition rv_div :: insn_body where
  "rv_div xlen insn pc npc p =
     require_extension ext_M insn p
     (let lhs = sext_xlen xlen (RS1 insn p); rhs = sext_xlen xlen (RS2 insn p)
      in if rhs = 0 then Inr (npc, WRITE_RD insn (- 1) p)
         else if sint lhs = - (2 ^ 63) \<and> sint rhs = - 1 then Inr (npc, WRITE_RD insn (lhs) p)
         else Inr (npc, WRITE_RD insn (sext_xlen xlen (word_of_int (sint lhs sdiv sint rhs))) p))"

definition rv_divu :: insn_body where
  "rv_divu xlen insn pc npc p =
     require_extension ext_M insn p
     (let lhs = zext_xlen xlen (RS1 insn p); rhs = zext_xlen xlen (RS2 insn p)
      in if rhs = 0 then Inr (npc, WRITE_RD insn (- 1) p)
         else Inr (npc, WRITE_RD insn (sext_xlen xlen (lhs div rhs)) p))"

definition rv_divuw :: insn_body where
  "rv_divuw xlen insn pc npc p =
     require_extension ext_M insn p
     (require_rv64 xlen insn
     (let lhs = zext32 (RS1 insn p); rhs = zext32 (RS2 insn p)
      in if rhs = 0 then Inr (npc, WRITE_RD insn (- 1) p)
         else Inr (npc, WRITE_RD insn (sext32 (lhs div rhs)) p)))"

definition rv_divw :: insn_body where
  "rv_divw xlen insn pc npc p =
     require_extension ext_M insn p
     (require_rv64 xlen insn
     (let lhs = sext32 (RS1 insn p); rhs = sext32 (RS2 insn p)
      in if rhs = 0 then Inr (npc, WRITE_RD insn (- 1) p)
         else Inr (npc, WRITE_RD insn (sext32 (word_of_int (sint lhs sdiv sint rhs))) p)))"

definition rv_rem :: insn_body where
  "rv_rem xlen insn pc npc p =
     require_extension ext_M insn p
     (let lhs = sext_xlen xlen (RS1 insn p); rhs = sext_xlen xlen (RS2 insn p)
      in if rhs = 0 then Inr (npc, WRITE_RD insn (lhs) p)
         else if sint lhs = - (2 ^ 63) \<and> sint rhs = - 1 then Inr (npc, WRITE_RD insn (0) p)
         else Inr (npc, WRITE_RD insn (sext_xlen xlen (word_of_int (sint lhs smod sint rhs))) p))"

definition rv_remu :: insn_body where
  "rv_remu xlen insn pc npc p =
     require_extension ext_M insn p
     (let lhs = zext_xlen xlen (RS1 insn p); rhs = zext_xlen xlen (RS2 insn p)
      in if rhs = 0 then Inr (npc, WRITE_RD insn (sext_xlen xlen (RS1 insn p)) p)
         else Inr (npc, WRITE_RD insn (sext_xlen xlen (lhs mod rhs)) p))"

definition rv_remuw :: insn_body where
  "rv_remuw xlen insn pc npc p =
     require_extension ext_M insn p
     (require_rv64 xlen insn
     (let lhs = zext32 (RS1 insn p); rhs = zext32 (RS2 insn p)
      in if rhs = 0 then Inr (npc, WRITE_RD insn (sext32 lhs) p)
         else Inr (npc, WRITE_RD insn (sext32 (lhs mod rhs)) p)))"

definition rv_remw :: insn_body where
  "rv_remw xlen insn pc npc p =
     require_extension ext_M insn p
     (require_rv64 xlen insn
     (let lhs = sext32 (RS1 insn p); rhs = sext32 (RS2 insn p)
      in if rhs = 0 then Inr (npc, WRITE_RD insn (lhs) p)
         else Inr (npc, WRITE_RD insn (sext32 (word_of_int (sint lhs smod sint rhs))) p)))"

section \<open>The invariant\<close>

lemma canonical_high_64 [canon]:
  "xlen = 64 \<Longrightarrow> canonical xlen v" by simp

lemma preserves_add: "preserves rv_add"
  by (rule preservesI) (auto simp: rv_add_def require_defs Let_def hart_ok_writes canon pc_ok_def SHAMT_def BRANCH_TARGET_def JUMP_TARGET_def)

lemma preserves_addi: "preserves rv_addi"
  by (rule preservesI) (auto simp: rv_addi_def require_defs Let_def hart_ok_writes canon pc_ok_def SHAMT_def BRANCH_TARGET_def JUMP_TARGET_def)

lemma preserves_addiw: "preserves rv_addiw"
  by (rule preservesI) (auto simp: rv_addiw_def require_defs Let_def hart_ok_writes canon pc_ok_def SHAMT_def BRANCH_TARGET_def JUMP_TARGET_def)

lemma preserves_addw: "preserves rv_addw"
  by (rule preservesI) (auto simp: rv_addw_def require_defs Let_def hart_ok_writes canon pc_ok_def SHAMT_def BRANCH_TARGET_def JUMP_TARGET_def)

lemma preserves_and: "preserves rv_and"
  by (rule preservesI) (auto simp: rv_and_def require_defs Let_def hart_ok_writes canon pc_ok_def SHAMT_def BRANCH_TARGET_def JUMP_TARGET_def)

lemma preserves_andi: "preserves rv_andi"
  by (rule preservesI) (auto simp: rv_andi_def require_defs Let_def hart_ok_writes canon pc_ok_def SHAMT_def BRANCH_TARGET_def JUMP_TARGET_def)

lemma preserves_auipc: "preserves rv_auipc"
  by (rule preservesI) (auto simp: rv_auipc_def require_defs Let_def hart_ok_writes canon pc_ok_def SHAMT_def BRANCH_TARGET_def JUMP_TARGET_def)

lemma preserves_lui: "preserves rv_lui"
  by (rule preservesI) (auto simp: rv_lui_def require_defs Let_def hart_ok_writes canon pc_ok_def SHAMT_def BRANCH_TARGET_def JUMP_TARGET_def)

lemma preserves_or: "preserves rv_or"
  by (rule preservesI) (auto simp: rv_or_def require_defs Let_def hart_ok_writes canon pc_ok_def SHAMT_def BRANCH_TARGET_def JUMP_TARGET_def)

lemma preserves_ori: "preserves rv_ori"
  by (rule preservesI) (auto simp: rv_ori_def require_defs Let_def hart_ok_writes canon pc_ok_def SHAMT_def BRANCH_TARGET_def JUMP_TARGET_def)

lemma preserves_sll: "preserves rv_sll"
  by (rule preservesI) (auto simp: rv_sll_def require_defs Let_def hart_ok_writes canon pc_ok_def SHAMT_def BRANCH_TARGET_def JUMP_TARGET_def)

lemma preserves_slli: "preserves rv_slli"
  by (rule preservesI) (auto simp: rv_slli_def require_defs Let_def hart_ok_writes canon pc_ok_def SHAMT_def BRANCH_TARGET_def JUMP_TARGET_def)

lemma preserves_slliw: "preserves rv_slliw"
  by (rule preservesI) (auto simp: rv_slliw_def require_defs Let_def hart_ok_writes canon pc_ok_def SHAMT_def BRANCH_TARGET_def JUMP_TARGET_def)

lemma preserves_sllw: "preserves rv_sllw"
  by (rule preservesI) (auto simp: rv_sllw_def require_defs Let_def hart_ok_writes canon pc_ok_def SHAMT_def BRANCH_TARGET_def JUMP_TARGET_def)

lemma preserves_slt: "preserves rv_slt"
  by (rule preservesI) (auto simp: rv_slt_def require_defs Let_def hart_ok_writes canon pc_ok_def SHAMT_def BRANCH_TARGET_def JUMP_TARGET_def)

lemma preserves_slti: "preserves rv_slti"
  by (rule preservesI) (auto simp: rv_slti_def require_defs Let_def hart_ok_writes canon pc_ok_def SHAMT_def BRANCH_TARGET_def JUMP_TARGET_def)

lemma preserves_sltiu: "preserves rv_sltiu"
  by (rule preservesI) (auto simp: rv_sltiu_def require_defs Let_def hart_ok_writes canon pc_ok_def SHAMT_def BRANCH_TARGET_def JUMP_TARGET_def)

lemma preserves_sltu: "preserves rv_sltu"
  by (rule preservesI) (auto simp: rv_sltu_def require_defs Let_def hart_ok_writes canon pc_ok_def SHAMT_def BRANCH_TARGET_def JUMP_TARGET_def)

lemma preserves_sra: "preserves rv_sra"
  by (rule preservesI) (auto simp: rv_sra_def require_defs Let_def hart_ok_writes canon pc_ok_def SHAMT_def BRANCH_TARGET_def JUMP_TARGET_def)

lemma preserves_srai: "preserves rv_srai"
  by (rule preservesI) (auto simp: rv_srai_def require_defs Let_def hart_ok_writes canon pc_ok_def SHAMT_def BRANCH_TARGET_def JUMP_TARGET_def)

lemma preserves_sraiw: "preserves rv_sraiw"
  by (rule preservesI) (auto simp: rv_sraiw_def require_defs Let_def hart_ok_writes canon pc_ok_def SHAMT_def BRANCH_TARGET_def JUMP_TARGET_def)

lemma preserves_sraw: "preserves rv_sraw"
  by (rule preservesI) (auto simp: rv_sraw_def require_defs Let_def hart_ok_writes canon pc_ok_def SHAMT_def BRANCH_TARGET_def JUMP_TARGET_def)

lemma preserves_srl: "preserves rv_srl"
  by (rule preservesI) (auto simp: rv_srl_def require_defs Let_def hart_ok_writes canon pc_ok_def SHAMT_def BRANCH_TARGET_def JUMP_TARGET_def)

lemma preserves_srli: "preserves rv_srli"
  by (rule preservesI) (auto simp: rv_srli_def require_defs Let_def hart_ok_writes canon pc_ok_def SHAMT_def BRANCH_TARGET_def JUMP_TARGET_def)

lemma preserves_srliw: "preserves rv_srliw"
  by (rule preservesI) (auto simp: rv_srliw_def require_defs Let_def hart_ok_writes canon pc_ok_def SHAMT_def BRANCH_TARGET_def JUMP_TARGET_def)

lemma preserves_srlw: "preserves rv_srlw"
  by (rule preservesI) (auto simp: rv_srlw_def require_defs Let_def hart_ok_writes canon pc_ok_def SHAMT_def BRANCH_TARGET_def JUMP_TARGET_def)

lemma preserves_sub: "preserves rv_sub"
  by (rule preservesI) (auto simp: rv_sub_def require_defs Let_def hart_ok_writes canon pc_ok_def SHAMT_def BRANCH_TARGET_def JUMP_TARGET_def)

lemma preserves_subw: "preserves rv_subw"
  by (rule preservesI) (auto simp: rv_subw_def require_defs Let_def hart_ok_writes canon pc_ok_def SHAMT_def BRANCH_TARGET_def JUMP_TARGET_def)

lemma preserves_xor: "preserves rv_xor"
  by (rule preservesI) (auto simp: rv_xor_def require_defs Let_def hart_ok_writes canon pc_ok_def SHAMT_def BRANCH_TARGET_def JUMP_TARGET_def)

lemma preserves_xori: "preserves rv_xori"
  by (rule preservesI) (auto simp: rv_xori_def require_defs Let_def hart_ok_writes canon pc_ok_def SHAMT_def BRANCH_TARGET_def JUMP_TARGET_def)

lemma preserves_beq: "preserves rv_beq"
  by (rule preservesI) (auto simp: rv_beq_def require_defs Let_def hart_ok_writes canon pc_ok_def SHAMT_def BRANCH_TARGET_def JUMP_TARGET_def)

lemma preserves_bne: "preserves rv_bne"
  by (rule preservesI) (auto simp: rv_bne_def require_defs Let_def hart_ok_writes canon pc_ok_def SHAMT_def BRANCH_TARGET_def JUMP_TARGET_def)

lemma preserves_bge: "preserves rv_bge"
  by (rule preservesI) (auto simp: rv_bge_def require_defs Let_def hart_ok_writes canon pc_ok_def SHAMT_def BRANCH_TARGET_def JUMP_TARGET_def)

lemma preserves_bgeu: "preserves rv_bgeu"
  by (rule preservesI) (auto simp: rv_bgeu_def require_defs Let_def hart_ok_writes canon pc_ok_def SHAMT_def BRANCH_TARGET_def JUMP_TARGET_def)

lemma preserves_blt: "preserves rv_blt"
  by (rule preservesI) (auto simp: rv_blt_def require_defs Let_def hart_ok_writes canon pc_ok_def SHAMT_def BRANCH_TARGET_def JUMP_TARGET_def)

lemma preserves_bltu: "preserves rv_bltu"
  by (rule preservesI) (auto simp: rv_bltu_def require_defs Let_def hart_ok_writes canon pc_ok_def SHAMT_def BRANCH_TARGET_def JUMP_TARGET_def)

lemma preserves_jal: "preserves rv_jal"
  by (rule preservesI) (auto simp: rv_jal_def require_defs Let_def hart_ok_writes canon pc_ok_def SHAMT_def BRANCH_TARGET_def JUMP_TARGET_def)

lemma preserves_jalr: "preserves rv_jalr"
  by (rule preservesI) (auto simp: rv_jalr_def require_defs Let_def hart_ok_writes canon pc_ok_def SHAMT_def BRANCH_TARGET_def JUMP_TARGET_def)

lemma preserves_ebreak: "preserves rv_ebreak"
  by (rule preservesI) (auto simp: rv_ebreak_def require_defs Let_def hart_ok_writes canon pc_ok_def SHAMT_def BRANCH_TARGET_def JUMP_TARGET_def)

lemma preserves_ecall: "preserves rv_ecall"
  by (rule preservesI) (auto simp: rv_ecall_def require_defs Let_def hart_ok_writes canon pc_ok_def SHAMT_def BRANCH_TARGET_def JUMP_TARGET_def)

lemma preserves_fence: "preserves rv_fence"
  by (rule preservesI) (auto simp: rv_fence_def require_defs Let_def hart_ok_writes canon pc_ok_def SHAMT_def BRANCH_TARGET_def JUMP_TARGET_def)

lemma preserves_mul: "preserves rv_mul"
  by (rule preservesI) (auto simp: rv_mul_def require_defs Let_def hart_ok_writes canon pc_ok_def SHAMT_def BRANCH_TARGET_def JUMP_TARGET_def)

lemma preserves_mulh: "preserves rv_mulh"
  by (rule preservesI) (auto simp: rv_mulh_def require_defs Let_def hart_ok_writes canon pc_ok_def SHAMT_def BRANCH_TARGET_def JUMP_TARGET_def)

lemma preserves_mulhsu: "preserves rv_mulhsu"
  by (rule preservesI) (auto simp: rv_mulhsu_def require_defs Let_def hart_ok_writes canon pc_ok_def SHAMT_def BRANCH_TARGET_def JUMP_TARGET_def)

lemma preserves_mulhu: "preserves rv_mulhu"
  by (rule preservesI) (auto simp: rv_mulhu_def require_defs Let_def hart_ok_writes canon pc_ok_def SHAMT_def BRANCH_TARGET_def JUMP_TARGET_def)

lemma preserves_mulw: "preserves rv_mulw"
  by (rule preservesI) (auto simp: rv_mulw_def require_defs Let_def hart_ok_writes canon pc_ok_def SHAMT_def BRANCH_TARGET_def JUMP_TARGET_def)

lemma preserves_div: "preserves rv_div"
  by (rule preservesI) (auto simp: rv_div_def require_defs Let_def hart_ok_writes canon pc_ok_def SHAMT_def BRANCH_TARGET_def JUMP_TARGET_def)

lemma preserves_divu: "preserves rv_divu"
  by (rule preservesI) (auto simp: rv_divu_def require_defs Let_def hart_ok_writes canon pc_ok_def SHAMT_def BRANCH_TARGET_def JUMP_TARGET_def)

lemma preserves_divuw: "preserves rv_divuw"
  by (rule preservesI) (auto simp: rv_divuw_def require_defs Let_def hart_ok_writes canon pc_ok_def SHAMT_def BRANCH_TARGET_def JUMP_TARGET_def)

lemma preserves_divw: "preserves rv_divw"
  by (rule preservesI) (auto simp: rv_divw_def require_defs Let_def hart_ok_writes canon pc_ok_def SHAMT_def BRANCH_TARGET_def JUMP_TARGET_def)

lemma preserves_rem: "preserves rv_rem"
  by (rule preservesI) (auto simp: rv_rem_def require_defs Let_def hart_ok_writes canon pc_ok_def SHAMT_def BRANCH_TARGET_def JUMP_TARGET_def)

lemma preserves_remu: "preserves rv_remu"
  by (rule preservesI) (auto simp: rv_remu_def require_defs Let_def hart_ok_writes canon pc_ok_def SHAMT_def BRANCH_TARGET_def JUMP_TARGET_def)

lemma preserves_remuw: "preserves rv_remuw"
  by (rule preservesI) (auto simp: rv_remuw_def require_defs Let_def hart_ok_writes canon pc_ok_def SHAMT_def BRANCH_TARGET_def JUMP_TARGET_def)

lemma preserves_remw: "preserves rv_remw"
  by (rule preservesI) (auto simp: rv_remw_def require_defs Let_def hart_ok_writes canon pc_ok_def SHAMT_def BRANCH_TARGET_def JUMP_TARGET_def)

definition integer_instructions :: "insn_body list" where
  "integer_instructions = [
    rv_add, rv_addi, rv_addiw, rv_addw, rv_and, rv_andi, rv_auipc, rv_lui, rv_or, rv_ori, rv_sll, rv_slli,
    rv_slliw, rv_sllw, rv_slt, rv_slti, rv_sltiu, rv_sltu, rv_sra, rv_srai, rv_sraiw, rv_sraw, rv_srl,
    rv_srli, rv_srliw, rv_srlw, rv_sub, rv_subw, rv_xor, rv_xori, rv_beq, rv_bne, rv_bge, rv_bgeu, rv_blt,
    rv_bltu, rv_jal, rv_jalr, rv_ebreak, rv_ecall, rv_fence, rv_mul, rv_mulh, rv_mulhsu, rv_mulhu, rv_mulw,
    rv_div, rv_divu, rv_divuw, rv_divw, rv_rem, rv_remu, rv_remuw, rv_remw]"

lemma list_all_to_Ball: "list_all P xs \<Longrightarrow> x \<in> set xs \<Longrightarrow> P x"
  by (simp add: list_all_iff)

lemma integer_instructions_preserve: "list_all preserves integer_instructions"
  unfolding integer_instructions_def by (simp only: list.pred_inject simp_thms
    preserves_add
    preserves_addi
    preserves_addiw
    preserves_addw
    preserves_and
    preserves_andi
    preserves_auipc
    preserves_lui
    preserves_or
    preserves_ori
    preserves_sll
    preserves_slli
    preserves_slliw
    preserves_sllw
    preserves_slt
    preserves_slti
    preserves_sltiu
    preserves_sltu
    preserves_sra
    preserves_srai
    preserves_sraiw
    preserves_sraw
    preserves_srl
    preserves_srli
    preserves_srliw
    preserves_srlw
    preserves_sub
    preserves_subw
    preserves_xor
    preserves_xori
    preserves_beq
    preserves_bne
    preserves_bge
    preserves_bgeu
    preserves_blt
    preserves_bltu
    preserves_jal
    preserves_jalr
    preserves_ebreak
    preserves_ecall
    preserves_fence
    preserves_mul
    preserves_mulh
    preserves_mulhsu
    preserves_mulhu
    preserves_mulw
    preserves_div
    preserves_divu
    preserves_divuw
    preserves_divw
    preserves_rem
    preserves_remu
    preserves_remuw
    preserves_remw)

end
