(* ===== verification/RV_ALU.thy ===== *)
theory RV_ALU
  imports RV_Int
begin

text \<open>
  An abstract arithmetic unit, defined once for every word length, and the proof that the
  register-register instructions of RV32I, RV64I and M implement it: in RV32 on the low words of
  canonical 64-bit storage, in RV64 directly.
\<close>

section \<open>The abstract ALU\<close>

text \<open>
  What the register-register instructions compute, at any word length: shifts take their distance
  modulo the length, division truncates, and dividing by zero gives all ones (the dividend as the
  remainder).
\<close>

definition w_sll :: "'a::len word \<Rightarrow> 'a word \<Rightarrow> 'a word" where "w_sll a b = push_bit (unat b mod LENGTH('a)) a"
definition w_srl :: "'a::len word \<Rightarrow> 'a word \<Rightarrow> 'a word" where "w_srl a b = drop_bit (unat b mod LENGTH('a)) a"
definition w_sra :: "'a::len word \<Rightarrow> 'a word \<Rightarrow> 'a word" where "w_sra a b = signed_drop_bit (unat b mod LENGTH('a)) a"
definition w_slt :: "'a::len word \<Rightarrow> 'a word \<Rightarrow> 'a word" where "w_slt a b = of_bool (sint a < sint b)"
definition w_sltu :: "'a::len word \<Rightarrow> 'a word \<Rightarrow> 'a word" where "w_sltu a b = of_bool (a < b)"
definition w_mulh :: "'a::len word \<Rightarrow> 'a word \<Rightarrow> 'a word" where
  "w_mulh a b = word_of_int (sint a * sint b div 2 ^ LENGTH('a))"
definition w_mulhsu :: "'a::len word \<Rightarrow> 'a word \<Rightarrow> 'a word" where
  "w_mulhsu a b = word_of_int (sint a * uint b div 2 ^ LENGTH('a))"
definition w_mulhu :: "'a::len word \<Rightarrow> 'a word \<Rightarrow> 'a word" where
  "w_mulhu a b = word_of_int (uint a * uint b div 2 ^ LENGTH('a))"
definition w_div :: "'a::len word \<Rightarrow> 'a word \<Rightarrow> 'a word" where
  "w_div a b = (if b = 0 then - 1 else word_of_int (sint a sdiv sint b))"
definition w_divu :: "'a::len word \<Rightarrow> 'a word \<Rightarrow> 'a word" where "w_divu a b = (if b = 0 then - 1 else a div b)"
definition w_rem :: "'a::len word \<Rightarrow> 'a word \<Rightarrow> 'a word" where
  "w_rem a b = (if b = 0 then a else word_of_int (sint a smod sint b))"
definition w_remu :: "'a::len word \<Rightarrow> 'a word \<Rightarrow> 'a word" where "w_remu a b = (if b = 0 then a else a mod b)"

text \<open>An instruction implements an operation if it writes its result at either width, sign-extended in RV32.\<close>

definition implements :: "(hart \<Rightarrow> bool) \<Rightarrow> (u32 \<Rightarrow> u32 \<Rightarrow> u32) \<Rightarrow> (u64 \<Rightarrow> u64 \<Rightarrow> u64) \<Rightarrow> insn_body \<Rightarrow> bool" where
  "implements has g32 g64 f =
     (\<forall>insn pc npc p. has p \<longrightarrow>
        (hart_ok 32 p \<longrightarrow>
           f 32 insn pc npc p = Inr (npc, WRITE_RD insn (scast (g32 (ucast (RS1 insn p)) (ucast (RS2 insn p)))) p)) \<and>
        f 64 insn pc npc p = Inr (npc, WRITE_RD insn (g64 (RS1 insn p) (RS2 insn p)) p))"

text \<open>The \<open>W\<close> instructions of RV64 compute on the low words; RV32 has none.\<close>

definition implements_low :: "(hart \<Rightarrow> bool) \<Rightarrow> (u32 \<Rightarrow> u32 \<Rightarrow> u32) \<Rightarrow> insn_body \<Rightarrow> bool" where
  "implements_low has g f =
     (\<forall>insn pc npc p. has p \<longrightarrow>
        f 32 insn pc npc p = Inl (Trap_illegal_instruction (insn_bits insn)) \<and>
        f 64 insn pc npc p = Inr (npc, WRITE_RD insn (scast (g (ucast (RS1 insn p)) (ucast (RS2 insn p)))) p))"

abbreviation (input) always :: "hart \<Rightarrow> bool" where "always \<equiv> \<lambda>p. True"
abbreviation (input) has_M :: "hart \<Rightarrow> bool" where "has_M \<equiv> supports_extension ext_M"

section \<open>Low words\<close>

lemma sext_xlen_low: "sext_xlen 32 x = scast (ucast x :: u32)" "sext32 x = scast (ucast x :: u32)"
  by (simp_all add: sext_xlen_32 sext32_take scast_32) (rule bit_word_eqI, simp add: bit_simps min_def)+

lemma zext_xlen_low: "zext_xlen 32 x = ucast (ucast x :: u32)" "zext32 x = ucast (ucast x :: u32)"
  by (simp_all add: zext_xlen_32 zext32_def) (rule bit_word_eqI, auto simp: bit_simps)

lemma canonical_low: "canonical 32 v \<Longrightarrow> v = scast (ucast v :: u32)"
  by (simp add: canonical_def sext_xlen_low)

lemma low_mod: "(word_of_int (x mod 2 ^ 64) :: u32) = word_of_int x"
  by (rule word_of_int_eq_iff [THEN iffD2]) (simp add: take_bit_eq_mod mod_mod_cancel)

lemma ucast_low: "(ucast v :: u32) = word_of_int (uint v)" for v :: u64
  by (rule bit_word_eqI) (simp add: bit_simps)

lemma low_arith:
  "(ucast (a + b) :: u32) = ucast a + ucast b" "(ucast (a - b) :: u32) = ucast a - ucast b"
  "(ucast (a * b) :: u32) = ucast a * ucast b" "(ucast (word_of_int i :: u64) :: u32) = word_of_int i" for a b :: u64
  unfolding ucast_low uint_word_ariths uint_word_of_int
  by (simp_all only: len_num1 len_bit0 len_num0 arith_simps mult_1_right low_mod wi_hom_add wi_hom_sub wi_hom_mult)

lemma less_31: "\<lbrakk>n < 32; 31 \<le> n\<rbrakk> \<Longrightarrow> n = (31 :: nat)"
  by simp

lemma low_casts: "(ucast (scast w :: u64) :: u32) = w" "(ucast (ucast w :: u64) :: u32) = w" for w :: u32
  by (rule bit_word_eqI, auto simp: bit_simps min_def le_less_Suc_eq dest: less_31)+

lemma scast_ops:
  "(scast a :: u64) AND scast b = scast (a AND b)" "(scast a :: u64) OR scast b = scast (a OR b)"
  "(scast a :: u64) XOR scast b = scast (a XOR b)" for a b :: u32
  by (rule bit_word_eqI; simp add: bit_simps min_def)+

lemma sint_scast: "sint (scast w :: u64) = sint w" for w :: u32
  by (rule sint_up_scast) (simp add: is_up)

lemma uint_low: "uint (ucast w :: u64) = uint w" for w :: u32
  by (rule uint_up_ucast) (simp add: is_up)

lemma sint_cases: "sint w = (if bit w 31 then uint w - 2 ^ 32 else uint w)" for w :: u32
proof -
  have "sint w = signed_take_bit 31 (uint w)" by (simp add: sint_uint)
  also have "\<dots> = take_bit (Suc 31) (uint w) - 2 ^ Suc 31 * of_bool (bit (uint w) 31)"
    by (rule signed_take_bit_eq_take_bit_minus)
  also have "take_bit (Suc 31) (uint w) = uint w"
    by (rule take_bit_int_eq_self) (use uint_lt2p [of w] in simp_all)
  also have "bit (uint w) 31 = bit w 31" by (simp add: bit_uint_iff)
  finally show ?thesis by simp
qed

lemma uint_scast: "uint (scast w :: u64) = uint w + (if bit w 31 then 2 ^ 64 - 2 ^ 32 else 0)" for w :: u32
proof -
  have b: "0 \<le> uint w" "uint w < 2 ^ 32" using uint_lt2p [of w] by simp_all
  have "uint (scast w :: u64) = take_bit 64 (sint (scast w :: u64))" unfolding uint_sint by simp
  also have "\<dots> = sint w mod 2 ^ 64" by (simp only: sint_scast take_bit_eq_mod)
  also have "\<dots> = (if bit w 31 then uint w - 2 ^ 32 + 2 ^ 64 else uint w)"
  proof (cases "bit w 31")
    case True
    have "2 ^ 31 \<le> uint w"
    proof (rule ccontr)
      assume "\<not> 2 ^ 31 \<le> uint w"
      then have "uint w div 2 ^ 31 = 0" using b by (intro div_pos_pos_trivial) simp_all
      moreover have "bit (uint w) 31" using True by (simp add: bit_uint_iff)
      ultimately show False unfolding bit_iff_odd by simp
    qed
    then have "(uint w - 2 ^ 32 + 2 ^ 64) mod 2 ^ 64 = uint w - 2 ^ 32 + 2 ^ 64"
      using b by (intro mod_pos_pos_trivial) simp_all
    then show ?thesis unfolding sint_cases using True mod_add_self2 [of "uint w - 2 ^ 32" "2 ^ 64"] by simp
  next
    case False
    then show ?thesis unfolding sint_cases using b mod_pos_pos_trivial [of "uint w" "2 ^ 64"] by simp
  qed
  finally show ?thesis by simp
qed
lemma low_shift: "(ucast (push_bit n v) :: u32) = push_bit n (ucast v)" for v :: u64
  by (rule bit_word_eqI) (auto simp: bit_simps)

lemma low_drop: "(ucast (drop_bit n (ucast x :: u64)) :: u32) = drop_bit n x" for x :: u32
  by (rule bit_word_eqI) (auto simp: bit_simps dest: bit_imp_le_length)

lemma low_signed_drop: "n < 32 \<Longrightarrow> (ucast (signed_drop_bit n (scast x :: u64)) :: u32) = signed_drop_bit n x" for x :: u32
proof (rule bit_word_eqI)
  fix i assume n: "n < 32" and "i < LENGTH(32)"
  then have i: "i < 32" by simp
  show "bit (ucast (signed_drop_bit n (scast x :: u64)) :: u32) i = bit (signed_drop_bit n x) i"
  proof (cases "n + i < 31")
    case False
    then have *: "\<not> 32 - n \<le> i \<Longrightarrow> n + i = 31" by linarith
    show ?thesis using n i False * by (auto simp: bit_simps min_def)
  qed (use n i in \<open>simp add: bit_simps min_def\<close>)
qed

lemma and_31: "v AND 31 = take_bit 5 v" for v :: u64
proof -
  have "(31 :: u64) = mask 5" by (simp add: mask_eq_exp_minus_1)
  then show ?thesis by (simp only: take_bit_eq_mask)
qed

lemma and_63: "v AND 63 = take_bit 6 v" for v :: u64
proof -
  have "(63 :: u64) = mask 6" by (simp add: mask_eq_exp_minus_1)
  then show ?thesis by (simp only: take_bit_eq_mask)
qed

lemma distance: "unat (v AND 63 :: u64) = unat v mod 64" "unat (v AND 31) = unat (ucast v :: u32) mod 32"
proof -
  show "unat (v AND 63 :: u64) = unat v mod 64"
    by (simp add: and_63 unsigned_take_bit_eq take_bit_eq_mod unat_mod)
  have "unat v mod 4294967296 mod 32 = unat v mod 32" by (rule mod_mod_cancel) simp
  then show "unat (v AND 31) = unat (ucast v :: u32) mod 32"
    by (simp add: and_31 unsigned_take_bit_eq unsigned_ucast_eq take_bit_eq_mod unat_mod)
qed

lemma low_distance: "unat (scast y AND 31 :: u64) = unat y mod 32" for y :: u32
  using distance(2) [of "scast y"] by (simp only: low_casts)

lemma scast_less: "(scast x :: u64) < scast y \<longleftrightarrow> x < y" for x y :: u32
proof -
  have top: "bit w 31 \<longleftrightarrow> 2 ^ 31 \<le> uint w" for w :: u32
    using sint_cases [of w] sint_lt [of w] sint_ge [of w] uint_lt2p [of w] by (cases "bit w 31") auto
  show ?thesis
    using uint_lt2p [of x] uint_lt2p [of y] unfolding word_less_def uint_scast top by auto
qed

lemma low_div: "(ucast (ucast x div ucast y :: u64) :: u32) = x div y" "(ucast (ucast x mod ucast y :: u64) :: u32) = x mod y" for x y :: u32
  by (simp_all only: ucast_low uint_div uint_mod uint_low) (simp_all only: word_div_def word_mod_def)

lemma low_zero: "(scast x :: u64) = 0 \<longleftrightarrow> x = 0" "(ucast x :: u64) = 0 \<longleftrightarrow> x = 0" for x :: u32
  using low_casts [of x] by (metis scast_0 ucast_0)+

lemma word_of_sint: "word_of_int (sint w) = w" for w :: "'a::len word"
  by simp

lemma low_sint: "(ucast v :: u32) = word_of_int (sint v)" for v :: u64
  using low_arith(4) [of "sint v"] by simp

lemma sint_in_range: "- (2 ^ 63) \<le> i \<Longrightarrow> i < 2 ^ 63 \<Longrightarrow> sint (word_of_int i :: u64) = i"
  by (simp add: sint_sbintrunc' signed_take_bit_int_eq_self)

lemma high_half: "(ucast (drop_bit 32 v) :: u32) = word_of_int (sint v div 2 ^ 32)" for v :: u64
proof -
  have "(ucast (drop_bit 32 v) :: u32) = ucast (signed_drop_bit 32 v)"
    by (rule bit_word_eqI) (auto simp: bit_simps min_def)
  also have "\<dots> = word_of_int (sint v div 2 ^ 32)"
    by (simp only: low_sint sint_signed_drop_bit_eq drop_bit_eq_div)
  finally show ?thesis .
qed

lemma signed_product_range:
  fixes a b :: int
  assumes "\<bar>a\<bar> \<le> 2 ^ 31" "\<bar>b\<bar> < 2 ^ 32"
  shows "\<bar>a * b\<bar> < 2 ^ 63"
proof -
  have "\<bar>a * b\<bar> \<le> 2 ^ 31 * \<bar>b\<bar>" unfolding abs_mult by (rule mult_right_mono) (use assms in auto)
  also have "\<dots> < 2 ^ 31 * 2 ^ 32" using assms(2) by simp
  finally show ?thesis by simp
qed

lemma high_words:
  "(ucast (signed_drop_bit 32 (scast x * scast y :: u64)) :: u32) = word_of_int (sint x * sint y div 4294967296)"
  "(ucast (drop_bit 32 (scast x * ucast y :: u64)) :: u32) = word_of_int (sint x * uint y div 4294967296)"
  "(ucast (drop_bit 32 (ucast x * ucast y :: u64)) :: u32) = word_of_int (uint x * uint y div 4294967296)" for x y :: u32
proof -
  have x: "\<bar>sint x\<bar> \<le> 2 ^ 31" and y: "\<bar>sint y\<bar> < 2 ^ 32" and u: "0 \<le> uint x" "uint x < 2 ^ 32" "0 \<le> uint y" "uint y < 2 ^ 32"
    using sint_ge [of x] sint_lt [of x] sint_ge [of y] sint_lt [of y] uint_lt2p [of x] uint_lt2p [of y] by simp_all
  have e: "(scast x * scast y :: u64) = word_of_int (sint x * sint y)"
    by (simp only: wi_hom_mult [symmetric] sint_scast [of x, symmetric] sint_scast [of y, symmetric] word_of_sint)
  have "sint (scast x * scast y :: u64) = sint x * sint y"
    unfolding e by (rule sint_in_range) (use signed_product_range [OF x y] in simp_all)
  then show "(ucast (signed_drop_bit 32 (scast x * scast y :: u64)) :: u32) = word_of_int (sint x * sint y div 4294967296)"
    by (simp add: low_sint sint_signed_drop_bit_eq drop_bit_eq_div)
  have e': "(scast x * ucast y :: u64) = word_of_int (sint x * uint y)"
    by (simp only: wi_hom_mult [symmetric] sint_scast [of x, symmetric] uint_low [of y, symmetric] word_of_sint word_of_int_uint)
  have "sint (scast x * ucast y :: u64) = sint x * uint y"
    unfolding e' by (rule sint_in_range) (use signed_product_range [OF x, of "uint y"] u in simp_all)
  then show "(ucast (drop_bit 32 (scast x * ucast y :: u64)) :: u32) = word_of_int (sint x * uint y div 4294967296)"
    by (simp add: high_half)
  have "uint x * uint y < 2 ^ 32 * 2 ^ 32" by (rule mult_strict_mono') (use u in simp_all)
  moreover have "0 \<le> uint x * uint y" using u by simp
  ultimately have "uint x * uint y mod 2 ^ 64 = uint x * uint y" by (intro mod_pos_pos_trivial) simp_all
  then have "uint (ucast x * ucast y :: u64) = uint x * uint y"
    unfolding uint_word_ariths uint_low by (simp only: len_num1 len_bit0 len_num0 arith_simps mult_1_right)
  moreover have "(ucast (drop_bit 32 w) :: u32) = word_of_int (uint w div 2 ^ 32)" for w :: u64
  proof -
    have "take_bit 64 (uint w) = uint w" by (rule take_bit_int_eq_self) (use uint_lt2p [of w] in simp_all)
    then show ?thesis unfolding ucast_low by (subst unsigned_drop_bit_eq) (simp add: drop_bit_eq_div)
  qed
  ultimately show "(ucast (drop_bit 32 (ucast x * ucast y :: u64)) :: u32) = word_of_int (uint x * uint y div 4294967296)"
    by simp
qed

lemma no_overflow: "sint x \<noteq> - 9223372036854775808" for x :: u32
  using sint_ge [of x] by simp

lemma division_overflow: "sint a = - 9223372036854775808 \<Longrightarrow> a = 9223372036854775808" for a :: u64
  using word_of_sint [of a] by (simp del: of_int_sint)

lemma smod_1: "k smod 1 = (0 :: int)"
  by (simp add: signed_modulo_int_def)

lemmas low_words = sext_xlen_low zext_xlen_low low_casts low_arith low_shift low_drop low_signed_drop low_distance
  scast_ops scast_less sint_scast uint_low low_div low_zero no_overflow

section \<open>Register-register instructions\<close>

lemma implementsI:
  assumes "\<And>insn pc npc p x y. has p \<Longrightarrow> RS1 insn p = scast x \<Longrightarrow> RS2 insn p = scast y \<Longrightarrow>
      f 32 insn pc npc p = Inr (npc, WRITE_RD insn (scast (g32 x y)) p)"
    "\<And>insn pc npc p. has p \<Longrightarrow> f 64 insn pc npc p = Inr (npc, WRITE_RD insn (g64 (RS1 insn p) (RS2 insn p)) p)"
  shows "implements has g32 g64 f"
  using assms canonical_low [OF canonical_operands(1)] canonical_low [OF canonical_operands(2)] unfolding implements_def by blast

lemma implements_lowI:
  assumes "\<And>xlen insn pc npc p. has p \<Longrightarrow> f xlen insn pc npc p = require_rv64 xlen insn (g xlen insn pc npc p)"
    "\<And>insn pc npc p. has p \<Longrightarrow>
      g 64 insn pc npc p = Inr (npc, WRITE_RD insn (scast (h (ucast (RS1 insn p)) (ucast (RS2 insn p)))) p)"
  shows "implements_low has h f"
  using assms by (simp add: implements_low_def require_rv64_def require_def)

lemma add_implements: "implements always (+) (+) rv_add"
  by (rule implementsI) (simp_all add: rv_add_def require_extension_def require_def Let_def low_words distance smod_1)

lemma sub_implements: "implements always (-) (-) rv_sub"
  by (rule implementsI) (simp_all add: rv_sub_def require_extension_def require_def Let_def low_words distance smod_1)

lemma and_implements: "implements always (AND) (AND) rv_and"
  by (rule implementsI) (simp_all add: rv_and_def require_extension_def require_def Let_def low_words distance smod_1)

lemma or_implements: "implements always (OR) (OR) rv_or"
  by (rule implementsI) (simp_all add: rv_or_def require_extension_def require_def Let_def low_words distance smod_1)

lemma xor_implements: "implements always (XOR) (XOR) rv_xor"
  by (rule implementsI) (simp_all add: rv_xor_def require_extension_def require_def Let_def low_words distance smod_1)

lemma slt_implements: "implements always w_slt w_slt rv_slt"
  by (rule implementsI) (simp_all add: rv_slt_def require_extension_def require_def Let_def low_words distance smod_1 w_slt_def)

lemma sltu_implements: "implements always w_sltu w_sltu rv_sltu"
  by (rule implementsI) (simp_all add: rv_sltu_def require_extension_def require_def Let_def low_words distance smod_1 w_sltu_def)

lemma sll_implements: "implements always w_sll w_sll rv_sll"
  by (rule implementsI) (simp_all add: rv_sll_def require_extension_def require_def Let_def low_words distance smod_1 w_sll_def)

lemma srl_implements: "implements always w_srl w_srl rv_srl"
  by (rule implementsI) (simp_all add: rv_srl_def require_extension_def require_def Let_def low_words distance smod_1 w_srl_def)

lemma sra_implements: "implements always w_sra w_sra rv_sra"
  by (rule implementsI) (simp_all add: rv_sra_def require_extension_def require_def Let_def low_words distance smod_1 w_sra_def)

lemma mul_implements: "implements has_M (*) (*) rv_mul"
  by (rule implementsI) (simp_all add: rv_mul_def require_extension_def require_def Let_def low_words distance smod_1)

lemma mulh_implements: "implements has_M w_mulh w_mulh rv_mulh"
  by (rule implementsI) (simp_all add: rv_mulh_def require_extension_def require_def Let_def low_words distance smod_1 mulh_product mulhsu_product mulhu_integer high_words w_mulh_def)

lemma mulhsu_implements: "implements has_M w_mulhsu w_mulhsu rv_mulhsu"
  by (rule implementsI) (simp_all add: rv_mulhsu_def require_extension_def require_def Let_def low_words distance smod_1 mulh_product mulhsu_product mulhu_integer high_words w_mulhsu_def)

lemma mulhu_implements: "implements has_M w_mulhu w_mulhu rv_mulhu"
  by (rule implementsI) (simp_all add: rv_mulhu_def require_extension_def require_def Let_def low_words distance smod_1 mulh_product mulhsu_product mulhu_integer high_words w_mulhu_def)

lemma div_implements: "implements has_M w_div w_div rv_div"
  by (rule implementsI) ((simp_all add: rv_div_def require_extension_def require_def Let_def low_words distance smod_1 w_div_def), auto dest!: division_overflow)

lemma divu_implements: "implements has_M w_divu w_divu rv_divu"
  by (rule implementsI) (simp_all add: rv_divu_def require_extension_def require_def Let_def low_words distance smod_1 w_divu_def)

lemma rem_implements: "implements has_M w_rem w_rem rv_rem"
  by (rule implementsI) (simp_all add: rv_rem_def require_extension_def require_def Let_def low_words distance smod_1 w_rem_def)

lemma remu_implements: "implements has_M w_remu w_remu rv_remu"
  by (rule implementsI) (simp_all add: rv_remu_def require_extension_def require_def Let_def low_words distance smod_1 w_remu_def)

lemma addw_implements: "implements_low always (+) rv_addw"
  by (simp add: implements_low_def rv_addw_def require_rv64_def require_extension_def require_def Let_def low_words distance smod_1)

lemma subw_implements: "implements_low always (-) rv_subw"
  by (simp add: implements_low_def rv_subw_def require_rv64_def require_extension_def require_def Let_def low_words distance smod_1)

lemma sllw_implements: "implements_low always w_sll rv_sllw"
  by (simp add: implements_low_def rv_sllw_def require_rv64_def require_extension_def require_def Let_def low_words distance smod_1 w_sll_def)

lemma srlw_implements: "implements_low always w_srl rv_srlw"
  by (simp add: implements_low_def rv_srlw_def require_rv64_def require_extension_def require_def Let_def low_words distance smod_1 w_srl_def)

lemma sraw_implements: "implements_low always w_sra rv_sraw"
  by (simp add: implements_low_def rv_sraw_def require_rv64_def require_extension_def require_def Let_def low_words distance smod_1 w_sra_def)

lemma mulw_implements: "implements_low has_M (*) rv_mulw"
  by (simp add: implements_low_def rv_mulw_def require_rv64_def require_extension_def require_def Let_def low_words distance smod_1)

lemma divw_implements: "implements_low has_M w_div rv_divw"
  by (simp add: implements_low_def rv_divw_def require_rv64_def require_extension_def require_def Let_def low_words distance smod_1 w_div_def)

lemma divuw_implements: "implements_low has_M w_divu rv_divuw"
  by (simp add: implements_low_def rv_divuw_def require_rv64_def require_extension_def require_def Let_def low_words distance smod_1 w_divu_def)

lemma remw_implements: "implements_low has_M w_rem rv_remw"
  by (simp add: implements_low_def rv_remw_def require_rv64_def require_extension_def require_def Let_def low_words distance smod_1 w_rem_def)

lemma remuw_implements: "implements_low has_M w_remu rv_remuw"
  by (simp add: implements_low_def rv_remuw_def require_rv64_def require_extension_def require_def Let_def low_words distance smod_1 w_remu_def)

section \<open>Properties\<close>

lemmas register_register = add_implements sub_implements and_implements or_implements xor_implements slt_implements sltu_implements sll_implements srl_implements sra_implements mul_implements mulh_implements mulhsu_implements mulhu_implements div_implements divu_implements rem_implements remu_implements
lemmas low_register_register = addw_implements subw_implements sllw_implements srlw_implements sraw_implements mulw_implements divw_implements divuw_implements remw_implements remuw_implements

text \<open>C14: the register-register instructions refine one width-generic arithmetic unit: run with
  32-bit registers they write the operation on 32-bit words, sign-extended to the 64-bit storage, run
  with 64-bit registers the same operation on 64-bit words, the next address unchanged; the \<open>W\<close>
  instructions compute on the low words, and are illegal in RV32. The operations are total: division by
  zero and the overflowing division have the architected results.\<close>

theorem alu_refinement:
  "(implements always (+) (+) rv_add \<and>
     implements always (-) (-) rv_sub \<and>
     implements always (AND) (AND) rv_and \<and>
     implements always (OR) (OR) rv_or \<and>
     implements always (XOR) (XOR) rv_xor \<and>
     implements always w_slt w_slt rv_slt \<and>
     implements always w_sltu w_sltu rv_sltu \<and>
     implements always w_sll w_sll rv_sll \<and>
     implements always w_srl w_srl rv_srl \<and>
     implements always w_sra w_sra rv_sra \<and>
     implements has_M (*) (*) rv_mul \<and>
     implements has_M w_mulh w_mulh rv_mulh \<and>
     implements has_M w_mulhsu w_mulhsu rv_mulhsu \<and>
     implements has_M w_mulhu w_mulhu rv_mulhu \<and>
     implements has_M w_div w_div rv_div \<and>
     implements has_M w_divu w_divu rv_divu \<and>
     implements has_M w_rem w_rem rv_rem \<and>
     implements has_M w_remu w_remu rv_remu) \<and>
   (implements_low always (+) rv_addw \<and>
     implements_low always (-) rv_subw \<and>
     implements_low always w_sll rv_sllw \<and>
     implements_low always w_srl rv_srlw \<and>
     implements_low always w_sra rv_sraw \<and>
     implements_low has_M (*) rv_mulw \<and>
     implements_low has_M w_div rv_divw \<and>
     implements_low has_M w_divu rv_divuw \<and>
     implements_low has_M w_rem rv_remw \<and>
     implements_low has_M w_remu rv_remuw)"
  by (simp only: register_register low_register_register simp_thms)

end
