(* ===== verification/RV_Comp.thy ===== *)
theory RV_Comp
  imports RV_ALU
begin

text \<open>
  The compressed instructions of \<open>riscv/insns/c_*.h\<close> that access neither memory nor floating-point
  registers, and the base instruction each expands to, as a 32-bit instruction word: the body of the
  compressed instruction is the body of its expansion.
\<close>

section \<open>Bodies\<close>

definition rv_c_add :: insn_body where
  "rv_c_add xlen insn pc npc p =
     require_extension ext_C insn p
     (require (rvc_rs2 insn \<noteq> 0) insn
     (Inr (npc, WRITE_RD insn (sext_xlen xlen (RVC_RS1 insn p + RVC_RS2 insn p)) p)))"

definition rv_c_addi :: insn_body where
  "rv_c_addi xlen insn pc npc p =
     require_extension ext_C insn p
     (Inr (npc, WRITE_RD insn (sext_xlen xlen (RVC_RS1 insn p + rvc_imm insn)) p))"

definition rv_c_addi4spn :: insn_body where
  "rv_c_addi4spn xlen insn pc npc p =
     require_extension ext_C insn p
     (require (rvc_addi4spn_imm insn \<noteq> 0) insn
     (Inr (npc, WRITE_RVC_RS2S insn (sext_xlen xlen (RVC_SP p + rvc_addi4spn_imm insn)) p)))"

definition rv_c_addw :: insn_body where
  "rv_c_addw xlen insn pc npc p =
     require_extension ext_C insn p
     (require_rv64 xlen insn
     (Inr (npc, WRITE_RVC_RS1S insn (sext32 (RVC_RS1S insn p + RVC_RS2S insn p)) p)))"

definition rv_c_and :: insn_body where
  "rv_c_and xlen insn pc npc p =
     require_extension ext_C insn p
     (Inr (npc, WRITE_RVC_RS1S insn (RVC_RS1S insn p AND RVC_RS2S insn p) p))"

definition rv_c_andi :: insn_body where
  "rv_c_andi xlen insn pc npc p =
     require_extension ext_C insn p
     (Inr (npc, WRITE_RVC_RS1S insn (RVC_RS1S insn p AND rvc_imm insn) p))"

definition rv_c_beqz :: insn_body where
  "rv_c_beqz xlen insn pc npc p =
     require_extension ext_C insn p
     (if RVC_RS1S insn p = 0 then set_pc xlen (pc + rvc_b_imm insn) p (\<lambda>npc. Inr (npc, p)) else Inr (npc, p))"

definition rv_c_bnez :: insn_body where
  "rv_c_bnez xlen insn pc npc p =
     require_extension ext_C insn p
     (if RVC_RS1S insn p \<noteq> 0 then set_pc xlen (pc + rvc_b_imm insn) p (\<lambda>npc. Inr (npc, p)) else Inr (npc, p))"

definition rv_c_ebreak :: insn_body where
  "rv_c_ebreak xlen insn pc npc p =
     require_extension ext_C insn p
     (Inl (Trap_breakpoint 0))"

definition rv_c_j :: insn_body where
  "rv_c_j xlen insn pc npc p =
     require_extension ext_C insn p
     (set_pc xlen (pc + rvc_j_imm insn) p (\<lambda>npc. Inr (npc, p)))"

definition rv_c_jal :: insn_body where
  "rv_c_jal xlen insn pc npc p =
     require_extension ext_C insn p
     (if xlen = 32 then let tmp = npc in set_pc xlen (pc + rvc_j_imm insn) p (\<lambda>npc. Inr (npc, WRITE_REG 1 tmp p))
      else require (rvc_rd insn \<noteq> 0) insn
        (Inr (npc, WRITE_RD insn (sext32 (RVC_RS1 insn p + rvc_imm insn)) p)))"

definition rv_c_jalr :: insn_body where
  "rv_c_jalr xlen insn pc npc p =
     require_extension ext_C insn p
     (require (rvc_rs1 insn \<noteq> 0) insn
     (let tmp = npc in set_pc xlen (RVC_RS1 insn p AND NOT 1) p (\<lambda>npc. Inr (npc, WRITE_REG 1 tmp p))))"

definition rv_c_jr :: insn_body where
  "rv_c_jr xlen insn pc npc p =
     require_extension ext_C insn p
     (require (rvc_rs1 insn \<noteq> 0) insn
     (set_pc xlen (RVC_RS1 insn p AND NOT 1) p (\<lambda>npc. Inr (npc, p))))"

definition rv_c_li :: insn_body where
  "rv_c_li xlen insn pc npc p =
     require_extension ext_C insn p
     (Inr (npc, WRITE_RD insn (rvc_imm insn) p))"

definition rv_c_lui :: insn_body where
  "rv_c_lui xlen insn pc npc p =
     require_extension ext_C insn p
     (if rvc_rd insn = 2 then require (rvc_addi16sp_imm insn \<noteq> 0) insn
        (Inr (npc, WRITE_REG 2 (sext_xlen xlen (RVC_SP p + rvc_addi16sp_imm insn)) p))
      else require (rvc_imm insn \<noteq> 0) insn
        (Inr (npc, WRITE_RD insn (push_bit 12 (rvc_imm insn)) p)))"

definition rv_c_mv :: insn_body where
  "rv_c_mv xlen insn pc npc p =
     require_extension ext_C insn p
     (require (rvc_rs2 insn \<noteq> 0) insn
     (Inr (npc, WRITE_RD insn (RVC_RS2 insn p) p)))"

definition rv_c_or :: insn_body where
  "rv_c_or xlen insn pc npc p =
     require_extension ext_C insn p
     (Inr (npc, WRITE_RVC_RS1S insn (RVC_RS1S insn p OR RVC_RS2S insn p) p))"

definition rv_c_slli :: insn_body where
  "rv_c_slli xlen insn pc npc p =
     require_extension ext_C insn p
     (require (rvc_zimm insn < word_of_nat xlen) insn
     (Inr (npc, WRITE_RD insn (sext_xlen xlen (push_bit (unat (rvc_zimm insn)) (RVC_RS1 insn p))) p)))"

definition rv_c_srai :: insn_body where
  "rv_c_srai xlen insn pc npc p =
     require_extension ext_C insn p
     (require (rvc_zimm insn < word_of_nat xlen) insn
     (Inr (npc, WRITE_RVC_RS1S insn (sext_xlen xlen (signed_drop_bit (unat (rvc_zimm insn)) (sext_xlen xlen (RVC_RS1S insn p)))) p)))"

definition rv_c_srli :: insn_body where
  "rv_c_srli xlen insn pc npc p =
     require_extension ext_C insn p
     (require (rvc_zimm insn < word_of_nat xlen) insn
     (Inr (npc, WRITE_RVC_RS1S insn (sext_xlen xlen (drop_bit (unat (rvc_zimm insn)) (zext_xlen xlen (RVC_RS1S insn p)))) p)))"

definition rv_c_sub :: insn_body where
  "rv_c_sub xlen insn pc npc p =
     require_extension ext_C insn p
     (Inr (npc, WRITE_RVC_RS1S insn (sext_xlen xlen (RVC_RS1S insn p - RVC_RS2S insn p)) p))"

definition rv_c_subw :: insn_body where
  "rv_c_subw xlen insn pc npc p =
     require_extension ext_C insn p
     (require_rv64 xlen insn
     (Inr (npc, WRITE_RVC_RS1S insn (sext32 (RVC_RS1S insn p - RVC_RS2S insn p)) p)))"

definition rv_c_xor :: insn_body where
  "rv_c_xor xlen insn pc npc p =
     require_extension ext_C insn p
     (Inr (npc, WRITE_RVC_RS1S insn (RVC_RS1S insn p XOR RVC_RS2S insn p) p))"

section \<open>Instruction words\<close>

text \<open>A match value of \<open>encoding.h\<close> with its register and immediate fields filled in.\<close>

definition enc_rd :: "u64 \<Rightarrow> u64 \<Rightarrow> u64" where "enc_rd rd w = put_field 0 5 7 rd w"
definition enc_R :: "u64 \<Rightarrow> u64 \<Rightarrow> u64 \<Rightarrow> u64 \<Rightarrow> u64" where
  "enc_R m rd rs1 rs2 = encode32 [(0, 5, 20)] rs2 (put_field 0 5 15 rs1 (enc_rd rd m))"
definition enc_I :: "u64 \<Rightarrow> u64 \<Rightarrow> u64 \<Rightarrow> u64 \<Rightarrow> u64" where
  "enc_I m rd rs1 imm = encode32 [(0, 12, 20)] imm (put_field 0 5 15 rs1 (enc_rd rd m))"
definition enc_U :: "u64 \<Rightarrow> u64 \<Rightarrow> u64 \<Rightarrow> u64" where
  "enc_U m rd imm = encode32 [(12, 20, 12)] imm (enc_rd rd m)"
definition enc_J :: "u64 \<Rightarrow> u64 \<Rightarrow> u64 \<Rightarrow> u64" where
  "enc_J m rd imm = encode32 [(1, 10, 21), (11, 1, 20), (12, 8, 12), (20, 1, 31)] imm (enc_rd rd m)"
definition enc_B :: "u64 \<Rightarrow> u64 \<Rightarrow> u64 \<Rightarrow> u64 \<Rightarrow> u64" where
  "enc_B m rs1 rs2 imm =
     encode32 [(1, 4, 8), (5, 6, 25), (11, 1, 7), (12, 1, 31)] imm (put_field 0 5 20 rs2 (put_field 0 5 15 rs1 m))"

lemma field_eqI:
  assumes "\<And>i. i < 5 \<Longrightarrow> bit w (lo + i) \<longleftrightarrow> bit v i"
  shows "insn_x lo 5 w = take_bit 5 v"
  by (rule bit_word_eqI) (use assms in \<open>auto simp: bit_insn_x bit_low\<close>)

lemma enc_fields:
  "insn_rd (enc_R m rd rs1 rs2) = take_bit 5 rd" "insn_rs1 (enc_R m rd rs1 rs2) = take_bit 5 rs1"
  "insn_rs2 (enc_R m rd rs1 rs2) = take_bit 5 rs2"
  "insn_rd (enc_I m rd rs1 imm) = take_bit 5 rd" "insn_rs1 (enc_I m rd rs1 imm) = take_bit 5 rs1"
  "insn_rd (enc_U m rd imm) = take_bit 5 rd" "insn_rd (enc_J m rd imm) = take_bit 5 rd"
  "insn_rs1 (enc_B m rs1 rs2 imm) = take_bit 5 rs1" "insn_rs2 (enc_B m rs1 rs2 imm) = take_bit 5 rs2"
  unfolding insn_rd_def insn_rs1_def insn_rs2_def enc_R_def enc_I_def enc_U_def enc_J_def enc_B_def enc_rd_def
    encode32_def place.simps prod.case
  by (rule field_eqI, simp add: bit_sext bit_field min_def)+

lemma enc_imms:
  "i_imm (enc_I m rd rs1 imm) = signed_take_bit 11 imm"
  "u_imm (enc_U m rd imm) = signed_take_bit 31 imm AND NOT (mask 12)"
  "uj_imm (enc_J m rd imm) = signed_take_bit 20 imm AND NOT (mask 1)"
  "sb_imm (enc_B m rs1 rs2 imm) = signed_take_bit 12 imm AND NOT (mask 1)"
  by (simp_all only: enc_I_def enc_U_def enc_J_def enc_B_def i_imm_encode u_imm_encode uj_imm_encode sb_imm_encode)

section \<open>Ranges\<close>

lemma take_bit_field: "unat r < 32 \<Longrightarrow> take_bit 5 r = r" for r :: u64
  by (simp add: word_unat_eq_iff unsigned_take_bit_eq take_bit_eq_mod unat_mod)

lemmas take_bit_fields = field_bound [THEN take_bit_field]

lemma take_bit_regs: "take_bit 5 (0 :: u64) = 0" "take_bit 5 (1 :: u64) = 1" "take_bit 5 (2 :: u64) = 2"
  by simp_all

lemmas imm_or = rvc_imm_or rvc_zimm_or rvc_addi4spn_imm_or rvc_addi16sp_imm_or rvc_j_imm_or rvc_b_imm_or
lemmas imm_bits = upt_64 field_bits bit_sext bit_low_clear bit_low list.pred_inject

lemma imm_ranges:
  "signed_take_bit 11 (rvc_imm b) = rvc_imm b" "signed_take_bit 11 (rvc_addi4spn_imm b) = rvc_addi4spn_imm b"
  "signed_take_bit 11 (rvc_addi16sp_imm b) = rvc_addi16sp_imm b"
  "signed_take_bit 11 (rvc_zimm b) = rvc_zimm b"
  unfolding imm_or by (rule word64_eqI, simp only: imm_bits, simp del: One_nat_def)+

lemma bit_10: "0x400 = (push_bit 10 1 :: u64)"
  by simp

lemma zimm_low: "rvc_zimm b AND 0x3F = rvc_zimm b" "signed_take_bit 11 (0x400 OR rvc_zimm b) AND 0x3F = rvc_zimm b"
  unfolding and_63 imm_or bit_10 by (rule word64_eqI, simp only: imm_bits, simp del: One_nat_def)+

lemma target_ranges:
  "signed_take_bit 12 (rvc_b_imm b) AND NOT (mask 1) = rvc_b_imm b"
  "signed_take_bit 20 (rvc_j_imm b) AND NOT (mask 1) = rvc_j_imm b"
  "signed_take_bit 31 (push_bit 12 (rvc_imm b)) AND NOT (mask 12) = push_bit 12 (rvc_imm b)"
  unfolding imm_or by (rule word64_eqI, simp only: imm_bits, simp del: One_nat_def)+

lemma sext_rvc: "signed_take_bit 31 (rvc_imm b) = rvc_imm b" "signed_take_bit 31 (push_bit 12 (rvc_imm b)) = push_bit 12 (rvc_imm b)"
  unfolding imm_or by (rule word64_eqI, simp only: imm_bits, simp del: One_nat_def)+

lemma canonical_rvc [canon]:
  "xlen \<in> {32, 64} \<Longrightarrow> canonical xlen (rvc_imm b)"
  "xlen \<in> {32, 64} \<Longrightarrow> canonical xlen (push_bit 12 (rvc_imm b))"
  by (auto simp: canonical_32 sext_rvc)

section \<open>Expansion\<close>

text \<open>
  A compressed instruction expands to a base instruction if, with the C extension and when its
  condition holds, its body is the body of the base instruction on the expanded word, and the illegal
  instruction otherwise.
\<close>

definition expands :: "(nat \<Rightarrow> u64 \<Rightarrow> bool) \<Rightarrow> (nat \<Rightarrow> u64 \<Rightarrow> insn_body \<times> u64) \<Rightarrow> insn_body \<Rightarrow> bool" where
  "expands valid expansion f =
     (\<forall>xlen b pc npc p. xlen \<in> {32, 64} \<longrightarrow> hart_ok xlen p \<longrightarrow>
        f xlen b pc npc p =
          (if supports_extension ext_C p \<and> valid xlen b
           then (case expansion xlen b of (g, w) \<Rightarrow> g xlen w pc npc p)
           else Inl (Trap_illegal_instruction (insn_bits b))))"

lemma READ_REG_0: "hart_ok xlen p \<Longrightarrow> READ_REG 0 p = 0"
  by (simp add: hart_ok_def hart_regs_def READ_REG_def)

lemma WRITE_REG_0: "WRITE_REG 0 v p = p"
  by (simp add: WRITE_REG_def regfile_write_def)

lemma expandsI:
  assumes "\<And>xlen b pc npc p. xlen \<in> {32, 64} \<Longrightarrow> hart_ok xlen p \<Longrightarrow> READ_REG 0 p = 0 \<Longrightarrow> supports_extension ext_C p \<Longrightarrow>
      f xlen b pc npc p =
        (if valid xlen b then (case expansion xlen b of (g, w) \<Rightarrow> g xlen w pc npc p)
         else Inl (Trap_illegal_instruction (insn_bits b)))"
    "\<And>xlen b pc npc p. \<not> supports_extension ext_C p \<Longrightarrow> f xlen b pc npc p = Inl (Trap_illegal_instruction (insn_bits b))"
  shows "expands valid expansion f"
  using assms READ_REG_0 unfolding expands_def by auto

lemma canonical_sext: "canonical xlen v \<Longrightarrow> sext_xlen xlen v = v"
  by (simp add: canonical_def)

lemma canonical_mv: "hart_ok xlen p \<Longrightarrow> sext_xlen xlen (READ_REG (rvc_rs2 b) p) = READ_REG (rvc_rs2 b) p"
  using canonical_operands(4) [of xlen p b] by (simp add: canonical_def RVC_RS2_def)

lemmas registers = RS1_def RS2_def RVC_RS1_def RVC_RS2_def RVC_RS1S_def RVC_RS2S_def RVC_SP_def WRITE_RD_def WRITE_RVC_RS1S_def
  WRITE_RVC_RS2S_def SHAMT_def BRANCH_TARGET_def JUMP_TARGET_def
lemmas expanded = registers enc_fields enc_imms take_bit_fields take_bit_regs imm_ranges zimm_low target_ranges target_ranges(1,2) [simplified] WRITE_REG_0
  rvc_rs1_def rvc_rd_def
  canonical_mv canonical_rvc [THEN canonical_sext] require_def require_extension_def require_rv64_def Let_def add.commute

lemma c_add_expands: "expands (\<lambda>xlen b. rvc_rs2 b \<noteq> 0) (\<lambda>xlen b. (rv_add, enc_R 0x33 (insn_rd b) (insn_rd b) (rvc_rs2 b))) rv_c_add"
  by (rule expandsI) (simp_all add: rv_c_add_def rv_add_def expanded)

lemma c_addi_expands: "expands (\<lambda>xlen b. True) (\<lambda>xlen b. (rv_addi, enc_I 0x13 (insn_rd b) (insn_rd b) (rvc_imm b))) rv_c_addi"
  by (rule expandsI) (simp_all add: rv_c_addi_def rv_addi_def expanded)

lemma c_addi4spn_expands: "expands (\<lambda>xlen b. rvc_addi4spn_imm b \<noteq> 0) (\<lambda>xlen b. (rv_addi, enc_I 0x13 (rvc_rs2s b) 2 (rvc_addi4spn_imm b))) rv_c_addi4spn"
  by (rule expandsI) (simp_all add: rv_c_addi4spn_def rv_addi_def expanded)

lemma c_addw_expands: "expands (\<lambda>xlen b. xlen = 64) (\<lambda>xlen b. (rv_addw, enc_R 0x3b (rvc_rs1s b) (rvc_rs1s b) (rvc_rs2s b))) rv_c_addw"
  by (rule expandsI) (simp_all add: rv_c_addw_def rv_addw_def expanded)

lemma c_and_expands: "expands (\<lambda>xlen b. True) (\<lambda>xlen b. (rv_and, enc_R 0x7033 (rvc_rs1s b) (rvc_rs1s b) (rvc_rs2s b))) rv_c_and"
  by (rule expandsI) (simp_all add: rv_c_and_def rv_and_def expanded)

lemma c_andi_expands: "expands (\<lambda>xlen b. True) (\<lambda>xlen b. (rv_andi, enc_I 0x7013 (rvc_rs1s b) (rvc_rs1s b) (rvc_imm b))) rv_c_andi"
  by (rule expandsI) (simp_all add: rv_c_andi_def rv_andi_def expanded and.commute)

lemma c_beqz_expands: "expands (\<lambda>xlen b. True) (\<lambda>xlen b. (rv_beq, enc_B 0x63 (rvc_rs1s b) 0 (rvc_b_imm b))) rv_c_beqz"
  by (rule expandsI) (simp_all add: rv_c_beqz_def rv_beq_def expanded)

lemma c_bnez_expands: "expands (\<lambda>xlen b. True) (\<lambda>xlen b. (rv_bne, enc_B 0x1063 (rvc_rs1s b) 0 (rvc_b_imm b))) rv_c_bnez"
  by (rule expandsI) (simp_all add: rv_c_bnez_def rv_bne_def expanded)

lemma c_ebreak_expands: "expands (\<lambda>xlen b. True) (\<lambda>xlen b. (rv_ebreak, 0x100073)) rv_c_ebreak"
  by (rule expandsI) (simp_all add: rv_c_ebreak_def rv_ebreak_def expanded)

lemma c_j_expands: "expands (\<lambda>xlen b. True) (\<lambda>xlen b. (rv_jal, enc_J 0x6f 0 (rvc_j_imm b))) rv_c_j"
  by (rule expandsI) (simp_all add: rv_c_j_def rv_jal_def expanded)

lemma c_jal_expands: "expands (\<lambda>xlen b. xlen = 32 \<or> rvc_rd b \<noteq> 0) (\<lambda>xlen b. if xlen = 32 then (rv_jal, enc_J 0x6f 1 (rvc_j_imm b)) else (rv_addiw, enc_I 0x1b (insn_rd b) (insn_rd b) (rvc_imm b))) rv_c_jal"
  by (rule expandsI) (auto simp: rv_c_jal_def rv_jal_def rv_addiw_def expanded)

lemma c_jalr_expands: "expands (\<lambda>xlen b. rvc_rs1 b \<noteq> 0) (\<lambda>xlen b. (rv_jalr, enc_I 0x67 1 (rvc_rs1 b) 0)) rv_c_jalr"
  by (rule expandsI) (simp_all add: rv_c_jalr_def rv_jalr_def expanded)

lemma c_jr_expands: "expands (\<lambda>xlen b. rvc_rs1 b \<noteq> 0) (\<lambda>xlen b. (rv_jalr, enc_I 0x67 0 (rvc_rs1 b) 0)) rv_c_jr"
  by (rule expandsI) (simp_all add: rv_c_jr_def rv_jalr_def expanded)

lemma c_li_expands: "expands (\<lambda>xlen b. True) (\<lambda>xlen b. (rv_addi, enc_I 0x13 (insn_rd b) 0 (rvc_imm b))) rv_c_li"
  by (rule expandsI) (simp_all add: rv_c_li_def rv_addi_def expanded)

lemma c_lui_expands: "expands (\<lambda>xlen b. (if rvc_rd b = 2 then rvc_addi16sp_imm b else rvc_imm b) \<noteq> 0) (\<lambda>xlen b. if rvc_rd b = 2 then (rv_addi, enc_I 0x13 2 2 (rvc_addi16sp_imm b)) else (rv_lui, enc_U 0x37 (insn_rd b) (push_bit 12 (rvc_imm b)))) rv_c_lui"
  by (rule expandsI) (simp_all add: rv_c_lui_def rv_addi_def rv_lui_def expanded)

lemma c_mv_expands: "expands (\<lambda>xlen b. rvc_rs2 b \<noteq> 0) (\<lambda>xlen b. (rv_add, enc_R 0x33 (insn_rd b) 0 (rvc_rs2 b))) rv_c_mv"
  by (rule expandsI) (simp_all add: rv_c_mv_def rv_add_def expanded)

lemma c_or_expands: "expands (\<lambda>xlen b. True) (\<lambda>xlen b. (rv_or, enc_R 0x6033 (rvc_rs1s b) (rvc_rs1s b) (rvc_rs2s b))) rv_c_or"
  by (rule expandsI) (simp_all add: rv_c_or_def rv_or_def expanded)

lemma c_slli_expands: "expands (\<lambda>xlen b. rvc_zimm b < word_of_nat xlen) (\<lambda>xlen b. (rv_slli, enc_I 0x1013 (insn_rd b) (insn_rd b) (rvc_zimm b))) rv_c_slli"
  by (rule expandsI) (simp_all add: rv_c_slli_def rv_slli_def expanded)

lemma c_srai_expands: "expands (\<lambda>xlen b. rvc_zimm b < word_of_nat xlen) (\<lambda>xlen b. (rv_srai, enc_I 0x5013 (rvc_rs1s b) (rvc_rs1s b) (0x400 OR rvc_zimm b))) rv_c_srai"
  by (rule expandsI) (simp_all add: rv_c_srai_def rv_srai_def expanded)

lemma c_srli_expands: "expands (\<lambda>xlen b. rvc_zimm b < word_of_nat xlen) (\<lambda>xlen b. (rv_srli, enc_I 0x5013 (rvc_rs1s b) (rvc_rs1s b) (rvc_zimm b))) rv_c_srli"
  by (rule expandsI) (simp_all add: rv_c_srli_def rv_srli_def expanded)

lemma c_sub_expands: "expands (\<lambda>xlen b. True) (\<lambda>xlen b. (rv_sub, enc_R 0x40000033 (rvc_rs1s b) (rvc_rs1s b) (rvc_rs2s b))) rv_c_sub"
  by (rule expandsI) (simp_all add: rv_c_sub_def rv_sub_def expanded)

lemma c_subw_expands: "expands (\<lambda>xlen b. xlen = 64) (\<lambda>xlen b. (rv_subw, enc_R 0x4000003b (rvc_rs1s b) (rvc_rs1s b) (rvc_rs2s b))) rv_c_subw"
  by (rule expandsI) (simp_all add: rv_c_subw_def rv_subw_def expanded)

lemma c_xor_expands: "expands (\<lambda>xlen b. True) (\<lambda>xlen b. (rv_xor, enc_R 0x4033 (rvc_rs1s b) (rvc_rs1s b) (rvc_rs2s b))) rv_c_xor"
  by (rule expandsI) (simp_all add: rv_c_xor_def rv_xor_def expanded)

lemma preserves_c_add: "preserves rv_c_add"
  by (rule preservesI) (auto simp: rv_c_add_def require_defs Let_def hart_ok_writes hart_ok_WRITE_REG canon pc_ok_def)

lemma preserves_c_addi: "preserves rv_c_addi"
  by (rule preservesI) (auto simp: rv_c_addi_def require_defs Let_def hart_ok_writes hart_ok_WRITE_REG canon pc_ok_def)

lemma preserves_c_addi4spn: "preserves rv_c_addi4spn"
  by (rule preservesI) (auto simp: rv_c_addi4spn_def require_defs Let_def hart_ok_writes hart_ok_WRITE_REG canon pc_ok_def)

lemma preserves_c_addw: "preserves rv_c_addw"
  by (rule preservesI) (auto simp: rv_c_addw_def require_defs Let_def hart_ok_writes hart_ok_WRITE_REG canon pc_ok_def)

lemma preserves_c_and: "preserves rv_c_and"
  by (rule preservesI) (auto simp: rv_c_and_def require_defs Let_def hart_ok_writes hart_ok_WRITE_REG canon pc_ok_def)

lemma preserves_c_andi: "preserves rv_c_andi"
  by (rule preservesI) (auto simp: rv_c_andi_def require_defs Let_def hart_ok_writes hart_ok_WRITE_REG canon pc_ok_def)

lemma preserves_c_beqz: "preserves rv_c_beqz"
  by (rule preservesI) (auto simp: rv_c_beqz_def require_defs Let_def hart_ok_writes hart_ok_WRITE_REG canon pc_ok_def)

lemma preserves_c_bnez: "preserves rv_c_bnez"
  by (rule preservesI) (auto simp: rv_c_bnez_def require_defs Let_def hart_ok_writes hart_ok_WRITE_REG canon pc_ok_def)

lemma preserves_c_ebreak: "preserves rv_c_ebreak"
  by (rule preservesI) (auto simp: rv_c_ebreak_def require_defs Let_def hart_ok_writes hart_ok_WRITE_REG canon pc_ok_def)

lemma preserves_c_j: "preserves rv_c_j"
  by (rule preservesI) (auto simp: rv_c_j_def require_defs Let_def hart_ok_writes hart_ok_WRITE_REG canon pc_ok_def)

lemma preserves_c_jal: "preserves rv_c_jal"
  by (rule preservesI) (auto simp: rv_c_jal_def require_defs Let_def hart_ok_writes hart_ok_WRITE_REG canon pc_ok_def)

lemma preserves_c_jalr: "preserves rv_c_jalr"
  by (rule preservesI) (auto simp: rv_c_jalr_def require_defs Let_def hart_ok_writes hart_ok_WRITE_REG canon pc_ok_def)

lemma preserves_c_jr: "preserves rv_c_jr"
  by (rule preservesI) (auto simp: rv_c_jr_def require_defs Let_def hart_ok_writes hart_ok_WRITE_REG canon pc_ok_def)

lemma preserves_c_li: "preserves rv_c_li"
  by (rule preservesI) (auto simp: rv_c_li_def require_defs Let_def hart_ok_writes hart_ok_WRITE_REG canon pc_ok_def)

lemma preserves_c_lui: "preserves rv_c_lui"
  by (rule preservesI) (auto simp: rv_c_lui_def require_defs Let_def hart_ok_writes hart_ok_WRITE_REG canon pc_ok_def)

lemma preserves_c_mv: "preserves rv_c_mv"
  by (rule preservesI) (auto simp: rv_c_mv_def require_defs Let_def hart_ok_writes hart_ok_WRITE_REG canon pc_ok_def)

lemma preserves_c_or: "preserves rv_c_or"
  by (rule preservesI) (auto simp: rv_c_or_def require_defs Let_def hart_ok_writes hart_ok_WRITE_REG canon pc_ok_def)

lemma preserves_c_slli: "preserves rv_c_slli"
  by (rule preservesI) (auto simp: rv_c_slli_def require_defs Let_def hart_ok_writes hart_ok_WRITE_REG canon pc_ok_def)

lemma preserves_c_srai: "preserves rv_c_srai"
  by (rule preservesI) (auto simp: rv_c_srai_def require_defs Let_def hart_ok_writes hart_ok_WRITE_REG canon pc_ok_def)

lemma preserves_c_srli: "preserves rv_c_srli"
  by (rule preservesI) (auto simp: rv_c_srli_def require_defs Let_def hart_ok_writes hart_ok_WRITE_REG canon pc_ok_def)

lemma preserves_c_sub: "preserves rv_c_sub"
  by (rule preservesI) (auto simp: rv_c_sub_def require_defs Let_def hart_ok_writes hart_ok_WRITE_REG canon pc_ok_def)

lemma preserves_c_subw: "preserves rv_c_subw"
  by (rule preservesI) (auto simp: rv_c_subw_def require_defs Let_def hart_ok_writes hart_ok_WRITE_REG canon pc_ok_def)

lemma preserves_c_xor: "preserves rv_c_xor"
  by (rule preservesI) (auto simp: rv_c_xor_def require_defs Let_def hart_ok_writes hart_ok_WRITE_REG canon pc_ok_def)

definition compressed_instructions :: "insn_body list" where
  "compressed_instructions = [
     rv_c_add, rv_c_addi, rv_c_addi4spn, rv_c_addw, rv_c_and, rv_c_andi, rv_c_beqz, rv_c_bnez,
     rv_c_ebreak, rv_c_j, rv_c_jal, rv_c_jalr, rv_c_jr, rv_c_li, rv_c_lui, rv_c_mv,
     rv_c_or, rv_c_slli, rv_c_srai, rv_c_srli, rv_c_sub, rv_c_subw, rv_c_xor]"

lemma compressed_instructions_preserve: "list_all preserves compressed_instructions"
  unfolding compressed_instructions_def by (simp only: list.pred_inject simp_thms
    preserves_c_add
    preserves_c_addi
    preserves_c_addi4spn
    preserves_c_addw
    preserves_c_and
    preserves_c_andi
    preserves_c_beqz
    preserves_c_bnez
    preserves_c_ebreak
    preserves_c_j
    preserves_c_jal
    preserves_c_jalr
    preserves_c_jr
    preserves_c_li
    preserves_c_lui
    preserves_c_mv
    preserves_c_or
    preserves_c_slli
    preserves_c_srai
    preserves_c_srli
    preserves_c_sub
    preserves_c_subw
    preserves_c_xor)

section \<open>Properties\<close>

text \<open>The expansion of each compressed instruction, with the condition under which it is legal.\<close>

definition expansion_table :: "(insn_body \<times> (nat \<Rightarrow> u64 \<Rightarrow> bool) \<times> (nat \<Rightarrow> u64 \<Rightarrow> insn_body \<times> u64)) list" where
  "expansion_table = [
     (rv_c_add, \<lambda>xlen b. rvc_rs2 b \<noteq> 0, \<lambda>xlen b. (rv_add, enc_R 0x33 (insn_rd b) (insn_rd b) (rvc_rs2 b))),
     (rv_c_addi, \<lambda>xlen b. True, \<lambda>xlen b. (rv_addi, enc_I 0x13 (insn_rd b) (insn_rd b) (rvc_imm b))),
     (rv_c_addi4spn, \<lambda>xlen b. rvc_addi4spn_imm b \<noteq> 0, \<lambda>xlen b. (rv_addi, enc_I 0x13 (rvc_rs2s b) 2 (rvc_addi4spn_imm b))),
     (rv_c_addw, \<lambda>xlen b. xlen = 64, \<lambda>xlen b. (rv_addw, enc_R 0x3b (rvc_rs1s b) (rvc_rs1s b) (rvc_rs2s b))),
     (rv_c_and, \<lambda>xlen b. True, \<lambda>xlen b. (rv_and, enc_R 0x7033 (rvc_rs1s b) (rvc_rs1s b) (rvc_rs2s b))),
     (rv_c_andi, \<lambda>xlen b. True, \<lambda>xlen b. (rv_andi, enc_I 0x7013 (rvc_rs1s b) (rvc_rs1s b) (rvc_imm b))),
     (rv_c_beqz, \<lambda>xlen b. True, \<lambda>xlen b. (rv_beq, enc_B 0x63 (rvc_rs1s b) 0 (rvc_b_imm b))),
     (rv_c_bnez, \<lambda>xlen b. True, \<lambda>xlen b. (rv_bne, enc_B 0x1063 (rvc_rs1s b) 0 (rvc_b_imm b))),
     (rv_c_ebreak, \<lambda>xlen b. True, \<lambda>xlen b. (rv_ebreak, 0x100073)),
     (rv_c_j, \<lambda>xlen b. True, \<lambda>xlen b. (rv_jal, enc_J 0x6f 0 (rvc_j_imm b))),
     (rv_c_jal, \<lambda>xlen b. xlen = 32 \<or> rvc_rd b \<noteq> 0, \<lambda>xlen b. if xlen = 32 then (rv_jal, enc_J 0x6f 1 (rvc_j_imm b)) else (rv_addiw, enc_I 0x1b (insn_rd b) (insn_rd b) (rvc_imm b))),
     (rv_c_jalr, \<lambda>xlen b. rvc_rs1 b \<noteq> 0, \<lambda>xlen b. (rv_jalr, enc_I 0x67 1 (rvc_rs1 b) 0)),
     (rv_c_jr, \<lambda>xlen b. rvc_rs1 b \<noteq> 0, \<lambda>xlen b. (rv_jalr, enc_I 0x67 0 (rvc_rs1 b) 0)),
     (rv_c_li, \<lambda>xlen b. True, \<lambda>xlen b. (rv_addi, enc_I 0x13 (insn_rd b) 0 (rvc_imm b))),
     (rv_c_lui, \<lambda>xlen b. (if rvc_rd b = 2 then rvc_addi16sp_imm b else rvc_imm b) \<noteq> 0, \<lambda>xlen b. if rvc_rd b = 2 then (rv_addi, enc_I 0x13 2 2 (rvc_addi16sp_imm b)) else (rv_lui, enc_U 0x37 (insn_rd b) (push_bit 12 (rvc_imm b)))),
     (rv_c_mv, \<lambda>xlen b. rvc_rs2 b \<noteq> 0, \<lambda>xlen b. (rv_add, enc_R 0x33 (insn_rd b) 0 (rvc_rs2 b))),
     (rv_c_or, \<lambda>xlen b. True, \<lambda>xlen b. (rv_or, enc_R 0x6033 (rvc_rs1s b) (rvc_rs1s b) (rvc_rs2s b))),
     (rv_c_slli, \<lambda>xlen b. rvc_zimm b < word_of_nat xlen, \<lambda>xlen b. (rv_slli, enc_I 0x1013 (insn_rd b) (insn_rd b) (rvc_zimm b))),
     (rv_c_srai, \<lambda>xlen b. rvc_zimm b < word_of_nat xlen, \<lambda>xlen b. (rv_srai, enc_I 0x5013 (rvc_rs1s b) (rvc_rs1s b) (0x400 OR rvc_zimm b))),
     (rv_c_srli, \<lambda>xlen b. rvc_zimm b < word_of_nat xlen, \<lambda>xlen b. (rv_srli, enc_I 0x5013 (rvc_rs1s b) (rvc_rs1s b) (rvc_zimm b))),
     (rv_c_sub, \<lambda>xlen b. True, \<lambda>xlen b. (rv_sub, enc_R 0x40000033 (rvc_rs1s b) (rvc_rs1s b) (rvc_rs2s b))),
     (rv_c_subw, \<lambda>xlen b. xlen = 64, \<lambda>xlen b. (rv_subw, enc_R 0x4000003b (rvc_rs1s b) (rvc_rs1s b) (rvc_rs2s b))),
     (rv_c_xor, \<lambda>xlen b. True, \<lambda>xlen b. (rv_xor, enc_R 0x4033 (rvc_rs1s b) (rvc_rs1s b) (rvc_rs2s b)))]"

text \<open>C19: each compressed instruction behaves exactly as the base instruction it expands to, run on the
  32-bit instruction word with the register numbers and the immediate of the compressed one, in RV32
  and RV64; without the C extension, and for the reserved encodings, it is the illegal instruction.\<close>

theorem compressed_expansion:
  "list_all (\<lambda>(f, valid, expansion). expands valid expansion f) expansion_table"
  unfolding expansion_table_def by (simp only: list.pred_inject prod.case simp_thms
    c_add_expands
    c_addi_expands
    c_addi4spn_expands
    c_addw_expands
    c_and_expands
    c_andi_expands
    c_beqz_expands
    c_bnez_expands
    c_ebreak_expands
    c_j_expands
    c_jal_expands
    c_jalr_expands
    c_jr_expands
    c_li_expands
    c_lui_expands
    c_mv_expands
    c_or_expands
    c_slli_expands
    c_srai_expands
    c_srli_expands
    c_sub_expands
    c_subw_expands
    c_xor_expands)

end
