(* ===== verification/RV_CSR.thy ===== *)
theory RV_CSR
  imports RV_State
begin

text \<open>
  The control and status registers: reset, reading and writing by address
  (\<open>state_t::reset\<close>, \<open>processor_t::reset\<close>, \<open>set_csr\<close>, \<open>get_csr\<close> and \<open>legalize_privilege\<close> of
  \<open>riscv/processor.cc\<close>), and the field macros of \<open>riscv/decode.h\<close>. \<open>mmu->flush_tlb()\<close> and
  \<open>trigger_updated()\<close> are noted in the hart as calls of its memory management unit. A custom extension is present or not; its own reset is not modelled.
\<close>

section \<open>Fallible steps\<close>

text \<open>What throws ends the sequence.\<close>

definition and_then :: "'e + 'a \<Rightarrow> ('a \<Rightarrow> 'e + 'b) \<Rightarrow> 'e + 'b" where
  "and_then r k = (case r of Inl e \<Rightarrow> Inl e | Inr x \<Rightarrow> k x)"

lemma and_then_simps [simp]: "and_then (Inl e) k = Inl e" "and_then (Inr x) k = k x"
  by (simp_all add: and_then_def)

text \<open>A property of the hart a fallible step returns, by cases of its conditionals.\<close>

definition returns :: "('a \<Rightarrow> bool) \<Rightarrow> 'e + 'a \<Rightarrow> bool" where
  "returns P r = (case r of Inl e \<Rightarrow> True | Inr x \<Rightarrow> P x)"

lemma returns_simps [simp]: "returns P (Inl e)" "returns P (Inr x) = P x"
  by (simp_all add: returns_def)

lemma returns_if: "returns P a \<Longrightarrow> returns P b \<Longrightarrow> returns P (if c then a else b)"
  by simp

lemma returns_if_pos: "(c \<Longrightarrow> returns P a) \<Longrightarrow> returns P b \<Longrightarrow> returns P (if c then a else b)"
  by simp

lemma returnsD: "returns P r \<Longrightarrow> r = Inr x \<Longrightarrow> P x"
  by simp

lemma returns_and_then: "returns Q r \<Longrightarrow> (\<And>x. Q x \<Longrightarrow> returns P (k x)) \<Longrightarrow> returns P (and_then r k)"
  by (cases r) simp_all

section \<open>Constants\<close>

abbreviation (input) ext_H :: nat where "ext_H \<equiv> 72"
abbreviation (input) ext_S :: nat where "ext_S \<equiv> 83"
abbreviation (input) ext_U :: nat where "ext_U \<equiv> 85"
abbreviation (input) ext_V :: nat where "ext_V \<equiv> 86"

abbreviation (input) PRV_U :: u64 where "PRV_U \<equiv> 0"
abbreviation (input) PRV_S :: u64 where "PRV_S \<equiv> 1"
abbreviation (input) PRV_HS :: u64 where "PRV_HS \<equiv> 2"
abbreviation (input) PRV_M :: u64 where "PRV_M \<equiv> 3"

abbreviation (input) MSTATUS_SIE :: u64 where "MSTATUS_SIE \<equiv> 0x2"
abbreviation (input) MSTATUS_MIE :: u64 where "MSTATUS_MIE \<equiv> 0x8"
abbreviation (input) MSTATUS_SPIE :: u64 where "MSTATUS_SPIE \<equiv> 0x20"
abbreviation (input) MSTATUS_MPIE :: u64 where "MSTATUS_MPIE \<equiv> 0x80"
abbreviation (input) MSTATUS_SPP :: u64 where "MSTATUS_SPP \<equiv> 0x100"
abbreviation (input) MSTATUS_VS :: u64 where "MSTATUS_VS \<equiv> 0x600"
abbreviation (input) MSTATUS_MPP :: u64 where "MSTATUS_MPP \<equiv> 0x1800"
abbreviation (input) MSTATUS_XS :: u64 where "MSTATUS_XS \<equiv> 0x18000"
abbreviation (input) MSTATUS_MPRV :: u64 where "MSTATUS_MPRV \<equiv> 0x20000"
abbreviation (input) MSTATUS_SUM :: u64 where "MSTATUS_SUM \<equiv> 0x40000"
abbreviation (input) MSTATUS_MXR :: u64 where "MSTATUS_MXR \<equiv> 0x80000"
abbreviation (input) MSTATUS_TVM :: u64 where "MSTATUS_TVM \<equiv> 0x100000"
abbreviation (input) MSTATUS_TW :: u64 where "MSTATUS_TW \<equiv> 0x200000"
abbreviation (input) MSTATUS_TSR :: u64 where "MSTATUS_TSR \<equiv> 0x400000"
abbreviation (input) MSTATUS_UXL :: u64 where "MSTATUS_UXL \<equiv> 0x300000000"
abbreviation (input) MSTATUS_SXL :: u64 where "MSTATUS_SXL \<equiv> 0xC00000000"
abbreviation (input) MSTATUS_GVA :: u64 where "MSTATUS_GVA \<equiv> 0x4000000000"
abbreviation (input) MSTATUS_MPV :: u64 where "MSTATUS_MPV \<equiv> 0x8000000000"

abbreviation (input) HSTATUS_VTSR :: u64 where "HSTATUS_VTSR \<equiv> 0x400000"
abbreviation (input) HSTATUS_VTW :: u64 where "HSTATUS_VTW \<equiv> 0x200000"
abbreviation (input) HSTATUS_VTVM :: u64 where "HSTATUS_VTVM \<equiv> 0x100000"
abbreviation (input) HSTATUS_HU :: u64 where "HSTATUS_HU \<equiv> 0x200"
abbreviation (input) HSTATUS_SPVP :: u64 where "HSTATUS_SPVP \<equiv> 0x100"
abbreviation (input) HSTATUS_SPV :: u64 where "HSTATUS_SPV \<equiv> 0x80"
abbreviation (input) HSTATUS_GVA :: u64 where "HSTATUS_GVA \<equiv> 0x40"

abbreviation (input) MIP_SSIP :: u64 where "MIP_SSIP \<equiv> 0x2"
abbreviation (input) MIP_VSSIP :: u64 where "MIP_VSSIP \<equiv> 0x4"
abbreviation (input) MIP_MSIP :: u64 where "MIP_MSIP \<equiv> 0x8"
abbreviation (input) MIP_STIP :: u64 where "MIP_STIP \<equiv> 0x20"
abbreviation (input) MIP_VSTIP :: u64 where "MIP_VSTIP \<equiv> 0x40"
abbreviation (input) MIP_MTIP :: u64 where "MIP_MTIP \<equiv> 0x80"
abbreviation (input) MIP_SEIP :: u64 where "MIP_SEIP \<equiv> 0x200"
abbreviation (input) MIP_VSEIP :: u64 where "MIP_VSEIP \<equiv> 0x400"
abbreviation (input) MIP_MEIP :: u64 where "MIP_MEIP \<equiv> 0x800"
abbreviation (input) MIP_VS_MASK :: u64 where "MIP_VS_MASK \<equiv> 0x444"
abbreviation (input) MIP_HS_MASK :: u64 where "MIP_HS_MASK \<equiv> 0x1444"
abbreviation (input) MIDELEG_FORCED_MASK :: u64 where "MIDELEG_FORCED_MASK \<equiv> 0x1444"
abbreviation (input) IRQ_COP :: nat where "IRQ_COP \<equiv> 12"

abbreviation (input) PMP_R :: u8 where "PMP_R \<equiv> 0x01"
abbreviation (input) PMP_W :: u8 where "PMP_W \<equiv> 0x02"
abbreviation (input) PMP_X :: u8 where "PMP_X \<equiv> 0x04"
abbreviation (input) PMP_A :: u8 where "PMP_A \<equiv> 0x18"
abbreviation (input) PMP_L :: u8 where "PMP_L \<equiv> 0x80"
abbreviation (input) PMP_TOR :: u8 where "PMP_TOR \<equiv> 0x08"
abbreviation (input) PMP_NA4 :: u8 where "PMP_NA4 \<equiv> 0x10"
abbreviation (input) PMP_NAPOT :: u8 where "PMP_NAPOT \<equiv> 0x18"
abbreviation (input) PMP_SHIFT :: nat where "PMP_SHIFT \<equiv> 2"
abbreviation (input) max_pmp :: nat where "max_pmp \<equiv> 16"
abbreviation (input) MAX_PADDR_BITS :: nat where "MAX_PADDR_BITS \<equiv> 32"
abbreviation (input) PGSHIFT :: nat where "PGSHIFT \<equiv> 12"
abbreviation (input) num_triggers :: nat where "num_triggers \<equiv> 4"

text \<open>The addresses of the registers.\<close>

abbreviation (input) CSR_FFLAGS :: nat where "CSR_FFLAGS \<equiv> 0x001"
abbreviation (input) CSR_FRM :: nat where "CSR_FRM \<equiv> 0x002"
abbreviation (input) CSR_FCSR :: nat where "CSR_FCSR \<equiv> 0x003"
abbreviation (input) CSR_VSTART :: nat where "CSR_VSTART \<equiv> 0x008"
abbreviation (input) CSR_VXSAT :: nat where "CSR_VXSAT \<equiv> 0x009"
abbreviation (input) CSR_VXRM :: nat where "CSR_VXRM \<equiv> 0x00A"
abbreviation (input) CSR_VCSR :: nat where "CSR_VCSR \<equiv> 0x00F"
abbreviation (input) CSR_SSTATUS :: nat where "CSR_SSTATUS \<equiv> 0x100"
abbreviation (input) CSR_SIE :: nat where "CSR_SIE \<equiv> 0x104"
abbreviation (input) CSR_STVEC :: nat where "CSR_STVEC \<equiv> 0x105"
abbreviation (input) CSR_SCOUNTEREN :: nat where "CSR_SCOUNTEREN \<equiv> 0x106"
abbreviation (input) CSR_SSCRATCH :: nat where "CSR_SSCRATCH \<equiv> 0x140"
abbreviation (input) CSR_SEPC :: nat where "CSR_SEPC \<equiv> 0x141"
abbreviation (input) CSR_SCAUSE :: nat where "CSR_SCAUSE \<equiv> 0x142"
abbreviation (input) CSR_STVAL :: nat where "CSR_STVAL \<equiv> 0x143"
abbreviation (input) CSR_SIP :: nat where "CSR_SIP \<equiv> 0x144"
abbreviation (input) CSR_SATP :: nat where "CSR_SATP \<equiv> 0x180"
abbreviation (input) CSR_VSSTATUS :: nat where "CSR_VSSTATUS \<equiv> 0x200"
abbreviation (input) CSR_VSIE :: nat where "CSR_VSIE \<equiv> 0x204"
abbreviation (input) CSR_VSTVEC :: nat where "CSR_VSTVEC \<equiv> 0x205"
abbreviation (input) CSR_VSSCRATCH :: nat where "CSR_VSSCRATCH \<equiv> 0x240"
abbreviation (input) CSR_VSEPC :: nat where "CSR_VSEPC \<equiv> 0x241"
abbreviation (input) CSR_VSCAUSE :: nat where "CSR_VSCAUSE \<equiv> 0x242"
abbreviation (input) CSR_VSTVAL :: nat where "CSR_VSTVAL \<equiv> 0x243"
abbreviation (input) CSR_VSIP :: nat where "CSR_VSIP \<equiv> 0x244"
abbreviation (input) CSR_VSATP :: nat where "CSR_VSATP \<equiv> 0x280"
abbreviation (input) CSR_MSTATUS :: nat where "CSR_MSTATUS \<equiv> 0x300"
abbreviation (input) CSR_MISA :: nat where "CSR_MISA \<equiv> 0x301"
abbreviation (input) CSR_MEDELEG :: nat where "CSR_MEDELEG \<equiv> 0x302"
abbreviation (input) CSR_MIDELEG :: nat where "CSR_MIDELEG \<equiv> 0x303"
abbreviation (input) CSR_MIE :: nat where "CSR_MIE \<equiv> 0x304"
abbreviation (input) CSR_MTVEC :: nat where "CSR_MTVEC \<equiv> 0x305"
abbreviation (input) CSR_MCOUNTEREN :: nat where "CSR_MCOUNTEREN \<equiv> 0x306"
abbreviation (input) CSR_MCOUNTINHIBIT :: nat where "CSR_MCOUNTINHIBIT \<equiv> 0x320"
abbreviation (input) CSR_MHPMEVENT3 :: nat where "CSR_MHPMEVENT3 \<equiv> 0x323"
abbreviation (input) CSR_MHPMEVENT31 :: nat where "CSR_MHPMEVENT31 \<equiv> 0x33F"
abbreviation (input) CSR_MSCRATCH :: nat where "CSR_MSCRATCH \<equiv> 0x340"
abbreviation (input) CSR_MEPC :: nat where "CSR_MEPC \<equiv> 0x341"
abbreviation (input) CSR_MCAUSE :: nat where "CSR_MCAUSE \<equiv> 0x342"
abbreviation (input) CSR_MTVAL :: nat where "CSR_MTVAL \<equiv> 0x343"
abbreviation (input) CSR_MIP :: nat where "CSR_MIP \<equiv> 0x344"
abbreviation (input) CSR_MTINST :: nat where "CSR_MTINST \<equiv> 0x34A"
abbreviation (input) CSR_MTVAL2 :: nat where "CSR_MTVAL2 \<equiv> 0x34B"
abbreviation (input) CSR_PMPCFG0 :: nat where "CSR_PMPCFG0 \<equiv> 0x3A0"
abbreviation (input) CSR_PMPADDR0 :: nat where "CSR_PMPADDR0 \<equiv> 0x3B0"
abbreviation (input) CSR_HSTATUS :: nat where "CSR_HSTATUS \<equiv> 0x600"
abbreviation (input) CSR_HEDELEG :: nat where "CSR_HEDELEG \<equiv> 0x602"
abbreviation (input) CSR_HIDELEG :: nat where "CSR_HIDELEG \<equiv> 0x603"
abbreviation (input) CSR_HIE :: nat where "CSR_HIE \<equiv> 0x604"
abbreviation (input) CSR_HTIMEDELTA :: nat where "CSR_HTIMEDELTA \<equiv> 0x605"
abbreviation (input) CSR_HCOUNTEREN :: nat where "CSR_HCOUNTEREN \<equiv> 0x606"
abbreviation (input) CSR_HGEIE :: nat where "CSR_HGEIE \<equiv> 0x607"
abbreviation (input) CSR_HTIMEDELTAH :: nat where "CSR_HTIMEDELTAH \<equiv> 0x615"
abbreviation (input) CSR_HTVAL :: nat where "CSR_HTVAL \<equiv> 0x643"
abbreviation (input) CSR_HIP :: nat where "CSR_HIP \<equiv> 0x644"
abbreviation (input) CSR_HVIP :: nat where "CSR_HVIP \<equiv> 0x645"
abbreviation (input) CSR_HTINST :: nat where "CSR_HTINST \<equiv> 0x64A"
abbreviation (input) CSR_HGATP :: nat where "CSR_HGATP \<equiv> 0x680"
abbreviation (input) CSR_TSELECT :: nat where "CSR_TSELECT \<equiv> 0x7A0"
abbreviation (input) CSR_TDATA1 :: nat where "CSR_TDATA1 \<equiv> 0x7A1"
abbreviation (input) CSR_TDATA2 :: nat where "CSR_TDATA2 \<equiv> 0x7A2"
abbreviation (input) CSR_TDATA3 :: nat where "CSR_TDATA3 \<equiv> 0x7A3"
abbreviation (input) CSR_DCSR :: nat where "CSR_DCSR \<equiv> 0x7B0"
abbreviation (input) CSR_DPC :: nat where "CSR_DPC \<equiv> 0x7B1"
abbreviation (input) CSR_DSCRATCH0 :: nat where "CSR_DSCRATCH0 \<equiv> 0x7B2"
abbreviation (input) CSR_DSCRATCH1 :: nat where "CSR_DSCRATCH1 \<equiv> 0x7B3"
abbreviation (input) CSR_MCYCLE :: nat where "CSR_MCYCLE \<equiv> 0xB00"
abbreviation (input) CSR_MINSTRET :: nat where "CSR_MINSTRET \<equiv> 0xB02"
abbreviation (input) CSR_MHPMCOUNTER3 :: nat where "CSR_MHPMCOUNTER3 \<equiv> 0xB03"
abbreviation (input) CSR_MHPMCOUNTER31 :: nat where "CSR_MHPMCOUNTER31 \<equiv> 0xB1F"
abbreviation (input) CSR_MCYCLEH :: nat where "CSR_MCYCLEH \<equiv> 0xB80"
abbreviation (input) CSR_MINSTRETH :: nat where "CSR_MINSTRETH \<equiv> 0xB82"
abbreviation (input) CSR_MHPMCOUNTER3H :: nat where "CSR_MHPMCOUNTER3H \<equiv> 0xB83"
abbreviation (input) CSR_MHPMCOUNTER31H :: nat where "CSR_MHPMCOUNTER31H \<equiv> 0xB9F"
abbreviation (input) CSR_CYCLE :: nat where "CSR_CYCLE \<equiv> 0xC00"
abbreviation (input) CSR_INSTRET :: nat where "CSR_INSTRET \<equiv> 0xC02"
abbreviation (input) CSR_HPMCOUNTER3 :: nat where "CSR_HPMCOUNTER3 \<equiv> 0xC03"
abbreviation (input) CSR_HPMCOUNTER31 :: nat where "CSR_HPMCOUNTER31 \<equiv> 0xC1F"
abbreviation (input) CSR_VL :: nat where "CSR_VL \<equiv> 0xC20"
abbreviation (input) CSR_VTYPE :: nat where "CSR_VTYPE \<equiv> 0xC21"
abbreviation (input) CSR_VLENB :: nat where "CSR_VLENB \<equiv> 0xC22"
abbreviation (input) CSR_CYCLEH :: nat where "CSR_CYCLEH \<equiv> 0xC80"
abbreviation (input) CSR_INSTRETH :: nat where "CSR_INSTRETH \<equiv> 0xC82"
abbreviation (input) CSR_HPMCOUNTER3H :: nat where "CSR_HPMCOUNTER3H \<equiv> 0xC83"
abbreviation (input) CSR_HPMCOUNTER31H :: nat where "CSR_HPMCOUNTER31H \<equiv> 0xC9F"
abbreviation (input) CSR_HGEIP :: nat where "CSR_HGEIP \<equiv> 0xE12"
abbreviation (input) CSR_MVENDORID :: nat where "CSR_MVENDORID \<equiv> 0xF11"
abbreviation (input) CSR_MARCHID :: nat where "CSR_MARCHID \<equiv> 0xF12"
abbreviation (input) CSR_MIMPID :: nat where "CSR_MIMPID \<equiv> 0xF13"
abbreviation (input) CSR_MHARTID :: nat where "CSR_MHARTID \<equiv> 0xF14"

section \<open>Fields\<close>

definition get_field :: "u64 \<Rightarrow> u64 \<Rightarrow> u64" where
  "get_field r mk = (r AND mk) div (mk AND NOT (push_bit 1 mk))"

definition set_field :: "u64 \<Rightarrow> u64 \<Rightarrow> u64 \<Rightarrow> u64" where
  "set_field r mk v = (r AND NOT mk) OR ((v * (mk AND NOT (push_bit 1 mk))) AND mk)"

definition xlen_to_uxl :: "nat \<Rightarrow> u64" where "xlen_to_uxl n = (if n = 32 then 1 else 2)"

section \<open>Privilege\<close>

definition legalize_privilege :: "u64 \<Rightarrow> hart \<Rightarrow> u64" where
  "legalize_privilege r p =
     (if \<not> supports_extension ext_U p then PRV_M
      else if (r = PRV_HS \<and> \<not> supports_extension ext_H p) \<or> (r = PRV_S \<and> \<not> supports_extension ext_S p) then PRV_U
      else r)"

definition set_privilege :: "u64 \<Rightarrow> hart \<Rightarrow> hart" where
  "set_privilege r p = (call_mmu Flush_tlb p)\<lparr>prv := legalize_privilege r p\<rparr>"

section \<open>Physical memory protection\<close>

definition pmp_tor_mask :: "hart \<Rightarrow> u64" where
  "pmp_tor_mask p = - push_bit (lg_pmp_granularity (cfg p) - PMP_SHIFT) 1"

definition pmp_addr_writable :: "nat \<Rightarrow> hart \<Rightarrow> bool" where
  "pmp_addr_writable i p =
     (let locked = pmpcfg (csr p) ! i AND PMP_L \<noteq> 0;
          next_locked = i + 1 < max_pmp \<and> pmpcfg (csr p) ! (i + 1) AND PMP_L \<noteq> 0;
          next_tor = i + 1 < max_pmp \<and> pmpcfg (csr p) ! (i + 1) AND PMP_A = PMP_TOR
      in i < n_pmp (cfg p) \<and> \<not> locked \<and> \<not> (next_locked \<and> next_tor))"

definition set_pmpaddr :: "nat \<Rightarrow> u64 \<Rightarrow> hart \<Rightarrow> hart" where
  "set_pmpaddr i v p =
     (if n_pmp (cfg p) = 0 then p
      else call_mmu Flush_tlb
        (if pmp_addr_writable i p
         then p\<lparr>csr := (csr p)\<lparr>pmpaddr := (pmpaddr (csr p))[i := v AND (push_bit (MAX_PADDR_BITS - PMP_SHIFT) 1 - 1)]\<rparr>\<rparr>
         else p))"

text \<open>The loop body of a write to \<open>pmpcfg\<close>: byte \<open>i - i0\<close> of the value for entry \<open>i\<close>.\<close>

definition pmp_cfg_byte :: "u64 \<Rightarrow> nat \<Rightarrow> hart \<Rightarrow> u8" where
  "pmp_cfg_byte v k p =
     (let c = ucast (drop_bit (8 * k) v) AND (PMP_R OR PMP_W OR PMP_X OR PMP_A OR PMP_L);
          c = c AND (NOT PMP_W OR (if c AND PMP_R \<noteq> 0 then PMP_W else 0))
      in if lg_pmp_granularity (cfg p) \<noteq> PMP_SHIFT \<and> c AND PMP_A = PMP_NA4 then c OR PMP_NAPOT else c)"

definition set_pmpcfg_entry :: "u64 \<Rightarrow> nat \<Rightarrow> nat \<Rightarrow> hart \<Rightarrow> hart" where
  "set_pmpcfg_entry v i0 i p =
     (if i < n_pmp (cfg p) \<and> pmpcfg (csr p) ! i AND PMP_L = 0
      then p\<lparr>csr := (csr p)\<lparr>pmpcfg := (pmpcfg (csr p))[i := pmp_cfg_byte v (i - i0) p]\<rparr>\<rparr> else p)"

definition set_pmpcfg :: "nat \<Rightarrow> u64 \<Rightarrow> hart \<Rightarrow> hart" where
  "set_pmpcfg n v p =
     (let i0 = n * 4
      in if n_pmp (cfg p) = 0 then p
         else call_mmu Flush_tlb (fold (set_pmpcfg_entry v i0) [i0..<i0 + cur_xlen p div 8] p))"

section \<open>Writing\<close>

definition supervisor_ints :: "hart \<Rightarrow> u64" where
  "supervisor_ints p = (if supports_extension ext_S p then MIP_SSIP OR MIP_STIP OR MIP_SEIP else 0)"
definition vssip_int :: "hart \<Rightarrow> u64" where "vssip_int p = (if supports_extension ext_H p then MIP_VSSIP else 0)"
definition hypervisor_ints :: "hart \<Rightarrow> u64" where
  "hypervisor_ints p = (if supports_extension ext_H p then MIP_HS_MASK else 0)"
definition delegable_ints :: "hart \<Rightarrow> u64" where
  "delegable_ints p = supervisor_ints p OR push_bit IRQ_COP (of_bool (has_ext (cfg p)))"
definition all_ints :: "hart \<Rightarrow> u64" where
  "all_ints p = delegable_ints p OR hypervisor_ints p OR MIP_MSIP OR MIP_MTIP OR MIP_MEIP"

text \<open>\<open>(old & ~mask) | (val & mask)\<close>.\<close>

definition masked :: "u64 \<Rightarrow> u64 \<Rightarrow> u64 \<Rightarrow> u64" where "masked mk old v = (old AND NOT mk) OR (v AND mk)"

definition mstatus_mask :: "hart \<Rightarrow> u64" where
  "mstatus_mask p =
     (let has_fs = supports_extension ext_S p \<or> supports_extension ext_F p \<or> supports_extension ext_V p;
          has_vs = supports_extension ext_V p;
          has_mpv = supports_extension ext_S p \<and> supports_extension ext_H p;
          has_gva = has_mpv
      in MSTATUS_MIE OR MSTATUS_MPIE OR MSTATUS_MPRV
         OR (if supports_extension ext_S p then MSTATUS_SUM OR MSTATUS_SIE OR MSTATUS_SPIE else 0)
         OR MSTATUS_MXR OR MSTATUS_TW OR MSTATUS_TVM OR MSTATUS_TSR
         OR (if has_fs then MSTATUS_FS else 0)
         OR (if has_vs then MSTATUS_VS else 0)
         OR (if has_ext (cfg p) then MSTATUS_XS else 0)
         OR (if has_gva then MSTATUS_GVA else 0)
         OR (if has_mpv then MSTATUS_MPV else 0)
         OR (if supports_extension ext_S p then MSTATUS_SPP else 0))"

definition write_mstatus :: "u64 \<Rightarrow> hart \<Rightarrow> hart" where
  "write_mstatus v p =
     (let mk = mstatus_mask p;
          rocket_mask = (if v AND MSTATUS_FS \<noteq> 0 then MSTATUS_FS else 0);
          requested_mpp = legalize_privilege (get_field v MSTATUS_MPP) p;
          s = set_field (mstatus p) MSTATUS_MPP requested_mpp;
          s = (s AND NOT mk) OR ((v AND mk) OR rocket_mask);
          dirty = (s AND MSTATUS_FS = MSTATUS_FS \<or> s AND MSTATUS_XS = MSTATUS_XS \<or> s AND MSTATUS_VS = MSTATUS_VS);
          s = (if max_xlen (cfg p) = 32 then set_field s MSTATUS32_SD (of_bool dirty) else set_field s MSTATUS64_SD (of_bool dirty));
          s = (if supports_extension ext_U p then set_field s MSTATUS_UXL (xlen_to_uxl (max_xlen (cfg p))) else s);
          s = (if supports_extension ext_S p then set_field s MSTATUS_SXL (xlen_to_uxl (max_xlen (cfg p))) else s)
      in (if (v XOR mstatus p) AND (MSTATUS_MPP OR MSTATUS_MPRV OR MSTATUS_SUM OR MSTATUS_MXR) \<noteq> 0
          then call_mmu Flush_tlb p else p)\<lparr>mstatus := s, cur_xlen := max_xlen (cfg p)\<rparr>)"


definition dirty_vs_state :: "nat \<Rightarrow> hart \<Rightarrow> hart" where
  "dirty_vs_state n p =
     p\<lparr>mstatus := mstatus p OR (MSTATUS_VS OR (if n = 64 then MSTATUS64_SD else MSTATUS32_SD))\<rparr>"

text \<open>The causes the delegation registers hold, and the masks of \<open>sstatus\<close> and \<open>vsstatus\<close>.\<close>

abbreviation (input) MEDELEG_MASK :: u64 where "MEDELEG_MASK \<equiv> 0xB15D"
abbreviation (input) HEDELEG_MASK :: u64 where "HEDELEG_MASK \<equiv> 0xB1F9"
abbreviation (input) SSTATUS_VS_MASK :: u64 where "SSTATUS_VS_MASK \<equiv> 0x3000C0122"

definition sstatus_write_mask :: "hart \<Rightarrow> u64" where
  "sstatus_write_mask p =
     (MSTATUS_SIE OR MSTATUS_SPIE OR MSTATUS_SPP OR MSTATUS_FS
      OR MSTATUS_XS OR MSTATUS_SUM OR MSTATUS_MXR
      OR (if supports_extension ext_V p then MSTATUS_VS else 0))"

definition vsstatus_mask :: "hart \<Rightarrow> u64" where
  "vsstatus_mask p =
     (SSTATUS_VS_MASK
      OR (if supports_extension ext_F p then MSTATUS_FS else 0)
      OR (if supports_extension ext_V p then MSTATUS_VS else 0)
      OR (if cur_xlen p = 64 then MSTATUS64_SD else MSTATUS32_SD))"

text \<open>Address translation registers: an unsupported mode writes zero.\<close>

abbreviation (input) SATP32_PPN :: u64 where "SATP32_PPN \<equiv> 0x3FFFFF"
abbreviation (input) SATP32_MODE :: u64 where "SATP32_MODE \<equiv> 0x80000000"
abbreviation (input) SATP64_PPN :: u64 where "SATP64_PPN \<equiv> 0xFFFFFFFFFFF"
abbreviation (input) SATP64_MODE :: u64 where "SATP64_MODE \<equiv> 0xF000000000000000"
abbreviation (input) rv64_ppn_mask :: u64 where "rv64_ppn_mask \<equiv> push_bit (MAX_PADDR_BITS - PGSHIFT) 1 - 1"

definition satp_value :: "u64 \<Rightarrow> hart \<Rightarrow> u64" where
  "satp_value v p =
     (if max_xlen (cfg p) = 32 then v AND (SATP32_PPN OR SATP32_MODE)
      else if max_xlen (cfg p) = 64 \<and> get_field v SATP64_MODE \<in> {0, 8, 9}
      then v AND ((SATP64_PPN AND rv64_ppn_mask) OR SATP64_MODE) else 0)"

definition vsatp_value :: "u64 \<Rightarrow> hart \<Rightarrow> u64" where
  "vsatp_value v p =
     (if max_xlen (cfg p) = 32 then v AND (SATP32_PPN OR SATP32_MODE)
      else if max_xlen (cfg p) = 64 \<and> get_field v SATP64_MODE \<in> {0, 8, 9}
      then v AND (SATP64_PPN OR SATP64_MODE OR rv64_ppn_mask) else 0)"

text \<open>\<open>HGATP32_*\<close> and \<open>HGATP64_*\<close> are the fields of \<open>satp\<close> at the same places.\<close>

definition hgatp_value :: "u64 \<Rightarrow> hart \<Rightarrow> u64" where
  "hgatp_value v p =
     (if max_xlen (cfg p) = 32 then v AND (SATP32_PPN OR SATP32_MODE)
      else if max_xlen (cfg p) = 64 \<and> get_field v SATP64_MODE \<in> {0, 8, 9}
      then v AND (SATP64_PPN OR SATP64_MODE OR rv64_ppn_mask) else 0)"

text \<open>An exception program counter has 40 bits, of which the top one is extended.\<close>

definition epc_value :: "u64 \<Rightarrow> u64" where
  "epc_value v =
     (let mk = push_bit 40 1 - 1;
          upper_mask = push_bit 39 (- (drop_bit 39 v AND 1))
      in upper_mask OR ((v AND NOT 1) AND mk))"

definition write_misa :: "u64 \<Rightarrow> hart \<Rightarrow> hart" where
  "write_misa v p =
     (if v AND push_bit 2 1 = 0 \<and> pc_reg (csr p) AND 2 \<noteq> 0 then p
      else let v = (if v AND push_bit 5 1 = 0 then v AND NOT (push_bit 3 1) else v);
               mk = (push_bit 12 1 OR push_bit 0 1 OR push_bit 5 1 OR push_bit 3 1 OR push_bit 2 1 OR push_bit 7 1)
                    AND max_isa (cfg p);
               p = p\<lparr>misa := (v AND mk) OR (misa p AND NOT mk)\<rparr>
           in csr_update (mideleg_update (\<lambda>old.
                if supports_extension ext_H p then old OR MIDELEG_FORCED_MASK
                else old AND NOT MIDELEG_FORCED_MASK)) p)"

text \<open>The trigger module and the debug control register.\<close>

abbreviation (input) MCONTROL_TYPE :: "nat \<Rightarrow> u64" where "MCONTROL_TYPE n \<equiv> push_bit (n - 4) 0xF"
abbreviation (input) MCONTROL_DMODE :: "nat \<Rightarrow> u64" where "MCONTROL_DMODE n \<equiv> push_bit (n - 5) 1"
abbreviation (input) MCONTROL_MASKMAX :: "nat \<Rightarrow> u64" where "MCONTROL_MASKMAX n \<equiv> push_bit (n - 11) 0x3F"
abbreviation (input) MCONTROL_SELECT :: u64 where "MCONTROL_SELECT \<equiv> 0x80000"
abbreviation (input) MCONTROL_TIMING :: u64 where "MCONTROL_TIMING \<equiv> 0x40000"
abbreviation (input) MCONTROL_ACTION :: u64 where "MCONTROL_ACTION \<equiv> 0x3F000"
abbreviation (input) MCONTROL_CHAIN :: u64 where "MCONTROL_CHAIN \<equiv> 0x800"
abbreviation (input) MCONTROL_MATCH :: u64 where "MCONTROL_MATCH \<equiv> 0x780"
abbreviation (input) MCONTROL_M :: u64 where "MCONTROL_M \<equiv> 0x40"
abbreviation (input) MCONTROL_H :: u64 where "MCONTROL_H \<equiv> 0x20"
abbreviation (input) MCONTROL_S :: u64 where "MCONTROL_S \<equiv> 0x10"
abbreviation (input) MCONTROL_U :: u64 where "MCONTROL_U \<equiv> 0x8"
abbreviation (input) MCONTROL_EXECUTE :: u64 where "MCONTROL_EXECUTE \<equiv> 0x4"
abbreviation (input) MCONTROL_STORE :: u64 where "MCONTROL_STORE \<equiv> 0x2"
abbreviation (input) MCONTROL_LOAD :: u64 where "MCONTROL_LOAD \<equiv> 0x1"

definition write_tdata1 :: "u64 \<Rightarrow> hart \<Rightarrow> hart" where
  "write_tdata1 v p =
     (let i = unat (tselect (csr p)); mc = mcontrol (csr p) ! i
      in if mc_dmode mc \<and> \<not> debug_mode (csr p) then p
         else call_mmu Trigger_updated (csr_update (mcontrol_update (\<lambda>l. l[i := mc\<lparr>
                mc_dmode := get_field v (MCONTROL_DMODE (cur_xlen p)) \<noteq> 0,
                mc_select := get_field v MCONTROL_SELECT \<noteq> 0,
                mc_timing := get_field v MCONTROL_TIMING \<noteq> 0 \<and> \<not> get_field v MCONTROL_EXECUTE \<noteq> 0,
                mc_action := get_field v MCONTROL_ACTION,
                mc_chain := get_field v MCONTROL_CHAIN \<noteq> 0,
                mc_match := get_field v MCONTROL_MATCH,
                mc_m := get_field v MCONTROL_M \<noteq> 0,
                mc_h := get_field v MCONTROL_H \<noteq> 0,
                mc_s := get_field v MCONTROL_S \<noteq> 0,
                mc_u := get_field v MCONTROL_U \<noteq> 0,
                mc_execute := get_field v MCONTROL_EXECUTE \<noteq> 0,
                mc_store := get_field v MCONTROL_STORE \<noteq> 0,
                mc_load := get_field v MCONTROL_LOAD \<noteq> 0\<rparr>])) p))"

definition write_tdata2 :: "u64 \<Rightarrow> hart \<Rightarrow> hart" where
  "write_tdata2 v p =
     (let i = tselect (csr p)
      in if mc_dmode (mcontrol (csr p) ! unat i) \<and> \<not> debug_mode (csr p) then p
         else if i < of_nat num_triggers then csr_update (tdata2_update (\<lambda>l. l[unat i := v])) p
         else p)"

abbreviation (input) DCSR_XDEBUGVER :: u32 where "DCSR_XDEBUGVER \<equiv> 0xC0000000"
abbreviation (input) DCSR_EBREAKM :: u64 where "DCSR_EBREAKM \<equiv> 0x8000"
abbreviation (input) DCSR_EBREAKH :: u64 where "DCSR_EBREAKH \<equiv> 0x4000"
abbreviation (input) DCSR_EBREAKS :: u64 where "DCSR_EBREAKS \<equiv> 0x2000"
abbreviation (input) DCSR_EBREAKU :: u64 where "DCSR_EBREAKU \<equiv> 0x1000"
abbreviation (input) DCSR_STEP :: u64 where "DCSR_STEP \<equiv> 0x4"
abbreviation (input) DCSR_HALT :: u64 where "DCSR_HALT \<equiv> 0x8"
abbreviation (input) DCSR_PRV :: u64 where "DCSR_PRV \<equiv> 0x3"

definition write_dcsr :: "u64 \<Rightarrow> hart \<Rightarrow> hart" where
  "write_dcsr v =
     csr_update (dcsr_update (\<lambda>d. d\<lparr>
       dcsr_prv := ucast (get_field v DCSR_PRV),
       dcsr_step := get_field v DCSR_STEP \<noteq> 0,
       dcsr_ebreakm := get_field v DCSR_EBREAKM \<noteq> 0,
       dcsr_ebreakh := get_field v DCSR_EBREAKH \<noteq> 0,
       dcsr_ebreaks := get_field v DCSR_EBREAKS \<noteq> 0,
       dcsr_ebreaku := get_field v DCSR_EBREAKU \<noteq> 0,
       dcsr_halt := get_field v DCSR_HALT \<noteq> 0\<rparr>))"

text \<open>The switch of \<open>set_csr\<close>, on the value cut to \<open>xlen\<close> bits. Four addresses raise an exception.\<close>

definition set_csr_switch :: "nat \<Rightarrow> u64 \<Rightarrow> hart \<Rightarrow> trap + hart" where
  "set_csr_switch which v p =
    (if which = CSR_FFLAGS then Inr ((dirty_fp_state (cur_xlen p) p)\<lparr>fflags := ucast (v AND 0x1F)\<rparr>)
     else if which = CSR_FRM then Inr ((dirty_fp_state (cur_xlen p) p)\<lparr>frm := ucast (v AND 7)\<rparr>)
     else if which = CSR_FCSR then Inr ((dirty_fp_state (cur_xlen p) p)\<lparr>fflags := ucast (v AND 0x1F), frm := ucast (drop_bit 5 (v AND 0xE0))\<rparr>)
     else if which = CSR_VCSR then Inr (csr_update (VU_update (\<lambda>u. u\<lparr>vxsat := v AND 1, vxrm := drop_bit 1 (v AND 6)\<rparr>)) (dirty_vs_state (cur_xlen p) p))
     else if which = CSR_MSTATUS then Inr (write_mstatus v p)
     else if which = CSR_MIP then Inr (csr_update (mip_update (\<lambda>old. masked ((supervisor_ints p OR hypervisor_ints p) AND (MIP_SSIP OR MIP_STIP OR vssip_int p OR MIP_SEIP OR MIP_MEIP)) old v)) p)
     else if which = CSR_MIE then Inr (csr_update (mie_update (\<lambda>old. masked (all_ints p) old v)) p)
     else if which = CSR_MIDELEG then Inr (csr_update (mideleg_update (\<lambda>old. masked (delegable_ints p) old v)) p)
     else if which = CSR_MEDELEG then Inr (csr_update (medeleg_update (\<lambda>old. masked MEDELEG_MASK old v)) p)
     else if which = CSR_MINSTRET \<or> which = CSR_MCYCLE then Inr (csr_update (minstret_update (\<lambda>old. (if cur_xlen p = 32 then push_bit 32 (drop_bit 32 old) OR (v AND 0xFFFFFFFF) else v) - 1)) p)
     else if which = CSR_MINSTRETH \<or> which = CSR_MCYCLEH then Inr (csr_update (minstret_update (\<lambda>old. (push_bit 32 v OR drop_bit 32 (push_bit 32 old)) - 1)) p)
     else if which = CSR_SCOUNTEREN then Inr (csr_update (scounteren_update (\<lambda>_. ucast v)) p)
     else if which = CSR_MCOUNTEREN then Inr (csr_update (mcounteren_update (\<lambda>_. ucast v)) p)
     else if which = CSR_SSTATUS then Inr (write_mstatus (zext_xlen (cur_xlen p) (masked (sstatus_write_mask p) (mstatus p) v)) p)
     else if which = CSR_SIP then (if virt p then Inr (csr_update (mip_update (\<lambda>old. masked (hideleg (csr p) AND MIP_VSSIP) old (push_bit 1 v))) p) else Inr (csr_update (mip_update (\<lambda>old. masked (mideleg (csr p) AND MIP_SSIP) old v)) p))
     else if which = CSR_SIE then (if virt p then Inr (csr_update (mie_update (\<lambda>old. masked (hideleg (csr p) AND MIP_VS_MASK) old (push_bit 1 v))) p) else Inr (csr_update (mie_update (\<lambda>old. masked (mideleg (csr p) AND NOT MIP_HS_MASK) old v)) p))
     else if which = CSR_SATP then (if virt p then Inr (call_mmu Flush_tlb (csr_update (vsatp_update (\<lambda>_. satp_value v p)) p)) else Inr (call_mmu Flush_tlb (csr_update (satp_update (\<lambda>_. satp_value v p)) p)))
     else if which = CSR_SEPC then (if virt p then Inr (csr_update (vsepc_update (\<lambda>_. v AND NOT 1)) p) else Inr (csr_update (sepc_update (\<lambda>_. epc_value v)) p))
     else if which = CSR_STVEC then (if virt p then Inr (csr_update (vstvec_update (\<lambda>_. v AND NOT 2)) p) else Inr (csr_update (stvec_update (\<lambda>_. v AND NOT 2)) p))
     else if which = CSR_SSCRATCH then (if virt p then Inr (csr_update (vsscratch_update (\<lambda>_. v)) p) else Inr (csr_update (sscratch_update (\<lambda>_. v)) p))
     else if which = CSR_SCAUSE then (if virt p then Inr (csr_update (vscause_update (\<lambda>_. v)) p) else Inr (csr_update (scause_update (\<lambda>old. masked (push_bit (cur_xlen p - 1) 1 + 31) old v)) p))
     else if which = CSR_STVAL then (if virt p then Inr (csr_update (vstval_update (\<lambda>_. v)) p) else Inr (csr_update (stval_update (\<lambda>_. v)) p))
     else if which = CSR_MEPC then Inr (csr_update (mepc_update (\<lambda>_. epc_value v)) p)
     else if which = CSR_MTVEC then Inr (csr_update (mtvec_update (\<lambda>_. v AND NOT 2)) p)
     else if which = CSR_MSCRATCH then Inr (csr_update (mscratch_update (\<lambda>_. v)) p)
     else if which = CSR_MCAUSE then Inr (csr_update (mcause_update (\<lambda>old. masked (push_bit (cur_xlen p - 1) 1 + 15) old v)) p)
     else if which = CSR_MTVAL then Inr (csr_update (mtval_update (\<lambda>_. v)) p)
     else if which = CSR_MTVAL2 then (if supports_extension ext_H p then Inr (csr_update (mtval2_update (\<lambda>_. v)) p) else Inl (Trap_illegal_instruction 0))
     else if which = CSR_MTINST then (if supports_extension ext_H p then Inr (csr_update (mtinst_update (\<lambda>_. v)) p) else Inl (Trap_illegal_instruction 0))
     else if which = CSR_MISA then Inr (write_misa v p)
     else if which = CSR_HSTATUS then Inr (csr_update (hstatus_update (\<lambda>old. masked (HSTATUS_VTSR OR HSTATUS_VTW OR HSTATUS_VTVM OR HSTATUS_HU OR HSTATUS_SPVP OR HSTATUS_SPV OR HSTATUS_GVA) old v)) p)
     else if which = CSR_HEDELEG then Inr (csr_update (hedeleg_update (\<lambda>old. masked HEDELEG_MASK old v)) p)
     else if which = CSR_HIDELEG then Inr (csr_update (hideleg_update (\<lambda>old. masked MIP_VS_MASK old v)) p)
     else if which = CSR_HIE then Inr (csr_update (mie_update (\<lambda>old. masked MIP_HS_MASK old v)) p)
     else if which = CSR_HTIMEDELTA \<or> which = CSR_HTIMEDELTAH then Inl (Trap_illegal_instruction 0)
     else if which = CSR_HCOUNTEREN then Inr (csr_update (hcounteren_update (\<lambda>_. ucast v)) p)
     else if which = CSR_HGEIE then Inr p
     else if which = CSR_HTVAL then Inr (csr_update (htinst_update (\<lambda>_. v)) p)
     else if which = CSR_HIP then Inr (csr_update (mip_update (\<lambda>old. masked MIP_VSSIP old v)) p)
     else if which = CSR_HVIP then Inr (csr_update (mip_update (\<lambda>old. masked MIP_VS_MASK old v)) p)
     else if which = CSR_HTINST then Inr (csr_update (htinst_update (\<lambda>_. v)) p)
     else if which = CSR_HGATP then Inr (call_mmu Flush_tlb (csr_update (hgatp_update (\<lambda>_. hgatp_value v p)) p))
     else if which = CSR_VSSTATUS then Inr (csr_update (vsstatus_update (\<lambda>old. masked (vsstatus_mask p) old v)) p)
     else if which = CSR_VSIE then Inr (csr_update (mie_update (\<lambda>old. masked (hideleg (csr p) AND MIP_VS_MASK) old (push_bit 1 v))) p)
     else if which = CSR_VSTVEC then Inr (csr_update (vstvec_update (\<lambda>_. v AND NOT 2)) p)
     else if which = CSR_VSSCRATCH then Inr (csr_update (vsscratch_update (\<lambda>_. v)) p)
     else if which = CSR_VSEPC then Inr (csr_update (vsepc_update (\<lambda>_. v AND NOT 1)) p)
     else if which = CSR_VSCAUSE then Inr (csr_update (vscause_update (\<lambda>_. v)) p)
     else if which = CSR_VSTVAL then Inr (csr_update (vstval_update (\<lambda>_. v)) p)
     else if which = CSR_VSIP then Inr (csr_update (mip_update (\<lambda>old. masked (hideleg (csr p) AND MIP_VSSIP) old (push_bit 1 v))) p)
     else if which = CSR_VSATP then Inr (call_mmu Flush_tlb (csr_update (vsatp_update (\<lambda>_. vsatp_value v p)) p))
     else if which = CSR_TSELECT then Inr (if v < of_nat num_triggers then csr_update (tselect_update (\<lambda>_. v)) p else p)
     else if which = CSR_TDATA1 then Inr (write_tdata1 v p)
     else if which = CSR_TDATA2 then Inr (write_tdata2 v p)
     else if which = CSR_DCSR then Inr (write_dcsr v p)
     else if which = CSR_DPC then Inr (csr_update (dpc_update (\<lambda>_. v AND NOT 1)) p)
     else if which = CSR_DSCRATCH0 then Inr (csr_update (dscratch0_update (\<lambda>_. v)) p)
     else if which = CSR_DSCRATCH1 then Inr (csr_update (dscratch1_update (\<lambda>_. v)) p)
     else if which = CSR_VSTART then Inr (csr_update (VU_update (\<lambda>u. u\<lparr>vstart := v AND (vlen u - 1)\<rparr>)) (dirty_vs_state (cur_xlen p) p))
     else if which = CSR_VXSAT then Inr (csr_update (VU_update (\<lambda>u. u\<lparr>vxsat := v AND 1\<rparr>)) (dirty_vs_state (cur_xlen p) p))
     else if which = CSR_VXRM then Inr (csr_update (VU_update (\<lambda>u. u\<lparr>vxrm := v AND 3\<rparr>)) (dirty_vs_state (cur_xlen p) p))
     else Inr p)"

definition set_csr :: "nat \<Rightarrow> u64 \<Rightarrow> hart \<Rightarrow> trap + hart" where
  "set_csr which v p =
     (let v = zext_xlen (cur_xlen p) v
      in if CSR_PMPADDR0 \<le> which \<and> which < CSR_PMPADDR0 + max_pmp then Inr (set_pmpaddr (which - CSR_PMPADDR0) v p)
         else if CSR_PMPCFG0 \<le> which \<and> which < CSR_PMPCFG0 + max_pmp div 4 then Inr (set_pmpcfg (which - CSR_PMPCFG0) v p)
         else set_csr_switch which v p)"

section \<open>Reading\<close>

definition require_vector_vs :: "u64 \<Rightarrow> hart \<Rightarrow> trap + 'a \<Rightarrow> trap + 'a" where
  "require_vector_vs insn p = require (mstatus p AND MSTATUS_VS \<noteq> 0) insn"

text \<open>The counters a less privileged mode may read, and a counter only the hypervisor hides.\<close>

definition ctr_en :: "hart \<Rightarrow> u32" where
  "ctr_en p =
     (let en = - 1;
          en = (if prv p < PRV_M then en AND mcounteren (csr p) else en);
          en = (if virt p then en AND hcounteren (csr p) else en)
      in if prv p < PRV_S then en AND scounteren (csr p) else en)"

definition ctr_ok :: "nat \<Rightarrow> hart \<Rightarrow> bool" where
  "ctr_ok which p = (drop_bit (which mod 32) (ctr_en p) AND 1 \<noteq> 0)"

definition ctr_virtual :: "nat \<Rightarrow> hart \<Rightarrow> bool" where
  "ctr_virtual which p =
     (virt p \<and> drop_bit (which mod 32) (mcounteren (csr p)) AND 1 \<noteq> 0
      \<and> \<not> drop_bit (which mod 32) (hcounteren (csr p)) AND 1 \<noteq> 0)"

definition read_pmpaddr :: "nat \<Rightarrow> hart \<Rightarrow> u64" where
  "read_pmpaddr i p =
     (if PMP_NAPOT \<le> pmpcfg (csr p) ! i AND PMP_A
      then pmpaddr (csr p) ! i OR drop_bit 1 (NOT (pmp_tor_mask p))
      else pmpaddr (csr p) ! i AND pmp_tor_mask p)"

definition read_pmpcfg :: "nat \<Rightarrow> hart \<Rightarrow> u64" where
  "read_pmpcfg n p =
     (let i0 = n * 4
      in fold (\<lambda>i res. res OR push_bit (8 * (i - i0)) (ucast (pmpcfg (csr p) ! i)))
           [i0..<min (i0 + cur_xlen p div 8) max_pmp] 0)"

definition read_sstatus :: "hart \<Rightarrow> u64" where
  "read_sstatus p =
     (let mk = MSTATUS_SIE OR MSTATUS_SPIE OR MSTATUS_SPP OR MSTATUS_FS
               OR (if supports_extension ext_V p then MSTATUS_VS else 0)
               OR MSTATUS_XS OR MSTATUS_SUM OR MSTATUS_MXR OR MSTATUS_UXL;
          s = mstatus p AND mk
      in if s AND MSTATUS_FS = MSTATUS_FS \<or> s AND MSTATUS_XS = MSTATUS_XS
         then s OR (if cur_xlen p = 32 then MSTATUS32_SD else MSTATUS64_SD) else s)"

definition cause_value :: "u64 \<Rightarrow> hart \<Rightarrow> u64" where
  "cause_value c p =
     (if cur_xlen p < max_xlen (cfg p)
      then c OR push_bit (cur_xlen p - 1) (drop_bit (max_xlen (cfg p) - 1) c) else c)"

definition read_tdata1 :: "hart \<Rightarrow> u64" where
  "read_tdata1 p =
     (if tselect (csr p) < of_nat num_triggers
      then let mc = mcontrol (csr p) ! unat (tselect (csr p));
               v = set_field 0 (MCONTROL_TYPE (cur_xlen p)) (ucast (mc_type mc));
               v = set_field v (MCONTROL_DMODE (cur_xlen p)) (of_bool (mc_dmode mc));
               v = set_field v (MCONTROL_MASKMAX (cur_xlen p)) (ucast (mc_maskmax mc));
               v = set_field v MCONTROL_SELECT (of_bool (mc_select mc));
               v = set_field v MCONTROL_TIMING (of_bool (mc_timing mc));
               v = set_field v MCONTROL_ACTION (mc_action mc);
               v = set_field v MCONTROL_CHAIN (of_bool (mc_chain mc));
               v = set_field v MCONTROL_MATCH (mc_match mc);
               v = set_field v MCONTROL_M (of_bool (mc_m mc));
               v = set_field v MCONTROL_H (of_bool (mc_h mc));
               v = set_field v MCONTROL_S (of_bool (mc_s mc));
               v = set_field v MCONTROL_U (of_bool (mc_u mc));
               v = set_field v MCONTROL_EXECUTE (of_bool (mc_execute mc));
               v = set_field v MCONTROL_STORE (of_bool (mc_store mc))
           in set_field v MCONTROL_LOAD (of_bool (mc_load mc))
      else 0)"

text \<open>\<open>dcsr\<close> is put together in a \<open>uint32_t\<close>.\<close>

definition set_field32 :: "u32 \<Rightarrow> u32 \<Rightarrow> u32 \<Rightarrow> u32" where
  "set_field32 r mk v = (r AND NOT mk) OR ((v * (mk AND NOT (push_bit 1 mk))) AND mk)"

definition read_dcsr :: "hart \<Rightarrow> u64" where
  "read_dcsr p =
     (let d = dcsr (csr p);
          v = set_field32 0 DCSR_XDEBUGVER 1;
          v = set_field32 v 0x8000 (of_bool (dcsr_ebreakm d));
          v = set_field32 v 0x4000 (of_bool (dcsr_ebreakh d));
          v = set_field32 v 0x2000 (of_bool (dcsr_ebreaks d));
          v = set_field32 v 0x1000 (of_bool (dcsr_ebreaku d));
          v = set_field32 v 0x400 0;
          v = set_field32 v 0x200 0;
          v = set_field32 v 0x1C0 (ucast (dcsr_cause d));
          v = set_field32 v 0x4 (of_bool (dcsr_step d))
      in ucast (set_field32 v 0x3 (ucast (dcsr_prv d))))"

definition get_csr_switch :: "nat \<Rightarrow> u64 \<Rightarrow> hart \<Rightarrow> trap + u64" where
  "get_csr_switch which insn p =
    (if which = CSR_FFLAGS then require_fp insn p (if supports_extension ext_F p then Inr (ucast (fflags p)) else Inl (Trap_illegal_instruction (insn_bits insn)))
     else if which = CSR_FRM then require_fp insn p (if supports_extension ext_F p then Inr (ucast (frm p)) else Inl (Trap_illegal_instruction (insn_bits insn)))
     else if which = CSR_FCSR then require_fp insn p (if supports_extension ext_F p then Inr (ucast (fflags p OR push_bit 5 (frm p))) else Inl (Trap_illegal_instruction (insn_bits insn)))
     else if which = CSR_VCSR then require_vector_vs insn p (if supports_extension ext_V p then Inr (vxsat (VU (csr p)) OR push_bit 1 (vxrm (VU (csr p)))) else Inl (Trap_illegal_instruction (insn_bits insn)))
     else if which = CSR_INSTRET \<or> which = CSR_CYCLE then (if ctr_ok which p then Inr (minstret (csr p)) else if ctr_virtual which p then Inl (Trap_virtual_instruction (insn_bits insn)) else Inl (Trap_illegal_instruction (insn_bits insn)))
     else if which = CSR_MINSTRET \<or> which = CSR_MCYCLE then Inr (minstret (csr p))
     else if which = CSR_INSTRETH \<or> which = CSR_CYCLEH then (if ctr_ok which p \<and> cur_xlen p = 32 then Inr (drop_bit 32 (minstret (csr p))) else if ctr_virtual which p then Inl (Trap_virtual_instruction (insn_bits insn)) else Inl (Trap_illegal_instruction (insn_bits insn)))
     else if which = CSR_MINSTRETH \<or> which = CSR_MCYCLEH then (if cur_xlen p = 32 then Inr (drop_bit 32 (minstret (csr p))) else Inl (Trap_illegal_instruction (insn_bits insn)))
     else if which = CSR_SCOUNTEREN then Inr (ucast (scounteren (csr p)))
     else if which = CSR_MCOUNTEREN then (if supports_extension ext_U p then Inr (ucast (mcounteren (csr p))) else Inl (Trap_illegal_instruction (insn_bits insn)))
     else if which = CSR_MCOUNTINHIBIT then Inr 0
     else if which = CSR_SSTATUS then Inr (read_sstatus p)
     else if which = CSR_SIP then Inr (if virt p then drop_bit 1 (mip (csr p) AND hideleg (csr p) AND MIP_VS_MASK) else mip (csr p) AND mideleg (csr p) AND NOT MIP_HS_MASK)
     else if which = CSR_SIE then Inr (if virt p then drop_bit 1 (mie (csr p) AND hideleg (csr p) AND MIP_VS_MASK) else mie (csr p) AND mideleg (csr p) AND NOT MIP_HS_MASK)
     else if which = CSR_SEPC then Inr (if virt p then vsepc (csr p) AND pc_alignment_mask p else sepc (csr p) AND pc_alignment_mask p)
     else if which = CSR_STVAL then Inr (if virt p then vstval (csr p) else stval (csr p))
     else if which = CSR_STVEC then Inr (if virt p then vstvec (csr p) else stvec (csr p))
     else if which = CSR_SCAUSE then Inr (if virt p then cause_value (vscause (csr p)) p else cause_value (scause (csr p)) p)
     else if which = CSR_SATP then (if get_field (mstatus p) MSTATUS_TVM \<noteq> 0 \<and> \<not> PRV_M \<le> prv p then Inl (Trap_illegal_instruction (insn_bits insn))
        else if virt p then (if get_field (hstatus (csr p)) HSTATUS_VTVM \<noteq> 0 then Inl (Trap_virtual_instruction (insn_bits insn)) else Inr (vsatp (csr p)))
        else Inr (satp (csr p)))
     else if which = CSR_SSCRATCH then Inr (if virt p then vsscratch (csr p) else sscratch (csr p))
     else if which = CSR_MSTATUS then Inr (mstatus p)
     else if which = CSR_MIP then Inr (mip (csr p))
     else if which = CSR_MIE then Inr (mie (csr p))
     else if which = CSR_MEPC then Inr (mepc (csr p) AND pc_alignment_mask p)
     else if which = CSR_MSCRATCH then Inr (mscratch (csr p))
     else if which = CSR_MCAUSE then Inr (mcause (csr p))
     else if which = CSR_MTVAL then Inr (mtval (csr p))
     else if which = CSR_MTVAL2 then (if supports_extension ext_H p then Inr (mtval2 (csr p)) else Inl (Trap_illegal_instruction (insn_bits insn)))
     else if which = CSR_MTINST then (if supports_extension ext_H p then Inr (mtinst (csr p)) else Inl (Trap_illegal_instruction (insn_bits insn)))
     else if which = CSR_MISA then Inr (misa p)
     else if which = CSR_MARCHID then Inr 5
     else if which = CSR_MIMPID then Inr 0
     else if which = CSR_MVENDORID then Inr 0
     else if which = CSR_MHARTID then Inr (ucast (hart_id (cfg p)))
     else if which = CSR_MTVEC then Inr (mtvec (csr p))
     else if which = CSR_MEDELEG then (if supports_extension ext_S p then Inr (medeleg (csr p)) else Inl (Trap_illegal_instruction (insn_bits insn)))
     else if which = CSR_MIDELEG then (if supports_extension ext_S p then Inr (mideleg (csr p)) else Inl (Trap_illegal_instruction (insn_bits insn)))
     else if which = CSR_HSTATUS then Inr (hstatus (csr p))
     else if which = CSR_HEDELEG then Inr (hedeleg (csr p))
     else if which = CSR_HIDELEG then Inr (hideleg (csr p))
     else if which = CSR_HIE then Inr (mie (csr p) AND MIP_HS_MASK)
     else if which = CSR_HCOUNTEREN then Inr (ucast (hcounteren (csr p)))
     else if which = CSR_HGEIE then Inr 0
     else if which = CSR_HTVAL then Inr (htval (csr p))
     else if which = CSR_HIP then Inr (mip (csr p) AND MIP_HS_MASK)
     else if which = CSR_HVIP then Inr (mip (csr p) AND MIP_VS_MASK)
     else if which = CSR_HTINST then Inr (htinst (csr p))
     else if which = CSR_HGATP then Inr (hgatp (csr p))
     else if which = CSR_HGEIP then Inr 0
     else if which = CSR_VSSTATUS then Inr (vsstatus (csr p) AND vsstatus_mask p)
     else if which = CSR_VSIE then Inr (drop_bit 1 (mie (csr p) AND hideleg (csr p) AND MIP_VS_MASK))
     else if which = CSR_VSTVEC then Inr (vstvec (csr p))
     else if which = CSR_VSSCRATCH then Inr (vsscratch (csr p))
     else if which = CSR_VSEPC then Inr (vsepc (csr p) AND pc_alignment_mask p)
     else if which = CSR_VSCAUSE then Inr (vscause (csr p))
     else if which = CSR_VSTVAL then Inr (vstval (csr p))
     else if which = CSR_VSIP then Inr (drop_bit 1 (mip (csr p) AND hideleg (csr p) AND MIP_VS_MASK))
     else if which = CSR_VSATP then Inr (vsatp (csr p))
     else if which = CSR_TSELECT then Inr (tselect (csr p))
     else if which = CSR_TDATA1 then Inr (read_tdata1 p)
     else if which = CSR_TDATA2 then Inr (if tselect (csr p) < of_nat num_triggers then tdata2 (csr p) ! unat (tselect (csr p)) else 0)
     else if which = CSR_TDATA3 then Inr 0
     else if which = CSR_DCSR then (if debug_mode (csr p) then Inr (read_dcsr p) else Inl (Trap_illegal_instruction (insn_bits insn)))
     else if which = CSR_DPC then (if debug_mode (csr p) then Inr (dpc (csr p) AND pc_alignment_mask p) else Inl (Trap_illegal_instruction (insn_bits insn)))
     else if which = CSR_DSCRATCH0 then (if debug_mode (csr p) then Inr (dscratch0 (csr p)) else Inl (Trap_illegal_instruction (insn_bits insn)))
     else if which = CSR_DSCRATCH1 then (if debug_mode (csr p) then Inr (dscratch1 (csr p)) else Inl (Trap_illegal_instruction (insn_bits insn)))
     else if which = CSR_VSTART then require_vector_vs insn p (if supports_extension ext_V p then Inr (vstart (VU (csr p))) else Inl (Trap_illegal_instruction (insn_bits insn)))
     else if which = CSR_VXSAT then require_vector_vs insn p (if supports_extension ext_V p then Inr (vxsat (VU (csr p))) else Inl (Trap_illegal_instruction (insn_bits insn)))
     else if which = CSR_VXRM then require_vector_vs insn p (if supports_extension ext_V p then Inr (vxrm (VU (csr p))) else Inl (Trap_illegal_instruction (insn_bits insn)))
     else if which = CSR_VL then require_vector_vs insn p (if supports_extension ext_V p then Inr (vl (VU (csr p))) else Inl (Trap_illegal_instruction (insn_bits insn)))
     else if which = CSR_VTYPE then require_vector_vs insn p (if supports_extension ext_V p then Inr (vtype (VU (csr p))) else Inl (Trap_illegal_instruction (insn_bits insn)))
     else if which = CSR_VLENB then require_vector_vs insn p (if supports_extension ext_V p then Inr (vlenb (VU (csr p))) else Inl (Trap_illegal_instruction (insn_bits insn)))
     else Inl (Trap_illegal_instruction (insn_bits insn)))"

definition get_csr :: "nat \<Rightarrow> u64 \<Rightarrow> hart \<Rightarrow> trap + u64" where
  "get_csr which insn p =
     (if ctr_ok which p \<and> CSR_HPMCOUNTER3 \<le> which \<and> which \<le> CSR_HPMCOUNTER31 then Inr 0
      else if ctr_ok which p \<and> cur_xlen p = 32 \<and> CSR_HPMCOUNTER3H \<le> which \<and> which \<le> CSR_HPMCOUNTER31H then Inr 0
      else if CSR_MHPMCOUNTER3 \<le> which \<and> which \<le> CSR_MHPMCOUNTER31 then Inr 0
      else if cur_xlen p = 32 \<and> CSR_MHPMCOUNTER3H \<le> which \<and> which \<le> CSR_MHPMCOUNTER31H then Inr 0
      else if CSR_MHPMEVENT3 \<le> which \<and> which \<le> CSR_MHPMEVENT31 then Inr 0
      else if CSR_PMPADDR0 \<le> which \<and> which < CSR_PMPADDR0 + max_pmp
      then (if n_pmp (cfg p) = 0 then Inl (Trap_illegal_instruction (insn_bits insn)) else Inr (read_pmpaddr (which - CSR_PMPADDR0) p))
      else if CSR_PMPCFG0 \<le> which \<and> which < CSR_PMPCFG0 + max_pmp div 4
      then require (which AND (cur_xlen p div 32 - 1) = 0) insn (Inr (read_pmpcfg (which - CSR_PMPCFG0) p))
      else get_csr_switch which insn p)"

section \<open>Reset\<close>

definition mcontrol_reset :: mcontrol_t where
  "mcontrol_reset =
     \<lparr>mc_type = 2, mc_dmode = False, mc_maskmax = 0, mc_select = False, mc_timing = False, mc_action = 0,
      mc_chain = False, mc_match = 0, mc_m = False, mc_h = False, mc_s = False, mc_u = False,
      mc_execute = False, mc_store = False, mc_load = False\<rparr>"

definition csrs_reset :: "vector_csrs \<Rightarrow> csrs" where
  "csrs_reset vu =
     \<lparr>pc_reg = 0x10000, mepc = 0, mtval = 0, mscratch = 0, mtvec = 0, mcause = 0, minstret = 0, mie = 0,
      mip = 0, medeleg = 0, mideleg = 0, mcounteren = 0, scounteren = 0, sepc = 0, stval = 0,
      sscratch = 0, stvec = 0, satp = 0, scause = 0, mtval2 = 0, mtinst = 0, hstatus = 0, hideleg = 0,
      hedeleg = 0, hcounteren = 0, htval = 0, htinst = 0, hgatp = 0, vsstatus = 0, vstvec = 0,
      vsscratch = 0, vsepc = 0, vscause = 0, vstval = 0, vsatp = 0, dpc = 0, dscratch0 = 0, dscratch1 = 0,
      dcsr = \<lparr>dcsr_prv = 0, dcsr_step = False, dcsr_ebreakm = False, dcsr_ebreakh = False,
        dcsr_ebreaks = False, dcsr_ebreaku = False, dcsr_halt = False, dcsr_cause = 0\<rparr>,
      tselect = 0, mcontrol = replicate num_triggers mcontrol_reset, tdata2 = replicate num_triggers 0,
      debug_mode = False, pmpcfg = replicate max_pmp 0, pmpaddr = replicate max_pmp 0,
      serialized = False, step_state = STEP_NONE, VU = vu\<rparr>"

definition state_reset :: "u64 \<Rightarrow> hart \<Rightarrow> hart" where
  "state_reset isa p =
     p\<lparr>XPR := replicate 32 0, FPR := replicate 32 \<lparr>fv0 = 0, fv1 = 0\<rparr>, prv := PRV_M, virt := False,
       misa := isa, mstatus := 0, fflags := 0, frm := 0, csr := csrs_reset (VU (csr p))\<rparr>"

text \<open>\<open>vectorUnit_t::reset\<close> as far as the addressable registers go: the type becomes illegal.\<close>

definition vector_reset :: "hart \<Rightarrow> hart" where
  "vector_reset p =
     csr_update (VU_update (\<lambda>u. u\<lparr>vtype := push_bit (cur_xlen p - 1) (- 1), vl := 0, vstart := 0\<rparr>)) p"

text \<open>\<open>processor_t::reset\<close>, without the custom extension and the simulator it calls last.\<close>

definition processor_reset :: "bool \<Rightarrow> hart \<Rightarrow> trap + hart" where
  "processor_reset halt_on_reset p =
     (let p = state_reset (max_isa (cfg p)) p;
          p = csr_update (mideleg_update (\<lambda>_. if supports_extension ext_H p then MIDELEG_FORCED_MASK else 0)) p;
          p = csr_update (dcsr_update (\<lambda>d. d\<lparr>dcsr_halt := halt_on_reset\<rparr>)) p
      in and_then (set_csr CSR_MSTATUS (mstatus p) p) (\<lambda>p.
         let p = vector_reset p
         in if n_pmp (cfg p) = 0 then Inr p
            else and_then (set_csr CSR_PMPADDR0 (- 1) p) (\<lambda>p.
                 set_csr CSR_PMPCFG0 (ucast (PMP_R OR PMP_W OR PMP_X OR PMP_NAPOT)) p)))"

section \<open>What a write leaves alone\<close>

text \<open>The part of the hart no CSR write changes; the registers of the program and the mode are in it.\<close>

definition same_frame :: "hart \<Rightarrow> hart \<Rightarrow> bool" where
  "same_frame p q =
     (XPR q = XPR p \<and> FPR q = FPR p \<and> softfloat q = softfloat p \<and> prv q = prv p \<and> virt q = virt p
      \<and> cfg q = cfg p \<and> extension_table q = extension_table p \<and> pc_reg (csr q) = pc_reg (csr p)
      \<and> debug_mode (csr q) = debug_mode (csr p) \<and> serialized (csr q) = serialized (csr p)
      \<and> step_state (csr q) = step_state (csr p))"

lemma same_frame_refl [simp]: "same_frame p p"
  by (simp add: same_frame_def)

lemma same_frame_trans: "same_frame p q \<Longrightarrow> same_frame q r \<Longrightarrow> same_frame p r"
  by (simp add: same_frame_def)

lemma same_frame_fold: "(\<And>x p. same_frame p (f x p)) \<Longrightarrow> same_frame p (fold f xs p)"
  by (induction xs arbitrary: p) (auto intro: same_frame_trans)

lemma same_frame_call [simp]: "same_frame p (call_mmu c q) = same_frame p q"
  by (simp add: same_frame_def)

lemma same_frame_set_pmpaddr [simp]: "same_frame p (set_pmpaddr i v p)"
  by (simp add: set_pmpaddr_def same_frame_def)

lemma same_frame_set_pmpcfg [simp]: "same_frame p (set_pmpcfg n v p)"
proof -
  have "same_frame q (set_pmpcfg_entry v i0 i q)" for i0 i q by (simp add: set_pmpcfg_entry_def same_frame_def)
  then show ?thesis unfolding set_pmpcfg_def Let_def by (simp add: same_frame_fold)
qed

lemma same_frame_parts [simp]:
  "same_frame p (write_mstatus v p)" "same_frame p (write_misa v p)" "same_frame p (write_tdata1 v p)"
  "same_frame p (write_tdata2 v p)" "same_frame p (write_dcsr v p)"
  by (simp_all add: same_frame_def write_mstatus_def write_misa_def write_tdata1_def write_tdata2_def write_dcsr_def Let_def)

lemma same_frame_updates [simp]:
  "same_frame p (dirty_fp_state n p)" "same_frame p (dirty_vs_state n p)"
  "same_frame p (q\<lparr>fflags := x\<rparr>) = same_frame p q" "same_frame p (q\<lparr>frm := y\<rparr>) = same_frame p q"
  by (simp_all add: same_frame_def dirty_fp_state_def dirty_vs_state_def)

lemma same_frame_csr_update:
  "(pc_reg (f (csr p)), debug_mode (f (csr p)), serialized (f (csr p)), step_state (f (csr p))) =
   (pc_reg (csr p), debug_mode (csr p), serialized (csr p), step_state (csr p)) \<Longrightarrow> same_frame p (csr_update f p)"
  by (simp add: same_frame_def)

lemma same_frame_vu: "same_frame p q \<Longrightarrow> same_frame p (csr_update (VU_update f) q)"
  by (simp add: same_frame_def)

lemma set_csr_switch_frame: "returns (same_frame p) (set_csr_switch which v p)"
  unfolding set_csr_switch_def
  by (intro returns_if; simp add: same_frame_csr_update same_frame_vu)

lemma set_csr_frame: "returns (same_frame p) (set_csr which v p)"
  unfolding set_csr_def Let_def by (intro returns_if set_csr_switch_frame; simp)

lemma processor_reset_returns:
  "\<exists>q. processor_reset h p = Inr q \<and> XPR q = replicate 32 0 \<and> FPR q = replicate 32 \<lparr>fv0 = 0, fv1 = 0\<rparr>
     \<and> softfloat q = softfloat p \<and> prv q = PRV_M \<and> \<not> virt q \<and> cfg q = cfg p
     \<and> extension_table q = extension_table p \<and> pc_reg (csr q) = 0x10000 \<and> \<not> debug_mode (csr q)"
proof -
  let ?s = "\<lambda>q. XPR q = replicate 32 0 \<and> FPR q = replicate 32 \<lparr>fv0 = 0, fv1 = 0\<rparr>
     \<and> softfloat q = softfloat p \<and> prv q = PRV_M \<and> \<not> virt q \<and> cfg q = cfg p
     \<and> extension_table q = extension_table p \<and> pc_reg (csr q) = 0x10000 \<and> \<not> debug_mode (csr q)"
  have *: "?s q \<Longrightarrow> same_frame q r \<Longrightarrow> ?s r" for q r by (simp add: same_frame_def)
  have s: "set_csr c v q = Inr r \<Longrightarrow> ?s q \<Longrightarrow> ?s r" for c v q r
    using set_csr_frame [of q c v] * [of q r] by simp
  have e: "\<exists>q. set_csr c v q' = Inr q" if "c = 0x300 \<or> c = 0x3B0 \<or> c = 0x3A0" for c v q'
    using that by (auto simp: set_csr_def set_csr_switch_def)
  define q0 where "q0 = csr_update (dcsr_update (\<lambda>d. d\<lparr>dcsr_halt := h\<rparr>)) (csr_update (mideleg_update (\<lambda>_.
    if supports_extension ext_H (state_reset (max_isa (cfg p)) p) then MIDELEG_FORCED_MASK else 0)) (state_reset (max_isa (cfg p)) p))"
  have q0: "?s q0" by (simp add: q0_def state_reset_def csrs_reset_def)
  obtain q1 where q1: "set_csr 0x300 (mstatus q0) q0 = Inr q1" using e by blast
  then have "?s q1" using s q0 by blast
  then have v: "?s (vector_reset q1)" by (simp add: vector_reset_def)
  obtain q2 where q2: "set_csr 0x3B0 (- 1) (vector_reset q1) = Inr q2" using e by blast
  obtain q3 where q3: "set_csr 0x3A0 (ucast (PMP_R OR PMP_W OR PMP_X OR PMP_NAPOT)) q2 = Inr q3" using e by blast
  have "processor_reset h p = Inr (if n_pmp (cfg (vector_reset q1)) = 0 then vector_reset q1 else q3)"
    unfolding processor_reset_def Let_def q0_def [symmetric] by (simp only: q1 q2 q3 and_then_simps split: if_split) simp
  then show ?thesis using v s [OF q2 v] s [OF q3 s [OF q2 v]] by (cases "n_pmp (cfg (vector_reset q1)) = 0") simp_all
qed

end
