(* ===== verification/RV_FP.thy ===== *)
theory RV_FP
  imports RV_Comp RV_CSR SF_AddSub SF_Mul SF_IntToFloat SF_Compare SF_Convert SF_FloatToInt
begin

text \<open>
  The floating-point instructions of \<open>riscv/insns\<close> on half, single and double precision that the
  modelled SoftFloat routines serve: addition, subtraction, multiplication, conversions, comparisons,
  minimum and maximum, classification, sign injection and moves. Each body is the file of its name.
  What they add to SoftFloat is the NaN boxing of operands and results, the choice of the rounding
  mode, and the accrual of the exception flags.
\<close>

section \<open>Bodies\<close>

text \<open>\<open>softfloat_roundingMode = RM\<close>.\<close>

definition set_rounding_mode :: "u64 \<Rightarrow> hart \<Rightarrow> (hart \<Rightarrow> trap + 'a) \<Rightarrow> trap + 'a" where
  "set_rounding_mode insn p k =
     RM insn p (\<lambda>rm. k (p\<lparr>softfloat := (softfloat p)\<lparr>softfloat_roundingMode := word_of_int rm\<rparr>\<rparr>))"

abbreviation (input) F16_SIGN :: float16_t where "F16_SIGN \<equiv> 0x8000"
abbreviation (input) F32_SIGN :: float32_t where "F32_SIGN \<equiv> 0x80000000"
abbreviation (input) F64_SIGN :: float64_t where "F64_SIGN \<equiv> 0x8000000000000000"

definition fsgnj16 :: "freg_t \<Rightarrow> freg_t \<Rightarrow> bool \<Rightarrow> bool \<Rightarrow> float16_t" where
  "fsgnj16 a b n x =
     (f16 a AND NOT F16_SIGN) OR (((if x then f16 a else if n then F16_SIGN else 0) XOR f16 b) AND F16_SIGN)"

definition fsgnj32 :: "freg_t \<Rightarrow> freg_t \<Rightarrow> bool \<Rightarrow> bool \<Rightarrow> float32_t" where
  "fsgnj32 a b n x =
     (f32 a AND NOT F32_SIGN) OR (((if x then f32 a else if n then F32_SIGN else 0) XOR f32 b) AND F32_SIGN)"

definition fsgnj64 :: "freg_t \<Rightarrow> freg_t \<Rightarrow> bool \<Rightarrow> bool \<Rightarrow> float64_t" where
  "fsgnj64 a b n x =
     (f64 a AND NOT F64_SIGN) OR (((if x then f64 a else if n then F64_SIGN else 0) XOR f64 b) AND F64_SIGN)"

definition rv_fadd_s :: insn_body where
  "rv_fadd_s xlen insn pc npc p =
     require_extension ext_F insn p
     (require_fp insn p
     (set_rounding_mode insn p (\<lambda>p.
     let (r, st) = f32_add (f32 (FRS1 insn p)) (f32 (FRS2 insn p)) (softfloat p);
          p = WRITE_FRD xlen insn (freg32 r) (p\<lparr>softfloat := st\<rparr>)
      in Inr (npc, set_fp_exceptions xlen p))))"

definition rv_fadd_d :: insn_body where
  "rv_fadd_d xlen insn pc npc p =
     require_extension ext_D insn p
     (require_fp insn p
     (set_rounding_mode insn p (\<lambda>p.
     let (r, st) = f64_add (f64 (FRS1 insn p)) (f64 (FRS2 insn p)) (softfloat p);
          p = WRITE_FRD xlen insn (freg64 r) (p\<lparr>softfloat := st\<rparr>)
      in Inr (npc, set_fp_exceptions xlen p))))"

definition rv_fsub_s :: insn_body where
  "rv_fsub_s xlen insn pc npc p =
     require_extension ext_F insn p
     (require_fp insn p
     (set_rounding_mode insn p (\<lambda>p.
     let (r, st) = f32_sub (f32 (FRS1 insn p)) (f32 (FRS2 insn p)) (softfloat p);
          p = WRITE_FRD xlen insn (freg32 r) (p\<lparr>softfloat := st\<rparr>)
      in Inr (npc, set_fp_exceptions xlen p))))"

definition rv_fsub_d :: insn_body where
  "rv_fsub_d xlen insn pc npc p =
     require_extension ext_D insn p
     (require_fp insn p
     (set_rounding_mode insn p (\<lambda>p.
     let (r, st) = f64_sub (f64 (FRS1 insn p)) (f64 (FRS2 insn p)) (softfloat p);
          p = WRITE_FRD xlen insn (freg64 r) (p\<lparr>softfloat := st\<rparr>)
      in Inr (npc, set_fp_exceptions xlen p))))"

definition rv_fmul_h :: insn_body where
  "rv_fmul_h xlen insn pc npc p =
     require_extension EXT_ZFH insn p
     (require_fp insn p
     (set_rounding_mode insn p (\<lambda>p.
     let (r, st) = f16_mul (f16 (FRS1 insn p)) (f16 (FRS2 insn p)) (softfloat p);
          p = WRITE_FRD xlen insn (freg16 r) (p\<lparr>softfloat := st\<rparr>)
      in Inr (npc, set_fp_exceptions xlen p))))"

definition rv_fmul_s :: insn_body where
  "rv_fmul_s xlen insn pc npc p =
     require_extension ext_F insn p
     (require_fp insn p
     (set_rounding_mode insn p (\<lambda>p.
     let (r, st) = f32_mul (f32 (FRS1 insn p)) (f32 (FRS2 insn p)) (softfloat p);
          p = WRITE_FRD xlen insn (freg32 r) (p\<lparr>softfloat := st\<rparr>)
      in Inr (npc, set_fp_exceptions xlen p))))"

definition rv_fmul_d :: insn_body where
  "rv_fmul_d xlen insn pc npc p =
     require_extension ext_D insn p
     (require_fp insn p
     (set_rounding_mode insn p (\<lambda>p.
     let (r, st) = f64_mul (f64 (FRS1 insn p)) (f64 (FRS2 insn p)) (softfloat p);
          p = WRITE_FRD xlen insn (freg64 r) (p\<lparr>softfloat := st\<rparr>)
      in Inr (npc, set_fp_exceptions xlen p))))"

definition rv_fcvt_d_h :: insn_body where
  "rv_fcvt_d_h xlen insn pc npc p =
     require_extension EXT_ZFH insn p
     (require_extension ext_D insn p
     (require_fp insn p
     (set_rounding_mode insn p (\<lambda>p.
     let (r, st) = f16_to_f64 (f16 (FRS1 insn p)) (softfloat p);
          p = WRITE_FRD xlen insn (freg64 r) (p\<lparr>softfloat := st\<rparr>)
      in Inr (npc, set_fp_exceptions xlen p)))))"

definition rv_fcvt_d_s :: insn_body where
  "rv_fcvt_d_s xlen insn pc npc p =
     require_extension ext_D insn p
     (require_fp insn p
     (set_rounding_mode insn p (\<lambda>p.
     let (r, st) = f32_to_f64 (f32 (FRS1 insn p)) (softfloat p);
          p = WRITE_FRD xlen insn (freg64 r) (p\<lparr>softfloat := st\<rparr>)
      in Inr (npc, set_fp_exceptions xlen p))))"

definition rv_fcvt_h_d :: insn_body where
  "rv_fcvt_h_d xlen insn pc npc p =
     require_extension EXT_ZFH insn p
     (require_extension ext_D insn p
     (require_fp insn p
     (set_rounding_mode insn p (\<lambda>p.
     let (r, st) = f64_to_f16 (f64 (FRS1 insn p)) (softfloat p);
          p = WRITE_FRD xlen insn (freg16 r) (p\<lparr>softfloat := st\<rparr>)
      in Inr (npc, set_fp_exceptions xlen p)))))"

definition rv_fcvt_h_s :: insn_body where
  "rv_fcvt_h_s xlen insn pc npc p =
     require_extension EXT_ZFH insn p
     (require_fp insn p
     (set_rounding_mode insn p (\<lambda>p.
     let (r, st) = f32_to_f16 (f32 (FRS1 insn p)) (softfloat p);
          p = WRITE_FRD xlen insn (freg16 r) (p\<lparr>softfloat := st\<rparr>)
      in Inr (npc, set_fp_exceptions xlen p))))"

definition rv_fcvt_s_d :: insn_body where
  "rv_fcvt_s_d xlen insn pc npc p =
     require_extension ext_D insn p
     (require_fp insn p
     (set_rounding_mode insn p (\<lambda>p.
     let (r, st) = f64_to_f32 (f64 (FRS1 insn p)) (softfloat p);
          p = WRITE_FRD xlen insn (freg32 r) (p\<lparr>softfloat := st\<rparr>)
      in Inr (npc, set_fp_exceptions xlen p))))"

definition rv_fcvt_s_h :: insn_body where
  "rv_fcvt_s_h xlen insn pc npc p =
     require_extension EXT_ZFH insn p
     (require_fp insn p
     (set_rounding_mode insn p (\<lambda>p.
     let (r, st) = f16_to_f32 (f16 (FRS1 insn p)) (softfloat p);
          p = WRITE_FRD xlen insn (freg32 r) (p\<lparr>softfloat := st\<rparr>)
      in Inr (npc, set_fp_exceptions xlen p))))"

definition rv_fcvt_h_w :: insn_body where
  "rv_fcvt_h_w xlen insn pc npc p =
     require_extension EXT_ZFH insn p
     (require_fp insn p
     (set_rounding_mode insn p (\<lambda>p.
     let (r, st) = i32_to_f16 (ucast (RS1 insn p) :: u32) (softfloat p);
          p = WRITE_FRD xlen insn (freg16 r) (p\<lparr>softfloat := st\<rparr>)
      in Inr (npc, set_fp_exceptions xlen p))))"

definition rv_fcvt_h_wu :: insn_body where
  "rv_fcvt_h_wu xlen insn pc npc p =
     require_extension EXT_ZFH insn p
     (require_fp insn p
     (set_rounding_mode insn p (\<lambda>p.
     let (r, st) = ui32_to_f16 (ucast (RS1 insn p) :: u32) (softfloat p);
          p = WRITE_FRD xlen insn (freg16 r) (p\<lparr>softfloat := st\<rparr>)
      in Inr (npc, set_fp_exceptions xlen p))))"

definition rv_fcvt_h_l :: insn_body where
  "rv_fcvt_h_l xlen insn pc npc p =
     require_extension EXT_ZFH insn p
     (require_rv64 xlen insn
     (require_fp insn p
     (set_rounding_mode insn p (\<lambda>p.
     let (r, st) = i64_to_f16 (RS1 insn p) (softfloat p);
          p = WRITE_FRD xlen insn (freg16 r) (p\<lparr>softfloat := st\<rparr>)
      in Inr (npc, set_fp_exceptions xlen p)))))"

definition rv_fcvt_h_lu :: insn_body where
  "rv_fcvt_h_lu xlen insn pc npc p =
     require_extension EXT_ZFH insn p
     (require_rv64 xlen insn
     (require_fp insn p
     (set_rounding_mode insn p (\<lambda>p.
     let (r, st) = ui64_to_f16 (RS1 insn p) (softfloat p);
          p = WRITE_FRD xlen insn (freg16 r) (p\<lparr>softfloat := st\<rparr>)
      in Inr (npc, set_fp_exceptions xlen p)))))"

definition rv_fcvt_s_w :: insn_body where
  "rv_fcvt_s_w xlen insn pc npc p =
     require_extension ext_F insn p
     (require_fp insn p
     (set_rounding_mode insn p (\<lambda>p.
     let (r, st) = i32_to_f32 (ucast (RS1 insn p) :: u32) (softfloat p);
          p = WRITE_FRD xlen insn (freg32 r) (p\<lparr>softfloat := st\<rparr>)
      in Inr (npc, set_fp_exceptions xlen p))))"

definition rv_fcvt_s_wu :: insn_body where
  "rv_fcvt_s_wu xlen insn pc npc p =
     require_extension ext_F insn p
     (require_fp insn p
     (set_rounding_mode insn p (\<lambda>p.
     let (r, st) = ui32_to_f32 (ucast (RS1 insn p) :: u32) (softfloat p);
          p = WRITE_FRD xlen insn (freg32 r) (p\<lparr>softfloat := st\<rparr>)
      in Inr (npc, set_fp_exceptions xlen p))))"

definition rv_fcvt_s_l :: insn_body where
  "rv_fcvt_s_l xlen insn pc npc p =
     require_extension ext_F insn p
     (require_rv64 xlen insn
     (require_fp insn p
     (set_rounding_mode insn p (\<lambda>p.
     let (r, st) = i64_to_f32 (RS1 insn p) (softfloat p);
          p = WRITE_FRD xlen insn (freg32 r) (p\<lparr>softfloat := st\<rparr>)
      in Inr (npc, set_fp_exceptions xlen p)))))"

definition rv_fcvt_s_lu :: insn_body where
  "rv_fcvt_s_lu xlen insn pc npc p =
     require_extension ext_F insn p
     (require_rv64 xlen insn
     (require_fp insn p
     (set_rounding_mode insn p (\<lambda>p.
     let (r, st) = ui64_to_f32 (RS1 insn p) (softfloat p);
          p = WRITE_FRD xlen insn (freg32 r) (p\<lparr>softfloat := st\<rparr>)
      in Inr (npc, set_fp_exceptions xlen p)))))"

definition rv_fcvt_d_w :: insn_body where
  "rv_fcvt_d_w xlen insn pc npc p =
     require_extension ext_D insn p
     (require_fp insn p
     (set_rounding_mode insn p (\<lambda>p.
     let (r, st) = i32_to_f64 (ucast (RS1 insn p) :: u32) (softfloat p);
          p = WRITE_FRD xlen insn (freg64 r) (p\<lparr>softfloat := st\<rparr>)
      in Inr (npc, set_fp_exceptions xlen p))))"

definition rv_fcvt_d_wu :: insn_body where
  "rv_fcvt_d_wu xlen insn pc npc p =
     require_extension ext_D insn p
     (require_fp insn p
     (set_rounding_mode insn p (\<lambda>p.
     let (r, st) = ui32_to_f64 (ucast (RS1 insn p) :: u32) (softfloat p);
          p = WRITE_FRD xlen insn (freg64 r) (p\<lparr>softfloat := st\<rparr>)
      in Inr (npc, set_fp_exceptions xlen p))))"

definition rv_fcvt_d_l :: insn_body where
  "rv_fcvt_d_l xlen insn pc npc p =
     require_extension ext_D insn p
     (require_rv64 xlen insn
     (require_fp insn p
     (set_rounding_mode insn p (\<lambda>p.
     let (r, st) = i64_to_f64 (RS1 insn p) (softfloat p);
          p = WRITE_FRD xlen insn (freg64 r) (p\<lparr>softfloat := st\<rparr>)
      in Inr (npc, set_fp_exceptions xlen p)))))"

definition rv_fcvt_d_lu :: insn_body where
  "rv_fcvt_d_lu xlen insn pc npc p =
     require_extension ext_D insn p
     (require_rv64 xlen insn
     (require_fp insn p
     (set_rounding_mode insn p (\<lambda>p.
     let (r, st) = ui64_to_f64 (RS1 insn p) (softfloat p);
          p = WRITE_FRD xlen insn (freg64 r) (p\<lparr>softfloat := st\<rparr>)
      in Inr (npc, set_fp_exceptions xlen p)))))"

definition rv_fcvt_w_h :: insn_body where
  "rv_fcvt_w_h xlen insn pc npc p =
     require_extension EXT_ZFH insn p
     (require_fp insn p
     (set_rounding_mode insn p (\<lambda>p. RM insn p (\<lambda>rm.
     let (r, st) = f16_to_i32 (f16 (FRS1 insn p)) (word_of_int rm) True (softfloat p);
          p = WRITE_RD insn (sext32 (word_of_int r)) (p\<lparr>softfloat := st\<rparr>)
      in Inr (npc, set_fp_exceptions xlen p)))))"

definition rv_fcvt_wu_h :: insn_body where
  "rv_fcvt_wu_h xlen insn pc npc p =
     require_extension EXT_ZFH insn p
     (require_fp insn p
     (set_rounding_mode insn p (\<lambda>p. RM insn p (\<lambda>rm.
     let (r, st) = f16_to_ui32 (f16 (FRS1 insn p)) (word_of_int rm) True (softfloat p);
          p = WRITE_RD insn (sext32 r) (p\<lparr>softfloat := st\<rparr>)
      in Inr (npc, set_fp_exceptions xlen p)))))"

definition rv_fcvt_l_h :: insn_body where
  "rv_fcvt_l_h xlen insn pc npc p =
     require_extension EXT_ZFH insn p
     (require_rv64 xlen insn
     (require_fp insn p
     (set_rounding_mode insn p (\<lambda>p. RM insn p (\<lambda>rm.
     let (r, st) = f16_to_i64 (f16 (FRS1 insn p)) (word_of_int rm) True (softfloat p);
          p = WRITE_RD insn (word_of_int r) (p\<lparr>softfloat := st\<rparr>)
      in Inr (npc, set_fp_exceptions xlen p))))))"

definition rv_fcvt_lu_h :: insn_body where
  "rv_fcvt_lu_h xlen insn pc npc p =
     require_extension EXT_ZFH insn p
     (require_rv64 xlen insn
     (require_fp insn p
     (set_rounding_mode insn p (\<lambda>p. RM insn p (\<lambda>rm.
     let (r, st) = f16_to_ui64 (f16 (FRS1 insn p)) (word_of_int rm) True (softfloat p);
          p = WRITE_RD insn (r) (p\<lparr>softfloat := st\<rparr>)
      in Inr (npc, set_fp_exceptions xlen p))))))"

definition rv_fcvt_w_s :: insn_body where
  "rv_fcvt_w_s xlen insn pc npc p =
     require_extension ext_F insn p
     (require_fp insn p
     (set_rounding_mode insn p (\<lambda>p. RM insn p (\<lambda>rm.
     let (r, st) = f32_to_i32 (f32 (FRS1 insn p)) (word_of_int rm) True (softfloat p);
          p = WRITE_RD insn (sext32 (word_of_int r)) (p\<lparr>softfloat := st\<rparr>)
      in Inr (npc, set_fp_exceptions xlen p)))))"

definition rv_fcvt_wu_s :: insn_body where
  "rv_fcvt_wu_s xlen insn pc npc p =
     require_extension ext_F insn p
     (require_fp insn p
     (set_rounding_mode insn p (\<lambda>p. RM insn p (\<lambda>rm.
     let (r, st) = f32_to_ui32 (f32 (FRS1 insn p)) (word_of_int rm) True (softfloat p);
          p = WRITE_RD insn (sext32 r) (p\<lparr>softfloat := st\<rparr>)
      in Inr (npc, set_fp_exceptions xlen p)))))"

definition rv_fcvt_l_s :: insn_body where
  "rv_fcvt_l_s xlen insn pc npc p =
     require_extension ext_F insn p
     (require_rv64 xlen insn
     (require_fp insn p
     (set_rounding_mode insn p (\<lambda>p. RM insn p (\<lambda>rm.
     let (r, st) = f32_to_i64 (f32 (FRS1 insn p)) (word_of_int rm) True (softfloat p);
          p = WRITE_RD insn (word_of_int r) (p\<lparr>softfloat := st\<rparr>)
      in Inr (npc, set_fp_exceptions xlen p))))))"

definition rv_fcvt_lu_s :: insn_body where
  "rv_fcvt_lu_s xlen insn pc npc p =
     require_extension ext_F insn p
     (require_rv64 xlen insn
     (require_fp insn p
     (set_rounding_mode insn p (\<lambda>p. RM insn p (\<lambda>rm.
     let (r, st) = f32_to_ui64 (f32 (FRS1 insn p)) (word_of_int rm) True (softfloat p);
          p = WRITE_RD insn (r) (p\<lparr>softfloat := st\<rparr>)
      in Inr (npc, set_fp_exceptions xlen p))))))"

definition rv_fcvt_w_d :: insn_body where
  "rv_fcvt_w_d xlen insn pc npc p =
     require_extension ext_D insn p
     (require_fp insn p
     (set_rounding_mode insn p (\<lambda>p. RM insn p (\<lambda>rm.
     let (r, st) = f64_to_i32 (f64 (FRS1 insn p)) (word_of_int rm) True (softfloat p);
          p = WRITE_RD insn (sext32 (word_of_int r)) (p\<lparr>softfloat := st\<rparr>)
      in Inr (npc, set_fp_exceptions xlen p)))))"

definition rv_fcvt_wu_d :: insn_body where
  "rv_fcvt_wu_d xlen insn pc npc p =
     require_extension ext_D insn p
     (require_fp insn p
     (set_rounding_mode insn p (\<lambda>p. RM insn p (\<lambda>rm.
     let (r, st) = f64_to_ui32 (f64 (FRS1 insn p)) (word_of_int rm) True (softfloat p);
          p = WRITE_RD insn (sext32 r) (p\<lparr>softfloat := st\<rparr>)
      in Inr (npc, set_fp_exceptions xlen p)))))"

definition rv_fcvt_l_d :: insn_body where
  "rv_fcvt_l_d xlen insn pc npc p =
     require_extension ext_D insn p
     (require_rv64 xlen insn
     (require_fp insn p
     (set_rounding_mode insn p (\<lambda>p. RM insn p (\<lambda>rm.
     let (r, st) = f64_to_i64 (f64 (FRS1 insn p)) (word_of_int rm) True (softfloat p);
          p = WRITE_RD insn (word_of_int r) (p\<lparr>softfloat := st\<rparr>)
      in Inr (npc, set_fp_exceptions xlen p))))))"

definition rv_fcvt_lu_d :: insn_body where
  "rv_fcvt_lu_d xlen insn pc npc p =
     require_extension ext_D insn p
     (require_rv64 xlen insn
     (require_fp insn p
     (set_rounding_mode insn p (\<lambda>p. RM insn p (\<lambda>rm.
     let (r, st) = f64_to_ui64 (f64 (FRS1 insn p)) (word_of_int rm) True (softfloat p);
          p = WRITE_RD insn (r) (p\<lparr>softfloat := st\<rparr>)
      in Inr (npc, set_fp_exceptions xlen p))))))"

definition rv_feq_h :: insn_body where
  "rv_feq_h xlen insn pc npc p =
     require_extension EXT_ZFH insn p
     (require_fp insn p
     (let (r, st) = f16_eq (f16 (FRS1 insn p)) (f16 (FRS2 insn p)) (softfloat p);
          p = WRITE_RD insn (of_bool r) (p\<lparr>softfloat := st\<rparr>)
      in Inr (npc, set_fp_exceptions xlen p)))"

definition rv_feq_s :: insn_body where
  "rv_feq_s xlen insn pc npc p =
     require_extension ext_F insn p
     (require_fp insn p
     (let (r, st) = f32_eq (f32 (FRS1 insn p)) (f32 (FRS2 insn p)) (softfloat p);
          p = WRITE_RD insn (of_bool r) (p\<lparr>softfloat := st\<rparr>)
      in Inr (npc, set_fp_exceptions xlen p)))"

definition rv_feq_d :: insn_body where
  "rv_feq_d xlen insn pc npc p =
     require_extension ext_D insn p
     (require_fp insn p
     (let (r, st) = f64_eq (f64 (FRS1 insn p)) (f64 (FRS2 insn p)) (softfloat p);
          p = WRITE_RD insn (of_bool r) (p\<lparr>softfloat := st\<rparr>)
      in Inr (npc, set_fp_exceptions xlen p)))"

definition rv_flt_h :: insn_body where
  "rv_flt_h xlen insn pc npc p =
     require_extension EXT_ZFH insn p
     (require_fp insn p
     (let (r, st) = f16_lt (f16 (FRS1 insn p)) (f16 (FRS2 insn p)) (softfloat p);
          p = WRITE_RD insn (of_bool r) (p\<lparr>softfloat := st\<rparr>)
      in Inr (npc, set_fp_exceptions xlen p)))"

definition rv_flt_s :: insn_body where
  "rv_flt_s xlen insn pc npc p =
     require_extension ext_F insn p
     (require_fp insn p
     (let (r, st) = f32_lt (f32 (FRS1 insn p)) (f32 (FRS2 insn p)) (softfloat p);
          p = WRITE_RD insn (of_bool r) (p\<lparr>softfloat := st\<rparr>)
      in Inr (npc, set_fp_exceptions xlen p)))"

definition rv_flt_d :: insn_body where
  "rv_flt_d xlen insn pc npc p =
     require_extension ext_D insn p
     (require_fp insn p
     (let (r, st) = f64_lt (f64 (FRS1 insn p)) (f64 (FRS2 insn p)) (softfloat p);
          p = WRITE_RD insn (of_bool r) (p\<lparr>softfloat := st\<rparr>)
      in Inr (npc, set_fp_exceptions xlen p)))"

definition rv_fle_h :: insn_body where
  "rv_fle_h xlen insn pc npc p =
     require_extension EXT_ZFH insn p
     (require_fp insn p
     (let (r, st) = f16_le (f16 (FRS1 insn p)) (f16 (FRS2 insn p)) (softfloat p);
          p = WRITE_RD insn (of_bool r) (p\<lparr>softfloat := st\<rparr>)
      in Inr (npc, set_fp_exceptions xlen p)))"

definition rv_fle_s :: insn_body where
  "rv_fle_s xlen insn pc npc p =
     require_extension ext_F insn p
     (require_fp insn p
     (let (r, st) = f32_le (f32 (FRS1 insn p)) (f32 (FRS2 insn p)) (softfloat p);
          p = WRITE_RD insn (of_bool r) (p\<lparr>softfloat := st\<rparr>)
      in Inr (npc, set_fp_exceptions xlen p)))"

definition rv_fle_d :: insn_body where
  "rv_fle_d xlen insn pc npc p =
     require_extension ext_D insn p
     (require_fp insn p
     (let (r, st) = f64_le (f64 (FRS1 insn p)) (f64 (FRS2 insn p)) (softfloat p);
          p = WRITE_RD insn (of_bool r) (p\<lparr>softfloat := st\<rparr>)
      in Inr (npc, set_fp_exceptions xlen p)))"

definition rv_fclass_h :: insn_body where
  "rv_fclass_h xlen insn pc npc p =
     require_extension EXT_ZFH insn p
     (require_fp insn p
     (Inr (npc, WRITE_RD insn (f16_classify (f16 (FRS1 insn p))) p)))"

definition rv_fclass_s :: insn_body where
  "rv_fclass_s xlen insn pc npc p =
     require_extension ext_F insn p
     (require_fp insn p
     (Inr (npc, WRITE_RD insn (f32_classify (f32 (FRS1 insn p))) p)))"

definition rv_fclass_d :: insn_body where
  "rv_fclass_d xlen insn pc npc p =
     require_extension ext_D insn p
     (require_fp insn p
     (Inr (npc, WRITE_RD insn (f64_classify (f64 (FRS1 insn p))) p)))"

definition rv_fmin_h :: insn_body where
  "rv_fmin_h xlen insn pc npc p =
     require_extension EXT_ZFH insn p
     (require_fp insn p
     (let (r, st) = f16_min (f16 (FRS1 insn p)) (f16 (FRS2 insn p)) (softfloat p);
          p = WRITE_FRD xlen insn (freg16 r) (p\<lparr>softfloat := st\<rparr>)
      in Inr (npc, set_fp_exceptions xlen p)))"

definition rv_fmax_h :: insn_body where
  "rv_fmax_h xlen insn pc npc p =
     require_extension EXT_ZFH insn p
     (require_fp insn p
     (let (r, st) = f16_max (f16 (FRS1 insn p)) (f16 (FRS2 insn p)) (softfloat p);
          p = WRITE_FRD xlen insn (freg16 r) (p\<lparr>softfloat := st\<rparr>)
      in Inr (npc, set_fp_exceptions xlen p)))"

definition rv_fmin_s :: insn_body where
  "rv_fmin_s xlen insn pc npc p =
     require_extension ext_F insn p
     (require_fp insn p
     (let a = f32 (FRS1 insn p); b = f32 (FRS2 insn p);
          (l, st) = f32_lt_quiet a b (softfloat p);
          (less, st) = (if l then (True, st) else let (e, st) = f32_eq a b st in (e \<and> a AND F32_SIGN \<noteq> 0, st));
          q = p\<lparr>softfloat := st\<rparr>;
          q = (if isNaNF32UI (ucast a) \<and> isNaNF32UI (ucast b) then WRITE_FRD xlen insn (freg32 (ucast defaultNaNF32UI)) q
               else WRITE_FRD xlen insn (if less \<or> isNaNF32UI (ucast b) then FRS1 insn p else FRS2 insn p) q)
      in Inr (npc, set_fp_exceptions xlen q)))"

definition rv_fmax_s :: insn_body where
  "rv_fmax_s xlen insn pc npc p =
     require_extension ext_F insn p
     (require_fp insn p
     (let a = f32 (FRS1 insn p); b = f32 (FRS2 insn p);
          (l, st) = f32_lt_quiet b a (softfloat p);
          (greater, st) = (if l then (True, st) else let (e, st) = f32_eq b a st in (e \<and> b AND F32_SIGN \<noteq> 0, st));
          q = p\<lparr>softfloat := st\<rparr>;
          q = (if isNaNF32UI (ucast a) \<and> isNaNF32UI (ucast b) then WRITE_FRD xlen insn (freg32 (ucast defaultNaNF32UI)) q
               else WRITE_FRD xlen insn (if greater \<or> isNaNF32UI (ucast b) then FRS1 insn p else FRS2 insn p) q)
      in Inr (npc, set_fp_exceptions xlen q)))"

definition rv_fmin_d :: insn_body where
  "rv_fmin_d xlen insn pc npc p =
     require_extension ext_D insn p
     (require_fp insn p
     (let a = f64 (FRS1 insn p); b = f64 (FRS2 insn p);
          (l, st) = f64_lt_quiet a b (softfloat p);
          (less, st) = (if l then (True, st) else let (e, st) = f64_eq a b st in (e \<and> a AND F64_SIGN \<noteq> 0, st));
          q = p\<lparr>softfloat := st\<rparr>;
          q = (if isNaNF64UI (ucast a) \<and> isNaNF64UI (ucast b) then WRITE_FRD xlen insn (freg64 (ucast defaultNaNF64UI)) q
               else WRITE_FRD xlen insn (if less \<or> isNaNF64UI (ucast b) then FRS1 insn p else FRS2 insn p) q)
      in Inr (npc, set_fp_exceptions xlen q)))"

definition rv_fmax_d :: insn_body where
  "rv_fmax_d xlen insn pc npc p =
     require_extension ext_D insn p
     (require_fp insn p
     (let a = f64 (FRS1 insn p); b = f64 (FRS2 insn p);
          (l, st) = f64_lt_quiet b a (softfloat p);
          (greater, st) = (if l then (True, st) else let (e, st) = f64_eq b a st in (e \<and> b AND F64_SIGN \<noteq> 0, st));
          q = p\<lparr>softfloat := st\<rparr>;
          q = (if isNaNF64UI (ucast a) \<and> isNaNF64UI (ucast b) then WRITE_FRD xlen insn (freg64 (ucast defaultNaNF64UI)) q
               else WRITE_FRD xlen insn (if greater \<or> isNaNF64UI (ucast b) then FRS1 insn p else FRS2 insn p) q)
      in Inr (npc, set_fp_exceptions xlen q)))"

definition rv_fsgnj_h :: insn_body where
  "rv_fsgnj_h xlen insn pc npc p =
     require_extension EXT_ZFH insn p
     (require_fp insn p
     (Inr (npc, WRITE_FRD xlen insn (freg16 (fsgnj16 (FRS1 insn p) (FRS2 insn p) False False)) p)))"

definition rv_fsgnj_s :: insn_body where
  "rv_fsgnj_s xlen insn pc npc p =
     require_extension ext_F insn p
     (require_fp insn p
     (Inr (npc, WRITE_FRD xlen insn (freg32 (fsgnj32 (FRS1 insn p) (FRS2 insn p) False False)) p)))"

definition rv_fsgnj_d :: insn_body where
  "rv_fsgnj_d xlen insn pc npc p =
     require_extension ext_D insn p
     (require_fp insn p
     (Inr (npc, WRITE_FRD xlen insn (freg64 (fsgnj64 (FRS1 insn p) (FRS2 insn p) False False)) p)))"

definition rv_fsgnjn_h :: insn_body where
  "rv_fsgnjn_h xlen insn pc npc p =
     require_extension EXT_ZFH insn p
     (require_fp insn p
     (Inr (npc, WRITE_FRD xlen insn (freg16 (fsgnj16 (FRS1 insn p) (FRS2 insn p) True False)) p)))"

definition rv_fsgnjn_s :: insn_body where
  "rv_fsgnjn_s xlen insn pc npc p =
     require_extension ext_F insn p
     (require_fp insn p
     (Inr (npc, WRITE_FRD xlen insn (freg32 (fsgnj32 (FRS1 insn p) (FRS2 insn p) True False)) p)))"

definition rv_fsgnjn_d :: insn_body where
  "rv_fsgnjn_d xlen insn pc npc p =
     require_extension ext_D insn p
     (require_fp insn p
     (Inr (npc, WRITE_FRD xlen insn (freg64 (fsgnj64 (FRS1 insn p) (FRS2 insn p) True False)) p)))"

definition rv_fsgnjx_h :: insn_body where
  "rv_fsgnjx_h xlen insn pc npc p =
     require_extension EXT_ZFH insn p
     (require_fp insn p
     (Inr (npc, WRITE_FRD xlen insn (freg16 (fsgnj16 (FRS1 insn p) (FRS2 insn p) False True)) p)))"

definition rv_fsgnjx_s :: insn_body where
  "rv_fsgnjx_s xlen insn pc npc p =
     require_extension ext_F insn p
     (require_fp insn p
     (Inr (npc, WRITE_FRD xlen insn (freg32 (fsgnj32 (FRS1 insn p) (FRS2 insn p) False True)) p)))"

definition rv_fsgnjx_d :: insn_body where
  "rv_fsgnjx_d xlen insn pc npc p =
     require_extension ext_D insn p
     (require_fp insn p
     (Inr (npc, WRITE_FRD xlen insn (freg64 (fsgnj64 (FRS1 insn p) (FRS2 insn p) False True)) p)))"

definition rv_fmv_h_x :: insn_body where
  "rv_fmv_h_x xlen insn pc npc p =
     require_extension EXT_ZFH insn p
     (require_fp insn p
     (Inr (npc, WRITE_FRD xlen insn (freg16 (ucast (RS1 insn p))) p)))"

definition rv_fmv_w_x :: insn_body where
  "rv_fmv_w_x xlen insn pc npc p =
     require_extension ext_F insn p
     (require_fp insn p
     (Inr (npc, WRITE_FRD xlen insn (freg32 (ucast (RS1 insn p))) p)))"

definition rv_fmv_d_x :: insn_body where
  "rv_fmv_d_x xlen insn pc npc p =
     require_extension ext_D insn p
     (require_rv64 xlen insn
     (require_fp insn p
     (Inr (npc, WRITE_FRD xlen insn (freg64 (RS1 insn p)) p))))"

definition rv_fmv_x_h :: insn_body where
  "rv_fmv_x_h xlen insn pc npc p =
     require_extension EXT_ZFH insn p
     (require_fp insn p
     (Inr (npc, WRITE_RD insn (sext32 (scast (ucast (fv0 (FRS1 insn p)) :: u16))) p)))"

definition rv_fmv_x_w :: insn_body where
  "rv_fmv_x_w xlen insn pc npc p =
     require_extension ext_F insn p
     (require_fp insn p
     (Inr (npc, WRITE_RD insn (sext32 (fv0 (FRS1 insn p))) p)))"

definition rv_fmv_x_d :: insn_body where
  "rv_fmv_x_d xlen insn pc npc p =
     require_extension ext_D insn p
     (require_rv64 xlen insn
     (require_fp insn p
     (Inr (npc, WRITE_RD insn (fv0 (FRS1 insn p)) p))))"

section \<open>The invariant\<close>

lemma hart_regs_softfloat [simp]: "hart_regs xlen (p\<lparr>softfloat := st\<rparr>) = hart_regs xlen p"
  by (simp add: hart_regs_def)

lemma hart_regs_dirty [simp]: "hart_regs xlen (dirty_fp_state xlen' p) = hart_regs xlen p"
  by (simp add: hart_regs_def dirty_fp_state_def)

lemma hart_regs_WRITE_FRD [simp]: "hart_regs xlen (WRITE_FRD xlen' insn v p) = hart_regs xlen p"
  by (simp add: WRITE_FRD_def WRITE_FREG_def regfile_write_def) (simp add: hart_regs_def)

lemma softfloat_dirty [simp]: "softfloat (dirty_fp_state xlen p) = softfloat p"
  by (simp add: dirty_fp_state_def)

lemma sys_state_dirty [simp]: "sys_state (dirty_fp_state xlen p) = sys_state p"
proof -
  have *: "(v OR d) AND c = v AND c" if "d AND c = 0" for v d c :: u64
    using that by (simp add: bit.conj_disj_distrib2)
  show ?thesis by (simp add: dirty_fp_state_def sys_state_def) (intro conjI impI; rule *; simp)
qed

lemma sys_state_softfloat [simp]: "sys_state (p\<lparr>softfloat := s\<rparr>) = sys_state p"
  by (simp add: sys_state_def)

lemma WRITE_FRD_keeps [simp]: "softfloat (WRITE_FRD xlen insn v p) = softfloat p" "sys_state (WRITE_FRD xlen insn v p) = sys_state p"
proof -
  show "softfloat (WRITE_FRD xlen insn v p) = softfloat p" by (simp add: WRITE_FRD_def WRITE_FREG_def)
  show "sys_state (WRITE_FRD xlen insn v p) = sys_state p"
    unfolding WRITE_FRD_def WRITE_FREG_def sys_state_dirty by (simp add: sys_state_def)
qed

lemma hart_ok_WRITE_FRD [simp]: "hart_ok xlen (WRITE_FRD xlen' insn v p) = hart_ok xlen p"
  by (simp add: hart_ok_def)

lemma hart_ok_set_fp_exceptions [simp]: "hart_ok xlen (set_fp_exceptions xlen' p) = hart_regs xlen p"
  by (simp add: hart_ok_def set_fp_exceptions_def Let_def) (simp add: hart_regs_def dirty_fp_state_def)

lemma sys_state_set_fp_exceptions [simp]: "sys_state (set_fp_exceptions xlen p) = sys_state p"
proof -
  have "sys_state (q\<lparr>fflags := x\<rparr>) = sys_state q" for q x by (simp add: sys_state_def)
  then show ?thesis by (simp add: set_fp_exceptions_def Let_def)
qed

lemma hart_regs_WRITE_RD: "hart_regs xlen p \<Longrightarrow> canonical xlen v \<Longrightarrow> hart_regs xlen (WRITE_RD insn v p)"
  by (simp add: WRITE_RD_def hart_regs_WRITE_REG)

lemma hart_regs_ok: "hart_ok xlen p \<Longrightarrow> hart_regs xlen p"
  by (simp add: hart_ok_def)

lemma fp_class_bound: "fp_class F x < 10"
  by (cases "(F, x)" rule: fp_class.cases) auto

lemma canonical_classify [canon]:
  assumes "xlen \<in> {32, 64}"
  shows "canonical xlen (f16_classify a)" "canonical xlen (f32_classify b)" "canonical xlen (f64_classify c)"
proof -
  have "canonical xlen (push_bit (fp_class F x) 1)" for F x
    using assms fp_class_bound [of F x] by (intro canonical_small) (auto intro!: bit_word_eqI simp: bit_simps)
  then show "canonical xlen (f16_classify a)" "canonical xlen (f32_classify b)" "canonical xlen (f64_classify c)"
    by (simp_all only: f16_classify_class f32_classify_class f64_classify_class)
qed

lemmas fp_step = require_defs set_rounding_mode_def RM_def Let_def hart_regs_WRITE_RD hart_regs_ok hart_ok_writes

lemma preserves_fadd_s: "preserves rv_fadd_s"
  by (rule preservesI) (auto simp: rv_fadd_s_def fp_step canon split: prod.split)

lemma preserves_fadd_d: "preserves rv_fadd_d"
  by (rule preservesI) (auto simp: rv_fadd_d_def fp_step canon split: prod.split)

lemma preserves_fsub_s: "preserves rv_fsub_s"
  by (rule preservesI) (auto simp: rv_fsub_s_def fp_step canon split: prod.split)

lemma preserves_fsub_d: "preserves rv_fsub_d"
  by (rule preservesI) (auto simp: rv_fsub_d_def fp_step canon split: prod.split)

lemma preserves_fmul_h: "preserves rv_fmul_h"
  by (rule preservesI) (auto simp: rv_fmul_h_def fp_step canon split: prod.split)

lemma preserves_fmul_s: "preserves rv_fmul_s"
  by (rule preservesI) (auto simp: rv_fmul_s_def fp_step canon split: prod.split)

lemma preserves_fmul_d: "preserves rv_fmul_d"
  by (rule preservesI) (auto simp: rv_fmul_d_def fp_step canon split: prod.split)

lemma preserves_fcvt_d_h: "preserves rv_fcvt_d_h"
  by (rule preservesI) (auto simp: rv_fcvt_d_h_def fp_step canon split: prod.split)

lemma preserves_fcvt_d_s: "preserves rv_fcvt_d_s"
  by (rule preservesI) (auto simp: rv_fcvt_d_s_def fp_step canon split: prod.split)

lemma preserves_fcvt_h_d: "preserves rv_fcvt_h_d"
  by (rule preservesI) (auto simp: rv_fcvt_h_d_def fp_step canon split: prod.split)

lemma preserves_fcvt_h_s: "preserves rv_fcvt_h_s"
  by (rule preservesI) (auto simp: rv_fcvt_h_s_def fp_step canon split: prod.split)

lemma preserves_fcvt_s_d: "preserves rv_fcvt_s_d"
  by (rule preservesI) (auto simp: rv_fcvt_s_d_def fp_step canon split: prod.split)

lemma preserves_fcvt_s_h: "preserves rv_fcvt_s_h"
  by (rule preservesI) (auto simp: rv_fcvt_s_h_def fp_step canon split: prod.split)

lemma preserves_fcvt_h_w: "preserves rv_fcvt_h_w"
  by (rule preservesI) (auto simp: rv_fcvt_h_w_def fp_step canon split: prod.split)

lemma preserves_fcvt_h_wu: "preserves rv_fcvt_h_wu"
  by (rule preservesI) (auto simp: rv_fcvt_h_wu_def fp_step canon split: prod.split)

lemma preserves_fcvt_h_l: "preserves rv_fcvt_h_l"
  by (rule preservesI) (auto simp: rv_fcvt_h_l_def fp_step canon split: prod.split)

lemma preserves_fcvt_h_lu: "preserves rv_fcvt_h_lu"
  by (rule preservesI) (auto simp: rv_fcvt_h_lu_def fp_step canon split: prod.split)

lemma preserves_fcvt_s_w: "preserves rv_fcvt_s_w"
  by (rule preservesI) (auto simp: rv_fcvt_s_w_def fp_step canon split: prod.split)

lemma preserves_fcvt_s_wu: "preserves rv_fcvt_s_wu"
  by (rule preservesI) (auto simp: rv_fcvt_s_wu_def fp_step canon split: prod.split)

lemma preserves_fcvt_s_l: "preserves rv_fcvt_s_l"
  by (rule preservesI) (auto simp: rv_fcvt_s_l_def fp_step canon split: prod.split)

lemma preserves_fcvt_s_lu: "preserves rv_fcvt_s_lu"
  by (rule preservesI) (auto simp: rv_fcvt_s_lu_def fp_step canon split: prod.split)

lemma preserves_fcvt_d_w: "preserves rv_fcvt_d_w"
  by (rule preservesI) (auto simp: rv_fcvt_d_w_def fp_step canon split: prod.split)

lemma preserves_fcvt_d_wu: "preserves rv_fcvt_d_wu"
  by (rule preservesI) (auto simp: rv_fcvt_d_wu_def fp_step canon split: prod.split)

lemma preserves_fcvt_d_l: "preserves rv_fcvt_d_l"
  by (rule preservesI) (auto simp: rv_fcvt_d_l_def fp_step canon split: prod.split)

lemma preserves_fcvt_d_lu: "preserves rv_fcvt_d_lu"
  by (rule preservesI) (auto simp: rv_fcvt_d_lu_def fp_step canon split: prod.split)

lemma preserves_fcvt_w_h: "preserves rv_fcvt_w_h"
  by (rule preservesI) (auto simp: rv_fcvt_w_h_def fp_step canon split: prod.split)

lemma preserves_fcvt_wu_h: "preserves rv_fcvt_wu_h"
  by (rule preservesI) (auto simp: rv_fcvt_wu_h_def fp_step canon split: prod.split)

lemma preserves_fcvt_l_h: "preserves rv_fcvt_l_h"
  by (rule preservesI) (auto simp: rv_fcvt_l_h_def fp_step canon split: prod.split)

lemma preserves_fcvt_lu_h: "preserves rv_fcvt_lu_h"
  by (rule preservesI) (auto simp: rv_fcvt_lu_h_def fp_step canon split: prod.split)

lemma preserves_fcvt_w_s: "preserves rv_fcvt_w_s"
  by (rule preservesI) (auto simp: rv_fcvt_w_s_def fp_step canon split: prod.split)

lemma preserves_fcvt_wu_s: "preserves rv_fcvt_wu_s"
  by (rule preservesI) (auto simp: rv_fcvt_wu_s_def fp_step canon split: prod.split)

lemma preserves_fcvt_l_s: "preserves rv_fcvt_l_s"
  by (rule preservesI) (auto simp: rv_fcvt_l_s_def fp_step canon split: prod.split)

lemma preserves_fcvt_lu_s: "preserves rv_fcvt_lu_s"
  by (rule preservesI) (auto simp: rv_fcvt_lu_s_def fp_step canon split: prod.split)

lemma preserves_fcvt_w_d: "preserves rv_fcvt_w_d"
  by (rule preservesI) (auto simp: rv_fcvt_w_d_def fp_step canon split: prod.split)

lemma preserves_fcvt_wu_d: "preserves rv_fcvt_wu_d"
  by (rule preservesI) (auto simp: rv_fcvt_wu_d_def fp_step canon split: prod.split)

lemma preserves_fcvt_l_d: "preserves rv_fcvt_l_d"
  by (rule preservesI) (auto simp: rv_fcvt_l_d_def fp_step canon split: prod.split)

lemma preserves_fcvt_lu_d: "preserves rv_fcvt_lu_d"
  by (rule preservesI) (auto simp: rv_fcvt_lu_d_def fp_step canon split: prod.split)

lemma preserves_feq_h: "preserves rv_feq_h"
  by (rule preservesI) (auto simp: rv_feq_h_def fp_step canon split: prod.split)

lemma preserves_feq_s: "preserves rv_feq_s"
  by (rule preservesI) (auto simp: rv_feq_s_def fp_step canon split: prod.split)

lemma preserves_feq_d: "preserves rv_feq_d"
  by (rule preservesI) (auto simp: rv_feq_d_def fp_step canon split: prod.split)

lemma preserves_flt_h: "preserves rv_flt_h"
  by (rule preservesI) (auto simp: rv_flt_h_def fp_step canon split: prod.split)

lemma preserves_flt_s: "preserves rv_flt_s"
  by (rule preservesI) (auto simp: rv_flt_s_def fp_step canon split: prod.split)

lemma preserves_flt_d: "preserves rv_flt_d"
  by (rule preservesI) (auto simp: rv_flt_d_def fp_step canon split: prod.split)

lemma preserves_fle_h: "preserves rv_fle_h"
  by (rule preservesI) (auto simp: rv_fle_h_def fp_step canon split: prod.split)

lemma preserves_fle_s: "preserves rv_fle_s"
  by (rule preservesI) (auto simp: rv_fle_s_def fp_step canon split: prod.split)

lemma preserves_fle_d: "preserves rv_fle_d"
  by (rule preservesI) (auto simp: rv_fle_d_def fp_step canon split: prod.split)

lemma preserves_fclass_h: "preserves rv_fclass_h"
  by (rule preservesI) (auto simp: rv_fclass_h_def fp_step canon split: prod.split)

lemma preserves_fclass_s: "preserves rv_fclass_s"
  by (rule preservesI) (auto simp: rv_fclass_s_def fp_step canon split: prod.split)

lemma preserves_fclass_d: "preserves rv_fclass_d"
  by (rule preservesI) (auto simp: rv_fclass_d_def fp_step canon split: prod.split)

lemma preserves_fmin_h: "preserves rv_fmin_h"
  by (rule preservesI) (auto simp: rv_fmin_h_def fp_step canon split: prod.split)

lemma preserves_fmax_h: "preserves rv_fmax_h"
  by (rule preservesI) (auto simp: rv_fmax_h_def fp_step canon split: prod.split)

lemma preserves_fmin_s: "preserves rv_fmin_s"
  by (rule preservesI) (auto simp: rv_fmin_s_def fp_step canon split: prod.split)

lemma preserves_fmax_s: "preserves rv_fmax_s"
  by (rule preservesI) (auto simp: rv_fmax_s_def fp_step canon split: prod.split)

lemma preserves_fmin_d: "preserves rv_fmin_d"
  by (rule preservesI) (auto simp: rv_fmin_d_def fp_step canon split: prod.split)

lemma preserves_fmax_d: "preserves rv_fmax_d"
  by (rule preservesI) (auto simp: rv_fmax_d_def fp_step canon split: prod.split)

lemma preserves_fsgnj_h: "preserves rv_fsgnj_h"
  by (rule preservesI) (auto simp: rv_fsgnj_h_def fp_step canon split: prod.split)

lemma preserves_fsgnj_s: "preserves rv_fsgnj_s"
  by (rule preservesI) (auto simp: rv_fsgnj_s_def fp_step canon split: prod.split)

lemma preserves_fsgnj_d: "preserves rv_fsgnj_d"
  by (rule preservesI) (auto simp: rv_fsgnj_d_def fp_step canon split: prod.split)

lemma preserves_fsgnjn_h: "preserves rv_fsgnjn_h"
  by (rule preservesI) (auto simp: rv_fsgnjn_h_def fp_step canon split: prod.split)

lemma preserves_fsgnjn_s: "preserves rv_fsgnjn_s"
  by (rule preservesI) (auto simp: rv_fsgnjn_s_def fp_step canon split: prod.split)

lemma preserves_fsgnjn_d: "preserves rv_fsgnjn_d"
  by (rule preservesI) (auto simp: rv_fsgnjn_d_def fp_step canon split: prod.split)

lemma preserves_fsgnjx_h: "preserves rv_fsgnjx_h"
  by (rule preservesI) (auto simp: rv_fsgnjx_h_def fp_step canon split: prod.split)

lemma preserves_fsgnjx_s: "preserves rv_fsgnjx_s"
  by (rule preservesI) (auto simp: rv_fsgnjx_s_def fp_step canon split: prod.split)

lemma preserves_fsgnjx_d: "preserves rv_fsgnjx_d"
  by (rule preservesI) (auto simp: rv_fsgnjx_d_def fp_step canon split: prod.split)

lemma preserves_fmv_h_x: "preserves rv_fmv_h_x"
  by (rule preservesI) (auto simp: rv_fmv_h_x_def fp_step canon split: prod.split)

lemma preserves_fmv_w_x: "preserves rv_fmv_w_x"
  by (rule preservesI) (auto simp: rv_fmv_w_x_def fp_step canon split: prod.split)

lemma preserves_fmv_d_x: "preserves rv_fmv_d_x"
  by (rule preservesI) (auto simp: rv_fmv_d_x_def fp_step canon split: prod.split)

lemma preserves_fmv_x_h: "preserves rv_fmv_x_h"
  by (rule preservesI) (auto simp: rv_fmv_x_h_def fp_step canon split: prod.split)

lemma preserves_fmv_x_w: "preserves rv_fmv_x_w"
  by (rule preservesI) (auto simp: rv_fmv_x_w_def fp_step canon split: prod.split)

lemma preserves_fmv_x_d: "preserves rv_fmv_x_d"
  by (rule preservesI) (auto simp: rv_fmv_x_d_def fp_step canon split: prod.split)

definition fp_instructions :: "insn_body list" where
  "fp_instructions = [
     rv_fadd_s, rv_fadd_d, rv_fsub_s, rv_fsub_d, rv_fmul_h, rv_fmul_s, rv_fmul_d,
     rv_fcvt_d_h, rv_fcvt_d_s, rv_fcvt_h_d, rv_fcvt_h_s, rv_fcvt_s_d, rv_fcvt_s_h, rv_fcvt_h_w,
     rv_fcvt_h_wu, rv_fcvt_h_l, rv_fcvt_h_lu, rv_fcvt_s_w, rv_fcvt_s_wu, rv_fcvt_s_l, rv_fcvt_s_lu,
     rv_fcvt_d_w, rv_fcvt_d_wu, rv_fcvt_d_l, rv_fcvt_d_lu, rv_fcvt_w_h, rv_fcvt_wu_h, rv_fcvt_l_h,
     rv_fcvt_lu_h, rv_fcvt_w_s, rv_fcvt_wu_s, rv_fcvt_l_s, rv_fcvt_lu_s, rv_fcvt_w_d, rv_fcvt_wu_d,
     rv_fcvt_l_d, rv_fcvt_lu_d, rv_feq_h, rv_feq_s, rv_feq_d, rv_flt_h, rv_flt_s,
     rv_flt_d, rv_fle_h, rv_fle_s, rv_fle_d, rv_fclass_h, rv_fclass_s, rv_fclass_d,
     rv_fmin_h, rv_fmax_h, rv_fmin_s, rv_fmax_s, rv_fmin_d, rv_fmax_d, rv_fsgnj_h,
     rv_fsgnj_s, rv_fsgnj_d, rv_fsgnjn_h, rv_fsgnjn_s, rv_fsgnjn_d, rv_fsgnjx_h, rv_fsgnjx_s,
     rv_fsgnjx_d, rv_fmv_h_x, rv_fmv_w_x, rv_fmv_d_x, rv_fmv_x_h, rv_fmv_x_w, rv_fmv_x_d]"

lemma fp_instructions_preserve: "list_all preserves fp_instructions"
  unfolding fp_instructions_def by (simp only: list.pred_inject simp_thms
    preserves_fadd_s preserves_fadd_d preserves_fsub_s preserves_fsub_d preserves_fmul_h
    preserves_fmul_s preserves_fmul_d preserves_fcvt_d_h preserves_fcvt_d_s preserves_fcvt_h_d
    preserves_fcvt_h_s preserves_fcvt_s_d preserves_fcvt_s_h preserves_fcvt_h_w preserves_fcvt_h_wu
    preserves_fcvt_h_l preserves_fcvt_h_lu preserves_fcvt_s_w preserves_fcvt_s_wu preserves_fcvt_s_l
    preserves_fcvt_s_lu preserves_fcvt_d_w preserves_fcvt_d_wu preserves_fcvt_d_l preserves_fcvt_d_lu
    preserves_fcvt_w_h preserves_fcvt_wu_h preserves_fcvt_l_h preserves_fcvt_lu_h preserves_fcvt_w_s
    preserves_fcvt_wu_s preserves_fcvt_l_s preserves_fcvt_lu_s preserves_fcvt_w_d preserves_fcvt_wu_d
    preserves_fcvt_l_d preserves_fcvt_lu_d preserves_feq_h preserves_feq_s preserves_feq_d
    preserves_flt_h preserves_flt_s preserves_flt_d preserves_fle_h preserves_fle_s
    preserves_fle_d preserves_fclass_h preserves_fclass_s preserves_fclass_d preserves_fmin_h
    preserves_fmax_h preserves_fmin_s preserves_fmax_s preserves_fmin_d preserves_fmax_d
    preserves_fsgnj_h preserves_fsgnj_s preserves_fsgnj_d preserves_fsgnjn_h preserves_fsgnjn_s
    preserves_fsgnjn_d preserves_fsgnjx_h preserves_fsgnjx_s preserves_fsgnjx_d preserves_fmv_h_x
    preserves_fmv_w_x preserves_fmv_d_x preserves_fmv_x_h preserves_fmv_x_w preserves_fmv_x_d)

end
