(* ===== verification/RV_FP_Correct.thy ===== *)
theory RV_FP_Correct
  imports RV_FP
begin

text \<open>
  What the floating-point instructions compute: every operand is unboxed, every result is the IEEE 754
  result of the operation in the rounding mode of the instruction, boxed, and the exception flags of
  the operation are accrued in \<open>fflags\<close>, with the floating-point state marked dirty.
\<close>

section \<open>NaN boxing\<close>

lemma isBoxedF64_ones: "isBoxedF64 r \<longleftrightarrow> fv1 r = - 1"
  by (simp add: isBoxedF64_def eq_neg_iff_add_eq_0)

lemma isBoxedF32_ones: "isBoxedF32 r \<longleftrightarrow> fv1 r = - 1 \<and> drop_bit 32 (fv0 r) = mask 32"
proof -
  let ?h = "ucast (drop_bit 32 (fv0 r)) :: u32"
  have "(ucast (drop_bit 32 (fv0 r) + 1) :: u32) = ?h + 1"
    using low_arith(1) [of "drop_bit 32 (fv0 r)" 1] by simp
  moreover have "?h + 1 = 0 \<longleftrightarrow> ?h = - 1" by (rule eq_neg_iff_add_eq_0 [symmetric])
  moreover have "?h = - 1 \<longleftrightarrow> drop_bit 32 (fv0 r) = mask 32"
  proof
    assume "?h = - 1"
    then have "bit ?h i" if "i < 32" for i using that by simp
    then show "drop_bit 32 (fv0 r) = mask 32"
      by (intro bit_word_eqI) (auto simp: bit_simps dest: bit_imp_le_length)
  next
    assume "drop_bit 32 (fv0 r) = mask 32"
    then show "?h = - 1" by (simp only:) (rule bit_word_eqI, simp add: bit_simps)
  qed
  ultimately show ?thesis by (simp add: isBoxedF32_def isBoxedF64_ones)
qed

lemma isBoxedF16_ones: "isBoxedF16 r \<longleftrightarrow> fv1 r = - 1 \<and> drop_bit 16 (fv0 r) = mask 48"
proof -
  have "drop_bit 16 (fv0 r) + 1 = push_bit 48 1 \<longleftrightarrow> drop_bit 16 (fv0 r) = mask 48"
    by (simp add: mask_eq_exp_minus_1 eq_diff_eq)
  moreover have "drop_bit 16 (fv0 r) = mask 48 \<Longrightarrow> drop_bit 32 (fv0 r) = mask 32"
  proof -
    assume "drop_bit 16 (fv0 r) = mask 48"
    then have "drop_bit 16 (drop_bit 16 (fv0 r)) = drop_bit 16 (mask 48)" by simp
    moreover have "drop_bit 16 (mask 48) = (mask 32 :: u64)" by (rule bit_word_eqI) (auto simp: bit_simps)
    ultimately show ?thesis by simp
  qed
  ultimately show ?thesis unfolding isBoxedF16_def isBoxedF32_ones by blast
qed

lemma high_field: "drop_bit n (NOT (mask n) OR ucast a :: u64) = mask (64 - n)" if "LENGTH('a) \<le> n" "n < 64" for a :: "'a::len word"
  by (rule bit_word_eqI) (use that in \<open>auto simp: bit_simps dest: bit_imp_le_length\<close>)

lemma low_field: "(ucast (NOT (mask n) OR ucast a :: u64) :: 'a word) = a" if "LENGTH('a) \<le> n" "LENGTH('a) \<le> 64" for a :: "'a::len word"
  by (rule bit_word_eqI) (use that in \<open>auto simp: bit_simps\<close>)

lemma unbox_box: "f16 (freg16 a) = a" "f32 (freg32 b) = b" "f64 (freg64 c) = c"
  using high_field [of 16 a] high_field [of 32 b] low_field [where n = 16 and a = a] low_field [where n = 32 and a = b]
  by (simp_all add: f16_def f32_def f64_def isBoxedF16_ones isBoxedF32_ones isBoxedF64_ones freg16_def freg32_def freg64_def)

lemma refield:
  fixes v :: u64
  assumes h: "drop_bit n v = mask (64 - n)" and l: "LENGTH('a::len) = n"
  shows "NOT (mask n) OR ucast (ucast v :: 'a word) = v"
proof (rule bit_word_eqI)
  fix i assume i: "i < LENGTH(64)"
  have "bit (drop_bit n v) (i - n) \<longleftrightarrow> i - n < 64 - n" using h i by (auto simp: bit_simps)
  then show "bit (NOT (mask n) OR ucast (ucast v :: 'a word) :: u64) i = bit v i"
    using i l by (auto simp: bit_simps)
qed

lemma boxed_box: "isBoxedF16 (freg16 a)" "isBoxedF32 (freg32 b)" "isBoxedF64 (freg64 c)"
  using high_field [of 16 a] high_field [of 32 b]
  by (simp_all add: isBoxedF16_ones isBoxedF32_ones isBoxedF64_ones freg16_def freg32_def freg64_def)

lemma box_unbox: "isBoxedF16 r \<Longrightarrow> freg16 (f16 r) = r" "isBoxedF32 r \<Longrightarrow> freg32 (f32 r) = r" "isBoxedF64 r \<Longrightarrow> freg64 (f64 r) = r"
  using refield [of 16 "fv0 r", where 'a = 16] refield [of 32 "fv0 r", where 'a = 32]
  by (simp_all add: f16_def f32_def f64_def freg16_def freg32_def freg64_def) (simp_all add: isBoxedF16_ones isBoxedF32_ones isBoxedF64_ones)

section \<open>Results\<close>

definition value16 :: "freg_t \<Rightarrow> fp" where "value16 r = decode f16_fmt (unat (f16 r))"
definition value32 :: "freg_t \<Rightarrow> fp" where "value32 r = decode f32_fmt (unat (f32 r))"
definition value64 :: "freg_t \<Rightarrow> fp" where "value64 r = decode f64_fmt (unat (f64 r))"

definition box16 :: "nat \<Rightarrow> freg_t" where "box16 n = freg16 (word_of_nat n)"
definition box32 :: "nat \<Rightarrow> freg_t" where "box32 n = freg32 (word_of_nat n)"
definition box64 :: "nat \<Rightarrow> freg_t" where "box64 n = freg64 (word_of_nat n)"

text \<open>The rounding mode an instruction selects, if it is not reserved, and the SoftFloat state it runs in.\<close>

definition selected_rm :: "u64 \<Rightarrow> hart \<Rightarrow> int option" where
  "selected_rm insn p =
     (let rm = (if insn_rm insn = 7 then uint (frm p) else uint (insn_rm insn)) in if rm \<le> 4 then Some rm else None)"

definition sf_in_mode :: "int \<Rightarrow> hart \<Rightarrow> sf_state" where
  "sf_in_mode rm p = (softfloat p)\<lparr>softfloat_roundingMode := word_of_int rm\<rparr>"

definition fp_enabled :: "nat list \<Rightarrow> bool \<Rightarrow> nat \<Rightarrow> hart \<Rightarrow> bool" where
  "fp_enabled exts rv64 xlen p =
     (list_all (\<lambda>e. supports_extension e p) exts \<and> (rv64 \<longrightarrow> xlen = 64) \<and> mstatus p AND MSTATUS_FS \<noteq> 0)"

text \<open>Flags are sticky, and any flag marks the floating-point state dirty.\<close>

definition accrue :: "nat \<Rightarrow> sf_state \<Rightarrow> hart \<Rightarrow> hart" where
  "accrue xlen st p =
     (if softfloat_exceptionFlags st \<noteq> 0
      then dirty_fp_state xlen (p\<lparr>fflags := fflags p OR ucast (softfloat_exceptionFlags st)\<rparr>) else p)
     \<lparr>softfloat := st\<lparr>softfloat_exceptionFlags := 0\<rparr>\<rparr>"

text \<open>
  The instructions that write a floating-point register, with a rounding mode and without, and those
  that write an integer register. An instruction that is not enabled, or whose mode is reserved, is
  illegal and changes nothing.
\<close>

definition illegal :: "u64 \<Rightarrow> trap + (u64 \<times> hart)" where
  "illegal insn = Inl (Trap_illegal_instruction (insn_bits insn))"

definition rounds_to :: "nat list \<Rightarrow> bool \<Rightarrow> (nat \<Rightarrow> freg_t) \<Rightarrow> (u64 \<Rightarrow> hart \<Rightarrow> sf_state \<Rightarrow> nat \<times> sf_state) \<Rightarrow> insn_body \<Rightarrow> bool" where
  "rounds_to exts rv64 box spec f =
     (\<forall>xlen insn pc npc p.
        f xlen insn pc npc p =
          (if fp_enabled exts rv64 xlen p
           then (case selected_rm insn p of None \<Rightarrow> illegal insn
                 | Some rm \<Rightarrow> (case spec insn p (sf_in_mode rm p) of (r, st) \<Rightarrow>
                     Inr (npc, accrue xlen st (WRITE_FRD xlen insn (box r) p))))
           else illegal insn))"

definition selects :: "nat list \<Rightarrow> (nat \<Rightarrow> freg_t) \<Rightarrow> (u64 \<Rightarrow> hart \<Rightarrow> sf_state \<Rightarrow> nat \<times> sf_state) \<Rightarrow> insn_body \<Rightarrow> bool" where
  "selects exts box spec f =
     (\<forall>xlen insn pc npc p.
        f xlen insn pc npc p =
          (if fp_enabled exts False xlen p
           then (case spec insn p (softfloat p) of (r, st) \<Rightarrow> Inr (npc, accrue xlen st (WRITE_FRD xlen insn (box r) p)))
           else illegal insn))"

definition rounds_to_int :: "nat list \<Rightarrow> bool \<Rightarrow> (int \<Rightarrow> u64) \<Rightarrow> (rmode \<Rightarrow> u64 \<Rightarrow> hart \<Rightarrow> sf_state \<Rightarrow> int \<times> sf_state) \<Rightarrow> insn_body \<Rightarrow> bool" where
  "rounds_to_int exts rv64 rep spec f =
     (\<forall>xlen insn pc npc p.
        f xlen insn pc npc p =
          (if fp_enabled exts rv64 xlen p
           then (case selected_rm insn p of None \<Rightarrow> illegal insn
                 | Some rm \<Rightarrow> (case spec (rmode_of (word_of_int rm)) insn p (sf_in_mode rm p) of (r, st) \<Rightarrow>
                     Inr (npc, accrue xlen st (WRITE_RD insn (rep r) p))))
           else illegal insn))"

definition decides :: "nat list \<Rightarrow> (u64 \<Rightarrow> hart \<Rightarrow> sf_state \<Rightarrow> bool \<times> sf_state) \<Rightarrow> insn_body \<Rightarrow> bool" where
  "decides exts spec f =
     (\<forall>xlen insn pc npc p.
        f xlen insn pc npc p =
          (if fp_enabled exts False xlen p
           then (case spec insn p (softfloat p) of (r, st) \<Rightarrow> Inr (npc, accrue xlen st (WRITE_RD insn (of_bool r) p)))
           else illegal insn))"

section \<open>Executing\<close>

lemma bits_eq: "bits x = y \<Longrightarrow> x = (word_of_nat (fst y), snd y)"
  by (auto simp: bits_def)

lemma uints_eq: "uints x = y \<Longrightarrow> x = (word_of_int (fst y), snd y)"
  by (auto simp: uints_def)

lemma selected_int_rmode:
  assumes "selected_rm insn p = Some rm"
  shows "int_rmode (word_of_int rm) = rmode_of (word_of_int rm)"
proof -
  have "0 \<le> rm" "rm \<le> 4" using assms by (auto simp: selected_rm_def Let_def split: if_splits)
  then have "rm = 0 \<or> rm = 1 \<or> rm = 2 \<or> rm = 3 \<or> rm = 4" by arith
  then show ?thesis by (auto simp: int_rmode_def rmode_of_def)
qed

lemma accrue_WRITE_FRD: "set_fp_exceptions xlen (WRITE_FRD xlen insn v (p\<lparr>softfloat := st\<rparr>)) = accrue xlen st (WRITE_FRD xlen insn v p)"
  by (simp add: set_fp_exceptions_def accrue_def Let_def WRITE_FRD_def WRITE_FREG_def dirty_fp_state_def)

lemma accrue_WRITE_RD: "set_fp_exceptions xlen (WRITE_RD insn v (p\<lparr>softfloat := st\<rparr>)) = accrue xlen st (WRITE_RD insn v p)"
  by (simp add: set_fp_exceptions_def accrue_def Let_def WRITE_RD_def WRITE_REG_def dirty_fp_state_def)

lemma accrue_softfloat [simp]:
  "accrue xlen st (WRITE_FRD xlen insn v (p\<lparr>softfloat := st'\<rparr>)) = accrue xlen st (WRITE_FRD xlen insn v p)"
  "accrue xlen st (WRITE_RD insn w (p\<lparr>softfloat := st'\<rparr>)) = accrue xlen st (WRITE_RD insn w p)"
  by (simp_all add: accrue_def WRITE_FRD_def WRITE_FREG_def WRITE_RD_def WRITE_REG_def dirty_fp_state_def)

lemma insn_rm_7: "uint (insn_rm insn) = 7 \<longleftrightarrow> insn_rm insn = 7"
  using word_uint_eq_iff [of "insn_rm insn" 7] by simp

lemma RM_selected: "RM insn p k = (case selected_rm insn p of None \<Rightarrow> Inl (Trap_illegal_instruction (insn_bits insn)) | Some rm \<Rightarrow> k rm)"
  by (simp add: RM_def selected_rm_def Let_def insn_rm_7)

lemma selected_rm_softfloat [simp]: "selected_rm insn (p\<lparr>softfloat := st\<rparr>) = selected_rm insn p"
  by (simp add: selected_rm_def)

lemma operands_softfloat [simp]: "FRS1 insn (p\<lparr>softfloat := st\<rparr>) = FRS1 insn p" "FRS2 insn (p\<lparr>softfloat := st\<rparr>) = FRS2 insn p"
  "RS1 insn (p\<lparr>softfloat := st\<rparr>) = RS1 insn p"
  by (simp_all add: FRS1_def FRS2_def READ_FREG_def RS1_def READ_REG_def)

lemmas execute = require_def require_defs set_rounding_mode_def RM_selected fp_enabled_def illegal_def Let_def sf_in_mode_def
  accrue_WRITE_FRD accrue_WRITE_RD value16_def value32_def value64_def box16_def box32_def box64_def

lemma fadd_s_correct: "rounds_to [ext_F] False box32 (\<lambda>insn p st. fp_add f32_fmt st (value32 (FRS1 insn p)) (value32 (FRS2 insn p))) rv_fadd_s"
  by (simp add: rounds_to_def rv_fadd_s_def f32_add_ieee [THEN bits_eq] execute split: option.split prod.split)

lemma fadd_d_correct: "rounds_to [ext_D] False box64 (\<lambda>insn p st. fp_add f64_fmt st (value64 (FRS1 insn p)) (value64 (FRS2 insn p))) rv_fadd_d"
  by (simp add: rounds_to_def rv_fadd_d_def f64_add_ieee [THEN bits_eq] execute split: option.split prod.split)

lemma fsub_s_correct: "rounds_to [ext_F] False box32 (\<lambda>insn p st. fp_sub f32_fmt st (value32 (FRS1 insn p)) (value32 (FRS2 insn p))) rv_fsub_s"
  by (simp add: rounds_to_def rv_fsub_s_def f32_sub_ieee [THEN bits_eq] execute split: option.split prod.split)

lemma fsub_d_correct: "rounds_to [ext_D] False box64 (\<lambda>insn p st. fp_sub f64_fmt st (value64 (FRS1 insn p)) (value64 (FRS2 insn p))) rv_fsub_d"
  by (simp add: rounds_to_def rv_fsub_d_def f64_sub_ieee [THEN bits_eq] execute split: option.split prod.split)

lemma fmul_h_correct: "rounds_to [EXT_ZFH] False box16 (\<lambda>insn p st. fp_mul f16_fmt st (value16 (FRS1 insn p)) (value16 (FRS2 insn p))) rv_fmul_h"
  by (simp add: rounds_to_def rv_fmul_h_def f16_mul_ieee [THEN bits_eq] execute split: option.split prod.split)

lemma fmul_s_correct: "rounds_to [ext_F] False box32 (\<lambda>insn p st. fp_mul f32_fmt st (value32 (FRS1 insn p)) (value32 (FRS2 insn p))) rv_fmul_s"
  by (simp add: rounds_to_def rv_fmul_s_def f32_mul_ieee [THEN bits_eq] execute split: option.split prod.split)

lemma fmul_d_correct: "rounds_to [ext_D] False box64 (\<lambda>insn p st. fp_mul f64_fmt st (value64 (FRS1 insn p)) (value64 (FRS2 insn p))) rv_fmul_d"
  by (simp add: rounds_to_def rv_fmul_d_def f64_mul_ieee [THEN bits_eq] execute split: option.split prod.split)

lemma fcvt_d_h_correct: "rounds_to [EXT_ZFH, ext_D] False box64 (\<lambda>insn p st. fp_convert f64_fmt st (value16 (FRS1 insn p))) rv_fcvt_d_h"
  by (simp add: rounds_to_def rv_fcvt_d_h_def f16_to_f64_ieee [THEN bits_eq] execute split: option.split prod.split)

lemma fcvt_d_s_correct: "rounds_to [ext_D] False box64 (\<lambda>insn p st. fp_convert f64_fmt st (value32 (FRS1 insn p))) rv_fcvt_d_s"
  by (simp add: rounds_to_def rv_fcvt_d_s_def f32_to_f64_ieee [THEN bits_eq] execute split: option.split prod.split)

lemma fcvt_h_d_correct: "rounds_to [EXT_ZFH, ext_D] False box16 (\<lambda>insn p st. fp_convert f16_fmt st (value64 (FRS1 insn p))) rv_fcvt_h_d"
  by (simp add: rounds_to_def rv_fcvt_h_d_def f64_to_f16_ieee [THEN bits_eq] execute split: option.split prod.split)

lemma fcvt_h_s_correct: "rounds_to [EXT_ZFH] False box16 (\<lambda>insn p st. fp_convert f16_fmt st (value32 (FRS1 insn p))) rv_fcvt_h_s"
  by (simp add: rounds_to_def rv_fcvt_h_s_def f32_to_f16_ieee [THEN bits_eq] execute split: option.split prod.split)

lemma fcvt_s_d_correct: "rounds_to [ext_D] False box32 (\<lambda>insn p st. fp_convert f32_fmt st (value64 (FRS1 insn p))) rv_fcvt_s_d"
  by (simp add: rounds_to_def rv_fcvt_s_d_def f64_to_f32_ieee [THEN bits_eq] execute split: option.split prod.split)

lemma fcvt_s_h_correct: "rounds_to [EXT_ZFH] False box32 (\<lambda>insn p st. fp_convert f32_fmt st (value16 (FRS1 insn p))) rv_fcvt_s_h"
  by (simp add: rounds_to_def rv_fcvt_s_h_def f16_to_f32_ieee [THEN bits_eq] execute split: option.split prod.split)

lemma fcvt_h_w_correct: "rounds_to [EXT_ZFH] False box16 (\<lambda>insn p st. int_result f16_fmt st (sint (ucast (RS1 insn p) :: u32))) rv_fcvt_h_w"
  by (simp add: rounds_to_def rv_fcvt_h_w_def i32_to_f16_ieee [THEN bits_eq] execute split: option.split prod.split)

lemma fcvt_h_wu_correct: "rounds_to [EXT_ZFH] False box16 (\<lambda>insn p st. int_result f16_fmt st (int (unat (ucast (RS1 insn p) :: u32)))) rv_fcvt_h_wu"
  by (simp add: rounds_to_def rv_fcvt_h_wu_def ui32_to_f16_ieee [THEN bits_eq] execute split: option.split prod.split)

lemma fcvt_h_l_correct: "rounds_to [EXT_ZFH] True box16 (\<lambda>insn p st. int_result f16_fmt st (sint (RS1 insn p))) rv_fcvt_h_l"
  by (simp add: rounds_to_def rv_fcvt_h_l_def i64_to_f16_ieee [THEN bits_eq] execute split: option.split prod.split)

lemma fcvt_h_lu_correct: "rounds_to [EXT_ZFH] True box16 (\<lambda>insn p st. int_result f16_fmt st (int (unat (RS1 insn p)))) rv_fcvt_h_lu"
  by (simp add: rounds_to_def rv_fcvt_h_lu_def ui64_to_f16_ieee [THEN bits_eq] execute split: option.split prod.split)

lemma fcvt_s_w_correct: "rounds_to [ext_F] False box32 (\<lambda>insn p st. int_result f32_fmt st (sint (ucast (RS1 insn p) :: u32))) rv_fcvt_s_w"
  by (simp add: rounds_to_def rv_fcvt_s_w_def i32_to_f32_ieee [THEN bits_eq] execute split: option.split prod.split)

lemma fcvt_s_wu_correct: "rounds_to [ext_F] False box32 (\<lambda>insn p st. int_result f32_fmt st (int (unat (ucast (RS1 insn p) :: u32)))) rv_fcvt_s_wu"
  by (simp add: rounds_to_def rv_fcvt_s_wu_def ui32_to_f32_ieee [THEN bits_eq] execute split: option.split prod.split)

lemma fcvt_s_l_correct: "rounds_to [ext_F] True box32 (\<lambda>insn p st. int_result f32_fmt st (sint (RS1 insn p))) rv_fcvt_s_l"
  by (simp add: rounds_to_def rv_fcvt_s_l_def i64_to_f32_ieee [THEN bits_eq] execute split: option.split prod.split)

lemma fcvt_s_lu_correct: "rounds_to [ext_F] True box32 (\<lambda>insn p st. int_result f32_fmt st (int (unat (RS1 insn p)))) rv_fcvt_s_lu"
  by (simp add: rounds_to_def rv_fcvt_s_lu_def ui64_to_f32_ieee [THEN bits_eq] execute split: option.split prod.split)

lemma fcvt_d_w_correct: "rounds_to [ext_D] False box64 (\<lambda>insn p st. int_result f64_fmt st (sint (ucast (RS1 insn p) :: u32))) rv_fcvt_d_w"
  by (simp add: rounds_to_def rv_fcvt_d_w_def i32_to_f64_ieee [THEN bits_eq] execute split: option.split prod.split)

lemma fcvt_d_wu_correct: "rounds_to [ext_D] False box64 (\<lambda>insn p st. int_result f64_fmt st (int (unat (ucast (RS1 insn p) :: u32)))) rv_fcvt_d_wu"
  by (simp add: rounds_to_def rv_fcvt_d_wu_def ui32_to_f64_ieee [THEN bits_eq] execute split: option.split prod.split)

lemma fcvt_d_l_correct: "rounds_to [ext_D] True box64 (\<lambda>insn p st. int_result f64_fmt st (sint (RS1 insn p))) rv_fcvt_d_l"
  by (simp add: rounds_to_def rv_fcvt_d_l_def i64_to_f64_ieee [THEN bits_eq] execute split: option.split prod.split)

lemma fcvt_d_lu_correct: "rounds_to [ext_D] True box64 (\<lambda>insn p st. int_result f64_fmt st (int (unat (RS1 insn p)))) rv_fcvt_d_lu"
  by (simp add: rounds_to_def rv_fcvt_d_lu_def ui64_to_f64_ieee [THEN bits_eq] execute split: option.split prod.split)

lemma fcvt_w_h_correct: "rounds_to_int [EXT_ZFH] False (\<lambda>r. scast (word_of_int r :: u32)) (\<lambda>m insn p st. fp_to_int (- (2 ^ 31)) (2 ^ 31 - 1) m True st (value16 (FRS1 insn p))) rv_fcvt_w_h"
  by (simp add: rounds_to_int_def rv_fcvt_w_h_def f16_to_i32_int sext32_def low_arith(4) split_beta selected_int_rmode execute split: option.split prod.split)

lemma fcvt_wu_h_correct: "rounds_to_int [EXT_ZFH] False (\<lambda>r. scast (word_of_int r :: u32)) (\<lambda>m insn p st. fp_to_int 0 (2 ^ 32 - 1) m True st (value16 (FRS1 insn p))) rv_fcvt_wu_h"
  by (simp add: rounds_to_int_def rv_fcvt_wu_h_def f16_to_ui32_int [THEN uints_eq] sext32_def low_arith(4) split_beta selected_int_rmode execute split: option.split prod.split)

lemma fcvt_l_h_correct: "rounds_to_int [EXT_ZFH] True word_of_int (\<lambda>m insn p st. fp_to_int (- (2 ^ 63)) (2 ^ 63 - 1) m True st (value16 (FRS1 insn p))) rv_fcvt_l_h"
  by (simp add: rounds_to_int_def rv_fcvt_l_h_def f16_to_i64_int sext32_def low_arith(4) split_beta selected_int_rmode execute split: option.split prod.split)

lemma fcvt_lu_h_correct: "rounds_to_int [EXT_ZFH] True word_of_int (\<lambda>m insn p st. fp_to_int 0 (2 ^ 64 - 1) m True st (value16 (FRS1 insn p))) rv_fcvt_lu_h"
  by (simp add: rounds_to_int_def rv_fcvt_lu_h_def f16_to_ui64_int [THEN uints_eq] sext32_def low_arith(4) split_beta selected_int_rmode execute split: option.split prod.split)

lemma fcvt_w_s_correct: "rounds_to_int [ext_F] False (\<lambda>r. scast (word_of_int r :: u32)) (\<lambda>m insn p st. fp_to_int (- (2 ^ 31)) (2 ^ 31 - 1) m True st (value32 (FRS1 insn p))) rv_fcvt_w_s"
  by (simp add: rounds_to_int_def rv_fcvt_w_s_def f32_to_i32_int sext32_def low_arith(4) split_beta selected_int_rmode execute split: option.split prod.split)

lemma fcvt_wu_s_correct: "rounds_to_int [ext_F] False (\<lambda>r. scast (word_of_int r :: u32)) (\<lambda>m insn p st. fp_to_int 0 (2 ^ 32 - 1) m True st (value32 (FRS1 insn p))) rv_fcvt_wu_s"
  by (simp add: rounds_to_int_def rv_fcvt_wu_s_def f32_to_ui32_int [THEN uints_eq] sext32_def low_arith(4) split_beta selected_int_rmode execute split: option.split prod.split)

lemma fcvt_l_s_correct: "rounds_to_int [ext_F] True word_of_int (\<lambda>m insn p st. fp_to_int (- (2 ^ 63)) (2 ^ 63 - 1) m True st (value32 (FRS1 insn p))) rv_fcvt_l_s"
  by (simp add: rounds_to_int_def rv_fcvt_l_s_def f32_to_i64_int sext32_def low_arith(4) split_beta selected_int_rmode execute split: option.split prod.split)

lemma fcvt_lu_s_correct: "rounds_to_int [ext_F] True word_of_int (\<lambda>m insn p st. fp_to_int 0 (2 ^ 64 - 1) m True st (value32 (FRS1 insn p))) rv_fcvt_lu_s"
  by (simp add: rounds_to_int_def rv_fcvt_lu_s_def f32_to_ui64_int [THEN uints_eq] sext32_def low_arith(4) split_beta selected_int_rmode execute split: option.split prod.split)

lemma fcvt_w_d_correct: "rounds_to_int [ext_D] False (\<lambda>r. scast (word_of_int r :: u32)) (\<lambda>m insn p st. fp_to_int (- (2 ^ 31)) (2 ^ 31 - 1) m True st (value64 (FRS1 insn p))) rv_fcvt_w_d"
  by (simp add: rounds_to_int_def rv_fcvt_w_d_def f64_to_i32_int sext32_def low_arith(4) split_beta selected_int_rmode execute split: option.split prod.split)

lemma fcvt_wu_d_correct: "rounds_to_int [ext_D] False (\<lambda>r. scast (word_of_int r :: u32)) (\<lambda>m insn p st. fp_to_int 0 (2 ^ 32 - 1) m True st (value64 (FRS1 insn p))) rv_fcvt_wu_d"
  by (simp add: rounds_to_int_def rv_fcvt_wu_d_def f64_to_ui32_int [THEN uints_eq] sext32_def low_arith(4) split_beta selected_int_rmode execute split: option.split prod.split)

lemma fcvt_l_d_correct: "rounds_to_int [ext_D] True word_of_int (\<lambda>m insn p st. fp_to_int (- (2 ^ 63)) (2 ^ 63 - 1) m True st (value64 (FRS1 insn p))) rv_fcvt_l_d"
  by (simp add: rounds_to_int_def rv_fcvt_l_d_def f64_to_i64_int sext32_def low_arith(4) split_beta selected_int_rmode execute split: option.split prod.split)

lemma fcvt_lu_d_correct: "rounds_to_int [ext_D] True word_of_int (\<lambda>m insn p st. fp_to_int 0 (2 ^ 64 - 1) m True st (value64 (FRS1 insn p))) rv_fcvt_lu_d"
  by (simp add: rounds_to_int_def rv_fcvt_lu_d_def f64_to_ui64_int [THEN uints_eq] sext32_def low_arith(4) split_beta selected_int_rmode execute split: option.split prod.split)

lemma feq_h_correct: "decides [EXT_ZFH] (\<lambda>insn p st. quiet_result st (value16 (FRS1 insn p)) (value16 (FRS2 insn p)) (fp_eq (value16 (FRS1 insn p)) (value16 (FRS2 insn p)))) rv_feq_h"
  by (simp add: decides_def rv_feq_h_def f16_eq_order execute split: option.split prod.split)

lemma feq_s_correct: "decides [ext_F] (\<lambda>insn p st. quiet_result st (value32 (FRS1 insn p)) (value32 (FRS2 insn p)) (fp_eq (value32 (FRS1 insn p)) (value32 (FRS2 insn p)))) rv_feq_s"
  by (simp add: decides_def rv_feq_s_def f32_eq_order execute split: option.split prod.split)

lemma feq_d_correct: "decides [ext_D] (\<lambda>insn p st. quiet_result st (value64 (FRS1 insn p)) (value64 (FRS2 insn p)) (fp_eq (value64 (FRS1 insn p)) (value64 (FRS2 insn p)))) rv_feq_d"
  by (simp add: decides_def rv_feq_d_def f64_eq_order execute split: option.split prod.split)

lemma flt_h_correct: "decides [EXT_ZFH] (\<lambda>insn p st. signaling_result st (value16 (FRS1 insn p)) (value16 (FRS2 insn p)) (fp_lt (value16 (FRS1 insn p)) (value16 (FRS2 insn p)))) rv_flt_h"
  by (simp add: decides_def rv_flt_h_def f16_lt_order execute split: option.split prod.split)

lemma flt_s_correct: "decides [ext_F] (\<lambda>insn p st. signaling_result st (value32 (FRS1 insn p)) (value32 (FRS2 insn p)) (fp_lt (value32 (FRS1 insn p)) (value32 (FRS2 insn p)))) rv_flt_s"
  by (simp add: decides_def rv_flt_s_def f32_lt_order execute split: option.split prod.split)

lemma flt_d_correct: "decides [ext_D] (\<lambda>insn p st. signaling_result st (value64 (FRS1 insn p)) (value64 (FRS2 insn p)) (fp_lt (value64 (FRS1 insn p)) (value64 (FRS2 insn p)))) rv_flt_d"
  by (simp add: decides_def rv_flt_d_def f64_lt_order execute split: option.split prod.split)

lemma fle_h_correct: "decides [EXT_ZFH] (\<lambda>insn p st. signaling_result st (value16 (FRS1 insn p)) (value16 (FRS2 insn p)) (fp_le (value16 (FRS1 insn p)) (value16 (FRS2 insn p)))) rv_fle_h"
  by (simp add: decides_def rv_fle_h_def f16_le_order execute split: option.split prod.split)

lemma fle_s_correct: "decides [ext_F] (\<lambda>insn p st. signaling_result st (value32 (FRS1 insn p)) (value32 (FRS2 insn p)) (fp_le (value32 (FRS1 insn p)) (value32 (FRS2 insn p)))) rv_fle_s"
  by (simp add: decides_def rv_fle_s_def f32_le_order execute split: option.split prod.split)

lemma fle_d_correct: "decides [ext_D] (\<lambda>insn p st. signaling_result st (value64 (FRS1 insn p)) (value64 (FRS2 insn p)) (fp_le (value64 (FRS1 insn p)) (value64 (FRS2 insn p)))) rv_fle_d"
  by (simp add: decides_def rv_fle_d_def f64_le_order execute split: option.split prod.split)

section \<open>Minimum and maximum\<close>

text \<open>
  The bodies of \<open>fmin\<close> and \<open>fmax\<close> copy the chosen register instead of boxing the chosen value. That
  is the same: a register that is not properly boxed reads as a NaN, and a NaN is not chosen.
\<close>

lemma sign_test_32: "a AND 0x80000000 \<noteq> 0 \<longleftrightarrow> signF32UI (ucast a)" for a :: float32_t
proof -
  have "a AND 2 ^ 31 \<noteq> 0 \<longleftrightarrow> bit a 31" by (simp only: and_exp_eq_0_iff_not_bit not_not)
  then have "a AND 0x80000000 \<noteq> 0 \<longleftrightarrow> bit a 31" by simp
  moreover have "drop_bit 31 a = of_bool (bit a 31)"
  proof (rule bit_word_eqI)
    fix i
    show "bit (drop_bit 31 a) i = bit (of_bool (bit a 31) :: u32) i"
      using bit_imp_le_length [of a "31 + i"] by (cases "i = 0") (auto simp: bit_simps)
  qed
  ultimately show ?thesis unfolding signF32UI_def by (simp add: low_casts)
qed

lemma sign_test_64: "a AND 0x8000000000000000 \<noteq> 0 \<longleftrightarrow> signF64UI (ucast a)" for a :: float64_t
proof -
  have "a AND 2 ^ 63 \<noteq> 0 \<longleftrightarrow> bit a 63" by (simp only: and_exp_eq_0_iff_not_bit not_not)
  then have "a AND 0x8000000000000000 \<noteq> 0 \<longleftrightarrow> bit a 63" by simp
  moreover have "drop_bit 63 a = of_bool (bit a 63)"
  proof (rule bit_word_eqI)
    fix i
    show "bit (drop_bit 63 a) i = bit (of_bool (bit a 63) :: u64) i"
      using bit_imp_le_length [of a "63 + i"] by (cases "i = 0") (auto simp: bit_simps)
  qed
  ultimately show ?thesis unfolding signF64UI_def by (simp add: low_casts)
qed

lemma number_boxed:
  "\<not> isNaNF32UI (ucast (f32 r)) \<Longrightarrow> freg32 (f32 r) = r" "\<not> isNaNF64UI (ucast (f64 r)) \<Longrightarrow> freg64 (f64 r) = r"
proof -
  have "isNaNF32UI (ucast (ucast defaultNaNF32UI :: u32))" "isNaNF64UI (ucast (defaultNaNF64UI :: u64))"
    by (simp_all add: isNaNF32UI_def isNaNF64UI_def defaultNaNF32UI_def defaultNaNF64UI_def)
  then show "\<not> isNaNF32UI (ucast (f32 r)) \<Longrightarrow> freg32 (f32 r) = r" "\<not> isNaNF64UI (ucast (f64 r)) \<Longrightarrow> freg64 (f64 r) = r"
    using box_unbox(2,3) [of r] by (auto simp: f32_def f64_def)
qed

lemma nan_compares_false:
  "isNaNF32UI (ucast a) \<or> isNaNF32UI (ucast b) \<Longrightarrow> \<not> fst (f32_lt_quiet a b st) \<and> \<not> fst (f32_eq a b st)"
  "isNaNF64UI (ucast c) \<or> isNaNF64UI (ucast d) \<Longrightarrow> \<not> fst (f64_lt_quiet c d st) \<and> \<not> fst (f64_eq c d st)"
  unfolding f32_lt_quiet_order f32_eq_order f64_lt_quiet_order f64_eq_order is_nanF32 is_nanF64
  by (simp_all add: quiet_result_def fp_order_nan)

lemma fmin_h_correct: "selects [EXT_ZFH] box16 (\<lambda>insn p st. min_result f16_fmt st (unat (f16 (FRS1 insn p))) (unat (f16 (FRS2 insn p)))) rv_fmin_h"
  by (simp add: selects_def rv_fmin_h_def f16_min_def cmp16.min_correct [THEN bits_eq] execute split_beta)

lemma fmax_h_correct: "selects [EXT_ZFH] box16 (\<lambda>insn p st. max_result f16_fmt st (unat (f16 (FRS1 insn p))) (unat (f16 (FRS2 insn p)))) rv_fmax_h"
  by (simp add: selects_def rv_fmax_h_def f16_max_def cmp16.max_correct [THEN bits_eq] execute split_beta)

lemma fmin_s_choice: "rv_fmin_s xlen insn pc npc p =
    (if fp_enabled [ext_F] False xlen p
     then (case f32_min (f32 (FRS1 insn p)) (f32 (FRS2 insn p)) (softfloat p) of (r, st) \<Rightarrow>
             Inr (npc, accrue xlen st (WRITE_FRD xlen insn (freg32 r) p)))
     else illegal insn)"
proof -
  define a b where "a = f32 (FRS1 insn p)" and "b = f32 (FRS2 insn p)"
  have boxed: "\<not> isNaNF32UI (ucast a) \<Longrightarrow> freg32 a = FRS1 insn p" "\<not> isNaNF32UI (ucast b) \<Longrightarrow> freg32 b = FRS2 insn p"
    unfolding a_def b_def by (erule number_boxed)+
  note false = nan_compares_false(1) [of a b]
  show ?thesis
    unfolding rv_fmin_s_def f32_min_def compare_min_def a_def [symmetric] b_def [symmetric] Let_def
    using boxed false
    by (cases "isNaNF32UI (ucast a)"; cases "isNaNF32UI (ucast b)")
       (auto simp: execute sign_test_32 split_beta)
qed

lemma fmin_s_correct: "selects [ext_F] box32 (\<lambda>insn p st. min_result f32_fmt st (unat (f32 (FRS1 insn p))) (unat (f32 (FRS2 insn p)))) rv_fmin_s"
  by (simp add: selects_def fmin_s_choice f32_min_def cmp32.min_correct [THEN bits_eq] box32_def split_beta)

lemma fmax_s_choice: "rv_fmax_s xlen insn pc npc p =
    (if fp_enabled [ext_F] False xlen p
     then (case f32_max (f32 (FRS1 insn p)) (f32 (FRS2 insn p)) (softfloat p) of (r, st) \<Rightarrow>
             Inr (npc, accrue xlen st (WRITE_FRD xlen insn (freg32 r) p)))
     else illegal insn)"
proof -
  define a b where "a = f32 (FRS1 insn p)" and "b = f32 (FRS2 insn p)"
  have boxed: "\<not> isNaNF32UI (ucast a) \<Longrightarrow> freg32 a = FRS1 insn p" "\<not> isNaNF32UI (ucast b) \<Longrightarrow> freg32 b = FRS2 insn p"
    unfolding a_def b_def by (erule number_boxed)+
  note false = nan_compares_false(1) [of b a]
  show ?thesis
    unfolding rv_fmax_s_def f32_max_def compare_max_def a_def [symmetric] b_def [symmetric] Let_def
    using boxed false
    by (cases "isNaNF32UI (ucast a)"; cases "isNaNF32UI (ucast b)")
       (auto simp: execute sign_test_32 split_beta)
qed

lemma fmax_s_correct: "selects [ext_F] box32 (\<lambda>insn p st. max_result f32_fmt st (unat (f32 (FRS1 insn p))) (unat (f32 (FRS2 insn p)))) rv_fmax_s"
  by (simp add: selects_def fmax_s_choice f32_max_def cmp32.max_correct [THEN bits_eq] box32_def split_beta)

lemma fmin_d_choice: "rv_fmin_d xlen insn pc npc p =
    (if fp_enabled [ext_D] False xlen p
     then (case f64_min (f64 (FRS1 insn p)) (f64 (FRS2 insn p)) (softfloat p) of (r, st) \<Rightarrow>
             Inr (npc, accrue xlen st (WRITE_FRD xlen insn (freg64 r) p)))
     else illegal insn)"
proof -
  define a b where "a = f64 (FRS1 insn p)" and "b = f64 (FRS2 insn p)"
  have boxed: "\<not> isNaNF64UI (ucast a) \<Longrightarrow> freg64 a = FRS1 insn p" "\<not> isNaNF64UI (ucast b) \<Longrightarrow> freg64 b = FRS2 insn p"
    unfolding a_def b_def by (erule number_boxed)+
  note false = nan_compares_false(2) [of a b]
  show ?thesis
    unfolding rv_fmin_d_def f64_min_def compare_min_def a_def [symmetric] b_def [symmetric] Let_def
    using boxed false
    by (cases "isNaNF64UI (ucast a)"; cases "isNaNF64UI (ucast b)")
       (auto simp: execute sign_test_64 split_beta)
qed

lemma fmin_d_correct: "selects [ext_D] box64 (\<lambda>insn p st. min_result f64_fmt st (unat (f64 (FRS1 insn p))) (unat (f64 (FRS2 insn p)))) rv_fmin_d"
  by (simp add: selects_def fmin_d_choice f64_min_def cmp64.min_correct [THEN bits_eq] box64_def split_beta)

lemma fmax_d_choice: "rv_fmax_d xlen insn pc npc p =
    (if fp_enabled [ext_D] False xlen p
     then (case f64_max (f64 (FRS1 insn p)) (f64 (FRS2 insn p)) (softfloat p) of (r, st) \<Rightarrow>
             Inr (npc, accrue xlen st (WRITE_FRD xlen insn (freg64 r) p)))
     else illegal insn)"
proof -
  define a b where "a = f64 (FRS1 insn p)" and "b = f64 (FRS2 insn p)"
  have boxed: "\<not> isNaNF64UI (ucast a) \<Longrightarrow> freg64 a = FRS1 insn p" "\<not> isNaNF64UI (ucast b) \<Longrightarrow> freg64 b = FRS2 insn p"
    unfolding a_def b_def by (erule number_boxed)+
  note false = nan_compares_false(2) [of b a]
  show ?thesis
    unfolding rv_fmax_d_def f64_max_def compare_max_def a_def [symmetric] b_def [symmetric] Let_def
    using boxed false
    by (cases "isNaNF64UI (ucast a)"; cases "isNaNF64UI (ucast b)")
       (auto simp: execute sign_test_64 split_beta)
qed

lemma fmax_d_correct: "selects [ext_D] box64 (\<lambda>insn p st. max_result f64_fmt st (unat (f64 (FRS1 insn p))) (unat (f64 (FRS2 insn p)))) rv_fmax_d"
  by (simp add: selects_def fmax_d_choice f64_max_def cmp64.max_correct [THEN bits_eq] box64_def split_beta)

section \<open>Properties\<close>

lemma exponent_masks: "(0x7F800000 :: u64) = push_bit 23 (mask 8)" "(0x007FFFFF :: u64) = mask 23"
    "(0x7FF0000000000000 :: u64) = push_bit 52 (mask 11)" "(0x000FFFFFFFFFFFFF :: u64) = mask 52"
  by (simp_all add: mask_eq_exp_minus_1)

lemma high_ones_nan:
  "(\<And>i. 22 \<le> i \<Longrightarrow> i < 32 \<Longrightarrow> bit w i) \<Longrightarrow> isNaNF32UI (w :: u64)"
  "(\<And>i. 51 \<le> i \<Longrightarrow> i < 64 \<Longrightarrow> bit v i) \<Longrightarrow> isNaNF64UI (v :: u64)"
proof -
  assume w: "\<And>i. 22 \<le> i \<Longrightarrow> i < 32 \<Longrightarrow> bit w i"
  have "NOT w AND push_bit 23 (mask 8) = 0" by (rule bit_word_eqI) (use w in \<open>auto simp: bit_simps\<close>)
  moreover have "bit (w AND mask 23) 22" using w [of 22] by (simp add: bit_simps)
  then have "w AND mask 23 \<noteq> 0" by force
  ultimately show "isNaNF32UI w" unfolding isNaNF32UI_def exponent_masks by blast
next
  assume v: "\<And>i. 51 \<le> i \<Longrightarrow> i < 64 \<Longrightarrow> bit v i"
  have "NOT v AND push_bit 52 (mask 11) = 0" by (rule bit_word_eqI) (use v in \<open>auto simp: bit_simps\<close>)
  moreover have "bit (v AND mask 52) 51" using v [of 51] by (simp add: bit_simps)
  then have "v AND mask 52 \<noteq> 0" by force
  ultimately show "isNaNF64UI v" unfolding isNaNF64UI_def exponent_masks by blast
qed

lemma narrow_boxes: "isBoxedF32 (freg16 a)" "isBoxedF64 (freg16 a)" "isBoxedF64 (freg32 b)"
  using boxed_box(1) [of a] by (simp_all add: isBoxedF16_def isBoxedF32_def isBoxedF64_ones freg32_def)

lemma narrow_reads_as_nan:
  "is_nan (value32 (freg16 a))" "is_nan (value64 (freg16 a))" "is_nan (value64 (freg32 b))"
proof -
  have "isNaNF32UI (ucast (f32 (freg16 a)))"
    by (rule high_ones_nan) (simp only: f32_def narrow_boxes if_True, simp add: freg16_def bit_simps)
  then show "is_nan (value32 (freg16 a))" by (simp only: value32_def is_nanF32)
  have "isNaNF64UI (ucast (f64 (freg16 a)))"
    by (rule high_ones_nan) (simp only: f64_def narrow_boxes if_True, simp add: freg16_def bit_simps)
  then show "is_nan (value64 (freg16 a))" by (simp only: value64_def is_nanF64)
  have "isNaNF64UI (ucast (f64 (freg32 b)))"
    by (rule high_ones_nan) (simp only: f64_def narrow_boxes if_True, simp add: freg32_def bit_simps)
  then show "is_nan (value64 (freg32 b))" by (simp only: value64_def is_nanF64)
qed

text \<open>C38: NaN boxing: a value written to a floating-point register is read back in its format, a register
  is recognised as boxed exactly if it holds a value of the format, and a value of a narrower format
  reads as a NaN in a wider one.\<close>

theorem nan_boxing:
  "f16 (freg16 a) = a \<and> f32 (freg32 b) = b \<and> f64 (freg64 c) = c \<and>
   (isBoxedF16 r \<longleftrightarrow> (\<exists>x. r = freg16 x)) \<and> (isBoxedF32 r \<longleftrightarrow> (\<exists>x. r = freg32 x)) \<and> (isBoxedF64 r \<longleftrightarrow> (\<exists>x. r = freg64 x)) \<and>
   is_nan (value32 (freg16 a)) \<and> is_nan (value64 (freg16 a)) \<and> is_nan (value64 (freg32 b))"
proof (intro conjI)
  show "isBoxedF16 r \<longleftrightarrow> (\<exists>x. r = freg16 x)" using box_unbox(1) [of r] high_field [of 16 "f16 r"] by (metis boxed_box(1))
  show "isBoxedF32 r \<longleftrightarrow> (\<exists>x. r = freg32 x)" by (metis boxed_box(2) box_unbox(2))
  show "isBoxedF64 r \<longleftrightarrow> (\<exists>x. r = freg64 x)" by (metis boxed_box(3) box_unbox(3))
qed (rule unbox_box narrow_reads_as_nan)+

text \<open>C12: the arithmetic instructions and the conversions to a floating-point format read their operands unboxed,
  round the exact result once in the selected mode, write it boxed and accrue its flags; a reserved
  rounding mode, a missing extension or a floating-point unit that is off is an illegal instruction
  that changes nothing.\<close>

theorem fp_results:
  "rounds_to [ext_F] False box32 (\<lambda>insn p st. fp_add f32_fmt st (value32 (FRS1 insn p)) (value32 (FRS2 insn p))) rv_fadd_s \<and>
   rounds_to [ext_D] False box64 (\<lambda>insn p st. fp_add f64_fmt st (value64 (FRS1 insn p)) (value64 (FRS2 insn p))) rv_fadd_d \<and>
   rounds_to [ext_F] False box32 (\<lambda>insn p st. fp_sub f32_fmt st (value32 (FRS1 insn p)) (value32 (FRS2 insn p))) rv_fsub_s \<and>
   rounds_to [ext_D] False box64 (\<lambda>insn p st. fp_sub f64_fmt st (value64 (FRS1 insn p)) (value64 (FRS2 insn p))) rv_fsub_d \<and>
   rounds_to [EXT_ZFH] False box16 (\<lambda>insn p st. fp_mul f16_fmt st (value16 (FRS1 insn p)) (value16 (FRS2 insn p))) rv_fmul_h \<and>
   rounds_to [ext_F] False box32 (\<lambda>insn p st. fp_mul f32_fmt st (value32 (FRS1 insn p)) (value32 (FRS2 insn p))) rv_fmul_s \<and>
   rounds_to [ext_D] False box64 (\<lambda>insn p st. fp_mul f64_fmt st (value64 (FRS1 insn p)) (value64 (FRS2 insn p))) rv_fmul_d \<and>
   rounds_to [EXT_ZFH, ext_D] False box64 (\<lambda>insn p st. fp_convert f64_fmt st (value16 (FRS1 insn p))) rv_fcvt_d_h \<and>
   rounds_to [ext_D] False box64 (\<lambda>insn p st. fp_convert f64_fmt st (value32 (FRS1 insn p))) rv_fcvt_d_s \<and>
   rounds_to [EXT_ZFH, ext_D] False box16 (\<lambda>insn p st. fp_convert f16_fmt st (value64 (FRS1 insn p))) rv_fcvt_h_d \<and>
   rounds_to [EXT_ZFH] False box16 (\<lambda>insn p st. fp_convert f16_fmt st (value32 (FRS1 insn p))) rv_fcvt_h_s \<and>
   rounds_to [ext_D] False box32 (\<lambda>insn p st. fp_convert f32_fmt st (value64 (FRS1 insn p))) rv_fcvt_s_d \<and>
   rounds_to [EXT_ZFH] False box32 (\<lambda>insn p st. fp_convert f32_fmt st (value16 (FRS1 insn p))) rv_fcvt_s_h \<and>
   rounds_to [EXT_ZFH] False box16 (\<lambda>insn p st. int_result f16_fmt st (sint (ucast (RS1 insn p) :: u32))) rv_fcvt_h_w \<and>
   rounds_to [EXT_ZFH] False box16 (\<lambda>insn p st. int_result f16_fmt st (int (unat (ucast (RS1 insn p) :: u32)))) rv_fcvt_h_wu \<and>
   rounds_to [EXT_ZFH] True box16 (\<lambda>insn p st. int_result f16_fmt st (sint (RS1 insn p))) rv_fcvt_h_l \<and>
   rounds_to [EXT_ZFH] True box16 (\<lambda>insn p st. int_result f16_fmt st (int (unat (RS1 insn p)))) rv_fcvt_h_lu \<and>
   rounds_to [ext_F] False box32 (\<lambda>insn p st. int_result f32_fmt st (sint (ucast (RS1 insn p) :: u32))) rv_fcvt_s_w \<and>
   rounds_to [ext_F] False box32 (\<lambda>insn p st. int_result f32_fmt st (int (unat (ucast (RS1 insn p) :: u32)))) rv_fcvt_s_wu \<and>
   rounds_to [ext_F] True box32 (\<lambda>insn p st. int_result f32_fmt st (sint (RS1 insn p))) rv_fcvt_s_l \<and>
   rounds_to [ext_F] True box32 (\<lambda>insn p st. int_result f32_fmt st (int (unat (RS1 insn p)))) rv_fcvt_s_lu \<and>
   rounds_to [ext_D] False box64 (\<lambda>insn p st. int_result f64_fmt st (sint (ucast (RS1 insn p) :: u32))) rv_fcvt_d_w \<and>
   rounds_to [ext_D] False box64 (\<lambda>insn p st. int_result f64_fmt st (int (unat (ucast (RS1 insn p) :: u32)))) rv_fcvt_d_wu \<and>
   rounds_to [ext_D] True box64 (\<lambda>insn p st. int_result f64_fmt st (sint (RS1 insn p))) rv_fcvt_d_l \<and>
   rounds_to [ext_D] True box64 (\<lambda>insn p st. int_result f64_fmt st (int (unat (RS1 insn p)))) rv_fcvt_d_lu"
  by (simp only: simp_thms
    fadd_s_correct fadd_d_correct fsub_s_correct fsub_d_correct fmul_h_correct fmul_s_correct
    fmul_d_correct fcvt_d_h_correct fcvt_d_s_correct fcvt_h_d_correct fcvt_h_s_correct fcvt_s_d_correct
    fcvt_s_h_correct fcvt_h_w_correct fcvt_h_wu_correct fcvt_h_l_correct fcvt_h_lu_correct fcvt_s_w_correct
    fcvt_s_wu_correct fcvt_s_l_correct fcvt_s_lu_correct fcvt_d_w_correct fcvt_d_wu_correct fcvt_d_l_correct
    fcvt_d_lu_correct)

text \<open>C33: the conversions to integers and the comparisons write the integer register: the rounded and
  clamped value, sign-extended from its width, or the truth value, with the flags accrued.\<close>

theorem fp_integer_results:
  "rounds_to_int [EXT_ZFH] False (\<lambda>r. scast (word_of_int r :: u32)) (\<lambda>m insn p st. fp_to_int (- (2 ^ 31)) (2 ^ 31 - 1) m True st (value16 (FRS1 insn p))) rv_fcvt_w_h \<and>
   rounds_to_int [EXT_ZFH] False (\<lambda>r. scast (word_of_int r :: u32)) (\<lambda>m insn p st. fp_to_int 0 (2 ^ 32 - 1) m True st (value16 (FRS1 insn p))) rv_fcvt_wu_h \<and>
   rounds_to_int [EXT_ZFH] True word_of_int (\<lambda>m insn p st. fp_to_int (- (2 ^ 63)) (2 ^ 63 - 1) m True st (value16 (FRS1 insn p))) rv_fcvt_l_h \<and>
   rounds_to_int [EXT_ZFH] True word_of_int (\<lambda>m insn p st. fp_to_int 0 (2 ^ 64 - 1) m True st (value16 (FRS1 insn p))) rv_fcvt_lu_h \<and>
   rounds_to_int [ext_F] False (\<lambda>r. scast (word_of_int r :: u32)) (\<lambda>m insn p st. fp_to_int (- (2 ^ 31)) (2 ^ 31 - 1) m True st (value32 (FRS1 insn p))) rv_fcvt_w_s \<and>
   rounds_to_int [ext_F] False (\<lambda>r. scast (word_of_int r :: u32)) (\<lambda>m insn p st. fp_to_int 0 (2 ^ 32 - 1) m True st (value32 (FRS1 insn p))) rv_fcvt_wu_s \<and>
   rounds_to_int [ext_F] True word_of_int (\<lambda>m insn p st. fp_to_int (- (2 ^ 63)) (2 ^ 63 - 1) m True st (value32 (FRS1 insn p))) rv_fcvt_l_s \<and>
   rounds_to_int [ext_F] True word_of_int (\<lambda>m insn p st. fp_to_int 0 (2 ^ 64 - 1) m True st (value32 (FRS1 insn p))) rv_fcvt_lu_s \<and>
   rounds_to_int [ext_D] False (\<lambda>r. scast (word_of_int r :: u32)) (\<lambda>m insn p st. fp_to_int (- (2 ^ 31)) (2 ^ 31 - 1) m True st (value64 (FRS1 insn p))) rv_fcvt_w_d \<and>
   rounds_to_int [ext_D] False (\<lambda>r. scast (word_of_int r :: u32)) (\<lambda>m insn p st. fp_to_int 0 (2 ^ 32 - 1) m True st (value64 (FRS1 insn p))) rv_fcvt_wu_d \<and>
   rounds_to_int [ext_D] True word_of_int (\<lambda>m insn p st. fp_to_int (- (2 ^ 63)) (2 ^ 63 - 1) m True st (value64 (FRS1 insn p))) rv_fcvt_l_d \<and>
   rounds_to_int [ext_D] True word_of_int (\<lambda>m insn p st. fp_to_int 0 (2 ^ 64 - 1) m True st (value64 (FRS1 insn p))) rv_fcvt_lu_d \<and>
   decides [EXT_ZFH] (\<lambda>insn p st. quiet_result st (value16 (FRS1 insn p)) (value16 (FRS2 insn p)) (fp_eq (value16 (FRS1 insn p)) (value16 (FRS2 insn p)))) rv_feq_h \<and>
   decides [ext_F] (\<lambda>insn p st. quiet_result st (value32 (FRS1 insn p)) (value32 (FRS2 insn p)) (fp_eq (value32 (FRS1 insn p)) (value32 (FRS2 insn p)))) rv_feq_s \<and>
   decides [ext_D] (\<lambda>insn p st. quiet_result st (value64 (FRS1 insn p)) (value64 (FRS2 insn p)) (fp_eq (value64 (FRS1 insn p)) (value64 (FRS2 insn p)))) rv_feq_d \<and>
   decides [EXT_ZFH] (\<lambda>insn p st. signaling_result st (value16 (FRS1 insn p)) (value16 (FRS2 insn p)) (fp_lt (value16 (FRS1 insn p)) (value16 (FRS2 insn p)))) rv_flt_h \<and>
   decides [ext_F] (\<lambda>insn p st. signaling_result st (value32 (FRS1 insn p)) (value32 (FRS2 insn p)) (fp_lt (value32 (FRS1 insn p)) (value32 (FRS2 insn p)))) rv_flt_s \<and>
   decides [ext_D] (\<lambda>insn p st. signaling_result st (value64 (FRS1 insn p)) (value64 (FRS2 insn p)) (fp_lt (value64 (FRS1 insn p)) (value64 (FRS2 insn p)))) rv_flt_d \<and>
   decides [EXT_ZFH] (\<lambda>insn p st. signaling_result st (value16 (FRS1 insn p)) (value16 (FRS2 insn p)) (fp_le (value16 (FRS1 insn p)) (value16 (FRS2 insn p)))) rv_fle_h \<and>
   decides [ext_F] (\<lambda>insn p st. signaling_result st (value32 (FRS1 insn p)) (value32 (FRS2 insn p)) (fp_le (value32 (FRS1 insn p)) (value32 (FRS2 insn p)))) rv_fle_s \<and>
   decides [ext_D] (\<lambda>insn p st. signaling_result st (value64 (FRS1 insn p)) (value64 (FRS2 insn p)) (fp_le (value64 (FRS1 insn p)) (value64 (FRS2 insn p)))) rv_fle_d"
  by (simp only: simp_thms
    fcvt_w_h_correct fcvt_wu_h_correct fcvt_l_h_correct fcvt_lu_h_correct fcvt_w_s_correct fcvt_wu_s_correct
    fcvt_l_s_correct fcvt_lu_s_correct fcvt_w_d_correct fcvt_wu_d_correct fcvt_l_d_correct fcvt_lu_d_correct
    feq_h_correct feq_s_correct feq_d_correct flt_h_correct flt_s_correct flt_d_correct
    fle_h_correct fle_s_correct fle_d_correct)

text \<open>C39: minimum and maximum write the boxed minimum and maximum of the operand values, a NaN operand giving
  way to a number, although the code copies the chosen source register as it is.\<close>

theorem fp_min_max_results:
  "selects [EXT_ZFH] box16 (\<lambda>insn p st. min_result f16_fmt st (unat (f16 (FRS1 insn p))) (unat (f16 (FRS2 insn p)))) rv_fmin_h \<and>
   selects [EXT_ZFH] box16 (\<lambda>insn p st. max_result f16_fmt st (unat (f16 (FRS1 insn p))) (unat (f16 (FRS2 insn p)))) rv_fmax_h \<and>
   selects [ext_F] box32 (\<lambda>insn p st. min_result f32_fmt st (unat (f32 (FRS1 insn p))) (unat (f32 (FRS2 insn p)))) rv_fmin_s \<and>
   selects [ext_F] box32 (\<lambda>insn p st. max_result f32_fmt st (unat (f32 (FRS1 insn p))) (unat (f32 (FRS2 insn p)))) rv_fmax_s \<and>
   selects [ext_D] box64 (\<lambda>insn p st. min_result f64_fmt st (unat (f64 (FRS1 insn p))) (unat (f64 (FRS2 insn p)))) rv_fmin_d \<and>
   selects [ext_D] box64 (\<lambda>insn p st. max_result f64_fmt st (unat (f64 (FRS1 insn p))) (unat (f64 (FRS2 insn p)))) rv_fmax_d"
  by (simp only: simp_thms
    fmin_h_correct fmax_h_correct fmin_s_correct fmax_s_correct fmin_d_correct fmax_d_correct)

end
