(* ===== verification/RV_Trap.thy ===== *)
theory RV_Trap
  imports RV_CSR
begin

text \<open>
  Traps, interrupts and the instructions that change the mode or access a control and status
  register: \<open>riscv/trap.h\<close>, \<open>take_trap\<close>, \<open>take_interrupt\<close>, \<open>set_virt\<close> and \<open>enter_debug_mode\<close> of
  \<open>riscv/processor.cc\<close>, \<open>validate_csr\<close> and \<open>set_pc_and_serialize\<close> of \<open>riscv/decode.h\<close>, the bodies of
  \<open>riscv/insns\<close>, and the interrupts the fuzzer asserts at chosen addresses (\<open>riscv/psint.cc\<close>). A body
  that may throw after it has changed the hart returns the hart with the exception.
\<close>

section \<open>What a trap carries\<close>

text \<open>Neither \<open>abort\<close> nor a waiting hart is a \<open>trap_t\<close>: they have no cause.\<close>

fun trap_cause :: "trap \<Rightarrow> u64" where
  "trap_cause (Trap_instruction_address_misaligned _ _ _) = 0"
| "trap_cause (Trap_instruction_access_fault _ _ _) = 1"
| "trap_cause (Trap_illegal_instruction _) = 2"
| "trap_cause (Trap_breakpoint _) = 3"
| "trap_cause (Trap_load_address_misaligned _ _ _) = 4"
| "trap_cause (Trap_load_access_fault _ _ _) = 5"
| "trap_cause (Trap_store_address_misaligned _ _ _) = 6"
| "trap_cause (Trap_store_access_fault _ _ _) = 7"
| "trap_cause Trap_user_ecall = 8"
| "trap_cause Trap_supervisor_ecall = 9"
| "trap_cause Trap_virtual_supervisor_ecall = 10"
| "trap_cause Trap_machine_ecall = 11"
| "trap_cause (Trap_instruction_page_fault _ _ _) = 12"
| "trap_cause (Trap_load_page_fault _ _ _) = 13"
| "trap_cause (Trap_store_page_fault _ _ _) = 15"
| "trap_cause (Trap_instruction_guest_page_fault _ _ _) = 20"
| "trap_cause (Trap_load_guest_page_fault _ _ _) = 21"
| "trap_cause (Trap_virtual_instruction _) = 22"
| "trap_cause (Trap_store_guest_page_fault _ _ _) = 23"
| "trap_cause (Trap_interrupt which) = which"

text \<open>The values of a \<open>mem_trap_t\<close>: address, guest physical address, transformed instruction.\<close>

fun mem_trap :: "trap \<Rightarrow> (u64 \<times> u64 \<times> u64) option" where
  "mem_trap (Trap_instruction_address_misaligned a b c) = Some (a, b, c)"
| "mem_trap (Trap_instruction_access_fault a b c) = Some (a, b, c)"
| "mem_trap (Trap_load_address_misaligned a b c) = Some (a, b, c)"
| "mem_trap (Trap_load_access_fault a b c) = Some (a, b, c)"
| "mem_trap (Trap_store_address_misaligned a b c) = Some (a, b, c)"
| "mem_trap (Trap_store_access_fault a b c) = Some (a, b, c)"
| "mem_trap (Trap_instruction_page_fault a b c) = Some (a, b, c)"
| "mem_trap (Trap_load_page_fault a b c) = Some (a, b, c)"
| "mem_trap (Trap_store_page_fault a b c) = Some (a, b, c)"
| "mem_trap (Trap_instruction_guest_page_fault a b c) = Some (a, b, c)"
| "mem_trap (Trap_load_guest_page_fault a b c) = Some (a, b, c)"
| "mem_trap (Trap_store_guest_page_fault a b c) = Some (a, b, c)"
| "mem_trap _ = None"

definition trap_has_gva :: "trap \<Rightarrow> bool" where "trap_has_gva t = (mem_trap t \<noteq> None)"

definition trap_tval :: "trap \<Rightarrow> u64" where
  "trap_tval t =
     (case mem_trap t of
        Some (tval, tval2, tinst) \<Rightarrow> tval
      | None \<Rightarrow> (case t of
            Trap_illegal_instruction tval \<Rightarrow> tval
          | Trap_breakpoint tval \<Rightarrow> tval
          | Trap_virtual_instruction tval \<Rightarrow> tval
          | _ \<Rightarrow> 0))"

definition trap_tval2 :: "trap \<Rightarrow> u64" where
  "trap_tval2 t = (case mem_trap t of Some (tval, tval2, tinst) \<Rightarrow> tval2 | None \<Rightarrow> 0)"

definition trap_tinst :: "trap \<Rightarrow> u64" where
  "trap_tinst t = (case mem_trap t of Some (tval, tval2, tinst) \<Rightarrow> tinst | None \<Rightarrow> 0)"

section \<open>Modes\<close>

text \<open>Leaving a guest records the dirty state of the host in the guest's status.\<close>

definition sync_guest :: "u64 \<Rightarrow> hart \<Rightarrow> hart" where
  "sync_guest field p =
     (if mstatus p AND field = field
      then csr_update (vsstatus_update (\<lambda>s.
             s OR field OR (if cur_xlen p = 64 then MSTATUS64_SD else MSTATUS32_SD))) p
      else p)"

definition set_virt :: "bool \<Rightarrow> hart \<Rightarrow> hart" where
  "set_virt v p =
     (if prv p = PRV_M then p
      else if virt p \<noteq> v
      then let p = (if virt p \<and> \<not> v then sync_guest MSTATUS_XS (sync_guest MSTATUS_VS (sync_guest MSTATUS_FS p)) else p);
               mk = vsstatus_mask p;
               tmp = mstatus p AND mk;
               p = p\<lparr>mstatus := (mstatus p AND NOT mk) OR (vsstatus (csr p) AND mk)\<rparr>
           in (csr_update (vsstatus_update (\<lambda>_. tmp)) p)\<lparr>virt := v\<rparr>
      else p)"

abbreviation (input) DCSR_CAUSE_SWBP :: u8 where "DCSR_CAUSE_SWBP \<equiv> 1"
abbreviation (input) DCSR_CAUSE_DEBUGINT :: u8 where "DCSR_CAUSE_DEBUGINT \<equiv> 3"
abbreviation (input) DCSR_CAUSE_STEP :: u8 where "DCSR_CAUSE_STEP \<equiv> 4"
abbreviation (input) DCSR_CAUSE_HALT :: u8 where "DCSR_CAUSE_HALT \<equiv> 5"
abbreviation (input) DCSR_CAUSE_GROUP :: u8 where "DCSR_CAUSE_GROUP \<equiv> 6"
abbreviation (input) DEBUG_ROM_ENTRY :: u64 where "DEBUG_ROM_ENTRY \<equiv> 0x800"
abbreviation (input) DEBUG_ROM_TVEC :: u64 where "DEBUG_ROM_TVEC \<equiv> 0x808"

definition enter_debug_mode :: "u8 \<Rightarrow> hart \<Rightarrow> hart" where
  "enter_debug_mode cause p =
     (let p = csr_update (\<lambda>c. c\<lparr>debug_mode := True, dcsr := (dcsr c)\<lparr>dcsr_cause := cause, dcsr_prv := ucast (prv p)\<rparr>\<rparr>) p;
          p = set_privilege PRV_M p
      in csr_update (\<lambda>c. c\<lparr>dpc := pc_reg c, pc_reg := DEBUG_ROM_ENTRY\<rparr>) p)"

section \<open>Taking a trap\<close>

text \<open>\<open>mtval\<close> keeps 40 bits, as Rocket does: a bit that tells whether the address was canonical is put
  above the 39 bits of an address.\<close>

definition rocket_tval :: "u64 \<Rightarrow> u64" where
  "rocket_tval tval =
     (let upper_tval = drop_bit 39 tval AND 0x1FFFFFF;
          tval = (if drop_bit 38 tval AND 1 \<noteq> 0 \<and> upper_tval = 0x1FFFFFF then tval OR push_bit 39 1
                  else if drop_bit 38 tval AND 1 = 0 \<and> upper_tval \<noteq> 0 then tval OR push_bit 39 1
                  else tval AND 0xFFFFFF7FFFFFFFFF);
          upper_mask = (if drop_bit 39 tval AND 1 \<noteq> 0 then 0xFFFFFF else 0)
      in push_bit 40 upper_mask OR (tval AND 0xFFFFFFFFFF))"

definition is_interrupt :: "u64 \<Rightarrow> hart \<Rightarrow> bool" where
  "is_interrupt c p = (c AND push_bit (max_xlen (cfg p) - 1) 1 \<noteq> 0)"

definition trap_bit :: "u64 \<Rightarrow> hart \<Rightarrow> u64" where
  "trap_bit c p = (if is_interrupt c p then c AND NOT (push_bit (max_xlen (cfg p) - 1) 1) else c)"

definition hsdeleg :: "u64 \<Rightarrow> hart \<Rightarrow> u64" where
  "hsdeleg c p =
     (if prv p \<le> PRV_S then (if is_interrupt c p then mideleg (csr p) else medeleg (csr p)) else 0)"

definition vsdeleg :: "u64 \<Rightarrow> hart \<Rightarrow> u64" where
  "vsdeleg c p =
     (if virt p \<and> prv p \<le> PRV_S
      then (if is_interrupt c p then mideleg (csr p) AND hideleg (csr p) else medeleg (csr p) AND hedeleg (csr p)) else 0)"

definition delegated :: "u64 \<Rightarrow> u64 \<Rightarrow> hart \<Rightarrow> bool" where
  "delegated deleg c p =
     (prv p \<le> PRV_S \<and> trap_bit c p < of_nat (max_xlen (cfg p)) \<and> drop_bit (unat (trap_bit c p)) deleg AND 1 \<noteq> 0)"

definition trap_vector :: "u64 \<Rightarrow> u64 \<Rightarrow> hart \<Rightarrow> u64" where
  "trap_vector tvec c p =
     (tvec AND NOT 1) + (if tvec AND 1 \<noteq> 0 \<and> is_interrupt c p then 4 * trap_bit c p else 0)"

definition trap_to_vs :: "trap \<Rightarrow> u64 \<Rightarrow> hart \<Rightarrow> trap + hart" where
  "trap_to_vs t epc p =
     (let c = trap_cause t;
          p = csr_update (\<lambda>r. r\<lparr>pc_reg := trap_vector (vstvec r) c p,
                vscause := (if is_interrupt c p then c - 1 else c), vsepc := epc, vstval := trap_tval t\<rparr>) p;
          s = mstatus p;
          s = set_field s MSTATUS_SPIE (get_field s MSTATUS_SIE);
          s = set_field s MSTATUS_SPP (prv p);
          s = set_field s MSTATUS_SIE 0
      in and_then (set_csr CSR_MSTATUS s p) (\<lambda>p. Inr (set_privilege PRV_S p)))"

definition trap_to_hs :: "trap \<Rightarrow> u64 \<Rightarrow> hart \<Rightarrow> trap + hart" where
  "trap_to_hs t epc p =
     (let c = trap_cause t;
          curr_virt = virt p;
          p = set_virt False p;
          p = csr_update (\<lambda>r. r\<lparr>pc_reg := trap_vector (stvec r) c p, scause := c, sepc := epc,
                stval := trap_tval t, htval := trap_tval2 t, htinst := trap_tinst t\<rparr>) p;
          s = mstatus p;
          s = set_field s MSTATUS_SPIE (get_field s MSTATUS_SIE);
          s = set_field s MSTATUS_SPP (prv p);
          s = set_field s MSTATUS_SIE 0
      in and_then (set_csr CSR_MSTATUS s p) (\<lambda>p.
         let s = hstatus (csr p);
             s = set_field s HSTATUS_SPVP (prv p);
             s = set_field s HSTATUS_SPV (of_bool curr_virt);
             s = set_field s HSTATUS_GVA (of_bool (trap_has_gva t))
         in and_then (set_csr CSR_HSTATUS s p) (\<lambda>p. Inr (set_privilege PRV_S p))))"

definition trap_to_m :: "trap \<Rightarrow> u64 \<Rightarrow> hart \<Rightarrow> trap + hart" where
  "trap_to_m t epc p =
     (let c = trap_cause t;
          curr_virt = virt p;
          p = set_virt False p;
          p = csr_update (\<lambda>r. r\<lparr>pc_reg := trap_vector (mtvec r) c p, mepc := epc, mcause := c,
                mtval := rocket_tval (trap_tval t), mtval2 := trap_tval2 t, mtinst := trap_tinst t\<rparr>) p;
          s = mstatus p;
          s = set_field s MSTATUS_MPIE (get_field s MSTATUS_MIE);
          s = set_field s MSTATUS_MPP (prv p);
          s = set_field s MSTATUS_MIE 0;
          s = set_field s MSTATUS_MPV (of_bool curr_virt);
          s = set_field s MSTATUS_GVA (of_bool (trap_has_gva t))
      in and_then (set_csr CSR_MSTATUS s p) (\<lambda>p. Inr (set_privilege PRV_M p)))"

definition take_trap :: "trap \<Rightarrow> u64 \<Rightarrow> hart \<Rightarrow> trap + hart" where
  "take_trap t epc p =
     (let c = trap_cause t
      in if debug_mode (csr p)
         then Inr (csr_update (pc_reg_update (\<lambda>_. if c = 3 then DEBUG_ROM_ENTRY else DEBUG_ROM_TVEC)) p)
         else if c = 3 \<and> (prv p = PRV_M \<and> dcsr_ebreakm (dcsr (csr p)) \<or>
                          prv p = PRV_S \<and> dcsr_ebreaks (dcsr (csr p)) \<or>
                          prv p = PRV_U \<and> dcsr_ebreaku (dcsr (csr p)))
         then Inr (enter_debug_mode DCSR_CAUSE_SWBP p)
         else if delegated (vsdeleg c p) c p then trap_to_vs t epc p
         else if delegated (hsdeleg c p) c p then trap_to_hs t epc p
         else trap_to_m t epc p)"

section \<open>Interrupts\<close>

text \<open>The interrupts enabled for the most privileged mode that has one.\<close>

definition enabled_m :: "u64 \<Rightarrow> hart \<Rightarrow> u64" where
  "enabled_m pending p =
     (if prv p < PRV_M \<or> prv p = PRV_M \<and> get_field (mstatus p) MSTATUS_MIE \<noteq> 0
      then pending AND NOT (mideleg (csr p)) else 0)"

definition enabled_hs :: "u64 \<Rightarrow> hart \<Rightarrow> u64" where
  "enabled_hs pending p =
     (let status = (if virt p then vsstatus (csr p) else mstatus p)
      in if prv p < PRV_S \<or> prv p = PRV_S \<and> get_field status MSTATUS_SIE \<noteq> 0
         then pending AND (mideleg (csr p) AND NOT MIP_VS_MASK) else 0)"

definition enabled_vs :: "u64 \<Rightarrow> hart \<Rightarrow> u64" where
  "enabled_vs pending p =
     (if prv p < PRV_S \<or> prv p = PRV_S \<and> get_field (mstatus p) MSTATUS_SIE \<noteq> 0
      then pending AND (mideleg (csr p) AND hideleg (csr p)) else 0)"

definition enabled_interrupts :: "u64 \<Rightarrow> hart \<Rightarrow> u64" where
  "enabled_interrupts pending p =
     (if enabled_m pending p \<noteq> 0 then enabled_m pending p
      else if virt p \<and> enabled_hs pending p = 0 then enabled_vs pending p
      else enabled_hs pending p)"

text \<open>The one to take: the lowest of those the first matching line leaves.\<close>

definition select_interrupt :: "u64 \<Rightarrow> u64 option" where
  "select_interrupt e =
     (if drop_bit 11 e \<noteq> 0 then Some (push_bit 11 (drop_bit 11 e))
      else if e AND MIP_MEIP \<noteq> 0 then Some MIP_MEIP
      else if e AND MIP_MSIP \<noteq> 0 then Some MIP_MSIP
      else if e AND MIP_MTIP \<noteq> 0 then Some MIP_MTIP
      else if e AND MIP_SEIP \<noteq> 0 then Some MIP_SEIP
      else if e AND MIP_SSIP \<noteq> 0 then Some MIP_SSIP
      else if e AND MIP_STIP \<noteq> 0 then Some MIP_STIP
      else if e AND MIP_VSEIP \<noteq> 0 then Some MIP_VSEIP
      else if e AND MIP_VSSIP \<noteq> 0 then Some MIP_VSSIP
      else if e AND MIP_VSTIP \<noteq> 0 then Some MIP_VSTIP
      else None)"

lemma drop_bit_less: "v \<noteq> 0 \<Longrightarrow> unat (drop_bit 1 v) < unat v" for v :: u64
proof -
  assume "v \<noteq> 0"
  then have "0 < unat v" by (simp add: unat_gt_0)
  moreover have "unat (drop_bit 1 v) = unat v div 2" by (simp add: drop_bit_eq_div unat_div)
  ultimately show ?thesis by simp
qed

text \<open>\<open>ctz\<close>: it shifts right, counting, until the lowest bit is set; zero gives zero.\<close>

function ctz_loop :: "u64 \<Rightarrow> nat \<Rightarrow> nat" where
  "ctz_loop v res = (if v = 0 \<or> v AND 1 \<noteq> 0 then res else ctz_loop (drop_bit 1 v) (res + 1))"
  by auto

termination
  by (relation "measure (\<lambda>(v, res). unat v)") (use drop_bit_less in auto)

declare ctz_loop.simps [simp del]

definition ctz :: "u64 \<Rightarrow> nat" where "ctz v = ctz_loop v 0"

text \<open>\<open>None\<close> when it returns, \<open>Some\<close> what it throws.\<close>

definition take_interrupt :: "u64 \<Rightarrow> hart \<Rightarrow> trap option" where
  "take_interrupt pending p =
     (let e = enabled_interrupts pending p
      in if pending = 0 then None
         else if \<not> debug_mode (csr p) \<and> e \<noteq> 0
         then (case select_interrupt e of
                 None \<Rightarrow> Some Abort
               | Some e \<Rightarrow> Some (Trap_interrupt (push_bit (max_xlen (cfg p) - 1) 1 OR of_nat (ctz e))))
         else None)"

definition take_pending_interrupt :: "hart \<Rightarrow> trap option" where
  "take_pending_interrupt p = take_interrupt (mip (csr p) AND mie (csr p)) p"

text \<open>The fuzzer's interrupts: at an address of the table the pending bits of its value are set.\<close>

definition psint_bits :: "u64 \<Rightarrow> u64" where
  "psint_bits v =
     (push_bit 11 (drop_bit 2 v AND 1) OR push_bit 9 (drop_bit 3 v AND 1)
      OR push_bit 7 (v AND 1) OR push_bit 3 (drop_bit 1 v AND 1))"

definition assert_int :: "(u64 \<rightharpoonup> u64) \<Rightarrow> u64 \<Rightarrow> hart \<Rightarrow> (trap \<times> hart) + hart" where
  "assert_int intrs pc p =
     (case intrs pc of
        None \<Rightarrow> Inr p
      | Some v \<Rightarrow>
          (let p = csr_update (mip_update (\<lambda>old. old OR psint_bits v)) p
           in case take_pending_interrupt p of None \<Rightarrow> Inr p | Some t \<Rightarrow> Inl (t, p)))"

end
