(* ===== verification/RV_System.thy ===== *)
theory RV_System
  imports RV_Trap
begin

text \<open>
  The system instructions of \<open>riscv/insns\<close>: accesses to control and status registers, returns from
  traps and from debug mode, waiting and fences. A body that throws after it has changed the hart
  gives the hart with the exception; the program counters 3, 5 and 7 are the signals of
  \<open>riscv/decode.h\<close> to the simulator's loop, which then continues at \<open>state.pc\<close>.
\<close>

section \<open>Results and sentinels\<close>

type_synonym sys_result = "(trap \<times> hart) + (u64 \<times> hart)"
type_synonym sys_body = "nat \<Rightarrow> u64 \<Rightarrow> u64 \<Rightarrow> u64 \<Rightarrow> hart \<Rightarrow> sys_result"

abbreviation (input) PC_SERIALIZE_BEFORE :: u64 where "PC_SERIALIZE_BEFORE \<equiv> 3"
abbreviation (input) PC_SERIALIZE_AFTER :: u64 where "PC_SERIALIZE_AFTER \<equiv> 5"
abbreviation (input) PC_SERIALIZE_WFI :: u64 where "PC_SERIALIZE_WFI \<equiv> 7"

text \<open>An exception with the hart it leaves, and the bodies that throw before any change.\<close>

definition raising :: "hart \<Rightarrow> trap + 'a \<Rightarrow> (trap \<times> hart) + 'a" where
  "raising p r = (case r of Inl t \<Rightarrow> Inl (t, p) | Inr x \<Rightarrow> Inr x)"

definition pure_body :: "insn_body \<Rightarrow> sys_body" where
  "pure_body f xlen insn pc npc p = raising p (f xlen insn pc npc p)"

lemma raising_simps [simp]: "raising p (Inl t) = Inl (t, p)" "raising p (Inr x) = Inr x"
  by (simp_all add: raising_def)

definition set_pc_and_serialize :: "u64 \<Rightarrow> hart \<Rightarrow> hart" where
  "set_pc_and_serialize x p = csr_update (pc_reg_update (\<lambda>_. x AND pc_alignment_mask p)) p"

definition require_privilege :: "u64 \<Rightarrow> u64 \<Rightarrow> hart \<Rightarrow> trap + 'a \<Rightarrow> trap + 'a" where
  "require_privilege r insn p = require (r \<le> prv p) insn"

definition require_novirt :: "u64 \<Rightarrow> hart \<Rightarrow> trap + 'a \<Rightarrow> trap + 'a" where
  "require_novirt insn p k = (if virt p then Inl (Trap_virtual_instruction (insn_bits insn)) else k)"

section \<open>Access to a control and status register\<close>

text \<open>The macro \<open>validate_csr\<close>: the first time it only asks the loop to serialize.\<close>

definition csr_priv :: "u64 \<Rightarrow> u64" where "csr_priv which = get_field which 0x300"
definition csr_read_only :: "u64 \<Rightarrow> bool" where "csr_read_only which = (get_field which 0xC00 = 3)"

definition validate_csr :: "u64 \<Rightarrow> bool \<Rightarrow> u64 \<Rightarrow> hart \<Rightarrow> (nat \<Rightarrow> hart \<Rightarrow> sys_result) \<Rightarrow> sys_result" where
  "validate_csr which write insn p k =
     (if \<not> serialized (csr p) then Inr (PC_SERIALIZE_BEFORE, p)
      else let p = csr_update (serialized_update (\<lambda>_. False)) p;
               mode_unsupported = (csr_priv which = PRV_S \<and> \<not> supports_extension ext_S p \<or>
                                   csr_priv which = PRV_HS \<and> \<not> supports_extension ext_H p);
               state_prv = (if prv p = PRV_S \<and> \<not> virt p then PRV_HS else prv p)
           in if mode_unsupported then Inl (Trap_illegal_instruction (insn_bits insn), p)
              else if write \<and> csr_read_only which \<or> state_prv < csr_priv which
              then Inl (if csr_priv which = PRV_HS then Trap_virtual_instruction (insn_bits insn)
                        else Trap_illegal_instruction (insn_bits insn), p)
              else k (unat which) p)"

text \<open>The common body of the six instructions: read, perhaps write, then the destination register.\<close>

definition csr_access :: "bool \<Rightarrow> (u64 \<Rightarrow> u64) \<Rightarrow> sys_body" where
  "csr_access write f xlen insn pc npc p =
     validate_csr (insn_csr insn) write insn p (\<lambda>which p.
       and_then (raising p (get_csr which insn p)) (\<lambda>old.
       and_then (raising p (if write then set_csr which (f old) p else Inr p)) (\<lambda>p.
       Inr (PC_SERIALIZE_AFTER, set_pc_and_serialize npc (WRITE_RD insn (sext_xlen xlen old) p)))))"

definition rv_csrrw :: sys_body where
  "rv_csrrw xlen insn pc npc p = csr_access True (\<lambda>old. RS1 insn p) xlen insn pc npc p"

definition rv_csrrs :: sys_body where
  "rv_csrrs xlen insn pc npc p = csr_access (insn_rs1 insn \<noteq> 0) (\<lambda>old. old OR RS1 insn p) xlen insn pc npc p"

definition rv_csrrc :: sys_body where
  "rv_csrrc xlen insn pc npc p = csr_access (insn_rs1 insn \<noteq> 0) (\<lambda>old. old AND NOT (RS1 insn p)) xlen insn pc npc p"

definition rv_csrrwi :: sys_body where
  "rv_csrrwi xlen insn pc npc p = csr_access True (\<lambda>old. insn_rs1 insn) xlen insn pc npc p"

definition rv_csrrsi :: sys_body where
  "rv_csrrsi xlen insn pc npc p = csr_access (insn_rs1 insn \<noteq> 0) (\<lambda>old. old OR insn_rs1 insn) xlen insn pc npc p"

definition rv_csrrci :: sys_body where
  "rv_csrrci xlen insn pc npc p = csr_access (insn_rs1 insn \<noteq> 0) (\<lambda>old. old AND NOT (insn_rs1 insn)) xlen insn pc npc p"

section \<open>Returns, waiting and fences\<close>

definition rv_mret :: insn_body where
  "rv_mret xlen insn pc npc p =
     require_privilege PRV_M insn p
       (let p = set_pc_and_serialize (mepc (csr p)) p;
            s = mstatus p;
            prev_prv = get_field s MSTATUS_MPP;
            prev_virt = get_field s MSTATUS_MPV;
            s = set_field s MSTATUS_MIE (get_field s MSTATUS_MPIE);
            s = set_field s MSTATUS_MPIE 1;
            s = set_field s MSTATUS_MPP PRV_U
        in and_then (set_csr CSR_MSTATUS s p) (\<lambda>p.
           Inr (PC_SERIALIZE_AFTER, set_virt (prev_virt \<noteq> 0) (set_privilege prev_prv p))))"

definition rv_sret :: insn_body where
  "rv_sret xlen insn pc npc p =
     require_extension ext_S insn p
       (require_privilege (if get_field (mstatus p) MSTATUS_TSR \<noteq> 0 then PRV_M else PRV_S) insn p
         ((if virt p \<and> get_field (hstatus (csr p)) HSTATUS_VTSR \<noteq> 0 then require_novirt insn p else id)
           (let p = set_pc_and_serialize (if virt p then vsepc (csr p) else sepc (csr p)) p;
                s = mstatus p;
                prev_prv = get_field s MSTATUS_SPP;
                s = set_field s MSTATUS_SIE (get_field s MSTATUS_SPIE);
                s = set_field s MSTATUS_SPIE 1;
                s = set_field s MSTATUS_SPP PRV_U
            in and_then (set_csr CSR_MSTATUS s p) (\<lambda>p.
               let p = set_privilege prev_prv p
               in Inr (PC_SERIALIZE_AFTER,
                    if \<not> virt p then set_virt (get_field (hstatus (csr p)) HSTATUS_SPV \<noteq> 0) p else p)))))"

definition rv_dret :: insn_body where
  "rv_dret xlen insn pc npc p =
     require (debug_mode (csr p)) insn
       (let p = set_pc_and_serialize (dpc (csr p)) p;
            p = set_privilege (ucast (dcsr_prv (dcsr (csr p)))) p;
            p = csr_update (debug_mode_update (\<lambda>_. False)) p
        in Inr (PC_SERIALIZE_AFTER,
             if dcsr_step (dcsr (csr p)) then csr_update (step_state_update (\<lambda>_. STEP_STEPPING)) p else p))"

definition rv_wfi :: sys_body where
  "rv_wfi xlen insn pc npc p =
     and_then (raising p (require_privilege (if get_field (mstatus p) MSTATUS_TW \<noteq> 0 then PRV_M else PRV_S) insn p
                ((if virt p \<and> get_field (hstatus (csr p)) HSTATUS_VTW \<noteq> 0 then require_novirt insn p else id) (Inr ()))))
       (\<lambda>_. Inl (Wait_for_interrupt, set_pc_and_serialize npc p))"

text \<open>The fences flush the translation cache, or only the instruction cache.\<close>

definition rv_fence_i :: insn_body where
  "rv_fence_i xlen insn pc npc p = Inr (npc, call_mmu Flush_icache p)"

definition rv_sfence_vma :: insn_body where
  "rv_sfence_vma xlen insn pc npc p =
     require_extension ext_S insn p
       (require_privilege (if get_field (mstatus p) MSTATUS_TVM \<noteq> 0 then PRV_M else PRV_S) insn p (Inr (npc, call_mmu Flush_tlb p)))"

definition rv_hfence_vvma :: insn_body where
  "rv_hfence_vvma xlen insn pc npc p =
     require_extension ext_H insn p (require_privilege PRV_S insn p (require_novirt insn p (Inr (npc, call_mmu Flush_tlb p))))"

definition rv_hfence_gvma :: insn_body where
  "rv_hfence_gvma xlen insn pc npc p =
     require_extension ext_H insn p (require_privilege PRV_S insn p (require_novirt insn p (Inr (npc, call_mmu Flush_tlb p))))"

end
