(* ===== verification/RV_CSR_Correct.thy ===== *)
theory RV_CSR_Correct
  imports RV_System
begin

text \<open>
  What the control and status registers guarantee: the fields of \<open>mstatus\<close> after a write, the
  registers whose writable bits are read back, and the physical memory protection registers, whose
  locked entries no sequence of writes changes.
\<close>

section \<open>Fields\<close>

text \<open>A mask of \<open>k\<close> contiguous bits from bit \<open>n\<close> on, and what the field macros do with it.\<close>

definition field_mask :: "nat \<Rightarrow> nat \<Rightarrow> u64" where "field_mask n k = push_bit n (mask k)"

lemma field_lsb: "0 < k \<Longrightarrow> n < 64 \<Longrightarrow> field_mask n k AND NOT (push_bit 1 (field_mask n k)) = push_bit n 1"
proof -
  assume k: "0 < k" "n < 64"
  have "field_mask n k AND NOT (push_bit m (field_mask n k)) = push_bit n (mask (min m k))" for m
    unfolding field_mask_def using k by (intro bit_word_eqI) (auto simp: bit_simps)
  from this [of 1] show ?thesis using k by (simp add: min_def split: if_splits)
qed

lemma get_field_bits:
  assumes "0 < k" "n + k \<le> 64"
  shows "get_field r (field_mask n k) = take_bit k (drop_bit n r)"
proof -
  have "get_field r (field_mask n k) = (r AND field_mask n k) div push_bit n 1"
    unfolding get_field_def by (subst field_lsb) (use assms in auto)
  also have "\<dots> = drop_bit n (r AND field_mask n k)" by (simp add: drop_bit_eq_div)
  also have "\<dots> = take_bit k (drop_bit n r)"
    unfolding field_mask_def using assms by (intro bit_word_eqI) (auto simp: bit_simps)
  finally show ?thesis .
qed

lemma set_field_bits:
  assumes "0 < k" "n + k \<le> 64"
  shows "set_field r (field_mask n k) v = (r AND NOT (field_mask n k)) OR push_bit n (take_bit k v)"
proof -
  have "set_field r (field_mask n k) v = (r AND NOT (field_mask n k)) OR ((v * push_bit n 1) AND field_mask n k)"
    unfolding set_field_def by (subst field_lsb) (use assms in auto)
  also have "v * push_bit n 1 = push_bit n v" by (simp add: push_bit_eq_mult)
  also have "push_bit n v AND field_mask n k = push_bit n (take_bit k v)"
    unfolding field_mask_def by (rule bit_word_eqI) (auto simp: bit_simps)
  finally show ?thesis .
qed

lemma get_set_field:
  assumes "0 < k" "n + k \<le> 64"
  shows "get_field (set_field r (field_mask n k) v) (field_mask n k) = take_bit k v"
  unfolding set_field_bits [OF assms] get_field_bits [OF assms]
  unfolding field_mask_def using assms by (intro bit_word_eqI) (auto simp: bit_simps)

lemma set_field_and:
  assumes "mk AND mk' = 0"
  shows "set_field r mk v AND mk' = r AND mk'"
proof -
  have d: "\<not> bit mk' i" if "bit mk i" for i using arg_cong [OF assms, of "\<lambda>w. bit w i"] that by (simp add: bit_and_iff)
  show ?thesis unfolding set_field_def
    by (rule bit_word_eqI) (auto simp: bit_and_iff bit_or_iff bit_not_iff dest: d)
qed

lemma get_set_field_other: "mk AND mk' = 0 \<Longrightarrow> get_field (set_field r mk v) mk' = get_field r mk'"
  unfolding get_field_def by (simp add: set_field_and)

section \<open>The machine status register\<close>

lemma and_0_iff: "a AND b = 0 \<longleftrightarrow> (\<forall>i. bit a i \<longrightarrow> \<not> bit b i)" for a b :: u64
proof
  assume "a AND b = 0"
  then have "bit (a AND b) i = False" for i by simp
  then show "\<forall>i. bit a i \<longrightarrow> \<not> bit b i" by (simp add: bit_and_iff)
next
  assume "\<forall>i. bit a i \<longrightarrow> \<not> bit b i"
  then show "a AND b = 0" by (intro bit_word_eqI) (simp add: bit_and_iff)
qed

lemma and_not_disjoint: "mk AND F = 0 \<Longrightarrow> NOT mk AND F = F" for F mk :: u64
  unfolding and_0_iff by (rule bit_word_eqI) (auto simp: bit_and_iff bit_not_iff)

lemma mstatus_field:
  "MSTATUS_MIE = field_mask 3 1" "MSTATUS_MPIE = field_mask 7 1" "MSTATUS_MPP = field_mask 11 2"
  "MSTATUS_SIE = field_mask 1 1" "MSTATUS_SPIE = field_mask 5 1" "MSTATUS_SPP = field_mask 8 1"
  "MSTATUS_FS = field_mask 13 2" "MSTATUS_UXL = field_mask 32 2" "MSTATUS_SXL = field_mask 34 2"
  "MSTATUS32_SD = field_mask 31 1" "MSTATUS64_SD = field_mask 63 1"
  by (simp_all add: field_mask_def mask_eq_exp_minus_1)

text \<open>A write in two steps: what is taken from the value, and the fields derived from it.\<close>

definition mstatus_core :: "u64 \<Rightarrow> hart \<Rightarrow> u64" where
  "mstatus_core v p =
     (set_field (mstatus p) MSTATUS_MPP (legalize_privilege (get_field v MSTATUS_MPP) p) AND NOT (mstatus_mask p))
     OR ((v AND mstatus_mask p) OR (if v AND MSTATUS_FS \<noteq> 0 then MSTATUS_FS else 0))"

definition dirty_state :: "u64 \<Rightarrow> bool" where
  "dirty_state s \<longleftrightarrow> s AND MSTATUS_FS = MSTATUS_FS \<or> s AND MSTATUS_XS = MSTATUS_XS \<or> s AND MSTATUS_VS = MSTATUS_VS"

lemma write_mstatus_core:
  "mstatus (write_mstatus v p) =
     (let s = mstatus_core v p;
          s = (if max_xlen (cfg p) = 32 then set_field s MSTATUS32_SD (of_bool (dirty_state s))
               else set_field s MSTATUS64_SD (of_bool (dirty_state s)));
          s = (if supports_extension ext_U p then set_field s MSTATUS_UXL (xlen_to_uxl (max_xlen (cfg p))) else s)
      in if supports_extension ext_S p then set_field s MSTATUS_SXL (xlen_to_uxl (max_xlen (cfg p))) else s)"
  unfolding write_mstatus_def mstatus_core_def dirty_state_def Let_def by simp

definition derived_mask :: u64 where
  "derived_mask = MSTATUS32_SD OR MSTATUS64_SD OR MSTATUS_UXL OR MSTATUS_SXL"

lemma and_disjoint: "mk AND NOT d = 0 \<Longrightarrow> d AND F = 0 \<Longrightarrow> mk AND F = 0" for mk d F :: u64
  unfolding and_0_iff bit_not_iff by (metis bit_imp_possible_bit)

lemma write_mstatus_and:
  assumes "derived_mask AND F = 0"
  shows "mstatus (write_mstatus v p) AND F = mstatus_core v p AND F"
proof -
  have n: "MSTATUS32_SD AND F = 0" "MSTATUS64_SD AND F = 0" "MSTATUS_UXL AND F = 0" "MSTATUS_SXL AND F = 0"
    by (rule and_disjoint [OF _ assms], simp add: derived_mask_def)+
  then show ?thesis unfolding write_mstatus_core Let_def by (auto simp: set_field_and)
qed

lemma mstatus_core_and:
  assumes "MSTATUS_MPP AND F = 0" "MSTATUS_FS AND F = 0"
  shows "mstatus_core v p AND F = (mstatus p AND NOT (mstatus_mask p) AND F) OR (v AND mstatus_mask p AND F)"
proof -
  have s: "(set_field m MSTATUS_MPP x AND NOT k) AND F = (m AND NOT k) AND F" for m x k
    using set_field_and [OF assms(1), of m x] by (metis (no_types, opaque_lifting) and.assoc and.commute)
  have o: "(a OR (b OR (if c then MSTATUS_FS else 0))) AND F = (a AND F) OR (b AND F)" for a b c
    using assms(2) by (simp add: bit.conj_disj_distrib2)
  show ?thesis unfolding mstatus_core_def o s by (simp only: and.assoc)
qed

lemma get_field_and: "get_field r mk = get_field (r AND mk) mk"
  by (simp add: get_field_def and.assoc)

text \<open>A field outside the derived ones: what is written where the field is writable, else what it was.\<close>

definition plain_field :: "u64 \<Rightarrow> bool" where
  "plain_field F \<longleftrightarrow> derived_mask AND F = 0 \<and> MSTATUS_MPP AND F = 0 \<and> MSTATUS_FS AND F = 0"

lemma plain_fields [simp]:
  "plain_field MSTATUS_MIE" "plain_field MSTATUS_MPIE" "plain_field MSTATUS_SIE" "plain_field MSTATUS_SPIE" "plain_field MSTATUS_SPP"
  by (simp_all add: plain_field_def derived_mask_def)

lemma and_complement: "mk AND F = F \<Longrightarrow> NOT mk AND F = 0" for F mk :: u64
proof -
  assume f: "mk AND F = F"
  have "NOT mk AND (mk AND F) = 0" by (simp add: and.assoc [symmetric])
  then show ?thesis unfolding f .
qed

lemma write_mstatus_field:
  assumes "plain_field F" "mstatus_mask p AND F = F"
  shows "get_field (mstatus (write_mstatus v p)) F = get_field v F"
proof -
  have "NOT (mstatus_mask p) AND F = 0" by (rule and_complement [OF assms(2)])
  then have "mstatus (write_mstatus v p) AND F = v AND F"
    using assms by (simp add: plain_field_def write_mstatus_and mstatus_core_and and.assoc)
  then show ?thesis by (metis get_field_and)
qed

lemma write_mstatus_fixed:
  assumes "plain_field F" "mstatus_mask p AND F = 0"
  shows "get_field (mstatus (write_mstatus v p)) F = get_field (mstatus p) F"
proof -
  have "NOT (mstatus_mask p) AND F = F"
    using assms(2) by (rule and_not_disjoint)
  then have "mstatus (write_mstatus v p) AND F = mstatus p AND F"
    using assms by (simp add: plain_field_def write_mstatus_and mstatus_core_and and.assoc)
  then show ?thesis by (metis get_field_and)
qed

lemma mstatus_mask_fields:
  "mstatus_mask p AND MSTATUS_MIE = MSTATUS_MIE" "mstatus_mask p AND MSTATUS_MPIE = MSTATUS_MPIE"
  "mstatus_mask p AND MSTATUS_SIE = (if supports_extension ext_S p then MSTATUS_SIE else 0)"
  "mstatus_mask p AND MSTATUS_SPIE = (if supports_extension ext_S p then MSTATUS_SPIE else 0)"
  "mstatus_mask p AND MSTATUS_SPP = (if supports_extension ext_S p then MSTATUS_SPP else 0)"
  "mstatus_mask p AND MSTATUS_MPP = 0" "mstatus_mask p AND MSTATUS32_SD = 0" "mstatus_mask p AND MSTATUS64_SD = 0"
  "mstatus_mask p AND MSTATUS_UXL = 0" "mstatus_mask p AND MSTATUS_SXL = 0"
  by (simp_all add: mstatus_mask_def Let_def bit.conj_disj_distrib2 if_distrib [of "\<lambda>w. w AND _"] cong: if_cong)

text \<open>The derived fields.\<close>

lemma legalize_bound: "legalize_privilege (get_field v MSTATUS_MPP) p < 4"
proof -
  have "get_field v MSTATUS_MPP = take_bit 2 (drop_bit 11 v)"
    unfolding mstatus_field by (rule get_field_bits) simp_all
  then have "get_field v MSTATUS_MPP < 4"
    by (simp add: take_bit_eq_mod mod_eq_0_iff_dvd unat_mod word_less_nat_alt)
  then show ?thesis by (simp add: legalize_privilege_def)
qed

lemma write_mstatus_MPP:
  "get_field (mstatus (write_mstatus v p)) MSTATUS_MPP = legalize_privilege (get_field v MSTATUS_MPP) p"
proof -
  let ?r = "legalize_privilege (get_field v MSTATUS_MPP) p"
  have m: "mstatus_mask p AND MSTATUS_MPP = 0" by (rule mstatus_mask_fields)
  then have n: "NOT (mstatus_mask p) AND MSTATUS_MPP = MSTATUS_MPP" by (rule and_not_disjoint)
  have "mstatus (write_mstatus v p) AND MSTATUS_MPP = mstatus_core v p AND MSTATUS_MPP"
    by (rule write_mstatus_and) (simp add: derived_mask_def)
  also have "\<dots> = set_field (mstatus p) MSTATUS_MPP ?r AND MSTATUS_MPP"
    using m n by (simp add: mstatus_core_def bit.conj_disj_distrib2 and.assoc)
  finally have "get_field (mstatus (write_mstatus v p)) MSTATUS_MPP = get_field (set_field (mstatus p) MSTATUS_MPP ?r) MSTATUS_MPP"
    by (metis get_field_and)
  also have "\<dots> = take_bit 2 ?r" unfolding mstatus_field by (rule get_set_field) simp_all
  also have "\<dots> = ?r" using legalize_bound [of v p] by (simp add: take_bit_eq_mod word_less_nat_alt word_arith_nat_mod)
  finally show ?thesis .
qed

text \<open>The invariant of the register: the floating-point state is off or dirty, \<open>SD\<close> summarises the dirty
  states, the previous mode exists, and the widths are those of the hart.\<close>

definition sd_mask :: "hart \<Rightarrow> u64" where
  "sd_mask p = (if max_xlen (cfg p) = 32 then MSTATUS32_SD else MSTATUS64_SD)"

definition mode_exists :: "u64 \<Rightarrow> hart \<Rightarrow> bool" where
  "mode_exists r p \<longleftrightarrow> r < 4 \<and> (supports_extension ext_U p \<or> r = PRV_M) \<and> (r = PRV_S \<longrightarrow> supports_extension ext_S p)"

definition mstatus_ok :: "hart \<Rightarrow> bool" where
  "mstatus_ok p \<longleftrightarrow>
     mstatus p AND MSTATUS_FS \<in> {0, MSTATUS_FS} \<and>
     (mstatus p AND sd_mask p \<noteq> 0) = dirty_state (mstatus p) \<and>
     mode_exists (get_field (mstatus p) MSTATUS_MPP) p \<and>
     (supports_extension ext_U p \<longrightarrow> get_field (mstatus p) MSTATUS_UXL = xlen_to_uxl (max_xlen (cfg p))) \<and>
     (supports_extension ext_S p \<longrightarrow> get_field (mstatus p) MSTATUS_SXL = xlen_to_uxl (max_xlen (cfg p)))"

lemma mode_exists_legalize: "r < 4 \<Longrightarrow> mode_exists (legalize_privilege r p) p"
  by (auto simp: mode_exists_def legalize_privilege_def)

lemma csr_field_bound: "0 < k \<Longrightarrow> n + k \<le> 64 \<Longrightarrow> unat (get_field r (field_mask n k)) < 2 ^ k"
  by (simp add: get_field_bits unsigned_take_bit_eq)

lemma MPP_bound: "get_field v MSTATUS_MPP < 4"
  unfolding mstatus_field using csr_field_bound [of 2 11 v] by (simp add: word_less_nat_alt)

lemma uxl_bound: "take_bit 2 (xlen_to_uxl n) = xlen_to_uxl n"
  by (simp add: xlen_to_uxl_def)

lemma write_mstatus_UXL:
  "supports_extension ext_U p \<Longrightarrow> get_field (mstatus (write_mstatus v p)) MSTATUS_UXL = xlen_to_uxl (max_xlen (cfg p))"
  "supports_extension ext_S p \<Longrightarrow> get_field (mstatus (write_mstatus v p)) MSTATUS_SXL = xlen_to_uxl (max_xlen (cfg p))"
proof -
  have g: "get_field (set_field s MSTATUS_UXL x) MSTATUS_UXL = take_bit 2 x" "get_field (set_field s MSTATUS_SXL x) MSTATUS_SXL = take_bit 2 x" for s x
    unfolding mstatus_field by (rule get_set_field; simp)+
  have d: "get_field (set_field s MSTATUS_SXL x) MSTATUS_UXL = get_field s MSTATUS_UXL" for s x
    by (rule get_set_field_other) simp
  show "supports_extension ext_U p \<Longrightarrow> get_field (mstatus (write_mstatus v p)) MSTATUS_UXL = xlen_to_uxl (max_xlen (cfg p))"
    unfolding write_mstatus_core Let_def using g d by (simp add: uxl_bound)
  show "supports_extension ext_S p \<Longrightarrow> get_field (mstatus (write_mstatus v p)) MSTATUS_SXL = xlen_to_uxl (max_xlen (cfg p))"
    unfolding write_mstatus_core Let_def using g by (simp add: uxl_bound)
qed

lemma dirty_state_and: "dirty_state (s AND (MSTATUS_FS OR MSTATUS_XS OR MSTATUS_VS)) = dirty_state s"
  by (simp add: dirty_state_def and.assoc)

lemma dirty_write_mstatus: "dirty_state (mstatus (write_mstatus v p)) = dirty_state (mstatus_core v p)"
  by (subst (1 2) dirty_state_and [symmetric]) (simp add: write_mstatus_and derived_mask_def)

lemma sd_write_mstatus: "(mstatus (write_mstatus v p) AND sd_mask p \<noteq> 0) = dirty_state (mstatus_core v p)"
proof -
  have d: "set_field s MSTATUS_UXL x AND sd_mask p = s AND sd_mask p" "set_field s MSTATUS_SXL x AND sd_mask p = s AND sd_mask p" for s x
    by (rule set_field_and; simp add: sd_mask_def)+
  have n: "r AND field_mask n 1 \<noteq> 0 \<longleftrightarrow> bit r n" if "n < 64" for r n
    unfolding field_mask_def and_0_iff using that by (auto simp: bit_simps)
  have "(set_field s (field_mask n 1) (of_bool b) AND field_mask n 1 \<noteq> 0) = b" if "n < 64" for s n b
    unfolding n [OF that] using that by (subst set_field_bits) (auto simp: bit_simps field_mask_def)
  from this [of 31] this [of 63]
  have s: "(set_field s MSTATUS32_SD (of_bool b) AND MSTATUS32_SD \<noteq> 0) = b" "(set_field s MSTATUS64_SD (of_bool b) AND MSTATUS64_SD \<noteq> 0) = b" for s b
    unfolding mstatus_field by simp_all
  have "mstatus (write_mstatus v p) AND sd_mask p = (let s = mstatus_core v p in
      (if max_xlen (cfg p) = 32 then set_field s MSTATUS32_SD (of_bool (dirty_state s)) else set_field s MSTATUS64_SD (of_bool (dirty_state s))) AND sd_mask p)"
    unfolding write_mstatus_core Let_def by (auto simp: d)
  then show ?thesis by (cases "max_xlen (cfg p) = 32") (simp_all only: sd_mask_def Let_def s if_True if_False simp_thms refl)
qed

lemma FS_write_mstatus:
  assumes "mstatus p AND MSTATUS_FS \<in> {0, MSTATUS_FS}"
  shows "mstatus (write_mstatus v p) AND MSTATUS_FS \<in> {0, MSTATUS_FS}"
proof -
  have m: "mstatus_mask p AND MSTATUS_FS \<in> {0, MSTATUS_FS}"
    by (simp add: mstatus_mask_def Let_def bit.conj_disj_distrib2 if_distrib [of "\<lambda>w. w AND _"] cong: if_cong)
  have c: "mstatus_core v p AND MSTATUS_FS = (mstatus p AND NOT (mstatus_mask p) AND MSTATUS_FS) OR (v AND mstatus_mask p AND MSTATUS_FS) OR (if v AND MSTATUS_FS \<noteq> 0 then MSTATUS_FS else 0)"
  proof -
    have "set_field m MSTATUS_MPP x AND NOT k AND MSTATUS_FS = m AND NOT k AND MSTATUS_FS" for m x k
      using set_field_and [of MSTATUS_MPP MSTATUS_FS m x] by (simp add: and.commute [of "NOT k"] and.assoc [symmetric])
    then show ?thesis by (simp add: mstatus_core_def bit.conj_disj_distrib2 and.assoc or.assoc)
  qed
  have o: "x AND NOT (mstatus_mask p) AND MSTATUS_FS \<in> {0, x AND MSTATUS_FS}" for x
    using m and_not_disjoint [of "mstatus_mask p" MSTATUS_FS] and_complement [of "mstatus_mask p" MSTATUS_FS] by auto
  have "mstatus (write_mstatus v p) AND MSTATUS_FS = mstatus_core v p AND MSTATUS_FS"
    by (rule write_mstatus_and) (simp add: derived_mask_def)
  then show ?thesis
    using c m o [of "mstatus p"] assms by (cases "v AND MSTATUS_FS = 0") (auto simp: and.assoc)
qed

lemma supports_write_mstatus [simp]: "supports_extension e (write_mstatus v p) = supports_extension e p"
  by (simp add: write_mstatus_def Let_def supports_extension_def)

lemma cfg_write_mstatus [simp]: "cfg (write_mstatus v p) = cfg p" "csr (write_mstatus v p) = csr p"
  "cur_xlen (write_mstatus v p) = max_xlen (cfg p)" "misa (write_mstatus v p) = misa p" "XPR (write_mstatus v p) = XPR p" "FPR (write_mstatus v p) = FPR p"
  "extension_table (write_mstatus v p) = extension_table p" "prv (write_mstatus v p) = prv p" "virt (write_mstatus v p) = virt p"
  by (simp_all add: write_mstatus_def Let_def)

lemma mstatus_ok_write:
  assumes "mstatus p AND MSTATUS_FS \<in> {0, MSTATUS_FS}"
  shows "mstatus_ok (write_mstatus v p)"
proof -
  have "mode_exists r (write_mstatus v p) = mode_exists r p" for r by (simp add: mode_exists_def)
  moreover have "sd_mask (write_mstatus v p) = sd_mask p" by (simp add: sd_mask_def)
  ultimately show ?thesis
    unfolding mstatus_ok_def
    using FS_write_mstatus [OF assms] sd_write_mstatus dirty_write_mstatus write_mstatus_UXL mode_exists_legalize [OF MPP_bound]
    by (simp add: write_mstatus_MPP)
qed

section \<open>The invariant of the system registers\<close>

text \<open>An entry of \<open>pmpcfg\<close>: not writable without being readable, no reserved bit, and no four-byte region
  when the granularity is coarser.\<close>

definition pmp_entry_ok :: "nat \<Rightarrow> u8 \<Rightarrow> bool" where
  "pmp_entry_ok g e \<longleftrightarrow> (bit e 1 \<longrightarrow> bit e 0) \<and> e AND 0x60 = 0 \<and> (g \<noteq> PMP_SHIFT \<longrightarrow> e AND PMP_A \<noteq> PMP_NA4)"

text \<open>All but the interrupts the code knows of.\<close>

definition unknown_ints :: u64 where "unknown_ints = NOT 0x1EEE"

definition csrs_ok :: "config \<Rightarrow> csrs \<Rightarrow> bool" where
  "csrs_ok g c \<longleftrightarrow>
     length (pmpcfg c) = max_pmp \<and> length (pmpaddr c) = max_pmp \<and>
     length (mcontrol c) = num_triggers \<and> length (tdata2 c) = num_triggers \<and> tselect c < of_nat num_triggers \<and>
     list_all (pmp_entry_ok (lg_pmp_granularity g)) (pmpcfg c) \<and>
     list_all (\<lambda>a. a < push_bit (MAX_PADDR_BITS - PMP_SHIFT) 1) (pmpaddr c) \<and>
     even (pc_reg c) \<and> even (mepc c) \<and> even (sepc c) \<and> even (vsepc c) \<and> even (dpc c) \<and>
     \<not> bit (mtvec c) 1 \<and> \<not> bit (stvec c) 1 \<and> \<not> bit (vstvec c) 1 \<and>
     mie c AND unknown_ints = 0 \<and> mideleg c AND unknown_ints = 0 \<and> dcsr_prv (dcsr c) < 4"

definition system_ok :: "hart \<Rightarrow> bool" where
  "system_ok p \<longleftrightarrow>
     max_xlen (cfg p) \<in> {32, 64} \<and> cur_xlen p = max_xlen (cfg p) \<and>
     mstatus_ok p \<and> csrs_ok (cfg p) (csr p) \<and> mode_exists (prv p) p"

lemma system_ok_call [simp]:
  "system_ok (call_mmu c p) = system_ok p" "mstatus_ok (call_mmu c p) = mstatus_ok p" "mode_exists r (call_mmu c p) = mode_exists r p"
  by (simp_all add: system_ok_def mstatus_ok_def sd_mask_def mode_exists_def)

lemma pmp_entry_ok_byte: "pmp_entry_ok (lg_pmp_granularity (cfg p)) (pmp_cfg_byte v k p)"
proof -
  have R: "x AND PMP_R \<noteq> 0 \<longleftrightarrow> bit x 0" for x :: u8
    by (simp add: bit_iff_odd and_one_eq odd_iff_mod_2_eq_one)
  have W: "bit (PMP_W :: u8) i \<longleftrightarrow> i = 1" for i
    by (cases i) (auto simp: bit_double_iff [of 1, simplified] bit_1_iff)
  define c where "c = (ucast (drop_bit (8 * k) v) AND (PMP_R OR PMP_W OR PMP_X OR PMP_A OR PMP_L) :: u8)"
  define d where "d = c AND (NOT PMP_W OR (if c AND PMP_R \<noteq> 0 then PMP_W else 0))"
  have d1: "bit d 1 \<longrightarrow> bit d 0"
    unfolding d_def R by (auto simp: bit_and_iff bit_or_iff bit_not_iff W split: if_splits)
  have c60: "c AND 0x60 = 0" by (simp add: c_def and.assoc)
  then have d60: "d AND 0x60 = 0"
  proof -
    have "d AND 0x60 = (c AND 0x60) AND (NOT PMP_W OR (if c AND PMP_R \<noteq> 0 then PMP_W else 0))"
      by (simp only: d_def ac_simps)
    then show ?thesis by (simp only: c60 bit.conj_zero_left)
  qed
  have e: "pmp_cfg_byte v k p = (if lg_pmp_granularity (cfg p) \<noteq> PMP_SHIFT \<and> d AND PMP_A = PMP_NA4 then d OR PMP_NAPOT else d)"
    by (simp add: pmp_cfg_byte_def Let_def c_def d_def)
  have n: "\<not> bit (PMP_NAPOT :: u8) 1"
    by simp
  show ?thesis
    unfolding e pmp_entry_ok_def using d1 d60 n
    by (auto simp: bit_or_iff bit.conj_disj_distrib2 split: if_splits)
qed

lemma list_all_update: "list_all P xs \<Longrightarrow> P x \<Longrightarrow> list_all P (xs[i := x])"
  by (induction xs arbitrary: i) (auto split: nat.splits)

lemma csrs_ok_entry: "csrs_ok (cfg p) (csr p) \<Longrightarrow> csrs_ok (cfg p) (csr (set_pmpcfg_entry v i0 i p))"
  by (auto simp: csrs_ok_def set_pmpcfg_entry_def intro!: list_all_update pmp_entry_ok_byte)

lemma cfg_set_pmpcfg_entry [simp]: "cfg (set_pmpcfg_entry v i0 i p) = cfg p"
  by (simp add: set_pmpcfg_entry_def)

lemma csrs_ok_set_pmpcfg:
  assumes "csrs_ok (cfg p) (csr p)"
  shows "csrs_ok (cfg p) (csr (set_pmpcfg n v p))"
proof -
  have "csrs_ok (cfg p) (csr (fold (set_pmpcfg_entry v i0) xs p))" for i0 xs
    using assms
  proof (induction xs arbitrary: p)
    case (Cons x xs)
    show ?case using Cons.IH [of "set_pmpcfg_entry v i0 x p"] csrs_ok_entry [OF Cons.prems] by simp
  qed simp
  then show ?thesis using assms by (simp add: set_pmpcfg_def Let_def)
qed

lemma csrs_ok_set_pmpaddr:
  assumes "csrs_ok (cfg p) (csr p)"
  shows "csrs_ok (cfg p) (csr (set_pmpaddr i v p))"
proof -
  have "v AND (push_bit (MAX_PADDR_BITS - PMP_SHIFT) 1 - 1) < push_bit (MAX_PADDR_BITS - PMP_SHIFT) 1"
  proof -
    have "v AND (push_bit (MAX_PADDR_BITS - PMP_SHIFT) 1 - 1) = take_bit 30 v" by (simp add: take_bit_eq_mask mask_eq_exp_minus_1)
    then show ?thesis by (simp add: word_less_nat_alt unsigned_take_bit_eq) (simp add: take_bit_eq_mod)
  qed
  then show ?thesis using assms by (auto simp: csrs_ok_def set_pmpaddr_def intro!: list_all_update)
qed

lemma mode_exists_csr [simp]: "mode_exists r (csr_update f p) = mode_exists r p"
  by (simp add: mode_exists_def supports_extension_def)

lemma mstatus_ok_csr [simp]: "mstatus_ok (csr_update f p) = mstatus_ok p"
  by (simp add: mstatus_ok_def sd_mask_def supports_extension_def)

lemma system_ok_csr: "system_ok p \<Longrightarrow> csrs_ok (cfg p) (f (csr p)) \<Longrightarrow> system_ok (csr_update f p)"
  by (simp add: system_ok_def)

lemma system_okD: "system_ok p \<Longrightarrow> csrs_ok (cfg p) (csr p)"
  by (simp add: system_ok_def)

lemma system_ok_write_mstatus:
  assumes "system_ok p"
  shows "system_ok (write_mstatus v p)"
proof -
  have "mstatus p AND MSTATUS_FS \<in> {0, MSTATUS_FS}" using assms by (simp add: system_ok_def mstatus_ok_def)
  then have "mstatus_ok (write_mstatus v p)" by (rule mstatus_ok_write)
  then show ?thesis using assms by (simp add: system_ok_def mode_exists_def)
qed

text \<open>Marking a state dirty.\<close>

lemma get_field_or: "d AND mk = 0 \<Longrightarrow> get_field (s OR d) mk = get_field s mk"
  by (simp add: get_field_def bit.conj_disj_distrib2)

lemma mstatus_ok_dirty:
  assumes "mstatus_ok p" "d AND NOT (MSTATUS_FS OR MSTATUS_VS) = 0"
    "d AND MSTATUS_FS \<in> {0, MSTATUS_FS}" "dirty_state (mstatus p OR d)"
  shows "mstatus_ok (p\<lparr>mstatus := mstatus p OR (d OR sd_mask p)\<rparr>)"
proof -
  let ?s = "mstatus p OR (d OR sd_mask p)"
  have z: "d AND mk = 0" if "(MSTATUS_FS OR MSTATUS_VS) AND mk = 0" for mk
    by (rule and_disjoint [OF assms(2) that])
  have sd: "sd_mask p AND mk = 0" if "(MSTATUS32_SD OR MSTATUS64_SD) AND mk = 0" for mk
    by (rule and_disjoint [OF _ that]) (simp add: sd_mask_def)
  have g: "get_field ?s mk = get_field (mstatus p) mk" if "(MSTATUS_FS OR MSTATUS_VS) AND mk = 0" "(MSTATUS32_SD OR MSTATUS64_SD) AND mk = 0" for mk
    using z [OF that(1)] sd [OF that(2)] by (intro get_field_or) (simp add: bit.conj_disj_distrib2)
  have "?s AND MSTATUS_FS = (mstatus p AND MSTATUS_FS) OR (d AND MSTATUS_FS)"
    using sd [of MSTATUS_FS] by (simp add: bit.conj_disj_distrib2)
  then have 1: "?s AND MSTATUS_FS \<in> {0, MSTATUS_FS}" using assms(1,3) by (auto simp: mstatus_ok_def)
  have "sd_mask p \<noteq> 0" by (simp add: sd_mask_def)
  then have 2: "?s AND sd_mask p \<noteq> 0" by (simp add: bit.conj_disj_distrib2 or_eq_0_iff)
  have "dirty_state (?s AND (MSTATUS_FS OR MSTATUS_XS OR MSTATUS_VS))"
  proof -
    have "?s AND (MSTATUS_FS OR MSTATUS_XS OR MSTATUS_VS) = (mstatus p OR d) AND (MSTATUS_FS OR MSTATUS_XS OR MSTATUS_VS)"
      using sd [of "MSTATUS_FS OR MSTATUS_XS OR MSTATUS_VS"] by (simp add: bit.conj_disj_distrib2 or.assoc)
    then show ?thesis using assms(4) dirty_state_and by simp
  qed
  then have 3: "dirty_state ?s" by (simp only: dirty_state_and)
  have 4: "sd_mask (p\<lparr>mstatus := ?s\<rparr>) = sd_mask p" "supports_extension e (p\<lparr>mstatus := ?s\<rparr>) = supports_extension e p"
    "mode_exists r (p\<lparr>mstatus := ?s\<rparr>) = mode_exists r p" for e r
    by (simp_all add: sd_mask_def supports_extension_def mode_exists_def)
  show ?thesis
    using assms(1) 1 2 3 g [of MSTATUS_MPP] g [of MSTATUS_UXL] g [of MSTATUS_SXL]
    unfolding mstatus_ok_def 4 by simp
qed

lemma system_ok_mstatus: "system_ok p \<Longrightarrow> mstatus_ok (p\<lparr>mstatus := s\<rparr>) \<Longrightarrow> system_ok (p\<lparr>mstatus := s\<rparr>)"
  by (simp add: system_ok_def mode_exists_def supports_extension_def)

lemma sd_mask_xlen: "system_ok p \<Longrightarrow> (if cur_xlen p = 64 then MSTATUS64_SD else MSTATUS32_SD) = sd_mask p"
  by (auto simp: system_ok_def sd_mask_def)

lemma system_ok_dirty_fp: "system_ok p \<Longrightarrow> system_ok (dirty_fp_state (cur_xlen p) p)"
  unfolding dirty_fp_state_def
  by (subst sd_mask_xlen, assumption, rule system_ok_mstatus, assumption, rule mstatus_ok_dirty)
    (simp_all add: system_ok_def dirty_state_def bit.conj_disj_distrib2)

lemma system_ok_dirty_vs: "system_ok p \<Longrightarrow> system_ok (dirty_vs_state (cur_xlen p) p)"
  unfolding dirty_vs_state_def
  by (subst sd_mask_xlen, assumption, rule system_ok_mstatus, assumption, rule mstatus_ok_dirty)
    (simp_all add: system_ok_def dirty_state_def bit.conj_disj_distrib2)

lemma system_ok_flags:
  "system_ok (p\<lparr>fflags := x\<rparr>) = system_ok p" "system_ok (p\<lparr>frm := y\<rparr>) = system_ok p"
  by (simp_all add: system_ok_def mstatus_ok_def sd_mask_def mode_exists_def supports_extension_def)

lemma system_ok_vu: "system_ok p \<Longrightarrow> system_ok (csr_update (VU_update f) p)"
  by (simp add: system_ok_def csrs_ok_def)

lemma masked_within:
  assumes "old AND c = 0" "m AND c = 0"
  shows "masked m old v AND c = 0"
proof -
  have "(old AND NOT m) AND c = (old AND c) AND NOT m" "(v AND m) AND c = (m AND c) AND v"
    by (simp_all only: ac_simps)
  then show ?thesis using assms by (simp add: masked_def bit.conj_disj_distrib2)
qed

lemma and_within: "old AND c = 0 \<Longrightarrow> (old AND m) AND c = 0" "old AND c = 0 \<Longrightarrow> (m AND old) AND c = 0" for old c m :: u64
  by (simp_all add: and.assoc and.left_commute [of m] and.left_commute [of _ m])

lemma or_within: "(a OR b) AND c = 0 \<longleftrightarrow> a AND c = 0 \<and> b AND c = 0" for a b c :: u64
  unfolding and_0_iff by (auto simp: bit_or_iff)

lemma ints_within: "all_ints p AND unknown_ints = 0" "delegable_ints p AND unknown_ints = 0"
  "MIP_VS_MASK AND unknown_ints = 0" "MIP_HS_MASK AND unknown_ints = 0"
  by (simp_all add: all_ints_def delegable_ints_def supervisor_ints_def hypervisor_ints_def unknown_ints_def or_within)

lemma system_ok_misa:
  assumes "system_ok p"
  shows "system_ok (write_misa v p)"
proof -
  let ?m = "(push_bit 12 1 OR push_bit 0 1 OR push_bit 5 1 OR push_bit 3 1 OR push_bit 2 1 OR push_bit 7 1) AND max_isa (cfg p) :: u64"
  have b: "bit ((x AND ?m) OR (y AND NOT ?m)) i = bit y i" if "i \<in> {18, 20}" for x y i
    using that by (auto simp: bit_and_iff bit_or_iff bit_not_iff bit_push_bit_iff bit_1_iff)
  have n: "drop_bit n w AND 1 \<noteq> 0 \<longleftrightarrow> bit w n" for n and w :: u64
    by (simp add: bit_iff_odd_drop_bit and_one_eq odd_iff_mod_2_eq_one)
  have "supports_extension e (p\<lparr>misa := (x AND ?m) OR (misa p AND NOT ?m)\<rparr>) = supports_extension e p" if "e = ext_S \<or> e = ext_U" for e x
    using that b [of 18] b [of 20] unfolding supports_extension_def n by auto
  then have s: "system_ok (p\<lparr>misa := (x AND ?m) OR (misa p AND NOT ?m)\<rparr>)" for x
    using assms by (simp add: system_ok_def mstatus_ok_def sd_mask_def mode_exists_def)
  show ?thesis
    unfolding write_misa_def Let_def using assms
    by (cases "v AND push_bit 2 1 = 0 \<and> pc_reg (csr p) AND 2 \<noteq> 0") (simp_all only: simp_thms if_True if_False, rule system_ok_csr [OF s], simp add: system_ok_def csrs_ok_def or_within and_within ints_within)
qed

lemma ucast_less_4: "x < 4 \<Longrightarrow> (ucast x :: u8) < 4" for x :: u64
  by (simp add: word_less_nat_alt unsigned_ucast_eq unsigned_take_bit_eq) (simp add: take_bit_eq_mod)

lemma system_ok_tdata:
  assumes "system_ok p"
  shows "system_ok (write_tdata1 v p)" "system_ok (write_tdata2 v p)" "system_ok (write_dcsr v p)"
proof -
  have "DCSR_PRV = field_mask 0 2" by (simp add: field_mask_def mask_eq_exp_minus_1)
  then have "get_field v DCSR_PRV < 4" using csr_field_bound [of 2 0 v] by (simp add: word_less_nat_alt)
  then show "system_ok (write_dcsr v p)"
    using assms by (simp add: system_ok_def csrs_ok_def write_dcsr_def ucast_less_4)
qed (use assms in \<open>simp_all add: system_ok_def csrs_ok_def write_tdata1_def write_tdata2_def Let_def\<close>)

text \<open>Everything the invariant reads besides the system registers.\<close>

definition non_csr :: "hart \<Rightarrow> u64 \<times> (nat \<Rightarrow> bool) \<times> u64 \<times> nat \<times> config \<times> u64" where
  "non_csr p = (misa p, extension_table p, prv p, cur_xlen p, cfg p, mstatus p)"

lemma system_ok_non_csr:
  assumes "non_csr q = non_csr p"
  shows "system_ok q \<longleftrightarrow> system_ok (csr_update (\<lambda>_. csr q) p)"
  using assms by (simp add: non_csr_def system_ok_def mstatus_ok_def sd_mask_def mode_exists_def supports_extension_def)

lemma non_csr_call [simp]: "non_csr (call_mmu c p) = non_csr p"
  by (simp add: non_csr_def)

lemma non_csr_set_pmpcfg_entry [simp]: "non_csr (set_pmpcfg_entry v i0 i p) = non_csr p"
  by (simp add: set_pmpcfg_entry_def non_csr_def)

lemma non_csr_set_pmpcfg: "non_csr (set_pmpcfg n v p) = non_csr p"
proof -
  have "non_csr (fold (set_pmpcfg_entry v i0) xs p) = non_csr p" for i0 xs
    by (induction xs arbitrary: p) simp_all
  then show ?thesis by (simp add: set_pmpcfg_def Let_def)
qed

lemma system_ok_pmp:
  assumes "system_ok p"
  shows "system_ok (set_pmpaddr i v p)" "system_ok (set_pmpcfg n v p)"
proof -
  show "system_ok (set_pmpcfg n v p)"
    unfolding system_ok_non_csr [OF non_csr_set_pmpcfg]
    by (rule system_ok_csr [OF assms], rule csrs_ok_set_pmpcfg [OF system_okD [OF assms]])
  have "non_csr (set_pmpaddr i v p) = non_csr p" by (simp add: set_pmpaddr_def non_csr_def)
  from system_ok_non_csr [OF this] show "system_ok (set_pmpaddr i v p)"
    using system_ok_csr [OF assms, of "\<lambda>_. csr (set_pmpaddr i v p)"] csrs_ok_set_pmpaddr [OF system_okD [OF assms]] by simp
qed

lemma even_clear [simp]: "even (v AND NOT 1)" "even (v AND - 2)" for v :: u64
  by (simp_all add: even_and_iff)

lemma tvec_clear [simp]: "\<not> bit (v AND NOT 2) 1" "\<not> bit (v AND - 3) (Suc 0)" for v :: u64
proof -
  have "v AND NOT 2 = v AND - 3" by simp
  moreover have "\<not> bit (- 3 :: u64) 1" by simp
  ultimately show "\<not> bit (v AND NOT 2) 1" "\<not> bit (v AND - 3) (Suc 0)" by (simp_all add: bit_and_iff)
qed

lemma even_epc_value [simp]: "even (epc_value v)"
  by (simp add: epc_value_def Let_def even_or_iff even_and_iff)

lemma csrs_ok_vu [simp]: "csrs_ok g (c\<lparr>VU := u\<rparr>) = csrs_ok g c"
  by (simp add: csrs_ok_def)

lemma set_csr_switch_ok:
  assumes "system_ok p"
  shows "returns system_ok (set_csr_switch which v p)"
  unfolding set_csr_switch_def
  by (intro returns_if; simp add: assms system_ok_flags system_ok_dirty_fp system_ok_dirty_vs system_ok_vu
      system_ok_write_mstatus system_ok_misa system_ok_tdata; intro system_ok_csr assms impI;
      use system_okD [OF assms] in \<open>simp add: csrs_ok_def masked_within and_within ints_within\<close>)

lemma set_csr_ok: "system_ok p \<Longrightarrow> returns system_ok (set_csr which v p)"
  unfolding set_csr_def Let_def
  by (intro returns_if set_csr_switch_ok; simp add: system_ok_pmp)

end
