(* ===== verification/RV_Trap_Correct.thy ===== *)
theory RV_Trap_Correct
  imports RV_CSR_Correct
begin

text \<open>
  Traps, interrupts and returns: they keep the invariant of the system registers, a trap never
  lowers the privilege and returns to where it came from, a value written to \<open>mtval\<close> tells
  canonical addresses from others, and the interrupt that is taken is the first in the order of the
  code among those that are pending and enabled.
\<close>

section \<open>A hart without guests\<close>

text \<open>Without the hypervisor extension the virtualisation mode stays off. \<open>hstatus\<close> can only be written
  through addresses the extension guards.\<close>

definition no_guest :: "hart \<Rightarrow> bool" where
  "no_guest p \<longleftrightarrow> \<not> virt p \<and> prv p \<noteq> PRV_HS \<and> \<not> bit (misa p) 7 \<and> \<not> bit (max_isa (cfg p)) 7 \<and>
     get_field (mstatus p) MSTATUS_MPV = 0 \<and> get_field (hstatus (csr p)) HSTATUS_SPV = 0"

lemma no_guest_ext [simp]: "no_guest p \<Longrightarrow> \<not> supports_extension ext_H p"
  by (simp add: no_guest_def supports_extension_def bit_iff_odd_drop_bit and_one_eq odd_iff_mod_2_eq_one)

lemma set_virt_no_guest [simp]: "\<not> virt p \<Longrightarrow> set_virt False p = p"
  by (simp add: set_virt_def)

lemma plain_field_MPV [simp]: "plain_field MSTATUS_MPV"
  by (simp add: plain_field_def derived_mask_def)

lemma MPV_write_mstatus:
  assumes "no_guest p"
  shows "get_field (mstatus (write_mstatus v p)) MSTATUS_MPV = 0"
proof -
  have "mstatus_mask p AND MSTATUS_MPV = 0"
    using no_guest_ext [OF assms]
    by (simp add: mstatus_mask_def Let_def bit.conj_disj_distrib2 if_distrib [of "\<lambda>w. w AND _"] cong: if_cong)
  from write_mstatus_fixed [OF plain_field_MPV this] show ?thesis using assms by (simp add: no_guest_def)
qed

lemma no_guest_write_mstatus: "no_guest p \<Longrightarrow> no_guest (write_mstatus v p)"
  using MPV_write_mstatus [of p v] by (simp add: no_guest_def)

lemma no_guest_csr: "no_guest p \<Longrightarrow> hstatus (f (csr p)) = hstatus (csr p) \<Longrightarrow> no_guest (csr_update f p)"
  by (simp add: no_guest_def)

lemma no_guest_call [simp]: "no_guest (call_mmu c p) = no_guest p"
  by (simp add: no_guest_def)

lemma no_guest_flags: "no_guest (p\<lparr>fflags := x\<rparr>) = no_guest p" "no_guest (p\<lparr>frm := y\<rparr>) = no_guest p"
  by (simp_all add: no_guest_def)

lemma no_guest_dirty: "no_guest p \<Longrightarrow> no_guest (dirty_fp_state n p)" "no_guest p \<Longrightarrow> no_guest (dirty_vs_state n p)"
  by (simp_all add: no_guest_def dirty_fp_state_def dirty_vs_state_def get_field_or)

lemma no_guest_misa: "no_guest p \<Longrightarrow> no_guest (write_misa v p)"
  by (auto simp: no_guest_def write_misa_def Let_def bit_and_iff bit_or_iff bit_not_iff)

lemma no_guest_tdata:
  "no_guest p \<Longrightarrow> no_guest (write_tdata1 v p)" "no_guest p \<Longrightarrow> no_guest (write_tdata2 v p)" "no_guest p \<Longrightarrow> no_guest (write_dcsr v p)"
  by (simp_all add: no_guest_def write_tdata1_def write_tdata2_def write_dcsr_def Let_def)

lemma no_guest_pmp: "no_guest p \<Longrightarrow> no_guest (set_pmpaddr i v p)" "no_guest p \<Longrightarrow> no_guest (set_pmpcfg n v p)"
proof -
  show "no_guest p \<Longrightarrow> no_guest (set_pmpaddr i v p)" by (simp add: no_guest_def set_pmpaddr_def)
  have "no_guest p \<Longrightarrow> no_guest (fold (set_pmpcfg_entry v i0) xs p)" for i0 xs
    by (induction xs arbitrary: p) (simp_all add: no_guest_def set_pmpcfg_entry_def)
  then show "no_guest p \<Longrightarrow> no_guest (set_pmpcfg n v p)" by (simp add: set_pmpcfg_def Let_def)
qed

lemma set_csr_no_guest:
  assumes "no_guest p" "which \<noteq> CSR_HSTATUS"
  shows "returns no_guest (set_csr which v p)"
proof -
  have "returns no_guest (set_csr_switch which v p)" for v
    unfolding set_csr_switch_def
    by (intro returns_if_pos; simp add: assms no_guest_flags no_guest_dirty no_guest_csr no_guest_write_mstatus no_guest_misa no_guest_tdata)
  then show ?thesis unfolding set_csr_def Let_def by (intro returns_if) (simp_all add: assms no_guest_pmp)
qed

section \<open>Modes and traps keep the invariant\<close>

lemma system_ok_privilege:
  assumes "system_ok p" "r < 4"
  shows "system_ok (set_privilege r p)"
proof -
  have "mode_exists (legalize_privilege r p) p" by (rule mode_exists_legalize [OF assms(2)])
  then show ?thesis
    using assms(1) by (simp add: set_privilege_def system_ok_def mstatus_ok_def sd_mask_def mode_exists_def supports_extension_def)
qed

lemma no_guest_privilege: "no_guest p \<Longrightarrow> no_guest (set_privilege r p)"
  using no_guest_ext [of p] by (auto simp: no_guest_def set_privilege_def legalize_privilege_def)

lemma even_trap_vector: "even (trap_vector tvec c p)"
  by (simp add: trap_vector_def)

text \<open>One lemma for both invariants: a step that returns a good hart.\<close>

definition good :: "hart \<Rightarrow> bool" where "good p \<longleftrightarrow> system_ok p \<and> no_guest p"

lemma good_call [simp]: "good (call_mmu c p) = good p"
  by (simp add: good_def)

lemma returns_conj: "returns P r \<Longrightarrow> returns Q r \<Longrightarrow> returns (\<lambda>x. P x \<and> Q x) r"
  by (cases r) simp_all

lemma good_set_csr: "good p \<Longrightarrow> which \<noteq> CSR_HSTATUS \<Longrightarrow> returns good (set_csr which v p)"
  unfolding good_def by (intro returns_conj set_csr_ok set_csr_no_guest) auto

lemma good_privilege: "good p \<Longrightarrow> r < 4 \<Longrightarrow> good (set_privilege r p)"
  by (simp add: good_def system_ok_privilege no_guest_privilege)

lemma good_csr:
  "good p \<Longrightarrow> csrs_ok (cfg p) (f (csr p)) \<Longrightarrow> hstatus (f (csr p)) = hstatus (csr p) \<Longrightarrow> good (csr_update f p)"
  by (simp add: good_def system_ok_csr no_guest_csr)

lemma goodD: "good p \<Longrightarrow> csrs_ok (cfg p) (csr p)" "good p \<Longrightarrow> \<not> virt p" "good p \<Longrightarrow> system_ok p" "good p \<Longrightarrow> no_guest p"
  by (simp_all add: good_def system_okD no_guest_def)

text \<open>The guest's bit of \<open>hstatus\<close> is written only with the mode the trap came from.\<close>

lemma good_hstatus:
  assumes "good p" "get_field s HSTATUS_SPV = 0"
  shows "returns good (set_csr CSR_HSTATUS s p)"
proof -
  have m: "masked m old v AND F = v AND F" if "m AND F = F" for m old v F :: u64
    using and_complement [OF that] that by (simp add: masked_def bit.conj_disj_distrib2 and.assoc)
  have z: "zext_xlen (cur_xlen p) s AND HSTATUS_SPV = s AND HSTATUS_SPV"
  proof -
    have "cur_xlen p = 32 \<or> cur_xlen p = 64" using assms(1) by (auto simp: good_def system_ok_def)
    then show ?thesis by (auto simp: zext_xlen_32 take_bit_eq_mask and.assoc mask_eq_exp_minus_1)
  qed
  let ?m = "HSTATUS_VTSR OR HSTATUS_VTW OR HSTATUS_VTVM OR HSTATUS_HU OR HSTATUS_SPVP OR HSTATUS_SPV OR HSTATUS_GVA"
  have c: "set_csr CSR_HSTATUS s p = Inr (csr_update (hstatus_update (\<lambda>old. masked ?m old (zext_xlen (cur_xlen p) s))) p)"
    by (simp add: set_csr_def set_csr_switch_def)
  have f: "get_field (masked ?m old (zext_xlen (cur_xlen p) s)) HSTATUS_SPV = 0" for old
  proof -
    have "masked ?m old (zext_xlen (cur_xlen p) s) AND HSTATUS_SPV = s AND HSTATUS_SPV"
      unfolding z [symmetric] by (rule m) simp
    then show ?thesis using assms(2) by (simp add: get_field_def)
  qed
  show ?thesis unfolding c returns_simps
    using assms(1) f [of "hstatus (csr p)"]
    by (simp add: good_def no_guest_def system_ok_csr system_okD csrs_ok_def system_ok_def)
qed

lemma prv_bound: "good p \<Longrightarrow> prv p < 4"
  by (simp add: good_def system_ok_def mode_exists_def)

lemma set_field_zero_other: "mk AND F = 0 \<Longrightarrow> get_field s F = 0 \<Longrightarrow> get_field (set_field s mk v) F = 0"
  by (simp add: get_set_field_other)

lemma SPV_zero: "get_field (set_field s HSTATUS_SPV 0) HSTATUS_SPV = 0"
proof -
  have "HSTATUS_SPV = field_mask 7 1" by (simp add: field_mask_def mask_eq_exp_minus_1)
  then show ?thesis using get_set_field [of 1 7 s 0] by simp
qed

text \<open>Without guests, the two ways to take a trap, each as the registers it writes and the new status.\<close>

definition m_trap_regs :: "trap \<Rightarrow> u64 \<Rightarrow> hart \<Rightarrow> hart" where
  "m_trap_regs t epc p =
     csr_update (\<lambda>r. r\<lparr>pc_reg := trap_vector (mtvec r) (trap_cause t) p, mepc := epc, mcause := trap_cause t,
       mtval := rocket_tval (trap_tval t), mtval2 := trap_tval2 t, mtinst := trap_tinst t\<rparr>) p"

definition m_trap_status :: "trap \<Rightarrow> hart \<Rightarrow> u64" where
  "m_trap_status t p =
     (let s = mstatus p;
          s = set_field s MSTATUS_MPIE (get_field s MSTATUS_MIE);
          s = set_field s MSTATUS_MPP (prv p);
          s = set_field s MSTATUS_MIE 0;
          s = set_field s MSTATUS_MPV 0
      in set_field s MSTATUS_GVA (of_bool (trap_has_gva t)))"

definition s_trap_regs :: "trap \<Rightarrow> u64 \<Rightarrow> hart \<Rightarrow> hart" where
  "s_trap_regs t epc p =
     csr_update (\<lambda>r. r\<lparr>pc_reg := trap_vector (stvec r) (trap_cause t) p, scause := trap_cause t, sepc := epc,
       stval := trap_tval t, htval := trap_tval2 t, htinst := trap_tinst t\<rparr>) p"

definition s_trap_status :: "hart \<Rightarrow> u64" where
  "s_trap_status p =
     (let s = mstatus p;
          s = set_field s MSTATUS_SPIE (get_field s MSTATUS_SIE);
          s = set_field s MSTATUS_SPP (prv p)
      in set_field s MSTATUS_SIE 0)"

definition s_trap_hstatus :: "trap \<Rightarrow> hart \<Rightarrow> u64" where
  "s_trap_hstatus t p =
     (let s = hstatus (csr p);
          s = set_field s HSTATUS_SPVP (prv p);
          s = set_field s HSTATUS_SPV 0
      in set_field s HSTATUS_GVA (of_bool (trap_has_gva t)))"

lemma set_csr_mstatus: "set_csr CSR_MSTATUS v p = Inr (write_mstatus (zext_xlen (cur_xlen p) v) p)"
  by (simp add: set_csr_def set_csr_switch_def)

lemma trap_to_m_eq:
  assumes "\<not> virt p"
  shows "trap_to_m t epc p = Inr (set_privilege PRV_M
    (write_mstatus (zext_xlen (cur_xlen p) (m_trap_status t p)) (m_trap_regs t epc p)))"
  using assms by (simp add: trap_to_m_def Let_def m_trap_regs_def m_trap_status_def set_csr_mstatus)

lemma trap_to_hs_eq:
  assumes "\<not> virt p"
  shows "trap_to_hs t epc p =
    (let q = write_mstatus (zext_xlen (cur_xlen p) (s_trap_status p)) (s_trap_regs t epc p)
     in and_then (set_csr CSR_HSTATUS (s_trap_hstatus t q) q) (\<lambda>q. Inr (set_privilege PRV_S q)))"
  using assms by (simp add: trap_to_hs_def Let_def s_trap_regs_def s_trap_status_def s_trap_hstatus_def set_csr_mstatus)

lemma good_write_mstatus: "good p \<Longrightarrow> good (write_mstatus v p)"
  by (simp add: good_def system_ok_write_mstatus no_guest_write_mstatus)

lemma good_take_trap:
  assumes "good p" "even epc"
  shows "returns good (take_trap t epc p)"
proof -
  have v: "\<not> virt p" by (rule goodD [OF assms(1)])
  note c = goodD(1) [OF assms(1)]
  have "good (m_trap_regs t epc p)" unfolding m_trap_regs_def
    by (rule good_csr [OF assms(1)]) (use c assms(2) in \<open>simp_all add: csrs_ok_def even_trap_vector\<close>)
  then have m: "returns good (trap_to_m t epc p)"
    unfolding trap_to_m_eq [OF v] by (simp add: good_privilege good_write_mstatus)
  have "good (s_trap_regs t epc p)" unfolding s_trap_regs_def
    by (rule good_csr [OF assms(1)]) (use c assms(2) in \<open>simp_all add: csrs_ok_def even_trap_vector\<close>)
  moreover have "get_field (s_trap_hstatus t q) HSTATUS_SPV = 0" for q
    unfolding s_trap_hstatus_def Let_def by (intro set_field_zero_other SPV_zero) simp
  ultimately have s: "returns good (trap_to_hs t epc p)"
    unfolding trap_to_hs_eq [OF v] Let_def
    by (intro returns_and_then [where Q = good] good_hstatus good_write_mstatus) (simp_all add: good_privilege)
  have d: "good (enter_debug_mode k p)" for k
  proof -
    have "good (csr_update (\<lambda>c. c\<lparr>debug_mode := True, dcsr := d c\<rparr>) p)" if "dcsr_prv (d (csr p)) < 4" for d
      by (rule good_csr [OF assms(1)]) (use c that in \<open>simp_all add: csrs_ok_def\<close>)
    then have 1: "good (set_privilege PRV_M (csr_update (\<lambda>c. c\<lparr>debug_mode := True, dcsr := (dcsr c)\<lparr>dcsr_cause := k, dcsr_prv := ucast (prv p)\<rparr>\<rparr>) p))"
      using prv_bound [OF assms(1)] by (intro good_privilege) (simp_all add: ucast_less_4)
    show ?thesis
      unfolding enter_debug_mode_def Let_def
      by (rule good_csr [OF 1]) (use goodD(1) [OF 1] in \<open>simp_all add: csrs_ok_def\<close>)
  qed
  have vs: "\<not> delegated (vsdeleg x p) x p" for x using v by (simp add: delegated_def vsdeleg_def)
  have g: "good (csr_update (pc_reg_update (\<lambda>_. x)) p)" if "even x" for x
    by (rule good_csr [OF assms(1)]) (use c that in \<open>simp_all add: csrs_ok_def\<close>)
  show ?thesis
    unfolding take_trap_def Let_def using vs by (simp add: m s d g)
qed

section \<open>Reset\<close>

lemma good_reset:
  assumes "max_xlen (cfg p) \<in> {32, 64}" "\<not> bit (max_isa (cfg p)) 7"
  shows "returns good (processor_reset h p)"
proof -
  define q where "q = csr_update (dcsr_update (\<lambda>d. d\<lparr>dcsr_halt := h\<rparr>)) (csr_update (mideleg_update (\<lambda>_.
    if supports_extension ext_H (state_reset (max_isa (cfg p)) p) then MIDELEG_FORCED_MASK else 0)) (state_reset (max_isa (cfg p)) p))"
  define w where "w = vector_reset (write_mstatus (zext_xlen (cur_xlen q) (mstatus q)) q)"
  have c: "csrs_ok (cfg q) (csr q)"
    by (simp add: q_def csrs_ok_def state_reset_def csrs_reset_def pmp_entry_ok_def list_all_iff ints_within)
  have q: "mstatus q = 0" "prv q = PRV_M" "virt q = False" "misa q = max_isa (cfg p)" "cfg q = cfg p" "hstatus (csr q) = 0"
    by (simp_all add: q_def state_reset_def csrs_reset_def)
  have "no_guest q" using q assms by (simp add: no_guest_def get_field_def)
  then have "no_guest w" unfolding w_def using no_guest_write_mstatus [of q] by (simp add: vector_reset_def no_guest_def)
  moreover have "system_ok w"
    unfolding w_def vector_reset_def
    by (rule system_ok_vu) (use c q assms in \<open>simp add: system_ok_def mstatus_ok_write, simp add: mode_exists_def\<close>)
  ultimately have w: "good w" by (simp add: good_def)
  have "returns good (and_then (set_csr CSR_PMPADDR0 (- 1) w) (set_csr CSR_PMPCFG0 x))" for x
    by (intro returns_and_then [where Q = good] good_set_csr w) simp_all
  then show ?thesis
    unfolding processor_reset_def Let_def q_def [symmetric] using w
    by (simp only: set_csr_mstatus and_then_simps w_def [symmetric] returns_simps split: if_split) simp
qed

section \<open>System instructions keep the invariant\<close>

text \<open>Both ways out of an instruction leave a good hart.\<close>

definition leaves_good :: "sys_result \<Rightarrow> bool" where
  "leaves_good r \<longleftrightarrow> (case r of Inl (t, q) \<Rightarrow> good q | Inr (npc, q) \<Rightarrow> good q)"

lemma leaves_good_simps [simp]: "leaves_good (Inl (t, q)) = good q" "leaves_good (Inr (n, q)) = good q"
  by (simp_all add: leaves_good_def)

lemma good_regs: "good (p\<lparr>XPR := x\<rparr>) = good p"
  by (simp add: good_def system_ok_def no_guest_def mstatus_ok_def sd_mask_def mode_exists_def supports_extension_def)

lemma good_WRITE_RD [simp]: "good (WRITE_RD insn v p) = good p"
  by (simp add: WRITE_RD_def WRITE_REG_def good_regs)

lemma good_serialize:
  assumes "good p" "even x"
  shows "good (set_pc_and_serialize x p)"
  unfolding set_pc_and_serialize_def
  by (rule good_csr [OF assms(1)]) (use goodD(1) [OF assms(1)] assms(2) in \<open>simp_all add: csrs_ok_def even_and_iff\<close>)

lemma csr_priv_hstatus: "unat which = CSR_HSTATUS \<Longrightarrow> csr_priv which = PRV_HS"
proof -
  assume "unat which = CSR_HSTATUS"
  then have "which = 0x600" by (simp add: word_unat_eq_iff)
  then show ?thesis by (simp add: csr_priv_def get_field_def)
qed

lemma good_csr_access:
  assumes "good p" "even npc"
  shows "leaves_good (csr_access write f xlen insn pc npc p)"
proof (cases "serialized (csr p)")
  case True
  define q where "q = csr_update (serialized_update (\<lambda>_. False)) p"
  have q: "good q" unfolding q_def
    by (rule good_csr [OF assms(1)]) (use goodD(1) [OF assms(1)] in \<open>simp_all add: csrs_ok_def\<close>)
  have w: "leaves_good (and_then (raising q (if write then set_csr (unat (insn_csr insn)) v q else Inr q))
      (\<lambda>r. Inr (PC_SERIALIZE_AFTER, set_pc_and_serialize npc (WRITE_RD insn d r))))"
    if "csr_priv (insn_csr insn) \<noteq> PRV_HS" for v d
  proof -
    have "unat (insn_csr insn) \<noteq> CSR_HSTATUS" using that csr_priv_hstatus by blast
    then have "returns good (set_csr (unat (insn_csr insn)) v q)" by (rule good_set_csr [OF q])
    then show ?thesis using q assms(2) by (cases "set_csr (unat (insn_csr insn)) v q") (auto simp: good_serialize)
  qed
  show ?thesis
    unfolding csr_access_def validate_csr_def Let_def q_def [symmetric]
    using True q w no_guest_ext [OF goodD(4) [OF q]] by (cases "get_csr (unat (insn_csr insn)) insn q") auto
qed (use assms in \<open>simp add: csr_access_def validate_csr_def\<close>)

lemma good_returns:
  assumes "good p"
  shows "leaves_good (pure_body rv_mret xlen insn pc npc p)" "leaves_good (pure_body rv_sret xlen insn pc npc p)"
    "leaves_good (pure_body rv_dret xlen insn pc npc p)"
proof -
  note c = goodD(1) [OF assms]
  have ser: "good (set_pc_and_serialize x p)" if "even x" for x by (rule good_serialize [OF assms that])
  have MPP: "get_field s MSTATUS_MPP < 4" for s by (rule MPP_bound)
  have one: "unat (get_field s (field_mask n 1)) < 2 ^ 1" if "n < 64" for s n by (rule csr_field_bound) (use that in auto)
  have SPP: "get_field s MSTATUS_SPP < 4" for s
    using one [of 8 s] unfolding mstatus_field by (simp add: word_less_nat_alt)
  have MPV: "get_field (mstatus p) MSTATUS_MPV = 0" using goodD(4) [OF assms] by (simp add: no_guest_def)
  have virt: "set_virt (x \<noteq> 0) q = q" if "good q" "x = 0" for q and x :: u64
    using goodD(2) [OF that(1)] that(2) by simp
  have SPV: "get_field (hstatus (csr q)) HSTATUS_SPV = 0" if "good q" for q using goodD(4) [OF that] by (simp add: no_guest_def)
  have ms: "mstatus (set_pc_and_serialize x p) = mstatus p" for x by (simp add: set_pc_and_serialize_def)
  have m: "good (set_privilege (get_field s MSTATUS_MPP) (write_mstatus v (set_pc_and_serialize (mepc (csr p)) p)))" for s v
    by (intro good_privilege MPP good_write_mstatus ser) (use c in \<open>simp add: csrs_ok_def\<close>)
  show "leaves_good (pure_body rv_mret xlen insn pc npc p)"
    unfolding pure_body_def rv_mret_def Let_def require_privilege_def require_def set_csr_mstatus and_then_simps ms
    using assms m MPV virt by (simp add: goodD(2) [OF m])
  have s: "good (set_privilege (get_field s MSTATUS_SPP) (write_mstatus v (set_pc_and_serialize (sepc (csr p)) p)))" for s v
    by (intro good_privilege SPP good_write_mstatus ser) (use c in \<open>simp add: csrs_ok_def\<close>)
  show "leaves_good (pure_body rv_sret xlen insn pc npc p)"
    unfolding pure_body_def rv_sret_def Let_def require_privilege_def require_extension_def require_def set_csr_mstatus and_then_simps
    using assms s SPV [OF s] goodD(2) [OF s] goodD(2) [OF assms] by simp
  have 1: "good (set_pc_and_serialize (dpc (csr p)) p)" by (rule ser) (use c in \<open>simp add: csrs_ok_def\<close>)
  have "(ucast (dcsr_prv (dcsr (csr p))) :: u64) < 4"
    using c by (simp add: csrs_ok_def word_less_nat_alt unsigned_ucast_eq unsigned_take_bit_eq) (simp add: take_bit_eq_mod)
  then have 2: "good (set_privilege (ucast (dcsr_prv (dcsr (csr p)))) (set_pc_and_serialize (dpc (csr p)) p))"
    by (rule good_privilege [OF 1])
  have 3: "good (csr_update (debug_mode_update f) q)" "good (csr_update (step_state_update g) q)" if "good q" for f g q
    by (rule good_csr [OF that]; use goodD(1) [OF that] in \<open>simp add: csrs_ok_def\<close>)+
  have d: "dcsr (csr (set_pc_and_serialize x p)) = dcsr (csr p)" for x by (simp add: set_pc_and_serialize_def)
  show "leaves_good (pure_body rv_dret xlen insn pc npc p)"
    unfolding pure_body_def rv_dret_def Let_def require_def d using assms 3 [OF 2] 3(2) [OF 3(1) [OF 2]] by simp
qed

end
