(* ===== verification/RV_System_Props.thy ===== *)
theory RV_System_Props
  imports RV_Trap_Correct
begin

text \<open>
  The properties of the system registers and of traps, on top of the invariants: what a trap saves is
  what a return restores, where traps go, which interrupt is taken, who may access a register, and
  which writes the physical memory protection ignores.
\<close>

section \<open>Status fields through a write\<close>

lemma zext_and: "xlen \<in> {32, 64} \<Longrightarrow> F AND NOT (mask 32) = 0 \<Longrightarrow> zext_xlen xlen v AND F = v AND F"
proof -
  assume F: "F AND NOT (mask 32) = 0" and x: "xlen \<in> {32, 64}"
  have "bit F i \<Longrightarrow> i < 32" for i
    using F bit_imp_le_length [of F i] unfolding and_0_iff by (auto simp: bit_not_iff bit_mask_iff)
  then have "take_bit 32 v AND F = v AND F" by (intro bit_word_eqI) (auto simp: bit_simps)
  then show ?thesis using x by (auto simp: zext_xlen_32)
qed

lemma get_field_zext: "xlen \<in> {32, 64} \<Longrightarrow> F AND NOT (mask 32) = 0 \<Longrightarrow> get_field (zext_xlen xlen v) F = get_field v F"
  by (simp add: get_field_def zext_and)

lemma write_mstatus_same:
  assumes "plain_field F" "v AND F = mstatus p AND F"
  shows "mstatus (write_mstatus v p) AND F = mstatus p AND F"
proof -
  have "v AND mstatus_mask p AND F = mstatus_mask p AND (v AND F)" by (simp only: ac_simps)
  then have v: "v AND mstatus_mask p AND F = mstatus_mask p AND mstatus p AND F" by (simp only: assms(2))
  have "(m AND NOT k AND F) OR (k AND m AND F) = m AND F" for m k :: u64
    by (rule bit_word_eqI) (auto simp: bit_and_iff bit_or_iff bit_not_iff)
  then show ?thesis
    using assms(1) by (simp add: plain_field_def write_mstatus_and mstatus_core_and v)
qed

lemma FS_write_same:
  assumes "mstatus_ok p" "v AND MSTATUS_FS = mstatus p AND MSTATUS_FS"
  shows "mstatus (write_mstatus v p) AND MSTATUS_FS = mstatus p AND MSTATUS_FS"
proof -
  have *: "((a AND NOT k) OR ((v AND k) OR (if c then F else 0))) AND F = (a AND F AND NOT k) OR (v AND F AND k) OR (if c then F else 0)"
    for a k v F :: u64 and c
    by (rule bit_word_eqI) (auto simp: bit_and_iff bit_or_iff bit_not_iff)
  have s: "set_field m MSTATUS_MPP x AND MSTATUS_FS = m AND MSTATUS_FS" for m x by (rule set_field_and) simp
  have "mstatus (write_mstatus v p) AND MSTATUS_FS = mstatus_core v p AND MSTATUS_FS"
    by (rule write_mstatus_and) (simp add: derived_mask_def)
  also have "\<dots> = (set_field (mstatus p) MSTATUS_MPP (legalize_privilege (get_field v MSTATUS_MPP) p) AND MSTATUS_FS AND NOT (mstatus_mask p))
      OR (v AND MSTATUS_FS AND mstatus_mask p) OR (if v AND MSTATUS_FS \<noteq> 0 then MSTATUS_FS else 0)"
    unfolding mstatus_core_def by (rule *)
  also have "\<dots> = mstatus p AND MSTATUS_FS"
    unfolding s and.assoc [symmetric] assms(2)
  proof -
    have "(mstatus p AND MSTATUS_FS) \<in> {0, MSTATUS_FS}" using assms(1) by (simp add: mstatus_ok_def)
    then show "((mstatus p AND MSTATUS_FS) AND NOT (mstatus_mask p)) OR ((mstatus p AND MSTATUS_FS) AND mstatus_mask p) OR
        (if mstatus p AND MSTATUS_FS \<noteq> 0 then MSTATUS_FS else 0) = mstatus p AND MSTATUS_FS"
      by (elim insertE; simp)
  qed
  finally show ?thesis .
qed

section \<open>Traps and returns\<close>

text \<open>The fields of the status that neither a trap to machine mode nor \<open>mret\<close> is about.\<close>

definition status_kept :: u64 where
  "status_kept = MSTATUS_SIE OR MSTATUS_SPIE OR MSTATUS_SPP OR MSTATUS_VS OR MSTATUS_XS OR MSTATUS_MPRV
     OR MSTATUS_SUM OR MSTATUS_MXR OR MSTATUS_TVM OR MSTATUS_TW OR MSTATUS_TSR"

lemma plain_kept: "plain_field status_kept" "status_kept AND NOT (mask 32) = 0"
  by (simp_all add: status_kept_def plain_field_def derived_mask_def mask_eq_exp_minus_1)

lemma one_bit_field:
  assumes "n < 64"
  shows "get_field s (field_mask n 1) mod 2 = get_field s (field_mask n 1)"
proof -
  have "get_field s (field_mask n 1) = take_bit 1 (drop_bit n s)" by (rule get_field_bits) (use assms in auto)
  moreover have "take_bit 1 (take_bit 1 x) = take_bit 1 x" for x :: u64 by (simp only: take_bit_take_bit min.idem)
  ultimately show ?thesis by (simp add: take_bit_eq_mod [of 1])
qed

lemma set_bit_field:
  assumes "n < 64"
  shows "get_field (set_field s (field_mask n 1) x) (field_mask n 1) = x mod 2"
proof -
  have "get_field (set_field s (field_mask n 1) x) (field_mask n 1) = take_bit 1 x" by (rule get_set_field) (use assms in auto)
  then show ?thesis by (simp add: take_bit_eq_mod [of 1])
qed

lemma machine_fields:
  "get_field r MSTATUS_MIE mod 2 = get_field r MSTATUS_MIE" "get_field r MSTATUS_MPIE mod 2 = get_field r MSTATUS_MPIE"
  "get_field (set_field r MSTATUS_MPIE x) MSTATUS_MPIE = x mod 2" "get_field (set_field r MSTATUS_MIE x) MSTATUS_MIE = x mod 2"
  "get_field (set_field r MSTATUS_MPP x) MSTATUS_MPP = take_bit 2 x"
proof -
  show "get_field (set_field r MSTATUS_MPP x) MSTATUS_MPP = take_bit 2 x"
    unfolding mstatus_field by (rule get_set_field) simp_all
qed (unfold mstatus_field(1,2), (rule one_bit_field set_bit_field, simp)+)

lemma m_trap_status_fields:
  "get_field (m_trap_status t p) MSTATUS_MPIE = get_field (mstatus p) MSTATUS_MIE"
  "get_field (m_trap_status t p) MSTATUS_MIE = 0"
  "get_field (m_trap_status t p) MSTATUS_MPP = take_bit 2 (prv p)"
  "m_trap_status t p AND status_kept = mstatus p AND status_kept"
  "m_trap_status t p AND MSTATUS_FS = mstatus p AND MSTATUS_FS"
proof -
  show "get_field (m_trap_status t p) MSTATUS_MPIE = get_field (mstatus p) MSTATUS_MIE"
    unfolding m_trap_status_def Let_def by (simp add: get_set_field_other machine_fields)
  show "get_field (m_trap_status t p) MSTATUS_MIE = 0"
    unfolding m_trap_status_def Let_def by (simp add: get_set_field_other machine_fields)
  show "get_field (m_trap_status t p) MSTATUS_MPP = take_bit 2 (prv p)"
    unfolding m_trap_status_def Let_def by (simp add: get_set_field_other machine_fields)
  show "m_trap_status t p AND status_kept = mstatus p AND status_kept" "m_trap_status t p AND MSTATUS_FS = mstatus p AND MSTATUS_FS"
    unfolding m_trap_status_def Let_def by (simp_all add: set_field_and status_kept_def)
qed

text \<open>What \<open>mret\<close> does to the status.\<close>

definition mret_status :: "u64 \<Rightarrow> u64" where
  "mret_status s =
     (let s = set_field s MSTATUS_MIE (get_field s MSTATUS_MPIE);
          s = set_field s MSTATUS_MPIE 1
      in set_field s MSTATUS_MPP PRV_U)"

lemma mret_status_fields:
  "get_field (mret_status s) MSTATUS_MIE = get_field s MSTATUS_MPIE"
  "mret_status s AND status_kept = s AND status_kept" "mret_status s AND MSTATUS_FS = s AND MSTATUS_FS"
proof -
  show "get_field (mret_status s) MSTATUS_MIE = get_field s MSTATUS_MPIE"
    unfolding mret_status_def Let_def by (simp add: get_set_field_other machine_fields)
  show "mret_status s AND status_kept = s AND status_kept" "mret_status s AND MSTATUS_FS = s AND MSTATUS_FS"
    unfolding mret_status_def Let_def by (simp_all add: set_field_and status_kept_def)
qed

lemma rv_mret_eq:
  assumes "good p" "prv p = PRV_M"
  shows "rv_mret xlen insn pc npc p = Inr (PC_SERIALIZE_AFTER,
    set_privilege (get_field (mstatus p) MSTATUS_MPP)
      (write_mstatus (zext_xlen (cur_xlen p) (mret_status (mstatus p))) (set_pc_and_serialize (mepc (csr p)) p)))"
proof -
  let ?q = "set_privilege (get_field (mstatus p) MSTATUS_MPP)
      (write_mstatus (zext_xlen (cur_xlen p) (mret_status (mstatus p))) (set_pc_and_serialize (mepc (csr p)) p))"
  have ms: "mstatus (set_pc_and_serialize x p) = mstatus p" "cur_xlen (set_pc_and_serialize x p) = cur_xlen p" for x
    by (simp_all add: set_pc_and_serialize_def)
  have "\<not> virt ?q" using goodD(2) [OF assms(1)] by (simp add: set_pc_and_serialize_def set_privilege_def)
  moreover have "get_field (mstatus p) MSTATUS_MPV = 0" using assms by (simp add: good_def no_guest_def)
  ultimately show ?thesis
    using assms unfolding rv_mret_def require_privilege_def require_def Let_def set_csr_mstatus and_then_simps ms mret_status_def
    by simp
qed

lemma legalize_exists: "mode_exists r p \<Longrightarrow> r \<noteq> PRV_HS \<Longrightarrow> legalize_privilege r p = r"
  by (auto simp: mode_exists_def legalize_privilege_def)

lemma take_2: "r < 4 \<Longrightarrow> take_bit 2 r = r" for r :: u64
  by (simp add: take_bit_eq_mod word_less_nat_alt word_arith_nat_mod)

text \<open>When a trap that arises in normal operation is not delegated, machine mode takes it.\<close>

definition to_machine :: "trap \<Rightarrow> hart \<Rightarrow> bool" where
  "to_machine t p \<longleftrightarrow> \<not> debug_mode (csr p) \<and> trap_cause t \<noteq> 3 \<and> \<not> delegated (hsdeleg (trap_cause t) p) (trap_cause t) p"

lemma take_trap_to_machine:
  assumes "good p" "to_machine t p"
  shows "take_trap t epc p = Inr (set_privilege PRV_M
    (write_mstatus (zext_xlen (cur_xlen p) (m_trap_status t p)) (m_trap_regs t epc p)))"
proof -
  have v: "\<not> virt p" by (rule goodD [OF assms(1)])
  then have "\<not> delegated (vsdeleg x p) x p" for x by (simp add: delegated_def vsdeleg_def)
  then show ?thesis using assms(2) trap_to_m_eq [OF v] by (simp add: take_trap_def Let_def to_machine_def)
qed

lemma pc_alignment_mask_cong: "misa q = misa p \<Longrightarrow> extension_table q = extension_table p \<Longrightarrow> pc_alignment_mask q = pc_alignment_mask p"
  by (simp add: pc_alignment_mask_def supports_extension_def)

definition machine_trap :: "trap \<Rightarrow> u64 \<Rightarrow> hart \<Rightarrow> hart" where
  "machine_trap t epc p =
     set_privilege PRV_M (write_mstatus (zext_xlen (cur_xlen p) (m_trap_status t p)) (m_trap_regs t epc p))"

definition machine_return :: "hart \<Rightarrow> hart" where
  "machine_return p =
     set_privilege (get_field (mstatus p) MSTATUS_MPP)
      (write_mstatus (zext_xlen (cur_xlen p) (mret_status (mstatus p))) (set_pc_and_serialize (mepc (csr p)) p))"

lemma machine_trap_regs:
  assumes "max_xlen (cfg p) = cur_xlen p"
  shows "prv (machine_trap t epc p) = PRV_M" "cur_xlen (machine_trap t epc p) = cur_xlen p"
    "XPR (machine_trap t epc p) = XPR p" "FPR (machine_trap t epc p) = FPR p" "misa (machine_trap t epc p) = misa p"
    "extension_table (machine_trap t epc p) = extension_table p"
    "csr (machine_trap t epc p) = csr (m_trap_regs t epc p)"
  using assms by (simp_all add: machine_trap_def set_privilege_def legalize_privilege_def m_trap_regs_def)

lemma zext_low:
  assumes "xlen \<in> {32, 64}" "F AND NOT 0xFFFFFFFF = 0"
  shows "get_field (zext_xlen xlen v) F = get_field v F" "zext_xlen xlen v AND F = v AND F"
  using assms get_field_zext [of xlen F v] zext_and [of xlen F v] by (simp_all add: mask_eq_exp_minus_1)

lemma kept_low: "status_kept AND NOT 0xFFFFFFFF = 0"
  by (simp add: status_kept_def)

lemma good_facts:
  assumes "good p"
  shows "cur_xlen p \<in> {32, 64}" "max_xlen (cfg p) = cur_xlen p" "mstatus_ok p" "mode_exists (prv p) p" "prv p < 4" "prv p \<noteq> PRV_HS"
  using assms by (auto simp: good_def system_ok_def no_guest_def mode_exists_def)

lemma machine_trap_status:
  assumes "good p"
  shows "get_field (mstatus (machine_trap t epc p)) MSTATUS_MPP = prv p"
    "get_field (mstatus (machine_trap t epc p)) MSTATUS_MPIE = get_field (mstatus p) MSTATUS_MIE"
    "get_field (mstatus (machine_trap t epc p)) MSTATUS_MIE = 0"
    "mstatus (machine_trap t epc p) AND status_kept = mstatus p AND status_kept"
    "mstatus (machine_trap t epc p) AND MSTATUS_FS = mstatus p AND MSTATUS_FS"
proof -
  note x = good_facts [OF assms]
  have m: "mstatus (machine_trap t epc p) = mstatus (write_mstatus (zext_xlen (cur_xlen p) (m_trap_status t p)) (m_trap_regs t epc p))"
    by (simp add: machine_trap_def set_privilege_def)
  have rs: "mstatus (m_trap_regs t epc p) = mstatus p" by (simp add: m_trap_regs_def)
  have "mode_exists r (m_trap_regs t epc p) = mode_exists r p" for r by (simp add: m_trap_regs_def)
  then show "get_field (mstatus (machine_trap t epc p)) MSTATUS_MPP = prv p"
    unfolding m write_mstatus_MPP using legalize_exists [of "prv p" "m_trap_regs t epc p"] x
    by (simp add: zext_low m_trap_status_fields take_2)
  show "get_field (mstatus (machine_trap t epc p)) MSTATUS_MPIE = get_field (mstatus p) MSTATUS_MIE"
    unfolding m by (subst write_mstatus_field) (simp_all add: mstatus_mask_fields zext_low [OF x(1)] m_trap_status_fields)
  show "get_field (mstatus (machine_trap t epc p)) MSTATUS_MIE = 0"
    unfolding m by (subst write_mstatus_field) (simp_all add: mstatus_mask_fields zext_low [OF x(1)] m_trap_status_fields)
  show "mstatus (machine_trap t epc p) AND status_kept = mstatus p AND status_kept"
    unfolding m using write_mstatus_same [OF plain_kept(1), of _ "m_trap_regs t epc p"]
    by (simp add: zext_low [OF x(1) kept_low] m_trap_status_fields rs)
  have "mstatus_ok (m_trap_regs t epc p)" using x(3) by (simp add: m_trap_regs_def)
  then show "mstatus (machine_trap t epc p) AND MSTATUS_FS = mstatus p AND MSTATUS_FS"
    unfolding m using FS_write_same [of "m_trap_regs t epc p"] by (simp add: zext_low [OF x(1)] m_trap_status_fields rs)
qed

lemma machine_return_status:
  assumes "good p" "mode_exists (get_field (mstatus p) MSTATUS_MPP) p" "get_field (mstatus p) MSTATUS_MPP \<noteq> PRV_HS"
  shows "prv (machine_return p) = get_field (mstatus p) MSTATUS_MPP"
    "pc_reg (csr (machine_return p)) = mepc (csr p) AND pc_alignment_mask p"
    "XPR (machine_return p) = XPR p" "FPR (machine_return p) = FPR p"
    "get_field (mstatus (machine_return p)) MSTATUS_MIE = get_field (mstatus p) MSTATUS_MPIE"
    "mstatus (machine_return p) AND status_kept = mstatus p AND status_kept"
    "mstatus (machine_return p) AND MSTATUS_FS = mstatus p AND MSTATUS_FS"
proof -
  note x = good_facts [OF assms(1)]
  define s where "s = set_pc_and_serialize (mepc (csr p)) p"
  define v where "v = zext_xlen (cur_xlen p) (mret_status (mstatus p))"
  have r: "machine_return p = set_privilege (get_field (mstatus p) MSTATUS_MPP) (write_mstatus v s)"
    by (simp add: machine_return_def s_def v_def)
  have m: "mstatus (machine_return p) = mstatus (write_mstatus v s)" by (simp add: r set_privilege_def)
  have s: "mstatus s = mstatus p" "mstatus_ok s" "XPR s = XPR p" "FPR s = FPR p" "pc_reg (csr s) = mepc (csr p) AND pc_alignment_mask p"
    using x(3) by (simp_all add: s_def set_pc_and_serialize_def)
  have "mode_exists r (write_mstatus v s) = mode_exists r p" for r by (simp add: mode_exists_def s_def set_pc_and_serialize_def supports_extension_def)
  then show "prv (machine_return p) = get_field (mstatus p) MSTATUS_MPP"
    unfolding r using legalize_exists [of _ "write_mstatus v s"] assms(2,3) by (simp add: set_privilege_def)
  show "pc_reg (csr (machine_return p)) = mepc (csr p) AND pc_alignment_mask p" "XPR (machine_return p) = XPR p" "FPR (machine_return p) = FPR p"
    using s by (simp_all add: r set_privilege_def)
  show "get_field (mstatus (machine_return p)) MSTATUS_MIE = get_field (mstatus p) MSTATUS_MPIE"
    unfolding m v_def by (subst write_mstatus_field) (simp_all add: mstatus_mask_fields zext_low [OF x(1)] mret_status_fields)
  show "mstatus (machine_return p) AND status_kept = mstatus p AND status_kept"
    unfolding m v_def using write_mstatus_same [OF plain_kept(1), of _ s] by (simp add: zext_low [OF x(1) kept_low] mret_status_fields s)
  show "mstatus (machine_return p) AND MSTATUS_FS = mstatus p AND MSTATUS_FS"
    unfolding m v_def using FS_write_same [OF s(2)] by (simp add: zext_low [OF x(1)] mret_status_fields s)
qed

text \<open>C9: trap and return. A trap to machine mode saves the program counter, the cause and the mode, and
  masks interrupts; \<open>mret\<close> then resumes at the saved address in the mode the trap came from, with the
  interrupt enable, the other fields of the status and the registers as they were.\<close>

theorem trap_mret:
  assumes "good p" "to_machine t p" "even epc"
  shows "\<exists>q r. take_trap t epc p = Inr q \<and> prv q = PRV_M
    \<and> pc_reg (csr q) = trap_vector (mtvec (csr p)) (trap_cause t) p
    \<and> mepc (csr q) = epc \<and> mcause (csr q) = trap_cause t \<and> mtval (csr q) = rocket_tval (trap_tval t)
    \<and> get_field (mstatus q) MSTATUS_MPP = prv p \<and> get_field (mstatus q) MSTATUS_MIE = 0
    \<and> pure_body rv_mret xlen insn pc npc q = Inr (PC_SERIALIZE_AFTER, r)
    \<and> prv r = prv p \<and> pc_reg (csr r) = epc AND pc_alignment_mask p
    \<and> get_field (mstatus r) MSTATUS_MIE = get_field (mstatus p) MSTATUS_MIE
    \<and> mstatus r AND (status_kept OR MSTATUS_FS) = mstatus p AND (status_kept OR MSTATUS_FS)
    \<and> XPR r = XPR p \<and> FPR r = FPR p"
proof -
  let ?q = "machine_trap t epc p" and ?r = "machine_return (machine_trap t epc p)"
  note x = good_facts [OF assms(1)] and q = machine_trap_regs [OF good_facts(2) [OF assms(1)], of t epc] machine_trap_status [OF assms(1), of t epc]
  have t: "take_trap t epc p = Inr ?q" using take_trap_to_machine [OF assms(1,2)] by (simp add: machine_trap_def)
  then have g: "good ?q" using good_take_trap [OF assms(1,3), of t] by simp
  then have r: "pure_body rv_mret xlen insn pc npc ?q = Inr (PC_SERIALIZE_AFTER, ?r)"
    using rv_mret_eq [OF g] q(1) by (simp add: pure_body_def machine_return_def)
  have e: "mode_exists (prv p) ?q" "pc_alignment_mask ?q = pc_alignment_mask p"
    using x(4) q(5,6) by (simp_all add: mode_exists_def supports_extension_def pc_alignment_mask_def)
  have c: "pc_reg (csr ?q) = trap_vector (mtvec (csr p)) (trap_cause t) p" "mepc (csr ?q) = epc" "mcause (csr ?q) = trap_cause t"
    "mtval (csr ?q) = rocket_tval (trap_tval t)" using q(7) by (simp_all add: m_trap_regs_def)
  note s = machine_return_status [OF g, unfolded q(8) q(3,4) q(9-), OF e(1) x(6)]
  show ?thesis
    using s e(2) c by (intro exI [of _ ?q] exI [of _ ?r]) (simp add: t r q bit.conj_disj_distrib)
qed

section \<open>Delegated traps\<close>

definition supervisor_trap :: "trap \<Rightarrow> u64 \<Rightarrow> hart \<Rightarrow> hart" where
  "supervisor_trap t epc p =
     (let q = write_mstatus (zext_xlen (cur_xlen p) (s_trap_status p)) (s_trap_regs t epc p)
      in set_privilege PRV_S (csr_update (hstatus_update (\<lambda>old.
           masked (HSTATUS_VTSR OR HSTATUS_VTW OR HSTATUS_VTVM OR HSTATUS_HU OR HSTATUS_SPVP OR HSTATUS_SPV OR HSTATUS_GVA) old
             (zext_xlen (cur_xlen q) (s_trap_hstatus t q)))) q))"

lemma set_csr_hstatus: "set_csr CSR_HSTATUS v p = Inr (csr_update (hstatus_update (\<lambda>old.
  masked (HSTATUS_VTSR OR HSTATUS_VTW OR HSTATUS_VTVM OR HSTATUS_HU OR HSTATUS_SPVP OR HSTATUS_SPV OR HSTATUS_GVA) old
    (zext_xlen (cur_xlen p) v))) p)"
  by (simp add: set_csr_def set_csr_switch_def)

lemma take_trap_cases:
  assumes "good p" "\<not> debug_mode (csr p)" "trap_cause t \<noteq> 3"
  shows "take_trap t epc p =
    Inr (if delegated (hsdeleg (trap_cause t) p) (trap_cause t) p then supervisor_trap t epc p else machine_trap t epc p)"
proof -
  have v: "\<not> virt p" by (rule goodD [OF assms(1)])
  then have "\<not> delegated (vsdeleg x p) x p" for x by (simp add: delegated_def vsdeleg_def)
  then show ?thesis
    using assms(2,3) trap_to_m_eq [OF v] trap_to_hs_eq [OF v]
    by (simp add: take_trap_def Let_def supervisor_trap_def machine_trap_def set_csr_hstatus)
qed

lemma supervisor_trap_regs:
  assumes "max_xlen (cfg p) = cur_xlen p" "supports_extension ext_S p" "supports_extension ext_U p"
  shows "prv (supervisor_trap t epc p) = PRV_S" "cur_xlen (supervisor_trap t epc p) = cur_xlen p"
    "XPR (supervisor_trap t epc p) = XPR p" "FPR (supervisor_trap t epc p) = FPR p" "misa (supervisor_trap t epc p) = misa p"
    "extension_table (supervisor_trap t epc p) = extension_table p"
    "pc_reg (csr (supervisor_trap t epc p)) = trap_vector (stvec (csr p)) (trap_cause t) p"
    "sepc (csr (supervisor_trap t epc p)) = epc" "scause (csr (supervisor_trap t epc p)) = trap_cause t"
    "stval (csr (supervisor_trap t epc p)) = trap_tval t"
  using assms by (simp_all add: supervisor_trap_def Let_def set_privilege_def legalize_privilege_def s_trap_regs_def supports_extension_def)

definition s_status_kept :: u64 where
  "s_status_kept = MSTATUS_MIE OR MSTATUS_MPIE OR MSTATUS_VS OR MSTATUS_XS OR MSTATUS_MPRV
     OR MSTATUS_SUM OR MSTATUS_MXR OR MSTATUS_TVM OR MSTATUS_TW OR MSTATUS_TSR"

lemma s_plain_kept: "plain_field s_status_kept" "s_status_kept AND NOT 0xFFFFFFFF = 0"
  by (simp_all add: s_status_kept_def plain_field_def derived_mask_def)

lemma supervisor_fields:
  "get_field r MSTATUS_SIE mod 2 = get_field r MSTATUS_SIE" "get_field r MSTATUS_SPIE mod 2 = get_field r MSTATUS_SPIE"
  "get_field (set_field r MSTATUS_SPIE x) MSTATUS_SPIE = x mod 2" "get_field (set_field r MSTATUS_SIE x) MSTATUS_SIE = x mod 2"
  "get_field (set_field r MSTATUS_SPP x) MSTATUS_SPP = x mod 2"
proof -
  show "get_field r MSTATUS_SIE mod 2 = get_field r MSTATUS_SIE" using one_bit_field [of 1 r] by (simp add: field_mask_def mask_eq_exp_minus_1)
  show "get_field r MSTATUS_SPIE mod 2 = get_field r MSTATUS_SPIE" using one_bit_field [of 5 r] by (simp add: field_mask_def mask_eq_exp_minus_1)
  show "get_field (set_field r MSTATUS_SPIE x) MSTATUS_SPIE = x mod 2" using set_bit_field [of 5 r x] by (simp add: field_mask_def mask_eq_exp_minus_1)
  show "get_field (set_field r MSTATUS_SIE x) MSTATUS_SIE = x mod 2" using set_bit_field [of 1 r x] by (simp add: field_mask_def mask_eq_exp_minus_1)
  show "get_field (set_field r MSTATUS_SPP x) MSTATUS_SPP = x mod 2" using set_bit_field [of 8 r x] by (simp add: field_mask_def mask_eq_exp_minus_1)
qed

lemma s_trap_status_fields:
  "get_field (s_trap_status p) MSTATUS_SPIE = get_field (mstatus p) MSTATUS_SIE"
  "get_field (s_trap_status p) MSTATUS_SIE = 0" "get_field (s_trap_status p) MSTATUS_SPP = prv p mod 2"
  "s_trap_status p AND s_status_kept = mstatus p AND s_status_kept"
  "s_trap_status p AND MSTATUS_FS = mstatus p AND MSTATUS_FS"
  unfolding s_trap_status_def Let_def
  by (simp_all add: get_set_field_other supervisor_fields set_field_and s_status_kept_def)

lemma low_modes: "r \<le> PRV_S \<Longrightarrow> r = 0 \<or> r = 1"
proof -
  assume "r \<le> PRV_S"
  then have "unat r = unat (0 :: u64) \<or> unat r = unat (1 :: u64)" by (auto simp: word_le_nat_alt)
  then show ?thesis by (simp only: word_unat_eq_iff)
qed

lemma supervisor_trap_status:
  assumes "good p" "supports_extension ext_S p" "prv p \<le> PRV_S"
  shows "get_field (mstatus (supervisor_trap t epc p)) MSTATUS_SPP = prv p"
    "get_field (mstatus (supervisor_trap t epc p)) MSTATUS_SPIE = get_field (mstatus p) MSTATUS_SIE"
    "get_field (mstatus (supervisor_trap t epc p)) MSTATUS_SIE = 0"
    "mstatus (supervisor_trap t epc p) AND s_status_kept = mstatus p AND s_status_kept"
    "mstatus (supervisor_trap t epc p) AND MSTATUS_FS = mstatus p AND MSTATUS_FS"
proof -
  note x = good_facts [OF assms(1)]
  define s where "s = s_trap_regs t epc p"
  have m: "mstatus (supervisor_trap t epc p) = mstatus (write_mstatus (zext_xlen (cur_xlen p) (s_trap_status p)) s)"
    by (simp add: supervisor_trap_def Let_def set_privilege_def s_def)
  have s: "mstatus s = mstatus p" "supports_extension ext_S s" "mstatus_ok s"
    using assms(2) x(3) by (simp_all add: s_def s_trap_regs_def supports_extension_def)
  have f: "get_field (mstatus (supervisor_trap t epc p)) F = get_field (s_trap_status p) F"
    if "plain_field F" "mstatus_mask s AND F = F" "F AND NOT 0xFFFFFFFF = 0" for F
    unfolding m write_mstatus_field [OF that(1,2)] by (rule zext_low [OF x(1) that(3)])
  have "prv p = 0 \<or> prv p = 1" using assms(3) by (rule low_modes)
  then show "get_field (mstatus (supervisor_trap t epc p)) MSTATUS_SPP = prv p"
    by (subst f) (auto simp: mstatus_mask_fields s s_trap_status_fields)
  show "get_field (mstatus (supervisor_trap t epc p)) MSTATUS_SPIE = get_field (mstatus p) MSTATUS_SIE"
    by (subst f) (simp_all add: mstatus_mask_fields s s_trap_status_fields)
  show "get_field (mstatus (supervisor_trap t epc p)) MSTATUS_SIE = 0"
    by (subst f) (simp_all add: mstatus_mask_fields s s_trap_status_fields)
  show "mstatus (supervisor_trap t epc p) AND s_status_kept = mstatus p AND s_status_kept"
    unfolding m using write_mstatus_same [OF s_plain_kept(1), of _ s] by (simp add: zext_low [OF x(1) s_plain_kept(2)] s_trap_status_fields s)
  show "mstatus (supervisor_trap t epc p) AND MSTATUS_FS = mstatus p AND MSTATUS_FS"
    unfolding m using FS_write_same [OF s(3)] by (simp add: zext_low [OF x(1)] s_trap_status_fields s)
qed

text \<open>What \<open>sret\<close> does to the status.\<close>

definition sret_status :: "u64 \<Rightarrow> u64" where
  "sret_status s =
     (let s = set_field s MSTATUS_SIE (get_field s MSTATUS_SPIE);
          s = set_field s MSTATUS_SPIE 1
      in set_field s MSTATUS_SPP PRV_U)"

definition supervisor_return :: "hart \<Rightarrow> hart" where
  "supervisor_return p =
     set_privilege (get_field (mstatus p) MSTATUS_SPP)
      (write_mstatus (zext_xlen (cur_xlen p) (sret_status (mstatus p))) (set_pc_and_serialize (sepc (csr p)) p))"

lemma sret_status_fields:
  "get_field (sret_status s) MSTATUS_SIE = get_field s MSTATUS_SPIE"
  "sret_status s AND s_status_kept = s AND s_status_kept" "sret_status s AND MSTATUS_FS = s AND MSTATUS_FS"
  unfolding sret_status_def Let_def
  by (simp_all add: get_set_field_other supervisor_fields set_field_and s_status_kept_def)

lemma rv_sret_eq:
  assumes "good p" "prv p = PRV_S" "supports_extension ext_S p" "get_field (mstatus p) MSTATUS_TSR = 0"
  shows "rv_sret xlen insn pc npc p = Inr (PC_SERIALIZE_AFTER, supervisor_return p)"
proof -
  have ms: "mstatus (set_pc_and_serialize x p) = mstatus p" "cur_xlen (set_pc_and_serialize x p) = cur_xlen p" for x
    by (simp_all add: set_pc_and_serialize_def)
  have v: "\<not> virt p" by (rule goodD [OF assms(1)])
  have "hstatus (csr (supervisor_return p)) = hstatus (csr p)" "\<not> virt (supervisor_return p)"
    using v by (simp_all add: supervisor_return_def set_privilege_def set_pc_and_serialize_def)
  moreover have "get_field (hstatus (csr p)) HSTATUS_SPV = 0" using assms(1) by (simp add: good_def no_guest_def)
  ultimately show ?thesis
    using assms v unfolding rv_sret_def require_extension_def require_privilege_def require_def Let_def set_csr_mstatus and_then_simps ms
    by (simp add: supervisor_return_def [symmetric] sret_status_def [symmetric, unfolded Let_def])
qed

lemma supervisor_return_status:
  assumes "good p" "supports_extension ext_S p" "mode_exists (get_field (mstatus p) MSTATUS_SPP) p" "get_field (mstatus p) MSTATUS_SPP \<noteq> PRV_HS"
  shows "prv (supervisor_return p) = get_field (mstatus p) MSTATUS_SPP"
    "pc_reg (csr (supervisor_return p)) = sepc (csr p) AND pc_alignment_mask p"
    "XPR (supervisor_return p) = XPR p" "FPR (supervisor_return p) = FPR p"
    "get_field (mstatus (supervisor_return p)) MSTATUS_SIE = get_field (mstatus p) MSTATUS_SPIE"
    "mstatus (supervisor_return p) AND s_status_kept = mstatus p AND s_status_kept"
    "mstatus (supervisor_return p) AND MSTATUS_FS = mstatus p AND MSTATUS_FS"
proof -
  note x = good_facts [OF assms(1)]
  define s where "s = set_pc_and_serialize (sepc (csr p)) p"
  define v where "v = zext_xlen (cur_xlen p) (sret_status (mstatus p))"
  have r: "supervisor_return p = set_privilege (get_field (mstatus p) MSTATUS_SPP) (write_mstatus v s)"
    by (simp add: supervisor_return_def s_def v_def)
  have m: "mstatus (supervisor_return p) = mstatus (write_mstatus v s)" by (simp add: r set_privilege_def)
  have s: "mstatus s = mstatus p" "mstatus_ok s" "XPR s = XPR p" "FPR s = FPR p" "pc_reg (csr s) = sepc (csr p) AND pc_alignment_mask p"
    "supports_extension ext_S s"
    using x(3) assms(2) by (simp_all add: s_def set_pc_and_serialize_def supports_extension_def)
  have "mode_exists r (write_mstatus v s) = mode_exists r p" for r by (simp add: mode_exists_def s_def set_pc_and_serialize_def supports_extension_def)
  then show "prv (supervisor_return p) = get_field (mstatus p) MSTATUS_SPP"
    unfolding r using legalize_exists [of _ "write_mstatus v s"] assms(3,4) by (simp add: set_privilege_def)
  show "pc_reg (csr (supervisor_return p)) = sepc (csr p) AND pc_alignment_mask p" "XPR (supervisor_return p) = XPR p" "FPR (supervisor_return p) = FPR p"
    using s by (simp_all add: r set_privilege_def)
  show "get_field (mstatus (supervisor_return p)) MSTATUS_SIE = get_field (mstatus p) MSTATUS_SPIE"
    unfolding m v_def by (subst write_mstatus_field) (simp_all add: mstatus_mask_fields zext_low [OF x(1)] sret_status_fields s)
  show "mstatus (supervisor_return p) AND s_status_kept = mstatus p AND s_status_kept"
    unfolding m v_def using write_mstatus_same [OF s_plain_kept(1), of _ s] by (simp add: zext_low [OF x(1) s_plain_kept(2)] sret_status_fields s)
  show "mstatus (supervisor_return p) AND MSTATUS_FS = mstatus p AND MSTATUS_FS"
    unfolding m v_def using FS_write_same [OF s(2)] by (simp add: zext_low [OF x(1)] sret_status_fields s)
qed

text \<open>C20: a delegated trap is taken in supervisor mode with the address, the cause and the mode saved, and
  \<open>sret\<close> undoes it, unless machine mode traps \<open>sret\<close>.\<close>

theorem delegated_trap_sret:
  assumes "good p" "\<not> debug_mode (csr p)" "trap_cause t \<noteq> 3" "even epc"
    "delegated (hsdeleg (trap_cause t) p) (trap_cause t) p"
    "supports_extension ext_S p" "supports_extension ext_U p" "get_field (mstatus p) MSTATUS_TSR = 0"
  shows "\<exists>q r. take_trap t epc p = Inr q \<and> prv q = PRV_S
    \<and> pc_reg (csr q) = trap_vector (stvec (csr p)) (trap_cause t) p
    \<and> sepc (csr q) = epc \<and> scause (csr q) = trap_cause t \<and> stval (csr q) = trap_tval t
    \<and> get_field (mstatus q) MSTATUS_SPP = prv p \<and> get_field (mstatus q) MSTATUS_SIE = 0
    \<and> pure_body rv_sret xlen insn pc npc q = Inr (PC_SERIALIZE_AFTER, r)
    \<and> prv r = prv p \<and> pc_reg (csr r) = epc AND pc_alignment_mask p
    \<and> get_field (mstatus r) MSTATUS_SIE = get_field (mstatus p) MSTATUS_SIE
    \<and> mstatus r AND (s_status_kept OR MSTATUS_FS) = mstatus p AND (s_status_kept OR MSTATUS_FS)
    \<and> XPR r = XPR p \<and> FPR r = FPR p"
proof -
  let ?q = "supervisor_trap t epc p" and ?r = "supervisor_return (supervisor_trap t epc p)"
  have low: "prv p \<le> PRV_S" using assms(5) by (simp add: delegated_def)
  note x = good_facts [OF assms(1)]
  note q = supervisor_trap_regs [OF x(2) assms(6,7), of t epc] supervisor_trap_status [OF assms(1,6) low, of t epc]
  have t: "take_trap t epc p = Inr ?q" using take_trap_cases [OF assms(1,2,3)] assms(5) by simp
  then have g: "good ?q" using good_take_trap [OF assms(1,4), of t] by simp
  have e: "mode_exists (prv p) ?q" "pc_alignment_mask ?q = pc_alignment_mask p" "supports_extension ext_S ?q"
    using x(4) q(5,6) assms(6) by (simp_all add: mode_exists_def supports_extension_def pc_alignment_mask_def)
  have tsr: "get_field (mstatus ?q) MSTATUS_TSR = 0"
  proof -
    have "mstatus ?q AND MSTATUS_TSR = (mstatus ?q AND s_status_kept) AND MSTATUS_TSR" by (simp add: and.assoc s_status_kept_def)
    also have "\<dots> = mstatus p AND MSTATUS_TSR" unfolding q(14) by (simp add: and.assoc s_status_kept_def)
    finally show ?thesis using assms(8) by (simp add: get_field_def)
  qed
  then have r: "pure_body rv_sret xlen insn pc npc ?q = Inr (PC_SERIALIZE_AFTER, ?r)"
    using rv_sret_eq [OF g q(1) e(3)] by (simp add: pure_body_def)
  note s = supervisor_return_status [OF g e(3), unfolded q(11), OF e(1) x(6)]
  show ?thesis
    using s e(2) by (intro exI [of _ ?q] exI [of _ ?r]) (simp add: t r q bit.conj_disj_distrib)
qed

section \<open>Locked physical memory protection\<close>

text \<open>Any sequence of register writes.\<close>

inductive csr_writes :: "hart \<Rightarrow> hart \<Rightarrow> bool" where
  none: "csr_writes p p"
| one: "csr_writes p q \<Longrightarrow> set_csr which v q = Inr r \<Longrightarrow> csr_writes p r"

definition pmp_locked :: "nat \<Rightarrow> hart \<Rightarrow> bool" where "pmp_locked i p \<longleftrightarrow> pmpcfg (csr p) ! i AND PMP_L \<noteq> 0"

definition pmp_regs :: "hart \<Rightarrow> nat \<Rightarrow> u8 \<times> u64" where "pmp_regs p i = (pmpcfg (csr p) ! i, pmpaddr (csr p) ! i)"

lemma pmp_regs_call [simp]: "pmp_regs (call_mmu c p) i = pmp_regs p i"
  by (simp add: pmp_regs_def)

lemma pmpcfg_entry_locked:
  assumes "pmp_locked i p"
  shows "pmp_regs (set_pmpcfg_entry v i0 j p) i = pmp_regs p i \<and> pmpaddr (csr (set_pmpcfg_entry v i0 j p)) = pmpaddr (csr p)"
  using assms by (cases "i = j") (auto simp: set_pmpcfg_entry_def pmp_regs_def pmp_locked_def)

lemma set_pmpcfg_locked:
  assumes "pmp_locked i p"
  shows "pmp_regs (set_pmpcfg n v p) i = pmp_regs p i" "pmpaddr (csr (set_pmpcfg n v p)) = pmpaddr (csr p)"
proof -
  have "pmp_regs (fold (set_pmpcfg_entry v i0) xs p) i = pmp_regs p i \<and> pmpaddr (csr (fold (set_pmpcfg_entry v i0) xs p)) = pmpaddr (csr p)" for i0 xs
    using assms
  proof (induction xs arbitrary: p)
    case (Cons x xs)
    have "pmp_locked i (set_pmpcfg_entry v i0 x p)"
      using pmpcfg_entry_locked [OF Cons.prems, of v i0 x] Cons.prems by (simp add: pmp_locked_def pmp_regs_def)
    then show ?case using Cons.IH pmpcfg_entry_locked [OF Cons.prems, of v i0 x] by simp
  qed simp
  then show "pmp_regs (set_pmpcfg n v p) i = pmp_regs p i" "pmpaddr (csr (set_pmpcfg n v p)) = pmpaddr (csr p)"
    by (simp_all add: set_pmpcfg_def Let_def)
qed

lemma pmp_switch: "returns (\<lambda>q. pmpcfg (csr q) = pmpcfg (csr p) \<and> pmpaddr (csr q) = pmpaddr (csr p)) (set_csr_switch which v p)"
  unfolding set_csr_switch_def
  by (intro returns_if; simp add: dirty_fp_state_def dirty_vs_state_def write_misa_def write_tdata1_def write_tdata2_def write_dcsr_def Let_def)

text \<open>What a locked entry fixes: its registers, and the base address below it when it is top-of-range.\<close>

definition lock_kept :: "nat \<Rightarrow> hart \<Rightarrow> hart \<Rightarrow> bool" where
  "lock_kept i p q \<longleftrightarrow> pmp_regs q i = pmp_regs p i \<and>
     (0 < i \<and> pmpcfg (csr p) ! i AND PMP_A = PMP_TOR \<longrightarrow> pmpaddr (csr q) ! (i - 1) = pmpaddr (csr p) ! (i - 1))"

lemma set_csr_lock:
  assumes "pmp_locked i p" "i < max_pmp"
  shows "returns (lock_kept i p) (set_csr which v p)"
proof -
  have "lock_kept i p (set_pmpaddr j w p)" for j w
  proof (cases "j = i \<or> Suc j = i")
    case True
    then show ?thesis using assms by (auto simp: lock_kept_def set_pmpaddr_def pmp_addr_writable_def Let_def pmp_regs_def pmp_locked_def)
  next
    case False
    then have "0 < i \<Longrightarrow> j \<noteq> i - 1" by auto
    then show ?thesis using False by (simp add: lock_kept_def set_pmpaddr_def pmp_regs_def)
  qed
  moreover have "lock_kept i p (set_pmpcfg n w p)" for n w
    using set_pmpcfg_locked [OF assms(1)] by (simp add: lock_kept_def)
  moreover have "returns (lock_kept i p) (set_csr_switch which w p)" for w
    using pmp_switch [of p which w] by (cases "set_csr_switch which w p") (simp_all add: lock_kept_def pmp_regs_def)
  ultimately show ?thesis unfolding set_csr_def Let_def by simp
qed

text \<open>C15: once an entry of the physical memory protection is locked, no sequence of register writes changes
  its configuration or its address, nor, for a top-of-range entry, the address its range starts from.\<close>

theorem locked_pmp:
  assumes "csr_writes p q" "pmp_locked i p" "i < 16"
  shows "pmpcfg (csr q) ! i = pmpcfg (csr p) ! i \<and> pmpaddr (csr q) ! i = pmpaddr (csr p) ! i
    \<and> (0 < i \<and> pmpcfg (csr p) ! i AND PMP_A = PMP_TOR \<longrightarrow> pmpaddr (csr q) ! (i - 1) = pmpaddr (csr p) ! (i - 1))"
  using assms
proof (induction rule: csr_writes.induct)
  case (one p q which v r)
  then have k: "lock_kept i p q" by (simp add: lock_kept_def pmp_regs_def)
  then have "pmp_locked i q" using one.prems by (simp add: lock_kept_def pmp_regs_def pmp_locked_def)
  then have "lock_kept i q r" using set_csr_lock [of i q which v] one.prems one.hyps by simp
  then show ?case using k by (simp add: lock_kept_def pmp_regs_def)
qed simp

section \<open>Access to the registers\<close>

text \<open>The privilege an instruction has for the check: supervisor mode counts as the hypervisor's.\<close>

definition access_level :: "hart \<Rightarrow> u64" where
  "access_level p = (if prv p = PRV_S \<and> \<not> virt p then PRV_HS else prv p)"

definition csr_allowed :: "u64 \<Rightarrow> bool \<Rightarrow> hart \<Rightarrow> bool" where
  "csr_allowed which write p \<longleftrightarrow>
     \<not> (csr_priv which = PRV_S \<and> \<not> supports_extension ext_S p) \<and>
     \<not> (csr_priv which = PRV_HS \<and> \<not> supports_extension ext_H p) \<and>
     \<not> (write \<and> csr_read_only which) \<and> csr_priv which \<le> access_level p"

definition unserialized :: "hart \<Rightarrow> hart" where
  "unserialized p = csr_update (serialized_update (\<lambda>_. False)) p"

text \<open>The instructions and whether they write.\<close>

definition csr_instructions :: "u64 \<Rightarrow> (sys_body \<times> bool) list" where
  "csr_instructions insn =
     [(rv_csrrw, True), (rv_csrrwi, True), (rv_csrrs, insn_rs1 insn \<noteq> 0), (rv_csrrsi, insn_rs1 insn \<noteq> 0),
      (rv_csrrc, insn_rs1 insn \<noteq> 0), (rv_csrrci, insn_rs1 insn \<noteq> 0)]"

lemma csr_instruction_access: "(f, w) \<in> set (csr_instructions insn) \<Longrightarrow> \<exists>g. f xlen insn pc npc p = csr_access w g xlen insn pc npc p"
  by (auto simp: csr_instructions_def rv_csrrw_def rv_csrrwi_def rv_csrrs_def rv_csrrsi_def rv_csrrc_def rv_csrrci_def)

text \<open>C26: an access the mode may not make - to a register of a higher privilege or of a missing extension, or a
  write to a read-only register - raises an illegal or virtual instruction exception, whatever the
  register and the instruction, and changes nothing but the serialization flag; and an instruction that
  does not write leaves every register but its destination as it was.\<close>

theorem csr_access_control:
  assumes "(f, w) \<in> set (csr_instructions insn)" "serialized (csr p)"
  shows "(\<not> csr_allowed (insn_csr insn) w p \<longrightarrow>
      (\<exists>t. f xlen insn pc npc p = Inl (t, unserialized p) \<and>
        t \<in> {Trap_illegal_instruction (insn_bits insn), Trap_virtual_instruction (insn_bits insn)}))
    \<and> (\<not> w \<longrightarrow> (\<forall>n q. f xlen insn pc npc p = Inr (n, q) \<longrightarrow>
        (\<exists>old. get_csr (unat (insn_csr insn)) insn (unserialized p) = Inr old \<and>
          n = PC_SERIALIZE_AFTER \<and> q = set_pc_and_serialize npc (WRITE_RD insn (sext_xlen xlen old) (unserialized p)))))"
proof -
  obtain g where f: "f xlen insn pc npc p = csr_access w g xlen insn pc npc p"
    using csr_instruction_access [OF assms(1)] by blast
  have p: "prv (unserialized p) = prv p" "virt (unserialized p) = virt p" "supports_extension e (unserialized p) = supports_extension e p" for e
    by (simp_all add: unserialized_def supports_extension_def)
  have v: "csr_access w g xlen insn pc npc p =
    (if csr_allowed (insn_csr insn) w p
     then and_then (raising (unserialized p) (get_csr (unat (insn_csr insn)) insn (unserialized p))) (\<lambda>old.
       and_then (raising (unserialized p) (if w then set_csr (unat (insn_csr insn)) (g old) (unserialized p) else Inr (unserialized p))) (\<lambda>p.
       Inr (PC_SERIALIZE_AFTER, set_pc_and_serialize npc (WRITE_RD insn (sext_xlen xlen old) p))))
     else Inl (if csr_priv (insn_csr insn) = PRV_HS \<and> supports_extension ext_H p then Trap_virtual_instruction (insn_bits insn)
               else Trap_illegal_instruction (insn_bits insn), unserialized p))"
    unfolding csr_access_def validate_csr_def Let_def unserialized_def [symmetric]
    using assms(2) by (auto simp: csr_allowed_def access_level_def p not_le not_less)
  show ?thesis unfolding f v
    by (cases "get_csr (unat (insn_csr insn)) insn (unserialized p)") auto
qed

section \<open>The address a trap reports\<close>

lemma and_1_bit: "drop_bit n x AND 1 \<noteq> 0 \<longleftrightarrow> bit x n" for x :: u64
  by (simp add: bit_iff_odd_drop_bit and_one_eq odd_iff_mod_2_eq_one)

lemma upper_bits:
  "drop_bit 39 x AND 0x1FFFFFF = 0x1FFFFFF \<longleftrightarrow> (\<forall>i. 39 \<le> i \<and> i < 64 \<longrightarrow> bit x i)"
  "drop_bit 39 x AND 0x1FFFFFF = 0 \<longleftrightarrow> (\<forall>i. 39 \<le> i \<and> i < 64 \<longrightarrow> \<not> bit x i)" for x :: u64
proof -
  have m: "drop_bit 39 x AND 0x1FFFFFF = drop_bit 39 x"
  proof -
    have "drop_bit 39 x AND mask 25 = drop_bit 39 x" by (rule bit_word_eqI) (auto simp: bit_simps dest: bit_imp_le_length)
    then show ?thesis by (simp add: mask_eq_exp_minus_1)
  qed
  have "drop_bit 39 x = mask 25 \<longleftrightarrow> (\<forall>i. 39 \<le> i \<and> i < 64 \<longrightarrow> bit x i)"
  proof
    assume a: "drop_bit 39 x = mask 25"
    show "\<forall>i. 39 \<le> i \<and> i < 64 \<longrightarrow> bit x i"
    proof (intro allI impI)
      fix i :: nat assume "39 \<le> i \<and> i < 64"
      then show "bit x i" using arg_cong [OF a, of "\<lambda>w. bit w (i - 39)"] by (auto simp: bit_simps)
    qed
  qed (rule bit_word_eqI, auto simp: bit_simps dest: bit_imp_le_length)
  then show "drop_bit 39 x AND 0x1FFFFFF = 0x1FFFFFF \<longleftrightarrow> (\<forall>i. 39 \<le> i \<and> i < 64 \<longrightarrow> bit x i)"
    unfolding m by (simp add: mask_eq_exp_minus_1)
  have "drop_bit 39 x = 0 \<longleftrightarrow> (\<forall>i. 39 \<le> i \<and> i < 64 \<longrightarrow> \<not> bit x i)"
  proof
    assume a: "drop_bit 39 x = 0"
    show "\<forall>i. 39 \<le> i \<and> i < 64 \<longrightarrow> \<not> bit x i"
    proof (intro allI impI)
      fix i :: nat assume "39 \<le> i \<and> i < 64"
      then show "\<not> bit x i" using arg_cong [OF a, of "\<lambda>w. bit w (i - 39)"] by (simp add: bit_simps)
    qed
  next
    assume a: "\<forall>i. 39 \<le> i \<and> i < 64 \<longrightarrow> \<not> bit x i"
    show "drop_bit 39 x = 0"
    proof (rule bit_word_eqI)
      fix n show "bit (drop_bit 39 x) n = bit 0 n"
        using a bit_imp_le_length [of x "39 + n"] by (auto simp: bit_drop_bit_eq)
    qed
  qed
  then show "drop_bit 39 x AND 0x1FFFFFF = 0 \<longleftrightarrow> (\<forall>i. 39 \<le> i \<and> i < 64 \<longrightarrow> \<not> bit x i)"
    unfolding m .
qed

definition top_bit :: "u64 \<Rightarrow> bool" where
  "top_bit x \<longleftrightarrow> bit x 38 \<and> (\<forall>i. 39 \<le> i \<and> i < 64 \<longrightarrow> bit x i) \<or> \<not> bit x 38 \<and> \<not> (\<forall>i. 39 \<le> i \<and> i < 64 \<longrightarrow> \<not> bit x i)"

lemma bit_rocket_tval: "i < 64 \<Longrightarrow> bit (rocket_tval x) i = (if i < 39 then bit x i else top_bit x)"
proof -
  assume i: "i < 64"
  define y where "y = (if top_bit x then x OR push_bit 39 1 else x AND NOT (push_bit 39 1))"
  have c: "(0xFFFFFF7FFFFFFFFF :: u64) = NOT (push_bit 39 1)" by simp
  have n: "drop_bit 38 x AND 1 = 0 \<longleftrightarrow> \<not> bit x 38" using and_1_bit [of 38 x] by blast
  have t: "(if drop_bit 38 x AND 1 \<noteq> 0 \<and> drop_bit 39 x AND 0x1FFFFFF = 0x1FFFFFF then x OR push_bit 39 1
      else if drop_bit 38 x AND 1 = 0 \<and> drop_bit 39 x AND 0x1FFFFFF \<noteq> 0 then x OR push_bit 39 1
      else x AND 0xFFFFFF7FFFFFFFFF) = y"
    unfolding and_1_bit n upper_bits c y_def top_bit_def by (cases "bit x 38") auto
  have "(0xFFFFFF :: u64) = mask 24" "(0xFFFFFFFFFF :: u64) = mask 40" by (simp_all add: mask_eq_exp_minus_1)
  then have r: "rocket_tval x = push_bit 40 (if bit y 39 then mask 24 else 0) OR take_bit 40 y"
    unfolding rocket_tval_def Let_def unfolding t unfolding and_1_bit by (simp only: take_bit_eq_mask)
  have p: "bit (push_bit n 1 :: u64) j \<longleftrightarrow> j = n" if "n < 64" for n j using that by (auto simp: bit_simps)
  have "(39 :: nat) < 64" by simp
  note p39 = p [OF this]
  have y: "bit y j = (if j = 39 then top_bit x else bit x j)" if "j < 64" for j
    using that unfolding y_def by (cases "top_bit x") (auto simp only: if_True if_False bit_or_iff bit_and_iff bit_not_iff p39 possible_bit_word split: if_split, simp)
  have "bit y 39 = top_bit x" by (simp add: y)
  then show ?thesis using i by (auto simp: r bit_simps y)
qed

text \<open>\<open>mtval\<close> after a trap holds the low 39 bits of the address, extended from bit 39, and that bit agrees
  with the one below exactly when the address was canonical for a 39-bit address space - in which case
  it is the address itself.\<close>

theorem rocket_tval_canonical:
  "take_bit 39 (rocket_tval x) = take_bit 39 x
   \<and> signed_take_bit 39 (rocket_tval x) = rocket_tval x
   \<and> (bit (rocket_tval x) 39 = bit (rocket_tval x) 38) = (signed_take_bit 38 x = x)
   \<and> (signed_take_bit 38 x = x) = (rocket_tval x = x \<and> bit x 39 = bit x 38)"
proof -
  have c: "signed_take_bit 38 x = x \<longleftrightarrow> (\<forall>i. 39 \<le> i \<and> i < 64 \<longrightarrow> bit x i = bit x 38)"
  proof
    assume a: "signed_take_bit 38 x = x"
    show "\<forall>i. 39 \<le> i \<and> i < 64 \<longrightarrow> bit x i = bit x 38"
    proof (intro allI impI)
      fix i :: nat assume "39 \<le> i \<and> i < 64"
      then show "bit x i = bit x 38" using arg_cong [OF a, of "\<lambda>w. bit w i"] by (simp add: bit_sext min_def)
    qed
  next
    assume a: "\<forall>i. 39 \<le> i \<and> i < 64 \<longrightarrow> bit x i = bit x 38"
    show "signed_take_bit 38 x = x"
    proof (rule bit_word_eqI)
      fix i :: nat assume "i < LENGTH(64)"
      then show "bit (signed_take_bit 38 x) i = bit x i" using a by (cases "i \<le> 38") (simp_all add: bit_sext min_def)
    qed
  qed
  have t: "top_bit x = bit x 38 \<longleftrightarrow> (\<forall>i. 39 \<le> i \<and> i < 64 \<longrightarrow> bit x i = bit x 38)"
    unfolding top_bit_def by (cases "bit x 38") auto
  have 1: "take_bit 39 (rocket_tval x) = take_bit 39 x"
    by (rule bit_word_eqI) (auto simp: bit_simps bit_rocket_tval)
  have 2: "signed_take_bit 39 (rocket_tval x) = rocket_tval x"
    by (rule bit_word_eqI) (auto simp: bit_sext bit_rocket_tval min_def)
  have 3: "(bit (rocket_tval x) 39 = bit (rocket_tval x) 38) = (signed_take_bit 38 x = x)"
    unfolding c t [symmetric] by (simp add: bit_rocket_tval)
  have 4: "rocket_tval x = x" if "signed_take_bit 38 x = x"
  proof -
    have "\<forall>i. 39 \<le> i \<and> i < 64 \<longrightarrow> bit x i = bit x 38" using that unfolding c .
    moreover from this have "top_bit x = bit x 38" unfolding t .
    ultimately show ?thesis by (intro bit_word_eqI) (auto simp: bit_rocket_tval)
  qed
  have 5: "bit x 39 = bit x 38" if "signed_take_bit 38 x = x" using that unfolding c by simp
  show ?thesis using 1 2 3 4 5 by metis
qed

section \<open>The interrupt that is taken\<close>

text \<open>The order in which the code picks from the enabled interrupts.\<close>

definition interrupt_order :: "nat list" where "interrupt_order = [11, 12, 3, 7, 9, 1, 5, 10, 2, 6]"

lemma and_bit_iff: "n < 64 \<Longrightarrow> w AND push_bit n 1 \<noteq> 0 \<longleftrightarrow> bit w n" for w :: u64
  unfolding and_0_iff by (auto simp: bit_simps)

lemma mip_bits:
  "w AND MIP_MEIP \<noteq> 0 \<longleftrightarrow> bit w 11" "w AND MIP_MSIP \<noteq> 0 \<longleftrightarrow> bit w 3" "w AND MIP_MTIP \<noteq> 0 \<longleftrightarrow> bit w 7"
  "w AND MIP_SEIP \<noteq> 0 \<longleftrightarrow> bit w 9" "w AND MIP_SSIP \<noteq> 0 \<longleftrightarrow> bit w 1" "w AND MIP_STIP \<noteq> 0 \<longleftrightarrow> bit w 5"
  "w AND MIP_VSEIP \<noteq> 0 \<longleftrightarrow> bit w 10" "w AND MIP_VSSIP \<noteq> 0 \<longleftrightarrow> bit w 2" "w AND MIP_VSTIP \<noteq> 0 \<longleftrightarrow> bit w 6"
  using and_bit_iff [of 11 w] and_bit_iff [of 3 w] and_bit_iff [of 7 w] and_bit_iff [of 9 w] and_bit_iff [of 1 w]
    and_bit_iff [of 5 w] and_bit_iff [of 10 w] and_bit_iff [of 2 w] and_bit_iff [of 6 w] by simp_all

lemma bit_unknown: "i < 64 \<Longrightarrow> bit unknown_ints i \<longleftrightarrow> i \<notin> {1, 2, 3, 5, 6, 7, 9, 10, 11, 12}"
proof -
  have "list_all (\<lambda>i. bit unknown_ints i = (i \<notin> {1, 2, 3, 5, 6, 7, 9, 10, 11, 12})) [0..<64]" by code_simp
  then show "i < 64 \<Longrightarrow> ?thesis" by (simp add: list_all_iff)
qed

lemma known_bits:
  assumes "e AND unknown_ints = 0" "bit e i"
  shows "i \<in> {1, 2, 3, 5, 6, 7, 9, 10, 11, 12}"
proof -
  have "i < 64" using bit_imp_le_length [OF assms(2)] by simp
  then show ?thesis using assms bit_unknown unfolding and_0_iff by blast
qed

lemma high_ints:
  assumes "e AND unknown_ints = 0"
  shows "drop_bit 11 e = of_bool (bit e 11) + 2 * of_bool (bit e 12)"
proof -
  have "bit (drop_bit 11 e) i = bit (of_bool (bit e 11) + 2 * of_bool (bit e 12) :: u64) i" for i
  proof -
    have h: "\<not> bit e (11 + i)" if "2 \<le> i" using known_bits [OF assms, of "11 + i"] that by auto
    have "i = 0 \<or> i = 1 \<or> 2 \<le> i" by auto
    moreover have "\<not> bit (3 :: u64) i" "\<not> bit (2 :: u64) i" "\<not> bit (1 :: u64) i" if "2 \<le> i"
      using that by (auto simp: bit_numeral_rec bit_1_iff split: nat.splits)
    ultimately show ?thesis using h by (cases "bit e 11"; cases "bit e 12") (auto simp: bit_drop_bit_eq bit_numeral_rec bit_1_iff)
  qed
  then show ?thesis by (intro bit_word_eqI)
qed

lemma ctz_values:
  "ctz 0x800 = 11" "ctz 0x1000 = 12" "ctz 0x1800 = 11" "ctz 0x8 = 3" "ctz 0x80 = 7" "ctz 0x200 = 9"
  "ctz 0x2 = 1" "ctz 0x20 = 5" "ctz 0x400 = 10" "ctz 4 = 2" "ctz 0x40 = 6"
  by code_simp+

lemma select_interrupt_order:
  assumes "e AND unknown_ints = 0"
  shows "map_option ctz (select_interrupt e) = find (bit e) interrupt_order"
proof (cases "bit e 11 \<or> bit e 12")
  case True
  then have n: "drop_bit 11 e \<noteq> 0" unfolding high_ints [OF assms] by auto
  then have "select_interrupt e = Some (push_bit 11 (drop_bit 11 e))" by (simp add: select_interrupt_def)
  then show ?thesis using True ctz_values
    by (cases "bit e 11"; cases "bit e 12") (auto simp: high_ints [OF assms] interrupt_order_def)
next
  case False
  then have "drop_bit 11 e = 0" unfolding high_ints [OF assms] by auto
  then show ?thesis using False ctz_values mip_bits [of e, simplified] by (simp add: select_interrupt_def interrupt_order_def)
qed

lemma enabled_subset: "enabled_interrupts w p AND NOT w = 0"
  by (auto simp: enabled_interrupts_def enabled_m_def enabled_hs_def enabled_vs_def Let_def and_0_iff bit_and_iff bit_not_iff)

lemma bit_enabled: "bit (enabled_interrupts w p) i \<Longrightarrow> bit w i"
  using enabled_subset [of w p] bit_imp_le_length [of "enabled_interrupts w p" i] unfolding and_0_iff by (auto simp: bit_not_iff)

text \<open>An interrupt that is pending and set in \<open>mie\<close> goes to machine mode unless it is delegated, and then to
  supervisor mode, or to the guest when it is one of the three virtual ones and delegated once more;
  a mode above the target's keeps it waiting, and so does the target's own mode with its enable bit clear.\<close>

definition awake :: "u64 \<Rightarrow> bool \<Rightarrow> hart \<Rightarrow> bool" where
  "awake target enable p = (prv p < target \<or> prv p = target \<and> enable)"

definition takes_m :: "hart \<Rightarrow> nat \<Rightarrow> bool" where
  "takes_m p n = (bit (mip (csr p)) n \<and> bit (mie (csr p)) n \<and> \<not> bit (mideleg (csr p)) n \<and> awake PRV_M (bit (mstatus p) 3) p)"

definition takes_hs :: "hart \<Rightarrow> nat \<Rightarrow> bool" where
  "takes_hs p n = (bit (mip (csr p)) n \<and> bit (mie (csr p)) n \<and> bit (mideleg (csr p)) n \<and> n \<notin> {2, 6, 10} \<and>
     awake PRV_S (bit (if virt p then vsstatus (csr p) else mstatus p) 1) p)"

definition takes_vs :: "hart \<Rightarrow> nat \<Rightarrow> bool" where
  "takes_vs p n = (virt p \<and> bit (mip (csr p)) n \<and> bit (mie (csr p)) n \<and> bit (mideleg (csr p)) n \<and> bit (hideleg (csr p)) n \<and>
     awake PRV_S (bit (mstatus p) 1) p)"

definition chosen_interrupt :: "hart \<Rightarrow> nat option" where
  "chosen_interrupt p =
     (case find (takes_m p) interrupt_order of Some n \<Rightarrow> Some n
      | None \<Rightarrow> case find (takes_hs p) interrupt_order of Some n \<Rightarrow> Some n
      | None \<Rightarrow> find (takes_vs p) interrupt_order)"

lemma single_bit_field: "n < 63 \<Longrightarrow> get_field s (push_bit n 1) \<noteq> 0 \<longleftrightarrow> bit s n"
proof -
  assume n: "n < 63"
  have "get_field s (field_mask n 1) = take_bit 1 (drop_bit n s)" by (rule get_field_bits) (use n in auto)
  moreover have "field_mask n 1 = push_bit n 1" by (simp add: field_mask_def)
  moreover have "take_bit 1 (drop_bit n s) \<noteq> 0 \<longleftrightarrow> bit s n" by (simp add: take_bit_eq_mod odd_iff_mod_2_eq_one [symmetric] bit_iff_odd_drop_bit mod2_eq_if)
  ultimately show ?thesis by simp
qed

lemma enable_bits: "get_field s MSTATUS_MIE \<noteq> 0 \<longleftrightarrow> bit s 3" "get_field s MSTATUS_SIE \<noteq> 0 \<longleftrightarrow> bit s 1"
  using single_bit_field [of 3 s] single_bit_field [of 1 s] by simp_all

lemma bit_not_guest: "bit (NOT MIP_VS_MASK) n \<longleftrightarrow> n < 64 \<and> n \<notin> {2, 6, 10}"
proof (cases "n < 64")
  case True
  have "list_all (\<lambda>n. bit (NOT MIP_VS_MASK) n = (n \<notin> {2, 6, 10})) [0..<64]" by code_simp
  with True show ?thesis unfolding list_all_iff by auto
next
  case False
  then show ?thesis using bit_imp_le_length [of "NOT MIP_VS_MASK" n] by auto
qed

lemma bit_enabled_each:
  fixes p :: hart
  defines "w \<equiv> mip (csr p) AND mie (csr p)"
  shows "bit (enabled_m w p) n = takes_m p n" "bit (enabled_hs w p) n = takes_hs p n"
    "virt p \<Longrightarrow> bit (enabled_vs w p) n = takes_vs p n"
  using bit_imp_le_length [of "mip (csr p)" n]
  by (auto simp: enabled_m_def enabled_hs_def enabled_vs_def takes_m_def takes_hs_def takes_vs_def awake_def Let_def
    w_def enable_bits bit_and_iff bit_not_iff bit_not_guest [simplified])

lemma find_bits: "(\<And>n. bit e n = P n) \<Longrightarrow> find (bit e) xs = find P xs"
  by (intro arg_cong2 [where f = find]) auto

text \<open>C25: outside debug mode the hart takes the interrupt that is pending, set in \<open>mie\<close>, and enabled for its
  target mode by the delegation registers, the privilege mode and the target's enable bit: those for
  machine mode before those for supervisor mode, and these before those for a guest, and among
  them the first in the order of \<open>take_interrupt\<close>, machine external before supervisor guest external.
  It takes none when there is none, and never aborts.\<close>

theorem interrupt_choice:
  assumes "csrs_ok (cfg p) (csr p)"
  shows "take_pending_interrupt p =
    (if debug_mode (csr p) then None
     else map_option (\<lambda>n. Trap_interrupt (push_bit (max_xlen (cfg p) - 1) 1 OR of_nat n)) (chosen_interrupt p))"
proof -
  define w where "w = mip (csr p) AND mie (csr p)"
  define e where "e = enabled_interrupts w p"
  have known: "i AND unknown_ints = 0" if "i AND NOT w = 0" for i
    unfolding and_0_iff
  proof (intro allI impI)
    fix n assume n: "bit i n"
    then have "n < 64" using bit_imp_le_length [of i n] by simp
    moreover have "\<not> bit (i AND NOT w) n" using that by simp
    ultimately have "bit w n" using n by (simp add: bit_and_iff bit_not_iff)
    then have "bit (mie (csr p)) n" by (simp add: w_def bit_and_iff)
    then show "\<not> bit unknown_ints n" using assms unfolding csrs_ok_def and_0_iff by blast
  qed
  have within: "enabled_m w p AND NOT w = 0" "enabled_hs w p AND NOT w = 0" "e AND NOT w = 0"
    using enabled_subset [of w p] by (auto simp: e_def enabled_m_def enabled_hs_def Let_def and_0_iff bit_and_iff bit_not_iff)
  have none: "find (bit i) interrupt_order = None \<longleftrightarrow> i = 0" if "i AND NOT w = 0" for i
  proof
    show "i = 0" if "find (bit i) interrupt_order = None"
    proof (rule ccontr)
      assume "i \<noteq> 0"
      then obtain n where "bit i n" using and_0_iff [of i "- 1"] by auto
      then have "n \<in> set interrupt_order"
        using known_bits [OF known [OF \<open>i AND NOT w = 0\<close>]] by (auto simp: interrupt_order_def)
      then show False using \<open>bit i n\<close> that unfolding find_None_iff by blast
    qed
  qed (simp add: interrupt_order_def)
  have m: "find (bit (enabled_m w p)) interrupt_order = find (takes_m p) interrupt_order"
    and hs: "find (bit (enabled_hs w p)) interrupt_order = find (takes_hs p) interrupt_order"
    and vs: "virt p \<Longrightarrow> find (bit (enabled_vs w p)) interrupt_order = find (takes_vs p) interrupt_order"
    using bit_enabled_each [of p, folded w_def] by (intro find_bits; simp)+
  have "find (takes_vs p) interrupt_order = None" if "\<not> virt p" using that by (simp add: find_None_iff takes_vs_def)
  then have c: "find (bit e) interrupt_order = chosen_interrupt p"
    unfolding e_def enabled_interrupts_def chosen_interrupt_def m [symmetric] hs [symmetric]
    using vs none [OF within(1)] none [OF within(2)]
    by (cases "virt p"; cases "enabled_m w p = 0"; cases "enabled_hs w p = 0") (auto split: option.split)
  have z: "e = 0" if "w = 0" using that enabled_subset [of w p] by (simp add: e_def)
  show ?thesis
    unfolding take_pending_interrupt_def take_interrupt_def w_def [symmetric] e_def [symmetric] Let_def c [symmetric]
      select_interrupt_order [OF known [OF within(3)], symmetric]
    using z none [OF within(3)] select_interrupt_order [OF known [OF within(3)]] by (cases "select_interrupt e") auto
qed

section \<open>The invariant\<close>

definition system_instructions :: "sys_body list" where
  "system_instructions =
     [rv_csrrw, rv_csrrs, rv_csrrc, rv_csrrwi, rv_csrrsi, rv_csrrci, rv_wfi, pure_body rv_mret, pure_body rv_sret,
      pure_body rv_dret, pure_body rv_fence_i, pure_body rv_sfence_vma, pure_body rv_hfence_vvma, pure_body rv_hfence_gvma]"

lemma good_mip: "good p \<Longrightarrow> good (csr_update (mip_update f) p)"
  by (rule good_csr) (auto dest: goodD(1) simp: csrs_ok_def)

lemma good_fences:
  "good p \<Longrightarrow> leaves_good (pure_body rv_fence_i xlen insn pc npc p)"
  "good p \<Longrightarrow> leaves_good (pure_body rv_sfence_vma xlen insn pc npc p)"
  "good p \<Longrightarrow> leaves_good (pure_body rv_hfence_vvma xlen insn pc npc p)"
  "good p \<Longrightarrow> leaves_good (pure_body rv_hfence_gvma xlen insn pc npc p)"
  by (simp_all add: pure_body_def rv_fence_i_def rv_sfence_vma_def rv_hfence_vvma_def rv_hfence_gvma_def require_extension_def
      require_privilege_def require_novirt_def require_def)

lemma good_wfi: "good p \<Longrightarrow> even npc \<Longrightarrow> leaves_good (rv_wfi xlen insn pc npc p)"
  by (auto simp: rv_wfi_def require_privilege_def require_novirt_def require_def good_serialize goodD)

lemma take_trap_total: "\<not> virt p \<Longrightarrow> \<exists>q. take_trap t epc p = Inr q"
proof -
  assume v: "\<not> virt p"
  then have "\<not> delegated (vsdeleg x p) x p" for x by (simp add: delegated_def vsdeleg_def)
  then show ?thesis by (simp add: take_trap_def Let_def trap_to_m_eq [OF v] trap_to_hs_eq [OF v] set_csr_hstatus)
qed

text \<open>C5: the invariant of the system registers. It holds after reset; CSR instructions, returns, waiting,
  fences, traps and asserted interrupts keep it, whether they complete or raise an exception: the mode
  exists, the status summarises the dirty states and its previous mode exists, addresses in the trap
  registers are even, no \<open>pmpcfg\<close> entry is writable but not readable, and only known interrupts are
  enabled.\<close>

theorem system_invariant:
  assumes "max_xlen (cfg p0) \<in> {32, 64}" "\<not> bit (max_isa (cfg p0)) 7" "good p" "even npc" "even epc"
  shows "(\<exists>q. processor_reset h p0 = Inr q \<and> good q)
    \<and> list_all (\<lambda>f. leaves_good (f xlen insn pc npc p)) system_instructions
    \<and> (\<exists>q. take_trap t epc p = Inr q \<and> good q)
    \<and> (case assert_int intrs pc p of Inl (t, q) \<Rightarrow> good q | Inr q \<Rightarrow> good q)"
proof -
  have 1: "\<exists>q. processor_reset h p0 = Inr q \<and> good q"
    using processor_reset_returns [of h p0] good_reset [OF assms(1,2), of h] by auto
  have 2: "list_all (\<lambda>f. leaves_good (f xlen insn pc npc p)) system_instructions"
    unfolding system_instructions_def using assms(3,4)
    by (simp add: rv_csrrw_def rv_csrrs_def rv_csrrc_def rv_csrrwi_def rv_csrrsi_def rv_csrrci_def
        good_csr_access good_returns good_fences good_wfi)
  have 3: "\<exists>q. take_trap t epc p = Inr q \<and> good q"
    using take_trap_total [OF goodD(2) [OF assms(3)]] good_take_trap [OF assms(3,5), of t] by (metis returns_simps(2))
  have 4: "case assert_int intrs pc p of Inl (t, q) \<Rightarrow> good q | Inr q \<Rightarrow> good q"
    using assms(3) by (simp add: assert_int_def Let_def good_mip split: option.split)
  show ?thesis using 1 2 3 4 by blast
qed

section \<open>What a write leaves in a register\<close>

text \<open>Registers that hold some bits of what is written, and registers of which only some bits change.\<close>

definition held_bits :: "(nat \<times> u64) list" where
  "held_bits =
     [(CSR_FFLAGS, 0x1F), (CSR_FRM, 7), (CSR_FCSR, 0xFF), (CSR_MSCRATCH, - 1), (CSR_SSCRATCH, - 1), (CSR_MTVAL, - 1),
      (CSR_STVAL, - 1), (CSR_MTVEC, NOT 2), (CSR_STVEC, NOT 2), (CSR_MCOUNTEREN, 0xFFFFFFFF), (CSR_SCOUNTEREN, 0xFFFFFFFF)]"

definition changed_bits :: "hart \<Rightarrow> (nat \<times> u64) list" where
  "changed_bits p =
     [(CSR_MIE, all_ints p), (CSR_MIDELEG, delegable_ints p), (CSR_MEDELEG, 0xB15D),
      (CSR_MCAUSE, push_bit (cur_xlen p - 1) 1 + 15), (CSR_SCAUSE, push_bit (cur_xlen p - 1) 1 + 31),
      (CSR_MIP, (supervisor_ints p OR hypervisor_ints p) AND (MIP_SSIP OR MIP_STIP OR vssip_int p OR MIP_SEIP OR MIP_MEIP))]"

text \<open>The two switches at these addresses.\<close>

lemma get_csr_at:
  "get_csr CSR_MIE insn p = Inr (mie (csr p))" "get_csr CSR_MIP insn p = Inr (mip (csr p))"
  "get_csr CSR_MSCRATCH insn p = Inr (mscratch (csr p))" "get_csr CSR_MTVAL insn p = Inr (mtval (csr p))"
  "get_csr CSR_MTVEC insn p = Inr (mtvec (csr p))" "get_csr CSR_MCAUSE insn p = Inr (mcause (csr p))"
  "get_csr CSR_SCOUNTEREN insn p = Inr (ucast (scounteren (csr p)))"
  "get_csr CSR_MCOUNTEREN insn p = (if supports_extension ext_U p then Inr (ucast (mcounteren (csr p))) else Inl (Trap_illegal_instruction (insn_bits insn)))"
  "get_csr CSR_MEDELEG insn p = (if supports_extension ext_S p then Inr (medeleg (csr p)) else Inl (Trap_illegal_instruction (insn_bits insn)))"
  "get_csr CSR_MIDELEG insn p = (if supports_extension ext_S p then Inr (mideleg (csr p)) else Inl (Trap_illegal_instruction (insn_bits insn)))"
  "get_csr CSR_FFLAGS insn p = require_fp insn p (if supports_extension ext_F p then Inr (ucast (fflags p)) else Inl (Trap_illegal_instruction (insn_bits insn)))"
  "get_csr CSR_FRM insn p = require_fp insn p (if supports_extension ext_F p then Inr (ucast (frm p)) else Inl (Trap_illegal_instruction (insn_bits insn)))"
  "get_csr CSR_FCSR insn p = require_fp insn p (if supports_extension ext_F p then Inr (ucast (fflags p OR push_bit 5 (frm p))) else Inl (Trap_illegal_instruction (insn_bits insn)))"
  by (simp_all add: get_csr_def get_csr_switch_def)

lemma get_csr_at_s:
  assumes "\<not> virt p"
  shows "get_csr CSR_SSCRATCH insn p = Inr (sscratch (csr p))" "get_csr CSR_STVAL insn p = Inr (stval (csr p))"
    "get_csr CSR_STVEC insn p = Inr (stvec (csr p))" "get_csr CSR_SCAUSE insn p = Inr (cause_value (scause (csr p)) p)"
  using assms by (simp_all add: get_csr_def get_csr_switch_def)

lemma set_csr_at:
  "set_csr CSR_MIE v p = Inr (csr_update (mie_update (\<lambda>old. masked (all_ints p) old (zext_xlen (cur_xlen p) v))) p)"
  "set_csr CSR_MIP v p = Inr (csr_update (mip_update (\<lambda>old. masked ((supervisor_ints p OR hypervisor_ints p) AND
     (MIP_SSIP OR MIP_STIP OR vssip_int p OR MIP_SEIP OR MIP_MEIP)) old (zext_xlen (cur_xlen p) v))) p)"
  "set_csr CSR_MSCRATCH v p = Inr (csr_update (mscratch_update (\<lambda>_. zext_xlen (cur_xlen p) v)) p)"
  "set_csr CSR_MTVAL v p = Inr (csr_update (mtval_update (\<lambda>_. zext_xlen (cur_xlen p) v)) p)"
  "set_csr CSR_MTVEC v p = Inr (csr_update (mtvec_update (\<lambda>_. zext_xlen (cur_xlen p) v AND NOT 2)) p)"
  "set_csr CSR_MCAUSE v p = Inr (csr_update (mcause_update (\<lambda>old. masked (push_bit (cur_xlen p - 1) 1 + 15) old (zext_xlen (cur_xlen p) v))) p)"
  "set_csr CSR_SCOUNTEREN v p = Inr (csr_update (scounteren_update (\<lambda>_. ucast (zext_xlen (cur_xlen p) v))) p)"
  "set_csr CSR_MCOUNTEREN v p = Inr (csr_update (mcounteren_update (\<lambda>_. ucast (zext_xlen (cur_xlen p) v))) p)"
  "set_csr CSR_MEDELEG v p = Inr (csr_update (medeleg_update (\<lambda>old. masked 0xB15D old (zext_xlen (cur_xlen p) v))) p)"
  "set_csr CSR_MIDELEG v p = Inr (csr_update (mideleg_update (\<lambda>old. masked (delegable_ints p) old (zext_xlen (cur_xlen p) v))) p)"
  "set_csr CSR_FFLAGS v p = Inr ((dirty_fp_state (cur_xlen p) p)\<lparr>fflags := ucast (zext_xlen (cur_xlen p) v AND 0x1F)\<rparr>)"
  "set_csr CSR_FRM v p = Inr ((dirty_fp_state (cur_xlen p) p)\<lparr>frm := ucast (zext_xlen (cur_xlen p) v AND 7)\<rparr>)"
  "set_csr CSR_FCSR v p = Inr ((dirty_fp_state (cur_xlen p) p)\<lparr>fflags := ucast (zext_xlen (cur_xlen p) v AND 0x1F),
     frm := ucast (drop_bit 5 (zext_xlen (cur_xlen p) v AND 0xE0))\<rparr>)"
  by (simp_all add: set_csr_def set_csr_switch_def Let_def)

lemma set_csr_at_s:
  assumes "\<not> virt p"
  shows "set_csr CSR_SSCRATCH v p = Inr (csr_update (sscratch_update (\<lambda>_. zext_xlen (cur_xlen p) v)) p)"
    "set_csr CSR_STVAL v p = Inr (csr_update (stval_update (\<lambda>_. zext_xlen (cur_xlen p) v)) p)"
    "set_csr CSR_STVEC v p = Inr (csr_update (stvec_update (\<lambda>_. zext_xlen (cur_xlen p) v AND NOT 2)) p)"
    "set_csr CSR_SCAUSE v p = Inr (csr_update (scause_update (\<lambda>old. masked (push_bit (cur_xlen p - 1) 1 + 31) old (zext_xlen (cur_xlen p) v))) p)"
  using assms by (simp_all add: set_csr_def set_csr_switch_def)

lemma fp_still_on: "require_fp insn (dirty_fp_state n p) k = k"
  by (simp add: require_fp_def require_def dirty_fp_state_def bit.conj_disj_distrib2 or_eq_0_iff)

lemma csr_changed:
  assumes "\<not> virt p" "(which, m) \<in> set (changed_bits p)" "max_xlen (cfg p) = cur_xlen p"
    "get_csr which insn p = Inr old" "set_csr which v p = Inr q"
  shows "get_csr which insn q = Inr ((old AND NOT m) OR (zext_xlen (cur_xlen p) v AND m))"
proof -
  have s: "supports_extension e (csr_update f p) = supports_extension e p" for e f by (simp add: supports_extension_def)
  have sc: "get_csr CSR_SCAUSE insn (csr_update f p) = Inr (scause (f (csr p)))" for f
    using assms(1,3) by (simp add: get_csr_at_s cause_value_def)
  consider "which = CSR_MIE" "m = all_ints p" | "which = CSR_MIDELEG" "m = delegable_ints p" | "which = CSR_MEDELEG" "m = 0xB15D"
    | "which = CSR_MCAUSE" "m = push_bit (cur_xlen p - 1) 1 + 15" | "which = CSR_SCAUSE" "m = push_bit (cur_xlen p - 1) 1 + 31"
    | "which = CSR_MIP" "m = (supervisor_ints p OR hypervisor_ints p) AND (MIP_SSIP OR MIP_STIP OR vssip_int p OR MIP_SEIP OR MIP_MEIP)"
    using assms(2) by (auto simp: changed_bits_def)
  then show ?thesis
  proof cases
    case 1 then show ?thesis using assms(4,5) by (auto simp: get_csr_at set_csr_at masked_def)
  next
    case 2 then show ?thesis using assms(4,5) by (auto simp: get_csr_at set_csr_at masked_def s split: if_splits)
  next
    case 3 then show ?thesis using assms(4,5) by (auto simp: get_csr_at set_csr_at masked_def s split: if_splits)
  next
    case 4 then show ?thesis using assms(4,5) by (auto simp: get_csr_at set_csr_at masked_def)
  next
    case 5 then show ?thesis using assms by (auto simp: get_csr_at_s set_csr_at_s masked_def cause_value_def)
  next
    case 6 then show ?thesis using assms(4,5) by (auto simp: get_csr_at set_csr_at masked_def)
  qed
qed

lemma fp_flag_updates:
  "require_fp insn (p\<lparr>fflags := x\<rparr>) k = require_fp insn p k" "require_fp insn (p\<lparr>frm := y\<rparr>) k = require_fp insn p k"
  "supports_extension e (p\<lparr>fflags := x\<rparr>) = supports_extension e p" "supports_extension e (p\<lparr>frm := y\<rparr>) = supports_extension e p"
  "supports_extension e (dirty_fp_state n p) = supports_extension e p"
  by (simp_all add: require_fp_def supports_extension_def dirty_fp_state_def)

lemma fcsr_value: "(ucast ((ucast (v AND 0x1F) :: u32) OR push_bit 5 (ucast (drop_bit 5 (v AND 0xE0)))) :: u64) = v AND 0xFF"
proof -
  have "(ucast ((ucast (v AND mask 5) :: u32) OR push_bit 5 (ucast (drop_bit 5 (v AND push_bit 5 (mask 3))))) :: u64) = v AND mask 8"
    by (rule bit_word_eqI) (auto simp: bit_simps)
  then show ?thesis by (simp add: mask_eq_exp_minus_1)
qed

lemma ucast_low_bits: "(ucast (ucast (v AND mask n) :: u32) :: u64) = v AND mask n" if "n \<le> 32" for v :: u64
  by (rule bit_word_eqI) (use that in \<open>auto simp: bit_simps\<close>)

lemma ucast_lows:
  "(ucast (ucast (v AND 0x1F) :: u32) :: u64) = v AND 0x1F" "(ucast (ucast (v AND 7) :: u32) :: u64) = v AND 7"
  "(ucast (ucast v :: u32) :: u64) = v AND 0xFFFFFFFF" for v :: u64
proof -
  show "(ucast (ucast (v AND 0x1F) :: u32) :: u64) = v AND 0x1F" "(ucast (ucast (v AND 7) :: u32) :: u64) = v AND 7"
    using ucast_low_bits [of 5 v] ucast_low_bits [of 3 v] by (simp_all add: mask_eq_exp_minus_1)
  have "(ucast (ucast v :: u32) :: u64) = v AND mask 32" by (rule bit_word_eqI) (auto simp: bit_simps)
  then show "(ucast (ucast v :: u32) :: u64) = v AND 0xFFFFFFFF" by (simp add: mask_eq_exp_minus_1)
qed

lemma csr_held:
  assumes "\<not> virt p" "(which, m) \<in> set held_bits" "get_csr which insn p = Inr old" "set_csr which v p = Inr q"
  shows "get_csr which insn q = Inr (zext_xlen (cur_xlen p) v AND m)"
proof -
  have s: "supports_extension e (csr_update f p) = supports_extension e p" for e f by (simp add: supports_extension_def)
  note fp = fp_flag_updates fp_still_on ucast_lows and.assoc fcsr_value [of "zext_xlen (cur_xlen p) v"]
  have F: "supports_extension ext_F p" if "which \<in> {CSR_FFLAGS, CSR_FRM, CSR_FCSR}"
    using that assms(3) by (auto simp: get_csr_at require_fp_def require_def simp del: One_nat_def split: if_splits)
  consider "which = CSR_FFLAGS" "m = 0x1F" | "which = CSR_FRM" "m = 7" | "which = CSR_FCSR" "m = 0xFF"
    | "which = CSR_MSCRATCH" "m = - 1" | "which = CSR_SSCRATCH" "m = - 1" | "which = CSR_MTVAL" "m = - 1" | "which = CSR_STVAL" "m = - 1"
    | "which = CSR_MTVEC" "m = NOT 2" | "which = CSR_STVEC" "m = NOT 2" | "which = CSR_MCOUNTEREN" "m = 0xFFFFFFFF" | "which = CSR_SCOUNTEREN" "m = 0xFFFFFFFF"
    using assms(2) by (auto simp: held_bits_def)
  then show ?thesis
  proof cases
    case 1 then show ?thesis using F assms(4) by (auto simp: get_csr_at set_csr_at fp simp del: One_nat_def)
  next
    case 2 then show ?thesis using F assms(4) by (auto simp: get_csr_at set_csr_at fp)
  next
    case 3 then show ?thesis using F assms(4) fcsr_value [of "zext_xlen (cur_xlen p) v"]
      by (simp only: set_csr_at Inr_inject get_csr_at) (auto simp: fp)
  next
    case 10 then show ?thesis using assms(3,4) by (auto simp: get_csr_at set_csr_at s ucast_lows split: if_splits)
  next
    case 11 then show ?thesis using assms(4) by (auto simp: get_csr_at set_csr_at ucast_lows)
  qed (use assms(1,4) in \<open>auto simp: get_csr_at set_csr_at get_csr_at_s set_csr_at_s\<close>)
qed

text \<open>C34: what a write leaves to be read. The floating-point, scratch, vector and counter-enable registers
  hold the writable bits of the value; in the interrupt, delegation and cause registers the writable bits
  are those of the value and the others keep what they were.\<close>

theorem csr_write_read:
  assumes "good p" "get_csr which insn p = Inr old" "set_csr which v p = Inr q"
  shows "((which, m) \<in> set held_bits \<longrightarrow> get_csr which insn q = Inr (zext_xlen (cur_xlen p) v AND m))
    \<and> ((which, m) \<in> set (changed_bits p) \<longrightarrow>
        get_csr which insn q = Inr ((old AND NOT m) OR (zext_xlen (cur_xlen p) v AND m)))"
  using csr_held csr_changed assms goodD(2) [OF assms(1)] good_facts(2) [OF assms(1)] by blast

section \<open>Concrete harts\<close>

text \<open>An RV64IMAFDCSU hart as it comes out of reset, the same hart in user mode with user calls delegated, one
  with a locked protection entry, and one with two interrupts pending and enabled.\<close>

definition boot_hart :: hart where
  "boot_hart =
     \<lparr>XPR = replicate 32 0, FPR = replicate 32 \<lparr>fv0 = 0, fv1 = 0\<rparr>, prv = PRV_M, virt = False,
      misa = 0x800000000014112D, mstatus = 0xA00000000, fflags = 0, frm = 0, extension_table = (\<lambda>_. False),
      softfloat = softfloat_init, cur_xlen = 64,
      csr = csrs_reset \<lparr>vstart = 0, vxrm = 0, vxsat = 0, vl = 0, vtype = 0, vlenb = 16, vlen = 128\<rparr>,
      cfg = \<lparr>max_xlen = 64, max_isa = 0x800000000014112D, n_pmp = 16, lg_pmp_granularity = 2, has_ext = False, hart_id = 0\<rparr>,
      mmu_calls = []\<rparr>"

definition user_hart :: hart where
  "user_hart = csr_update (\<lambda>c. c\<lparr>medeleg := 0x100, stvec := 0x4000\<rparr>) (boot_hart\<lparr>prv := PRV_U\<rparr>)"

definition locked_hart :: hart where
  "locked_hart = csr_update (pmpcfg_update (\<lambda>l. l[1 := 0x89])) boot_hart"

definition waiting_hart :: hart where
  "waiting_hart = csr_update (\<lambda>c. c\<lparr>mip := 0x880, mie := 0x880\<rparr>) (boot_hart\<lparr>mstatus := 0xA00000008\<rparr>)"

lemma harts_status:
  "mstatus_ok boot_hart" "mstatus_ok user_hart" "mstatus_ok waiting_hart"
  "no_guest boot_hart" "no_guest user_hart" "no_guest waiting_hart"
  "mode_exists (prv boot_hart) boot_hart" "mode_exists (prv user_hart) user_hart" "mode_exists (prv waiting_hart) waiting_hart"
  by code_simp+

lemma csrs_ok_reset: "csrs_ok g (csrs_reset vu)"
  by (simp add: csrs_ok_def csrs_reset_def pmp_entry_ok_def list_all_iff)

lemma good_harts: "good boot_hart" "good user_hart" "good waiting_hart"
proof -
  have "csrs_ok (cfg boot_hart) (csr boot_hart)" by (simp add: boot_hart_def csrs_ok_reset)
  moreover from this have "csrs_ok (cfg user_hart) (csr user_hart)" by (simp add: user_hart_def csrs_ok_def)
  moreover have "csrs_ok (cfg waiting_hart) (csr waiting_hart)"
    using \<open>csrs_ok (cfg boot_hart) (csr boot_hart)\<close> by (simp add: waiting_hart_def csrs_ok_def unknown_ints_def)
  moreover have "max_xlen (cfg boot_hart) = 64 \<and> cur_xlen boot_hart = 64" "max_xlen (cfg user_hart) = 64 \<and> cur_xlen user_hart = 64"
    "max_xlen (cfg waiting_hart) = 64 \<and> cur_xlen waiting_hart = 64"
    by (simp_all add: boot_hart_def user_hart_def waiting_hart_def)
  ultimately show "good boot_hart" "good user_hart" "good waiting_hart"
    using harts_status by (simp_all add: good_def system_ok_def)
qed

lemma to_machine_boot: "to_machine (Trap_illegal_instruction 0) boot_hart"
  by code_simp

lemma delegated_user: "delegated (hsdeleg (trap_cause Trap_user_ecall) user_hart) (trap_cause Trap_user_ecall) user_hart"
  by code_simp

theorem trap_mret_witness:
  "\<exists>q r. take_trap (Trap_illegal_instruction 0) 0x1000 boot_hart = Inr q \<and> mepc (csr q) = 0x1000 \<and> mcause (csr q) = 2
    \<and> pure_body rv_mret 64 0 0 0 q = Inr (PC_SERIALIZE_AFTER, r) \<and> prv r = PRV_M \<and> pc_reg (csr r) = 0x1000"
proof -
  have "(0x1000 :: u64) AND pc_alignment_mask boot_hart = 0x1000" "prv boot_hart = PRV_M" by code_simp+
  then show ?thesis using trap_mret [OF good_harts(1) to_machine_boot, where epc = "0x1000" and xlen = 64 and insn = 0 and pc = 0 and npc = 0] by auto
qed

theorem delegated_trap_sret_witness:
  "\<exists>q r. take_trap Trap_user_ecall 0x2000 user_hart = Inr q \<and> prv q = PRV_S \<and> pc_reg (csr q) = 0x4000 \<and> sepc (csr q) = 0x2000
    \<and> pure_body rv_sret 64 0 0 0 q = Inr (PC_SERIALIZE_AFTER, r) \<and> prv r = PRV_U \<and> pc_reg (csr r) = 0x2000"
proof -
  have c: "(0x2000 :: u64) AND pc_alignment_mask user_hart = 0x2000" "prv user_hart = PRV_U" "\<not> debug_mode (csr user_hart)"
    "trap_cause Trap_user_ecall \<noteq> 3" "supports_extension ext_S user_hart" "supports_extension ext_U user_hart"
    "get_field (mstatus user_hart) MSTATUS_TSR = 0" "trap_vector (stvec (csr user_hart)) (trap_cause Trap_user_ecall) user_hart = 0x4000"
    by code_simp+
  then show ?thesis
    using delegated_trap_sret [OF good_harts(2) c(3,4) _ delegated_user c(5,6,7), where epc = "0x2000" and xlen = 64 and insn = 0 and pc = 0 and npc = 0] by auto
qed

theorem locked_pmp_witness:
  "\<exists>q. set_csr CSR_PMPADDR0 0x1234 locked_hart = Inr q \<and> pmpcfg (csr q) ! 1 = 0x89 \<and> pmpaddr (csr q) ! 0 = pmpaddr (csr locked_hart) ! 0"
proof -
  obtain q where q: "set_csr CSR_PMPADDR0 0x1234 locked_hart = Inr q" by (simp add: set_csr_def)
  have l: "pmp_locked 1 locked_hart" "pmpcfg (csr locked_hart) ! 1 = 0x89" "pmpcfg (csr locked_hart) ! 1 AND PMP_A = PMP_TOR" by code_simp+
  have "csr_writes locked_hart q" by (rule csr_writes.one [OF csr_writes.none q])
  from locked_pmp [OF this l(1)] show ?thesis using q l by auto
qed

text \<open>\<open>csrrw x1, mscratch, x2\<close> in user mode.\<close>

theorem csr_access_control_witness:
  "\<exists>t. rv_csrrw 64 0x340110F3 0 4 (csr_update (serialized_update (\<lambda>_. True)) user_hart)
       = Inl (t, unserialized (csr_update (serialized_update (\<lambda>_. True)) user_hart))"
proof -
  let ?p = "csr_update (serialized_update (\<lambda>_. True)) user_hart"
  have "(rv_csrrw, True) \<in> set (csr_instructions 0x340110F3)" by (simp add: csr_instructions_def)
  moreover have "serialized (csr ?p)" by simp
  moreover have "\<not> csr_allowed (insn_csr 0x340110F3) True ?p" by code_simp
  ultimately show ?thesis using csr_access_control [of rv_csrrw True "0x340110F3" ?p 64 0 4] by blast
qed

theorem interrupt_choice_witness:
  "take_pending_interrupt waiting_hart = Some (Trap_interrupt 0x800000000000000B)"
proof -
  have e: "chosen_interrupt waiting_hart = Some 11" "\<not> debug_mode (csr waiting_hart)" "max_xlen (cfg waiting_hart) = 64"
    by code_simp+
  show ?thesis using interrupt_choice [OF goodD(1) [OF good_harts(3)]] e by simp
qed

theorem system_invariant_witness:
  "(\<exists>q. processor_reset False boot_hart = Inr q \<and> good q) \<and> leaves_good (rv_csrrw 64 0x340110F3 0 4 boot_hart)
    \<and> (\<exists>q. take_trap Trap_machine_ecall 0 boot_hart = Inr q \<and> good q)"
proof -
  have "max_xlen (cfg boot_hart) \<in> {32, 64}" "\<not> bit (max_isa (cfg boot_hart)) 7" by (code_simp, code_simp)
  from system_invariant [OF this good_harts(1), of 4 0 False 64 "0x340110F3" 0 Trap_machine_ecall Map.empty]
  show ?thesis by (simp add: system_instructions_def)
qed

theorem csr_write_read_witness:
  "\<exists>q. set_csr CSR_MSCRATCH 7 boot_hart = Inr q \<and> get_csr CSR_MSCRATCH 0 q = Inr 7"
proof -
  obtain q where q: "set_csr CSR_MSCRATCH 7 boot_hart = Inr q" by (simp add: set_csr_at)
  have g: "get_csr CSR_MSCRATCH 0 boot_hart = Inr (mscratch (csr boot_hart))" by (rule get_csr_at)
  have "(CSR_MSCRATCH, - 1) \<in> set held_bits" "cur_xlen boot_hart = 64" by (simp_all add: held_bits_def boot_hart_def)
  then have "get_csr CSR_MSCRATCH 0 q = Inr 7"
    using csr_write_read [OF good_harts(1) g q, of "- 1"] by simp
  then show ?thesis using q by blast
qed

end
