(* ===== verification/RV_Bus.thy ===== *)
theory RV_Bus
  imports RV_CSR
begin

text \<open>
  Physical memory and devices: the bus of \<open>riscv/devices.h\<close> and \<open>riscv/devices.cc\<close>, the boot ROM of
  \<open>riscv/rom.cc\<close>, the core-local interruptor of \<open>riscv/clint.cc\<close>, and the simulator's side of the
  memory interface (\<open>paddr_ok\<close>, \<open>mmio_load\<close>, \<open>mmio_store\<close>, \<open>addr_to_mem\<close> of \<open>riscv/sim.cc\<close>).

  The \<open>std::map\<close> of the bus is the list of its entries in the order of their addresses. The contents of
  a memory device are a function on offsets, so that a read past its end, which C leaves undefined, is
  some byte. A plugin is a shared object loaded at run time: all that is known is that it answers
  loads and stores and changes its state, which is what the codatatype says. The clock the
  interruptor reads in real-time mode is a field.
\<close>

section \<open>Bytes\<close>

type_synonym bytes = "u8 list"

primrec le_word :: "bytes \<Rightarrow> u64" where
  "le_word [] = 0"
| "le_word (b # bs) = ucast b OR push_bit 8 (le_word bs)"

definition le_bytes :: "nat \<Rightarrow> u64 \<Rightarrow> bytes" where
  "le_bytes n v = map (\<lambda>i. ucast (drop_bit (8 * i) v)) [0..<n]"

text \<open>\<open>memcpy\<close> into the bytes of an object, at an offset.\<close>

definition overwrite :: "nat \<Rightarrow> 'a list \<Rightarrow> 'a list \<Rightarrow> 'a list" where
  "overwrite off new old = take off old @ new @ drop (off + length new) old"

text \<open>The bytes of a vector of words of \<open>n\<close> bytes, and back.\<close>

definition vector_bytes :: "nat \<Rightarrow> u64 list \<Rightarrow> bytes" where
  "vector_bytes n vs = concat (map (le_bytes n) vs)"

definition vector_words :: "nat \<Rightarrow> nat \<Rightarrow> bytes \<Rightarrow> u64 list" where
  "vector_words n k bs = map (\<lambda>i. le_word (take n (drop (n * i) bs))) [0..<k]"

section \<open>Devices\<close>

record clint_t =
  mtime :: u64
  mtimecmp :: "u64 list"
  real_time :: bool
  freq_hz :: u64
  diff_usecs :: u64

codatatype plugin = Plugin (plugin_load: "u64 \<Rightarrow> nat \<Rightarrow> bytes option \<times> plugin") (plugin_store: "u64 \<Rightarrow> bytes \<Rightarrow> bool \<times> plugin")

datatype device = Mem_dev nat "u64 \<Rightarrow> u8" | Rom_dev bytes | Clint_dev | Plugin_dev plugin

text \<open>The simulator: the bus, the interruptor, and the pending interrupts of its harts.\<close>

record sim =
  devices :: "(u64 \<times> device) list"
  clint :: clint_t
  mips :: "u64 list"

primrec add_device :: "u64 \<Rightarrow> 'd \<Rightarrow> (u64 \<times> 'd) list \<Rightarrow> (u64 \<times> 'd) list" where
  "add_device a d [] = [(a, d)]"
| "add_device a d (x # xs) =
     (if a < fst x then (a, d) # x # xs else if a = fst x then (a, d) # xs else x # add_device a d xs)"

text \<open>The device with the greatest base address that is not above the address.\<close>

primrec find_device :: "u64 \<Rightarrow> (u64 \<times> 'd) list \<Rightarrow> (u64 \<times> 'd) option" where
  "find_device a [] = None"
| "find_device a (x # xs) =
     (if a < fst x then None else case find_device a xs of None \<Rightarrow> Some x | Some y \<Rightarrow> Some y)"

subsection \<open>The boot ROM\<close>

definition rom_load :: "bytes \<Rightarrow> u64 \<Rightarrow> nat \<Rightarrow> bytes option" where
  "rom_load data addr len =
     (if of_nat (length data) < addr + of_nat len then None else Some (take len (drop (unat addr) data)))"

subsection \<open>The core-local interruptor\<close>

abbreviation (input) MSIP_BASE :: u64 where "MSIP_BASE \<equiv> 0x0"
abbreviation (input) MTIMECMP_BASE :: u64 where "MTIMECMP_BASE \<equiv> 0x4000"
abbreviation (input) MTIME_BASE :: u64 where "MTIME_BASE \<equiv> 0xbff8"

definition clint_time :: "u64 \<Rightarrow> clint_t \<Rightarrow> u64" where
  "clint_time inc c = (if real_time c then diff_usecs c * freq_hz c div 1000000 else mtime c + inc)"

definition clint_increment :: "u64 \<Rightarrow> sim \<Rightarrow> sim" where
  "clint_increment inc s =
     (let c = clint s; c = c\<lparr>mtime := clint_time inc c\<rparr>
      in s\<lparr>clint := c,
           mips := map2 (\<lambda>cmp m. (m AND NOT MIP_MTIP) OR (if cmp \<le> mtime c then MIP_MTIP else 0)) (mtimecmp c) (mips s)\<rparr>)"

definition in_region :: "u64 \<Rightarrow> u64 \<Rightarrow> u64 \<Rightarrow> nat \<Rightarrow> bool" where
  "in_region base sz addr len = (base \<le> addr \<and> addr + of_nat len \<le> base + sz)"

definition clint_load :: "u64 \<Rightarrow> nat \<Rightarrow> sim \<Rightarrow> bytes option \<times> sim" where
  "clint_load addr len s0 =
     (let s = clint_increment 0 s0; n = length (mips s);
          copy = (\<lambda>bs base. Some (take len (drop (unat (addr - base)) bs)))
      in (if in_region MSIP_BASE (of_nat n * 4) addr len
          then copy (vector_bytes 4 (map (\<lambda>m. of_bool (m AND MIP_MSIP \<noteq> 0)) (mips s))) MSIP_BASE
          else if in_region MTIMECMP_BASE (of_nat n * 8) addr len
          then copy (vector_bytes 8 (mtimecmp (clint s))) MTIMECMP_BASE
          else if in_region MTIME_BASE 8 addr len
          then copy (le_bytes 8 (mtime (clint s))) MTIME_BASE
          else None, s))"

definition msip_write :: "u64 \<Rightarrow> u64 \<Rightarrow> u64 \<Rightarrow> u64" where
  "msip_write mk msip m =
     (if mk AND 0xFF = 0 then m else (m AND NOT MIP_MSIP) OR (if msip AND 1 \<noteq> 0 then MIP_MSIP else 0))"

definition clint_store :: "u64 \<Rightarrow> bytes \<Rightarrow> sim \<Rightarrow> bool \<times> sim" where
  "clint_store addr bytes s =
     (let n = length (mips s); len = length bytes; c = clint s
      in if in_region MSIP_BASE (of_nat n * 4) addr len
         then let off = unat (addr - MSIP_BASE);
                  msip = vector_words 4 n (overwrite off bytes (replicate (4 * n) 0));
                  mk = vector_words 4 n (overwrite off (replicate len 0xFF) (replicate (4 * n) 0))
              in (True, clint_increment 0 (s\<lparr>mips := map (\<lambda>(k, v, m). msip_write k v m) (zip mk (zip msip (mips s)))\<rparr>))
         else if in_region MTIMECMP_BASE (of_nat n * 8) addr len
         then (True, clint_increment 0 (s\<lparr>clint := c\<lparr>mtimecmp :=
                 vector_words 8 n (overwrite (unat (addr - MTIMECMP_BASE)) bytes (vector_bytes 8 (mtimecmp c)))\<rparr>\<rparr>))
         else if in_region MTIME_BASE 8 addr len
         then (True, clint_increment 0 (s\<lparr>clint := c\<lparr>mtime :=
                 le_word (overwrite (unat (addr - MTIME_BASE)) bytes (le_bytes 8 (mtime c)))\<rparr>\<rparr>))
         else (False, s))"

section \<open>The bus\<close>

definition bus_load :: "u64 \<Rightarrow> nat \<Rightarrow> sim \<Rightarrow> bytes option \<times> sim" where
  "bus_load addr len s =
     (case find_device addr (devices s) of
        None \<Rightarrow> (None, s)
      | Some (base, dev) \<Rightarrow>
          (case dev of
             Mem_dev sz contents \<Rightarrow> (None, s)
           | Rom_dev data \<Rightarrow> (rom_load data (addr - base) len, s)
           | Clint_dev \<Rightarrow> clint_load (addr - base) len s
           | Plugin_dev pl \<Rightarrow>
               (case plugin_load pl (addr - base) len of
                  (r, pl) \<Rightarrow> (r, s\<lparr>devices := add_device base (Plugin_dev pl) (devices s)\<rparr>))))"

definition bus_store :: "u64 \<Rightarrow> bytes \<Rightarrow> sim \<Rightarrow> bool \<times> sim" where
  "bus_store addr bytes s =
     (case find_device addr (devices s) of
        None \<Rightarrow> (False, s)
      | Some (base, dev) \<Rightarrow>
          (case dev of
             Mem_dev sz contents \<Rightarrow> (False, s)
           | Rom_dev data \<Rightarrow> (False, s)
           | Clint_dev \<Rightarrow> clint_store (addr - base) bytes s
           | Plugin_dev pl \<Rightarrow>
               (case plugin_store pl (addr - base) bytes of
                  (r, pl) \<Rightarrow> (r, s\<lparr>devices := add_device base (Plugin_dev pl) (devices s)\<rparr>))))"

section \<open>The simulator's interface\<close>

definition paddr_ok :: "u64 \<Rightarrow> bool" where "paddr_ok addr = (drop_bit MAX_PADDR_BITS addr = 0)"

definition sim_mmio_load :: "u64 \<Rightarrow> nat \<Rightarrow> sim \<Rightarrow> bytes option \<times> sim" where
  "sim_mmio_load addr len s =
     (if addr + of_nat len < addr \<or> \<not> paddr_ok (addr + of_nat len - 1) then (None, s) else bus_load addr len s)"

definition sim_mmio_store :: "u64 \<Rightarrow> bytes \<Rightarrow> sim \<Rightarrow> bool \<times> sim" where
  "sim_mmio_store addr bytes s =
     (let len = length bytes
      in if addr + of_nat len < addr \<or> \<not> paddr_ok (addr + of_nat len - 1) then (False, s) else bus_store addr bytes s)"

text \<open>A pointer into the host's memory: a memory device, by its base address, with an offset; or the
  two bytes \<open>fetch_temp\<close> of the memory management unit.\<close>

datatype ptr = Mem_ptr u64 u64 | Fetch_ptr u64

fun ptr_add :: "ptr \<Rightarrow> u64 \<Rightarrow> ptr" where
  "ptr_add (Mem_ptr base off) d = Mem_ptr base (off + d)"
| "ptr_add (Fetch_ptr off) d = Fetch_ptr (off + d)"

definition addr_to_mem :: "u64 \<Rightarrow> sim \<Rightarrow> ptr option" where
  "addr_to_mem addr s =
     (if \<not> paddr_ok addr then None
      else case find_device addr (devices s) of
             Some (base, Mem_dev sz contents) \<Rightarrow>
               (if addr - base < of_nat sz then Some (Mem_ptr base (addr - base)) else None)
           | _ \<Rightarrow> None)"

definition mem_contents :: "u64 \<Rightarrow> sim \<Rightarrow> u64 \<Rightarrow> u8" where
  "mem_contents base s =
     (case map_of (devices s) base of Some (Mem_dev sz contents) \<Rightarrow> contents | _ \<Rightarrow> (\<lambda>off. 0))"

definition mem_read :: "u64 \<Rightarrow> u64 \<Rightarrow> nat \<Rightarrow> sim \<Rightarrow> bytes" where
  "mem_read base off len s = map (\<lambda>i. mem_contents base s (off + of_nat i)) [0..<len]"

primrec put_bytes :: "u64 \<Rightarrow> bytes \<Rightarrow> (u64 \<Rightarrow> u8) \<Rightarrow> u64 \<Rightarrow> u8" where
  "put_bytes off [] f = f"
| "put_bytes off (b # bs) f = put_bytes (off + 1) bs (f(off := b))"

definition put_device :: "u64 \<Rightarrow> bytes \<Rightarrow> device \<Rightarrow> device" where
  "put_device off bytes d =
     (case d of Mem_dev sz contents \<Rightarrow> Mem_dev sz (put_bytes off bytes contents) | _ \<Rightarrow> d)"

definition mem_write :: "u64 \<Rightarrow> u64 \<Rightarrow> bytes \<Rightarrow> sim \<Rightarrow> sim" where
  "mem_write base off bytes s =
     s\<lparr>devices := map (\<lambda>(a, d). (a, if a = base then put_device off bytes d else d)) (devices s)\<rparr>"

end
