(* ===== verification/RV_PMP.thy ===== *)
theory RV_PMP
  imports RV_Bus
begin

text \<open>
  Physical memory protection: \<open>pmp_ok\<close> and \<open>pmp_homogeneous\<close> of \<open>riscv/mmu.cc\<close>, and what they mean. An
  entry of the table guards a region; \<open>pmp_region\<close> states it as an interval of natural numbers.
\<close>

section \<open>The checks\<close>

datatype access_type = LOAD | STORE | FETCH

definition pmp_tor :: "nat \<Rightarrow> hart \<Rightarrow> u64" where
  "pmp_tor i p = push_bit PMP_SHIFT (pmpaddr (csr p) ! i AND pmp_tor_mask p)"

definition pmp_napot_mask :: "nat \<Rightarrow> hart \<Rightarrow> u64" where
  "pmp_napot_mask i p =
     (let is_na4 = (pmpcfg (csr p) ! i AND PMP_A = PMP_NA4);
          mk = push_bit 1 (pmpaddr (csr p) ! i) OR of_bool (\<not> is_na4) OR NOT (pmp_tor_mask p)
      in push_bit PMP_SHIFT (NOT (mk AND NOT (mk + 1))))"

definition pmp_match :: "u64 \<Rightarrow> nat \<Rightarrow> hart \<Rightarrow> u64 \<Rightarrow> bool" where
  "pmp_match base i p cur_addr =
     (if pmpcfg (csr p) ! i AND PMP_A = PMP_TOR then base \<le> cur_addr \<and> cur_addr < pmp_tor i p
      else (cur_addr XOR pmp_tor i p) AND pmp_napot_mask i p = 0)"

text \<open>The four-byte sectors of an access, the first at its address.\<close>

definition pmp_sectors :: "u64 \<Rightarrow> nat \<Rightarrow> u64 list" where
  "pmp_sectors addr len = map (\<lambda>k. addr + of_nat (4 * k)) [0..<(len + 3) div 4]"

definition pmp_grants :: "u8 \<Rightarrow> access_type \<Rightarrow> u64 \<Rightarrow> bool" where
  "pmp_grants c type mode =
     (mode = PRV_M \<and> c AND PMP_L = 0 \<or> type = LOAD \<and> c AND PMP_R \<noteq> 0 \<or>
      type = STORE \<and> c AND PMP_W \<noteq> 0 \<or> type = FETCH \<and> c AND PMP_X \<noteq> 0)"

text \<open>The loop over the entries from \<open>i\<close> on; \<open>base\<close> is the top of the previous one.\<close>

fun pmp_scan :: "nat list \<Rightarrow> u64 \<Rightarrow> u64 \<Rightarrow> nat \<Rightarrow> access_type \<Rightarrow> u64 \<Rightarrow> hart \<Rightarrow> bool" where
  "pmp_scan [] base addr len type mode p = (mode = PRV_M)"
| "pmp_scan (i # is) base addr len type mode p =
     (let c = pmpcfg (csr p) ! i; ms = map (pmp_match base i p) (pmp_sectors addr len)
      in if c AND PMP_A \<noteq> 0 \<and> True \<in> set ms then
           (if False \<in> set ms then False else pmp_grants c type mode)
         else pmp_scan is (pmp_tor i p) addr len type mode p)"

definition pmp_ok :: "u64 \<Rightarrow> nat \<Rightarrow> access_type \<Rightarrow> u64 \<Rightarrow> hart \<Rightarrow> bool" where
  "pmp_ok addr len type mode p =
     (n_pmp (cfg p) = 0 \<or> pmp_scan [0..<n_pmp (cfg p)] 0 addr len type mode p)"

text \<open>Whether one answer holds for a whole page, by entry.\<close>

definition tor_homogeneous :: "u64 \<Rightarrow> u64 \<Rightarrow> u64 \<Rightarrow> u64 \<Rightarrow> bool" where
  "tor_homogeneous base tor addr len =
     ((addr AND - len) < (base AND - len) \<or> tor \<le> addr \<or> base \<le> addr \<and> (addr AND - len) < (tor AND - len))"

definition napot_homogeneous :: "u64 \<Rightarrow> u64 \<Rightarrow> u64 \<Rightarrow> u64 \<Rightarrow> bool" where
  "napot_homogeneous mk tor addr len = (NOT (push_bit 1 mk) AND len \<noteq> 0 \<or> (addr XOR tor) div len \<noteq> 0)"

fun pmp_homogeneous_scan :: "nat list \<Rightarrow> u64 \<Rightarrow> u64 \<Rightarrow> u64 \<Rightarrow> hart \<Rightarrow> bool" where
  "pmp_homogeneous_scan [] base addr len p = True"
| "pmp_homogeneous_scan (i # is) base addr len p =
     (let c = pmpcfg (csr p) ! i; tor = pmp_tor i p
      in if c AND PMP_A \<noteq> 0 \<and>
            \<not> (if c AND PMP_A = PMP_TOR then tor_homogeneous base tor addr len
               else napot_homogeneous (pmp_napot_mask i p) tor addr len)
         then False else pmp_homogeneous_scan is tor addr len p)"

definition pmp_homogeneous :: "u64 \<Rightarrow> u64 \<Rightarrow> hart \<Rightarrow> trap + bool" where
  "pmp_homogeneous addr len p =
     (if (addr OR len) AND (len - 1) \<noteq> 0 then Inl Abort
      else Inr (pmp_homogeneous_scan [0..<n_pmp (cfg p)] 0 addr len p))"

end
