(* ===== verification/RV_Translate.thy ===== *)
theory RV_Translate
  imports RV_PMP
begin

text \<open>
  Address translation: \<open>decode_vm_info\<close> of \<open>riscv/mmu.h\<close>, and \<open>s2xlate\<close>, \<open>walk\<close> and the choice of the
  effective mode in \<open>translate\<close> of \<open>riscv/mmu.cc\<close>. The walk only reads, since \<open>RISCV_ENABLE_DIRTY\<close> is
  undefined. A shift by the width of the word or more, or by a negative amount, which the Sv57 and
  Sv64 modes and a 32-bit mode on a 64-bit hart can reach and C leaves undefined, takes the amount
  modulo 64.
\<close>

section \<open>Translation schemes\<close>

abbreviation (input) PGSIZE :: u64 where "PGSIZE \<equiv> 4096"

record vm_info =
  levels :: nat
  idxbits :: nat
  widenbits :: nat
  ptesize :: nat
  ptbase :: u64

definition vm_off :: vm_info where
  "vm_off = \<lparr>levels = 0, idxbits = 0, widenbits = 0, ptesize = 0, ptbase = 0\<rparr>"

definition vm_table :: "nat \<Rightarrow> nat \<Rightarrow> nat \<Rightarrow> nat \<Rightarrow> u64 \<Rightarrow> trap + vm_info" where
  "vm_table l i w z ppn = Inr \<lparr>levels = l, idxbits = i, widenbits = w, ptesize = z, ptbase = push_bit PGSHIFT ppn\<rparr>"

abbreviation (input) SATP32_MODE :: u64 where "SATP32_MODE \<equiv> 0x80000000"
abbreviation (input) SATP32_PPN :: u64 where "SATP32_PPN \<equiv> 0x003FFFFF"
abbreviation (input) SATP64_MODE :: u64 where "SATP64_MODE \<equiv> 0xF000000000000000"
abbreviation (input) SATP64_PPN :: u64 where "SATP64_PPN \<equiv> 0x00000FFFFFFFFFFF"
abbreviation (input) HGATP32_MODE :: u64 where "HGATP32_MODE \<equiv> 0x80000000"
abbreviation (input) HGATP32_PPN :: u64 where "HGATP32_PPN \<equiv> 0x003FFFFF"
abbreviation (input) HGATP64_MODE :: u64 where "HGATP64_MODE \<equiv> 0xF000000000000000"
abbreviation (input) HGATP64_PPN :: u64 where "HGATP64_PPN \<equiv> 0x00000FFFFFFFFFFF"

definition decode_vm_info :: "nat \<Rightarrow> bool \<Rightarrow> u64 \<Rightarrow> u64 \<Rightarrow> trap + vm_info" where
  "decode_vm_info xlen stage2 mode atp =
     (if mode = PRV_M then Inr vm_off
      else if \<not> stage2 \<and> mode \<le> PRV_S \<and> xlen = 32
      then (let m = get_field atp SATP32_MODE in
            if m = 0 then Inr vm_off
            else if m = 1 then vm_table 2 10 0 4 (atp AND SATP32_PPN)
            else Inl Abort)
      else if \<not> stage2 \<and> mode \<le> PRV_S \<and> xlen = 64
      then (let m = get_field atp SATP64_MODE in
            if m = 0 then Inr vm_off
            else if m = 8 then vm_table 3 9 0 8 (atp AND SATP64_PPN)
            else if m = 9 then vm_table 4 9 0 8 (atp AND SATP64_PPN)
            else if m = 10 then vm_table 5 9 0 8 (atp AND SATP64_PPN)
            else if m = 11 then vm_table 6 9 0 8 (atp AND SATP64_PPN)
            else Inl Abort)
      else if stage2 \<and> xlen = 32
      then (let m = get_field atp HGATP32_MODE in
            if m = 0 then Inr vm_off
            else if m = 1 then vm_table 2 10 2 4 (atp AND HGATP32_PPN)
            else Inl Abort)
      else if stage2 \<and> xlen = 64
      then (let m = get_field atp HGATP64_MODE in
            if m = 0 then Inr vm_off
            else if m = 8 then vm_table 3 9 2 8 (atp AND HGATP64_PPN)
            else if m = 9 then vm_table 4 9 2 8 (atp AND HGATP64_PPN)
            else Inl Abort)
      else Inl Abort)"

section \<open>Faults\<close>

definition access_fault :: "access_type \<Rightarrow> u64 \<Rightarrow> trap" where
  "access_fault type addr =
     (case type of FETCH \<Rightarrow> Trap_instruction_access_fault addr 0 0
      | LOAD \<Rightarrow> Trap_load_access_fault addr 0 0 | STORE \<Rightarrow> Trap_store_access_fault addr 0 0)"

definition page_fault :: "access_type \<Rightarrow> u64 \<Rightarrow> trap" where
  "page_fault type addr =
     (case type of FETCH \<Rightarrow> Trap_instruction_page_fault addr 0 0
      | LOAD \<Rightarrow> Trap_load_page_fault addr 0 0 | STORE \<Rightarrow> Trap_store_page_fault addr 0 0)"

definition guest_page_fault :: "access_type \<Rightarrow> u64 \<Rightarrow> u64 \<Rightarrow> trap" where
  "guest_page_fault type gva gpa =
     (case type of FETCH \<Rightarrow> Trap_instruction_guest_page_fault gva (drop_bit 2 gpa) 0
      | LOAD \<Rightarrow> Trap_load_guest_page_fault gva (drop_bit 2 gpa) 0
      | STORE \<Rightarrow> Trap_store_guest_page_fault gva (drop_bit 2 gpa) 0)"

section \<open>Page table entries\<close>

abbreviation (input) PTE_V :: u64 where "PTE_V \<equiv> 0x001"
abbreviation (input) PTE_R :: u64 where "PTE_R \<equiv> 0x002"
abbreviation (input) PTE_W :: u64 where "PTE_W \<equiv> 0x004"
abbreviation (input) PTE_X :: u64 where "PTE_X \<equiv> 0x008"
abbreviation (input) PTE_U :: u64 where "PTE_U \<equiv> 0x010"
abbreviation (input) PTE_A :: u64 where "PTE_A \<equiv> 0x040"
abbreviation (input) PTE_D :: u64 where "PTE_D \<equiv> 0x080"

definition PTE_TABLE :: "u64 \<Rightarrow> bool" where
  "PTE_TABLE pte = (pte AND (PTE_V OR PTE_R OR PTE_W OR PTE_X) = PTE_V)"

definition pte_ppn :: "u64 \<Rightarrow> u64" where "pte_ppn pte = drop_bit 10 pte"

text \<open>The reasons for which a leaf ends the walk without a translation.\<close>

definition pte_invalid :: "u64 \<Rightarrow> bool" where
  "pte_invalid pte = (pte AND PTE_V = 0 \<or> pte AND PTE_R = 0 \<and> pte AND PTE_W \<noteq> 0)"

definition pte_forbids :: "access_type \<Rightarrow> bool \<Rightarrow> u64 \<Rightarrow> bool" where
  "pte_forbids type mxr pte =
     (case type of FETCH \<Rightarrow> pte AND PTE_X = 0
      | LOAD \<Rightarrow> pte AND PTE_R = 0 \<and> \<not> (mxr \<and> pte AND PTE_X \<noteq> 0)
      | STORE \<Rightarrow> \<not> (pte AND PTE_R \<noteq> 0 \<and> pte AND PTE_W \<noteq> 0))"

definition pte_misaligned :: "nat \<Rightarrow> u64 \<Rightarrow> bool" where
  "pte_misaligned ptshift pte = (pte_ppn pte AND (push_bit ptshift 1 - 1) \<noteq> 0)"

definition pte_stale :: "access_type \<Rightarrow> u64 \<Rightarrow> bool" where
  "pte_stale type pte = (let ad = PTE_A OR (if type = STORE then PTE_D else 0) in pte AND ad \<noteq> ad)"

definition pte_page_base :: "nat \<Rightarrow> u64 \<Rightarrow> u64 \<Rightarrow> u64" where
  "pte_page_base ptshift addr pte =
     (let vpn = drop_bit PGSHIFT addr in push_bit PGSHIFT (pte_ppn pte OR (vpn AND (push_bit ptshift 1 - 1))))"

definition read_pte :: "u64 \<Rightarrow> nat \<Rightarrow> sim \<Rightarrow> hart \<Rightarrow> u64 option" where
  "read_pte pte_paddr z s p =
     (case addr_to_mem pte_paddr s of
        Some (Mem_ptr base off) \<Rightarrow>
          (if pmp_ok pte_paddr z LOAD PRV_S p then Some (le_word (mem_read base off z s)) else None)
      | _ \<Rightarrow> None)"

section \<open>The second stage\<close>

text \<open>The loop over the levels: \<open>Suc i\<close> levels are left when level \<open>i\<close> is looked at.\<close>

primrec s2_walk :: "nat \<Rightarrow> u64 \<Rightarrow> vm_info \<Rightarrow> u64 \<Rightarrow> u64 \<Rightarrow> access_type \<Rightarrow> bool \<Rightarrow> sim \<Rightarrow> hart \<Rightarrow> trap + u64" where
  "s2_walk 0 base vm gva gpa type mxr s p = Inl (guest_page_fault type gva gpa)"
| "s2_walk (Suc i) base vm gva gpa type mxr s p =
     (let ptshift = i * idxbits vm;
          bits = (if i = levels vm - 1 then idxbits vm + widenbits vm else idxbits vm);
          idx = drop_bit (PGSHIFT + ptshift) gpa AND (push_bit bits 1 - 1);
          pte_paddr = base + idx * of_nat (ptesize vm)
      in case read_pte pte_paddr (ptesize vm) s p of
           None \<Rightarrow> Inl (access_fault type gva)
         | Some pte \<Rightarrow>
             (if PTE_TABLE pte then s2_walk i (push_bit PGSHIFT (pte_ppn pte)) vm gva gpa type mxr s p
              else if pte_invalid pte \<or> pte AND PTE_U = 0 \<or> pte_forbids type mxr pte \<or>
                      pte_misaligned ptshift pte \<or> pte_stale type pte
              then Inl (guest_page_fault type gva gpa)
              else Inr (pte_page_base ptshift gpa pte OR (gpa AND (PGSIZE - 1)))))"

definition s2xlate :: "u64 \<Rightarrow> u64 \<Rightarrow> access_type \<Rightarrow> bool \<Rightarrow> bool \<Rightarrow> sim \<Rightarrow> hart \<Rightarrow> trap + u64" where
  "s2xlate gva gpa type vt mxr s p =
     (if \<not> vt then Inr gpa
      else and_then (decode_vm_info (max_xlen (cfg p)) True 0 (hgatp (csr p))) (\<lambda>vm.
           if levels vm = 0 then Inr gpa else s2_walk (levels vm) (ptbase vm) vm gva gpa type mxr s p))"

section \<open>The first stage\<close>

definition pte_user_fault :: "access_type \<Rightarrow> u64 \<Rightarrow> hart \<Rightarrow> u64 \<Rightarrow> bool" where
  "pte_user_fault type mode p pte =
     (let s_mode = (mode = PRV_S); sum = get_field (mstatus p) MSTATUS_SUM \<noteq> 0
      in if pte AND PTE_U \<noteq> 0 then s_mode \<and> (type = FETCH \<or> \<not> sum) else \<not> s_mode)"

primrec s1_walk :: "nat \<Rightarrow> u64 \<Rightarrow> vm_info \<Rightarrow> u64 \<Rightarrow> access_type \<Rightarrow> u64 \<Rightarrow> bool \<Rightarrow> bool \<Rightarrow> sim \<Rightarrow> hart \<Rightarrow> trap + u64" where
  "s1_walk 0 base vm addr type mode vt mxr s p = Inl (page_fault type addr)"
| "s1_walk (Suc i) base vm addr type mode vt mxr s p =
     (let ptshift = i * idxbits vm;
          idx = drop_bit (PGSHIFT + ptshift) addr AND (push_bit (idxbits vm) 1 - 1)
      in and_then (s2xlate addr (base + idx * of_nat (ptesize vm)) LOAD vt False s p) (\<lambda>pte_paddr.
         case read_pte pte_paddr (ptesize vm) s p of
           None \<Rightarrow> Inl (access_fault type addr)
         | Some pte \<Rightarrow>
             (if PTE_TABLE pte then s1_walk i (push_bit PGSHIFT (pte_ppn pte)) vm addr type mode vt mxr s p
              else if pte_user_fault type mode p pte \<or> pte_invalid pte \<or> pte_forbids type mxr pte \<or>
                      pte_misaligned ptshift pte \<or> pte_stale type pte
              then Inl (page_fault type addr)
              else and_then (s2xlate addr (pte_page_base ptshift addr pte OR (addr AND (PGSIZE - 1))) type vt mxr s p) (\<lambda>pa.
                   Inr (pa AND NOT (PGSIZE - 1))))))"

text \<open>Bits \<open>va_bits - 1\<close> and up of an address must all be equal.\<close>

definition va_canonical :: "nat \<Rightarrow> nat \<Rightarrow> u64 \<Rightarrow> bool" where
  "va_canonical xlen va_bits addr =
     (let mk = push_bit (nat ((int xlen - (int va_bits - 1)) mod 64)) 1 - 1 :: u64;
          masked_msbs = drop_bit ((va_bits - 1) mod 64) addr AND mk
      in masked_msbs = 0 \<or> masked_msbs = mk)"

definition walk :: "u64 \<Rightarrow> access_type \<Rightarrow> u64 \<Rightarrow> bool \<Rightarrow> bool \<Rightarrow> sim \<Rightarrow> hart \<Rightarrow> trap + u64" where
  "walk addr type mode vt mxr s p =
     and_then (decode_vm_info (max_xlen (cfg p)) False mode (if vt then vsatp (csr p) else satp (csr p))) (\<lambda>vm.
       if levels vm = 0
       then and_then (s2xlate addr (addr AND (push_bit (cur_xlen p - 1) 2 - 1)) type vt mxr s p) (\<lambda>pa.
            Inr (pa AND NOT (PGSIZE - 1)))
       else let va_bits = PGSHIFT + levels vm * idxbits vm;
                n = (if va_canonical (cur_xlen p) va_bits addr then levels vm else 0)
            in s1_walk n (ptbase vm) vm addr type mode vt mxr s p)"

section \<open>The effective mode\<close>

abbreviation (input) XLATE_VIRT :: u32 where "XLATE_VIRT \<equiv> 1"
abbreviation (input) XLATE_VIRT_MXR :: u32 where "XLATE_VIRT_MXR \<equiv> 2"

text \<open>The mode, whether the address is a guest's, and whether execution permission allows a load.\<close>

definition effective_mode :: "access_type \<Rightarrow> u32 \<Rightarrow> hart \<Rightarrow> u64 \<times> bool \<times> bool" where
  "effective_mode type flags p =
     (let mxr = get_field (mstatus p) MSTATUS_MXR \<noteq> 0; vt = virt p; mode = prv p
      in if type = FETCH then (mode, vt, mxr)
         else let mprv = (\<not> debug_mode (csr p) \<and> get_field (mstatus p) MSTATUS_MPRV \<noteq> 0);
                  (mode, vt) = (if mprv then (get_field (mstatus p) MSTATUS_MPP, vt \<or> get_field (mstatus p) MSTATUS_MPV \<noteq> 0)
                                else (mode, vt))
              in if \<not> debug_mode (csr p) \<and> flags AND XLATE_VIRT \<noteq> 0
                 then (get_field (hstatus (csr p)) HSTATUS_SPVP, True, mxr \<or> type = LOAD \<and> flags AND XLATE_VIRT_MXR \<noteq> 0)
                 else (mode, vt, mxr))"

definition translate :: "u64 \<Rightarrow> nat \<Rightarrow> access_type \<Rightarrow> u32 \<Rightarrow> sim \<Rightarrow> hart \<Rightarrow> trap + u64" where
  "translate addr len type flags s p =
     (case effective_mode type flags p of (mode, vt, mxr) \<Rightarrow>
        and_then (walk addr type mode vt mxr s p) (\<lambda>pa.
          let paddr = pa OR (addr AND (PGSIZE - 1))
          in if pmp_ok paddr len type mode p then Inr paddr else Inl (access_fault type addr)))"

end
