(* ===== verification/RV_MMU.thy ===== *)
theory RV_MMU
  imports RV_Translate RV_Decoder RV_Trap
begin

text \<open>
  The memory management unit (\<open>riscv/mmu.h\<close>, \<open>riscv/mmu.cc\<close>) over the machine: a hart, its unit, its
  decoder and the simulator. The unit caches translations in a direct-mapped buffer of 256 entries with
  three arrays of tags, and decoded instructions in 1024 entries; a page with a trigger has its tags
  marked. An operation takes the machine and gives a value or what it throws, with the machine it
  leaves. The triggers are \<open>trigger_match\<close> of \<open>riscv/processor.h\<close>.

  A pointer into host memory is a memory device and an offset, so that \<open>host_offset\<close> is a pointer
  moved back by the virtual address; reads through it are reads of the device's bytes.
  \<open>RISCV_ENABLE_MISALIGNED\<close> is undefined. In a trigger of type \<open>MATCH_NAPOT\<close> a shift of a 32-bit int
  by 32 or more, which C leaves undefined, takes the amount modulo 32.
\<close>

section \<open>State\<close>

datatype trigger_operation = OPERATION_EXECUTE | OPERATION_STORE | OPERATION_LOAD

record trigger_matched_t =
  tm_index :: nat
  tm_operation :: trigger_operation
  tm_address :: u64
  tm_data :: u64

record tlb_entry_t =
  host_offset :: ptr
  target_offset :: u64

record 'f icache_entry_t =
  ic_tag :: u64
  ic_next :: nat
  ic_func :: 'f
  ic_insn :: u64

record 'f mmu_t =
  load_reservation_address :: u64
  fetch_temp :: u16
  icache :: "nat \<Rightarrow> 'f icache_entry_t"
  tlb_data :: "nat \<Rightarrow> tlb_entry_t"
  tlb_insn_tag :: "nat \<Rightarrow> u64"
  tlb_load_tag :: "nat \<Rightarrow> u64"
  tlb_store_tag :: "nat \<Rightarrow> u64"
  check_triggers_fetch :: bool
  check_triggers_load :: bool
  check_triggers_store :: bool
  matched_trigger :: "trigger_matched_t option"
  tracers :: "(u64 \<Rightarrow> u64 \<Rightarrow> access_type \<Rightarrow> bool) list"

record 'f machine =
  core :: hart
  core_id :: nat
  mmu :: "'f mmu_t"
  decoder :: "'f decoder"
  host :: sim

abbreviation (input) ICACHE_ENTRIES :: nat where "ICACHE_ENTRIES \<equiv> 1024"
abbreviation (input) TLB_ENTRIES :: u64 where "TLB_ENTRIES \<equiv> 256"
abbreviation (input) TLB_CHECK_TRIGGERS :: u64 where "TLB_CHECK_TRIGGERS \<equiv> 0x8000000000000000"

section \<open>Running\<close>

datatype exn = Trap trap | Trigger trigger_matched_t

type_synonym ('f, 'a) run = "'f machine \<Rightarrow> (exn + 'a) \<times> 'f machine"

definition ret :: "'a \<Rightarrow> ('f, 'a) run" where "ret x m = (Inr x, m)"
definition throw :: "exn \<Rightarrow> ('f, 'a) run" where "throw e m = (Inl e, m)"

definition bind_run :: "('f, 'a) run \<Rightarrow> ('a \<Rightarrow> ('f, 'b) run) \<Rightarrow> ('f, 'b) run" where
  "bind_run r k m = (case r m of (Inl e, m') \<Rightarrow> (Inl e, m') | (Inr x, m') \<Rightarrow> k x m')"

definition of_trap :: "trap + 'a \<Rightarrow> ('f, 'a) run" where
  "of_trap r = (case r of Inl t \<Rightarrow> throw (Trap t) | Inr x \<Rightarrow> ret x)"

definition on_mmu :: "('f mmu_t \<Rightarrow> 'f mmu_t) \<Rightarrow> ('f, unit) run" where
  "on_mmu f m = (Inr (), m\<lparr>mmu := f (mmu m)\<rparr>)"

text \<open>The devices see the pending interrupts of every hart; those of this one are its own register.\<close>

definition on_devices :: "(sim \<Rightarrow> 'a \<times> sim) \<Rightarrow> ('f, 'a) run" where
  "on_devices f m =
     (let s = host m; i = core_id m;
          (r, s) = f (s\<lparr>mips := (mips s)[i := mip (csr (core m))]\<rparr>)
      in (Inr r, m\<lparr>host := s, core := csr_update (mip_update (\<lambda>_. mips s ! i)) (core m)\<rparr>))"

section \<open>Host memory\<close>

fun host_read :: "ptr \<Rightarrow> nat \<Rightarrow> 'f machine \<Rightarrow> bytes" where
  "host_read (Mem_ptr base off) len m = mem_read base off len (host m)"
| "host_read (Fetch_ptr off) len m = take len (drop (unat off) (le_bytes 2 (ucast (fetch_temp (mmu m)))))"

fun host_write :: "ptr \<Rightarrow> bytes \<Rightarrow> 'f machine \<Rightarrow> 'f machine" where
  "host_write (Mem_ptr base off) bytes m = m\<lparr>host := mem_write base off bytes (host m)\<rparr>"
| "host_write (Fetch_ptr off) bytes m =
     m\<lparr>mmu := (mmu m)\<lparr>fetch_temp := ucast (le_word (overwrite (unat off) bytes (le_bytes 2 (ucast (fetch_temp (mmu m))))))\<rparr>\<rparr>"

section \<open>Triggers\<close>

function cto_loop :: "u64 \<Rightarrow> nat \<Rightarrow> nat" where
  "cto_loop v res = (if v AND 1 = 1 then cto_loop (drop_bit 1 v) (res + 1) else res)"
  by auto

termination
  by (relation "measure (\<lambda>(v, res). unat v)") (auto intro!: drop_bit_less [simplified])

declare cto_loop.simps [simp del]

definition cto :: "u64 \<Rightarrow> nat" where "cto v = cto_loop v 0"

abbreviation (input) MATCH_EQUAL :: u64 where "MATCH_EQUAL \<equiv> 0"
abbreviation (input) MATCH_NAPOT :: u64 where "MATCH_NAPOT \<equiv> 1"
abbreviation (input) MATCH_GE :: u64 where "MATCH_GE \<equiv> 2"
abbreviation (input) MATCH_LT :: u64 where "MATCH_LT \<equiv> 3"
abbreviation (input) MATCH_MASK_LOW :: u64 where "MATCH_MASK_LOW \<equiv> 4"
abbreviation (input) MATCH_MASK_HIGH :: u64 where "MATCH_MASK_HIGH \<equiv> 5"

text \<open>Whether the trigger watches this operation in this mode.\<close>

definition trigger_applies :: "mcontrol_t \<Rightarrow> trigger_operation \<Rightarrow> hart \<Rightarrow> bool" where
  "trigger_applies mc operation p =
     (\<not> (operation = OPERATION_EXECUTE \<and> \<not> mc_execute mc \<or> operation = OPERATION_STORE \<and> \<not> mc_store mc \<or>
         operation = OPERATION_LOAD \<and> \<not> mc_load mc \<or> prv p = PRV_M \<and> \<not> mc_m mc \<or>
         prv p = PRV_S \<and> \<not> mc_s mc \<or> prv p = PRV_U \<and> \<not> mc_u mc))"

definition trigger_value_ok :: "mcontrol_t \<Rightarrow> u64 \<Rightarrow> u64 \<Rightarrow> u64 \<Rightarrow> hart \<Rightarrow> bool" where
  "trigger_value_ok mc td2 address data p =
     (let v = (if mc_select mc then data else address);
          v = (if cur_xlen p = 32 then v AND 0xffffffff else v);
          half = cur_xlen p div 2
      in if mc_match mc = MATCH_EQUAL then v = td2
         else if mc_match mc = MATCH_NAPOT
         then let mk = scast (NOT (push_bit ((cto td2 + 1) mod 32) 1 - 1 :: u32)) in v AND mk = td2 AND mk
         else if mc_match mc = MATCH_GE then \<not> v < td2
         else if mc_match mc = MATCH_LT then \<not> td2 \<le> v
         else if mc_match mc = MATCH_MASK_LOW then let mk = drop_bit half td2 in v AND mk = td2 AND mk
         else if mc_match mc = MATCH_MASK_HIGH then let mk = drop_bit half td2 in drop_bit half v AND mk = td2 AND mk
         else True)"

fun trigger_scan :: "nat list \<Rightarrow> bool \<Rightarrow> trigger_operation \<Rightarrow> u64 \<Rightarrow> u64 \<Rightarrow> hart \<Rightarrow> nat option" where
  "trigger_scan [] chain_ok operation address data p = None"
| "trigger_scan (i # is) chain_ok operation address data p =
     (let mc = mcontrol (csr p) ! i
      in if \<not> chain_ok then trigger_scan is (chain_ok \<or> \<not> mc_chain mc) operation address data p
         else if \<not> trigger_applies mc operation p then trigger_scan is chain_ok operation address data p
         else if \<not> trigger_value_ok mc (tdata2 (csr p) ! i) address data p then trigger_scan is chain_ok operation address data p
         else if \<not> mc_chain mc then Some i
         else trigger_scan is True operation address data p)"

definition trigger_match :: "trigger_operation \<Rightarrow> u64 \<Rightarrow> u64 \<Rightarrow> hart \<Rightarrow> nat option" where
  "trigger_match operation address data p =
     (if debug_mode (csr p) then None else trigger_scan [0..<num_triggers] True operation address data p)"

text \<open>A trigger that fires before the access is thrown; one that fires after it is returned.\<close>

definition trigger_exception :: "trigger_operation \<Rightarrow> u64 \<Rightarrow> u64 \<Rightarrow> ('f, trigger_matched_t option) run" where
  "trigger_exception operation address data m =
     (case trigger_match operation address data (core m) of
        None \<Rightarrow> ret None m
      | Some i \<Rightarrow>
          (let t = \<lparr>tm_index = i, tm_operation = operation, tm_address = address, tm_data = data\<rparr>
           in if \<not> mc_timing (mcontrol (csr (core m)) ! i) then throw (Trigger t) m else ret (Some t) m))"

text \<open>Unless the instruction is being executed again after a trigger, a match is noted and thrown.\<close>

definition check_trigger :: "trigger_operation \<Rightarrow> u64 \<Rightarrow> u64 \<Rightarrow> ('f, unit) run" where
  "check_trigger operation address data m =
     (if matched_trigger (mmu m) \<noteq> None then ret () m
      else bind_run (trigger_exception operation address data) (\<lambda>r.
             bind_run (on_mmu (matched_trigger_update (\<lambda>_. r))) (\<lambda>_.
             case r of None \<Rightarrow> ret () | Some t \<Rightarrow> throw (Trigger t))) m)"

section \<open>The translation buffer\<close>

definition flush_icache :: "'f mmu_t \<Rightarrow> 'f mmu_t" where
  "flush_icache u = u\<lparr>icache := \<lambda>i. (icache u i)\<lparr>ic_tag := - 1\<rparr>\<rparr>"

definition flush_tlb :: "'f mmu_t \<Rightarrow> 'f mmu_t" where
  "flush_tlb u = flush_icache (u\<lparr>tlb_insn_tag := \<lambda>_. - 1, tlb_load_tag := \<lambda>_. - 1, tlb_store_tag := \<lambda>_. - 1\<rparr>)"

text \<open>The constructor; the icache entries are indeterminate but for their tags.\<close>

definition mmu_init :: "'f mmu_t \<Rightarrow> 'f mmu_t" where
  "mmu_init u =
     (flush_tlb (u\<lparr>check_triggers_fetch := False, check_triggers_load := False, check_triggers_store := False,
        matched_trigger := None, tracers := []\<rparr>))\<lparr>load_reservation_address := - 1\<rparr>"

definition vpn_of :: "u64 \<Rightarrow> u64" where "vpn_of addr = drop_bit PGSHIFT addr"
definition tlb_index :: "u64 \<Rightarrow> nat" where "tlb_index addr = unat (vpn_of addr mod TLB_ENTRIES)"

definition drop_other_tag :: "u64 \<Rightarrow> u64 \<Rightarrow> u64" where
  "drop_other_tag vpn tag = (if tag AND NOT TLB_CHECK_TRIGGERS \<noteq> vpn then - 1 else tag)"

text \<open>\<open>interested_in_range\<close> of the list of tracers.\<close>

definition traced :: "u64 \<Rightarrow> u64 \<Rightarrow> access_type \<Rightarrow> 'f machine \<Rightarrow> bool" where
  "traced lo hi type m = list_ex (\<lambda>t. t lo hi type) (tracers (mmu m))"

definition refill_tlb :: "u64 \<Rightarrow> u64 \<Rightarrow> ptr \<Rightarrow> access_type \<Rightarrow> ('f, tlb_entry_t) run" where
  "refill_tlb vaddr paddr host_addr type m =
     bind_run (of_trap (pmp_homogeneous (paddr AND NOT (PGSIZE - 1)) PGSIZE (core m))) (\<lambda>homogeneous m.
       let u = mmu m; idx = tlb_index vaddr; vpn = vpn_of vaddr;
           u = u\<lparr>tlb_load_tag := (tlb_load_tag u)(idx := drop_other_tag vpn (tlb_load_tag u idx)),
                 tlb_store_tag := (tlb_store_tag u)(idx := drop_other_tag vpn (tlb_store_tag u idx)),
                 tlb_insn_tag := (tlb_insn_tag u)(idx := drop_other_tag vpn (tlb_insn_tag u idx))\<rparr>;
           checked = check_triggers_fetch u \<and> type = FETCH \<or> check_triggers_load u \<and> type = LOAD \<or>
                     check_triggers_store u \<and> type = STORE;
           tag = (if checked then vpn OR TLB_CHECK_TRIGGERS else vpn);
           u = (if \<not> homogeneous then u
                else case type of FETCH \<Rightarrow> u\<lparr>tlb_insn_tag := (tlb_insn_tag u)(idx := tag)\<rparr>
                     | STORE \<Rightarrow> u\<lparr>tlb_store_tag := (tlb_store_tag u)(idx := tag)\<rparr>
                     | LOAD \<Rightarrow> u\<lparr>tlb_load_tag := (tlb_load_tag u)(idx := tag)\<rparr>);
           entry = \<lparr>host_offset = ptr_add host_addr (- vaddr), target_offset = paddr - vaddr\<rparr>
       in (Inr entry, m\<lparr>mmu := u\<lparr>tlb_data := (tlb_data u)(idx := entry)\<rparr>\<rparr>)) m"

section \<open>Devices\<close>

abbreviation (input) DEBUG_START :: u64 where "DEBUG_START \<equiv> 0x0"
abbreviation (input) DEBUG_END :: u64 where "DEBUG_END \<equiv> 0x1000 - 1"

definition mmio_ok :: "u64 \<Rightarrow> 'f machine \<Rightarrow> bool" where
  "mmio_ok addr m = (\<not> (DEBUG_START \<le> addr \<and> addr \<le> DEBUG_END \<and> \<not> debug_mode (csr (core m))))"

definition mmio_load :: "u64 \<Rightarrow> nat \<Rightarrow> ('f, bytes option) run" where
  "mmio_load addr len m = (if \<not> mmio_ok addr m then ret None m else on_devices (sim_mmio_load addr len) m)"

definition mmio_store :: "u64 \<Rightarrow> bytes \<Rightarrow> ('f, bool) run" where
  "mmio_store addr bytes m = (if \<not> mmio_ok addr m then ret False m else on_devices (sim_mmio_store addr bytes) m)"

section \<open>Loads and stores\<close>

definition translate_run :: "u64 \<Rightarrow> nat \<Rightarrow> access_type \<Rightarrow> u32 \<Rightarrow> ('f, u64) run" where
  "translate_run addr len type flags m = of_trap (translate addr len type flags (host m) (core m)) m"

text \<open>\<open>reg_from_bytes\<close>, which aborts on lengths the callers never pass.\<close>

definition reg_from_bytes :: "nat \<Rightarrow> bytes \<Rightarrow> trap + u64" where
  "reg_from_bytes len bytes = (if len \<in> {1, 2, 4, 8} then Inr (le_word (take len bytes)) else Inl Abort)"

definition load_slow_path :: "u64 \<Rightarrow> nat \<Rightarrow> u32 \<Rightarrow> ('f, bytes) run" where
  "load_slow_path addr len flags =
     bind_run (translate_run addr len LOAD flags) (\<lambda>paddr.
     bind_run (\<lambda>m. case addr_to_mem paddr (host m) of
         Some q \<Rightarrow> bind_run (if traced paddr (paddr + PGSIZE) LOAD m then ret () else bind_run (refill_tlb addr paddr q LOAD) (\<lambda>_. ret ()))
                     (\<lambda>_. ret (host_read q len m)) m
       | None \<Rightarrow> bind_run (mmio_load paddr len) (\<lambda>r. case r of None \<Rightarrow> throw (Trap (Trap_load_access_fault addr 0 0)) | Some bytes \<Rightarrow> ret bytes) m)
       (\<lambda>bytes.
     bind_run (of_trap (reg_from_bytes len bytes)) (\<lambda>data.
     bind_run (check_trigger OPERATION_LOAD addr data) (\<lambda>_. ret bytes))))"

definition store_slow_path :: "u64 \<Rightarrow> bytes \<Rightarrow> u32 \<Rightarrow> ('f, unit) run" where
  "store_slow_path addr bytes flags =
     (let len = length bytes in
      bind_run (translate_run addr len STORE flags) (\<lambda>paddr.
      bind_run (of_trap (reg_from_bytes len bytes)) (\<lambda>data.
      bind_run (check_trigger OPERATION_STORE addr data) (\<lambda>_ m.
        case addr_to_mem paddr (host m) of
          Some q \<Rightarrow> (let m = host_write q bytes m
                     in if traced paddr (paddr + PGSIZE) STORE m then ret () m
                        else bind_run (refill_tlb addr paddr q STORE) (\<lambda>_. ret ()) m)
        | None \<Rightarrow> bind_run (mmio_store paddr bytes) (\<lambda>ok. if ok then ret () else throw (Trap (Trap_store_access_fault addr 0 0))) m))))"

text \<open>A value of a type of \<open>z\<close> bytes, signed or not, converted to a register.\<close>

definition typed :: "bool \<Rightarrow> nat \<Rightarrow> u64 \<Rightarrow> u64" where
  "typed sg z v = (if sg then signed_take_bit (8 * z - 1) v else take_bit (8 * z) v)"

definition misaligned :: "u64 \<Rightarrow> nat \<Rightarrow> bool" where "misaligned addr z = (addr AND (of_nat z - 1) \<noteq> 0)"

definition flush_if :: "u32 \<Rightarrow> ('f, unit) run" where
  "flush_if flags = (if flags \<noteq> 0 then on_mmu flush_tlb else ret ())"

definition tlb_ptr :: "u64 \<Rightarrow> 'f machine \<Rightarrow> ptr" where
  "tlb_ptr addr m = ptr_add (host_offset (tlb_data (mmu m) (tlb_index addr))) addr"

text \<open>The template \<open>load_func\<close>, for a type of \<open>z\<close> bytes.\<close>

definition load_func :: "bool \<Rightarrow> nat \<Rightarrow> u32 \<Rightarrow> u64 \<Rightarrow> ('f, u64) run" where
  "load_func sg z flags addr =
     bind_run (flush_if flags) (\<lambda>_ m.
       let tag = tlb_load_tag (mmu m) (tlb_index addr); vpn = vpn_of addr;
           cached = typed sg z (le_word (host_read (tlb_ptr addr m) z m))
       in if tag = vpn then ret cached m
          else if tag = vpn OR TLB_CHECK_TRIGGERS
          then bind_run (check_trigger OPERATION_LOAD addr cached) (\<lambda>_. ret cached) m
          else bind_run (load_slow_path addr z flags) (\<lambda>bytes.
               if misaligned addr z then throw (Trap (Trap_load_address_misaligned addr 0 0))
               else bind_run (flush_if flags) (\<lambda>_. ret (typed sg z (le_word bytes)))) m)"

text \<open>The template \<open>store_func\<close>; the types are unsigned.\<close>

definition store_func :: "nat \<Rightarrow> u32 \<Rightarrow> u64 \<Rightarrow> u64 \<Rightarrow> ('f, unit) run" where
  "store_func z flags addr v =
     bind_run (flush_if flags) (\<lambda>_.
     bind_run (\<lambda>m.
       let tag = tlb_store_tag (mmu m) (tlb_index addr); vpn = vpn_of addr; bytes = le_bytes z v;
           put = (\<lambda>m. ret () (host_write (tlb_ptr addr m) bytes m))
       in if tag = vpn then put m
          else if tag = vpn OR TLB_CHECK_TRIGGERS
          then bind_run (check_trigger OPERATION_STORE addr (typed False z v)) (\<lambda>_. put) m
          else store_slow_path addr bytes flags m) (\<lambda>_.
     if misaligned addr z then throw (Trap (Trap_store_address_misaligned addr 0 0)) else flush_if flags))"

text \<open>The template \<open>amo_func\<close>: page faults and access faults of the load become those of a store.\<close>

definition as_store_fault :: "exn \<Rightarrow> exn" where
  "as_store_fault e =
     (case e of Trap (Trap_load_page_fault a b c) \<Rightarrow> Trap (Trap_store_page_fault a b c)
      | Trap (Trap_load_access_fault a b c) \<Rightarrow> Trap (Trap_store_access_fault a b c)
      | _ \<Rightarrow> e)"

definition catch_run :: "(exn \<Rightarrow> exn) \<Rightarrow> ('f, 'a) run \<Rightarrow> ('f, 'a) run" where
  "catch_run f r m = (case r m of (Inl e, m') \<Rightarrow> (Inl (f e), m') | (Inr x, m') \<Rightarrow> (Inr x, m'))"

definition amo_func :: "nat \<Rightarrow> u64 \<Rightarrow> (u64 \<Rightarrow> u64) \<Rightarrow> ('f, u64) run" where
  "amo_func z addr f =
     (if misaligned addr z then throw (Trap (Trap_store_address_misaligned addr 0 0))
      else catch_run as_store_fault
        (bind_run (load_func False z 0 addr) (\<lambda>lhs. bind_run (store_func z 0 addr (f lhs)) (\<lambda>_. ret lhs))))"

text \<open>The quad-precision accesses, in two halves.\<close>

definition store_float128 :: "u64 \<Rightarrow> freg_t \<Rightarrow> ('f, unit) run" where
  "store_float128 addr v =
     (if misaligned addr 16 then throw (Trap (Trap_store_address_misaligned addr 0 0))
      else bind_run (store_func 8 0 addr (fv0 v)) (\<lambda>_. store_func 8 0 (addr + 8) (fv1 v)))"

definition load_float128 :: "u64 \<Rightarrow> ('f, freg_t) run" where
  "load_float128 addr =
     (if misaligned addr 16 then throw (Trap (Trap_load_address_misaligned addr 0 0))
      else bind_run (load_func False 8 0 addr) (\<lambda>lo. bind_run (load_func False 8 0 (addr + 8)) (\<lambda>hi. ret \<lparr>fv0 = lo, fv1 = hi\<rparr>)))"

section \<open>Reservations\<close>

definition yield_load_reservation :: "'f mmu_t \<Rightarrow> 'f mmu_t" where
  "yield_load_reservation u = u\<lparr>load_reservation_address := - 1\<rparr>"

definition acquire_load_reservation :: "u64 \<Rightarrow> ('f, unit) run" where
  "acquire_load_reservation vaddr =
     bind_run (translate_run vaddr 1 LOAD 0) (\<lambda>paddr m.
       case addr_to_mem paddr (host m) of
         Some q \<Rightarrow> bind_run (refill_tlb vaddr paddr q LOAD) (\<lambda>e.
                     on_mmu (load_reservation_address_update (\<lambda>_. target_offset e + vaddr))) m
       | None \<Rightarrow> throw (Trap (Trap_load_access_fault vaddr 0 0)) m)"

definition check_load_reservation :: "u64 \<Rightarrow> nat \<Rightarrow> ('f, bool) run" where
  "check_load_reservation vaddr z =
     (if misaligned vaddr z then throw (Trap (Trap_store_address_misaligned vaddr 0 0))
      else bind_run (translate_run vaddr 1 STORE 0) (\<lambda>paddr m.
        case addr_to_mem paddr (host m) of
          Some q \<Rightarrow> bind_run (refill_tlb vaddr paddr q STORE) (\<lambda>e m.
                      ret (load_reservation_address (mmu m) = target_offset e + vaddr) m) m
        | None \<Rightarrow> throw (Trap (Trap_store_access_fault vaddr 0 0)) m))"

section \<open>Instruction fetch\<close>

definition fetch_slow_path :: "u64 \<Rightarrow> ('f, tlb_entry_t) run" where
  "fetch_slow_path vaddr =
     bind_run (translate_run vaddr 2 FETCH 0) (\<lambda>paddr m.
       case addr_to_mem paddr (host m) of
         Some q \<Rightarrow> refill_tlb vaddr paddr q FETCH m
       | None \<Rightarrow> bind_run (mmio_load paddr 2) (\<lambda>r.
           case r of None \<Rightarrow> throw (Trap (Trap_instruction_access_fault vaddr 0 0))
           | Some bytes \<Rightarrow> bind_run (on_mmu (fetch_temp_update (\<lambda>_. ucast (le_word bytes)))) (\<lambda>_.
               ret \<lparr>host_offset = Fetch_ptr (- vaddr), target_offset = paddr - vaddr\<rparr>)) m)"

definition translate_insn_addr :: "u64 \<Rightarrow> ('f, tlb_entry_t) run" where
  "translate_insn_addr addr m =
     (let idx = tlb_index addr; vpn = vpn_of addr
      in if tlb_insn_tag (mmu m) idx = vpn then ret (tlb_data (mmu m) idx) m
         else bind_run (if tlb_insn_tag (mmu m) idx \<noteq> vpn OR TLB_CHECK_TRIGGERS then fetch_slow_path addr
                        else ret (tlb_data (mmu m) idx)) (\<lambda>result m.
                if tlb_insn_tag (mmu m) idx = vpn OR TLB_CHECK_TRIGGERS
                then let data = le_word (host_read (tlb_ptr addr m) 2 m)
                     in case trigger_match OPERATION_EXECUTE addr data (core m) of
                          Some i \<Rightarrow> throw (Trigger \<lparr>tm_index = i, tm_operation = OPERATION_EXECUTE, tm_address = addr, tm_data = data\<rparr>) m
                        | None \<Rightarrow> ret result m
                else ret result m) m)"

definition fetch_half :: "u64 \<Rightarrow> ('f, u16) run" where
  "fetch_half addr =
     bind_run (translate_insn_addr addr) (\<lambda>e m. ret (ucast (le_word (host_read (ptr_add (host_offset e) addr) 2 m))) m)"

text \<open>The halfwords of the instruction in the order the code reads them; \<open>fetched_bits\<close> puts them together.\<close>

definition fetch_word :: "u64 \<Rightarrow> u16 \<Rightarrow> ('f, u64) run" where
  "fetch_word addr h0 =
     (let length = insn_length (ucast h0)
      in if length = 4 then bind_run (fetch_half (addr + 2)) (\<lambda>h1. ret (fetched_bits h0 h1 0 0))
         else if length = 2 then ret (fetched_bits h0 0 0 0)
         else if length = 6 then bind_run (fetch_half (addr + 4)) (\<lambda>h2. bind_run (fetch_half (addr + 2)) (\<lambda>h1. ret (fetched_bits h0 h1 h2 0)))
         else bind_run (fetch_half (addr + 6)) (\<lambda>h3. bind_run (fetch_half (addr + 4)) (\<lambda>h2.
              bind_run (fetch_half (addr + 2)) (\<lambda>h1. ret (fetched_bits h0 h1 h2 h3)))))"

definition icache_index :: "u64 \<Rightarrow> nat" where "icache_index addr = unat (drop_bit 1 addr mod 1024)"

definition decode_run_insn :: "u64 \<Rightarrow> ('f, 'f) run" where
  "decode_run_insn insn m =
     (case decode_insn (cur_xlen (core m)) insn (decoder m) of
        None \<Rightarrow> throw (Trap Abort) m
      | Some (f, d) \<Rightarrow> ret f (m\<lparr>decoder := d\<rparr>))"

definition refill_icache :: "u64 \<Rightarrow> ('f, 'f icache_entry_t) run" where
  "refill_icache addr =
     bind_run (translate_insn_addr addr) (\<lambda>e m.
       let h0 = ucast (le_word (host_read (ptr_add (host_offset e) addr) 2 m)) :: u16;
           len = insn_length (ucast h0)
       in bind_run (fetch_word addr h0) (\<lambda>insn. bind_run (decode_run_insn insn) (\<lambda>f m.
            let paddr = target_offset e + addr;
                tag = (if traced paddr (paddr + 1) FETCH m then - 1 else addr)
            in ret \<lparr>ic_tag = tag, ic_next = icache_index (addr + of_nat len), ic_func = f, ic_insn = insn\<rparr> m)) m)"

text \<open>The slow path of the loop fetches into an entry of its own; the fast path uses the cache.\<close>

definition load_insn :: "u64 \<Rightarrow> ('f, 'f \<times> u64) run" where
  "load_insn addr = bind_run (refill_icache addr) (\<lambda>e. ret (ic_func e, ic_insn e))"

definition access_icache :: "u64 \<Rightarrow> ('f, 'f icache_entry_t) run" where
  "access_icache addr m =
     (let i = icache_index addr
      in if ic_tag (icache (mmu m) i) = addr then ret (icache (mmu m) i) m
         else bind_run (refill_icache addr) (\<lambda>e. bind_run (on_mmu (\<lambda>u. u\<lparr>icache := (icache u)(i := e)\<rparr>)) (\<lambda>_. ret e)) m)"

section \<open>What the processor asks of the unit\<close>

definition trigger_updated :: "hart \<Rightarrow> 'f mmu_t \<Rightarrow> 'f mmu_t" where
  "trigger_updated p u =
     (flush_tlb u)\<lparr>check_triggers_fetch := list_ex mc_execute (mcontrol (csr p)),
        check_triggers_load := list_ex mc_load (mcontrol (csr p)),
        check_triggers_store := list_ex mc_store (mcontrol (csr p))\<rparr>"

definition mmu_do :: "hart \<Rightarrow> mmu_call \<Rightarrow> 'f mmu_t \<Rightarrow> 'f mmu_t" where
  "mmu_do p c u = (case c of Flush_tlb \<Rightarrow> flush_tlb u | Flush_icache \<Rightarrow> flush_icache u | Trigger_updated \<Rightarrow> trigger_updated p u)"

definition mmu_answer :: "'f machine \<Rightarrow> 'f machine" where
  "mmu_answer m =
     m\<lparr>mmu := fold (mmu_do (core m)) (mmu_calls (core m)) (mmu m), core := (core m)\<lparr>mmu_calls := []\<rparr>\<rparr>"

end
