(* ===== verification/RV_PMP_Correct.thy ===== *)
theory RV_PMP_Correct
  imports RV_PMP RV_CSR_Correct
begin

text \<open>
  What physical memory protection guarantees. Each entry of the table guards an interval of addresses
  (\<open>pmp_region\<close>); an access is decided by the first entry whose interval it touches, and fails if that
  interval does not hold all of it. The check that one answer holds for a whole page is sound.
\<close>

lemma unat_add_of_nat: "unat a + n < 2 ^ 64 \<Longrightarrow> unat (a + of_nat n) = unat a + n" for a :: u64
  by (simp add: unat_word_ariths take_bit_eq_mod unat_of_nat)

section \<open>Trailing ones\<close>

definition trailing_ones :: "u64 \<Rightarrow> nat" where
  "trailing_ones w = length (takeWhile (bit w) [0..<64])"

lemma takeWhile_upt:
  "k < length (takeWhile P [0..<n]) \<Longrightarrow> P k"
  "length (takeWhile P [0..<n]) < n \<Longrightarrow> \<not> P (length (takeWhile P [0..<n]))"
  using nth_mem [of k "takeWhile P [0..<n]"] takeWhile_nth [of k P "[0..<n]"] length_takeWhile_le [of P "[0..<n]"]
    nth_length_takeWhile [of P "[0..<n]"]
  by (auto dest: set_takeWhileD)

lemma trailing_ones:
  "trailing_ones w \<le> 64" "k < trailing_ones w \<Longrightarrow> bit w k" "trailing_ones w < 64 \<Longrightarrow> \<not> bit w (trailing_ones w)"
  unfolding trailing_ones_def
  using length_takeWhile_le [of "bit w" "[0..<64]"] takeWhile_upt [where P = "bit w" and n = 64] by auto

lemma trailing_ones_word: "w AND NOT (w + 1) = mask (trailing_ones w)"
proof (cases "trailing_ones w < 64")
  case True
  define t where "t = trailing_ones w"
  define h where "h = push_bit (t + 1) (drop_bit (t + 1) w)"
  have t: "t < 64" "\<not> bit w t" "\<And>k. k < t \<Longrightarrow> bit w k" using True trailing_ones [where w = w] by (auto simp: t_def)
  have h: "\<not> bit h i" if "i \<le> t" for i using that by (simp add: h_def bit_push_bit_iff del: push_bit_Suc)
  have "take_bit (t + 1) w = mask t"
    by (rule bit_word_eqI) (use t in \<open>auto simp: bit_simps less_Suc_eq\<close>)
  then have w: "w = mask t + h" using bits_ident [of "t + 1" w] by (simp add: h_def add.commute)
  have "w + 1 = push_bit t 1 + h" by (subst w) (simp add: mask_eq_exp_minus_1 push_bit_eq_mult)
  also have "\<dots> = push_bit t 1 OR h"
    by (rule disjunctive_add_eq_or) (rule bit_word_eqI, auto simp: h bit_simps)
  finally have s: "w + 1 = push_bit t 1 OR h" .
  have "w = mask t OR h"
    by (subst w, rule disjunctive_add_eq_or) (rule bit_word_eqI, auto simp: h bit_simps)
  then have "bit (w AND NOT (w + 1)) i = bit (mask t :: u64) i" if "i < 64" for i :: nat
    unfolding s using that t(1) h by (auto simp: bit_simps)
  then show ?thesis unfolding t_def [symmetric] by (intro bit_word_eqI) simp
next
  case False
  then have "w = - 1" using trailing_ones(2) [where w = w] by (intro bit_word_eqI) auto
  then show ?thesis using False trailing_ones(1) [where w = w] by (simp add: bit_word_eqI bit_simps)
qed

section \<open>Regions\<close>

text \<open>The naturally aligned power-of-two region around \<open>a\<close> with \<open>t\<close> trailing ones.\<close>

definition napot_region :: "nat \<Rightarrow> nat \<Rightarrow> nat \<times> nat" where
  "napot_region t a = (let sz = 2 ^ (t + 2) in (a div sz * sz, a div sz * sz + sz))"

definition pmp_region :: "u64 \<Rightarrow> nat \<Rightarrow> hart \<Rightarrow> nat \<times> nat" where
  "pmp_region base i p =
     (if pmpcfg (csr p) ! i AND PMP_A = PMP_TOR then (unat base, unat (pmp_tor i p))
      else napot_region (trailing_ones (push_bit 1 (pmpaddr (csr p) ! i) OR of_bool (pmpcfg (csr p) ! i AND PMP_A \<noteq> PMP_NA4)
               OR NOT (pmp_tor_mask p))) (unat (pmp_tor i p)))"

definition inside :: "nat \<Rightarrow> nat \<times> nat \<Rightarrow> bool" where "inside a r = (fst r \<le> a \<and> a < snd r)"

lemma same_block: "drop_bit n x = drop_bit n y \<longleftrightarrow> unat x div 2 ^ n = unat y div 2 ^ n" for x y :: u64
  by (simp add: word_unat_eq_iff word_nat)

lemma inside_block: "0 < (s :: nat) \<Longrightarrow> b div s * s \<le> a \<and> a < b div s * s + s \<longleftrightarrow> a div s = b div s"
  by (metis add.commute div_nat_eqI dividend_less_times_div less_eq_div_iff_mult_less_eq mult.commute mult_Suc_right nle_le times_div_less_eq_dividend)

lemma napot_match:
  "(x XOR y) AND push_bit 2 (NOT (mask t)) = 0 \<longleftrightarrow> inside (unat x) (napot_region t (unat y))" for x y :: u64
proof -
  have "(x XOR y) AND push_bit 2 (NOT (mask t)) = 0 \<longleftrightarrow> drop_bit (t + 2) x = drop_bit (t + 2) y"
  proof
    assume a: "(x XOR y) AND push_bit 2 (NOT (mask t)) = 0"
    have "bit x i = bit y i" if "t + 2 \<le> i" for i
    proof (cases "i < 64")
      case True
      then show ?thesis using arg_cong [OF a, of "\<lambda>w. bit w i"] that by (auto simp: bit_simps)
    qed (use bit_imp_le_length [of x i] bit_imp_le_length [of y i] in auto)
    then show "drop_bit (t + 2) x = drop_bit (t + 2) y" by (intro bit_word_eqI) (auto simp: bit_simps)
  next
    assume a: "drop_bit (t + 2) x = drop_bit (t + 2) y"
    have "bit x i = bit y i" if "t + 2 \<le> i" for i
    proof -
      have "t + 2 + (i - (t + 2)) = i" using that by simp
      then show ?thesis using arg_cong [OF a, of "\<lambda>w. bit w (i - (t + 2))"] by (simp only: bit_drop_bit_eq o_apply)
    qed
    then show "(x XOR y) AND push_bit 2 (NOT (mask t)) = 0" by (intro bit_word_eqI) (auto simp: bit_simps)
  qed
  then show ?thesis by (simp add: same_block inside_def napot_region_def Let_def inside_block)
qed

lemma pmp_match_region: "pmp_match base i p x \<longleftrightarrow> inside (unat x) (pmp_region base i p)"
proof (cases "pmpcfg (csr p) ! i AND PMP_A = PMP_TOR")
  case True
  then show ?thesis by (simp add: pmp_match_def pmp_region_def inside_def word_le_nat_alt word_less_nat_alt)
next
  case False
  then show ?thesis
    by (simp add: pmp_match_def pmp_region_def pmp_napot_mask_def Let_def trailing_ones_word napot_match)
qed

lemma pmp_tor_aligned: "4 dvd unat (pmp_tor i p)"
  unfolding pmp_tor_def unat_push by (intro dvd_mod) simp_all

lemma pmp_region_aligned: "4 dvd unat base \<Longrightarrow> 4 dvd fst (pmp_region base i p) \<and> 4 dvd snd (pmp_region base i p)"
  using pmp_tor_aligned [of i p]
  by (auto simp: pmp_region_def napot_region_def Let_def power_add intro!: dvd_add)

section \<open>The decision\<close>

definition touches :: "nat \<Rightarrow> nat \<Rightarrow> nat \<times> nat \<Rightarrow> bool" where
  "touches a len r = (fst r < a + len \<and> a < snd r \<and> fst r < snd r)"

definition holds :: "nat \<Rightarrow> nat \<Rightarrow> nat \<times> nat \<Rightarrow> bool" where
  "holds a len r = (fst r \<le> a \<and> a + len \<le> snd r)"

text \<open>The top of the entry below the \<open>i\<close>-th, where its region begins in top-of-range mode.\<close>

definition pmp_bottom :: "nat \<Rightarrow> hart \<Rightarrow> u64" where
  "pmp_bottom i p = (if i = 0 then 0 else pmp_tor (i - 1) p)"

text \<open>The first active entry that the access touches decides; without one only machine mode may access.\<close>

definition pmp_spec :: "u64 \<Rightarrow> nat \<Rightarrow> access_type \<Rightarrow> u64 \<Rightarrow> hart \<Rightarrow> bool" where
  "pmp_spec addr len type mode p =
     (n_pmp (cfg p) = 0 \<or>
      (case find (\<lambda>i. pmpcfg (csr p) ! i AND PMP_A \<noteq> 0 \<and> touches (unat addr) len (pmp_region (pmp_bottom i p) i p))
              [0..<n_pmp (cfg p)] of
         None \<Rightarrow> mode = PRV_M
       | Some i \<Rightarrow> holds (unat addr) len (pmp_region (pmp_bottom i p) i p) \<and> pmp_grants (pmpcfg (csr p) ! i) type mode))"

definition access_size :: "nat \<Rightarrow> bool" where "access_size len = (len \<in> {1, 2, 4, 8})"

lemma sector_bounds:
  assumes "4 dvd lo" "4 dvd hi" "len dvd a" "access_size len"
  defines "sectors \<equiv> map (\<lambda>k. a + 4 * k) [0..<(len + 3) div 4]"
  shows "(\<exists>x \<in> set sectors. inside x (lo, hi)) \<longleftrightarrow> touches a len (lo, hi)"
    "(\<forall>x \<in> set sectors. inside x (lo, hi)) \<longleftrightarrow> holds a len (lo, hi)"
proof -
  obtain l h where lh: "lo = 4 * l" "hi = 4 * h" using assms(1,2) by (auto elim!: dvdE)
  consider "len = 1" | "len = 2" | "len = 4" | "len = 8" using assms(4) by (auto simp: access_size_def)
  then have "((\<exists>x \<in> set sectors. inside x (lo, hi)) \<longleftrightarrow> touches a len (lo, hi)) \<and>
    ((\<forall>x \<in> set sectors. inside x (lo, hi)) \<longleftrightarrow> holds a len (lo, hi))"
  proof cases
    case 1
    then have "sectors = [a]" by (simp add: sectors_def)
    with 1 show ?thesis by (simp add: lh inside_def touches_def holds_def) presburger
  next
    case 2
    then have "sectors = [a]" by (simp add: sectors_def)
    moreover obtain k where "a = 2 * k" using assms(3) 2 by (auto elim!: dvdE)
    ultimately show ?thesis using 2 by (simp add: lh inside_def touches_def holds_def) presburger
  next
    case 3
    then have "sectors = [a]" by (simp add: sectors_def)
    moreover obtain k where "a = 4 * k" using assms(3) 3 by (auto elim!: dvdE)
    ultimately show ?thesis using 3 by (simp add: lh inside_def touches_def holds_def) presburger
  next
    case 4
    then have "sectors = [a, a + 4]" by (simp add: sectors_def upt_rec)
    moreover obtain k where "a = 8 * k" using assms(3) 4 by (auto elim!: dvdE)
    ultimately show ?thesis using 4 by (simp add: lh inside_def touches_def holds_def) presburger
  qed
  then show "(\<exists>x \<in> set sectors. inside x (lo, hi)) \<longleftrightarrow> touches a len (lo, hi)"
    "(\<forall>x \<in> set sectors. inside x (lo, hi)) \<longleftrightarrow> holds a len (lo, hi)" by blast+
qed

lemma sectors_unat:
  assumes "len dvd unat addr" "access_size len"
  shows "map unat (pmp_sectors addr len) = map (\<lambda>k. unat addr + 4 * k) [0..<(len + 3) div 4]"
proof -
  have "unat (addr + of_nat (4 * k)) = unat addr + 4 * k" if "k < (len + 3) div 4" for k
  proof -
    have "len dvd 2 ^ 64" using assms(2) by (auto simp: access_size_def)
    then obtain m where m: "(2 :: nat) ^ 64 = len * m" unfolding dvd_def by blast
    obtain n where n: "unat addr = len * n" using assms(1) by (auto elim!: dvdE)
    have "len * n < len * m" using unat_lt_64 [of addr] m n by simp
    then have "len * Suc n \<le> len * m" by (intro mult_le_mono) simp_all
    then have "unat addr + len \<le> 2 ^ 64" using m n by simp
    moreover have "4 * k < len \<or> k = 0" using that assms(2) by (auto simp: access_size_def)
    ultimately have "unat addr + 4 * k < 2 ^ 64" using unat_lt_64 [of addr] by auto
    then show ?thesis by (rule unat_add_of_nat)
  qed
  then show ?thesis by (simp add: pmp_sectors_def)
qed

lemma match_set:
  assumes "len dvd unat addr" "access_size len" "4 dvd unat base"
  shows "True \<in> set (map (pmp_match base i p) (pmp_sectors addr len)) \<longleftrightarrow> touches (unat addr) len (pmp_region base i p)"
    "False \<in> set (map (pmp_match base i p) (pmp_sectors addr len)) \<longleftrightarrow> \<not> holds (unat addr) len (pmp_region base i p)"
proof -
  obtain lo hi where r: "pmp_region base i p = (lo, hi)" by fastforce
  have d: "4 dvd lo" "4 dvd hi" using pmp_region_aligned [OF assms(3), of i p] r by simp_all
  have m: "map (pmp_match base i p) (pmp_sectors addr len) = map (\<lambda>x. inside x (lo, hi)) (map unat (pmp_sectors addr len))"
    by (simp add: pmp_match_region r)
  show "True \<in> set (map (pmp_match base i p) (pmp_sectors addr len)) \<longleftrightarrow> touches (unat addr) len (pmp_region base i p)"
    "False \<in> set (map (pmp_match base i p) (pmp_sectors addr len)) \<longleftrightarrow> \<not> holds (unat addr) len (pmp_region base i p)"
    unfolding m sectors_unat [OF assms(1,2)] r
    using sector_bounds [OF d assms(1,2)] by (auto simp: image_iff simp del: map_map)
qed

lemma pmp_scan_spec:
  assumes "len dvd unat addr" "access_size len"
  shows "pmp_scan [k..<n] (pmp_bottom k p) addr len type mode p =
     (case find (\<lambda>i. pmpcfg (csr p) ! i AND PMP_A \<noteq> 0 \<and> touches (unat addr) len (pmp_region (pmp_bottom i p) i p)) [k..<n] of
         None \<Rightarrow> mode = PRV_M
       | Some i \<Rightarrow> holds (unat addr) len (pmp_region (pmp_bottom i p) i p) \<and> pmp_grants (pmpcfg (csr p) ! i) type mode)"
proof (induction "n - k" arbitrary: k)
  case 0
  then show ?case by simp
next
  case (Suc d)
  have "4 dvd unat (pmp_bottom k p)" by (simp add: pmp_bottom_def pmp_tor_aligned)
  note m = match_set [OF assms this, of k p]
  have "pmp_tor k p = pmp_bottom (Suc k) p" by (simp add: pmp_bottom_def)
  moreover have "[k..<n] = k # [Suc k..<n]" using Suc.hyps(2) by (simp add: upt_conv_Cons)
  ultimately show ?case using Suc.hyps(1) [of "Suc k"] Suc.hyps(2) by (simp add: m Let_def del: set_map)
qed

lemma pmp_ok_spec: "len dvd unat addr \<Longrightarrow> access_size len \<Longrightarrow> pmp_ok addr len type mode p = pmp_spec addr len type mode p"
  using pmp_scan_spec [of len addr 0] by (simp add: pmp_ok_def pmp_spec_def pmp_bottom_def)

section \<open>Homogeneous pages\<close>

abbreviation (input) page :: "u64 \<Rightarrow> u64" where "page \<equiv> drop_bit 12"

lemma bit_page_mask:
  "bit (- 4096 :: u64) i \<longleftrightarrow> 12 \<le> i \<and> i < 64" "bit (4095 :: u64) i \<longleftrightarrow> i < 12"
proof -
  have "(- 4096 :: u64) = NOT (mask 12)" "(4095 :: u64) = mask 12" by (simp_all add: mask_eq_exp_minus_1)
  then show "bit (- 4096 :: u64) i \<longleftrightarrow> 12 \<le> i \<and> i < 64" "bit (4095 :: u64) i \<longleftrightarrow> i < 12"
    by (simp_all only: bit_not_iff bit_mask_iff possible_bit_word) auto
qed

lemmas bit_page = bit_and_iff bit_or_iff bit_not_iff bit_push_bit_iff bit_drop_bit_eq o_apply bit_page_mask possible_bit_word

lemma page_and: "page (addr AND NOT 4095) = page addr"
  by (rule bit_word_eqI, simp only: bit_page) (auto dest: bit_imp_le_length)

definition in_page :: "u64 \<Rightarrow> u64 \<Rightarrow> nat \<Rightarrow> bool" where
  "in_page x addr len = (page addr = page x \<and> 0 < len \<and> unat addr mod 4096 + len \<le> 4096)"

lemma pages_le: "page x = page y \<Longrightarrow> page x < page z \<Longrightarrow> y < z" for x y z :: u64
  by (simp add: word_less_nat_alt word_unat_eq_iff word_nat div_less_mono)

lemma masked_page: "(x AND - 4096) < (y AND - 4096) \<longleftrightarrow> page x < page y" for x y :: u64
proof -
  have "x AND - 4096 = push_bit 12 (page x)" for x :: u64
    by (rule bit_word_eqI, simp only: bit_page) auto
  moreover have "unat (push_bit 12 (page x)) = unat x div 4096 * 4096" for x :: u64
  proof -
    have "unat x div 4096 * 4096 < 2 ^ 64" using unat_lt_64 [of x] div_times_less_eq_dividend [of "unat x" 4096] by simp
    then show ?thesis by (simp add: word_nat)
  qed
  ultimately show ?thesis by (simp add: word_less_nat_alt word_nat)
qed

lemma tor_page:
  assumes "tor_homogeneous base tor pg 4096" "page u = page pg" "page v = page pg" "pg AND 4095 = 0"
  shows "(base \<le> u \<and> u < tor) = (base \<le> v \<and> v < tor)"
proof -
  have pg: "pg \<le> w" if "page w = page pg" for w
  proof -
    have "(4095 :: u64) = mask 12" by (simp add: mask_eq_exp_minus_1)
    then have "take_bit 12 pg = 0" using assms(4) by (simp only: take_bit_eq_mask)
    then have "unat pg mod 2 ^ 12 = 0" by (metis unat_0 unsigned_take_bit_eq take_bit_eq_mod)
    then have "unat pg = unat pg div 4096 * 4096" using div_mult_mod_eq [of "unat pg" 4096] by simp
    moreover have "unat pg div 4096 = unat w div 4096" using that by (simp add: word_unat_eq_iff word_nat)
    ultimately show ?thesis by (simp add: word_le_nat_alt)
  qed
  consider "page pg < page base" | "tor \<le> pg" | "base \<le> pg" "page pg < page tor"
    using assms(1) by (auto simp: tor_homogeneous_def masked_page)
  then show ?thesis
  proof cases
    case 1
    then show ?thesis using pages_le [of pg u base] pages_le [of pg v base] assms(2,3) by auto
  next
    case 2
    then show ?thesis using pg [OF assms(2)] pg [OF assms(3)] by auto
  next
    case 3
    then show ?thesis
      using pg [OF assms(2)] pg [OF assms(3)] pages_le [of pg u tor] pages_le [of pg v tor] assms(2,3) by auto
  qed
qed

lemma page_bits: "page u = page v \<Longrightarrow> 12 \<le> i \<Longrightarrow> bit u i = bit v i" for u v :: u64
proof -
  assume a: "page u = page v" "12 \<le> i"
  then have "12 + (i - 12) = i" by simp
  then show "bit u i = bit v i" using arg_cong [OF a(1), of "\<lambda>w. bit w (i - 12)"] by (simp only: bit_drop_bit_eq o_apply)
qed

lemma napot_page:
  assumes "napot_homogeneous (push_bit 2 (NOT (mask t))) tor pg 4096" "page u = page pg" "page v = page pg"
  shows "((u XOR tor) AND push_bit 2 (NOT (mask t)) = 0) = ((v XOR tor) AND push_bit 2 (NOT (mask t)) = 0)"
proof (cases "t \<le> 9")
  case True
  have "page (pg XOR tor) \<noteq> 0"
  proof -
    have b: "bit (4096 :: u64) i \<longleftrightarrow> i = 12" for i using bit_exp_iff [where 'a = u64, of 12 i] by auto
    have "NOT (push_bit 1 (push_bit 2 (NOT (mask t)))) AND (4096 :: u64) = 0"
      unfolding push_bit_push_bit
      using True by (intro bit_word_eqI, simp only: bit_page bit_mask_iff b) auto
    then show ?thesis using assms(1) by (simp add: napot_homogeneous_def drop_bit_eq_div)
  qed
  then obtain j where "bit (page (pg XOR tor)) j" using bit_eq_iff [of "page (pg XOR tor)" 0] by auto
  then obtain i where i: "12 \<le> i" "bit (pg XOR tor) i" by (metis bit_drop_bit_eq le_add1 o_apply)
  have "(w XOR tor) AND push_bit 2 (NOT (mask t)) \<noteq> 0" if "page w = page pg" for w
  proof
    assume "(w XOR tor) AND push_bit 2 (NOT (mask t)) = 0"
    then have "bit ((w XOR tor) AND push_bit 2 (NOT (mask t))) i = bit (0 :: u64) i" by simp
    moreover have "i < 64" using bit_imp_le_length [OF i(2)] by simp
    ultimately show False
      using i page_bits [OF that i(1)] True
      by (simp only: bit_and_iff bit_xor_iff bit_push_bit_iff bit_not_iff bit_mask_iff possible_bit_word bit_0_eq bot_apply) auto
  qed
  then show ?thesis using assms(2,3) by simp
next
  case False
  have "bit ((u XOR tor) AND push_bit 2 (NOT (mask t))) i = bit ((v XOR tor) AND push_bit 2 (NOT (mask t))) i" for i
    using False page_bits [of u v i] assms(2,3)
    by (cases "12 \<le> i") (auto simp: bit_and_iff bit_xor_iff bit_push_bit_iff bit_not_iff bit_mask_iff)
  then have "(u XOR tor) AND push_bit 2 (NOT (mask t)) = (v XOR tor) AND push_bit 2 (NOT (mask t))" by (rule bit_eqI)
  then show ?thesis by simp
qed

lemma match_page:
  assumes "if pmpcfg (csr p) ! i AND PMP_A = PMP_TOR then tor_homogeneous base (pmp_tor i p) pg 4096
           else napot_homogeneous (pmp_napot_mask i p) (pmp_tor i p) pg 4096"
    "page u = page pg" "page v = page pg" "pg AND 4095 = 0"
  shows "pmp_match base i p u = pmp_match base i p v"
proof (cases "pmpcfg (csr p) ! i AND PMP_A = PMP_TOR")
  case True
  then show ?thesis using assms tor_page [of base "pmp_tor i p" pg u v] by (simp add: pmp_match_def)
next
  case False
  define t where "t = trailing_ones (push_bit 1 (pmpaddr (csr p) ! i) OR of_bool (pmpcfg (csr p) ! i AND PMP_A \<noteq> PMP_NA4)
               OR NOT (pmp_tor_mask p))"
  have m: "pmp_napot_mask i p = push_bit 2 (NOT (mask t))"
    by (simp add: pmp_napot_mask_def Let_def trailing_ones_word t_def)
  show ?thesis using False assms napot_page [of t "pmp_tor i p" pg u v] by (simp add: pmp_match_def m)
qed

lemma page_split: "a + n = a div 4096 * 4096 + (a mod 4096 + n)" for a n :: nat
  by simp

lemma same_page: "a mod 4096 + n < 4096 \<Longrightarrow> (a + n) div 4096 = a div 4096" for a n :: nat
  by (subst page_split) (simp only: div_mult_self3 div_less add_0_right; simp)

lemma page_end: "a mod 4096 + n < 4096 \<Longrightarrow> a < 2 ^ (e + 12) \<Longrightarrow> a + n < 2 ^ (e + 12)" for a n :: nat
proof -
  assume n: "a mod 4096 + n < 4096" and "a < 2 ^ (e + 12)"
  then have "a div 4096 < 2 ^ e" by (simp add: less_mult_imp_div_less power_add)
  then have "(a div 4096 + 1) * 4096 \<le> 2 ^ e * 4096" by (intro mult_right_mono) simp_all
  moreover have "a div 4096 * 4096 + (a mod 4096 + n) < (a div 4096 + 1) * 4096"
    using n by (simp only: add_mult_distrib mult_1 add_less_cancel_left)
  ultimately have "a div 4096 * 4096 + (a mod 4096 + n) < 2 ^ (e + 12)" by (simp only: power_add) simp
  then show "a + n < 2 ^ (e + 12)" by (subst page_split)
qed

lemma sectors_page: "in_page x addr len \<Longrightarrow> u \<in> set (pmp_sectors addr len) \<Longrightarrow> page u = page x"
proof -
  assume a: "in_page x addr len" and "u \<in> set (pmp_sectors addr len)"
  then obtain k where k: "u = addr + of_nat (4 * k)" "k < (len + 3) div 4" by (auto simp: pmp_sectors_def)
  then have "4 * k < len" by simp
  then have l: "unat addr mod 4096 + 4 * k < 4096" using a by (simp add: in_page_def)
  then have s: "unat addr + 4 * k < 2 ^ 64" using page_end [of "unat addr" "4 * k" 52] unat_lt_64 [of addr] by simp
  have u: "unat u = unat addr + 4 * k" unfolding k(1) using s by (rule unat_add_of_nat)
  have "(unat addr + 4 * k) div 4096 = unat addr div 4096" using l by (rule same_page)
  then have "page u = page addr" by (simp add: word_unat_eq_iff word_nat u)
  then show "page u = page x" using a by (simp add: in_page_def)
qed

lemma sectors_nonempty: "in_page x addr len \<Longrightarrow> pmp_sectors addr len \<noteq> []"
  by (auto simp: in_page_def pmp_sectors_def div_eq_0_iff)

lemma scan_page:
  assumes "pmp_homogeneous_scan is base pg 4096 p" "pg AND 4095 = 0" "in_page pg a len" "in_page pg a' len'"
  shows "pmp_scan is base a len type mode p = pmp_scan is base a' len' type mode p"
  using assms(1)
proof (induction "is" arbitrary: base)
  case (Cons i "is")
  let ?c = "pmpcfg (csr p) ! i"
  show ?case
  proof (cases "?c AND PMP_A = 0")
    case True
    then show ?thesis using Cons.IH [of "pmp_tor i p"] Cons.prems by (simp add: Let_def)
  next
    case False
    then have h: "if ?c AND PMP_A = PMP_TOR then tor_homogeneous base (pmp_tor i p) pg 4096
           else napot_homogeneous (pmp_napot_mask i p) (pmp_tor i p) pg 4096"
      and t: "pmp_homogeneous_scan is (pmp_tor i p) pg 4096 p"
      using Cons.prems by (auto simp: Let_def split: if_splits)
    define b where "b = pmp_match base i p pg"
    have "set (map (pmp_match base i p) (pmp_sectors a len)) = {b}" if "in_page pg a len" for a len
      using match_page [OF h sectors_page [OF that] refl assms(2)] sectors_nonempty [OF that]
      by (auto simp: b_def image_constant_conv)
    then show ?thesis using Cons.IH [OF t] assms(3,4) by (simp add: Let_def del: set_map)
  qed
qed simp

lemma pmp_homogeneous_sound:
  assumes "pmp_homogeneous (x AND NOT 4095) 4096 p = Inr True" "in_page x a len" "in_page x a' len'"
  shows "pmp_ok a len type mode p = pmp_ok a' len' type mode p"
proof -
  have "in_page (x AND NOT 4095) a len" "in_page (x AND NOT 4095) a' len'"
    using assms(2,3) page_and [of x] by (simp_all add: in_page_def)
  moreover have "(x AND NOT 4095) AND 4095 = 0" by (rule bit_word_eqI) (auto simp: bit_simps)
  ultimately show ?thesis
    using assms(1) scan_page [of _ 0 "x AND NOT 4095" p a len a' len' type mode]
    by (auto simp: pmp_homogeneous_def pmp_ok_def split: if_splits)
qed

end
