(* ===== verification/RV_Bus_Correct.thy ===== *)
theory RV_Bus_Correct
  imports RV_Bus RV_PMP_Correct
begin

text \<open>
  Facts about the bus and host memory. The locale \<open>paged_memory\<close> states what the translation buffer needs
  of the simulator's \<open>addr_to_mem\<close>: pointers move with addresses inside a page; the bus provides it
  when devices begin at pages and memories end at pages. The locale \<open>byte_store\<close> states what loads and
  stores need of host memory; the bytes of a memory device provide it.
\<close>

section \<open>Little-endian bytes\<close>

lemma length_le_bytes [simp]: "length (le_bytes n v) = n"
  by (simp add: le_bytes_def)

lemma le_bytes_Suc: "le_bytes (Suc n) v = ucast v # le_bytes n (drop_bit 8 v)"
  by (simp only: le_bytes_def upt_conv_Cons [of 0 "Suc n"] zero_less_Suc list.map map_Suc_upt [symmetric] map_map)
    (simp add: comp_def add.commute)

lemma le_word_bytes: "n \<le> 8 \<Longrightarrow> le_word (le_bytes n v) = take_bit (8 * n) v"
proof (induction n arbitrary: v)
  case (Suc n)
  have "le_word (le_bytes (Suc n) v) = ucast (ucast v :: u8) OR push_bit 8 (take_bit (8 * n) (drop_bit 8 v))"
    using Suc by (simp add: le_bytes_Suc)
  also have "\<dots> = take_bit (8 * Suc n) v"
    by (rule bit_word_eqI) (auto simp: bit_simps)
  finally show ?case .
qed (simp add: le_bytes_def)

section \<open>The bus\<close>

lemma find_device_Some:
  "find_device a ds = Some (b, d) \<Longrightarrow> (b, d) \<in> set ds \<and> b \<le> a"
  by (induction ds) (auto split: if_splits option.splits)

definition page_aligned :: "u64 \<Rightarrow> bool" where "page_aligned a = (a AND 4095 = 0)"

lemma aligned_unat: "page_aligned a \<longleftrightarrow> unat a mod 4096 = 0"
proof -
  have "(4095 :: u64) = mask 12" by (simp add: mask_eq_exp_minus_1)
  then have "a AND 4095 = take_bit 12 a" by (simp only: take_bit_eq_mask)
  moreover have "unat (take_bit 12 a) = unat a mod 2 ^ 12" by (simp only: unsigned_take_bit_eq) (rule take_bit_eq_mod)
  then have "unat (take_bit 12 a) = unat a mod 4096" by (simp only: power_numeral) simp
  ultimately show ?thesis unfolding page_aligned_def by (metis unat_eq_0)
qed

lemma page_unat: "page a = page b \<longleftrightarrow> unat a div 4096 = unat b div 4096"
  using same_block [of 12 a b] by simp

lemma less_aligned: "page_aligned k \<Longrightarrow> a < k \<longleftrightarrow> unat a div 4096 < unat k div 4096"
proof -
  assume "page_aligned k"
  then obtain q where "unat k = 4096 * q" unfolding aligned_unat by (auto elim: dvdE simp: mod_eq_0_iff_dvd)
  then show ?thesis by (simp add: word_less_nat_alt less_mult_imp_div_less div_less_iff_less_mult mult.commute)
qed

lemma find_device_page:
  "list_all (\<lambda>x. page_aligned (fst x)) ds \<Longrightarrow> page a = page b \<Longrightarrow> find_device a ds = find_device b ds"
  by (induction ds) (simp_all add: less_aligned page_unat)

definition device_ok :: "u64 \<times> device \<Rightarrow> bool" where
  "device_ok x =
     (page_aligned (fst x) \<and> (case snd x of Mem_dev sz f \<Rightarrow> 4096 dvd sz \<and> sz < 2 ^ 64 | _ \<Rightarrow> True))"

definition bus_ok :: "sim \<Rightarrow> bool" where
  "bus_ok s = (list_all device_ok (devices s) \<and> sorted_wrt (<) (map fst (devices s)))"

lemma ptr_add_0 [simp]: "ptr_add q 0 = q"
  by (cases q) simp_all

lemma ptr_add_add [simp]: "ptr_add (ptr_add q a) b = ptr_add q (a + b)"
  by (cases q) (simp_all add: add.assoc)

lemma paddr_ok_page: "page a = page b \<Longrightarrow> paddr_ok a = paddr_ok b"
  using drop_bit_drop_bit [of 20 12 a] drop_bit_drop_bit [of 20 12 b] by (simp add: paddr_ok_def)

lemma unat_of_nat_small: "n < 2 ^ 64 \<Longrightarrow> unat (of_nat n :: u64) = n"
  using unat_add_of_nat [of 0 n] by simp

lemma addr_to_mem_page:
  assumes "bus_ok s" "page a = page b" "addr_to_mem a s = Some q"
  shows "addr_to_mem b s = Some (ptr_add q (b - a))"
proof -
  obtain k sz f where f: "find_device a (devices s) = Some (k, Mem_dev sz f)"
    and r: "paddr_ok a" "a - k < of_nat sz" "q = Mem_ptr k (a - k)"
    using assms(3) by (auto simp: addr_to_mem_def split: if_splits option.splits device.splits)
  have "list_all (\<lambda>x. page_aligned (fst x)) (devices s)"
    using assms(1) by (auto simp: bus_ok_def device_ok_def list_all_iff)
  then have fb: "find_device b (devices s) = Some (k, Mem_dev sz f)" using find_device_page assms(2) f by metis
  have k: "k \<le> a" "k \<le> b" "device_ok (k, Mem_dev sz f)"
    using find_device_Some [OF f] find_device_Some [OF fb] assms(1) by (auto simp: bus_ok_def list_all_iff)
  obtain n where n: "unat k = 4096 * n" using k(3) unfolding device_ok_def aligned_unat by (auto simp: mod_eq_0_iff_dvd elim: dvdE)
  obtain z where z: "sz = 4096 * z" "sz < 2 ^ 64" using k(3) by (auto simp: device_ok_def elim: dvdE)
  have lt: "x - k < of_nat sz \<longleftrightarrow> unat x div 4096 < n + z" if "k \<le> x" for x
  proof -
    have "x - k < of_nat sz \<longleftrightarrow> unat x - 4096 * n < 4096 * z"
      using z(2) unat_of_nat_small [of sz] by (simp only: word_less_nat_alt unat_sub [OF that] n z(1))
    also have "\<dots> \<longleftrightarrow> unat x < 4096 * (n + z)" using that n by (auto simp: word_le_nat_alt)
    also have "\<dots> \<longleftrightarrow> unat x div 4096 < n + z" by (simp add: div_less_iff_less_mult mult.commute)
    finally show ?thesis .
  qed
  have "b - k < of_nat sz" using r(2) assms(2) lt [OF k(1)] lt [OF k(2)] by (simp add: page_unat)
  then show ?thesis using fb r paddr_ok_page [OF assms(2)] by (simp add: addr_to_mem_def)
qed

section \<open>Pages and offsets\<close>

lemma page_parts: "(x AND NOT 4095) + (x AND 4095) = (x :: u64)"
proof -
  have "(x AND NOT 4095) AND (x AND 4095) = 0" by (rule bit_word_eqI, simp only: bit_page) simp
  then have "(x AND NOT 4095) + (x AND 4095) = (x AND NOT 4095) OR (x AND 4095)" by (rule disjunctive_add_eq_or)
  also have "\<dots> = x" by (rule bit_word_eqI, simp only: bit_page) auto
  finally show ?thesis .
qed

lemma page_floor: "x AND NOT 4095 = push_bit 12 (page x)" for x :: u64
  by (rule bit_word_eqI, simp only: bit_page) auto

lemma page_difference: "page a = page b \<Longrightarrow> a - b = (a AND 4095) - (b AND 4095)" for a b :: u64
proof -
  assume p: "page a = page b"
  have "a = push_bit 12 (page b) + (a AND 4095)" "b = push_bit 12 (page b) + (b AND 4095)"
    using page_parts [of a] page_parts [of b] by (simp_all only: page_floor p)
  then show ?thesis by (metis add_diff_cancel_left)
qed

lemma frame_offset: "a - b = c - d \<Longrightarrow> f + d - b + a = f + c" for a :: u64
  by (simp add: diff_eq_eq algebra_simps)

lemma page_frame:
  assumes "f AND 4095 = 0"
  shows "page (f + (x AND 4095)) = page (f :: u64)"
proof -
  have "f AND (x AND 4095) = (f AND 4095) AND x" by (simp only: ac_simps)
  then have z: "f AND (x AND 4095) = 0" by (simp only: assms) simp
  have "f + (x AND 4095) = f OR (x AND 4095)" using z by (rule disjunctive_add_eq_or)
  then show ?thesis by (simp only:) (rule bit_word_eqI, simp only: bit_page, auto)
qed

section \<open>Memory in pages\<close>

locale paged_memory =
  fixes valid :: "'s \<Rightarrow> bool" and to_mem :: "'s \<Rightarrow> u64 \<Rightarrow> ptr option"
  assumes to_mem_page: "valid s \<Longrightarrow> page a = page b \<Longrightarrow> to_mem s a = Some q \<Longrightarrow> to_mem s b = Some (ptr_add q (b - a))"
begin

text \<open>A translation found for one address of a page serves the whole page.\<close>

lemma page_entry:
  assumes "valid s" "to_mem s paddr = Some q" "paddr = frame + (vaddr AND 4095)" "frame AND 4095 = 0" "page addr = page vaddr"
  shows "to_mem s (paddr - vaddr + addr) = Some (ptr_add (ptr_add q (- vaddr)) addr)"
    and "paddr - vaddr + addr = frame + (addr AND 4095)"
proof -
  show e: "paddr - vaddr + addr = frame + (addr AND 4095)"
    unfolding assms(3) using page_difference [OF assms(5)] by (simp only: frame_offset)
  have "page paddr = page (paddr - vaddr + addr)"
    unfolding e by (simp only: assms(3) page_frame [OF assms(4)])
  then have "to_mem s (paddr - vaddr + addr) = Some (ptr_add q (paddr - vaddr + addr - paddr))"
    using to_mem_page assms(1,2) by blast
  moreover have "paddr - vaddr + addr - paddr = - vaddr + addr" by simp
  ultimately show "to_mem s (paddr - vaddr + addr) = Some (ptr_add (ptr_add q (- vaddr)) addr)"
    by (simp only: ptr_add_add)
qed

end

interpretation bus: paged_memory bus_ok "\<lambda>s a. addr_to_mem a s"
  by unfold_locales (rule addr_to_mem_page)

section \<open>Host memory\<close>

locale byte_store =
  fixes get :: "'s \<Rightarrow> u64 \<Rightarrow> nat \<Rightarrow> bytes" and put :: "u64 \<Rightarrow> bytes \<Rightarrow> 's \<Rightarrow> 's"
  assumes get_put_same: "length bs \<le> 8 \<Longrightarrow> get (put off bs s) off (length bs) = bs"
    and get_put_other: "(\<And>i j. i < n \<Longrightarrow> j < length bs \<Longrightarrow> off' + of_nat i \<noteq> off + of_nat j) \<Longrightarrow> get (put off bs s) off' n = get s off' n"
begin

lemma get_value: "n \<le> 8 \<Longrightarrow> le_word (get (put off (le_bytes n v) s) off n) = take_bit (8 * n) v"
  using get_put_same [of "le_bytes n v" off s] le_word_bytes [of n v] by simp

end

lemma put_bytes_get:
  "put_bytes off bs f a = (if unat (a - off) < length bs then bs ! unat (a - off) else f a)" if "length bs < 2 ^ 64"
  using that
proof (induction bs arbitrary: off f)
  case (Cons b bs)
  have "length bs < 2 ^ 64" using Cons.prems by simp
  from Cons.IH [OF this]
  have i: "put_bytes off (b # bs) f a = (if unat (a - (off + 1)) < length bs then bs ! unat (a - (off + 1)) else (f(off := b)) a)"
    by (simp only: put_bytes.simps)
  show ?case
  proof (cases "a = off")
    case True
    have "unat (a - (off + 1)) = 2 ^ 64 - 1" by (simp add: True unsigned_minus_1_eq_mask mask_eq_exp_minus_1)
    then have "\<not> unat (a - (off + 1)) < length bs" using Cons.prems by simp
    then show ?thesis using i True by simp
  next
    case False
    then have "a - off \<noteq> 0" by simp
    then have "unat (a - off) \<noteq> 0" by (simp only: unat_eq_0 not_False_eq_True)
    then have u: "unat (a - off) = Suc (unat (a - (off + 1)))"
      using unat_minus_one [OF \<open>a - off \<noteq> 0\<close>] by (simp add: diff_diff_eq [symmetric])
    then show ?thesis using i False by simp
  qed
qed simp

definition dev_read :: "(u64 \<Rightarrow> u8) \<Rightarrow> u64 \<Rightarrow> nat \<Rightarrow> bytes" where
  "dev_read f off n = map (\<lambda>i. f (off + of_nat i)) [0..<n]"

interpretation ram: byte_store dev_read put_bytes
proof
  fix bs :: bytes and off :: u64 and s :: "u64 \<Rightarrow> u8"
  assume l: "length bs \<le> 8"
  then have "unat (of_nat i :: u64) = i" if "i < length bs" for i using that by (simp add: unat_of_nat take_bit_eq_mod)
  then show "dev_read (put_bytes off bs s) off (length bs) = bs"
    using l by (intro nth_equalityI) (simp_all add: dev_read_def put_bytes_get)
next
  fix n and bs :: bytes and off' off :: u64 and s :: "u64 \<Rightarrow> u8"
  assume "\<And>i j. i < n \<Longrightarrow> j < length bs \<Longrightarrow> off' + of_nat i \<noteq> off + of_nat j"
  have "put_bytes o' b f a = f a" if "\<And>j. j < length b \<Longrightarrow> a \<noteq> o' + of_nat j" for o' b f a
    using that
  proof (induction b arbitrary: o' f)
    case (Cons x b)
    have "a \<noteq> o'" using Cons.prems [of 0] by simp
    moreover have "put_bytes (o' + 1) b (f(o' := x)) a = (f(o' := x)) a"
    proof (rule Cons.IH)
      show "a \<noteq> o' + 1 + of_nat j" if "j < length b" for j
        using Cons.prems [of "Suc j"] that by (simp add: add.assoc)
    qed
    ultimately show ?case by simp
  qed simp
  then show "dev_read (put_bytes off bs s) off' n = dev_read s off' n"
    using \<open>\<And>i j. i < n \<Longrightarrow> j < length bs \<Longrightarrow> off' + of_nat i \<noteq> off + of_nat j\<close> by (simp add: dev_read_def)
qed

lemma mem_contents_write:
  "mem_contents b (mem_write base off bs s) =
     (if b = base \<and> (\<exists>sz f. map_of (devices s) base = Some (Mem_dev sz f)) then put_bytes off bs (mem_contents b s) else mem_contents b s)"
proof -
  have "map_of (map (\<lambda>(a, d). (a, if a = base then put_device off bs d else d)) ds) b =
    map_option (\<lambda>d. if b = base then put_device off bs d else d) (map_of ds b)" for ds
    by (induction ds) auto
  then show ?thesis by (auto simp: mem_contents_def mem_write_def put_device_def split: option.split device.split)
qed

lemma mem_read_dev: "mem_read base off n s = dev_read (mem_contents base s) off n"
  by (simp add: mem_read_def dev_read_def)

lemma find_device_map:
  "find_device a (map (\<lambda>(k, d). (k, if k = b then f d else d)) ds) =
     map_option (\<lambda>(k, d). (k, if k = b then f d else d)) (find_device a ds)"
  by (induction ds) (auto split: option.split)

lemma addr_to_mem_write [simp]: "addr_to_mem a (mem_write base off bs s) = addr_to_mem a s"
  by (simp add: addr_to_mem_def mem_write_def find_device_map)
    (auto simp: put_device_def split: option.split device.split)

lemma map_of_find:
  assumes "bus_ok s" "find_device a (devices s) = Some (b, d)"
  shows "map_of (devices s) b = Some d"
proof -
  have "distinct (map fst (devices s))"
    using assms(1) strict_sorted_iff [of "map fst (devices s)"] by (simp add: bus_ok_def)
  then show ?thesis using find_device_Some [OF assms(2)] by simp
qed

lemma bus_ok_write [simp]: "bus_ok (mem_write base off bs s) = bus_ok s"
proof -
  let ?w = "\<lambda>(a, d). (a, if a = base then put_device off bs d else d)"
  have d: "devices (mem_write base off bs s) = map ?w (devices s)" by (simp add: mem_write_def)
  have "device_ok (?w x) = device_ok x" for x
    by (cases x) (auto simp: device_ok_def put_device_def split: device.split)
  then have "list_all device_ok (map ?w ds) = list_all device_ok ds" for ds
    by (simp add: list_all_iff)
  moreover have "map fst (map ?w ds) = map fst ds" for ds
    by (induction ds) auto
  ultimately show ?thesis by (simp only: bus_ok_def d)
qed

end
