(* ===== verification/RV_Translate_Correct.thy ===== *)
theory RV_Translate_Correct
  imports RV_Translate RV_PMP_Correct
begin

text \<open>
  What address translation computes: it depends on a few registers and on the bytes of memory only, it
  gives one answer for a page, and without a guest it is the lookup of a leaf along a path of page
  table entries.
\<close>

section \<open>What translation depends on\<close>

definition translation_state :: "hart \<Rightarrow> (u64 \<times> bool \<times> bool \<times> nat \<times> config) \<times> (u64 \<times> u64 \<times> u64 \<times> u64 \<times> u64) \<times> u64 \<times> (u64 \<times> u64 \<times> u64) \<times> u8 list \<times> u64 list" where
  "translation_state p =
     ((prv p, virt p, debug_mode (csr p), cur_xlen p, cfg p),
      (get_field (mstatus p) MSTATUS_MXR, get_field (mstatus p) MSTATUS_SUM, get_field (mstatus p) MSTATUS_MPRV,
       get_field (mstatus p) MSTATUS_MPP, get_field (mstatus p) MSTATUS_MPV),
      get_field (hstatus (csr p)) HSTATUS_SPVP,
      (satp (csr p), vsatp (csr p), hgatp (csr p)), pmpcfg (csr p), pmpaddr (csr p))"

definition same_memory :: "sim \<Rightarrow> sim \<Rightarrow> bool" where
  "same_memory s s' = ((\<forall>a. addr_to_mem a s = addr_to_mem a s') \<and> (\<forall>b. mem_contents b s = mem_contents b s'))"

lemma same_memory_refl [simp]: "same_memory s s"
  by (simp add: same_memory_def)

lemma pmp_scan_cong:
  assumes "pmpcfg (csr p) = pmpcfg (csr p')" "pmpaddr (csr p) = pmpaddr (csr p')" "cfg p = cfg p'"
  shows "pmp_scan is base addr len type mode p = pmp_scan is base addr len type mode p'"
proof (induction "is" arbitrary: base)
  case (Cons i "is")
  have t: "pmp_tor i p = pmp_tor i p'" for i using assms by (simp add: pmp_tor_def pmp_tor_mask_def)
  moreover have "pmp_napot_mask i p = pmp_napot_mask i p'" using assms by (simp add: pmp_napot_mask_def pmp_tor_mask_def)
  ultimately have "pmp_match base i p = pmp_match base i p'" using assms by (intro ext) (simp add: pmp_match_def)
  then show ?case using Cons.IH t assms by simp
qed simp

lemma pmp_ok_cong: "translation_state p = translation_state p' \<Longrightarrow> pmp_ok a len type mode p = pmp_ok a len type mode p'"
  using pmp_scan_cong [of p p'] by (simp add: pmp_ok_def translation_state_def)

lemma read_pte_cong:
  assumes ts: "translation_state p = translation_state p'" and sm: "same_memory s s'"
  shows "read_pte a z s p = read_pte a z s' p'"
proof -
  have "mem_read b off n s = mem_read b off n s'" for b off n
    using sm by (simp add: mem_read_def same_memory_def)
  moreover have "addr_to_mem a s = addr_to_mem a s'" using sm by (simp add: same_memory_def)
  ultimately show ?thesis by (simp only: read_pte_def pmp_ok_cong [OF ts] cong del: option.case_cong_weak ptr.case_cong_weak)
qed

lemma s2xlate_cong:
  assumes ts: "translation_state p = translation_state p'" and sm: "same_memory s s'"
  shows "s2xlate gva gpa type vt mxr s p = s2xlate gva gpa type vt mxr s' p'"
proof -
  have "s2_walk i base vm gva gpa type mxr s p = s2_walk i base vm gva gpa type mxr s' p'" for i base vm
    by (induction i arbitrary: base) (simp_all only: s2_walk.simps read_pte_cong [OF ts sm] Let_def cong del: option.case_cong_weak if_weak_cong)
  moreover have "max_xlen (cfg p) = max_xlen (cfg p')" "hgatp (csr p) = hgatp (csr p')" using ts by (simp_all add: translation_state_def)
  ultimately show ?thesis by (simp only: s2xlate_def cong del: if_weak_cong)
qed

lemma walk_cong:
  assumes ts: "translation_state p = translation_state p'" and sm: "same_memory s s'"
  shows "walk addr type mode vt mxr s p = walk addr type mode vt mxr s' p'"
proof -
  have u: "pte_user_fault type mode p pte = pte_user_fault type mode p' pte" for pte
    using ts by (simp add: pte_user_fault_def translation_state_def)
  have "s1_walk i base vm addr type mode vt mxr s p = s1_walk i base vm addr type mode vt mxr s' p'" for i base vm
    by (induction i arbitrary: base) (simp_all only: s1_walk.simps read_pte_cong [OF ts sm] s2xlate_cong [OF ts sm] u Let_def cong del: option.case_cong_weak if_weak_cong)
  moreover have "cfg p = cfg p'" "cur_xlen p = cur_xlen p'" "satp (csr p) = satp (csr p')" "vsatp (csr p) = vsatp (csr p')"
    using ts by (simp_all add: translation_state_def)
  ultimately show ?thesis by (simp only: walk_def s2xlate_cong [OF ts sm] Let_def cong del: if_weak_cong)
qed

lemma translate_cong:
  assumes ts: "translation_state p = translation_state p'" and sm: "same_memory s s'"
  shows "translate addr len type flags s p = translate addr len type flags s' p'"
proof -
  have "effective_mode type flags p = effective_mode type flags p'"
    using ts by (simp add: effective_mode_def translation_state_def Let_def)
  then show ?thesis by (simp add: translate_def walk_cong [OF ts sm] pmp_ok_cong [OF ts])
qed

section \<open>One answer for a page\<close>

definition success :: "'e + 'a \<Rightarrow> 'a option" where
  "success r = (case r of Inl e \<Rightarrow> None | Inr x \<Rightarrow> Some x)"

lemma success_simps [simp]: "success (Inl e) = None" "success (Inr x) = Some x"
  by (simp_all add: success_def)

lemma success_and_then: "success (and_then r k) = Option.bind (success r) (\<lambda>x. success (k x))"
  by (cases r) simp_all

lemma success_if: "success (if c then a else b) = (if c then success a else success b)"
  by simp

lemma success_case: "success (case x of None \<Rightarrow> a | Some y \<Rightarrow> f y) = (case x of None \<Rightarrow> success a | Some y \<Rightarrow> success (f y))"
  by (cases x) simp_all

lemma success_Inr: "success r = Some x \<longleftrightarrow> r = Inr x"
  by (cases r) simp_all

lemmas success_dist = success_and_then success_if success_case

lemma drop_page: "drop_bit (12 + k) a = drop_bit k (page a)" for a :: u64
  by (simp add: add.commute)

lemma page_or_offset: "page (push_bit 12 w OR (a AND 4095)) = page (push_bit 12 w :: u64)"
  by (rule bit_word_eqI, simp only: bit_page) auto

lemma page_clear: "(push_bit 12 w OR (a AND 4095)) AND NOT 4095 = (push_bit 12 w :: u64)"
  by (rule bit_word_eqI, simp only: bit_page) auto

lemma s2_walk_gva: "success (s2_walk i base vm a g type mxr s p) = success (s2_walk i base vm b g type mxr s p)"
  by (induction i arbitrary: base)
    (simp_all only: s2_walk.simps success_dist success_simps Let_def cong del: option.case_cong_weak if_weak_cong)

lemma s2xlate_gva: "success (s2xlate a g type vt mxr s p) = success (s2xlate b g type vt mxr s p)"
  unfolding s2xlate_def success_dist by (simp only: s2_walk_gva [of _ _ _ a _ _ _ _ _ b] cong del: if_weak_cong)

lemma map_page_dist:
  "map_option page (if c then a else b) = (if c then map_option page a else map_option page b)"
  "map_option page (case x of None \<Rightarrow> a | Some y \<Rightarrow> f y) = (case x of None \<Rightarrow> map_option page a | Some y \<Rightarrow> map_option page (f y))"
  by (auto split: option.split)

lemma s2_walk_page:
  assumes "page g = page h"
  shows "map_option page (success (s2_walk i base vm a g type mxr s p)) = map_option page (success (s2_walk i base vm b h type mxr s p))"
proof (induction i arbitrary: base)
  case (Suc i)
  have idx: "drop_bit (PGSHIFT + k) g = drop_bit (PGSHIFT + k) h" for k by (simp only: drop_page assms)
  have b: "page (pte_page_base k g pte OR (g AND (4096 - 1))) = page (pte_page_base k h pte OR (h AND (4096 - 1)))" for k pte
    by (simp add: pte_page_base_def assms page_or_offset)
  show ?case
    unfolding s2_walk.simps Let_def success_dist idx map_page_dist
    by (simp only: Suc.IH success_simps option.map b cong del: option.case_cong_weak if_weak_cong)
qed simp

lemma s2xlate_page:
  assumes "page g = page h"
  shows "map_option page (success (s2xlate a g type vt mxr s p)) = map_option page (success (s2xlate b h type vt mxr s p))"
  using s2_walk_page [OF assms] assms
  by (cases "decode_vm_info (max_xlen (cfg p)) True 0 (hgatp (csr p))") (simp_all add: s2xlate_def)

lemma s2xlate_masked:
  assumes "page g = page h"
  shows "success (and_then (s2xlate a g type vt mxr s p) (\<lambda>pa. Inr (pa AND NOT (4096 - 1)) :: trap + u64)) =
    success (and_then (s2xlate b h type vt mxr s p) (\<lambda>pa. Inr (pa AND NOT (4096 - 1)) :: trap + u64))"
proof -
  have c: "x AND - 4096 = push_bit 12 (page x)" for x :: u64
    by (rule bit_word_eqI, simp only: bit_page) auto
  show ?thesis
    using s2xlate_page [OF assms, of a type vt mxr s p b]
    by (cases "s2xlate a g type vt mxr s p"; cases "s2xlate b h type vt mxr s p") (simp_all add: c)
qed

lemma s1_walk_page:
  assumes "page a = page b"
  shows "success (s1_walk i base vm a type mode vt mxr s p) = success (s1_walk i base vm b type mode vt mxr s p)"
proof (induction i arbitrary: base)
  case (Suc i)
  have idx: "drop_bit (PGSHIFT + k) a = drop_bit (PGSHIFT + k) b" for k by (simp only: drop_page assms)
  have pg: "page (pte_page_base k a pte OR (a AND (4096 - 1))) = page (pte_page_base k b pte OR (b AND (4096 - 1)))" for k pte
    by (simp add: pte_page_base_def assms page_or_offset)
  note m = s2xlate_masked [OF pg, of a _ _ type vt mxr s p b]
  show ?case
    unfolding s1_walk.simps Let_def success_and_then [of "s2xlate a _ LOAD vt False s p"]
      success_and_then [of "s2xlate b _ LOAD vt False s p"] success_if success_case idx m
      s2xlate_gva [of a _ LOAD vt False s p b]
    by (simp only: Suc.IH success_simps)
qed simp

text \<open>The bits of an address above its page decide whether it is canonical.\<close>

definition page_canonical :: "hart \<Rightarrow> bool \<Rightarrow> u64 \<Rightarrow> bool" where
  "page_canonical p vt mode =
     (\<forall>vm. decode_vm_info (max_xlen (cfg p)) False mode (if vt then vsatp (csr p) else satp (csr p)) = Inr vm \<longrightarrow>
        12 \<le> (PGSHIFT + levels vm * idxbits vm - 1) mod 64 \<or> levels vm = 0)"

lemma walk_page:
  assumes "page a = page b" "page_canonical p vt mode" "12 \<le> cur_xlen p"
  shows "success (walk a type mode vt mxr s p) = success (walk b type mode vt mxr s p)"
proof (cases "decode_vm_info (max_xlen (cfg p)) False mode (if vt then vsatp (csr p) else satp (csr p))")
  case (Inr vm)
  have z: "page (a AND (push_bit (cur_xlen p - 1) 2 - 1)) = page (b AND (push_bit (cur_xlen p - 1) 2 - 1))"
    by (simp only: drop_bit_and assms(1))
  have c: "va_canonical xlen v a = va_canonical xlen v b" if "12 \<le> (v - 1) mod 64" for xlen v
  proof -
    have "(v - 1) mod 64 = 12 + ((v - 1) mod 64 - 12)" using that by simp
    then have "drop_bit ((v - 1) mod 64) a = drop_bit ((v - 1) mod 64) b" using drop_page assms(1) by metis
    then show ?thesis by (simp only: va_canonical_def)
  qed
  have v: "levels vm \<noteq> 0 \<Longrightarrow> 12 \<le> (PGSHIFT + levels vm * idxbits vm - 1) mod 64"
    using assms(2) Inr unfolding page_canonical_def by auto
  show ?thesis
  proof (cases "levels vm = 0")
    case True
    then show ?thesis unfolding walk_def Inr and_then_simps using s2xlate_masked [OF z] by (simp only: if_True simp_thms)
  next
    case False
    then show ?thesis
      unfolding walk_def Inr and_then_simps Let_def c [OF v [OF False]]
      using s1_walk_page [OF assms(1)] by (simp only: if_False simp_thms)
  qed
qed (simp add: walk_def)

section \<open>The walk as a path of page table entries\<close>

definition pte_at :: "sim \<Rightarrow> hart \<Rightarrow> vm_info \<Rightarrow> u64 \<Rightarrow> nat \<Rightarrow> u64 \<Rightarrow> u64 option" where
  "pte_at s p vm va i base =
     read_pte (base + take_bit (idxbits vm) (drop_bit (12 + i * idxbits vm) va) * of_nat (ptesize vm)) (ptesize vm) s p"

text \<open>From the table at \<open>base\<close> with \<open>n\<close> levels below it, the entries for \<open>va\<close> lead to the leaf \<open>pte\<close> of level \<open>i\<close>.\<close>

inductive pte_path :: "sim \<Rightarrow> hart \<Rightarrow> vm_info \<Rightarrow> u64 \<Rightarrow> nat \<Rightarrow> u64 \<Rightarrow> nat \<Rightarrow> u64 \<Rightarrow> bool"
  for s :: sim and p :: hart and vm :: vm_info and va :: u64 where
  leaf: "pte_at s p vm va n base = Some pte \<Longrightarrow> \<not> PTE_TABLE pte \<Longrightarrow> pte_path s p vm va (Suc n) base n pte"
| table: "pte_at s p vm va n base = Some t \<Longrightarrow> PTE_TABLE t \<Longrightarrow> pte_path s p vm va n (push_bit 12 (pte_ppn t)) i pte \<Longrightarrow>
    pte_path s p vm va (Suc n) base i pte"

inductive_cases pte_path_0: "pte_path s p vm va 0 base i pte"
inductive_cases pte_path_Suc: "pte_path s p vm va (Suc n) base i pte"

lemma pte_path_simps:
  "\<not> pte_path s p vm va 0 base i pte"
  "pte_path s p vm va (Suc n) base i pte \<longleftrightarrow>
     (\<exists>t. pte_at s p vm va n base = Some t \<and>
        (if PTE_TABLE t then pte_path s p vm va n (push_bit 12 (pte_ppn t)) i pte else i = n \<and> pte = t))"
  by (auto elim: pte_path_0 pte_path_Suc intro: pte_path.intros split: if_splits)

text \<open>What a leaf must grant.\<close>

definition leaf_allows :: "access_type \<Rightarrow> u64 \<Rightarrow> bool \<Rightarrow> bool \<Rightarrow> nat \<Rightarrow> u64 \<Rightarrow> bool" where
  "leaf_allows type mode mxr sum_bit ptshift pte \<longleftrightarrow>
     bit pte 0 \<and> (bit pte 2 \<longrightarrow> bit pte 1) \<and>
     (case type of FETCH \<Rightarrow> bit pte 3 | LOAD \<Rightarrow> bit pte 1 \<or> mxr \<and> bit pte 3 | STORE \<Rightarrow> bit pte 2) \<and>
     (if mode = PRV_S then bit pte 4 \<longrightarrow> sum_bit \<and> type \<noteq> FETCH else bit pte 4) \<and>
     bit pte 6 \<and> (type = STORE \<longrightarrow> bit pte 7) \<and>
     take_bit ptshift (pte_ppn pte) = 0"

lemma and_bit: "w AND 2 ^ n = 0 \<longleftrightarrow> \<not> bit w n" for w :: u64
  by (simp add: and_exp_eq_0_iff_not_bit)

lemma and_bits:
  "w AND 1 = 0 \<longleftrightarrow> \<not> bit w 0" "w AND 2 = 0 \<longleftrightarrow> \<not> bit w 1" "w AND 4 = 0 \<longleftrightarrow> \<not> bit w 2" "w AND 8 = 0 \<longleftrightarrow> \<not> bit w 3"
  "w AND 16 = 0 \<longleftrightarrow> \<not> bit w 4" "w AND 64 = 0 \<longleftrightarrow> \<not> bit w 6" "w AND 128 = 0 \<longleftrightarrow> \<not> bit w 7" for w :: u64
  using and_bit [of w 0] and_bit [of w 1] and_bit [of w 2] and_bit [of w 3] and_bit [of w 4] and_bit [of w 6] and_bit [of w 7]
  by simp_all

lemma and_subset: "w AND m = m \<longleftrightarrow> (\<forall>i. bit m i \<longrightarrow> bit w i)" for w m :: u64
proof
  assume "w AND m = m"
  then show "\<forall>i. bit m i \<longrightarrow> bit w i" by (metis bit_and_iff)
next
  assume "\<forall>i. bit m i \<longrightarrow> bit w i"
  then show "w AND m = m" by (intro bit_word_eqI) (auto simp: bit_and_iff)
qed

lemma stale_bits: "pte_stale type pte \<longleftrightarrow> \<not> (bit pte 6 \<and> (type = STORE \<longrightarrow> bit pte 7))"
proof -
  have "bit (64 :: u64) i \<longleftrightarrow> i = 6" "bit (128 :: u64) i \<longleftrightarrow> i = 7" for i
    using bit_exp_iff [where 'a = u64, of 6 i] bit_exp_iff [where 'a = u64, of 7 i] by auto
  then have "(pte AND 64 = 64) = bit pte 6" "(pte AND (64 OR 128) = 64 OR 128) = (bit pte 6 \<and> bit pte 7)"
    unfolding and_subset by (auto simp only: bit_or_iff)
  then show ?thesis unfolding pte_stale_def Let_def by (cases "type = STORE") (simp_all only: if_True if_False simp_thms or.right_neutral)
qed

lemma leaf_allows_checks:
  "\<not> PTE_TABLE pte \<Longrightarrow>
   leaf_allows type mode mxr (get_field (mstatus p) MSTATUS_SUM \<noteq> 0) ptshift pte \<longleftrightarrow>
   \<not> (pte_user_fault type mode p pte \<or> pte_invalid pte \<or> pte_forbids type mxr pte \<or> pte_misaligned ptshift pte \<or> pte_stale type pte)"
proof -
  have "take_bit ptshift (pte_ppn pte) = pte_ppn pte AND (push_bit ptshift 1 - 1)"
    by (simp only: take_bit_eq_mask mask_eq_exp_minus_1 push_bit_of_1)
  then show ?thesis
    unfolding leaf_allows_def pte_user_fault_def pte_invalid_def pte_forbids_def pte_misaligned_def Let_def stale_bits and_bits
    by (cases type) auto
qed

definition leaf_address :: "vm_info \<Rightarrow> nat \<Rightarrow> u64 \<Rightarrow> u64 \<Rightarrow> u64" where
  "leaf_address vm i va pte = push_bit 12 (pte_ppn pte) + take_bit (12 + i * idxbits vm) va"

lemma leaf_address_or:
  assumes "take_bit (i * idxbits vm) (pte_ppn pte) = 0"
  shows "leaf_address vm i va pte = push_bit 12 (pte_ppn pte) OR take_bit (12 + i * idxbits vm) va"
proof -
  have z: "\<not> bit (pte_ppn pte) j" if "j < i * idxbits vm" for j
    using arg_cong [OF assms, of "\<lambda>w. bit w j"] that by (simp add: bit_take_bit_iff)
  have "push_bit 12 (pte_ppn pte) AND take_bit (12 + i * idxbits vm) va = 0"
    by (rule bit_word_eqI) (auto simp: bit_simps z)
  then show ?thesis unfolding leaf_address_def by (rule disjunctive_add_eq_or)
qed

lemma leaf_pages:
  assumes "take_bit (i * idxbits vm) (pte_ppn pte) = 0"
  shows "((pte_page_base (i * idxbits vm) va pte OR (va AND 4095)) AND NOT 4095) OR (va AND 4095) = leaf_address vm i va pte"
  unfolding leaf_address_or [OF assms] pte_page_base_def Let_def
proof (rule bit_word_eqI)
  let ?k = "i * idxbits vm"
  have m: "push_bit ?k 1 - 1 = (mask ?k :: u64)" by (simp only: mask_eq_exp_minus_1 push_bit_of_1)
  fix j assume "j < LENGTH(64)"
  show "bit (((push_bit 12 (pte_ppn pte OR (drop_bit 12 va AND (push_bit ?k 1 - 1))) OR (va AND 4095)) AND NOT 4095) OR (va AND 4095)) j =
    bit (push_bit 12 (pte_ppn pte) OR take_bit (12 + ?k) va) j"
    unfolding m by (simp only: bit_page bit_take_bit_iff bit_mask_iff) (use \<open>j < LENGTH(64)\<close> in auto)
qed

lemma s1_walk_path:
  "s1_walk n base vm va type mode False mxr s p = Inr pa \<longleftrightarrow>
   (\<exists>i pte. pte_path s p vm va n base i pte \<and>
      leaf_allows type mode mxr (get_field (mstatus p) MSTATUS_SUM \<noteq> 0) (i * idxbits vm) pte \<and>
      pa = (pte_page_base (i * idxbits vm) va pte OR (va AND 4095)) AND NOT 4095)"
proof (induction n arbitrary: base)
  case 0
  then show ?case by (simp add: pte_path_simps)
next
  case (Suc n)
  have m: "w AND (push_bit k 1 - 1) = take_bit k w" for k and w :: u64
    by (simp only: take_bit_eq_mask mask_eq_exp_minus_1 push_bit_of_1)
  have e: "(4096 :: u64) - 1 = 4095" by simp
  have r: "read_pte (base + (drop_bit (PGSHIFT + n * idxbits vm) va AND (push_bit (idxbits vm) 1 - 1)) * of_nat (ptesize vm)) (ptesize vm) s p =
    pte_at s p vm va n base" by (simp only: pte_at_def m)
  have x: "s2xlate va g ty False mx s p = Inr g" for g ty mx by (simp add: s2xlate_def)
  show ?case
  proof (cases "pte_at s p vm va n base")
    case None
    then show ?thesis unfolding s1_walk.simps Let_def x and_then_simps r by (simp add: pte_path_simps)
  next
    case (Some t)
    show ?thesis
    proof (cases "PTE_TABLE t")
      case True
      then show ?thesis
        unfolding s1_walk.simps Let_def x and_then_simps r Some using Suc.IH [of "push_bit 12 (pte_ppn t)"] Some
        by (simp add: pte_path_simps)
    next
      case False
      show ?thesis
        unfolding s1_walk.simps Let_def x and_then_simps r Some e
        using leaf_allows_checks [OF False, of type mode mxr p "n * idxbits vm"] False Some
        by (simp add: pte_path_simps) blast
    qed
  qed
qed

text \<open>A failed walk is a page fault at the address, or an access fault where an entry cannot be read.\<close>

lemma s1_walk_fault:
  "s1_walk n base vm va type mode False mxr s p = Inl t \<Longrightarrow> t = page_fault type va \<or> t = access_fault type va"
proof (induction n arbitrary: base)
  case (Suc n)
  have x: "s2xlate va g ty False mx s p = Inr g" for g ty mx by (simp add: s2xlate_def)
  show ?case
    using Suc.prems Suc.IH unfolding s1_walk.simps Let_def x and_then_simps
    by (auto split: option.splits if_splits)
qed simp

end
