(* ===== verification/RV_MMU_Correct.thy ===== *)
theory RV_MMU_Correct
  imports RV_MMU RV_Bus_Correct RV_Translate_Correct
begin

text \<open>
  The translation buffer is transparent: while every tag that can hit stands for a translation of its
  page, an access through the buffer does what the same access does with the buffer empty. The
  invariant is \<open>tlb_ok\<close>; a refill keeps it because walks agree within a page and across kinds of
  access, and because protection is one answer for a page that is cached.
\<close>

section \<open>Walks agree\<close>

lemma and_then_Inr: "and_then r k = Inr x \<longleftrightarrow> (\<exists>y. r = Inr y \<and> k y = Inr x)"
  by (cases r) simp_all

lemma and_then_Inl: "and_then r k = Inl x \<longleftrightarrow> r = Inl x \<or> (\<exists>y. r = Inr y \<and> k y = Inl x)"
  by (cases r) simp_all

lemma s2_walk_agree:
  "s2_walk i base vm g a ty mxr s p = Inr x \<Longrightarrow> s2_walk i base vm g a ty' mxr' s p = Inr y \<Longrightarrow> x = y"
proof (induction i arbitrary: base)
  case (Suc i)
  show ?case
    using Suc.prems Suc.IH unfolding s2_walk.simps Let_def
    by (auto split: option.split_asm if_split_asm)
qed simp

lemma s2xlate_agree: "s2xlate g a ty vt mxr s p = Inr x \<Longrightarrow> s2xlate g a ty' vt mxr' s p = Inr y \<Longrightarrow> x = y"
  using s2_walk_agree by (auto simp: s2xlate_def and_then_Inr split: if_split_asm)

text \<open>One level of a walk that succeeds.\<close>

lemma s1_walk_Inr:
  assumes "s1_walk (Suc i) base vm a ty mode vt mxr s p = Inr x"
  shows "\<exists>b pte. s2xlate a (base + (drop_bit (PGSHIFT + i * idxbits vm) a AND (push_bit (idxbits vm) 1 - 1)) * of_nat (ptesize vm)) LOAD vt False s p = Inr b \<and>
    read_pte b (ptesize vm) s p = Some pte \<and>
    (if PTE_TABLE pte then s1_walk i (push_bit PGSHIFT (pte_ppn pte)) vm a ty mode vt mxr s p = Inr x
     else \<exists>y. s2xlate a (pte_page_base (i * idxbits vm) a pte OR (a AND 4095)) ty vt mxr s p = Inr y \<and> x = y AND NOT 4095)"
proof -
  have e: "(4096 :: u64) - 1 = 4095" by simp
  obtain b where b: "s2xlate a (base + (drop_bit (PGSHIFT + i * idxbits vm) a AND (push_bit (idxbits vm) 1 - 1)) * of_nat (ptesize vm)) LOAD vt False s p = Inr b"
    using assms unfolding s1_walk.simps Let_def and_then_Inr by blast
  note w = assms [unfolded s1_walk.simps Let_def b and_then_simps e]
  obtain pte where p: "read_pte b (ptesize vm) s p = Some pte"
    using w by (cases "read_pte b (ptesize vm) s p") simp_all
  note w = w [unfolded p option.case]
  show ?thesis
    by (intro exI conjI, rule b, rule p)
      (use w in \<open>auto simp only: if_True if_False and_then_Inr sum.inject sum.distinct split: if_split_asm\<close>)
qed

lemma s1_walk_agree:
  "s1_walk i base vm a ty mode vt mxr s p = Inr x \<Longrightarrow> s1_walk i base vm a ty' mode vt mxr' s p = Inr y \<Longrightarrow> x = y"
proof (induction i arbitrary: base)
  case (Suc i)
  let ?a = "base + (drop_bit (PGSHIFT + i * idxbits vm) a AND (push_bit (idxbits vm) 1 - 1)) * of_nat (ptesize vm)"
  obtain b pte where b: "s2xlate a ?a LOAD vt False s p = Inr b" "read_pte b (ptesize vm) s p = Some pte"
    using s1_walk_Inr [OF Suc.prems(1)] by blast
  show ?case
    using s1_walk_Inr [OF Suc.prems(1)] s1_walk_Inr [OF Suc.prems(2)] Suc.IH s2xlate_agree b
    by (cases "PTE_TABLE pte") (simp_all, blast+)
qed simp

lemma walk_agree:
  "walk a ty mode vt mxr s p = Inr x \<Longrightarrow> walk a ty' mode vt mxr' s p = Inr y \<Longrightarrow> x = y"
  unfolding walk_def Let_def and_then_Inr
  by (auto simp: and_then_Inr split: if_split_asm dest: s1_walk_agree s2xlate_agree)

lemma clear_page: "(x AND NOT 4095) AND 4095 = (0 :: u64)"
  by (rule bit_word_eqI, simp only: bit_page) simp

lemma s1_walk_frame: "s1_walk i base vm a ty mode vt mxr s p = Inr x \<Longrightarrow> x AND 4095 = 0"
proof (induction i arbitrary: base)
  case (Suc i)
  from s1_walk_Inr [OF Suc.prems] show ?case
    by (auto simp only: clear_page split: if_split_asm dest: Suc.IH)
qed simp

lemma walk_frame: "walk a ty mode vt mxr s p = Inr x \<Longrightarrow> x AND 4095 = 0"
proof -
  have e: "(4096 :: u64) - 1 = 4095" by simp
  assume "walk a ty mode vt mxr s p = Inr x"
  then show ?thesis
    unfolding walk_def Let_def and_then_Inr e
    by (auto simp only: and_then_Inr sum.inject sum.distinct clear_page split: if_split_asm dest: s1_walk_frame)
qed

section \<open>Tags\<close>

lemma bit_check: "bit (0x8000000000000000 :: u64) i \<longleftrightarrow> i = 63"
  using bit_exp_iff [where 'a = u64, of 63 i] by auto

lemma vpn_high: "52 \<le> i \<Longrightarrow> \<not> bit (vpn_of a) i"
  by (auto simp: vpn_of_def bit_drop_bit_eq dest!: bit_imp_le_length)

definition plain_tag :: "u64 \<Rightarrow> u64" where "plain_tag t = t AND NOT TLB_CHECK_TRIGGERS"

lemma plain_tags:
  "plain_tag (vpn_of a) = vpn_of a" "plain_tag (vpn_of a OR TLB_CHECK_TRIGGERS) = vpn_of a"
proof -
  have "vpn_of a AND 0x8000000000000000 = 0"
    by (rule bit_word_eqI, simp only: bit_and_iff bit_check) (auto simp: vpn_high)
  then show "plain_tag (vpn_of a) = vpn_of a"
    unfolding plain_tag_def by (intro bit_word_eqI, simp only: bit_page bit_check) (auto simp: vpn_high)
  show "plain_tag (vpn_of a OR TLB_CHECK_TRIGGERS) = vpn_of a"
    unfolding plain_tag_def by (intro bit_word_eqI, simp only: bit_page bit_check) (auto simp: vpn_high)
qed

lemma tag_neq [simp]: "vpn_of a \<noteq> vpn_of b OR TLB_CHECK_TRIGGERS" "vpn_of b OR TLB_CHECK_TRIGGERS \<noteq> vpn_of a"
proof -
  have "\<not> bit (vpn_of a) 63" by (simp add: vpn_high)
  moreover have "bit (vpn_of b OR 0x8000000000000000) 63" by (simp only: bit_or_iff bit_check) simp
  ultimately show "vpn_of a \<noteq> vpn_of b OR TLB_CHECK_TRIGGERS" "vpn_of b OR TLB_CHECK_TRIGGERS \<noteq> vpn_of a" by metis+
qed

lemma empty_tag [simp]: "- 1 \<noteq> vpn_of a" "- 1 \<noteq> vpn_of a OR TLB_CHECK_TRIGGERS"
proof -
  have "\<not> bit (vpn_of a) 60" by (simp add: vpn_high)
  moreover have "\<not> bit (vpn_of a OR 0x8000000000000000) 60" by (simp only: bit_or_iff bit_check) (simp add: vpn_high)
  moreover have "bit (- 1 :: u64) 60" by simp
  ultimately show "- 1 \<noteq> vpn_of a" "- 1 \<noteq> vpn_of a OR TLB_CHECK_TRIGGERS" by metis+
qed

text \<open>A tag hits an address, with or without the trigger mark.\<close>

definition tag_hit :: "u64 \<Rightarrow> u64 \<Rightarrow> bool" where
  "tag_hit t a = (t = vpn_of a \<or> t = vpn_of a OR TLB_CHECK_TRIGGERS)"

lemma hit_plain: "tag_hit t a \<Longrightarrow> plain_tag t = vpn_of a"
  using plain_tags by (auto simp: tag_hit_def)

lemma hit_same_page: "tag_hit (vpn_of b) a \<or> tag_hit (vpn_of b OR TLB_CHECK_TRIGGERS) a \<Longrightarrow> vpn_of a = vpn_of b"
  using hit_plain [of "vpn_of b" a] hit_plain [of "vpn_of b OR 0x8000000000000000" a] plain_tags [of b] by auto

lemma empty_miss [simp]: "\<not> tag_hit (- 1) a"
  by (simp only: tag_hit_def empty_tag simp_thms)

lemma drop_other_hit: "tag_hit (drop_other_tag (vpn_of b) t) a \<longleftrightarrow> tag_hit t a \<and> vpn_of a = vpn_of b"
proof -
  have "tag_hit t a \<Longrightarrow> t AND NOT TLB_CHECK_TRIGGERS = vpn_of a" using hit_plain plain_tag_def by metis
  then show ?thesis unfolding drop_other_tag_def using empty_miss by (cases "t AND NOT TLB_CHECK_TRIGGERS = vpn_of b") auto
qed

lemma drop_other_eq: "drop_other_tag v t = x \<Longrightarrow> - 1 \<noteq> x \<Longrightarrow> t = x"
  by (cases "t AND NOT TLB_CHECK_TRIGGERS \<noteq> v") (simp_all only: drop_other_tag_def if_True if_False simp_thms)

lemma vpn_page: "vpn_of a = page a"
  by (simp add: vpn_of_def)

lemma index_vpn: "vpn_of a = vpn_of b \<Longrightarrow> tlb_index a = tlb_index b"
  by (simp add: tlb_index_def)

section \<open>Translations of a page\<close>

text \<open>Data accesses and fetches are translated alike: no access uses the mode of the last trap.\<close>

definition regular :: "'f machine \<Rightarrow> bool" where
  "regular m =
     (let p = core m
      in bus_ok (host m) \<and> 12 \<le> cur_xlen p \<and> page_canonical p (virt p) (prv p) \<and>
         (debug_mode (csr p) \<or> get_field (mstatus p) MSTATUS_MPRV = 0))"

lemma regularD:
  "regular m \<Longrightarrow> bus_ok (host m)" "regular m \<Longrightarrow> 12 \<le> cur_xlen (core m)"
  "regular m \<Longrightarrow> page_canonical (core m) (virt (core m)) (prv (core m))"
  "regular m \<Longrightarrow> effective_mode ty 0 (core m) = (prv (core m), virt (core m), get_field (mstatus (core m)) MSTATUS_MXR \<noteq> 0)"
  by (auto simp: regular_def effective_mode_def Let_def)

definition walk_of :: "u64 \<Rightarrow> access_type \<Rightarrow> 'f machine \<Rightarrow> trap + u64" where
  "walk_of a ty m = walk a ty (prv (core m)) (virt (core m)) (get_field (mstatus (core m)) MSTATUS_MXR \<noteq> 0) (host m) (core m)"

lemma frame_or: "f AND 4095 = 0 \<Longrightarrow> f OR (a AND 4095) = f + (a AND 4095)" for f a :: u64
proof -
  assume z: "f AND 4095 = 0"
  have "f AND (a AND 4095) = (f AND 4095) AND a" by (simp only: ac_simps)
  then have "f AND (a AND 4095) = 0" by (simp only: z) simp
  from disjunctive_add_eq_or [OF this] show ?thesis by simp
qed

lemma translate_regular:
  assumes "regular m"
  shows "translate a len ty 0 (host m) (core m) = Inr x \<longleftrightarrow>
    (\<exists>pa. walk_of a ty m = Inr pa \<and> x = pa + (a AND 4095) \<and> pmp_ok x len ty (prv (core m)) (core m))"
proof -
  have "pa OR (a AND (4096 - 1)) = pa + (a AND 4095)" if "walk_of a ty m = Inr pa" for pa
    using frame_or walk_frame that by (simp add: walk_of_def)
  then show ?thesis
    unfolding translate_def regularD(4) [OF assms] prod.case walk_of_def [symmetric] and_then_Inr Let_def
    by (auto split: if_split_asm)
qed

lemma walk_of_page: "regular m \<Longrightarrow> page a = page b \<Longrightarrow> walk_of a ty m = Inr x \<Longrightarrow> walk_of b ty m = Inr x"
  unfolding walk_of_def success_Inr [symmetric] using walk_page regularD(2,3) by metis

lemma offset_unat: "unat (x AND 4095 :: u64) = unat x mod 4096"
proof -
  have "(4095 :: u64) = mask 12" by (simp add: mask_eq_exp_minus_1)
  then have "x AND 4095 = take_bit 12 x" by (simp only: take_bit_eq_mask)
  moreover have "unat (take_bit 12 x) = unat x mod 2 ^ 12" by (simp only: unsigned_take_bit_eq) (rule take_bit_eq_mod)
  ultimately show ?thesis by simp
qed

lemma frame_in_page:
  assumes "f AND 4095 = 0" "in_page b a len"
  shows "in_page (f + (b AND 4095)) (f + (a AND 4095)) len"
proof -
  have "(f + (a AND 4095)) AND 4095 = a AND 4095"
    unfolding frame_or [OF assms(1), symmetric] bit.conj_disj_distrib2 assms(1) by (rule bit_word_eqI, simp only: bit_page) auto
  then have "unat (f + (a AND 4095)) mod 4096 = unat a mod 4096" using offset_unat by metis
  then show ?thesis using assms(2) unfolding in_page_def page_frame [OF assms(1)] by simp
qed

text \<open>A page has one frame, whoever asks.\<close>

lemma translation_page:
  assumes r: "regular m" and b: "translate b len ty 0 (host m) (core m) = Inr paddr" "addr_to_mem paddr (host m) = Some q"
    and a: "page a = page b" "translate a len' ty' 0 (host m) (core m) = Inr x"
  shows "x = paddr - b + a" "addr_to_mem x (host m) = Some (ptr_add (ptr_add q (- b)) a)"
proof -
  obtain pa where pa: "walk_of b ty m = Inr pa" "paddr = pa + (b AND 4095)" using b translate_regular [OF r] by blast
  obtain pa' where pa': "walk_of a ty' m = Inr pa'" "x = pa' + (a AND 4095)" using a translate_regular [OF r] by blast
  have e: "pa' = pa" using walk_of_page [OF r a(1) pa'(1)] pa(1) walk_agree unfolding walk_of_def by blast
  have f: "pa AND 4095 = 0" using walk_frame pa(1) unfolding walk_of_def by blast
  note p = bus.page_entry [OF regularD(1) [OF r] b(2) pa(2) f a(1)]
  show x: "x = paddr - b + a" using p(2) pa'(2) e by simp
  show "addr_to_mem x (host m) = Some (ptr_add (ptr_add q (- b)) a)" unfolding x by (rule p(1))
qed

lemma translation_serves_page:
  assumes r: "regular m" and b: "translate b len ty 0 (host m) (core m) = Inr paddr" "in_page b b len"
    and h: "pmp_homogeneous (paddr AND NOT 4095) 4096 (core m) = Inr True" and a: "in_page b a len'"
  shows "\<exists>x. translate a len' ty 0 (host m) (core m) = Inr x"
proof -
  obtain pa where pa: "walk_of b ty m = Inr pa" "paddr = pa + (b AND 4095)" "pmp_ok paddr len ty (prv (core m)) (core m)"
    using b translate_regular [OF r] by blast
  have f: "pa AND 4095 = 0" using walk_frame pa(1) unfolding walk_of_def by blast
  have "page b = page a" using a by (simp add: in_page_def)
  then have "walk_of a ty m = Inr pa" using walk_of_page [OF r _ pa(1)] by blast
  moreover have "pmp_ok (pa + (a AND 4095)) len' ty (prv (core m)) (core m)"
    using pmp_homogeneous_sound [OF h] frame_in_page [OF f b(2)] frame_in_page [OF f a] pa(2,3) by blast
  ultimately show ?thesis using translate_regular [OF r] by blast
qed

section \<open>The invariant of the buffer\<close>

definition entry_ok :: "access_type \<Rightarrow> 'f machine \<Rightarrow> tlb_entry_t \<Rightarrow> u64 \<Rightarrow> bool" where
  "entry_ok ty m e a =
     ((\<forall>len. in_page a a len \<longrightarrow> translate a len ty 0 (host m) (core m) = Inr (target_offset e + a)) \<and>
      addr_to_mem (target_offset e + a) (host m) = Some (ptr_add (host_offset e) a))"

definition tlb_tag :: "access_type \<Rightarrow> 'f mmu_t \<Rightarrow> nat \<Rightarrow> u64" where
  "tlb_tag ty u = (case ty of FETCH \<Rightarrow> tlb_insn_tag u | LOAD \<Rightarrow> tlb_load_tag u | STORE \<Rightarrow> tlb_store_tag u)"

definition trigger_flag :: "access_type \<Rightarrow> 'f mmu_t \<Rightarrow> bool" where
  "trigger_flag ty u = (case ty of FETCH \<Rightarrow> check_triggers_fetch u | LOAD \<Rightarrow> check_triggers_load u | STORE \<Rightarrow> check_triggers_store u)"

definition tlb_ok :: "'f machine \<Rightarrow> bool" where
  "tlb_ok m =
     (\<forall>ty a. (tag_hit (tlb_tag ty (mmu m) (tlb_index a)) a \<longrightarrow> entry_ok ty m (tlb_data (mmu m) (tlb_index a)) a) \<and>
        (tlb_tag ty (mmu m) (tlb_index a) = vpn_of a \<longrightarrow> \<not> trigger_flag ty (mmu m)))"

lemma tlb_okD:
  "tlb_ok m \<Longrightarrow> tag_hit (tlb_tag ty (mmu m) (tlb_index a)) a \<Longrightarrow> entry_ok ty m (tlb_data (mmu m) (tlb_index a)) a"
  "tlb_ok m \<Longrightarrow> tlb_tag ty (mmu m) (tlb_index a) = vpn_of a \<Longrightarrow> \<not> trigger_flag ty (mmu m)"
  by (auto simp: tlb_ok_def)

lemma flushed_tag [simp]: "tlb_tag ty (flush_tlb u) i = - 1"
  by (cases ty) (simp_all add: tlb_tag_def flush_tlb_def flush_icache_def)

lemma tlb_ok_flush: "tlb_ok (m\<lparr>mmu := flush_tlb u\<rparr>)"
  by (simp add: tlb_ok_def)

text \<open>The machine without its buffer.\<close>

definition no_buffer :: "'f mmu_t \<Rightarrow> 'f mmu_t" where
  "no_buffer u = u\<lparr>tlb_data := \<lambda>_. \<lparr>host_offset = Fetch_ptr 0, target_offset = 0\<rparr>,
     tlb_insn_tag := \<lambda>_. 0, tlb_load_tag := \<lambda>_. 0, tlb_store_tag := \<lambda>_. 0\<rparr>"

definition alike :: "'f machine \<Rightarrow> 'f machine \<Rightarrow> bool" where
  "alike m n =
     (core m = core n \<and> core_id m = core_id n \<and> decoder m = decoder n \<and> host m = host n \<and> no_buffer (mmu m) = no_buffer (mmu n))"

lemma no_buffer_fields:
  "no_buffer u = no_buffer v \<Longrightarrow> matched_trigger u = matched_trigger v"
  "no_buffer u = no_buffer v \<Longrightarrow> check_triggers_fetch u = check_triggers_fetch v"
  "no_buffer u = no_buffer v \<Longrightarrow> check_triggers_load u = check_triggers_load v"
  "no_buffer u = no_buffer v \<Longrightarrow> check_triggers_store u = check_triggers_store v"
  "no_buffer u = no_buffer v \<Longrightarrow> tracers u = tracers v"
  "no_buffer u = no_buffer v \<Longrightarrow> fetch_temp u = fetch_temp v"
  by (drule arg_cong [of _ _ matched_trigger] arg_cong [of _ _ check_triggers_fetch] arg_cong [of _ _ check_triggers_load]
        arg_cong [of _ _ check_triggers_store] arg_cong [of _ _ tracers] arg_cong [of _ _ fetch_temp], simp add: no_buffer_def; fail)+

lemma no_buffer_trigger: "no_buffer (u\<lparr>matched_trigger := x\<rparr>) = (no_buffer u)\<lparr>matched_trigger := x\<rparr>"
  by (simp add: no_buffer_def)

lemma alike_refl [simp]: "alike m m"
  by (simp add: alike_def)

lemma tlb_ok_cong:
  assumes "tlb_ok m" "translation_state (core n) = translation_state (core m)" "same_memory (host n) (host m)"
    "\<And>ty. tlb_tag ty (mmu n) = tlb_tag ty (mmu m)" "tlb_data (mmu n) = tlb_data (mmu m)"
    "\<And>ty. trigger_flag ty (mmu n) = trigger_flag ty (mmu m)"
  shows "tlb_ok n"
proof -
  have "addr_to_mem a (host n) = addr_to_mem a (host m)" for a using assms(3) by (simp add: same_memory_def)
  then have "entry_ok ty n e a = entry_ok ty m e a" for ty e a
    unfolding entry_ok_def translate_cong [OF assms(2,3)] by simp
  then show ?thesis using assms(1) unfolding tlb_ok_def assms(4,5,6) by simp
qed

section \<open>Refills\<close>

lemma pmp_homogeneous_page:
  "pmp_homogeneous (x AND NOT 4095) 4096 p = Inr (pmp_homogeneous_scan [0..<n_pmp (cfg p)] 0 (x AND NOT 4095) 4096 p)"
proof -
  have "((x AND NOT 4095) OR 4096) AND 4095 = (0 :: u64)"
    unfolding bit.conj_disj_distrib2 clear_page by simp
  then show ?thesis by (simp add: pmp_homogeneous_def)
qed

lemma refill_tlb_eq:
  assumes "pmp_homogeneous (paddr AND NOT 4095) 4096 (core m) = Inr h"
  shows "\<exists>u. refill_tlb b paddr q ty m = (Inr \<lparr>host_offset = ptr_add q (- b), target_offset = paddr - b\<rparr>, m\<lparr>mmu := u\<rparr>) \<and>
    no_buffer u = no_buffer (mmu m) \<and> (\<forall>ty. trigger_flag ty u = trigger_flag ty (mmu m)) \<and>
    tlb_data u = (tlb_data (mmu m))(tlb_index b := \<lparr>host_offset = ptr_add q (- b), target_offset = paddr - b\<rparr>) \<and>
    (\<forall>ty' i. tlb_tag ty' u i =
       (if i \<noteq> tlb_index b then tlb_tag ty' (mmu m) i
        else if ty' = ty \<and> h then (if trigger_flag ty (mmu m) then vpn_of b OR TLB_CHECK_TRIGGERS else vpn_of b)
        else drop_other_tag (vpn_of b) (tlb_tag ty' (mmu m) i)))"
proof -
  have e: "(4096 :: u64) - 1 = 4095" by simp
  have t: "trigger_flag ty (mmu m) \<longleftrightarrow> (check_triggers_fetch (mmu m) \<and> ty = FETCH \<or> check_triggers_load (mmu m) \<and> ty = LOAD \<or>
     check_triggers_store (mmu m) \<and> ty = STORE)" by (cases ty) (simp_all add: trigger_flag_def)
  show ?thesis
    unfolding refill_tlb_def bind_run_def of_trap_def e assms sum.case ret_def prod.case Let_def t
    by (rule exI, rule conjI, rule refl, cases ty; cases h)
      (auto simp: no_buffer_def trigger_flag_def tlb_tag_def split: access_type.split)
qed

text \<open>What a refill for \<open>b\<close> leaves serves every address its tags hit.\<close>

lemma fresh_entry:
  assumes r: "regular m" and b: "translate b len ty 0 (host m) (core m) = Inr paddr" and q: "addr_to_mem paddr (host m) = Some q"
    and pg: "page a = page b" "\<And>l. in_page a a l \<Longrightarrow> \<exists>x. translate a l ty' 0 (host m) (core m) = Inr x"
  shows "entry_ok ty' (m\<lparr>mmu := u\<rparr>) \<lparr>host_offset = ptr_add q (- b), target_offset = paddr - b\<rparr> a"
proof -
  note t = translation_page [OF r b q pg(1)]
  have "in_page a a 1" by (simp add: in_page_def)
  then obtain x where x: "translate a 1 ty' 0 (host m) (core m) = Inr x" using pg(2) by blast
  have "translate a l ty' 0 (host m) (core m) = Inr (paddr - b + a)" if "in_page a a l" for l
    using pg(2) [OF that] t(1) by blast
  moreover have "addr_to_mem (paddr - b + a) (host m) = Some (ptr_add (ptr_add q (- b)) a)"
    using t(1) [OF x] t(2) [OF x] by simp
  ultimately show ?thesis unfolding entry_ok_def by simp
qed

lemma refilled_tag:
  assumes r: "regular m" and b: "translate b len ty 0 (host m) (core m) = Inr paddr" and q: "addr_to_mem paddr (host m) = Some q" and l: "in_page b b len"
    and h: "pmp_homogeneous (paddr AND NOT 4095) 4096 (core m) = Inr True" and v: "vpn_of a = vpn_of b"
  shows "entry_ok ty (m\<lparr>mmu := u\<rparr>) \<lparr>host_offset = ptr_add q (- b), target_offset = paddr - b\<rparr> a"
proof (rule fresh_entry [OF r b q])
  show p: "page a = page b" using v by (simp only: vpn_page)
  show "\<exists>x. translate a l ty 0 (host m) (core m) = Inr x" if "in_page a a l" for l
    using translation_serves_page [OF r b l h] that p by (simp add: in_page_def)
qed

lemma kept_tag:
  assumes r: "regular m" and b: "translate b len ty 0 (host m) (core m) = Inr paddr" and q: "addr_to_mem paddr (host m) = Some q" and ok: "tlb_ok m"
    and hit: "tag_hit (drop_other_tag (vpn_of b) (tlb_tag ty' (mmu m) (tlb_index b))) a"
  shows "entry_ok ty' (m\<lparr>mmu := u\<rparr>) \<lparr>host_offset = ptr_add q (- b), target_offset = paddr - b\<rparr> a"
proof -
  have v: "vpn_of a = vpn_of b" "tag_hit (tlb_tag ty' (mmu m) (tlb_index b)) a" using hit by (simp_all only: drop_other_hit)
  then have "entry_ok ty' m (tlb_data (mmu m) (tlb_index a)) a" using tlb_okD(1) [OF ok] index_vpn by metis
  then show ?thesis using v(1) by (intro fresh_entry [OF r b q]) (auto simp: entry_ok_def vpn_page)
qed

lemma refill_tlb_ok:
  assumes r: "regular m" and b: "translate b len ty 0 (host m) (core m) = Inr paddr" and q: "addr_to_mem paddr (host m) = Some q"
    and ok: "tlb_ok m" and l: "in_page b b len"
  shows "\<exists>u. refill_tlb b paddr q ty m = (Inr \<lparr>host_offset = ptr_add q (- b), target_offset = paddr - b\<rparr>, m\<lparr>mmu := u\<rparr>) \<and> no_buffer u = no_buffer (mmu m) \<and> tlb_ok (m\<lparr>mmu := u\<rparr>)"
proof -
  obtain h where h: "pmp_homogeneous (paddr AND NOT 4095) 4096 (core m) = Inr h" using pmp_homogeneous_page by blast
  obtain u where u: "refill_tlb b paddr q ty m = (Inr \<lparr>host_offset = ptr_add q (- b), target_offset = paddr - b\<rparr>, m\<lparr>mmu := u\<rparr>)" "no_buffer u = no_buffer (mmu m)"
      "\<And>ty. trigger_flag ty u = trigger_flag ty (mmu m)" "tlb_data u = (tlb_data (mmu m))(tlb_index b := \<lparr>host_offset = ptr_add q (- b), target_offset = paddr - b\<rparr>)"
      "\<And>ty' i. tlb_tag ty' u i =
       (if i \<noteq> tlb_index b then tlb_tag ty' (mmu m) i
        else if ty' = ty \<and> h then (if trigger_flag ty (mmu m) then vpn_of b OR TLB_CHECK_TRIGGERS else vpn_of b)
        else drop_other_tag (vpn_of b) (tlb_tag ty' (mmu m) i))"
    using refill_tlb_eq [OF h, of b q ty] by blast
  have new: "tlb_tag ty u (tlb_index b) = (if trigger_flag ty (mmu m) then vpn_of b OR TLB_CHECK_TRIGGERS else vpn_of b)" if h
    by (simp only: u(5) simp_thms if_True if_False that)
  have old: "tlb_tag ty' u (tlb_index b) = drop_other_tag (vpn_of b) (tlb_tag ty' (mmu m) (tlb_index b))" if "\<not> (ty' = ty \<and> h)" for ty'
    by (simp only: u(5) simp_thms if_False that)
  have "entry_ok ty' (m\<lparr>mmu := u\<rparr>) (tlb_data u (tlb_index a)) a" if hit: "tag_hit (tlb_tag ty' u (tlb_index a)) a" for ty' a
  proof (cases "tlb_index a = tlb_index b")
    case True
    have d: "tlb_data u (tlb_index a) = \<lparr>host_offset = ptr_add q (- b), target_offset = paddr - b\<rparr>" by (simp add: u(4) True)
    show ?thesis
    proof (cases "ty' = ty \<and> h")
      case True
      then have "tag_hit (vpn_of b) a \<or> tag_hit (vpn_of b OR TLB_CHECK_TRIGGERS) a"
        using hit new unfolding \<open>tlb_index a = tlb_index b\<close>
        by (cases "trigger_flag ty (mmu m)") (simp_all only: if_True if_False simp_thms)
      from hit_same_page [OF this] show ?thesis unfolding d using refilled_tag [OF r b q l] h True by simp
    next
      case False
      then show ?thesis unfolding d using kept_tag [OF r b q ok] hit old \<open>tlb_index a = tlb_index b\<close> by metis
    qed
  next
    case False
    then have "tag_hit (tlb_tag ty' (mmu m) (tlb_index a)) a" "tlb_data u (tlb_index a) = tlb_data (mmu m) (tlb_index a)"
      using hit by (simp_all add: u(4,5))
    then show ?thesis using tlb_okD(1) [OF ok] by (simp add: entry_ok_def)
  qed
  moreover have "\<not> trigger_flag ty' u" if t: "tlb_tag ty' u (tlb_index a) = vpn_of a" for ty' a
  proof (cases "tlb_index a = tlb_index b \<and> ty' = ty \<and> h")
    case True
    then have "(if trigger_flag ty (mmu m) then vpn_of b OR TLB_CHECK_TRIGGERS else vpn_of b) = vpn_of a" using t new by metis
    then show ?thesis using True u(3) tag_neq(2) by (metis (full_types))
  next
    case False
    then have "tlb_tag ty' (mmu m) (tlb_index a) = vpn_of a"
      using t old drop_other_eq [OF _ empty_tag(1)] u(5) by (cases "tlb_index a = tlb_index b") (metis, metis)
    then show ?thesis using tlb_okD(2) [OF ok] u(3) by simp
  qed
  ultimately have "tlb_ok (m\<lparr>mmu := u\<rparr>)" unfolding tlb_ok_def by simp
  then show ?thesis using u(1,2) by blast
qed

section \<open>Triggers\<close>

definition triggers_ok :: "'f machine \<Rightarrow> bool" where
  "triggers_ok m =
     (let mc = mcontrol (csr (core m)); u = mmu m
      in length mc = num_triggers \<and> check_triggers_fetch u = list_ex mc_execute mc \<and>
         check_triggers_load u = list_ex mc_load mc \<and> check_triggers_store u = list_ex mc_store mc)"

definition operation_of :: "access_type \<Rightarrow> trigger_operation" where
  "operation_of ty = (case ty of FETCH \<Rightarrow> OPERATION_EXECUTE | LOAD \<Rightarrow> OPERATION_LOAD | STORE \<Rightarrow> OPERATION_STORE)"

lemma scan_none:
  "(\<And>i. i \<in> set is \<Longrightarrow> \<not> trigger_applies (mcontrol (csr p) ! i) op p) \<Longrightarrow> trigger_scan is True op a d p = None"
  by (induction "is") (simp_all add: Let_def)

lemma no_trigger:
  assumes "triggers_ok m" "\<not> trigger_flag ty (mmu m)"
  shows "trigger_match (operation_of ty) a d (core m) = None"
proof -
  have "\<not> trigger_applies (mcontrol (csr (core m)) ! i) (operation_of ty) (core m)" if "i < num_triggers" for i
    using assms that by (cases ty) (auto simp: triggers_ok_def Let_def trigger_flag_def trigger_applies_def operation_of_def list_ex_length)
  then have "trigger_scan [0..<num_triggers] True (operation_of ty) a d (core m) = None" by (intro scan_none) simp
  then show ?thesis unfolding trigger_match_def by (simp only: if_cancel)
qed

lemma check_trigger_eq:
  "check_trigger op a d m =
     (case (matched_trigger (mmu m), trigger_match op a d (core m)) of
        (None, Some i) \<Rightarrow>
          (let t = \<lparr>tm_index = i, tm_operation = op, tm_address = a, tm_data = d\<rparr>
           in (Inl (Trigger t), if mc_timing (mcontrol (csr (core m)) ! i) then m\<lparr>mmu := (mmu m)\<lparr>matched_trigger := Some t\<rparr>\<rparr> else m))
      | _ \<Rightarrow> (Inr (), m))"
proof -
  have "m\<lparr>mmu := (mmu m)\<lparr>matched_trigger := None\<rparr>\<rparr> = m" if "matched_trigger (mmu m) = None"
    using that by (cases m; cases "mmu m") simp
  then show ?thesis
    by (auto simp: check_trigger_def trigger_exception_def bind_run_def ret_def throw_def on_mmu_def Let_def split: option.split)
qed

lemma check_trigger_alike:
  assumes "alike m n"
  shows "fst (check_trigger op a d m) = fst (check_trigger op a d n) \<and> alike (snd (check_trigger op a d m)) (snd (check_trigger op a d n))"
proof -
  have "matched_trigger (mmu m) = matched_trigger (mmu n)" "core m = core n" using assms no_buffer_fields(1) by (auto simp: alike_def)
  then show ?thesis using assms by (auto simp: check_trigger_eq Let_def alike_def no_buffer_trigger split: option.split)
qed

text \<open>The invariant of a machine whose buffer is in step with its translation tables and triggers.\<close>

definition machine_ok :: "'f machine \<Rightarrow> bool" where
  "machine_ok m = (regular m \<and> tlb_ok m \<and> triggers_ok m)"

lemma machine_ok_matched:
  assumes "machine_ok m"
  shows "machine_ok (m\<lparr>mmu := (mmu m)\<lparr>matched_trigger := x\<rparr>\<rparr>)"
proof -
  let ?n = "m\<lparr>mmu := (mmu m)\<lparr>matched_trigger := x\<rparr>\<rparr>"
  have "tlb_tag ty (mmu ?n) = tlb_tag ty (mmu m)" "trigger_flag ty (mmu ?n) = trigger_flag ty (mmu m)" for ty
    by (cases ty; simp add: tlb_tag_def trigger_flag_def)+
  moreover have "tlb_data (mmu ?n) = tlb_data (mmu m)" "core ?n = core m" "host ?n = host m" by simp_all
  ultimately have "tlb_ok ?n"
    using assms by - (rule tlb_ok_cong [of m], simp_all only: machine_ok_def same_memory_refl)
  then show ?thesis using assms by (simp add: machine_ok_def regular_def triggers_ok_def Let_def)
qed

lemma check_trigger_ok: "machine_ok m \<Longrightarrow> machine_ok (snd (check_trigger op a d m))"
  using machine_ok_matched [of m]
  by (cases "matched_trigger (mmu m)"; cases "trigger_match op a d (core m)") (simp_all add: check_trigger_eq Let_def)

lemma check_no_trigger:
  "triggers_ok m \<Longrightarrow> \<not> trigger_flag ty (mmu m) \<Longrightarrow> check_trigger (operation_of ty) a d m = (Inr (), m)"
  using no_trigger [of m ty a d] by (cases "matched_trigger (mmu m)") (simp_all add: check_trigger_eq)

section \<open>Devices leave memory alone\<close>

lemma same_devices: "devices s' = devices s \<Longrightarrow> same_memory s' s \<and> bus_ok s' = bus_ok s"
  by (simp add: same_memory_def addr_to_mem_def mem_contents_def bus_ok_def)

lemma add_device_replace:
  "sorted_wrt (<) (map fst ds) \<Longrightarrow> b \<in> fst ` set ds \<Longrightarrow> add_device b d ds = map (\<lambda>(k, x). (k, if k = b then d else x)) ds"
proof (induction ds)
  case (Cons y ds)
  have "map (\<lambda>(k, x). (k, if k = b then d else x)) ds = ds" if "\<forall>x \<in> set ds. b < fst x"
    using that by (intro map_idI) auto
  then show ?case using Cons by (cases y) (auto simp: less_le_not_le)
qed simp

lemma replace_plugin:
  assumes "bus_ok s" "find_device a (devices s) = Some (b, Plugin_dev x)"
  shows "same_memory (s\<lparr>devices := add_device b (Plugin_dev y) (devices s)\<rparr>) s \<and> bus_ok (s\<lparr>devices := add_device b (Plugin_dev y) (devices s)\<rparr>)"
proof -
  let ?f = "\<lambda>(k, z). (k, if k = b then Plugin_dev y else z)"
  have m: "map_of (devices s) b = Some (Plugin_dev x)" by (rule map_of_find [OF assms])
  have "b \<in> fst ` set (devices s)" using find_device_Some [OF assms(2)] by force
  then have e: "add_device b (Plugin_dev y) (devices s) = map ?f (devices s)"
    using assms(1) by (intro add_device_replace) (simp_all add: bus_ok_def)
  have "addr_to_mem c (s\<lparr>devices := map ?f (devices s)\<rparr>) = addr_to_mem c s" for c
  proof (cases "find_device c (devices s)")
    case None
    then show ?thesis using find_device_map [of c b "\<lambda>_. Plugin_dev y" "devices s"] by (simp add: addr_to_mem_def)
  next
    case (Some kd)
    obtain k d where kd: "kd = (k, d)" by (cases kd)
    have "k = b \<Longrightarrow> d = Plugin_dev x" using map_of_find [OF assms(1)] Some kd m by fastforce
    then show ?thesis
      using find_device_map [of c b "\<lambda>_. Plugin_dev y" "devices s"] Some kd by (auto simp: addr_to_mem_def)
  qed
  moreover have "map_of (map ?f ds) k = map_option (\<lambda>z. if k = b then Plugin_dev y else z) (map_of ds k)" for ds k
    by (induction ds) auto
  then have "mem_contents k (s\<lparr>devices := map ?f (devices s)\<rparr>) = mem_contents k s" for k
    using m by (auto simp: mem_contents_def split: option.split)
  moreover have "device_ok (?f z) = device_ok z" if "z \<in> set (devices s)" for z
  proof (cases "fst z = b")
    case True
    have "distinct (map fst (devices s))" using assms(1) strict_sorted_iff [of "map fst (devices s)"] by (simp add: bus_ok_def)
    then have "snd z = Plugin_dev x" using m that True by (metis map_of_eq_Some_iff option.inject prod.collapse)
    then show ?thesis using True by (cases z) (simp add: device_ok_def)
  qed (cases z, simp)
  then have "list_all device_ok (map ?f (devices s)) = list_all device_ok (devices s)" by (auto simp: list_all_iff)
  moreover have "map fst (map ?f ds) = map fst ds" for ds by (induction ds) auto
  ultimately show ?thesis using assms(1) unfolding e same_memory_def by (simp add: bus_ok_def del: map_map)
qed

lemma bus_memory:
  assumes "bus_ok s"
  shows "same_memory (snd (bus_load a n s)) s \<and> bus_ok (snd (bus_load a n s))"
    and "same_memory (snd (bus_store a bs s)) s \<and> bus_ok (snd (bus_store a bs s))"
proof -
  have c: "devices (clint_increment i s) = devices s" for i s by (simp add: clint_increment_def Let_def)
  have l: "devices (snd (clint_load x n s)) = devices s" for x by (simp add: clint_load_def Let_def c)
  have w: "devices (snd (clint_store x bs s)) = devices s" for x by (simp add: clint_store_def Let_def c)
  show "same_memory (snd (bus_load a n s)) s \<and> bus_ok (snd (bus_load a n s))"
  proof (cases "find_device a (devices s)")
    case None
    then show ?thesis using assms by (simp add: bus_load_def)
  next
    case (Some kd)
    obtain b d where kd: "kd = (b, d)" by (cases kd)
    show ?thesis
      using Some kd assms same_devices [OF l] replace_plugin [OF assms, of a b]
      by (cases d) (simp_all add: bus_load_def split: prod.split)
  qed
  show "same_memory (snd (bus_store a bs s)) s \<and> bus_ok (snd (bus_store a bs s))"
  proof (cases "find_device a (devices s)")
    case None
    then show ?thesis using assms by (simp add: bus_store_def)
  next
    case (Some kd)
    obtain b d where kd: "kd = (b, d)" by (cases kd)
    show ?thesis
      using Some kd assms same_devices [OF w] replace_plugin [OF assms, of a b]
      by (cases d) (simp_all add: bus_store_def split: prod.split)
  qed
qed

lemma on_devices_ok:
  assumes "machine_ok m" "\<And>s. bus_ok s \<Longrightarrow> same_memory (snd (f s)) s \<and> bus_ok (snd (f s))"
  shows "machine_ok (snd (on_devices f m))"
proof -
  let ?s = "(host m)\<lparr>mips := (mips (host m))[core_id m := mip (csr (core m))]\<rparr>"
  let ?n = "snd (on_devices f m)"
  have h: "host ?n = snd (f ?s)" by (simp add: on_devices_def Let_def case_prod_beta)
  have s: "same_memory ?s (host m) \<and> bus_ok ?s = bus_ok (host m)" by (rule same_devices) simp
  then have b: "bus_ok ?s" using assms(1) by (simp add: machine_ok_def regular_def Let_def)
  have sm: "same_memory (host ?n) (host m)" using assms(2) [OF b] s unfolding h by (simp add: same_memory_def)
  have u: "mmu ?n = mmu m" by (simp add: on_devices_def Let_def case_prod_beta)
  obtain v where c: "core ?n = csr_update (mip_update (\<lambda>_. v)) (core m)"
    by (simp add: on_devices_def Let_def case_prod_beta)
  have "translation_state (core ?n) = translation_state (core m)" unfolding c by (simp add: translation_state_def)
  then have "tlb_ok ?n" using assms(1) sm by - (rule tlb_ok_cong [of m], simp_all only: machine_ok_def u)
  moreover have "regular ?n" using assms(1) assms(2) [OF b] unfolding machine_ok_def regular_def Let_def h c page_canonical_def by simp
  moreover have "triggers_ok ?n" using assms(1) unfolding machine_ok_def triggers_ok_def Let_def u c by simp
  ultimately show ?thesis by (simp add: machine_ok_def)
qed

lemma mmio_load_ok: "machine_ok m \<Longrightarrow> machine_ok (snd (mmio_load a n m))"
  unfolding mmio_load_def using bus_memory(1)
  by (auto simp: ret_def sim_mmio_load_def intro!: on_devices_ok)

lemma mmio_store_ok: "machine_ok m \<Longrightarrow> machine_ok (snd (mmio_store a bs m))"
  unfolding mmio_store_def using bus_memory(2)
  by (auto simp: ret_def sim_mmio_store_def Let_def intro!: on_devices_ok)

section \<open>Loads\<close>

text \<open>A load without the buffer.\<close>

definition load_bytes :: "u64 \<Rightarrow> nat \<Rightarrow> u64 \<Rightarrow> ('f, bytes) run" where
  "load_bytes addr z paddr m =
     (case addr_to_mem paddr (host m) of
        Some q \<Rightarrow> ret (host_read q z m) m
      | None \<Rightarrow> bind_run (mmio_load paddr z) (\<lambda>r. case r of None \<Rightarrow> throw (Trap (Trap_load_access_fault addr 0 0)) | Some bytes \<Rightarrow> ret bytes) m)"

definition arch_load :: "bool \<Rightarrow> nat \<Rightarrow> u64 \<Rightarrow> ('f, u64) run" where
  "arch_load sg z addr =
     bind_run (translate_run addr z LOAD 0) (\<lambda>paddr.
     bind_run (load_bytes addr z paddr) (\<lambda>bytes.
     bind_run (check_trigger OPERATION_LOAD addr (le_word (take z bytes))) (\<lambda>_. ret (typed sg z (le_word bytes)))))"

text \<open>Two runs from the same machine with the same result and machines that differ in the buffer only.\<close>

definition same_run :: "(exn + 'a) \<times> 'f machine \<Rightarrow> (exn + 'a) \<times> 'f machine \<Rightarrow> bool" where
  "same_run r r' = (fst r = fst r' \<and> alike (snd r) (snd r'))"

lemma same_run_refl [simp]: "same_run r r"
  by (simp add: same_run_def)

lemma bind_apply:
  "r m = (Inl e, m') \<Longrightarrow> bind_run r k m = (Inl e, m')"
  "r m = (Inr x, m') \<Longrightarrow> bind_run r k m = k x m'"
  by (simp_all add: bind_run_def)

lemma bind_ret [simp]: "bind_run (ret x) k = k x"
  by (rule ext) (simp add: bind_run_def ret_def)

lemma same_run_bind:
  assumes "same_run (r m) (r' n)" "\<And>x m' n'. r m = (Inr x, m') \<Longrightarrow> alike m' n' \<Longrightarrow> same_run (k x m') (k' x n')"
  shows "same_run (bind_run r k m) (bind_run r' k' n)"
  using assms by (cases "r m"; cases "r' n"; cases "fst (r m)") (auto simp: bind_run_def same_run_def)

lemma ok_bind:
  assumes "machine_ok (snd (r m))" "\<And>x m'. r m = (Inr x, m') \<Longrightarrow> machine_ok m' \<Longrightarrow> machine_ok (snd (k x m'))"
  shows "machine_ok (snd (bind_run r k m))"
  using assms by (cases "r m"; cases "fst (r m)") (auto simp: bind_run_def)

lemma check_finish:
  assumes "alike n n'" "machine_ok n"
  shows "same_run (bind_run (check_trigger op a d) (\<lambda>_. ret v) n) (bind_run (check_trigger op a d) (\<lambda>_. ret v) n')"
    and "machine_ok (snd (bind_run (check_trigger op a d) (\<lambda>_. ret v) n))"
proof -
  show "same_run (bind_run (check_trigger op a d) (\<lambda>_. ret v) n) (bind_run (check_trigger op a d) (\<lambda>_. ret v) n')"
    using check_trigger_alike [OF assms(1), of op a d] by (intro same_run_bind) (simp_all add: same_run_def ret_def)
  show "machine_ok (snd (bind_run (check_trigger op a d) (\<lambda>_. ret v) n))"
    using check_trigger_ok [OF assms(2), of op a d] by (rule ok_bind) (simp add: ret_def)
qed

lemma le_word_high: "8 * length bs \<le> n \<Longrightarrow> \<not> bit (le_word bs) n"
proof (induction bs arbitrary: n)
  case (Cons b bs)
  have "\<not> bit b n" using Cons.prems by (auto dest!: bit_imp_le_length)
  moreover have "\<not> bit (le_word bs) (n - 8)" using Cons by simp
  ultimately show ?case by (simp add: bit_simps)
qed simp

lemma typed_unsigned: "length bs = z \<Longrightarrow> typed False z (le_word bs) = le_word bs"
  unfolding typed_def by (auto intro!: bit_word_eqI simp: bit_take_bit_iff dest: le_word_high [rotated] simp flip: not_le)

lemma aligned_in_page:
  assumes "z \<in> {1, 2, 4, 8}" "\<not> misaligned addr z"
  shows "in_page addr addr z"
proof -
  obtain k where k: "z = 2 ^ k" "k \<le> 3"
    using assms(1) by (auto intro: that [of 0] that [of 1] that [of 2] that [of 3])
  have "(of_nat z - 1 :: u64) = mask k" unfolding k(1) by (simp add: mask_eq_exp_minus_1)
  then have "take_bit k addr = 0" using assms(2) by (simp only: misaligned_def take_bit_eq_mask not_not)
  then have "unat addr mod 2 ^ k = 0" by (metis unat_0 unsigned_take_bit_eq take_bit_eq_mod)
  then have "unat addr mod z = 0" by (simp only: k(1))
  then have "unat addr mod 4096 mod z = 0" using assms(1) by (auto simp: mod_mod_cancel)
  moreover have "r mod z = 0 \<Longrightarrow> r < 4096 \<Longrightarrow> r + z \<le> 4096" for r :: nat
    using assms(1) by (elim insertE emptyE) (simp_all, presburger+)
  ultimately show ?thesis using assms(1) unfolding in_page_def by auto
qed

lemma host_read_length [simp]: "addr_to_mem a s = Some q \<Longrightarrow> length (host_read q z m) = z"
  by (auto simp: addr_to_mem_def mem_read_def split: if_split_asm option.split_asm device.split_asm)

lemma reg_from_bytes_ok: "z \<in> {1, 2, 4, 8} \<Longrightarrow> reg_from_bytes z bs = Inr (le_word (take z bs))"
  by (simp only: reg_from_bytes_def if_True)

text \<open>A hit serves the bytes a walk leads to.\<close>

lemma hit_entry:
  assumes "machine_ok m" "tag_hit (tlb_tag ty (mmu m) (tlb_index a)) a" "in_page a a z"
  shows "\<exists>x. translate a z ty 0 (host m) (core m) = Inr x \<and> addr_to_mem x (host m) = Some (tlb_ptr a m) \<and>
    x = target_offset (tlb_data (mmu m) (tlb_index a)) + a"
  using tlb_okD(1) [of m ty a] assms by (auto simp: machine_ok_def entry_ok_def tlb_ptr_def)

lemma load_bytes_ok: "machine_ok m \<Longrightarrow> machine_ok (snd (load_bytes addr z x m))"
  using mmio_load_ok [of m x z]
  by (auto simp: load_bytes_def ret_def throw_def split: option.split intro!: ok_bind)

lemma arch_load_ok: "machine_ok m \<Longrightarrow> machine_ok (snd (arch_load sg z addr m))"
  unfolding arch_load_def
  by (intro ok_bind load_bytes_ok check_trigger_ok)
    (auto simp: translate_run_def of_trap_def throw_def ret_def split: sum.split)

lemma load_hit:
  assumes m: "machine_ok m" and z: "in_page addr addr z" and sg: "sg \<longrightarrow> \<not> trigger_flag LOAD (mmu m)"
    and hit: "tag_hit (tlb_load_tag (mmu m) (tlb_index addr)) addr"
  shows "load_func sg z 0 addr m = arch_load sg z addr m"
proof -
  have hit': "tag_hit (tlb_tag LOAD (mmu m) (tlb_index addr)) addr" using hit by (simp add: tlb_tag_def)
  obtain x where x: "translate addr z LOAD 0 (host m) (core m) = Inr x" "addr_to_mem x (host m) = Some (tlb_ptr addr m)"
    using hit_entry [OF m hit' z] by blast
  define bs where "bs = host_read (tlb_ptr addr m) z m"
  have l: "length bs = z" unfolding bs_def using x(2) by simp
  have a: "arch_load sg z addr m = bind_run (check_trigger OPERATION_LOAD addr (le_word bs)) (\<lambda>_. ret (typed sg z (le_word bs))) m"
    using l by (simp add: arch_load_def translate_run_def of_trap_def x bind_run_def ret_def load_bytes_def bs_def [symmetric])
  note none = check_no_trigger [of m LOAD, unfolded operation_of_def access_type.case]
  show ?thesis
  proof (cases "tlb_load_tag (mmu m) (tlb_index addr) = vpn_of addr")
    case True
    then have "\<not> trigger_flag LOAD (mmu m)" using tlb_okD(2) [of m LOAD addr] m by (simp add: machine_ok_def tlb_tag_def)
    then have "check_trigger OPERATION_LOAD addr (le_word bs) m = (Inr (), m)" using none m by (simp add: machine_ok_def)
    then show ?thesis
      unfolding a load_func_def flush_if_def by (simp add: True Let_def bs_def [symmetric] bind_run_def ret_def)
  next
    case False
    then have t: "tlb_load_tag (mmu m) (tlb_index addr) = vpn_of addr OR TLB_CHECK_TRIGGERS" using hit by (simp add: tag_hit_def)
    have e: "check_trigger OPERATION_LOAD addr (typed sg z (le_word bs)) m = check_trigger OPERATION_LOAD addr (le_word bs) m"
      using none m sg typed_unsigned [OF l] by (cases sg) (simp_all add: machine_ok_def)
    have "load_func sg z 0 addr m = bind_run (check_trigger OPERATION_LOAD addr (typed sg z (le_word bs))) (\<lambda>_. ret (typed sg z (le_word bs))) m"
      unfolding load_func_def flush_if_def simp_thms if_False bind_ret Let_def bs_def [symmetric] t
      by (simp only: tag_neq if_False if_True simp_thms)
    then show ?thesis unfolding a bind_run_def by (simp only: e)
  qed
qed

lemma refill_machine_ok:
  assumes "machine_ok m" "translate b len ty 0 (host m) (core m) = Inr paddr" "addr_to_mem paddr (host m) = Some q" "in_page b b len"
  shows "\<exists>u. refill_tlb b paddr q ty m = (Inr \<lparr>host_offset = ptr_add q (- b), target_offset = paddr - b\<rparr>, m\<lparr>mmu := u\<rparr>) \<and>
    machine_ok (m\<lparr>mmu := u\<rparr>) \<and> alike (m\<lparr>mmu := u\<rparr>) m"
proof -
  obtain u where u: "refill_tlb b paddr q ty m = (Inr \<lparr>host_offset = ptr_add q (- b), target_offset = paddr - b\<rparr>, m\<lparr>mmu := u\<rparr>)"
      "no_buffer u = no_buffer (mmu m)" "tlb_ok (m\<lparr>mmu := u\<rparr>)"
    using refill_tlb_ok [OF _ assms(2,3) _ assms(4)] assms(1) unfolding machine_ok_def by blast
  have "triggers_ok (m\<lparr>mmu := u\<rparr>)"
    using assms(1) no_buffer_fields [OF u(2)] by (simp add: machine_ok_def triggers_ok_def Let_def)
  moreover have "regular (m\<lparr>mmu := u\<rparr>)" using assms(1) by (simp add: machine_ok_def regular_def Let_def)
  ultimately show ?thesis using u by (auto simp: machine_ok_def alike_def)
qed

lemma load_miss:
  assumes m: "machine_ok m" and z: "z \<in> {1, 2, 4, 8}" "in_page addr addr z" "\<not> misaligned addr z"
    and miss: "\<not> tag_hit (tlb_load_tag (mmu m) (tlb_index addr)) addr"
  shows "same_run (load_func sg z 0 addr m) (arch_load sg z addr m) \<and> machine_ok (snd (load_func sg z 0 addr m))"
proof -
  have e: "load_func sg z 0 addr m = bind_run (load_slow_path addr z 0) (\<lambda>bytes. ret (typed sg z (le_word bytes))) m"
    using miss z(3) unfolding load_func_def flush_if_def tag_hit_def by (simp add: Let_def)
  show ?thesis
  proof (cases "translate addr z LOAD 0 (host m) (core m)")
    case (Inl t)
    then show ?thesis
      using m unfolding e by (simp add: load_slow_path_def arch_load_def translate_run_def of_trap_def bind_run_def throw_def)
  next
    case (Inr x)
    have tr: "translate_run addr z LOAD 0 m = (Inr x, m)" by (simp add: translate_run_def of_trap_def Inr ret_def)
    let ?fin = "\<lambda>bytes. bind_run (check_trigger OPERATION_LOAD addr (le_word (take z bytes))) (\<lambda>_. ret (typed sg z (le_word bytes)))"
    have fin: "same_run (?fin bs n) (?fin bs n') \<and> machine_ok (snd (?fin bs n))" if "alike n n'" "machine_ok n" for bs n n'
      by (rule conjI [OF check_finish(1) [OF that] check_finish(2) [OF that]])
    have arch: "arch_load sg z addr m = bind_run (load_bytes addr z x) ?fin m"
      unfolding arch_load_def by (rule bind_apply(2) [where r = "translate_run addr z LOAD 0", OF tr])
    show ?thesis
    proof (cases "addr_to_mem x (host m)")
      case None
      have "load_func sg z 0 addr m = bind_run (load_bytes addr z x) ?fin m"
        unfolding e load_slow_path_def
        by (simp add: bind_run_def tr None load_bytes_def reg_from_bytes_ok [OF z(1)] of_trap_def ret_def throw_def
            split: prod.split sum.split option.split)
      moreover have "machine_ok (snd (bind_run (load_bytes addr z x) ?fin m))"
        by (rule ok_bind [where r = "load_bytes addr z x"], rule load_bytes_ok, rule m)
          (rule conjunct2 [OF fin [OF alike_refl]])
      ultimately show ?thesis unfolding arch by simp
    next
      case (Some q)
      define n where "n = (if traced x (x + PGSIZE) LOAD m then m else snd (refill_tlb addr x q LOAD m))"
      obtain u where u: "refill_tlb addr x q LOAD m = (Inr \<lparr>host_offset = ptr_add q (- addr), target_offset = x - addr\<rparr>, m\<lparr>mmu := u\<rparr>)"
          "machine_ok (m\<lparr>mmu := u\<rparr>)" "alike (m\<lparr>mmu := u\<rparr>) m"
        using refill_machine_ok [OF m Inr Some z(2)] by blast
      have n: "machine_ok n" "alike n m" using u m by (simp_all add: n_def)
      have "load_func sg z 0 addr m = ?fin (host_read q z m) n"
        unfolding e load_slow_path_def n_def
        by (simp add: bind_run_def tr Some reg_from_bytes_ok [OF z(1)] of_trap_def ret_def throw_def u(1) split: prod.split sum.split)
      moreover have "arch_load sg z addr m = ?fin (host_read q z m) m"
        unfolding arch by (simp add: bind_run_def load_bytes_def Some ret_def)
      ultimately show ?thesis using fin [OF n(2,1)] by simp
    qed
  qed
qed

lemma load_func_arch:
  assumes "machine_ok m" "z \<in> {1, 2, 4, 8}" "\<not> misaligned addr z" "sg \<longrightarrow> \<not> trigger_flag LOAD (mmu m)"
  shows "same_run (load_func sg z 0 addr m) (arch_load sg z addr m) \<and> machine_ok (snd (load_func sg z 0 addr m))"
proof (cases "tag_hit (tlb_load_tag (mmu m) (tlb_index addr)) addr")
  case True
  then show ?thesis using load_hit [OF assms(1) aligned_in_page [OF assms(2,3)] assms(4) True] arch_load_ok [OF assms(1)] by simp
next
  case False
  then show ?thesis using load_miss [OF assms(1,2) aligned_in_page [OF assms(2,3)] assms(3)] by blast
qed

section \<open>Stores\<close>

text \<open>A store without the buffer.\<close>

definition store_bytes :: "u64 \<Rightarrow> bytes \<Rightarrow> u64 \<Rightarrow> ('f, unit) run" where
  "store_bytes addr bytes paddr m =
     (case addr_to_mem paddr (host m) of
        Some q \<Rightarrow> ret () (host_write q bytes m)
      | None \<Rightarrow> bind_run (mmio_store paddr bytes) (\<lambda>ok. if ok then ret () else throw (Trap (Trap_store_access_fault addr 0 0))) m)"

definition arch_store :: "nat \<Rightarrow> u64 \<Rightarrow> u64 \<Rightarrow> ('f, unit) run" where
  "arch_store z addr v =
     bind_run (translate_run addr z STORE 0) (\<lambda>paddr.
     bind_run (check_trigger OPERATION_STORE addr (typed False z v)) (\<lambda>_. store_bytes addr (le_bytes z v) paddr))"

lemma check_trigger_Inr: "check_trigger op a d m = (Inr u, m') \<Longrightarrow> m' = m"
  by (auto simp: check_trigger_eq Let_def split: option.split_asm)

lemma bind_check:
  "bind_run (check_trigger op a d) k m = (case fst (check_trigger op a d m) of Inl e \<Rightarrow> (Inl e, snd (check_trigger op a d m)) | Inr u \<Rightarrow> k u m)"
  using check_trigger_Inr [of op a d m] by (cases "check_trigger op a d m"; cases "fst (check_trigger op a d m)") (auto simp: bind_run_def)

lemma mem_ptr: "addr_to_mem a s = Some q \<Longrightarrow> \<exists>b off. q = Mem_ptr b off"
  by (auto simp: addr_to_mem_def split: if_split_asm option.split_asm device.split_asm)

lemma stored_value: "z \<in> {1, 2, 4, 8} \<Longrightarrow> reg_from_bytes z (le_bytes z v) = Inr (typed False z v)"
proof -
  assume z: "z \<in> {1, 2, 4, 8}"
  then have "z \<le> 8" by auto
  then have "le_word (take z (le_bytes z v)) = typed False z v" using le_word_bytes [of z v] by (simp add: typed_def)
  then show ?thesis by (simp only: reg_from_bytes_ok [OF z])
qed

lemma store_hit:
  assumes m: "machine_ok m" and z: "in_page addr addr z" "\<not> misaligned addr z"
    and hit: "tag_hit (tlb_store_tag (mmu m) (tlb_index addr)) addr"
  shows "store_func z 0 addr v m = arch_store z addr v m"
proof -
  have hit': "tag_hit (tlb_tag STORE (mmu m) (tlb_index addr)) addr" using hit by (simp add: tlb_tag_def)
  obtain x where x: "translate addr z STORE 0 (host m) (core m) = Inr x" "addr_to_mem x (host m) = Some (tlb_ptr addr m)"
    using hit_entry [OF m hit' z(1)] by blast
  let ?w = "host_write (tlb_ptr addr m) (le_bytes z v) m"
  let ?c = "check_trigger OPERATION_STORE addr (typed False z v)"
  have tr: "translate_run addr z STORE 0 m = (Inr x, m)" by (simp add: translate_run_def of_trap_def x ret_def)
  have a: "arch_store z addr v m = (case fst (?c m) of Inl e \<Rightarrow> (Inl e, snd (?c m)) | Inr u \<Rightarrow> (Inr (), ?w))"
    unfolding arch_store_def bind_apply(2) [where r = "translate_run addr z STORE 0", OF tr] bind_check
    by (simp only: store_bytes_def x option.case ret_def)
  note none = check_no_trigger [of m STORE, unfolded operation_of_def access_type.case]
  show ?thesis
  proof (cases "tlb_store_tag (mmu m) (tlb_index addr) = vpn_of addr")
    case True
    then have "\<not> trigger_flag STORE (mmu m)" using tlb_okD(2) [of m STORE addr] m by (simp add: machine_ok_def tlb_tag_def)
    then have "?c m = (Inr (), m)" using none m by (simp add: machine_ok_def)
    then show ?thesis
      unfolding a store_func_def flush_if_def using z(2) by (simp add: True Let_def bind_run_def ret_def)
  next
    case False
    then have t: "tlb_store_tag (mmu m) (tlb_index addr) = vpn_of addr OR TLB_CHECK_TRIGGERS" using hit by (simp add: tag_hit_def)
    have "store_func z 0 addr v m = bind_run (bind_run ?c (\<lambda>_ m. ret () (host_write (tlb_ptr addr m) (le_bytes z v) m))) (\<lambda>_. ret ()) m"
      unfolding store_func_def flush_if_def simp_thms if_False bind_ret Let_def bind_run_def [of "\<lambda>m. if _ m then _ m else _ m"] t
      by (simp only: tag_neq if_False if_True simp_thms z(2) bind_run_def)
    then show ?thesis unfolding a by (auto simp: bind_check ret_def bind_run_def [of "bind_run _ _"] split: sum.split)
  qed
qed

lemma host_write_alike:
  "alike n m \<Longrightarrow> q = Mem_ptr b off \<Longrightarrow> alike (host_write q bs n) (host_write q bs m)"
  by (simp add: alike_def)

lemma store_miss:
  fixes m :: "'f machine"
  assumes z: "z \<in> {1, 2, 4, 8}" "\<not> misaligned addr z"
    and miss: "\<not> tag_hit (tlb_store_tag (mmu m) (tlb_index addr)) addr"
  shows "same_run (store_func z 0 addr v m) (arch_store z addr v m)"
proof -
  let ?c = "check_trigger OPERATION_STORE addr (typed False z v)"
  have e: "store_func z 0 addr v m = store_slow_path addr (le_bytes z v) 0 m"
    using miss z(2) unfolding store_func_def flush_if_def tag_hit_def
    by (simp add: Let_def bind_run_def [of "\<lambda>m. if _ m then _ m else _ m"]) (simp add: bind_run_def ret_def split: prod.split sum.split)
  show ?thesis
  proof (cases "translate addr z STORE 0 (host m) (core m)")
    case (Inl t)
    then show ?thesis
      unfolding e by (simp add: store_slow_path_def arch_store_def translate_run_def of_trap_def bind_run_def throw_def Let_def)
  next
    case (Inr x)
    have tr: "translate_run addr z STORE 0 m = (Inr x, m)" by (simp add: translate_run_def of_trap_def Inr ret_def)
    have a: "arch_store z addr v m = (case fst (?c m) of Inl e \<Rightarrow> (Inl e, snd (?c m)) | Inr u \<Rightarrow> store_bytes addr (le_bytes z v) x m)"
      unfolding arch_store_def bind_apply(2) [where r = "translate_run addr z STORE 0", OF tr] bind_check by (rule refl)
    define fin where "fin = (\<lambda>m :: 'f machine. case addr_to_mem x (host m) of
          Some q \<Rightarrow> (let m = host_write q (le_bytes z v) m
                     in if traced x (x + PGSIZE) STORE m then ret () m
                        else bind_run (refill_tlb addr x q STORE) (\<lambda>_. ret ()) m)
        | None \<Rightarrow> bind_run (mmio_store x (le_bytes z v)) (\<lambda>ok. if ok then ret () else throw (Trap (Trap_store_access_fault addr 0 0))) m)"
    have s: "store_slow_path addr (le_bytes z v) 0 m = (case fst (?c m) of Inl e \<Rightarrow> (Inl e, snd (?c m)) | Inr u \<Rightarrow> fin m)"
      unfolding store_slow_path_def Let_def length_le_bytes bind_apply(2) [where r = "translate_run addr z STORE 0", OF tr]
        stored_value [OF z(1)] of_trap_def sum.case bind_ret fin_def [unfolded Let_def, symmetric] bind_check by (rule refl)
    have "same_run (fin m) (store_bytes addr (le_bytes z v) x m)"
    proof (cases "addr_to_mem x (host m)")
      case None
      then show ?thesis by (simp add: fin_def store_bytes_def)
    next
      case (Some q)
      let ?n = "host_write q (le_bytes z v) m"
      obtain h where "pmp_homogeneous (x AND NOT 4095) 4096 (core ?n) = Inr h" using pmp_homogeneous_page by blast
      from refill_tlb_eq [OF this, of addr q STORE] obtain u where
        u: "refill_tlb addr x q STORE ?n = (Inr \<lparr>host_offset = ptr_add q (- addr), target_offset = x - addr\<rparr>, ?n\<lparr>mmu := u\<rparr>)"
          "no_buffer u = no_buffer (mmu ?n)" by blast
      then have "alike (?n\<lparr>mmu := u\<rparr>) ?n" by (simp add: alike_def)
      then show ?thesis
        using u(1) by (simp add: fin_def store_bytes_def Some Let_def bind_run_def ret_def same_run_def)
    qed
    then show ?thesis unfolding e a s by (cases "fst (?c m)") simp_all
  qed
qed

lemma store_func_arch:
  assumes "machine_ok m" "z \<in> {1, 2, 4, 8}" "\<not> misaligned addr z"
  shows "same_run (store_func z 0 addr v m) (arch_store z addr v m)"
proof (cases "tag_hit (tlb_store_tag (mmu m) (tlb_index addr)) addr")
  case True
  then show ?thesis using store_hit [OF assms(1) aligned_in_page [OF assms(2,3)] assms(3) True] by simp
next
  case False
  then show ?thesis by (rule store_miss [OF assms(2,3)])
qed

section \<open>Fetches\<close>

definition fetch_bytes :: "u64 \<Rightarrow> u64 \<Rightarrow> ('f, u16) run" where
  "fetch_bytes addr paddr m =
     (case addr_to_mem paddr (host m) of
        Some q \<Rightarrow> ret (ucast (le_word (host_read q 2 m))) m
      | None \<Rightarrow> bind_run (mmio_load paddr 2) (\<lambda>r.
          case r of None \<Rightarrow> throw (Trap (Trap_instruction_access_fault addr 0 0))
          | Some bytes \<Rightarrow> bind_run (on_mmu (fetch_temp_update (\<lambda>_. ucast (le_word bytes)))) (\<lambda>_. ret (ucast (le_word bytes)))) m)"

definition arch_fetch :: "u64 \<Rightarrow> ('f, u16) run" where
  "arch_fetch addr = bind_run (translate_run addr 2 FETCH 0) (fetch_bytes addr)"

lemma half_bytes: "ucast (le_word (le_bytes 2 (ucast h))) = (h :: u16)"
proof -
  have l: "le_word (le_bytes 2 (ucast h)) = take_bit (8 * 2) (ucast h)" by (rule le_word_bytes) simp
  show ?thesis unfolding l by (rule bit_word_eqI) (simp add: bit_simps)
qed

lemma ptr_read_alike: "alike n m \<Longrightarrow> q = Mem_ptr b off \<Longrightarrow> host_read q z n = host_read q z m"
  by (simp add: alike_def)

lemma machine_ok_temp:
  assumes "machine_ok m"
  shows "machine_ok (m\<lparr>mmu := (mmu m)\<lparr>fetch_temp := x\<rparr>\<rparr>)"
proof -
  let ?n = "m\<lparr>mmu := (mmu m)\<lparr>fetch_temp := x\<rparr>\<rparr>"
  have "tlb_tag ty (mmu ?n) = tlb_tag ty (mmu m)" "trigger_flag ty (mmu ?n) = trigger_flag ty (mmu m)" for ty
    by (cases ty; simp add: tlb_tag_def trigger_flag_def)+
  moreover have "tlb_data (mmu ?n) = tlb_data (mmu m)" "core ?n = core m" "host ?n = host m" by simp_all
  ultimately have "tlb_ok ?n"
    using assms by - (rule tlb_ok_cong [of m], simp_all only: machine_ok_def same_memory_refl)
  then show ?thesis using assms by (simp add: machine_ok_def regular_def triggers_ok_def Let_def)
qed

lemma mmio_load_mmu: "mmu (snd (mmio_load a n m)) = mmu m"
  by (simp add: mmio_load_def on_devices_def ret_def Let_def case_prod_beta)

text \<open>With no trigger on execution, the entry for an address is found in the buffer or refilled.\<close>

lemma translate_insn_plain:
  assumes "machine_ok m" "\<not> trigger_flag FETCH (mmu m)"
    and slow: "\<And>e m'. fetch_slow_path addr m = (Inr e, m') \<Longrightarrow> machine_ok m' \<and> \<not> trigger_flag FETCH (mmu m')"
  shows "translate_insn_addr addr m =
    (if tag_hit (tlb_insn_tag (mmu m) (tlb_index addr)) addr then (Inr (tlb_data (mmu m) (tlb_index addr)), m) else fetch_slow_path addr m)"
proof -
  note none = no_trigger [where ty = FETCH, unfolded operation_of_def access_type.case]
  have n: "trigger_match OPERATION_EXECUTE addr d (core m) = None" for d using none [of m addr d] assms(1,2) by (simp add: machine_ok_def)
  consider "tlb_insn_tag (mmu m) (tlb_index addr) = vpn_of addr" | "tlb_insn_tag (mmu m) (tlb_index addr) = vpn_of addr OR TLB_CHECK_TRIGGERS"
    | "\<not> tag_hit (tlb_insn_tag (mmu m) (tlb_index addr)) addr" by (auto simp: tag_hit_def)
  then show ?thesis
  proof cases
    case 1
    then show ?thesis by (simp add: translate_insn_addr_def Let_def tag_hit_def ret_def)
  next
    case 2
    then show ?thesis
      unfolding translate_insn_addr_def Let_def tag_hit_def 2 n
      by (simp only: tag_neq if_False if_True simp_thms not_not bind_ret 2 n option.case ret_def)
  next
    case 3
    have "trigger_match OPERATION_EXECUTE addr d (core m') = None" if "fetch_slow_path addr m = (Inr e, m')" for e m' d
      using none [of m' addr d] slow [OF that] by (simp add: machine_ok_def)
    then show ?thesis
      using 3 unfolding translate_insn_addr_def Let_def tag_hit_def
      by (cases "fetch_slow_path addr m"; cases "fst (fetch_slow_path addr m)") (auto simp: bind_run_def ret_def)
  qed
qed

lemma fetch_half_arch:
  assumes m: "machine_ok m" "\<not> trigger_flag FETCH (mmu m)" and a: "\<not> misaligned addr 2"
  shows "same_run (fetch_half addr m) (arch_fetch addr m) \<and> machine_ok (snd (fetch_half addr m))"
proof -
  have p: "in_page addr addr 2" by (rule aligned_in_page [OF _ a]) simp
  let ?read = "\<lambda>e m. ret (ucast (le_word (host_read (ptr_add (host_offset e) addr) 2 m)) :: u16) m"
  have slow: "same_run (bind_run (fetch_slow_path addr) ?read m) (arch_fetch addr m) \<and> machine_ok (snd (fetch_slow_path addr m)) \<and>
    \<not> trigger_flag FETCH (mmu (snd (fetch_slow_path addr m)))"
  proof (cases "translate addr 2 FETCH 0 (host m) (core m)")
    case (Inl t)
    then show ?thesis
      using m by (simp add: fetch_slow_path_def arch_fetch_def translate_run_def of_trap_def bind_run_def throw_def)
  next
    case (Inr x)
    have tr: "translate_run addr 2 FETCH 0 m = (Inr x, m)" by (simp add: translate_run_def of_trap_def Inr ret_def)
    have arch: "arch_fetch addr m = fetch_bytes addr x m"
      unfolding arch_fetch_def by (rule bind_apply(2) [where r = "translate_run addr 2 FETCH 0", OF tr])
    have s: "fetch_slow_path addr m = (case addr_to_mem x (host m) of
         Some q \<Rightarrow> refill_tlb addr x q FETCH m
       | None \<Rightarrow> bind_run (mmio_load x 2) (\<lambda>r.
           case r of None \<Rightarrow> throw (Trap (Trap_instruction_access_fault addr 0 0))
           | Some bytes \<Rightarrow> bind_run (on_mmu (fetch_temp_update (\<lambda>_. ucast (le_word bytes)))) (\<lambda>_.
               ret \<lparr>host_offset = Fetch_ptr (- addr), target_offset = x - addr\<rparr>)) m)"
      unfolding fetch_slow_path_def by (rule bind_apply(2) [where r = "translate_run addr 2 FETCH 0", OF tr])
    show ?thesis
    proof (cases "addr_to_mem x (host m)")
      case (Some q)
      obtain u where u: "refill_tlb addr x q FETCH m = (Inr \<lparr>host_offset = ptr_add q (- addr), target_offset = x - addr\<rparr>, m\<lparr>mmu := u\<rparr>)"
          "machine_ok (m\<lparr>mmu := u\<rparr>)" "alike (m\<lparr>mmu := u\<rparr>) m"
        using refill_machine_ok [OF m(1) Inr Some p] by blast
      have "trigger_flag FETCH u = trigger_flag FETCH (mmu m)"
        using u(3) no_buffer_fields(2) by (auto simp: alike_def trigger_flag_def)
      moreover have "host_read q 2 (m\<lparr>mmu := u\<rparr>) = host_read q 2 m"
        using mem_ptr [OF Some] ptr_read_alike [OF u(3)] by blast
      ultimately show ?thesis
        using u m(2) unfolding arch fetch_bytes_def bind_run_def s by (simp add: Some ret_def same_run_def)
    next
      case None
      obtain r m' where r: "mmio_load x 2 m = (r, m')" by (cases "mmio_load x 2 m")
      have m': "machine_ok m'" "mmu m' = mmu m" using mmio_load_ok [OF m(1), of x 2] mmio_load_mmu [of x 2 m] r by simp_all
      have flag: "trigger_flag FETCH (u\<lparr>fetch_temp := v\<rparr>) = trigger_flag FETCH u" for u :: "'a mmu_t" and v
        by (simp add: trigger_flag_def)
      show ?thesis
        using m' m(2) machine_ok_temp [OF m'(1)]
        unfolding arch fetch_bytes_def bind_run_def [of "fetch_slow_path addr"] s None option.case
        by (cases r) (auto simp: bind_run_def r ret_def throw_def on_mmu_def flag half_bytes split: option.split)
    qed
  qed
  have "translate_insn_addr addr m =
    (if tag_hit (tlb_insn_tag (mmu m) (tlb_index addr)) addr then (Inr (tlb_data (mmu m) (tlb_index addr)), m) else fetch_slow_path addr m)"
    using slow by (intro translate_insn_plain [OF m]) simp
  moreover have "same_run (?read (tlb_data (mmu m) (tlb_index addr)) m) (arch_fetch addr m)"
    if hit: "tag_hit (tlb_insn_tag (mmu m) (tlb_index addr)) addr"
  proof -
    have hit': "tag_hit (tlb_tag FETCH (mmu m) (tlb_index addr)) addr" using hit by (simp add: tlb_tag_def)
    obtain x where x: "translate addr 2 FETCH 0 (host m) (core m) = Inr x" "addr_to_mem x (host m) = Some (tlb_ptr addr m)"
      using hit_entry [OF m(1) hit' p] by blast
    then show ?thesis
      by (simp add: arch_fetch_def bind_run_def translate_run_def of_trap_def ret_def fetch_bytes_def tlb_ptr_def)
  qed
  moreover have "bind_run (fetch_slow_path addr) ?read m = (case fetch_slow_path addr m of (Inl e, m') \<Rightarrow> (Inl e, m') | (Inr e, m') \<Rightarrow> ?read e m')"
    by (simp add: bind_run_def)
  ultimately show ?thesis
    using slow m(1) by (auto simp: fetch_half_def bind_run_def ret_def split: prod.split_asm sum.split_asm split: prod.split sum.split)
qed

end
