(* ===== verification/RV_Mem.thy ===== *)
theory RV_Mem
  imports RV_MMU RV_System
begin

text \<open>
  The instructions of \<open>riscv/insns\<close> that access memory: loads, stores, atomics, reservations, and the
  hypervisor's accesses to guest memory. A body checks its requirements on the hart and then runs on
  the machine; it gives the next address. The bodies of the other theories run on the machine as they
  are, after which the memory management unit does what they asked of it.
\<close>

section \<open>Bodies on the machine\<close>

type_synonym 'f mem_body = "nat \<Rightarrow> u64 \<Rightarrow> u64 \<Rightarrow> u64 \<Rightarrow> ('f, u64) run"

abbreviation (input) ext_Q :: nat where "ext_Q \<equiv> 81"

definition on_core :: "(hart \<Rightarrow> hart) \<Rightarrow> ('f, unit) run" where
  "on_core f m = (Inr (), m\<lparr>core := f (core m)\<rparr>)"

definition checked :: "(hart \<Rightarrow> trap + unit) \<Rightarrow> (hart \<Rightarrow> ('f, 'a) run) \<Rightarrow> ('f, 'a) run" where
  "checked c k m = bind_run (of_trap (c (core m))) (\<lambda>_. k (core m)) m"

definition run_sys :: "sys_body \<Rightarrow> 'f mem_body" where
  "run_sys f xlen insn pc npc m =
     (case f xlen insn pc npc (core m) of
        Inl (t, p) \<Rightarrow> (Inl (Trap t), mmu_answer (m\<lparr>core := p\<rparr>))
      | Inr (npc, p) \<Rightarrow> (Inr npc, mmu_answer (m\<lparr>core := p\<rparr>)))"

definition load_to :: "(u64 \<Rightarrow> hart \<Rightarrow> hart) \<Rightarrow> bool \<Rightarrow> nat \<Rightarrow> u32 \<Rightarrow> u64 \<Rightarrow> u64 \<Rightarrow> ('f, u64) run" where
  "load_to w sg z flags addr npc =
     bind_run (load_func sg z flags addr) (\<lambda>v. bind_run (on_core (w v)) (\<lambda>_. ret npc))"

definition store_from :: "nat \<Rightarrow> u32 \<Rightarrow> u64 \<Rightarrow> u64 \<Rightarrow> u64 \<Rightarrow> ('f, u64) run" where
  "store_from z flags addr v npc = bind_run (store_func z flags addr v) (\<lambda>_. ret npc)"

definition amo_to :: "(u64 \<Rightarrow> hart \<Rightarrow> hart) \<Rightarrow> nat \<Rightarrow> u64 \<Rightarrow> (u64 \<Rightarrow> u64) \<Rightarrow> u64 \<Rightarrow> ('f, u64) run" where
  "amo_to w z addr f npc = bind_run (amo_func z addr f) (\<lambda>v. bind_run (on_core (w v)) (\<lambda>_. ret npc))"

definition RVC_FRS2 :: "u64 \<Rightarrow> hart \<Rightarrow> freg_t" where "RVC_FRS2 insn p = READ_FREG (rvc_rs2 insn) p"
definition RVC_FRS2S :: "u64 \<Rightarrow> hart \<Rightarrow> freg_t" where "RVC_FRS2S insn p = READ_FREG (rvc_rs2s insn) p"
definition WRITE_RVC_FRS2S :: "nat \<Rightarrow> u64 \<Rightarrow> freg_t \<Rightarrow> hart \<Rightarrow> hart" where
  "WRITE_RVC_FRS2S xlen insn v = WRITE_FREG xlen (rvc_rs2s insn) v"

section \<open>Integer loads and stores\<close>

definition rv_lb :: "'f mem_body" where
  "rv_lb xlen insn pc npc =
     checked (\<lambda>p. Inr ()) (\<lambda>p.
       load_to (WRITE_RD insn) True 1 0 (RS1 insn p + i_imm insn) npc)"

definition rv_lh :: "'f mem_body" where
  "rv_lh xlen insn pc npc =
     checked (\<lambda>p. Inr ()) (\<lambda>p.
       load_to (WRITE_RD insn) True 2 0 (RS1 insn p + i_imm insn) npc)"

definition rv_lw :: "'f mem_body" where
  "rv_lw xlen insn pc npc =
     checked (\<lambda>p. Inr ()) (\<lambda>p.
       load_to (WRITE_RD insn) True 4 0 (RS1 insn p + i_imm insn) npc)"

definition rv_lbu :: "'f mem_body" where
  "rv_lbu xlen insn pc npc =
     checked (\<lambda>p. Inr ()) (\<lambda>p.
       load_to (WRITE_RD insn) False 1 0 (RS1 insn p + i_imm insn) npc)"

definition rv_lhu :: "'f mem_body" where
  "rv_lhu xlen insn pc npc =
     checked (\<lambda>p. Inr ()) (\<lambda>p.
       load_to (WRITE_RD insn) False 2 0 (RS1 insn p + i_imm insn) npc)"

definition rv_ld :: "'f mem_body" where
  "rv_ld xlen insn pc npc =
     checked (\<lambda>p. require_rv64 xlen insn (Inr ())) (\<lambda>p.
       load_to (WRITE_RD insn) True 8 0 (RS1 insn p + i_imm insn) npc)"

definition rv_lwu :: "'f mem_body" where
  "rv_lwu xlen insn pc npc =
     checked (\<lambda>p. require_rv64 xlen insn (Inr ())) (\<lambda>p.
       load_to (WRITE_RD insn) False 4 0 (RS1 insn p + i_imm insn) npc)"

definition rv_sb :: "'f mem_body" where
  "rv_sb xlen insn pc npc =
     checked (\<lambda>p. Inr ()) (\<lambda>p.
       store_from 1 0 (RS1 insn p + s_imm insn) (RS2 insn p) npc)"

definition rv_sh :: "'f mem_body" where
  "rv_sh xlen insn pc npc =
     checked (\<lambda>p. Inr ()) (\<lambda>p.
       store_from 2 0 (RS1 insn p + s_imm insn) (RS2 insn p) npc)"

definition rv_sw :: "'f mem_body" where
  "rv_sw xlen insn pc npc =
     checked (\<lambda>p. Inr ()) (\<lambda>p.
       store_from 4 0 (RS1 insn p + s_imm insn) (RS2 insn p) npc)"

definition rv_sd :: "'f mem_body" where
  "rv_sd xlen insn pc npc =
     checked (\<lambda>p. require_rv64 xlen insn (Inr ())) (\<lambda>p.
       store_from 8 0 (RS1 insn p + s_imm insn) (RS2 insn p) npc)"

section \<open>Floating-point loads and stores\<close>

definition rv_flh :: "'f mem_body" where
  "rv_flh xlen insn pc npc =
     checked (\<lambda>p. require_extension EXT_ZFH insn p (require_fp insn p (Inr ()))) (\<lambda>p.
       load_to (\<lambda>v. WRITE_FRD xlen insn (freg16 (ucast v))) False 2 0 (RS1 insn p + i_imm insn) npc)"

definition rv_flw :: "'f mem_body" where
  "rv_flw xlen insn pc npc =
     checked (\<lambda>p. require_extension ext_F insn p (require_fp insn p (Inr ()))) (\<lambda>p.
       load_to (\<lambda>v. WRITE_FRD xlen insn (freg32 (ucast v))) False 4 0 (RS1 insn p + i_imm insn) npc)"

definition rv_fld :: "'f mem_body" where
  "rv_fld xlen insn pc npc =
     checked (\<lambda>p. require_extension ext_D insn p (require_fp insn p (Inr ()))) (\<lambda>p.
       load_to (\<lambda>v. WRITE_FRD xlen insn (freg64 v)) False 8 0 (RS1 insn p + i_imm insn) npc)"

definition rv_flq :: "'f mem_body" where
  "rv_flq xlen insn pc npc =
     checked (\<lambda>p. require_extension ext_Q insn p (require_fp insn p (Inr ()))) (\<lambda>p.
       bind_run (load_float128 (RS1 insn p + i_imm insn)) (\<lambda>v. bind_run (on_core (WRITE_FRD xlen insn v)) (\<lambda>_. ret npc)))"

definition rv_fsh :: "'f mem_body" where
  "rv_fsh xlen insn pc npc =
     checked (\<lambda>p. require_extension EXT_ZFH insn p (require_fp insn p (Inr ()))) (\<lambda>p.
       store_from 2 0 (RS1 insn p + s_imm insn) (fv0 (FRS2 insn p)) npc)"

definition rv_fsw :: "'f mem_body" where
  "rv_fsw xlen insn pc npc =
     checked (\<lambda>p. require_extension ext_F insn p (require_fp insn p (Inr ()))) (\<lambda>p.
       store_from 4 0 (RS1 insn p + s_imm insn) (fv0 (FRS2 insn p)) npc)"

definition rv_fsd :: "'f mem_body" where
  "rv_fsd xlen insn pc npc =
     checked (\<lambda>p. require_extension ext_D insn p (require_fp insn p (Inr ()))) (\<lambda>p.
       store_from 8 0 (RS1 insn p + s_imm insn) (fv0 (FRS2 insn p)) npc)"

definition rv_fsq :: "'f mem_body" where
  "rv_fsq xlen insn pc npc =
     checked (\<lambda>p. require_extension ext_Q insn p (require_fp insn p (Inr ()))) (\<lambda>p.
       bind_run (store_float128 (RS1 insn p + s_imm insn) (FRS2 insn p)) (\<lambda>_. ret npc))"

section \<open>Compressed loads and stores\<close>

definition rv_c_lw :: "'f mem_body" where
  "rv_c_lw xlen insn pc npc =
     checked (\<lambda>p. require_extension ext_C insn p (Inr ())) (\<lambda>p.
       load_to (WRITE_RVC_RS2S insn) True 4 0 (RVC_RS1S insn p + rvc_lw_imm insn) npc)"

definition rv_c_sw :: "'f mem_body" where
  "rv_c_sw xlen insn pc npc =
     checked (\<lambda>p. require_extension ext_C insn p (Inr ())) (\<lambda>p.
       store_from 4 0 (RVC_RS1S insn p + rvc_lw_imm insn) (RVC_RS2S insn p) npc)"

definition rv_c_lwsp :: "'f mem_body" where
  "rv_c_lwsp xlen insn pc npc =
     checked (\<lambda>p. require_extension ext_C insn p (require (rvc_rd insn \<noteq> 0) insn (Inr ()))) (\<lambda>p.
       load_to (WRITE_RD insn) True 4 0 (RVC_SP p + rvc_lwsp_imm insn) npc)"

definition rv_c_swsp :: "'f mem_body" where
  "rv_c_swsp xlen insn pc npc =
     checked (\<lambda>p. require_extension ext_C insn p (Inr ())) (\<lambda>p.
       store_from 4 0 (RVC_SP p + rvc_swsp_imm insn) (RVC_RS2 insn p) npc)"

definition rv_c_fld :: "'f mem_body" where
  "rv_c_fld xlen insn pc npc =
     checked (\<lambda>p. require_extension ext_C insn p (require_extension ext_D insn p (require_fp insn p (Inr ())))) (\<lambda>p.
       load_to (\<lambda>v. WRITE_RVC_FRS2S xlen insn (freg64 v)) False 8 0 (RVC_RS1S insn p + rvc_ld_imm insn) npc)"

definition rv_c_fsd :: "'f mem_body" where
  "rv_c_fsd xlen insn pc npc =
     checked (\<lambda>p. require_extension ext_C insn p (require_extension ext_D insn p (require_fp insn p (Inr ())))) (\<lambda>p.
       store_from 8 0 (RVC_RS1S insn p + rvc_ld_imm insn) (fv0 (RVC_FRS2S insn p)) npc)"

definition rv_c_fldsp :: "'f mem_body" where
  "rv_c_fldsp xlen insn pc npc =
     checked (\<lambda>p. require_extension ext_C insn p (require_extension ext_D insn p (require_fp insn p (Inr ())))) (\<lambda>p.
       load_to (\<lambda>v. WRITE_FRD xlen insn (freg64 v)) False 8 0 (RVC_SP p + rvc_ldsp_imm insn) npc)"

definition rv_c_fsdsp :: "'f mem_body" where
  "rv_c_fsdsp xlen insn pc npc =
     checked (\<lambda>p. require_extension ext_C insn p (require_extension ext_D insn p (require_fp insn p (Inr ())))) (\<lambda>p.
       store_from 8 0 (RVC_SP p + rvc_sdsp_imm insn) (fv0 (RVC_FRS2 insn p)) npc)"

definition rv_c_flw :: "'f mem_body" where
  "rv_c_flw xlen insn pc npc =
     checked (\<lambda>p. require_extension ext_C insn p (Inr ())) (\<lambda>p.
       if xlen = 32
       then checked (\<lambda>p. require_extension ext_F insn p (require_fp insn p (Inr ()))) (\<lambda>p. load_to (\<lambda>v. WRITE_RVC_FRS2S xlen insn (freg32 (ucast v))) False 4 0 (RVC_RS1S insn p + rvc_lw_imm insn) npc)
       else checked (\<lambda>p. Inr ()) (\<lambda>p. load_to (WRITE_RVC_RS2S insn) True 8 0 (RVC_RS1S insn p + rvc_ld_imm insn) npc))"

definition rv_c_fsw :: "'f mem_body" where
  "rv_c_fsw xlen insn pc npc =
     checked (\<lambda>p. require_extension ext_C insn p (Inr ())) (\<lambda>p.
       if xlen = 32
       then checked (\<lambda>p. require_extension ext_F insn p (require_fp insn p (Inr ()))) (\<lambda>p. store_from 4 0 (RVC_RS1S insn p + rvc_lw_imm insn) (fv0 (RVC_FRS2S insn p)) npc)
       else checked (\<lambda>p. Inr ()) (\<lambda>p. store_from 8 0 (RVC_RS1S insn p + rvc_ld_imm insn) (RVC_RS2S insn p) npc))"

definition rv_c_flwsp :: "'f mem_body" where
  "rv_c_flwsp xlen insn pc npc =
     checked (\<lambda>p. require_extension ext_C insn p (Inr ())) (\<lambda>p.
       if xlen = 32
       then checked (\<lambda>p. require_extension ext_F insn p (require_fp insn p (Inr ()))) (\<lambda>p. load_to (\<lambda>v. WRITE_FRD xlen insn (freg32 (ucast v))) False 4 0 (RVC_SP p + rvc_lwsp_imm insn) npc)
       else checked (\<lambda>p. require (rvc_rd insn \<noteq> 0) insn (Inr ())) (\<lambda>p. load_to (WRITE_RD insn) True 8 0 (RVC_SP p + rvc_ldsp_imm insn) npc))"

definition rv_c_fswsp :: "'f mem_body" where
  "rv_c_fswsp xlen insn pc npc =
     checked (\<lambda>p. require_extension ext_C insn p (Inr ())) (\<lambda>p.
       if xlen = 32
       then checked (\<lambda>p. require_extension ext_F insn p (require_fp insn p (Inr ()))) (\<lambda>p. store_from 4 0 (RVC_SP p + rvc_swsp_imm insn) (fv0 (RVC_FRS2 insn p)) npc)
       else checked (\<lambda>p. Inr ()) (\<lambda>p. store_from 8 0 (RVC_SP p + rvc_sdsp_imm insn) (RVC_RS2 insn p) npc))"

section \<open>Atomics\<close>

text \<open>The result of the 32-bit operations is sign-extended. \<open>std::min\<close> and \<open>std::max\<close> take the type of the lambda.\<close>

definition amo_min :: "('a \<Rightarrow> int) \<Rightarrow> 'a \<Rightarrow> 'a \<Rightarrow> 'a" where "amo_min val a b = (if val b < val a then b else a)"
definition amo_max :: "('a \<Rightarrow> int) \<Rightarrow> 'a \<Rightarrow> 'a \<Rightarrow> 'a" where "amo_max val a b = (if val a < val b then b else a)"
definition on_u32 :: "(u32 \<Rightarrow> u32 \<Rightarrow> u32) \<Rightarrow> u64 \<Rightarrow> u64 \<Rightarrow> u64" where "on_u32 f a b = ucast (f (ucast a) (ucast b))"

definition rv_amoswap_w :: "'f mem_body" where
  "rv_amoswap_w xlen insn pc npc =
     checked (\<lambda>p. require_extension ext_A insn p (Inr ())) (\<lambda>p.
       amo_to (\<lambda>v. WRITE_RD insn (sext32 v)) 4 (RS1 insn p) (\<lambda>lhs. RS2 insn p) npc)"

definition rv_amoswap_d :: "'f mem_body" where
  "rv_amoswap_d xlen insn pc npc =
     checked (\<lambda>p. require_extension ext_A insn p (require_rv64 xlen insn (Inr ()))) (\<lambda>p.
       amo_to (WRITE_RD insn) 8 (RS1 insn p) (\<lambda>lhs. RS2 insn p) npc)"

definition rv_amoadd_w :: "'f mem_body" where
  "rv_amoadd_w xlen insn pc npc =
     checked (\<lambda>p. require_extension ext_A insn p (Inr ())) (\<lambda>p.
       amo_to (\<lambda>v. WRITE_RD insn (sext32 v)) 4 (RS1 insn p) (\<lambda>lhs. lhs + RS2 insn p) npc)"

definition rv_amoadd_d :: "'f mem_body" where
  "rv_amoadd_d xlen insn pc npc =
     checked (\<lambda>p. require_extension ext_A insn p (require_rv64 xlen insn (Inr ()))) (\<lambda>p.
       amo_to (WRITE_RD insn) 8 (RS1 insn p) (\<lambda>lhs. lhs + RS2 insn p) npc)"

definition rv_amoxor_w :: "'f mem_body" where
  "rv_amoxor_w xlen insn pc npc =
     checked (\<lambda>p. require_extension ext_A insn p (Inr ())) (\<lambda>p.
       amo_to (\<lambda>v. WRITE_RD insn (sext32 v)) 4 (RS1 insn p) (\<lambda>lhs. lhs XOR RS2 insn p) npc)"

definition rv_amoxor_d :: "'f mem_body" where
  "rv_amoxor_d xlen insn pc npc =
     checked (\<lambda>p. require_extension ext_A insn p (require_rv64 xlen insn (Inr ()))) (\<lambda>p.
       amo_to (WRITE_RD insn) 8 (RS1 insn p) (\<lambda>lhs. lhs XOR RS2 insn p) npc)"

definition rv_amoor_w :: "'f mem_body" where
  "rv_amoor_w xlen insn pc npc =
     checked (\<lambda>p. require_extension ext_A insn p (Inr ())) (\<lambda>p.
       amo_to (\<lambda>v. WRITE_RD insn (sext32 v)) 4 (RS1 insn p) (\<lambda>lhs. lhs OR RS2 insn p) npc)"

definition rv_amoor_d :: "'f mem_body" where
  "rv_amoor_d xlen insn pc npc =
     checked (\<lambda>p. require_extension ext_A insn p (require_rv64 xlen insn (Inr ()))) (\<lambda>p.
       amo_to (WRITE_RD insn) 8 (RS1 insn p) (\<lambda>lhs. lhs OR RS2 insn p) npc)"

definition rv_amoand_w :: "'f mem_body" where
  "rv_amoand_w xlen insn pc npc =
     checked (\<lambda>p. require_extension ext_A insn p (Inr ())) (\<lambda>p.
       amo_to (\<lambda>v. WRITE_RD insn (sext32 v)) 4 (RS1 insn p) (\<lambda>lhs. lhs AND RS2 insn p) npc)"

definition rv_amoand_d :: "'f mem_body" where
  "rv_amoand_d xlen insn pc npc =
     checked (\<lambda>p. require_extension ext_A insn p (require_rv64 xlen insn (Inr ()))) (\<lambda>p.
       amo_to (WRITE_RD insn) 8 (RS1 insn p) (\<lambda>lhs. lhs AND RS2 insn p) npc)"

definition rv_amomin_w :: "'f mem_body" where
  "rv_amomin_w xlen insn pc npc =
     checked (\<lambda>p. require_extension ext_A insn p (Inr ())) (\<lambda>p.
       amo_to (\<lambda>v. WRITE_RD insn (sext32 v)) 4 (RS1 insn p) (\<lambda>lhs. on_u32 (amo_min sint) lhs (RS2 insn p)) npc)"

definition rv_amomin_d :: "'f mem_body" where
  "rv_amomin_d xlen insn pc npc =
     checked (\<lambda>p. require_extension ext_A insn p (require_rv64 xlen insn (Inr ()))) (\<lambda>p.
       amo_to (WRITE_RD insn) 8 (RS1 insn p) (\<lambda>lhs. amo_min sint lhs (RS2 insn p)) npc)"

definition rv_amomax_w :: "'f mem_body" where
  "rv_amomax_w xlen insn pc npc =
     checked (\<lambda>p. require_extension ext_A insn p (Inr ())) (\<lambda>p.
       amo_to (\<lambda>v. WRITE_RD insn (sext32 v)) 4 (RS1 insn p) (\<lambda>lhs. on_u32 (amo_max sint) lhs (RS2 insn p)) npc)"

definition rv_amomax_d :: "'f mem_body" where
  "rv_amomax_d xlen insn pc npc =
     checked (\<lambda>p. require_extension ext_A insn p (require_rv64 xlen insn (Inr ()))) (\<lambda>p.
       amo_to (WRITE_RD insn) 8 (RS1 insn p) (\<lambda>lhs. amo_max sint lhs (RS2 insn p)) npc)"

definition rv_amominu_w :: "'f mem_body" where
  "rv_amominu_w xlen insn pc npc =
     checked (\<lambda>p. require_extension ext_A insn p (Inr ())) (\<lambda>p.
       amo_to (\<lambda>v. WRITE_RD insn (sext32 v)) 4 (RS1 insn p) (\<lambda>lhs. on_u32 (amo_min uint) lhs (RS2 insn p)) npc)"

definition rv_amominu_d :: "'f mem_body" where
  "rv_amominu_d xlen insn pc npc =
     checked (\<lambda>p. require_extension ext_A insn p (require_rv64 xlen insn (Inr ()))) (\<lambda>p.
       amo_to (WRITE_RD insn) 8 (RS1 insn p) (\<lambda>lhs. amo_min uint lhs (RS2 insn p)) npc)"

definition rv_amomaxu_w :: "'f mem_body" where
  "rv_amomaxu_w xlen insn pc npc =
     checked (\<lambda>p. require_extension ext_A insn p (Inr ())) (\<lambda>p.
       amo_to (\<lambda>v. WRITE_RD insn (sext32 v)) 4 (RS1 insn p) (\<lambda>lhs. on_u32 (amo_max uint) lhs (RS2 insn p)) npc)"

definition rv_amomaxu_d :: "'f mem_body" where
  "rv_amomaxu_d xlen insn pc npc =
     checked (\<lambda>p. require_extension ext_A insn p (require_rv64 xlen insn (Inr ()))) (\<lambda>p.
       amo_to (WRITE_RD insn) 8 (RS1 insn p) (\<lambda>lhs. amo_max uint lhs (RS2 insn p)) npc)"

section \<open>Load-reserved and store-conditional\<close>

definition rv_lr_w :: "'f mem_body" where
  "rv_lr_w xlen insn pc npc =
     checked (\<lambda>p. require_extension ext_A insn p (Inr ())) (\<lambda>p.
       bind_run (load_func True 4 0 (RS1 insn p)) (\<lambda>res.
       bind_run (acquire_load_reservation (RS1 insn p)) (\<lambda>_.
       bind_run (on_core (WRITE_RD insn res)) (\<lambda>_. ret npc))))"

definition rv_sc_w :: "'f mem_body" where
  "rv_sc_w xlen insn pc npc =
     checked (\<lambda>p. require_extension ext_A insn p (Inr ())) (\<lambda>p.
       bind_run (check_load_reservation (RS1 insn p) 4) (\<lambda>have_reservation.
       bind_run (if have_reservation then store_func 4 0 (RS1 insn p) (RS2 insn p) else ret ()) (\<lambda>_.
       bind_run (on_mmu yield_load_reservation) (\<lambda>_.
       bind_run (on_core (WRITE_RD insn (of_bool (\<not> have_reservation)))) (\<lambda>_. ret npc)))))"

definition rv_lr_d :: "'f mem_body" where
  "rv_lr_d xlen insn pc npc =
     checked (\<lambda>p. require_extension ext_A insn p (require_rv64 xlen insn (Inr ()))) (\<lambda>p.
       bind_run (load_func True 8 0 (RS1 insn p)) (\<lambda>res.
       bind_run (acquire_load_reservation (RS1 insn p)) (\<lambda>_.
       bind_run (on_core (WRITE_RD insn res)) (\<lambda>_. ret npc))))"

definition rv_sc_d :: "'f mem_body" where
  "rv_sc_d xlen insn pc npc =
     checked (\<lambda>p. require_extension ext_A insn p (require_rv64 xlen insn (Inr ()))) (\<lambda>p.
       bind_run (check_load_reservation (RS1 insn p) 8) (\<lambda>have_reservation.
       bind_run (if have_reservation then store_func 8 0 (RS1 insn p) (RS2 insn p) else ret ()) (\<lambda>_.
       bind_run (on_mmu yield_load_reservation) (\<lambda>_.
       bind_run (on_core (WRITE_RD insn (of_bool (\<not> have_reservation)))) (\<lambda>_. ret npc)))))"

section \<open>Accesses to guest memory\<close>

definition rv_hlv_b :: "'f mem_body" where
  "rv_hlv_b xlen insn pc npc =
     checked (\<lambda>p. require_extension ext_H insn p (require_privilege (if get_field (hstatus (csr p)) HSTATUS_HU \<noteq> 0 then PRV_S else PRV_U) insn p (require_novirt insn p (Inr ())))) (\<lambda>p.
       load_to (WRITE_RD insn) True 1 XLATE_VIRT (RS1 insn p) npc)"

definition rv_hlv_bu :: "'f mem_body" where
  "rv_hlv_bu xlen insn pc npc =
     checked (\<lambda>p. require_extension ext_H insn p (require_privilege (if get_field (hstatus (csr p)) HSTATUS_HU \<noteq> 0 then PRV_S else PRV_U) insn p (require_novirt insn p (Inr ())))) (\<lambda>p.
       load_to (WRITE_RD insn) False 1 XLATE_VIRT (RS1 insn p) npc)"

definition rv_hlv_h :: "'f mem_body" where
  "rv_hlv_h xlen insn pc npc =
     checked (\<lambda>p. require_extension ext_H insn p (require_privilege (if get_field (hstatus (csr p)) HSTATUS_HU \<noteq> 0 then PRV_S else PRV_U) insn p (require_novirt insn p (Inr ())))) (\<lambda>p.
       load_to (WRITE_RD insn) True 2 XLATE_VIRT (RS1 insn p) npc)"

definition rv_hlv_hu :: "'f mem_body" where
  "rv_hlv_hu xlen insn pc npc =
     checked (\<lambda>p. require_extension ext_H insn p (require_privilege (if get_field (hstatus (csr p)) HSTATUS_HU \<noteq> 0 then PRV_S else PRV_U) insn p (require_novirt insn p (Inr ())))) (\<lambda>p.
       load_to (WRITE_RD insn) False 2 XLATE_VIRT (RS1 insn p) npc)"

definition rv_hlv_w :: "'f mem_body" where
  "rv_hlv_w xlen insn pc npc =
     checked (\<lambda>p. require_extension ext_H insn p (require_privilege (if get_field (hstatus (csr p)) HSTATUS_HU \<noteq> 0 then PRV_S else PRV_U) insn p (require_novirt insn p (Inr ())))) (\<lambda>p.
       load_to (WRITE_RD insn) True 4 XLATE_VIRT (RS1 insn p) npc)"

definition rv_hlv_wu :: "'f mem_body" where
  "rv_hlv_wu xlen insn pc npc =
     checked (\<lambda>p. require_extension ext_H insn p (require_rv64 xlen insn (require_privilege (if get_field (hstatus (csr p)) HSTATUS_HU \<noteq> 0 then PRV_S else PRV_U) insn p (require_novirt insn p (Inr ()))))) (\<lambda>p.
       load_to (WRITE_RD insn) False 4 XLATE_VIRT (RS1 insn p) npc)"

definition rv_hlv_d :: "'f mem_body" where
  "rv_hlv_d xlen insn pc npc =
     checked (\<lambda>p. require_extension ext_H insn p (require_rv64 xlen insn (require_privilege (if get_field (hstatus (csr p)) HSTATUS_HU \<noteq> 0 then PRV_S else PRV_U) insn p (require_novirt insn p (Inr ()))))) (\<lambda>p.
       load_to (WRITE_RD insn) True 8 XLATE_VIRT (RS1 insn p) npc)"

definition rv_hlvx_hu :: "'f mem_body" where
  "rv_hlvx_hu xlen insn pc npc =
     checked (\<lambda>p. require_extension ext_H insn p (require_privilege (if get_field (hstatus (csr p)) HSTATUS_HU \<noteq> 0 then PRV_S else PRV_U) insn p (require_novirt insn p (Inr ())))) (\<lambda>p.
       load_to (WRITE_RD insn) False 2 (XLATE_VIRT OR XLATE_VIRT_MXR) (RS1 insn p) npc)"

definition rv_hlvx_wu :: "'f mem_body" where
  "rv_hlvx_wu xlen insn pc npc =
     checked (\<lambda>p. require_extension ext_H insn p (require_privilege (if get_field (hstatus (csr p)) HSTATUS_HU \<noteq> 0 then PRV_S else PRV_U) insn p (require_novirt insn p (Inr ())))) (\<lambda>p.
       load_to (WRITE_RD insn) False 4 (XLATE_VIRT OR XLATE_VIRT_MXR) (RS1 insn p) npc)"

definition rv_hsv_b :: "'f mem_body" where
  "rv_hsv_b xlen insn pc npc =
     checked (\<lambda>p. require_extension ext_H insn p (require_privilege (if get_field (hstatus (csr p)) HSTATUS_HU \<noteq> 0 then PRV_S else PRV_U) insn p (require_novirt insn p (Inr ())))) (\<lambda>p.
       store_from 1 XLATE_VIRT (RS1 insn p) (RS2 insn p) npc)"

definition rv_hsv_h :: "'f mem_body" where
  "rv_hsv_h xlen insn pc npc =
     checked (\<lambda>p. require_extension ext_H insn p (require_privilege (if get_field (hstatus (csr p)) HSTATUS_HU \<noteq> 0 then PRV_S else PRV_U) insn p (require_novirt insn p (Inr ())))) (\<lambda>p.
       store_from 2 XLATE_VIRT (RS1 insn p) (RS2 insn p) npc)"

definition rv_hsv_w :: "'f mem_body" where
  "rv_hsv_w xlen insn pc npc =
     checked (\<lambda>p. require_extension ext_H insn p (require_privilege (if get_field (hstatus (csr p)) HSTATUS_HU \<noteq> 0 then PRV_S else PRV_U) insn p (require_novirt insn p (Inr ())))) (\<lambda>p.
       store_from 4 XLATE_VIRT (RS1 insn p) (RS2 insn p) npc)"

definition rv_hsv_d :: "'f mem_body" where
  "rv_hsv_d xlen insn pc npc =
     checked (\<lambda>p. require_extension ext_H insn p (require_rv64 xlen insn (require_privilege (if get_field (hstatus (csr p)) HSTATUS_HU \<noteq> 0 then PRV_S else PRV_U) insn p (require_novirt insn p (Inr ()))))) (\<lambda>p.
       store_from 8 XLATE_VIRT (RS1 insn p) (RS2 insn p) npc)"

end
