(* ===== verification/RV_Step.thy ===== *)
theory RV_Step
  imports RV_Mem
begin

text \<open>
  The loop that executes instructions: \<open>processor_t::step\<close>, \<open>slow_path\<close> and \<open>execute_insn\<close> of
  \<open>riscv/execute.cc\<close>. What a function pointer does is an argument, \<open>call\<close>, and so are the requests
  to halt and the interrupts of the fuzzer (\<open>psint_t\<close>, which act on hart 0, the hart modelled here).
  The inner loops are recursions on the number of instructions left; the outer loop, which need not
  end, has fuel, and \<open>None\<close> is running out of it. Tracing, histograms and the commit log are left out.

  A pass of the outer loop gives the instructions it has retired and the number still to do, or ends
  the loop early, or dies of an exception that leaves \<open>step\<close>: what the handlers themselves throw,
  and \<open>abort()\<close>.
\<close>

section \<open>Calls\<close>

type_synonym 'f calls = "'f \<Rightarrow> u64 \<Rightarrow> u64 \<Rightarrow> ('f, u64) run"

text \<open>\<open>insn_template.cc\<close> for a body on the machine.\<close>

definition rv_function :: "'f mem_body \<Rightarrow> u64 \<Rightarrow> nat \<Rightarrow> u64 \<Rightarrow> u64 \<Rightarrow> ('f, u64) run" where
  "rv_function body opcode xlen insn pc =
     body xlen insn pc (sext_xlen xlen (pc + word_of_nat (insn_length opcode)))"

definition assert_int_run :: "(u64 \<rightharpoonup> u64) \<Rightarrow> u64 \<Rightarrow> ('f, unit) run" where
  "assert_int_run intrs pc m =
     (case assert_int intrs pc (core m) of
        Inl (t, p) \<Rightarrow> (Inl (Trap t), m\<lparr>core := p\<rparr>)
      | Inr p \<Rightarrow> (Inr (), m\<lparr>core := p\<rparr>))"

definition on_core_mmu :: "(hart \<Rightarrow> hart) \<Rightarrow> 'f machine \<Rightarrow> 'f machine" where
  "on_core_mmu f m = mmu_answer (m\<lparr>core := f (core m)\<rparr>)"

section \<open>Retiring an instruction\<close>

text \<open>The local variables of \<open>step\<close>: \<open>pc\<close>, \<open>instret\<close>, and \<open>n\<close>.\<close>

record locals =
  l_pc :: u64
  l_instret :: nat
  l_n :: nat

datatype flow = Next | Break | Raise exn

text \<open>The macro \<open>advance_pc\<close>. An odd program counter is a signal; the loop then goes on at \<open>state.pc\<close>.\<close>

definition invalid_pc :: "u64 \<Rightarrow> bool" where "invalid_pc pc = (pc AND 1 \<noteq> 0)"

definition advance_pc :: "locals \<Rightarrow> 'f machine \<Rightarrow> flow \<times> locals \<times> 'f machine" where
  "advance_pc l m =
     (let pc = l_pc l; back = (\<lambda>l m. (Break, l\<lparr>l_pc := pc_reg (csr (core m))\<rparr>, m))
      in if invalid_pc pc
         then (if pc = PC_SERIALIZE_BEFORE then back l (m\<lparr>core := csr_update (serialized_update (\<lambda>_. True)) (core m)\<rparr>)
               else if pc = PC_SERIALIZE_AFTER then back (l\<lparr>l_instret := l_instret l + 1\<rparr>) m
               else if pc = PC_SERIALIZE_WFI then back (l\<lparr>l_instret := l_instret l + 1, l_n := l_instret l + 1\<rparr>) m
               else (Raise (Trap Abort), l, m))
         else (Next, l\<lparr>l_instret := l_instret l + 1\<rparr>, m\<lparr>core := csr_update (pc_reg_update (\<lambda>_. pc)) (core m)\<rparr>))"

section \<open>The slow path\<close>

definition slow_path :: "bool \<Rightarrow> hart \<Rightarrow> bool" where
  "slow_path debug p = (debug \<or> step_state (csr p) \<noteq> STEP_NONE \<or> debug_mode (csr p))"

definition set_step :: "single_step \<Rightarrow> hart \<Rightarrow> hart" where
  "set_step s = csr_update (step_state_update (\<lambda>_. s))"

text \<open>Fetch, decode and execute at \<open>pc\<close>.\<close>

definition slow_insn :: "'f calls \<Rightarrow> (u64 \<rightharpoonup> u64) \<Rightarrow> u64 \<Rightarrow> ('f, u64) run" where
  "slow_insn call intrs pc =
     bind_run (assert_int_run intrs pc) (\<lambda>_.
     bind_run (load_insn pc) (\<lambda>(f, insn). call f insn pc))"

text \<open>An instruction and its retirement; what is thrown leaves the local variables as they are.\<close>

definition run_insn :: "('f, u64) run \<Rightarrow> locals \<Rightarrow> 'f machine \<Rightarrow> flow \<times> locals \<times> 'f machine" where
  "run_insn r l m =
     (case r m of (Inl e, m) \<Rightarrow> (Raise e, l, m) | (Inr pc, m) \<Rightarrow> advance_pc (l\<lparr>l_pc := pc\<rparr>) m)"

primrec slow_loop :: "'f calls \<Rightarrow> (u64 \<rightharpoonup> u64) \<Rightarrow> nat \<Rightarrow> locals \<Rightarrow> 'f machine \<Rightarrow> flow \<times> locals \<times> 'f machine" where
  "slow_loop call intrs 0 l m = (Next, l, m)"
| "slow_loop call intrs (Suc k) l m =
     (let p = core m; stepped = (\<not> serialized (csr p) \<and> step_state (csr p) = STEP_STEPPED);
          m = (if stepped then m\<lparr>core := set_step STEP_NONE p\<rparr> else m)
      in if stepped \<and> \<not> debug_mode (csr p) then (Break, l, on_core_mmu (enter_debug_mode DCSR_CAUSE_STEP) m)
         else let p = core m;
                  m = (if step_state (csr p) = STEP_STEPPING then m\<lparr>core := set_step STEP_STEPPED p\<rparr> else m)
              in case run_insn (slow_insn call intrs (l_pc l)) l m of
                   (Next, l, m) \<Rightarrow> slow_loop call intrs k l m
                 | r \<Rightarrow> r)"

section \<open>The fast path\<close>

text \<open>The cases of the switch from an index to the last one: each executes the entry, and falls through
  if the next entry of the cache is for the next address.\<close>

primrec fast_cases :: "'f calls \<Rightarrow> (u64 \<rightharpoonup> u64) \<Rightarrow> nat \<Rightarrow> 'f icache_entry_t \<Rightarrow> locals \<Rightarrow> 'f machine \<Rightarrow> flow \<times> locals \<times> 'f machine" where
  "fast_cases call intrs 0 e l m = (Next, l, m)"
| "fast_cases call intrs (Suc c) e l m =
     (case bind_run (assert_int_run intrs (l_pc l)) (\<lambda>_. call (ic_func e) (ic_insn e) (l_pc l)) m of
        (Inl x, m) \<Rightarrow> (Raise x, l, m)
      | (Inr pc, m) \<Rightarrow>
          (let l = l\<lparr>l_pc := pc\<rparr>; e = icache (mmu m) (ic_next e)
           in if c = 0 \<or> ic_tag e \<noteq> pc \<or> l_instret l + 1 = l_n l then (Next, l, m)
              else fast_cases call intrs c e (l\<lparr>l_instret := l_instret l + 1\<rparr>)
                     (m\<lparr>core := csr_update (pc_reg_update (\<lambda>_. pc)) (core m)\<rparr>)))"

primrec fast_loop :: "'f calls \<Rightarrow> (u64 \<rightharpoonup> u64) \<Rightarrow> nat \<Rightarrow> locals \<Rightarrow> 'f machine \<Rightarrow> flow \<times> locals \<times> 'f machine" where
  "fast_loop call intrs 0 l m = (Next, l, m)"
| "fast_loop call intrs (Suc k) l m =
     (if l_n l \<le> l_instret l then (Next, l, m)
      else case access_icache (l_pc l) m of
        (Inl x, m) \<Rightarrow> (Raise x, l, m)
      | (Inr e, m) \<Rightarrow>
          (case fast_cases call intrs (ICACHE_ENTRIES - icache_index (l_pc l)) e l m of
             (Next, l, m) \<Rightarrow>
               (case advance_pc l m of (Next, l, m) \<Rightarrow> fast_loop call intrs k l m | r \<Rightarrow> r)
           | r \<Rightarrow> r))"

section \<open>The handlers\<close>

datatype outcome = Goes_on nat | Ends | Dies exn

definition trap_handler :: "trap \<Rightarrow> locals \<Rightarrow> 'f machine \<Rightarrow> exn option \<times> locals \<times> 'f machine" where
  "trap_handler t l m =
     (if t = Abort then (Some (Trap Abort), l, m)
      else if t = Wait_for_interrupt then (None, l\<lparr>l_n := l_instret l\<rparr>, m)
      else case take_trap t (l_pc l) (core m) of
             Inl x \<Rightarrow> (Some (Trap x), l, m)
           | Inr p \<Rightarrow>
               (let m = mmu_answer (m\<lparr>core := p\<rparr>); l = l\<lparr>l_n := l_instret l\<rparr>
                in if step_state (csr p) = STEP_STEPPED
                   then (None, l, on_core_mmu (\<lambda>p. enter_debug_mode DCSR_CAUSE_STEP (set_step STEP_NONE p)) m)
                   else (None, l, m)))"

abbreviation (input) ACTION_DEBUG_EXCEPTION :: u64 where "ACTION_DEBUG_EXCEPTION \<equiv> 0"
abbreviation (input) ACTION_DEBUG_MODE :: u64 where "ACTION_DEBUG_MODE \<equiv> 1"
abbreviation (input) DCSR_CAUSE_HWBP :: u8 where "DCSR_CAUSE_HWBP \<equiv> 2"

text \<open>The action of a trigger, after an instruction the memory management unit has stopped has run again.\<close>

definition trigger_action :: "trigger_matched_t \<Rightarrow> locals \<Rightarrow> 'f machine \<Rightarrow> flow \<times> locals \<times> 'f machine" where
  "trigger_action t l m =
     (let action = mc_action (mcontrol (csr (core m)) ! tm_index t)
      in if action = ACTION_DEBUG_MODE then (Next, l, on_core_mmu (enter_debug_mode DCSR_CAUSE_HWBP) m)
         else if action = ACTION_DEBUG_EXCEPTION
         then (case take_trap (Trap_breakpoint (tm_address t)) (l_pc l) (core m) of
                 Inl x \<Rightarrow> (Raise (Trap x), l, m)
               | Inr p \<Rightarrow> (Next, l, mmu_answer (m\<lparr>core := p\<rparr>)))
         else (Raise (Trap Abort), l, m))"

definition trigger_handler :: "'f calls \<Rightarrow> trigger_matched_t \<Rightarrow> locals \<Rightarrow> 'f machine \<Rightarrow> flow \<times> locals \<times> 'f machine" where
  "trigger_handler call t l m =
     (if matched_trigger (mmu m) \<noteq> None
      then (case run_insn (bind_run (load_insn (l_pc l)) (\<lambda>(f, insn). call f insn (l_pc l))) l m of
              (Next, l, m) \<Rightarrow> trigger_action t l (m\<lparr>mmu := (mmu m)\<lparr>matched_trigger := None\<rparr>\<rparr>)
            | r \<Rightarrow> r)
      else trigger_action t l m)"

section \<open>The outer loop\<close>

definition retire :: "nat \<Rightarrow> 'f machine \<Rightarrow> 'f machine" where
  "retire k m = m\<lparr>core := csr_update (minstret_update (\<lambda>c. c + of_nat k)) (core m)\<rparr>"

definition finish_pass :: "locals \<Rightarrow> 'f machine \<Rightarrow> outcome \<times> 'f machine" where
  "finish_pass l m = (Goes_on (l_n l - l_instret l), retire (l_instret l) m)"

definition try_block :: "'f calls \<Rightarrow> (u64 \<rightharpoonup> u64) \<Rightarrow> bool \<Rightarrow> nat \<Rightarrow> 'f machine \<Rightarrow> flow \<times> locals \<times> 'f machine" where
  "try_block call intrs debug n m =
     (let l = \<lparr>l_pc = pc_reg (csr (core m)), l_instret = 0, l_n = n\<rparr>
      in case take_pending_interrupt (core m) of
           Some t \<Rightarrow> (Raise (Trap t), l, m)
         | None \<Rightarrow> (if slow_path debug (core m) then slow_loop call intrs n l m else fast_loop call intrs n l m))"

definition pass :: "'f calls \<Rightarrow> (u64 \<rightharpoonup> u64) \<Rightarrow> bool \<Rightarrow> nat \<Rightarrow> 'f machine \<Rightarrow> outcome \<times> 'f machine" where
  "pass call intrs debug n m =
     (case try_block call intrs debug n m of
        (Raise (Trap t), l, m) \<Rightarrow>
          (case trap_handler t l m of (Some x, l, m) \<Rightarrow> (Dies x, m) | (None, l, m) \<Rightarrow> finish_pass l m)
      | (Raise (Trigger t), l, m) \<Rightarrow>
          (case trigger_handler call t l m of
             (Next, l, m) \<Rightarrow> finish_pass l m | (Break, l, m) \<Rightarrow> (Ends, m) | (Raise x, l, m) \<Rightarrow> (Dies x, m))
      | (flow, l, m) \<Rightarrow> finish_pass l m)"

fun step_loop :: "nat \<Rightarrow> 'f calls \<Rightarrow> (u64 \<rightharpoonup> u64) \<Rightarrow> bool \<Rightarrow> nat \<Rightarrow> 'f machine \<Rightarrow> (exn option \<times> 'f machine) option" where
  "step_loop fuel call intrs debug n m =
     (if n = 0 then Some (None, m)
      else case fuel of 0 \<Rightarrow> None
      | Suc fuel \<Rightarrow>
          (case pass call intrs debug n m of
             (Goes_on n, m) \<Rightarrow> step_loop fuel call intrs debug n m
           | (Ends, m) \<Rightarrow> Some (None, m)
           | (Dies x, m) \<Rightarrow> Some (Some x, m)))"

declare step_loop.simps [simp del]

datatype halt_request = HR_NONE | HR_REGULAR | HR_GROUP

definition halt_cause :: "halt_request \<Rightarrow> hart \<Rightarrow> u8 option" where
  "halt_cause r p =
     (if debug_mode (csr p) then None
      else if r = HR_REGULAR then Some DCSR_CAUSE_DEBUGINT
      else if r = HR_GROUP then Some DCSR_CAUSE_GROUP
      else if dcsr_halt (dcsr (csr p)) then Some DCSR_CAUSE_HALT else None)"

definition step :: "nat \<Rightarrow> 'f calls \<Rightarrow> (u64 \<rightharpoonup> u64) \<Rightarrow> halt_request \<Rightarrow> bool \<Rightarrow> nat \<Rightarrow> 'f machine \<Rightarrow> (exn option \<times> 'f machine) option" where
  "step fuel call intrs r debug n m =
     step_loop fuel call intrs debug n
       (case halt_cause r (core m) of None \<Rightarrow> m | Some c \<Rightarrow> on_core_mmu (enter_debug_mode c) m)"

end
