(* ===== verification/RV_Frames.thy ===== *)
theory RV_Frames
  imports RV_Mem
begin

text \<open>
  What the operations of the memory management unit leave alone: of the hart they write the pending
  interrupts only, which the devices raise, and the entries they drop from the instruction cache or
  put there are tagged with the address that was fetched.
\<close>

section \<open>Quiet runs\<close>

text \<open>A tag of the instruction cache is the address of an instruction, or no address.\<close>

definition tags_ok :: "'f machine \<Rightarrow> bool" where
  "tags_ok m = (\<forall>i. even (ic_tag (icache (mmu m) i)) \<or> ic_tag (icache (mmu m) i) = - 1)"

definition quiet :: "(exn + 'a) \<times> 'f machine \<Rightarrow> 'f machine \<Rightarrow> bool" where
  "quiet r m =
     ((\<exists>v. core (snd r) = csr_update (mip_update (\<lambda>_. v)) (core m)) \<and> (tags_ok m \<longrightarrow> tags_ok (snd r)))"

named_theorems quiet_runs

lemma same_mip: "\<exists>v. p = csr_update (mip_update (\<lambda>_. v)) p"
  by (rule exI [of _ "mip (csr p)"]) simp

lemma quiet_same: "core (snd r) = core m \<Longrightarrow> (tags_ok m \<Longrightarrow> tags_ok (snd r)) \<Longrightarrow> quiet r m"
  using same_mip [of "core m"] by (simp add: quiet_def)

lemma mip_twice: "mip_update (\<lambda>_. v) \<circ> mip_update (\<lambda>_. w) = mip_update (\<lambda>_. v)"
  by (rule ext) simp

lemma quiet_trans: "quiet (x, m') m \<Longrightarrow> quiet r m' \<Longrightarrow> quiet r m"
  by (auto simp: quiet_def mip_twice)

lemma quietD:
  assumes "quiet r m"
  shows "serialized (csr (core (snd r))) = serialized (csr (core m))" "step_state (csr (core (snd r))) = step_state (csr (core m))"
    "pc_reg (csr (core (snd r))) = pc_reg (csr (core m))" "tags_ok m \<Longrightarrow> tags_ok (snd r)"
    "hart_ok xlen (core (snd r)) = hart_ok xlen (core m)"
  using assms by (auto simp: quiet_def hart_ok_def hart_regs_def)

lemma quiet_ret [quiet_runs]: "quiet (ret x m) m" "quiet (Inr x, m) m"
  by (simp_all add: quiet_same ret_def)

lemma quiet_throw [quiet_runs]: "quiet (throw e m) m" "quiet (Inl e, m) m"
  by (simp_all add: quiet_same throw_def)

lemma quiet_bind [quiet_runs]:
  assumes "quiet (r m) m" "\<And>x m'. quiet (k x m') m'"
  shows "quiet (bind_run r k m) m"
proof (cases "r m")
  case (Pair x m')
  show ?thesis
  proof (cases x)
    case (Inl e)
    then show ?thesis using assms(1) Pair by (simp add: bind_run_def quiet_def)
  next
    case (Inr y)
    then show ?thesis using assms(1) quiet_trans [OF _ assms(2)] Pair by (simp add: bind_run_def)
  qed
qed

lemma quiet_of_trap [quiet_runs]: "quiet (of_trap r m) m"
  by (cases r) (simp_all add: of_trap_def quiet_runs)

lemma quiet_on_devices [quiet_runs]: "quiet (on_devices f m) m"
  by (auto simp: on_devices_def quiet_def Let_def case_prod_beta tags_ok_def)

lemma tags_flush: "tags_ok (m\<lparr>mmu := flush_icache u\<rparr>)" "tags_ok (m\<lparr>mmu := flush_tlb u\<rparr>)"
  by (simp_all add: tags_ok_def flush_icache_def flush_tlb_def)

lemma quiet_on_mmu: "icache (f (mmu m)) = icache (mmu m) \<Longrightarrow> quiet (on_mmu f m) m"
  by (rule quiet_same) (simp_all add: on_mmu_def tags_ok_def)

lemma quiet_mmio [quiet_runs]: "quiet (mmio_load a n m) m" "quiet (mmio_store a bs m) m"
  by (simp_all add: mmio_load_def mmio_store_def quiet_runs)

lemma quiet_refill_tlb [quiet_runs]: "quiet (refill_tlb a b q ty m) m"
  unfolding refill_tlb_def
  by (rule quiet_bind, rule quiet_of_trap) (rule quiet_same, simp_all add: Let_def tags_ok_def split: access_type.split)

lemma quiet_translate_run [quiet_runs]: "quiet (translate_run a n ty fl m) m"
  by (simp add: translate_run_def quiet_runs)

lemma quiet_check_trigger [quiet_runs]: "quiet (check_trigger op a d m) m"
proof -
  have "quiet (trigger_exception op a d m) m" for m
    unfolding trigger_exception_def Let_def by (auto split: option.split intro: quiet_runs)
  then show ?thesis
    unfolding check_trigger_def by (auto intro!: quiet_runs quiet_on_mmu split: option.split)
qed

lemma quiet_flush_if [quiet_runs]: "quiet (flush_if fl m) m"
  unfolding flush_if_def by (auto intro!: quiet_same simp: on_mmu_def ret_def tags_flush)

lemma host_write_frame: "core (host_write q bs m) = core m" "tags_ok (host_write q bs m) = tags_ok m"
  by (cases q; simp add: tags_ok_def)+

lemma quiet_write [quiet_runs]: "quiet (ret () (host_write q bs m)) m" "quiet (Inr (), host_write q bs m) m"
  by (rule quiet_same, simp_all add: ret_def host_write_frame)+

section \<open>Loads, stores and reservations\<close>

lemma quiet_load_slow [quiet_runs]: "quiet (load_slow_path a n fl m) m"
  unfolding load_slow_path_def by (auto intro!: quiet_runs split: option.split)

lemma quiet_store_slow [quiet_runs]: "quiet (store_slow_path a bs fl m) m"
proof -
  have w: "quiet (bind_run (refill_tlb a x q STORE) (\<lambda>_. ret ()) (host_write q bs m)) m" for x q m
    by (rule quiet_trans [OF quiet_write(2) [where q = q and bs = bs]]) (intro quiet_runs)
  show ?thesis
    unfolding store_slow_path_def Let_def by (auto intro!: quiet_runs w split: option.split)
qed

lemma quiet_load_func [quiet_runs]: "quiet (load_func sg z fl a m) m"
  unfolding load_func_def Let_def by (auto intro!: quiet_runs)

lemma quiet_store_func [quiet_runs]: "quiet (store_func z fl a v m) m"
  unfolding store_func_def Let_def by (auto intro!: quiet_runs)

lemma quiet_catch: "quiet (r m) m \<Longrightarrow> quiet (catch_run f r m) m"
  by (auto simp: catch_run_def quiet_def split: prod.splits sum.splits)

lemma quiet_amo_func [quiet_runs]: "quiet (amo_func z a f m) m"
  unfolding amo_func_def by (auto intro!: quiet_runs quiet_catch)

lemma quiet_float128 [quiet_runs]: "quiet (load_float128 a m) m" "quiet (store_float128 a v m) m"
  unfolding load_float128_def store_float128_def by (auto intro!: quiet_runs)

lemma quiet_reservations [quiet_runs]:
  "quiet (acquire_load_reservation a m) m" "quiet (check_load_reservation a z m) m" "quiet (on_mmu yield_load_reservation m) m"
  unfolding acquire_load_reservation_def check_load_reservation_def
  by (auto intro!: quiet_runs quiet_on_mmu split: option.split simp: yield_load_reservation_def)

text \<open>A load gives a value of its type.\<close>

lemma load_func_typed: "fst (load_func sg z fl a m) = Inr v \<Longrightarrow> \<exists>w. v = typed sg z w"
  unfolding load_func_def bind_run_def flush_if_def
  by (auto simp: Let_def ret_def throw_def bind_run_def on_mmu_def split: prod.split_asm sum.split_asm if_split_asm)

section \<open>Instruction fetch\<close>

lemma quiet_translate_insn [quiet_runs]: "quiet (translate_insn_addr a m) m"
proof -
  have f: "quiet (fetch_slow_path a m) m" for m
    unfolding fetch_slow_path_def by (auto intro!: quiet_runs quiet_on_mmu split: option.split)
  show ?thesis
    unfolding translate_insn_addr_def Let_def by (auto intro!: quiet_runs f split: option.split)
qed

lemma quiet_fetch_word [quiet_runs]: "quiet (fetch_word a h m) m"
proof -
  have "quiet (fetch_half a m) m" for a and m :: "'a machine" unfolding fetch_half_def by (intro quiet_runs)
  then show ?thesis unfolding fetch_word_def Let_def by (auto intro!: quiet_runs)
qed

lemma quiet_decode [quiet_runs]: "quiet (decode_run_insn insn m) m"
  by (auto simp: decode_run_insn_def ret_def throw_def tags_ok_def intro!: quiet_same split: option.split)

lemma quiet_refill_icache [quiet_runs]: "quiet (refill_icache a m) m"
  unfolding refill_icache_def Let_def by (intro quiet_runs)

lemma quiet_load_insn [quiet_runs]: "quiet (load_insn a m) m"
  unfolding load_insn_def by (intro quiet_runs)

lemma refill_icache_tag: "fst (refill_icache a m) = Inr e \<Longrightarrow> ic_tag e = a \<or> ic_tag e = - 1"
  unfolding refill_icache_def bind_run_def
  by (auto simp: Let_def ret_def split: prod.split_asm sum.split_asm)

lemma quiet_access_icache:
  assumes "even a"
  shows "quiet (access_icache a m) m"
proof (cases "ic_tag (icache (mmu m) (icache_index a)) = a")
  case True
  then show ?thesis unfolding access_icache_def Let_def by (simp add: quiet_runs)
next
  case False
  let ?i = "icache_index a"
  have e: "access_icache a m = bind_run (refill_icache a) (\<lambda>e. bind_run (on_mmu (\<lambda>u. u\<lparr>icache := (icache u)(?i := e)\<rparr>)) (\<lambda>_. ret e)) m"
    using False by (simp add: access_icache_def Let_def)
  obtain x m' where x: "refill_icache a m = (x, m')" by (cases "refill_icache a m")
  have q: "quiet (x, m') m" using quiet_refill_icache [of a m] x by simp
  show ?thesis
  proof (cases x)
    case (Inl y)
    then show ?thesis using q x unfolding e by (simp add: bind_run_def)
  next
    case (Inr y)
    have "ic_tag y = a \<or> ic_tag y = - 1" using refill_icache_tag [of a m y] x Inr by simp
    then have "quiet (Inr y, m'\<lparr>mmu := (mmu m')\<lparr>icache := (icache (mmu m'))(?i := y)\<rparr>\<rparr>) m'"
      using assms by (intro quiet_same) (auto simp: tags_ok_def)
    then show ?thesis using quiet_trans [OF q] x Inr unfolding e by (simp add: bind_run_def on_mmu_def ret_def)
  qed
qed

section \<open>What the processor asks of the unit\<close>

lemma answer_frame: "core (mmu_answer m) = (core m)\<lparr>mmu_calls := []\<rparr>" "tags_ok m \<Longrightarrow> tags_ok (mmu_answer m)"
proof -
  have "tags_ok (m\<lparr>mmu := fold (mmu_do p) cs u\<rparr>)" if "tags_ok (m\<lparr>mmu := u\<rparr>)" for p cs and u :: "'a mmu_t"
    using that
  proof (induction cs arbitrary: u)
    case (Cons c cs)
    have "tags_ok (m\<lparr>mmu := mmu_do p c u\<rparr>)"
      by (cases c) (simp_all add: tags_ok_def mmu_do_def flush_tlb_def flush_icache_def trigger_updated_def)
    from Cons.IH [OF this] show ?case by simp
  qed simp
  from this [of "mmu m"] show "tags_ok m \<Longrightarrow> tags_ok (mmu_answer m)" by (simp add: mmu_answer_def tags_ok_def)
qed (simp add: mmu_answer_def)

end
