(* ===== verification/RV_Step_Correct.thy ===== *)
theory RV_Step_Correct
  imports RV_Step RV_Frames RV_Trap_Correct
begin

text \<open>
  The loop of \<open>step\<close> makes progress. A pass retires an instruction, or ends the batch, or has only made
  the hart serialized or entered debug mode after a single step, or is stopped by a trigger;
  \<open>potential\<close> weighs the instructions left against the first of these, so that only triggers can keep the
  loop from returning. What the loop relies on is the law \<open>signals_ok\<close> of the instructions: they keep the
  addresses of the returns even, the next address is even and a signal is not, and an instruction asks to be serialized
  only when the hart is not.
\<close>

section \<open>The law of the instructions\<close>

text \<open>The addresses a return takes the hart to are even; with compressed instructions \<open>pc_alignment_mask\<close> clears no bit.\<close>

definition even_pcs :: "csrs \<Rightarrow> bool" where
  "even_pcs c = (even (pc_reg c) \<and> even (mepc c) \<and> even (sepc c) \<and> even (vsepc c) \<and> even (dpc c))"

definition address_or_signal :: "u64 \<Rightarrow> 'f machine \<Rightarrow> bool" where
  "address_or_signal y m =
     ((even y \<or> y \<in> {PC_SERIALIZE_BEFORE, PC_SERIALIZE_AFTER, PC_SERIALIZE_WFI}) \<and>
      (y = PC_SERIALIZE_BEFORE \<longrightarrow> \<not> serialized (csr (core m))))"

text \<open>What an instruction, with what comes before it, gives.\<close>

definition tame :: "(exn + u64) \<times> 'f machine \<Rightarrow> 'f machine \<Rightarrow> bool" where
  "tame r m =
     ((tags_ok m \<longrightarrow> tags_ok (snd r)) \<and>
      (even_pcs (csr (core m)) \<longrightarrow>
         even_pcs (csr (core (snd r))) \<and> (\<forall>y. fst r = Inr y \<longrightarrow> address_or_signal y m)))"

definition signals_ok :: "'f calls \<Rightarrow> bool" where
  "signals_ok call =
     (\<forall>f insn pc m. (tags_ok m \<longrightarrow> tags_ok (snd (call f insn pc m))) \<and> (even pc \<longrightarrow> tame (call f insn pc m) m))"

text \<open>A machine between two passes.\<close>

definition ready :: "'f machine \<Rightarrow> bool" where
  "ready m = (even_pcs (csr (core m)) \<and> tags_ok m)"

lemma quiet_even: "quiet r m \<Longrightarrow> even_pcs (csr (core (snd r))) = even_pcs (csr (core m))"
  by (auto simp: quiet_def even_pcs_def)

lemma tame_call: "signals_ok call \<Longrightarrow> even pc \<Longrightarrow> tame (call f insn pc m) m"
  by (simp add: signals_ok_def)

lemma call_tags: "signals_ok call \<Longrightarrow> tags_ok m \<Longrightarrow> tags_ok (snd (call f insn pc m))"
  by (simp add: signals_ok_def)

lemma tame_bind:
  assumes "quiet (r m) m" "\<And>x m'. tame (k x m') m'"
  shows "tame (bind_run r k m) m"
proof (cases "r m")
  case (Pair x m')
  show ?thesis
  proof (cases x)
    case (Inl e)
    then show ?thesis using quietD(4) [OF assms(1)] quiet_even [OF assms(1)] Pair by (simp add: bind_run_def tame_def)
  next
    case (Inr y)
    then show ?thesis using quietD [OF assms(1)] quiet_even [OF assms(1)] assms(2) [of y m'] Pair
      by (simp add: bind_run_def tame_def address_or_signal_def)
  qed
qed

lemma quiet_assert_int: "quiet (assert_int_run intrs a m) m"
proof -
  have "\<exists>v. csr_update (mip_update f) p = csr_update (mip_update (\<lambda>_. v)) p" for f p
    by (rule exI [of _ "f (mip (csr p))"]) simp
  then show ?thesis
    using same_mip [of "core m"] by (auto simp: assert_int_run_def assert_int_def quiet_def Let_def tags_ok_def split: option.split)
qed

lemma tame_slow_insn: "signals_ok call \<Longrightarrow> even pc \<Longrightarrow> tame (slow_insn call intrs pc m) m"
  unfolding slow_insn_def
  by (intro tame_bind quiet_assert_int quiet_load_insn) (auto simp: tame_call)

lemma tame_fast_insn:
  "signals_ok call \<Longrightarrow> even pc \<Longrightarrow> tame (bind_run (assert_int_run intrs pc) (\<lambda>_. call f insn pc) m) m"
  by (intro tame_bind quiet_assert_int) (auto simp: tame_call)

section \<open>Progress\<close>

definition weight :: "hart \<Rightarrow> nat" where
  "weight p = (if serialized (csr p) then 0 else if step_state (csr p) = STEP_STEPPED then 2 else 1)"

definition potential :: "locals \<Rightarrow> hart \<Rightarrow> nat" where
  "potential l p = 3 * (l_n l - l_instret l) + weight p"

lemma weight_le: "weight p \<le> 2"
  by (simp add: weight_def)

text \<open>The batch is done, or the machine is ready and the potential is below \<open>b\<close>; a trigger leaves it ready.\<close>

definition progress :: "flow \<times> locals \<times> 'f machine \<Rightarrow> nat \<Rightarrow> nat \<Rightarrow> bool" where
  "progress r b n =
     (case r of
        (Next, l, m) \<Rightarrow> l_n l \<le> l_instret l
      | (Break, l, m) \<Rightarrow> l_n l \<le> l_instret l \<or> ready m \<and> potential l (core m) < b
      | (Raise (Trigger t), l, m) \<Rightarrow> ready m \<and> l_n l = n \<and> even (l_pc l)
      | (Raise (Trap t), l, m) \<Rightarrow> True)"

lemma progress_mono: "progress r b n \<Longrightarrow> b \<le> c \<Longrightarrow> progress r c n"
  by (auto simp: progress_def split: flow.splits prod.splits exn.splits)

text \<open>Retiring at \<open>pc\<close>: the next instruction, or the end of the pass.\<close>

lemma advance_pc_cases:
  assumes "ready m" "l_instret l < l_n l" "l_pc l = PC_SERIALIZE_BEFORE \<Longrightarrow> 0 < v"
  shows "case advance_pc l m of
      (Next, l', m') \<Rightarrow> l_instret l' = l_instret l + 1 \<and> l_n l' = l_n l \<and> even (l_pc l') \<and> ready m'
    | r \<Rightarrow> progress r (3 * (l_n l - l_instret l) + v) n"
proof -
  have c: "ready (m\<lparr>core := csr_update (serialized_update (\<lambda>_. True)) (core m)\<rparr>)"
    "even pc \<Longrightarrow> ready (m\<lparr>core := csr_update (pc_reg_update (\<lambda>_. pc)) (core m)\<rparr>)" for pc
    using assms(1) by (simp_all add: ready_def tags_ok_def even_pcs_def)
  have e: "\<not> invalid_pc pc \<Longrightarrow> even pc" for pc by (simp add: invalid_pc_def and_one_eq even_iff_mod_2_eq_zero)
  have w: "weight (csr_update (serialized_update (\<lambda>_. True)) (core m)) = 0" by (simp add: weight_def)
  have "3 * (l_n l - Suc (l_instret l)) + weight (core m) < 3 * (l_n l - l_instret l) + v"
    using assms(2) weight_le [of "core m"] by linarith
  then show ?thesis
    using assms c w e by (auto simp: advance_pc_def Let_def progress_def potential_def)
qed

lemma ready_set_step: "ready (m\<lparr>core := set_step s (core m)\<rparr>) = ready m"
  by (simp add: ready_def tags_ok_def set_step_def even_pcs_def)

lemma debug_entry: "even_pcs (csr p) \<Longrightarrow> even_pcs (csr (enter_debug_mode c p))" "weight (enter_debug_mode c p) = weight p"
  by (simp_all add: enter_debug_mode_def set_privilege_def call_mmu_def weight_def even_pcs_def Let_def)

lemma core_on_core_mmu: "core (on_core_mmu f m) = (f (core m))\<lparr>mmu_calls := []\<rparr>"
  by (simp add: on_core_mmu_def mmu_answer_def)

lemma ready_answer: "even_pcs (csr p) \<Longrightarrow> tags_ok m \<Longrightarrow> ready (mmu_answer (m\<lparr>core := p\<rparr>))"
  using answer_frame [of "m\<lparr>core := p\<rparr>"] by (simp add: ready_def tags_ok_def)

lemma ready_debug: "ready m \<Longrightarrow> ready (on_core_mmu (enter_debug_mode c) m)"
  unfolding on_core_mmu_def by (rule ready_answer [OF debug_entry(1)]) (simp_all add: ready_def)

lemma weight_calls [simp]: "weight (p\<lparr>mmu_calls := c\<rparr>) = weight p"
  by (simp add: weight_def)

lemma slow_progress:
  assumes "signals_ok call"
  shows "l_instret l + k = l_n l \<Longrightarrow> even (l_pc l) \<Longrightarrow> ready m \<Longrightarrow>
    progress (slow_loop call intrs k l m) (potential l (core m)) (l_n l)"
proof (induction k arbitrary: l m)
  case 0
  then show ?case by (simp add: progress_def)
next
  case (Suc k)
  let ?p = "core m"
  let ?stepped = "\<not> serialized (csr ?p) \<and> step_state (csr ?p) = STEP_STEPPED"
  define m1 where "m1 = (if ?stepped then m\<lparr>core := set_step STEP_NONE ?p\<rparr> else m)"
  have c1: "ready m1" "serialized (csr (core m1)) = serialized (csr ?p)"
    using Suc.prems(3) ready_set_step [where m = m] by (auto simp: m1_def set_step_def)
  show ?case
  proof (cases "?stepped \<and> \<not> debug_mode (csr ?p)")
    case True
    have "weight (core m1) = 1" "weight ?p = 2" using True by (simp_all add: m1_def weight_def set_step_def)
    then have "potential l (core (on_core_mmu (enter_debug_mode DCSR_CAUSE_STEP) m1)) < potential l ?p"
      by (simp add: potential_def core_on_core_mmu debug_entry)
    moreover have "slow_loop call intrs (Suc k) l m = (Break, l, on_core_mmu (enter_debug_mode DCSR_CAUSE_STEP) m1)"
      unfolding slow_loop.simps Let_def m1_def [symmetric] using True by (simp only: if_True simp_thms)
    moreover have "ready (on_core_mmu (enter_debug_mode DCSR_CAUSE_STEP) m1)"
      by (rule ready_debug [OF c1(1)])
    ultimately show ?thesis by (simp only: progress_def prod.case flow.case simp_thms)
  next
    case False
    define m2 where "m2 = (if step_state (csr (core m1)) = STEP_STEPPING then m1\<lparr>core := set_step STEP_STEPPED (core m1)\<rparr> else m1)"
    have c2: "ready m2" "serialized (csr (core m2)) = serialized (csr ?p)"
      using c1 ready_set_step [where m = m1] by (auto simp: m2_def set_step_def)
    let ?r = "slow_insn call intrs (l_pc l) m2"
    have t: "tame ?r m2" by (rule tame_slow_insn [OF assms Suc.prems(2)])
    have e: "slow_loop call intrs (Suc k) l m =
      (case run_insn (slow_insn call intrs (l_pc l)) l m2 of (Next, l, m) \<Rightarrow> slow_loop call intrs k l m | r \<Rightarrow> r)"
      unfolding slow_loop.simps Let_def m1_def [symmetric] m2_def [symmetric] using False by (simp only: if_False)
    show ?thesis
    proof (cases ?r)
      case (Pair x m3)
      show ?thesis
      proof (cases x)
        case (Inl y)
        then show ?thesis using t c2(1) Pair Suc.prems(2) unfolding e
          by (cases y) (simp_all add: run_insn_def tame_def progress_def ready_def)
      next
        case (Inr pc)
        let ?l = "l\<lparr>l_pc := pc\<rparr>"
        have c3: "ready m3" and b: "pc = PC_SERIALIZE_BEFORE \<Longrightarrow> 0 < weight ?p"
          using t Pair Inr c2 by (auto simp: tame_def address_or_signal_def weight_def ready_def)
        have "potential ?l ?p = 3 * (l_n ?l - l_instret ?l) + weight ?p" by (simp add: potential_def)
        note a = advance_pc_cases [of m3 ?l "weight ?p" "l_n l", OF c3 _ b, folded this, simplified]
        have lt: "l_instret l < l_n l" using Suc.prems(1) by simp
        obtain f l' m' where f: "advance_pc ?l m3 = (f, l', m')" by (cases "advance_pc ?l m3")
        have r: "run_insn (slow_insn call intrs (l_pc l)) l m2 = (f, l', m')" by (simp add: run_insn_def Pair Inr f)
        have pot: "potential ?l ?p = potential l ?p" by (simp add: potential_def)
        show ?thesis
        proof (cases f)
          case Next
          then have n: "l_instret l' = Suc (l_instret l)" "l_n l' = l_n l" "even (l_pc l')" "ready m'" using a [OF lt] f by simp_all
          have "progress (slow_loop call intrs k l' m') (potential l' (core m')) (l_n l')"
            using Suc.IH [of l' m'] Suc.prems(1) n by simp
          moreover have "potential l' (core m') \<le> potential l ?p"
            using n lt weight_le [of "core m'"] unfolding potential_def by linarith
          ultimately show ?thesis unfolding e r Next using n(2) by (simp add: progress_mono)
        next
          case Break
          then show ?thesis using a [OF lt] f pot unfolding e r by simp
        next
          case (Raise x3)
          then show ?thesis using a [OF lt] f pot unfolding e r by simp
        qed
      qed
    qed
  qed
qed

text \<open>The cases of the switch stop before the batch is done.\<close>

lemma fast_cases_progress:
  assumes "signals_ok call"
  shows "l_instret l < l_n l \<Longrightarrow> even (l_pc l) \<Longrightarrow> ready m \<Longrightarrow> 0 < c \<Longrightarrow> fast_cases call intrs c e l m = (f, l', m') \<Longrightarrow>
    (case f of Next \<Rightarrow> l_instret l \<le> l_instret l' \<and> l_instret l' < l_n l' \<and> l_n l' = l_n l \<and> ready m' \<and>
         (l_pc l' = PC_SERIALIZE_BEFORE \<longrightarrow> l_instret l < l_instret l' \<or> \<not> serialized (csr (core m)))
     | Break \<Rightarrow> False | Raise (Trigger t) \<Rightarrow> ready m' \<and> l_n l' = l_n l \<and> even (l_pc l') | Raise (Trap t) \<Rightarrow> True)"
proof (induction c arbitrary: e l m)
  case (Suc c)
  let ?run = "bind_run (assert_int_run intrs (l_pc l)) (\<lambda>_. call (ic_func e) (ic_insn e) (l_pc l)) m"
  have t: "tame ?run m" by (rule tame_fast_insn [OF assms Suc.prems(2)])
  show ?case
  proof (cases ?run)
    case (Pair x m1)
    show ?thesis
    proof (cases x)
      case (Inl y)
      then show ?thesis using Suc.prems(2,3,5) t Pair by (auto simp: tame_def ready_def split: exn.split)
    next
      case (Inr pc)
      have c: "ready m1" "pc = PC_SERIALIZE_BEFORE \<Longrightarrow> \<not> serialized (csr (core m))"
        and v: "even pc \<or> pc \<in> {PC_SERIALIZE_BEFORE, PC_SERIALIZE_AFTER, PC_SERIALIZE_WFI}"
        using t Pair Inr Suc.prems(3) by (auto simp: tame_def address_or_signal_def ready_def)
      let ?e = "icache (mmu m1) (ic_next e)"
      let ?l = "l\<lparr>l_pc := pc, l_instret := l_instret l + 1\<rparr>"
      let ?m = "m1\<lparr>core := csr_update (pc_reg_update (\<lambda>_. pc)) (core m1)\<rparr>"
      show ?thesis
      proof (cases "c = 0 \<or> ic_tag ?e \<noteq> pc \<or> l_instret l + 1 = l_n l")
        case True
        then show ?thesis using Suc.prems c Pair Inr by (auto simp: Let_def)
      next
        case False
        then have "fast_cases call intrs c ?e ?l ?m = (f, l', m')"
          using Suc.prems(5) Pair Inr by (simp add: Let_def)
        moreover have "even (ic_tag ?e) \<or> ic_tag ?e = - 1" using c(1) by (simp add: ready_def tags_ok_def)
        then have "even pc" using v False by auto
        then have "ready ?m" "even (l_pc ?l)" using c(1) by (simp_all add: ready_def tags_ok_def even_pcs_def)
        moreover have "l_instret ?l < l_n ?l" "0 < c" using False Suc.prems(1) by simp_all
        ultimately show ?thesis using Suc.IH [of ?l ?m ?e] by (auto split: flow.splits exn.splits)
      qed
    qed
  qed
qed simp

lemma fast_progress:
  assumes "signals_ok call"
  shows "l_n l \<le> l_instret l + k \<Longrightarrow> even (l_pc l) \<Longrightarrow> ready m \<Longrightarrow>
    progress (fast_loop call intrs k l m) (potential l (core m)) (l_n l)"
proof (induction k arbitrary: l m)
  case 0
  then show ?case by (simp add: progress_def)
next
  case (Suc k)
  show ?case
  proof (cases "l_n l \<le> l_instret l")
    case True
    then show ?thesis by (simp add: progress_def)
  next
    case False
    have s: "quiet (access_icache (l_pc l) m) m" by (rule quiet_access_icache [OF Suc.prems(2)])
    obtain x m1 where x: "access_icache (l_pc l) m = (x, m1)" by (cases "access_icache (l_pc l) m")
    show ?thesis
    proof (cases x)
      case (Inl y)
      then show ?thesis using False x quietD(4) [OF s] quiet_even [OF s] Suc.prems(2,3)
        by (cases y) (simp_all add: progress_def ready_def)
    next
      case (Inr e)
      have c1: "ready m1" "serialized (csr (core m1)) = serialized (csr (core m))"
        using quietD [OF s] quiet_even [OF s] x Suc.prems(3) by (simp_all add: ready_def)
      have i: "0 < ICACHE_ENTRIES - icache_index (l_pc l)"
        unfolding icache_index_def by (simp add: unat_mod)
      obtain f l2 m2 where f: "fast_cases call intrs (ICACHE_ENTRIES - icache_index (l_pc l)) e l m1 = (f, l2, m2)"
        by (cases "fast_cases call intrs (ICACHE_ENTRIES - icache_index (l_pc l)) e l m1")
      note fc = fast_cases_progress [OF assms _ Suc.prems(2) c1(1) i f]
      have lt: "l_instret l < l_n l" using False by simp
      show ?thesis
      proof (cases f)
        case Next
        define v where "v = (if l_instret l < l_instret l2 then 3 else weight (core m))"
        have n: "l_instret l \<le> l_instret l2" "l_instret l2 < l_n l2" "l_n l2 = l_n l" "ready m2"
          "l_pc l2 = PC_SERIALIZE_BEFORE \<Longrightarrow> 0 < v"
          using fc [OF lt] c1(2) Next by (auto simp: v_def weight_def)
        note a = advance_pc_cases [OF n(4,2,5), where n = "l_n l"]
        have b: "3 * (l_n l2 - l_instret l2) + v \<le> potential l (core m)"
        proof (cases "l_instret l < l_instret l2")
          case True
          then have "3 * (l_n l - l_instret l2) + 3 \<le> 3 * (l_n l - l_instret l)" using n(2,3) by linarith
          then show ?thesis using True n(3) by (simp add: potential_def v_def)
        next
          case False
          then have "l_instret l2 = l_instret l" using n(1) by simp
          then show ?thesis using n(3) by (simp add: potential_def v_def)
        qed
        obtain g l3 m3 where g: "advance_pc l2 m2 = (g, l3, m3)" by (cases "advance_pc l2 m2")
        have e: "fast_loop call intrs (Suc k) l m = (case advance_pc l2 m2 of (Next, l, m) \<Rightarrow> fast_loop call intrs k l m | r \<Rightarrow> r)"
          using False x Inr f Next by simp
        show ?thesis
        proof (cases g)
          case Next
          then have n3: "l_instret l3 = Suc (l_instret l2)" "l_n l3 = l_n l2" "even (l_pc l3)" "ready m3" using a g by simp_all
          have "progress (fast_loop call intrs k l3 m3) (potential l3 (core m3)) (l_n l3)"
            using Suc.IH [of l3 m3] Suc.prems(1) n(1,3) n3 by simp
          moreover have "potential l3 (core m3) \<le> potential l (core m)"
            using n n3 weight_le [of "core m3"] unfolding potential_def by linarith
          ultimately show ?thesis unfolding e g Next using n(3) n3(2) by (simp add: progress_mono)
        next
          case Break
          then show ?thesis using a b g unfolding e by (simp add: progress_mono)
        next
          case (Raise y)
          then show ?thesis using a b g unfolding e by (simp add: progress_mono)
        qed
      next
        case Break
        then show ?thesis using fc [OF lt] by simp
      next
        case (Raise y)
        then show ?thesis using fc [OF lt] False x Inr f by (cases y) (simp_all add: progress_def)
      qed
    qed
  qed
qed

section \<open>Triggers\<close>

lemma pcs_kept [simp]:
  "pc_reg (csr (set_virt v p)) = pc_reg (csr p)" "mepc (csr (set_virt v p)) = mepc (csr p)"
  "sepc (csr (set_virt v p)) = sepc (csr p)" "vsepc (csr (set_virt v p)) = vsepc (csr p)" "dpc (csr (set_virt v p)) = dpc (csr p)"
  "csr (set_privilege r p) = csr p" "csr (write_mstatus s p) = csr p"
  by (simp_all add: set_virt_def sync_guest_def set_privilege_def call_mmu_def write_mstatus_def Let_def)

lemma take_trap_even:
  assumes "take_trap t epc p = Inr q" "even epc" "even_pcs (csr p)"
  shows "even_pcs (csr q)"
  using assms debug_entry(1) [of p]
  unfolding take_trap_def Let_def trap_to_vs_def trap_to_hs_def trap_to_m_def set_csr_def set_csr_switch_def
  by (auto simp: even_pcs_def even_trap_vector split: if_split_asm)

lemma trigger_action_ready:
  assumes "trigger_action t l m = (Next, l', m')" "ready m" "even (l_pc l)"
  shows "ready m' \<and> l' = l"
proof (cases "take_trap (Trap_breakpoint (tm_address t)) (l_pc l) (core m)")
  case (Inl x)
  then show ?thesis using assms(1) ready_debug [OF assms(2)] by (auto simp: trigger_action_def Let_def split: if_split_asm)
next
  case (Inr q)
  have "ready (mmu_answer (m\<lparr>core := q\<rparr>))"
    using take_trap_even [OF Inr assms(3)] assms(2) by (intro ready_answer) (simp_all add: ready_def)
  then show ?thesis using Inr assms(1) ready_debug [OF assms(2)] by (auto simp: trigger_action_def Let_def split: if_split_asm)
qed

text \<open>A stop at a trigger leaves the machine ready, and no more to do.\<close>

lemma trigger_handler_ready:
  assumes "signals_ok call" "ready m" "even (l_pc l)" "trigger_handler call t l m = (Next, l', m')"
  shows "ready m' \<and> l_n l' - l_instret l' \<le> l_n l - l_instret l"
proof (cases "matched_trigger (mmu m) = None")
  case True
  then show ?thesis using assms(4) trigger_action_ready [OF _ assms(2,3)] by (auto simp: trigger_handler_def)
next
  case False
  let ?r = "bind_run (load_insn (l_pc l)) (\<lambda>(f, insn). call f insn (l_pc l))"
  have tame: "tame (?r m) m"
    by (intro tame_bind quiet_load_insn) (auto simp: tame_call [OF assms(1,3)])
  obtain l1 m1 where r: "run_insn ?r l m = (Next, l1, m1)"
    and a: "trigger_action t l1 (m1\<lparr>mmu := (mmu m1)\<lparr>matched_trigger := None\<rparr>\<rparr>) = (Next, l', m')"
    using False assms(4) by (auto simp: trigger_handler_def split: flow.split_asm prod.split_asm)
  obtain x m2 where x: "?r m = (x, m2)" by (cases "?r m")
  have m2: "ready m2" using tame x assms(2) by (simp add: tame_def ready_def)
  have e: "\<not> invalid_pc pc \<Longrightarrow> even pc" for pc by (simp add: invalid_pc_def and_one_eq even_iff_mod_2_eq_zero)
  have "ready m1 \<and> l_n l1 = l_n l \<and> l_instret l1 = Suc (l_instret l) \<and> even (l_pc l1)"
    using r x m2 e by (auto simp: run_insn_def advance_pc_def Let_def ready_def tags_ok_def even_pcs_def split: sum.split_asm if_split_asm)
  moreover from this have "ready (m1\<lparr>mmu := (mmu m1)\<lparr>matched_trigger := None\<rparr>\<rparr>)" by (simp add: ready_def tags_ok_def)
  ultimately show ?thesis using trigger_action_ready [OF a] by simp
qed

section \<open>The passes and the loop\<close>

lemma try_progress:
  assumes "signals_ok call" "ready m"
  shows "progress (try_block call intrs debug n m) (3 * n + weight (core m)) n"
proof -
  let ?l = "\<lparr>l_pc = pc_reg (csr (core m)), l_instret = 0, l_n = n\<rparr>"
  have "potential ?l (core m) = 3 * n + weight (core m)" by (simp add: potential_def)
  moreover have "even (l_pc ?l)" using assms(2) by (simp add: ready_def even_pcs_def)
  ultimately show ?thesis
    using slow_progress [OF assms(1), of ?l n m] fast_progress [OF assms(1), of ?l n m] assms(2)
    by (cases "take_pending_interrupt (core m)") (simp_all add: try_block_def Let_def, simp add: progress_def)
qed

lemma trap_handler_ends: "trap_handler t l m = (None, l', m') \<Longrightarrow> l_n l' = l_instret l'"
  by (auto simp: trap_handler_def Let_def split: if_split_asm sum.split_asm)

definition stopped_by_trigger :: "'f calls \<Rightarrow> (u64 \<rightharpoonup> u64) \<Rightarrow> bool \<Rightarrow> nat \<Rightarrow> 'f machine \<Rightarrow> bool" where
  "stopped_by_trigger call intrs debug n m =
     (case try_block call intrs debug n m of (Raise (Trigger t), l, m') \<Rightarrow> True | _ \<Rightarrow> False)"

lemma trigger_pass:
  assumes "signals_ok call" "ready m1" "trigger_handler call u l m1 = (f, l2, m2)" "l_n l = n"
    "even (l_pc l)"
    "(case (f, l2, m2) of (Next, l, m) \<Rightarrow> finish_pass l m | (Break, l, m) \<Rightarrow> (Ends, m) | (Raise x, l, m) \<Rightarrow> (Dies x, m)) = (Goes_on n', m')"
  shows "n' \<le> n \<and> ready m'"
proof -
  have f: "f = Next" "n' = l_n l2 - l_instret l2" "m' = retire (l_instret l2) m2"
    using assms(6) by (cases f; simp add: finish_pass_def)+
  then have "ready m2 \<and> l_n l2 - l_instret l2 \<le> l_n l - l_instret l"
    using trigger_handler_ready [OF assms(1,2,5)] assms(3) by simp
  moreover from this have "n' \<le> n" using f(2) assms(4) by linarith
  ultimately show ?thesis using f(3) by (simp add: ready_def retire_def tags_ok_def even_pcs_def)
qed

lemma pass_potential:
  assumes "signals_ok call" "ready m" "pass call intrs debug n m = (Goes_on n', m')"
  shows "n' \<le> n \<and> (n' = 0 \<or> ready m' \<and>
    (stopped_by_trigger call intrs debug n m \<or> 3 * n' + weight (core m') < 3 * n + weight (core m)))"
proof -
  obtain f l m1 where t: "try_block call intrs debug n m = (f, l, m1)" by (cases "try_block call intrs debug n m")
  have pr: "progress (f, l, m1) (3 * n + weight (core m)) n" using try_progress [OF assms(1,2), of intrs debug n] t by simp
  have k: "ready (retire i m1) = ready m1" "weight (core (retire i m1)) = weight (core m1)" for i
    by (simp_all add: retire_def ready_def tags_ok_def weight_def even_pcs_def)
  show ?thesis
  proof (cases f)
    case (Raise x)
    show ?thesis
    proof (cases x)
      case (Trap u)
      then show ?thesis
        using assms(3) t Raise trap_handler_ends [of u l m1]
        by (auto simp: pass_def finish_pass_def split: option.split_asm prod.split_asm)
    next
      case (Trigger u)
      obtain g l2 m2 where h: "trigger_handler call u l m1 = (g, l2, m2)" by (cases "trigger_handler call u l m1")
      have "ready m1" "l_n l = n" "even (l_pc l)" using pr Raise Trigger by (simp_all add: progress_def)
      then have "n' \<le> n \<and> ready m'"
        using trigger_pass [OF assms(1) _ h] assms(3) t Raise Trigger h by (simp add: pass_def)
      then show ?thesis using t Raise Trigger by (simp add: stopped_by_trigger_def)
    qed
  next
    case Next
    then show ?thesis using pr assms(3) t by (auto simp: pass_def finish_pass_def progress_def)
  next
    case Break
    have w: "a \<le> n" if "3 * a + weight p < 3 * n + weight q" for a p q
      using that weight_le [of q] by linarith
    show ?thesis
      using Break pr assms(3) t k w [of "l_n l - l_instret l" "core m1" "core m"]
      by (auto simp: pass_def finish_pass_def progress_def potential_def)
  qed
qed

text \<open>How many of the first \<open>fuel\<close> passes a trigger stops.\<close>

fun trigger_stops :: "nat \<Rightarrow> 'f calls \<Rightarrow> (u64 \<rightharpoonup> u64) \<Rightarrow> bool \<Rightarrow> nat \<Rightarrow> 'f machine \<Rightarrow> nat" where
  "trigger_stops 0 call intrs debug n m = 0"
| "trigger_stops (Suc fuel) call intrs debug n m =
     (if n = 0 then 0
      else of_bool (stopped_by_trigger call intrs debug n m) +
           (case pass call intrs debug n m of (Goes_on n', m') \<Rightarrow> trigger_stops fuel call intrs debug n' m' | _ \<Rightarrow> 0))"

lemma step_loop_returns:
  assumes "signals_ok call"
  shows "ready m \<Longrightarrow> n \<le> N \<Longrightarrow> 3 * n + weight (core m) + (3 * N + 3) * trigger_stops fuel call intrs debug n m < fuel \<Longrightarrow>
    step_loop fuel call intrs debug n m \<noteq> None"
proof (induction fuel arbitrary: n m)
  case (Suc fuel)
  show ?case
  proof (cases "n = 0")
    case True
    then show ?thesis by (simp add: step_loop.simps)
  next
    case False
    obtain r m' where r: "pass call intrs debug n m = (r, m')" by (cases "pass call intrs debug n m")
    show ?thesis
    proof (cases r)
      case (Goes_on n')
      let ?s = "trigger_stops fuel call intrs debug n' m'" and ?b = "stopped_by_trigger call intrs debug n m"
      have g: "n' \<le> n" "n' = 0 \<or> ready m' \<and> (?b \<or> 3 * n' + weight (core m') < 3 * n + weight (core m))"
        using pass_potential [OF assms Suc.prems(1)] r Goes_on by blast+
      have s: "trigger_stops (Suc fuel) call intrs debug n m = of_bool ?b + ?s" using False r Goes_on by simp
      have "step_loop fuel call intrs debug n' m' \<noteq> None"
      proof (cases "n' = 0")
        case True
        then show ?thesis by (simp add: step_loop.simps)
      next
        case False
        have "3 * n' + weight (core m') + (3 * N + 3) * ?s < fuel"
        proof (cases ?b)
          case True
          then have "(3 * N + 3) + (3 * N + 3) * ?s < Suc fuel" using Suc.prems(3) unfolding s by simp
          moreover have "3 * n' + weight (core m') < 3 * N + 3" using g(1) Suc.prems(2) weight_le [of "core m'"] by linarith
          ultimately show ?thesis by linarith
        next
          case b: False
          then have "3 * n' + weight (core m') < 3 * n + weight (core m)" using g(2) False by simp
          then show ?thesis using Suc.prems(3) b unfolding s by simp
        qed
        then show ?thesis using g False Suc.IH [of m' n'] Suc.prems(2) by simp
      qed
      then show ?thesis using False r Goes_on by (simp add: step_loop.simps)
    qed (use False r in \<open>simp_all add: step_loop.simps\<close>)
  qed
qed simp

text \<open>The machine a batch begins with, after a request to halt.\<close>

definition entered :: "halt_request \<Rightarrow> 'f machine \<Rightarrow> 'f machine" where
  "entered r m = (case halt_cause r (core m) of None \<Rightarrow> m | Some c \<Rightarrow> on_core_mmu (enter_debug_mode c) m)"

lemma step_enough_fuel:
  assumes "signals_ok call" "ready m" "(3 * n + 3) * (trigger_stops fuel call intrs debug n (entered r m) + 1) \<le> fuel"
  shows "step fuel call intrs r debug n m \<noteq> None"
proof -
  have "ready (entered r m)" using assms(2) ready_debug by (auto simp: entered_def split: option.split)
  moreover have "3 * n + weight (core (entered r m)) + (3 * n + 3) * trigger_stops fuel call intrs debug n (entered r m) < fuel"
    using assms(3) weight_le [of "core (entered r m)"] by (simp add: add_mult_distrib2)
  ultimately show ?thesis
    unfolding step_def entered_def [symmetric] by (intro step_loop_returns [OF assms(1), where N = n]) simp_all
qed

end
