(* ===== verification/RV_Instructions.thy ===== *)
theory RV_Instructions
  imports RV_Step_Correct RV_FP RV_Opcodes RV_System_Props
begin

text \<open>
  What every modelled instruction keeps, over the lists of all of them: the invariant of the registers and the
  next address. The system instructions may ask the loop for a signal instead of an address, and
  change what the invariant does not read; the memory instructions run on the machine. The functions
  the decoder's table names are put together to \<open>modelled_calls\<close>, which obeys the law of the loop.
\<close>

section \<open>System instructions\<close>

text \<open>The next address is the following instruction, or the loop is asked to serialize the hart, or to go on
  at \<open>state.pc\<close>; the registers stay well-formed and the addresses of the returns even, also when the
  instruction traps.\<close>

definition sys_next :: "u64 \<Rightarrow> u64 \<Rightarrow> hart \<Rightarrow> bool" where
  "sys_next npc x p =
     (x = npc \<or> x = PC_SERIALIZE_BEFORE \<and> \<not> serialized (csr p) \<or> x = PC_SERIALIZE_AFTER)"

definition sys_kept :: "nat \<Rightarrow> u64 \<Rightarrow> hart \<Rightarrow> hart \<Rightarrow> bool" where
  "sys_kept xlen npc p q =
     ((hart_ok xlen p \<longrightarrow> hart_ok xlen q) \<and> (even npc \<longrightarrow> even_pcs (csr p) \<longrightarrow> even_pcs (csr q)))"

definition sys_preserves :: "sys_body \<Rightarrow> bool" where
  "sys_preserves f =
     (\<forall>xlen insn pc npc p. xlen \<in> {32, 64} \<longrightarrow>
        (case f xlen insn pc npc p of
           Inl (t, q) \<Rightarrow> sys_kept xlen npc p q
         | Inr (x, q) \<Rightarrow> sys_next npc x p \<and> sys_kept xlen npc p q))"

lemma sys_preservesI:
  assumes "\<And>xlen insn pc npc p. xlen \<in> {32, 64} \<Longrightarrow>
    (case f xlen insn pc npc p of
       Inl (t, q) \<Rightarrow> sys_kept xlen npc p q
     | Inr (x, q) \<Rightarrow> sys_next npc x p \<and> sys_kept xlen npc p q)"
  shows "sys_preserves f"
  using assms unfolding sys_preserves_def by blast

lemma hart_ok_frame: "same_frame p q \<Longrightarrow> hart_ok xlen q = hart_ok xlen p"
  by (simp add: same_frame_def hart_ok_def hart_regs_def)

lemma hart_ok_kept [simp]:
  "hart_ok xlen (csr_update f p) = hart_ok xlen p" "hart_ok xlen (set_pc_and_serialize x p) = hart_ok xlen p"
  "hart_ok xlen (call_mmu c p) = hart_ok xlen p" "hart_ok xlen (set_privilege r p) = hart_ok xlen p"
  "hart_ok xlen (set_virt v p) = hart_ok xlen p"
  by (simp_all add: hart_ok_def hart_regs_def set_pc_and_serialize_def set_privilege_def set_virt_def sync_guest_def call_mmu_def Let_def)

lemma set_csr_hart_ok: "set_csr which v p = Inr q \<Longrightarrow> hart_ok xlen q = hart_ok xlen p"
  using set_csr_frame [of p which v] by (intro hart_ok_frame) simp

lemma even_pcs_update: "(even_pcs (csr p) \<Longrightarrow> even_pcs (f (csr p))) \<Longrightarrow> even_pcs (csr p) \<Longrightarrow> even_pcs (csr (csr_update f p))"
  by simp

lemma even_pcs_parts [simp]:
  "even_pcs (csr (set_pmpaddr i v p)) = even_pcs (csr p)" "even_pcs (csr (set_pmpcfg n v p)) = even_pcs (csr p)"
  "even_pcs (csr (write_misa v p)) = even_pcs (csr p)" "even_pcs (csr (write_tdata1 v p)) = even_pcs (csr p)"
  "even_pcs (csr (write_tdata2 v p)) = even_pcs (csr p)" "even_pcs (csr (write_dcsr v p)) = even_pcs (csr p)"
  "even_pcs (csr (dirty_fp_state n p)) = even_pcs (csr p)" "even_pcs (csr (dirty_vs_state n p)) = even_pcs (csr p)"
proof -
  have "even_pcs (csr (set_pmpcfg_entry v i0 i q)) = even_pcs (csr q)" for i0 i q
    by (simp add: set_pmpcfg_entry_def even_pcs_def)
  then have "even_pcs (csr (fold (set_pmpcfg_entry v i0) xs q)) = even_pcs (csr q)" for i0 xs q
    by (induction xs arbitrary: q) simp_all
  then show "even_pcs (csr (set_pmpcfg n v p)) = even_pcs (csr p)" by (simp add: set_pmpcfg_def Let_def)
qed (simp_all add: set_pmpaddr_def write_misa_def write_tdata1_def write_tdata2_def write_dcsr_def dirty_fp_state_def
      dirty_vs_state_def even_pcs_def Let_def)

lemma dirty_csr [simp]: "csr (dirty_fp_state n p) = csr p" "csr (dirty_vs_state n p) = csr p"
  by (simp_all add: dirty_fp_state_def dirty_vs_state_def)

lemma set_csr_even: "even_pcs (csr p) \<Longrightarrow> returns (\<lambda>q. even_pcs (csr q)) (set_csr which v p)"
proof -
  assume e: "even_pcs (csr p)"
  have s: "returns (\<lambda>q. even_pcs (csr q)) (set_csr_switch c w p)" for c w
    unfolding set_csr_switch_def
    by (intro returns_if; simp add: e; use e in \<open>simp add: even_pcs_def\<close>)
  show ?thesis unfolding set_csr_def Let_def by (intro returns_if s; simp add: e)
qed

lemma sys_kept_refl [simp]: "sys_kept xlen npc p p"
  by (simp add: sys_kept_def)

lemma sys_kept_trans: "sys_kept xlen npc p q \<Longrightarrow> sys_kept xlen npc q r \<Longrightarrow> sys_kept xlen npc p r"
  by (auto simp: sys_kept_def)

lemma sys_kept_set_csr: "set_csr which v p = Inr q \<Longrightarrow> sys_kept xlen npc p q"
  using set_csr_hart_ok [of which v p q xlen] set_csr_even [of p which v] by (auto simp: sys_kept_def)

lemma sys_kept_calls [simp]: "sys_kept xlen npc q (call_mmu c p) = sys_kept xlen npc q p"
  by (simp add: sys_kept_def)

lemma sys_kept_modes [simp]:
  "sys_kept xlen npc q (set_privilege r p) = sys_kept xlen npc q p" "sys_kept xlen npc q (set_virt v p) = sys_kept xlen npc q p"
  "sys_kept xlen npc q (csr_update (debug_mode_update d) p) = sys_kept xlen npc q p"
  "sys_kept xlen npc q (csr_update (step_state_update s \<circ> debug_mode_update d) p) = sys_kept xlen npc q p"
  by (simp_all add: sys_kept_def even_pcs_def)

lemma sys_kept_serialize:
  "sys_kept xlen npc p (set_pc_and_serialize npc p)" "sys_kept xlen npc p (set_pc_and_serialize (mepc (csr p)) p)"
  "sys_kept xlen npc p (set_pc_and_serialize (sepc (csr p)) p)" "sys_kept xlen npc p (set_pc_and_serialize (vsepc (csr p)) p)"
  "sys_kept xlen npc p (set_pc_and_serialize (dpc (csr p)) p)"
  by (simp_all add: sys_kept_def) (simp_all add: set_pc_and_serialize_def even_pcs_def even_and_iff)

lemma sys_kept_write: "xlen \<in> {32, 64} \<Longrightarrow> sys_kept xlen npc p (WRITE_RD insn (sext_xlen xlen v) p)"
  by (auto simp: sys_kept_def WRITE_RD_def WRITE_REG_def intro: hart_ok_writes(1) [unfolded WRITE_RD_def WRITE_REG_def] canonical_sext_xlen)

lemma access_preserves:
  assumes f: "\<And>xlen insn pc npc p. f xlen insn pc npc p = csr_access (w insn) (g insn p) xlen insn pc npc p"
  shows "sys_preserves f"
proof (rule sys_preservesI)
  fix xlen :: nat and insn pc npc :: u64 and p :: hart
  assume x: "xlen \<in> {32, 64}"
  let ?u = "csr_update (serialized_update (\<lambda>_. False)) p"
  show "case f xlen insn pc npc p of Inl (t, q) \<Rightarrow> sys_kept xlen npc p q
    | Inr (x, q) \<Rightarrow> sys_next npc x p \<and> sys_kept xlen npc p q"
  proof (cases "serialized (csr p)")
    case False
    then show ?thesis by (simp add: f csr_access_def validate_csr_def sys_next_def)
  next
    case True
    have u: "sys_kept xlen npc p ?u" by (simp add: sys_kept_def even_pcs_def)
    have w: "sys_kept xlen npc p q \<Longrightarrow> sys_kept xlen npc p (set_pc_and_serialize npc (WRITE_RD insn (sext_xlen xlen old) q))" for old q
      by (rule sys_kept_trans [OF sys_kept_trans [OF _ sys_kept_write [OF x]] sys_kept_serialize(1)])
    have s: "set_csr c v ?u = Inr q \<Longrightarrow> sys_kept xlen npc p q" for c v q
      by (rule sys_kept_trans [OF u sys_kept_set_csr])
    show ?thesis
      unfolding f csr_access_def validate_csr_def Let_def using True u
      by (cases "get_csr (unat (insn_csr insn)) insn ?u")
        (auto simp: sys_next_def and_then_def raising_def intro!: w intro: s split: sum.splits)
  qed
qed

lemma preserves_csrrw: "sys_preserves rv_csrrw"
  by (rule access_preserves) (rule rv_csrrw_def)

lemma preserves_csrrs: "sys_preserves rv_csrrs"
  by (rule access_preserves) (rule rv_csrrs_def)

lemma preserves_csrrc: "sys_preserves rv_csrrc"
  by (rule access_preserves) (rule rv_csrrc_def)

lemma preserves_csrrwi: "sys_preserves rv_csrrwi"
  by (rule access_preserves) (rule rv_csrrwi_def)

lemma preserves_csrrsi: "sys_preserves rv_csrrsi"
  by (rule access_preserves) (rule rv_csrrsi_def)

lemma preserves_csrrci: "sys_preserves rv_csrrci"
  by (rule access_preserves) (rule rv_csrrci_def)

lemmas sys_simps = require_extension_def require_privilege_def require_novirt_def require_def and_then_def Let_def

lemma preserves_wfi: "sys_preserves rv_wfi"
  by (rule sys_preservesI) (auto simp: pure_body_def rv_wfi_def sys_next_def sys_simps intro!: sys_kept_serialize intro: sys_kept_trans [OF sys_kept_serialize(2) sys_kept_set_csr]
    sys_kept_trans [OF sys_kept_serialize(3) sys_kept_set_csr] sys_kept_trans [OF sys_kept_serialize(4) sys_kept_set_csr] split: sum.splits)

lemma preserves_mret: "sys_preserves (pure_body rv_mret)"
  by (rule sys_preservesI) (auto simp: pure_body_def rv_mret_def sys_next_def sys_simps intro!: sys_kept_serialize intro: sys_kept_trans [OF sys_kept_serialize(2) sys_kept_set_csr]
    sys_kept_trans [OF sys_kept_serialize(3) sys_kept_set_csr] sys_kept_trans [OF sys_kept_serialize(4) sys_kept_set_csr] split: sum.splits)

lemma preserves_sret: "sys_preserves (pure_body rv_sret)"
  by (rule sys_preservesI) (auto simp: pure_body_def rv_sret_def sys_next_def sys_simps intro!: sys_kept_serialize intro: sys_kept_trans [OF sys_kept_serialize(2) sys_kept_set_csr]
    sys_kept_trans [OF sys_kept_serialize(3) sys_kept_set_csr] sys_kept_trans [OF sys_kept_serialize(4) sys_kept_set_csr] split: sum.splits)

lemma preserves_dret: "sys_preserves (pure_body rv_dret)"
  by (rule sys_preservesI) (auto simp: pure_body_def rv_dret_def sys_next_def sys_simps intro!: sys_kept_serialize intro: sys_kept_trans [OF sys_kept_serialize(2) sys_kept_set_csr]
    sys_kept_trans [OF sys_kept_serialize(3) sys_kept_set_csr] sys_kept_trans [OF sys_kept_serialize(4) sys_kept_set_csr] split: sum.splits)

lemma preserves_fence_i: "sys_preserves (pure_body rv_fence_i)"
  by (rule sys_preservesI) (auto simp: pure_body_def rv_fence_i_def sys_next_def sys_simps intro!: sys_kept_serialize intro: sys_kept_trans [OF sys_kept_serialize(2) sys_kept_set_csr]
    sys_kept_trans [OF sys_kept_serialize(3) sys_kept_set_csr] sys_kept_trans [OF sys_kept_serialize(4) sys_kept_set_csr] split: sum.splits)

lemma preserves_sfence_vma: "sys_preserves (pure_body rv_sfence_vma)"
  by (rule sys_preservesI) (auto simp: pure_body_def rv_sfence_vma_def sys_next_def sys_simps intro!: sys_kept_serialize intro: sys_kept_trans [OF sys_kept_serialize(2) sys_kept_set_csr]
    sys_kept_trans [OF sys_kept_serialize(3) sys_kept_set_csr] sys_kept_trans [OF sys_kept_serialize(4) sys_kept_set_csr] split: sum.splits)

lemma preserves_hfence_vvma: "sys_preserves (pure_body rv_hfence_vvma)"
  by (rule sys_preservesI) (auto simp: pure_body_def rv_hfence_vvma_def sys_next_def sys_simps intro!: sys_kept_serialize intro: sys_kept_trans [OF sys_kept_serialize(2) sys_kept_set_csr]
    sys_kept_trans [OF sys_kept_serialize(3) sys_kept_set_csr] sys_kept_trans [OF sys_kept_serialize(4) sys_kept_set_csr] split: sum.splits)

lemma preserves_hfence_gvma: "sys_preserves (pure_body rv_hfence_gvma)"
  by (rule sys_preservesI) (auto simp: pure_body_def rv_hfence_gvma_def sys_next_def sys_simps intro!: sys_kept_serialize intro: sys_kept_trans [OF sys_kept_serialize(2) sys_kept_set_csr]
    sys_kept_trans [OF sys_kept_serialize(3) sys_kept_set_csr] sys_kept_trans [OF sys_kept_serialize(4) sys_kept_set_csr] split: sum.splits)

lemma system_instructions_preserve: "list_all sys_preserves system_instructions"
  by (simp add: system_instructions_def preserves_csrrw preserves_csrrs preserves_csrrc preserves_csrrwi preserves_csrrsi
    preserves_csrrci preserves_wfi preserves_mret preserves_sret preserves_dret preserves_fence_i preserves_sfence_vma
    preserves_hfence_vvma preserves_hfence_gvma)

section \<open>Memory instructions\<close>

text \<open>Such an instruction goes on with the following one if it does not throw; on hardware of the given widths the registers
  stay well-formed, also when it throws.\<close>

definition runs_on :: "nat \<Rightarrow> u64 \<Rightarrow> ('f, u64) run \<Rightarrow> bool" where
  "runs_on xlen npc r =
     (\<forall>m. (\<exists>v. csr (core (snd (r m))) = (csr (core m))\<lparr>mip := v\<rparr>) \<and> (tags_ok m \<longrightarrow> tags_ok (snd (r m))) \<and>
        (\<forall>x. fst (r m) = Inr x \<longrightarrow> x = npc) \<and> (hart_ok xlen (core m) \<longrightarrow> hart_ok xlen (core (snd (r m)))))"

definition mem_preserves :: "nat set \<Rightarrow> 'f mem_body \<Rightarrow> bool" where
  "mem_preserves X f = (\<forall>xlen \<in> X. \<forall>insn pc npc. runs_on xlen npc (f xlen insn pc npc))"

lemma mem_preservesI:
  "(\<And>xlen insn pc npc. xlen \<in> X \<Longrightarrow> runs_on xlen npc (f xlen insn pc npc)) \<Longrightarrow> mem_preserves X f"
  by (simp add: mem_preserves_def)

named_theorems memory_runs

lemma runs_quiet:
  assumes "\<And>m. quiet (r m) m" "\<And>m x. fst (r m) = Inr x \<Longrightarrow> x = npc"
  shows "runs_on xlen npc r"
  unfolding runs_on_def
proof (intro allI conjI impI)
  fix m
  obtain v where "core (snd (r m)) = csr_update (mip_update (\<lambda>_. v)) (core m)" using assms(1) [of m] by (auto simp: quiet_def)
  then show "\<exists>v. csr (core (snd (r m))) = (csr (core m))\<lparr>mip := v\<rparr>" by auto
qed (use quietD [OF assms(1)] assms(2) in auto)

lemma runs_ret [memory_runs]: "runs_on xlen npc (ret npc)"
  by (rule runs_quiet) (auto intro: quiet_runs simp: ret_def)

lemma runs_after:
  assumes "\<And>m. quiet (r m) m" "\<And>m x. fst (r m) = Inr x \<Longrightarrow> P x" "\<And>x. P x \<Longrightarrow> runs_on xlen npc (k x)"
  shows "runs_on xlen npc (bind_run r k)"
  unfolding runs_on_def
proof
  fix m
  obtain x m' where r: "r m = (x, m')" by (cases "r m")
  obtain v where v: "core m' = csr_update (mip_update (\<lambda>_. v)) (core m)" and t: "tags_ok m \<Longrightarrow> tags_ok m'"
    using assms(1) [of m] r by (auto simp: quiet_def)
  show "(\<exists>v. csr (core (snd (bind_run r k m))) = (csr (core m))\<lparr>mip := v\<rparr>) \<and> (tags_ok m \<longrightarrow> tags_ok (snd (bind_run r k m))) \<and>
        (\<forall>x. fst (bind_run r k m) = Inr x \<longrightarrow> x = npc) \<and> (hart_ok xlen (core m) \<longrightarrow> hart_ok xlen (core (snd (bind_run r k m))))"
  proof (cases x)
    case (Inl e)
    then show ?thesis using r v t by (auto simp: bind_run_def)
  next
    case (Inr y)
    then have k: "runs_on xlen npc (k y)" using assms(2) [of m y] assms(3) r by simp
    have b: "bind_run r k m = k y m'" using r Inr by (simp add: bind_run_def)
    obtain w where "csr (core (snd (k y m'))) = (csr (core m'))\<lparr>mip := w\<rparr>" using k unfolding runs_on_def by blast
    then have "csr (core (snd (k y m'))) = (csr (core m))\<lparr>mip := w\<rparr>" by (simp add: v)
    then show ?thesis using k v t unfolding runs_on_def b by auto
  qed
qed

lemma runs_then [memory_runs]: "(\<And>m. quiet (r m) m) \<Longrightarrow> (\<And>x. runs_on xlen npc (k x)) \<Longrightarrow> runs_on xlen npc (bind_run r k)"
  by (rule runs_after [where P = "\<lambda>_. True"]) simp_all

lemma runs_checked [memory_runs]:
  assumes "\<And>p. c p = Inr () \<Longrightarrow> runs_on xlen npc (k p)"
  shows "runs_on xlen npc (checked c k)"
  unfolding runs_on_def
proof
  fix m
  show "(\<exists>v. csr (core (snd (checked c k m))) = (csr (core m))\<lparr>mip := v\<rparr>) \<and> (tags_ok m \<longrightarrow> tags_ok (snd (checked c k m))) \<and>
        (\<forall>x. fst (checked c k m) = Inr x \<longrightarrow> x = npc) \<and> (hart_ok xlen (core m) \<longrightarrow> hart_ok xlen (core (snd (checked c k m))))"
  proof (cases "c (core m)")
    case (Inl t)
    have "\<exists>v. csr (core m) = (csr (core m))\<lparr>mip := v\<rparr>" by (rule exI [of _ "mip (csr (core m))"]) simp
    then show ?thesis by (simp add: checked_def bind_run_def of_trap_def throw_def Inl)
  next
    case (Inr u)
    then show ?thesis using assms [of "core m"] by (simp add: checked_def bind_run_def of_trap_def ret_def runs_on_def)
  qed
qed

text \<open>A register is written with a well-formed value, and the following instruction is next.\<close>

lemma runs_write [memory_runs]:
  assumes "\<And>p. hart_ok xlen p \<Longrightarrow> hart_ok xlen (w p)" "\<And>p. csr (w p) = csr p"
  shows "runs_on xlen npc (bind_run (on_core w) (\<lambda>_. ret npc))"
proof -
  have e: "\<exists>v. s = s\<lparr>mip := v\<rparr>" for s :: csrs by (rule exI [of _ "mip s"]) simp
  show ?thesis unfolding runs_on_def using assms e by (auto simp: bind_run_def on_core_def ret_def tags_ok_def)
qed

lemma runs_load [memory_runs]:
  assumes "\<And>u p. hart_ok xlen p \<Longrightarrow> hart_ok xlen (w (typed sg z u) p)" "\<And>v p. csr (w v p) = csr p"
  shows "runs_on xlen npc (load_to w sg z fl a npc)"
  unfolding load_to_def
  by (rule runs_after [OF quiet_load_func load_func_typed]) (use assms in \<open>auto intro!: runs_write\<close>)

lemma runs_store [memory_runs]: "runs_on xlen npc (store_from z fl a v npc)"
  unfolding store_from_def by (intro memory_runs quiet_runs)

lemma runs_amo [memory_runs]:
  assumes "\<And>v p. hart_ok xlen p \<Longrightarrow> hart_ok xlen (w v p)" "\<And>v p. csr (w v p) = csr p"
  shows "runs_on xlen npc (amo_to w z a f npc)"
  unfolding amo_to_def by (intro runs_then quiet_runs runs_write assms)

lemma runs_load_reserved [memory_runs]:
  assumes "\<And>u p. hart_ok xlen p \<Longrightarrow> hart_ok xlen (w (typed True z u) p)" "\<And>v p. csr (w v p) = csr p"
  shows "runs_on xlen npc (bind_run (load_func True z 0 a) (\<lambda>res. bind_run (acquire_load_reservation a) (\<lambda>_.
    bind_run (on_core (w res)) (\<lambda>_. ret npc))))"
  by (rule runs_after [OF quiet_load_func load_func_typed]) (use assms in \<open>auto intro!: runs_then quiet_runs runs_write\<close>)

lemma csr_writes [simp]: "csr (WRITE_RD insn v p) = csr p" "csr (WRITE_RVC_RS2S insn v p) = csr p"
  "csr (WRITE_FRD xlen insn f p) = csr p" "csr (WRITE_RVC_FRS2S xlen insn f p) = csr p"
  by (simp_all add: WRITE_RD_def WRITE_RVC_RS2S_def WRITE_REG_def WRITE_FRD_def WRITE_RVC_FRS2S_def WRITE_FREG_def dirty_fp_state_def)

lemma hart_ok_WRITE_RVC_FRS2S [simp]: "hart_ok xlen (WRITE_RVC_FRS2S xlen' insn v p) = hart_ok xlen p"
  using hart_ok_WRITE_FRD [of xlen xlen' "push_bit 7 (rvc_rs2s insn)" v p] by (simp add: WRITE_RVC_FRS2S_def WRITE_FREG_def hart_ok_def hart_regs_def dirty_fp_state_def regfile_write_def)

lemma canonical_typed [canon]:
  assumes "xlen \<in> {32, 64}"
  shows "canonical xlen (typed True 1 v)" "canonical xlen (typed True 2 v)" "canonical xlen (typed True 4 v)"
    "canonical xlen (typed False 1 v)" "canonical xlen (typed False 2 v)"
proof -
  have s: "canonical xlen (signed_take_bit k v)" if "k \<le> 31" for k
    using assms that by (auto simp: canonical_32 min_def intro!: bit_word_eqI simp: bit_simps)
  show "canonical xlen (typed True 1 v)" "canonical xlen (typed True 2 v)" "canonical xlen (typed True 4 v)"
    using s [of 7] s [of 15] s [of 31] by (simp_all add: typed_def)
  show "canonical xlen (typed False 1 v)" "canonical xlen (typed False 2 v)"
    using assms by (auto simp: typed_def intro!: canonical_small)
qed

lemmas canonical_typed_byte [canon] = canonical_typed(1,4) [unfolded One_nat_def]

lemma needs_64: "xlen \<noteq> 64 \<Longrightarrow> require_rv64 xlen insn (Inr ()) \<noteq> Inr ()" "require_rv64 xlen insn (k :: trap + unit) = Inr () \<Longrightarrow> xlen = 64"
  by (auto simp: require_rv64_def require_def split: if_splits)

lemma needs_more:
  "require_extension e insn p k = Inr () \<Longrightarrow> k = Inr ()" "require_privilege r insn p k = Inr () \<Longrightarrow> k = Inr ()"
  by (auto simp: require_extension_def require_privilege_def require_def split: if_splits)

lemma keeps_lb: "mem_preserves {32, 64} rv_lb"
  by (rule mem_preservesI) (auto simp: rv_lb_def canon intro!: memory_runs quiet_runs hart_ok_writes dest: needs_64 dest!: needs_more)

lemma keeps_lh: "mem_preserves {32, 64} rv_lh"
  by (rule mem_preservesI) (auto simp: rv_lh_def canon intro!: memory_runs quiet_runs hart_ok_writes dest: needs_64 dest!: needs_more)

lemma keeps_lw: "mem_preserves {32, 64} rv_lw"
  by (rule mem_preservesI) (auto simp: rv_lw_def canon intro!: memory_runs quiet_runs hart_ok_writes dest: needs_64 dest!: needs_more)

lemma keeps_lbu: "mem_preserves {32, 64} rv_lbu"
  by (rule mem_preservesI) (auto simp: rv_lbu_def canon intro!: memory_runs quiet_runs hart_ok_writes dest: needs_64 dest!: needs_more)

lemma keeps_lhu: "mem_preserves {32, 64} rv_lhu"
  by (rule mem_preservesI) (auto simp: rv_lhu_def canon intro!: memory_runs quiet_runs hart_ok_writes dest: needs_64 dest!: needs_more)

lemma keeps_ld: "mem_preserves {32, 64} rv_ld"
  by (rule mem_preservesI) (auto simp: rv_ld_def canon intro!: memory_runs quiet_runs hart_ok_writes dest: needs_64 dest!: needs_more)

lemma keeps_lwu: "mem_preserves {32, 64} rv_lwu"
  by (rule mem_preservesI) (auto simp: rv_lwu_def canon intro!: memory_runs quiet_runs hart_ok_writes dest: needs_64 dest!: needs_more)

lemma keeps_sb: "mem_preserves {32, 64} rv_sb"
  by (rule mem_preservesI) (auto simp: rv_sb_def canon intro!: memory_runs quiet_runs hart_ok_writes dest: needs_64 dest!: needs_more)

lemma keeps_sh: "mem_preserves {32, 64} rv_sh"
  by (rule mem_preservesI) (auto simp: rv_sh_def canon intro!: memory_runs quiet_runs hart_ok_writes dest: needs_64 dest!: needs_more)

lemma keeps_sw: "mem_preserves {32, 64} rv_sw"
  by (rule mem_preservesI) (auto simp: rv_sw_def canon intro!: memory_runs quiet_runs hart_ok_writes dest: needs_64 dest!: needs_more)

lemma keeps_sd: "mem_preserves {32, 64} rv_sd"
  by (rule mem_preservesI) (auto simp: rv_sd_def canon intro!: memory_runs quiet_runs hart_ok_writes dest: needs_64 dest!: needs_more)

lemma keeps_flh: "mem_preserves {32, 64} rv_flh"
  by (rule mem_preservesI) (auto simp: rv_flh_def canon intro!: memory_runs quiet_runs hart_ok_writes dest: needs_64 dest!: needs_more)

lemma keeps_flw: "mem_preserves {32, 64} rv_flw"
  by (rule mem_preservesI) (auto simp: rv_flw_def canon intro!: memory_runs quiet_runs hart_ok_writes dest: needs_64 dest!: needs_more)

lemma keeps_fld: "mem_preserves {32, 64} rv_fld"
  by (rule mem_preservesI) (auto simp: rv_fld_def canon intro!: memory_runs quiet_runs hart_ok_writes dest: needs_64 dest!: needs_more)

lemma keeps_flq: "mem_preserves {32, 64} rv_flq"
  by (rule mem_preservesI) (auto simp: rv_flq_def canon intro!: memory_runs quiet_runs hart_ok_writes dest: needs_64 dest!: needs_more)

lemma keeps_fsh: "mem_preserves {32, 64} rv_fsh"
  by (rule mem_preservesI) (auto simp: rv_fsh_def canon intro!: memory_runs quiet_runs hart_ok_writes dest: needs_64 dest!: needs_more)

lemma keeps_fsw: "mem_preserves {32, 64} rv_fsw"
  by (rule mem_preservesI) (auto simp: rv_fsw_def canon intro!: memory_runs quiet_runs hart_ok_writes dest: needs_64 dest!: needs_more)

lemma keeps_fsd: "mem_preserves {32, 64} rv_fsd"
  by (rule mem_preservesI) (auto simp: rv_fsd_def canon intro!: memory_runs quiet_runs hart_ok_writes dest: needs_64 dest!: needs_more)

lemma keeps_fsq: "mem_preserves {32, 64} rv_fsq"
  by (rule mem_preservesI) (auto simp: rv_fsq_def canon intro!: memory_runs quiet_runs hart_ok_writes dest: needs_64 dest!: needs_more)

lemma keeps_c_lw: "mem_preserves {32, 64} rv_c_lw"
  by (rule mem_preservesI) (auto simp: rv_c_lw_def canon intro!: memory_runs quiet_runs hart_ok_writes dest: needs_64 dest!: needs_more)

lemma keeps_c_sw: "mem_preserves {32, 64} rv_c_sw"
  by (rule mem_preservesI) (auto simp: rv_c_sw_def canon intro!: memory_runs quiet_runs hart_ok_writes dest: needs_64 dest!: needs_more)

lemma keeps_c_lwsp: "mem_preserves {32, 64} rv_c_lwsp"
  by (rule mem_preservesI) (auto simp: rv_c_lwsp_def canon intro!: memory_runs quiet_runs hart_ok_writes dest: needs_64 dest!: needs_more)

lemma keeps_c_swsp: "mem_preserves {32, 64} rv_c_swsp"
  by (rule mem_preservesI) (auto simp: rv_c_swsp_def canon intro!: memory_runs quiet_runs hart_ok_writes dest: needs_64 dest!: needs_more)

lemma keeps_c_fld: "mem_preserves {32, 64} rv_c_fld"
  by (rule mem_preservesI) (auto simp: rv_c_fld_def canon intro!: memory_runs quiet_runs hart_ok_writes dest: needs_64 dest!: needs_more)

lemma keeps_c_fsd: "mem_preserves {32, 64} rv_c_fsd"
  by (rule mem_preservesI) (auto simp: rv_c_fsd_def canon intro!: memory_runs quiet_runs hart_ok_writes dest: needs_64 dest!: needs_more)

lemma keeps_c_fldsp: "mem_preserves {32, 64} rv_c_fldsp"
  by (rule mem_preservesI) (auto simp: rv_c_fldsp_def canon intro!: memory_runs quiet_runs hart_ok_writes dest: needs_64 dest!: needs_more)

lemma keeps_c_fsdsp: "mem_preserves {32, 64} rv_c_fsdsp"
  by (rule mem_preservesI) (auto simp: rv_c_fsdsp_def canon intro!: memory_runs quiet_runs hart_ok_writes dest: needs_64 dest!: needs_more)

lemma keeps_c_flw: "mem_preserves {32, 64} rv_c_flw"
  by (rule mem_preservesI) (auto simp: rv_c_flw_def canon intro!: memory_runs quiet_runs hart_ok_writes dest: needs_64 dest!: needs_more)

lemma keeps_c_fsw: "mem_preserves {32, 64} rv_c_fsw"
  by (rule mem_preservesI) (auto simp: rv_c_fsw_def canon intro!: memory_runs quiet_runs hart_ok_writes dest: needs_64 dest!: needs_more)

lemma keeps_c_flwsp: "mem_preserves {32, 64} rv_c_flwsp"
  by (rule mem_preservesI) (auto simp: rv_c_flwsp_def canon intro!: memory_runs quiet_runs hart_ok_writes dest: needs_64 dest!: needs_more)

lemma keeps_c_fswsp: "mem_preserves {32, 64} rv_c_fswsp"
  by (rule mem_preservesI) (auto simp: rv_c_fswsp_def canon intro!: memory_runs quiet_runs hart_ok_writes dest: needs_64 dest!: needs_more)

lemma keeps_amoswap_w: "mem_preserves {32, 64} rv_amoswap_w"
  by (rule mem_preservesI) (auto simp: rv_amoswap_w_def canon intro!: memory_runs quiet_runs hart_ok_writes dest: needs_64 dest!: needs_more)

lemma keeps_amoswap_d: "mem_preserves {32, 64} rv_amoswap_d"
  by (rule mem_preservesI) (auto simp: rv_amoswap_d_def canon intro!: memory_runs quiet_runs hart_ok_writes dest: needs_64 dest!: needs_more)

lemma keeps_amoadd_w: "mem_preserves {32, 64} rv_amoadd_w"
  by (rule mem_preservesI) (auto simp: rv_amoadd_w_def canon intro!: memory_runs quiet_runs hart_ok_writes dest: needs_64 dest!: needs_more)

lemma keeps_amoadd_d: "mem_preserves {32, 64} rv_amoadd_d"
  by (rule mem_preservesI) (auto simp: rv_amoadd_d_def canon intro!: memory_runs quiet_runs hart_ok_writes dest: needs_64 dest!: needs_more)

lemma keeps_amoxor_w: "mem_preserves {32, 64} rv_amoxor_w"
  by (rule mem_preservesI) (auto simp: rv_amoxor_w_def canon intro!: memory_runs quiet_runs hart_ok_writes dest: needs_64 dest!: needs_more)

lemma keeps_amoxor_d: "mem_preserves {32, 64} rv_amoxor_d"
  by (rule mem_preservesI) (auto simp: rv_amoxor_d_def canon intro!: memory_runs quiet_runs hart_ok_writes dest: needs_64 dest!: needs_more)

lemma keeps_amoor_w: "mem_preserves {32, 64} rv_amoor_w"
  by (rule mem_preservesI) (auto simp: rv_amoor_w_def canon intro!: memory_runs quiet_runs hart_ok_writes dest: needs_64 dest!: needs_more)

lemma keeps_amoor_d: "mem_preserves {32, 64} rv_amoor_d"
  by (rule mem_preservesI) (auto simp: rv_amoor_d_def canon intro!: memory_runs quiet_runs hart_ok_writes dest: needs_64 dest!: needs_more)

lemma keeps_amoand_w: "mem_preserves {32, 64} rv_amoand_w"
  by (rule mem_preservesI) (auto simp: rv_amoand_w_def canon intro!: memory_runs quiet_runs hart_ok_writes dest: needs_64 dest!: needs_more)

lemma keeps_amoand_d: "mem_preserves {32, 64} rv_amoand_d"
  by (rule mem_preservesI) (auto simp: rv_amoand_d_def canon intro!: memory_runs quiet_runs hart_ok_writes dest: needs_64 dest!: needs_more)

lemma keeps_amomin_w: "mem_preserves {32, 64} rv_amomin_w"
  by (rule mem_preservesI) (auto simp: rv_amomin_w_def canon intro!: memory_runs quiet_runs hart_ok_writes dest: needs_64 dest!: needs_more)

lemma keeps_amomin_d: "mem_preserves {32, 64} rv_amomin_d"
  by (rule mem_preservesI) (auto simp: rv_amomin_d_def canon intro!: memory_runs quiet_runs hart_ok_writes dest: needs_64 dest!: needs_more)

lemma keeps_amomax_w: "mem_preserves {32, 64} rv_amomax_w"
  by (rule mem_preservesI) (auto simp: rv_amomax_w_def canon intro!: memory_runs quiet_runs hart_ok_writes dest: needs_64 dest!: needs_more)

lemma keeps_amomax_d: "mem_preserves {32, 64} rv_amomax_d"
  by (rule mem_preservesI) (auto simp: rv_amomax_d_def canon intro!: memory_runs quiet_runs hart_ok_writes dest: needs_64 dest!: needs_more)

lemma keeps_amominu_w: "mem_preserves {32, 64} rv_amominu_w"
  by (rule mem_preservesI) (auto simp: rv_amominu_w_def canon intro!: memory_runs quiet_runs hart_ok_writes dest: needs_64 dest!: needs_more)

lemma keeps_amominu_d: "mem_preserves {32, 64} rv_amominu_d"
  by (rule mem_preservesI) (auto simp: rv_amominu_d_def canon intro!: memory_runs quiet_runs hart_ok_writes dest: needs_64 dest!: needs_more)

lemma keeps_amomaxu_w: "mem_preserves {32, 64} rv_amomaxu_w"
  by (rule mem_preservesI) (auto simp: rv_amomaxu_w_def canon intro!: memory_runs quiet_runs hart_ok_writes dest: needs_64 dest!: needs_more)

lemma keeps_amomaxu_d: "mem_preserves {32, 64} rv_amomaxu_d"
  by (rule mem_preservesI) (auto simp: rv_amomaxu_d_def canon intro!: memory_runs quiet_runs hart_ok_writes dest: needs_64 dest!: needs_more)

lemma keeps_lr_w: "mem_preserves {32, 64} rv_lr_w"
  by (rule mem_preservesI) (auto simp: rv_lr_w_def canon intro!: memory_runs quiet_runs hart_ok_writes dest: needs_64 dest!: needs_more)

lemma keeps_sc_w: "mem_preserves {32, 64} rv_sc_w"
  by (rule mem_preservesI) (auto simp: rv_sc_w_def canon intro!: memory_runs quiet_runs hart_ok_writes dest: needs_64 dest!: needs_more)

lemma keeps_lr_d: "mem_preserves {32, 64} rv_lr_d"
  by (rule mem_preservesI) (auto simp: rv_lr_d_def canon intro!: memory_runs quiet_runs hart_ok_writes dest: needs_64 dest!: needs_more)

lemma keeps_sc_d: "mem_preserves {32, 64} rv_sc_d"
  by (rule mem_preservesI) (auto simp: rv_sc_d_def canon intro!: memory_runs quiet_runs hart_ok_writes dest: needs_64 dest!: needs_more)

lemma keeps_hlv_b: "mem_preserves {32, 64} rv_hlv_b"
  by (rule mem_preservesI) (auto simp: rv_hlv_b_def canon intro!: memory_runs quiet_runs hart_ok_writes dest: needs_64 dest!: needs_more)

lemma keeps_hlv_bu: "mem_preserves {32, 64} rv_hlv_bu"
  by (rule mem_preservesI) (auto simp: rv_hlv_bu_def canon intro!: memory_runs quiet_runs hart_ok_writes dest: needs_64 dest!: needs_more)

lemma keeps_hlv_h: "mem_preserves {32, 64} rv_hlv_h"
  by (rule mem_preservesI) (auto simp: rv_hlv_h_def canon intro!: memory_runs quiet_runs hart_ok_writes dest: needs_64 dest!: needs_more)

lemma keeps_hlv_hu: "mem_preserves {32, 64} rv_hlv_hu"
  by (rule mem_preservesI) (auto simp: rv_hlv_hu_def canon intro!: memory_runs quiet_runs hart_ok_writes dest: needs_64 dest!: needs_more)

lemma keeps_hlv_w: "mem_preserves {32, 64} rv_hlv_w"
  by (rule mem_preservesI) (auto simp: rv_hlv_w_def canon intro!: memory_runs quiet_runs hart_ok_writes dest: needs_64 dest!: needs_more)

lemma keeps_hlv_wu: "mem_preserves {32, 64} rv_hlv_wu"
  by (rule mem_preservesI) (auto simp: rv_hlv_wu_def canon intro!: memory_runs quiet_runs hart_ok_writes dest: needs_64 dest!: needs_more)

lemma keeps_hlv_d: "mem_preserves {32, 64} rv_hlv_d"
  by (rule mem_preservesI) (auto simp: rv_hlv_d_def canon intro!: memory_runs quiet_runs hart_ok_writes dest: needs_64 dest!: needs_more)

lemma keeps_hlvx_hu: "mem_preserves {32, 64} rv_hlvx_hu"
  by (rule mem_preservesI) (auto simp: rv_hlvx_hu_def canon intro!: memory_runs quiet_runs hart_ok_writes dest: needs_64 dest!: needs_more)

lemma runs_hlvx_wu: "runs_on 64 npc (rv_hlvx_wu xlen insn pc npc)"
  by (auto simp: rv_hlvx_wu_def canon intro!: memory_runs quiet_runs hart_ok_writes)

lemma keeps_hlvx_wu: "mem_preserves {64} rv_hlvx_wu"
  by (rule mem_preservesI) (simp add: runs_hlvx_wu)

lemma keeps_hsv_b: "mem_preserves {32, 64} rv_hsv_b"
  by (rule mem_preservesI) (auto simp: rv_hsv_b_def canon intro!: memory_runs quiet_runs hart_ok_writes dest: needs_64 dest!: needs_more)

lemma keeps_hsv_h: "mem_preserves {32, 64} rv_hsv_h"
  by (rule mem_preservesI) (auto simp: rv_hsv_h_def canon intro!: memory_runs quiet_runs hart_ok_writes dest: needs_64 dest!: needs_more)

lemma keeps_hsv_w: "mem_preserves {32, 64} rv_hsv_w"
  by (rule mem_preservesI) (auto simp: rv_hsv_w_def canon intro!: memory_runs quiet_runs hart_ok_writes dest: needs_64 dest!: needs_more)

lemma keeps_hsv_d: "mem_preserves {32, 64} rv_hsv_d"
  by (rule mem_preservesI) (auto simp: rv_hsv_d_def canon intro!: memory_runs quiet_runs hart_ok_writes dest: needs_64 dest!: needs_more)

definition memory_instructions :: "'f mem_body list" where
  "memory_instructions = [
     rv_lb, rv_lh, rv_lw, rv_lbu, rv_lhu, rv_ld, rv_lwu, rv_sb, rv_sh, rv_sw, rv_sd, rv_flh, rv_flw, rv_fld,
     rv_flq, rv_fsh, rv_fsw, rv_fsd, rv_fsq, rv_c_lw, rv_c_sw, rv_c_lwsp, rv_c_swsp, rv_c_fld, rv_c_fsd,
     rv_c_fldsp, rv_c_fsdsp, rv_c_flw, rv_c_fsw, rv_c_flwsp, rv_c_fswsp, rv_amoswap_w, rv_amoswap_d,
     rv_amoadd_w, rv_amoadd_d, rv_amoxor_w, rv_amoxor_d, rv_amoor_w, rv_amoor_d, rv_amoand_w, rv_amoand_d,
     rv_amomin_w, rv_amomin_d, rv_amomax_w, rv_amomax_d, rv_amominu_w, rv_amominu_d, rv_amomaxu_w,
     rv_amomaxu_d, rv_lr_w, rv_sc_w, rv_lr_d, rv_sc_d, rv_hlv_b, rv_hlv_bu, rv_hlv_h, rv_hlv_hu, rv_hlv_w,
     rv_hlv_wu, rv_hlv_d, rv_hlvx_hu, rv_hsv_b, rv_hsv_h, rv_hsv_w, rv_hsv_d]"

lemma memory_instructions_preserve: "list_all (mem_preserves {32, 64}) memory_instructions"
  unfolding memory_instructions_def by (simp only: list.pred_inject simp_thms
    keeps_lb keeps_lh keeps_lw keeps_lbu keeps_lhu keeps_ld keeps_lwu keeps_sb keeps_sh keeps_sw keeps_sd
    keeps_flh keeps_flw keeps_fld keeps_flq keeps_fsh keeps_fsw keeps_fsd keeps_fsq keeps_c_lw keeps_c_sw
    keeps_c_lwsp keeps_c_swsp keeps_c_fld keeps_c_fsd keeps_c_fldsp keeps_c_fsdsp keeps_c_flw keeps_c_fsw
    keeps_c_flwsp keeps_c_fswsp keeps_amoswap_w keeps_amoswap_d keeps_amoadd_w keeps_amoadd_d keeps_amoxor_w
    keeps_amoxor_d keeps_amoor_w keeps_amoor_d keeps_amoand_w keeps_amoand_d keeps_amomin_w keeps_amomin_d
    keeps_amomax_w keeps_amomax_d keeps_amominu_w keeps_amominu_d keeps_amomaxu_w keeps_amomaxu_d keeps_lr_w
    keeps_sc_w keeps_lr_d keeps_sc_d keeps_hlv_b keeps_hlv_bu keeps_hlv_h keeps_hlv_hu keeps_hlv_w keeps_hlv_wu
    keeps_hlv_d keeps_hlvx_hu keeps_hsv_b keeps_hsv_h keeps_hsv_w keeps_hsv_d)

section \<open>The functions the decoder's table names\<close>

text \<open>The names of the bodies, in the order of the lists.\<close>

definition integer_names :: "string list" where
  "integer_names = [
     ''add'', ''addi'', ''addiw'', ''addw'', ''and'', ''andi'', ''auipc'', ''lui'', ''or'', ''ori'', ''sll'',
     ''slli'', ''slliw'', ''sllw'', ''slt'', ''slti'', ''sltiu'', ''sltu'', ''sra'', ''srai'', ''sraiw'',
     ''sraw'', ''srl'', ''srli'', ''srliw'', ''srlw'', ''sub'', ''subw'', ''xor'', ''xori'', ''beq'', ''bne'',
     ''bge'', ''bgeu'', ''blt'', ''bltu'', ''jal'', ''jalr'', ''ebreak'', ''ecall'', ''fence'', ''mul'',
     ''mulh'', ''mulhsu'', ''mulhu'', ''mulw'', ''div'', ''divu'', ''divuw'', ''divw'', ''rem'', ''remu'',
     ''remuw'', ''remw'']"

definition compressed_names :: "string list" where
  "compressed_names = [
     ''c_add'', ''c_addi'', ''c_addi4spn'', ''c_addw'', ''c_and'', ''c_andi'', ''c_beqz'', ''c_bnez'',
     ''c_ebreak'', ''c_j'', ''c_jal'', ''c_jalr'', ''c_jr'', ''c_li'', ''c_lui'', ''c_mv'', ''c_or'',
     ''c_slli'', ''c_srai'', ''c_srli'', ''c_sub'', ''c_subw'', ''c_xor'']"

definition fp_names :: "string list" where
  "fp_names = [
     ''fadd_s'', ''fadd_d'', ''fsub_s'', ''fsub_d'', ''fmul_h'', ''fmul_s'', ''fmul_d'', ''fcvt_d_h'',
     ''fcvt_d_s'', ''fcvt_h_d'', ''fcvt_h_s'', ''fcvt_s_d'', ''fcvt_s_h'', ''fcvt_h_w'', ''fcvt_h_wu'',
     ''fcvt_h_l'', ''fcvt_h_lu'', ''fcvt_s_w'', ''fcvt_s_wu'', ''fcvt_s_l'', ''fcvt_s_lu'', ''fcvt_d_w'',
     ''fcvt_d_wu'', ''fcvt_d_l'', ''fcvt_d_lu'', ''fcvt_w_h'', ''fcvt_wu_h'', ''fcvt_l_h'', ''fcvt_lu_h'',
     ''fcvt_w_s'', ''fcvt_wu_s'', ''fcvt_l_s'', ''fcvt_lu_s'', ''fcvt_w_d'', ''fcvt_wu_d'', ''fcvt_l_d'',
     ''fcvt_lu_d'', ''feq_h'', ''feq_s'', ''feq_d'', ''flt_h'', ''flt_s'', ''flt_d'', ''fle_h'', ''fle_s'',
     ''fle_d'', ''fclass_h'', ''fclass_s'', ''fclass_d'', ''fmin_h'', ''fmax_h'', ''fmin_s'', ''fmax_s'',
     ''fmin_d'', ''fmax_d'', ''fsgnj_h'', ''fsgnj_s'', ''fsgnj_d'', ''fsgnjn_h'', ''fsgnjn_s'', ''fsgnjn_d'',
     ''fsgnjx_h'', ''fsgnjx_s'', ''fsgnjx_d'', ''fmv_h_x'', ''fmv_w_x'', ''fmv_d_x'', ''fmv_x_h'',
     ''fmv_x_w'', ''fmv_x_d'']"

definition system_names :: "string list" where
  "system_names = [
     ''csrrw'', ''csrrs'', ''csrrc'', ''csrrwi'', ''csrrsi'', ''csrrci'', ''wfi'', ''mret'', ''sret'',
     ''dret'', ''fence_i'', ''sfence_vma'', ''hfence_vvma'', ''hfence_gvma'']"

definition memory_names :: "string list" where
  "memory_names = [
     ''lb'', ''lh'', ''lw'', ''lbu'', ''lhu'', ''ld'', ''lwu'', ''sb'', ''sh'', ''sw'', ''sd'', ''flh'',
     ''flw'', ''fld'', ''flq'', ''fsh'', ''fsw'', ''fsd'', ''fsq'', ''c_lw'', ''c_sw'', ''c_lwsp'',
     ''c_swsp'', ''c_fld'', ''c_fsd'', ''c_fldsp'', ''c_fsdsp'', ''c_flw'', ''c_fsw'', ''c_flwsp'',
     ''c_fswsp'', ''amoswap_w'', ''amoswap_d'', ''amoadd_w'', ''amoadd_d'', ''amoxor_w'', ''amoxor_d'',
     ''amoor_w'', ''amoor_d'', ''amoand_w'', ''amoand_d'', ''amomin_w'', ''amomin_d'', ''amomax_w'',
     ''amomax_d'', ''amominu_w'', ''amominu_d'', ''amomaxu_w'', ''amomaxu_d'', ''lr_w'', ''sc_w'', ''lr_d'',
     ''sc_d'', ''hlv_b'', ''hlv_bu'', ''hlv_h'', ''hlv_hu'', ''hlv_w'', ''hlv_wu'', ''hlv_d'', ''hlvx_hu'',
     ''hsv_b'', ''hsv_h'', ''hsv_w'', ''hsv_d'']"

text \<open>The bodies on the machine, by name.\<close>

definition named_bodies :: "(string \<times> 'f mem_body) list" where
  "named_bodies =
     zip (integer_names @ compressed_names @ fp_names)
       (map (\<lambda>f. run_sys (pure_body f)) (integer_instructions @ compressed_instructions @ fp_instructions)) @
     zip system_names (map run_sys system_instructions) @ zip memory_names memory_instructions @
     [(''hlvx_wu'', rv_hlvx_wu)]"

text \<open>\<open>insn_template.cc\<close> gives each instruction of the table two functions, \<open>rv32_NAME\<close> and \<open>rv64_NAME\<close>; the
  instructions that are not modelled are taken to be illegal.\<close>

definition named_functions :: "(string \<times> (nat \<times> u64 \<times> 'f mem_body)) list" where
  "named_functions =
     concat (map (\<lambda>(listed, name, opcode, mk). case map_of named_bodies name of None \<Rightarrow> []
         | Some body \<Rightarrow> [(''rv32_'' @ name, (32, opcode, body)), (''rv64_'' @ name, (64, opcode, body))]) declared_insns)"

definition modelled_calls :: "string calls" where
  "modelled_calls f insn pc m =
     (case map_of named_functions f of
        None \<Rightarrow> throw (Trap (Trap_illegal_instruction (insn_bits insn))) m
      | Some (xlen, opcode, body) \<Rightarrow> rv_function body opcode xlen insn pc m)"

text \<open>What the loop relies on, for one body.\<close>

definition steers :: "nat set \<Rightarrow> 'f mem_body \<Rightarrow> bool" where
  "steers X body =
     (\<forall>xlen \<in> X. \<forall>insn pc npc m.
        (tags_ok m \<longrightarrow> tags_ok (snd (body xlen insn pc npc m))) \<and>
        (even pc \<longrightarrow> even npc \<longrightarrow> tame (body xlen insn pc npc m) m))"

lemma steers_run_sys:
  assumes "\<And>xlen insn pc npc p. xlen \<in> X \<Longrightarrow> even pc \<Longrightarrow> even npc \<Longrightarrow>
    (case f xlen insn pc npc p of
       Inl (t, q) \<Rightarrow> even_pcs (csr p) \<longrightarrow> even_pcs (csr q)
     | Inr (x, q) \<Rightarrow> (even x \<or> sys_next npc x p) \<and> (even_pcs (csr p) \<longrightarrow> even_pcs (csr q)))"
  shows "steers X (run_sys f)"
  unfolding steers_def
proof (intro ballI allI)
  fix xlen :: nat and insn pc npc :: u64 and m :: "'f machine"
  assume x: "xlen \<in> X"
  have t: "tags_ok m \<Longrightarrow> tags_ok (mmu_answer (m\<lparr>core := q\<rparr>))" for q
    using answer_frame(2) [of "m\<lparr>core := q\<rparr>"] by (simp add: tags_ok_def)
  have n: "even y \<Longrightarrow> y \<noteq> PC_SERIALIZE_BEFORE" for y :: u64 by auto
  show "(tags_ok m \<longrightarrow> tags_ok (snd (run_sys f xlen insn pc npc m))) \<and>
        (even pc \<longrightarrow> even npc \<longrightarrow> tame (run_sys f xlen insn pc npc m) m)"
    using t n assms [OF x, of pc npc "core m" insn]
    by (cases "f xlen insn pc npc (core m)") (auto simp: run_sys_def answer_frame sys_next_def tame_def address_or_signal_def)
qed

lemma steers_pure:
  assumes f: "preserves f"
  shows "steers {32, 64} (run_sys (pure_body f))"
proof (rule steers_run_sys)
  fix xlen :: nat and insn pc npc :: u64 and p :: hart
  assume a: "xlen \<in> {32, 64}" "even pc" "even npc"
  have "case f xlen insn pc npc p of Inl _ \<Rightarrow> True | Inr (x, q) \<Rightarrow> even x \<and> sys_state q = sys_state p"
    using f a unfolding preserves_def by blast
  then show "case pure_body f xlen insn pc npc p of
       Inl (t, q) \<Rightarrow> even_pcs (csr p) \<longrightarrow> even_pcs (csr q)
     | Inr (x, q) \<Rightarrow> (even x \<or> sys_next npc x p) \<and> (even_pcs (csr p) \<longrightarrow> even_pcs (csr q))"
    by (cases "f xlen insn pc npc p") (auto simp: pure_body_def sys_state_def split: prod.splits)
qed

lemma steers_sys:
  assumes f: "sys_preserves f"
  shows "steers {32, 64} (run_sys f)"
proof (rule steers_run_sys)
  fix xlen :: nat and insn pc npc :: u64 and p :: hart
  assume a: "xlen \<in> {32, 64}" "even pc" "even npc"
  have "case f xlen insn pc npc p of Inl (t, q) \<Rightarrow> sys_kept xlen npc p q
      | Inr (y, q) \<Rightarrow> sys_next npc y p \<and> sys_kept xlen npc p q"
    using f a(1) unfolding sys_preserves_def by blast
  then show "case f xlen insn pc npc p of
       Inl (t, q) \<Rightarrow> even_pcs (csr p) \<longrightarrow> even_pcs (csr q)
     | Inr (x, q) \<Rightarrow> (even x \<or> sys_next npc x p) \<and> (even_pcs (csr p) \<longrightarrow> even_pcs (csr q))"
    using a by (auto simp: sys_kept_def split: sum.splits)
qed

lemma steers_runs:
  assumes "\<And>xlen insn pc npc. xlen \<in> X \<Longrightarrow> \<exists>x. runs_on x npc (f xlen insn pc npc)"
  shows "steers X f"
  unfolding steers_def
proof (intro ballI allI)
  fix xlen :: nat and insn pc npc :: u64 and m :: "'a machine"
  assume "xlen \<in> X"
  then obtain w where r: "runs_on w npc (f xlen insn pc npc)" using assms by blast
  obtain x m' where e: "f xlen insn pc npc m = (x, m')" by fastforce
  obtain v where "csr (core m') = (csr (core m))\<lparr>mip := v\<rparr>" using r e unfolding runs_on_def by (metis snd_conv)
  moreover have "tags_ok m \<Longrightarrow> tags_ok m'" "x = Inr y \<Longrightarrow> y = npc" for y using r e unfolding runs_on_def by (metis fst_conv snd_conv)+
  moreover have "even y \<Longrightarrow> y \<noteq> PC_SERIALIZE_BEFORE" for y :: u64 by auto
  ultimately show "(tags_ok m \<longrightarrow> tags_ok (snd (f xlen insn pc npc m))) \<and>
        (even pc \<longrightarrow> even npc \<longrightarrow> tame (f xlen insn pc npc m) m)"
    by (auto simp: e tame_def even_pcs_def address_or_signal_def)
qed

lemma steers_mem: "mem_preserves X f \<Longrightarrow> steers X f"
  unfolding mem_preserves_def by (rule steers_runs) blast

lemma steers_hlvx_wu: "steers {32, 64} rv_hlvx_wu"
  by (rule steers_runs, rule exI, rule runs_hlvx_wu)

lemma zip_bodies: "list_all P ys \<Longrightarrow> (n, b) \<in> set (zip xs ys) \<Longrightarrow> P b"
  by (auto simp: list_all_iff dest: set_zip_rightD)

lemma named_bodies_steer:
  assumes "(n, b) \<in> set named_bodies"
  shows "steers {32, 64} b"
proof -
  have p: "list_all (steers {32, 64}) (map (\<lambda>f. run_sys (pure_body f)) (integer_instructions @ compressed_instructions @ fp_instructions))"
    using integer_instructions_preserve compressed_instructions_preserve fp_instructions_preserve
    by (auto simp: list_all_iff intro: steers_pure)
  have s: "list_all (steers {32, 64}) (map run_sys system_instructions)"
    using system_instructions_preserve by (auto simp: list_all_iff intro: steers_sys)
  have m: "list_all (steers {32, 64}) memory_instructions"
    using memory_instructions_preserve by (auto simp: list_all_iff intro: steers_mem)
  show ?thesis
    using assms zip_bodies [OF p] zip_bodies [OF s] zip_bodies [OF m] steers_hlvx_wu
    unfolding named_bodies_def by (auto simp del: zip_append)
qed

lemma even_npc: "even pc \<Longrightarrow> xlen \<in> {32, 64} \<Longrightarrow> even (sext_xlen xlen (pc + word_of_nat (insn_length opcode)))"
  by (auto simp: low_bits_sext_xlen insn_length_def)

theorem modelled_signals: "signals_ok modelled_calls"
  unfolding signals_ok_def
proof (intro allI)
  fix f :: string and insn pc :: u64 and m :: "string machine"
  show "(tags_ok m \<longrightarrow> tags_ok (snd (modelled_calls f insn pc m))) \<and> (even pc \<longrightarrow> tame (modelled_calls f insn pc m) m)"
  proof (cases "map_of named_functions f :: (nat \<times> u64 \<times> string mem_body) option")
    case None
    then show ?thesis by (simp add: modelled_calls_def throw_def tame_def)
  next
    case (Some e)
    obtain xlen opcode body where e: "e = (xlen, opcode, body)" by (cases e)
    have "(f, e) \<in> set named_functions" using Some by (rule map_of_SomeD)
    then obtain n where x: "xlen \<in> {32, 64}" and "map_of named_bodies n = Some body"
      unfolding named_functions_def e by (auto split: option.split_asm)
    then have "steers {32, 64} body" using named_bodies_steer map_of_SomeD by fast
    then show ?thesis using x even_npc [OF _ x, of pc opcode]
      unfolding steers_def by (simp only: modelled_calls_def Some e option.case prod.case rv_function_def) blast
  qed
qed

section \<open>Properties\<close>

text \<open>C4: the invariant of a hart - register x0 reads zero, integer registers are sign-extended from the
  register width, no exception flag is left pending in SoftFloat - holds after reset, and every modelled
  instruction preserves it, except \<open>hlvx.wu\<close> on 32-bit registers, which does not sign-extend what it
  loads. In particular: an instruction of the integer, compressed or floating-point lists that does not trap
  preserves it when the word is sign-extended from 32 bits as a fetch gives it, leaves the extensions, the mode and
  the control and status registers unchanged, and gives a next address that is canonical and aligned for
  the instruction lengths the hart supports. A system instruction preserves it also when it traps, keeps the
  addresses of the returns even, and gives the following instruction or a signal to the loop. A memory
  instruction preserves it also when it throws, changes no control and status register but the pending
  interrupts, keeps the tags of the instruction cache well-formed, and gives the following instruction.\<close>

theorem hart_invariant:
  "(\<exists>q. processor_reset h (p\<lparr>softfloat := softfloat_init\<rparr>) = Inr q \<and> hart_ok xlen q) \<and>
   list_all preserves (integer_instructions @ compressed_instructions @ fp_instructions) \<and>
   list_all sys_preserves system_instructions \<and>
   list_all (mem_preserves {32, 64}) (memory_instructions :: string mem_body list) \<and>
   mem_preserves {64} (rv_hlvx_wu :: string mem_body)"
proof (intro conjI)
  obtain q where "processor_reset h (p\<lparr>softfloat := softfloat_init\<rparr>) = Inr q" "XPR q = replicate 32 0"
    "FPR q = replicate 32 \<lparr>fv0 = 0, fv1 = 0\<rparr>" "softfloat q = softfloat_init"
    using processor_reset_returns [of h "p\<lparr>softfloat := softfloat_init\<rparr>"] by auto
  then show "\<exists>q. processor_reset h (p\<lparr>softfloat := softfloat_init\<rparr>) = Inr q \<and> hart_ok xlen q"
    by (simp add: hart_ok_def hart_regs_def softfloat_init_def canonical_def sext_xlen_def list_all_iff)
qed (use integer_instructions_preserve compressed_instructions_preserve fp_instructions_preserve
     in \<open>simp_all add: list_all_iff ball_Un\<close>, rule system_instructions_preserve [unfolded list_all_iff],
     rule memory_instructions_preserve [unfolded list_all_iff], rule keeps_hlvx_wu)

end
