(* ===== verification/RV_Memory_Props.thy ===== *)
theory RV_Memory_Props
  imports RV_MMU_Correct RV_Mem RV_Instructions
begin

text \<open>
  The properties of memory and of the loop that executes instructions: protection, translation, the
  translation buffer, loads, stores and atomics, and the end of \<open>step\<close>. Each rests on a lemma of the
  theory that models the component; the witnesses run them on concrete machines.
\<close>

section \<open>Translation\<close>

lemma translate_path:
  assumes "effective_mode ty flags p = (mode, False, mxr)"
    and "decode_vm_info (max_xlen (cfg p)) False mode (satp (csr p)) = Inr vm" "levels vm \<noteq> 0"
    and "va_canonical (cur_xlen p) (PGSHIFT + levels vm * idxbits vm) addr"
  shows "translate addr len ty flags s p = Inr x \<longleftrightarrow>
    (\<exists>i pte. pte_path s p vm addr (levels vm) (ptbase vm) i pte \<and>
       leaf_allows ty mode mxr (get_field (mstatus p) MSTATUS_SUM \<noteq> 0) (i * idxbits vm) pte \<and>
       x = leaf_address vm i addr pte \<and> pmp_ok x len ty mode p)"
proof -
  have e: "(4096 :: u64) - 1 = 4095" by simp
  let ?sum = "get_field (mstatus p) MSTATUS_SUM \<noteq> 0"
  have w: "walk addr ty mode False mxr s p = Inr pa \<longleftrightarrow>
    (\<exists>i pte. pte_path s p vm addr (levels vm) (ptbase vm) i pte \<and> leaf_allows ty mode mxr ?sum (i * idxbits vm) pte \<and>
       pa = (pte_page_base (i * idxbits vm) addr pte OR (addr AND 4095)) AND NOT 4095)" for pa
    unfolding walk_def if_False assms(2) and_then_simps Let_def using assms(3,4) s1_walk_path by (simp only: if_True if_False)
  have l: "leaf_allows ty mode mxr ?sum (i * idxbits vm) pte \<Longrightarrow>
    ((pte_page_base (i * idxbits vm) addr pte OR (addr AND 4095)) AND NOT 4095) OR (addr AND 4095) = leaf_address vm i addr pte" for i pte
    by (rule leaf_pages) (simp add: leaf_allows_def)
  have "translate addr len ty flags s p = Inr x \<longleftrightarrow>
    (\<exists>pa. walk addr ty mode False mxr s p = Inr pa \<and> x = pa OR (addr AND 4095) \<and> pmp_ok x len ty mode p)"
    unfolding translate_def assms(1) prod.case and_then_Inr Let_def e by (auto split: if_split_asm)
  also have "\<dots> \<longleftrightarrow> (\<exists>i pte. pte_path s p vm addr (levels vm) (ptbase vm) i pte \<and>
       leaf_allows ty mode mxr ?sum (i * idxbits vm) pte \<and> x = leaf_address vm i addr pte \<and> pmp_ok x len ty mode p)"
    unfolding w using l by metis
  finally show ?thesis .
qed

text \<open>Without a guest, what a translation throws is a page fault or an access fault of its kind at its address.\<close>

lemma translate_fault:
  assumes "effective_mode ty flags p = (mode, False, mxr)"
    and "decode_vm_info (max_xlen (cfg p)) False mode (satp (csr p)) = Inr vm"
    and "translate addr len ty flags s p = Inl t"
  shows "t = page_fault ty addr \<or> t = access_fault ty addr"
proof -
  have "walk addr ty mode False mxr s p = Inl t \<or> t = access_fault ty addr"
    using assms(3) unfolding translate_def assms(1) prod.case and_then_Inl Let_def by (auto split: if_split_asm)
  then show ?thesis
    using s1_walk_fault [of "levels vm" "ptbase vm" vm addr ty mode mxr s p t] unfolding walk_def if_False assms(2) and_then_simps Let_def s2xlate_def
    by (auto split: if_split_asm)
qed

text \<open>C2: A translation without a guest succeeds exactly when the entries for the address lead, from the
  root table on, to a leaf that allows the access and physical memory protection allows it at the
  address the leaf gives; the walk of \<open>mmu_t\<close> is this specification.\<close>

theorem translation_follows_tables:
  assumes "effective_mode ty flags p = (mode, False, mxr)"
    and "decode_vm_info (max_xlen (cfg p)) False mode (satp (csr p)) = Inr vm" "levels vm \<noteq> 0"
    and "va_canonical (cur_xlen p) (PGSHIFT + levels vm * idxbits vm) addr"
  shows "translate addr len ty flags s p = Inr x \<longleftrightarrow>
    (\<exists>i pte. pte_path s p vm addr (levels vm) (ptbase vm) i pte \<and>
       leaf_allows ty mode mxr (get_field (mstatus p) MSTATUS_SUM \<noteq> 0) (i * idxbits vm) pte \<and>
       x = leaf_address vm i addr pte \<and> pmp_ok x len ty mode p)"
  by (rule translate_path [OF assms])

text \<open>C28: A translation without a guest that fails throws a page fault or an access fault of the kind of
  the access, at its address; an address that is not canonical is a page fault.\<close>

theorem translation_faults:
  assumes "effective_mode ty flags p = (mode, False, mxr)"
    and "decode_vm_info (max_xlen (cfg p)) False mode (satp (csr p)) = Inr vm"
  shows "(translate addr len ty flags s p = Inl t \<longrightarrow> t = page_fault ty addr \<or> t = access_fault ty addr) \<and>
    (levels vm \<noteq> 0 \<and> \<not> va_canonical (cur_xlen p) (PGSHIFT + levels vm * idxbits vm) addr \<longrightarrow>
       translate addr len ty flags s p = Inl (page_fault ty addr))"
  using translate_fault [OF assms] assms by (simp add: translate_def walk_def)

section \<open>Protection\<close>

text \<open>C7: The scan of \<open>pmp_ok\<close> over entries and four-byte sectors, with its masks computed from trailing
  ones, grants an aligned access exactly when the first entry whose region meets it covers it and
  permits it.\<close>

theorem protection_is_first_match:
  assumes "len dvd unat addr" "access_size len"
  shows "pmp_ok addr len type mode p = pmp_spec addr len type mode p"
  by (rule pmp_ok_spec [OF assms])

text \<open>C17: When \<open>pmp_homogeneous\<close> says that a page is, every two accesses inside the page get the same
  answer from \<open>pmp_ok\<close>; only such pages are cached.\<close>

theorem homogeneous_page_one_answer:
  assumes "pmp_homogeneous (x AND NOT 4095) 4096 p = Inr True" "in_page x a len" "in_page x a' len'"
  shows "pmp_ok a len type mode p = pmp_ok a' len' type mode p"
  by (rule pmp_homogeneous_sound [OF assms])

section \<open>The buffer\<close>

text \<open>C1: An aligned load through the translation buffer gives the value, or throws the exception, that the
  same load gives by a walk of the tables, and leaves a machine that differs in the buffer only, with
  the invariant of the buffer kept.\<close>

theorem loads_through_buffer:
  assumes "machine_ok m" "z \<in> {1, 2, 4, 8}" "\<not> misaligned addr z" "sg \<longrightarrow> \<not> trigger_flag LOAD (mmu m)"
  shows "same_run (load_func sg z 0 addr m) (arch_load sg z addr m) \<and> machine_ok (snd (load_func sg z 0 addr m))"
  by (rule load_func_arch [OF assms])

text \<open>C10: An aligned store through the translation buffer throws what the same store throws by a walk of the
  tables, and otherwise leaves the same memory, devices and hart.\<close>

theorem stores_through_buffer:
  assumes "machine_ok m" "z \<in> {1, 2, 4, 8}" "\<not> misaligned addr z"
  shows "same_run (store_func z 0 addr v m) (arch_store z addr v m)"
  by (rule store_func_arch [OF assms])

text \<open>C27: A halfword fetched through the translation buffer is the one a walk of the tables leads to, and the
  fetch keeps the invariant of the buffer, on a hart without triggers on execution.\<close>

theorem fetches_through_buffer:
  assumes "machine_ok m" "\<not> trigger_flag FETCH (mmu m)" "\<not> misaligned addr 2"
  shows "same_run (fetch_half addr m) (arch_fetch addr m) \<and> machine_ok (snd (fetch_half addr m))"
  by (rule fetch_half_arch [OF assms])

section \<open>Atomics\<close>

definition unguarded :: "hart \<Rightarrow> bool" where
  "unguarded p = (\<not> virt p \<and> (\<exists>vm. decode_vm_info (max_xlen (cfg p)) False (prv p) (satp (csr p)) = Inr vm))"

lemma translate_run_fault:
  assumes "machine_ok m" "unguarded (core m)" "fst (translate_run addr len ty 0 m) = Inl (Trap t)"
  shows "t = page_fault ty addr \<or> t = access_fault ty addr"
proof -
  have e: "effective_mode ty 0 (core m) = (prv (core m), False, get_field (mstatus (core m)) MSTATUS_MXR \<noteq> 0)"
    using regularD(4) [of m ty] assms(1,2) by (simp add: machine_ok_def unguarded_def)
  obtain vm where "decode_vm_info (max_xlen (cfg (core m))) False (prv (core m)) (satp (csr (core m))) = Inr vm"
    using assms(2) by (auto simp: unguarded_def)
  then show ?thesis
    using translate_fault [OF e] assms(3)
    by (auto simp: translate_run_def of_trap_def throw_def ret_def split: sum.split_asm)
qed

lemma bind_fault: "fst (bind_run r k m) = Inl e \<Longrightarrow> fst (r m) = Inl e \<or> (\<exists>x m'. r m = (Inr x, m') \<and> fst (k x m') = Inl e)"
  by (cases "r m"; cases "fst (r m)") (auto simp: bind_run_def)

lemma check_no_trap: "fst (check_trigger op a d m) \<noteq> Inl (Trap t)"
  by (auto simp: check_trigger_eq Let_def split: option.split)

lemma on_devices_Inr: "\<exists>x p s. on_devices f m = (Inr x, m\<lparr>host := s, core := csr_update (mip_update (\<lambda>_. p)) (core m)\<rparr>)"
  by (cases "f ((host m)\<lparr>mips := (mips (host m))[core_id m := mip (csr (core m))]\<rparr>)") (auto simp: on_devices_def Let_def)

text \<open>A load throws faults of a load at its address and leaves the translation state.\<close>

lemma arch_load_fault:
  fixes m :: "'f machine"
  assumes "machine_ok m" "unguarded (core m)" "fst (arch_load sg z addr m) = Inl (Trap t)"
  shows "t = page_fault LOAD addr \<or> t = access_fault LOAD addr"
proof -
  consider "fst (translate_run addr z LOAD 0 m) = Inl (Trap t)" | x and m1 :: "'f machine" where "fst (load_bytes addr z x m1) = Inl (Trap t)"
    using bind_fault [OF assms(3) [unfolded arch_load_def]]
    by (auto dest!: bind_fault simp: check_no_trap ret_def)
  then show ?thesis
  proof cases
    case 1
    then show ?thesis by (rule translate_run_fault [OF assms(1,2)])
  next
    case 2
    have "fst (mmio_load x z m1) \<noteq> Inl e" for e
      using on_devices_Inr [of "sim_mmio_load x z" m1] by (auto simp: mmio_load_def ret_def)
    then have "t = Trap_load_access_fault addr 0 0"
      using 2 by (auto simp: load_bytes_def ret_def throw_def dest!: bind_fault split: option.split_asm)
    then show ?thesis by (simp add: access_fault_def)
  qed
qed

lemma arch_store_fault:
  fixes m :: "'f machine"
  assumes "machine_ok m" "unguarded (core m)" "fst (arch_store z addr v m) = Inl (Trap t)"
  shows "t = page_fault STORE addr \<or> t = access_fault STORE addr"
proof -
  consider "fst (translate_run addr z STORE 0 m) = Inl (Trap t)" | x bs and m1 :: "'f machine" where "fst (store_bytes addr bs x m1) = Inl (Trap t)"
    using bind_fault [OF assms(3) [unfolded arch_store_def]]
    by (auto dest!: bind_fault simp: check_no_trap ret_def)
  then show ?thesis
  proof cases
    case 1
    then show ?thesis by (rule translate_run_fault [OF assms(1,2)])
  next
    case 2
    have "fst (mmio_store x bs m1) \<noteq> Inl e" for e
      using on_devices_Inr [of "sim_mmio_store x bs" m1] by (auto simp: mmio_store_def ret_def)
    then have "t = Trap_store_access_fault addr 0 0"
      using 2 by (auto simp: store_bytes_def ret_def throw_def dest!: bind_fault split: option.split_asm if_split_asm)
    then show ?thesis by (simp add: access_fault_def)
  qed
qed

lemma arch_load_unguarded:
  assumes "arch_load sg z addr m = (Inr v, m')" "unguarded (core m)"
  shows "unguarded (core m')"
proof -
  have k: "unguarded (csr_update (mip_update (\<lambda>_. p)) (core n)) = unguarded (core n)" for p and n :: "'a machine"
    by (simp add: unguarded_def)
  have c: "check_trigger op a d n = (Inr u, n') \<Longrightarrow> n' = n" for op a d n u and n' :: "'a machine"
    by (rule check_trigger_Inr)
  have l: "unguarded (core n')" if "load_bytes addr z x m = (Inr bs, n')" for x bs n'
    using that assms(2) k on_devices_Inr [of "sim_mmio_load x z" m]
    by (auto simp: load_bytes_def bind_run_def mmio_load_def ret_def throw_def split: option.split_asm if_split_asm)
  show ?thesis
    using assms(1) unfolding arch_load_def bind_run_def translate_run_def of_trap_def
    by (auto simp: ret_def throw_def dest!: c dest: l split: prod.split_asm sum.split_asm)
qed

lemma amo_fault:
  assumes m: "machine_ok m" "unguarded (core m)" and z: "z \<in> {1, 2, 4, 8}" "\<not> misaligned addr z"
    and t: "fst (amo_func z addr f m) = Inl (Trap t)"
  shows "t = page_fault STORE addr \<or> t = access_fault STORE addr"
proof -
  obtain e where e: "as_store_fault e = Trap t"
      "fst (bind_run (load_func False z 0 addr) (\<lambda>lhs. bind_run (store_func z 0 addr (f lhs)) (\<lambda>_. ret lhs)) m) = Inl e"
    using t z(2) by (auto simp: amo_func_def catch_run_def split: prod.split_asm sum.split_asm)
  obtain u where u: "e = Trap u" using e(1) by (cases e) (auto simp: as_store_fault_def)
  have lf: "same_run (load_func False z 0 addr m) (arch_load False z addr m)" "machine_ok (snd (load_func False z 0 addr m))"
    using load_func_arch [OF m(1) z, of False] by simp_all
  have "u = page_fault LOAD addr \<or> u = access_fault LOAD addr \<or> u = page_fault STORE addr \<or> u = access_fault STORE addr"
  proof (cases "fst (load_func False z 0 addr m)")
    case (Inl x)
    then have "fst (arch_load False z addr m) = Inl (Trap u)"
      using bind_fault [OF e(2)] lf(1) u by (elim disjE exE conjE) (simp_all add: same_run_def)
    then show ?thesis using arch_load_fault [OF m] by blast
  next
    case (Inr x)
    then obtain m' where m': "load_func False z 0 addr m = (Inr x, m')" by (cases "load_func False z 0 addr m") simp
    then obtain n' where n': "arch_load False z addr m = (Inr x, n')" "core m' = core n'"
      using lf(1) by (cases "arch_load False z addr m") (auto simp: same_run_def alike_def)
    have s: "fst (store_func z 0 addr (f x) m') = Inl (Trap u)"
      using e(2) u by (auto simp: bind_apply(2) [where r = "load_func False z 0 addr", OF m'] ret_def dest!: bind_fault)
    have ok: "machine_ok m'" "unguarded (core m')" using lf(2) m' arch_load_unguarded [OF n'(1) m(2)] n'(2) by simp_all
    have "fst (arch_store z addr (f x) m') = Inl (Trap u)"
      using store_func_arch [OF ok(1) z, of "f x"] s by (simp add: same_run_def)
    then show ?thesis using arch_store_fault [OF ok] by blast
  qed
  then show ?thesis using e(1) u by (auto simp: as_store_fault_def page_fault_def access_fault_def)
qed

text \<open>C16: An atomic memory operation on a hart without a guest throws store faults only, at its address, although
  it loads first; a misaligned one does not touch memory.\<close>

theorem amo_faults_are_store_faults:
  assumes "machine_ok m" "unguarded (core m)" "z \<in> {4, 8}" "fst (amo_func z addr f m) = Inl (Trap t)"
  shows "if misaligned addr z then t = Trap_store_address_misaligned addr 0 0 \<and> snd (amo_func z addr f m) = m
    else t = Trap_store_page_fault addr 0 0 \<or> t = Trap_store_access_fault addr 0 0"
proof (cases "misaligned addr z")
  case True
  then show ?thesis using assms(4) by (simp add: amo_func_def throw_def)
next
  case False
  then show ?thesis
    using amo_fault [OF assms(1,2) _ False assms(4)] assms(3) by (auto simp: page_fault_def access_fault_def)
qed

section \<open>Memory\<close>

text \<open>Without translation tables memory has no say in translation, and a store keeps the invariant.\<close>

definition bare :: "hart \<Rightarrow> bool" where
  "bare p = (\<not> virt p \<and> decode_vm_info (max_xlen (cfg p)) False (prv p) (satp (csr p)) = Inr vm_off)"

lemma translate_bare:
  assumes "regular m" "bare (core m)"
  shows "translate a len ty 0 s (core m) = translate a len ty 0 s' (core m)"
  unfolding translate_def regularD(4) [OF assms(1)]
  using assms(2) by (simp add: walk_def bare_def vm_off_def s2xlate_def)

lemma machine_ok_write:
  assumes "machine_ok m" "bare (core m)"
  shows "machine_ok (m\<lparr>host := mem_write b off bs (host m)\<rparr>)"
proof -
  let ?n = "m\<lparr>host := mem_write b off bs (host m)\<rparr>"
  have r: "regular m" using assms(1) by (simp add: machine_ok_def)
  have "translate a len ty 0 (host ?n) (core m) = translate a len ty 0 (host m) (core m)" for a len ty
    by (rule translate_bare [OF r assms(2)])
  then have "entry_ok ty ?n e a = entry_ok ty m e a" for ty e a by (simp add: entry_ok_def)
  then have "tlb_ok ?n" using assms(1) by (simp add: machine_ok_def tlb_ok_def)
  moreover have "regular ?n" using r by (simp add: regular_def Let_def)
  moreover have "triggers_ok ?n" using assms(1) by (simp add: machine_ok_def triggers_ok_def)
  ultimately show ?thesis by (simp add: machine_ok_def)
qed

text \<open>A store to memory on a machine without a trigger on stores.\<close>

lemma bare_store:
  assumes m: "machine_ok m" "bare (core m)" "\<not> trigger_flag STORE (mmu m)"
    and z: "z \<in> {1, 2, 4, 8}" "\<not> misaligned addr z"
    and x: "translate addr z STORE 0 (host m) (core m) = Inr x" "addr_to_mem x (host m) = Some q"
  shows "\<exists>m1. store_func z 0 addr v m = (Inr (), m1) \<and> machine_ok m1 \<and> alike m1 (host_write q (le_bytes z v) m)"
proof -
  let ?n = "host_write q (le_bytes z v) m"
  obtain b off where q: "q = Mem_ptr b off" using mem_ptr [OF x(2)] by blast
  have n: "machine_ok ?n" unfolding q host_write.simps by (rule machine_ok_write [OF m(1,2)])
  have c: "check_trigger OPERATION_STORE addr (typed False z v) m = (Inr (), m)"
    using check_no_trigger [of m STORE] m(1,3) by (simp add: machine_ok_def operation_of_def)
  have arch: "arch_store z addr v m = (Inr (), ?n)"
    by (simp add: arch_store_def bind_run_def translate_run_def of_trap_def x ret_def c store_bytes_def)
  show ?thesis
  proof (cases "tag_hit (tlb_store_tag (mmu m) (tlb_index addr)) addr")
    case True
    then show ?thesis using store_hit [OF m(1) aligned_in_page [OF z] z(2) True, of v] arch n by auto
  next
    case False
    have p: "in_page addr addr z" by (rule aligned_in_page [OF z])
    have "translate addr z STORE 0 (host ?n) (core ?n) = Inr x"
      using translate_bare [of m addr z STORE "host ?n" "host m"] m x(1) by (simp add: q machine_ok_def)
    moreover have "addr_to_mem x (host ?n) = Some q" using x(2) by (simp add: q)
    ultimately obtain u where u: "refill_tlb addr x q STORE ?n = (Inr \<lparr>host_offset = ptr_add q (- addr), target_offset = x - addr\<rparr>, ?n\<lparr>mmu := u\<rparr>)"
        "machine_ok (?n\<lparr>mmu := u\<rparr>)" "alike (?n\<lparr>mmu := u\<rparr>) ?n"
      using refill_machine_ok [OF n _ _ p] by blast
    have "store_func z 0 addr v m = store_slow_path addr (le_bytes z v) 0 m"
      using False z(2) unfolding store_func_def flush_if_def tag_hit_def
      by (simp add: Let_def bind_run_def [of "\<lambda>m. if _ m then _ m else _ m"]) (simp add: bind_run_def ret_def split: prod.split sum.split)
    also have "\<dots> = (if traced x (x + PGSIZE) STORE ?n then (Inr (), ?n) else (Inr (), ?n\<lparr>mmu := u\<rparr>))"
      by (simp add: store_slow_path_def Let_def bind_run_def translate_run_def of_trap_def x ret_def stored_value [OF z(1)] c u(1))
    finally show ?thesis using n u(2,3) by auto
  qed
qed

lemma written_value:
  assumes "bus_ok (host m)" "addr_to_mem x (host m) = Some q" "z \<le> 8" "alike m1 (host_write q (le_bytes z v) m)"
  shows "le_word (host_read q z m1) = take_bit (8 * z) v"
proof -
  obtain b off where q: "q = Mem_ptr b off" using mem_ptr [OF assms(2)] by blast
  then obtain sz f where "find_device x (devices (host m)) = Some (b, Mem_dev sz f)"
    using assms(2) by (auto simp: addr_to_mem_def split: if_split_asm option.split_asm device.split_asm)
  then have "map_of (devices (host m)) b = Some (Mem_dev sz f)" by (rule map_of_find [OF assms(1)])
  then have "mem_contents b (mem_write b off (le_bytes z v) (host m)) = put_bytes off (le_bytes z v) (mem_contents b (host m))"
    by (simp add: mem_contents_write)
  moreover have "host m1 = mem_write b off (le_bytes z v) (host m)" using assms(4) by (simp add: alike_def q)
  ultimately show ?thesis using ram.get_value [OF assms(3)] by (simp add: q mem_read_dev)
qed

text \<open>C21: Without translation tables, an aligned store to memory and a load of the same size from the same
  address give the stored value back, truncated to the size and extended as the load asks; the bytes go
  through the translation buffer and the host's memory both times.\<close>

theorem store_load_roundtrip:
  assumes "machine_ok m" "bare (core m)" "\<not> trigger_flag STORE (mmu m)" "\<not> trigger_flag LOAD (mmu m)"
    and "z \<in> {1, 2, 4, 8}" "\<not> misaligned addr z"
    and "translate addr z STORE 0 (host m) (core m) = Inr x" "addr_to_mem x (host m) = Some q"
    and "translate addr z LOAD 0 (host m) (core m) = Inr y"
  shows "\<exists>m1 m2. store_func z 0 addr v m = (Inr (), m1) \<and> load_func sg z 0 addr m1 = (Inr (typed sg z v), m2)"
proof -
  obtain m1 where m1: "store_func z 0 addr v m = (Inr (), m1)" "machine_ok m1" "alike m1 (host_write q (le_bytes z v) m)"
    using bare_store [OF assms(1,2,3,5,6,7,8)] by blast
  obtain b off where q: "q = Mem_ptr b off" using mem_ptr [OF assms(8)] by blast
  have r: "regular m" using assms(1) by (simp add: machine_ok_def)
  have y: "y = x" "addr_to_mem y (host m) = Some q"
    using translation_page [OF r assms(7,8) refl assms(9)] by simp_all
  have c: "core m1 = core m" and h: "host m1 = mem_write b off (le_bytes z v) (host m)" and f: "trigger_flag LOAD (mmu m1) = trigger_flag LOAD (mmu m)"
    using m1(3) no_buffer_fields(3) by (auto simp: alike_def q trigger_flag_def)
  have "translate addr z LOAD 0 (host m1) (core m1) = Inr x"
    using translate_bare [OF r assms(2), of addr z LOAD "host m1" "host m"] assms(9) y(1) c by simp
  moreover have "addr_to_mem x (host m1) = Some q" using y by (simp add: h)
  moreover have z8: "z \<le> 8" using assms(5) by auto
  then have v: "le_word (host_read q z m1) = take_bit (8 * z) v"
    using written_value [OF regularD(1) [OF r] assms(8) _ m1(3)] by blast
  moreover have "check_trigger OPERATION_LOAD addr d m1 = (Inr (), m1)" for d
    using check_no_trigger [of m1 LOAD] m1(2) assms(4) f by (simp add: machine_ok_def operation_of_def)
  ultimately have "arch_load sg z addr m1 = (Inr (typed sg z (take_bit (8 * z) v)), m1)"
    by (simp add: arch_load_def bind_run_def translate_run_def of_trap_def ret_def load_bytes_def)
  moreover have "typed sg z (take_bit (8 * z) v) = typed sg z v"
    using assms(5) by (auto simp: typed_def signed_take_bit_take_bit)
  moreover have "same_run (load_func sg z 0 addr m1) (arch_load sg z addr m1)"
    using load_func_arch [OF m1(2) assms(5,6), of sg] assms(4) f by simp
  ultimately show ?thesis using m1(1) by (cases "load_func sg z 0 addr m1") (simp add: same_run_def)
qed

text \<open>C32: Whether a misaligned load is an exception depends on the buffer: inside one page of memory it gives the
  bytes that memory holds at the translated address when the page is cached, and is a
  misaligned-address exception when it is not.\<close>

theorem misaligned_load_depends_on_buffer:
  assumes "machine_ok m" "\<not> trigger_flag LOAD (mmu m)" "z \<in> {2, 4, 8}" "misaligned addr z" "in_page addr addr z"
    and "tag_hit (tlb_load_tag (mmu m) (tlb_index addr)) addr"
  shows "\<exists>x base off. translate addr z LOAD 0 (host m) (core m) = Inr x \<and> addr_to_mem x (host m) = Some (Mem_ptr base off) \<and>
    fst (load_func sg z 0 addr m) = Inr (typed sg z (le_word (mem_read base off z (host m)))) \<and>
    fst (load_func sg z 0 addr (m\<lparr>mmu := flush_tlb (mmu m)\<rparr>)) = Inl (Trap (Trap_load_address_misaligned addr 0 0))"
proof -
  let ?n = "m\<lparr>mmu := flush_tlb (mmu m)\<rparr>"
  have z: "z \<in> {1, 2, 4, 8}" using assms(3) by auto
  have n: "machine_ok ?n"
    using assms(1) tlb_ok_flush by (auto simp: machine_ok_def regular_def triggers_ok_def Let_def flush_tlb_def flush_icache_def)
  have f: "\<not> trigger_flag LOAD (mmu ?n)" using assms(2) by (simp add: trigger_flag_def flush_tlb_def flush_icache_def)
  obtain x where x: "translate addr z LOAD 0 (host m) (core m) = Inr x" "addr_to_mem x (host m) = Some (tlb_ptr addr m)"
    using hit_entry [OF assms(1) _ assms(5), of LOAD] assms(6) by (auto simp: tlb_tag_def)
  have c: "check_trigger OPERATION_LOAD addr d k = (Inr (), k)" if "machine_ok k" "\<not> trigger_flag LOAD (mmu k)" for d and k :: "'a machine"
    using check_no_trigger [of k LOAD] that by (simp add: machine_ok_def operation_of_def)
  have "fst (load_func sg z 0 addr m) = Inr (typed sg z (le_word (host_read (tlb_ptr addr m) z m)))"
    using load_hit [OF assms(1,5) _ assms(6), of sg] assms(2) c [OF assms(1,2)]
    by (simp add: arch_load_def bind_run_def translate_run_def of_trap_def x ret_def load_bytes_def)
  moreover have "fst (load_func sg z 0 addr ?n) = Inl (Trap (Trap_load_address_misaligned addr 0 0))"
  proof -
    let ?q = "tlb_ptr addr m"
    obtain u where u: "refill_tlb addr x ?q LOAD ?n = (Inr \<lparr>host_offset = ptr_add ?q (- addr), target_offset = x - addr\<rparr>, ?n\<lparr>mmu := u\<rparr>)"
        "machine_ok (?n\<lparr>mmu := u\<rparr>)" "alike (?n\<lparr>mmu := u\<rparr>) ?n"
      using refill_machine_ok [OF n, of addr z LOAD x ?q] x assms(5) by auto
    have t: "tlb_load_tag (flush_tlb w) i = - 1" for w :: "'a mmu_t" and i by (simp add: flush_tlb_def flush_icache_def)
    have "\<not> trigger_flag LOAD u" using u(3) f no_buffer_fields(3) by (auto simp: alike_def trigger_flag_def)
    then have cu: "check_trigger OPERATION_LOAD addr d (?n\<lparr>mmu := u\<rparr>) = (Inr (), ?n\<lparr>mmu := u\<rparr>)" for d
      using c [OF u(2)] by simp
    have "load_func sg z 0 addr ?n =
      bind_run (load_slow_path addr z 0) (\<lambda>bytes. throw (Trap (Trap_load_address_misaligned addr 0 0))) ?n"
      unfolding load_func_def flush_if_def using assms(4) by (simp add: Let_def t)
    then show ?thesis
      using x(1,2) u(1) cu c [OF n f]
      by (simp add: bind_run_def load_slow_path_def translate_run_def of_trap_def ret_def throw_def reg_from_bytes_ok [OF z])
  qed
  moreover obtain base off where "tlb_ptr addr m = Mem_ptr base off" using mem_ptr [OF x(2)] by blast
  ultimately show ?thesis using x by (intro exI [of _ x] exI [of _ base] exI [of _ off]) simp
qed

section \<open>The loop\<close>

text \<open>C22: A pass of the loop of \<open>step\<close> that goes on never has more instructions left than before, and when
  some are left the machine is ready for the next pass; unless a trigger has stopped the pass, the
  potential - three times the instructions left and the weight of the hart - has come down: the pass has retired an
  instruction, or made the hart serialized, or ended a single step. A pass a trigger stops may do none of these.\<close>

theorem pass_makes_progress:
  assumes "signals_ok call" "ready m" "pass call intrs debug n m = (Goes_on n', m')"
  shows "n' \<le> n \<and> (n' = 0 \<or> ready m' \<and>
    (stopped_by_trigger call intrs debug n m \<or> 3 * n' + weight (core m') < 3 * n + weight (core m)))"
  by (rule pass_potential [OF assms])

text \<open>C6: Only triggers can keep \<open>step\<close> from returning: when a trigger stops at most \<open>k\<close> of the passes of its
  outer loop, \<open>(3n + 3)(k + 1)\<close> passes are enough for a batch of \<open>n\<close> instructions, whatever they do, with any
  interrupt asserted, after any request to halt. The law of the instructions the loop relies on is proved of
  the modelled ones (\<open>modelled_signals\<close>).\<close>

theorem step_terminates:
  assumes "signals_ok call" "ready m" "trigger_stops fuel call intrs debug n (entered r m) \<le> k" "(3 * n + 3) * (k + 1) \<le> fuel"
  shows "step fuel call intrs r debug n m \<noteq> None"
proof -
  have "(3 * n + 3) * (trigger_stops fuel call intrs debug n (entered r m) + 1) \<le> (3 * n + 3) * (k + 1)"
    by (rule mult_le_mono2) (use assms(3) in simp)
  then show ?thesis using assms(4) by (intro step_enough_fuel [OF assms(1,2)]) (rule le_trans)
qed

section \<open>Concrete machines\<close>

text \<open>A machine with twelve kilobytes of memory, which begins with a page table whose first entry maps the
  first gigabyte of the address space; the boot hart, and a supervisor that uses the table and may access
  all memory.\<close>

definition small_sim :: sim where
  "small_sim =
     \<lparr>devices = [(0x80000000, Mem_dev 0x3000 (\<lambda>a. if a = 0 then 0xCF else if a = 3 then 0x20 else 0))],
      clint = \<lparr>mtime = 0, mtimecmp = [0], real_time = False, freq_hz = 10000000, diff_usecs = 0\<rparr>, mips = [0]\<rparr>"

definition paged_hart :: hart where
  "paged_hart =
     csr_update (\<lambda>c. c\<lparr>satp := 0x8000000000080000, pmpcfg := (pmpcfg c)[0 := 0x1F], pmpaddr := (pmpaddr c)[0 := - 1]\<rparr>)
       (boot_hart\<lparr>prv := PRV_S\<rparr>)"

definition blank_mmu :: "string mmu_t" where
  "blank_mmu =
     \<lparr>load_reservation_address = 0, fetch_temp = 0, icache = \<lambda>_. \<lparr>ic_tag = 0, ic_next = 0, ic_func = ''illegal_instruction'', ic_insn = 0\<rparr>,
      tlb_data = \<lambda>_. \<lparr>host_offset = Fetch_ptr 0, target_offset = 0\<rparr>, tlb_insn_tag = \<lambda>_. 0, tlb_load_tag = \<lambda>_. 0, tlb_store_tag = \<lambda>_. 0,
      check_triggers_fetch = False, check_triggers_load = False, check_triggers_store = False, matched_trigger = None, tracers = []\<rparr>"

definition machine_of :: "hart \<Rightarrow> string machine" where
  "machine_of p = \<lparr>core = p, core_id = 0, mmu = mmu_init blank_mmu, decoder = \<lparr>dc_instructions = [], dc_cache = \<lambda>_. \<lparr>id_match = 0, id_mask = 0, id_rv32 = ''illegal_instruction'', id_rv64 = ''illegal_instruction''\<rparr>\<rparr>, host = small_sim\<rparr>"

lemma machine_of_simps [simp]:
  "core (machine_of p) = p" "host (machine_of p) = small_sim" "mmu (machine_of p) = mmu_init blank_mmu"
  by (simp_all add: machine_of_def)

lemma mmu_init_tag [simp]: "tlb_tag ty (mmu_init u) i = - 1"
  by (cases ty) (simp_all add: tlb_tag_def mmu_init_def flush_tlb_def flush_icache_def)

lemma mmu_init_flag [simp]: "\<not> trigger_flag ty (mmu_init u)"
  by (cases ty) (simp_all add: trigger_flag_def mmu_init_def flush_tlb_def flush_icache_def)

lemma bus_ok_small: "bus_ok small_sim"
  by (simp add: bus_ok_def small_sim_def device_ok_def page_aligned_def)

lemma mcontrol_harts: "mcontrol (csr boot_hart) = replicate num_triggers mcontrol_reset" "mcontrol (csr paged_hart) = replicate num_triggers mcontrol_reset"
  by (simp_all add: boot_hart_def paged_hart_def csrs_reset_def)

lemma triggers_ok_of: "mcontrol (csr p) = replicate num_triggers mcontrol_reset \<Longrightarrow> triggers_ok (machine_of p)"
  by (simp add: triggers_ok_def mmu_init_def flush_tlb_def flush_icache_def mcontrol_reset_def Let_def list_ex_iff)

lemma decode_harts:
  "decode_vm_info (max_xlen (cfg boot_hart)) False (prv boot_hart) (satp (csr boot_hart)) = Inr vm_off"
  "decode_vm_info (max_xlen (cfg paged_hart)) False (prv paged_hart) (satp (csr paged_hart)) =
     Inr \<lparr>levels = 3, idxbits = 9, widenbits = 0, ptesize = 8, ptbase = 0x80000000\<rparr>"
  by code_simp+

lemma regular_harts: "regular (machine_of boot_hart)" "regular (machine_of paged_hart)"
proof -
  have "\<not> virt boot_hart" "cur_xlen boot_hart = 64" "get_field (mstatus boot_hart) MSTATUS_MPRV = 0"
    "\<not> virt paged_hart" "cur_xlen paged_hart = 64" "get_field (mstatus paged_hart) MSTATUS_MPRV = 0"
    by code_simp+
  then show "regular (machine_of boot_hart)" "regular (machine_of paged_hart)"
    using decode_harts bus_ok_small by (simp_all add: regular_def page_canonical_def Let_def vm_off_def)
qed

lemma machine_ok_harts: "machine_ok (machine_of boot_hart)" "machine_ok (machine_of paged_hart)"
  using regular_harts triggers_ok_of mcontrol_harts by (simp_all add: machine_ok_def tlb_ok_def)

lemma boot_translations:
  "translate 0x80000100 8 STORE 0 small_sim boot_hart = Inr 0x80000100"
  "translate 0x80000100 8 LOAD 0 small_sim boot_hart = Inr 0x80000100"
  "addr_to_mem 0x80000100 small_sim = Some (Mem_ptr 0x80000000 0x100)"
  "translate 0x1238 8 LOAD 0 small_sim paged_hart = Inr 0x80001238"
  by code_simp+

abbreviation (input) sv39 :: vm_info where
  "sv39 \<equiv> \<lparr>levels = 3, idxbits = 9, widenbits = 0, ptesize = 8, ptbase = 0x80000000\<rparr>"

lemma paged_mode: "effective_mode LOAD 0 paged_hart = (PRV_S, False, False)" "prv paged_hart = PRV_S"
  by code_simp+

theorem translation_follows_tables_witness:
  "\<exists>i pte. pte_path small_sim paged_hart sv39 0x1238 3 0x80000000 i pte \<and> 0x80001238 = leaf_address sv39 i 0x1238 pte"
proof -
  have c: "va_canonical (cur_xlen paged_hart) (PGSHIFT + levels sv39 * idxbits sv39) 0x1238" by code_simp
  show ?thesis
    using translation_follows_tables [OF paged_mode(1) decode_harts(2) [unfolded paged_mode(2)] _ c, where len = 8 and s = small_sim and x = "0x80001238"]
      boot_translations(4) by auto
qed

lemma far_address: "translate 0x4000000000 8 LOAD 0 small_sim paged_hart = Inl (Trap_load_page_fault 0x4000000000 0 0)"
  by code_simp

theorem translation_faults_witness:
  "translate 0x4000000000 8 LOAD 0 small_sim paged_hart = Inl (Trap_load_page_fault 0x4000000000 0 0)"
proof -
  have c: "\<not> va_canonical (cur_xlen paged_hart) (PGSHIFT + levels sv39 * idxbits sv39) 0x4000000000" by code_simp
  show ?thesis
    using translation_faults [OF paged_mode(1) decode_harts(2) [unfolded paged_mode(2)], of "0x4000000000" 8 small_sim] c
    by (simp add: page_fault_def)
qed

theorem protection_is_first_match_witness: "pmp_spec 0x80000100 8 LOAD PRV_S paged_hart"
proof -
  have "pmp_ok 0x80000100 8 LOAD PRV_S paged_hart" by code_simp
  then show ?thesis using protection_is_first_match [of 8 "0x80000100" LOAD PRV_S paged_hart] by (simp add: access_size_def)
qed

theorem homogeneous_page_one_answer_witness:
  "pmp_ok 0x80000100 8 STORE PRV_S paged_hart = pmp_ok 0x80000ff8 4 STORE PRV_S paged_hart"
proof (rule homogeneous_page_one_answer [where x = "0x80000123"])
  show "pmp_homogeneous (0x80000123 AND NOT 4095) 4096 paged_hart = Inr True" by code_simp
qed (simp_all add: in_page_def)

theorem loads_through_buffer_witness:
  "same_run (load_func True 8 0 0x1238 (machine_of paged_hart)) (arch_load True 8 0x1238 (machine_of paged_hart)) \<and>
   machine_ok (snd (load_func True 8 0 0x1238 (machine_of paged_hart)))"
  by (rule loads_through_buffer [OF machine_ok_harts(2)]) (simp_all add: misaligned_def)

theorem stores_through_buffer_witness:
  "same_run (store_func 4 0 0x80000104 7 (machine_of boot_hart)) (arch_store 4 0x80000104 7 (machine_of boot_hart))"
  by (rule stores_through_buffer [OF machine_ok_harts(1)]) (simp_all add: misaligned_def)

theorem fetches_through_buffer_witness:
  "same_run (fetch_half 0x1002 (machine_of paged_hart)) (arch_fetch 0x1002 (machine_of paged_hart)) \<and>
   machine_ok (snd (fetch_half 0x1002 (machine_of paged_hart)))"
  by (rule fetches_through_buffer [OF machine_ok_harts(2)]) (simp_all add: misaligned_def)

theorem amo_faults_are_store_faults_witness:
  "\<exists>t. fst (amo_func 8 0x4000000000 (\<lambda>v. v + 1) (machine_of paged_hart)) = Inl (Trap t) \<and>
     (t = Trap_store_page_fault 0x4000000000 0 0 \<or> t = Trap_store_access_fault 0x4000000000 0 0)"
proof -
  let ?m = "machine_of paged_hart"
  have "fst (arch_load False 8 0x4000000000 ?m) = Inl (Trap (Trap_load_page_fault 0x4000000000 0 0))"
    by (simp add: arch_load_def bind_run_def translate_run_def of_trap_def far_address throw_def)
  moreover have "same_run (load_func False 8 0 0x4000000000 ?m) (arch_load False 8 0x4000000000 ?m)"
    using load_func_arch [OF machine_ok_harts(2), of 8 "0x4000000000" False] by (simp add: misaligned_def)
  ultimately have "fst (load_func False 8 0 0x4000000000 ?m) = Inl (Trap (Trap_load_page_fault 0x4000000000 0 0))"
    by (simp add: same_run_def)
  then obtain t where t: "fst (amo_func 8 0x4000000000 (\<lambda>v. v + 1) ?m) = Inl (Trap t)"
    by (cases "load_func False 8 0 0x4000000000 ?m") (simp add: amo_func_def misaligned_def catch_run_def bind_run_def as_store_fault_def)
  have "\<not> virt paged_hart" by code_simp
  then have "unguarded (core ?m)" using decode_harts(2) by (simp add: unguarded_def)
  then show ?thesis
    using amo_faults_are_store_faults [OF machine_ok_harts(2) _ _ t] t by (simp add: misaligned_def)
qed

theorem store_load_roundtrip_witness:
  "\<exists>m1 m2. store_func 8 0 0x80000100 0x1122334455667788 (machine_of boot_hart) = (Inr (), m1) \<and>
     load_func False 8 0 0x80000100 m1 = (Inr 0x1122334455667788, m2)"
proof -
  have "\<not> virt boot_hart" by code_simp
  then have b: "bare (core (machine_of boot_hart))" using decode_harts(1) by (simp add: bare_def)
  have "typed False 8 0x1122334455667788 = 0x1122334455667788" by (simp add: typed_def)
  then show ?thesis
    using store_load_roundtrip [OF machine_ok_harts(1) b, of 8 "0x80000100" "0x80000100" "Mem_ptr 0x80000000 0x100" "0x80000100" "0x1122334455667788" False]
      boot_translations by (simp add: misaligned_def)
qed

theorem misaligned_load_depends_on_buffer_witness:
  "\<exists>m :: string machine. machine_ok m \<and> fst (load_func True 4 0 0x80000001 m) = Inr 0x200000 \<and>
     fst (load_func True 4 0 0x80000001 (m\<lparr>mmu := flush_tlb (mmu m)\<rparr>)) = Inl (Trap (Trap_load_address_misaligned 0x80000001 0 0))"
proof -
  let ?m = "machine_of boot_hart" and ?b = "0x80000100 :: u64"
  have h: "pmp_homogeneous (?b AND NOT 4095) 4096 (core ?m) = Inr True" unfolding machine_of_simps by code_simp
  obtain u where u: "refill_tlb ?b ?b (Mem_ptr 0x80000000 0x100) LOAD ?m = (Inr \<lparr>host_offset = ptr_add (Mem_ptr 0x80000000 0x100) (- ?b), target_offset = ?b - ?b\<rparr>, ?m\<lparr>mmu := u\<rparr>)"
      "\<forall>ty' i. tlb_tag ty' u i =
       (if i \<noteq> tlb_index ?b then tlb_tag ty' (mmu ?m) i
        else if ty' = LOAD \<and> True then (if trigger_flag LOAD (mmu ?m) then vpn_of ?b OR TLB_CHECK_TRIGGERS else vpn_of ?b)
        else drop_other_tag (vpn_of ?b) (tlb_tag ty' (mmu ?m) i))" "\<forall>ty. trigger_flag ty u = trigger_flag ty (mmu ?m)"
    using refill_tlb_eq [OF h, of ?b "Mem_ptr 0x80000000 0x100" LOAD] by blast
  have ok: "machine_ok (?m\<lparr>mmu := u\<rparr>)"
    using refill_machine_ok [OF machine_ok_harts(1), of ?b 8 LOAD ?b "Mem_ptr 0x80000000 0x100"] boot_translations(2,3) u(1)
    by (auto simp: in_page_def)
  have v: "vpn_of 0x80000001 = vpn_of ?b" by (simp add: vpn_of_def)
  have "tlb_tag LOAD u (tlb_index ?b) = vpn_of ?b" using u(2) by simp
  then have "tlb_load_tag u (tlb_index ?b) = vpn_of ?b" by (simp add: tlb_tag_def)
  then have "tag_hit (tlb_load_tag u (tlb_index 0x80000001)) 0x80000001" unfolding index_vpn [OF v] tag_hit_def v by simp
  moreover have "translate 0x80000001 4 LOAD 0 small_sim boot_hart = Inr 0x80000001" "addr_to_mem 0x80000001 small_sim = Some (Mem_ptr 0x80000000 1)"
    "typed True 4 (le_word (mem_read 0x80000000 1 4 small_sim)) = 0x200000"
    by code_simp+
  ultimately show ?thesis
    using misaligned_load_depends_on_buffer [OF ok, of 4 "0x80000001" True] ok u(3)
    by (intro exI [of _ "?m\<lparr>mmu := u\<rparr>"]) (simp add: misaligned_def in_page_def)
qed

definition stepped_hart :: hart where "stepped_hart = set_step STEP_STEPPED boot_hart"

lemma ready_harts: "ready (machine_of stepped_hart)" "ready (machine_of waiting_hart)"
  by (simp_all add: ready_def tags_ok_def even_pcs_def stepped_hart_def waiting_hart_def set_step_def boot_hart_def csrs_reset_def
    mmu_init_def flush_tlb_def flush_icache_def)

theorem pass_makes_progress_witness:
  "\<exists>m'. pass modelled_calls (\<lambda>_. None) False 5 (machine_of stepped_hart) = (Goes_on 5, m') \<and>
     3 * 5 + weight (core m') < 3 * 5 + weight stepped_hart"
proof -
  have s: "take_pending_interrupt stepped_hart = None" "\<not> serialized (csr stepped_hart)" "step_state (csr stepped_hart) = STEP_STEPPED"
    "\<not> debug_mode (csr stepped_hart)"
    by code_simp+
  then obtain m' where p: "pass modelled_calls (\<lambda>_. None) False 5 (machine_of stepped_hart) = (Goes_on 5, m')"
    by (simp add: pass_def try_block_def slow_path_def eval_nat_numeral finish_pass_def)
  have "\<not> stopped_by_trigger modelled_calls (\<lambda>_. None) False 5 (machine_of stepped_hart)"
    using s by (simp add: stopped_by_trigger_def try_block_def slow_path_def eval_nat_numeral)
  then show ?thesis
    using pass_makes_progress [OF modelled_signals ready_harts(1) p] p by simp
qed

lemma waiting_stops: "trigger_stops (Suc k) modelled_calls (\<lambda>_. None) False 100 (entered HR_NONE (machine_of waiting_hart)) = 0"
proof -
  let ?m = "machine_of waiting_hart"
  have h: "halt_cause HR_NONE waiting_hart = None" "take_pending_interrupt waiting_hart = Some (Trap_interrupt 0x800000000000000B)"
    by code_simp+
  have t: "try_block modelled_calls (\<lambda>_. None) False 100 ?m =
      (Raise (Trap (Trap_interrupt 0x800000000000000B)), \<lparr>l_pc = pc_reg (csr waiting_hart), l_instret = 0, l_n = 100\<rparr>, ?m)"
    by (simp add: try_block_def h Let_def)
  have z: "trigger_stops j call intrs d 0 m = 0" for j call intrs d and m :: "string machine" by (cases j) simp_all
  have "n' = 0" if "pass modelled_calls (\<lambda>_. None) False 100 ?m = (Goes_on n', m')" for n' m'
    using that t by (auto simp: pass_def finish_pass_def dest!: trap_handler_ends split: option.split_asm prod.split_asm)
  then show ?thesis
    using z t by (auto simp: entered_def h stopped_by_trigger_def split: prod.split outcome.split)
qed

theorem step_terminates_witness: "step 303 modelled_calls (\<lambda>_. None) HR_NONE False 100 (machine_of waiting_hart) \<noteq> None"
  by (rule step_terminates [OF modelled_signals ready_harts(2), where k = 0]) (simp_all add: waiting_stops [of 302, simplified])

end
