(* ===== verification/Spec2Isabelle.thy ===== *)
theory Spec2Isabelle
  imports SF_Mul SF_AddSub SF_IntToFloat SF_Compare SF_Convert SF_Truncate RV_Arith RV_Opcodes RV_FP_Correct RV_System_Props RV_Memory_Props
begin

text \<open>
  A verification development for ProcessorFuzz, a fuzzer that runs generated RISC-V programs on a
  reference simulator and on a processor design and compares what they do. The development is about
  the reference: the Spike simulator that the repository carries in
  \<open>original/Fuzzer/ISASim/riscv-isa-sim\<close>, with the Berkeley SoftFloat library it computes
  floating-point results with. The fuzzer finds a bug in a design when the design disagrees with
  Spike, so a wrong result of Spike is a wrong verdict.

  \<^bold>\<open>Parts and theories.\<close>

  \<^item> \<open>Prelude\<close>: words read as natural numbers, masks and shifts, the facts all others share.
  \<^item> \<open>Rounding\<close>, \<open>IEEE_Ops\<close>, \<open>IEEE_Order\<close>: the abstract specification. A finite value is
    \<open>(-1)^s * m * 2^e\<close>; \<open>ieee_round\<close> rounds it once in a mode and says which flags are raised;
    \<open>fp_add\<close>, \<open>fp_sub\<close>, \<open>fp_mul\<close> and \<open>fp_le\<close>, \<open>fp_lt\<close>, \<open>fp_eq\<close> are the operations on decoded
    values, infinities and NaNs included. Nothing in them refers to the code.
  \<^item> \<open>SF_State\<close> (\<open>softfloat_state.c\<close>, \<open>softfloat_raiseFlags.c\<close>), \<open>SF_Primitives\<close>
    (\<open>primitives.h\<close> and the \<open>s_shift*\<close>, \<open>s_countLeadingZeros*\<close>, \<open>s_add128\<close> family), \<open>SF_Pack\<close>
    (\<open>internals.h\<close>, \<open>specialize.h\<close>, \<open>s_roundPackTo*\<close>, \<open>s_normRoundPackTo*\<close>), \<open>SF_Fields\<close> (fields of a
    pattern), \<open>SF_Values\<close>: the library's foundations.
  \<^item> \<open>SF_Mul\<close>, \<open>SF_AddSub\<close>, \<open>SF_IntToFloat\<close>, \<open>SF_Compare\<close>, \<open>SF_Convert\<close>, \<open>SF_FloatToInt\<close>,
    \<open>SF_Truncate\<close>: the operations, one C file each (\<open>f32_mul.c\<close> is \<open>f32_mul\<close>).
  \<^item> \<open>RV_Arith\<close> (\<open>riscv/arith.h\<close>), \<open>RV_Decode\<close> (\<open>insn_t\<close> of \<open>riscv/decode.h\<close>, the fetch of
    \<open>riscv/mmu.h\<close>), \<open>RV_Decoder\<close> and \<open>RV_Opcodes\<close> (\<open>decode_insn\<close>, \<open>build_opcode_map\<close> and
    \<open>register_insn\<close> of \<open>riscv/processor.cc\<close>, the tables of \<open>riscv/encoding.h\<close>): from a word in
    memory to the function that executes it.
  \<^item> \<open>RV_State\<close> (the state and the macros of \<open>riscv/decode.h\<close>, \<open>riscv/processor.h\<close>), \<open>RV_Int\<close>,
    \<open>RV_Comp\<close>, \<open>RV_FP\<close>: the instruction bodies, \<open>rv_add\<close> for \<open>riscv/insns/add.h\<close> and so on;
    \<open>RV_ALU\<close> and \<open>RV_FP_Correct\<close>: what they compute.
  \<^item> \<open>RV_CSR\<close>, \<open>RV_Trap\<close>, \<open>RV_System\<close> (\<open>riscv/processor.cc\<close>, \<open>riscv/psint.cc\<close>, the system instructions of
    \<open>riscv/insns\<close>): reset, the control and status registers by address, privilege, traps, interrupts,
    returns and fences; \<open>RV_CSR_Correct\<close>, \<open>RV_Trap_Correct\<close>, \<open>RV_System_Props\<close>: what they guarantee.
  \<^item> \<open>RV_Bus\<close> (\<open>riscv/devices.cc\<close>, \<open>riscv/rom.cc\<close>, \<open>riscv/clint.cc\<close>, the memory interface of
    \<open>riscv/sim.cc\<close>), \<open>RV_PMP\<close> and \<open>RV_Translate\<close> (protection and the page-table walk of
    \<open>riscv/mmu.cc\<close>), \<open>RV_MMU\<close> (\<open>riscv/mmu.h\<close>: the translation buffer, the instruction cache, loads, stores,
    atomics, reservations, fetch, and the triggers of \<open>riscv/processor.h\<close>), \<open>RV_Mem\<close> (the memory
    instructions), \<open>RV_Step\<close> (\<open>riscv/execute.cc\<close>: the loop that executes instructions).
  \<^item> \<open>RV_Bus_Correct\<close>, \<open>RV_PMP_Correct\<close>, \<open>RV_Translate_Correct\<close>, \<open>RV_MMU_Correct\<close>, \<open>RV_Step_Correct\<close>: the facts about
    each; \<open>RV_Frames\<close>: what the operations of the unit leave of the machine; \<open>RV_Instructions\<close>: what every
    modelled instruction keeps, and the table of them the loop is run with; \<open>RV_Memory_Props\<close>: the
    properties, with concrete machines.

  \<^bold>\<open>How the model corresponds to the code.\<close> Integers have the width of the C type; \<open>reg_t\<close> and
  \<open>sreg_t\<close> are 64-bit words, the latter read with \<open>sint\<close>. A \<open>floatN_t\<close> is its bit pattern. Exponents,
  which the C code keeps in a signed type far wider than their range, are integers. SoftFloat's
  thread-local state is an argument and part of the result; a hart is a record, and an instruction
  body gives the next address and the next hart, or the trap it throws. What the processor asks of its
  memory management unit (flushes after a register write) is noted in the hart and carried out by the
  machine, the record of a hart, its unit, its decoder and the simulator. The configuration is the
  repository's: 64-bit, little-endian, \<open>SOFTFLOAT_FAST_INT64\<close>, \<open>SOFTFLOAT_ROUND_ODD\<close>, the RISC-V NaN
  rules, no commit log.

  \<^bold>\<open>What the lemmas show.\<close>

  \<^item> SoftFloat: every modelled operation returns the bits and the flags that rounding the exact result
    once gives, for all operands, the five modes and rounding to odd, and both ways to detect
    tininess; comparisons are the order of the values; conversions round, widen exactly, and clamp.
  \<^item> Decoding: immediates are those of the instruction formats, decoding does not depend on the cache or
    on the reordering of the table, and picks the instruction whose mask contains those of the others that match.
  \<^item> Execution: the register-register instructions refine a width-generic unit, compressed instructions
    are their expansions, floating-point instructions are the IEEE operations on boxed values, and every
    modelled instruction, those of the system and of memory included, preserves the invariant of the
    hart, except \<open>hlvx.wu\<close> on 32-bit registers.
  \<^item> Privilege: register writes, traps and returns preserve the invariant of the system registers; traps
    and returns undo each other, locked protection entries do not change, the interrupt taken is the first
    enabled for its target mode, accesses are checked before they change anything.
  \<^item> Memory: protection is the first entry an access meets; the walk of the page table is the path of
    entries to a leaf that allows the access; loads, stores and fetches through the translation
    buffer do what they would do without it, which rests on the invariant \<open>tlb_ok\<close> and on the contract
    \<open>paged_memory\<close> of the bus; what is stored is loaded back, by the contract \<open>byte_store\<close> of memory.
  \<^item> The loop: \<open>step\<close> returns, unless triggers stop its passes without end.

  \<^bold>\<open>Loops and bounds.\<close> Most loops of the modelled code are over lists, levels or tables and are
  structural recursions. \<open>ctz_loop\<close> and \<open>cto_loop\<close> shift a word until a bit is found and end by the measure
  of the word. The outer loop of \<open>step\<close> need not end, so \<open>step_loop\<close> has fuel, the number of passes. A pass
  that no trigger stops retires an instruction or makes the hart serialized or ends a single step, at most two of
  the latter between instructions, so \<open>3n + 3\<close> passes are enough for \<open>n\<close> instructions when no trigger stops one;
  \<open>step_terminates\<close> shows that \<open>(3n + 3)(k + 1)\<close> are enough when triggers stop at most \<open>k\<close>. The code does loop for
  ever when a trigger fires on the first instruction of the trap vector. What the loop needs of the
  instructions is the law \<open>signals_ok\<close>, proved of the modelled ones in \<open>modelled_signals\<close>.
  The opcode cache, the 65536-entry tables and the arrays of the translation buffer are functions on
  their index. Shifts by the width of the type or more, which C leaves undefined, take the amount
  modulo the width.

  \<^bold>\<open>Restrictions.\<close> The properties of the translation buffer are for aligned accesses on a hart without
  \<open>MPRV\<close>, since the code does not keep its invariant otherwise (a misaligned access behaves differently
  on a hit and on a miss, which is a property of its own). The walk is characterised without a guest;
  the second stage is modelled and agrees within a page. What \<open>step\<close> does is relative to the functions
  of the instructions; \<open>modelled_calls\<close> is the table of the modelled ones, in which the others are illegal.

  \<^bold>\<open>Not modelled.\<close> In SoftFloat: division, square root, remainder, fused multiply-add, rounding to an
  integral value, half-precision sums, the quad format and its multi-word primitives. In Spike: the vector
  and bit-manipulation extensions, the debug module, the interactive monitor, the disassembler, the
  device-tree library and the host interface of \<open>fesvr\<close>; what memory tracers and the commit log record.
  The fuzzer itself is Python. Code that only performs input and output, or is generated, has no
  property to state here.
\<close>

end
